(* ===== verification/TM_Prelude.thy ===== *)
theory TM_Prelude imports Main "HOL-Library.AList" "HOL-Library.Word" begin

section \<open>Prelude: shared types, containers, automation and interfaces\<close>

text \<open>
  What every theory of the library shares.

  \<^item> Qt value types.  A \<open>QString\<close> that the code only compares, tests for emptiness,
    concatenates or searches is a \<open>string\<close> (the empty string is both the null and the
    empty \<open>QString\<close>, which \<open>isEmpty\<close> does not tell apart).  Counters and time stamps whose
    wrap-around no code path depends on are \<open>int\<close>; \<open>quint64\<close> revisions and request ids are
    64-bit words.
  \<^item> \<open>QHash\<close> and \<open>QMap\<close> as association lists with distinct keys.  The position in the list
    is the (unspecified) iteration order of the container; look-ups go through \<open>map_of\<close>.
  \<^item> \<open>qMax\<close>, \<open>qMin\<close>, \<open>qBound\<close> and \<open>std::clamp\<close>.
  \<^item> The interfaces several components share, as locales: machines driven by events,
    simulations, requests served once and bounded histories.
\<close>

subsection \<open>Collections of facts\<close>

named_theorems hash_simps \<open>what the operations of a hash do to a look-up\<close>

subsection \<open>Qt value types\<close>

type_synonym qstring = string

type_synonym quint64 = "64 word"

text \<open>\<open>text.startsWith(prefix)\<close>\<close>

definition startsWith :: "qstring \<Rightarrow> qstring \<Rightarrow> bool" where
  "startsWith prefix str \<longleftrightarrow> take (length prefix) str = prefix"

lemma startsWith_iff: "startsWith prefix str \<longleftrightarrow> (\<exists>rest. str = prefix @ rest)"
  unfolding startsWith_def by (metis append_eq_conv_conj append_take_drop_id)

text \<open>\<open>qBound(lo, v, hi)\<close> and \<open>std::clamp(v, lo, hi)\<close>, for \<open>lo <= hi\<close>.\<close>

definition qBound :: "int \<Rightarrow> int \<Rightarrow> int \<Rightarrow> int" where
  "qBound lo v hi = max lo (min v hi)"

lemma qBound_range: "lo \<le> hi \<Longrightarrow> lo \<le> qBound lo v hi \<and> qBound lo v hi \<le> hi"
  by (simp add: qBound_def)

lemma qBound_id: "lo \<le> v \<Longrightarrow> v \<le> hi \<Longrightarrow> qBound lo v hi = v"
  by (simp add: qBound_def)

subsection \<open>Hashes\<close>

type_synonym ('k, 'v) qhash = "('k \<times> 'v) list"

text \<open>The class invariant of the container: one entry per key.\<close>

definition hash_ok :: "('k, 'v) qhash \<Rightarrow> bool" where
  "hash_ok h \<longleftrightarrow> distinct (map fst h)"

text \<open>\<open>contains\<close>, \<open>insert\<close> (also \<open>operator[]\<close> with an assignment), \<open>remove\<close> and
  \<open>value\<close>, which yields the default for an absent key.\<close>

definition hash_contains :: "'k \<Rightarrow> ('k, 'v) qhash \<Rightarrow> bool" where
  "hash_contains k h \<longleftrightarrow> map_of h k \<noteq> None"

definition hash_insert :: "'k \<Rightarrow> 'v \<Rightarrow> ('k, 'v) qhash \<Rightarrow> ('k, 'v) qhash" where
  "hash_insert k v h = AList.update k v h"

definition hash_remove :: "'k \<Rightarrow> ('k, 'v) qhash \<Rightarrow> ('k, 'v) qhash" where
  "hash_remove k h = AList.delete k h"

definition hash_value :: "'v \<Rightarrow> 'k \<Rightarrow> ('k, 'v) qhash \<Rightarrow> 'v" where
  "hash_value d k h = (case map_of h k of None \<Rightarrow> d | Some v \<Rightarrow> v)"

lemma hash_ok_Nil [simp]: "hash_ok []"
  by (simp add: hash_ok_def)

lemma hash_ok_insert [simp]: "hash_ok h \<Longrightarrow> hash_ok (hash_insert k v h)"
  by (simp add: hash_ok_def hash_insert_def distinct_update)

lemma hash_ok_remove [simp]: "hash_ok h \<Longrightarrow> hash_ok (hash_remove k h)"
  by (simp add: hash_ok_def hash_remove_def distinct_delete)

lemma hash_ok_filter [simp]: "hash_ok h \<Longrightarrow> hash_ok (filter P h)"
  by (simp add: hash_ok_def distinct_map_filter)

lemma map_of_insert [hash_simps, simp]:
  "map_of (hash_insert k v h) = (map_of h)(k \<mapsto> v)"
  by (simp add: hash_insert_def update_conv')

lemma map_of_remove [hash_simps, simp]:
  "map_of (hash_remove k h) = (map_of h)(k := None)"
  by (simp add: hash_remove_def delete_conv')

lemma hash_value_insert [hash_simps, simp]:
  "hash_value d j (hash_insert k v h) = (if j = k then v else hash_value d j h)"
  by (simp add: hash_value_def)

lemma hash_value_remove [hash_simps, simp]:
  "hash_value d j (hash_remove k h) = (if j = k then d else hash_value d j h)"
  by (simp add: hash_value_def)

lemma hash_contains_insert [hash_simps, simp]:
  "hash_contains j (hash_insert k v h) \<longleftrightarrow> j = k \<or> hash_contains j h"
  by (simp add: hash_contains_def)

lemma hash_contains_remove [hash_simps, simp]:
  "hash_contains j (hash_remove k h) \<longleftrightarrow> j \<noteq> k \<and> hash_contains j h"
  by (simp add: hash_contains_def)

lemma hash_contains_Nil [simp]: "\<not> hash_contains k []"
  by (simp add: hash_contains_def)

lemma hash_value_Nil [simp]: "hash_value d k [] = d"
  by (simp add: hash_value_def)

lemma hash_value_Some: "map_of h k = Some v \<Longrightarrow> hash_value d k h = v"
  by (simp add: hash_value_def)

lemma hash_value_None: "\<not> hash_contains k h \<Longrightarrow> hash_value d k h = d"
  by (simp add: hash_value_def hash_contains_def)

lemma hash_contains_in_keys: "hash_contains k h \<longleftrightarrow> k \<in> fst ` set h"
  by (auto simp: hash_contains_def map_of_eq_None_iff)

lemma hash_ok_map_of: "hash_ok h \<Longrightarrow> (k, v) \<in> set h \<longleftrightarrow> map_of h k = Some v"
  by (auto simp: hash_ok_def)

lemma set_hash_insert:
  assumes "hash_ok h"
  shows "set (hash_insert k v h) = insert (k, v) {p \<in> set h. fst p \<noteq> k}"
proof -
  have "(a, b) \<in> set (hash_insert k v h) \<longleftrightarrow> (a, b) \<in> insert (k, v) {p \<in> set h. fst p \<noteq> k}" for a b
    using assms by (auto simp: hash_ok_map_of [OF hash_ok_insert [OF assms]] hash_ok_map_of [OF assms]
        split: if_splits)
  then show ?thesis by auto
qed

lemma set_hash_remove: "set (hash_remove k h) = {p \<in> set h. fst p \<noteq> k}"
  by (auto simp: hash_remove_def AList.delete_eq)

text \<open>Sums over a hash do not depend on the iteration order: replacing one entry changes
  the sum by the difference.\<close>

definition hash_sum :: "('v \<Rightarrow> int) \<Rightarrow> ('k, 'v) qhash \<Rightarrow> int" where
  "hash_sum f h = sum_list (map (\<lambda>p. f (snd p)) h)"

lemma hash_sum_Nil [simp]: "hash_sum f [] = 0"
  by (simp add: hash_sum_def)

lemma hash_sum_Cons [simp]: "hash_sum f (p # h) = f (snd p) + hash_sum f h"
  by (simp add: hash_sum_def)

lemma hash_sum_insert:
  assumes "f d = 0"
  shows "hash_sum f (hash_insert k v h) = hash_sum f h - f (hash_value d k h) + f v"
  using assms by (induction h) (auto simp: hash_insert_def hash_value_def)

lemma hash_sum_cong:
  "(\<And>p. p \<in> set h \<Longrightarrow> f (snd p) = g (snd p)) \<Longrightarrow> hash_sum f h = hash_sum g h"
  by (induction h) auto

lemma hash_sum_nonneg: "(\<And>p. p \<in> set h \<Longrightarrow> 0 \<le> f (snd p)) \<Longrightarrow> 0 \<le> hash_sum f h"
  by (induction h) auto

lemma hash_sum_mono:
  "(\<And>p. p \<in> set h \<Longrightarrow> f (snd p) \<le> g (snd p)) \<Longrightarrow> hash_sum f h \<le> hash_sum g h"
  by (induction h) (auto intro: add_mono)

subsection \<open>Interface: machines driven by events\<close>

text \<open>A component whose public methods are events of one step function, with an invariant
  every method keeps.\<close>

locale event_machine =
  fixes step :: "'s \<Rightarrow> 'e \<Rightarrow> 's" and inv :: "'s \<Rightarrow> bool"
  assumes step_inv: "inv s \<Longrightarrow> inv (step s e)"
begin

lemma run_inv: "inv s \<Longrightarrow> inv (foldl step s es)"
  by (induction es arbitrary: s) (auto intro: step_inv)

lemma run_inv_prefix: "inv s \<Longrightarrow> inv (foldl step s (take n es))"
  by (rule run_inv)

end

text \<open>A component that also emits signals.  \<open>view\<close> is what a listener shows, \<open>decode\<close> the
  value a signal carries to it.  The law: replaying the signals of one call over the old view
  gives the new view.  Then a listener that keeps the last value it was sent is never stale,
  whatever the calls.\<close>

definition replay :: "('o \<Rightarrow> 'v option) \<Rightarrow> 'v \<Rightarrow> 'o list \<Rightarrow> 'v" where
  "replay decode v sigs =
     foldl (\<lambda>w x. case decode x of None \<Rightarrow> w | Some w' \<Rightarrow> w') v sigs"

lemma replay_Nil [simp]: "replay decode v [] = v"
  by (simp add: replay_def)

lemma replay_Cons [simp]:
  "replay decode v (x # xs) =
     replay decode (case decode x of None \<Rightarrow> v | Some w \<Rightarrow> w) xs"
  by (simp add: replay_def)

lemma replay_append [simp]:
  "replay decode v (xs @ ys) = replay decode (replay decode v xs) ys"
  by (simp add: replay_def)

lemma replay_silent: "(\<And>x. x \<in> set xs \<Longrightarrow> decode x = None) \<Longrightarrow> replay decode v xs = v"
  by (induction xs) auto

primrec run_signals :: "('s \<Rightarrow> 'e \<Rightarrow> 's \<times> 'o list) \<Rightarrow> 's \<Rightarrow> 'e list \<Rightarrow> 's \<times> 'o list" where
  "run_signals call s [] = (s, [])"
| "run_signals call s (e # es) =
     (let (s1, sigs1) = call s e; (s2, sigs2) = run_signals call s1 es in (s2, sigs1 @ sigs2))"

lemma fst_run_signals: "fst (run_signals call s es) = foldl (\<lambda>t e. fst (call t e)) s es"
  by (induction es arbitrary: s) (simp_all add: Let_def case_prod_beta)

locale signalling_machine =
  event_machine "\<lambda>s e. fst (call s e)" inv
  for call :: "'s \<Rightarrow> 'e \<Rightarrow> 's \<times> 'o list" and inv :: "'s \<Rightarrow> bool" +
  fixes view :: "'s \<Rightarrow> 'v" and decode :: "'o \<Rightarrow> 'v option"
  assumes call_view: "inv s \<Longrightarrow> replay decode (view s) (snd (call s e)) = view (fst (call s e))"
begin

lemma listener_current:
  "inv s \<Longrightarrow>
   replay decode (view s) (snd (run_signals call s es)) = view (fst (run_signals call s es))"
proof (induction es arbitrary: s)
  case Nil
  then show ?case by simp
next
  case (Cons e es)
  obtain s1 sigs1 where call1: "call s e = (s1, sigs1)" by fastforce
  obtain s2 sigs2 where rest: "run_signals call s1 es = (s2, sigs2)" by fastforce
  from Cons.prems have "replay decode (view s) sigs1 = view s1" and "inv s1"
    using call_view [of s e] step_inv [of s e] by (simp_all add: call1)
  with Cons.IH [of s1] show ?case by (simp add: call1 rest)
qed

end

subsection \<open>Interface: an implementation that follows its specification\<close>

text \<open>A concrete machine simulates an abstract one along the relation \<open>R\<close>, as long as the
  events are ones the client may send (\<open>ok\<close>).\<close>

primrec run_ok :: "('a \<Rightarrow> 'e \<Rightarrow> 'a) \<Rightarrow> ('a \<Rightarrow> 'e \<Rightarrow> bool) \<Rightarrow> 'a \<Rightarrow> 'e list \<Rightarrow> bool" where
  "run_ok astep ok a [] \<longleftrightarrow> True"
| "run_ok astep ok a (e # es) \<longleftrightarrow> ok a e \<and> run_ok astep ok (astep a e) es"

locale simulation =
  fixes astep :: "'a \<Rightarrow> 'e \<Rightarrow> 'a" and cstep :: "'c \<Rightarrow> 'e \<Rightarrow> 'c"
    and R :: "'a \<Rightarrow> 'c \<Rightarrow> bool" and ok :: "'a \<Rightarrow> 'e \<Rightarrow> bool"
  assumes sim: "R a c \<Longrightarrow> ok a e \<Longrightarrow> R (astep a e) (cstep c e)"
begin

lemma run_sim: "R a c \<Longrightarrow> run_ok astep ok a es \<Longrightarrow> R (foldl astep a es) (foldl cstep c es)"
  by (induction es arbitrary: a c) (auto intro: sim)

end

text \<open>A machine whose client may send only some events in a state (\<open>ok\<close>).  A machine without
  such a guard is the special case.\<close>

locale guarded_machine =
  fixes step :: "'s \<Rightarrow> 'e \<Rightarrow> 's" and inv :: "'s \<Rightarrow> bool" and ok :: "'s \<Rightarrow> 'e \<Rightarrow> bool"
  assumes guarded_step: "inv s \<Longrightarrow> ok s e \<Longrightarrow> inv (step s e)"
begin

lemma guarded_run: "inv s \<Longrightarrow> run_ok step ok s es \<Longrightarrow> inv (foldl step s es)"
  by (induction es arbitrary: s) (auto intro: guarded_step)

end

sublocale event_machine \<subseteq> guarded_machine step inv "\<lambda>_ _. True"
  by unfold_locales (rule step_inv)

lemma foldl_keeps:
  "P a \<Longrightarrow> (\<And>b x. P b \<Longrightarrow> P (f b x)) \<Longrightarrow> P (foldl f a xs)"
  by (induction xs arbitrary: a) auto

subsection \<open>Interface: requests that are served once\<close>

text \<open>A store of requests, one per key: \<open>request k v\<close> files (or replaces) the request of \<open>k\<close>,
  \<open>take k\<close> hands it out and forgets it, other keys are not touched.\<close>

datatype ('k, 'v) shot = Request 'k 'v | Take 'k

primrec requests_of :: "'k \<Rightarrow> ('k, 'v) shot list \<Rightarrow> 'v list" where
  "requests_of k [] = []"
| "requests_of k (e # es) =
     (case e of Request j v \<Rightarrow> if j = k then [v] else [] | Take j \<Rightarrow> []) @ requests_of k es"

locale one_shot =
  fixes pending :: "'s \<Rightarrow> 'k \<Rightarrow> 'v option"
    and request :: "'k \<Rightarrow> 'v \<Rightarrow> 's \<Rightarrow> 's"
    and take_out :: "'k \<Rightarrow> 's \<Rightarrow> 's \<times> 'v option"
  assumes pending_request: "pending (request k v s) j = (if j = k then Some v else pending s j)"
    and take_value: "snd (take_out k s) = pending s k"
    and pending_take: "pending (fst (take_out k s)) j = (if j = k then None else pending s j)"
begin

fun shot_step :: "'s \<Rightarrow> ('k, 'v) shot \<Rightarrow> 's" where
  "shot_step s (Request k v) = request k v s"
| "shot_step s (Take k) = fst (take_out k s)"

primrec served :: "'k \<Rightarrow> 's \<Rightarrow> ('k, 'v) shot list \<Rightarrow> 'v list" where
  "served k s [] = []"
| "served k s (e # es) =
     (case e of
        Take j \<Rightarrow> (if j = k then (case snd (take_out k s) of Some v \<Rightarrow> [v] | None \<Rightarrow> []) else [])
      | Request j v \<Rightarrow> []) @ served k (shot_step s e) es"

lemma take_after_request: "snd (take_out k (request k v s)) = Some v"
  by (simp add: take_value pending_request)

lemma take_twice: "snd (take_out k (fst (take_out k s))) = None"
  by (simp add: take_value pending_take)

lemma take_other: "j \<noteq> k \<Longrightarrow> snd (take_out j (fst (take_out k s))) = snd (take_out j s)"
  by (simp add: take_value pending_take)

text \<open>No request is served twice: the values served for a key are among those filed, in
  number at most the requests (and what was pending before).\<close>

lemma served_le_requests:
  "length (served k s es) \<le> length (requests_of k es) + (if pending s k = None then 0 else 1)"
proof (induction es arbitrary: s)
  case (Cons e es)
  show ?case
  proof (cases e)
    case (Request j v)
    with Cons.IH [of "request j v s"] show ?thesis by (auto simp: pending_request split: if_splits)
  next
    case (Take j)
    with Cons.IH [of "fst (take_out j s)"] show ?thesis
      by (auto simp: pending_take take_value split: if_splits option.splits)
  qed
qed simp

lemma served_from_requests:
  "set (served k s es) \<subseteq> set (requests_of k es) \<union> set_option (pending s k)"
proof (induction es arbitrary: s)
  case (Cons e es)
  show ?case
  proof (cases e)
    case (Request j v)
    with Cons.IH [of "request j v s"] show ?thesis by (auto simp: pending_request split: if_splits)
  next
    case (Take j)
    with Cons.IH [of "fst (take_out j s)"] show ?thesis
      by (cases "pending s k"; cases "j = k") (simp_all add: pending_take take_value Take, blast+)
  qed
qed simp

end

subsection \<open>Interface: bounded histories\<close>

text \<open>A stack of at most \<open>cap\<close> entries that forgets its oldest entry when it is full and
  refuses entries that are not \<open>good\<close>.\<close>

definition last_n :: "nat \<Rightarrow> 'a list \<Rightarrow> 'a list" where
  "last_n n xs = drop (length xs - n) xs"

lemma last_n_length: "length (last_n n xs) = min n (length xs)"
  by (simp add: last_n_def)

lemma last_n_last_n: "last_n n (last_n n xs @ ys) = last_n n (xs @ ys)"
  by (cases "length xs \<le> n") (auto simp: last_n_def add.commute)

locale bounded_stack =
  fixes items :: "'s \<Rightarrow> 'a list" and push :: "'a \<Rightarrow> 's \<Rightarrow> 's" and pop :: "'s \<Rightarrow> 's"
    and good :: "'a \<Rightarrow> bool" and cap :: nat
  assumes cap_pos: "0 < cap"
    and items_push: "items (push x s) =
      (if \<not> good x then items s
       else (if cap \<le> length (items s) then tl (items s) else items s) @ [x])"
    and items_pop: "items (pop s) = butlast (items s)"
begin

lemma push_bound: "length (items s) \<le> cap \<Longrightarrow> length (items (push x s)) \<le> cap"
  using cap_pos by (auto simp: items_push)

lemma pop_bound: "length (items s) \<le> cap \<Longrightarrow> length (items (pop s)) \<le> cap"
  by (simp add: items_pop)

lemma pop_push:
  "good x \<Longrightarrow> length (items s) < cap \<Longrightarrow> items (pop (push x s)) = items s"
  by (simp add: items_push items_pop)

lemma top_after_push: "good x \<Longrightarrow> items (push x s) \<noteq> [] \<and> last (items (push x s)) = x"
  by (simp add: items_push)

lemma pushes_keep_last:
  "length (items s) \<le> cap \<Longrightarrow>
   items (foldl (\<lambda>t x. push x t) s xs) = last_n cap (items s @ filter good xs)"
proof (induction xs arbitrary: s)
  case Nil
  then show ?case by (simp add: last_n_def)
next
  case (Cons x xs)
  show ?case
  proof (cases "good x")
    case True
    have "items (push x s) = last_n cap (items s @ [x])"
      using True Cons.prems cap_pos
      by (cases "items s") (auto simp: items_push last_n_def Suc_diff_le not_le)
    moreover have "length (items (push x s)) \<le> cap" using Cons.prems by (rule push_bound)
    ultimately show ?thesis
      using Cons.IH [of "push x s"] True last_n_last_n [of cap "items s @ [x]" "filter good xs"]
      by simp
  next
    case False
    with Cons show ?thesis by (simp add: items_push)
  qed
qed

end

end
