(* ===== verification/Protocol_Types.thy ===== *)
theory Protocol_Types imports TM_Prelude Complex_Main begin

section \<open>The value types of the protocol layer\<close>

text \<open>
  The plain data that crosses the bridge between the Rust backend and the Qt front end:
  \<^verbatim>\<open>src/src/protocol/timeline_item_content.h\<close> (the variants a timeline item can hold) and the
  part of \<^verbatim>\<open>src/src/protocol/protocol_types.h\<close> the modelled components use.  A C++ struct is a
  record, its fields prefixed by a short tag because several structs share field names; an
  \<open>enum class\<close> is a datatype, \<open>std::variant\<close> is a datatype with one constructor per
  alternative and \<open>std::optional\<close> is \<open>option\<close>.  A value with every field at its C++ default
  member initialiser is the constant \<open>default_<type>\<close>.
\<close>

subsection \<open>Timeline item content (\<^verbatim>\<open>timeline_item_content.h\<close>)\<close>

datatype content_type =
  ContentText | ContentImage | ContentFile | ContentVideo | ContentService | ContentPoll
| ContentAudio | ContentUnableToDecrypt

datatype poll_kind = PollDisclosed | PollUndisclosed

datatype send_state = Sending | Sent | Read | Failed

datatype preview_type =
  PreviewNone | PreviewArticle | PreviewPhoto | PreviewVideo | PreviewDocument
| PreviewProfile | PreviewGroup | PreviewChannel

record poll_option_info =
  po_id :: qstring
  po_text :: qstring
  po_voteCount :: int
  po_votePercent :: int
  po_filling :: real
  po_isChosen :: bool
  po_isCorrect :: bool

record timeline_text_content =
  txt_body :: qstring
  txt_formattedBody :: qstring

record timeline_media_content =
  med_body :: qstring
  med_url :: qstring
  med_mime :: qstring
  med_filename :: qstring
  med_caption :: qstring
  med_thumbUrl :: qstring
  med_blurhash :: qstring
  med_size :: quint64
  med_width :: int
  med_height :: int
  med_durationMs :: quint64

record timeline_audio_content =
  aud_media :: timeline_media_content
  aud_isVoice :: bool
  aud_waveform :: "8 word list"

record timeline_poll_content =
  poll_question :: qstring
  poll_subtitle :: qstring
  poll_options :: "poll_option_info list"
  poll_totalVoters :: int
  poll_maxSelections :: int
  poll_isClosed :: bool
  poll_isMultiChoice :: bool
  poll_isQuiz :: bool
  poll_hasVoted :: bool
  poll_kindOf :: poll_kind

record timeline_service_content =
  svc_body :: qstring

record timeline_utd_content =
  utd_body :: qstring
  utd_cause :: int
  utd_state :: int

text \<open>The \<open>std::variant\<close>, in the order of its alternatives.  The image, video and file
  structs hold nothing but a \<open>media\<close> member.\<close>

datatype timeline_content =
  TextContent timeline_text_content
| ImageContent timeline_media_content
| FileContent timeline_media_content
| VideoContent timeline_media_content
| AudioContent timeline_audio_content
| ServiceContent timeline_service_content
| PollContent timeline_poll_content
| UnableToDecryptContent timeline_utd_content

record timeline_sender_info =
  snd_id :: qstring
  snd_name :: qstring
  snd_avatarUrl :: qstring

record timeline_reply_info =
  rep_eventId :: qstring
  rep_senderName :: qstring
  rep_text :: qstring
  rep_thumbUrl :: qstring
  rep_hasThumb :: bool
  rep_isTextColorized :: bool
  rep_isDeleted :: bool
  rep_isUnavailable :: bool

record timeline_forward_info =
  fwd_senderName :: qstring
  fwd_senderId :: qstring
  fwd_avatarUrl :: qstring

record timeline_url_preview_info =
  prv_url :: qstring
  prv_siteName :: qstring
  prv_title :: qstring
  prv_description :: qstring
  prv_imageUrl :: qstring
  prv_imageWidth :: int
  prv_imageHeight :: int
  prv_type :: preview_type
  prv_duration :: int
  prv_author :: qstring
  prv_hasLargeMedia :: bool
  prv_siteNameCanonical :: qstring

record timeline_encryption_info =
  enc_encrypted :: bool
  enc_decryptionError :: qstring

record timeline_delivery_info =
  del_sendState :: send_state
  del_uploadProgress :: real
  del_outgoing :: bool
  del_deleted :: bool

subsection \<open>Rooms and timelines (\<^verbatim>\<open>protocol_types.h\<close>)\<close>

datatype room_notification_mode = AllMessages | MentionsOnly | Mute

definition roomCountsAsMuted :: "room_notification_mode \<Rightarrow> bool \<Rightarrow> bool" where
  "roomCountsAsMuted mode muted \<longleftrightarrow> muted \<or> mode \<noteq> AllMessages"

datatype membership_state =
  MemberJoin | MemberInvite | MemberLeave | MemberBan | MemberKnock

record reaction_info =
  rea_key :: qstring
  rea_count :: int
  rea_isSelf :: bool

record room_summary =
  rs_roomId :: qstring
  rs_displayName :: qstring
  rs_canonicalAlias :: qstring
  rs_avatarUrl :: qstring
  rs_avatarEntityId :: qstring
  rs_lastMessage :: qstring
  rs_lastSender :: qstring
  rs_timestamp :: int
  rs_unreadCount :: int
  rs_isMarkedUnread :: bool
  rs_highlightCount :: int
  rs_notificationMode :: room_notification_mode
  rs_isMuted :: bool
  rs_isPinned :: bool
  rs_pinnedOrder :: real
  rs_isDirect :: bool
  rs_isPublic :: bool
  rs_filterIds :: "int list"
  rs_spaceIds :: "qstring list"
  rs_isLastMessageOutgoing :: bool
  rs_isLastMessageService :: bool
  rs_lastMessageSendState :: send_state
  rs_memberCount :: quint64
  rs_canPinMessages :: bool
  rs_peerPresence :: int
  rs_membership :: membership_state
  rs_inviterUserId :: qstring
  rs_inviterDisplayName :: qstring
  rs_inviterAvatarUrl :: qstring
  rs_roomTopic :: qstring

definition default_room_summary :: room_summary where
  "default_room_summary = \<lparr>
     rs_roomId = [], rs_displayName = [], rs_canonicalAlias = [], rs_avatarUrl = [],
     rs_avatarEntityId = [], rs_lastMessage = [], rs_lastSender = [], rs_timestamp = 0,
     rs_unreadCount = 0, rs_isMarkedUnread = False, rs_highlightCount = 0,
     rs_notificationMode = AllMessages, rs_isMuted = False, rs_isPinned = False,
     rs_pinnedOrder = -1, rs_isDirect = False, rs_isPublic = False, rs_filterIds = [],
     rs_spaceIds = [], rs_isLastMessageOutgoing = False, rs_isLastMessageService = False,
     rs_lastMessageSendState = Sent, rs_memberCount = 0, rs_canPinMessages = False,
     rs_peerPresence = 0, rs_membership = MemberJoin, rs_inviterUserId = [],
     rs_inviterDisplayName = [], rs_inviterAvatarUrl = [], rs_roomTopic = [] \<rparr>"

record room_unread_snapshot =
  ru_unreadCount :: int
  ru_highlightCount :: int
  ru_notificationMode :: room_notification_mode
  ru_isMuted :: bool
  ru_isMarkedUnread :: bool

definition default_room_unread_snapshot :: room_unread_snapshot where
  "default_room_unread_snapshot = \<lparr> ru_unreadCount = 0, ru_highlightCount = 0,
     ru_notificationMode = AllMessages, ru_isMuted = False, ru_isMarkedUnread = False \<rparr>"

record timeline_item =
  ti_eventId :: qstring
  ti_transactionId :: qstring
  ti_sender :: timeline_sender_info
  ti_timestamp :: int
  ti_content :: timeline_content
  ti_reply :: "timeline_reply_info option"
  ti_forwardedFrom :: "timeline_forward_info option"
  ti_urlPreview :: "timeline_url_preview_info option"
  ti_encryption :: timeline_encryption_info
  ti_delivery :: timeline_delivery_info
  ti_reactions :: "reaction_info list"
  ti_isEdited :: bool
  ti_isPinned :: bool

definition default_timeline_item :: timeline_item where
  "default_timeline_item = \<lparr>
     ti_eventId = [], ti_transactionId = [],
     ti_sender = \<lparr> snd_id = [], snd_name = [], snd_avatarUrl = [] \<rparr>,
     ti_timestamp = 0, ti_content = TextContent \<lparr> txt_body = [], txt_formattedBody = [] \<rparr>,
     ti_reply = None, ti_forwardedFrom = None, ti_urlPreview = None,
     ti_encryption = \<lparr> enc_encrypted = False, enc_decryptionError = [] \<rparr>,
     ti_delivery = \<lparr> del_sendState = Sent, del_uploadProgress = -1,
                     del_outgoing = False, del_deleted = False \<rparr>,
     ti_reactions = [], ti_isEdited = False, ti_isPinned = False \<rparr>"

datatype timeline_update_kind =
  UpdateFull | UpdateAppend | UpdatePrepend | UpdateReplace | UpdateMetadataOnly

record timeline_slice =
  ts_items :: "timeline_item list"
  ts_updateKind :: timeline_update_kind
  ts_updateIndex :: int
  ts_canPaginateBack :: bool
  ts_canPaginateForward :: bool
  ts_hitTimelineStart :: bool
  ts_isLive :: bool
  ts_focusEventId :: qstring
  ts_pinnedEventIds :: "qstring list"
  ts_firstUnreadEventId :: qstring
  ts_readMarkerLoaded :: bool
  ts_unreadCount :: int
  ts_unreadStateKnown :: bool

definition default_timeline_slice :: timeline_slice where
  "default_timeline_slice = \<lparr>
     ts_items = [], ts_updateKind = UpdateFull, ts_updateIndex = 0,
     ts_canPaginateBack = False, ts_canPaginateForward = False, ts_hitTimelineStart = False,
     ts_isLive = True, ts_focusEventId = [], ts_pinnedEventIds = [],
     ts_firstUnreadEventId = [], ts_readMarkerLoaded = False, ts_unreadCount = 0,
     ts_unreadStateKnown = False \<rparr>"

record room_scroll_state =
  rsc_anchorEventId :: qstring
  rsc_anchorPixelOffset :: int
  rsc_wasLive :: bool
  rsc_focusEventId :: qstring

definition default_room_scroll_state :: room_scroll_state where
  "default_room_scroll_state = \<lparr> rsc_anchorEventId = [], rsc_anchorPixelOffset = 0,
     rsc_wasLive = True, rsc_focusEventId = [] \<rparr>"

record search_hit =
  sh_roomId :: qstring
  sh_eventId :: qstring
  sh_senderId :: qstring
  sh_senderName :: qstring
  sh_timestamp :: int
  sh_snippet :: qstring
  sh_rank :: int
  sh_localOnly :: bool

record search_page =
  sp_requestId :: quint64
  sp_hits :: "search_hit list"
  sp_totalApprox :: int
  sp_nextToken :: qstring
  sp_done :: bool
  sp_e2eeDisabled :: bool
  sp_indexing :: bool

end
