(* ===== verification/Unread_Store.thy ===== *)
theory Unread_Store imports Protocol_Types begin

section \<open>The unread-state store\<close>

text \<open>
  \<^verbatim>\<open>src/src/app/unread_state_store.h\<close> and \<^verbatim>\<open>.cpp\<close>: what the badges show for every room.  The
  store merges three server feeds (room list, per-room snapshot, timeline slice) with the
  optimistic state of reads that are still on the wire.  One definition per method, in the
  order of the source.  A method returns the new store together with the signals it emits, in
  order; the slots connected to them do not call back into the store in this model.
\<close>

subsection \<open>State\<close>

record unread_room_state =
  us_roomId :: qstring
  serverUnreadCount :: int
  serverHighlightCount :: int
  serverMarkedUnread :: bool
  serverFirstUnreadEventId :: qstring
  serverLastActivityTs :: int
  readFrontierTs :: int
  effectiveUnreadCount :: int
  effectiveHighlightCount :: int
  effectiveMarkedUnread :: bool
  effectiveFirstUnreadEventId :: qstring
  displayUnreadCount :: int
  displayHighlightCount :: int
  pendingExplicitMarkRead :: bool
  pendingExplicitMarkUnread :: bool
  pendingExplicitRevision :: quint64
  pendingExplicitRequestId :: quint64
  pendingReadTillEventId :: qstring
  pendingOptimisticFrontierEventId :: qstring
  pendingOptimisticUnreadCount :: int
  pendingReadRevision :: quint64
  pendingReadRequestId :: quint64
  lastAckedReceiptEventId :: qstring
  requestRevision :: quint64
  us_notificationMode :: room_notification_mode
  us_isMuted :: bool

definition default_unread_room_state :: unread_room_state where
  "default_unread_room_state = \<lparr>
     us_roomId = [], serverUnreadCount = 0, serverHighlightCount = 0,
     serverMarkedUnread = False, serverFirstUnreadEventId = [], serverLastActivityTs = 0,
     readFrontierTs = 0, effectiveUnreadCount = 0, effectiveHighlightCount = 0,
     effectiveMarkedUnread = False, effectiveFirstUnreadEventId = [],
     displayUnreadCount = 0, displayHighlightCount = 0,
     pendingExplicitMarkRead = False, pendingExplicitMarkUnread = False,
     pendingExplicitRevision = 0, pendingExplicitRequestId = 0,
     pendingReadTillEventId = [], pendingOptimisticFrontierEventId = [],
     pendingOptimisticUnreadCount = -1, pendingReadRevision = 0, pendingReadRequestId = 0,
     lastAckedReceiptEventId = [], requestRevision = 0,
     us_notificationMode = AllMessages, us_isMuted = False \<rparr>"

datatype unread_signal =
  RoomUnreadStateChanged qstring
| RoomReadProgressed qstring
| TotalUnreadChanged int
| ActiveRoomUnreadStateChanged qstring int qstring

record unread_store =
  us_rooms :: "(qstring, unread_room_state) qhash"
  activeRoomId :: qstring
  readConsumingRoomId :: qstring
  lastTotalUnreadIncludingMuted :: int

definition initial_unread_store :: unread_store where
  "initial_unread_store = \<lparr> us_rooms = [], activeRoomId = [], readConsumingRoomId = [],
     lastTotalUnreadIncludingMuted = 0 \<rparr>"

definition roomState :: "unread_store \<Rightarrow> qstring \<Rightarrow> unread_room_state" where
  "roomState s room = hash_value default_unread_room_state room (us_rooms s)"

definition roomStates :: "unread_store \<Rightarrow> unread_room_state list" where
  "roomStates s = map snd (us_rooms s)"

subsection \<open>Helpers of the anonymous namespace\<close>

definition StatePresentationEqual :: "unread_room_state \<Rightarrow> unread_room_state \<Rightarrow> bool" where
  "StatePresentationEqual a b \<longleftrightarrow>
     serverUnreadCount a = serverUnreadCount b
   \<and> serverHighlightCount a = serverHighlightCount b
   \<and> serverMarkedUnread a = serverMarkedUnread b
   \<and> serverFirstUnreadEventId a = serverFirstUnreadEventId b
   \<and> effectiveUnreadCount a = effectiveUnreadCount b
   \<and> effectiveHighlightCount a = effectiveHighlightCount b
   \<and> effectiveMarkedUnread a = effectiveMarkedUnread b
   \<and> effectiveFirstUnreadEventId a = effectiveFirstUnreadEventId b
   \<and> displayUnreadCount a = displayUnreadCount b
   \<and> displayHighlightCount a = displayHighlightCount b
   \<and> pendingExplicitMarkRead a = pendingExplicitMarkRead b
   \<and> pendingExplicitMarkUnread a = pendingExplicitMarkUnread b
   \<and> pendingReadTillEventId a = pendingReadTillEventId b
   \<and> pendingOptimisticFrontierEventId a = pendingOptimisticFrontierEventId b
   \<and> pendingOptimisticUnreadCount a = pendingOptimisticUnreadCount b
   \<and> lastAckedReceiptEventId a = lastAckedReceiptEventId b
   \<and> us_notificationMode a = us_notificationMode b
   \<and> us_isMuted a = us_isMuted b"

definition ClearPendingExplicitState :: "unread_room_state \<Rightarrow> unread_room_state" where
  "ClearPendingExplicitState st = st\<lparr>
     pendingExplicitMarkRead := False, pendingExplicitMarkUnread := False,
     pendingExplicitRevision := 0, pendingExplicitRequestId := 0 \<rparr>"

definition ClearPendingReadState :: "unread_room_state \<Rightarrow> unread_room_state" where
  "ClearPendingReadState st = st\<lparr>
     pendingReadTillEventId := [], pendingOptimisticFrontierEventId := [],
     pendingOptimisticUnreadCount := -1, pendingReadRevision := 0,
     pendingReadRequestId := 0 \<rparr>"

definition ClearAllPendingReadState :: "unread_room_state \<Rightarrow> unread_room_state" where
  "ClearAllPendingReadState st =
     (if \<not> pendingExplicitMarkRead st \<and> \<not> pendingExplicitMarkUnread st
        \<and> pendingExplicitRequestId st = 0 \<and> pendingExplicitRevision st = 0
        \<and> pendingReadTillEventId st = [] \<and> pendingOptimisticFrontierEventId st = []
        \<and> pendingOptimisticUnreadCount st < 0
        \<and> pendingReadRevision st = 0 \<and> pendingReadRequestId st = 0
      then st
      else ClearPendingReadState (ClearPendingExplicitState st))"

definition MutedForBadge :: "unread_room_state \<Rightarrow> bool" where
  "MutedForBadge st \<longleftrightarrow> roomCountsAsMuted (us_notificationMode st) (us_isMuted st)"

subsection \<open>Effective and displayed counts\<close>

text \<open>\<open>clampDisplayCounts\<close> and \<open>recomputeEffectiveState\<close> read one member of the store, the
  read-consuming room, which is their first argument.\<close>

definition clampDisplayCounts :: "qstring \<Rightarrow> unread_room_state \<Rightarrow> unread_room_state" where
  "clampDisplayCounts consuming st =
     (if consuming \<noteq> [] \<and> us_roomId st = consuming
      then st\<lparr>displayUnreadCount := 0, displayHighlightCount := 0\<rparr>
      else st\<lparr>displayUnreadCount := effectiveUnreadCount st,
              displayHighlightCount := effectiveHighlightCount st\<rparr>)"

text \<open>The stages of \<open>recomputeEffectiveState\<close>: start from the server's values, let an
  optimistic count mask a stale-high server count, raise the marked-unread flag, and keep the
  count at or above zero.\<close>

definition reset_to_server :: "unread_room_state \<Rightarrow> unread_room_state" where
  "reset_to_server state = state\<lparr>
     effectiveUnreadCount := serverUnreadCount state,
     effectiveHighlightCount := serverHighlightCount state,
     effectiveMarkedUnread := serverMarkedUnread state,
     effectiveFirstUnreadEventId := serverFirstUnreadEventId state\<rparr>"

definition mask_with_optimistic :: "unread_room_state \<Rightarrow> unread_room_state" where
  "mask_with_optimistic state =
     (if 0 \<le> pendingOptimisticUnreadCount state
      then (let masked = state\<lparr>effectiveUnreadCount :=
                  min (pendingOptimisticUnreadCount state) (serverUnreadCount state)\<rparr>
            in if effectiveUnreadCount masked = 0
               then masked\<lparr>effectiveHighlightCount := 0, effectiveFirstUnreadEventId := []\<rparr>
               else if pendingOptimisticFrontierEventId masked \<noteq> []
               then masked\<lparr>effectiveFirstUnreadEventId :=
                            pendingOptimisticFrontierEventId masked\<rparr>
               else masked)
      else state)"

definition mask_marked_unread :: "unread_room_state \<Rightarrow> unread_room_state" where
  "mask_marked_unread state =
     (if pendingExplicitMarkUnread state then state\<lparr>effectiveMarkedUnread := True\<rparr> else state)"

definition floor_at_zero :: "unread_room_state \<Rightarrow> unread_room_state" where
  "floor_at_zero state =
     (if effectiveUnreadCount state \<le> 0
      then state\<lparr>effectiveUnreadCount := 0, effectiveFirstUnreadEventId := []\<rparr> else state)"

definition recomputeEffectiveState :: "qstring \<Rightarrow> unread_room_state \<Rightarrow> unread_room_state" where
  "recomputeEffectiveState consuming state =
     (if pendingExplicitMarkRead state
      then clampDisplayCounts consuming
             ((reset_to_server state)\<lparr>effectiveUnreadCount := 0, effectiveHighlightCount := 0,
                effectiveMarkedUnread := False, effectiveFirstUnreadEventId := []\<rparr>)
      else clampDisplayCounts consuming
             (floor_at_zero (mask_marked_unread (mask_with_optimistic (reset_to_server state)))))"

subsection \<open>Totals and signals\<close>

definition badge_share :: "bool \<Rightarrow> unread_room_state \<Rightarrow> int" where
  "badge_share includeMuted st =
     (if \<not> includeMuted \<and> MutedForBadge st then 0 else displayUnreadCount st)"

definition totalUnreadCount :: "unread_store \<Rightarrow> bool \<Rightarrow> int" where
  "totalUnreadCount s includeMuted = hash_sum (badge_share includeMuted) (us_rooms s)"

definition maybeEmitActiveRoomState ::
  "unread_store \<Rightarrow> qstring \<Rightarrow> unread_room_state \<Rightarrow> unread_signal list" where
  "maybeEmitActiveRoomState s room st =
     (if room \<noteq> activeRoomId s then []
      else [ActiveRoomUnreadStateChanged room (effectiveUnreadCount st)
              (effectiveFirstUnreadEventId st)])"

text \<open>The store already holds \<open>after\<close> under \<open>room\<close> when the code calls this.\<close>

definition emitStateChanges ::
  "unread_store \<Rightarrow> qstring \<Rightarrow> unread_room_state \<Rightarrow> unread_room_state
     \<Rightarrow> unread_store \<times> unread_signal list" where
  "emitStateChanges s room before after =
     (if StatePresentationEqual before after then (s, [])
      else
        (let progressed = (if effectiveUnreadCount after < effectiveUnreadCount before
                           then [RoomReadProgressed room] else []);
             active = maybeEmitActiveRoomState s room after;
             total = totalUnreadCount s True;
             policyChanged = (us_notificationMode before \<noteq> us_notificationMode after
                              \<or> us_isMuted before \<noteq> us_isMuted after);
             sigs = [RoomUnreadStateChanged room] @ progressed @ active
         in if lastTotalUnreadIncludingMuted s \<noteq> total \<or> policyChanged
            then (s\<lparr>lastTotalUnreadIncludingMuted := total\<rparr>, sigs @ [TotalUnreadChanged total])
            else (s, sigs)))"

text \<open>Every handler that ends in \<open>recomputeEffectiveState(state); emitStateChanges(...)\<close>
  stores the recomputed state and reports the change against the state before the call.\<close>

definition store_and_emit ::
  "unread_store \<Rightarrow> qstring \<Rightarrow> unread_room_state \<Rightarrow> unread_room_state
     \<Rightarrow> unread_store \<times> unread_signal list" where
  "store_and_emit s room before st =
     (let after = recomputeEffectiveState (readConsumingRoomId s) st
      in emitStateChanges (s\<lparr>us_rooms := hash_insert room after (us_rooms s)\<rparr>) room before after)"

definition emit_total_if_changed :: "unread_store \<Rightarrow> unread_store \<times> unread_signal list" where
  "emit_total_if_changed s =
     (let total = totalUnreadCount s True
      in if lastTotalUnreadIncludingMuted s \<noteq> total
         then (s\<lparr>lastTotalUnreadIncludingMuted := total\<rparr>, [TotalUnreadChanged total])
         else (s, []))"

subsection \<open>Active and read-consuming room\<close>

definition refresh_room :: "unread_store \<Rightarrow> qstring \<Rightarrow> unread_store \<times> unread_signal list" where
  "refresh_room s room =
     (if room = [] then (s, [])
      else case map_of (us_rooms s) room of
             None \<Rightarrow> (s, [])
           | Some before \<Rightarrow> store_and_emit s room before before)"

definition setReadConsumingRoom ::
  "unread_store \<Rightarrow> qstring \<Rightarrow> unread_store \<times> unread_signal list" where
  "setReadConsumingRoom s room =
     (if readConsumingRoomId s = room then (s, [])
      else
        (let previous = readConsumingRoomId s;
             s1 = s\<lparr>readConsumingRoomId := room\<rparr>;
             (s2, sigs2) = refresh_room s1 previous;
             (s3, sigs3) = refresh_room s2 room
         in (s3, sigs2 @ sigs3)))"

definition setActiveRoomId ::
  "unread_store \<Rightarrow> qstring \<Rightarrow> unread_store \<times> unread_signal list" where
  "setActiveRoomId s room =
     (if activeRoomId s = room then (s, [])
      else
        (let s1 = s\<lparr>activeRoomId := room\<rparr>;
             (s2, sigs2) = (if readConsumingRoomId s1 \<noteq> [] \<and> readConsumingRoomId s1 \<noteq> room
                            then setReadConsumingRoom s1 [] else (s1, []))
         in if activeRoomId s2 = [] then (s2, sigs2 @ [ActiveRoomUnreadStateChanged [] 0 []])
            else (let st = roomState s2 (activeRoomId s2)
                  in (s2, sigs2 @ [ActiveRoomUnreadStateChanged (activeRoomId s2)
                              (effectiveUnreadCount st) (effectiveFirstUnreadEventId st)]))))"

subsection \<open>Server feeds\<close>

text \<open>One iteration of the first loop of \<open>applyRoomListSnapshot\<close>.\<close>

definition merge_room_summary :: "unread_room_state \<Rightarrow> room_summary \<Rightarrow> unread_room_state" where
  "merge_room_summary before room =
     (let st = before\<lparr>
            us_roomId := rs_roomId room,
            serverUnreadCount := rs_unreadCount room,
            serverHighlightCount := rs_highlightCount room,
            serverMarkedUnread := rs_isMarkedUnread room,
            us_notificationMode := rs_notificationMode room,
            us_isMuted := rs_isMuted room\<rparr>;
          serverConfirmedRead = (serverUnreadCount st = 0 \<and> \<not> serverMarkedUnread st);
          newActivity = (readFrontierTs st < rs_timestamp room);
          st1 = (if serverConfirmedRead \<or> newActivity
                 then ClearPendingReadState
                        (if pendingExplicitMarkRead st then ClearPendingExplicitState st else st)
                 else st);
          st2 = st1\<lparr>serverLastActivityTs := rs_timestamp room\<rparr>
      in if pendingExplicitMarkUnread st2 \<and> serverMarkedUnread st2
         then ClearPendingExplicitState st2 else st2)"

definition apply_room_summary ::
  "unread_store \<Rightarrow> room_summary \<Rightarrow> unread_store \<times> unread_signal list" where
  "apply_room_summary s room =
     (if rs_roomId room = [] then (s, [])
      else (let before = roomState s (rs_roomId room)
            in store_and_emit s (rs_roomId room) before (merge_room_summary before room)))"

primrec apply_room_summaries ::
  "unread_store \<Rightarrow> room_summary list \<Rightarrow> unread_store \<times> unread_signal list" where
  "apply_room_summaries s [] = (s, [])"
| "apply_room_summaries s (room # rooms) =
     (let (s1, sigs1) = apply_room_summary s room;
          (s2, sigs2) = apply_room_summaries s1 rooms
      in (s2, sigs1 @ sigs2))"

text \<open>The second loop: rooms the snapshot no longer lists are forgotten.\<close>

definition erase_unseen ::
  "unread_store \<Rightarrow> qstring list \<Rightarrow> unread_store \<times> unread_signal list" where
  "erase_unseen s seen =
     (s\<lparr>us_rooms := filter (\<lambda>p. fst p \<in> set seen) (us_rooms s)\<rparr>,
      concat (map (\<lambda>p. RoomUnreadStateChanged (fst p)
                       # (if activeRoomId s = fst p
                          then [ActiveRoomUnreadStateChanged (fst p) 0 []] else []))
                  (filter (\<lambda>p. fst p \<notin> set seen) (us_rooms s))))"

definition applyRoomListSnapshot ::
  "unread_store \<Rightarrow> room_summary list \<Rightarrow> unread_store \<times> unread_signal list" where
  "applyRoomListSnapshot s rooms =
     (let seen = filter (\<lambda>room. room \<noteq> []) (map rs_roomId rooms);
          (s1, sigs1) = apply_room_summaries s rooms;
          (s2, sigs2) = erase_unseen s1 seen;
          (s3, sigs3) = emit_total_if_changed s2
      in (s3, sigs1 @ sigs2 @ sigs3))"

definition merge_unread_snapshot ::
  "unread_room_state \<Rightarrow> qstring \<Rightarrow> room_unread_snapshot \<Rightarrow> unread_room_state" where
  "merge_unread_snapshot before room snap =
     (let st = before\<lparr>
            us_roomId := room,
            serverUnreadCount := max 0 (ru_unreadCount snap),
            serverHighlightCount := max 0 (ru_highlightCount snap),
            serverMarkedUnread := ru_isMarkedUnread snap,
            us_notificationMode := ru_notificationMode snap,
            us_isMuted := ru_isMuted snap\<rparr>;
          st1 = (if serverUnreadCount st \<le> 0 then st\<lparr>serverFirstUnreadEventId := []\<rparr> else st);
          st2 = (if pendingExplicitMarkRead st1 \<and> serverUnreadCount st1 = 0
                   \<and> \<not> serverMarkedUnread st1
                 then ClearPendingReadState (ClearPendingExplicitState st1) else st1)
      in if pendingExplicitMarkUnread st2 \<and> serverMarkedUnread st2
         then ClearPendingExplicitState st2 else st2)"

definition applyRoomUnreadSnapshot ::
  "unread_store \<Rightarrow> qstring \<Rightarrow> room_unread_snapshot \<Rightarrow> unread_store \<times> unread_signal list" where
  "applyRoomUnreadSnapshot s room snap =
     (if room = [] then (s, [])
      else (let before = roomState s room
            in store_and_emit s room before (merge_unread_snapshot before room snap)))"

definition merge_timeline_slice ::
  "unread_room_state \<Rightarrow> qstring \<Rightarrow> timeline_slice \<Rightarrow> unread_room_state" where
  "merge_timeline_slice before room sl =
     (let st = before\<lparr>us_roomId := room, serverUnreadCount := max 0 (ts_unreadCount sl)\<rparr>;
          st1 = (if 0 < serverUnreadCount st
                 then (if ts_firstUnreadEventId sl \<noteq> []
                       then st\<lparr>serverFirstUnreadEventId := ts_firstUnreadEventId sl\<rparr> else st)
                 else st\<lparr>serverFirstUnreadEventId := []\<rparr>);
          st2 = (if pendingExplicitMarkRead st1 \<and> ts_unreadCount sl = 0
                 then ClearPendingReadState (ClearPendingExplicitState st1) else st1)
      in if 0 \<le> pendingOptimisticUnreadCount st2
            \<and> ts_unreadCount sl \<le> pendingOptimisticUnreadCount st2
         then ClearPendingReadState st2 else st2)"

definition applyTimelineSnapshot ::
  "unread_store \<Rightarrow> qstring \<Rightarrow> timeline_slice \<Rightarrow> unread_store \<times> unread_signal list" where
  "applyTimelineSnapshot s room sl =
     (if room = [] \<or> \<not> ts_unreadStateKnown sl then (s, [])
      else (let before = roomState s room;
                (s1, sigs1) = store_and_emit s room before (merge_timeline_slice before room sl);
                (s2, sigs2) = emit_total_if_changed s1
            in (s2, sigs1 @ sigs2)))"

definition setRoomNotificationMode ::
  "unread_store \<Rightarrow> qstring \<Rightarrow> room_notification_mode \<Rightarrow> bool
     \<Rightarrow> unread_store \<times> unread_signal list" where
  "setRoomNotificationMode s room mode muted =
     (if room = [] then (s, [])
      else (let before = roomState s room
            in store_and_emit s room before
                 (before\<lparr>us_roomId := room, us_notificationMode := mode, us_isMuted := muted\<rparr>)))"

subsection \<open>Optimistic changes\<close>

text \<open>These return the request revision as well; \<open>++requestRevision\<close> wraps at \<open>2 ^ 64\<close>.\<close>

definition optimisticMarkRead ::
  "unread_store \<Rightarrow> qstring \<Rightarrow> unread_store \<times> unread_signal list \<times> quint64" where
  "optimisticMarkRead s room =
     (if room = [] then (s, [], 0)
      else (let before = roomState s room;
                revn = requestRevision before + 1;
                st = ClearPendingReadState (before\<lparr>
                       us_roomId := room, requestRevision := revn,
                       pendingExplicitRevision := revn, pendingExplicitRequestId := 0,
                       pendingExplicitMarkRead := True, pendingExplicitMarkUnread := False,
                       readFrontierTs := serverLastActivityTs before\<rparr>);
                (s1, sigs) = store_and_emit s room before st
            in (s1, sigs, revn)))"

definition optimisticMarkUnread ::
  "unread_store \<Rightarrow> qstring \<Rightarrow> unread_store \<times> unread_signal list \<times> quint64" where
  "optimisticMarkUnread s room =
     (if room = [] then (s, [], 0)
      else (let before = roomState s room;
                revn = requestRevision before + 1;
                st = before\<lparr>
                       us_roomId := room, requestRevision := revn,
                       pendingExplicitRevision := revn, pendingExplicitRequestId := 0,
                       pendingExplicitMarkUnread := True, pendingExplicitMarkRead := False\<rparr>;
                (s1, sigs) = store_and_emit s room before st
            in (s1, sigs, revn)))"

definition optimisticReadProgress ::
  "unread_store \<Rightarrow> qstring \<Rightarrow> qstring \<Rightarrow> qstring \<Rightarrow> int \<Rightarrow> int
     \<Rightarrow> unread_store \<times> unread_signal list \<times> quint64" where
  "optimisticReadProgress s room readTill nextUnread newUnread readTillTs =
     (if room = [] \<or> readTill = [] then (s, [], 0)
      else (let before = roomState s room;
                revn = requestRevision before + 1;
                st = before\<lparr>
                       us_roomId := room, requestRevision := revn,
                       readFrontierTs := max (readFrontierTs before) readTillTs,
                       pendingReadTillEventId := readTill,
                       pendingOptimisticFrontierEventId := nextUnread,
                       pendingOptimisticUnreadCount := max 0 newUnread,
                       pendingReadRevision := revn, pendingReadRequestId := 0\<rparr>;
                (s1, sigs) = store_and_emit s room before st
            in (s1, sigs, revn)))"

definition optimisticClearOnSend ::
  "unread_store \<Rightarrow> qstring \<Rightarrow> unread_store \<times> unread_signal list" where
  "optimisticClearOnSend s room = (let (s1, sigs, _) = optimisticMarkRead s room in (s1, sigs))"

subsection \<open>Requests and their acknowledgements\<close>

definition bindExplicitRequest ::
  "unread_store \<Rightarrow> qstring \<Rightarrow> quint64 \<Rightarrow> quint64 \<Rightarrow> unread_store" where
  "bindExplicitRequest s room revision requestId =
     (if room = [] \<or> revision = 0 \<or> requestId = 0 then s
      else case map_of (us_rooms s) room of
             None \<Rightarrow> s
           | Some st \<Rightarrow>
               (if \<not> (pendingExplicitMarkRead st \<or> pendingExplicitMarkUnread st)
                   \<or> pendingExplicitRevision st \<noteq> revision then s
                else s\<lparr>us_rooms := hash_insert room
                          (st\<lparr>pendingExplicitRequestId := requestId\<rparr>) (us_rooms s)\<rparr>))"

definition bindReadReceiptRequest ::
  "unread_store \<Rightarrow> qstring \<Rightarrow> qstring \<Rightarrow> quint64 \<Rightarrow> quint64 \<Rightarrow> unread_store" where
  "bindReadReceiptRequest s room event revision requestId =
     (if room = [] \<or> event = [] \<or> revision = 0 \<or> requestId = 0 then s
      else case map_of (us_rooms s) room of
             None \<Rightarrow> s
           | Some st \<Rightarrow>
               (if pendingReadRevision st \<noteq> revision \<or> pendingReadTillEventId st \<noteq> event then s
                else s\<lparr>us_rooms := hash_insert room
                          (st\<lparr>pendingReadRequestId := requestId\<rparr>) (us_rooms s)\<rparr>))"

definition ackMarkRead ::
  "unread_store \<Rightarrow> qstring \<Rightarrow> bool \<Rightarrow> quint64 \<Rightarrow> bool \<Rightarrow> unread_store \<times> unread_signal list" where
  "ackMarkRead s room read requestId success =
     (if room = [] then (s, [])
      else case map_of (us_rooms s) room of
             None \<Rightarrow> (s, [])
           | Some st \<Rightarrow>
               (if \<not> (if read then pendingExplicitMarkRead st else pendingExplicitMarkUnread st)
                then (s, [])
                else if requestId \<noteq> 0 \<and> pendingExplicitRequestId st \<noteq> 0
                        \<and> requestId \<noteq> pendingExplicitRequestId st
                then (s, [])
                else if success
                then (if read
                      then store_and_emit s room st
                             (st\<lparr>pendingExplicitMarkRead := False, pendingExplicitRevision := 0,
                                 pendingExplicitRequestId := 0\<rparr>)
                      else if requestId \<noteq> 0 \<and> pendingExplicitRequestId st \<noteq> 0
                      then (s\<lparr>us_rooms := hash_insert room
                               (st\<lparr>pendingExplicitRequestId := 0\<rparr>) (us_rooms s)\<rparr>, [])
                      else (s, []))
                else store_and_emit s room st (ClearPendingExplicitState st)))"

definition ackReadReceipt ::
  "unread_store \<Rightarrow> qstring \<Rightarrow> qstring \<Rightarrow> quint64 \<Rightarrow> bool
     \<Rightarrow> unread_store \<times> unread_signal list" where
  "ackReadReceipt s room event requestId success =
     (if room = [] \<or> event = [] then (s, [])
      else case map_of (us_rooms s) room of
             None \<Rightarrow> (s, [])
           | Some st \<Rightarrow>
               (if pendingReadTillEventId st \<noteq> event then (s, [])
                else if requestId \<noteq> 0 \<and> pendingReadRequestId st \<noteq> 0
                        \<and> requestId \<noteq> pendingReadRequestId st
                then (s, [])
                else if success
                then (let st1 = st\<lparr>lastAckedReceiptEventId := event\<rparr>;
                          st2 = (if requestId \<noteq> 0 \<and> requestId = pendingReadRequestId st1
                                 then st1\<lparr>pendingReadRequestId := 0\<rparr> else st1)
                      in (s\<lparr>us_rooms := hash_insert room st2 (us_rooms s)\<rparr>, []))
                else store_and_emit s room st (ClearPendingReadState st)))"

subsection \<open>The store as a machine\<close>

text \<open>Every public method that changes the store, as an event.\<close>

datatype unread_op =
  SetActiveRoom qstring
| SetReadConsuming qstring
| RoomListSnapshot "room_summary list"
| RoomUnreadSnapshot qstring room_unread_snapshot
| TimelineSnapshot qstring timeline_slice
| SetNotificationMode qstring room_notification_mode bool
| MarkRead qstring
| MarkUnread qstring
| ReadProgress qstring qstring qstring int int
| ClearOnSend qstring
| BindExplicit qstring quint64 quint64
| BindReceipt qstring qstring quint64 quint64
| AckMarkRead qstring bool quint64 bool
| AckReceipt qstring qstring quint64 bool

fun unread_apply :: "unread_store \<Rightarrow> unread_op \<Rightarrow> unread_store \<times> unread_signal list" where
  "unread_apply s (SetActiveRoom r) = setActiveRoomId s r"
| "unread_apply s (SetReadConsuming r) = setReadConsumingRoom s r"
| "unread_apply s (RoomListSnapshot rooms) = applyRoomListSnapshot s rooms"
| "unread_apply s (RoomUnreadSnapshot r snap) = applyRoomUnreadSnapshot s r snap"
| "unread_apply s (TimelineSnapshot r sl) = applyTimelineSnapshot s r sl"
| "unread_apply s (SetNotificationMode r mode muted) = setRoomNotificationMode s r mode muted"
| "unread_apply s (MarkRead r) = (let (s1, sigs, _) = optimisticMarkRead s r in (s1, sigs))"
| "unread_apply s (MarkUnread r) = (let (s1, sigs, _) = optimisticMarkUnread s r in (s1, sigs))"
| "unread_apply s (ReadProgress r till nxt n ts) =
     (let (s1, sigs, _) = optimisticReadProgress s r till nxt n ts in (s1, sigs))"
| "unread_apply s (ClearOnSend r) = optimisticClearOnSend s r"
| "unread_apply s (BindExplicit r revn req) = (bindExplicitRequest s r revn req, [])"
| "unread_apply s (BindReceipt r e revn req) = (bindReadReceiptRequest s r e revn req, [])"
| "unread_apply s (AckMarkRead r read req ok) = ackMarkRead s r read req ok"
| "unread_apply s (AckReceipt r e req ok) = ackReadReceipt s r e req ok"

end
