(* ===== verification/Unread_Correct.thy ===== *)
theory Unread_Correct imports Unread_Store begin

section \<open>Correctness of the unread-state store\<close>

text \<open>
  The stages of \<open>recomputeEffectiveState\<close> amount to one closed form
  (\<open>recompute_normal_form\<close>); every method keeps \<open>unread_inv\<close> (every stored state is up to
  date and the announced total is the current one) and leaves its listeners up to date; the
  optimistic reads behave as the comments of the source promise.
\<close>

subsection \<open>The effective counts in closed form\<close>


lemmas unread_clears =
  ClearPendingExplicitState_def ClearPendingReadState_def

definition effective_unread_spec :: "unread_room_state \<Rightarrow> int" where
  "effective_unread_spec st =
     (if pendingExplicitMarkRead st then 0
      else if 0 \<le> pendingOptimisticUnreadCount st
      then max 0 (min (pendingOptimisticUnreadCount st) (serverUnreadCount st))
      else max 0 (serverUnreadCount st))"

definition effective_highlight_spec :: "unread_room_state \<Rightarrow> int" where
  "effective_highlight_spec st =
     (if pendingExplicitMarkRead st
         \<or> 0 \<le> pendingOptimisticUnreadCount st
             \<and> min (pendingOptimisticUnreadCount st) (serverUnreadCount st) = 0
      then 0 else serverHighlightCount st)"

definition effective_marked_spec :: "unread_room_state \<Rightarrow> bool" where
  "effective_marked_spec st \<longleftrightarrow>
     \<not> pendingExplicitMarkRead st \<and> (pendingExplicitMarkUnread st \<or> serverMarkedUnread st)"

definition first_unread_spec :: "unread_room_state \<Rightarrow> qstring" where
  "first_unread_spec st =
     (if effective_unread_spec st = 0 then []
      else if 0 \<le> pendingOptimisticUnreadCount st \<and> pendingOptimisticFrontierEventId st \<noteq> []
      then pendingOptimisticFrontierEventId st
      else serverFirstUnreadEventId st)"

definition consumed_in :: "qstring \<Rightarrow> unread_room_state \<Rightarrow> bool" where
  "consumed_in c st \<longleftrightarrow> c \<noteq> [] \<and> us_roomId st = c"

lemmas effective_specs =
  effective_unread_spec_def effective_highlight_spec_def effective_marked_spec_def
  first_unread_spec_def consumed_in_def

lemma clamp_nf:
  "clampDisplayCounts c st = st\<lparr>
     displayUnreadCount := (if consumed_in c st then 0 else effectiveUnreadCount st),
     displayHighlightCount := (if consumed_in c st then 0 else effectiveHighlightCount st)\<rparr>"
  by (simp add: clampDisplayCounts_def consumed_in_def)

lemma masked_effective:
  assumes "\<not> pendingExplicitMarkRead st"
  shows "floor_at_zero (mask_marked_unread (mask_with_optimistic (reset_to_server st))) = st\<lparr>
     effectiveUnreadCount := effective_unread_spec st,
     effectiveHighlightCount := effective_highlight_spec st,
     effectiveMarkedUnread := effective_marked_spec st,
     effectiveFirstUnreadEventId := first_unread_spec st\<rparr>"
proof (cases "0 \<le> pendingOptimisticUnreadCount st")
  case True
  obtain m where m: "min (pendingOptimisticUnreadCount st) (serverUnreadCount st) = m" by simp
  consider "m = 0" | "m < 0" | "0 < m" by linarith
  then show ?thesis
  proof cases
    case 1
    with assms True show ?thesis
      by (cases "pendingExplicitMarkUnread st"; cases "pendingOptimisticFrontierEventId st = []";
          simp add: reset_to_server_def mask_with_optimistic_def mask_marked_unread_def
            floor_at_zero_def effective_specs Let_def m)
  next
    case 2
    with assms True show ?thesis
      by (cases "pendingExplicitMarkUnread st"; cases "pendingOptimisticFrontierEventId st = []";
          simp add: reset_to_server_def mask_with_optimistic_def mask_marked_unread_def
            floor_at_zero_def effective_specs Let_def m)
  next
    case 3
    with assms True show ?thesis
      by (cases "pendingExplicitMarkUnread st"; cases "pendingOptimisticFrontierEventId st = []";
          simp add: reset_to_server_def mask_with_optimistic_def mask_marked_unread_def
            floor_at_zero_def effective_specs Let_def m)
  qed
next
  case False
  with assms show ?thesis
    by (cases "pendingExplicitMarkUnread st"; cases "serverUnreadCount st \<le> 0";
        simp add: reset_to_server_def mask_with_optimistic_def mask_marked_unread_def
          floor_at_zero_def effective_specs Let_def)
qed

lemma recompute_normal_form:
  "recomputeEffectiveState c st = st\<lparr>
     effectiveUnreadCount := effective_unread_spec st,
     effectiveHighlightCount := effective_highlight_spec st,
     effectiveMarkedUnread := effective_marked_spec st,
     effectiveFirstUnreadEventId := first_unread_spec st,
     displayUnreadCount := (if consumed_in c st then 0 else effective_unread_spec st),
     displayHighlightCount := (if consumed_in c st then 0 else effective_highlight_spec st)\<rparr>"
proof (cases "pendingExplicitMarkRead st")
  case True
  then show ?thesis
    by (simp add: recomputeEffectiveState_def clamp_nf reset_to_server_def effective_specs)
next
  case False
  then show ?thesis
    by (simp add: recomputeEffectiveState_def masked_effective clamp_nf consumed_in_def)
qed

lemma recompute_frame [simp]:
  "us_roomId (recomputeEffectiveState c st) = us_roomId st"
  "serverUnreadCount (recomputeEffectiveState c st) = serverUnreadCount st"
  "serverHighlightCount (recomputeEffectiveState c st) = serverHighlightCount st"
  "serverMarkedUnread (recomputeEffectiveState c st) = serverMarkedUnread st"
  "serverFirstUnreadEventId (recomputeEffectiveState c st) = serverFirstUnreadEventId st"
  "serverLastActivityTs (recomputeEffectiveState c st) = serverLastActivityTs st"
  "readFrontierTs (recomputeEffectiveState c st) = readFrontierTs st"
  "pendingExplicitMarkRead (recomputeEffectiveState c st) = pendingExplicitMarkRead st"
  "pendingExplicitMarkUnread (recomputeEffectiveState c st) = pendingExplicitMarkUnread st"
  "pendingExplicitRevision (recomputeEffectiveState c st) = pendingExplicitRevision st"
  "pendingExplicitRequestId (recomputeEffectiveState c st) = pendingExplicitRequestId st"
  "pendingReadTillEventId (recomputeEffectiveState c st) = pendingReadTillEventId st"
  "pendingOptimisticFrontierEventId (recomputeEffectiveState c st)
     = pendingOptimisticFrontierEventId st"
  "pendingOptimisticUnreadCount (recomputeEffectiveState c st) = pendingOptimisticUnreadCount st"
  "pendingReadRevision (recomputeEffectiveState c st) = pendingReadRevision st"
  "pendingReadRequestId (recomputeEffectiveState c st) = pendingReadRequestId st"
  "lastAckedReceiptEventId (recomputeEffectiveState c st) = lastAckedReceiptEventId st"
  "requestRevision (recomputeEffectiveState c st) = requestRevision st"
  "us_notificationMode (recomputeEffectiveState c st) = us_notificationMode st"
  "us_isMuted (recomputeEffectiveState c st) = us_isMuted st"
  by (simp_all add: recompute_normal_form)


lemma recompute_effective [simp]:
  "effectiveUnreadCount (recomputeEffectiveState c st) = effective_unread_spec st"
  "effectiveHighlightCount (recomputeEffectiveState c st) = effective_highlight_spec st"
  "effectiveMarkedUnread (recomputeEffectiveState c st) = effective_marked_spec st"
  "effectiveFirstUnreadEventId (recomputeEffectiveState c st) = first_unread_spec st"
  "displayUnreadCount (recomputeEffectiveState c st) =
     (if consumed_in c st then 0 else effective_unread_spec st)"
  "displayHighlightCount (recomputeEffectiveState c st) =
     (if consumed_in c st then 0 else effective_highlight_spec st)"
  by (simp_all add: recompute_normal_form)

lemma spec_recompute [simp]:
  "effective_unread_spec (recomputeEffectiveState c st) = effective_unread_spec st"
  "effective_highlight_spec (recomputeEffectiveState c st) = effective_highlight_spec st"
  "effective_marked_spec (recomputeEffectiveState c st) = effective_marked_spec st"
  "consumed_in c' (recomputeEffectiveState c st) = consumed_in c' st"
  by (simp_all only: effective_unread_spec_def effective_highlight_spec_def
      effective_marked_spec_def consumed_in_def recompute_frame)

lemma first_unread_spec_recompute [simp]:
  "first_unread_spec (recomputeEffectiveState c st) = first_unread_spec st"
  by (simp only: first_unread_spec_def spec_recompute recompute_frame)

lemma recompute_idem [simp]:
  "recomputeEffectiveState c (recomputeEffectiveState c' st) = recomputeEffectiveState c st"
  by (rule unread_room_state.equality) simp_all

lemma recompute_consumed_cong:
  "consumed_in c st = consumed_in c' st \<Longrightarrow>
   recomputeEffectiveState c st = recomputeEffectiveState c' st"
  by (simp add: recompute_normal_form)

lemma effective_unread_spec_nonneg [simp]: "0 \<le> effective_unread_spec st"
  by (simp add: effective_unread_spec_def)

subsection \<open>The invariant\<close>

text \<open>A stored state is up to date when recomputing it changes nothing.
\<open>rooms_ok X s\<close>: all entries but those of the rooms in \<open>X\<close> are up to date, and the total
  the store last announced is the current one.\<close>

definition rooms_ok :: "qstring set \<Rightarrow> unread_store \<Rightarrow> bool" where
  "rooms_ok X s \<longleftrightarrow>
     hash_ok (us_rooms s)
   \<and> (\<forall>p \<in> set (us_rooms s). fst p \<noteq> [] \<and> us_roomId (snd p) = fst p
        \<and> (fst p \<notin> X \<longrightarrow> recomputeEffectiveState (readConsumingRoomId s) (snd p) = snd p))
   \<and> lastTotalUnreadIncludingMuted s = totalUnreadCount s True"

definition unread_inv :: "unread_store \<Rightarrow> bool" where
  "unread_inv s \<longleftrightarrow> rooms_ok {} s"

lemma unread_inv_initial: "unread_inv initial_unread_store"
  by (simp add: unread_inv_def rooms_ok_def initial_unread_store_def totalUnreadCount_def)

lemma badge_share_default [simp]: "badge_share b default_unread_room_state = 0"
  by (simp add: badge_share_def default_unread_room_state_def)

lemma total_insert:
  "totalUnreadCount (s\<lparr>us_rooms := hash_insert room st (us_rooms s)\<rparr>) b =
     totalUnreadCount s b - badge_share b (roomState s room) + badge_share b st"
  by (simp add: totalUnreadCount_def roomState_def hash_sum_insert)

lemma total_cong [simp]:
  "totalUnreadCount (s\<lparr>lastTotalUnreadIncludingMuted := n\<rparr>) b = totalUnreadCount s b"
  "totalUnreadCount (s\<lparr>activeRoomId := a\<rparr>) b = totalUnreadCount s b"
  "totalUnreadCount (s\<lparr>readConsumingRoomId := a\<rparr>) b = totalUnreadCount s b"
  by (simp_all add: totalUnreadCount_def)

lemma presentation_display:
  "StatePresentationEqual a b \<Longrightarrow> displayUnreadCount a = displayUnreadCount b"
  "StatePresentationEqual a b \<Longrightarrow> effectiveUnreadCount a = effectiveUnreadCount b"
  "StatePresentationEqual a b \<Longrightarrow> effectiveFirstUnreadEventId a = effectiveFirstUnreadEventId b"
  by (simp_all add: StatePresentationEqual_def)

text \<open>What \<open>store_and_emit\<close> leaves behind.\<close>

lemma store_and_emit_fields:
  assumes "store_and_emit s room before st = (s', sigs)"
  shows "us_rooms s' = hash_insert room
           (recomputeEffectiveState (readConsumingRoomId s) st) (us_rooms s)"
    and "activeRoomId s' = activeRoomId s"
    and "readConsumingRoomId s' = readConsumingRoomId s"
  using assms
  by (auto simp: store_and_emit_def emitStateChanges_def Let_def split: if_splits)

lemma store_and_emit_total:
  assumes "store_and_emit s room (roomState s room) st = (s', sigs)"
    and "lastTotalUnreadIncludingMuted s = totalUnreadCount s True"
  shows "lastTotalUnreadIncludingMuted s' = totalUnreadCount s' True"
  using assms
  by (auto simp: store_and_emit_def emitStateChanges_def Let_def total_insert badge_share_def
      dest: presentation_display split: if_splits)

subsection \<open>What listeners see\<close>

fun decode_total :: "unread_signal \<Rightarrow> int option" where
  "decode_total (TotalUnreadChanged n) = Some n"
| "decode_total _ = None"

fun decode_active :: "unread_signal \<Rightarrow> (qstring \<times> int \<times> qstring) option" where
  "decode_active (ActiveRoomUnreadStateChanged r n e) = Some (r, n, e)"
| "decode_active _ = None"

definition active_view :: "unread_store \<Rightarrow> qstring \<times> int \<times> qstring" where
  "active_view s = (activeRoomId s,
     effectiveUnreadCount (roomState s (activeRoomId s)),
     effectiveFirstUnreadEventId (roomState s (activeRoomId s)))"

text \<open>One call that starts with up-to-date listeners leaves them up to date.\<close>

definition signals_ok :: "unread_store \<Rightarrow> unread_store \<Rightarrow> unread_signal list \<Rightarrow> bool" where
  "signals_ok s s' sigs \<longleftrightarrow>
     replay decode_total (lastTotalUnreadIncludingMuted s) sigs = lastTotalUnreadIncludingMuted s'
   \<and> replay decode_active (active_view s) sigs = active_view s'"

lemma signals_ok_refl [simp]: "signals_ok s s []"
  by (simp add: signals_ok_def)

lemma signals_ok_trans:
  "signals_ok s s1 g1 \<Longrightarrow> signals_ok s1 s2 g2 \<Longrightarrow> signals_ok s s2 (g1 @ g2)"
  by (simp add: signals_ok_def)

lemma roomState_insert [simp]:
  "roomState (s\<lparr>us_rooms := hash_insert room st h\<rparr>) r =
     (if r = room then st else hash_value default_unread_room_state r h)"
  by (simp add: roomState_def)

lemma store_and_emit_signals:
  assumes "store_and_emit s room (roomState s room) st = (s', sigs)"
  shows "signals_ok s s' sigs"
  using assms
  by (auto simp: store_and_emit_def emitStateChanges_def maybeEmitActiveRoomState_def Let_def
      signals_ok_def active_view_def roomState_def dest: presentation_display split: if_splits)

lemma rooms_ok_insert:
  assumes "rooms_ok X s" "room \<noteq> []" "us_roomId st = room"
    and "recomputeEffectiveState (readConsumingRoomId s) st = st"
    and "us_rooms s' = hash_insert room st (us_rooms s)"
    and "readConsumingRoomId s' = readConsumingRoomId s"
    and "lastTotalUnreadIncludingMuted s' = totalUnreadCount s' True"
  shows "rooms_ok (X - {room}) s'"
  using assms by (auto simp: rooms_ok_def set_hash_insert)

lemma store_and_emit_ok:
  assumes "rooms_ok X s" "room \<noteq> []" "us_roomId st = room"
    and "store_and_emit s room (roomState s room) st = (s', sigs)"
  shows "rooms_ok (X - {room}) s'" and "signals_ok s s' sigs"
proof -
  show "rooms_ok (X - {room}) s'"
    by (rule rooms_ok_insert [OF assms(1,2)])
       (use assms store_and_emit_fields [OF assms(4)] store_and_emit_total [OF assms(4)]
        in \<open>auto simp: rooms_ok_def\<close>)
  show "signals_ok s s' sigs"
    using assms(4) by (rule store_and_emit_signals)
qed

lemma roomState_stored: "map_of (us_rooms s) room = Some st \<Longrightarrow> roomState s room = st"
  by (simp add: roomState_def hash_value_def)

lemma rooms_ok_stored:
  assumes "rooms_ok X s" "map_of (us_rooms s) room = Some st"
  shows "us_roomId st = room" "room \<noteq> []"
  using assms map_of_SomeD [OF assms(2)] by (auto simp: rooms_ok_def)

lemma refresh_room_ok:
  assumes ok: "rooms_ok X s" and ref: "refresh_room s room = (s', sigs)"
  shows "rooms_ok (X - {room}) s'" and "signals_ok s s' sigs"
    and "readConsumingRoomId s' = readConsumingRoomId s" and "activeRoomId s' = activeRoomId s"
proof -
  have "rooms_ok (X - {room}) s' \<and> signals_ok s s' sigs
     \<and> readConsumingRoomId s' = readConsumingRoomId s \<and> activeRoomId s' = activeRoomId s"
  proof (cases "room = [] \<or> map_of (us_rooms s) room = None")
    case True
    then have same: "s' = s" "sigs = []"
      using ref by (auto simp: refresh_room_def split: if_splits option.splits)
    from True ok have "\<And>p. p \<in> set (us_rooms s) \<Longrightarrow> fst p \<noteq> room"
      by (auto simp: rooms_ok_def map_of_eq_None_iff)
    with ok show ?thesis
      by (auto simp: same rooms_ok_def)
  next
    case False
    then obtain st where st: "map_of (us_rooms s) room = Some st" and ne: "room \<noteq> []" by auto
    with ref have "store_and_emit s room (roomState s room) st = (s', sigs)"
      by (simp add: refresh_room_def roomState_stored)
    with ok st ne show ?thesis
      using store_and_emit_ok [of X s room st s' sigs] rooms_ok_stored [OF ok st]
        store_and_emit_fields [of s room _ st s' sigs] by auto
  qed
  then show "rooms_ok (X - {room}) s'" and "signals_ok s s' sigs"
    and "readConsumingRoomId s' = readConsumingRoomId s" and "activeRoomId s' = activeRoomId s"
    by simp_all
qed

subsection \<open>Every method keeps the invariant and its listeners\<close>

definition call_ok :: "unread_store \<Rightarrow> unread_store \<times> unread_signal list \<Rightarrow> bool" where
  "call_ok s r \<longleftrightarrow> unread_inv (fst r) \<and> signals_ok s (fst r) (snd r)"

lemma call_ok_refl [simp]: "unread_inv s \<Longrightarrow> call_ok s (s, [])"
  by (simp add: call_ok_def)

lemma store_and_emit_call_ok:
  assumes "unread_inv s" "room \<noteq> []" "us_roomId st = room"
  shows "call_ok s (store_and_emit s room (roomState s room) st)"
proof -
  obtain s' sigs where res: "store_and_emit s room (roomState s room) st = (s', sigs)" by fastforce
  show ?thesis
    using assms store_and_emit_ok [of "{}" s room st s' sigs]
    by (simp add: res call_ok_def unread_inv_def)
qed

lemma setReadConsumingRoom_call_ok:
  assumes inv: "unread_inv s"
  shows "call_ok s (setReadConsumingRoom s room)"
    and "activeRoomId (fst (setReadConsumingRoom s room)) = activeRoomId s"
    and "readConsumingRoomId (fst (setReadConsumingRoom s room)) = room"
proof -
  let ?prev = "readConsumingRoomId s"
  let ?s1 = "s\<lparr>readConsumingRoomId := room\<rparr>"
  obtain s2 g2 where r2: "refresh_room ?s1 ?prev = (s2, g2)" by fastforce
  obtain s3 g3 where r3: "refresh_room s2 room = (s3, g3)" by fastforce
  have start: "rooms_ok {?prev, room} ?s1"
    unfolding rooms_ok_def
  proof (intro conjI ballI)
    fix p assume p: "p \<in> set (us_rooms ?s1)"
    show "fst p \<noteq> []" "us_roomId (snd p) = fst p"
      using inv p by (simp_all add: unread_inv_def rooms_ok_def)
    show "fst p \<notin> {?prev, room} \<longrightarrow>
        recomputeEffectiveState (readConsumingRoomId ?s1) (snd p) = snd p"
    proof
      assume "fst p \<notin> {?prev, room}"
      then have "consumed_in room (snd p) = consumed_in ?prev (snd p)"
        using inv p by (auto simp: unread_inv_def rooms_ok_def consumed_in_def)
      then show "recomputeEffectiveState (readConsumingRoomId ?s1) (snd p) = snd p"
        using inv p recompute_consumed_cong [of room "snd p" ?prev]
        by (simp add: unread_inv_def rooms_ok_def)
    qed
  qed (use inv in \<open>simp_all add: unread_inv_def rooms_ok_def\<close>)
  have ok2: "rooms_ok ({?prev, room} - {?prev}) s2"
    and sig2: "signals_ok ?s1 s2 g2" and cons2: "readConsumingRoomId s2 = room"
    and act2: "activeRoomId s2 = activeRoomId s"
    using refresh_room_ok [OF start r2] by simp_all
  have "rooms_ok ({?prev, room} - {?prev} - {room}) s3"
    and sig3: "signals_ok s2 s3 g3" and cons3: "readConsumingRoomId s3 = room"
    and act3: "activeRoomId s3 = activeRoomId s"
    using refresh_room_ok [OF ok2 r3] cons2 act2 by simp_all
  then have inv3: "unread_inv s3"
    by (simp add: unread_inv_def insert_Diff_if split: if_splits)
  have "signals_ok s ?s1 []"
    by (simp add: signals_ok_def active_view_def roomState_def)
  then have "signals_ok s s3 (g2 @ g3)"
    using signals_ok_trans [OF signals_ok_trans [OF _ sig2] sig3, of s "[]"] by simp
  with inv inv3 show "call_ok s (setReadConsumingRoom s room)"
    and "activeRoomId (fst (setReadConsumingRoom s room)) = activeRoomId s"
    and "readConsumingRoomId (fst (setReadConsumingRoom s room)) = room"
    using r2 r3 act3 cons3 by (simp_all add: setReadConsumingRoom_def call_ok_def)
qed

lemma unread_inv_no_empty_room: "unread_inv s \<Longrightarrow> roomState s [] = default_unread_room_state"
  by (cases "map_of (us_rooms s) []")
     (auto simp: unread_inv_def rooms_ok_def roomState_def hash_value_def dest!: map_of_SomeD)

lemma default_room_effective [simp]:
  "effectiveUnreadCount default_unread_room_state = 0"
  "effectiveFirstUnreadEventId default_unread_room_state = []"
  "displayUnreadCount default_unread_room_state = 0"
  by (simp_all add: default_unread_room_state_def)

lemma setActiveRoomId_call_ok:
  assumes inv: "unread_inv s"
  shows "call_ok s (setActiveRoomId s room)"
proof (cases "activeRoomId s = room")
  case True
  with inv show ?thesis by (simp add: setActiveRoomId_def)
next
  case False
  let ?s1 = "s\<lparr>activeRoomId := room\<rparr>"
  obtain s2 g2 where r2: "(if readConsumingRoomId ?s1 \<noteq> [] \<and> readConsumingRoomId ?s1 \<noteq> room
      then setReadConsumingRoom ?s1 [] else (?s1, [])) = (s2, g2)" by fastforce
  have inv1: "unread_inv ?s1"
    using inv by (simp add: unread_inv_def rooms_ok_def)
  have "call_ok ?s1 (s2, g2) \<and> activeRoomId s2 = room"
    using r2 inv1 setReadConsumingRoom_call_ok [OF inv1, of "[]"]
    by (cases "readConsumingRoomId s = []"; cases "readConsumingRoomId s = room") auto
  then have ok2: "call_ok ?s1 (s2, g2)" and act2: "activeRoomId s2 = room" by simp_all
  have total: "replay decode_total (lastTotalUnreadIncludingMuted s) g2
      = lastTotalUnreadIncludingMuted s2" and inv2: "unread_inv s2"
    using ok2 by (simp_all add: call_ok_def signals_ok_def)
  have "setActiveRoomId s room = (s2, g2 @ [ActiveRoomUnreadStateChanged room
      (effectiveUnreadCount (roomState s2 room)) (effectiveFirstUnreadEventId (roomState s2 room))])"
  proof -
    have "setActiveRoomId s room =
       (if room = [] then (s2, g2 @ [ActiveRoomUnreadStateChanged [] 0 []])
        else (s2, g2 @ [ActiveRoomUnreadStateChanged room
          (effectiveUnreadCount (roomState s2 room))
          (effectiveFirstUnreadEventId (roomState s2 room))]))"
      by (simp only: setActiveRoomId_def Let_def False if_False r2 prod.case act2)
    then show ?thesis
      using unread_inv_no_empty_room [OF inv2] by (cases "room = []") simp_all
  qed
  with total inv2 act2 show ?thesis
    by (simp add: call_ok_def signals_ok_def active_view_def)
qed

text \<open>The merges of the three feeds leave the room id alone.\<close>

lemma clears_frame [simp]:
  "us_roomId (ClearPendingReadState st) = us_roomId st"
  "us_roomId (ClearPendingExplicitState st) = us_roomId st"
  by (simp_all add: unread_clears)

lemma merge_room_ids [simp]:
  "us_roomId (merge_room_summary before rs) = rs_roomId rs"
  "us_roomId (merge_unread_snapshot before room snap) = room"
  "us_roomId (merge_timeline_slice before room sl) = room"
  by (simp_all add: merge_room_summary_def merge_unread_snapshot_def merge_timeline_slice_def Let_def)

lemma apply_room_summary_call_ok: "unread_inv s \<Longrightarrow> call_ok s (apply_room_summary s rs)"
  by (simp add: apply_room_summary_def Let_def store_and_emit_call_ok)

lemma apply_room_summaries_call_ok: "unread_inv s \<Longrightarrow> call_ok s (apply_room_summaries s rooms)"
proof (induction rooms arbitrary: s)
  case Nil
  then show ?case by simp
next
  case (Cons rs rooms)
  obtain s1 g1 where r1: "apply_room_summary s rs = (s1, g1)" by fastforce
  obtain s2 g2 where r2: "apply_room_summaries s1 rooms = (s2, g2)" by fastforce
  from apply_room_summary_call_ok [OF Cons.prems, of rs] Cons.IH [of s1]
  show ?case by (auto simp: r1 r2 call_ok_def intro: signals_ok_trans)
qed


subsection \<open>The room-list snapshot\<close>

lemma emit_total_call_ok:
  assumes "rooms_ok {} (s\<lparr>lastTotalUnreadIncludingMuted := totalUnreadCount s True\<rparr>)"
    and "emit_total_if_changed s = (s', sigs)"
  shows "unread_inv s'" and "signals_ok s s' sigs"
proof -
  have "unread_inv s' \<and> signals_ok s s' sigs"
  proof (cases "lastTotalUnreadIncludingMuted s = totalUnreadCount s True")
    case True
    then have "s\<lparr>lastTotalUnreadIncludingMuted := totalUnreadCount s True\<rparr> = s"
      by (cases s) simp
    with assms True show ?thesis
      by (simp add: emit_total_if_changed_def unread_inv_def)
  next
    case False
    with assms show ?thesis
      by (auto simp: emit_total_if_changed_def Let_def unread_inv_def signals_ok_def
          active_view_def roomState_def)
  qed
  then show "unread_inv s'" and "signals_ok s s' sigs" by simp_all
qed

lemma emit_total_noop: "unread_inv s \<Longrightarrow> emit_total_if_changed s = (s, [])"
  by (simp add: emit_total_if_changed_def unread_inv_def rooms_ok_def)

lemma map_of_filter_keys:
  "map_of (filter (\<lambda>p. fst p \<in> K) h) k = (if k \<in> K then map_of h k else None)"
  by (induction h) auto

lemma replay_erased:
  assumes "\<And>p. p \<in> set ps \<Longrightarrow> fst p \<noteq> []" "fst v = a" 
  shows "replay decode_active v (concat (map (\<lambda>p. RoomUnreadStateChanged (fst p)
           # (if a = fst p then [ActiveRoomUnreadStateChanged (fst p) 0 []] else [])) ps))
         = (if a \<in> fst ` set ps then (a, 0, []) else v)"
  using assms by (induction ps arbitrary: v) auto

lemma erase_unseen_ok:
  assumes inv: "unread_inv s" and er: "erase_unseen s seen = (s', sigs)"
  shows "rooms_ok {} (s'\<lparr>lastTotalUnreadIncludingMuted := totalUnreadCount s' True\<rparr>)"
    and "signals_ok s s' sigs"
proof -
  from er have s': "s' = s\<lparr>us_rooms := filter (\<lambda>p. fst p \<in> set seen) (us_rooms s)\<rparr>"
    by (simp add: erase_unseen_def)
  show "rooms_ok {} (s'\<lparr>lastTotalUnreadIncludingMuted := totalUnreadCount s' True\<rparr>)"
    using inv by (auto simp: s' unread_inv_def rooms_ok_def)
  have "replay decode_active (active_view s) sigs =
      (if activeRoomId s \<in> fst ` set (filter (\<lambda>p. fst p \<notin> set seen) (us_rooms s))
       then (activeRoomId s, 0, []) else active_view s)"
    using er inv replay_erased [of "filter (\<lambda>p. fst p \<notin> set seen) (us_rooms s)"
        "active_view s" "activeRoomId s"]
    by (auto simp: erase_unseen_def unread_inv_def rooms_ok_def active_view_def)
  also have "\<dots> = active_view s'"
    using map_of_eq_None_iff [of "us_rooms s" "activeRoomId s"]
    by (auto simp: s' active_view_def roomState_def hash_value_def map_of_filter_keys
        split: option.splits)
  finally have act: "replay decode_active (active_view s) sigs = active_view s'" .
  have "replay decode_total n sigs = n" for n
    by (rule replay_silent) (use er in \<open>auto simp: erase_unseen_def split: if_splits\<close>)
  with act show "signals_ok s s' sigs"
    by (simp add: signals_ok_def s')
qed

lemma applyRoomListSnapshot_call_ok:
  assumes inv: "unread_inv s"
  shows "call_ok s (applyRoomListSnapshot s rooms)"
proof -
  obtain s1 g1 where r1: "apply_room_summaries s rooms = (s1, g1)" by fastforce
  let ?seen = "filter (\<lambda>room. room \<noteq> []) (map rs_roomId rooms)"
  obtain s2 g2 where r2: "erase_unseen s1 ?seen = (s2, g2)" by fastforce
  obtain s3 g3 where r3: "emit_total_if_changed s2 = (s3, g3)" by fastforce
  from apply_room_summaries_call_ok [OF inv, of rooms]
  have inv1: "unread_inv s1" and sig1: "signals_ok s s1 g1"
    by (simp_all add: r1 call_ok_def)
  note er = erase_unseen_ok [OF inv1 r2]
  note em = emit_total_call_ok [OF er(1) r3]
  from em(1) signals_ok_trans [OF signals_ok_trans [OF sig1 er(2)] em(2)]
  show ?thesis
    by (simp only: applyRoomListSnapshot_def Let_def r1 r2 r3 prod.case call_ok_def
        fst_conv snd_conv append_assoc simp_thms)
qed


subsection \<open>The other methods\<close>

lemma applyTimelineSnapshot_call_ok:
  assumes inv: "unread_inv s"
  shows "call_ok s (applyTimelineSnapshot s room sl)"
proof (cases "room = [] \<or> \<not> ts_unreadStateKnown sl")
  case True
  with inv show ?thesis by (auto simp: applyTimelineSnapshot_def)
next
  case False
  obtain s1 g1 where r1: "store_and_emit s room (roomState s room)
      (merge_timeline_slice (roomState s room) room sl) = (s1, g1)" by fastforce
  from store_and_emit_call_ok [OF inv, of room "merge_timeline_slice (roomState s room) room sl"] False
  have ok: "call_ok s (s1, g1)" by (simp add: r1)
  then have "emit_total_if_changed s1 = (s1, [])"
    by (simp add: emit_total_noop call_ok_def)
  then have "applyTimelineSnapshot s room sl = (s1, g1)"
    using False by (simp add: applyTimelineSnapshot_def r1 Let_def)
  with ok show ?thesis by simp
qed

text \<open>Fields that no displayed value depends on can be written without emitting anything.\<close>

lemma up_to_date_iff:
  "recomputeEffectiveState c st = st \<longleftrightarrow>
     effectiveUnreadCount st = effective_unread_spec st
   \<and> effectiveHighlightCount st = effective_highlight_spec st
   \<and> effectiveMarkedUnread st = effective_marked_spec st
   \<and> effectiveFirstUnreadEventId st = first_unread_spec st
   \<and> displayUnreadCount st = (if consumed_in c st then 0 else effective_unread_spec st)
   \<and> displayHighlightCount st = (if consumed_in c st then 0 else effective_highlight_spec st)"
proof
  assume "recomputeEffectiveState c st = st"
  then show "effectiveUnreadCount st = effective_unread_spec st
   \<and> effectiveHighlightCount st = effective_highlight_spec st
   \<and> effectiveMarkedUnread st = effective_marked_spec st
   \<and> effectiveFirstUnreadEventId st = first_unread_spec st
   \<and> displayUnreadCount st = (if consumed_in c st then 0 else effective_unread_spec st)
   \<and> displayHighlightCount st = (if consumed_in c st then 0 else effective_highlight_spec st)"
    by (metis recompute_effective)
qed (rule unread_room_state.equality, simp_all)

lemma specs_update [simp]:
  "effective_unread_spec (st\<lparr>pendingExplicitRequestId := q\<rparr>) = effective_unread_spec st"
  "effective_highlight_spec (st\<lparr>pendingExplicitRequestId := q\<rparr>) = effective_highlight_spec st"
  "effective_marked_spec (st\<lparr>pendingExplicitRequestId := q\<rparr>) = effective_marked_spec st"
  "consumed_in c (st\<lparr>pendingExplicitRequestId := q\<rparr>) = consumed_in c st"
  "effective_unread_spec (st\<lparr>pendingReadRequestId := q\<rparr>) = effective_unread_spec st"
  "effective_highlight_spec (st\<lparr>pendingReadRequestId := q\<rparr>) = effective_highlight_spec st"
  "effective_marked_spec (st\<lparr>pendingReadRequestId := q\<rparr>) = effective_marked_spec st"
  "consumed_in c (st\<lparr>pendingReadRequestId := q\<rparr>) = consumed_in c st"
  "effective_unread_spec (st\<lparr>lastAckedReceiptEventId := e\<rparr>) = effective_unread_spec st"
  "effective_highlight_spec (st\<lparr>lastAckedReceiptEventId := e\<rparr>) = effective_highlight_spec st"
  "effective_marked_spec (st\<lparr>lastAckedReceiptEventId := e\<rparr>) = effective_marked_spec st"
  "consumed_in c (st\<lparr>lastAckedReceiptEventId := e\<rparr>) = consumed_in c st"
  by (simp_all add: effective_unread_spec_def effective_highlight_spec_def
      effective_marked_spec_def consumed_in_def)

lemma first_unread_update [simp]:
  "first_unread_spec (st\<lparr>pendingExplicitRequestId := q\<rparr>) = first_unread_spec st"
  "first_unread_spec (st\<lparr>pendingReadRequestId := q\<rparr>) = first_unread_spec st"
  "first_unread_spec (st\<lparr>lastAckedReceiptEventId := e\<rparr>) = first_unread_spec st"
  by (simp_all add: first_unread_spec_def)

lemma silent_update_call_ok:
  assumes inv: "unread_inv s" and st: "map_of (us_rooms s) room = Some st"
    and same: "us_roomId st' = us_roomId st" "displayUnreadCount st' = displayUnreadCount st"
      "effectiveUnreadCount st' = effectiveUnreadCount st"
      "effectiveFirstUnreadEventId st' = effectiveFirstUnreadEventId st"
    and upto: "recomputeEffectiveState (readConsumingRoomId s) st = st \<Longrightarrow>
      recomputeEffectiveState (readConsumingRoomId s) st' = st'"
  shows "call_ok s (s\<lparr>us_rooms := hash_insert room st' (us_rooms s)\<rparr>, [])"
proof -
  from st have rs: "roomState s room = st" by (rule roomState_stored)
  from inv map_of_SomeD [OF st] have stored: "room \<noteq> []" "us_roomId st = room"
      "recomputeEffectiveState (readConsumingRoomId s) st = st"
    by (auto simp: unread_inv_def rooms_ok_def)
  let ?s = "s\<lparr>us_rooms := hash_insert room st' (us_rooms s)\<rparr>"
  have "totalUnreadCount ?s True = totalUnreadCount s True"
    using rs same by (simp add: total_insert badge_share_def)
  then have "lastTotalUnreadIncludingMuted ?s = totalUnreadCount ?s True"
    using inv by (simp add: unread_inv_def rooms_ok_def)
  then have "unread_inv ?s"
    using rooms_ok_insert [of "{}" s room st' ?s] inv stored same(1) upto
    by (simp add: unread_inv_def)
  moreover have "signals_ok s ?s []"
    using rs same by (auto simp: signals_ok_def active_view_def roomState_def)
  ultimately show ?thesis by (simp add: call_ok_def)
qed

lemma setRoomNotificationMode_call_ok:
  "unread_inv s \<Longrightarrow> call_ok s (setRoomNotificationMode s room mode muted)"
  by (simp add: setRoomNotificationMode_def Let_def store_and_emit_call_ok)

lemma applyRoomUnreadSnapshot_call_ok:
  "unread_inv s \<Longrightarrow> call_ok s (applyRoomUnreadSnapshot s room snap)"
  by (simp add: applyRoomUnreadSnapshot_def Let_def store_and_emit_call_ok)

lemma ackMarkRead_call_ok:
  assumes inv: "unread_inv s"
  shows "call_ok s (ackMarkRead s room read req ok)"
proof (cases "map_of (us_rooms s) room")
  case None
  with inv show ?thesis by (simp add: ackMarkRead_def)
next
  case (Some st)
  note rs = roomState_stored [OF Some]
  from inv have stored: "us_roomId st = room" "room \<noteq> []"
    using rooms_ok_stored [of "{}" s room st] Some by (simp_all add: unread_inv_def)
  note store = store_and_emit_call_ok [OF inv stored(2), unfolded rs]
  have "call_ok s (s\<lparr>us_rooms := hash_insert room (st\<lparr>pendingExplicitRequestId := 0\<rparr>)
      (us_rooms s)\<rparr>, [])"
    by (rule silent_update_call_ok [OF inv Some]) (simp_all add: up_to_date_iff)
  moreover have "call_ok s (store_and_emit s room st (st\<lparr>pendingExplicitMarkRead := False,
      pendingExplicitRevision := 0, pendingExplicitRequestId := 0\<rparr>))"
    "call_ok s (store_and_emit s room st (ClearPendingExplicitState st))"
    by (rule store; simp add: stored)+
  ultimately show ?thesis
    using inv Some stored(2) by (simp add: ackMarkRead_def)
qed

lemma ackReadReceipt_call_ok:
  assumes inv: "unread_inv s"
  shows "call_ok s (ackReadReceipt s room event req ok)"
proof (cases "map_of (us_rooms s) room")
  case None
  with inv show ?thesis by (simp add: ackReadReceipt_def)
next
  case (Some st)
  note rs = roomState_stored [OF Some]
  from inv have stored: "us_roomId st = room" "room \<noteq> []"
    using rooms_ok_stored [of "{}" s room st] Some by (simp_all add: unread_inv_def)
  note store = store_and_emit_call_ok [OF inv stored(2), unfolded rs]
  have "call_ok s (s\<lparr>us_rooms := hash_insert room (st\<lparr>lastAckedReceiptEventId := event,
       pendingReadRequestId := 0\<rparr>) (us_rooms s)\<rparr>, [])"
    by (rule silent_update_call_ok [OF inv Some]) (simp_all add: up_to_date_iff)
  moreover have "call_ok s (s\<lparr>us_rooms := hash_insert room (st\<lparr>lastAckedReceiptEventId := event\<rparr>)
      (us_rooms s)\<rparr>, [])"
    by (rule silent_update_call_ok [OF inv Some]) (simp_all add: up_to_date_iff)
  moreover have "call_ok s (store_and_emit s room st (ClearPendingReadState st))"
    by (rule store; simp add: stored)
  ultimately show ?thesis
    using inv Some stored(2) by (simp add: ackReadReceipt_def Let_def)
qed

lemma bind_call_ok:
  assumes inv: "unread_inv s"
  shows "call_ok s (bindExplicitRequest s room revn req, [])"
    and "call_ok s (bindReadReceiptRequest s room event revn req, [])"
proof -
  have "call_ok s (s\<lparr>us_rooms := hash_insert room (st\<lparr>pendingExplicitRequestId := req\<rparr>)
      (us_rooms s)\<rparr>, [])" if "map_of (us_rooms s) room = Some st" for st
    by (rule silent_update_call_ok [OF inv that]) (simp_all add: up_to_date_iff)
  with inv show "call_ok s (bindExplicitRequest s room revn req, [])"
    by (auto simp: bindExplicitRequest_def split: option.split)
  have "call_ok s (s\<lparr>us_rooms := hash_insert room (st\<lparr>pendingReadRequestId := req\<rparr>)
      (us_rooms s)\<rparr>, [])" if "map_of (us_rooms s) room = Some st" for st
    by (rule silent_update_call_ok [OF inv that]) (simp_all add: up_to_date_iff)
  with inv show "call_ok s (bindReadReceiptRequest s room event revn req, [])"
    by (auto simp: bindReadReceiptRequest_def split: option.split)
qed

lemma optimistic_call_ok:
  assumes inv: "unread_inv s"
  shows "call_ok s (unread_apply s (MarkRead room))"
    and "call_ok s (unread_apply s (MarkUnread room))"
    and "call_ok s (unread_apply s (ReadProgress room till nxt n ts))"
    and "call_ok s (unread_apply s (ClearOnSend room))"
  using inv
  by (simp_all add: optimisticMarkRead_def optimisticMarkUnread_def optimisticReadProgress_def
      optimisticClearOnSend_def Let_def case_prod_beta store_and_emit_call_ok)

lemma unread_apply_call_ok: "unread_inv s \<Longrightarrow> call_ok s (unread_apply s e)"
proof (induction e)
  case (MarkRead x) then show ?case by (rule optimistic_call_ok)
next
  case (MarkUnread x) then show ?case by (rule optimistic_call_ok)
next
  case (ReadProgress x1 x2 x3 x4 x5) then show ?case by (rule optimistic_call_ok)
next
  case (ClearOnSend x) then show ?case by (rule optimistic_call_ok)
qed (simp_all add: setActiveRoomId_call_ok setReadConsumingRoom_call_ok
    applyRoomListSnapshot_call_ok applyRoomUnreadSnapshot_call_ok applyTimelineSnapshot_call_ok
    setRoomNotificationMode_call_ok bind_call_ok ackMarkRead_call_ok ackReadReceipt_call_ok)

subsection \<open>The store under its interfaces\<close>

text \<open>Two listeners: the total badge keeps the last \<open>totalUnreadChanged\<close>, the open chat keeps
  the last \<open>activeRoomUnreadStateChanged\<close>.\<close>

definition badge_view :: "unread_store \<Rightarrow> int" where
  "badge_view s = totalUnreadCount s True"

lemma call_ok_views:
  "call_ok s r \<Longrightarrow> unread_inv s \<Longrightarrow> unread_inv (fst r)
     \<and> replay decode_total (badge_view s) (snd r) = badge_view (fst r)
     \<and> replay decode_active (active_view s) (snd r) = active_view (fst r)"
  by (simp add: call_ok_def signals_ok_def unread_inv_def rooms_ok_def badge_view_def)

lemma unread_apply_views:
  assumes "unread_inv s"
  shows "unread_inv (fst (unread_apply s e))"
    and "replay decode_total (badge_view s) (snd (unread_apply s e))
           = badge_view (fst (unread_apply s e))"
    and "replay decode_active (active_view s) (snd (unread_apply s e))
           = active_view (fst (unread_apply s e))"
  using call_ok_views [OF unread_apply_call_ok [OF assms] assms, of e] by simp_all

interpretation unread_badge:
  signalling_machine unread_apply unread_inv badge_view decode_total
  by unfold_locales (simp_all add: unread_apply_views)

interpretation unread_active:
  signalling_machine unread_apply unread_inv active_view decode_active
  by unfold_locales (simp_all add: unread_apply_views)

lemma unread_inv_entry:
  assumes "unread_inv s"
  shows "effectiveUnreadCount (roomState s r) = effective_unread_spec (roomState s r)"
    and "displayUnreadCount (roomState s r) =
      (if readConsumingRoomId s = r then 0 else effective_unread_spec (roomState s r))"
    and "displayHighlightCount (roomState s r) =
      (if readConsumingRoomId s = r then 0 else effective_highlight_spec (roomState s r))"
    and "effectiveHighlightCount (roomState s r) = effective_highlight_spec (roomState s r)"
    and "effectiveMarkedUnread (roomState s r) = effective_marked_spec (roomState s r)"
    and "effectiveFirstUnreadEventId (roomState s r) = first_unread_spec (roomState s r)"
proof -
  have "effectiveUnreadCount (roomState s r) = effective_unread_spec (roomState s r)
   \<and> displayUnreadCount (roomState s r) =
      (if readConsumingRoomId s = r then 0 else effective_unread_spec (roomState s r))
   \<and> displayHighlightCount (roomState s r) =
      (if readConsumingRoomId s = r then 0 else effective_highlight_spec (roomState s r))
   \<and> effectiveHighlightCount (roomState s r) = effective_highlight_spec (roomState s r)
   \<and> effectiveMarkedUnread (roomState s r) = effective_marked_spec (roomState s r)
   \<and> effectiveFirstUnreadEventId (roomState s r) = first_unread_spec (roomState s r)"
  proof (cases "map_of (us_rooms s) r")
    case None
    then have "roomState s r = default_unread_room_state"
      by (simp add: roomState_def hash_value_def)
    then show ?thesis by (simp add: default_unread_room_state_def effective_specs)
  next
    case (Some st)
    from assms map_of_SomeD [OF Some] have "recomputeEffectiveState (readConsumingRoomId s) st = st"
        "us_roomId st = r" "r \<noteq> []"
      by (auto simp: unread_inv_def rooms_ok_def)
    then show ?thesis
      by (auto simp: roomState_stored [OF Some] up_to_date_iff consumed_in_def)
  qed
  then show "effectiveUnreadCount (roomState s r) = effective_unread_spec (roomState s r)"
    and "displayUnreadCount (roomState s r) =
      (if readConsumingRoomId s = r then 0 else effective_unread_spec (roomState s r))"
    and "displayHighlightCount (roomState s r) =
      (if readConsumingRoomId s = r then 0 else effective_highlight_spec (roomState s r))"
    and "effectiveHighlightCount (roomState s r) = effective_highlight_spec (roomState s r)"
    and "effectiveMarkedUnread (roomState s r) = effective_marked_spec (roomState s r)"
    and "effectiveFirstUnreadEventId (roomState s r) = first_unread_spec (roomState s r)"
    by blast+
qed

text \<open>What \<open>store_and_emit\<close> makes of one room and leaves of the others.\<close>

lemma store_and_emit_room:
  "roomState (fst (store_and_emit s room before st)) r =
     (if r = room then recomputeEffectiveState (readConsumingRoomId s) st else roomState s r)"
  using store_and_emit_fields [of s room before st]
  by (cases "store_and_emit s room before st") (simp add: roomState_def)



subsection \<open>Echoes: what must not bring a read back\<close>

text \<open>\<open>is_echo room F n e\<close>: call \<open>e\<close> tells the store nothing about \<open>room\<close> that contradicts or
  confirms a local read up to time \<open>F\<close> that left \<open>n\<close> messages unread: server feeds that still
  count the room as unread with no activity after \<open>F\<close>, calls about other rooms, presentation
  settings and bookkeeping of requests.\<close>

fun is_echo :: "qstring \<Rightarrow> int \<Rightarrow> int \<Rightarrow> unread_op \<Rightarrow> bool" where
  "is_echo room F n (RoomListSnapshot rooms) \<longleftrightarrow>
     room \<in> set (map rs_roomId rooms) \<and>
     list_all (\<lambda>rs. rs_roomId rs = room \<longrightarrow>
        rs_timestamp rs \<le> F \<and> (rs_unreadCount rs \<noteq> 0 \<or> rs_isMarkedUnread rs)) rooms"
| "is_echo room F n (RoomUnreadSnapshot r snap) \<longleftrightarrow>
     r = room \<longrightarrow> 0 < ru_unreadCount snap \<or> ru_isMarkedUnread snap"
| "is_echo room F n (TimelineSnapshot r sl) \<longleftrightarrow> r = room \<longrightarrow> n < ts_unreadCount sl"
| "is_echo room F n (MarkRead r) \<longleftrightarrow> r \<noteq> room"
| "is_echo room F n (MarkUnread r) \<longleftrightarrow> r \<noteq> room"
| "is_echo room F n (ReadProgress r till nxt m ts) \<longleftrightarrow> r \<noteq> room"
| "is_echo room F n (ClearOnSend r) \<longleftrightarrow> r \<noteq> room"
| "is_echo room F n (AckMarkRead r read req ok) \<longleftrightarrow> r \<noteq> room"
| "is_echo room F n (AckReceipt r ev req ok) \<longleftrightarrow> r = room \<longrightarrow> ok"
| "is_echo room F n _ \<longleftrightarrow> True"

text \<open>What an echo keeps: the frontier, and the pending read.\<close>

definition marked_held :: "int \<Rightarrow> unread_room_state \<Rightarrow> bool" where
  "marked_held F st \<longleftrightarrow> F \<le> readFrontierTs st \<and> pendingExplicitMarkRead st
     \<and> \<not> pendingExplicitMarkUnread st"

definition progress_held :: "int \<Rightarrow> int \<Rightarrow> unread_room_state \<Rightarrow> bool" where
  "progress_held F n st \<longleftrightarrow> F \<le> readFrontierTs st \<and> pendingOptimisticUnreadCount st = n"

lemmas held_defs = marked_held_def progress_held_def

lemma marked_held_merges:
  assumes "marked_held F st"
  shows "rs_timestamp rs \<le> F \<Longrightarrow> rs_unreadCount rs \<noteq> 0 \<or> rs_isMarkedUnread rs \<Longrightarrow>
      marked_held F (merge_room_summary st rs)"
    and "0 < ru_unreadCount snap \<or> ru_isMarkedUnread snap \<Longrightarrow>
      marked_held F (merge_unread_snapshot st room snap)"
    and "0 < ts_unreadCount sl \<Longrightarrow> marked_held F (merge_timeline_slice st room sl)"
  using assms
  by (auto simp: held_defs merge_room_summary_def merge_unread_snapshot_def
      merge_timeline_slice_def unread_clears Let_def)

lemma progress_held_merges:
  assumes "progress_held F n st"
  shows "rs_timestamp rs \<le> F \<Longrightarrow> rs_unreadCount rs \<noteq> 0 \<or> rs_isMarkedUnread rs \<Longrightarrow>
      progress_held F n (merge_room_summary st rs)"
    and "0 < ru_unreadCount snap \<or> ru_isMarkedUnread snap \<Longrightarrow>
      progress_held F n (merge_unread_snapshot st room snap)"
    and "0 \<le> n \<Longrightarrow> n < ts_unreadCount sl \<Longrightarrow> progress_held F n (merge_timeline_slice st room sl)"
  using assms
  by (auto simp: held_defs merge_room_summary_def merge_unread_snapshot_def
      merge_timeline_slice_def unread_clears Let_def)

text \<open>Both are predicates on one room's stored state that do not look at the effective
  fields; the next lemmas lift them through the calls.\<close>

definition echo_stable :: "(unread_room_state \<Rightarrow> bool) \<Rightarrow> bool" where
  "echo_stable P \<longleftrightarrow>
     (\<forall>c st. P (recomputeEffectiveState c st) = P st)
   \<and> (\<forall>st r mode muted. P (st\<lparr>us_roomId := r, us_notificationMode := mode, us_isMuted := muted\<rparr>) = P st)
   \<and> (\<forall>st q. P (st\<lparr>pendingExplicitRequestId := q\<rparr>) = P st)
   \<and> (\<forall>st q. P (st\<lparr>pendingReadRequestId := q\<rparr>) = P st)
   \<and> (\<forall>st e. P (st\<lparr>lastAckedReceiptEventId := e\<rparr>) = P st)"

lemma echo_stable_held: "echo_stable (marked_held F)" "echo_stable (progress_held F n)"
  by (simp_all add: echo_stable_def held_defs)

lemma refresh_room_stable:
  assumes "echo_stable P"
  shows "P (roomState (fst (refresh_room s r)) room) = P (roomState s room)"
  using assms
  by (auto simp: refresh_room_def store_and_emit_room echo_stable_def roomState_stored
      split: option.split)

lemma roomState_members [simp]:
  "roomState (s\<lparr>readConsumingRoomId := c\<rparr>) r = roomState s r"
  "roomState (s\<lparr>activeRoomId := c\<rparr>) r = roomState s r"
  "roomState (s\<lparr>lastTotalUnreadIncludingMuted := k\<rparr>) r = roomState s r"
  by (simp_all add: roomState_def)

lemma setReadConsumingRoom_stable:
  assumes "echo_stable P"
  shows "P (roomState (fst (setReadConsumingRoom s r)) room) = P (roomState s room)"
  using refresh_room_stable [OF assms]
  by (simp add: setReadConsumingRoom_def Let_def case_prod_beta)

lemma setActiveRoomId_stable:
  assumes "echo_stable P"
  shows "P (roomState (fst (setActiveRoomId s r)) room) = P (roomState s room)"
  using setReadConsumingRoom_stable [OF assms]
  by (simp add: setActiveRoomId_def Let_def case_prod_beta)

lemma emit_total_room [simp]: "roomState (fst (emit_total_if_changed s)) r = roomState s r"
  by (simp add: emit_total_if_changed_def Let_def)

lemma bind_stable:
  assumes "echo_stable P"
  shows "P (roomState (bindExplicitRequest s r revn req) room) = P (roomState s room)"
    and "P (roomState (bindReadReceiptRequest s r event revn req) room) = P (roomState s room)"
  using assms
  by (auto simp: bindExplicitRequest_def bindReadReceiptRequest_def echo_stable_def
      roomState_def hash_value_def split: option.split)

lemma erase_unseen_room:
  "room \<in> set seen \<Longrightarrow> roomState (fst (erase_unseen s seen)) room = roomState s room"
  by (simp add: erase_unseen_def roomState_def hash_value_def map_of_filter_keys)

lemma apply_room_summaries_held:
  assumes st: "echo_stable P"
    and merge: "\<And>st rs. rs \<in> set rooms \<Longrightarrow> rs_roomId rs = room \<Longrightarrow> P st \<Longrightarrow> P (merge_room_summary st rs)"
    and P: "P (roomState s room)"
  shows "P (roomState (fst (apply_room_summaries s rooms)) room)"
  using merge P
proof (induction rooms arbitrary: s)
  case Nil
  then show ?case by simp
next
  case (Cons rs rooms)
  have "P (roomState (fst (apply_room_summary s rs)) room)"
    using Cons.prems st
    by (auto simp: apply_room_summary_def Let_def store_and_emit_room echo_stable_def)
  with Cons.IH [of "fst (apply_room_summary s rs)"] Cons.prems(1) show ?case
    by (simp add: Let_def case_prod_beta)
qed

lemma roomState_other:
  "r \<noteq> room \<Longrightarrow> roomState (s\<lparr>us_rooms := hash_insert r st (us_rooms s)\<rparr>) room = roomState s room"
  by (simp add: roomState_def)

lemma echo_held:
  assumes st: "echo_stable P" and room: "room \<noteq> []"
    and list: "\<And>st rs. rs_timestamp rs \<le> F \<Longrightarrow> rs_unreadCount rs \<noteq> 0 \<or> rs_isMarkedUnread rs \<Longrightarrow>
      P st \<Longrightarrow> P (merge_room_summary st rs)"
    and snap: "\<And>st sn. 0 < ru_unreadCount sn \<or> ru_isMarkedUnread sn \<Longrightarrow>
      P st \<Longrightarrow> P (merge_unread_snapshot st room sn)"
    and line: "\<And>st sl. n < ts_unreadCount sl \<Longrightarrow> P st \<Longrightarrow> P (merge_timeline_slice st room sl)"
    and e: "is_echo room F n e" and P: "P (roomState s room)"
  shows "P (roomState (fst (unread_apply s e)) room)"
  using e P
proof (induction e)
  case (SetActiveRoom r)
  then show ?case by (simp add: setActiveRoomId_stable [OF st])
next
  case (SetReadConsuming r)
  then show ?case by (simp add: setReadConsumingRoom_stable [OF st])
next
  case (RoomListSnapshot rooms)
  then have "P (roomState (fst (apply_room_summaries s rooms)) room)"
    by (intro apply_room_summaries_held [OF st]) (auto simp: list_all_iff list)
  with RoomListSnapshot.prems room show ?case
    by (simp add: applyRoomListSnapshot_def Let_def case_prod_beta erase_unseen_room)
next
  case (RoomUnreadSnapshot r sn)
  then show ?case
    using st snap by (auto simp: applyRoomUnreadSnapshot_def Let_def store_and_emit_room echo_stable_def)
next
  case (TimelineSnapshot r sl)
  then show ?case
    using st line by (auto simp: applyTimelineSnapshot_def Let_def case_prod_beta
        store_and_emit_room echo_stable_def)
next
  case (SetNotificationMode r mode muted)
  then show ?case
    using st by (auto simp: setRoomNotificationMode_def Let_def store_and_emit_room echo_stable_def)
next
  case (BindExplicit r revn req)
  then show ?case by (simp add: bind_stable [OF st])
next
  case (BindReceipt r ev revn req)
  then show ?case by (simp add: bind_stable [OF st])
next
  case (AckMarkRead r read req ok)
  then show ?case
    by (cases "map_of (us_rooms s) r")
      (simp_all add: ackMarkRead_def store_and_emit_room roomState_other del: roomState_insert)
next
  case (AckReceipt r ev req ok)
  show ?case
  proof (cases "map_of (us_rooms s) r")
    case None
    with AckReceipt.prems show ?thesis by (simp add: ackReadReceipt_def)
  next
    case (Some a)
    show ?thesis
    proof (cases "r = room")
      case True
      have "P (a\<lparr>lastAckedReceiptEventId := ev\<rparr>)" "P (a\<lparr>lastAckedReceiptEventId := ev, pendingReadRequestId := 0\<rparr>)"
        using AckReceipt.prems(2) st True roomState_stored [OF Some] by (simp_all add: echo_stable_def)
      with True Some AckReceipt.prems show ?thesis by (simp add: ackReadReceipt_def Let_def)
    next
      case False
      with Some AckReceipt.prems(2) show ?thesis
        by (simp add: ackReadReceipt_def Let_def store_and_emit_room roomState_other
            del: roomState_insert)
    qed
  qed
qed (simp_all add: optimisticMarkRead_def optimisticMarkUnread_def optimisticReadProgress_def
    optimisticClearOnSend_def Let_def case_prod_beta store_and_emit_room)

lemma echoes_held:
  assumes "echo_stable P" "room \<noteq> []"
    and "\<And>st rs. rs_timestamp rs \<le> F \<Longrightarrow> rs_unreadCount rs \<noteq> 0 \<or> rs_isMarkedUnread rs \<Longrightarrow>
      P st \<Longrightarrow> P (merge_room_summary st rs)"
    and "\<And>st sn. 0 < ru_unreadCount sn \<or> ru_isMarkedUnread sn \<Longrightarrow>
      P st \<Longrightarrow> P (merge_unread_snapshot st room sn)"
    and "\<And>st sl. n < ts_unreadCount sl \<Longrightarrow> P st \<Longrightarrow> P (merge_timeline_slice st room sl)"
    and "list_all (is_echo room F n) es" "P (roomState s room)"
  shows "P (roomState (foldl (\<lambda>t e. fst (unread_apply t e)) s es) room)"
  using assms(6,7)
proof (induction es arbitrary: s)
  case Nil
  then show ?case by simp
next
  case (Cons e es)
  from Cons.prems have e: "is_echo room F n e" and es: "list_all (is_echo room F n) es"
    by (simp_all only: list.pred_inject)
  have "P (roomState (fst (unread_apply s e)) room)"
    using echo_held [OF assms(1-5) e Cons.prems(2)] .
  with es Cons.IH show ?case by (simp only: foldl_Cons)
qed

lemma total_bounds:
  assumes "unread_inv s"
  shows "0 \<le> totalUnreadCount s False" and "totalUnreadCount s False \<le> totalUnreadCount s True"
proof -
  have "0 \<le> displayUnreadCount (snd p)" if "p \<in> set (us_rooms s)" for p
    using assms that by (auto simp: unread_inv_def rooms_ok_def up_to_date_iff split: if_splits)
  then show "0 \<le> totalUnreadCount s False" "totalUnreadCount s False \<le> totalUnreadCount s True"
    by (auto simp: totalUnreadCount_def badge_share_def Let_def
        intro!: hash_sum_nonneg hash_sum_mono)
qed

end
