(* ===== verification/Unread_Properties.thy ===== *)
theory Unread_Properties imports Unread_Correct begin

section \<open>Properties of the unread-state store\<close>

text \<open>
  What the store promises its users, for every sequence of calls: listeners that never go
  stale, reads that stay read, new messages that still count.  The proofs rest on the two
  interpretations of \<open>signalling_machine\<close> and on \<open>echoes_held\<close>.
\<close>

text \<open>Whatever sequence of calls reaches a new store, its invariant holds: one entry per
  room, under the room's own id, every stored effective and displayed count the one
  \<open>recomputeEffectiveState\<close> would compute now, the announced total the current total.\<close>

theorem unread_run_invariant:
  "unread_inv (foldl (\<lambda>t e. fst (unread_apply t e)) initial_unread_store es)"
  by (rule unread_badge.run_inv) (rule unread_inv_initial)

text \<open>A badge that shows the last \<open>totalUnreadChanged\<close> it received (0 before the first) is
  never stale: after any sequence of calls it equals \<open>totalUnreadCount(true)\<close>.\<close>

theorem unread_total_listener_current:
  "replay decode_total 0 (snd (run_signals unread_apply initial_unread_store es)) =
     totalUnreadCount (fst (run_signals unread_apply initial_unread_store es)) True"
  using unread_badge.listener_current [OF unread_inv_initial, of es]
  by (simp add: badge_view_def initial_unread_store_def totalUnreadCount_def)

text \<open>C24: the open chat's listener is never stale either: replaying the
  \<open>activeRoomUnreadStateChanged\<close> signals of any sequence of calls gives the active room with
  its current effective count and first unread event, also when the room was forgotten by a
  room-list snapshot.\<close>

theorem unread_active_listener_current:
  "replay decode_active ([], 0, []) (snd (run_signals unread_apply initial_unread_store es)) =
     active_view (fst (run_signals unread_apply initial_unread_store es))"
  using unread_active.listener_current [OF unread_inv_initial, of es]
  by (simp add: active_view_def initial_unread_store_def roomState_def)


text \<open>A concrete run the witnesses use: four unread messages, the room marked read, then three
  late feeds that still count them.\<close>

definition demo_room :: qstring where "demo_room = ''!r''"

definition demo_store :: unread_store where
  "demo_store = fst (unread_apply initial_unread_store
     (RoomListSnapshot [default_room_summary\<lparr>rs_roomId := demo_room, rs_unreadCount := 4,
        rs_timestamp := 10\<rparr>]))"

definition demo_echoes :: "unread_op list" where
  "demo_echoes =
     [RoomListSnapshot [default_room_summary\<lparr>rs_roomId := demo_room, rs_unreadCount := 4,
        rs_timestamp := 10\<rparr>],
      TimelineSnapshot demo_room (default_timeline_slice\<lparr>ts_unreadStateKnown := True,
        ts_unreadCount := 3\<rparr>),
      RoomUnreadSnapshot demo_room (default_room_unread_snapshot\<lparr>ru_unreadCount := 4\<rparr>)]"

lemma demo_room_ne [simp]: "demo_room \<noteq> []"
  by (simp add: demo_room_def)

lemma demo_store_inv: "unread_inv demo_store"
  unfolding demo_store_def by (rule unread_apply_views(1)) (rule unread_inv_initial)

lemma roomState_initial [simp]: "roomState initial_unread_store r = default_unread_room_state"
  by (simp add: roomState_def initial_unread_store_def)

lemma demo_store_room:
  "readFrontierTs (roomState demo_store demo_room) = 0"
  "serverLastActivityTs (roomState demo_store demo_room) = 10"
  "effectiveUnreadCount (roomState demo_store demo_room) = 4"
  by (simp_all add: demo_store_def applyRoomListSnapshot_def Let_def case_prod_beta
      erase_unseen_room apply_room_summary_def store_and_emit_room merge_room_summary_def
      default_room_summary_def default_unread_room_state_def unread_clears
      effective_unread_spec_def)

lemma demo_echoes_ok: "list_all (is_echo demo_room 10 0) demo_echoes"
  by (simp add: demo_echoes_def default_room_summary_def default_timeline_slice_def
      default_room_unread_snapshot_def)


text \<open>The same for reading by scrolling: after \<open>optimisticReadProgress\<close> with \<open>n\<close> messages
  left, no sequence of echoes lets the badge exceed \<open>n\<close>, whatever counts the server sends.\<close>

theorem read_progress_survives_echoes:
  assumes "room \<noteq> []" and "till \<noteq> []" and "unread_inv s" and "0 \<le> n"
    and "list_all (is_echo room (max (readFrontierTs (roomState s room)) ts) n) es"
  shows "effectiveUnreadCount (roomState (foldl (\<lambda>t e. fst (unread_apply t e)) s
           (ReadProgress room till nxt n ts # es)) room) \<le> n"
proof -
  let ?F = "max (readFrontierTs (roomState s room)) ts"
  let ?s1 = "fst (unread_apply s (ReadProgress room till nxt n ts))"
  let ?s2 = "foldl (\<lambda>t e. fst (unread_apply t e)) ?s1 es"
  have "progress_held ?F n (roomState ?s1 room)"
    using assms(1,2,4) by (simp add: optimisticReadProgress_def Let_def case_prod_beta
        store_and_emit_room held_defs)
  then have "progress_held ?F n (roomState ?s2 room)"
    using assms(4,5)
    by (intro echoes_held [where P = "progress_held ?F n" and F = ?F and n = n]
        echo_stable_held assms(1) progress_held_merges) auto
  moreover have "unread_inv ?s2"
    using unread_badge.run_inv [OF assms(3), of "ReadProgress room till nxt n ts # es"] by simp
  ultimately show ?thesis
    using unread_inv_entry(1) [of ?s2 room] assms(4)
    by (simp add: effective_unread_spec_def progress_held_def)
qed

theorem read_progress_survives_echoes_witness:
  "effectiveUnreadCount (roomState (foldl (\<lambda>t e. fst (unread_apply t e)) demo_store
     (ReadProgress demo_room ''$e2'' ''$e3'' 2 10 # demo_echoes)) demo_room) \<le> 2"
proof -
  have "list_all (is_echo demo_room 10 2) demo_echoes"
    by (simp add: demo_echoes_def default_room_summary_def default_timeline_slice_def
      default_room_unread_snapshot_def)
  then show ?thesis
    using demo_store_room(1) read_progress_survives_echoes [OF demo_room_ne _ demo_store_inv, of "''$e2''" 2 10
        demo_echoes "''$e3''"] by simp
qed

text \<open>A real new message still raises the badge: a room-list entry with activity past the
  read frontier replaces every optimistic read by the server's count.\<close>

theorem new_activity_releases_read:
  assumes "unread_inv s" and "rs_roomId rs = room" and "room \<noteq> []"
    and "readFrontierTs (roomState s room) < rs_timestamp rs"
    and "0 \<le> rs_unreadCount rs"
  shows "effectiveUnreadCount (roomState (fst (unread_apply s (RoomListSnapshot [rs]))) room)
           = rs_unreadCount rs"
  using assms
  by (simp add: applyRoomListSnapshot_def Let_def case_prod_beta erase_unseen_room
      apply_room_summary_def store_and_emit_room merge_room_summary_def unread_clears
      effective_unread_spec_def)

theorem new_activity_releases_read_witness:
  "effectiveUnreadCount (roomState (fst (unread_apply (fst (unread_apply demo_store (MarkRead demo_room)))
     (RoomListSnapshot [default_room_summary\<lparr>rs_roomId := demo_room, rs_unreadCount := 5,
        rs_timestamp := 11\<rparr>]))) demo_room) = 5"
proof -
  let ?s = "fst (unread_apply demo_store (MarkRead demo_room))"
  have "readFrontierTs (roomState ?s demo_room) = 10"
    using demo_store_room(2)
    by (simp add: optimisticMarkRead_def Let_def case_prod_beta store_and_emit_room unread_clears)
  then show ?thesis
    using new_activity_releases_read [of ?s "default_room_summary\<lparr>rs_roomId := demo_room,
        rs_unreadCount := 5, rs_timestamp := 11\<rparr>" demo_room]
      unread_apply_views(1) [OF demo_store_inv, of "MarkRead demo_room"]
    by (simp del: unread_apply.simps)
qed

text \<open>The badge that leaves muted rooms out counts no more than the one that includes them,
  and neither is ever negative.\<close>

theorem unread_total_bounds:
  "let s = foldl (\<lambda>t e. fst (unread_apply t e)) initial_unread_store es
   in 0 \<le> totalUnreadCount s False \<and> totalUnreadCount s False \<le> totalUnreadCount s True"
proof -
  have "unread_inv (foldl (\<lambda>t e. fst (unread_apply t e)) initial_unread_store es)"
    by (rule unread_badge.run_inv) (rule unread_inv_initial)
  then show ?thesis by (simp add: Let_def total_bounds)
qed

text \<open>The room the user is reading contributes nothing to any badge.\<close>

theorem read_consuming_room_shows_zero:
  "let s = foldl (\<lambda>t e. fst (unread_apply t e)) initial_unread_store es;
       st = roomState s (readConsumingRoomId s)
   in displayUnreadCount st = 0 \<and> displayHighlightCount st = 0"
  using unread_inv_entry(2,3) [OF unread_badge.run_inv [OF unread_inv_initial, of es],
      of "readConsumingRoomId (foldl (\<lambda>t e. fst (unread_apply t e)) initial_unread_store es)"]
  by (simp add: Let_def)

text \<open>Every other room displays its effective counts, and those are the server's values
  masked by the pending reads: zero under a pending mark-read, at most the optimistic count
  under a pending read receipt, the server's count otherwise.\<close>

theorem effective_state_is_masked_server_state:
  "let s = foldl (\<lambda>t e. fst (unread_apply t e)) initial_unread_store es; st = roomState s room
   in effectiveUnreadCount st = effective_unread_spec st
    \<and> effectiveHighlightCount st = effective_highlight_spec st
    \<and> effectiveMarkedUnread st = effective_marked_spec st
    \<and> effectiveFirstUnreadEventId st = first_unread_spec st
    \<and> displayUnreadCount st =
        (if readConsumingRoomId s = room then 0 else effective_unread_spec st)"
  using unread_inv_entry [OF unread_badge.run_inv [OF unread_inv_initial, of es], of room]
  by (simp add: Let_def)

text \<open>An acknowledgement that carries another request's id changes nothing and emits
  nothing, so a late answer cannot cancel a newer read.\<close>

theorem foreign_ack_ignored:
  assumes "req \<noteq> 0" and "pendingExplicitRequestId (roomState s room) \<notin> {0, req}"
    and "req' \<noteq> 0" and "pendingReadRequestId (roomState s room) \<notin> {0, req'}"
  shows "unread_apply s (AckMarkRead room read req ok) = (s, [])
       \<and> unread_apply s (AckReceipt room ev req' ok') = (s, [])"
  using assms
  by (auto simp: ackMarkRead_def ackReadReceipt_def roomState_stored split: option.split)

text \<open>A failed request rolls back what it had promised: the failed mark-read gives the
  counts of the server, masked only by a read receipt that is still pending.\<close>

theorem failed_mark_read_rolls_back:
  assumes "unread_inv s" and "pendingExplicitMarkRead (roomState s room)"
    and "pendingExplicitRequestId (roomState s room) \<in> {0, req}"
  shows "effectiveUnreadCount (roomState (fst (unread_apply s (AckMarkRead room True req False))) room)
     = max 0 (if 0 \<le> pendingOptimisticUnreadCount (roomState s room)
              then min (pendingOptimisticUnreadCount (roomState s room))
                       (serverUnreadCount (roomState s room))
              else serverUnreadCount (roomState s room))"
proof (cases "map_of (us_rooms s) room")
  case None
  with assms(2) show ?thesis
    by (simp add: roomState_def hash_value_def default_unread_room_state_def)
next
  case (Some st)
  then have "room \<noteq> []"
    using assms(1) rooms_ok_stored(2) [of "{}" s room st] by (simp add: unread_inv_def)
  with Some assms(2,3) show ?thesis
    by (auto simp: ackMarkRead_def roomState_stored [OF Some] store_and_emit_room
        effective_unread_spec_def unread_clears)
qed


definition ack_store :: unread_store where
  "ack_store = foldl (\<lambda>t e. fst (unread_apply t e)) demo_store
     [MarkRead demo_room, BindExplicit demo_room 1 7,
      ReadProgress demo_room ''$e2'' [] 3 9, BindReceipt demo_room ''$e2'' 2 8]"

lemma ack_store_inv: "unread_inv ack_store"
  unfolding ack_store_def by (rule unread_badge.run_inv) (rule demo_store_inv)

lemma ack_store_room:
  "pendingExplicitRequestId (roomState ack_store demo_room) = 7"
  "pendingReadRequestId (roomState ack_store demo_room) = 8"
  "pendingExplicitMarkRead (roomState ack_store demo_room)"
  "pendingOptimisticUnreadCount (roomState ack_store demo_room) = 3"
  "serverUnreadCount (roomState ack_store demo_room) = 4"
  by code_simp+

theorem foreign_ack_ignored_witness:
  "unread_apply ack_store (AckMarkRead demo_room True 6 False) = (ack_store, [])
   \<and> unread_apply ack_store (AckReceipt demo_room ''$e2'' 5 False) = (ack_store, [])"
  using foreign_ack_ignored [of 6 ack_store demo_room 5 True False] ack_store_room by simp

theorem failed_mark_read_rolls_back_witness:
  "effectiveUnreadCount (roomState (fst (unread_apply ack_store
     (AckMarkRead demo_room True 7 False))) demo_room) = 3"
  using failed_mark_read_rolls_back [OF ack_store_inv, of demo_room 7] ack_store_room
  by simp


text \<open>\<open>optimisticMarkRead\<close> sets the frontier to the last activity the room list reported,
  without the \<open>qMax\<close> that \<open>optimisticReadProgress\<close> uses, so marking a room read can move the
  frontier back: when a message newer than the room list's entry was read by scrolling and the
  room is then marked read, the room-list entry that catches up with that message (and still
  counts it) raises the badge again; without the mark-read it stays at zero.\<close>

theorem mark_read_lowers_frontier:
  assumes "unread_inv s" and "room \<noteq> []" and "till \<noteq> []" and "rs_roomId rs = room"
    and "serverLastActivityTs (roomState s room) < ts" and "rs_timestamp rs = ts"
    and "0 < rs_unreadCount rs"
  shows "effectiveUnreadCount (roomState (foldl (\<lambda>t e. fst (unread_apply t e)) s
           [ReadProgress room till [] 0 ts, MarkRead room, RoomListSnapshot [rs]]) room)
             = rs_unreadCount rs
       \<and> effectiveUnreadCount (roomState (foldl (\<lambda>t e. fst (unread_apply t e)) s
           [ReadProgress room till [] 0 ts, RoomListSnapshot [rs]]) room) = 0"
proof -
  let ?s1 = "fst (unread_apply s (ReadProgress room till [] 0 ts))"
  let ?s2 = "fst (unread_apply ?s1 (MarkRead room))"
  have inv: "unread_inv ?s1" "unread_inv ?s2"
    using assms(1) unread_apply_views(1) by blast+
  have room1: "serverLastActivityTs (roomState ?s1 room) < ts" "ts \<le> readFrontierTs (roomState ?s1 room)"
      "pendingOptimisticUnreadCount (roomState ?s1 room) = 0"
    using assms by (simp_all add: optimisticReadProgress_def Let_def case_prod_beta store_and_emit_room)
  then have room2: "readFrontierTs (roomState ?s2 room) < ts"
    using assms(2) by (simp add: optimisticMarkRead_def Let_def case_prod_beta store_and_emit_room
        unread_clears del: unread_apply.simps(9))
  have "effectiveUnreadCount (roomState (foldl (\<lambda>t e. fst (unread_apply t e)) s
      [ReadProgress room till [] 0 ts, MarkRead room, RoomListSnapshot [rs]]) room)
        = rs_unreadCount rs"
    using room2 assms
    by (simp add: applyRoomListSnapshot_def Let_def case_prod_beta erase_unseen_room
      apply_room_summary_def store_and_emit_room merge_room_summary_def unread_clears
      effective_unread_spec_def del: unread_apply.simps(7,9))
  moreover have "effectiveUnreadCount (roomState (foldl (\<lambda>t e. fst (unread_apply t e)) s
      [ReadProgress room till [] 0 ts, RoomListSnapshot [rs]]) room) = 0"
    using room1 assms
    by (simp add: applyRoomListSnapshot_def Let_def case_prod_beta erase_unseen_room
      apply_room_summary_def store_and_emit_room merge_room_summary_def unread_clears
      effective_unread_spec_def del: unread_apply.simps(7,9))
  ultimately show ?thesis ..
qed

theorem mark_read_lowers_frontier_witness:
  "effectiveUnreadCount (roomState (foldl (\<lambda>t e. fst (unread_apply t e)) demo_store
     [ReadProgress demo_room ''$e9'' [] 0 20, MarkRead demo_room,
      RoomListSnapshot [default_room_summary\<lparr>rs_roomId := demo_room, rs_unreadCount := 1,
        rs_timestamp := 20\<rparr>]]) demo_room) = 1"
  using mark_read_lowers_frontier [OF demo_store_inv demo_room_ne, of "''$e9''"
      "default_room_summary\<lparr>rs_roomId := demo_room, rs_unreadCount := 1, rs_timestamp := 20\<rparr>" 20]
    demo_store_room(2)
  by (simp del: unread_apply.simps foldl_Cons)

end
