(* ===== verification/Timeline_Content.thy ===== *)
theory Timeline_Content imports Protocol_Types begin

section \<open>Accessors of timeline items\<close>

text \<open>
  \<^verbatim>\<open>src/src/protocol/timeline_item_content.cpp\<close>: the free functions that look into the
  variant a \<open>TimelineItem\<close> holds.  A function that returns a \<open>const T *\<close> returns an option.  A
  function that returns a mutable \<open>T *\<close> is used to write through the pointer; it is modelled by
  the write it allows: \<open>mutableX f item\<close> is the item after \<open>*p = f(*p)\<close>, and the item itself when
  the pointer is null.  The locale \<open>optional_part\<close> states what such a reader/writer pair
  promises.
\<close>

subsection \<open>Reading the variant\<close>

definition contentType :: "timeline_item \<Rightarrow> content_type" where
  "contentType item =
     (case ti_content item of
        ImageContent _ \<Rightarrow> ContentImage
      | FileContent _ \<Rightarrow> ContentFile
      | VideoContent _ \<Rightarrow> ContentVideo
      | AudioContent _ \<Rightarrow> ContentAudio
      | ServiceContent _ \<Rightarrow> ContentService
      | PollContent _ \<Rightarrow> ContentPoll
      | UnableToDecryptContent _ \<Rightarrow> ContentUnableToDecrypt
      | TextContent _ \<Rightarrow> ContentText)"

definition textContent :: "timeline_item \<Rightarrow> timeline_text_content option" where
  "textContent item = (case ti_content item of TextContent t \<Rightarrow> Some t | _ \<Rightarrow> None)"

definition imageContent :: "timeline_item \<Rightarrow> timeline_media_content option" where
  "imageContent item = (case ti_content item of ImageContent md \<Rightarrow> Some md | _ \<Rightarrow> None)"

definition videoContent :: "timeline_item \<Rightarrow> timeline_media_content option" where
  "videoContent item = (case ti_content item of VideoContent md \<Rightarrow> Some md | _ \<Rightarrow> None)"

definition fileContent :: "timeline_item \<Rightarrow> timeline_media_content option" where
  "fileContent item = (case ti_content item of FileContent md \<Rightarrow> Some md | _ \<Rightarrow> None)"

definition audioContent :: "timeline_item \<Rightarrow> timeline_audio_content option" where
  "audioContent item = (case ti_content item of AudioContent a \<Rightarrow> Some a | _ \<Rightarrow> None)"

definition pollContent :: "timeline_item \<Rightarrow> timeline_poll_content option" where
  "pollContent item = (case ti_content item of PollContent p \<Rightarrow> Some p | _ \<Rightarrow> None)"

definition serviceContent :: "timeline_item \<Rightarrow> timeline_service_content option" where
  "serviceContent item = (case ti_content item of ServiceContent s \<Rightarrow> Some s | _ \<Rightarrow> None)"

definition unableToDecryptContent :: "timeline_item \<Rightarrow> timeline_utd_content option" where
  "unableToDecryptContent item =
     (case ti_content item of UnableToDecryptContent u \<Rightarrow> Some u | _ \<Rightarrow> None)"

definition typedMediaContent :: "timeline_item \<Rightarrow> timeline_media_content option" where
  "typedMediaContent item =
     (case imageContent item of Some md \<Rightarrow> Some md | None \<Rightarrow>
     (case fileContent item of Some md \<Rightarrow> Some md | None \<Rightarrow>
     (case videoContent item of Some md \<Rightarrow> Some md | None \<Rightarrow>
     (case audioContent item of Some a \<Rightarrow> Some (aud_media a) | None \<Rightarrow> None))))"

definition mediaContent :: "timeline_item \<Rightarrow> timeline_media_content option" where
  "mediaContent item = typedMediaContent item"

subsection \<open>Writing through it\<close>

definition mutableTextContent ::
  "(timeline_text_content \<Rightarrow> timeline_text_content) \<Rightarrow> timeline_item \<Rightarrow> timeline_item" where
  "mutableTextContent f item =
     (case ti_content item of TextContent t \<Rightarrow> item\<lparr>ti_content := TextContent (f t)\<rparr> | _ \<Rightarrow> item)"

definition mutableImageContent ::
  "(timeline_media_content \<Rightarrow> timeline_media_content) \<Rightarrow> timeline_item \<Rightarrow> timeline_item" where
  "mutableImageContent f item =
     (case ti_content item of ImageContent md \<Rightarrow> item\<lparr>ti_content := ImageContent (f md)\<rparr> | _ \<Rightarrow> item)"

definition mutableVideoContent ::
  "(timeline_media_content \<Rightarrow> timeline_media_content) \<Rightarrow> timeline_item \<Rightarrow> timeline_item" where
  "mutableVideoContent f item =
     (case ti_content item of VideoContent md \<Rightarrow> item\<lparr>ti_content := VideoContent (f md)\<rparr> | _ \<Rightarrow> item)"

definition mutableFileContent ::
  "(timeline_media_content \<Rightarrow> timeline_media_content) \<Rightarrow> timeline_item \<Rightarrow> timeline_item" where
  "mutableFileContent f item =
     (case ti_content item of FileContent md \<Rightarrow> item\<lparr>ti_content := FileContent (f md)\<rparr> | _ \<Rightarrow> item)"

definition mutableAudioContent ::
  "(timeline_audio_content \<Rightarrow> timeline_audio_content) \<Rightarrow> timeline_item \<Rightarrow> timeline_item" where
  "mutableAudioContent f item =
     (case ti_content item of AudioContent a \<Rightarrow> item\<lparr>ti_content := AudioContent (f a)\<rparr> | _ \<Rightarrow> item)"

definition mutablePollContent ::
  "(timeline_poll_content \<Rightarrow> timeline_poll_content) \<Rightarrow> timeline_item \<Rightarrow> timeline_item" where
  "mutablePollContent f item =
     (case ti_content item of PollContent p \<Rightarrow> item\<lparr>ti_content := PollContent (f p)\<rparr> | _ \<Rightarrow> item)"

text \<open>The first alternative that is present takes the write.\<close>

definition mutableTypedMediaContent ::
  "(timeline_media_content \<Rightarrow> timeline_media_content) \<Rightarrow> timeline_item \<Rightarrow> timeline_item" where
  "mutableTypedMediaContent f item =
     (if imageContent item \<noteq> None then mutableImageContent f item
      else if fileContent item \<noteq> None then mutableFileContent f item
      else if videoContent item \<noteq> None then mutableVideoContent f item
      else if audioContent item \<noteq> None
      then mutableAudioContent (\<lambda>a. a\<lparr>aud_media := f (aud_media a)\<rparr>) item
      else item)"

definition mutableMediaContent ::
  "(timeline_media_content \<Rightarrow> timeline_media_content) \<Rightarrow> timeline_item \<Rightarrow> timeline_item" where
  "mutableMediaContent f item = mutableTypedMediaContent f item"

subsection \<open>Optional parts\<close>

definition replyInfo :: "timeline_item \<Rightarrow> timeline_reply_info option" where
  "replyInfo item = (case ti_reply item of Some r \<Rightarrow> Some r | None \<Rightarrow> None)"

definition mutableReplyInfo ::
  "(timeline_reply_info \<Rightarrow> timeline_reply_info) \<Rightarrow> timeline_item \<Rightarrow> timeline_item" where
  "mutableReplyInfo f item =
     (case ti_reply item of Some r \<Rightarrow> item\<lparr>ti_reply := Some (f r)\<rparr> | None \<Rightarrow> item)"

definition forwardInfo :: "timeline_item \<Rightarrow> timeline_forward_info option" where
  "forwardInfo item = (case ti_forwardedFrom item of Some r \<Rightarrow> Some r | None \<Rightarrow> None)"

definition mutableForwardInfo ::
  "(timeline_forward_info \<Rightarrow> timeline_forward_info) \<Rightarrow> timeline_item \<Rightarrow> timeline_item" where
  "mutableForwardInfo f item =
     (case ti_forwardedFrom item of
        Some r \<Rightarrow> item\<lparr>ti_forwardedFrom := Some (f r)\<rparr> | None \<Rightarrow> item)"

definition urlPreviewInfo :: "timeline_item \<Rightarrow> timeline_url_preview_info option" where
  "urlPreviewInfo item = (case ti_urlPreview item of Some r \<Rightarrow> Some r | None \<Rightarrow> None)"

definition mutableUrlPreviewInfo ::
  "(timeline_url_preview_info \<Rightarrow> timeline_url_preview_info) \<Rightarrow> timeline_item \<Rightarrow> timeline_item" where
  "mutableUrlPreviewInfo f item =
     (case ti_urlPreview item of
        Some r \<Rightarrow> item\<lparr>ti_urlPreview := Some (f r)\<rparr> | None \<Rightarrow> item)"

definition replyEventId :: "timeline_item \<Rightarrow> qstring" where
  "replyEventId item = (case replyInfo item of Some reply \<Rightarrow> rep_eventId reply | None \<Rightarrow> [])"

definition hasReply :: "timeline_item \<Rightarrow> bool" where
  "hasReply item \<longleftrightarrow> replyEventId item \<noteq> []"

definition forwardedSenderName :: "timeline_item \<Rightarrow> qstring" where
  "forwardedSenderName item =
     (case forwardInfo item of Some forwarded \<Rightarrow> fwd_senderName forwarded | None \<Rightarrow> [])"

subsection \<open>Texts and media attributes\<close>

definition bodyText :: "timeline_item \<Rightarrow> qstring" where
  "bodyText item =
     (case textContent item of Some t \<Rightarrow> txt_body t | None \<Rightarrow>
     (case serviceContent item of Some s \<Rightarrow> svc_body s | None \<Rightarrow>
     (case unableToDecryptContent item of Some u \<Rightarrow> utd_body u | None \<Rightarrow>
     (case pollContent item of Some p \<Rightarrow> poll_question p | None \<Rightarrow>
     (case typedMediaContent item of Some md \<Rightarrow> med_body md | None \<Rightarrow> [])))))"

definition formattedText :: "timeline_item \<Rightarrow> qstring" where
  "formattedText item = (case textContent item of Some t \<Rightarrow> txt_formattedBody t | None \<Rightarrow> [])"

text \<open>The accessors of one attribute of the media, with the value they give without one.\<close>

definition captionText :: "timeline_item \<Rightarrow> qstring" where
  "captionText item = (case typedMediaContent item of Some md \<Rightarrow> med_caption md | None \<Rightarrow> [])"

definition mediaUrl :: "timeline_item \<Rightarrow> qstring" where
  "mediaUrl item = (case typedMediaContent item of Some md \<Rightarrow> med_url md | None \<Rightarrow> [])"

definition mediaThumbUrl :: "timeline_item \<Rightarrow> qstring" where
  "mediaThumbUrl item = (case typedMediaContent item of Some md \<Rightarrow> med_thumbUrl md | None \<Rightarrow> [])"

definition mediaFilename :: "timeline_item \<Rightarrow> qstring" where
  "mediaFilename item = (case typedMediaContent item of Some md \<Rightarrow> med_filename md | None \<Rightarrow> [])"

definition mediaMime :: "timeline_item \<Rightarrow> qstring" where
  "mediaMime item = (case typedMediaContent item of Some md \<Rightarrow> med_mime md | None \<Rightarrow> [])"

definition mediaBlurhash :: "timeline_item \<Rightarrow> qstring" where
  "mediaBlurhash item = (case typedMediaContent item of Some md \<Rightarrow> med_blurhash md | None \<Rightarrow> [])"

definition mediaSize :: "timeline_item \<Rightarrow> quint64" where
  "mediaSize item = (case typedMediaContent item of Some md \<Rightarrow> med_size md | None \<Rightarrow> 0)"

definition mediaWidth :: "timeline_item \<Rightarrow> int" where
  "mediaWidth item = (case typedMediaContent item of Some md \<Rightarrow> med_width md | None \<Rightarrow> 0)"

definition mediaHeight :: "timeline_item \<Rightarrow> int" where
  "mediaHeight item = (case typedMediaContent item of Some md \<Rightarrow> med_height md | None \<Rightarrow> 0)"

definition mediaDurationMs :: "timeline_item \<Rightarrow> quint64" where
  "mediaDurationMs item =
     (case typedMediaContent item of Some md \<Rightarrow> med_durationMs md | None \<Rightarrow> 0)"

definition setFormattedText :: "qstring \<Rightarrow> timeline_item \<Rightarrow> timeline_item" where
  "setFormattedText formattedBody item =
     mutableTextContent (\<lambda>t. t\<lparr>txt_formattedBody := formattedBody\<rparr>) item"

definition setMediaDurationMs :: "quint64 \<Rightarrow> timeline_item \<Rightarrow> timeline_item" where
  "setMediaDurationMs durationMs item =
     mutableTypedMediaContent (\<lambda>md. md\<lparr>med_durationMs := durationMs\<rparr>) item"

subsection \<open>Predicates\<close>

definition isTextMessage :: "timeline_item \<Rightarrow> bool" where
  "isTextMessage item \<longleftrightarrow> contentType item = ContentText"

definition isMediaMessage :: "timeline_item \<Rightarrow> bool" where
  "isMediaMessage item \<longleftrightarrow>
     (case contentType item of
        ContentImage \<Rightarrow> True | ContentFile \<Rightarrow> True | ContentVideo \<Rightarrow> True | ContentAudio \<Rightarrow> True
      | ContentText \<Rightarrow> False | ContentService \<Rightarrow> False | ContentPoll \<Rightarrow> False
      | ContentUnableToDecrypt \<Rightarrow> False)"

definition isImageMessage :: "timeline_item \<Rightarrow> bool" where
  "isImageMessage item \<longleftrightarrow> contentType item = ContentImage"

definition isVideoMessage :: "timeline_item \<Rightarrow> bool" where
  "isVideoMessage item \<longleftrightarrow> contentType item = ContentVideo"

definition isFileMessage :: "timeline_item \<Rightarrow> bool" where
  "isFileMessage item \<longleftrightarrow> contentType item = ContentFile"

definition isAudioMessage :: "timeline_item \<Rightarrow> bool" where
  "isAudioMessage item \<longleftrightarrow> contentType item = ContentAudio"

definition isVoiceMessage :: "timeline_item \<Rightarrow> bool" where
  "isVoiceMessage item = (case audioContent item of Some a \<Rightarrow> aud_isVoice a | None \<Rightarrow> False)"

definition isServiceMessage :: "timeline_item \<Rightarrow> bool" where
  "isServiceMessage item \<longleftrightarrow> contentType item = ContentService"

definition isUnableToDecryptMessage :: "timeline_item \<Rightarrow> bool" where
  "isUnableToDecryptMessage item \<longleftrightarrow> contentType item = ContentUnableToDecrypt"

definition isUtdGlowing :: "timeline_item \<Rightarrow> bool" where
  "isUtdGlowing item =
     (case unableToDecryptContent item of Some u \<Rightarrow> utd_state u = 0 | None \<Rightarrow> False)"

lemmas content_readers =
  textContent_def imageContent_def videoContent_def fileContent_def audioContent_def
  pollContent_def serviceContent_def unableToDecryptContent_def typedMediaContent_def
  replyInfo_def forwardInfo_def urlPreviewInfo_def

lemmas content_writers =
  mutableTextContent_def mutableImageContent_def mutableVideoContent_def
  mutableFileContent_def mutableAudioContent_def mutablePollContent_def
  mutableTypedMediaContent_def mutableReplyInfo_def mutableForwardInfo_def
  mutableUrlPreviewInfo_def

lemmas content_kinds =
  isTextMessage_def isMediaMessage_def isImageMessage_def isVideoMessage_def isFileMessage_def
  isAudioMessage_def isVoiceMessage_def isServiceMessage_def isUnableToDecryptMessage_def
  isUtdGlowing_def contentType_def

subsection \<open>Interface: an optional part of a larger value\<close>

text \<open>What a \<open>const T *\<close> reader and the writes through its mutable twin promise each other: a
  write is what the next read sees, a null pointer writes nothing, and two writes are one.\<close>

locale optional_part =
  fixes get :: "'s \<Rightarrow> 'a option" and modify :: "('a \<Rightarrow> 'a) \<Rightarrow> 's \<Rightarrow> 's"
  assumes get_modify: "get (modify f s) = map_option f (get s)"
    and modify_absent: "get s = None \<Longrightarrow> modify f s = s"
    and modify_modify: "modify f (modify g s) = modify (f \<circ> g) s"
begin

lemma set_get: "get s \<noteq> None \<Longrightarrow> get (modify (\<lambda>_. v) s) = Some v"
  by (auto simp: get_modify)

lemma presence_kept: "get (modify f s) = None \<longleftrightarrow> get s = None"
  by (simp add: get_modify)

lemma last_write_wins: "modify (\<lambda>_. v) (modify f s) = modify (\<lambda>_. v) s"
  by (simp add: modify_modify comp_def)

lemma field_read_back:
  "(\<And>x. get_field (f x) = v) \<Longrightarrow>
   (case get (modify f s) of Some x \<Rightarrow> get_field x | None \<Rightarrow> d) = (if get s = None then d else v)"
  by (simp add: get_modify split: option.split)

end

interpretation text_part: optional_part textContent mutableTextContent
  by unfold_locales (auto simp: content_readers content_writers split: timeline_content.splits)

interpretation image_part: optional_part imageContent mutableImageContent
  by unfold_locales (auto simp: content_readers content_writers split: timeline_content.splits)

interpretation video_part: optional_part videoContent mutableVideoContent
  by unfold_locales (auto simp: content_readers content_writers split: timeline_content.splits)

interpretation file_part: optional_part fileContent mutableFileContent
  by unfold_locales (auto simp: content_readers content_writers split: timeline_content.splits)

interpretation audio_part: optional_part audioContent mutableAudioContent
  by unfold_locales (auto simp: content_readers content_writers split: timeline_content.splits)

interpretation poll_part: optional_part pollContent mutablePollContent
  by unfold_locales (auto simp: content_readers content_writers split: timeline_content.splits)

lemma typed_media_write:
  "typedMediaContent (mutableTypedMediaContent f item) = map_option f (typedMediaContent item)"
  "typedMediaContent item = None \<Longrightarrow> mutableTypedMediaContent f item = item"
  "mutableTypedMediaContent f (mutableTypedMediaContent g item) =
     mutableTypedMediaContent (f \<circ> g) item"
  by (cases "ti_content item"; simp add: content_readers content_writers)+

interpretation media_part: optional_part typedMediaContent mutableTypedMediaContent
  by unfold_locales (simp_all add: typed_media_write)

interpretation reply_part: optional_part replyInfo mutableReplyInfo
  by unfold_locales (auto simp: content_readers content_writers split: option.splits)

interpretation forward_part: optional_part forwardInfo mutableForwardInfo
  by unfold_locales (auto simp: content_readers content_writers split: option.splits)

interpretation preview_part: optional_part urlPreviewInfo mutableUrlPreviewInfo
  by unfold_locales (auto simp: content_readers content_writers split: option.splits)

subsection \<open>Consistency of the accessors\<close>

lemma media_iff_typed: "isMediaMessage item \<longleftrightarrow> typedMediaContent item \<noteq> None"
  by (simp add: content_kinds content_readers split: timeline_content.splits)

lemma contentType_write [simp]:
  "contentType (mutableTextContent f item) = contentType item"
  "contentType (mutableTypedMediaContent g item) = contentType item"
  by (simp_all add: contentType_def content_writers content_readers split: timeline_content.splits)


text \<open>The two setters write exactly what the getters read: after
  \<open>setMediaDurationMs\<close> a media item reports the duration and its other media attributes are
  those of before, an item without media is unchanged; \<open>setFormattedText\<close> the same for text;
  neither changes the type of the item or anything outside its content.\<close>

theorem setters_read_back:
  "mediaDurationMs (setMediaDurationMs d item) = (if isMediaMessage item then d else 0)
 \<and> formattedText (setFormattedText t item) = (if isTextMessage item then t else [])
 \<and> bodyText (setFormattedText t item) = bodyText item
 \<and> bodyText (setMediaDurationMs d item) = bodyText item
 \<and> mediaUrl (setMediaDurationMs d item) = mediaUrl item
 \<and> mediaSize (setMediaDurationMs d item) = mediaSize item
 \<and> contentType (setMediaDurationMs d item) = contentType item
 \<and> contentType (setFormattedText t item) = contentType item
 \<and> (setMediaDurationMs d item)\<lparr>ti_content := ti_content item\<rparr> = item
 \<and> (setFormattedText t item)\<lparr>ti_content := ti_content item\<rparr> = item"
proof -
  have "mediaDurationMs (setMediaDurationMs d item) = (if isMediaMessage item then d else 0)"
    unfolding mediaDurationMs_def setMediaDurationMs_def media_iff_typed
    using media_part.field_read_back [of med_durationMs "\<lambda>md. md\<lparr>med_durationMs := d\<rparr>" d 0 item]
    by simp
  moreover have "formattedText (setFormattedText t item) = (if isTextMessage item then t else [])"
    unfolding formattedText_def setFormattedText_def
    using text_part.field_read_back [of txt_formattedBody "\<lambda>x. x\<lparr>txt_formattedBody := t\<rparr>" t "[]" item]
    by (simp add: content_kinds textContent_def split: timeline_content.splits)
  ultimately show ?thesis
    by (simp add: setMediaDurationMs_def setFormattedText_def)
       (simp add: bodyText_def mediaUrl_def mediaSize_def content_readers content_writers
          split: timeline_content.split)
qed

end
