(* ===== verification/Pinned_State.thy ===== *)
theory Pinned_State imports Timeline_Content "HOL-Library.Multiset" begin

section \<open>Pinned messages of the open room\<close>

text \<open>
  \<^verbatim>\<open>src/src/history/history_pinned_state.h\<close> and \<^verbatim>\<open>.cpp\<close>: the list behind the pinned bar, the
  index the bar shows and the jump it is performing.  \<open>std::stable_sort\<close> by time stamp is
  \<open>sort_key\<close>; \<open>std::sort\<close>, whose order of equal time stamps the standard leaves open, is the
  parameter \<open>std_sort\<close>, and all that is assumed of it is \<open>sorts_by_time\<close>.  Shown: the list is
  ordered by time and free of duplicates whatever happens, the index stays inside it, a jump
  in flight has a target, completed jumps visit every pinned message in turn.
\<close>

subsection \<open>State and operations\<close>

record pinned_state =
  pin_messages :: "timeline_item list"
  pin_currentIndex :: int
  pin_jumpInFlight :: bool
  pin_jumpEventId :: qstring
  pin_jumpCompleted :: bool
  pin_fetchRoomId :: qstring

definition initial_pinned_state :: pinned_state where
  "initial_pinned_state = \<lparr> pin_messages = [], pin_currentIndex = 0, pin_jumpInFlight = False,
     pin_jumpEventId = [], pin_jumpCompleted = False, pin_fetchRoomId = [] \<rparr>"

definition pinned_size :: "pinned_state \<Rightarrow> int" where
  "pinned_size s = int (length (pin_messages s))"

definition pinned_clear :: "pinned_state \<Rightarrow> pinned_state" where
  "pinned_clear s = s\<lparr> pin_messages := [], pin_currentIndex := 0, pin_jumpInFlight := False,
     pin_jumpEventId := [], pin_jumpCompleted := False, pin_fetchRoomId := [] \<rparr>"

definition clampedIndexForCount :: "pinned_state \<Rightarrow> int \<Rightarrow> int" where
  "clampedIndexForCount s n =
     (if n \<le> 0 then 0 else qBound 0 (pin_currentIndex s) (n - 1))"

definition resetCurrentIndex :: "pinned_state \<Rightarrow> pinned_state" where
  "resetCurrentIndex s = s\<lparr>pin_currentIndex := 0\<rparr>"

definition clampCurrentIndex :: "pinned_state \<Rightarrow> pinned_state" where
  "clampCurrentIndex s = s\<lparr>pin_currentIndex := clampedIndexForCount s (pinned_size s)\<rparr>"

definition advanceCurrentIndex :: "pinned_state \<Rightarrow> pinned_state" where
  "advanceCurrentIndex s =
     (if 1 < pinned_size s
      then s\<lparr>pin_currentIndex := (pin_currentIndex s + 1) mod pinned_size s\<rparr> else s)"

text \<open>The \<open>QHash\<close> of items by id; a later item replaces an earlier one with its id.  The
  argument says whether the loop skips empty ids.\<close>

definition index_by_id :: "bool \<Rightarrow> timeline_item list \<Rightarrow> (qstring, timeline_item) qhash" where
  "index_by_id skipEmpty items =
     foldl (\<lambda>h item. if skipEmpty \<and> ti_eventId item = [] then h
                     else hash_insert (ti_eventId item) item h) [] items"

text \<open>The two loops of \<open>setFetchedMessages\<close>, over the pair of \<open>ordered\<close> and \<open>usedIds\<close>.\<close>

definition take_existing ::
  "(qstring, timeline_item) qhash \<Rightarrow> timeline_item list \<times> qstring list \<Rightarrow> timeline_item
     \<Rightarrow> timeline_item list \<times> qstring list" where
  "take_existing fetchedById acc existing =
     (case (acc, map_of fetchedById (ti_eventId existing)) of
        ((ordered, usedIds), None) \<Rightarrow> (ordered, usedIds)
      | ((ordered, usedIds), Some item) \<Rightarrow>
          (if ti_eventId existing \<in> set usedIds then (ordered, usedIds)
           else (ordered @ [item], ti_eventId existing # usedIds)))"

definition take_fetched ::
  "timeline_item list \<times> qstring list \<Rightarrow> timeline_item \<Rightarrow> timeline_item list \<times> qstring list" where
  "take_fetched acc item =
     (case acc of (ordered, usedIds) \<Rightarrow>
        (if ti_eventId item = [] \<or> ti_eventId item \<in> set usedIds then (ordered, usedIds)
         else (ordered @ [item], ti_eventId item # usedIds)))"

definition setFetchedMessages :: "pinned_state \<Rightarrow> timeline_item list \<Rightarrow> pinned_state" where
  "setFetchedMessages s fetched =
     (let fetchedById = index_by_id True fetched;
          kept = foldl (take_existing fetchedById) ([], []) (pin_messages s);
          (ordered, _) = foldl take_fetched kept fetched
      in clampCurrentIndex (s\<lparr>pin_messages := sort_key ti_timestamp ordered\<rparr>))"

definition unresolved_placeholder :: "qstring \<Rightarrow> timeline_item" where
  "unresolved_placeholder event = default_timeline_item\<lparr> ti_eventId := event, ti_isPinned := True,
     ti_content := TextContent \<lparr> txt_body = ''Loading...'', txt_formattedBody = [] \<rparr> \<rparr>"

text \<open>What the loop of \<open>updateFromSlice\<close> pushes for one pinned id: the slice's item, marked
  pinned; failing that the item the bar has; failing that a placeholder.\<close>

definition pinned_item ::
  "(qstring, timeline_item) qhash \<Rightarrow> (qstring, timeline_item) qhash \<Rightarrow> qstring \<Rightarrow> timeline_item"
where
  "pinned_item sliceById existingById event =
     (case map_of sliceById event of
        Some item \<Rightarrow> item\<lparr>ti_isPinned := True\<rparr>
      | None \<Rightarrow> (case map_of existingById event of
                   Some item \<Rightarrow> item
                 | None \<Rightarrow> unresolved_placeholder event))"

definition add_pinned ::
  "(qstring, timeline_item) qhash \<Rightarrow> (qstring, timeline_item) qhash
     \<Rightarrow> timeline_item list \<times> qstring list \<Rightarrow> qstring \<Rightarrow> timeline_item list \<times> qstring list" where
  "add_pinned sliceById existingById acc event =
     (case acc of (newPinned, foundIds) \<Rightarrow>
        (if event \<in> set foundIds then (newPinned, foundIds)
         else (newPinned @ [pinned_item sliceById existingById event], event # foundIds)))"

definition updateFromSlice ::
  "pinned_state \<Rightarrow> qstring list \<Rightarrow> timeline_item list \<Rightarrow> pinned_state" where
  "updateFromSlice s pinnedEventIds messages =
     (let existingById = index_by_id False (pin_messages s);
          previousIds = map ti_eventId (pin_messages s);
          sliceById = index_by_id True messages;
          (collected, _) = foldl (add_pinned sliceById existingById) ([], []) pinnedEventIds;
          newPinned = sort_key ti_timestamp collected;
          newIds = map ti_eventId newPinned;
          changed = (newIds \<noteq> previousIds);
          s1 = s\<lparr>pin_messages := newPinned\<rparr>
      in if changed then resetCurrentIndex s1 else clampCurrentIndex s1)"

text \<open>What \<open>std::sort\<close> by time stamp promises.\<close>

definition sorts_by_time :: "(timeline_item list \<Rightarrow> timeline_item list) \<Rightarrow> bool" where
  "sorts_by_time std_sort \<longleftrightarrow>
     (\<forall>xs. mset (std_sort xs) = mset xs \<and> sorted (map ti_timestamp (std_sort xs)))"

definition applyLocalPinState ::
  "(timeline_item list \<Rightarrow> timeline_item list) \<Rightarrow> pinned_state \<Rightarrow> qstring \<Rightarrow> bool
     \<Rightarrow> timeline_item list \<Rightarrow> pinned_state" where
  "applyLocalPinState std_sort s event pinned timelineMessages =
     clampCurrentIndex
       (if pinned
        then (if list_ex (\<lambda>message. ti_eventId message = event) (pin_messages s) then s
              else s\<lparr>pin_messages := std_sort
                       (case find (\<lambda>message. ti_eventId message = event) timelineMessages of
                          Some message \<Rightarrow> pin_messages s @ [message]
                        | None \<Rightarrow> pin_messages s)\<rparr>)
        else s\<lparr>pin_messages := filter (\<lambda>message. ti_eventId message \<noteq> event) (pin_messages s)\<rparr>)"

definition isResolved :: "timeline_item \<Rightarrow> bool" where
  "isResolved message \<longleftrightarrow>
     ti_timestamp message \<noteq> 0 \<or> formattedText message \<noteq> [] \<or> \<not> isTextMessage message"

definition isUnresolvedPlaceholder :: "timeline_item \<Rightarrow> bool" where
  "isUnresolvedPlaceholder message \<longleftrightarrow>
     bodyText message = ''Loading...'' \<and> formattedText message = [] \<and> isTextMessage message
     \<and> ti_timestamp message = 0"

definition resolvedMessages :: "pinned_state \<Rightarrow> timeline_item list" where
  "resolvedMessages s = filter isResolved (pin_messages s)"

definition hasUnresolvedMessages :: "pinned_state \<Rightarrow> bool" where
  "hasUnresolvedMessages s \<longleftrightarrow> list_ex (\<lambda>message. \<not> isResolved message) (pin_messages s)"

definition hasUnresolvedPlaceholders :: "pinned_state \<Rightarrow> bool" where
  "hasUnresolvedPlaceholders s \<longleftrightarrow> list_ex isUnresolvedPlaceholder (pin_messages s)"

definition startJump :: "pinned_state \<Rightarrow> qstring \<Rightarrow> pinned_state \<times> bool" where
  "startJump s event =
     (if pin_messages s = [] \<or> pin_jumpInFlight s \<or> event = [] then (s, False)
      else (s\<lparr>pin_jumpInFlight := True, pin_jumpEventId := event, pin_jumpCompleted := False\<rparr>, True))"

definition completeJump :: "pinned_state \<Rightarrow> pinned_state \<times> bool" where
  "completeJump s =
     (if \<not> pin_jumpInFlight s then (s, False)
      else (advanceCurrentIndex (s\<lparr>pin_jumpInFlight := False, pin_jumpCompleted := True,
              pin_jumpEventId := []\<rparr>), True))"

definition cancelJump :: "pinned_state \<Rightarrow> qstring \<Rightarrow> pinned_state \<times> bool" where
  "cancelJump s event =
     (if \<not> pin_jumpInFlight s then (s, False)
      else if event \<noteq> [] \<and> pin_jumpEventId s \<noteq> event then (s, False)
      else (s\<lparr>pin_jumpInFlight := False, pin_jumpCompleted := False, pin_jumpEventId := []\<rparr>, True))"

definition consumeManualScrollReset :: "pinned_state \<Rightarrow> pinned_state \<times> bool" where
  "consumeManualScrollReset s =
     (if \<not> pin_jumpCompleted s then (s, False)
      else (let s1 = s\<lparr>pin_jumpCompleted := False\<rparr>
            in if pin_currentIndex s1 = 0 \<or> pin_messages s1 = [] then (s1, False)
               else (s1\<lparr>pin_currentIndex := 0\<rparr>, True)))"

definition setFetchRoomId :: "pinned_state \<Rightarrow> qstring \<Rightarrow> pinned_state" where
  "setFetchRoomId s room = s\<lparr>pin_fetchRoomId := room\<rparr>"

definition clearFetchRoomId :: "pinned_state \<Rightarrow> pinned_state" where
  "clearFetchRoomId s = s\<lparr>pin_fetchRoomId := []\<rparr>"

definition acceptsFetchForRoom :: "pinned_state \<Rightarrow> qstring \<Rightarrow> bool" where
  "acceptsFetchForRoom s room \<longleftrightarrow> pin_fetchRoomId s = room"

datatype pinned_op =
  PinClear
| PinSetFetched "timeline_item list"
| PinUpdateFromSlice "qstring list" "timeline_item list"
| PinApplyLocal qstring bool "timeline_item list"
| PinResetIndex
| PinClampIndex
| PinAdvanceIndex
| PinStartJump qstring
| PinCompleteJump
| PinCancelJump qstring
| PinConsumeReset
| PinSetFetchRoom qstring
| PinClearFetchRoom

fun pinned_apply ::
  "(timeline_item list \<Rightarrow> timeline_item list) \<Rightarrow> pinned_state \<Rightarrow> pinned_op \<Rightarrow> pinned_state" where
  "pinned_apply std_sort s PinClear = pinned_clear s"
| "pinned_apply std_sort s (PinSetFetched fetched) = setFetchedMessages s fetched"
| "pinned_apply std_sort s (PinUpdateFromSlice ids messages) = updateFromSlice s ids messages"
| "pinned_apply std_sort s (PinApplyLocal event pinned messages) =
     applyLocalPinState std_sort s event pinned messages"
| "pinned_apply std_sort s PinResetIndex = resetCurrentIndex s"
| "pinned_apply std_sort s PinClampIndex = clampCurrentIndex s"
| "pinned_apply std_sort s PinAdvanceIndex = advanceCurrentIndex s"
| "pinned_apply std_sort s (PinStartJump event) = fst (startJump s event)"
| "pinned_apply std_sort s PinCompleteJump = fst (completeJump s)"
| "pinned_apply std_sort s (PinCancelJump event) = fst (cancelJump s event)"
| "pinned_apply std_sort s PinConsumeReset = fst (consumeManualScrollReset s)"
| "pinned_apply std_sort s (PinSetFetchRoom room) = setFetchRoomId s room"
| "pinned_apply std_sort s PinClearFetchRoom = clearFetchRoomId s"

subsection \<open>The list\<close>

lemma sort_key_sorts_by_time: "sorts_by_time (sort_key ti_timestamp)"
  by (simp add: sorts_by_time_def)

lemma index_by_id_snoc:
  "index_by_id b (items @ [x]) =
     (if b \<and> ti_eventId x = [] then index_by_id b items
      else hash_insert (ti_eventId x) x (index_by_id b items))"
  by (simp add: index_by_id_def)

text \<open>The index finds an item exactly for the ids that occur, and the item it finds is one of
  the list and has the id.\<close>

lemma index_by_id_Some:
  "map_of (index_by_id b items) event = Some item \<Longrightarrow>
     item \<in> set items \<and> ti_eventId item = event \<and> (b \<longrightarrow> event \<noteq> [])"
  by (induction items arbitrary: item rule: rev_induct)
     (auto simp: index_by_id_snoc index_by_id_def [of _ "[]"] split: if_splits)

lemma index_by_id_None:
  "map_of (index_by_id b items) event = None \<longleftrightarrow>
     (b \<and> event = []) \<or> event \<notin> ti_eventId ` set items"
  by (induction items rule: rev_induct)
     (auto simp: index_by_id_snoc index_by_id_def [of _ "[]"])

text \<open>What the loops keep: the used ids are the ids collected, each once.\<close>

definition collected_ok :: "timeline_item list \<times> qstring list \<Rightarrow> bool" where
  "collected_ok acc \<longleftrightarrow>
     set (snd acc) = ti_eventId ` set (fst acc) \<and> distinct (map ti_eventId (fst acc))"

lemma collected_ok_Nil [simp]: "collected_ok ([], [])"
  by (simp add: collected_ok_def)

lemma take_existing_ok:
  "collected_ok acc \<Longrightarrow> collected_ok (take_existing (index_by_id True fetched) acc x)"
proof (cases "map_of (index_by_id True fetched) (ti_eventId x)")
  case None
  then show "collected_ok acc \<Longrightarrow> ?thesis"
    by (simp add: take_existing_def split: prod.split)
next
  case (Some item)
  then have "ti_eventId item = ti_eventId x" using index_by_id_Some by blast
  with Some show "collected_ok acc \<Longrightarrow> ?thesis"
    by (auto simp: take_existing_def collected_ok_def split: prod.splits)
qed

lemma take_fetched_ok: "collected_ok acc \<Longrightarrow> collected_ok (take_fetched acc x)"
  by (auto simp: collected_ok_def take_fetched_def split: prod.splits)

lemma pinned_item_id:
  "ti_eventId (pinned_item (index_by_id True messages) (index_by_id False existing) event) = event"
  by (auto simp: pinned_item_def unresolved_placeholder_def split: option.splits
      dest!: index_by_id_Some)

lemma add_pinned_ok:
  "collected_ok acc \<Longrightarrow>
   collected_ok (add_pinned (index_by_id True messages) (index_by_id False existing) acc event)"
  by (auto simp: collected_ok_def add_pinned_def pinned_item_id split: prod.splits)

lemma add_pinned_ids:
  "collected_ok (xs, used) \<Longrightarrow>
   ti_eventId ` set (fst (foldl (add_pinned (index_by_id True messages)
      (index_by_id False existing)) (xs, used) ids)) = ti_eventId ` set xs \<union> set ids"
proof (induction ids arbitrary: xs used)
  case Nil
  then show ?case by simp
next
  case (Cons event ids)
  obtain ys used' where step: "add_pinned (index_by_id True messages) (index_by_id False existing)
      (xs, used) event = (ys, used')" by fastforce
  from add_pinned_ok [OF Cons.prems, of messages existing event]
  have "collected_ok (ys, used')" by (simp add: step)
  moreover from step Cons.prems have "ti_eventId ` set ys = insert event (ti_eventId ` set xs)"
    by (auto simp: add_pinned_def collected_ok_def pinned_item_id split: if_splits)
  ultimately show ?case using Cons.IH [of ys used'] by (simp add: step)
qed

subsection \<open>The invariant\<close>

definition pinned_inv :: "pinned_state \<Rightarrow> bool" where
  "pinned_inv s \<longleftrightarrow>
     distinct (map ti_eventId (pin_messages s))
   \<and> sorted (map ti_timestamp (pin_messages s))
   \<and> 0 \<le> pin_currentIndex s \<and> (pin_currentIndex s = 0 \<or> pin_currentIndex s < pinned_size s)
   \<and> pin_jumpInFlight s = (pin_jumpEventId s \<noteq> [])
   \<and> \<not> (pin_jumpInFlight s \<and> pin_jumpCompleted s)"

lemma clamp_inv:
  assumes "distinct (map ti_eventId (pin_messages s))" "sorted (map ti_timestamp (pin_messages s))"
    and "pin_jumpInFlight s = (pin_jumpEventId s \<noteq> [])"
    and "\<not> (pin_jumpInFlight s \<and> pin_jumpCompleted s)"
  shows "pinned_inv (clampCurrentIndex s)"
proof -
  have "0 \<le> clampedIndexForCount s (pinned_size s) \<and>
    (clampedIndexForCount s (pinned_size s) = 0
      \<or> clampedIndexForCount s (pinned_size s) < pinned_size s)"
  proof (cases "pinned_size s \<le> 0")
    case False
    then have "0 \<le> pinned_size s - 1" by simp
    from qBound_range [OF this, of "pin_currentIndex s"] False show ?thesis
      by (simp add: clampedIndexForCount_def)
  qed (simp add: clampedIndexForCount_def)
  with assms show ?thesis
    by (simp add: pinned_inv_def clampCurrentIndex_def pinned_size_def)
qed

lemma distinct_ids_sort:
  assumes "sorts_by_time srt"
  shows "distinct (map ti_eventId (srt xs)) = distinct (map ti_eventId xs)"
    and "sorted (map ti_timestamp (srt xs))" and "set (srt xs) = set xs"
proof -
  have "mset (map ti_eventId (srt xs)) = mset (map ti_eventId xs)"
    using assms by (simp add: sorts_by_time_def)
  then show "distinct (map ti_eventId (srt xs)) = distinct (map ti_eventId xs)"
    by (rule mset_eq_imp_distinct_iff)
  show "sorted (map ti_timestamp (srt xs))"
    using assms by (simp add: sorts_by_time_def)
  show "set (srt xs) = set xs"
    by (rule mset_eq_setD) (use assms in \<open>simp add: sorts_by_time_def\<close>)
qed

lemmas stable_sort_ids = distinct_ids_sort [OF sort_key_sorts_by_time]

lemma setFetchedMessages_inv: "pinned_inv s \<Longrightarrow> pinned_inv (setFetchedMessages s fetched)"
proof -
  assume inv: "pinned_inv s"
  let ?acc = "foldl take_fetched (foldl (take_existing (index_by_id True fetched)) ([], [])
      (pin_messages s)) fetched"
  have "collected_ok ?acc"
    by (intro foldl_keeps [where P = collected_ok] take_fetched_ok take_existing_ok) simp
  then have "distinct (map ti_eventId (fst ?acc))" by (simp add: collected_ok_def)
  then show ?thesis
    using inv unfolding setFetchedMessages_def Let_def case_prod_beta
    by (intro clamp_inv) (auto simp: stable_sort_ids pinned_inv_def)
qed

lemma updateFromSlice_inv: "pinned_inv s \<Longrightarrow> pinned_inv (updateFromSlice s ids messages)"
proof -
  assume inv: "pinned_inv s"
  let ?acc = "foldl (add_pinned (index_by_id True messages) (index_by_id False (pin_messages s)))
      ([], []) ids"
  have "collected_ok ?acc"
    by (intro foldl_keeps [where P = collected_ok] add_pinned_ok) simp
  then have "distinct (map ti_eventId (fst ?acc))" by (simp add: collected_ok_def)
  then have d: "distinct (map ti_eventId (sort_key ti_timestamp (fst ?acc)))"
    by (simp add: stable_sort_ids)
  show ?thesis
  proof (cases "map ti_eventId (sort_key ti_timestamp (fst ?acc)) \<noteq> map ti_eventId (pin_messages s)")
    case True
    with d inv show ?thesis
      by (auto simp: updateFromSlice_def Let_def case_prod_beta resetCurrentIndex_def pinned_inv_def)
  next
    case False
    then have "updateFromSlice s ids messages =
        clampCurrentIndex (s\<lparr>pin_messages := sort_key ti_timestamp (fst ?acc)\<rparr>)"
      by (simp add: updateFromSlice_def Let_def case_prod_beta)
    with d inv show ?thesis
      using clamp_inv [of "s\<lparr>pin_messages := sort_key ti_timestamp (fst ?acc)\<rparr>"]
      by (auto simp: pinned_inv_def [of s])
  qed
qed

lemma applyLocalPinState_inv:
  assumes srt: "sorts_by_time std_sort" and inv: "pinned_inv s"
  shows "pinned_inv (applyLocalPinState std_sort s event pinned timeline)"
  unfolding applyLocalPinState_def
proof (rule clamp_inv)
  let ?s = "if pinned
        then (if list_ex (\<lambda>message. ti_eventId message = event) (pin_messages s) then s
              else s\<lparr>pin_messages := std_sort
                       (case find (\<lambda>message. ti_eventId message = event) timeline of
                          Some message \<Rightarrow> pin_messages s @ [message]
                        | None \<Rightarrow> pin_messages s)\<rparr>)
        else s\<lparr>pin_messages := filter (\<lambda>message. ti_eventId message \<noteq> event) (pin_messages s)\<rparr>"
  show "distinct (map ti_eventId (pin_messages ?s))"
    using inv by (auto simp: distinct_ids_sort [OF srt] pinned_inv_def list_ex_iff
        distinct_map_filter find_Some_iff split: option.split)
  show "sorted (map ti_timestamp (pin_messages ?s))"
    using inv by (auto simp: distinct_ids_sort [OF srt] pinned_inv_def sorted_filter)
  show "pin_jumpInFlight ?s = (pin_jumpEventId ?s \<noteq> [])"
    and "\<not> (pin_jumpInFlight ?s \<and> pin_jumpCompleted ?s)"
    using inv by (auto simp: pinned_inv_def)
qed

lemma advance_inv: "pinned_inv s \<Longrightarrow> pinned_inv (advanceCurrentIndex s)"
proof -
  assume inv: "pinned_inv s"
  show ?thesis
  proof (cases "1 < pinned_size s")
    case True
    then have "0 \<le> (pin_currentIndex s + 1) mod pinned_size s"
      "(pin_currentIndex s + 1) mod pinned_size s < pinned_size s" by simp_all
    with inv True show ?thesis
      by (auto simp: pinned_inv_def advanceCurrentIndex_def pinned_size_def)
  qed (use inv in \<open>simp add: advanceCurrentIndex_def\<close>)
qed

lemma pinned_apply_inv:
  assumes "sorts_by_time std_sort" and inv: "pinned_inv s"
  shows "pinned_inv (pinned_apply std_sort s e)"
proof (cases e)
  case PinCompleteJump
  have "pinned_inv (s\<lparr>pin_jumpInFlight := False, pin_jumpCompleted := True, pin_jumpEventId := []\<rparr>)"
    using inv by (simp add: pinned_inv_def pinned_size_def)
  with PinCompleteJump inv show ?thesis by (simp add: completeJump_def advance_inv)
next
  case PinClampIndex
  have "pinned_inv (clampCurrentIndex s)"
    using inv by (intro clamp_inv) (auto simp: pinned_inv_def)
  with PinClampIndex show ?thesis by simp
qed (use assms in \<open>simp_all add: setFetchedMessages_inv updateFromSlice_inv applyLocalPinState_inv
       advance_inv\<close>, auto simp: pinned_inv_def pinned_clear_def pinned_size_def resetCurrentIndex_def
       startJump_def cancelJump_def consumeManualScrollReset_def setFetchRoomId_def
       clearFetchRoomId_def Let_def)

lemma pinned_inv_initial: "pinned_inv initial_pinned_state"
  by (simp add: pinned_inv_def initial_pinned_state_def)

interpretation pinned_machine: event_machine "pinned_apply (sort_key ti_timestamp)" pinned_inv
  by unfold_locales (rule pinned_apply_inv [OF sort_key_sorts_by_time])


subsection \<open>Properties\<close>

text \<open>C38: whatever calls the history makes, from a fresh state, and however \<open>std::sort\<close> orders
  equal time stamps: the pinned list is sorted by time without two entries of one event, the
  current index is a position of the list (or 0), a jump is in flight exactly when it has a
  target, and no jump is both in flight and completed.\<close>

theorem pinned_run_invariant:
  assumes "sorts_by_time std_sort"
  shows "pinned_inv (foldl (pinned_apply std_sort) initial_pinned_state es)"
  by (rule foldl_keeps [where P = pinned_inv, OF pinned_inv_initial])
     (rule pinned_apply_inv [OF assms])

theorem pinned_run_invariant_witness:
  "pinned_inv (foldl (pinned_apply (sort_key ti_timestamp)) initial_pinned_state
     [PinUpdateFromSlice [''$a'', ''$b''] [], PinStartJump ''$a'', PinCompleteJump])"
  by (rule pinned_run_invariant [OF sort_key_sorts_by_time])

text \<open>After \<open>updateFromSlice\<close> the list holds each pinned id exactly once and nothing
  else, and the entry of an id is the slice's item (marked pinned) when the slice has it, the
  item already shown when the bar has it, a placeholder otherwise.\<close>

theorem updateFromSlice_contents:
  "ti_eventId ` set (pin_messages (updateFromSlice s ids messages)) = set ids
 \<and> set (pin_messages (updateFromSlice s ids messages)) =
     pinned_item (index_by_id True messages) (index_by_id False (pin_messages s)) ` set ids"
proof -
  let ?item = "pinned_item (index_by_id True messages) (index_by_id False (pin_messages s))"
  let ?acc = "foldl (add_pinned (index_by_id True messages) (index_by_id False (pin_messages s)))
      ([], []) ids"
  have msgs: "set (pin_messages (updateFromSlice s ids messages)) = set (fst ?acc)"
    by (simp add: updateFromSlice_def Let_def case_prod_beta resetCurrentIndex_def
        clampCurrentIndex_def)
  have ids: "ti_eventId ` set (fst ?acc) = set ids"
    using add_pinned_ids [of "[]" "[]" messages "pin_messages s" ids] by simp
  have from_item: "\<forall>x \<in> set (fst ?acc). x = ?item (ti_eventId x)"
    by (rule foldl_keeps [where P = "\<lambda>acc. \<forall>x \<in> set (fst acc). x = ?item (ti_eventId x)"])
       (auto simp: add_pinned_def pinned_item_id split: prod.splits)
  have "set (fst ?acc) = ?item ` set ids"
    unfolding ids [symmetric] image_image using from_item by force
  with msgs ids show ?thesis by simp
qed

definition one_jump :: "qstring \<Rightarrow> pinned_state \<Rightarrow> pinned_state" where
  "one_jump event s = fst (completeJump (fst (startJump s event)))"

lemma one_jump_step:
  assumes "pinned_inv s" "pin_messages s \<noteq> []" "\<not> pin_jumpInFlight s" "event \<noteq> []"
  shows "pin_messages (one_jump event s) = pin_messages s"
    and "\<not> pin_jumpInFlight (one_jump event s)"
    and "pin_currentIndex (one_jump event s) = (pin_currentIndex s + 1) mod pinned_size s"
proof -
  have idx: "pin_currentIndex s = 0 \<or> pin_currentIndex s < pinned_size s"
    using assms(1) by (simp add: pinned_inv_def)
  have size: "1 \<le> pinned_size s"
    using assms(2) by (cases "pin_messages s") (simp_all add: pinned_size_def)
  show "pin_messages (one_jump event s) = pin_messages s"
    and "\<not> pin_jumpInFlight (one_jump event s)"
    using assms by (simp_all add: one_jump_def startJump_def completeJump_def
        advanceCurrentIndex_def)
  show "pin_currentIndex (one_jump event s) = (pin_currentIndex s + 1) mod pinned_size s"
  proof (cases "1 < pinned_size s")
    case True
    with assms show ?thesis
      by (simp add: one_jump_def startJump_def completeJump_def advanceCurrentIndex_def
          pinned_size_def)
  next
    case False
    with size have "pinned_size s = 1" by simp
    with idx assms show ?thesis
      by (auto simp: one_jump_def startJump_def completeJump_def advanceCurrentIndex_def
          pinned_size_def pinned_inv_def)
  qed
qed

text \<open>Jumps cycle through the pinned messages: after \<open>k\<close> started and completed jumps the
  bar shows message \<open>(i + k) mod n\<close>, so \<open>n\<close> jumps visit every message and come back.\<close>

theorem jumps_visit_every_message:
  assumes "pinned_inv s" "pin_messages s \<noteq> []" "\<not> pin_jumpInFlight s" "event \<noteq> []"
  shows "pin_currentIndex ((one_jump event ^^ k) s) = (pin_currentIndex s + int k) mod pinned_size s"
proof -
  have "pinned_inv ((one_jump event ^^ k) s) \<and> pin_messages ((one_jump event ^^ k) s) = pin_messages s
     \<and> \<not> pin_jumpInFlight ((one_jump event ^^ k) s)
     \<and> pin_currentIndex ((one_jump event ^^ k) s) = (pin_currentIndex s + int k) mod pinned_size s"
  proof (induction k)
    case 0
    have "0 < pinned_size s" using assms(2) by (simp add: pinned_size_def)
    with assms show ?case by (auto simp: pinned_inv_def)
  next
    case (Suc k)
    let ?t = "(one_jump event ^^ k) s"
    have size: "pinned_size ?t = pinned_size s" using Suc by (simp add: pinned_size_def)
    have ne: "pin_messages ?t \<noteq> []" using Suc assms(2) by simp
    note step = one_jump_step [of ?t event, OF _ ne _ assms(4)]
    have "pinned_inv (one_jump event ?t)"
      using pinned_apply_inv [OF sort_key_sorts_by_time, of ?t "PinStartJump event"]
        pinned_apply_inv [OF sort_key_sorts_by_time, of "fst (startJump ?t event)" PinCompleteJump]
        Suc by (simp add: one_jump_def)
    with Suc step size show ?case
      by (simp add: mod_simps algebra_simps)
  qed
  then show ?thesis by simp
qed

definition pinned_demo :: pinned_state where
  "pinned_demo = updateFromSlice initial_pinned_state [''$a'', ''$b''] []"

theorem jumps_visit_every_message_witness:
  "pin_currentIndex ((one_jump ''$a'' ^^ 3) pinned_demo) = 1"
proof -
  have demo: "length (pin_messages pinned_demo) = 2" "pin_jumpInFlight pinned_demo = False"
    "pin_currentIndex pinned_demo = 0"
    by code_simp+
  have "pinned_inv pinned_demo"
    unfolding pinned_demo_def by (rule updateFromSlice_inv) (rule pinned_inv_initial)
  then show ?thesis
    using jumps_visit_every_message [of pinned_demo "''$a''" 3] demo
    by (cases "pin_messages pinned_demo") (simp_all add: pinned_size_def)
qed

end
