(* ===== verification/Message_Index.thy ===== *)
theory Message_Index imports TM_Prelude begin

section \<open>The message index\<close>

text \<open>
  \<^verbatim>\<open>src/src/history/message_index.h\<close> and \<^verbatim>\<open>.cpp\<close>: event id to position in the timeline
  vector, kept under prepends by moving one base offset instead of every entry.  The abstract
  state is the list of event ids in visual order (empty for a row without an id); \<open>mirrors\<close>
  relates it to the index, and every operation \<open>HistoryList\<close> performs on both keeps it.
\<close>

record message_index =
  mi_logical :: "(qstring, int) qhash"
  mi_base :: int

definition initial_message_index :: message_index where
  "initial_message_index = \<lparr> mi_logical = [], mi_base = 0 \<rparr>"

definition mi_clear :: "message_index \<Rightarrow> message_index" where
  "mi_clear mi = mi\<lparr>mi_logical := [], mi_base := 0\<rparr>"

text \<open>The loop over the ids, from position \<open>i\<close> on; the shift is 0 for \<open>rebuild\<close> and the base
  for \<open>prependFront\<close>.\<close>

fun insert_ids :: "int \<Rightarrow> int \<Rightarrow> qstring list \<Rightarrow> (qstring, int) qhash \<Rightarrow> (qstring, int) qhash" where
  "insert_ids shift i [] h = h"
| "insert_ids shift i (e # es) h =
     insert_ids shift (i + 1) es (if e \<noteq> [] then hash_insert e (i + shift) h else h)"

definition mi_rebuild :: "message_index \<Rightarrow> qstring list \<Rightarrow> message_index" where
  "mi_rebuild mi eventIds = mi\<lparr>mi_logical := insert_ids 0 0 eventIds [], mi_base := 0\<rparr>"

definition mi_prependFront :: "message_index \<Rightarrow> qstring list \<Rightarrow> message_index" where
  "mi_prependFront mi frontIds =
     (let base = mi_base mi - int (length frontIds)
      in mi\<lparr>mi_base := base, mi_logical := insert_ids base 0 frontIds (mi_logical mi)\<rparr>)"

definition mi_setAt :: "message_index \<Rightarrow> qstring \<Rightarrow> int \<Rightarrow> message_index" where
  "mi_setAt mi event physicalIndex =
     (if event \<noteq> [] then mi\<lparr>mi_logical := hash_insert event (physicalIndex + mi_base mi) (mi_logical mi)\<rparr>
      else mi)"

definition mi_remove :: "message_index \<Rightarrow> qstring \<Rightarrow> message_index" where
  "mi_remove mi event = mi\<lparr>mi_logical := hash_remove event (mi_logical mi)\<rparr>"

definition mi_physicalIndexOf :: "message_index \<Rightarrow> qstring \<Rightarrow> int" where
  "mi_physicalIndexOf mi event =
     (case map_of (mi_logical mi) event of None \<Rightarrow> -1 | Some l \<Rightarrow> l - mi_base mi)"

definition mi_contains :: "message_index \<Rightarrow> qstring \<Rightarrow> bool" where
  "mi_contains mi event = hash_contains event (mi_logical mi)"

subsection \<open>The abstract timeline\<close>

text \<open>Position of an id in the list, \<open>-1\<close> when it is not there or empty.\<close>

fun position_from :: "int \<Rightarrow> qstring list \<Rightarrow> qstring \<Rightarrow> int option" where
  "position_from i [] event = None"
| "position_from i (e # es) event =
     (if e = event \<and> e \<noteq> [] then Some i else position_from (i + 1) es event)"

definition position_of :: "qstring list \<Rightarrow> qstring \<Rightarrow> int" where
  "position_of ids event = (case position_from 0 ids event of None \<Rightarrow> -1 | Some i \<Rightarrow> i)"

text \<open>Ids are unique; rows without an id may repeat.\<close>

definition ids_distinct :: "qstring list \<Rightarrow> bool" where
  "ids_distinct ids \<longleftrightarrow> distinct (filter (\<lambda>e. e \<noteq> []) ids)"

definition mirrors :: "qstring list \<Rightarrow> message_index \<Rightarrow> bool" where
  "mirrors ids mi \<longleftrightarrow>
     ids_distinct ids \<and> (\<forall>event. mi_physicalIndexOf mi event = position_of ids event)
   \<and> (\<forall>event. mi_contains mi event \<longleftrightarrow> event \<noteq> [] \<and> event \<in> set ids)"

text \<open>What \<open>HistoryList\<close> does to the message vector together with the index: rebuild, prepend
  a page, append a message, and give the row of a local echo its server id.\<close>

datatype index_op =
  IxRebuild "qstring list" | IxPrepend "qstring list" | IxAppend qstring | IxRename qstring qstring

fun timeline_step :: "qstring list \<Rightarrow> index_op \<Rightarrow> qstring list" where
  "timeline_step ids (IxRebuild new_ids) = new_ids"
| "timeline_step ids (IxPrepend front) = front @ ids"
| "timeline_step ids (IxAppend event) = ids @ [event]"
| "timeline_step ids (IxRename event new_id) =
     (if event = [] \<or> new_id = [] then ids
      else map (\<lambda>e. if e = event then new_id else e) ids)"

text \<open>\<open>HistoryList::updateMessageSendState\<close>, as far as the ids and the index go: the row is found
  through the index, and the local id is replaced when the server gave one.  The last component is
  the returned flag.\<close>

definition updateMessageSendState ::
  "qstring list \<times> message_index \<Rightarrow> qstring \<Rightarrow> qstring
     \<Rightarrow> (qstring list \<times> message_index) \<times> bool" where
  "updateMessageSendState c event new_id =
     (case c of (ids, mi) \<Rightarrow>
        if event = [] then (c, False)
        else let idx = mi_physicalIndexOf mi event
             in if idx < 0 \<or> int (length ids) \<le> idx then (c, False)
                else let mi1 = mi_remove mi event;
                         ids1 = (if new_id \<noteq> [] then ids[nat idx := new_id] else ids);
                         row = ids1 ! nat idx
                     in ((ids1, if row \<noteq> [] then mi_setAt mi1 row idx else mi1), True))"

text \<open>The code that goes with the operations of the timeline.\<close>

fun index_step :: "qstring list \<times> message_index \<Rightarrow> index_op \<Rightarrow> qstring list \<times> message_index" where
  "index_step (ids, mi) (IxRebuild new_ids) = (new_ids, mi_rebuild mi new_ids)"
| "index_step (ids, mi) (IxPrepend front) = (front @ ids, mi_prependFront mi front)"
| "index_step (ids, mi) (IxAppend event) =
     (ids @ [event], if event \<noteq> [] then mi_setAt mi event (int (length ids)) else mi)"
| "index_step c (IxRename event new_id) = fst (updateMessageSendState c event new_id)"

fun index_op_ok :: "qstring list \<Rightarrow> index_op \<Rightarrow> bool" where
  "index_op_ok ids (IxRebuild new_ids) \<longleftrightarrow> ids_distinct new_ids"
| "index_op_ok ids (IxPrepend front) \<longleftrightarrow> ids_distinct (front @ ids)"
| "index_op_ok ids (IxAppend event) \<longleftrightarrow> event \<notin> set ids \<or> event = []"
| "index_op_ok ids (IxRename event new_id) \<longleftrightarrow>
     new_id = [] \<or> new_id = event \<or> new_id \<notin> set ids"

subsection \<open>Refinement\<close>

lemma position_from_shift: "position_from (i + d) es e = map_option (\<lambda>x. x + d) (position_from i es e)"
proof (induction es arbitrary: i)
  case (Cons a es)
  have "i + d + 1 = (i + 1) + d" by simp
  with Cons show ?case by (simp only: position_from.simps) auto
qed simp

lemma position_from_None: "position_from i es e = None \<longleftrightarrow> e = [] \<or> e \<notin> set es"
  by (induction es arbitrary: i) auto

lemma position_from_append:
  "position_from i (xs @ ys) e =
     (case position_from i xs e of
        Some p \<Rightarrow> Some p | None \<Rightarrow> position_from (i + int (length xs)) ys e)"
proof (induction xs arbitrary: i)
  case (Cons a xs)
  have shift: "i + 1 + int (length xs) = i + int (length (a # xs))" by simp
  from Cons.IH [of "i + 1"] show ?case
    by (cases "a = e"; cases "a = []") (simp_all only: append_Cons position_from.simps shift, simp_all)
qed simp

text \<open>The loop leaves the last position of each id; with unique ids, its position.\<close>

lemma insert_ids_lookup:
  "ids_distinct ids \<Longrightarrow> map_of (insert_ids shift i ids h) e =
     (case position_from i ids e of Some p \<Rightarrow> Some (p + shift) | None \<Rightarrow> map_of h e)"
proof (induction ids arbitrary: i h)
  case Nil
  then show ?case by simp
next
  case (Cons x ids)
  then have d: "ids_distinct ids" "x \<noteq> [] \<Longrightarrow> x \<notin> set ids"
    by (auto simp: ids_distinct_def split: if_splits)
  show ?case
  proof (cases "x = e \<and> x \<noteq> []")
    case True
    then have x: "e = x" "x \<noteq> []" by blast+
    then have none: "position_from (i + 1) ids e = None"
      using d by (auto simp: position_from_None)
    have "map_of (insert_ids shift i (x # ids) h) e = map_of (hash_insert e (i + shift) h) e"
      using x Cons.IH [OF d(1), of "i + 1" "hash_insert e (i + shift) h"] none by simp
    with x show ?thesis by simp
  next
    case False
    with Cons.IH [OF d(1)] show ?thesis by (auto split: option.split)
  qed
qed

lemma mirrors_lookup:
  "mirrors ids mi \<longleftrightarrow> ids_distinct ids \<and>
     (\<forall>e. map_of (mi_logical mi) e = map_option (\<lambda>p. p + mi_base mi) (position_from 0 ids e))"
  (is "_ \<longleftrightarrow> _ \<and> (\<forall>e. ?L e)")
proof
  assume m: "mirrors ids mi"
  have "?L e" for e
  proof -
    from m have "mi_physicalIndexOf mi e = position_of ids e"
      and "(map_of (mi_logical mi) e \<noteq> None) = (e \<noteq> [] \<and> e \<in> set ids)"
      by (auto simp: mirrors_def mi_contains_def hash_contains_def)
    then show ?thesis
      using position_from_None [of 0 ids e]
      by (auto simp: mi_physicalIndexOf_def position_of_def split: option.splits)
  qed
  with m show "ids_distinct ids \<and> (\<forall>e. ?L e)" by (simp add: mirrors_def)
next
  assume a: "ids_distinct ids \<and> (\<forall>e. ?L e)"
  have "mi_contains mi e \<longleftrightarrow> e \<noteq> [] \<and> e \<in> set ids" for e
    using a position_from_None [of 0 ids e] by (auto simp: mi_contains_def hash_contains_def)
  with a show "mirrors ids mi"
    by (auto simp: mirrors_def mi_physicalIndexOf_def position_of_def split: option.split)
qed

lemma rebuild_mirrors: "ids_distinct ids \<Longrightarrow> mirrors ids (mi_rebuild mi ids)"
  by (auto simp: mirrors_lookup mi_rebuild_def insert_ids_lookup split: option.split)

lemma prepend_mirrors:
  assumes "mirrors ids mi" "ids_distinct (front @ ids)"
  shows "mirrors (front @ ids) (mi_prependFront mi front)"
proof -
  have front: "ids_distinct front" using assms(2) by (simp add: ids_distinct_def)
  have "position_from (int (length front)) ids e =
      map_option (\<lambda>x. x + int (length front)) (position_from 0 ids e)" for e
    using position_from_shift [of 0 "int (length front)" ids e] by simp
  with assms front show ?thesis
    by (auto simp: mirrors_lookup mi_prependFront_def Let_def insert_ids_lookup
        position_from_append option.map_comp comp_def split: option.split)
qed

lemma append_mirrors:
  assumes "mirrors ids mi" "event \<notin> set ids \<or> event = []"
  shows "mirrors (ids @ [event])
           (if event \<noteq> [] then mi_setAt mi event (int (length ids)) else mi)"
proof -
  have "ids_distinct (ids @ [event])"
    using assms by (auto simp: mirrors_def ids_distinct_def)
  with assms show ?thesis
    using position_from_None [of 0 ids event]
    by (auto simp: mirrors_lookup mi_setAt_def position_from_append split: option.split)
qed

lemma position_from_update:
  "i < length ids \<Longrightarrow> new_id \<noteq> [] \<Longrightarrow> ids ! i \<noteq> [] \<Longrightarrow> new_id \<notin> set (ids[i := []]) \<Longrightarrow>
   ids_distinct ids \<Longrightarrow>
   position_from k (ids[i := new_id]) e =
     (if e = new_id then Some (k + int i)
      else if e = ids ! i then None else position_from k ids e)"
proof (induction ids arbitrary: i k)
  case Nil
  then show ?case by simp
next
  case (Cons x ids)
  show ?case
  proof (cases i)
    case 0
    with Cons.prems have "x \<noteq> [] \<Longrightarrow> x \<notin> set ids" by (auto simp: ids_distinct_def)
    with 0 Cons.prems show ?thesis by (auto simp: position_from_None)
  next
    case (Suc j)
    with Cons.prems have d: "ids_distinct ids" "x \<noteq> [] \<Longrightarrow> x \<notin> set ids"
      by (auto simp: ids_distinct_def split: if_splits)
    have "ids ! j \<in> set ids" using Suc Cons.prems(1) by simp
    with d Suc Cons.prems have "x \<noteq> ids ! j \<or> x = []" by auto
    with Suc Cons.IH [of j "k + 1"] Cons.prems d show ?thesis by auto
  qed
qed

lemma set_update_distinct:
  "i < length ids \<Longrightarrow> ids ! i \<noteq> [] \<Longrightarrow> ids_distinct ids \<Longrightarrow>
   e \<in> set (ids[i := new_id]) \<Longrightarrow> e = new_id \<or> (e \<in> set ids \<and> e \<noteq> ids ! i)"
proof (induction ids arbitrary: i)
  case (Cons x ids)
  then show ?case
    by (cases i) (auto simp: ids_distinct_def split: if_splits)
qed simp

lemma ids_distinct_update:
  "i < length ids \<Longrightarrow> ids_distinct ids \<Longrightarrow> new_id \<notin> set (ids[i := []]) \<Longrightarrow>
   ids_distinct (ids[i := new_id])"
proof (induction ids arbitrary: i)
  case (Cons x ids)
  show ?case
  proof (cases i)
    case (Suc j)
    have sub: "set (ids[j := new_id]) \<subseteq> insert new_id (set ids)" by (rule set_update_subset_insert)
    from Suc Cons have "ids_distinct (ids[j := new_id])"
      by (auto simp: ids_distinct_def split: if_splits)
    with Suc Cons.prems sub show ?thesis
      by (auto simp: ids_distinct_def split: if_splits)
  qed (use Cons.prems in \<open>auto simp: ids_distinct_def split: if_splits\<close>)
qed simp

lemma rename_mirrors:
  assumes m: "mirrors ids mi" and i: "i < length ids" "ids ! i \<noteq> []"
    and new_id: "new_id \<noteq> []" "new_id = ids ! i \<or> new_id \<notin> set ids"
  shows "mirrors (ids[i := new_id]) (mi_setAt (mi_remove mi (ids ! i)) new_id (int i))"
proof -
  from m have d: "ids_distinct ids" by (simp add: mirrors_def)
  have fresh: "new_id \<notin> set (ids[i := []])"
    using set_update_distinct [OF i d, of new_id "[]"] new_id by auto
  from m have "\<And>e. map_of (mi_logical mi) e =
      map_option (\<lambda>p. p + mi_base mi) (position_from 0 ids e)"
    by (simp add: mirrors_lookup)
  with new_id(1) show ?thesis
    using position_from_update [OF i(1) new_id(1) i(2) fresh d, of 0]
      ids_distinct_update [OF i(1) d fresh]
    by (auto simp: mirrors_lookup mi_setAt_def mi_remove_def)
qed

lemma position_from_nth:
  "position_from k ids e = Some p \<Longrightarrow>
     k \<le> p \<and> nat (p - k) < length ids \<and> ids ! nat (p - k) = e \<and> e \<noteq> []"
proof (induction ids arbitrary: k)
  case (Cons x ids)
  show ?case
  proof (cases "x = e \<and> x \<noteq> []")
    case False
    with Cons.prems have "position_from (k + 1) ids e = Some p" by auto
    from Cons.IH [OF this] have h: "k + 1 \<le> p" "nat (p - (k + 1)) < length ids"
      "ids ! nat (p - (k + 1)) = e" "e \<noteq> []" by auto
    then have "nat (p - k) = Suc (nat (p - (k + 1)))" by simp
    with h show ?thesis by simp
  qed (use Cons.prems in auto)
qed simp

lemma map_rename_update:
  "i < length ids \<Longrightarrow> ids ! i = event \<Longrightarrow> event \<noteq> [] \<Longrightarrow> ids_distinct ids \<Longrightarrow>
   map (\<lambda>e. if e = event then new_id else e) ids = ids[i := new_id]"
proof (induction ids arbitrary: i)
  case (Cons x ids)
  show ?case
  proof (cases i)
    case 0
    with Cons.prems have "event \<notin> set ids" by (auto simp: ids_distinct_def)
    then have "map (\<lambda>e. if e = event then new_id else e) ids = ids"
      by (auto intro!: map_idI)
    with 0 Cons.prems show ?thesis by simp
  next
    case (Suc j)
    with Cons.prems have "event \<in> set ids" by auto
    with Cons.prems have "x \<noteq> event" by (auto simp: ids_distinct_def split: if_splits)
    with Suc Cons show ?thesis by (auto simp: ids_distinct_def split: if_splits)
  qed
qed simp

text \<open>The send state of a message is updated exactly when the vector holds its id, and the id is
  replaced in the one row that has it.\<close>

lemma send_state_mirrors:
  assumes m: "mirrors ids mi" and new_id: "new_id = [] \<or> new_id = event \<or> new_id \<notin> set ids"
  shows "fst (fst (updateMessageSendState (ids, mi) event new_id)) = timeline_step ids (IxRename event new_id)
       \<and> mirrors (timeline_step ids (IxRename event new_id))
           (snd (fst (updateMessageSendState (ids, mi) event new_id)))"
proof (cases "position_from 0 ids event")
  case None
  then have "event = [] \<or> event \<notin> set ids" by (simp add: position_from_None)
  then have "timeline_step ids (IxRename event new_id) = ids" by (auto intro!: map_idI)
  moreover from m None have "mi_physicalIndexOf mi event = -1" by (simp add: mirrors_def position_of_def)
  ultimately show ?thesis using m by (simp add: updateMessageSendState_def Let_def)
next
  case (Some p)
  define i where "i = nat p"
  from position_from_nth [OF Some]
  have i: "p = int i" "i < length ids" "ids ! i = event" "event \<noteq> []" by (auto simp: i_def)
  from m Some have idx: "mi_physicalIndexOf mi event = int i"
    by (simp add: mirrors_def position_of_def i)
  from m have d: "ids_distinct ids" by (simp add: mirrors_def)
  define row where "row = (if new_id = [] then event else new_id)"
  have row: "row \<noteq> []" "row = ids ! i \<or> row \<notin> set ids"
    using new_id i by (auto simp: row_def)
  have step: "timeline_step ids (IxRename event new_id) = ids[i := row]"
    using map_rename_update [OF i(2-4) d, of new_id] i by (auto simp: row_def)
  have "updateMessageSendState (ids, mi) event new_id =
      ((ids[i := row], mi_setAt (mi_remove mi (ids ! i)) row (int i)), True)"
    using i by (auto simp: updateMessageSendState_def Let_def idx row_def)
  with rename_mirrors [OF m i(2) _ row] i step show ?thesis by simp
qed

definition index_related :: "qstring list \<Rightarrow> qstring list \<times> message_index \<Rightarrow> bool" where
  "index_related ids c \<longleftrightarrow> fst c = ids \<and> mirrors ids (snd c)"

interpretation message_index:
  simulation timeline_step index_step index_related index_op_ok
proof
  fix a :: "qstring list" and c e
  assume "index_related a c" "index_op_ok a e"
  then show "index_related (timeline_step a e) (index_step c e)"
    using send_state_mirrors
    by (cases c; cases e)
       (simp_all add: index_related_def rebuild_mirrors prepend_mirrors append_mirrors
             del: timeline_step.simps(4))
qed

lemma mirrors_initial: "index_related [] ([], initial_message_index)"
  by (simp add: index_related_def mirrors_lookup initial_message_index_def ids_distinct_def)

text \<open>C26: the index answers what a search of the message vector would: after any sequence of
  rebuilds, prepended pages, appended messages and acknowledged local echoes that keeps event ids
  unique, \<open>physicalIndexOf\<close> is the position of the id in the vector (\<open>-1\<close> if absent).\<close>

theorem message_index_refines_search:
  assumes "run_ok timeline_step index_op_ok [] es"
  shows "mi_physicalIndexOf (snd (foldl index_step ([], initial_message_index) es)) event =
           position_of (foldl timeline_step [] es) event"
  using message_index.run_sim [OF mirrors_initial assms]
  by (simp add: index_related_def mirrors_def)

theorem message_index_refines_search_witness:
  "mi_physicalIndexOf (snd (foldl index_step ([], initial_message_index)
     [IxRebuild [''$c'', [], ''~t''], IxPrepend [''$a'', ''$b''], IxRename ''~t'' ''$d'', IxAppend ''$e'']))
     ''$d'' = 4"
  using message_index_refines_search [of "[IxRebuild [''$c'', [], ''~t''],
      IxPrepend [''$a'', ''$b''], IxRename ''~t'' ''$d'', IxAppend ''$e'']" "''$d''"]
  by (simp add: ids_distinct_def position_of_def)

end
