(* ===== verification/Unread_Bar.thy ===== *)
theory Unread_Bar imports Protocol_Types begin

section \<open>The unread delimiter, read detection and jumps\<close>

text \<open>
  The decisions \<open>HistoryWidget\<close> takes about what the reader sees and has seen:
  \<^verbatim>\<open>src/src/history/unread_bar_placement.h\<close>/\<^verbatim>\<open>.cpp\<close> (where the ``Unread messages'' delimiter may
  stand), \<^verbatim>\<open>unread_read_progress.h\<close> (how far the viewport proves reading),
  \<^verbatim>\<open>jump_routing.h\<close> and \<^verbatim>\<open>jump_load_controller.h\<close>/\<^verbatim>\<open>.cpp\<close> (jumps to a message),
  \<^verbatim>\<open>src/src/protocol/room_list_membership.h\<close> (is a room ours), and from
  \<^verbatim>\<open>src/src/history/history_widget.cpp\<close> the methods that place and clear the delimiter, as a
  machine over the room session.
\<close>

subsection \<open>Placement\<close>

record placement_row =
  row_eventId :: qstring
  row_isService :: bool

fun place_loop :: "qstring \<Rightarrow> bool \<Rightarrow> bool \<Rightarrow> placement_row list \<Rightarrow> bool" where
  "place_loop anchor boundaryConfirmed skippedRegularMessage [] = False"
| "place_loop anchor boundaryConfirmed skippedRegularMessage (row # rows) =
     (if row_eventId row = anchor then boundaryConfirmed \<or> skippedRegularMessage
      else place_loop anchor boundaryConfirmed
             (skippedRegularMessage \<or> (row_eventId row \<noteq> [] \<and> \<not> row_isService row)) rows)"

definition canPlaceUnreadBarAt :: "placement_row list \<Rightarrow> qstring \<Rightarrow> bool \<Rightarrow> bool" where
  "canPlaceUnreadBarAt rows anchor boundaryConfirmed =
     (if anchor = [] then False else place_loop anchor boundaryConfirmed False rows)"

definition resolveAnchor :: "qstring \<Rightarrow> qstring \<Rightarrow> qstring" where
  "resolveAnchor frozenAnchor frontier = (if frozenAnchor = [] then frontier else frozenAnchor)"

definition detectorAnchor :: "qstring \<Rightarrow> qstring \<Rightarrow> qstring" where
  "detectorAnchor frontier drawnBar = (if frontier = [] then drawnBar else frontier)"

datatype bar_action = BarNoOp | KeepDrawn | Place | ClearDrawnKeepAnchor

definition bar_decide :: "qstring \<Rightarrow> bool \<Rightarrow> int \<Rightarrow> bar_action" where
  "bar_decide drawnBarId drawnLoaded unreadCount =
     (let hasDrawn = (drawnBarId \<noteq> [] \<and> drawnLoaded)
      in if 0 < unreadCount then (if hasDrawn then KeepDrawn else Place)
         else if hasDrawn then KeepDrawn
         else if drawnBarId \<noteq> [] then ClearDrawnKeepAnchor
         else BarNoOp)"

definition shouldResolveOnLiveSlice :: "bool \<Rightarrow> bool \<Rightarrow> int \<Rightarrow> qstring \<Rightarrow> bool" where
  "shouldResolveOnLiveSlice unreadStateKnown initialScrollNeeded unreadCount drawnBarId \<longleftrightarrow>
     unreadStateKnown \<and> \<not> initialScrollNeeded \<and> (unreadCount \<le> 0 \<or> drawnBarId \<noteq> [])"

definition canMarkMessagesRead :: "bool \<Rightarrow> bool \<Rightarrow> bool \<Rightarrow> bool" where
  "canMarkMessagesRead windowActive roomOpen entryScrollSettled \<longleftrightarrow>
     windowActive \<and> roomOpen \<and> entryScrollSettled"

subsection \<open>The delimiter of a room session (\<^verbatim>\<open>history_widget.cpp\<close>)\<close>

text \<open>\<open>bs_drawnId\<close> and \<open>bs_drawnCount\<close> are what the list draws, \<open>bs_anchorId\<close> the frozen anchor
  (\<open>_sessionUnreadBarEventId\<close>).  Each step is given the rows the list has loaded.\<close>

record bar_session =
  bs_anchorId :: qstring
  bs_drawnId :: qstring
  bs_drawnCount :: int
  bs_dismissed :: bool
  bs_resolved :: bool

definition list_hasMessage :: "placement_row list \<Rightarrow> qstring \<Rightarrow> bool" where
  "list_hasMessage rows event \<longleftrightarrow> event \<noteq> [] \<and> list_ex (\<lambda>row. row_eventId row = event) rows"

definition setUnreadBarPreservingScroll :: "bar_session \<Rightarrow> qstring \<Rightarrow> int \<Rightarrow> bar_session" where
  "setUnreadBarPreservingScroll s event unreadCount =
     (if event = [] then s else s\<lparr>bs_drawnId := event, bs_drawnCount := unreadCount\<rparr>)"

definition clearUnreadBarPreservingScroll :: "bar_session \<Rightarrow> bar_session" where
  "clearUnreadBarPreservingScroll s =
     (if bs_drawnId s = [] then s else s\<lparr>bs_drawnId := [], bs_drawnCount := 0\<rparr>)"

definition widget_canPlaceUnreadBarAt :: "placement_row list \<Rightarrow> bool \<Rightarrow> qstring \<Rightarrow> bool" where
  "widget_canPlaceUnreadBarAt rows readMarkerLoaded event =
     (if event = [] \<or> \<not> list_hasMessage rows event then False
      else canPlaceUnreadBarAt rows event readMarkerLoaded)"

definition placeUnreadBar ::
  "bar_session \<Rightarrow> placement_row list \<Rightarrow> bool \<Rightarrow> qstring \<Rightarrow> int \<Rightarrow> bool \<Rightarrow> bar_session" where
  "placeUnreadBar s rows readMarkerLoaded frontier unreadCount force =
     (if unreadCount \<le> 0 \<or> bs_dismissed s then s
      else (let anchor = resolveAnchor (bs_anchorId s) frontier
            in if anchor = [] then s
               else (let placeable = (if force then list_hasMessage rows anchor
                                      else widget_canPlaceUnreadBarAt rows readMarkerLoaded anchor)
                     in if \<not> placeable then s
                        else setUnreadBarPreservingScroll (s\<lparr>bs_anchorId := anchor\<rparr>)
                               anchor unreadCount)))"

definition destroyUnreadBar :: "bar_session \<Rightarrow> bar_session" where
  "destroyUnreadBar s = clearUnreadBarPreservingScroll (s\<lparr>bs_anchorId := []\<rparr>)"

text \<open>The part of \<open>applyStoreUnreadState\<close> that moves the delimiter.\<close>

definition applyStoreUnreadState ::
  "bar_session \<Rightarrow> placement_row list \<Rightarrow> bool \<Rightarrow> qstring \<Rightarrow> int \<Rightarrow> bar_session" where
  "applyStoreUnreadState s rows readMarkerLoaded frontier unreadCount =
     (let s1 = (if unreadCount \<le> 0 then s\<lparr>bs_dismissed := False\<rparr> else s)
      in if bs_resolved s1 then s1
         else (let current = bs_drawnId s1;
                   drawnLoaded = (current \<noteq> [] \<and> list_hasMessage rows current)
               in case bar_decide current drawnLoaded unreadCount of
                    KeepDrawn \<Rightarrow> setUnreadBarPreservingScroll s1 current (max 0 unreadCount)
                  | Place \<Rightarrow> placeUnreadBar s1 rows readMarkerLoaded frontier unreadCount False
                  | ClearDrawnKeepAnchor \<Rightarrow> clearUnreadBarPreservingScroll s1
                  | BarNoOp \<Rightarrow> s1))"

datatype bar_event =
  StoreUnread "placement_row list" bool qstring int
| PlaceBar "placement_row list" bool qstring int bool
| UndrawBar
| ResolveBar
| EndSession

fun bar_step :: "bar_session \<Rightarrow> bar_event \<Rightarrow> bar_session" where
  "bar_step s (StoreUnread rows marker frontier n) = applyStoreUnreadState s rows marker frontier n"
| "bar_step s (PlaceBar rows marker frontier n force) = placeUnreadBar s rows marker frontier n force"
| "bar_step s UndrawBar = clearUnreadBarPreservingScroll s"
| "bar_step s ResolveBar = s\<lparr>bs_resolved := True\<rparr>"
| "bar_step s EndSession = destroyUnreadBar (s\<lparr>bs_resolved := False, bs_dismissed := False\<rparr>)"

subsection \<open>Read detection\<close>

fun read_till_loop :: "int list \<Rightarrow> int \<Rightarrow> int \<Rightarrow> int \<Rightarrow> int" where
  "read_till_loop [] viewportBottom i readTill = readTill"
| "read_till_loop (bottom # bottoms) viewportBottom i readTill =
     (if viewportBottom < bottom then readTill
      else read_till_loop bottoms viewportBottom (i + 1) i)"

definition readTillIndex :: "int list \<Rightarrow> int \<Rightarrow> int \<Rightarrow> bool \<Rightarrow> int" where
  "readTillIndex rowBottoms frontierIdx viewportBottom held =
     (if held \<or> frontierIdx < 0 \<or> int (length rowBottoms) \<le> frontierIdx then -1
      else read_till_loop (drop (nat frontierIdx) rowBottoms) viewportBottom frontierIdx (-1))"

subsection \<open>Jumps\<close>

datatype jump_route = InstantScroll | ReturnToLiveThenHighlight | LiveOpenThenHighlight | FocusFetch

definition routeNotificationJump :: "bool \<Rightarrow> bool \<Rightarrow> bool \<Rightarrow> jump_route" where
  "routeNotificationJump sameRoom isLive targetLoaded =
     (if \<not> sameRoom then LiveOpenThenHighlight
      else if \<not> isLive then ReturnToLiveThenHighlight
      else if targetLoaded then InstantScroll else FocusFetch)"

definition shouldEscalateToFocusFetch :: "bool \<Rightarrow> bool \<Rightarrow> bool \<Rightarrow> bool" where
  "shouldEscalateToFocusFetch preferLive sliceIsLive targetLoaded \<longleftrightarrow>
     preferLive \<and> sliceIsLive \<and> \<not> targetLoaded"

record jump_load =
  jl_active :: bool
  jl_floorElapsed :: bool
  jl_targetReady :: bool

datatype jump_action = JumpNone | Reveal | Fallback

definition jl_begin :: "jump_load \<Rightarrow> jump_load" where
  "jl_begin s = s\<lparr>jl_active := True, jl_floorElapsed := False, jl_targetReady := False\<rparr>"

definition jl_reset :: "jump_load \<Rightarrow> jump_load" where
  "jl_reset s = s\<lparr>jl_active := False, jl_floorElapsed := False, jl_targetReady := False\<rparr>"

definition maybeReveal :: "jump_load \<Rightarrow> jump_load \<times> jump_action" where
  "maybeReveal s =
     (if jl_floorElapsed s \<and> jl_targetReady s then (s\<lparr>jl_active := False\<rparr>, Reveal)
      else (s, JumpNone))"

definition onFloorElapsed :: "jump_load \<Rightarrow> jump_load \<times> jump_action" where
  "onFloorElapsed s =
     (if \<not> jl_active s then (s, JumpNone) else maybeReveal (s\<lparr>jl_floorElapsed := True\<rparr>))"

definition onTargetArrived :: "jump_load \<Rightarrow> jump_load \<times> jump_action" where
  "onTargetArrived s =
     (if \<not> jl_active s then (s, JumpNone) else maybeReveal (s\<lparr>jl_targetReady := True\<rparr>))"

definition onFetchFailed :: "jump_load \<Rightarrow> jump_load \<times> jump_action" where
  "onFetchFailed s =
     (if \<not> jl_active s \<or> jl_targetReady s then (s, JumpNone)
      else (s\<lparr>jl_active := False\<rparr>, Fallback))"

datatype jump_event = FloorElapsed | TargetArrived | FetchFailed

fun jl_step :: "jump_load \<Rightarrow> jump_event \<Rightarrow> jump_load \<times> jump_action" where
  "jl_step s FloorElapsed = onFloorElapsed s"
| "jl_step s TargetArrived = onTargetArrived s"
| "jl_step s FetchFailed = onFetchFailed s"

text \<open>The actions, other than keeping the cover up, of a sequence of events.\<close>

primrec jl_actions :: "jump_load \<Rightarrow> jump_event list \<Rightarrow> jump_action list" where
  "jl_actions s [] = []"
| "jl_actions s (e # es) =
     (let (s1, a) = jl_step s e in (if a = JumpNone then [] else [a]) @ jl_actions s1 es)"

subsection \<open>Room membership\<close>

datatype room_membership_state = MembershipUnknown | MembershipJoined | MembershipNotJoined

definition classifyRoom :: "room_summary list \<Rightarrow> qstring \<Rightarrow> room_membership_state" where
  "classifyRoom rooms room =
     (if room = [] \<or> rooms = [] then MembershipUnknown
      else case find (\<lambda>r. rs_roomId r = room) rooms of
             None \<Rightarrow> MembershipNotJoined
           | Some r \<Rightarrow> (if rs_membership r = MemberJoin then MembershipJoined
                       else MembershipNotJoined))"

definition shouldOpenAsPreview :: "room_summary list \<Rightarrow> qstring \<Rightarrow> bool" where
  "shouldOpenAsPreview rooms room \<longleftrightarrow> classifyRoom rooms room = MembershipNotJoined"

subsection \<open>Correctness\<close>

lemma place_loop_iff:
  "place_loop anchor confirmed skipped rows \<longleftrightarrow>
     (\<exists>pre row post. rows = pre @ row # post \<and> row_eventId row = anchor
        \<and> anchor \<notin> row_eventId ` set pre
        \<and> (confirmed \<or> skipped \<or> (\<exists>r \<in> set pre. row_eventId r \<noteq> [] \<and> \<not> row_isService r)))"
proof (induction rows arbitrary: skipped)
  case Nil
  then show ?case by simp
next
  case (Cons x rows)
  show ?case
  proof (cases "row_eventId x = anchor")
    case True
    then have "(\<exists>pre row post. x # rows = pre @ row # post \<and> row_eventId row = anchor
        \<and> anchor \<notin> row_eventId ` set pre
        \<and> (confirmed \<or> skipped \<or> (\<exists>r \<in> set pre. row_eventId r \<noteq> [] \<and> \<not> row_isService r)))
      \<longleftrightarrow> (\<exists>pre row post. pre = [] \<and> x # rows = pre @ row # post \<and> row_eventId row = anchor
        \<and> (confirmed \<or> skipped))"
      by (intro ex_cong1) (auto simp: Cons_eq_append_conv)
    with True show ?thesis by simp
  next
    case False
    let ?sk = "skipped \<or> (row_eventId x \<noteq> [] \<and> \<not> row_isService x)"
    have "(\<exists>pre row post. x # rows = pre @ row # post \<and> row_eventId row = anchor
        \<and> anchor \<notin> row_eventId ` set pre
        \<and> (confirmed \<or> skipped \<or> (\<exists>r \<in> set pre. row_eventId r \<noteq> [] \<and> \<not> row_isService r)))
      \<longleftrightarrow> (\<exists>pre row post. rows = pre @ row # post \<and> row_eventId row = anchor
        \<and> anchor \<notin> row_eventId ` set pre
        \<and> (confirmed \<or> ?sk \<or> (\<exists>r \<in> set pre. row_eventId r \<noteq> [] \<and> \<not> row_isService r)))"
      (is "?L \<longleftrightarrow> ?R")
    proof
      assume ?L
      then obtain pre row post where s: "x # rows = pre @ row # post" "row_eventId row = anchor"
          "anchor \<notin> row_eventId ` set pre"
          "confirmed \<or> skipped \<or> (\<exists>r \<in> set pre. row_eventId r \<noteq> [] \<and> \<not> row_isService r)"
        by blast
      with False obtain pre' where "pre = x # pre'" by (cases pre) auto
      with s show ?R by (intro exI [of _ pre'] exI [of _ row] exI [of _ post]) auto
    next
      assume ?R
      then obtain pre row post where "rows = pre @ row # post" "row_eventId row = anchor"
          "anchor \<notin> row_eventId ` set pre"
          "confirmed \<or> ?sk \<or> (\<exists>r \<in> set pre. row_eventId r \<noteq> [] \<and> \<not> row_isService r)"
        by blast
      with False show ?L by (intro exI [of _ "x # pre"] exI [of _ row] exI [of _ post]) auto
    qed
    with False Cons.IH [of ?sk] show ?thesis by simp
  qed
qed

lemma place_loop_loaded:
  "place_loop anchor confirmed skipped rows \<Longrightarrow> anchor \<in> row_eventId ` set rows"
  by (auto simp: place_loop_iff)

text \<open>The delimiter is withheld exactly while the read boundary may still be missing: it
  may stand at an anchor when the anchor is loaded and either the read marker is loaded too or
  a regular message with an id precedes its first row.\<close>

theorem canPlaceUnreadBarAt_iff:
  "canPlaceUnreadBarAt rows anchor confirmed \<longleftrightarrow>
     anchor \<noteq> [] \<and>
     (\<exists>pre row post. rows = pre @ row # post \<and> row_eventId row = anchor
        \<and> anchor \<notin> row_eventId ` set pre
        \<and> (confirmed \<or> (\<exists>r \<in> set pre. row_eventId r \<noteq> [] \<and> \<not> row_isService r)))"
  by (simp add: canPlaceUnreadBarAt_def place_loop_iff)

subsubsection \<open>The freeze\<close>

definition bar_inv :: "bar_session \<Rightarrow> bool" where
  "bar_inv s \<longleftrightarrow> bs_drawnId s = [] \<or> bs_drawnId s = bs_anchorId s"

lemma place_anchor:
  assumes "bs_anchorId s \<noteq> []"
  shows "bs_anchorId (placeUnreadBar s rows marker frontier n force) = bs_anchorId s"
  using assms by (simp add: placeUnreadBar_def resolveAnchor_def setUnreadBarPreservingScroll_def Let_def)

lemma place_inv: "bar_inv s \<Longrightarrow> bar_inv (placeUnreadBar s rows marker frontier n force)"
  by (auto simp: bar_inv_def placeUnreadBar_def resolveAnchor_def setUnreadBarPreservingScroll_def Let_def)

lemma store_cases:
  obtains "applyStoreUnreadState s rows marker frontier n = s"
  | k where "applyStoreUnreadState s rows marker frontier n =
      setUnreadBarPreservingScroll (s\<lparr>bs_dismissed := k\<rparr>) (bs_drawnId s) (max 0 n)"
  | k where "applyStoreUnreadState s rows marker frontier n =
      placeUnreadBar (s\<lparr>bs_dismissed := k\<rparr>) rows marker frontier n False"
  | k where "applyStoreUnreadState s rows marker frontier n =
      clearUnreadBarPreservingScroll (s\<lparr>bs_dismissed := k\<rparr>)"
  | k where "applyStoreUnreadState s rows marker frontier n = s\<lparr>bs_dismissed := k\<rparr>"
proof -
  obtain k where k: "(if n \<le> 0 then s\<lparr>bs_dismissed := False\<rparr> else s) = s\<lparr>bs_dismissed := k\<rparr>"
    by (cases "n \<le> 0") (auto intro: that [of False] that [of "bs_dismissed s"])
  let ?d = "bar_decide (bs_drawnId s) (bs_drawnId s \<noteq> [] \<and> list_hasMessage rows (bs_drawnId s)) n"
  have st: "applyStoreUnreadState s rows marker frontier n =
     (if bs_resolved s then s\<lparr>bs_dismissed := k\<rparr> else
      case ?d of
        KeepDrawn \<Rightarrow> setUnreadBarPreservingScroll (s\<lparr>bs_dismissed := k\<rparr>) (bs_drawnId s) (max 0 n)
      | Place \<Rightarrow> placeUnreadBar (s\<lparr>bs_dismissed := k\<rparr>) rows marker frontier n False
      | ClearDrawnKeepAnchor \<Rightarrow> clearUnreadBarPreservingScroll (s\<lparr>bs_dismissed := k\<rparr>)
      | BarNoOp \<Rightarrow> s\<lparr>bs_dismissed := k\<rparr>)"
    by (simp add: applyStoreUnreadState_def Let_def k)
  show ?thesis
  proof (cases "bs_resolved s")
    case True
    with st show ?thesis by (intro that(5)) simp
  next
    case False
    note st = st [unfolded if_not_P [OF False]]
    show ?thesis
    proof (cases ?d)
      case BarNoOp
      with st show ?thesis by (intro that(5)) simp
    next
      case KeepDrawn
      with st show ?thesis by (intro that(2)) simp
    next
      case Place
      with st show ?thesis by (intro that(3)) simp
    next
      case ClearDrawnKeepAnchor
      with st show ?thesis by (intro that(4)) simp
    qed
  qed
qed

lemma bar_step_inv: "bar_inv s \<Longrightarrow> bar_inv (bar_step s e)"
proof (induction e)
  case (StoreUnread rows marker frontier n)
  then have k: "bar_inv (s\<lparr>bs_dismissed := k\<rparr>)" for k by (simp add: bar_inv_def)
  from StoreUnread show ?case
  proof (cases rule: store_cases [of s rows marker frontier n])
    case (3 k)
    with place_inv [OF k] show ?thesis by simp
  qed (auto simp: bar_inv_def setUnreadBarPreservingScroll_def clearUnreadBarPreservingScroll_def)
qed (auto simp: place_inv, auto simp: bar_inv_def clearUnreadBarPreservingScroll_def destroyUnreadBar_def)

interpretation unread_bar: event_machine bar_step bar_inv
  by unfold_locales (rule bar_step_inv)

lemma bar_step_anchor:
  assumes "bs_anchorId s \<noteq> []" "e \<noteq> EndSession"
  shows "bs_anchorId (bar_step s e) = bs_anchorId s"
  using assms
proof (induction e)
  case (StoreUnread rows marker frontier n)
  then show ?case
    by (cases rule: store_cases [of s rows marker frontier n])
       (auto simp: setUnreadBarPreservingScroll_def clearUnreadBarPreservingScroll_def place_anchor)
qed (simp_all add: place_anchor clearUnreadBarPreservingScroll_def)

text \<open>C32: the freeze.  Once the delimiter has stood at an event, then until the session ends
  it is drawn at that event or not at all, whatever the store reports, whatever rows are
  loaded or dropped and however the first-unread frontier drifts.\<close>

theorem delimiter_never_slides:
  assumes "bar_inv s" and "bs_drawnId s \<noteq> []" and "EndSession \<notin> set es"
  shows "bs_drawnId (foldl bar_step s es) \<in> {[], bs_drawnId s}
       \<and> bs_anchorId (foldl bar_step s es) = bs_drawnId s"
proof -
  have start: "bs_anchorId s = bs_drawnId s" using assms(1,2) by (simp add: bar_inv_def)
  have "bs_anchorId (foldl bar_step s es) = bs_anchorId s"
    using assms(2,3) start
  proof (induction es rule: rev_induct)
    case (snoc e es)
    then show ?case using bar_step_anchor [of "foldl bar_step s es" e] by auto
  qed simp
  moreover have "bar_inv (foldl bar_step s es)"
    by (rule unread_bar.run_inv [OF assms(1)])
  ultimately show ?thesis using start by (auto simp: bar_inv_def)
qed

definition bar_demo :: bar_session where
  "bar_demo = \<lparr>bs_anchorId = ''$5'', bs_drawnId = ''$5'', bs_drawnCount = 2, bs_dismissed = False,
     bs_resolved = False\<rparr>"

theorem delimiter_never_slides_witness:
  "bs_drawnId (foldl bar_step bar_demo
     [StoreUnread [] False ''$9'' 0,
      StoreUnread [\<lparr>row_eventId = ''$4'', row_isService = False\<rparr>,
                   \<lparr>row_eventId = ''$9'', row_isService = False\<rparr>] True ''$9'' 1]) \<in> {[], ''$5''}"
  using delimiter_never_slides [of bar_demo "[StoreUnread [] False ''$9'' 0,
      StoreUnread [\<lparr>row_eventId = ''$4'', row_isService = False\<rparr>,
                   \<lparr>row_eventId = ''$9'', row_isService = False\<rparr>] True ''$9'' 1]"]
  by (simp add: bar_demo_def bar_inv_def)

subsubsection \<open>Read detection\<close>

lemma read_till_loop_spec:
  "read_till_loop bs v i acc =
     (if takeWhile (\<lambda>b. b \<le> v) bs = [] then acc
      else i + int (length (takeWhile (\<lambda>b. b \<le> v) bs)) - 1)"
  by (induction bs arbitrary: i acc) auto

text \<open>What the viewport proves read: from the frontier row on, exactly the rows whose
  bottoms lie in the viewport up to the first that does not; nothing while detection is held
  or the frontier is not loaded.\<close>

theorem readTillIndex_spec:
  "readTillIndex rowBottoms frontierIdx viewportBottom held =
     (let seen = takeWhile (\<lambda>b. b \<le> viewportBottom) (drop (nat frontierIdx) rowBottoms)
      in if held \<or> frontierIdx < 0 \<or> int (length rowBottoms) \<le> frontierIdx \<or> seen = [] then -1
         else frontierIdx + int (length seen) - 1)"
  by (simp add: readTillIndex_def read_till_loop_spec Let_def)

lemma readTillIndex_range:
  "readTillIndex bs f v held = -1 \<or>
     (f \<le> readTillIndex bs f v held \<and> readTillIndex bs f v held < int (length bs)
      \<and> bs ! nat (readTillIndex bs f v held) \<le> v)"
proof (cases "readTillIndex bs f v held = -1")
  case False
  let ?seen = "takeWhile (\<lambda>b. b \<le> v) (drop (nat f) bs)"
  from False have f: "0 \<le> f" "f < int (length bs)" and ne: "?seen \<noteq> []"
    and r: "readTillIndex bs f v held = f + int (length ?seen) - 1"
    by (auto simp: readTillIndex_spec Let_def split: if_splits)
  have len: "length ?seen \<le> length bs - nat f"
    using length_takeWhile_le [of "\<lambda>b. b \<le> v" "drop (nat f) bs"] by simp
  have pos: "0 < length ?seen" using ne by simp
  have "?seen ! (length ?seen - 1) \<in> set ?seen" using pos by (intro nth_mem) linarith
  then have le: "?seen ! (length ?seen - 1) \<le> v" by (auto dest: set_takeWhileD)
  have "nat (readTillIndex bs f v held) = nat f + (length ?seen - 1)"
    using r f pos by linarith
  moreover have "?seen ! (length ?seen - 1) = bs ! (nat f + (length ?seen - 1))"
    using pos len f by (subst takeWhile_nth) (auto simp: nth_drop)
  ultimately have "bs ! nat (readTillIndex bs f v held) \<le> v" using le by simp
  with r f pos len show ?thesis by linarith
qed simp

subsubsection \<open>Jumps\<close>

text \<open>What an episode amounts to: a failure before the target falls back, otherwise the cover
  drops once both the floor and the target have been seen, and never twice.\<close>

definition episode_outcome :: "bool \<Rightarrow> bool \<Rightarrow> jump_event list \<Rightarrow> jump_action list" where
  "episode_outcome floorSeen target es =
     (if \<not> target \<and> FetchFailed \<in> set (takeWhile (\<lambda>e. e \<noteq> TargetArrived) es) then [Fallback]
      else if (floorSeen \<or> FloorElapsed \<in> set es) \<and> (target \<or> TargetArrived \<in> set es) then [Reveal]
      else [])"

lemma jl_inactive: "\<not> jl_active s \<Longrightarrow> jl_actions s es = []"
proof (induction es)
  case (Cons e es)
  then show ?case
    by (cases e) (simp_all add: onFloorElapsed_def onTargetArrived_def onFetchFailed_def)
qed simp

lemma jl_episode:
  "jl_active s \<Longrightarrow> \<not> (jl_floorElapsed s \<and> jl_targetReady s) \<Longrightarrow>
   jl_actions s es = episode_outcome (jl_floorElapsed s) (jl_targetReady s) es"
proof (induction es arbitrary: s)
  case Nil
  then show ?case by (simp add: episode_outcome_def)
next
  case (Cons e es)
  show ?case
  proof (cases "snd (jl_step s e) = JumpNone")
    case True
    with Cons show ?thesis
      by (cases e)
        (auto simp: onFloorElapsed_def onTargetArrived_def onFetchFailed_def maybeReveal_def
           episode_outcome_def split: if_splits)
  next
    case False
    with Cons.prems jl_inactive [of "s\<lparr>jl_floorElapsed := True, jl_active := False\<rparr>" es]
      jl_inactive [of "s\<lparr>jl_targetReady := True, jl_active := False\<rparr>" es]
      jl_inactive [of "s\<lparr>jl_active := False\<rparr>" es]
    show ?thesis
      by (cases e)
        (auto simp: onFloorElapsed_def onTargetArrived_def onFetchFailed_def maybeReveal_def
           episode_outcome_def jl_inactive split: if_splits)
  qed
qed

text \<open>A jump episode ends exactly one way.  Whatever the order of the floor timer, the
  target's arrival and failures, the cover falls back if a failure comes before the target,
  is lifted once if the target and the floor both come, and otherwise stays; it never does two
  of these.\<close>

theorem jump_episode_outcome:
  "jl_actions (jl_begin s) es = episode_outcome False False es"
  by (simp add: jl_episode jl_begin_def)

subsubsection \<open>Routing and membership\<close>

lemma focus_fetch_only_out_of_window:
  "routeNotificationJump sameRoom isLive targetLoaded = FocusFetch \<longleftrightarrow>
     sameRoom \<and> isLive \<and> \<not> targetLoaded"
  by (simp add: routeNotificationJump_def)

lemma preview_only_when_known:
  assumes "shouldOpenAsPreview rooms room"
  shows "room \<noteq> []" and "rooms \<noteq> []"
    and "distinct (map rs_roomId rooms) \<Longrightarrow>
         \<forall>r \<in> set rooms. rs_roomId r = room \<longrightarrow> rs_membership r \<noteq> MemberJoin"
proof -
  show "room \<noteq> []" and "rooms \<noteq> []"
    using assms by (auto simp: shouldOpenAsPreview_def classifyRoom_def split: if_splits)
  assume d: "distinct (map rs_roomId rooms)"
  show "\<forall>r \<in> set rooms. rs_roomId r = room \<longrightarrow> rs_membership r \<noteq> MemberJoin"
  proof (intro ballI impI)
    fix r assume r: "r \<in> set rooms" "rs_roomId r = room"
    then obtain r' where f: "find (\<lambda>r. rs_roomId r = room) rooms = Some r'"
      by (cases "find (\<lambda>r. rs_roomId r = room) rooms") (auto simp: find_None_iff)
    then have "r' \<in> set rooms" "rs_roomId r' = room" by (auto simp: find_Some_iff)
    with r d have "r' = r" by (auto simp: distinct_map inj_on_def)
    with f assms show "rs_membership r \<noteq> MemberJoin"
      by (auto simp: shouldOpenAsPreview_def classifyRoom_def split: if_splits)
  qed
qed

end
