(* ===== verification/History_States.thy ===== *)
theory History_States imports Timeline_Content begin

section \<open>The small state holders of the chat history\<close>

text \<open>
  The classes \<open>HistoryWidget\<close> and \<open>HistoryList\<close> keep their state in, each a group of
  definitions: \<^verbatim>\<open>src/src/history/history_return_stack.*\<close>, \<^verbatim>\<open>history_selection_state.*\<close>,
  \<^verbatim>\<open>history_scroll_state.*\<close>, \<^verbatim>\<open>history_media_request_state.*\<close>, \<^verbatim>\<open>history_pending_local_media.*\<close>,
  \<^verbatim>\<open>history_read_receipt_state.*\<close>, \<^verbatim>\<open>history_typing_state.*\<close>,
  \<^verbatim>\<open>history_audio_playback_state.*\<close> and \<^verbatim>\<open>history_video_thumbnail_probe_state.*\<close>.  The two
  return stacks are interpretations of \<open>bounded_stack\<close>, the queues of pending work
  interpretations of \<open>one_shot\<close>.
\<close>

subsection \<open>Return stacks\<close>

record history_return_position =
  rp_anchorEventId :: qstring
  rp_pixelOffset :: int

definition default_return_position :: history_return_position where
  "default_return_position = \<lparr> rp_anchorEventId = [], rp_pixelOffset = 0 \<rparr>"

record return_stack =
  rt_replyEvents :: "qstring list"
  rt_positions :: "history_return_position list"

definition kMaxStackSize :: nat where
  "kMaxStackSize = 50"

definition initial_return_stack :: return_stack where
  "initial_return_stack = \<lparr> rt_replyEvents = [], rt_positions = [] \<rparr>"

definition rt_clear :: "return_stack \<Rightarrow> return_stack" where
  "rt_clear s = s\<lparr>rt_replyEvents := [], rt_positions := []\<rparr>"

definition pushReply :: "qstring \<Rightarrow> return_stack \<Rightarrow> return_stack" where
  "pushReply event s =
     (if event = [] then s
      else (let s1 = (if kMaxStackSize \<le> length (rt_replyEvents s)
                      then s\<lparr>rt_replyEvents := tl (rt_replyEvents s)\<rparr> else s)
            in s1\<lparr>rt_replyEvents := rt_replyEvents s1 @ [event]\<rparr>))"

definition hasReply_onStack :: "return_stack \<Rightarrow> bool" where
  "hasReply_onStack s \<longleftrightarrow> rt_replyEvents s \<noteq> []"

definition takeReply :: "return_stack \<Rightarrow> return_stack \<times> qstring" where
  "takeReply s =
     (if rt_replyEvents s = [] then (s, [])
      else (s\<lparr>rt_replyEvents := butlast (rt_replyEvents s)\<rparr>, last (rt_replyEvents s)))"

definition pushPosition :: "history_return_position \<Rightarrow> return_stack \<Rightarrow> return_stack" where
  "pushPosition pos s =
     (if rp_anchorEventId pos = [] then s
      else (let s1 = (if kMaxStackSize \<le> length (rt_positions s)
                      then s\<lparr>rt_positions := tl (rt_positions s)\<rparr> else s)
            in s1\<lparr>rt_positions := rt_positions s1 @ [pos]\<rparr>))"

definition hasPosition :: "return_stack \<Rightarrow> bool" where
  "hasPosition s \<longleftrightarrow> rt_positions s \<noteq> []"

text \<open>\<open>back()\<close> of an empty vector is undefined behaviour: \<open>None\<close>.\<close>

definition lastPosition :: "return_stack \<Rightarrow> history_return_position option" where
  "lastPosition s = (if rt_positions s = [] then None else Some (last (rt_positions s)))"

definition dropLastPosition :: "return_stack \<Rightarrow> return_stack" where
  "dropLastPosition s =
     (if rt_positions s \<noteq> [] then s\<lparr>rt_positions := butlast (rt_positions s)\<rparr> else s)"

definition takePosition :: "return_stack \<Rightarrow> return_stack \<times> history_return_position" where
  "takePosition s =
     (if rt_positions s = [] then (s, default_return_position)
      else (s\<lparr>rt_positions := butlast (rt_positions s)\<rparr>, last (rt_positions s)))"

interpretation reply_stack:
  bounded_stack rt_replyEvents pushReply "\<lambda>s. fst (takeReply s)" "\<lambda>e. e \<noteq> []" kMaxStackSize
  by unfold_locales (auto simp: kMaxStackSize_def pushReply_def takeReply_def Let_def)

interpretation position_stack:
  bounded_stack rt_positions pushPosition dropLastPosition "\<lambda>p. rp_anchorEventId p \<noteq> []" kMaxStackSize
  by unfold_locales (auto simp: kMaxStackSize_def pushPosition_def dropLastPosition_def Let_def)

text \<open>The way back.  After any pushes the two stacks hold exactly the last 50 positions
  worth keeping (those with an anchor), so \<open>takeReply\<close> and \<open>takePosition\<close> walk back through
  them newest first.\<close>

theorem return_stack_keeps_last:
  "rt_replyEvents (foldl (\<lambda>t x. pushReply x t) initial_return_stack xs) =
     last_n 50 (filter (\<lambda>e. e \<noteq> []) xs)
 \<and> rt_positions (foldl (\<lambda>t x. pushPosition x t) initial_return_stack ps) =
     last_n 50 (filter (\<lambda>p. rp_anchorEventId p \<noteq> []) ps)"
  using reply_stack.pushes_keep_last [of initial_return_stack xs]
    position_stack.pushes_keep_last [of initial_return_stack ps]
  by (simp add: initial_return_stack_def kMaxStackSize_def)

subsection \<open>Selection\<close>

record text_cursor =
  cur_messageIndex :: int
  cur_textPosition :: int

definition default_text_cursor :: text_cursor where
  "default_text_cursor = \<lparr> cur_messageIndex = -1, cur_textPosition = -1 \<rparr>"

definition cursor_isValid :: "text_cursor \<Rightarrow> bool" where
  "cursor_isValid c \<longleftrightarrow> 0 \<le> cur_messageIndex c \<and> 0 \<le> cur_textPosition c"

text \<open>A \<open>QPoint\<close> is a pair; the selected ids are a \<open>QSet\<close>.\<close>

record selection_state =
  sel_mousePressed :: bool
  sel_mousePressPos :: "int \<times> int"
  sel_dragStarted :: bool
  sel_from :: text_cursor
  sel_to :: text_cursor
  sel_clickCount :: int
  sel_lastClickTime :: int
  sel_lastClickPos :: "int \<times> int"
  sel_inSelectionMode :: bool
  sel_selectedMessageIds :: "qstring set"

definition initial_selection_state :: selection_state where
  "initial_selection_state = \<lparr> sel_mousePressed = False, sel_mousePressPos = (0, 0),
     sel_dragStarted = False, sel_from = default_text_cursor, sel_to = default_text_cursor,
     sel_clickCount = 0, sel_lastClickTime = 0, sel_lastClickPos = (0, 0),
     sel_inSelectionMode = False, sel_selectedMessageIds = {} \<rparr>"

definition resetDrag :: "selection_state \<Rightarrow> selection_state" where
  "resetDrag s = s\<lparr>sel_mousePressed := False, sel_dragStarted := False\<rparr>"

definition manhattanLength :: "int \<times> int \<Rightarrow> int" where
  "manhattanLength p = \<bar>fst p\<bar> + \<bar>snd p\<bar>"

definition updateClickCount :: "selection_state \<Rightarrow> int \<times> int \<Rightarrow> int \<Rightarrow> int \<Rightarrow> selection_state \<times> int" where
  "updateClickCount s pos now interval =
     (let clicks = (if manhattanLength (fst pos - fst (sel_lastClickPos s),
                                        snd pos - snd (sel_lastClickPos s)) \<le> 3
                       \<and> now - sel_lastClickTime s < interval
                    then sel_clickCount s + 1 else 1)
      in (s\<lparr>sel_clickCount := clicks, sel_lastClickTime := now, sel_lastClickPos := pos\<rparr>, clicks))"

definition setDoubleClick :: "selection_state \<Rightarrow> int \<times> int \<Rightarrow> int \<Rightarrow> selection_state" where
  "setDoubleClick s pos now =
     s\<lparr>sel_clickCount := 2, sel_lastClickTime := now, sel_lastClickPos := pos\<rparr>"

definition enterSelectionMode :: "selection_state \<Rightarrow> qstring set \<Rightarrow> selection_state" where
  "enterSelectionMode s selectedIds =
     s\<lparr>sel_inSelectionMode := True, sel_selectedMessageIds := selectedIds\<rparr>"

definition exitSelectionMode :: "selection_state \<Rightarrow> selection_state \<times> bool" where
  "exitSelectionMode s =
     (if \<not> sel_inSelectionMode s then (s, False)
      else (s\<lparr>sel_inSelectionMode := False, sel_selectedMessageIds := {}\<rparr>, True))"

definition selectedContains :: "selection_state \<Rightarrow> qstring \<Rightarrow> bool" where
  "selectedContains s event \<longleftrightarrow> event \<in> sel_selectedMessageIds s"

definition toggleSelected :: "selection_state \<Rightarrow> qstring \<Rightarrow> selection_state \<times> bool" where
  "toggleSelected s event =
     (let ids = (if event \<in> sel_selectedMessageIds s
                 then sel_selectedMessageIds s - {event}
                 else insert event (sel_selectedMessageIds s))
      in (s\<lparr>sel_selectedMessageIds := ids\<rparr>, ids \<noteq> {}))"

definition clearTextSelection :: "selection_state \<Rightarrow> selection_state" where
  "clearTextSelection s = resetDrag (s\<lparr>sel_from := default_text_cursor, sel_to := default_text_cursor\<rparr>)"

definition setTextSelection :: "selection_state \<Rightarrow> text_cursor \<Rightarrow> text_cursor \<Rightarrow> selection_state" where
  "setTextSelection s from to = s\<lparr>sel_from := from, sel_to := to\<rparr>"

definition selectWholeMessage :: "selection_state \<Rightarrow> int \<Rightarrow> int \<Rightarrow> selection_state" where
  "selectWholeMessage s messageIndex textLength =
     resetDrag (s\<lparr>sel_from := \<lparr>cur_messageIndex = messageIndex, cur_textPosition = 0\<rparr>,
                  sel_to := \<lparr>cur_messageIndex = messageIndex, cur_textPosition = textLength\<rparr>\<rparr>)"

definition setSelectionEnd :: "selection_state \<Rightarrow> text_cursor \<Rightarrow> selection_state" where
  "setSelectionEnd s to = s\<lparr>sel_to := to\<rparr>"

definition normalizedSelection :: "selection_state \<Rightarrow> text_cursor \<times> text_cursor" where
  "normalizedSelection s =
     (let from = sel_from s; to = sel_to s
      in if \<not> cursor_isValid from \<or> \<not> cursor_isValid to then (from, to)
         else if cur_messageIndex to < cur_messageIndex from
                 \<or> (cur_messageIndex from = cur_messageIndex to
                    \<and> cur_textPosition to < cur_textPosition from)
         then (to, from) else (from, to))"

definition INT_MAX :: int where
  "INT_MAX = 2 ^ 31 - 1"

text \<open>\<open>None\<close> when the function returns false, otherwise \<open>start\<close> and \<open>end\<close>.\<close>

definition selectionForMessage :: "selection_state \<Rightarrow> int \<Rightarrow> (int \<times> int) option" where
  "selectionForMessage s msgIndex =
     (case normalizedSelection s of (from, to) \<Rightarrow>
        (if \<not> cursor_isValid from \<or> \<not> cursor_isValid to then None
         else if msgIndex < cur_messageIndex from \<or> cur_messageIndex to < msgIndex then None
         else if cur_messageIndex from = cur_messageIndex to
         then (if cur_textPosition from = cur_textPosition to then None
               else Some (cur_textPosition from, cur_textPosition to))
         else if msgIndex = cur_messageIndex from then Some (cur_textPosition from, INT_MAX)
         else if msgIndex = cur_messageIndex to then Some (0, cur_textPosition to)
         else Some (0, INT_MAX)))"

text \<open>Whether a character position of a message lies in the selection.\<close>

definition char_selected :: "selection_state \<Rightarrow> int \<Rightarrow> int \<Rightarrow> bool" where
  "char_selected s msgIndex pos \<longleftrightarrow>
     (case selectionForMessage s msgIndex of None \<Rightarrow> False
      | Some (start, stop) \<Rightarrow> start \<le> pos \<and> pos < stop)"

definition cursor_less_eq :: "text_cursor \<Rightarrow> text_cursor \<Rightarrow> bool" where
  "cursor_less_eq a b \<longleftrightarrow>
     cur_messageIndex a < cur_messageIndex b
   \<or> (cur_messageIndex a = cur_messageIndex b \<and> cur_textPosition a \<le> cur_textPosition b)"

text \<open>The text selected between two valid cursors does not depend on the direction of the
  drag: it is every character at or after the earlier cursor and before the later one, message
  by message (a character position is below \<open>INT_MAX\<close>).\<close>

theorem selection_is_interval:
  assumes "cursor_isValid a" and "cursor_isValid b" and "0 \<le> pos" and "pos < INT_MAX"
  shows "char_selected (setTextSelection s a b) i pos =
           (let c = \<lparr>cur_messageIndex = i, cur_textPosition = pos\<rparr>;
                lo = (if cursor_less_eq a b then a else b);
                hi = (if cursor_less_eq a b then b else a)
            in cursor_less_eq lo c \<and> \<not> cursor_less_eq hi c)"
  using assms
  by (auto simp: char_selected_def selectionForMessage_def normalizedSelection_def
      setTextSelection_def cursor_less_eq_def Let_def cursor_isValid_def split: if_splits)

theorem selection_is_interval_witness:
  "char_selected (setTextSelection initial_selection_state
     \<lparr>cur_messageIndex = 3, cur_textPosition = 2\<rparr> \<lparr>cur_messageIndex = 1, cur_textPosition = 5\<rparr>) 2 7"
  using selection_is_interval [of "\<lparr>cur_messageIndex = 3, cur_textPosition = 2\<rparr>"
      "\<lparr>cur_messageIndex = 1, cur_textPosition = 5\<rparr>" 7 initial_selection_state 2]
  by (simp add: cursor_isValid_def INT_MAX_def cursor_less_eq_def)

lemma toggle_twice:
  "sel_selectedMessageIds (fst (toggleSelected (fst (toggleSelected s e)) e)) = sel_selectedMessageIds s"
  by (auto simp: toggleSelected_def Let_def)

lemma click_count_positive:
  "0 \<le> sel_clickCount s \<Longrightarrow> 1 \<le> snd (updateClickCount s pos now interval)"
  by (simp add: updateClickCount_def Let_def)

subsection \<open>Scroll positions\<close>

record scroll_state_store =
  scr_states :: "(qstring, room_scroll_state) qhash"
  scr_pendingRestore :: "room_scroll_state option"

definition scr_save :: "scroll_state_store \<Rightarrow> qstring \<Rightarrow> room_scroll_state \<Rightarrow> scroll_state_store" where
  "scr_save s room state =
     (if room \<noteq> [] then s\<lparr>scr_states := hash_insert room state (scr_states s)\<rparr> else s)"

definition scr_has :: "scroll_state_store \<Rightarrow> qstring \<Rightarrow> bool" where
  "scr_has s room = hash_contains room (scr_states s)"

definition scr_value :: "scroll_state_store \<Rightarrow> qstring \<Rightarrow> room_scroll_state" where
  "scr_value s room = hash_value default_room_scroll_state room (scr_states s)"

definition setPendingRestore :: "scroll_state_store \<Rightarrow> room_scroll_state \<Rightarrow> scroll_state_store" where
  "setPendingRestore s state = s\<lparr>scr_pendingRestore := Some state\<rparr>"

definition clearPendingRestore :: "scroll_state_store \<Rightarrow> scroll_state_store" where
  "clearPendingRestore s = s\<lparr>scr_pendingRestore := None\<rparr>"

definition hasPendingRestore :: "scroll_state_store \<Rightarrow> bool" where
  "hasPendingRestore s \<longleftrightarrow> scr_pendingRestore s \<noteq> None"

text \<open>\<open>std::optional::value\<close> throws without a value: \<open>None\<close>.\<close>

definition pendingRestore :: "scroll_state_store \<Rightarrow> room_scroll_state option" where
  "pendingRestore s = scr_pendingRestore s"

lemma scroll_saved:
  "room \<noteq> [] \<Longrightarrow> scr_value (scr_save s room state) other =
     (if other = room then state else scr_value s other)"
  by (simp add: scr_value_def scr_save_def)

subsection \<open>Pending media requests\<close>

record deferred_progress =
  dp_receivedBytes :: quint64
  dp_totalBytes :: quint64
  dp_phase :: int

record deferred_update_batch =
  db_progress :: "(qstring, deferred_progress) qhash"
  db_invalidations :: "qstring set"
  db_updateOnly :: bool

definition batch_isEmpty :: "deferred_update_batch \<Rightarrow> bool" where
  "batch_isEmpty b \<longleftrightarrow> db_progress b = [] \<and> db_invalidations b = {} \<and> \<not> db_updateOnly b"

record media_request_state =
  mr_deferredProgress :: "(qstring, deferred_progress) qhash"
  mr_deferredInvalidations :: "qstring set"
  mr_deferredUpdate :: bool
  mr_cancelledDownloads :: "qstring set"
  mr_pendingFileOpen :: "qstring set"
  mr_pendingAudioPlay :: "(qstring, qstring) qhash"
  mr_pendingVideoOpen :: "(qstring, qstring) qhash"

definition deferProgress ::
  "media_request_state \<Rightarrow> qstring \<Rightarrow> quint64 \<Rightarrow> quint64 \<Rightarrow> int \<Rightarrow> media_request_state" where
  "deferProgress s mxcUrl received totalBytes phase =
     s\<lparr>mr_deferredProgress := hash_insert mxcUrl
         \<lparr>dp_receivedBytes = received, dp_totalBytes = totalBytes, dp_phase = phase\<rparr>
         (mr_deferredProgress s)\<rparr>"

definition removeDeferredProgress :: "media_request_state \<Rightarrow> qstring \<Rightarrow> media_request_state" where
  "removeDeferredProgress s mxcUrl =
     s\<lparr>mr_deferredProgress := hash_remove mxcUrl (mr_deferredProgress s)\<rparr>"

definition deferInvalidation :: "media_request_state \<Rightarrow> qstring \<Rightarrow> media_request_state" where
  "deferInvalidation s mxcUrl =
     s\<lparr>mr_deferredInvalidations := insert mxcUrl (mr_deferredInvalidations s)\<rparr>"

definition deferUpdate :: "media_request_state \<Rightarrow> media_request_state" where
  "deferUpdate s = s\<lparr>mr_deferredUpdate := True\<rparr>"

definition hasDeferredUpdates :: "media_request_state \<Rightarrow> bool" where
  "hasDeferredUpdates s \<longleftrightarrow>
     mr_deferredProgress s \<noteq> [] \<or> mr_deferredInvalidations s \<noteq> {} \<or> mr_deferredUpdate s"

definition takeDeferredUpdates ::
  "media_request_state \<Rightarrow> media_request_state \<times> deferred_update_batch" where
  "takeDeferredUpdates s =
     (s\<lparr>mr_deferredProgress := [], mr_deferredInvalidations := {}, mr_deferredUpdate := False\<rparr>,
      \<lparr>db_progress = mr_deferredProgress s, db_invalidations = mr_deferredInvalidations s,
       db_updateOnly = mr_deferredUpdate s\<rparr>)"

definition cancelDownload :: "media_request_state \<Rightarrow> qstring \<Rightarrow> media_request_state" where
  "cancelDownload s mxcUrl = s\<lparr>mr_cancelledDownloads := insert mxcUrl (mr_cancelledDownloads s)\<rparr>"

definition resumeDownload :: "media_request_state \<Rightarrow> qstring \<Rightarrow> media_request_state" where
  "resumeDownload s mxcUrl = s\<lparr>mr_cancelledDownloads := mr_cancelledDownloads s - {mxcUrl}\<rparr>"

definition isCancelled :: "media_request_state \<Rightarrow> qstring \<Rightarrow> bool" where
  "isCancelled s mxcUrl \<longleftrightarrow> mxcUrl \<in> mr_cancelledDownloads s"

definition consumeCancelled :: "media_request_state \<Rightarrow> qstring \<Rightarrow> media_request_state \<times> bool" where
  "consumeCancelled s mxcUrl =
     (s\<lparr>mr_cancelledDownloads := mr_cancelledDownloads s - {mxcUrl}\<rparr>, mxcUrl \<in> mr_cancelledDownloads s)"

definition requestFileOpen :: "media_request_state \<Rightarrow> qstring \<Rightarrow> media_request_state" where
  "requestFileOpen s mxcUrl = s\<lparr>mr_pendingFileOpen := insert mxcUrl (mr_pendingFileOpen s)\<rparr>"

definition takePendingFileOpen :: "media_request_state \<Rightarrow> qstring \<Rightarrow> media_request_state \<times> bool" where
  "takePendingFileOpen s mxcUrl =
     (s\<lparr>mr_pendingFileOpen := mr_pendingFileOpen s - {mxcUrl}\<rparr>, mxcUrl \<in> mr_pendingFileOpen s)"

definition requestAudioPlay :: "media_request_state \<Rightarrow> qstring \<Rightarrow> qstring \<Rightarrow> media_request_state" where
  "requestAudioPlay s mxcUrl event =
     s\<lparr>mr_pendingAudioPlay := hash_insert mxcUrl event (mr_pendingAudioPlay s)\<rparr>"

definition hasPendingAudioPlay :: "media_request_state \<Rightarrow> qstring \<Rightarrow> bool" where
  "hasPendingAudioPlay s mxcUrl = hash_contains mxcUrl (mr_pendingAudioPlay s)"

text \<open>\<open>QHash::take\<close> returns the value (an empty string without one) and removes it.\<close>

definition takePendingAudioPlay :: "media_request_state \<Rightarrow> qstring \<Rightarrow> media_request_state \<times> qstring" where
  "takePendingAudioPlay s mxcUrl =
     (s\<lparr>mr_pendingAudioPlay := hash_remove mxcUrl (mr_pendingAudioPlay s)\<rparr>,
      hash_value [] mxcUrl (mr_pendingAudioPlay s))"

definition requestVideoOpen :: "media_request_state \<Rightarrow> qstring \<Rightarrow> qstring \<Rightarrow> media_request_state" where
  "requestVideoOpen s mxcUrl event =
     s\<lparr>mr_pendingVideoOpen := hash_insert mxcUrl event (mr_pendingVideoOpen s)\<rparr>"

definition hasPendingVideoOpen :: "media_request_state \<Rightarrow> qstring \<Rightarrow> bool" where
  "hasPendingVideoOpen s mxcUrl = hash_contains mxcUrl (mr_pendingVideoOpen s)"

definition takePendingVideoOpen :: "media_request_state \<Rightarrow> qstring \<Rightarrow> media_request_state \<times> qstring" where
  "takePendingVideoOpen s mxcUrl =
     (s\<lparr>mr_pendingVideoOpen := hash_remove mxcUrl (mr_pendingVideoOpen s)\<rparr>,
      hash_value [] mxcUrl (mr_pendingVideoOpen s))"

definition clearPendingVideoOpen :: "media_request_state \<Rightarrow> qstring \<Rightarrow> media_request_state" where
  "clearPendingVideoOpen s mxcUrl =
     s\<lparr>mr_pendingVideoOpen := hash_remove mxcUrl (mr_pendingVideoOpen s)\<rparr>"

definition clearPendingOpenRequests :: "media_request_state \<Rightarrow> qstring \<Rightarrow> media_request_state" where
  "clearPendingOpenRequests s mxcUrl =
     s\<lparr>mr_pendingFileOpen := mr_pendingFileOpen s - {mxcUrl},
       mr_pendingAudioPlay := hash_remove mxcUrl (mr_pendingAudioPlay s),
       mr_pendingVideoOpen := hash_remove mxcUrl (mr_pendingVideoOpen s)\<rparr>"

definition clearPendingPlaybackRequests :: "media_request_state \<Rightarrow> qstring \<Rightarrow> media_request_state" where
  "clearPendingPlaybackRequests s mxcUrl =
     s\<lparr>mr_pendingAudioPlay := hash_remove mxcUrl (mr_pendingAudioPlay s),
       mr_pendingVideoOpen := hash_remove mxcUrl (mr_pendingVideoOpen s)\<rparr>"

text \<open>The three kinds of request, and cancellations, under the one-shot interface.  The caller
  tests \<open>hasPending...\<close> before it takes, which tells an absent request from an empty id.\<close>

interpretation audio_play: one_shot
  "\<lambda>s k. map_of (mr_pendingAudioPlay s) k" "\<lambda>k v s. requestAudioPlay s k v"
  "\<lambda>k s. (fst (takePendingAudioPlay s k),
          if hasPendingAudioPlay s k then Some (snd (takePendingAudioPlay s k)) else None)"
  by unfold_locales
    (auto simp: requestAudioPlay_def takePendingAudioPlay_def hasPendingAudioPlay_def
       hash_contains_def hash_value_def)

interpretation video_open: one_shot
  "\<lambda>s k. map_of (mr_pendingVideoOpen s) k" "\<lambda>k v s. requestVideoOpen s k v"
  "\<lambda>k s. (fst (takePendingVideoOpen s k),
          if hasPendingVideoOpen s k then Some (snd (takePendingVideoOpen s k)) else None)"
  by unfold_locales
    (auto simp: requestVideoOpen_def takePendingVideoOpen_def hasPendingVideoOpen_def
       hash_contains_def hash_value_def)

interpretation file_open: one_shot
  "\<lambda>s k. if k \<in> mr_pendingFileOpen s then Some () else None" "\<lambda>k v s. requestFileOpen s k"
  "\<lambda>k s. (fst (takePendingFileOpen s k), if snd (takePendingFileOpen s k) then Some () else None)"
  by unfold_locales (auto simp: requestFileOpen_def takePendingFileOpen_def)

interpretation cancelled: one_shot
  "\<lambda>s k. if isCancelled s k then Some () else None" "\<lambda>k v s. cancelDownload s k"
  "\<lambda>k s. (fst (consumeCancelled s k), if snd (consumeCancelled s k) then Some () else None)"
  by unfold_locales (auto simp: isCancelled_def cancelDownload_def consumeCancelled_def)

lemma deferred_batch_complete:
  "batch_isEmpty (snd (takeDeferredUpdates s)) \<longleftrightarrow> \<not> hasDeferredUpdates s"
  "\<not> hasDeferredUpdates (fst (takeDeferredUpdates s))"
  by (auto simp: takeDeferredUpdates_def hasDeferredUpdates_def batch_isEmpty_def)

text \<open>A download that finishes opens what was asked for, once: after a request, taking it
  gives the requested event, taking it again gives nothing, and clearing the requests of a
  file leaves none of the three kinds; requests for other files are untouched.\<close>

theorem media_requests_served_once:
  "snd (takePendingVideoOpen (requestVideoOpen s url event) url) = event
 \<and> \<not> hasPendingVideoOpen (fst (takePendingVideoOpen s url)) url
 \<and> snd (takePendingAudioPlay (requestAudioPlay s url event) url) = event
 \<and> \<not> hasPendingAudioPlay (fst (takePendingAudioPlay s url)) url
 \<and> snd (takePendingFileOpen (requestFileOpen s url) url)
 \<and> \<not> snd (takePendingFileOpen (fst (takePendingFileOpen s url)) url)
 \<and> (let c = clearPendingOpenRequests s url in
      \<not> hasPendingVideoOpen c url \<and> \<not> hasPendingAudioPlay c url \<and> \<not> snd (takePendingFileOpen c url))
 \<and> (other = url \<or>
     hasPendingVideoOpen (clearPendingOpenRequests s url) other = hasPendingVideoOpen s other
   \<and> hasPendingAudioPlay (clearPendingOpenRequests s url) other = hasPendingAudioPlay s other
   \<and> snd (takePendingFileOpen (clearPendingOpenRequests s url) other)
       = snd (takePendingFileOpen s other))"
  by (auto simp: Let_def requestVideoOpen_def takePendingVideoOpen_def hasPendingVideoOpen_def
      requestAudioPlay_def takePendingAudioPlay_def hasPendingAudioPlay_def
      requestFileOpen_def takePendingFileOpen_def clearPendingOpenRequests_def)

subsection \<open>Uploads in flight\<close>

record pending_local_media_upload =
  up_type :: content_type
  up_mediaPath :: qstring
  up_uploadPath :: qstring
  up_thumbPath :: qstring
  up_roomId :: qstring
  up_mime :: qstring
  up_filename :: qstring
  up_caption :: qstring
  up_size :: quint64
  up_width :: int
  up_height :: int
  up_durationMs :: quint64

type_synonym pending_local_media = "(qstring, pending_local_media_upload) qhash"

definition upload_insert ::
  "pending_local_media \<Rightarrow> qstring \<Rightarrow> pending_local_media_upload \<Rightarrow> pending_local_media" where
  "upload_insert s event upload = hash_insert event upload s"

definition setUploadPath :: "pending_local_media \<Rightarrow> qstring \<Rightarrow> qstring \<Rightarrow> pending_local_media" where
  "setUploadPath s event path =
     (case map_of s event of
        None \<Rightarrow> s
      | Some upload \<Rightarrow> hash_insert event (upload\<lparr>up_uploadPath := path\<rparr>) s)"

definition hasPendingForRoom :: "pending_local_media \<Rightarrow> qstring \<Rightarrow> bool" where
  "hasPendingForRoom s room = list_ex (\<lambda>p. up_roomId (snd p) = room) s"

definition pending_upload :: "pending_local_media \<Rightarrow> qstring \<Rightarrow> pending_local_media_upload option" where
  "pending_upload s event = (case map_of s event of None \<Rightarrow> None | Some u \<Rightarrow> Some u)"

definition take_upload ::
  "pending_local_media \<Rightarrow> qstring \<Rightarrow> pending_local_media \<times> pending_local_media_upload option" where
  "take_upload s event =
     (case map_of s event of
        None \<Rightarrow> (s, None)
      | Some upload \<Rightarrow> (hash_remove event s, Some upload))"

definition takeAll :: "pending_local_media \<Rightarrow> pending_local_media \<times> pending_local_media_upload list" where
  "takeAll s = ([], map snd s)"

interpretation uploads: one_shot pending_upload "\<lambda>k v s. upload_insert s k v" "\<lambda>k s. take_upload s k"
proof
  fix k :: qstring and s :: pending_local_media and j :: qstring
  show "pending_upload (fst (take_upload s k)) j = (if j = k then None else pending_upload s j)"
    by (cases "map_of s k") (auto simp: take_upload_def pending_upload_def)
qed (auto simp: pending_upload_def upload_insert_def take_upload_def split: option.split)

lemma setUploadPath_upload:
  "pending_upload (setUploadPath s event path) other =
     (if other = event then map_option (\<lambda>u. u\<lparr>up_uploadPath := path\<rparr>) (pending_upload s event)
      else pending_upload s other)"
  by (auto simp: setUploadPath_def pending_upload_def split: option.split)

subsection \<open>Read receipts\<close>

record read_receipt_state =
  rr_lastEventId :: qstring
  rr_requestedEventId :: qstring
  rr_pendingEventId :: qstring

definition rr_canRequest :: "read_receipt_state \<Rightarrow> qstring \<Rightarrow> bool" where
  "rr_canRequest s event \<longleftrightarrow> event \<noteq> [] \<and> event \<noteq> rr_lastEventId s \<and> event \<noteq> rr_requestedEventId s"

definition rr_setPending :: "read_receipt_state \<Rightarrow> qstring \<Rightarrow> read_receipt_state" where
  "rr_setPending s event = s\<lparr>rr_pendingEventId := event\<rparr>"

definition rr_clearPending :: "read_receipt_state \<Rightarrow> read_receipt_state" where
  "rr_clearPending s = s\<lparr>rr_pendingEventId := []\<rparr>"

definition rr_hasPending :: "read_receipt_state \<Rightarrow> bool" where
  "rr_hasPending s \<longleftrightarrow> rr_pendingEventId s \<noteq> []"

definition rr_markRequested :: "read_receipt_state \<Rightarrow> qstring \<Rightarrow> read_receipt_state" where
  "rr_markRequested s event = s\<lparr>rr_requestedEventId := event\<rparr>"

definition rr_clearRequested :: "read_receipt_state \<Rightarrow> read_receipt_state" where
  "rr_clearRequested s = s\<lparr>rr_requestedEventId := []\<rparr>"

definition rr_isRequested :: "read_receipt_state \<Rightarrow> qstring \<Rightarrow> bool" where
  "rr_isRequested s event \<longleftrightarrow> event \<noteq> [] \<and> event = rr_requestedEventId s"

definition rr_confirmRequested :: "read_receipt_state \<Rightarrow> qstring \<Rightarrow> read_receipt_state" where
  "rr_confirmRequested s event =
     (let s1 = s\<lparr>rr_lastEventId := event\<rparr>;
          s2 = (if rr_pendingEventId s1 = event then s1\<lparr>rr_pendingEventId := []\<rparr> else s1)
      in s2\<lparr>rr_requestedEventId := []\<rparr>)"

definition rr_resetForRoom :: "read_receipt_state \<Rightarrow> read_receipt_state" where
  "rr_resetForRoom s = s\<lparr>rr_lastEventId := [], rr_requestedEventId := [], rr_pendingEventId := []\<rparr>"

lemma receipt_not_repeated:
  "\<not> rr_canRequest (rr_markRequested s event) event"
  "\<not> rr_canRequest (rr_confirmRequested s event) event"
  "rr_canRequest s event \<Longrightarrow> event \<noteq> rr_lastEventId s"
  by (simp_all add: rr_canRequest_def rr_markRequested_def rr_confirmRequested_def Let_def)

subsection \<open>Typing\<close>

record typing_state =
  ty_outgoingSent :: bool
  ty_incomingUsers :: "qstring list"
  ty_animationStart :: int

definition setOutgoingSent :: "typing_state \<Rightarrow> bool \<Rightarrow> typing_state" where
  "setOutgoingSent s sent = s\<lparr>ty_outgoingSent := sent\<rparr>"

definition setIncomingUsers :: "typing_state \<Rightarrow> qstring list \<Rightarrow> int \<Rightarrow> typing_state \<times> bool" where
  "setIncomingUsers s userIds now =
     (let s1 = s\<lparr>ty_incomingUsers := userIds\<rparr>
      in if ty_incomingUsers s1 = [] then (s1\<lparr>ty_animationStart := 0\<rparr>, False)
         else if ty_animationStart s1 = 0 then (s1\<lparr>ty_animationStart := now\<rparr>, True)
         else (s1, True))"

definition clearIncomingUsers :: "typing_state \<Rightarrow> typing_state" where
  "clearIncomingUsers s = s\<lparr>ty_incomingUsers := [], ty_animationStart := 0\<rparr>"

text \<open>The part of a Matrix id a subtitle shows: the local part of \<open>@local:server\<close>.\<close>

definition typing_name :: "qstring \<Rightarrow> qstring" where
  "typing_name name =
     (case name of
        [] \<Rightarrow> []
      | c # rest \<Rightarrow> if c = CHR ''@'' then takeWhile (\<lambda>x. x \<noteq> CHR '':'') rest else name)"

text \<open>Which of the translated texts is shown, and its arguments; the texts themselves belong to
  the translation catalogue.\<close>

datatype typing_subtitle =
  NoSubtitle | TypingDirect | OneTyping qstring | TwoTyping qstring qstring | ManyTyping nat

definition subtitleText :: "typing_state \<Rightarrow> bool \<Rightarrow> typing_subtitle" where
  "subtitleText s directChat =
     (case ty_incomingUsers s of
        [] \<Rightarrow> NoSubtitle
      | [user] \<Rightarrow> if directChat then TypingDirect else OneTyping (typing_name user)
      | [first, second] \<Rightarrow> TwoTyping (typing_name first) (typing_name second)
      | users \<Rightarrow> ManyTyping (length users))"

lemma typing_animation_steady:
  "now \<noteq> 0 \<Longrightarrow> users \<noteq> [] \<Longrightarrow> users' \<noteq> [] \<Longrightarrow>
   ty_animationStart (fst (setIncomingUsers (fst (setIncomingUsers s users now)) users' now'))
     = ty_animationStart (fst (setIncomingUsers s users now))"
  by (simp add: setIncomingUsers_def Let_def)

subsection \<open>Audio playback\<close>

record audio_playback_state =
  au_eventId :: qstring
  au_mediaUrl :: qstring
  au_positionMs :: int
  au_durationMs :: int
  au_paused :: bool
  au_memoryPlaybackActive :: bool

definition initial_audio_state :: audio_playback_state where
  "initial_audio_state = \<lparr> au_eventId = [], au_mediaUrl = [], au_positionMs = 0,
     au_durationMs = 0, au_paused = False, au_memoryPlaybackActive = False \<rparr>"

definition startFile :: "audio_playback_state \<Rightarrow> qstring \<Rightarrow> int \<Rightarrow> audio_playback_state" where
  "startFile s event knownDurationMs = s\<lparr>au_eventId := event, au_mediaUrl := [],
     au_positionMs := 0, au_durationMs := max 0 knownDurationMs, au_paused := False,
     au_memoryPlaybackActive := False\<rparr>"

definition startMemory ::
  "audio_playback_state \<Rightarrow> qstring \<Rightarrow> qstring \<Rightarrow> int \<Rightarrow> audio_playback_state" where
  "startMemory s event url knownDurationMs = s\<lparr>au_eventId := event, au_mediaUrl := url,
     au_positionMs := 0, au_durationMs := max 0 knownDurationMs, au_paused := False,
     au_memoryPlaybackActive := True\<rparr>"

definition audio_stop :: "audio_playback_state \<Rightarrow> audio_playback_state" where
  "audio_stop s = s\<lparr>au_eventId := [], au_mediaUrl := [], au_positionMs := 0, au_durationMs := 0,
     au_paused := False, au_memoryPlaybackActive := False\<rparr>"

definition audio_pause :: "audio_playback_state \<Rightarrow> audio_playback_state" where
  "audio_pause s = s\<lparr>au_paused := True\<rparr>"

definition audio_resume :: "audio_playback_state \<Rightarrow> audio_playback_state" where
  "audio_resume s = s\<lparr>au_paused := False\<rparr>"

definition setPosition :: "audio_playback_state \<Rightarrow> int \<Rightarrow> audio_playback_state" where
  "setPosition s positionMs = s\<lparr>au_positionMs := max 0 positionMs\<rparr>"

definition setDuration :: "audio_playback_state \<Rightarrow> int \<Rightarrow> audio_playback_state" where
  "setDuration s durationMs = s\<lparr>au_durationMs := max 0 durationMs\<rparr>"

datatype audio_op =
  AudioStartFile qstring int | AudioStartMemory qstring qstring int | AudioStop | AudioPause
| AudioResume | AudioPosition int | AudioDuration int

fun audio_apply :: "audio_playback_state \<Rightarrow> audio_op \<Rightarrow> audio_playback_state" where
  "audio_apply s (AudioStartFile e d) = startFile s e d"
| "audio_apply s (AudioStartMemory e u d) = startMemory s e u d"
| "audio_apply s AudioStop = audio_stop s"
| "audio_apply s AudioPause = audio_pause s"
| "audio_apply s AudioResume = audio_resume s"
| "audio_apply s (AudioPosition p) = setPosition s p"
| "audio_apply s (AudioDuration d) = setDuration s d"

definition audio_inv :: "audio_playback_state \<Rightarrow> bool" where
  "audio_inv s \<longleftrightarrow> 0 \<le> au_positionMs s \<and> 0 \<le> au_durationMs s
     \<and> (au_mediaUrl s \<noteq> [] \<longrightarrow> au_memoryPlaybackActive s)"

lemma audio_apply_inv: "audio_inv s \<Longrightarrow> audio_inv (audio_apply s e)"
  by (cases e) (simp_all add: audio_inv_def startFile_def startMemory_def audio_stop_def
      audio_pause_def audio_resume_def setPosition_def setDuration_def)

interpretation audio_machine: event_machine audio_apply audio_inv
  by unfold_locales (rule audio_apply_inv)

subsection \<open>Video thumbnail probes\<close>

text \<open>\<open>cached\<close> tells whether the media cache holds an image under a key
  (\<open>MediaCache::loadImage(key).isNull()\<close> negated), which depends on the disk.  A call returns
  the probed ids and the thumbnails it requests.\<close>

definition probe_key :: "qstring \<Rightarrow> qstring" where
  "probe_key event = ''vidthumb:'' @ event"

definition queueMessage ::
  "(qstring \<Rightarrow> bool) \<Rightarrow> timeline_item list \<Rightarrow> qstring set \<Rightarrow> int
     \<Rightarrow> qstring set \<times> (qstring \<times> qstring) list" where
  "queueMessage cached messages probed messageIndex =
     (if messageIndex < 0 \<or> int (length messages) \<le> messageIndex then (probed, [])
      else (let msg = messages ! nat messageIndex; url = mediaUrl msg
            in if \<not> isVideoMessage msg \<or> mediaThumbUrl msg \<noteq> [] \<or> url = [] \<or> ti_eventId msg = []
                  \<or> ti_eventId msg \<in> probed
               then (probed, [])
               else if cached (probe_key (ti_eventId msg))
               then (insert (ti_eventId msg) probed, [])
               else (insert (ti_eventId msg) probed, [(ti_eventId msg, url)])))"

primrec queue_loop ::
  "(qstring \<Rightarrow> bool) \<Rightarrow> timeline_item list \<Rightarrow> qstring set \<Rightarrow> int list
     \<Rightarrow> qstring set \<times> (qstring \<times> qstring) list" where
  "queue_loop cached messages probed [] = (probed, [])"
| "queue_loop cached messages probed (i # is) =
     (let (probed1, reqs1) = queueMessage cached messages probed i;
          (probed2, reqs2) = queue_loop cached messages probed1 is
      in (probed2, reqs1 @ reqs2))"

definition queueResolved ::
  "(qstring \<Rightarrow> bool) \<Rightarrow> timeline_item list \<Rightarrow> qstring set \<Rightarrow> int
     \<Rightarrow> qstring set \<times> (qstring \<times> qstring) list" where
  "queueResolved cached messages probed firstIndex =
     (let start = qBound 0 firstIndex (int (length messages))
      in queue_loop cached messages probed
           (map int [nat start ..< length messages]))"

lemma queueMessage_requests:
  assumes "queueMessage cached messages probed i = (probed', reqs)"
  shows "distinct (map fst reqs)" and "fst ` set reqs \<inter> probed = {}"
    and "fst ` set reqs \<subseteq> probed'" and "probed \<subseteq> probed'"
  using assms by (auto simp: queueMessage_def Let_def split: if_splits)

lemma seen_chain:
  "A \<inter> P = {} \<Longrightarrow> A \<subseteq> P1 \<Longrightarrow> P \<subseteq> P1 \<Longrightarrow> B \<inter> P1 = {} \<Longrightarrow> B \<subseteq> P2 \<Longrightarrow> P1 \<subseteq> P2 \<Longrightarrow>
   A \<inter> B = {} \<and> B \<inter> P = {} \<and> A \<union> B \<subseteq> P2 \<and> P \<subseteq> P2"
  by blast

lemma queue_loop_requests:
  assumes "queue_loop cached messages probed is = (probed', reqs)"
  shows "distinct (map fst reqs) \<and> fst ` set reqs \<inter> probed = {}
    \<and> fst ` set reqs \<subseteq> probed' \<and> probed \<subseteq> probed'"
  using assms
proof (induction "is" arbitrary: probed probed' reqs)
  case Nil
  then show ?case by simp
next
  case (Cons i "is")
  obtain p1 r1 where q: "queueMessage cached messages probed i = (p1, r1)" by fastforce
  obtain p2 r2 where l: "queue_loop cached messages p1 is = (p2, r2)" by fastforce
  from Cons.prems q l have res: "probed' = p2" "reqs = r1 @ r2" by simp_all
  from Cons.IH [OF l] have rest: "distinct (map fst r2)" "fst ` set r2 \<inter> p1 = {}"
      "fst ` set r2 \<subseteq> p2" "p1 \<subseteq> p2" by simp_all
  note first = queueMessage_requests [OF q]
  from seen_chain [OF first(2-4) rest(2-4)] first(1) rest(1) show ?case
    by (simp add: res image_Un Int_Un_distrib2 first(2))
qed

text \<open>Calls of one session, with the message vector and cache of each moment.\<close>

primrec probe_run ::
  "qstring set \<Rightarrow> ((qstring \<Rightarrow> bool) \<times> timeline_item list \<times> int) list
     \<Rightarrow> (qstring \<times> qstring) list" where
  "probe_run probed [] = []"
| "probe_run probed (c # cs) =
     (case c of (cached, messages, firstIndex) \<Rightarrow>
        (let (probed1, reqs) = queueResolved cached messages probed firstIndex
         in reqs @ probe_run probed1 cs))"

lemma probe_run_requests:
  "distinct (map fst (probe_run probed cs)) \<and> fst ` set (probe_run probed cs) \<inter> probed = {}"
proof (induction cs arbitrary: probed)
  case Nil
  then show ?case by simp
next
  case (Cons c cs)
  obtain cached messages i where c: "c = (cached, messages, i)" by (cases c)
  obtain p r where q: "queueResolved cached messages probed i = (p, r)" by fastforce
  then have "distinct (map fst r)" "fst ` set r \<inter> probed = {}" "fst ` set r \<subseteq> p" "probed \<subseteq> p"
    using queue_loop_requests [of cached messages probed _ p r]
    by (auto simp: queueResolved_def Let_def)
  moreover from this Cons.IH [of p]
  have "fst ` set r \<inter> fst ` set (probe_run p cs) = {}" and "fst ` set (probe_run p cs) \<inter> probed = {}"
    by blast+
  ultimately show ?case using Cons.IH [of p] by (simp add: c q image_Un Int_Un_distrib2)
qed

text \<open>However often the timeline is rescanned, as messages come and go and the cache
  fills, a video's thumbnail is requested at most once per session.\<close>

theorem thumbnails_requested_once:
  "distinct (map fst (probe_run {} cs))"
  using probe_run_requests [of "{}" cs] by simp

end
