(* ===== verification/Drafts.thy ===== *)
theory Drafts imports TM_Prelude begin

section \<open>The draft store\<close>

text \<open>
  \<^verbatim>\<open>src/src/history/history_draft_state.h\<close> and \<^verbatim>\<open>.cpp\<close>: one unsent message per room.  Two
  pieces of Qt are parameters: \<open>isSpace\<close> (\<open>QChar::isSpace\<close>) and \<open>plainOf\<close>
  (\<open>QTextDocument::setHtml\<close> followed by \<open>toPlainText\<close>).  \<open>QString::trimmed\<close> and
  \<open>QString::simplified\<close> are written out over \<open>isSpace\<close>.  Shown: the allocation-free path
  taken on every key stroke decides exactly as the full one.
\<close>

text \<open>What the input field tells the store.\<close>

record draft_input =
  in_replyMode :: bool
  in_replyEventId :: qstring
  in_replySenderName :: qstring
  in_replyPreviewText :: qstring
  in_replyPreviewPath :: qstring
  in_editMode :: bool
  in_editEventId :: qstring
  in_editSenderName :: qstring
  in_editPreviewText :: qstring
  in_fieldText :: qstring
  in_fieldHtml :: qstring

record history_draft =
  dr_text :: qstring
  dr_html :: qstring
  dr_replyMode :: bool
  dr_replyEventId :: qstring
  dr_replySenderName :: qstring
  dr_replyPreviewText :: qstring
  dr_replyPreviewPath :: qstring
  dr_editMode :: bool
  dr_editEventId :: qstring
  dr_editSenderName :: qstring
  dr_editPreviewText :: qstring

definition default_history_draft :: history_draft where
  "default_history_draft = \<lparr> dr_text = [], dr_html = [], dr_replyMode = False,
     dr_replyEventId = [], dr_replySenderName = [], dr_replyPreviewText = [],
     dr_replyPreviewPath = [], dr_editMode = False, dr_editEventId = [],
     dr_editSenderName = [], dr_editPreviewText = [] \<rparr>"

type_synonym draft_store = "(qstring, history_draft) qhash"

subsection \<open>\<open>trimmed\<close> and \<open>simplified\<close>\<close>

definition trimmed :: "(char \<Rightarrow> bool) \<Rightarrow> qstring \<Rightarrow> qstring" where
  "trimmed isSpace text = rev (dropWhile isSpace (rev (dropWhile isSpace text)))"

fun split_spaces :: "(char \<Rightarrow> bool) \<Rightarrow> qstring \<Rightarrow> qstring list" where
  "split_spaces isSpace [] = [[]]"
| "split_spaces isSpace (c # cs) =
     (if isSpace c then [] # split_spaces isSpace cs
      else case split_spaces isSpace cs of
             [] \<Rightarrow> [[c]]
           | w # ws \<Rightarrow> (c # w) # ws)"

fun join_with :: "qstring \<Rightarrow> qstring list \<Rightarrow> qstring" where
  "join_with sep [] = []"
| "join_with sep [w] = w"
| "join_with sep (w # v # ws) = w @ sep @ join_with sep (v # ws)"

definition simplified :: "(char \<Rightarrow> bool) \<Rightarrow> qstring \<Rightarrow> qstring" where
  "simplified isSpace text = join_with '' '' (filter (\<lambda>w. w \<noteq> []) (split_spaces isSpace text))"

subsection \<open>The store\<close>

definition captureMeta :: "draft_input \<Rightarrow> history_draft \<Rightarrow> history_draft" where
  "captureMeta input draft = draft\<lparr>
     dr_replyMode := in_replyMode input, dr_replyEventId := in_replyEventId input,
     dr_replySenderName := in_replySenderName input,
     dr_replyPreviewText := in_replyPreviewText input,
     dr_replyPreviewPath := in_replyPreviewPath input, dr_editMode := in_editMode input,
     dr_editEventId := in_editEventId input, dr_editSenderName := in_editSenderName input,
     dr_editPreviewText := in_editPreviewText input\<rparr>"

definition draft_capture :: "draft_input \<Rightarrow> history_draft" where
  "draft_capture input =
     (captureMeta input default_history_draft)
       \<lparr>dr_text := in_fieldText input, dr_html := in_fieldHtml input\<rparr>"

definition captureText :: "draft_input \<Rightarrow> qstring \<Rightarrow> history_draft" where
  "captureText input text = (captureMeta input default_history_draft)\<lparr>dr_text := text\<rparr>"

definition draft_preview ::
  "(char \<Rightarrow> bool) \<Rightarrow> (qstring \<Rightarrow> qstring) \<Rightarrow> history_draft \<Rightarrow> qstring" where
  "draft_preview isSpace plainOf draft =
     (let result = dr_text draft
      in simplified isSpace
           (if trimmed isSpace result = [] \<and> trimmed isSpace (dr_html draft) \<noteq> []
            then plainOf (dr_html draft) else result))"

definition hasVisibleContent :: "(char \<Rightarrow> bool) \<Rightarrow> qstring \<Rightarrow> bool" where
  "hasVisibleContent isSpace text = list_ex (\<lambda>c. \<not> isSpace c) text"

definition draft_update ::
  "(char \<Rightarrow> bool) \<Rightarrow> (qstring \<Rightarrow> qstring) \<Rightarrow> draft_store \<Rightarrow> qstring \<Rightarrow> history_draft
     \<Rightarrow> draft_store \<times> qstring" where
  "draft_update isSpace plainOf s room draft =
     (if room = [] then (s, [])
      else (let result = draft_preview isSpace plainOf draft
            in if result \<noteq> [] \<or> dr_replyMode draft
               then (hash_insert room draft s, result)
               else (hash_remove room s, [])))"

definition updateFromInput ::
  "(char \<Rightarrow> bool) \<Rightarrow> (qstring \<Rightarrow> qstring) \<Rightarrow> draft_store \<Rightarrow> qstring \<Rightarrow> draft_input
     \<Rightarrow> draft_store \<times> qstring" where
  "updateFromInput isSpace plainOf s room input =
     draft_update isSpace plainOf s room (draft_capture input)"

definition updateTextOnly ::
  "(char \<Rightarrow> bool) \<Rightarrow> draft_store \<Rightarrow> qstring \<Rightarrow> draft_input \<Rightarrow> qstring \<Rightarrow> draft_store" where
  "updateTextOnly isSpace s room input text =
     (if room = [] then s
      else (let draft = captureText input text
            in if hasVisibleContent isSpace text \<or> dr_replyMode draft
               then hash_insert room draft s else hash_remove room s))"

definition draft_remove :: "draft_store \<Rightarrow> qstring \<Rightarrow> draft_store" where
  "draft_remove s room = hash_remove room s"

definition draft_value :: "draft_store \<Rightarrow> qstring \<Rightarrow> history_draft" where
  "draft_value s room = hash_value default_history_draft room s"

subsection \<open>Correctness\<close>

lemma split_spaces_ne: "split_spaces isSpace cs \<noteq> []"
  by (cases cs) (auto split: list.split)

lemma split_spaces_blank:
  "(\<forall>w \<in> set (split_spaces isSpace cs). w = []) \<longleftrightarrow> (\<forall>c \<in> set cs. isSpace c)"
proof (induction cs)
  case (Cons c cs)
  then show ?case
    using split_spaces_ne [of isSpace cs] by (auto split: list.split)
qed simp

lemma join_with_empty: "[] \<notin> set ws \<Longrightarrow> join_with sep ws = [] \<longleftrightarrow> ws = []"
  by (cases "(sep, ws)" rule: join_with.cases) auto

lemma simplified_empty: "simplified isSpace text = [] \<longleftrightarrow> \<not> hasVisibleContent isSpace text"
  using split_spaces_blank [of isSpace "text"]
  by (auto simp: simplified_def join_with_empty hasVisibleContent_def list_ex_iff filter_empty_conv)

lemma all_dropWhile: "(\<forall>c \<in> set (dropWhile P xs). P c) \<longleftrightarrow> (\<forall>c \<in> set xs. P c)"
  by (induction xs) auto

lemma trimmed_empty: "trimmed isSpace text = [] \<longleftrightarrow> \<not> hasVisibleContent isSpace text"
  by (simp add: trimmed_def dropWhile_eq_Nil_conv [of isSpace "rev xs" for xs] all_dropWhile
      hasVisibleContent_def list_ex_iff)

lemma capture_fields [simp]:
  "dr_text (captureText input text) = text" "dr_html (captureText input text) = []"
  "dr_replyMode (captureText input text) = in_replyMode input"
  by (simp_all add: captureText_def captureMeta_def default_history_draft_def)

text \<open>The per-keystroke path keeps a draft exactly when the full path would: for a draft
  captured as plain text, \<open>updateTextOnly\<close> leaves the store as \<open>update\<close> does, whatever
  counts as white space and however HTML is rendered, though it never builds the preview.\<close>

theorem updateTextOnly_agrees:
  "updateTextOnly isSpace s room input text =
     fst (draft_update isSpace plainOf s room (captureText input text))"
  by (simp add: updateTextOnly_def draft_update_def draft_preview_def Let_def simplified_empty
      trimmed_def)

text \<open>A draft is kept exactly when there is something to come back to: after \<open>update\<close> the
  room has the draft if its preview is not empty or it is a reply, and none otherwise; drafts
  of other rooms are untouched.\<close>

theorem draft_update_value:
  "draft_value (fst (draft_update isSpace plainOf s room draft)) other =
     (if room \<noteq> [] \<and> other = room
      then (if hasVisibleContent isSpace
                 (if \<not> hasVisibleContent isSpace (dr_text draft)
                     \<and> hasVisibleContent isSpace (dr_html draft)
                  then plainOf (dr_html draft) else dr_text draft)
               \<or> dr_replyMode draft
            then draft else default_history_draft)
      else draft_value s other)"
  by (simp add: draft_value_def draft_update_def draft_preview_def Let_def simplified_empty
      trimmed_empty)

end
