(* ===== verification/Json_Values.thy ===== *)
theory Json_Values imports TM_Prelude Complex_Main begin

section \<open>JSON values\<close>

text \<open>
  The part of Qt's JSON classes the settings use.  A \<open>QJsonObject\<close> is a hash from keys to
  values; looking up an absent key gives the undefined value, which the conversions treat as
  they treat null.  A number is a double: its exact value is a rational, and \<open>toInt\<close> accepts
  it when it is whole and fits a 32-bit \<open>int\<close>.
\<close>

datatype json =
  JNull
| JBool bool
| JNum rat
| JStr qstring
| JArr "json list"
| JObj "(qstring \<times> json) list"

type_synonym json_object = "(qstring \<times> json) list"

definition json_value :: "json_object \<Rightarrow> qstring \<Rightarrow> json" where
  "json_value object key = hash_value JNull key object"

definition json_contains :: "json_object \<Rightarrow> qstring \<Rightarrow> bool" where
  "json_contains object key = hash_contains key object"

fun toObject :: "json \<Rightarrow> json_object" where
  "toObject (JObj object) = object"
| "toObject _ = []"

fun toArray :: "json \<Rightarrow> json list" where
  "toArray (JArr values) = values"
| "toArray _ = []"

fun toString :: "json \<Rightarrow> qstring \<Rightarrow> qstring" where
  "toString (JStr text) d = text"
| "toString _ d = d"

fun toBool :: "json \<Rightarrow> bool \<Rightarrow> bool" where
  "toBool (JBool b) d = b"
| "toBool _ d = d"

definition in_int32 :: "int \<Rightarrow> bool" where
  "in_int32 i \<longleftrightarrow> - (2 ^ 31) \<le> i \<and> i < 2 ^ 31"

fun toInt :: "json \<Rightarrow> int \<Rightarrow> int" where
  "toInt (JNum r) d = (if of_int \<lfloor>r\<rfloor> = r \<and> in_int32 \<lfloor>r\<rfloor> then \<lfloor>r\<rfloor> else d)"
| "toInt _ d = d"

text \<open>A C++ \<open>int\<close> put into a JSON value.\<close>

definition json_int :: "int \<Rightarrow> json" where
  "json_int i = JNum (of_int i)"

lemma toInt_json_int [simp]: "in_int32 i \<Longrightarrow> toInt (json_int i) d = i"
  by (simp add: json_int_def)

lemma toInt_range: "in_int32 d \<Longrightarrow> in_int32 (toInt v d)"
  by (cases v) simp_all

lemma json_value_Cons [simp]:
  "json_value ((k, v) # object) key = (if k = key then v else json_value object key)"
  "json_value [] key = JNull"
  by (simp_all add: json_value_def hash_value_def)

lemma json_contains_Cons [simp]:
  "json_contains ((k, v) # object) key \<longleftrightarrow> k = key \<or> json_contains object key"
  "\<not> json_contains [] key"
  by (auto simp: json_contains_def hash_contains_def)

end
