(* ===== verification/Recents.thy ===== *)
theory Recents imports TM_Prelude "HOL-Library.Multiset" begin

unbundle bit_operations_syntax

section \<open>Recent emoji and reactions\<close>

text \<open>
  The parts of \<^verbatim>\<open>src/src/core/core_settings.cpp\<close> that keep an account's recently used emoji and
  reactions, and the emoji keys of old clients they are seeded from.  Strings whose code units
  matter are lists of 16-bit words (UTF-16, as \<open>QString\<close> stores them); \<open>QString::fromUtf8\<close> is
  written out.  A \<open>uint16_t\<close> rating is an \<open>int\<close>, its casts are \<open>mod 65536\<close>.
\<close>

subsection \<open>Strings as code units\<close>

type_synonym utf16 = "16 word list"

text \<open>One code point as UTF-16.\<close>

definition utf16_units :: "nat \<Rightarrow> utf16" where
  "utf16_units cp =
     (if cp < 65536 then [of_nat cp]
      else [of_nat (55296 + (cp - 65536) div 1024), of_nat (56320 + (cp - 65536) mod 1024)])"

text \<open>Well-formed UTF-8, as in the string literals of the source; a byte that does not start a
  sequence ends the decoding.\<close>

fun fromUtf8 :: "8 word list \<Rightarrow> utf16" where
  "fromUtf8 [] = []"
| "fromUtf8 (a # bs) =
     (if a < 0x80 then utf16_units (unat a) @ fromUtf8 bs
      else case bs of
        [] \<Rightarrow> []
      | b # cs \<Rightarrow>
          (if a < 0xE0 then utf16_units (unat (a AND 0x1F) * 64 + unat (b AND 0x3F)) @ fromUtf8 cs
           else case cs of
             [] \<Rightarrow> []
           | c # ds \<Rightarrow>
               (if a < 0xF0
                then utf16_units (unat (a AND 0x0F) * 4096 + unat (b AND 0x3F) * 64
                       + unat (c AND 0x3F)) @ fromUtf8 ds
                else case ds of
                  [] \<Rightarrow> []
                | d # es \<Rightarrow>
                    utf16_units (unat (a AND 0x07) * 262144 + unat (b AND 0x3F) * 4096
                      + unat (c AND 0x3F) * 64 + unat (d AND 0x3F)) @ fromUtf8 es)))"

subsection \<open>Emoji keys\<close>

definition NormalizeEmojiPresentation :: "utf16 \<Rightarrow> utf16" where
  "NormalizeEmojiPresentation emoji =
     (if emoji = fromUtf8 [0xE2, 0x9D, 0xA4]
      then fromUtf8 [0xE2, 0x9D, 0xA4, 0xEF, 0xB8, 0x8F]
      else if emoji = fromUtf8 [0xE2, 0x98, 0xBA]
      then fromUtf8 [0xE2, 0x98, 0xBA, 0xEF, 0xB8, 0x8F]
      else emoji)"

definition addCode :: "utf16 \<Rightarrow> 32 word \<Rightarrow> utf16" where
  "addCode result value =
     (let high = drop_bit 16 value;
          result1 = (if high \<noteq> 0 then result @ [ucast (high AND 0xFFFF)] else result)
      in result1 @ [ucast (value AND 0xFFFF)])"

text \<open>The literals of the \<open>switch\<close>, by case number.\<close>

definition old_emoji_table :: "8 word list list" where
  "old_emoji_table = [
    [0xF0, 0x9F, 0x91, 0xA8, 0xE2, 0x80, 0x8D, 0xF0, 0x9F, 0x91, 0xA9, 0xE2, 0x80,
       0x8D, 0xF0, 0x9F, 0x91, 0xA7],
    [0xF0, 0x9F, 0x91, 0xA8, 0xE2, 0x80, 0x8D, 0xF0, 0x9F, 0x91, 0xA9, 0xE2, 0x80,
       0x8D, 0xF0, 0x9F, 0x91, 0xA7, 0xE2, 0x80, 0x8D, 0xF0, 0x9F, 0x91, 0xA6],
    [0xF0, 0x9F, 0x91, 0xA8, 0xE2, 0x80, 0x8D, 0xF0, 0x9F, 0x91, 0xA9, 0xE2, 0x80,
       0x8D, 0xF0, 0x9F, 0x91, 0xA6, 0xE2, 0x80, 0x8D, 0xF0, 0x9F, 0x91, 0xA6],
    [0xF0, 0x9F, 0x91, 0xA8, 0xE2, 0x80, 0x8D, 0xF0, 0x9F, 0x91, 0xA9, 0xE2, 0x80,
       0x8D, 0xF0, 0x9F, 0x91, 0xA7, 0xE2, 0x80, 0x8D, 0xF0, 0x9F, 0x91, 0xA7],
    [0xF0, 0x9F, 0x91, 0xA9, 0xE2, 0x80, 0x8D, 0xF0, 0x9F, 0x91, 0xA9, 0xE2, 0x80,
       0x8D, 0xF0, 0x9F, 0x91, 0xA6],
    [0xF0, 0x9F, 0x91, 0xA9, 0xE2, 0x80, 0x8D, 0xF0, 0x9F, 0x91, 0xA9, 0xE2, 0x80,
       0x8D, 0xF0, 0x9F, 0x91, 0xA7],
    [0xF0, 0x9F, 0x91, 0xA9, 0xE2, 0x80, 0x8D, 0xF0, 0x9F, 0x91, 0xA9, 0xE2, 0x80,
       0x8D, 0xF0, 0x9F, 0x91, 0xA7, 0xE2, 0x80, 0x8D, 0xF0, 0x9F, 0x91, 0xA6],
    [0xF0, 0x9F, 0x91, 0xA9, 0xE2, 0x80, 0x8D, 0xF0, 0x9F, 0x91, 0xA9, 0xE2, 0x80,
       0x8D, 0xF0, 0x9F, 0x91, 0xA6, 0xE2, 0x80, 0x8D, 0xF0, 0x9F, 0x91, 0xA6],
    [0xF0, 0x9F, 0x91, 0xA9, 0xE2, 0x80, 0x8D, 0xF0, 0x9F, 0x91, 0xA9, 0xE2, 0x80,
       0x8D, 0xF0, 0x9F, 0x91, 0xA7, 0xE2, 0x80, 0x8D, 0xF0, 0x9F, 0x91, 0xA7],
    [0xF0, 0x9F, 0x91, 0xA8, 0xE2, 0x80, 0x8D, 0xF0, 0x9F, 0x91, 0xA8, 0xE2, 0x80,
       0x8D, 0xF0, 0x9F, 0x91, 0xA6],
    [0xF0, 0x9F, 0x91, 0xA8, 0xE2, 0x80, 0x8D, 0xF0, 0x9F, 0x91, 0xA8, 0xE2, 0x80,
       0x8D, 0xF0, 0x9F, 0x91, 0xA7],
    [0xF0, 0x9F, 0x91, 0xA8, 0xE2, 0x80, 0x8D, 0xF0, 0x9F, 0x91, 0xA8, 0xE2, 0x80,
       0x8D, 0xF0, 0x9F, 0x91, 0xA7, 0xE2, 0x80, 0x8D, 0xF0, 0x9F, 0x91, 0xA6],
    [0xF0, 0x9F, 0x91, 0xA8, 0xE2, 0x80, 0x8D, 0xF0, 0x9F, 0x91, 0xA8, 0xE2, 0x80,
       0x8D, 0xF0, 0x9F, 0x91, 0xA6, 0xE2, 0x80, 0x8D, 0xF0, 0x9F, 0x91, 0xA6],
    [0xF0, 0x9F, 0x91, 0xA8, 0xE2, 0x80, 0x8D, 0xF0, 0x9F, 0x91, 0xA8, 0xE2, 0x80,
       0x8D, 0xF0, 0x9F, 0x91, 0xA7, 0xE2, 0x80, 0x8D, 0xF0, 0x9F, 0x91, 0xA7],
    [0xF0, 0x9F, 0x91, 0xA9, 0xE2, 0x80, 0x8D, 0xE2, 0x9D, 0xA4, 0xEF, 0xB8, 0x8F,
       0xE2, 0x80, 0x8D, 0xF0, 0x9F, 0x91, 0xA9],
    [0xF0, 0x9F, 0x91, 0xA8, 0xE2, 0x80, 0x8D, 0xE2, 0x9D, 0xA4, 0xEF, 0xB8, 0x8F,
       0xE2, 0x80, 0x8D, 0xF0, 0x9F, 0x91, 0xA8],
    [0xF0, 0x9F, 0x91, 0xA9, 0xE2, 0x80, 0x8D, 0xE2, 0x9D, 0xA4, 0xEF, 0xB8, 0x8F,
       0xE2, 0x80, 0x8D, 0xF0, 0x9F, 0x92, 0x8B, 0xE2, 0x80, 0x8D, 0xF0, 0x9F, 0x91,
       0xA9],
    [0xF0, 0x9F, 0x91, 0xA8, 0xE2, 0x80, 0x8D, 0xE2, 0x9D, 0xA4, 0xEF, 0xB8, 0x8F,
       0xE2, 0x80, 0x8D, 0xF0, 0x9F, 0x92, 0x8B, 0xE2, 0x80, 0x8D, 0xF0, 0x9F, 0x91,
       0xA8],
    [0xF0, 0x9F, 0x91, 0x81, 0xE2, 0x80, 0x8D, 0xF0, 0x9F, 0x97, 0xA8]
  ]"


definition EmojiIdFromOldKey :: "64 word \<Rightarrow> utf16" where
  "EmojiIdFromOldKey oldKey =
     (let code0 = ucast (drop_bit 32 oldKey) :: 32 word;
          code20 = ucast (oldKey AND 0xFFFFFFFF) :: 32 word;
          (code, code2) = (if code0 = 0 \<and> code20 \<noteq> 0 then (code20, 0) else (code0, code20))
      in if code AND 0xFFFF0000 \<noteq> 0xFFFF0000
         then (let result = addCode [] code
               in NormalizeEmojiPresentation
                    (if code2 \<noteq> 0 then addCode result code2 else result))
         else (let i = unat (code AND 0xFFFF)
               in if i < length old_emoji_table then fromUtf8 (old_emoji_table ! i) else []))"

subsection \<open>The lists\<close>

record recent_emoji =
  re_emoji :: utf16
  re_rating :: int

record recent_reaction =
  rc_key :: qstring
  rc_rating :: int

definition kRecentEmojiLimit :: nat where
  "kRecentEmojiLimit = 54"

definition kRecentReactionLimit :: nat where
  "kRecentReactionLimit = 24"

definition kDefaultRecent :: "64 word list" where
  "kDefaultRecent = [
     0xD83DDE02, 0xD83DDE18, 0x2764, 0xD83DDE0D, 0xD83DDE0A, 0xD83DDE01,
     0xD83DDC4D, 0x263A, 0xD83DDE14, 0xD83DDE04, 0xD83DDE2D, 0xD83DDC8B,
     0xD83DDE12, 0xD83DDE33, 0xD83DDE1C, 0xD83DDE48, 0xD83DDE09, 0xD83DDE03,
     0xD83DDE22, 0xD83DDE1D, 0xD83DDE31, 0xD83DDE21, 0xD83DDE0F, 0xD83DDE1E,
     0xD83DDE05, 0xD83DDE1A, 0xD83DDE4A, 0xD83DDE0C, 0xD83DDE00, 0xD83DDE0B,
     0xD83DDE06, 0xD83DDC4C, 0xD83DDE10, 0xD83DDE15
  ]"

definition DefaultRecentEmoji :: "recent_emoji list" where
  "DefaultRecentEmoji =
     concat (map (\<lambda>key. let emoji = NormalizeEmojiPresentation (EmojiIdFromOldKey key)
                         in if emoji \<noteq> [] then [\<lparr>re_emoji = emoji, re_rating = 1\<rparr>] else [])
                 kDefaultRecent)"

definition to_uint16 :: "int \<Rightarrow> int" where
  "to_uint16 i = i mod 65536"

text \<open>The loop that finds the picked emoji, drops it and takes over its count.\<close>

fun take_rating :: "utf16 \<Rightarrow> recent_emoji list \<Rightarrow> int \<times> recent_emoji list" where
  "take_rating emoji [] = (1, [])"
| "take_rating emoji (it # rest) =
     (if re_emoji it = emoji then (to_uint16 (min (re_rating it + 1) 0xFFFF), rest)
      else (let (rating, rest') = take_rating emoji rest in (rating, it # rest')))"

definition incrementRecentEmoji :: "recent_emoji list \<Rightarrow> utf16 \<Rightarrow> recent_emoji list" where
  "incrementRecentEmoji recents emoji =
     (let normalized = NormalizeEmojiPresentation emoji
      in if normalized = [] then recents
         else (let (rating, rest) = take_rating normalized recents;
                   new_list = \<lparr>re_emoji = normalized, re_rating = rating\<rparr> # rest
               in if kRecentEmojiLimit < length new_list then take kRecentEmojiLimit new_list
                  else new_list))"

fun bump_reaction :: "qstring \<Rightarrow> recent_reaction list \<Rightarrow> recent_reaction list option" where
  "bump_reaction key [] = None"
| "bump_reaction key (item # rest) =
     (if rc_key item = key
      then Some (item\<lparr>rc_rating := to_uint16 (max (min (rc_rating item + 1) 0xFFFF) 1)\<rparr> # rest)
      else map_option (\<lambda>rest'. item # rest') (bump_reaction key rest))"

definition rebalance :: "recent_reaction list \<Rightarrow> recent_reaction list" where
  "rebalance items =
     (let maxRating = foldl (\<lambda>m item. max m (rc_rating item)) 0 items
      in if 0x8000 < maxRating
         then map (\<lambda>item. item\<lparr>rc_rating := max 1 (rc_rating item div 2)\<rparr>) items
         else items)"

definition incrementRecentReaction :: "recent_reaction list \<Rightarrow> qstring \<Rightarrow> recent_reaction list" where
  "incrementRecentReaction recents key =
     (if key = [] then recents
      else (let bumped = (case bump_reaction key recents of
                            Some items \<Rightarrow> items
                          | None \<Rightarrow> recents @ [\<lparr>rc_key = key, rc_rating = 1\<rparr>]);
                sorted_items = sort_key (\<lambda>item. - rc_rating item) (rebalance bumped)
            in if kRecentReactionLimit < length sorted_items
               then take kRecentReactionLimit sorted_items else sorted_items))"

subsection \<open>Emoji\<close>

lemma normalize_idem [simp]:
  "NormalizeEmojiPresentation (NormalizeEmojiPresentation e) = NormalizeEmojiPresentation e"
  by (simp add: NormalizeEmojiPresentation_def utf16_units_def)

lemma normalize_Nil [simp]: "NormalizeEmojiPresentation e = [] \<longleftrightarrow> e = []"
  by (simp add: NormalizeEmojiPresentation_def utf16_units_def)

lemma take_rating_rest:
  "distinct (map re_emoji xs) \<Longrightarrow> snd (take_rating e xs) = filter (\<lambda>x. re_emoji x \<noteq> e) xs"
proof (induction xs)
  case (Cons x xs)
  show ?case
  proof (cases "re_emoji x = e")
    case True
    then have "\<forall>y \<in> set xs. re_emoji y \<noteq> e" using Cons.prems by (auto simp: image_iff)
    with True show ?thesis by (simp add: filter_id_conv)
  next
    case False
    with Cons show ?thesis by (simp add: case_prod_beta)
  qed
qed simp

definition emoji_inv :: "recent_emoji list \<Rightarrow> bool" where
  "emoji_inv xs \<longleftrightarrow> distinct (map re_emoji xs) \<and> length xs \<le> kRecentEmojiLimit
     \<and> (\<forall>x \<in> set xs. re_emoji x \<noteq> [] \<and> NormalizeEmojiPresentation (re_emoji x) = re_emoji x)"

lemma increment_emoji_list:
  assumes "distinct (map re_emoji xs)" "e \<noteq> []"
  shows "map re_emoji (incrementRecentEmoji xs e) =
     take kRecentEmojiLimit (NormalizeEmojiPresentation e
       # filter (\<lambda>x. x \<noteq> NormalizeEmojiPresentation e) (map re_emoji xs))"
  using assms
  by (simp add: incrementRecentEmoji_def Let_def case_prod_beta take_rating_rest filter_map comp_def
      take_map [symmetric] kRecentEmojiLimit_def)

lemma increment_emoji_inv: "emoji_inv xs \<Longrightarrow> emoji_inv (incrementRecentEmoji xs e)"
proof (cases "e = []")
  case True
  then show "emoji_inv xs \<Longrightarrow> ?thesis" by (simp add: incrementRecentEmoji_def)
next
  case False
  assume inv: "emoji_inv xs"
  then have d: "distinct (map re_emoji xs)" by (simp add: emoji_inv_def)
  note list = increment_emoji_list [OF d False]
  have "distinct (map re_emoji (incrementRecentEmoji xs e))"
    using d by (simp add: list distinct_take)
  moreover have "length (incrementRecentEmoji xs e) \<le> kRecentEmojiLimit"
    using arg_cong [OF list, of length] by simp
  moreover have "re_emoji ` set (incrementRecentEmoji xs e)
      \<subseteq> insert (NormalizeEmojiPresentation e) (re_emoji ` set xs)"
    unfolding set_map [symmetric] list by (auto dest: in_set_takeD)
  ultimately show ?thesis
    using inv False by (fastforce simp: emoji_inv_def)
qed

interpretation recent_emoji_list: event_machine incrementRecentEmoji emoji_inv
  by unfold_locales (rule increment_emoji_inv)

lemma normalize_units:
  "NormalizeEmojiPresentation e =
     (if e = [0x2764] then [0x2764, 0xFE0F] else if e = [0x263A] then [0x263A, 0xFE0F] else e)"
  by (simp add: NormalizeEmojiPresentation_def utf16_units_def)

lemma default_emoji_ids:
  "map re_emoji DefaultRecentEmoji =
     [[0xD83D, 0xDE02], [0xD83D, 0xDE18], [0x2764, 0xFE0F], [0xD83D, 0xDE0D], [0xD83D, 0xDE0A],
      [0xD83D, 0xDE01], [0xD83D, 0xDC4D], [0x263A, 0xFE0F], [0xD83D, 0xDE14], [0xD83D, 0xDE04],
      [0xD83D, 0xDE2D], [0xD83D, 0xDC8B], [0xD83D, 0xDE12], [0xD83D, 0xDE33], [0xD83D, 0xDE1C],
      [0xD83D, 0xDE48], [0xD83D, 0xDE09], [0xD83D, 0xDE03], [0xD83D, 0xDE22], [0xD83D, 0xDE1D],
      [0xD83D, 0xDE31], [0xD83D, 0xDE21], [0xD83D, 0xDE0F], [0xD83D, 0xDE1E], [0xD83D, 0xDE05],
      [0xD83D, 0xDE1A], [0xD83D, 0xDE4A], [0xD83D, 0xDE0C], [0xD83D, 0xDE00], [0xD83D, 0xDE0B],
      [0xD83D, 0xDE06], [0xD83D, 0xDC4C], [0xD83D, 0xDE10], [0xD83D, 0xDE15]]"
  by (simp add: DefaultRecentEmoji_def kDefaultRecent_def EmojiIdFromOldKey_def addCode_def Let_def
      normalize_units)

lemma emoji_inv_default: "emoji_inv DefaultRecentEmoji"
proof -
  have "distinct (map re_emoji DefaultRecentEmoji)"
    unfolding default_emoji_ids by code_simp
  moreover have "length DefaultRecentEmoji = 34"
    using arg_cong [OF default_emoji_ids, of length] by simp
  moreover have "\<forall>x \<in> set DefaultRecentEmoji.
      re_emoji x \<noteq> [] \<and> NormalizeEmojiPresentation (re_emoji x) = re_emoji x"
    by (auto simp: DefaultRecentEmoji_def Let_def split: if_splits)
  ultimately show ?thesis by (simp add: emoji_inv_def kRecentEmojiLimit_def)
qed

text \<open>The emoji row is a most-recently-used list: picking an emoji puts it (in its normal
  presentation) first, moves nothing else, never shows one twice and keeps at most 54; this
  holds from the list a new account starts with, through any picks.\<close>

theorem recent_emoji_mru:
  assumes "e \<noteq> []"
  shows "let xs = foldl incrementRecentEmoji DefaultRecentEmoji picks in
     map re_emoji (incrementRecentEmoji xs e) =
       take 54 (NormalizeEmojiPresentation e
         # filter (\<lambda>x. x \<noteq> NormalizeEmojiPresentation e) (map re_emoji xs))
   \<and> emoji_inv (incrementRecentEmoji xs e)"
proof -
  have inv: "emoji_inv (foldl incrementRecentEmoji DefaultRecentEmoji picks)"
    by (rule recent_emoji_list.run_inv) (rule emoji_inv_default)
  then have "distinct (map re_emoji (foldl incrementRecentEmoji DefaultRecentEmoji picks))"
    by (simp add: emoji_inv_def)
  from increment_emoji_list [OF this assms] increment_emoji_inv [OF inv, of e] show ?thesis
    by (simp add: Let_def kRecentEmojiLimit_def)
qed

theorem recent_emoji_mru_witness:
  "hd (map re_emoji (incrementRecentEmoji DefaultRecentEmoji [0x263A])) = [0x263A, 0xFE0F]"
  using recent_emoji_mru [of "[0x263A]" "[]"] by (simp add: Let_def normalize_units)

subsection \<open>Reactions\<close>

text \<open>What a loaded settings file guarantees, and what every use restores.\<close>

definition reactions_loaded :: "recent_reaction list \<Rightarrow> bool" where
  "reactions_loaded xs \<longleftrightarrow> (\<forall>x \<in> set xs. rc_key x \<noteq> [] \<and> 1 \<le> rc_rating x \<and> rc_rating x \<le> 0xFFFF)"

definition reactions_inv :: "recent_reaction list \<Rightarrow> bool" where
  "reactions_inv xs \<longleftrightarrow> length xs \<le> kRecentReactionLimit
     \<and> sorted_wrt (\<lambda>a b. rc_rating b \<le> rc_rating a) xs
     \<and> (\<forall>x \<in> set xs. rc_key x \<noteq> [] \<and> 1 \<le> rc_rating x \<and> rc_rating x \<le> 0x8000)"

lemma bump_None: "bump_reaction key xs = None \<longleftrightarrow> key \<notin> rc_key ` set xs"
  by (induction xs) auto

lemma bump_loaded:
  "bump_reaction key xs = Some ys \<Longrightarrow> reactions_loaded xs \<Longrightarrow>
     reactions_loaded ys \<and> map rc_key ys = map rc_key xs"
  by (induction xs arbitrary: ys)
     (auto simp: reactions_loaded_def to_uint16_def split: if_splits)

lemma foldl_max_ge:
  "m \<le> foldl (\<lambda>m item. max m (rc_rating item)) m xs
   \<and> (\<forall>x \<in> set xs. rc_rating x \<le> foldl (\<lambda>m item. max m (rc_rating item)) m xs)"
proof (induction xs arbitrary: m)
  case (Cons x xs)
  from Cons.IH [of "max m (rc_rating x)"] show ?case by auto
qed simp

lemma rebalance_ok:
  assumes "reactions_loaded xs"
  shows "\<forall>x \<in> set (rebalance xs). rc_key x \<noteq> [] \<and> 1 \<le> rc_rating x \<and> rc_rating x \<le> 0x8000"
    and "map rc_key (rebalance xs) = map rc_key xs"
proof -
  show "\<forall>x \<in> set (rebalance xs). rc_key x \<noteq> [] \<and> 1 \<le> rc_rating x \<and> rc_rating x \<le> 0x8000"
  proof (cases "0x8000 < foldl (\<lambda>m item. max m (rc_rating item)) 0 xs")
    case True
    with assms show ?thesis by (fastforce simp: rebalance_def Let_def reactions_loaded_def)
  next
    case False
    with foldl_max_ge [of 0 xs] have "\<forall>x \<in> set xs. rc_rating x \<le> 0x8000" by fastforce
    with False assms show ?thesis by (simp add: rebalance_def Let_def reactions_loaded_def)
  qed
  show "map rc_key (rebalance xs) = map rc_key xs"
    by (simp add: rebalance_def Let_def comp_def)
qed

lemma sort_desc: "sorted_wrt (\<lambda>a b. rc_rating b \<le> rc_rating a) (sort_key (\<lambda>item. - rc_rating item) xs)"
proof -
  have "sorted_wrt (\<lambda>a b. - rc_rating a \<le> - rc_rating b) (sort_key (\<lambda>item. - rc_rating item) xs)"
    using sorted_sort_key [of "\<lambda>item. - rc_rating item" xs] by (simp add: sorted_wrt_map)
  then show ?thesis by simp
qed

text \<open>The list of one use before it is cut, and its keys.\<close>

definition reaction_candidates :: "recent_reaction list \<Rightarrow> qstring \<Rightarrow> recent_reaction list" where
  "reaction_candidates xs key =
     (case bump_reaction key xs of Some items \<Rightarrow> items
      | None \<Rightarrow> xs @ [\<lparr>rc_key = key, rc_rating = 1\<rparr>])"

lemma increment_reaction_cut:
  "key \<noteq> [] \<Longrightarrow> incrementRecentReaction xs key =
     take kRecentReactionLimit
       (sort_key (\<lambda>item. - rc_rating item) (rebalance (reaction_candidates xs key)))"
  by (simp add: incrementRecentReaction_def reaction_candidates_def Let_def)

lemma candidates_loaded:
  "reactions_loaded xs \<Longrightarrow> key \<noteq> [] \<Longrightarrow> reactions_loaded (reaction_candidates xs key)"
  using bump_loaded [of key xs]
  by (cases "bump_reaction key xs") (auto simp: reaction_candidates_def reactions_loaded_def)

lemma sorted_wrt_take: "sorted_wrt P xs \<Longrightarrow> sorted_wrt P (take n xs)"
  by (metis append_take_drop_id sorted_wrt_append)

lemma increment_reaction_inv:
  assumes "reactions_loaded xs" "key \<noteq> []"
  shows "reactions_inv (incrementRecentReaction xs key)"
proof -
  note ok = rebalance_ok(1) [OF candidates_loaded [OF assms]]
  show ?thesis
    unfolding reactions_inv_def increment_reaction_cut [OF assms(2)]
    using ok by (auto simp: sorted_wrt_take sort_desc dest: in_set_takeD)
qed

text \<open>Whatever list was loaded, one use of a reaction leaves at most 24, most used first,
  every count between 1 and 0x8000 (so a count can never overflow its 16 bits), and further
  uses keep it so.\<close>

theorem reactions_bounded_and_sorted:
  assumes "reactions_loaded xs" and "keys \<noteq> []" and "[] \<notin> set keys"
  shows "reactions_inv (foldl incrementRecentReaction xs keys)"
  using assms
proof (induction keys rule: rev_induct)
  case (snoc key keys)
  have "reactions_loaded (foldl incrementRecentReaction xs keys)"
  proof (cases "keys = []")
    case False
    with snoc show ?thesis by (fastforce simp: reactions_inv_def reactions_loaded_def)
  qed (use snoc.prems in simp)
  with snoc.prems show ?case by (auto intro: increment_reaction_inv)
qed simp

theorem reactions_bounded_and_sorted_witness:
  "reactions_inv (foldl incrementRecentReaction
     [\<lparr>rc_key = ''a'', rc_rating = 0xFFFF\<rparr>, \<lparr>rc_key = ''b'', rc_rating = 3\<rparr>] [''b'', ''a''])"
  by (rule reactions_bounded_and_sorted) (simp_all add: reactions_loaded_def)

text \<open>Once 24 reactions are on record, a reaction that is not among them can never get in:
  it starts with count 1, the stable sort puts it behind the others, and the cut drops it again
  at once, so however often it is used the list stays as it is.\<close>

theorem new_reaction_never_enters_full_list:
  assumes "reactions_inv xs" and "length xs = 24" and "key \<noteq> []" and "key \<notin> rc_key ` set xs"
  shows "incrementRecentReaction xs key = xs"
proof -
  let ?new = "\<lparr>rc_key = key, rc_rating = 1\<rparr>"
  have cand: "reaction_candidates xs key = xs @ [?new]"
    using assms(4) bump_None [of key xs] by (simp add: reaction_candidates_def)
  have "foldl (\<lambda>m item. max m (rc_rating item)) 0 (xs @ [?new]) \<le> 0x8000"
  proof -
    have "foldl (\<lambda>m item. max m (rc_rating item)) m ys \<le> 0x8000"
      if "m \<le> 0x8000" "\<forall>y \<in> set ys. rc_rating y \<le> 0x8000" for m ys
      using that by (induction ys arbitrary: m) auto
    from this [of 0 "xs @ [?new]"] show ?thesis using assms(1) by (auto simp: reactions_inv_def)
  qed
  then have reb: "rebalance (xs @ [?new]) = xs @ [?new]"
    by (simp only: rebalance_def Let_def not_less [symmetric] if_False)
  have "sorted (map (\<lambda>item. - rc_rating item) (xs @ [?new]))"
    using assms(1) by (auto simp: reactions_inv_def sorted_append sorted_wrt_map)
  then have "sort_key (\<lambda>item. - rc_rating item) (xs @ [?new]) = xs @ [?new]"
    by (rule sort_key_id_if_sorted)
  with reb cand assms(2,3) show ?thesis
    by (simp add: increment_reaction_cut kRecentReactionLimit_def)
qed

definition full_reactions :: "recent_reaction list" where
  "full_reactions = map (\<lambda>i. \<lparr>rc_key = replicate (i + 1) (CHR ''x''), rc_rating = 1\<rparr>) [0 ..< 24]"

theorem new_reaction_never_enters_full_list_witness:
  "incrementRecentReaction full_reactions ''y'' = full_reactions"
proof (rule new_reaction_never_enters_full_list)
  show "reactions_inv full_reactions"
    by (auto simp: reactions_inv_def full_reactions_def kRecentReactionLimit_def sorted_wrt_map
        sorted_wrt_upt intro: sorted_wrt_mono_rel [OF _ sorted_wrt_upt])
  show "''y'' \<notin> rc_key ` set full_reactions"
    by (auto simp: full_reactions_def)
qed (simp_all add: full_reactions_def)

end
