(* ===== verification/Core_Settings.thy ===== *)
theory Core_Settings imports Json_Values Recents begin

section \<open>Settings\<close>

text \<open>
  \<^verbatim>\<open>src/src/core/core_settings.h\<close> and \<^verbatim>\<open>.cpp\<close>: the settings of one account and of the device, and
  how they are written to and read from JSON.  The getters and setters of the classes are the
  selectors and updates of the records.  A \<open>QMap\<close> is a hash (its key order shows nowhere).
  Shown: whatever the file holds, what is loaded satisfies the bounds the rest of the program
  relies on, and what is saved is what is loaded again.
\<close>

subsection \<open>Account settings\<close>

record custom_folder =
  cf_id :: int
  cf_name :: qstring

record account_settings =
  as_sessionHomeserver :: qstring
  as_sessionUserId :: qstring
  as_sessionDeviceId :: qstring
  as_sessionSecretBackend :: qstring
  as_legacySessionAccessTokenPresent :: bool
  as_pinnedRoomIds :: "qstring list"
  as_savedMessagesRoomId :: qstring
  as_customFolders :: "custom_folder list"
  as_roomFolderAssignments :: "(qstring, int list) qhash"
  as_folderOrder :: "int list"
  as_foldersServerMigrated :: bool
  as_recentEmoji :: "recent_emoji list"
  as_recentReactions :: "recent_reaction list"

definition new_account_settings :: account_settings where
  "new_account_settings = \<lparr> as_sessionHomeserver = [], as_sessionUserId = [],
     as_sessionDeviceId = [], as_sessionSecretBackend = [],
     as_legacySessionAccessTokenPresent = False, as_pinnedRoomIds = [],
     as_savedMessagesRoomId = [], as_customFolders = [], as_roomFolderAssignments = [],
     as_folderOrder = [], as_foldersServerMigrated = False,
     as_recentEmoji = DefaultRecentEmoji, as_recentReactions = [] \<rparr>"

definition hasSession :: "account_settings \<Rightarrow> bool" where
  "hasSession s \<longleftrightarrow>
     as_sessionHomeserver s \<noteq> [] \<and> as_sessionUserId s \<noteq> [] \<and> as_sessionDeviceId s \<noteq> []"

definition account_clear :: "account_settings \<Rightarrow> account_settings" where
  "account_clear s = s\<lparr> as_sessionHomeserver := [], as_sessionUserId := [],
     as_sessionDeviceId := [], as_sessionSecretBackend := [],
     as_legacySessionAccessTokenPresent := False, as_pinnedRoomIds := [],
     as_savedMessagesRoomId := [], as_customFolders := [], as_roomFolderAssignments := [],
     as_folderOrder := [], as_foldersServerMigrated := False,
     as_recentEmoji := [], as_recentReactions := [] \<rparr>"

definition folder_json :: "custom_folder \<Rightarrow> json" where
  "folder_json folder = JObj [(''id'', json_int (cf_id folder)), (''name'', JStr (cf_name folder))]"

definition reaction_json :: "recent_reaction \<Rightarrow> json" where
  "reaction_json item = JObj [(''key'', JStr (rc_key item)), (''rating'', json_int (rc_rating item))]"

definition account_toJson :: "account_settings \<Rightarrow> json_object" where
  "account_toJson s =
     [(''session'', JObj [(''homeserver'', JStr (as_sessionHomeserver s)),
                          (''userId'', JStr (as_sessionUserId s)),
                          (''deviceId'', JStr (as_sessionDeviceId s)),
                          (''secretBackend'', JStr (as_sessionSecretBackend s))]),
      (''pinnedRoomIds'', JArr (map JStr (as_pinnedRoomIds s))),
      (''savedMessagesRoomId'', JStr (as_savedMessagesRoomId s)),
      (''customFolders'', JArr (map folder_json (as_customFolders s))),
      (''roomFolderAssignments'',
         JObj (foldl (\<lambda>h p. hash_insert (fst p) (JArr (map json_int (snd p))) h) []
                 (as_roomFolderAssignments s))),
      (''folderOrder'', JArr (map json_int (as_folderOrder s))),
      (''foldersServerMigrated'', JBool (as_foldersServerMigrated s)),
      (''recentReactions'', JArr (map reaction_json (as_recentReactions s)))]"

text \<open>\<open>addFromJson\<close>, one definition per member it reads.\<close>

definition read_session :: "json_object \<Rightarrow> account_settings \<Rightarrow> account_settings" where
  "read_session object s =
     (let session = toObject (json_value object ''session'')
      in if session \<noteq> []
         then s\<lparr> as_sessionHomeserver := toString (json_value session ''homeserver'') [],
                 as_sessionUserId := toString (json_value session ''userId'') [],
                 as_sessionDeviceId := toString (json_value session ''deviceId'') [],
                 as_sessionSecretBackend := toString (json_value session ''secretBackend'') [],
                 as_legacySessionAccessTokenPresent := json_contains session ''accessToken'' \<rparr>
         else s)"

definition read_pinned :: "json_object \<Rightarrow> account_settings \<Rightarrow> account_settings" where
  "read_pinned object s =
     (if json_contains object ''pinnedRoomIds''
      then s\<lparr>as_pinnedRoomIds :=
               filter (\<lambda>i. i \<noteq> []) (map (\<lambda>v. toString v [])
                 (toArray (json_value object ''pinnedRoomIds'')))\<rparr>
      else s)"

definition read_saved :: "json_object \<Rightarrow> account_settings \<Rightarrow> account_settings" where
  "read_saved object s =
     s\<lparr>as_savedMessagesRoomId :=
         toString (json_value object ''savedMessagesRoomId'') (as_savedMessagesRoomId s)\<rparr>"

definition read_folder :: "json \<Rightarrow> custom_folder" where
  "read_folder v = (let folder = toObject v
     in \<lparr>cf_id = toInt (json_value folder ''id'') 0, cf_name = toString (json_value folder ''name'') []\<rparr>)"

definition read_folders :: "json_object \<Rightarrow> account_settings \<Rightarrow> account_settings" where
  "read_folders object s =
     (if json_contains object ''customFolders''
      then s\<lparr>as_customFolders := filter (\<lambda>f. 2 < cf_id f \<and> cf_name f \<noteq> [])
               (map read_folder (toArray (json_value object ''customFolders'')))\<rparr>
      else s)"

definition read_assignment ::
  "(qstring, int list) qhash \<Rightarrow> qstring \<times> json \<Rightarrow> (qstring, int list) qhash" where
  "read_assignment h p =
     (let ids = filter (\<lambda>i. 2 < i) (map (\<lambda>v. toInt v 0) (toArray (snd p)))
      in if fst p \<noteq> [] \<and> ids \<noteq> [] then hash_insert (fst p) ids h else h)"

definition read_assignments :: "json_object \<Rightarrow> account_settings \<Rightarrow> account_settings" where
  "read_assignments object s =
     (if json_contains object ''roomFolderAssignments''
      then s\<lparr>as_roomFolderAssignments :=
               foldl read_assignment [] (toObject (json_value object ''roomFolderAssignments''))\<rparr>
      else s)"

definition read_order :: "json_object \<Rightarrow> account_settings \<Rightarrow> account_settings" where
  "read_order object s =
     (if json_contains object ''folderOrder''
      then s\<lparr>as_folderOrder := filter (\<lambda>i. 0 < i)
               (map (\<lambda>v. toInt v 0) (toArray (json_value object ''folderOrder'')))\<rparr>
      else s)"

definition read_migrated :: "json_object \<Rightarrow> account_settings \<Rightarrow> account_settings" where
  "read_migrated object s =
     (if json_contains object ''foldersServerMigrated''
      then s\<lparr>as_foldersServerMigrated := toBool (json_value object ''foldersServerMigrated'') False\<rparr>
      else s)"

definition read_reaction :: "json \<Rightarrow> recent_reaction" where
  "read_reaction v = (let item = toObject v
     in \<lparr>rc_key = toString (json_value item ''key'') [],
         rc_rating = to_uint16 (qBound 1 (toInt (json_value item ''rating'') 1) 0xFFFF)\<rparr>)"

definition read_reactions :: "json_object \<Rightarrow> account_settings \<Rightarrow> account_settings" where
  "read_reactions object s =
     (if json_contains object ''recentReactions''
      then s\<lparr>as_recentReactions := filter (\<lambda>r. rc_key r \<noteq> [])
               (map read_reaction (toArray (json_value object ''recentReactions'')))\<rparr>
      else s)"

definition account_addFromJson :: "account_settings \<Rightarrow> json_object \<Rightarrow> account_settings \<times> bool" where
  "account_addFromJson s object =
     (if object = [] then (s, False)
      else (read_reactions object (read_migrated object (read_order object
             (read_assignments object (read_folders object (read_saved object
               (read_pinned object (read_session object s))))))), True))"

subsection \<open>What loading guarantees\<close>

definition folder_ok :: "custom_folder \<Rightarrow> bool" where
  "folder_ok f \<longleftrightarrow> 2 < cf_id f \<and> in_int32 (cf_id f) \<and> cf_name f \<noteq> []"

definition account_settings_ok :: "account_settings \<Rightarrow> bool" where
  "account_settings_ok s \<longleftrightarrow>
     [] \<notin> set (as_pinnedRoomIds s)
   \<and> (\<forall>f \<in> set (as_customFolders s). folder_ok f)
   \<and> hash_ok (as_roomFolderAssignments s)
   \<and> (\<forall>p \<in> set (as_roomFolderAssignments s). fst p \<noteq> [] \<and> snd p \<noteq> []
        \<and> (\<forall>i \<in> set (snd p). 2 < i \<and> in_int32 i))
   \<and> (\<forall>i \<in> set (as_folderOrder s). 0 < i \<and> in_int32 i)
   \<and> reactions_loaded (as_recentReactions s)"

lemmas account_readers =
  read_session_def read_pinned_def read_saved_def read_folders_def read_assignments_def
  read_order_def read_migrated_def read_reactions_def Let_def

lemma toInt_0_range [simp]: "in_int32 (toInt v 0)"
  by (rule toInt_range) (simp add: in_int32_def)

lemma read_folder_ok:
  "\<forall>f \<in> set (filter (\<lambda>f. 2 < cf_id f \<and> cf_name f \<noteq> []) (map read_folder vs)). folder_ok f"
  by (auto simp: folder_ok_def read_folder_def Let_def)

lemma read_reactions_ok:
  "reactions_loaded (filter (\<lambda>r. rc_key r \<noteq> []) (map read_reaction vs))"
proof -
  have "1 \<le> rc_rating (read_reaction v) \<and> rc_rating (read_reaction v) \<le> 0xFFFF" for v
    using qBound_range [of 1 "0xFFFF" "toInt (json_value (toObject v) ''rating'') 1"]
    by (simp add: read_reaction_def Let_def to_uint16_def)
  then show ?thesis by (auto simp: reactions_loaded_def)
qed

definition assignments_ok :: "(qstring, int list) qhash \<Rightarrow> bool" where
  "assignments_ok h \<longleftrightarrow> hash_ok h
   \<and> (\<forall>p \<in> set h. fst p \<noteq> [] \<and> snd p \<noteq> [] \<and> (\<forall>i \<in> set (snd p). 2 < i \<and> in_int32 i))"

lemma read_assignment_ok: "assignments_ok h \<Longrightarrow> assignments_ok (read_assignment h p)"
  by (auto simp: assignments_ok_def read_assignment_def Let_def set_hash_insert)

lemma read_assignments_ok: "assignments_ok (foldl read_assignment [] ps)"
  by (rule foldl_keeps [where P = assignments_ok])
     (auto simp: assignments_ok_def [of "[]"] intro: read_assignment_ok)

text \<open>An account's settings are safe to use whatever \<^verbatim>\<open>settings.json\<close> holds: no empty pinned
  room, folder ids above the three built-in ones with a name, assignments only to such ids,
  positive folder order, reaction counts between 1 and 0xFFFF.  Corrupted members are dropped
  or clamped, never passed on.\<close>

lemma account_load_keeps:
  assumes "account_settings_ok s"
  shows "account_settings_ok (fst (account_addFromJson s object))"
proof (cases "object = []")
  case False
  have "assignments_ok (foldl read_assignment [] ps)" for ps by (rule read_assignments_ok)
  with assms False read_folder_ok read_reactions_ok show ?thesis
    by (simp add: account_addFromJson_def account_readers account_settings_ok_def assignments_ok_def)
       auto
qed (use assms in \<open>simp add: account_addFromJson_def\<close>)

subsection \<open>Saving and loading again\<close>

lemma hash_insert_fresh: "\<not> hash_contains k h \<Longrightarrow> hash_insert k v h = h @ [(k, v)]"
  by (induction h) (auto simp: hash_insert_def hash_contains_def split: if_splits)

lemma foldl_insert_fresh:
  "distinct (map fst (h @ map (\<lambda>p. (fst p, f (snd p))) ps)) \<Longrightarrow>
   foldl (\<lambda>h p. hash_insert (fst p) (f (snd p)) h) h ps = h @ map (\<lambda>p. (fst p, f (snd p))) ps"
proof (induction ps arbitrary: h)
  case (Cons p ps)
  then have "\<not> hash_contains (fst p) h"
    by (auto simp: hash_contains_in_keys)
  then have ins: "hash_insert (fst p) (f (snd p)) h = h @ [(fst p, f (snd p))]"
    by (rule hash_insert_fresh)
  show ?case using Cons.IH [of "h @ [(fst p, f (snd p))]"] Cons.prems by (simp add: ins)
qed simp

lemma assignments_round_trip:
  assumes "assignments_ok h"
  shows "foldl read_assignment []
     (foldl (\<lambda>h p. hash_insert (fst p) (JArr (map json_int (snd p))) h) [] h) = h"
proof -
  have d: "distinct (map fst h)" using assms by (simp add: assignments_ok_def hash_ok_def)
  have save: "foldl (\<lambda>h p. hash_insert (fst p) (JArr (map json_int (snd p))) h) [] h
      = map (\<lambda>p. (fst p, JArr (map json_int (snd p)))) h"
    using foldl_insert_fresh [of "[]" "\<lambda>x. JArr (map json_int x)" h] d by (simp add: comp_def)
  have one: "read_assignment g (fst p, JArr (map json_int (snd p))) = hash_insert (fst p) (snd p) g"
    if "p \<in> set h" for g p
  proof -
    from assms that have p: "fst p \<noteq> []" "snd p \<noteq> []" "\<forall>i \<in> set (snd p). 2 < i \<and> in_int32 i"
      by (auto simp: assignments_ok_def)
    then have "filter (\<lambda>i. 2 < i) (map (\<lambda>v. toInt v 0) (map json_int (snd p))) = snd p"
      by (simp add: comp_def filter_id_conv cong: map_cong)
    with p show ?thesis by (simp add: read_assignment_def Let_def)
  qed
  have "foldl read_assignment [] (map (\<lambda>p. (fst p, JArr (map json_int (snd p)))) h)
      = foldl (\<lambda>g p. hash_insert (fst p) (snd p) g) [] h"
    by (simp add: foldl_map one cong: foldl_cong)
  also have "\<dots> = h"
    using foldl_insert_fresh [of "[]" "\<lambda>x. x" h] d by simp
  finally show ?thesis by (simp add: save)
qed

lemma read_map_id:
  "(\<And>x. x \<in> set xs \<Longrightarrow> rd (wr x) = x \<and> P x) \<Longrightarrow> filter P (map rd (map wr xs)) = xs"
  by (induction xs) auto

lemma folders_round_trip:
  "\<forall>f \<in> set fs. folder_ok f \<Longrightarrow>
   filter (\<lambda>f. 2 < cf_id f \<and> cf_name f \<noteq> []) (map read_folder (map folder_json fs)) = fs"
  by (rule read_map_id) (auto simp: read_folder_def folder_json_def Let_def folder_ok_def)

lemma reactions_round_trip:
  "reactions_loaded rs \<Longrightarrow>
   filter (\<lambda>r. rc_key r \<noteq> []) (map read_reaction (map reaction_json rs)) = rs"
proof (rule read_map_id)
  fix r assume "reactions_loaded rs" "r \<in> set rs"
  then have r: "rc_key r \<noteq> []" "1 \<le> rc_rating r" "rc_rating r \<le> 0xFFFF"
    by (auto simp: reactions_loaded_def)
  then have "in_int32 (rc_rating r)" by (simp add: in_int32_def)
  with r show "read_reaction (reaction_json r) = r \<and> rc_key r \<noteq> []"
    by (simp add: read_reaction_def reaction_json_def Let_def qBound_id to_uint16_def)
qed

lemma order_round_trip:
  "\<forall>i \<in> set xs. 0 < i \<and> in_int32 i \<Longrightarrow>
   filter (\<lambda>i. 0 < i) (map (\<lambda>v. toInt v 0) (map json_int xs)) = xs"
  by (rule read_map_id) auto

text \<open>What is saved is what is loaded: reading an account's JSON into any settings gives the
  saved account back, except the recent emoji (kept in the server's account data, so the
  reader's own stay) and the marker of a legacy access token (the saved file never has one).\<close>

lemma account_saved_loaded:
  assumes "account_settings_ok s"
  shows "account_addFromJson t (account_toJson s) =
     (s\<lparr>as_recentEmoji := as_recentEmoji t, as_legacySessionAccessTokenPresent := False\<rparr>, True)"
proof -
  have assign: "assignments_ok (as_roomFolderAssignments s)"
    using assms by (simp add: account_settings_ok_def assignments_ok_def)
  have "filter (\<lambda>i. i \<noteq> []) (map (\<lambda>v. toString v []) (map JStr (as_pinnedRoomIds s))) = as_pinnedRoomIds s"
    by (rule read_map_id) (use assms in \<open>auto simp: account_settings_ok_def\<close>)
  moreover have "filter (\<lambda>i. 0 < i) (map (\<lambda>v. toInt v 0) (map json_int (as_folderOrder s)))
      = as_folderOrder s"
    by (rule order_round_trip) (use assms in \<open>auto simp: account_settings_ok_def\<close>)
  moreover have "filter (\<lambda>f. 2 < cf_id f \<and> cf_name f \<noteq> [])
      (map read_folder (map folder_json (as_customFolders s))) = as_customFolders s"
    by (rule folders_round_trip) (use assms in \<open>auto simp: account_settings_ok_def\<close>)
  moreover have "filter (\<lambda>r. rc_key r \<noteq> [])
      (map read_reaction (map reaction_json (as_recentReactions s))) = as_recentReactions s"
    by (rule reactions_round_trip) (use assms in \<open>auto simp: account_settings_ok_def\<close>)
  moreover note assignments_round_trip [OF assign]
  ultimately show ?thesis
    by (simp only: account_addFromJson_def account_toJson_def account_readers json_value_Cons
        json_contains_Cons toObject.simps toArray.simps toString.simps toBool.simps
        list.distinct if_False if_True simp_thms list.inject char.inject HOL.refl)
       simp
qed

end
