(* ===== verification/Device_Settings.thy ===== *)
theory Device_Settings imports Json_Values begin

section \<open>Device settings\<close>

text \<open>
  The class \<open>Settings\<close> of \<^verbatim>\<open>src/src/core/core_settings.h\<close> and \<^verbatim>\<open>.cpp\<close>: the preferences every
  account on the device shares, and \<open>RestoredWidth\<close> of \<^verbatim>\<open>src/src/app/dialogs_width.cpp\<close>,
  which one of them feeds.  Members are record fields, so getters and setters are selectors
  and updates; \<open>setCacheSizeLimitMB\<close>, which clamps, is a definition.
\<close>

record window_position =
  wp_moncrc :: int
  wp_maximized :: int
  wp_scale :: int
  wp_x :: int
  wp_y :: int
  wp_w :: int
  wp_h :: int

definition default_window_position :: window_position where
  "default_window_position = \<lparr> wp_moncrc = 0, wp_maximized = 0, wp_scale = 0,
     wp_x = 0, wp_y = 0, wp_w = 0, wp_h = 0 \<rparr>"

definition SerializeWindowPositionJson :: "window_position \<Rightarrow> json_object" where
  "SerializeWindowPositionJson pos =
     [(''moncrc'', json_int (wp_moncrc pos)), (''maximized'', json_int (wp_maximized pos)),
      (''scale'', json_int (wp_scale pos)), (''x'', json_int (wp_x pos)),
      (''y'', json_int (wp_y pos)), (''w'', json_int (wp_w pos)), (''h'', json_int (wp_h pos))]"

definition DeserializeWindowPositionJson :: "json_object \<Rightarrow> window_position" where
  "DeserializeWindowPositionJson object =
     \<lparr> wp_moncrc = toInt (json_value object ''moncrc'') 0,
       wp_maximized = toInt (json_value object ''maximized'') 0,
       wp_scale = toInt (json_value object ''scale'') 0,
       wp_x = toInt (json_value object ''x'') 0, wp_y = toInt (json_value object ''y'') 0,
       wp_w = toInt (json_value object ''w'') 0, wp_h = toInt (json_value object ''h'') 0 \<rparr>"

definition kCacheSizeLimitMinMB :: int where "kCacheSizeLimitMinMB = 50"
definition kCacheSizeLimitDefaultMB :: int where "kCacheSizeLimitDefaultMB = 4000"
definition kCacheSizeLimitMaxMB :: int where "kCacheSizeLimitMaxMB = 10000"

record settings =
  st_windowPosition :: window_position
  st_dialogsWidth :: int
  st_desktopNotify :: bool
  st_soundNotify :: bool
  st_showSenderName :: bool
  st_showMessagePreview :: bool
  st_includeMutedInBadge :: bool
  st_includeMutedInFolders :: bool
  st_bounceDockIcon :: bool
  st_preferredSecretBackend :: qstring
  st_themeId :: qstring
  st_themeMode :: int
  st_systemDarkModeEnabled :: bool
  st_updatePolicy :: int
  st_skippedUpdateVersion :: qstring
  st_installBetaVersions :: bool
  st_configScale :: int
  st_customFontFamily :: qstring
  st_backgroundDoodles :: bool
  st_largeEmoji :: bool
  st_replyButtonOnMessages :: bool
  st_reactionButtonOnMessages :: bool
  st_hideSystemMessagesInPublicRooms :: bool
  st_searchEncryptedRooms :: bool
  st_languageId :: qstring
  st_sendSubmitWay :: int
  st_macWarnBeforeQuit :: bool
  st_compressImages :: bool
  st_mediaSaveDir :: qstring
  st_cacheSizeLimitMB :: int
  st_cacheAutoCleanup :: bool

definition default_settings :: settings where
  "default_settings = \<lparr>
     st_windowPosition = default_window_position, st_dialogsWidth = 0,
     st_desktopNotify = True, st_soundNotify = True, st_showSenderName = True,
     st_showMessagePreview = True, st_includeMutedInBadge = True,
     st_includeMutedInFolders = True, st_bounceDockIcon = True,
     st_preferredSecretBackend = [], st_themeId = ''dubai'', st_themeMode = 0,
     st_systemDarkModeEnabled = True, st_updatePolicy = 2, st_skippedUpdateVersion = [],
     st_installBetaVersions = False, st_configScale = 0, st_customFontFamily = [],
     st_backgroundDoodles = True, st_largeEmoji = True, st_replyButtonOnMessages = True,
     st_reactionButtonOnMessages = True, st_hideSystemMessagesInPublicRooms = True,
     st_searchEncryptedRooms = True, st_languageId = [], st_sendSubmitWay = 0,
     st_macWarnBeforeQuit = True, st_compressImages = False, st_mediaSaveDir = [],
     st_cacheSizeLimitMB = kCacheSizeLimitDefaultMB, st_cacheAutoCleanup = False \<rparr>"

definition setCacheSizeLimitMB :: "settings \<Rightarrow> int \<Rightarrow> settings" where
  "setCacheSizeLimitMB s mb =
     s\<lparr>st_cacheSizeLimitMB := qBound kCacheSizeLimitMinMB mb kCacheSizeLimitMaxMB\<rparr>"

subsection \<open>Writing\<close>

definition notifications_json :: "settings \<Rightarrow> json_object" where
  "notifications_json s =
     [(''desktopNotify'', JBool (st_desktopNotify s)), (''soundNotify'', JBool (st_soundNotify s)),
      (''showSenderName'', JBool (st_showSenderName s)),
      (''showMessagePreview'', JBool (st_showMessagePreview s)),
      (''includeMutedInBadge'', JBool (st_includeMutedInBadge s)),
      (''includeMutedInFolders'', JBool (st_includeMutedInFolders s)),
      (''bounceDockIcon'', JBool (st_bounceDockIcon s))]"

definition theme_json :: "settings \<Rightarrow> json_object" where
  "theme_json s =
     [(''id'', JStr (st_themeId s)), (''mode'', json_int (qBound 0 (st_themeMode s) 2)),
      (''systemDarkModeEnabled'', JBool (st_systemDarkModeEnabled s))]"

definition appearance_json :: "settings \<Rightarrow> json_object" where
  "appearance_json s =
     [(''configScale'', json_int (st_configScale s)),
      (''customFontFamily'', JStr (st_customFontFamily s)),
      (''backgroundDoodles'', JBool (st_backgroundDoodles s)),
      (''largeEmoji'', JBool (st_largeEmoji s)),
      (''replyButtonOnMessages'', JBool (st_replyButtonOnMessages s)),
      (''reactionButtonOnMessages'', JBool (st_reactionButtonOnMessages s)),
      (''hideSystemMessagesInPublicRooms'', JBool (st_hideSystemMessagesInPublicRooms s))]"

definition preferences_json :: "settings \<Rightarrow> json_object" where
  "preferences_json s =
     [(''languageId'', JStr (st_languageId s)),
      (''sendSubmitWay'', json_int (qBound 0 (st_sendSubmitWay s) 1)),
      (''macWarnBeforeQuit'', JBool (st_macWarnBeforeQuit s)),
      (''compressImages'', JBool (st_compressImages s)),
      (''mediaSaveDir'', JStr (st_mediaSaveDir s))]"

definition updates_json :: "settings \<Rightarrow> json_object" where
  "updates_json s =
     [(''policy'', json_int (qBound 0 (st_updatePolicy s) 2)),
      (''beta'', JBool (st_installBetaVersions s)),
      (''skipped'', JStr (st_skippedUpdateVersion s))]"

definition settings_toJson :: "settings \<Rightarrow> json_object" where
  "settings_toJson s =
     [(''windowPosition'', JObj (SerializeWindowPositionJson (st_windowPosition s))),
      (''dialogsWidth'', json_int (st_dialogsWidth s)),
      (''notifications'', JObj (notifications_json s)),
      (''preferredSecretBackend'', JStr (st_preferredSecretBackend s)),
      (''theme'', JObj (theme_json s)),
      (''appearance'', JObj (appearance_json s)),
      (''preferences'', JObj (preferences_json s)),
      (''cache'', JObj [(''sizeLimitMB'', json_int (st_cacheSizeLimitMB s)),
                        (''autoCleanup'', JBool (st_cacheAutoCleanup s))]),
      (''search'', JObj [(''encryptedRooms'', JBool (st_searchEncryptedRooms s))]),
      (''updates'', JObj (updates_json s))]"

subsection \<open>Reading\<close>

definition read_window :: "json_object \<Rightarrow> settings \<Rightarrow> settings" where
  "read_window object s =
     (let windowObject = toObject (json_value object ''windowPosition'')
      in if windowObject \<noteq> []
         then s\<lparr>st_windowPosition := DeserializeWindowPositionJson windowObject\<rparr> else s)"

definition read_width :: "json_object \<Rightarrow> settings \<Rightarrow> settings" where
  "read_width object s =
     (if json_contains object ''dialogsWidth''
      then s\<lparr>st_dialogsWidth := max (toInt (json_value object ''dialogsWidth'') 0) 0\<rparr> else s)"

definition read_notifications :: "json_object \<Rightarrow> settings \<Rightarrow> settings" where
  "read_notifications object s =
     (let n = toObject (json_value object ''notifications'')
      in if n \<noteq> []
         then s\<lparr> st_desktopNotify := toBool (json_value n ''desktopNotify'') (st_desktopNotify s),
                 st_soundNotify := toBool (json_value n ''soundNotify'') (st_soundNotify s),
                 st_showSenderName := toBool (json_value n ''showSenderName'') (st_showSenderName s),
                 st_showMessagePreview :=
                   toBool (json_value n ''showMessagePreview'') (st_showMessagePreview s),
                 st_includeMutedInBadge :=
                   toBool (json_value n ''includeMutedInBadge'') (st_includeMutedInBadge s),
                 st_includeMutedInFolders :=
                   toBool (json_value n ''includeMutedInFolders'') (st_includeMutedInFolders s),
                 st_bounceDockIcon := toBool (json_value n ''bounceDockIcon'') (st_bounceDockIcon s) \<rparr>
         else s)"

definition read_backend :: "json_object \<Rightarrow> settings \<Rightarrow> settings" where
  "read_backend object s =
     s\<lparr>st_preferredSecretBackend := toString (json_value object ''preferredSecretBackend'') []\<rparr>"

definition read_theme :: "json_object \<Rightarrow> settings \<Rightarrow> settings" where
  "read_theme object s =
     (let theme = toObject (json_value object ''theme'')
      in if theme \<noteq> []
         then s\<lparr> st_themeId := toString (json_value theme ''id'') (st_themeId s),
                 st_themeMode := qBound 0 (toInt (json_value theme ''mode'') (st_themeMode s)) 2,
                 st_systemDarkModeEnabled :=
                   toBool (json_value theme ''systemDarkModeEnabled'') (st_systemDarkModeEnabled s) \<rparr>
         else s)"

definition read_appearance :: "json_object \<Rightarrow> settings \<Rightarrow> settings" where
  "read_appearance object s =
     (let a = toObject (json_value object ''appearance'')
      in if a \<noteq> []
         then s\<lparr> st_configScale := toInt (json_value a ''configScale'') (st_configScale s),
                 st_customFontFamily :=
                   toString (json_value a ''customFontFamily'') (st_customFontFamily s),
                 st_backgroundDoodles :=
                   toBool (json_value a ''backgroundDoodles'') (st_backgroundDoodles s),
                 st_largeEmoji := toBool (json_value a ''largeEmoji'') (st_largeEmoji s),
                 st_replyButtonOnMessages :=
                   toBool (json_value a ''replyButtonOnMessages'') (st_replyButtonOnMessages s),
                 st_reactionButtonOnMessages :=
                   toBool (json_value a ''reactionButtonOnMessages'') (st_reactionButtonOnMessages s),
                 st_hideSystemMessagesInPublicRooms :=
                   toBool (json_value a ''hideSystemMessagesInPublicRooms'')
                     (st_hideSystemMessagesInPublicRooms s) \<rparr>
         else s)"

definition read_preferences :: "json_object \<Rightarrow> settings \<Rightarrow> settings" where
  "read_preferences object s =
     (let p = toObject (json_value object ''preferences'')
      in if p \<noteq> []
         then s\<lparr> st_languageId := toString (json_value p ''languageId'') (st_languageId s),
                 st_sendSubmitWay :=
                   qBound 0 (toInt (json_value p ''sendSubmitWay'') (st_sendSubmitWay s)) 1,
                 st_macWarnBeforeQuit :=
                   toBool (json_value p ''macWarnBeforeQuit'') (st_macWarnBeforeQuit s),
                 st_compressImages := toBool (json_value p ''compressImages'') (st_compressImages s),
                 st_mediaSaveDir := toString (json_value p ''mediaSaveDir'') (st_mediaSaveDir s) \<rparr>
         else s)"

definition read_cache :: "json_object \<Rightarrow> settings \<Rightarrow> settings" where
  "read_cache object s =
     (let cache = toObject (json_value object ''cache'')
      in if cache \<noteq> []
         then s\<lparr> st_cacheSizeLimitMB := qBound kCacheSizeLimitMinMB
                   (toInt (json_value cache ''sizeLimitMB'') (st_cacheSizeLimitMB s))
                   kCacheSizeLimitMaxMB,
                 st_cacheAutoCleanup :=
                   toBool (json_value cache ''autoCleanup'') (st_cacheAutoCleanup s) \<rparr>
         else s)"

definition read_search :: "json_object \<Rightarrow> settings \<Rightarrow> settings" where
  "read_search object s =
     (let search = toObject (json_value object ''search'')
      in if search \<noteq> []
         then s\<lparr>st_searchEncryptedRooms :=
                  toBool (json_value search ''encryptedRooms'') (st_searchEncryptedRooms s)\<rparr>
         else s)"

definition read_updates :: "json_object \<Rightarrow> settings \<Rightarrow> settings" where
  "read_updates object s =
     (let updates = toObject (json_value object ''updates'')
      in if updates \<noteq> []
         then s\<lparr> st_updatePolicy :=
                   qBound 0 (toInt (json_value updates ''policy'') (st_updatePolicy s)) 2,
                 st_installBetaVersions :=
                   toBool (json_value updates ''beta'') (st_installBetaVersions s),
                 st_skippedUpdateVersion :=
                   toString (json_value updates ''skipped'') (st_skippedUpdateVersion s) \<rparr>
         else s)"

definition settings_addFromJson :: "settings \<Rightarrow> json_object \<Rightarrow> settings \<times> bool" where
  "settings_addFromJson s object =
     (if object = [] then (s, False)
      else (read_updates object (read_search object (read_cache object (read_preferences object
             (read_appearance object (read_theme object (read_backend object
               (read_notifications object (read_width object (read_window object s))))))))), True))"

definition RestoredWidth :: "int \<Rightarrow> int \<Rightarrow> int \<Rightarrow> int \<Rightarrow> int" where
  "RestoredWidth savedWidth defaultWidth minWidth maxWidth =
     (let width = (if 0 < savedWidth then savedWidth else defaultWidth)
      in qBound minWidth width maxWidth)"

subsection \<open>Correctness\<close>

lemmas settings_readers =
  read_window_def read_width_def read_notifications_def read_backend_def read_theme_def
  read_appearance_def read_preferences_def read_cache_def read_search_def read_updates_def

lemmas settings_writers =
  SerializeWindowPositionJson_def notifications_json_def theme_json_def appearance_json_def
  preferences_json_def updates_json_def

text \<open>The range of each member the program switches on or sizes by.\<close>

definition settings_ok :: "settings \<Rightarrow> bool" where
  "settings_ok s \<longleftrightarrow> 0 \<le> st_dialogsWidth s
   \<and> 0 \<le> st_themeMode s \<and> st_themeMode s \<le> 2
   \<and> 0 \<le> st_sendSubmitWay s \<and> st_sendSubmitWay s \<le> 1
   \<and> 0 \<le> st_updatePolicy s \<and> st_updatePolicy s \<le> 2
   \<and> kCacheSizeLimitMinMB \<le> st_cacheSizeLimitMB s \<and> st_cacheSizeLimitMB s \<le> kCacheSizeLimitMaxMB"

lemma qBound_props [simp]:
  "0 \<le> qBound 0 v 2" "qBound 0 v 2 \<le> 2" "0 \<le> qBound 0 v 1" "qBound 0 v 1 \<le> 1"
  "kCacheSizeLimitMinMB \<le> qBound kCacheSizeLimitMinMB v kCacheSizeLimitMaxMB"
  "qBound kCacheSizeLimitMinMB v kCacheSizeLimitMaxMB \<le> kCacheSizeLimitMaxMB"
  by (simp_all add: qBound_def kCacheSizeLimitMinMB_def kCacheSizeLimitMaxMB_def)

lemma readers_ok:
  "settings_ok s \<Longrightarrow> settings_ok (read_window object s)"
  "settings_ok s \<Longrightarrow> settings_ok (read_width object s)"
  "settings_ok s \<Longrightarrow> settings_ok (read_notifications object s)"
  "settings_ok s \<Longrightarrow> settings_ok (read_backend object s)"
  "settings_ok s \<Longrightarrow> settings_ok (read_theme object s)"
  "settings_ok s \<Longrightarrow> settings_ok (read_appearance object s)"
  "settings_ok s \<Longrightarrow> settings_ok (read_preferences object s)"
  "settings_ok s \<Longrightarrow> settings_ok (read_cache object s)"
  "settings_ok s \<Longrightarrow> settings_ok (read_search object s)"
  "settings_ok s \<Longrightarrow> settings_ok (read_updates object s)"
  by (simp_all add: settings_readers settings_ok_def Let_def)

lemma settings_ok_default: "settings_ok default_settings"
  by (simp add: settings_ok_def default_settings_def kCacheSizeLimitMinMB_def
      kCacheSizeLimitMaxMB_def kCacheSizeLimitDefaultMB_def)

lemma settings_load_keeps: "settings_ok s \<Longrightarrow> settings_ok (fst (settings_addFromJson s object))"
  by (simp add: settings_addFromJson_def readers_ok)

text \<open>A damaged or hand-edited \<open>settings.json\<close> cannot leave the program outside its modes:
  from the defaults, after loading any sequence of JSON objects, the theme mode, the send mode
  and the update policy are one of their values, the cache limit lies between 50 MB and
  10000 MB and the dialogs column has no negative width; the column is then restored between
  its bounds.\<close>

theorem settings_load_safe:
  "let s = foldl (\<lambda>s object. fst (settings_addFromJson s object)) default_settings objects
   in settings_ok s \<and>
      (minWidth \<le> maxWidth \<longrightarrow>
         minWidth \<le> RestoredWidth (st_dialogsWidth s) defaultWidth minWidth maxWidth
       \<and> RestoredWidth (st_dialogsWidth s) defaultWidth minWidth maxWidth \<le> maxWidth)"
proof -
  have "settings_ok (foldl (\<lambda>s object. fst (settings_addFromJson s object)) default_settings objects)"
    by (rule foldl_keeps [where P = settings_ok]) (auto intro: settings_ok_default settings_load_keeps)
  then show ?thesis
    by (simp add: Let_def RestoredWidth_def qBound_range)
qed

theorem settings_load_safe_witness:
  "let s = foldl (\<lambda>s object. fst (settings_addFromJson s object)) default_settings
      [[(''cache'', JObj [(''sizeLimitMB'', JNum (- 7))])]]
   in 200 \<le> RestoredWidth (st_dialogsWidth s) 260 200 400"
  using settings_load_safe [of "[[(''cache'', JObj [(''sizeLimitMB'', JNum (- 7))])]]" 200 400 260]
  by (simp add: Let_def)

definition settings_int32 :: "settings \<Rightarrow> bool" where
  "settings_int32 s \<longleftrightarrow>
     in_int32 (st_dialogsWidth s) \<and> in_int32 (st_configScale s)
   \<and> list_all (\<lambda>f. in_int32 (f (st_windowPosition s)))
       [wp_moncrc, wp_maximized, wp_scale, wp_x, wp_y, wp_w, wp_h]"

lemma window_round_trip:
  "list_all (\<lambda>f. in_int32 (f pos)) [wp_moncrc, wp_maximized, wp_scale, wp_x, wp_y, wp_w, wp_h] \<Longrightarrow>
   DeserializeWindowPositionJson (SerializeWindowPositionJson pos) = pos"
  by (simp add: DeserializeWindowPositionJson_def SerializeWindowPositionJson_def)

lemma json_ints:
  "settings_ok s \<Longrightarrow> in_int32 (st_cacheSizeLimitMB s)"
  "settings_ok s \<Longrightarrow> in_int32 (st_themeMode s)"
  "settings_ok s \<Longrightarrow> in_int32 (st_sendSubmitWay s)"
  "settings_ok s \<Longrightarrow> in_int32 (st_updatePolicy s)"
  by (auto simp: settings_ok_def in_int32_def kCacheSizeLimitMinMB_def kCacheSizeLimitMaxMB_def)

lemma bounds_id:
  "settings_ok s \<Longrightarrow> qBound 0 (st_themeMode s) 2 = st_themeMode s"
  "settings_ok s \<Longrightarrow> qBound 0 (st_sendSubmitWay s) 1 = st_sendSubmitWay s"
  "settings_ok s \<Longrightarrow> qBound 0 (st_updatePolicy s) 2 = st_updatePolicy s"
  "settings_ok s \<Longrightarrow> qBound kCacheSizeLimitMinMB (st_cacheSizeLimitMB s) kCacheSizeLimitMaxMB
     = st_cacheSizeLimitMB s"
  "settings_ok s \<Longrightarrow> max (st_dialogsWidth s) 0 = st_dialogsWidth s"
  by (simp_all add: settings_ok_def qBound_id)

text \<open>The members of the saved object, looked up.\<close>

lemma settings_members:
  "json_value (settings_toJson s) ''windowPosition'' =
     JObj (SerializeWindowPositionJson (st_windowPosition s))"
  "json_value (settings_toJson s) ''dialogsWidth'' = json_int (st_dialogsWidth s)"
  "json_contains (settings_toJson s) ''dialogsWidth''"
  "json_value (settings_toJson s) ''notifications'' = JObj (notifications_json s)"
  "json_value (settings_toJson s) ''preferredSecretBackend'' = JStr (st_preferredSecretBackend s)"
  "json_value (settings_toJson s) ''theme'' = JObj (theme_json s)"
  "json_value (settings_toJson s) ''appearance'' = JObj (appearance_json s)"
  "json_value (settings_toJson s) ''preferences'' = JObj (preferences_json s)"
  "json_value (settings_toJson s) ''cache'' =
     JObj [(''sizeLimitMB'', json_int (st_cacheSizeLimitMB s)),
           (''autoCleanup'', JBool (st_cacheAutoCleanup s))]"
  "json_value (settings_toJson s) ''search'' =
     JObj [(''encryptedRooms'', JBool (st_searchEncryptedRooms s))]"
  "json_value (settings_toJson s) ''updates'' = JObj (updates_json s)"
  "settings_toJson s \<noteq> []"
  by (simp_all add: settings_toJson_def)

text \<open>Each reader on the object saved from \<open>s\<close> copies its members from \<open>s\<close>.\<close>

lemma readers_saved:
  assumes "settings_ok s" "settings_int32 s"
  shows "read_window (settings_toJson s) t = t\<lparr>st_windowPosition := st_windowPosition s\<rparr>"
    and "read_width (settings_toJson s) t = t\<lparr>st_dialogsWidth := st_dialogsWidth s\<rparr>"
    and "read_notifications (settings_toJson s) t = t\<lparr>
           st_desktopNotify := st_desktopNotify s, st_soundNotify := st_soundNotify s,
           st_showSenderName := st_showSenderName s,
           st_showMessagePreview := st_showMessagePreview s,
           st_includeMutedInBadge := st_includeMutedInBadge s,
           st_includeMutedInFolders := st_includeMutedInFolders s,
           st_bounceDockIcon := st_bounceDockIcon s\<rparr>"
    and "read_backend (settings_toJson s) t =
           t\<lparr>st_preferredSecretBackend := st_preferredSecretBackend s\<rparr>"
    and "read_theme (settings_toJson s) t = t\<lparr>st_themeId := st_themeId s,
           st_themeMode := st_themeMode s,
           st_systemDarkModeEnabled := st_systemDarkModeEnabled s\<rparr>"
    and "read_appearance (settings_toJson s) t = t\<lparr>
           st_configScale := st_configScale s, st_customFontFamily := st_customFontFamily s,
           st_backgroundDoodles := st_backgroundDoodles s, st_largeEmoji := st_largeEmoji s,
           st_replyButtonOnMessages := st_replyButtonOnMessages s,
           st_reactionButtonOnMessages := st_reactionButtonOnMessages s,
           st_hideSystemMessagesInPublicRooms := st_hideSystemMessagesInPublicRooms s\<rparr>"
    and "read_preferences (settings_toJson s) t = t\<lparr>st_languageId := st_languageId s,
           st_sendSubmitWay := st_sendSubmitWay s, st_macWarnBeforeQuit := st_macWarnBeforeQuit s,
           st_compressImages := st_compressImages s, st_mediaSaveDir := st_mediaSaveDir s\<rparr>"
    and "read_cache (settings_toJson s) t = t\<lparr>st_cacheSizeLimitMB := st_cacheSizeLimitMB s,
           st_cacheAutoCleanup := st_cacheAutoCleanup s\<rparr>"
    and "read_search (settings_toJson s) t =
           t\<lparr>st_searchEncryptedRooms := st_searchEncryptedRooms s\<rparr>"
    and "read_updates (settings_toJson s) t = t\<lparr>st_updatePolicy := st_updatePolicy s,
           st_installBetaVersions := st_installBetaVersions s,
           st_skippedUpdateVersion := st_skippedUpdateVersion s\<rparr>"
  using assms json_ints [OF assms(1)] bounds_id [OF assms(1)]
    window_round_trip [of "st_windowPosition s"]
  by (simp_all add: settings_readers settings_members settings_writers Let_def settings_int32_def)

text \<open>Reading the JSON of any settings within their ranges into any other settings gives the
  saved ones.\<close>

lemma settings_saved_loaded:
  assumes "settings_ok s" and "settings_int32 s"
  shows "settings_addFromJson t (settings_toJson s) = (s, True)"
  by (simp add: settings_addFromJson_def settings_members(12) readers_saved [OF assms])

end
