(* ===== verification/Account_List.thy ===== *)
theory Account_List imports Core_Settings Device_Settings begin

section \<open>The stored account list\<close>

text \<open>
  \<^verbatim>\<open>src/src/app/account_index.h\<close> and \<^verbatim>\<open>.cpp\<close> (the account list of \<^verbatim>\<open>settings.json\<close>, directory
  names, the active index and the keychain keys of an account) and the JSON level of
  \<^verbatim>\<open>src/src/storage/storage_local.cpp\<close> (\<open>readSettingsJson\<close>, \<open>writeSettings\<close>; reading and writing the
  file and the JSON text are the library's).
\<close>

definition kMaxAccounts :: nat where
  "kMaxAccounts = 6"

record account_index_entry =
  ae_dirName :: qstring
  ae_settings :: account_settings

record account_index =
  ai_entries :: "account_index_entry list"
  ai_activeIndex :: int

definition empty_account_index :: account_index where
  "empty_account_index = \<lparr> ai_entries = [], ai_activeIndex = -1 \<rparr>"

subsection \<open>Serialising and parsing\<close>

definition account_entry_json :: "account_index_entry \<Rightarrow> json" where
  "account_entry_json entry =
     JObj (hash_insert ''dirName'' (JStr (ae_dirName entry)) (account_toJson (ae_settings entry)))"

definition SerializeAccountIndex :: "account_index \<Rightarrow> json_object" where
  "SerializeAccountIndex index =
     [(''accounts'', JArr (map account_entry_json (ai_entries index))),
      (''activeAccount'', json_int (ai_activeIndex index))]"

definition ClampActiveIndex :: "int \<Rightarrow> int \<Rightarrow> int" where
  "ClampActiveIndex stored n = (if n \<le> 0 then -1 else qBound 0 stored (n - 1))"

text \<open>The loop of \<open>ParseAccountIndex\<close>: the entries found so far and the names seen.\<close>

fun parse_entries ::
  "json list \<Rightarrow> account_index_entry list \<Rightarrow> qstring list \<Rightarrow> account_index_entry list" where
  "parse_entries [] entries seen = entries"
| "parse_entries (v # values) entries seen =
     (if kMaxAccounts \<le> length entries then entries
      else let object = toObject v;
               dirName = toString (json_value object ''dirName'') []
           in if dirName = [] \<or> dirName \<in> set seen then parse_entries values entries seen
              else parse_entries values
                     (entries @ [\<lparr> ae_dirName = dirName,
                        ae_settings = fst (account_addFromJson new_account_settings object) \<rparr>])
                     (seen @ [dirName]))"

definition ParseAccountIndex :: "json_object \<Rightarrow> account_index" where
  "ParseAccountIndex object =
     (let entries = parse_entries (toArray (json_value object ''accounts'')) [] []
      in \<lparr> ai_entries = entries,
           ai_activeIndex = ClampActiveIndex (toInt (json_value object ''activeAccount'') 0)
                              (int (length entries)) \<rparr>)"

definition kSettingsJsonVersion :: int where
  "kSettingsJsonVersion = 3"

text \<open>From the parsed document: \<open>None\<close> is a file that cannot be read or is not JSON.  The flag is
  the returned success; on failure the account list is the caller's (the device settings may
  have been read already when only the accounts could not).\<close>

definition readSettingsJson ::
  "json option \<Rightarrow> settings \<times> account_index \<Rightarrow> (settings \<times> account_index) \<times> bool" where
  "readSettingsJson document state =
     (case document of
        Some (JObj object) \<Rightarrow>
          (if toInt (json_value object ''version'') 0 \<noteq> kSettingsJsonVersion then (state, False)
           else case settings_addFromJson (fst state) (toObject (json_value object ''settings'')) of
             (s, ok) \<Rightarrow> if \<not> ok then ((s, snd state), False)
                        else ((s, ParseAccountIndex object), True))
      | _ \<Rightarrow> (state, False))"

definition writeSettings :: "settings \<Rightarrow> account_index \<Rightarrow> json" where
  "writeSettings s accounts =
     JObj (hash_insert ''settings'' (JObj (settings_toJson s))
       (hash_insert ''version'' (json_int kSettingsJsonVersion) (SerializeAccountIndex accounts)))"

subsection \<open>Directory names\<close>

text \<open>\<open>QString::number\<close> of a non-negative number, and the number a digit string denotes.\<close>

definition digit :: "nat \<Rightarrow> char" where
  "digit d = char_of (48 + d)"

fun number_string :: "nat \<Rightarrow> qstring" where
  "number_string n =
     (if n < 10 then [digit n] else number_string (n div 10) @ [digit (n mod 10)])"

declare number_string.simps [simp del]

definition number_value :: "qstring \<Rightarrow> nat" where
  "number_value s = foldl (\<lambda>a c. 10 * a + (of_char c - 48)) 0 s"

lemma digit_value: "d < 10 \<Longrightarrow> of_char (digit d) - 48 = (d :: nat)"
  by (simp add: digit_def of_char_of)

lemma number_value_string [simp]: "number_value (number_string n) = n"
proof (induction n rule: number_string.induct)
  case (1 n)
  show ?case
  proof (cases "n < 10")
    case True
    then show ?thesis by (simp add: number_string.simps [of n] number_value_def digit_value)
  next
    case False
    then have "number_value (number_string n)
        = 10 * number_value (number_string (n div 10)) + n mod 10"
      by (simp add: number_string.simps [of n] number_value_def digit_value)
    with 1 False show ?thesis by simp
  qed
qed

lemma number_string_inj: "number_string m = number_string n \<Longrightarrow> m = n"
  using number_value_string by metis

text \<open>The search of \<open>FirstFreeAccountDirName\<close> from a candidate on: it ends because each step past
  a taken name uses up one of the finitely many taken ones.\<close>

function first_free_from :: "nat \<Rightarrow> qstring list \<Rightarrow> qstring" where
  "first_free_from candidate taken =
     (if number_string candidate \<notin> set taken then number_string candidate
      else first_free_from (candidate + 1) taken)"
  by pat_completeness auto

lemma taken_shrinks:
  "number_string k \<in> set taken \<Longrightarrow>
   card {s \<in> set taken. k + 1 \<le> number_value s} < card {s \<in> set taken. k \<le> number_value s}"
proof (rule psubset_card_mono)
  assume "number_string k \<in> set taken"
  then have "number_string k \<in> {s \<in> set taken. k \<le> number_value s}" by simp
  moreover have "number_string k \<notin> {s \<in> set taken. k + 1 \<le> number_value s}" by simp
  ultimately show "{s \<in> set taken. k + 1 \<le> number_value s} \<subset> {s \<in> set taken. k \<le> number_value s}"
    using Collect_mono [of "\<lambda>s. s \<in> set taken \<and> k + 1 \<le> number_value s"
        "\<lambda>s. s \<in> set taken \<and> k \<le> number_value s"] by (auto simp del: mem_Collect_eq)
qed simp

termination first_free_from
  by (relation "measure (\<lambda>(k, taken). card {s \<in> set taken. k \<le> number_value s})")
     (use taken_shrinks in auto)

declare first_free_from.simps [simp del]

definition FirstFreeAccountDirName :: "qstring list \<Rightarrow> qstring" where
  "FirstFreeAccountDirName taken = first_free_from 0 taken"

lemma first_free_from_spec:
  "\<exists>n \<ge> k. first_free_from k taken = number_string n \<and> number_string n \<notin> set taken
       \<and> (\<forall>m. k \<le> m \<and> m < n \<longrightarrow> number_string m \<in> set taken)"
proof (induction k taken rule: first_free_from.induct)
  case (1 k taken)
  show ?case
  proof (cases "number_string k \<in> set taken")
    case True
    with 1 obtain n where n: "k + 1 \<le> n" "first_free_from (k + 1) taken = number_string n"
      "number_string n \<notin> set taken" "\<forall>m. k + 1 \<le> m \<and> m < n \<longrightarrow> number_string m \<in> set taken" by auto
    have "number_string m \<in> set taken" if "k \<le> m" "m < n" for m
      using n(4) that True by (cases "m = k") auto
    with n True show ?thesis
      by (intro exI [of _ n]) (auto simp: first_free_from.simps [of k])
  qed (auto simp: first_free_from.simps [of k])
qed

lemma first_free_fresh: "FirstFreeAccountDirName taken \<notin> set taken"
  using first_free_from_spec [of 0 taken] by (auto simp: FirstFreeAccountDirName_def)

lemma number_string_ne [simp]: "number_string n \<noteq> []"
  by (subst number_string.simps) simp

lemma first_free_ne: "FirstFreeAccountDirName taken \<noteq> []"
  using first_free_from_spec [of 0 taken] number_string_ne by (metis FirstFreeAccountDirName_def)

subsection \<open>The active index after a removal\<close>

definition ActiveIndexAfterRemoval :: "int \<Rightarrow> int \<Rightarrow> int \<Rightarrow> int" where
  "ActiveIndexAfterRemoval active removed newCount =
     (if newCount \<le> 0 then -1
      else if removed < active then qBound 0 (active - 1) (newCount - 1)
      else if active < removed then qBound 0 active (newCount - 1)
      else min removed (newCount - 1))"

subsection \<open>Keychain keys\<close>

definition SessionSecretKey :: "qstring \<Rightarrow> qstring \<Rightarrow> qstring \<Rightarrow> qstring \<Rightarrow> qstring" where
  "SessionSecretKey kind homeserver userId deviceId =
     ''v1|'' @ kind @ ''|'' @ homeserver @ ''|'' @ userId @ ''|'' @ deviceId"

definition LocalSecretKey :: "qstring \<Rightarrow> qstring \<Rightarrow> qstring" where
  "LocalSecretKey dirName kind = ''v1|local_cache|'' @ dirName @ ''|'' @ kind"

definition session_kinds :: "qstring list" where
  "session_kinds = [''session_access_token'', ''sdk_store_passphrase'', ''search_passphrase'']"

definition cache_kinds :: "qstring list" where
  "cache_kinds = [''app_cache_passphrase'', ''preview_cache_passphrase'', ''media_cache_passphrase'']"

definition AccountSecretKeys :: "qstring \<Rightarrow> qstring \<Rightarrow> qstring \<Rightarrow> qstring \<Rightarrow> qstring list" where
  "AccountSecretKeys dirName homeserver userId deviceId =
     (if homeserver \<noteq> [] \<and> userId \<noteq> [] \<and> deviceId \<noteq> []
      then map (\<lambda>kind. SessionSecretKey kind homeserver userId deviceId) session_kinds else [])
     @ map (LocalSecretKey dirName) cache_kinds"

text \<open>The keys of different accounts differ: the fields are separated by bars, which neither a
  server's address nor a user id has.\<close>

lemma split_at_sep:
  "c \<notin> set a \<Longrightarrow> c \<notin> set b \<Longrightarrow> a @ c # r = b @ c # s \<longleftrightarrow> a = b \<and> r = s"
proof (induction a arbitrary: b)
  case Nil
  then show ?case by (cases b) auto
next
  case (Cons x a)
  then show ?case by (cases b) auto
qed

lemma split_at_last_sep:
  assumes "c \<notin> set r" "c \<notin> set s"
  shows "a @ c # r = b @ c # s \<longleftrightarrow> a = b \<and> r = s"
proof -
  have "a @ c # r = b @ c # s \<longleftrightarrow> rev r @ c # rev a = rev s @ c # rev b"
    by (metis append.assoc append_Cons append_Nil rev_append rev_rev_ident rev.simps(2))
  then show ?thesis using assms split_at_sep [of c "rev r" "rev s" "rev a" "rev b"] by auto
qed

definition no_bar :: "qstring \<Rightarrow> bool" where
  "no_bar s \<longleftrightarrow> CHR ''|'' \<notin> set s"

lemma session_key_inj:
  assumes "no_bar k" "no_bar h" "no_bar u" "no_bar k'" "no_bar h'" "no_bar u'"
  shows "SessionSecretKey k h u d = SessionSecretKey k' h' u' d' \<longleftrightarrow> k = k' \<and> h = h' \<and> u = u' \<and> d = d'"
  using assms by (simp add: SessionSecretKey_def no_bar_def split_at_sep)

lemma local_key_inj:
  "no_bar k \<Longrightarrow> no_bar k' \<Longrightarrow> LocalSecretKey d k = LocalSecretKey d' k' \<longleftrightarrow> d = d' \<and> k = k'"
  by (simp add: LocalSecretKey_def no_bar_def split_at_last_sep)

lemma kinds_no_bar: "k \<in> set session_kinds \<Longrightarrow> no_bar k" "k \<in> set cache_kinds \<Longrightarrow> no_bar k"
  by (auto simp: session_kinds_def cache_kinds_def no_bar_def)

lemma session_not_local: "k \<in> set session_kinds \<Longrightarrow> SessionSecretKey k h u d \<noteq> LocalSecretKey dir k'"
  by (auto simp: session_kinds_def SessionSecretKey_def LocalSecretKey_def)

lemma kinds_distinct: "distinct session_kinds" "distinct cache_kinds"
  by (simp_all add: session_kinds_def cache_kinds_def)

lemma account_keys_disjoint:
  assumes "dir \<noteq> dir'" and "(h, u, d) \<noteq> (h', u', d')"
    and "no_bar h" "no_bar u" "no_bar h'" "no_bar u'"
  shows "set (AccountSecretKeys dir h u d) \<inter> set (AccountSecretKeys dir' h' u' d') = {}"
  using assms
  by (auto simp: AccountSecretKeys_def session_key_inj local_key_inj kinds_no_bar session_not_local
      session_not_local [symmetric])

lemma account_keys_distinct:
  assumes "no_bar h" "no_bar u"
  shows "distinct (AccountSecretKeys dir h u d)"
  using assms kinds_distinct
  by (auto simp: AccountSecretKeys_def distinct_map inj_on_def session_key_inj local_key_inj
      kinds_no_bar session_not_local)

subsection \<open>Loading\<close>

definition active_index_ok :: "int \<Rightarrow> nat \<Rightarrow> bool" where
  "active_index_ok active n \<longleftrightarrow> (if n = 0 then active = -1 else 0 \<le> active \<and> active < int n)"

definition account_index_ok :: "account_index \<Rightarrow> bool" where
  "account_index_ok index \<longleftrightarrow>
     length (ai_entries index) \<le> kMaxAccounts
   \<and> distinct (map ae_dirName (ai_entries index)) \<and> [] \<notin> set (map ae_dirName (ai_entries index))
   \<and> list_all (\<lambda>e. account_settings_ok (ae_settings e)) (ai_entries index)
   \<and> active_index_ok (ai_activeIndex index) (length (ai_entries index))"

lemma clamp_active_ok: "active_index_ok (ClampActiveIndex stored (int n)) n"
  using qBound_range [of 0 "int n - 1" stored] by (auto simp: active_index_ok_def ClampActiveIndex_def)

lemma clamp_active_id: "active_index_ok active n \<Longrightarrow> ClampActiveIndex active (int n) = active"
  by (auto simp: active_index_ok_def ClampActiveIndex_def qBound_id split: if_splits)

lemma new_account_settings_ok: "account_settings_ok new_account_settings"
  by (simp add: account_settings_ok_def new_account_settings_def reactions_loaded_def)

lemma loaded_account_ok: "account_settings_ok (fst (account_addFromJson new_account_settings object))"
  using new_account_settings_ok by (rule account_load_keeps)

definition entries_ok :: "account_index_entry list \<Rightarrow> bool" where
  "entries_ok es \<longleftrightarrow> length es \<le> kMaxAccounts
     \<and> distinct (map ae_dirName es) \<and> [] \<notin> set (map ae_dirName es)
     \<and> list_all (\<lambda>e. account_settings_ok (ae_settings e)) es"

lemma parse_entries_ok:
  "entries_ok es \<Longrightarrow> seen = map ae_dirName es \<Longrightarrow> entries_ok (parse_entries values es seen)"
proof (induction "values" arbitrary: es seen)
  case (Cons v "values")
  define dirName where "dirName = toString (json_value (toObject v) ''dirName'') []"
  define e where "e = \<lparr> ae_dirName = dirName,
    ae_settings = fst (account_addFromJson new_account_settings (toObject v)) \<rparr>"
  show ?case
  proof (cases "kMaxAccounts \<le> length es \<or> dirName = [] \<or> dirName \<in> set seen")
    case True
    with Cons show ?thesis by (auto simp: dirName_def Let_def)
  next
    case False
    with Cons.prems have "entries_ok (es @ [e])"
      by (auto simp: entries_ok_def e_def loaded_account_ok)
    then have "entries_ok (parse_entries values (es @ [e]) (seen @ [dirName]))"
      by (rule Cons.IH) (simp add: Cons.prems(2) e_def)
    with False show ?thesis by (simp add: e_def dirName_def Let_def)
  qed
qed simp

lemma parsed_index_ok: "account_index_ok (ParseAccountIndex object)"
  using parse_entries_ok [of "[]" "[]"] clamp_active_ok
  by (simp add: account_index_ok_def ParseAccountIndex_def Let_def entries_ok_def)

text \<open>C39: whatever \<^verbatim>\<open>settings.json\<close> holds, the account list read from it can be used as it is: at
  most six accounts, no two with one data directory and none without, settings in their ranges,
  and an active index that points at an account exactly when there is one.\<close>

theorem parsed_accounts_safe: "account_index_ok (ParseAccountIndex object)"
  by (rule parsed_index_ok)

subsection \<open>Saving and loading again\<close>

lemma json_value_insert: "json_value (hash_insert k v object) key = (if key = k then v else json_value object key)"
  by (simp add: json_value_def)

lemma json_contains_insert: "json_contains (hash_insert k v object) key \<longleftrightarrow> key = k \<or> json_contains object key"
  by (simp add: json_contains_def)

lemma hash_insert_ne [simp]: "hash_insert k v h \<noteq> []"
  by (cases h) (auto simp: hash_insert_def)

lemma dirName_not_read:
  assumes "object \<noteq> []"
  shows "account_addFromJson t (hash_insert ''dirName'' v object) = account_addFromJson t object"
proof -
  let ?o = "hash_insert ''dirName'' v object"
  have "json_value ?o key = json_value object key" "json_contains ?o key = json_contains object key"
    if "key \<noteq> ''dirName''" for key using that by (simp_all add: json_value_insert json_contains_insert)
  then have "read_session ?o = read_session object" "read_pinned ?o = read_pinned object"
    "read_saved ?o = read_saved object" "read_folders ?o = read_folders object"
    "read_assignments ?o = read_assignments object" "read_order ?o = read_order object"
    "read_migrated ?o = read_migrated object" "read_reactions ?o = read_reactions object"
    by (simp_all add: account_readers fun_eq_iff del: One_nat_def)
  with assms show ?thesis by (simp add: account_addFromJson_def)
qed

text \<open>What the file does not keep of an account: the recent emoji and the legacy marker.\<close>

definition stored_entry :: "account_index_entry \<Rightarrow> account_index_entry" where
  "stored_entry e = e\<lparr>ae_settings := (ae_settings e)\<lparr>as_recentEmoji := DefaultRecentEmoji,
     as_legacySessionAccessTokenPresent := False\<rparr>\<rparr>"

lemma entry_round_trip:
  assumes "account_settings_ok (ae_settings e)"
  shows "toString (json_value (toObject (account_entry_json e)) ''dirName'') [] = ae_dirName e"
    and "\<lparr> ae_dirName = ae_dirName e,
           ae_settings = fst (account_addFromJson new_account_settings (toObject (account_entry_json e))) \<rparr>
         = stored_entry e"
proof -
  have "account_toJson (ae_settings e) \<noteq> []" by (simp add: account_toJson_def)
  then show "\<lparr> ae_dirName = ae_dirName e,
      ae_settings = fst (account_addFromJson new_account_settings (toObject (account_entry_json e))) \<rparr>
      = stored_entry e"
    using account_saved_loaded [OF assms, of new_account_settings]
    by (simp add: account_entry_json_def dirName_not_read stored_entry_def new_account_settings_def)
qed (simp add: account_entry_json_def json_value_insert)

lemma parse_entries_round_trip:
  "length (es @ fs) \<le> kMaxAccounts \<Longrightarrow> distinct (map ae_dirName (es @ fs)) \<Longrightarrow>
   [] \<notin> set (map ae_dirName fs) \<Longrightarrow> list_all (\<lambda>e. account_settings_ok (ae_settings e)) fs \<Longrightarrow>
   parse_entries (map account_entry_json fs) (map stored_entry es) (map ae_dirName es)
     = map stored_entry (es @ fs)"
proof (induction fs arbitrary: es)
  case (Cons f fs)
  then have f: "account_settings_ok (ae_settings f)" "ae_dirName f \<noteq> []" "ae_dirName f \<notin> ae_dirName ` set es"
    "\<not> kMaxAccounts \<le> length es" by auto
  have "parse_entries (map account_entry_json fs) (map stored_entry (es @ [f])) (map ae_dirName (es @ [f]))
      = map stored_entry ((es @ [f]) @ fs)"
    by (rule Cons.IH) (use Cons.prems in auto)
  with f show ?case by (simp add: entry_round_trip)
qed simp

lemma index_round_trip:
  assumes "account_index_ok index"
  shows "ParseAccountIndex (SerializeAccountIndex index)
      = index\<lparr>ai_entries := map stored_entry (ai_entries index)\<rparr>"
proof -
  have "in_int32 (ai_activeIndex index)"
    using assms by (auto simp: account_index_ok_def active_index_ok_def in_int32_def kMaxAccounts_def
        split: if_splits)
  with assms show ?thesis
    using parse_entries_round_trip [of "[]" "ai_entries index"]
    by (simp add: account_index_ok_def ParseAccountIndex_def SerializeAccountIndex_def Let_def
        clamp_active_id)
qed

text \<open>C29: the settings file keeps everything: reading back the document that was written gives the
  device settings and the account list that were saved (bar the two members of an account kept
  elsewhere), whatever the program held before reading.\<close>

theorem settings_file_round_trip:
  assumes "settings_ok s" and "settings_int32 s" and "account_index_ok accounts"
  shows "readSettingsJson (Some (writeSettings s accounts)) state =
     ((s, accounts\<lparr>ai_entries := map stored_entry (ai_entries accounts)\<rparr>), True)"
proof -
  have "ParseAccountIndex (hash_insert ''settings'' u (hash_insert ''version'' v object))
      = ParseAccountIndex object" for u v object
    by (simp add: ParseAccountIndex_def json_value_insert)
  then show ?thesis
    using index_round_trip [OF assms(3)] settings_saved_loaded [OF assms(1,2)]
    by (simp add: readSettingsJson_def writeSettings_def json_value_insert kSettingsJsonVersion_def
        in_int32_def)
qed

definition demo_accounts :: account_index where
  "demo_accounts = \<lparr> ai_entries = [\<lparr> ae_dirName = ''0'', ae_settings = new_account_settings \<rparr>,
     \<lparr> ae_dirName = ''1'', ae_settings = new_account_settings \<rparr>], ai_activeIndex = 1 \<rparr>"

theorem settings_file_round_trip_witness:
  "readSettingsJson (Some (writeSettings default_settings demo_accounts))
     (default_settings, empty_account_index) = ((default_settings, demo_accounts), True)"
proof -
  have "account_index_ok demo_accounts"
    using new_account_settings_ok
    by (simp add: account_index_ok_def demo_accounts_def kMaxAccounts_def active_index_ok_def)
  moreover have "settings_int32 default_settings"
    by (simp add: settings_int32_def default_settings_def default_window_position_def in_int32_def)
  ultimately show ?thesis
    using settings_file_round_trip [OF settings_ok_default, of demo_accounts]
    by (simp add: demo_accounts_def stored_entry_def new_account_settings_def)
qed

text \<open>A new account gets the smallest number that no account uses as its directory, so it never
  shares storage, and the search for it always ends.\<close>

theorem first_free_dir_name:
  "\<exists>n. FirstFreeAccountDirName taken = number_string n
     \<and> FirstFreeAccountDirName taken \<notin> set taken \<and> number_string ` {..<n} \<subseteq> set taken"
  using first_free_from_spec [of 0 taken] by (auto simp: FirstFreeAccountDirName_def)

end
