(* ===== verification/Accounts.thy ===== *)
theory Accounts imports Account_List Unread_Correct begin

section \<open>Accounts and the account domain\<close>

text \<open>
  \<^verbatim>\<open>src/src/app/account.h\<close>/\<^verbatim>\<open>.cpp\<close> (one signed-in account), \<^verbatim>\<open>account_domain.h\<close>/\<^verbatim>\<open>.cpp\<close> (the
  list of accounts, the active one and the signals about it) and \<^verbatim>\<open>forced_sign_out.cpp\<close>.
  The bridge of an account is a handle to the Rust side (a number here: which bridge); its unread
  store is the one of \<open>Unread_Store\<close>.  A \<open>nullptr\<close> is \<open>None\<close>.
\<close>

datatype account_state = Restoring | Ready | RestoreFailed

record account_capabilities =
  cap_canChangePassword :: bool
  cap_canChange3pid :: bool
  cap_canSetDisplayName :: bool
  cap_canSetAvatarUrl :: bool

record account_summary =
  sum_userId :: qstring
  sum_displayName :: qstring
  sum_avatarUrl :: qstring
  sum_capabilities :: account_capabilities

definition default_account_summary :: account_summary where
  "default_account_summary = \<lparr> sum_userId = [], sum_displayName = [], sum_avatarUrl = [],
     sum_capabilities = \<lparr> cap_canChangePassword = True, cap_canChange3pid = True,
       cap_canSetDisplayName = True, cap_canSetAvatarUrl = True \<rparr> \<rparr>"

record account =
  ac_dirName :: qstring
  ac_settings :: account_settings
  ac_bridge :: "nat option"
  ac_unreadStateStore :: "unread_store option"
  ac_state :: account_state
  ac_userId :: qstring
  ac_displayName :: qstring
  ac_avatarUrl :: qstring
  ac_cachedAccountSummary :: account_summary
  ac_cachedAccountSummaryLoaded :: bool
  ac_emailVerificationSupported :: "bool option"
  ac_recentEmojiTouchedLocally :: bool

definition new_account :: "qstring \<Rightarrow> account" where
  "new_account dirName = \<lparr> ac_dirName = dirName, ac_settings = new_account_settings,
     ac_bridge = None, ac_unreadStateStore = None, ac_state = Restoring, ac_userId = [],
     ac_displayName = [], ac_avatarUrl = [], ac_cachedAccountSummary = default_account_summary,
     ac_cachedAccountSummaryLoaded = False, ac_emailVerificationSupported = None,
     ac_recentEmojiTouchedLocally = False \<rparr>"

definition setBridge :: "account \<Rightarrow> nat option \<Rightarrow> account" where
  "setBridge a bridge = a\<lparr>ac_bridge := bridge\<rparr>"

definition takeBridge :: "account \<Rightarrow> account \<times> nat option" where
  "takeBridge a = (a\<lparr>ac_bridge := None\<rparr>, ac_bridge a)"

definition setUnreadStateStore :: "account \<Rightarrow> unread_store option \<Rightarrow> account" where
  "setUnreadStateStore a store = a\<lparr>ac_unreadStateStore := store\<rparr>"

definition setProfile :: "account \<Rightarrow> qstring \<Rightarrow> qstring \<Rightarrow> qstring \<Rightarrow> account" where
  "setProfile a userId displayName avatarUrl =
     a\<lparr>ac_userId := userId, ac_displayName := displayName, ac_avatarUrl := avatarUrl\<rparr>"

definition setCachedAccountSummary :: "account \<Rightarrow> account_summary \<Rightarrow> account" where
  "setCachedAccountSummary a summary =
     a\<lparr>ac_cachedAccountSummary := summary, ac_cachedAccountSummaryLoaded := True\<rparr>"

definition persistSession ::
  "account \<Rightarrow> qstring \<Rightarrow> qstring \<Rightarrow> qstring \<Rightarrow> qstring \<Rightarrow> qstring \<Rightarrow> qstring \<Rightarrow> account" where
  "persistSession a homeserver userId deviceId secretBackend displayName avatarUrl =
     setProfile (a\<lparr>ac_settings := (ac_settings a)\<lparr>as_sessionHomeserver := homeserver,
       as_sessionUserId := userId, as_sessionDeviceId := deviceId,
       as_sessionSecretBackend := secretBackend\<rparr>\<rparr>) userId displayName avatarUrl"

definition secretKeys :: "account \<Rightarrow> qstring list" where
  "secretKeys a = AccountSecretKeys (ac_dirName a) (as_sessionHomeserver (ac_settings a))
     (as_sessionUserId (ac_settings a)) (as_sessionDeviceId (ac_settings a))"

definition ac_clear :: "account \<Rightarrow> account" where
  "ac_clear a = a\<lparr>ac_settings := account_clear (ac_settings a), ac_userId := [],
     ac_displayName := [], ac_avatarUrl := [], ac_cachedAccountSummary := default_account_summary,
     ac_cachedAccountSummaryLoaded := False, ac_emailVerificationSupported := None,
     ac_recentEmojiTouchedLocally := False\<rparr>"

definition ac_hasSession :: "account \<Rightarrow> bool" where
  "ac_hasSession a = hasSession (ac_settings a)"

subsection \<open>The domain\<close>

record account_domain =
  ad_accounts :: "account list"
  ad_active :: int

datatype domain_signal = ActiveChanged int | AccountsChanged | UnreadBadgeChanged

definition initial_domain :: account_domain where
  "initial_domain = \<lparr> ad_accounts = [], ad_active = -1 \<rparr>"

definition dom_count :: "account_domain \<Rightarrow> int" where
  "dom_count d = int (length (ad_accounts d))"

definition canAddAccount :: "account_domain \<Rightarrow> bool" where
  "canAddAccount d \<longleftrightarrow> dom_count d < int kMaxAccounts"

definition account_at :: "account_domain \<Rightarrow> int \<Rightarrow> account option" where
  "account_at d index =
     (if index < 0 \<or> dom_count d \<le> index then None else Some (ad_accounts d ! nat index))"

definition active_account :: "account_domain \<Rightarrow> account option" where
  "active_account d = account_at d (ad_active d)"

fun index_where :: "('a \<Rightarrow> bool) \<Rightarrow> int \<Rightarrow> 'a list \<Rightarrow> int" where
  "index_where P i [] = -1"
| "index_where P i (x # xs) = (if P x then i else index_where P (i + 1) xs)"

definition indexOfDirName :: "account_domain \<Rightarrow> qstring \<Rightarrow> int" where
  "indexOfDirName d dirName = index_where (\<lambda>a. ac_dirName a = dirName) 0 (ad_accounts d)"

definition indexOfUserId :: "account_domain \<Rightarrow> qstring \<Rightarrow> int" where
  "indexOfUserId d userId =
     (if userId = [] then -1
      else index_where (\<lambda>a. as_sessionUserId (ac_settings a) = userId) 0 (ad_accounts d))"

definition dom_add ::
  "account_domain \<Rightarrow> account option \<Rightarrow> account_domain \<times> domain_signal list \<times> int" where
  "dom_add d account =
     (case account of
        None \<Rightarrow> (d, [], -1)
      | Some a \<Rightarrow>
          if \<not> canAddAccount d then (d, [], -1)
          else let d1 = d\<lparr>ad_accounts := ad_accounts d @ [a]\<rparr>;
                   index = dom_count d1 - 1;
                   (d2, sigs) = (if ad_active d1 < 0
                                 then (d1\<lparr>ad_active := index\<rparr>, [ActiveChanged index])
                                 else (d1, []))
               in (d2, sigs @ [AccountsChanged, UnreadBadgeChanged], index))"

definition dom_remove :: "account_domain \<Rightarrow> int \<Rightarrow> account_domain \<times> domain_signal list" where
  "dom_remove d index =
     (if index < 0 \<or> dom_count d \<le> index then (d, [])
      else let previousActive = ad_active d;
               d1 = d\<lparr>ad_accounts := take (nat index) (ad_accounts d)
                                        @ drop (nat index + 1) (ad_accounts d)\<rparr>;
               active = ActiveIndexAfterRemoval previousActive index (dom_count d1)
           in (d1\<lparr>ad_active := active\<rparr>,
               [AccountsChanged, UnreadBadgeChanged]
               @ (if active \<noteq> previousActive \<or> index = previousActive
                  then [ActiveChanged active] else [])))"

definition dom_activate :: "account_domain \<Rightarrow> int \<Rightarrow> account_domain \<times> domain_signal list \<times> bool" where
  "dom_activate d index =
     (if index < 0 \<or> dom_count d \<le> index \<or> index = ad_active d then (d, [], False)
      else (d\<lparr>ad_active := index\<rparr>, [ActiveChanged index], True))"

definition allocateDirName :: "account_domain \<Rightarrow> qstring" where
  "allocateDirName d = FirstFreeAccountDirName (map ac_dirName (ad_accounts d))"

definition totalUnreadBadge :: "account_domain \<Rightarrow> bool \<Rightarrow> int" where
  "totalUnreadBadge d includeMuted =
     foldl (\<lambda>n a. case ac_unreadStateStore a of
                     None \<Rightarrow> n | Some store \<Rightarrow> n + totalUnreadCount store includeMuted)
       0 (ad_accounts d)"

definition toIndex :: "account_domain \<Rightarrow> account_index" where
  "toIndex d = \<lparr> ai_entries = map (\<lambda>a. \<lparr> ae_dirName = ac_dirName a, ae_settings = ac_settings a \<rparr>)
                                   (ad_accounts d),
                 ai_activeIndex = ad_active d \<rparr>"

definition restored_account :: "account_index_entry \<Rightarrow> account" where
  "restored_account entry = (new_account (ae_dirName entry))\<lparr>ac_settings := ae_settings entry\<rparr>"

definition restore :: "account_domain \<Rightarrow> account_index \<Rightarrow> account_domain \<times> domain_signal list" where
  "restore d index =
     (let d1 = d\<lparr>ad_accounts := map restored_account (ai_entries index)\<rparr>;
          active = ClampActiveIndex (ai_activeIndex index) (dom_count d1)
      in (d1\<lparr>ad_active := active\<rparr>, [AccountsChanged, ActiveChanged active, UnreadBadgeChanged]))"

subsection \<open>Forced sign-out\<close>

datatype forced_sign_out_route = Ignore | Active | Background

definition RouteForcedSignOut :: "int \<Rightarrow> int \<Rightarrow> bool \<Rightarrow> forced_sign_out_route" where
  "RouteForcedSignOut accountIndex activeIndex alreadyTearingDown =
     (if accountIndex < 0 \<or> alreadyTearingDown then Ignore
      else if accountIndex = activeIndex then Active else Background)"

subsection \<open>The invariant of the domain\<close>

definition domain_inv :: "account_domain \<Rightarrow> bool" where
  "domain_inv d \<longleftrightarrow>
     length (ad_accounts d) \<le> kMaxAccounts
   \<and> distinct (map ac_dirName (ad_accounts d)) \<and> [] \<notin> set (map ac_dirName (ad_accounts d))
   \<and> active_index_ok (ad_active d) (length (ad_accounts d))"

lemma domain_inv_initial: "domain_inv initial_domain"
  by (simp add: domain_inv_def initial_domain_def active_index_ok_def)

lemma active_account_some:
  "domain_inv d \<Longrightarrow> ad_accounts d \<noteq> [] \<Longrightarrow>
   active_account d = Some (ad_accounts d ! nat (ad_active d))
   \<and> 0 \<le> ad_active d \<and> nat (ad_active d) < length (ad_accounts d)"
  by (auto simp: domain_inv_def active_index_ok_def active_account_def account_at_def dom_count_def)

lemma remove_nth_distinct:
  assumes "distinct (map f xs)" and "i < length xs"
  shows "distinct (map f (take i xs @ drop (i + 1) xs))"
    and "set (take i xs @ drop (i + 1) xs) = {x \<in> set xs. f x \<noteq> f (xs ! i)}"
proof -
  have split: "xs = take i xs @ xs ! i # drop (i + 1) xs" using assms(2) by (simp add: id_take_nth_drop)
  have d: "distinct (map f (take i xs @ xs ! i # drop (i + 1) xs))" using assms(1) split by simp
  then show "distinct (map f (take i xs @ drop (i + 1) xs))" by auto
  have "set xs = set (take i xs @ xs ! i # drop (i + 1) xs)" using split by simp
  moreover have "f y \<noteq> f (xs ! i)" if "y \<in> set (take i xs @ drop (i + 1) xs)" for y
    using d that by (auto simp: image_iff)
  ultimately show "set (take i xs @ drop (i + 1) xs) = {x \<in> set xs. f x \<noteq> f (xs ! i)}" by auto
qed

lemma removal_index_ok:
  "active_index_ok active (Suc n) \<Longrightarrow> 0 \<le> i \<Longrightarrow> i \<le> int n \<Longrightarrow>
   active_index_ok (ActiveIndexAfterRemoval active i (int n)) n"
  by (auto simp: active_index_ok_def ActiveIndexAfterRemoval_def qBound_def)

lemma dom_remove_accounts:
  "0 \<le> index \<Longrightarrow> index < dom_count d \<Longrightarrow>
   ad_accounts (fst (dom_remove d index))
     = take (nat index) (ad_accounts d) @ drop (nat index + 1) (ad_accounts d)
   \<and> ad_active (fst (dom_remove d index)) = ActiveIndexAfterRemoval (ad_active d) index (dom_count d - 1)"
  by (auto simp: dom_remove_def Let_def dom_count_def)

lemma dom_remove_inv: "domain_inv d \<Longrightarrow> domain_inv (fst (dom_remove d index))"
proof (cases "index < 0 \<or> dom_count d \<le> index")
  case False
  assume inv: "domain_inv d"
  let ?xs = "ad_accounts d"
  have i: "0 \<le> index" "nat index < length ?xs" using False by (auto simp: dom_count_def)
  define rest where "rest = take (nat index) ?xs @ drop (nat index + 1) ?xs"
  have len: "length ?xs = Suc (length rest)" using i by (simp add: rest_def)
  have "distinct (map ac_dirName ?xs)" using inv by (simp add: domain_inv_def)
  note rest = remove_nth_distinct [OF this i(2), folded rest_def]
  have n: "dom_count d - 1 = int (length rest)" using len by (simp add: dom_count_def)
  from False have "0 \<le> index" "index < dom_count d" by auto
  from dom_remove_accounts [OF this, folded rest_def]
  have new: "ad_accounts (fst (dom_remove d index)) = rest"
    "ad_active (fst (dom_remove d index)) = ActiveIndexAfterRemoval (ad_active d) index (int (length rest))"
    unfolding n by simp_all
  have "active_index_ok (ActiveIndexAfterRemoval (ad_active d) index (int (length rest))) (length rest)"
    using removal_index_ok [of "ad_active d" "length rest" index] inv len i
    by (simp add: domain_inv_def)
  with inv rest len show ?thesis unfolding domain_inv_def new by auto
qed (simp add: dom_remove_def)

text \<open>Removing another account leaves the active one where the user sees it; removing the active
  one promotes the next in order, or the new last.\<close>

lemma nth_removed:
  "i < length xs \<Longrightarrow> j < length xs - 1 \<Longrightarrow>
   (take i xs @ drop (i + 1) xs) ! j = (if j < i then xs ! j else xs ! (j + 1))"
  by (simp add: nth_append min_def)

lemma dom_remove_active:
  assumes inv: "domain_inv d" and i: "0 \<le> index" "index < dom_count d"
  shows "active_account (fst (dom_remove d index)) =
     (if index \<noteq> ad_active d then active_account d
      else if dom_count d = 1 then None
      else account_at d (if index < dom_count d - 1 then index + 1 else index - 1))"
proof -
  let ?xs = "ad_accounts d"
  obtain k where k: "index = int k" "k < length ?xs"
    using i by (metis dom_count_def int_nat_eq nat_less_iff not_less zle_int)
  obtain a where a: "ad_active d = int a" "a < length ?xs"
  proof -
    from k have "?xs \<noteq> []" by auto
    from active_account_some [OF inv this] have "0 \<le> ad_active d" "nat (ad_active d) < length ?xs" by auto
    then show thesis using that [of "nat (ad_active d)"] by simp
  qed
  define d' where "d' = fst (dom_remove d index)"
  have new: "ad_accounts d' = take k ?xs @ drop (k + 1) ?xs"
    "ad_active d' = ActiveIndexAfterRemoval (int a) (int k) (int (length ?xs) - 1)"
    using dom_remove_accounts [OF i] k a by (simp_all add: dom_count_def d'_def)
  have count: "dom_count d' = int (length ?xs) - 1"
    using k unfolding dom_count_def new(1) by simp
  consider "length ?xs = 1" | "length ?xs > 1" "k < a" | "length ?xs > 1" "a < k"
    | "length ?xs > 1" "a = k" "Suc k < length ?xs" | "length ?xs > 1" "a = k" "Suc k = length ?xs"
    using a k by linarith
  then have "active_account d' =
      (if index \<noteq> ad_active d then active_account d
       else if dom_count d = 1 then None
       else account_at d (if index < dom_count d - 1 then index + 1 else index - 1))"
  proof cases
    case 1
    with a k show ?thesis
      unfolding active_account_def account_at_def count new(2) dom_count_def
      by (simp add: ActiveIndexAfterRemoval_def)
  next
    case 2
    then have act: "ad_active d' = int (a - 1)"
      using a by (simp add: new ActiveIndexAfterRemoval_def qBound_def)
    have "a - 1 < length ?xs - 1" using 2 a by simp
    from 2 a k nth_removed [OF k(2) this] show ?thesis
      unfolding active_account_def account_at_def count act new(1) dom_count_def a(1) k(1)
      by (simp add: nat_diff_distrib')
  next
    case 3
    then have act: "ad_active d' = int a"
      using a k by (simp add: new ActiveIndexAfterRemoval_def qBound_def)
    from 3 a k nth_removed [OF k(2), of a] show ?thesis
      unfolding active_account_def account_at_def count act new(1) dom_count_def a(1) k(1) by simp
  next
    case 4
    then have act: "ad_active d' = int k"
      using a k by (simp add: new ActiveIndexAfterRemoval_def)
    from 4 a k nth_removed [OF k(2), of k] show ?thesis
      unfolding active_account_def account_at_def count act new(1) dom_count_def a(1) k(1)
      by (simp add: nat_add_distrib)
  next
    case 5
    then have act: "ad_active d' = int (k - 1)"
      using a k by (simp add: new ActiveIndexAfterRemoval_def)
    have "k - 1 < length ?xs - 1" using 5 k by simp
    from 5 a k nth_removed [OF k(2) this] show ?thesis
      unfolding active_account_def account_at_def count act new(1) dom_count_def a(1) k(1)
      by (simp add: nat_diff_distrib')
  qed
  then show ?thesis by (simp only: d'_def)
qed

subsection \<open>The domain as a machine\<close>

text \<open>What the program does with its accounts: add a fresh one (under a name from
  \<open>allocateDirName\<close>, as every caller does), remove and activate, load the stored list, sign in and
  out.  The second component is what the domain tells its listeners.\<close>

datatype domain_op =
  AddFresh | RemoveAt int | ActivateAt int | RestoreFrom json_object
| SignInAt int qstring qstring qstring qstring qstring qstring | SignOutAt int

definition update_at :: "account_domain \<Rightarrow> int \<Rightarrow> (account \<Rightarrow> account) \<Rightarrow> account_domain" where
  "update_at d index f =
     (case account_at d index of
        None \<Rightarrow> d
      | Some a \<Rightarrow> d\<lparr>ad_accounts := (ad_accounts d)[nat index := f a]\<rparr>)"

fun domain_call :: "account_domain \<Rightarrow> domain_op \<Rightarrow> account_domain \<times> domain_signal list" where
  "domain_call d AddFresh =
     (case dom_add d (Some (new_account (allocateDirName d))) of (d1, sigs, _) \<Rightarrow> (d1, sigs))"
| "domain_call d (RemoveAt index) = dom_remove d index"
| "domain_call d (ActivateAt index) =
     (case dom_activate d index of (d1, sigs, _) \<Rightarrow> (d1, sigs))"
| "domain_call d (RestoreFrom object) = restore d (ParseAccountIndex object)"
| "domain_call d (SignInAt index homeserver userId deviceId backend displayName avatarUrl) =
     (update_at d index (\<lambda>a. persistSession a homeserver userId deviceId backend displayName avatarUrl), [])"
| "domain_call d (SignOutAt index) = (update_at d index ac_clear, [])"

lemma kept_dir_name [simp]:
  "ac_dirName (persistSession a homeserver userId deviceId backend displayName avatarUrl) = ac_dirName a"
  "ac_dirName (ac_clear a) = ac_dirName a"
  "ac_dirName (restored_account e) = ae_dirName e"
  "ac_dirName (new_account dirName) = dirName"
  by (simp_all add: persistSession_def setProfile_def ac_clear_def restored_account_def new_account_def)

lemma update_at_dirs:
  "(\<And>a. ac_dirName (f a) = ac_dirName a) \<Longrightarrow>
   map ac_dirName (ad_accounts (update_at d index f)) = map ac_dirName (ad_accounts d)
   \<and> ad_active (update_at d index f) = ad_active d"
  by (auto simp: update_at_def map_update account_at_def dom_count_def list_update_same_conv
      split: option.split)

lemma dirs_inv:
  "map ac_dirName (ad_accounts d') = map ac_dirName (ad_accounts d) \<Longrightarrow> ad_active d' = ad_active d \<Longrightarrow>
   domain_inv d \<Longrightarrow> domain_inv d'"
  unfolding domain_inv_def by (metis length_map)

lemma add_fresh_inv:
  "domain_inv d \<Longrightarrow> domain_inv (fst (domain_call d AddFresh))"
  using first_free_fresh [of "map ac_dirName (ad_accounts d)"] first_free_ne [of "map ac_dirName (ad_accounts d)"]
  by (auto simp: dom_add_def Let_def canAddAccount_def dom_count_def domain_inv_def active_index_ok_def
      allocateDirName_def split: if_splits)

lemma restore_inv: "domain_inv (fst (restore d (ParseAccountIndex object)))"
proof -
  have "account_index_ok (ParseAccountIndex object)" by (rule parsed_index_ok)
  then show ?thesis
    by (simp add: restore_def Let_def domain_inv_def account_index_ok_def comp_def dom_count_def
        clamp_active_ok)
qed

lemma domain_call_inv: "domain_inv d \<Longrightarrow> domain_inv (fst (domain_call d e))"
proof (cases e)
  case (ActivateAt index)
  then show "domain_inv d \<Longrightarrow> ?thesis"
    by (auto simp: dom_activate_def domain_inv_def active_index_ok_def dom_count_def)
qed (auto simp: dom_remove_inv restore_inv update_at_dirs intro: dirs_inv
      simp del: domain_call.simps(1) intro!: add_fresh_inv)

text \<open>A listener that keeps the index it was told last.\<close>

fun decode_active_index :: "domain_signal \<Rightarrow> int option" where
  "decode_active_index (ActiveChanged index) = Some index"
| "decode_active_index _ = None"

interpretation domain_listener:
  signalling_machine domain_call domain_inv ad_active decode_active_index
proof
  fix d e
  assume inv: "domain_inv d"
  show "domain_inv (fst (domain_call d e))" by (rule domain_call_inv [OF inv])
  show "replay decode_active_index (ad_active d) (snd (domain_call d e)) = ad_active (fst (domain_call d e))"
    by (cases e) (auto simp: dom_add_def dom_remove_def dom_activate_def restore_def Let_def update_at_dirs)
qed

text \<open>C30: after any calls, from the empty domain, however damaged the stored list it is restored
  from: at most six accounts, no two in one directory, the active index in range exactly when
  there is an account; and a listener that keeps the last index it was told knows it.\<close>

theorem domain_run_consistent:
  "let (d, sigs) = run_signals domain_call initial_domain es
   in domain_inv d \<and> replay decode_active_index (-1) sigs = ad_active d"
  using domain_listener.listener_current [OF domain_inv_initial, of es]
    domain_listener.run_inv [OF domain_inv_initial, of es]
  by (simp add: case_prod_beta fst_run_signals initial_domain_def)

subsection \<open>Lookups\<close>

lemma index_where_spec:
  "(\<exists>x \<in> set xs. P x) \<Longrightarrow> (\<exists>n < length xs. index_where P i xs = i + int n \<and> P (xs ! n))"
proof (induction xs arbitrary: i)
  case (Cons x xs)
  show ?case
  proof (cases "P x")
    case False
    with Cons.prems have "\<exists>x \<in> set xs. P x" by auto
    from Cons.IH [OF this, of "i + 1"] obtain n where "n < length xs"
      "index_where P (i + 1) xs = i + 1 + int n" "P (xs ! n)" by auto
    with False show ?thesis by (intro exI [of _ "Suc n"]) simp
  qed (auto intro!: exI [of _ 0])
qed simp

lemma index_where_none: "\<not> (\<exists>x \<in> set xs. P x) \<Longrightarrow> index_where P i xs = -1"
  by (induction xs arbitrary: i) auto

text \<open>By the invariant a directory name leads to its account and to no other.\<close>

lemma indexOfDirName_account:
  assumes "domain_inv d"
  shows "account_at d (indexOfDirName d dirName) = Some a \<longleftrightarrow> a \<in> set (ad_accounts d) \<and> ac_dirName a = dirName"
proof (cases "\<exists>x \<in> set (ad_accounts d). ac_dirName x = dirName")
  case True
  then obtain n where n: "n < length (ad_accounts d)" "indexOfDirName d dirName = int n"
    "ac_dirName (ad_accounts d ! n) = dirName"
    using index_where_spec [of "ad_accounts d" "\<lambda>a. ac_dirName a = dirName" 0]
    by (auto simp: indexOfDirName_def)
  have "inj_on ac_dirName (set (ad_accounts d))"
    using assms by (simp add: domain_inv_def distinct_map)
  then have "a \<in> set (ad_accounts d) \<and> ac_dirName a = dirName \<longleftrightarrow> a = ad_accounts d ! n"
    using n by (auto dest: inj_onD)
  with n show ?thesis by (auto simp: account_at_def dom_count_def)
next
  case False
  then have "indexOfDirName d dirName = -1"
    unfolding indexOfDirName_def by (rule index_where_none)
  with False show ?thesis by (auto simp: account_at_def)
qed

lemma indexOfDirName_range:
  "indexOfDirName d dirName = -1 \<or>
   0 \<le> indexOfDirName d dirName \<and> indexOfDirName d dirName < dom_count d"
proof (cases "\<exists>x \<in> set (ad_accounts d). ac_dirName x = dirName")
  case True
  from index_where_spec [OF this, of 0] show ?thesis by (auto simp: indexOfDirName_def dom_count_def)
next
  case False
  from index_where_none [OF this, of 0] show ?thesis by (simp add: indexOfDirName_def)
qed

lemma indexOfDirName_active:
  assumes "domain_inv d"
  shows "indexOfDirName d dirName = ad_active d \<and> 0 \<le> ad_active d \<longleftrightarrow>
     (\<exists>a. active_account d = Some a \<and> ac_dirName a = dirName)"
proof
  assume l: "indexOfDirName d dirName = ad_active d \<and> 0 \<le> ad_active d"
  then have "ad_accounts d \<noteq> []"
    using assms by (auto simp: domain_inv_def active_index_ok_def)
  from active_account_some [OF assms this] obtain a where a: "active_account d = Some a" by blast
  with l have "account_at d (indexOfDirName d dirName) = Some a" by (simp add: active_account_def)
  then show "\<exists>a. active_account d = Some a \<and> ac_dirName a = dirName"
    using a by (auto simp: indexOfDirName_account [OF assms])
next
  assume "\<exists>a. active_account d = Some a \<and> ac_dirName a = dirName"
  then obtain a where a: "active_account d = Some a" "ac_dirName a = dirName" by blast
  then have act: "0 \<le> ad_active d" "nat (ad_active d) < length (ad_accounts d)"
    "ad_accounts d ! nat (ad_active d) = a"
    by (auto simp: active_account_def account_at_def dom_count_def split: if_splits)
  then have "a \<in> set (ad_accounts d)" by auto
  with a have at: "account_at d (indexOfDirName d dirName) = Some a"
    by (simp add: indexOfDirName_account [OF assms])
  then have n: "0 \<le> indexOfDirName d dirName" "nat (indexOfDirName d dirName) < length (ad_accounts d)"
    "ad_accounts d ! nat (indexOfDirName d dirName) = a"
    by (auto simp: account_at_def dom_count_def split: if_splits)
  have "distinct (ad_accounts d)" using assms by (simp add: domain_inv_def distinct_map)
  with act n have "nat (indexOfDirName d dirName) = nat (ad_active d)"
    by (auto simp: distinct_conv_nth)
  with act n show "indexOfDirName d dirName = ad_active d \<and> 0 \<le> ad_active d" by linarith
qed

subsection \<open>The badge of all accounts\<close>

definition account_badge :: "bool \<Rightarrow> account \<Rightarrow> int" where
  "account_badge includeMuted a =
     (case ac_unreadStateStore a of None \<Rightarrow> 0 | Some store \<Rightarrow> totalUnreadCount store includeMuted)"

definition stores_ok :: "account_domain \<Rightarrow> bool" where
  "stores_ok d \<longleftrightarrow> (\<forall>a \<in> set (ad_accounts d). pred_option unread_inv (ac_unreadStateStore a))"

lemma foldl_badge:
  "foldl (\<lambda>n a. case ac_unreadStateStore a of
                     None \<Rightarrow> n | Some store \<Rightarrow> n + totalUnreadCount store m) n as
     = n + sum_list (map (account_badge m) as)"
  by (induction as arbitrary: n) (auto simp: account_badge_def split: option.split)

lemma sum_list_replace:
  "i < length xs \<Longrightarrow> sum_list (xs[i := y]) = sum_list xs - xs ! i + (y :: int)"
proof (induction xs arbitrary: i)
  case (Cons x xs)
  then show ?case by (cases i) simp_all
qed simp

text \<open>The unread store of one account after any calls on it, in its place in the domain.\<close>

definition feed_store :: "account_domain \<Rightarrow> nat \<Rightarrow> unread_op list \<Rightarrow> account_domain" where
  "feed_store d i es =
     update_at d (int i) (\<lambda>a. a\<lparr>ac_unreadStateStore :=
       map_option (\<lambda>s. foldl (\<lambda>t e. fst (unread_apply t e)) s es) (ac_unreadStateStore a)\<rparr>)"

text \<open>The dock badge counts every account, on screen or not: it is the sum of the accounts'
  totals, so unread messages that reach a background account's store change it by exactly that
  account's change; and through any such feeds it is never negative nor larger without the muted
  rooms than with them.\<close>

theorem badge_sums_accounts:
  assumes "stores_ok d" and "i < length (ad_accounts d)"
  shows "let d' = feed_store d i es
         in stores_ok d'
          \<and> totalUnreadBadge d' m = totalUnreadBadge d m
              - account_badge m (ad_accounts d ! i) + account_badge m (ad_accounts d' ! i)
          \<and> 0 \<le> totalUnreadBadge d' False \<and> totalUnreadBadge d' False \<le> totalUnreadBadge d' True"
proof -
  define f :: "account \<Rightarrow> account" where "f = (\<lambda>a. a\<lparr>ac_unreadStateStore :=
       map_option (\<lambda>s. foldl (\<lambda>t e. fst (unread_apply t e)) s es) (ac_unreadStateStore a)\<rparr>)"
  define xs where "xs = ad_accounts d"
  have i: "i < length xs" using assms(2) by (simp add: xs_def)
  have d': "ad_accounts (feed_store d i es) = xs[i := f (xs ! i)]"
    using i by (simp add: feed_store_def update_at_def account_at_def dom_count_def f_def xs_def)
  have "pred_option unread_inv (ac_unreadStateStore (f a))"
    if "pred_option unread_inv (ac_unreadStateStore a)" for a
    using that unread_badge.run_inv by (cases "ac_unreadStateStore a") (auto simp: f_def)
  then have ok: "stores_ok (feed_store d i es)"
    using assms(1) i set_update_subset_insert [of xs i "f (xs ! i)"]
    by (auto simp: stores_ok_def d' xs_def [symmetric] dest!: subsetD)
  have sum: "sum_list (map (account_badge m) (xs[i := y]))
      = sum_list (map (account_badge m) xs) - account_badge m (xs ! i) + account_badge m y" for y
    using i by (simp add: map_update sum_list_replace)
  have bounds: "0 \<le> account_badge False a \<and> account_badge False a \<le> account_badge True a"
    if "a \<in> set (ad_accounts (feed_store d i es))" for a
    using ok that total_bounds by (auto simp: stores_ok_def account_badge_def split: option.split)
  have badge: "totalUnreadBadge e b = sum_list (map (account_badge b) (ad_accounts e))" for e b
    by (simp add: totalUnreadBadge_def foldl_badge)
  have "0 \<le> totalUnreadBadge (feed_store d i es) False"
    unfolding badge by (rule sum_list_nonneg) (use bounds in auto)
  moreover have "totalUnreadBadge (feed_store d i es) False \<le> totalUnreadBadge (feed_store d i es) True"
    unfolding badge by (rule sum_list_mono) (use bounds in auto)
  moreover have "totalUnreadBadge (feed_store d i es) m = totalUnreadBadge d m
      - account_badge m (xs ! i) + account_badge m (ad_accounts (feed_store d i es) ! i)"
    using i by (simp add: badge d' sum xs_def [symmetric])
  ultimately show ?thesis using ok by (simp add: Let_def xs_def)
qed

theorem badge_sums_accounts_witness:
  "let d = \<lparr> ad_accounts = [new_account ''0'',
               (new_account ''1'')\<lparr>ac_unreadStateStore := Some initial_unread_store\<rparr>], ad_active = 0 \<rparr>;
       es = [RoomListSnapshot [default_room_summary\<lparr>rs_roomId := ''!r'', rs_unreadCount := 3\<rparr>]]
   in 0 \<le> totalUnreadBadge (feed_store d 1 es) False"
proof -
  let ?d = "\<lparr> ad_accounts = [new_account ''0'',
               (new_account ''1'')\<lparr>ac_unreadStateStore := Some initial_unread_store\<rparr>], ad_active = 0 \<rparr>"
  have "stores_ok ?d" using unread_inv_initial by (simp add: stores_ok_def new_account_def)
  moreover have "1 < length (ad_accounts ?d)" by simp
  ultimately show ?thesis using badge_sums_accounts [of ?d 1] unfolding Let_def by blast
qed

end
