(* ===== verification/App_Controller.thy ===== *)
theory App_Controller imports Accounts "HOL-Library.Signed_Division" begin

section \<open>What the application does with its accounts\<close>

text \<open>
  The account policies of \<^verbatim>\<open>src/src/app/app_controller.cpp\<close>: the pruned start, the classification of a
  session's secrets and the sweep of dead entries, removing duplicates after a sign-in, the entry
  the user removes, and the forced sign-out of a background account.  Effects outside the program
  (secrets deleted from the keychain, directories removed, notifications detached) are the
  \<open>effect\<close>s a step returns, in order.  Windows, dialogs and animations are left out; the keychain,
  the secret store's state and the bridge are parameters.
\<close>

datatype effect =
  DeleteSecret qstring | RemoveDataDir qstring | MakeDataDir qstring | DetachAccount qstring
| SaveSettings | SignOutInteractively | StartLogout nat

definition deleteSecrets :: "account \<Rightarrow> effect list" where
  "deleteSecrets a = map DeleteSecret (secretKeys a)"

subsection \<open>Start-up\<close>

text \<open>The loops that walk the accounts from the last to the first and drop some: \<open>i\<close> counts the ones
  still to look at, \<open>drop_it\<close> is the condition and \<open>act\<close> what else is done for one that goes.\<close>

fun remove_down ::
  "(account \<Rightarrow> bool) \<Rightarrow> (account \<Rightarrow> effect list) \<Rightarrow> nat \<Rightarrow> account_domain
     \<Rightarrow> account_domain \<times> effect list" where
  "remove_down drop_it act 0 d = (d, [])"
| "remove_down drop_it act (Suc i) d =
     (case account_at d (int i) of
        None \<Rightarrow> remove_down drop_it act i d
      | Some a \<Rightarrow>
          if drop_it a
          then case remove_down drop_it act i (fst (dom_remove d (int i))) of
                 (d1, effects) \<Rightarrow> (d1, act a @ effects)
          else remove_down drop_it act i d)"

definition prune :: "account_domain \<Rightarrow> account_domain \<times> effect list" where
  "prune d = remove_down (\<lambda>a. \<not> ac_hasSession a) (\<lambda>a. [RemoveDataDir (ac_dirName a)])
     (length (ad_accounts d)) d"

definition startup :: "account_index \<Rightarrow> account_domain \<times> effect list" where
  "startup index =
     (let d0 = fst (restore initial_domain index);
          (d1, pruned) = prune d0;
          d2 = (if ad_accounts d1 = [] then fst (dom_add d1 (Some (new_account (allocateDirName d1))))
                else d1)
      in (d2, pruned @ (if pruned \<noteq> [] then [SaveSettings] else [])))"

subsection \<open>Dead entries\<close>

datatype secrets_state = NoSession | SecretsComplete | SecretsIncomplete | AllAbsent | ReadFailed

text \<open>\<open>load\<close> is \<open>ProtocolBridge::keychainLoad\<close>: the value (empty when there is none) and whether
  the keychain refused the read.\<close>

fun count_secrets ::
  "(qstring \<Rightarrow> qstring \<times> bool) \<Rightarrow> qstring list \<Rightarrow> int \<Rightarrow> int \<Rightarrow> secrets_state" where
  "count_secrets load [] present missing =
     (if missing = 0 then SecretsComplete else if present = 0 then AllAbsent else SecretsIncomplete)"
| "count_secrets load (key # keys) present missing =
     (case load key of (value, failed) \<Rightarrow>
        if failed then ReadFailed
        else if value = [] then count_secrets load keys present (missing + 1)
        else count_secrets load keys (present + 1) missing)"

definition ClassifySessionSecrets ::
  "(qstring \<Rightarrow> qstring \<times> bool) \<Rightarrow> account_settings \<Rightarrow> qstring \<Rightarrow> secrets_state" where
  "ClassifySessionSecrets load s dirName =
     (if \<not> hasSession s then NoSession
      else count_secrets load
        [SessionSecretKey ''session_access_token'' (as_sessionHomeserver s) (as_sessionUserId s) (as_sessionDeviceId s),
         SessionSecretKey ''sdk_store_passphrase'' (as_sessionHomeserver s) (as_sessionUserId s) (as_sessionDeviceId s),
         SessionSecretKey ''search_passphrase'' (as_sessionHomeserver s) (as_sessionUserId s) (as_sessionDeviceId s),
         LocalSecretKey dirName ''app_cache_passphrase'',
         LocalSecretKey dirName ''preview_cache_passphrase'',
         LocalSecretKey dirName ''media_cache_passphrase''] 0 0)"

text \<open>The answer and the \<open>readFailed\<close> flag.\<close>

definition HasSecureSessionSecrets ::
  "(qstring \<Rightarrow> qstring \<times> bool) \<Rightarrow> account_settings \<Rightarrow> qstring \<Rightarrow> bool \<times> bool" where
  "HasSecureSessionSecrets load s dirName =
     (case ClassifySessionSecrets load s dirName of
        SecretsComplete \<Rightarrow> (True, False)
      | AllAbsent \<Rightarrow> (False, True)
      | ReadFailed \<Rightarrow> (False, True)
      | SecretsIncomplete \<Rightarrow> (False, False)
      | NoSession \<Rightarrow> (False, False))"

definition classified_accounts ::
  "(qstring \<Rightarrow> qstring \<times> bool) \<Rightarrow> account list \<Rightarrow> (qstring \<times> secrets_state) list" where
  "classified_accounts load accounts =
     map (\<lambda>a. (ac_dirName a, ClassifySessionSecrets load (ac_settings a) (ac_dirName a)))
       (filter ac_hasSession accounts)"

definition undead :: "bool \<Rightarrow> secrets_state \<Rightarrow> bool" where
  "undead anyComplete state \<longleftrightarrow> state = SecretsIncomplete \<or> (state = AllAbsent \<and> anyComplete)"

text \<open>One entry of the second loop of \<open>sweepUndeadAccounts\<close>.\<close>

definition sweep_entry ::
  "bool \<Rightarrow> account_domain \<times> effect list \<Rightarrow> qstring \<times> secrets_state \<Rightarrow> account_domain \<times> effect list" where
  "sweep_entry anyComplete c entry =
     (case c of (d, effects) \<Rightarrow>
        if \<not> undead anyComplete (snd entry) then c
        else let index = indexOfDirName d (fst entry)
             in case account_at d index of
                  None \<Rightarrow> c
                | Some a \<Rightarrow>
                    if index = ad_active d then c
                    else (fst (dom_remove d index),
                          effects @ DetachAccount (ac_dirName a) # deleteSecrets a
                            @ [RemoveDataDir (ac_dirName a)]))"

definition sweepUndeadAccounts ::
  "int \<Rightarrow> (qstring \<Rightarrow> qstring \<times> bool) \<Rightarrow> account_domain \<Rightarrow> account_domain \<times> effect list" where
  "sweepUndeadAccounts storeState load d =
     (if storeState \<noteq> 0 \<and> storeState \<noteq> 3 then (d, [])
      else let classified = classified_accounts load (ad_accounts d);
               anyComplete = list_ex (\<lambda>e. snd e = SecretsComplete) classified;
               (d1, effects) = foldl (sweep_entry anyComplete) (d, []) classified
           in (d1, effects @ (if effects \<noteq> [] then [SaveSettings] else [])))"

subsection \<open>Removing single entries\<close>

text \<open>\<open>removeAccountEntry\<close> and \<open>discardAccount\<close>.\<close>

definition removeAccountEntry :: "account_domain \<Rightarrow> int \<Rightarrow> account_domain \<times> effect list" where
  "removeAccountEntry d index =
     (case account_at d index of
        None \<Rightarrow> (d, [])
      | Some a \<Rightarrow>
          if index = ad_active d then (d, [])
          else (fst (dom_remove d index),
                DetachAccount (ac_dirName a) # deleteSecrets a
                  @ [RemoveDataDir (ac_dirName a), SaveSettings]))"

definition discardAccount :: "account_domain \<Rightarrow> int \<Rightarrow> account_domain \<times> effect list" where
  "discardAccount d index =
     (case account_at d index of
        None \<Rightarrow> (d, [])
      | Some a \<Rightarrow>
          if ac_hasSession a then (d, [])
          else (fst (dom_remove d index),
                DetachAccount (ac_dirName a) # deleteSecrets a
                  @ [RemoveDataDir (ac_dirName a), SaveSettings]))"

text \<open>The loop of \<open>persistSessionFor\<close> that leaves one entry per user id: every other account signed
  in as the same user goes.  An account object is named by its directory.\<close>

definition drop_duplicates :: "qstring \<Rightarrow> qstring \<Rightarrow> account_domain \<Rightarrow> account_domain \<times> effect list" where
  "drop_duplicates dirName userId d =
     remove_down (\<lambda>a. ac_dirName a \<noteq> dirName \<and> as_sessionUserId (ac_settings a) = userId)
       (\<lambda>a. DetachAccount (ac_dirName a) # deleteSecrets a @ [RemoveDataDir (ac_dirName a)])
       (length (ad_accounts d)) d"

text \<open>Where the account-cycling shortcuts go: C++ \<open>%\<close> keeps the sign of the dividend.\<close>

definition adjacent_index :: "account_domain \<Rightarrow> int \<Rightarrow> int option" where
  "adjacent_index d delta =
     (let n = dom_count d
      in if n < 2 then None else Some (((ad_active d + delta) smod n + n) smod n))"

subsection \<open>Forced sign-out\<close>

record forced_state =
  fs_domain :: account_domain
  fs_inFlight :: "qstring set"
  fs_pendingWipes :: "qstring list"

definition forceSignOutBackgroundAccount :: "forced_state \<Rightarrow> int \<Rightarrow> forced_state \<times> effect list" where
  "forceSignOutBackgroundAccount c index =
     (case account_at (fs_domain c) index of
        None \<Rightarrow> (c, [])
      | Some a \<Rightarrow>
          let c1 = c\<lparr>fs_domain := fst (dom_remove (fs_domain c) index)\<rparr>;
              effects = DetachAccount (ac_dirName a) # deleteSecrets a @ [SaveSettings]
          in case ac_bridge a of
               None \<Rightarrow> (c1, effects @ [RemoveDataDir (ac_dirName a)])
             | Some bridge \<Rightarrow>
                 (c1\<lparr>fs_pendingWipes := fs_pendingWipes c1 @ [ac_dirName a]\<rparr>,
                  effects @ [StartLogout bridge]))"

definition handleSessionInvalidated :: "forced_state \<Rightarrow> qstring \<Rightarrow> forced_state \<times> effect list" where
  "handleSessionInvalidated c dirName =
     (let index = indexOfDirName (fs_domain c) dirName
      in case RouteForcedSignOut index (ad_active (fs_domain c)) (dirName \<in> fs_inFlight c) of
           Ignore \<Rightarrow> (c, [])
         | Active \<Rightarrow> (c\<lparr>fs_inFlight := insert dirName (fs_inFlight c)\<rparr>, [SignOutInteractively])
         | Background \<Rightarrow>
             forceSignOutBackgroundAccount (c\<lparr>fs_inFlight := insert dirName (fs_inFlight c)\<rparr>) index)"

text \<open>The end of a bridge's shutdown, and the account the user adds meanwhile, with the bridge
  handed to it; whether a switch is being played (\<open>_switchingAccount\<close>) and the answer of
  \<open>checkSecretBackendForNewSession\<close> are arguments.\<close>

definition shutdownComplete :: "forced_state \<Rightarrow> qstring \<Rightarrow> forced_state \<times> effect list" where
  "shutdownComplete c dirName =
     (if dirName \<in> set (fs_pendingWipes c)
      then (c\<lparr>fs_pendingWipes := remove1 dirName (fs_pendingWipes c)\<rparr>, [RemoveDataDir dirName])
      else (c, []))"

definition showAddAccountIntro ::
  "forced_state \<Rightarrow> bool \<Rightarrow> bool \<Rightarrow> nat \<Rightarrow> forced_state \<times> effect list" where
  "showAddAccountIntro c switchingAccount secretsReady bridge =
     (if \<not> canAddAccount (fs_domain c) \<or> switchingAccount then (c, [])
      else if \<not> secretsReady then (c, [])
      else let dirName = allocateDirName (fs_domain c);
               account = setBridge (setUnreadStateStore (new_account dirName)
                                      (Some initial_unread_store)) (Some bridge)
           in (c\<lparr>fs_domain := fst (dom_add (fs_domain c) (Some account))\<rparr>, [MakeDataDir dirName]))"

datatype controller_event = SessionInvalidated qstring | ShutdownDone qstring | AddAccount bool bool nat

fun controller_step :: "forced_state \<Rightarrow> controller_event \<Rightarrow> forced_state \<times> effect list" where
  "controller_step c (SessionInvalidated dirName) = handleSessionInvalidated c dirName"
| "controller_step c (ShutdownDone dirName) = shutdownComplete c dirName"
| "controller_step c (AddAccount switching ready bridge) = showAddAccountIntro c switching ready bridge"

subsection \<open>Walking down and removing\<close>

lemma remove_nth_filter:
  assumes "distinct (map f xs)" and "i < length xs"
  shows "take i xs @ drop (i + 1) xs = filter (\<lambda>x. f x \<noteq> f (xs ! i)) xs"
proof -
  have split: "xs = take i xs @ xs ! i # drop (i + 1) xs" using assms(2) by (simp add: id_take_nth_drop)
  have keep: "\<And>x. x \<in> set (take i xs @ drop (i + 1) xs) \<Longrightarrow> f x \<noteq> f (xs ! i)"
    using remove_nth_distinct(2) [OF assms] by blast
  have "filter (\<lambda>x. f x \<noteq> f (xs ! i)) xs
      = filter (\<lambda>x. f x \<noteq> f (xs ! i)) (take i xs @ xs ! i # drop (i + 1) xs)"
    using split by simp
  also have "\<dots> = filter (\<lambda>x. f x \<noteq> f (xs ! i)) (take i xs @ drop (i + 1) xs)" by simp
  also have "\<dots> = take i xs @ drop (i + 1) xs" by (rule filter_True) (use keep in blast)
  finally show ?thesis ..
qed

lemma remove_down_spec:
  assumes "domain_inv d" and "i \<le> length (ad_accounts d)"
  shows "let (d', effects) = remove_down drop_it act i d;
             gone = filter drop_it (take i (ad_accounts d))
         in domain_inv d'
          \<and> ad_accounts d' = filter (\<lambda>a. \<not> drop_it a) (take i (ad_accounts d)) @ drop i (ad_accounts d)
          \<and> effects = concat (map act (rev gone))
          \<and> (\<forall>a. active_account d = Some a \<longrightarrow> \<not> drop_it a \<longrightarrow> active_account d' = Some a)"
  using assms
proof (induction i arbitrary: d)
  case (Suc i)
  let ?xs = "ad_accounts d"
  have i: "i < length ?xs" using Suc.prems by simp
  then have at: "account_at d (int i) = Some (?xs ! i)" by (simp add: account_at_def dom_count_def)
  have take: "take (Suc i) ?xs = take i ?xs @ [?xs ! i]" "drop i ?xs = ?xs ! i # drop (Suc i) ?xs"
    using i by (simp_all add: take_Suc_conv_app_nth Cons_nth_drop_Suc)
  show ?case
  proof (cases "drop_it (?xs ! i)")
    case False
    with Suc.IH [OF Suc.prems(1)] i show ?thesis
      by (simp add: at take(1) Let_def case_prod_beta take(2))
  next
    case True
    define d1 where "d1 = fst (dom_remove d (int i))"
    have inv1: "domain_inv d1" using Suc.prems(1) unfolding d1_def by (rule dom_remove_inv)
    have xs1: "ad_accounts d1 = take i ?xs @ drop (Suc i) ?xs"
      using dom_remove_accounts [of "int i" d] i by (simp add: d1_def dom_count_def)
    then have parts: "take i (ad_accounts d1) = take i ?xs" "drop i (ad_accounts d1) = drop (Suc i) ?xs"
      and "i \<le> length (ad_accounts d1)" using i by simp_all
    have act: "active_account d1 = Some a" if "active_account d = Some a" "\<not> drop_it a" for a
    proof -
      have "int i \<noteq> ad_active d" using that True at by (auto simp: active_account_def)
      with that show ?thesis
        using dom_remove_active [OF Suc.prems(1), of "int i"] i by (simp add: d1_def dom_count_def)
    qed
    from Suc.IH [OF inv1 \<open>i \<le> length (ad_accounts d1)\<close>] True act show ?thesis
      by (simp add: at take(1) Let_def case_prod_beta parts d1_def [symmetric])
  qed
qed (simp add: Let_def)

lemma prune_spec:
  assumes "domain_inv d" and "prune d = (d1, pruned)"
  shows "domain_inv d1" and "ad_accounts d1 = filter ac_hasSession (ad_accounts d)"
    and "pruned = map (\<lambda>a. RemoveDataDir (ac_dirName a))
           (rev (filter (\<lambda>a. \<not> ac_hasSession a) (ad_accounts d)))"
    and "\<And>a. active_account d = Some a \<Longrightarrow> ac_hasSession a \<Longrightarrow> active_account d1 = Some a"
  using remove_down_spec [OF assms(1) le_refl, of "\<lambda>a. \<not> ac_hasSession a"
      "\<lambda>a. [RemoveDataDir (ac_dirName a)]"] assms(2)
  by (simp_all add: prune_def Let_def)

text \<open>Starting up.  Whatever the stored list, the program starts with an account on screen and
  a consistent list: exactly the stored accounts that have a session, or one fresh account when
  none has; the stored active account stays active if it has a session; and the directories
  removed are those of the accounts without one.\<close>

theorem startup_has_active_account:
  "let index = ParseAccountIndex object; (d, effects) = startup index;
       stored = map restored_account (ai_entries index);
       kept = filter ac_hasSession stored
   in domain_inv d \<and> active_account d \<noteq> None
    \<and> ad_accounts d = (if kept = [] then [new_account (number_string 0)] else kept)
    \<and> {a. account_at \<lparr> ad_accounts = stored, ad_active = ai_activeIndex index \<rparr> (ai_activeIndex index) = Some a
           \<and> ac_hasSession a} \<subseteq> {a. active_account d = Some a}
    \<and> {dir. RemoveDataDir dir \<in> set effects}
       = ac_dirName ` {a \<in> set stored. \<not> ac_hasSession a}"
proof -
  define index where "index = ParseAccountIndex object"
  define stored where "stored = map restored_account (ai_entries index)"
  define d0 where "d0 = fst (restore initial_domain index)"
  obtain d1 pruned where p: "prune d0 = (d1, pruned)" by fastforce
  have ok: "account_index_ok index" unfolding index_def by (rule parsed_index_ok)
  have inv0: "domain_inv d0" unfolding d0_def index_def by (rule restore_inv)
  have d0: "ad_accounts d0 = stored" "ad_active d0 = ai_activeIndex index"
    using ok by (simp_all add: d0_def restore_def Let_def stored_def dom_count_def
        account_index_ok_def clamp_active_id)
  define kept where "kept = filter ac_hasSession stored"
  note d1 = prune_spec [OF inv0 p, unfolded d0(1), folded kept_def]
  define d2 where "d2 = fst (startup index)"
  have d2: "startup index = (d2, pruned @ (if pruned \<noteq> [] then [SaveSettings] else []))"
    "d2 = (if kept = [] then fst (domain_call d1 AddFresh) else d1)"
    by (simp_all add: d2_def startup_def Let_def d0_def [symmetric] p d1(2) case_prod_beta)
  have inv2: "domain_inv d2"
    using d1(1) add_fresh_inv [of d1] by (simp add: d2(2) del: domain_call.simps)
  have free: "FirstFreeAccountDirName [] = number_string 0"
    by (simp add: FirstFreeAccountDirName_def first_free_from.simps)
  have acc2: "ad_accounts d2 = (if kept = [] then [new_account (number_string 0)] else kept)"
    using d1(1) by (auto simp: d2(2) dom_add_def Let_def canAddAccount_def dom_count_def d1(2)
        kMaxAccounts_def allocateDirName_def free domain_inv_def active_index_ok_def)
  then have some: "active_account d2 \<noteq> None"
    using active_account_some [OF inv2] by (auto split: if_splits)
  have stays: "active_account d2 = Some a"
    if a: "account_at \<lparr> ad_accounts = stored, ad_active = ai_activeIndex index \<rparr> (ai_activeIndex index) = Some a"
      "ac_hasSession a" for a
  proof -
    from a(1) have "active_account d0 = Some a"
      by (auto simp: active_account_def account_at_def dom_count_def d0 split: if_splits)
    moreover from a have "a \<in> set kept"
      by (auto simp: kept_def account_at_def dom_count_def split: if_splits)
    ultimately show ?thesis using d1(4) a(2) by (auto simp: d2(2))
  qed
  have "{dir. RemoveDataDir dir \<in> set pruned} = ac_dirName ` {a \<in> set stored. \<not> ac_hasSession a}"
    by (auto simp: d1(3))
  then show ?thesis
    unfolding Let_def index_def [symmetric] stored_def [symmetric] kept_def [symmetric] d2(1)
    using inv2 some acc2 stays by (simp add: subset_iff)
qed

subsection \<open>Secrets of the accounts that stay\<close>

text \<open>What sign-in establishes: the sessions have different users, and servers and user ids are free
  of the separator of the keys.\<close>

definition sessions_apart :: "account list \<Rightarrow> bool" where
  "sessions_apart accounts \<longleftrightarrow>
     distinct (map (\<lambda>a. as_sessionUserId (ac_settings a)) (filter ac_hasSession accounts))
   \<and> (\<forall>a \<in> set accounts. ac_hasSession a \<longrightarrow>
        no_bar (as_sessionHomeserver (ac_settings a)) \<and> no_bar (as_sessionUserId (ac_settings a)))"

lemma secret_keys_apart:
  assumes "sessions_apart accounts" and "a \<in> set accounts" "b \<in> set accounts"
    and "ac_dirName a \<noteq> ac_dirName b"
  shows "set (secretKeys a) \<inter> set (secretKeys b) = {}"
proof (cases "ac_hasSession a \<and> ac_hasSession b")
  case True
  with assms have "as_sessionUserId (ac_settings a) \<noteq> as_sessionUserId (ac_settings b)"
    by (auto simp: sessions_apart_def distinct_map dest: inj_onD)
  with True assms show ?thesis
    unfolding secretKeys_def by (intro account_keys_disjoint) (auto simp: sessions_apart_def)
next
  case False
  with assms(4) show ?thesis
    by (auto simp: secretKeys_def AccountSecretKeys_def ac_hasSession_def hasSession_def local_key_inj
        kinds_no_bar session_not_local session_not_local [symmetric])
qed

lemma deletes_own_keys: "DeleteSecret k \<in> set (deleteSecrets a) \<longleftrightarrow> k \<in> set (secretKeys a)"
  by (auto simp: deleteSecrets_def)

subsection \<open>The sweep\<close>

lemma remove_other:
  assumes "domain_inv d" and "account_at d index = Some a" and "index \<noteq> ad_active d"
  shows "domain_inv (fst (dom_remove d index))"
    and "active_account (fst (dom_remove d index)) = active_account d"
    and "ad_accounts (fst (dom_remove d index))
           = filter (\<lambda>x. ac_dirName x \<noteq> ac_dirName a) (ad_accounts d)"
proof -
  from assms(2) have i: "0 \<le> index" "index < dom_count d" "ad_accounts d ! nat index = a"
    by (auto simp: account_at_def split: if_splits)
  show "domain_inv (fst (dom_remove d index))" using assms(1) by (rule dom_remove_inv)
  show "active_account (fst (dom_remove d index)) = active_account d"
    using dom_remove_active [OF assms(1) i(1,2)] assms(3) by simp
  have "distinct (map ac_dirName (ad_accounts d))" using assms(1) by (simp add: domain_inv_def)
  from remove_nth_filter [OF this, of "nat index"] i dom_remove_accounts [OF i(1,2)]
  show "ad_accounts (fst (dom_remove d index))
      = filter (\<lambda>x. ac_dirName x \<noteq> ac_dirName a) (ad_accounts d)"
    by (simp add: dom_count_def)
qed

lemma sweep_entry_spec:
  assumes inv: "domain_inv d"
  shows "let c = sweep_entry b (d, effects) entry;
             goes = (\<lambda>a. undead b (snd entry) \<and> ac_dirName a = fst entry \<and> active_account d \<noteq> Some a)
         in domain_inv (fst c) \<and> active_account (fst c) = active_account d
          \<and> ad_accounts (fst c) = filter (\<lambda>a. \<not> goes a) (ad_accounts d)
          \<and> snd c = effects @ concat (map (\<lambda>a. DetachAccount (ac_dirName a) # deleteSecrets a
                                     @ [RemoveDataDir (ac_dirName a)]) (filter goes (ad_accounts d)))"
    (is "let c = ?c; goes = ?goes in _")
proof -
  have distinct_filter_eq_singleton: "distinct xs \<Longrightarrow> x \<in> set xs \<Longrightarrow> filter (\<lambda>y. y = x) xs = [x]"
    for x and xs :: "account list" by (induction xs) (auto simp: filter_empty_conv)
  let ?i = "indexOfDirName d (fst entry)"
  have one: "distinct (map ac_dirName (ad_accounts d))" using inv by (simp add: domain_inv_def)
  consider "\<not> undead b (snd entry)" | "account_at d ?i = None" "undead b (snd entry)"
    | a where "undead b (snd entry)" "account_at d ?i = Some a" "?i = ad_active d"
    | a where "undead b (snd entry)" "account_at d ?i = Some a" "?i \<noteq> ad_active d"
    by (cases "account_at d ?i") blast+
  then show ?thesis
  proof cases
    case 2
    then have "\<And>a. a \<in> set (ad_accounts d) \<Longrightarrow> ac_dirName a \<noteq> fst entry"
      using indexOfDirName_account [OF inv] by (metis option.distinct(1))
    then have "filter ?goes (ad_accounts d) = []" "filter (\<lambda>a. \<not> ?goes a) (ad_accounts d) = ad_accounts d"
      by (auto simp: filter_empty_conv filter_id_conv)
    with 2 inv show ?thesis by (simp add: sweep_entry_def)
  next
    case 3
    then have "active_account d = Some a" by (simp add: active_account_def)
    moreover have "\<And>x. x \<in> set (ad_accounts d) \<Longrightarrow> ac_dirName x = fst entry \<Longrightarrow> x = a"
      using 3(2) indexOfDirName_account [OF inv] by (metis option.inject)
    ultimately have "filter ?goes (ad_accounts d) = []"
      "filter (\<lambda>a. \<not> ?goes a) (ad_accounts d) = ad_accounts d"
      by (auto simp: filter_empty_conv filter_id_conv)
    moreover have "sweep_entry b (d, effects) entry = (d, effects)"
      unfolding sweep_entry_def using 3 by simp
    ultimately show ?thesis using inv unfolding Let_def by simp
  next
    case 4
    from 4(2) indexOfDirName_account [OF inv]
    have a: "a \<in> set (ad_accounts d)" "ac_dirName a = fst entry" by auto
    have only: "x = a" if "x \<in> set (ad_accounts d)" "ac_dirName x = fst entry" for x
      using 4(2) that indexOfDirName_account [OF inv] by (metis option.inject)
    have other: "active_account d \<noteq> Some a"
      using indexOfDirName_active [OF inv, of "fst entry"] 4(3) a(2) by auto
    have goes: "?goes x \<longleftrightarrow> x = a" if "x \<in> set (ad_accounts d)" for x
    proof
      assume "?goes x"
      then show "x = a" using only [OF that] by blast
    next
      assume "x = a"
      then show "?goes x" using 4(1) a(2) other by blast
    qed
    then have "filter ?goes (ad_accounts d) = filter (\<lambda>x. x = a) (ad_accounts d)"
      by (rule filter_cong [OF refl])
    also have "\<dots> = [a]"
      using a(1) one by (simp add: distinct_map distinct_filter_eq_singleton)
    finally have gone: "filter ?goes (ad_accounts d) = [a]" .
    have kept: "filter (\<lambda>a. \<not> ?goes a) (ad_accounts d)
        = filter (\<lambda>x. ac_dirName x \<noteq> ac_dirName a) (ad_accounts d)"
    proof (rule filter_cong [OF refl])
      fix x assume "x \<in> set (ad_accounts d)"
      then show "(\<not> ?goes x) = (ac_dirName x \<noteq> ac_dirName a)"
        using goes only a(2) by metis
    qed
    have "sweep_entry b (d, effects) entry = (fst (dom_remove d ?i),
        effects @ DetachAccount (ac_dirName a) # deleteSecrets a @ [RemoveDataDir (ac_dirName a)])"
      using 4 by (simp add: sweep_entry_def)
    with remove_other [OF inv 4(2,3)] show ?thesis
      unfolding Let_def gone kept by simp
  qed (use inv in \<open>simp add: sweep_entry_def\<close>)
qed

text \<open>The accounts the sweep takes: with a session whose secrets are provably gone, and not on
  screen.\<close>

definition provably_dead ::
  "int \<Rightarrow> (qstring \<Rightarrow> qstring \<times> bool) \<Rightarrow> account_domain \<Rightarrow> account \<Rightarrow> bool" where
  "provably_dead storeState load d a \<longleftrightarrow>
     (storeState = 0 \<or> storeState = 3) \<and> ac_hasSession a \<and> active_account d \<noteq> Some a
   \<and> (ClassifySessionSecrets load (ac_settings a) (ac_dirName a) = SecretsIncomplete
      \<or> (ClassifySessionSecrets load (ac_settings a) (ac_dirName a) = AllAbsent
         \<and> (\<exists>b \<in> set (ad_accounts d).
               ClassifySessionSecrets load (ac_settings b) (ac_dirName b) = SecretsComplete)))"

lemma sweep_entries_spec:
  assumes "domain_inv d"
  shows "let c = foldl (sweep_entry b) (d, effects) entries;
             goes = (\<lambda>a. (\<exists>e \<in> set entries. undead b (snd e) \<and> ac_dirName a = fst e)
                          \<and> active_account d \<noteq> Some a)
         in domain_inv (fst c) \<and> active_account (fst c) = active_account d
          \<and> ad_accounts (fst c) = filter (\<lambda>a. \<not> goes a) (ad_accounts d)
          \<and> (\<forall>x \<in> set (snd c). x \<in> set effects \<or> (\<exists>a \<in> set (ad_accounts d). goes a
               \<and> x \<in> set (DetachAccount (ac_dirName a) # deleteSecrets a @ [RemoveDataDir (ac_dirName a)])))"
  using assms
proof (induction entries arbitrary: d effects)
  case (Cons e entries)
  define c where "c = sweep_entry b (d, effects) e"
  from sweep_entry_spec [OF Cons.prems, of b effects e]
  have c: "domain_inv (fst c)" "active_account (fst c) = active_account d"
    "ad_accounts (fst c) = filter (\<lambda>a. \<not> (undead b (snd e) \<and> ac_dirName a = fst e
        \<and> active_account d \<noteq> Some a)) (ad_accounts d)"
    "snd c = effects @ concat (map (\<lambda>a. DetachAccount (ac_dirName a) # deleteSecrets a
        @ [RemoveDataDir (ac_dirName a)]) (filter (\<lambda>a. undead b (snd e) \<and> ac_dirName a = fst e
        \<and> active_account d \<noteq> Some a) (ad_accounts d)))"
    by (simp_all only: Let_def c_def)
  have run: "foldl (sweep_entry b) (d, effects) (e # entries) = foldl (sweep_entry b) (fst c, snd c) entries"
    by (simp add: c_def)
  let ?goes = "\<lambda>es a. (\<exists>e \<in> set es. undead b (snd e) \<and> ac_dirName a = fst e)
                        \<and> active_account d \<noteq> Some a"
  let ?acts = "\<lambda>a. DetachAccount (ac_dirName a) # deleteSecrets a @ [RemoveDataDir (ac_dirName a)]"
  from Cons.IH [OF c(1), of "snd c"]
  have IH: "domain_inv (fst (foldl (sweep_entry b) (fst c, snd c) entries))"
    "active_account (fst (foldl (sweep_entry b) (fst c, snd c) entries)) = active_account d"
    "ad_accounts (fst (foldl (sweep_entry b) (fst c, snd c) entries))
       = filter (\<lambda>a. \<not> ?goes entries a) (ad_accounts (fst c))"
    "\<forall>x \<in> set (snd (foldl (sweep_entry b) (fst c, snd c) entries)). x \<in> set (snd c)
       \<or> (\<exists>a \<in> set (ad_accounts (fst c)). ?goes entries a \<and> x \<in> set (?acts a))"
    unfolding Let_def c(2) by blast+
  have accounts: "filter (\<lambda>a. \<not> ?goes entries a) (ad_accounts (fst c))
      = filter (\<lambda>a. \<not> ?goes (e # entries) a) (ad_accounts d)"
    unfolding c(3) filter_filter by (rule filter_cong) auto
  have effects: "x \<in> set effects \<or> (\<exists>a \<in> set (ad_accounts d). ?goes (e # entries) a \<and> x \<in> set (?acts a))"
    if "x \<in> set (snd c) \<or> (\<exists>a \<in> set (ad_accounts (fst c)). ?goes entries a \<and> x \<in> set (?acts a))" for x
    using that
  proof
    assume "x \<in> set (snd c)"
    then have "x \<in> set effects \<or> (\<exists>a \<in> {a \<in> set (ad_accounts d). undead b (snd e)
        \<and> ac_dirName a = fst e \<and> active_account d \<noteq> Some a}. x \<in> set (?acts a))"
      unfolding c(4) set_append set_concat set_map set_filter by blast
    then consider "x \<in> set effects"
      | a where "a \<in> set (ad_accounts d)" "?goes (e # entries) a" "x \<in> set (?acts a)"
      by (metis (mono_tags, lifting) list.set_intros(1) mem_Collect_eq)
    then show ?thesis by cases blast+
  next
    assume "\<exists>a \<in> set (ad_accounts (fst c)). ?goes entries a \<and> x \<in> set (?acts a)"
    then show ?thesis unfolding c(3) by fastforce
  qed
  from IH effects show ?case
    unfolding run Let_def accounts by blast
qed simp

lemma undead_iff_dead:
  assumes inv: "domain_inv d" and a: "a \<in> set (ad_accounts d)" and state: "storeState = 0 \<or> storeState = 3"
  shows "((\<exists>e \<in> set (classified_accounts load (ad_accounts d)).
            undead (list_ex (\<lambda>e. snd e = SecretsComplete) (classified_accounts load (ad_accounts d))) (snd e)
            \<and> ac_dirName a = fst e) \<and> active_account d \<noteq> Some a)
         \<longleftrightarrow> provably_dead storeState load d a"
proof -
  have same: "b = a" if "b \<in> set (ad_accounts d)" "ac_dirName b = ac_dirName a" for b
    using inv a that by (auto simp: domain_inv_def distinct_map dest: inj_onD)
  have any: "list_ex (\<lambda>e. snd e = SecretsComplete) (classified_accounts load (ad_accounts d))
      \<longleftrightarrow> (\<exists>b \<in> set (ad_accounts d).
            ClassifySessionSecrets load (ac_settings b) (ac_dirName b) = SecretsComplete)"
    by (auto simp: classified_accounts_def list_ex_iff ClassifySessionSecrets_def ac_hasSession_def)
  have "(\<exists>e \<in> set (classified_accounts load (ad_accounts d)). undead c (snd e) \<and> ac_dirName a = fst e)
      \<longleftrightarrow> ac_hasSession a \<and> undead c (ClassifySessionSecrets load (ac_settings a) (ac_dirName a))" for c
    using a by (auto simp: classified_accounts_def dest: same)
  then show ?thesis
    unfolding any provably_dead_def undead_def using state by blast
qed

text \<open>C25: the sweep takes exactly the provably dead accounts: never the one on screen, none while
  the secret store is locked or unreachable, none whose secrets the keychain refused to read, and
  an account all of whose secrets are absent only if another's were readable.  And it touches
  nobody else: no secret of an account that stays is deleted and none of their directories is
  removed.\<close>

theorem sweep_takes_only_the_dead:
  assumes "domain_inv d" and "sessions_apart (ad_accounts d)"
  shows "let (d', effects) = sweepUndeadAccounts storeState load d
         in ad_accounts d' = filter (\<lambda>a. \<not> provably_dead storeState load d a) (ad_accounts d)
          \<and> active_account d' = active_account d \<and> domain_inv d'
          \<and> (\<forall>a \<in> set (ad_accounts d').
               RemoveDataDir (ac_dirName a) \<notin> set effects
             \<and> (\<forall>k \<in> set (secretKeys a). DeleteSecret k \<notin> set effects))"
proof (cases "storeState = 0 \<or> storeState = 3")
  case True
  let ?xs = "ad_accounts d" and ?dead = "provably_dead storeState load d"
  let ?entries = "classified_accounts load ?xs"
  define c where "c = foldl (sweep_entry (list_ex (\<lambda>e. snd e = SecretsComplete) ?entries)) (d, []) ?entries"
  note dead = undead_iff_dead [OF assms(1) _ True]
  have c: "domain_inv (fst c)" "active_account (fst c) = active_account d"
    "ad_accounts (fst c) = filter (\<lambda>a. \<not> ?dead a) ?xs"
    "\<And>x. x \<in> set (snd c) \<Longrightarrow> \<exists>a \<in> set ?xs. ?dead a
       \<and> x \<in> set (DetachAccount (ac_dirName a) # deleteSecrets a @ [RemoveDataDir (ac_dirName a)])"
    using sweep_entries_spec [OF assms(1), of "list_ex (\<lambda>e. snd e = SecretsComplete) ?entries" "[]" ?entries]
      dead by (auto simp: Let_def c_def cong: filter_cong)
  have run: "sweepUndeadAccounts storeState load d
      = (fst c, snd c @ (if snd c \<noteq> [] then [SaveSettings] else []))"
    using True by (auto simp: sweepUndeadAccounts_def Let_def c_def case_prod_beta)
  have spared: "RemoveDataDir (ac_dirName a) \<notin> set (snd c)
      \<and> (\<forall>k \<in> set (secretKeys a). DeleteSecret k \<notin> set (snd c))"
    if "a \<in> set (ad_accounts (fst c))" for a
  proof -
    from that c(3) have a: "a \<in> set ?xs" "\<not> ?dead a" by auto
    have other: "ac_dirName b \<noteq> ac_dirName a" if "b \<in> set ?xs" "?dead b" for b
      using assms(1) a that by (auto simp: domain_inv_def distinct_map dest: inj_onD)
    then have "set (secretKeys b) \<inter> set (secretKeys a) = {}" if "b \<in> set ?xs" "?dead b" for b
      using secret_keys_apart [OF assms(2)] a that by blast
    then show ?thesis
      using c(4) other by (fastforce simp: deletes_own_keys dest: c(4) simp: deleteSecrets_def)
  qed
  have "set (snd c @ (if snd c \<noteq> [] then [SaveSettings] else [])) \<subseteq> set (snd c) \<union> {SaveSettings}" by auto
  with c(1-3) spared show ?thesis unfolding run by auto
next
  case False
  then have "sweepUndeadAccounts storeState load d = (d, [])" "\<And>a. \<not> provably_dead storeState load d a"
    by (auto simp: sweepUndeadAccounts_def provably_dead_def)
  with assms(1) show ?thesis by simp
qed

definition demo_account :: "qstring \<Rightarrow> qstring \<Rightarrow> account" where
  "demo_account dirName user = persistSession (new_account dirName) ''https://h'' user ''DEV'' [] [] []"

definition demo_domain :: account_domain where
  "demo_domain = \<lparr> ad_accounts = [demo_account ''0'' ''@a:h'', demo_account ''1'' ''@b:h''], ad_active = 0 \<rparr>"

definition demo_load :: "qstring \<Rightarrow> qstring \<times> bool" where
  "demo_load key = (if key \<in> set (secretKeys (demo_account ''0'' ''@a:h'')) then ''secret'' else [], False)"

lemmas demo_defs = demo_account_def demo_domain_def persistSession_def setProfile_def new_account_def
  new_account_settings_def ac_hasSession_def hasSession_def

lemma demo_domain_ok: "domain_inv demo_domain" "sessions_apart (ad_accounts demo_domain)"
  by (simp_all add: demo_defs domain_inv_def active_index_ok_def kMaxAccounts_def sessions_apart_def
      no_bar_def)

theorem sweep_takes_only_the_dead_witness:
  "map ac_dirName (ad_accounts (fst (sweepUndeadAccounts 0 demo_load demo_domain))) = [''0'']"
proof -
  have "ad_accounts (fst (sweepUndeadAccounts 0 demo_load demo_domain))
      = filter (\<lambda>a. \<not> provably_dead 0 demo_load demo_domain a) (ad_accounts demo_domain)"
    using sweep_takes_only_the_dead [OF demo_domain_ok, of 0 demo_load]
    by (auto simp: case_prod_beta Let_def)
  then show ?thesis
    by (simp add: provably_dead_def active_account_def account_at_def dom_count_def demo_defs
        ClassifySessionSecrets_def SessionSecretKey_def LocalSecretKey_def demo_load_def
        secretKeys_def AccountSecretKeys_def session_kinds_def cache_kinds_def)
qed

subsection \<open>One entry per user\<close>

text \<open>Signing in leaves one account per user id: every other account of that user goes and
  nobody else does; no directory of an account that stays is removed, and the secrets deleted are
  exactly those of the accounts that went.\<close>

theorem sign_in_leaves_one_entry:
  assumes "domain_inv d"
  shows "let (d', effects) = drop_duplicates dirName userId d
         in domain_inv d'
          \<and> ad_accounts d' = filter (\<lambda>a. ac_dirName a = dirName \<or> as_sessionUserId (ac_settings a) \<noteq> userId)
                              (ad_accounts d)
          \<and> {dir. RemoveDataDir dir \<in> set effects} \<inter> ac_dirName ` set (ad_accounts d') = {}
          \<and> {k. DeleteSecret k \<in> set effects}
              = (\<Union>a \<in> set (ad_accounts d) - set (ad_accounts d'). set (secretKeys a))"
proof -
  let ?drop = "\<lambda>a. ac_dirName a \<noteq> dirName \<and> as_sessionUserId (ac_settings a) = userId"
  let ?act = "\<lambda>a. DetachAccount (ac_dirName a) # deleteSecrets a @ [RemoveDataDir (ac_dirName a)]"
  obtain d' effects where r: "drop_duplicates dirName userId d = (d', effects)" by fastforce
  from remove_down_spec [OF assms le_refl, of ?drop ?act] r
  have d': "domain_inv d'" "ad_accounts d' = filter (\<lambda>a. \<not> ?drop a) (ad_accounts d)"
    "effects = concat (map ?act (rev (filter ?drop (ad_accounts d))))"
    by (simp_all add: drop_duplicates_def Let_def)
  have set_effects: "set effects = (\<Union>a \<in> {a \<in> set (ad_accounts d). ?drop a}. set (?act a))"
    by (simp add: d'(3))
  have gone: "set (ad_accounts d) - set (ad_accounts d') = {a \<in> set (ad_accounts d). ?drop a}"
    by (auto simp: d'(2))
  have "inj_on ac_dirName (set (ad_accounts d))"
    using assms by (simp add: domain_inv_def distinct_map)
  then have "{dir. RemoveDataDir dir \<in> set effects} \<inter> ac_dirName ` set (ad_accounts d') = {}"
    unfolding set_effects by (auto simp: d'(2) deleteSecrets_def dest: inj_onD)
  moreover have "{k. DeleteSecret k \<in> set effects}
      = (\<Union>a \<in> set (ad_accounts d) - set (ad_accounts d'). set (secretKeys a))"
    unfolding set_effects gone by (auto simp: deletes_own_keys)
  moreover have "(\<lambda>a. \<not> ?drop a) = (\<lambda>a. ac_dirName a = dirName \<or> as_sessionUserId (ac_settings a) \<noteq> userId)"
    by auto
  ultimately show ?thesis using d'(1,2) by (simp add: r)
qed

theorem sign_in_leaves_one_entry_witness:
  "map ac_dirName (ad_accounts (fst (drop_duplicates ''1'' ''@a:h'' demo_domain))) = [''1'']"
  using sign_in_leaves_one_entry [OF demo_domain_ok(1), of "''1''" "''@a:h''"]
  by (simp add: case_prod_beta Let_def demo_defs)

subsection \<open>A rejected access token\<close>

definition controller_run :: "forced_state \<Rightarrow> controller_event list \<Rightarrow> forced_state \<times> effect list" where
  "controller_run = run_signals controller_step"

lemma forced_background:
  assumes "account_at (fs_domain c) index = Some a"
  shows "fs_domain (fst (forceSignOutBackgroundAccount c index)) = fst (dom_remove (fs_domain c) index)"
    and "fs_inFlight (fst (forceSignOutBackgroundAccount c index)) = fs_inFlight c"
    and "{k. DeleteSecret k \<in> set (snd (forceSignOutBackgroundAccount c index))} = set (secretKeys a)"
    and "SignOutInteractively \<notin> set (snd (forceSignOutBackgroundAccount c index))"
  using assms
  by (auto simp: forceSignOutBackgroundAccount_def Let_def deletes_own_keys split: option.splits)
     (auto simp: deleteSecrets_def)

lemma in_flight_ignored: "dirName \<in> fs_inFlight c \<Longrightarrow> handleSessionInvalidated c dirName = (c, [])"
  by (simp add: handleSessionInvalidated_def RouteForcedSignOut_def)

lemma filter_name_remove1:
  assumes "distinct (map f xs)" and "x \<in> set xs"
  shows "filter (\<lambda>y. f y \<noteq> f x) xs = remove1 x xs"
proof -
  have "filter (\<lambda>y. f y \<noteq> f x) xs = filter (\<lambda>y. x \<noteq> y) xs"
    by (rule filter_cong [OF refl]) (use assms in \<open>auto simp: distinct_map dest: inj_onD\<close>)
  also have "\<dots> = remove1 x xs"
    using assms(1) by (simp add: distinct_map distinct_remove1_removeAll removeAll_filter_not_eq)
  finally show ?thesis .
qed

lemma index_of_member:
  assumes "domain_inv d" and "a \<in> set (ad_accounts d)"
  shows "account_at d (indexOfDirName d (ac_dirName a)) = Some a"
    and "0 \<le> indexOfDirName d (ac_dirName a)"
  using assms indexOfDirName_account [OF assms(1), of "ac_dirName a" a]
  by (auto simp: account_at_def split: if_splits)

text \<open>A homeserver's rejection hits the account it was about and no other, wherever that account
  stands by then: on screen, it starts the interactive sign-out; in the background, exactly that
  account leaves, its secrets and no others are deleted, and the account on screen stays there; an
  account that is gone, or whose sign-out is under way, changes nothing.\<close>

theorem forced_sign_out_hits_its_account:
  assumes "domain_inv (fs_domain c)" and "a \<in> set (ad_accounts (fs_domain c))"
    and "ac_dirName a \<notin> fs_inFlight c"
  shows "let (c', effects) = handleSessionInvalidated c (ac_dirName a)
         in if active_account (fs_domain c) = Some a
            then fs_domain c' = fs_domain c \<and> effects = [SignOutInteractively]
            else ad_accounts (fs_domain c') = remove1 a (ad_accounts (fs_domain c))
               \<and> active_account (fs_domain c') = active_account (fs_domain c)
               \<and> {k. DeleteSecret k \<in> set effects} = set (secretKeys a)
               \<and> SignOutInteractively \<notin> set effects
               \<and> handleSessionInvalidated c' (ac_dirName a) = (c', [])"
proof -
  let ?d = "fs_domain c" and ?dir = "ac_dirName a"
  let ?i = "indexOfDirName ?d ?dir"
  let ?c = "c\<lparr>fs_inFlight := insert ?dir (fs_inFlight c)\<rparr>"
  note at = index_of_member [OF assms(1,2)]
  have one: "distinct (map ac_dirName (ad_accounts ?d))" using assms(1) by (simp add: domain_inv_def)
  show ?thesis
  proof (cases "active_account ?d = Some a")
    case True
    then have "?i = ad_active ?d" using indexOfDirName_active [OF assms(1), of ?dir] by auto
    with True at assms(3) show ?thesis
      by (simp add: handleSessionInvalidated_def RouteForcedSignOut_def)
  next
    case False
    have other: "?i \<noteq> ad_active ?d" using at(1) False by (auto simp: active_account_def)
    have run: "handleSessionInvalidated c ?dir = forceSignOutBackgroundAccount ?c ?i"
      using at(2) other assms(3) by (simp add: handleSessionInvalidated_def RouteForcedSignOut_def)
    have at': "account_at (fs_domain ?c) ?i = Some a" using at(1) by simp
    note f = forced_background [OF at']
    note r = remove_other [OF assms(1) at(1) other]
    have "filter (\<lambda>x. ac_dirName x \<noteq> ?dir) (ad_accounts ?d) = remove1 a (ad_accounts ?d)"
      using one assms(2) by (rule filter_name_remove1)
    moreover have "handleSessionInvalidated (fst (forceSignOutBackgroundAccount ?c ?i)) ?dir
        = (fst (forceSignOutBackgroundAccount ?c ?i), [])"
      by (rule in_flight_ignored) (simp add: f(2))
    ultimately show ?thesis
      using False f(1,3,4) r(2,3) by (simp add: run case_prod_beta)
  qed
qed

theorem forced_sign_out_hits_its_account_witness:
  "ad_accounts (fs_domain (fst (handleSessionInvalidated
      \<lparr> fs_domain = demo_domain, fs_inFlight = {}, fs_pendingWipes = [] \<rparr> ''1''))) = [demo_account ''0'' ''@a:h'']"
  using forced_sign_out_hits_its_account [of
      "\<lparr> fs_domain = demo_domain, fs_inFlight = {}, fs_pendingWipes = [] \<rparr>" "demo_account ''1'' ''@b:h''"]
    demo_domain_ok(1)
  by (simp add: case_prod_beta Let_def demo_defs active_account_def account_at_def dom_count_def)

lemma step_keeps_in_flight:
  "dirName \<in> fs_inFlight c \<Longrightarrow> dirName \<in> fs_inFlight (fst (controller_step c e))"
proof (cases e)
  case (SessionInvalidated d)
  then show "dirName \<in> fs_inFlight c \<Longrightarrow> ?thesis"
    by (auto simp: handleSessionInvalidated_def RouteForcedSignOut_def forceSignOutBackgroundAccount_def
        Let_def split: option.splits)
qed (auto simp: shutdownComplete_def showAddAccountIntro_def Let_def)

text \<open>The guard against repeated rejections is kept by directory name and never lifted, while
  \<open>allocateDirName\<close> hands the name of a removed account to the next one: once an account has been
  signed out by its server, a rejection of whatever account comes to use that name later in the
  run is ignored for ever, so the dead account stays in the list and keeps its secrets.\<close>

theorem reused_name_never_signed_out:
  assumes "dirName \<in> fs_inFlight c"
  shows "let c' = fst (controller_run c es) in handleSessionInvalidated c' dirName = (c', [])"
proof -
  have "dirName \<in> fs_inFlight (foldl (\<lambda>c e. fst (controller_step c e)) c es)"
    by (rule foldl_keeps [where P = "\<lambda>c. dirName \<in> fs_inFlight c", OF assms step_keeps_in_flight])
  then show ?thesis
    by (simp add: Let_def controller_run_def fst_run_signals in_flight_ignored)
qed

definition demo_forced :: forced_state where
  "demo_forced = \<lparr> fs_domain = demo_domain\<lparr>ad_accounts :=
     [demo_account ''0'' ''@a:h'', setBridge (demo_account ''1'' ''@b:h'') (Some 1)]\<rparr>,
     fs_inFlight = {}, fs_pendingWipes = [] \<rparr>"

lemma demo_names: "FirstFreeAccountDirName [''0''] = ''1''"
  by code_simp

lemma demo_forced_run:
  "map ac_dirName (ad_accounts (fs_domain (fst (controller_run demo_forced
      [SessionInvalidated ''1'', AddAccount False True 7])))) = [''0'', ''1'']"
  by (simp add: controller_run_def demo_forced_def demo_defs setBridge_def handleSessionInvalidated_def
      RouteForcedSignOut_def indexOfDirName_def forceSignOutBackgroundAccount_def account_at_def
      dom_count_def dom_remove_def Let_def ActiveIndexAfterRemoval_def qBound_def
      showAddAccountIntro_def canAddAccount_def kMaxAccounts_def allocateDirName_def demo_names
      dom_add_def setUnreadStateStore_def)

theorem reused_name_never_signed_out_witness:
  "let c = fst (controller_run demo_forced [SessionInvalidated ''1''])
       ; c' = fst (controller_run c [AddAccount False True 7])
   in ''1'' \<in> ac_dirName ` set (ad_accounts (fs_domain c')) \<and> handleSessionInvalidated c' ''1'' = (c', [])"
proof -
  define c where "c = fst (controller_run demo_forced [SessionInvalidated ''1''])"
  have "''1'' \<in> fs_inFlight c"
    by (simp add: c_def controller_run_def demo_forced_def demo_defs setBridge_def
        handleSessionInvalidated_def RouteForcedSignOut_def indexOfDirName_def
        forceSignOutBackgroundAccount_def account_at_def dom_count_def Let_def)
  from reused_name_never_signed_out [OF this, of "[AddAccount False True 7]"]
  have h: "handleSessionInvalidated (fst (controller_run c [AddAccount False True 7])) ''1''
      = (fst (controller_run c [AddAccount False True 7]), [])" by (simp add: Let_def)
  have "fst (controller_run c [AddAccount False True 7])
      = fst (controller_run demo_forced [SessionInvalidated ''1'', AddAccount False True 7])"
    by (simp add: c_def controller_run_def Let_def case_prod_beta)
  with demo_forced_run have "''1'' \<in> set (map ac_dirName (ad_accounts (fs_domain
      (fst (controller_run c [AddAccount False True 7])))))" by simp
  with h show ?thesis unfolding c_def [symmetric] by (simp add: Let_def)
qed

lemma signed_out_background:
  assumes "domain_inv (fs_domain c)" and "a \<in> set (ad_accounts (fs_domain c))"
    and "active_account (fs_domain c) \<noteq> Some a" and "ac_dirName a \<notin> fs_inFlight c"
    and "ac_bridge a = Some b"
  shows "ad_accounts (fs_domain (fst (handleSessionInvalidated c (ac_dirName a))))
           = remove1 a (ad_accounts (fs_domain c))"
    and "ac_dirName a \<in> set (fs_pendingWipes (fst (handleSessionInvalidated c (ac_dirName a))))"
proof -
  let ?d = "fs_domain c" and ?dir = "ac_dirName a"
  let ?i = "indexOfDirName ?d ?dir"
  note at = index_of_member [OF assms(1,2)]
  have other: "?i \<noteq> ad_active ?d" using at(1) assms(3) by (auto simp: active_account_def)
  have run: "handleSessionInvalidated c ?dir
      = forceSignOutBackgroundAccount (c\<lparr>fs_inFlight := insert ?dir (fs_inFlight c)\<rparr>) ?i"
    using at(2) other assms(4) by (simp add: handleSessionInvalidated_def RouteForcedSignOut_def)
  have "distinct (map ac_dirName (ad_accounts ?d))" using assms(1) by (simp add: domain_inv_def)
  from filter_name_remove1 [OF this assms(2)] remove_other(3) [OF assms(1) at(1) other] at(1) assms(5)
  show "ad_accounts (fs_domain (fst (handleSessionInvalidated c ?dir))) = remove1 a (ad_accounts ?d)"
    and "?dir \<in> set (fs_pendingWipes (fst (handleSessionInvalidated c ?dir)))"
    unfolding run by (simp_all add: forceSignOutBackgroundAccount_def Let_def)
qed

text \<open>The directory of a signed-out background account is wiped only when its bridge has shut
  down, but its name is free at once.  An account added in between gets the name (whenever it is
  the smallest free one), and the late wipe then removes the new account's directory under its
  running bridge.\<close>

theorem late_teardown_wipes_new_account:
  assumes "domain_inv (fs_domain c)" and "a \<in> set (ad_accounts (fs_domain c))"
    and "active_account (fs_domain c) \<noteq> Some a" and "ac_dirName a \<notin> fs_inFlight c"
    and "ac_bridge a = Some b"
    and "FirstFreeAccountDirName (map ac_dirName (remove1 a (ad_accounts (fs_domain c)))) = ac_dirName a"
  shows "let (c', effects) = controller_run c
               [SessionInvalidated (ac_dirName a), AddAccount False True b', ShutdownDone (ac_dirName a)]
         in last effects = RemoveDataDir (ac_dirName a)
          \<and> (\<exists>n \<in> set (ad_accounts (fs_domain c')). ac_dirName n = ac_dirName a \<and> ac_bridge n = Some b')"
proof -
  let ?dir = "ac_dirName a"
  obtain c1 e1 where 1: "handleSessionInvalidated c ?dir = (c1, e1)" by fastforce
  note s = signed_out_background [OF assms(1-5), unfolded 1 fst_conv]
  have "length (ad_accounts (fs_domain c)) \<le> kMaxAccounts" using assms(1) by (simp add: domain_inv_def)
  with length_pos_if_in_set [OF assms(2)] have "length (ad_accounts (fs_domain c)) - 1 < kMaxAccounts"
    by linarith
  then have room: "canAddAccount (fs_domain c1)"
    using assms(2) by (simp add: canAddAccount_def dom_count_def s(1) length_remove1)
  define n where "n = setBridge (setUnreadStateStore (new_account ?dir) (Some initial_unread_store)) (Some b')"
  have alloc: "allocateDirName (fs_domain c1) = ?dir" by (simp add: allocateDirName_def s(1) assms(6))
  obtain c2 e2 where 2: "showAddAccountIntro c1 False True b' = (c2, e2)" by fastforce
  then have c2: "n \<in> set (ad_accounts (fs_domain c2))" "fs_pendingWipes c2 = fs_pendingWipes c1"
    using room by (auto simp: showAddAccountIntro_def Let_def alloc n_def [symmetric] dom_add_def)
  then have "shutdownComplete c2 ?dir
      = (c2\<lparr>fs_pendingWipes := remove1 ?dir (fs_pendingWipes c2)\<rparr>, [RemoveDataDir ?dir])"
    using s(2) by (simp add: shutdownComplete_def)
  moreover have "ac_dirName n = ?dir" "ac_bridge n = Some b'"
    by (simp_all add: n_def setBridge_def setUnreadStateStore_def new_account_def)
  ultimately show ?thesis
    using c2(1) by (auto simp: controller_run_def 1 2)
qed

theorem late_teardown_wipes_new_account_witness:
  "last (snd (controller_run demo_forced [SessionInvalidated ''1'', AddAccount False True 7, ShutdownDone ''1'']))
     = RemoveDataDir ''1''"
proof -
  let ?a = "setBridge (demo_account ''1'' ''@b:h'') (Some 1)"
  have "ac_dirName ?a = ''1''" by (simp add: demo_defs setBridge_def)
  moreover have "let (c', effects) = controller_run demo_forced
               [SessionInvalidated (ac_dirName ?a), AddAccount False True 7, ShutdownDone (ac_dirName ?a)]
         in last effects = RemoveDataDir (ac_dirName ?a)
          \<and> (\<exists>n \<in> set (ad_accounts (fs_domain c')). ac_dirName n = ac_dirName ?a \<and> ac_bridge n = Some 7)"
    by (rule late_teardown_wipes_new_account)
       (simp_all add: demo_forced_def demo_defs setBridge_def domain_inv_def kMaxAccounts_def
          active_index_ok_def active_account_def account_at_def dom_count_def demo_names)
  ultimately show ?thesis by (simp add: case_prod_beta Let_def)
qed

end
