(* ===== verification/Update_Service.thy ===== *)
theory Update_Service imports TM_Prelude begin

section \<open>The update service\<close>

text \<open>
  \<^verbatim>\<open>src/src/core/update_service.h\<close> and \<^verbatim>\<open>.cpp\<close>: checking for a release, downloading the verified
  payload and applying it, with the policy of \<^verbatim>\<open>app_controller.cpp\<close> (\<open>notifyUpdatePolicyChanged\<close>
  and the auto-download) and the bar of \<^verbatim>\<open>dialogs_widget.cpp\<close> (\<open>checkUpdateStatus\<close> and its
  buttons).  The Rust side is reached by calls (\<open>CallCheck\<close>, \<open>CallDownload\<close>, \<open>CallCancel\<close> and the
  worker of \<open>applyAndRestart\<close>) and answers by the \<open>on...Result\<close> callbacks, exactly once each.
  What the platform can do (\<open>install\<close>) and the parsed manifest URL of the build are parameters.
\<close>

datatype apply_mode = OneClick | NotifyOnly

record install =
  in_signingConfigured :: bool
  in_platformKey :: qstring
  in_canSelfUpdate :: bool

definition applyMode :: "install \<Rightarrow> apply_mode" where
  "applyMode inst =
     (if \<not> in_signingConfigured inst \<or> in_platformKey inst = [] \<or> \<not> in_canSelfUpdate inst
      then NotifyOnly else OneClick)"

text \<open>The release page: host and path segments of the manifest URL compiled in, and Qt's percent
  encoding of the version.\<close>

record manifest_url =
  mu_valid :: bool
  mu_host :: qstring
  mu_segments :: "qstring list"

definition releasePageUrl :: "manifest_url \<Rightarrow> (qstring \<Rightarrow> qstring) \<Rightarrow> qstring \<Rightarrow> qstring" where
  "releasePageUrl manifest encode version =
     (if \<not> mu_valid manifest \<or> mu_host manifest = [] \<or> length (mu_segments manifest) < 2 then []
      else let base = ''https://'' @ mu_host manifest @ ''/'' @ mu_segments manifest ! 0 @ ''/''
                        @ mu_segments manifest ! 1 @ ''/releases''
           in if version = [] then base else base @ ''/tag/v'' @ encode version)"

record update_service =
  ud_checking :: bool
  ud_downloading :: bool
  ud_applying :: bool
  ud_applyWhenReady :: bool
  ud_userInitiatedCheck :: bool
  ud_betaChannel :: bool
  ud_cancelRequested :: bool
  ud_availableVersion :: qstring
  ud_releasePage :: qstring
  ud_readyPath :: qstring
  ud_assetUrl :: qstring
  ud_assetSize :: quint64
  ud_assetSha256 :: qstring
  ud_assetMinisig :: qstring
  ud_pendingRelaunchPath :: qstring

definition initial_update_service :: update_service where
  "initial_update_service = \<lparr> ud_checking = False, ud_downloading = False, ud_applying = False,
     ud_applyWhenReady = False, ud_userInitiatedCheck = False, ud_betaChannel = False,
     ud_cancelRequested = False, ud_availableVersion = [], ud_releasePage = [], ud_readyPath = [],
     ud_assetUrl = [], ud_assetSize = 0, ud_assetSha256 = [], ud_assetMinisig = [],
     ud_pendingRelaunchPath = [] \<rparr>"

text \<open>The signals and the calls to the Rust side, in the order they are made.  An error carries the
  text of the other side, empty where the code puts its own.\<close>

datatype update_output =
  CheckStarted | CheckFinished | DownloadStarted | UpdateAvailable qstring | UpdateUpToDate
| UpdateReady qstring | DownloadCancelled | ApplyStarted | ApplyReady qstring | UpdateError qstring
| CallCheck bool | CallDownload qstring quint64 qstring qstring qstring | CallCancel
| CallApply qstring qstring qstring qstring

definition up_check :: "update_service \<Rightarrow> bool \<Rightarrow> update_service \<times> update_output list" where
  "up_check s userInitiated =
     (if ud_checking s \<or> ud_downloading s then (s, [])
      else (s\<lparr>ud_checking := True, ud_userInitiatedCheck := userInitiated\<rparr>,
            [CheckStarted, CallCheck (ud_betaChannel s)]))"

definition onCheckResult ::
  "(qstring \<Rightarrow> qstring) \<Rightarrow> update_service \<Rightarrow> nat \<Rightarrow> qstring \<Rightarrow> qstring \<Rightarrow> qstring \<Rightarrow> quint64
     \<Rightarrow> qstring \<Rightarrow> qstring \<Rightarrow> qstring \<Rightarrow> update_service \<times> update_output list" where
  "onCheckResult pageOf s status version page url sz sha256 minisig error =
     (let userInitiated = ud_userInitiatedCheck s;
          s1 = s\<lparr>ud_checking := False, ud_userInitiatedCheck := False\<rparr>
      in if status = 0
         then (s1\<lparr>ud_availableVersion := [], ud_assetUrl := []\<rparr>, [UpdateUpToDate])
         else if status = 1
         then ((if ud_availableVersion s1 \<noteq> version then s1\<lparr>ud_readyPath := []\<rparr> else s1)
                 \<lparr>ud_availableVersion := version, ud_releasePage := pageOf version, ud_assetUrl := url,
                  ud_assetSize := sz, ud_assetSha256 := sha256, ud_assetMinisig := minisig\<rparr>,
               [UpdateAvailable version])
         else (s1, if userInitiated then [UpdateError error] else [CheckFinished]))"

definition up_download :: "install \<Rightarrow> update_service \<Rightarrow> update_service \<times> update_output list" where
  "up_download inst s =
     (if ud_downloading s \<or> ud_availableVersion s = [] \<or> ud_assetUrl s = [] then (s, [])
      else if applyMode inst \<noteq> OneClick then (s, [])
      else (s\<lparr>ud_downloading := True, ud_cancelRequested := False\<rparr>,
            [DownloadStarted, CallDownload (ud_assetUrl s) (ud_assetSize s) (ud_assetSha256 s)
               (ud_assetMinisig s) (ud_availableVersion s)]))"

definition downloadAndApply :: "install \<Rightarrow> update_service \<Rightarrow> update_service \<times> update_output list" where
  "downloadAndApply inst s =
     (case up_download inst (s\<lparr>ud_applyWhenReady := True\<rparr>) of
        (s1, out) \<Rightarrow> (if \<not> ud_downloading s1 then s1\<lparr>ud_applyWhenReady := False\<rparr> else s1, out))"

definition cancelDownload :: "update_service \<Rightarrow> update_service \<times> update_output list" where
  "cancelDownload s =
     (if ud_downloading s then (s\<lparr>ud_cancelRequested := True\<rparr>, [CallCancel]) else (s, []))"

definition applyAndRestart :: "update_service \<Rightarrow> update_service \<times> update_output list" where
  "applyAndRestart s =
     (if ud_readyPath s = [] \<or> ud_applying s then (s, [])
      else (s\<lparr>ud_applying := True\<rparr>,
            [ApplyStarted, CallApply (ud_readyPath s) (ud_assetSha256 s) (ud_assetMinisig s)
               (ud_availableVersion s)]))"

definition onDownloadResult ::
  "update_service \<Rightarrow> bool \<Rightarrow> qstring \<Rightarrow> qstring \<Rightarrow> update_service \<times> update_output list" where
  "onDownloadResult s success localPath error =
     (let applyNow = ud_applyWhenReady s;
          s1 = s\<lparr>ud_downloading := False, ud_applyWhenReady := False\<rparr>
      in if success
         then let s2 = s1\<lparr>ud_cancelRequested := False, ud_readyPath := localPath\<rparr>;
                  (s3, out) = (if applyNow then applyAndRestart s2 else (s2, []))
              in (s3, UpdateReady localPath # out)
         else let s2 = s1\<lparr>ud_readyPath := []\<rparr>
              in if ud_cancelRequested s2
                 then (s2\<lparr>ud_cancelRequested := False\<rparr>, [DownloadCancelled])
                 else (s2, [UpdateError error]))"

definition onApplyResult ::
  "update_service \<Rightarrow> bool \<Rightarrow> qstring \<Rightarrow> qstring \<Rightarrow> update_service \<times> update_output list" where
  "onApplyResult s success relaunchPath error =
     (let s1 = s\<lparr>ud_applying := False, ud_readyPath := []\<rparr>
      in if \<not> success then (s1, [UpdateError error])
         else (s1\<lparr>ud_pendingRelaunchPath := relaunchPath\<rparr>, [ApplyReady relaunchPath]))"

subsection \<open>The service as a machine\<close>

text \<open>What reaches it: the timer and the About page (\<open>Check\<close>), the policy that downloads by itself
  (\<open>Download\<close>), the user's clicks, and the answers of the Rust side.\<close>

datatype update_event =
  Check bool | SetBeta bool | Download | DownloadAndApply | Cancel | ApplyClicked
| CheckResult nat qstring qstring qstring quint64 qstring qstring qstring
| DownloadResult bool qstring qstring
| ApplyResult bool qstring qstring

fun update_call ::
  "install \<Rightarrow> (qstring \<Rightarrow> qstring) \<Rightarrow> update_service \<Rightarrow> update_event \<Rightarrow> update_service \<times> update_output list" where
  "update_call inst pageOf s (Check user) = up_check s user"
| "update_call inst pageOf s (SetBeta beta) = (s\<lparr>ud_betaChannel := beta\<rparr>, [])"
| "update_call inst pageOf s Download = up_download inst s"
| "update_call inst pageOf s DownloadAndApply = downloadAndApply inst s"
| "update_call inst pageOf s Cancel = cancelDownload s"
| "update_call inst pageOf s ApplyClicked = applyAndRestart s"
| "update_call inst pageOf s (CheckResult status version page url sz sha sig error) =
     onCheckResult pageOf s status version page url sz sha sig error"
| "update_call inst pageOf s (DownloadResult success localPath error) = onDownloadResult s success localPath error"
| "update_call inst pageOf s (ApplyResult success relaunchPath error) = onApplyResult s success relaunchPath error"

subsection \<open>The policy and the bar\<close>

definition kPolicyOff :: int where "kPolicyOff = 0"
definition kPolicyAutoDownload :: int where "kPolicyAutoDownload = 2"

text \<open>\<open>AppController\<close>: what it does with an available update, and its two timers (active or not)
  when the policy changes.\<close>

definition on_update_available :: "int \<Rightarrow> install \<Rightarrow> update_service \<Rightarrow> update_service \<times> update_output list" where
  "on_update_available policy inst s =
     (if policy = kPolicyAutoDownload \<and> applyMode inst = OneClick then up_download inst s else (s, []))"

record update_timers =
  ut_checkActive :: bool
  ut_startupActive :: bool

definition notifyUpdatePolicyChanged :: "int \<Rightarrow> update_timers \<Rightarrow> update_timers" where
  "notifyUpdatePolicyChanged policy t =
     (if policy = kPolicyOff then t\<lparr>ut_checkActive := False, ut_startupActive := False\<rparr>
      else if \<not> ut_checkActive t then t\<lparr>ut_checkActive := True, ut_startupActive := True\<rparr>
      else t)"

text \<open>The bar under the chat list: what \<open>checkUpdateStatus\<close> makes of the service's state.\<close>

datatype update_bar = NoBar | ReadyBar bool | DownloadingBar qstring | PromptBar qstring

definition checkUpdateStatus :: "int \<Rightarrow> qstring \<Rightarrow> install \<Rightarrow> update_service \<Rightarrow> update_bar" where
  "checkUpdateStatus policy skipped inst s =
     (let autoDownloading = (policy = kPolicyAutoDownload \<and> applyMode inst = OneClick);
          version = ud_availableVersion s
      in if ud_readyPath s \<noteq> [] then ReadyBar (\<not> ud_applying s)
         else if ud_downloading s \<and> \<not> autoDownloading then DownloadingBar version
         else if version \<noteq> [] \<and> \<not> autoDownloading \<and> version \<noteq> skipped then PromptBar version
         else NoBar)"

lemma bar_offers_only_news:
  "checkUpdateStatus policy skipped inst s = PromptBar v \<Longrightarrow>
     v = ud_availableVersion s \<and> v \<noteq> skipped \<and> \<not> ud_downloading s \<and> ud_readyPath s = []"
  by (auto simp: checkUpdateStatus_def Let_def split: if_splits)

lemma policy_off_stops_timers:
  "notifyUpdatePolicyChanged kPolicyOff t = \<lparr> ut_checkActive = False, ut_startupActive = False \<rparr>"
  by (simp add: notifyUpdatePolicyChanged_def)

lemmas update_ops = up_check_def onCheckResult_def up_download_def downloadAndApply_def
  cancelDownload_def applyAndRestart_def onDownloadResult_def onApplyResult_def Let_def

text \<open>An answer comes only for a call that is under way; the flags are exactly the calls under
  way.\<close>

fun answer_expected :: "update_service \<Rightarrow> update_event \<Rightarrow> bool" where
  "answer_expected s (CheckResult status version page url sz sha sig error) \<longleftrightarrow> ud_checking s"
| "answer_expected s (DownloadResult success localPath error) \<longleftrightarrow> ud_downloading s"
| "answer_expected s (ApplyResult success relaunchPath error) \<longleftrightarrow> ud_applying s"
| "answer_expected s _ \<longleftrightarrow> True"

definition update_run ::
  "install \<Rightarrow> (qstring \<Rightarrow> qstring) \<Rightarrow> update_service \<Rightarrow> update_event list \<Rightarrow> update_service \<times> update_output list" where
  "update_run inst pageOf = run_signals (update_call inst pageOf)"

text \<open>Starts and the signals that end them.\<close>

fun starts :: "update_output \<Rightarrow> bool" where
  "starts CheckStarted \<longleftrightarrow> True" | "starts DownloadStarted \<longleftrightarrow> True" | "starts ApplyStarted \<longleftrightarrow> True"
| "starts _ \<longleftrightarrow> False"

fun ends :: "update_output \<Rightarrow> bool" where
  "ends CheckFinished \<longleftrightarrow> True" | "ends (UpdateAvailable v) \<longleftrightarrow> True" | "ends UpdateUpToDate \<longleftrightarrow> True"
| "ends (UpdateReady p) \<longleftrightarrow> True" | "ends DownloadCancelled \<longleftrightarrow> True" | "ends (ApplyReady p) \<longleftrightarrow> True"
| "ends (UpdateError e) \<longleftrightarrow> True" | "ends _ \<longleftrightarrow> False"

definition occurrences :: "(update_output \<Rightarrow> bool) \<Rightarrow> update_output list \<Rightarrow> int" where
  "occurrences P out = int (length (filter P out))"

lemma occurrences_simps [simp]:
  "occurrences P [] = 0"
  "occurrences P (x # xs) = (if P x then 1 else 0) + occurrences P xs"
  "occurrences P (xs @ ys) = occurrences P xs + occurrences P ys"
  by (simp_all add: occurrences_def)

definition under_way :: "update_service \<Rightarrow> int" where
  "under_way s = of_bool (ud_checking s) + of_bool (ud_downloading s) + of_bool (ud_applying s)"

lemma update_call_conserves:
  "answer_expected s e \<Longrightarrow>
   occurrences starts (snd (update_call inst pageOf s e)) + under_way s
     = occurrences ends (snd (update_call inst pageOf s e)) + under_way (fst (update_call inst pageOf s e))"
  by (cases e) (auto simp: update_ops under_way_def split: prod.split)

lemma update_run_conserves:
  "run_ok (\<lambda>s e. fst (update_call inst pageOf s e)) answer_expected s es \<Longrightarrow>
   occurrences starts (snd (update_run inst pageOf s es)) + under_way s
     = occurrences ends (snd (update_run inst pageOf s es)) + under_way (fst (update_run inst pageOf s es))"
proof (induction es arbitrary: s)
  case (Cons e es)
  then have e: "answer_expected s e"
    and es: "run_ok (\<lambda>s e. fst (update_call inst pageOf s e)) answer_expected (fst (update_call inst pageOf s e)) es"
    by simp_all
  from update_call_conserves [OF e, of inst pageOf] Cons.IH [OF es] show ?case
    by (simp add: update_run_def Let_def case_prod_beta)
qed (simp add: update_run_def)

text \<open>C37: nothing the user sees starting is left hanging: in any run, every check, download and
  installation that was announced has ended with exactly one signal, or is the one still under
  way.  So once none is under way, starts and ends balance.\<close>

theorem every_start_ends_once:
  assumes "run_ok (\<lambda>s e. fst (update_call inst pageOf s e)) answer_expected initial_update_service es"
  shows "let (s, out) = update_run inst pageOf initial_update_service es
         in occurrences starts out = occurrences ends out + under_way s"
  using update_run_conserves [OF assms]
  by (simp add: case_prod_beta under_way_def initial_update_service_def)

theorem every_start_ends_once_witness:
  "let (s, out) = update_run \<lparr> in_signingConfigured = True, in_platformKey = ''k'', in_canSelfUpdate = True \<rparr>
       (\<lambda>v. v) initial_update_service
       [Check True, CheckResult 1 ''2.0'' [] ''u'' 5 [] [] [], DownloadAndApply, DownloadResult True ''/p'' []]
   in occurrences starts out = occurrences ends out + under_way s"
  by (rule every_start_ends_once) (simp add: update_ops initial_update_service_def applyMode_def)

subsection \<open>Consent\<close>

fun consents :: "update_event \<Rightarrow> bool" where
  "consents ApplyClicked \<longleftrightarrow> True" | "consents DownloadAndApply \<longleftrightarrow> True" | "consents _ \<longleftrightarrow> False"

lemma update_call_consent:
  "occurrences ((=) ApplyStarted) (snd (update_call inst pageOf s e))
     + of_bool (ud_applyWhenReady (fst (update_call inst pageOf s e)))
   \<le> of_bool (ud_applyWhenReady s) + of_bool (consents e)"
  by (cases e) (auto simp: update_ops split: prod.split)

lemma update_run_consent:
  "occurrences ((=) ApplyStarted) (snd (update_run inst pageOf s es))
     + of_bool (ud_applyWhenReady (fst (update_run inst pageOf s es)))
   \<le> of_bool (ud_applyWhenReady s) + int (length (filter consents es))"
proof (induction es arbitrary: s)
  case (Cons e es)
  from update_call_consent [of inst pageOf s e] Cons.IH [of "fst (update_call inst pageOf s e)"]
  show ?case by (auto simp: update_run_def Let_def case_prod_beta)
qed (simp add: update_run_def)


subsection \<open>The unsigned manifest\<close>

fun with_page :: "qstring \<Rightarrow> update_event \<Rightarrow> update_event" where
  "with_page p (CheckResult status version page url sz sha sig error) =
     CheckResult status version p url sz sha sig error"
| "with_page p e = e"

lemma page_unused: "update_call inst pageOf s (with_page p e) = update_call inst pageOf s e"
  by (cases e) (simp_all add: onCheckResult_def)

lemma page_unused_run: "update_run inst pageOf s (map (with_page p) es) = update_run inst pageOf s es"
  by (induction es arbitrary: s) (simp_all add: update_run_def page_unused)

definition own_page :: "manifest_url \<Rightarrow> qstring \<Rightarrow> bool" where
  "own_page manifest page \<longleftrightarrow> page = [] \<or>
     (let base = releasePageUrl manifest (\<lambda>v. v) [] in take (length base) page = base)"

lemma releasePageUrl_below:
  "releasePageUrl manifest encode version = [] \<or>
   (\<exists>rest. releasePageUrl manifest encode version = releasePageUrl manifest (\<lambda>v. v) [] @ rest)"
  unfolding releasePageUrl_def Let_def by simp

lemma own_page_release: "own_page manifest (releasePageUrl manifest encode version)"
  using releasePageUrl_below [of manifest encode version]
proof (elim disjE exE)
  fix rest
  define base where "base = releasePageUrl manifest (\<lambda>v. v) []"
  assume "releasePageUrl manifest encode version = releasePageUrl manifest (\<lambda>v. v) [] @ rest"
  then show ?thesis by (simp add: own_page_def Let_def base_def [symmetric])
qed (simp add: own_page_def)

lemma update_call_page:
  "own_page manifest (ud_releasePage s) \<Longrightarrow>
   own_page manifest (ud_releasePage (fst (update_call inst (releasePageUrl manifest encode) s e)))"
  by (cases e) (auto simp: update_ops own_page_release split: prod.split)

text \<open>The manifest is not signed, so its link must not matter: the run is the same whatever page
  the manifests named, and the page the program may open is always below the releases of the
  repository compiled in.\<close>

theorem manifest_link_never_followed:
  "update_run inst (releasePageUrl manifest encode) initial_update_service (map (with_page p) es)
     = update_run inst (releasePageUrl manifest encode) initial_update_service es
 \<and> own_page manifest (ud_releasePage (fst (update_run inst (releasePageUrl manifest encode)
     initial_update_service es)))"
proof -
  have "own_page manifest (ud_releasePage (foldl (\<lambda>t e. fst (update_call inst
      (releasePageUrl manifest encode) t e)) initial_update_service es))"
    by (rule foldl_keeps [where P = "\<lambda>s. own_page manifest (ud_releasePage s)"])
       (simp_all add: update_call_page, simp add: initial_update_service_def own_page_def)
  then show ?thesis by (simp add: page_unused_run) (simp add: update_run_def fst_run_signals)
qed

subsection \<open>Two races\<close>

text \<open>Cancelling does not take the consent back: when the user cancels an ``Update'' and the
  download completes before the cancellation reaches it, the success still finds the flag armed
  and the program installs and restarts.\<close>

theorem cancelled_update_still_installs:
  assumes "ud_downloading s" and "ud_applyWhenReady s" and "\<not> ud_applying s" and "localPath \<noteq> []"
  shows "ApplyStarted \<in> set (snd (update_run inst pageOf s [Cancel, DownloadResult True localPath error]))"
  using assms by (simp add: update_run_def update_ops)

theorem cancelled_update_still_installs_witness:
  "let inst = \<lparr> in_signingConfigured = True, in_platformKey = ''k'', in_canSelfUpdate = True \<rparr>;
       s = fst (update_run inst (\<lambda>v. v) initial_update_service
             [Check True, CheckResult 1 ''2.0'' [] ''u'' 5 [] [] [], DownloadAndApply])
   in ApplyStarted \<in> set (snd (update_run inst (\<lambda>v. v) s [Cancel, DownloadResult True ''/p'' []]))"
  unfolding Let_def
  by (rule cancelled_update_still_installs)
     (simp_all add: update_run_def update_ops initial_update_service_def applyMode_def)

text \<open>A check may run while a download starts: the newer version it finds clears the ready path,
  but the download that is still under way sets it again, to the payload of the version before.
  What is ready is then not what is on offer (the final verification against the new version's
  hash is what keeps it from being installed).\<close>

lemma ready_payload_may_be_stale:
  "let inst = \<lparr> in_signingConfigured = True, in_platformKey = ''k'', in_canSelfUpdate = True \<rparr>;
       (s, out) = update_run inst (\<lambda>v. v) initial_update_service
             [Check True, CheckResult 1 ''1.1'' [] ''u1'' 5 ''h1'' [] [], Check False, Download,
              CheckResult 1 ''1.2'' [] ''u2'' 5 ''h2'' [] [], DownloadResult True ''/p1'' []]
   in ud_availableVersion s = ''1.2'' \<and> ud_readyPath s = ''/p1''
    \<and> CallDownload ''u1'' 5 ''h1'' [] ''1.1'' \<in> set out \<and> CallDownload ''u2'' 5 ''h2'' [] ''1.2'' \<notin> set out"
  by (simp add: update_run_def update_ops initial_update_service_def applyMode_def)

end
