(* ===== verification/Message_Layout.thy ===== *)
theory Message_Layout imports Timeline_Content begin

section \<open>Row layout of the message list\<close>

text \<open>
  The layout engine of \<^verbatim>\<open>src/src/history/history_list.cpp\<close>: \<open>recalculateLayout\<close> and its three
  incremental variants (\<open>recalculateLayoutFrom\<close>, \<open>recalculateLayoutAppend\<close>,
  \<open>recalculateLayoutPrepend\<close>), \<open>updateSenderGroupBounds\<close> and the binary searches over the rows
  (\<open>messageIndexAt\<close>, \<open>stickyDateIndexAtVisibleTop\<close>).  The height of a bubble
  (\<open>HistoryMessage::bubbleHeight\<close>, text shaping) and the calendar date of a time stamp (the local
  time zone) are parameters of the environment, with no assumption about them; the style's sizes
  are numbers of the environment.  Pixel coordinates are \<open>int\<close>.
\<close>

subsection \<open>Data\<close>

record layout_item =
  li_y :: int
  li_height :: int
  li_messageY :: int
  li_messageHeight :: int
  li_cachedBubbleHeight :: int
  li_cachedWidth :: int
  li_cachedSameSenderAbove :: bool
  li_showDate :: bool
  li_showUnreadBar :: bool
  li_sameSenderAbove :: bool
  li_sameSenderBelow :: bool
  li_senderGroupFirstIndex :: int
  li_senderGroupLastIndex :: int
  li_senderGroupTopY :: int
  li_senderGroupBottomY :: int

definition default_layout_item :: layout_item where
  "default_layout_item = \<lparr> li_y = 0, li_height = 0, li_messageY = 0, li_messageHeight = 0,
     li_cachedBubbleHeight = -1, li_cachedWidth = -1, li_cachedSameSenderAbove = False,
     li_showDate = False, li_showUnreadBar = False, li_sameSenderAbove = False,
     li_sameSenderBelow = False, li_senderGroupFirstIndex = -1, li_senderGroupLastIndex = -1,
     li_senderGroupTopY = 0, li_senderGroupBottomY = 0 \<rparr>"

text \<open>Sizes of the style and of \<open>HistoryMessage\<close>.\<close>

record layout_metrics =
  msgServicePaddingTop :: int
  msgServicePaddingBottom :: int
  msgServiceFontHeight :: int
  msgServiceMarginTop :: int
  msgServiceMarginBottom :: int
  historyUnreadBarHeight :: int
  historyUnreadBarMargin :: int
  kMinBubbleWidth :: int
  kMaxBubbleWidth :: int
  kPhotoSkip :: int
  kMarginLeft :: int
  kMarginRight :: int
  kMarginTop :: int
  kMarginTopAttached :: int
  kMarginBottom :: int
  kJumpButtonReserve :: int

record layout_env =
  le_metrics :: layout_metrics
  le_width :: int
  le_visibleHeight :: int
  le_pinnedMode :: bool
  le_dateOf :: "int \<Rightarrow> int"
  le_bubbleHeight :: "timeline_item \<Rightarrow> int \<Rightarrow> bool \<Rightarrow> int"

record history_layout =
  hl_messages :: "timeline_item list"
  hl_layout :: "layout_item list"
  hl_totalHeight :: int
  hl_contentOffset :: int
  hl_dateIndices :: "int list"
  hl_canPaginateBack :: bool
  hl_hitTimelineStart :: bool
  hl_firstUnreadEventId :: qstring

definition kBottomPadding :: int where "kBottomPadding = 8"

definition dateBadgeInnerHeight :: "layout_metrics \<Rightarrow> int" where
  "dateBadgeInnerHeight st = msgServicePaddingTop st + msgServiceFontHeight st + msgServicePaddingBottom st"

definition dateBadgeTotalHeight :: "layout_metrics \<Rightarrow> int" where
  "dateBadgeTotalHeight st = msgServiceMarginTop st + dateBadgeInnerHeight st + msgServiceMarginBottom st"

definition unreadBarTotalHeight :: "layout_metrics \<Rightarrow> int" where
  "unreadBarTotalHeight st = historyUnreadBarHeight st + historyUnreadBarMargin st"

definition topTimelineIndicatorHeight :: "bool \<Rightarrow> bool \<Rightarrow> bool \<Rightarrow> int" where
  "topTimelineIndicatorHeight hasMessages canPaginateBack hitTimelineStart =
     (if hasMessages \<and> (canPaginateBack \<or> hitTimelineStart) then 40 else 0)"

definition preMessageHeight :: "layout_metrics \<Rightarrow> layout_item \<Rightarrow> int" where
  "preMessageHeight st item =
     (if li_showDate item then dateBadgeTotalHeight st else 0)
   + (if li_showUnreadBar item then unreadBarTotalHeight st else 0)"

definition messageContextWidth :: "layout_env \<Rightarrow> int" where
  "messageContextWidth env =
     (if \<not> le_pinnedMode env then le_width env
      else max (kMinBubbleWidth (le_metrics env)) (le_width env - kJumpButtonReserve (le_metrics env)))"

text \<open>The key of the height cache, as computed in each pass.\<close>

definition effectiveBubbleWidth :: "layout_env \<Rightarrow> int" where
  "effectiveBubbleWidth env =
     (let st = le_metrics env; reserved = kMarginLeft st + kMarginRight st + kPhotoSkip st
      in max (kMinBubbleWidth st) (min (kMaxBubbleWidth st) (messageContextWidth env - reserved)))"

subsection \<open>One row\<close>

definition isService :: "timeline_item \<Rightarrow> bool" where
  "isService msg \<longleftrightarrow> contentType msg = ContentService"

definition msgDate :: "layout_env \<Rightarrow> timeline_item \<Rightarrow> int" where
  "msgDate env msg = le_dateOf env (ti_timestamp msg)"

definition groupSender :: "timeline_item \<Rightarrow> qstring" where
  "groupSender msg = (if isService msg then [] else snd_id (ti_sender msg))"

definition atUnreadBar :: "qstring \<Rightarrow> timeline_item \<Rightarrow> bool" where
  "atUnreadBar firstUnread msg \<longleftrightarrow> firstUnread \<noteq> [] \<and> ti_eventId msg = firstUnread"

definition sameSenderNext :: "layout_env \<Rightarrow> qstring \<Rightarrow> timeline_item \<Rightarrow> timeline_item \<Rightarrow> bool" where
  "sameSenderNext env firstUnread msg next \<longleftrightarrow>
     \<not> isService msg \<and> \<not> isService next \<and> msgDate env next = msgDate env msg
   \<and> \<not> atUnreadBar firstUnread next \<and> snd_id (ti_sender next) = snd_id (ti_sender msg)"

text \<open>The part of the loop body that sets the flags of a row; a null \<open>QDate\<close> is \<open>None\<close>.\<close>

definition row_flags ::
  "layout_env \<Rightarrow> qstring \<Rightarrow> int option \<Rightarrow> qstring \<Rightarrow> timeline_item \<Rightarrow> timeline_item option
     \<Rightarrow> layout_item \<Rightarrow> layout_item" where
  "row_flags env firstUnread prevDate prevSenderId msg next item =
     (let showDate = (Some (msgDate env msg) \<noteq> prevDate);
          showUnreadBar = atUnreadBar firstUnread msg
      in item\<lparr>li_showDate := showDate, li_showUnreadBar := showUnreadBar,
              li_sameSenderAbove := \<not> isService msg \<and> \<not> showDate \<and> \<not> showUnreadBar
                                     \<and> snd_id (ti_sender msg) = prevSenderId,
              li_sameSenderBelow := (case next of None \<Rightarrow> False
                                     | Some nxt \<Rightarrow> sameSenderNext env firstUnread msg nxt)\<rparr>)"

text \<open>The part that places it and takes its height, from the cache when \<open>useCache\<close> (the passes
  that look at it) and the key matches.\<close>

definition row_geometry :: "layout_env \<Rightarrow> bool \<Rightarrow> int \<Rightarrow> timeline_item \<Rightarrow> layout_item \<Rightarrow> layout_item" where
  "row_geometry env useCache y msg item =
     (let st = le_metrics env;
          before = preMessageHeight st item;
          marginTop = (if li_sameSenderAbove item then kMarginTopAttached st else kMarginTop st);
          ew = effectiveBubbleWidth env;
          item1 = item\<lparr>li_y := y, li_messageY := y + before\<rparr>;
          item2 =
            (if useCache \<and> 0 \<le> li_cachedBubbleHeight item1 \<and> li_cachedWidth item1 = ew
                \<and> li_cachedSameSenderAbove item1 = li_sameSenderAbove item1
             then item1
             else item1\<lparr>li_cachedBubbleHeight :=
                          le_bubbleHeight env msg (messageContextWidth env) (li_sameSenderAbove item1),
                        li_cachedWidth := ew,
                        li_cachedSameSenderAbove := li_sameSenderAbove item1\<rparr>);
          messageHeight = li_cachedBubbleHeight item2 + marginTop + kMarginBottom st
      in item2\<lparr>li_messageHeight := messageHeight, li_height := before + messageHeight\<rparr>)"

definition lay_row ::
  "layout_env \<Rightarrow> qstring \<Rightarrow> bool \<Rightarrow> int option \<Rightarrow> qstring \<Rightarrow> int \<Rightarrow> timeline_item
     \<Rightarrow> timeline_item option \<Rightarrow> layout_item \<Rightarrow> layout_item" where
  "lay_row env firstUnread useCache prevDate prevSenderId y msg next item =
     row_geometry env useCache y msg (row_flags env firstUnread prevDate prevSenderId msg next item)"

text \<open>The loop: \<open>n\<close> rows from the given messages on, with the running date, sender and height.\<close>

fun next_of :: "'a list \<Rightarrow> 'a option" where
  "next_of [] = None"
| "next_of (x # xs) = Some x"

fun lay_rows ::
  "layout_env \<Rightarrow> qstring \<Rightarrow> bool \<Rightarrow> nat \<Rightarrow> int option \<Rightarrow> qstring \<Rightarrow> int \<Rightarrow> timeline_item list
     \<Rightarrow> layout_item list \<Rightarrow> layout_item list \<times> int" where
  "lay_rows env firstUnread useCache (Suc n) prevDate prevSenderId y (msg # msgs) items =
     (let item = lay_row env firstUnread useCache prevDate prevSenderId y msg (next_of msgs) (hd items);
          (rest, y1) = lay_rows env firstUnread useCache n (Some (msgDate env msg)) (groupSender msg)
                         (y + li_height item) msgs (tl items)
      in (item # rest, y1))"
| "lay_rows env firstUnread useCache n prevDate prevSenderId y msgs items = ([], y)"

subsection \<open>What every pass does at the end\<close>

text \<open>\<open>updateSenderGroupBounds\<close>: \<open>group_span\<close> is the inner while loop.\<close>

fun group_span :: "layout_item list \<Rightarrow> nat" where
  "group_span (x # y # xs) = (if li_sameSenderBelow x then Suc (group_span (y # xs)) else 1)"
| "group_span xs = 1"

lemma group_span_positive: "0 < group_span xs"
  by (induction xs rule: group_span.induct) auto

definition group_of :: "int \<Rightarrow> layout_item list \<Rightarrow> layout_item list" where
  "group_of i grp =
     map (\<lambda>item. item\<lparr>li_senderGroupFirstIndex := i,
                       li_senderGroupLastIndex := i + int (length grp) - 1,
                       li_senderGroupTopY := li_messageY (hd grp),
                       li_senderGroupBottomY := li_messageY (last grp) + li_messageHeight (last grp)\<rparr>)
         grp"

function updateSenderGroupBounds :: "int \<Rightarrow> layout_item list \<Rightarrow> layout_item list" where
  "updateSenderGroupBounds i [] = []"
| "updateSenderGroupBounds i (x # xs) =
     (let grp = take (group_span (x # xs)) (x # xs)
      in group_of i grp @ updateSenderGroupBounds (i + int (length grp)) (drop (group_span (x # xs)) (x # xs)))"
  by pat_completeness auto

termination updateSenderGroupBounds
  by (relation "measure (\<lambda>(i, xs). length xs)") (simp_all add: group_span_positive)

fun date_indices :: "int \<Rightarrow> layout_item list \<Rightarrow> int list" where
  "date_indices i [] = []"
| "date_indices i (x # xs) = (if li_showDate x then [i] else []) @ date_indices (i + 1) xs"

definition finish_layout :: "layout_env \<Rightarrow> history_layout \<Rightarrow> layout_item list \<Rightarrow> int \<Rightarrow> history_layout" where
  "finish_layout env s items y =
     (let total = (if hl_messages s \<noteq> [] then y + kBottomPadding else y)
      in s\<lparr>hl_layout := updateSenderGroupBounds 0 items, hl_totalHeight := total,
           hl_dateIndices := date_indices 0 items,
           hl_contentOffset := max 0 (le_visibleHeight env - total)\<rparr>)"

definition top_indicator :: "history_layout \<Rightarrow> int" where
  "top_indicator s =
     topTimelineIndicatorHeight (hl_messages s \<noteq> []) (hl_canPaginateBack s) (hl_hitTimelineStart s)"

subsection \<open>The passes\<close>

definition recalculateLayout :: "layout_env \<Rightarrow> history_layout \<Rightarrow> history_layout" where
  "recalculateLayout env s =
     (let items0 = (if length (hl_layout s) \<noteq> length (hl_messages s)
                    then replicate (length (hl_messages s)) default_layout_item else hl_layout s);
          (items, y) = lay_rows env (hl_firstUnreadEventId s) True (length (hl_messages s)) None []
                         (top_indicator s) (hl_messages s) items0
      in finish_layout env s items y)"

definition recalculateLayoutFrom :: "layout_env \<Rightarrow> int \<Rightarrow> history_layout \<Rightarrow> history_layout" where
  "recalculateLayoutFrom env firstDirtyIndex s =
     (if firstDirtyIndex \<le> 0 \<or> length (hl_layout s) \<noteq> length (hl_messages s)
         \<or> int (length (hl_messages s)) \<le> firstDirtyIndex
      then recalculateLayout env s
      else let k = nat firstDirtyIndex;
               prevItem = hl_layout s ! (k - 1);
               prev = hl_messages s ! (k - 1);
               (items, y) = lay_rows env (hl_firstUnreadEventId s) True (length (hl_messages s))
                              (Some (msgDate env prev)) (groupSender prev)
                              (li_y prevItem + li_height prevItem)
                              (drop k (hl_messages s)) (drop k (hl_layout s))
           in finish_layout env s (take k (hl_layout s) @ items) y)"

text \<open>The loop of \<open>recalculateLayoutAppend\<close>: \<open>items\<close> are the rows so far, the last one that of
  \<open>prev\<close>, whose \<open>sameSenderBelow\<close> is set when the next row is known.\<close>

fun append_rows ::
  "layout_env \<Rightarrow> qstring \<Rightarrow> timeline_item \<Rightarrow> layout_item list \<Rightarrow> int \<Rightarrow> timeline_item list
     \<Rightarrow> layout_item list \<times> int" where
  "append_rows env firstUnread prev items y [] = (items, y)"
| "append_rows env firstUnread prev items y (msg # msgs) =
     (let prevSenderId = (if \<not> isService prev then snd_id (ti_sender prev) else []);
          item = row_geometry env False y msg
                   (row_flags env firstUnread (Some (msgDate env prev)) prevSenderId msg None
                      default_layout_item);
          items1 = items[length items - 1 := (last items)
                     \<lparr>li_sameSenderBelow := \<not> isService msg \<and> \<not> isService prev
                        \<and> msgDate env msg = msgDate env prev \<and> \<not> li_showUnreadBar item
                        \<and> snd_id (ti_sender msg) = snd_id (ti_sender prev)\<rparr>]
      in append_rows env firstUnread msg (items1 @ [item]) (y + li_height item) msgs)"

definition recalculateLayoutAppend :: "layout_env \<Rightarrow> int \<Rightarrow> history_layout \<Rightarrow> history_layout" where
  "recalculateLayoutAppend env firstNewIndex s =
     (if firstNewIndex \<le> 0 \<or> int (length (hl_messages s)) < firstNewIndex
         \<or> int (length (hl_layout s)) \<noteq> firstNewIndex
      then recalculateLayout env s
      else let k = nat firstNewIndex;
               y0 = (if 0 < hl_totalHeight s then hl_totalHeight s - kBottomPadding else hl_totalHeight s);
               (items, y) = append_rows env (hl_firstUnreadEventId s) (hl_messages s ! (k - 1))
                              (hl_layout s) y0 (drop k (hl_messages s))
           in finish_layout env s items y)"

definition shift_row :: "int \<Rightarrow> layout_item \<Rightarrow> layout_item" where
  "shift_row d item = item\<lparr>li_y := li_y item + d, li_messageY := li_messageY item + d\<rparr>"

definition recalculateLayoutPrepend :: "layout_env \<Rightarrow> int \<Rightarrow> history_layout \<Rightarrow> history_layout" where
  "recalculateLayoutPrepend env prependedCount s =
     (let oldCount = int (length (hl_messages s)) - prependedCount
      in if prependedCount \<le> 0 \<or> oldCount \<le> 0 \<or> int (length (hl_layout s)) \<noteq> oldCount
         then recalculateLayout env s
         else let old = hl_layout s;
                  built = nat prependedCount + 1 + (if 1 < oldCount then 1 else 0);
                  (items, y) = lay_rows env (hl_firstUnreadEventId s) False built None [] (top_indicator s)
                                 (hl_messages s) (replicate (length (hl_messages s)) default_layout_item);
                  copied = (if 2 < oldCount then map (shift_row (y - li_y (old ! 2))) (drop 2 old) else []);
                  y1 = (if copied = [] then y else li_y (last copied) + li_height (last copied))
              in finish_layout env s (items @ copied) y1)"

subsection \<open>The reference layout\<close>

text \<open>
  A row without what is only remembered (the height cache) or set afterwards (the group bounds),
  and the layout computed from the messages alone, with no cache and no earlier layout.
\<close>

definition nocache :: "layout_item \<Rightarrow> layout_item" where
  "nocache item = item\<lparr>li_cachedBubbleHeight := -1, li_cachedWidth := -1, li_cachedSameSenderAbove := False\<rparr>"

definition geo :: "layout_item \<Rightarrow> layout_item" where
  "geo item = (nocache item)\<lparr>li_senderGroupFirstIndex := -1, li_senderGroupLastIndex := -1,
     li_senderGroupTopY := 0, li_senderGroupBottomY := 0\<rparr>"

lemma geo_fields [simp]:
  "li_y (geo x) = li_y x" "li_height (geo x) = li_height x" "li_messageY (geo x) = li_messageY x"
  "li_messageHeight (geo x) = li_messageHeight x" "li_showDate (geo x) = li_showDate x"
  "li_showUnreadBar (geo x) = li_showUnreadBar x" "li_sameSenderAbove (geo x) = li_sameSenderAbove x"
  "li_sameSenderBelow (geo x) = li_sameSenderBelow x"
  by (simp_all add: geo_def nocache_def)

lemma geo_geo [simp]: "geo (geo x) = geo x" and geo_nocache [simp]: "geo (nocache x) = geo x"
  by (simp_all add: geo_def nocache_def)

definition spec_row ::
  "layout_env \<Rightarrow> qstring \<Rightarrow> int option \<Rightarrow> qstring \<Rightarrow> int \<Rightarrow> timeline_item \<Rightarrow> timeline_item option \<Rightarrow> layout_item" where
  "spec_row env firstUnread prevDate prevSenderId y msg next =
     geo (lay_row env firstUnread False prevDate prevSenderId y msg next default_layout_item)"

fun spec_rows ::
  "layout_env \<Rightarrow> qstring \<Rightarrow> int option \<Rightarrow> qstring \<Rightarrow> int \<Rightarrow> timeline_item list \<Rightarrow> layout_item list" where
  "spec_rows env firstUnread prevDate prevSenderId y [] = []"
| "spec_rows env firstUnread prevDate prevSenderId y (msg # msgs) =
     (let row = spec_row env firstUnread prevDate prevSenderId y msg (next_of msgs)
      in row # spec_rows env firstUnread (Some (msgDate env msg)) (groupSender msg) (y + li_height row) msgs)"

definition heights :: "layout_item list \<Rightarrow> int" where
  "heights rows = sum_list (map li_height rows)"

lemma heights_simps [simp]:
  "heights [] = 0" "heights (x # xs) = li_height x + heights xs" "heights (xs @ ys) = heights xs + heights ys"
  "heights (map geo xs) = heights xs"
  by (simp_all add: heights_def comp_def)

lemma heights_update_same:
  "i < length xs \<Longrightarrow> li_height x = li_height (xs ! i) \<Longrightarrow> heights (xs[i := x]) = heights xs"
  using list_update_id [of "map li_height xs" i] by (simp add: heights_def map_update)

definition rows_of :: "layout_env \<Rightarrow> history_layout \<Rightarrow> layout_item list" where
  "rows_of env s = spec_rows env (hl_firstUnreadEventId s) None [] (top_indicator s) (hl_messages s)"

definition reference_layout :: "layout_env \<Rightarrow> history_layout \<Rightarrow> history_layout" where
  "reference_layout env s = finish_layout env s (rows_of env s) (top_indicator s + heights (rows_of env s))"

text \<open>The height cache never lies: an entry whose key matches holds the height of the bubble.\<close>

definition cache_ok :: "layout_env \<Rightarrow> timeline_item \<Rightarrow> layout_item \<Rightarrow> bool" where
  "cache_ok env msg item \<longleftrightarrow>
     (0 \<le> li_cachedBubbleHeight item \<and> li_cachedWidth item = effectiveBubbleWidth env \<longrightarrow>
      li_cachedBubbleHeight item =
        le_bubbleHeight env msg (messageContextWidth env) (li_cachedSameSenderAbove item))"

definition drop_caches :: "history_layout \<Rightarrow> history_layout" where
  "drop_caches s = s\<lparr>hl_layout := map nocache (hl_layout s)\<rparr>"

text \<open>What every operation keeps: apart from the caches the layout is the reference layout of the
  messages, and the caches are right.\<close>

definition layout_ok :: "layout_env \<Rightarrow> history_layout \<Rightarrow> bool" where
  "layout_ok env s \<longleftrightarrow>
     drop_caches s = reference_layout env s \<and> list_all2 (cache_ok env) (hl_messages s) (hl_layout s)"

subsection \<open>Rows\<close>

lemma geo_eqI:
  assumes "li_y a = li_y b" "li_height a = li_height b" "li_messageY a = li_messageY b"
    "li_messageHeight a = li_messageHeight b" "li_showDate a = li_showDate b"
    "li_showUnreadBar a = li_showUnreadBar b" "li_sameSenderAbove a = li_sameSenderAbove b"
    "li_sameSenderBelow a = li_sameSenderBelow b"
  shows "geo a = geo b"
  using assms by (cases a; cases b) (simp add: geo_def nocache_def)

definition rowHeight :: "layout_env \<Rightarrow> timeline_item \<Rightarrow> layout_item \<Rightarrow> int" where
  "rowHeight env msg item =
     le_bubbleHeight env msg (messageContextWidth env) (li_sameSenderAbove item)
   + (if li_sameSenderAbove item then kMarginTopAttached (le_metrics env) else kMarginTop (le_metrics env))
   + kMarginBottom (le_metrics env)"

lemma row_geometry_fields [simp]:
  "li_y (row_geometry env uc y msg item) = y"
  "li_messageY (row_geometry env uc y msg item) = y + preMessageHeight (le_metrics env) item"
  "li_showDate (row_geometry env uc y msg item) = li_showDate item"
  "li_showUnreadBar (row_geometry env uc y msg item) = li_showUnreadBar item"
  "li_sameSenderAbove (row_geometry env uc y msg item) = li_sameSenderAbove item"
  "li_sameSenderBelow (row_geometry env uc y msg item) = li_sameSenderBelow item"
  "li_height (row_geometry env uc y msg item)
     = preMessageHeight (le_metrics env) item + li_messageHeight (row_geometry env uc y msg item)"
  by (simp_all add: row_geometry_def Let_def)

lemma row_geometry_height [simp]:
  "cache_ok env msg item \<Longrightarrow> li_messageHeight (row_geometry env uc y msg item) = rowHeight env msg item"
  by (auto simp: row_geometry_def Let_def cache_ok_def rowHeight_def)

lemma row_geometry_cache [simp]:
  "cache_ok env msg item \<Longrightarrow> cache_ok env msg (row_geometry env uc y msg item)"
  by (auto simp: row_geometry_def Let_def cache_ok_def)

lemma row_flags_fields [simp]:
  "li_showDate (row_flags env fu pd ps msg next item) \<longleftrightarrow> Some (msgDate env msg) \<noteq> pd"
  "li_showUnreadBar (row_flags env fu pd ps msg next item) \<longleftrightarrow> atUnreadBar fu msg"
  "li_sameSenderAbove (row_flags env fu pd ps msg next item) \<longleftrightarrow>
     \<not> isService msg \<and> Some (msgDate env msg) = pd \<and> \<not> atUnreadBar fu msg \<and> snd_id (ti_sender msg) = ps"
  "li_sameSenderBelow (row_flags env fu pd ps msg next item) \<longleftrightarrow>
     (case next of None \<Rightarrow> False | Some nxt \<Rightarrow> sameSenderNext env fu msg nxt)"
  by (simp_all add: row_flags_def Let_def)

lemma row_flags_cache [simp]:
  "cache_ok env msg (row_flags env fu pd ps msg next item) = cache_ok env msg item"
  by (simp add: row_flags_def Let_def cache_ok_def)

lemma default_cache [simp]: "cache_ok env msg default_layout_item"
  by (simp add: cache_ok_def default_layout_item_def)

lemma lay_row_geo:
  assumes "cache_ok env msg item"
  shows "geo (lay_row env firstUnread useCache prevDate prevSenderId y msg next item)
     = spec_row env firstUnread prevDate prevSenderId y msg next"
  unfolding spec_row_def lay_row_def using assms
  by (intro geo_eqI) (simp_all add: preMessageHeight_def rowHeight_def)

lemma lay_row_cache:
  "cache_ok env msg item \<Longrightarrow>
   cache_ok env msg (lay_row env firstUnread useCache prevDate prevSenderId y msg next item)"
  by (simp add: lay_row_def)

lemma default_caches [simp]: "list_all2 (cache_ok env) msgs (replicate (length msgs) default_layout_item)"
  by (simp add: list_all2_conv_all_nth)

lemma lay_row_height:
  assumes "cache_ok env msg item"
  shows "li_height (lay_row env firstUnread useCache prevDate prevSenderId y msg next item)
       = li_height (spec_row env firstUnread prevDate prevSenderId y msg next)"
  using arg_cong [OF lay_row_geo [OF assms], of li_height] by simp

lemma lay_rows_spec:
  "list_all2 (cache_ok env) msgs items \<Longrightarrow>
   map geo (fst (lay_rows env fu useCache n pd ps y msgs items)) = take n (spec_rows env fu pd ps y msgs)
 \<and> snd (lay_rows env fu useCache n pd ps y msgs items) = y + heights (take n (spec_rows env fu pd ps y msgs))
 \<and> list_all2 (cache_ok env) (take n msgs) (fst (lay_rows env fu useCache n pd ps y msgs items))"
proof (induction n arbitrary: pd ps y msgs items)
  case (Suc n)
  show ?case
  proof (cases msgs)
    case (Cons m ms)
    with Suc.prems obtain i is' where i: "items = i # is'" "cache_ok env m i" "list_all2 (cache_ok env) ms is'"
      by (auto simp: list_all2_Cons1)
    show ?thesis
      using Suc.IH [OF i(3), of "Some (msgDate env m)" "groupSender m"
          "y + li_height (spec_row env fu pd ps y m (next_of ms))"]
      by (simp add: Cons i(1) Let_def case_prod_beta lay_row_geo [OF i(2)] lay_row_height [OF i(2)]
          lay_row_cache [OF i(2)])
  qed simp
qed simp

lemma spec_row_geo [simp]: "geo (spec_row env fu pd ps y m n) = spec_row env fu pd ps y m n"
  by (simp add: spec_row_def)

lemma spec_rows_geo [simp]: "map geo (spec_rows env fu pd ps y ms) = spec_rows env fu pd ps y ms"
  by (induction ms arbitrary: pd ps y) (simp_all add: Let_def)

lemma length_spec_rows [simp]: "length (spec_rows env fu pd ps y ms) = length ms"
  by (induction ms arbitrary: pd ps y) (simp_all add: Let_def)

subsection \<open>The end of a pass\<close>

lemma group_span_geo [simp]: "group_span (map geo xs) = group_span xs"
  by (induction xs rule: group_span.induct) simp_all

lemma group_span_le: "xs \<noteq> [] \<Longrightarrow> group_span xs \<le> length xs"
  by (induction xs rule: group_span.induct) auto

lemma group_of_geo: "map nocache (group_of i grp) = group_of i (map geo grp)"
  by (cases "grp = []") (simp_all add: group_of_def geo_def nocache_def hd_map last_map)

lemma group_bounds_step:
  "xs \<noteq> [] \<Longrightarrow> updateSenderGroupBounds i xs =
     group_of i (take (group_span xs) xs)
     @ updateSenderGroupBounds (i + int (length (take (group_span xs) xs))) (drop (group_span xs) xs)"
  by (cases xs) (simp_all add: Let_def)

lemma group_bounds_geo:
  "map nocache (updateSenderGroupBounds i xs) = updateSenderGroupBounds i (map geo xs)"
proof (induction i xs rule: updateSenderGroupBounds.induct)
  case (2 i x xs)
  define ys where "ys = x # xs"
  then have ne: "ys \<noteq> []" by simp
  have "map nocache (updateSenderGroupBounds i ys)
      = group_of i (map geo (take (group_span ys) ys))
        @ updateSenderGroupBounds (i + int (length (take (group_span ys) ys)))
            (map geo (drop (group_span ys) ys))"
    using 2 [OF refl, folded ys_def] by (simp add: group_bounds_step [OF ne] group_of_geo)
  also have "\<dots> = updateSenderGroupBounds i (map geo ys)"
    using ne by (simp add: group_bounds_step [of "map geo ys"] take_map drop_map)
  finally show ?case by (simp add: ys_def)
qed simp

lemma group_of_caches: "list_all2 (cache_ok env) ms xs \<Longrightarrow> list_all2 (cache_ok env) ms (group_of i xs)"
  by (auto simp: group_of_def list_all2_conv_all_nth cache_ok_def)

lemma group_bounds_caches:
  "list_all2 (cache_ok env) ms xs \<Longrightarrow> list_all2 (cache_ok env) ms (updateSenderGroupBounds i xs)"
proof (induction i xs arbitrary: ms rule: updateSenderGroupBounds.induct)
  case (2 i x xs)
  let ?n = "group_span (x # xs)"
  have "list_all2 (cache_ok env) (take ?n ms @ drop ?n ms)
          (group_of i (take ?n (x # xs)) @ updateSenderGroupBounds (i + int (length (take ?n (x # xs)))) (drop ?n (x # xs)))"
    using 2(1) [OF refl, of "drop ?n ms"] 2(2)
    by (intro list_all2_appendI group_of_caches) (auto intro: list_all2_takeI list_all2_dropI)
  then show ?case by (simp add: Let_def)
qed simp

lemma geo_group_bounds [simp]: "map geo (updateSenderGroupBounds i xs) = map geo xs"
proof (induction i xs rule: updateSenderGroupBounds.induct)
  case (2 i x xs)
  let ?n = "group_span (x # xs)"
  have "map geo (group_of i ys) = map geo ys" for ys
    by (simp add: group_of_def geo_def nocache_def)
  then have "map geo (updateSenderGroupBounds i (x # xs)) = map geo (take ?n (x # xs) @ drop ?n (x # xs))"
    unfolding map_append using 2 [OF refl] by (simp add: Let_def)
  then show ?case by simp
qed simp

lemma date_indices_geo [simp]: "date_indices i (map geo xs) = date_indices i xs"
  by (induction xs arbitrary: i) simp_all

lemma finish_layout_ok:
  assumes "map geo items = rows_of env s" and "y = top_indicator s + heights (rows_of env s)"
    and "list_all2 (cache_ok env) (hl_messages s) items"
  shows "layout_ok env (finish_layout env s items y)"
proof -
  define t where "t = finish_layout env s items y"
  have fields: "top_indicator t = top_indicator s" "hl_messages t = hl_messages s"
    "hl_firstUnreadEventId t = hl_firstUnreadEventId s"
    by (simp_all add: t_def finish_layout_def Let_def top_indicator_def)
  have rows: "rows_of env t = rows_of env s" by (simp add: rows_of_def fields)
  have again: "finish_layout env t xs z = finish_layout env s xs z" for xs z
    by (simp add: t_def finish_layout_def Let_def)
  have "drop_caches t = finish_layout env s (map geo items) y"
    by (simp add: t_def drop_caches_def finish_layout_def Let_def group_bounds_geo)
  moreover have "list_all2 (cache_ok env) (hl_messages t) (hl_layout t)"
    using assms(3) by (simp add: t_def finish_layout_def Let_def group_bounds_caches)
  ultimately show ?thesis
    unfolding t_def [symmetric] layout_ok_def reference_layout_def fields rows again
    unfolding assms(1,2) by blast
qed

lemma layout_okD:
  assumes "layout_ok env s"
  shows "map geo (hl_layout s) = rows_of env s"
    and "length (hl_layout s) = length (hl_messages s)"
    and "hl_messages s \<noteq> [] \<Longrightarrow> hl_totalHeight s = top_indicator s + heights (rows_of env s) + kBottomPadding"
    and "list_all2 (cache_ok env) (hl_messages s) (hl_layout s)"
proof -
  from assms have d: "drop_caches s = reference_layout env s" by (simp add: layout_ok_def)
  have "map geo (map nocache (hl_layout s)) = map geo (hl_layout (reference_layout env s))"
    using arg_cong [OF d, of "\<lambda>t. map geo (hl_layout t)"] by (simp add: drop_caches_def)
  then show "map geo (hl_layout s) = rows_of env s"
    by (simp add: reference_layout_def finish_layout_def Let_def comp_def rows_of_def)
  then show "length (hl_layout s) = length (hl_messages s)"
    by (metis length_map length_spec_rows rows_of_def)
  show "hl_messages s \<noteq> [] \<Longrightarrow> hl_totalHeight s = top_indicator s + heights (rows_of env s) + kBottomPadding"
    using arg_cong [OF d, of hl_totalHeight]
    by (simp add: drop_caches_def reference_layout_def finish_layout_def Let_def)
  show "list_all2 (cache_ok env) (hl_messages s) (hl_layout s)" using assms by (simp add: layout_ok_def)
qed

lemma recalculateLayout_ok:
  assumes "length (hl_layout s) = length (hl_messages s) \<Longrightarrow> list_all2 (cache_ok env) (hl_messages s) (hl_layout s)"
  shows "layout_ok env (recalculateLayout env s)"
proof -
  define items0 where "items0 = (if length (hl_layout s) \<noteq> length (hl_messages s)
      then replicate (length (hl_messages s)) default_layout_item else hl_layout s)"
  have c: "list_all2 (cache_ok env) (hl_messages s) items0" using assms by (simp add: items0_def)
  show ?thesis
    unfolding recalculateLayout_def Let_def items0_def [symmetric] case_prod_beta
    using lay_rows_spec [OF c, of "hl_firstUnreadEventId s" True "length (hl_messages s)" None "[]" "top_indicator s"]
    by (intro finish_layout_ok) (simp_all add: rows_of_def)
qed

subsection \<open>Structure of the reference rows\<close>

lemma spec_row_fields [simp]:
  "li_y (spec_row env fu pd ps y m n) = y"
  "li_showDate (spec_row env fu pd ps y m n) \<longleftrightarrow> Some (msgDate env m) \<noteq> pd"
  "li_showUnreadBar (spec_row env fu pd ps y m n) \<longleftrightarrow> atUnreadBar fu m"
  "li_sameSenderBelow (spec_row env fu pd ps y m n) \<longleftrightarrow>
     (case n of None \<Rightarrow> False | Some m' \<Rightarrow> sameSenderNext env fu m m')"
  by (simp_all add: spec_row_def lay_row_def)

lemma spec_row_below:
  "spec_row env fu pd ps y m n =
     (spec_row env fu pd ps y m None)\<lparr>li_sameSenderBelow := (case n of None \<Rightarrow> False
                                        | Some m' \<Rightarrow> sameSenderNext env fu m m')\<rparr>"
  by (simp add: spec_row_def lay_row_def geo_def nocache_def row_geometry_def row_flags_def Let_def
      default_layout_item_def preMessageHeight_def)

lemma spec_row_shift: "spec_row env fu pd ps (y + d) m n = shift_row d (spec_row env fu pd ps y m n)"
  by (simp add: spec_row_def lay_row_def geo_def nocache_def row_geometry_def row_flags_def Let_def
      default_layout_item_def preMessageHeight_def shift_row_def)

lemma spec_row_height_next [simp]:
  "li_height (spec_row env fu pd ps y m (Some m')) = li_height (spec_row env fu pd ps y m None)"
  by (subst spec_row_below) simp

lemma shift_row_height [simp]: "li_height (shift_row d x) = li_height x"
  by (simp add: shift_row_def)

lemma heights_shift [simp]: "heights (map (shift_row d) xs) = heights xs"
  by (simp add: heights_def comp_def)

lemma spec_rows_shift: "spec_rows env fu pd ps (y + d) ms = map (shift_row d) (spec_rows env fu pd ps y ms)"
proof (induction ms arbitrary: pd ps y)
  case (Cons m ms)
  have "y + d + h = y + h + d" for h by simp
  then show ?case
    unfolding spec_rows.simps Let_def list.map spec_row_shift shift_row_height
    by (simp only: Cons.IH)
qed simp

lemma spec_rows_drop:
  assumes "0 < n" and "n \<le> length ms"
  shows "drop n (spec_rows env fu pd ps y ms) =
           spec_rows env fu (Some (msgDate env (ms ! (n - 1)))) (groupSender (ms ! (n - 1)))
             (y + heights (take n (spec_rows env fu pd ps y ms))) (drop n ms)"
  using assms
proof (induction n arbitrary: pd ps y ms)
  case (Suc n)
  then obtain m ms' where ms: "ms = m # ms'" by (cases ms) auto
  show ?case
  proof (cases "n = 0")
    case True
    then show ?thesis by (simp add: ms Let_def)
  next
    case False
    then have n: "0 < n" "n \<le> length ms'" using Suc.prems ms by simp_all
    then have "(m # ms') ! n = ms' ! (n - 1)" by simp
    then show ?thesis
      using Suc.IH [OF n, of "Some (msgDate env m)" "groupSender m"] n
      by (simp add: ms Let_def add.assoc)
  qed
qed simp

lemma last_spec_rows:
  "ms \<noteq> [] \<Longrightarrow> last (r # spec_rows env fu pd ps y ms) = last (spec_rows env fu pd ps y ms)"
  by (cases ms) (simp_all add: Let_def)

lemma spec_rows_ends:
  "ms \<noteq> [] \<Longrightarrow>
     li_y (last (spec_rows env fu pd ps y ms)) + li_height (last (spec_rows env fu pd ps y ms))
       = y + heights (spec_rows env fu pd ps y ms)"
proof (induction ms arbitrary: pd ps y)
  case (Cons m ms)
  show ?case
  proof (cases "ms = []")
    case False
    show ?thesis
      unfolding spec_rows.simps Let_def last_spec_rows [OF False] Cons.IH [OF False] by simp
  qed (simp add: Let_def)
qed simp

lemma spec_rows_first: "ms \<noteq> [] \<Longrightarrow> li_y (spec_rows env fu pd ps y ms ! 0) = y"
  by (cases ms) (simp_all add: Let_def)

lemma spec_rows_nth_y:
  "n < length ms \<Longrightarrow>
   li_y (spec_rows env fu pd ps y ms ! n) = y + heights (take n (spec_rows env fu pd ps y ms))"
proof (induction ms arbitrary: pd ps y n)
  case (Cons m ms)
  then show ?case by (cases n) (simp_all add: Let_def add.assoc)
qed simp

lemma spec_rows_end:
  assumes "0 < n" and "n \<le> length ms"
  shows "li_y (spec_rows env fu pd ps y ms ! (n - 1)) + li_height (spec_rows env fu pd ps y ms ! (n - 1))
       = y + heights (take n (spec_rows env fu pd ps y ms))"
  using assms spec_rows_nth_y [of "n - 1" ms]
    take_Suc_conv_app_nth [of "n - 1" "spec_rows env fu pd ps y ms"] by simp

lemma spec_rows_snoc:
  assumes "ms \<noteq> []"
  shows "spec_rows env fu pd ps y (ms @ [m]) =
           (spec_rows env fu pd ps y ms)[length ms - 1 := (last (spec_rows env fu pd ps y ms))
              \<lparr>li_sameSenderBelow := sameSenderNext env fu (last ms) m\<rparr>]
           @ [spec_row env fu (Some (msgDate env (last ms))) (groupSender (last ms))
                (y + heights (spec_rows env fu pd ps y ms)) m None]"
  using assms
proof (induction ms arbitrary: pd ps y)
  case (Cons a ms)
  show ?case
  proof (cases ms)
    case Nil
    then show ?thesis by (simp add: Let_def spec_row_below [of env fu pd ps y a "Some m"])
  next
    case (Cons b ms')
    then have ne: "ms \<noteq> []" by simp
    have next_same: "next_of (ms @ [m]) = next_of ms" using Cons by simp
    have len: "length (a # ms) - 1 = Suc (length ms - 1)" using Cons by simp
    show ?thesis
      unfolding append_Cons spec_rows.simps Let_def next_same len list_update.simps nat.case last_spec_rows [OF ne]
        Cons.IH [OF ne]
      using ne by (simp add: add.assoc)
  qed
qed simp

subsection \<open>Every pass gives the reference layout\<close>

lemma append_rows_spec:
  assumes "ms \<noteq> []" and "last ms = prev" and "list_all2 (cache_ok env) ms items"
    and "map geo items = spec_rows env fu None [] y0 ms" and "y = y0 + heights (spec_rows env fu None [] y0 ms)"
  shows "map geo (fst (append_rows env fu prev items y new)) = spec_rows env fu None [] y0 (ms @ new)
       \<and> snd (append_rows env fu prev items y new) = y0 + heights (spec_rows env fu None [] y0 (ms @ new))
       \<and> list_all2 (cache_ok env) (ms @ new) (fst (append_rows env fu prev items y new))"
  using assms
proof (induction new arbitrary: ms prev items y)
  case (Cons m new)
  define item where "item = row_geometry env False y m
    (row_flags env fu (Some (msgDate env prev)) (groupSender prev) m None default_layout_item)"
  define items1 where "items1 = items[length items - 1 := (last items)
    \<lparr>li_sameSenderBelow := sameSenderNext env fu prev m\<rparr>] @ [item]"
  have len: "length items = length ms" using Cons.prems(3) by (simp add: list_all2_lengthD)
  then have ne: "items \<noteq> []" using Cons.prems(1) by auto
  have bar: "li_showUnreadBar item \<longleftrightarrow> atUnreadBar fu m" by (simp add: item_def)
  have below: "(\<not> isService m \<and> \<not> isService prev \<and> msgDate env m = msgDate env prev
      \<and> \<not> li_showUnreadBar item \<and> snd_id (ti_sender m) = snd_id (ti_sender prev))
    \<longleftrightarrow> sameSenderNext env fu prev m"
    by (auto simp: sameSenderNext_def bar)
  have item: "geo item = spec_row env fu (Some (msgDate env prev)) (groupSender prev) y m None"
    by (simp add: item_def spec_row_def lay_row_def)
  have sender: "(if \<not> isService prev then snd_id (ti_sender prev) else []) = groupSender prev"
    by (simp add: groupSender_def)
  have step: "append_rows env fu prev items y (m # new) = append_rows env fu m items1 (y + li_height item) new"
    unfolding append_rows.simps Let_def sender item_def [symmetric] below items1_def [symmetric] ..
  have geo1: "geo ((last items)\<lparr>li_sameSenderBelow := b\<rparr>) = (geo (last items))\<lparr>li_sameSenderBelow := b\<rparr>" for b
    by (simp add: geo_def nocache_def)
  have last_geo: "geo (last items) = last (spec_rows env fu None [] y0 ms)"
    using ne by (simp add: Cons.prems(4) [symmetric] last_map)
  have rows: "map geo items1 = spec_rows env fu None [] y0 (ms @ [m])"
    using len by (simp add: items1_def map_update geo1 last_geo Cons.prems(4) item Cons.prems(5)
        spec_rows_snoc [OF Cons.prems(1)] Cons.prems(2))
  have caches: "list_all2 (cache_ok env) (ms @ [m]) items1"
  proof -
    have "cache_ok env prev ((last items)\<lparr>li_sameSenderBelow := b\<rparr>)" for b
      using Cons.prems(1,2,3) ne len
      by (auto simp: list_all2_conv_all_nth last_conv_nth cache_ok_def)
    then have "list_all2 (cache_ok env) (ms[length items - 1 := prev]) (items[length items - 1 := (last items)
        \<lparr>li_sameSenderBelow := sameSenderNext env fu prev m\<rparr>])"
      by (intro list_all2_update_cong Cons.prems(3))
    moreover have "ms[length items - 1 := prev] = ms"
      using Cons.prems(1,2) len by (metis last_conv_nth list_update_id)
    ultimately show ?thesis unfolding items1_def
      by (intro list_all2_appendI) (simp_all add: item_def)
  qed
  have y: "y + li_height item = y0 + heights (spec_rows env fu None [] y0 (ms @ [m]))"
  proof -
    have "heights (spec_rows env fu None [] y0 (ms @ [m])) = heights (map geo items1)" by (simp add: rows)
    also have "\<dots> = heights items + li_height item"
      using ne by (simp add: items1_def heights_update_same last_conv_nth)
    also have "heights items = heights (spec_rows env fu None [] y0 ms)"
      using Cons.prems(4) by (metis heights_simps(4))
    finally show ?thesis using Cons.prems(5) by simp
  qed
  show ?case
    unfolding step using Cons.IH [of "ms @ [m]" m items1, OF _ _ caches rows y] by simp
qed simp

text \<open>Sizes are not negative: the heights of bubbles, separators and margins.\<close>

definition sizes_ok :: "layout_env \<Rightarrow> bool" where
  "sizes_ok env \<longleftrightarrow>
     (\<forall>msg w above. 0 \<le> le_bubbleHeight env msg w above)
   \<and> 0 \<le> dateBadgeTotalHeight (le_metrics env) \<and> 0 \<le> unreadBarTotalHeight (le_metrics env)
   \<and> 0 \<le> kMarginTop (le_metrics env) \<and> 0 \<le> kMarginTopAttached (le_metrics env)
   \<and> 0 \<le> kMarginBottom (le_metrics env)"

lemma spec_row_nonneg:
  assumes "sizes_ok env"
  shows "0 \<le> li_messageHeight (spec_row env fu pd ps y m n)"
    and "y \<le> li_messageY (spec_row env fu pd ps y m n)"
    and "li_height (spec_row env fu pd ps y m n)
       = li_messageY (spec_row env fu pd ps y m n) - y + li_messageHeight (spec_row env fu pd ps y m n)"
  using assms by (auto simp: spec_row_def lay_row_def sizes_ok_def rowHeight_def preMessageHeight_def)

lemma spec_rows_nonneg: "sizes_ok env \<Longrightarrow> r \<in> set (spec_rows env fu pd ps y ms) \<Longrightarrow> 0 \<le> li_height r"
proof (induction ms arbitrary: pd ps y)
  case (Cons m ms)
  then show ?case
    using spec_row_nonneg [OF Cons.prems(1), where m = m and pd = pd and ps = ps and n = "next_of ms"]
    by (force simp: Let_def)
qed simp

lemma heights_nonneg: "sizes_ok env \<Longrightarrow> 0 \<le> heights (spec_rows env fu pd ps y ms)"
  unfolding heights_def by (intro sum_list_nonneg) (auto dest: spec_rows_nonneg)

lemma top_indicator_nonneg: "0 \<le> top_indicator s"
  by (simp add: top_indicator_def topTimelineIndicatorHeight_def)

lemma recalculateLayoutAppend_ok:
  assumes "layout_ok env s" and sizes: "sizes_ok env"
  shows "layout_ok env (recalculateLayoutAppend env (int (length (hl_messages s)))
           (s\<lparr>hl_messages := hl_messages s @ new\<rparr>))"
proof (cases "hl_messages s = []")
  case True
  note ok = layout_okD [OF assms(1)]
  define t where "t = s\<lparr>hl_messages := hl_messages s @ new\<rparr>"
  have "recalculateLayoutAppend env (int (length (hl_messages s))) t = recalculateLayout env t"
    using True by (simp add: recalculateLayoutAppend_def)
  moreover have "list_all2 (cache_ok env) (hl_messages t) (hl_layout t)"
    if "length (hl_layout t) = length (hl_messages t)"
    using that ok(2,4) True by (simp add: t_def)
  ultimately show ?thesis using recalculateLayout_ok [of t env] by (simp add: t_def)
next
  case False
  note ok = layout_okD [OF assms(1)]
  define ms fu where "ms = hl_messages s" and "fu = hl_firstUnreadEventId s"
  define t where "t = s\<lparr>hl_messages := ms @ new\<rparr>"
  have ne: "ms \<noteq> []" using False by (simp add: ms_def)
  have top: "top_indicator t = top_indicator s" using ne by (simp add: top_indicator_def t_def ms_def)
  have rows: "rows_of env s = spec_rows env fu None [] (top_indicator s) ms"
    by (simp add: rows_of_def ms_def fu_def)
  have total: "hl_totalHeight t = top_indicator s + heights (rows_of env s) + kBottomPadding"
    using ok(3) [OF False] by (simp add: t_def)
  have pos: "0 < hl_totalHeight t"
    unfolding total rows
    using heights_nonneg [OF sizes, of fu None "[]" "top_indicator s" ms] top_indicator_nonneg [of s]
    by (simp add: kBottomPadding_def)
  obtain items y where a: "append_rows env fu (last ms) (hl_layout s)
      (top_indicator s + heights (rows_of env s)) new = (items, y)" by fastforce
  from append_rows_spec [OF ne refl ok(4) [folded ms_def], of _ "top_indicator s" _ new,
      OF ok(1) [unfolded rows] refl, folded rows]
  have spec: "map geo items = rows_of env t" "y = top_indicator t + heights (rows_of env t)"
    "list_all2 (cache_ok env) (hl_messages t) items"
    unfolding a by (simp_all add: rows_of_def t_def top [unfolded t_def] fu_def)
  have "recalculateLayoutAppend env (int (length ms)) t = finish_layout env t items y"
    using ne ok(2) a pos total
    by (simp add: recalculateLayoutAppend_def Let_def t_def ms_def nth_append last_conv_nth
        fu_def)
  then show ?thesis using finish_layout_ok [OF spec] by (simp add: t_def ms_def)
qed

lemma recalculateLayoutFrom_ok:
  assumes "map geo (take (nat k) (hl_layout s)) = take (nat k) (rows_of env s)"
    and "list_all2 (cache_ok env) (hl_messages s) (hl_layout s)"
  shows "layout_ok env (recalculateLayoutFrom env k s)"
proof (cases "k \<le> 0 \<or> length (hl_layout s) \<noteq> length (hl_messages s) \<or> int (length (hl_messages s)) \<le> k")
  case True
  then show ?thesis
    using recalculateLayout_ok [of s env] assms(2) by (auto simp: recalculateLayoutFrom_def)
next
  case False
  define n where "n = nat k"
  define prev fu where "prev = hl_messages s ! (n - 1)" and "fu = hl_firstUnreadEventId s"
  have n: "0 < n" "n < length (hl_messages s)" "n \<le> length (hl_layout s)"
    using False by (auto simp: n_def)
  define y where "y = li_y (hl_layout s ! (n - 1)) + li_height (hl_layout s ! (n - 1))"
  define rows where "rows = rows_of env s"
  have geo_take: "map geo (take n (hl_layout s)) = take n rows" using assms(1) by (simp add: n_def rows_def)
  have y: "y = top_indicator s + heights (take n rows)"
  proof -
    have "geo (hl_layout s ! (n - 1)) = rows ! (n - 1)"
      using arg_cong [OF geo_take, of "\<lambda>xs. xs ! (n - 1)"] n by simp
    then have "y = li_y (rows ! (n - 1)) + li_height (rows ! (n - 1))"
      unfolding y_def by (metis geo_fields(1,2))
    then show ?thesis
      using spec_rows_end [of n "hl_messages s"] n by (simp add: rows_def rows_of_def)
  qed
  obtain items z where a: "lay_rows env fu True (length (hl_messages s)) (Some (msgDate env prev))
      (groupSender prev) y (drop n (hl_messages s)) (drop n (hl_layout s)) = (items, z)" by fastforce
  have drop: "spec_rows env fu (Some (msgDate env prev)) (groupSender prev) y (drop n (hl_messages s)) = drop n rows"
    using spec_rows_drop [of n "hl_messages s"] n by (simp add: rows_def rows_of_def fu_def prev_def y)
  from lay_rows_spec [OF list_all2_dropI [OF assms(2), of n], of fu True "length (hl_messages s)"
      "Some (msgDate env prev)" "groupSender prev" y]
  have spec: "map geo items = drop n rows" "z = y + heights (drop n rows)"
    "list_all2 (cache_ok env) (drop n (hl_messages s)) items"
    unfolding a drop by (simp_all add: rows_def rows_of_def)
  have "layout_ok env (finish_layout env s (take n (hl_layout s) @ items) z)"
  proof (rule finish_layout_ok)
    show "map geo (take n (hl_layout s) @ items) = rows_of env s"
      by (simp add: geo_take spec(1) rows_def del: take_map)
    have "heights (take n rows @ drop n rows) = heights (take n rows) + heights (drop n rows)"
      by (simp del: append_take_drop_id)
    then show "z = top_indicator s + heights (rows_of env s)" by (simp add: spec(2) y rows_def)
    show "list_all2 (cache_ok env) (hl_messages s) (take n (hl_layout s) @ items)"
      using list_all2_appendI [OF list_all2_takeI [OF assms(2), of n] spec(3)] by simp
  qed
  then show ?thesis
    using False a by (simp add: recalculateLayoutFrom_def Let_def n_def prev_def fu_def y_def)
qed

lemma geo_shift: "geo (shift_row d x) = shift_row d (geo x)"
  by (simp add: geo_def nocache_def shift_row_def)

lemma cache_shift [simp]: "cache_ok env m (shift_row d x) = cache_ok env m x"
  by (simp add: cache_ok_def shift_row_def)

text \<open>The rows copied by \<open>recalculateLayoutPrepend\<close>: those after the seam, moved.\<close>

lemma prepended_rows:
  assumes "2 < length ms" and "map geo old = spec_rows env fu None [] y0 ms"
    and "list_all2 (cache_ok env) ms old"
    and "k = length front + 2" and "rows = spec_rows env fu None [] y0 (front @ ms)"
    and "y = y0 + heights (take k rows)" and "copied = map (shift_row (y - li_y (old ! 2))) (drop 2 old)"
  shows "map geo copied = drop k rows"
    and "li_y (last copied) + li_height (last copied) = y0 + heights rows"
    and "list_all2 (cache_ok env) (drop k (front @ ms)) copied" and "copied \<noteq> []"
proof -
  define old_rows where "old_rows = spec_rows env fu None [] y0 ms"
  define y2 where "y2 = y0 + heights (take 2 old_rows)"
  define tail where "tail z = spec_rows env fu (Some (msgDate env (ms ! 1))) (groupSender (ms ! 1)) z (drop 2 ms)" for z
  have len: "length old = length ms" using assms(3) by (simp add: list_all2_lengthD)
  have "li_y (old ! 2) = li_y (geo (old ! 2))" by simp
  also have "geo (old ! 2) = old_rows ! 2"
    using arg_cong [OF assms(2), of "\<lambda>xs. xs ! 2"] assms(1) len by (simp add: old_rows_def)
  also have "li_y (old_rows ! 2) = y2" unfolding old_rows_def y2_def
    by (rule spec_rows_nth_y) (use assms(1) in simp)
  finally have y2: "li_y (old ! 2) = y2" .
  have old_tail: "drop 2 old_rows = tail y2"
    unfolding old_rows_def y2_def tail_def using spec_rows_drop [of 2 ms] assms(1) by simp
  have new_tail: "drop k rows = tail y"
    unfolding assms(5) assms(6) tail_def
    using spec_rows_drop [of k "front @ ms"] assms(1,4) by (simp add: nth_append)
  have "tail (y2 + (y - y2)) = map (shift_row (y - y2)) (tail y2)"
    unfolding tail_def by (rule spec_rows_shift)
  then have shifted: "drop k rows = map (shift_row (y - y2)) (drop 2 old_rows)"
    by (simp add: new_tail old_tail)
  show geo: "map geo copied = drop k rows"
    unfolding shifted assms(7) y2 old_rows_def assms(2) [symmetric] by (simp add: geo_shift drop_map)
  show ne: "copied \<noteq> []" using assms(1) len by (simp add: assms(7))
  have "geo (last copied) = last (drop k rows)" using ne by (simp add: geo [symmetric] last_map)
  then have "li_y (last copied) + li_height (last copied) = li_y (last (drop k rows)) + li_height (last (drop k rows))"
    by (metis geo_fields(1,2))
  also have "\<dots> = y + heights (drop k rows)"
    unfolding new_tail tail_def by (rule spec_rows_ends) (use assms(1) in simp)
  also have "\<dots> = y0 + heights (take k rows @ drop k rows)"
    by (simp add: assms(6) del: append_take_drop_id)
  finally show "li_y (last copied) + li_height (last copied) = y0 + heights rows" by simp
  show "list_all2 (cache_ok env) (drop k (front @ ms)) copied"
    using list_all2_dropI [OF assms(3), of 2] assms(4) by (simp add: assms(7) list_all2_map2)
qed

lemma recalculateLayoutPrepend_ok:
  assumes "layout_ok env s"
  shows "layout_ok env (recalculateLayoutPrepend env (int (length front))
           (s\<lparr>hl_messages := front @ hl_messages s\<rparr>))"
proof -
  define t where "t = s\<lparr>hl_messages := front @ hl_messages s\<rparr>"
  define ms fu where "ms = hl_messages s" and "fu = hl_firstUnreadEventId s"
  note ok = layout_okD [OF assms]
  show ?thesis
  proof (cases "front = [] \<or> ms = []")
    case True
    then have "recalculateLayoutPrepend env (int (length front)) t = recalculateLayout env t"
      by (auto simp: recalculateLayoutPrepend_def t_def ms_def Let_def)
    moreover have "list_all2 (cache_ok env) (hl_messages t) (hl_layout t)"
      if "length (hl_layout t) = length (hl_messages t)"
      using that ok(2,4) True by (auto simp: t_def ms_def)
    ultimately show ?thesis using recalculateLayout_ok [of t env] by (simp add: t_def)
  next
    case False
    define k where "k = length front + 1 + (if 1 < length ms then 1 else 0)"
    define rows where "rows = spec_rows env fu None [] (top_indicator t) (front @ ms)"
    have top: "top_indicator t = top_indicator s" using False by (simp add: top_indicator_def t_def ms_def)
    have rows: "rows_of env t = rows" by (simp add: rows_of_def rows_def t_def ms_def fu_def)
    have old: "map geo (hl_layout s) = spec_rows env fu None [] (top_indicator t) ms"
      using ok(1) by (simp add: rows_of_def top ms_def fu_def)
    obtain items y where a: "lay_rows env fu False k None [] (top_indicator t) (front @ ms)
        (replicate (length front + length ms) default_layout_item) = (items, y)" by fastforce
    have def_caches: "list_all2 (cache_ok env) (front @ ms) (replicate (length front + length ms) default_layout_item)"
      using default_caches [of env "front @ ms"] by simp
    from lay_rows_spec [OF def_caches, of fu False k None "[]" "top_indicator t"]
    have built: "map geo items = take k rows" "y = top_indicator t + heights (take k rows)"
      "list_all2 (cache_ok env) (take k (front @ ms)) items"
      by (simp_all add: a rows_def)
    define copied where "copied = (if 2 < length ms then map (shift_row (y - li_y (hl_layout s ! 2))) (drop 2 (hl_layout s)) else [])"
    define y1 where "y1 = (if copied = [] then y else li_y (last copied) + li_height (last copied))"
    have all: "map geo copied = drop k rows \<and> y1 = top_indicator t + heights rows
        \<and> list_all2 (cache_ok env) (drop k (front @ ms)) copied"
    proof (cases "2 < length ms")
      case True
      then have k2: "k = length front + 2" by (simp add: k_def)
      from True have c: "copied = map (shift_row (y - li_y (hl_layout s ! 2))) (drop 2 (hl_layout s))"
        by (simp add: copied_def)
      note p = prepended_rows [OF True old ok(4) [folded ms_def] k2 rows_def built(2) c]
      show ?thesis using p by (simp add: y1_def)
    next
      case False
      then have "length (front @ ms) \<le> k" using \<open>\<not> (front = [] \<or> ms = [])\<close>
        by (cases ms) (auto simp: k_def)
      then show ?thesis using False built(2) by (simp add: copied_def y1_def rows_def)
    qed
    have "layout_ok env (finish_layout env t (items @ copied) y1)"
    proof (rule finish_layout_ok)
      show "map geo (items @ copied) = rows_of env t" using all by (simp add: built(1) rows)
      show "y1 = top_indicator t + heights (rows_of env t)" using all by (simp add: rows)
      show "list_all2 (cache_ok env) (hl_messages t) (items @ copied)"
        using list_all2_appendI [OF built(3), of "drop k (front @ ms)" copied] all
        by (simp add: t_def ms_def del: take_append drop_append)
    qed
    moreover have "recalculateLayoutPrepend env (int (length front)) t = finish_layout env t (items @ copied) y1"
      using False ok(2) a
      by (simp add: recalculateLayoutPrepend_def Let_def t_def ms_def fu_def k_def y1_def copied_def
          nat_add_distrib)
    ultimately show ?thesis by (simp add: t_def)
  qed
qed

subsection \<open>The passes and the reference\<close>

lemma passes_finish:
  "\<exists>items y. recalculateLayout env t = finish_layout env t items y"
  "\<exists>items y. recalculateLayoutFrom env k t = finish_layout env t items y"
  "\<exists>items y. recalculateLayoutAppend env k t = finish_layout env t items y"
  "\<exists>items y. recalculateLayoutPrepend env k t = finish_layout env t items y"
proof -
  show full: "\<exists>items y. recalculateLayout env t = finish_layout env t items y"
    by (auto simp: recalculateLayout_def Let_def case_prod_beta)
  show "\<exists>items y. recalculateLayoutFrom env k t = finish_layout env t items y"
    using full by (auto simp: recalculateLayoutFrom_def Let_def case_prod_beta)
  show "\<exists>items y. recalculateLayoutAppend env k t = finish_layout env t items y"
    using full by (auto simp: recalculateLayoutAppend_def Let_def case_prod_beta)
  show "\<exists>items y. recalculateLayoutPrepend env k t = finish_layout env t items y"
    unfolding recalculateLayoutPrepend_def Let_def case_prod_beta
    using full by (cases "k \<le> 0 \<or> int (length (hl_messages t)) - k \<le> 0
        \<or> int (length (hl_layout t)) \<noteq> int (length (hl_messages t)) - k") (auto simp: not_le)
qed

lemma finish_reference:
  assumes "layout_ok env t'" and "\<exists>items y. t' = finish_layout env t items y"
  shows "drop_caches t' = reference_layout env t"
proof -
  obtain items y where t': "t' = finish_layout env t items y" using assms(2) by blast
  have "reference_layout env t' = reference_layout env t"
    by (simp add: t' reference_layout_def rows_of_def top_indicator_def finish_layout_def Let_def)
  then show ?thesis using assms(1) by (simp add: layout_ok_def)
qed

lemma full_pass_reference:
  "drop_caches (recalculateLayout env (t\<lparr>hl_layout := []\<rparr>)) = reference_layout env t"
proof -
  have "layout_ok env (recalculateLayout env (t\<lparr>hl_layout := []\<rparr>))"
    by (rule recalculateLayout_ok) simp
  from finish_reference [OF this passes_finish(1)] show ?thesis
    by (simp add: reference_layout_def rows_of_def top_indicator_def finish_layout_def Let_def)
qed


text \<open>An environment for examples: every bubble is 20 pixels high, a day has 86400 seconds.\<close>

definition demo_metrics :: layout_metrics where
  "demo_metrics = \<lparr> msgServicePaddingTop = 3, msgServicePaddingBottom = 4, msgServiceFontHeight = 16,
     msgServiceMarginTop = 10, msgServiceMarginBottom = 2, historyUnreadBarHeight = 32,
     historyUnreadBarMargin = 4, kMinBubbleWidth = 160, kMaxBubbleWidth = 430, kPhotoSkip = 40,
     kMarginLeft = 16, kMarginRight = 56, kMarginTop = 6, kMarginTopAttached = 0, kMarginBottom = 2,
     kJumpButtonReserve = 44 \<rparr>"

definition demo_env :: layout_env where
  "demo_env = \<lparr> le_metrics = demo_metrics, le_width = 600, le_visibleHeight = 400, le_pinnedMode = False,
     le_dateOf = (\<lambda>t. t div 86400), le_bubbleHeight = (\<lambda>msg w above. 20) \<rparr>"

definition demo_message :: "qstring \<Rightarrow> qstring \<Rightarrow> int \<Rightarrow> timeline_item" where
  "demo_message event sender time = default_timeline_item\<lparr> ti_eventId := event,
     ti_sender := \<lparr> snd_id = sender, snd_name = sender, snd_avatarUrl = [] \<rparr>, ti_timestamp := time \<rparr>"

definition demo_history :: history_layout where
  "demo_history = recalculateLayout demo_env
     \<lparr> hl_messages = [demo_message ''$a'' ''@x'' 10, demo_message ''$b'' ''@x'' 20, demo_message ''$c'' ''@y'' 90000],
       hl_layout = [], hl_totalHeight = 0, hl_contentOffset = 0, hl_dateIndices = [],
       hl_canPaginateBack = True, hl_hitTimelineStart = False, hl_firstUnreadEventId = ''$c'' \<rparr>"

lemma demo_sizes: "sizes_ok demo_env"
  by (simp add: sizes_ok_def demo_env_def demo_metrics_def dateBadgeTotalHeight_def dateBadgeInnerHeight_def
      unreadBarTotalHeight_def)

lemma demo_history_ok: "layout_ok demo_env demo_history"
  unfolding demo_history_def by (rule recalculateLayout_ok) simp


subsection \<open>Media that arrives\<close>

text \<open>\<open>invalidateLayoutForMedia\<close>: the rows that show one of the files lose their cached height and
  the layout is redone from the first of them.  (Probing durations and thumbnails is left out.)\<close>

definition previewImageKey :: "qstring \<Rightarrow> qstring" where
  "previewImageKey url = (if startsWith ''mxc://'' url then ''previewthumb:'' @ url else url)"

definition usesMedia :: "qstring set \<Rightarrow> timeline_item \<Rightarrow> bool" where
  "usesMedia mediaUrls msg \<longleftrightarrow>
     (mediaUrl msg \<noteq> [] \<and> mediaUrl msg \<in> mediaUrls)
   \<or> (mediaThumbUrl msg \<noteq> [] \<and> mediaThumbUrl msg \<in> mediaUrls)
   \<or> (snd_avatarUrl (ti_sender msg) \<noteq> [] \<and> snd_avatarUrl (ti_sender msg) \<in> mediaUrls)
   \<or> (case urlPreviewInfo msg of None \<Rightarrow> False
      | Some preview \<Rightarrow> prv_imageUrl preview \<noteq> [] \<and> previewImageKey (prv_imageUrl preview) \<in> mediaUrls)
   \<or> (mediaUrl msg \<noteq> [] \<and> ''srvthumb:'' @ mediaUrl msg \<in> mediaUrls)"

definition invalidate_row :: "(timeline_item \<Rightarrow> bool) \<Rightarrow> timeline_item \<Rightarrow> layout_item \<Rightarrow> layout_item" where
  "invalidate_row hit msg item =
     (if hit msg then item\<lparr>li_cachedBubbleHeight := -1, li_cachedWidth := -1\<rparr> else item)"

definition invalidateLayoutForMedia :: "layout_env \<Rightarrow> qstring set \<Rightarrow> history_layout \<Rightarrow> history_layout" where
  "invalidateLayoutForMedia env mediaUrls s =
     (if mediaUrls = {} \<or> length (hl_layout s) \<noteq> length (hl_messages s) then s
      else if list_ex (usesMedia mediaUrls) (hl_messages s)
           then recalculateLayoutFrom env
                  (int (length (takeWhile (\<lambda>msg. \<not> usesMedia mediaUrls msg) (hl_messages s))))
                  (s\<lparr>hl_layout := map2 (invalidate_row (usesMedia mediaUrls)) (hl_messages s) (hl_layout s)\<rparr>)
           else s)"

text \<open>Two environments that differ in the heights of some messages only.\<close>

lemma env_simps:
  "msgDate (env\<lparr>le_bubbleHeight := b\<rparr>) = msgDate env"
  "sameSenderNext (env\<lparr>le_bubbleHeight := b\<rparr>) = sameSenderNext env"
  "messageContextWidth (env\<lparr>le_bubbleHeight := b\<rparr>) = messageContextWidth env"
  "effectiveBubbleWidth (env\<lparr>le_bubbleHeight := b\<rparr>) = effectiveBubbleWidth env"
  by (simp_all add: fun_eq_iff msgDate_def sameSenderNext_def messageContextWidth_def effectiveBubbleWidth_def)

lemma spec_rows_cong:
  assumes "\<And>msg w above. msg \<in> set (take n ms) \<Longrightarrow> b msg w above = le_bubbleHeight env msg w above"
  shows "take n (spec_rows (env\<lparr>le_bubbleHeight := b\<rparr>) fu pd ps y ms) = take n (spec_rows env fu pd ps y ms)"
  using assms
proof (induction ms arbitrary: pd ps y n)
  case (Cons m ms)
  show ?case
  proof (cases n)
    case (Suc n')
    have row: "spec_row (env\<lparr>le_bubbleHeight := b\<rparr>) fu pd ps y m nx = spec_row env fu pd ps y m nx" for nx
      unfolding spec_row_def lay_row_def using Cons.prems [of m] Suc
      by (intro geo_eqI) (simp_all add: preMessageHeight_def rowHeight_def env_simps split: option.split)
    have ih: "take n' (spec_rows (env\<lparr>le_bubbleHeight := b\<rparr>) fu pd ps y ms) = take n' (spec_rows env fu pd ps y ms)" for pd ps y
      using Cons.prems Suc by (intro Cons.IH) simp
    show ?thesis by (simp add: Suc Let_def row ih msgDate_def)
  qed simp
qed simp

lemma invalidate_row_geo [simp]: "geo (invalidate_row hit msg item) = geo item"
  by (simp add: invalidate_row_def geo_def nocache_def)

lemma map_geo_invalidated:
  "length items = length msgs \<Longrightarrow> map geo (map2 (invalidate_row hit) msgs items) = map geo items"
  by (induction items msgs rule: list_induct2) simp_all

text \<open>When media arrives, relaying out from the first message that shows it is enough: with the new
  heights of the messages that use one of the files, the others as before, the list is laid out as
  a full pass would.\<close>

theorem media_relayout_exact:
  assumes "layout_ok env s"
    and "\<And>msg w above. \<not> usesMedia mediaUrls msg \<Longrightarrow> bubble msg w above = le_bubbleHeight env msg w above"
  shows "drop_caches (invalidateLayoutForMedia (env\<lparr>le_bubbleHeight := bubble\<rparr>) mediaUrls s)
       = reference_layout (env\<lparr>le_bubbleHeight := bubble\<rparr>) s"
proof -
  define env' where "env' = env\<lparr>le_bubbleHeight := bubble\<rparr>"
  define hit where "hit = usesMedia mediaUrls"
  define n where "n = length (takeWhile (\<lambda>msg. \<not> hit msg) (hl_messages s))"
  note ok = layout_okD [OF assms(1)]
  have prefix: "take n (rows_of env' s) = take n (rows_of env s)"
    unfolding rows_of_def env'_def
    by (rule spec_rows_cong) (auto simp: n_def takeWhile_eq_take [symmetric] hit_def dest: set_takeWhileD intro!: assms(2))
  show ?thesis
  proof (cases "list_ex hit (hl_messages s)")
    case False
    then have none: "n = length (hl_messages s)"
      by (auto simp: n_def list_ex_iff takeWhile_eq_all_conv [THEN iffD2])
    then have "rows_of env' s = rows_of env s"
      using prefix by (simp add: rows_of_def)
    then have "reference_layout env' s = reference_layout env s"
      by (simp add: reference_layout_def env'_def finish_layout_def Let_def)
    moreover have "invalidateLayoutForMedia env' mediaUrls s = s"
      using False by (simp add: invalidateLayoutForMedia_def hit_def)
    ultimately show ?thesis using assms(1) by (simp add: env'_def [symmetric] layout_ok_def)
  next
    case True
    define t where "t = s\<lparr>hl_layout := map2 (invalidate_row hit) (hl_messages s) (hl_layout s)\<rparr>"
    have ne: "mediaUrls \<noteq> {}"
    proof
      assume "mediaUrls = {}"
      then have "\<not> hit msg" for msg by (simp add: hit_def usesMedia_def split: option.split)
      then show False using True by (simp add: list_ex_iff)
    qed
    have step: "invalidateLayoutForMedia env' mediaUrls s = recalculateLayoutFrom env' (int n) t"
      using True ne ok(2) by (simp add: invalidateLayoutForMedia_def hit_def n_def t_def)
    have "layout_ok env' (recalculateLayoutFrom env' (int n) t)"
    proof (rule recalculateLayoutFrom_ok)
      have "rows_of env' t = rows_of env' s" by (simp add: rows_of_def t_def top_indicator_def)
      moreover have "map geo (hl_layout t) = rows_of env s"
        using map_geo_invalidated [OF ok(2)] ok(1) by (simp add: t_def)
      ultimately show "map geo (take (nat (int n)) (hl_layout t)) = take (nat (int n)) (rows_of env' t)"
        using prefix by (simp add: take_map [symmetric] del: take_map)
      show "list_all2 (cache_ok env') (hl_messages t) (hl_layout t)"
        using ok(2,4) assms(2)
        by (auto simp: t_def list_all2_conv_all_nth invalidate_row_def cache_ok_def env'_def env_simps hit_def)
    qed
    from finish_reference [OF this passes_finish(2)] show ?thesis
      by (simp add: env'_def [symmetric] step)
         (simp add: t_def reference_layout_def rows_of_def top_indicator_def finish_layout_def Let_def)
  qed
qed

theorem media_relayout_exact_witness:
  "drop_caches (invalidateLayoutForMedia
     (demo_env\<lparr>le_bubbleHeight := \<lambda>msg w above. if usesMedia {''@y''} msg then 300 else 20\<rparr>) {''@y''} demo_history)
   = reference_layout
     (demo_env\<lparr>le_bubbleHeight := \<lambda>msg w above. if usesMedia {''@y''} msg then 300 else 20\<rparr>) demo_history"
  by (rule media_relayout_exact [OF demo_history_ok]) (simp add: demo_env_def)

subsection \<open>Finding rows\<close>

text \<open>The loop of \<open>messageIndexAt\<close>: the last row that starts at or above a height.\<close>

function last_below :: "(nat \<Rightarrow> bool) \<Rightarrow> nat \<Rightarrow> nat \<Rightarrow> nat" where
  "last_below below lo hi =
     (if lo < hi
      then let mid = lo + (hi - lo + 1) div 2
           in if below mid then last_below below mid hi else last_below below lo (mid - 1)
      else lo)"
  by pat_completeness auto

termination last_below
  by (relation "measure (\<lambda>(below, lo, hi). hi - lo)") (auto simp: Let_def)

declare last_below.simps [simp del]

definition messageIndexAt :: "history_layout \<Rightarrow> int \<Rightarrow> int" where
  "messageIndexAt s y =
     (if hl_layout s = [] then -1
      else let lo = last_below (\<lambda>mid. li_y (hl_layout s ! mid) + hl_contentOffset s \<le> y) 0 (length (hl_layout s) - 1);
               item = hl_layout s ! lo;
               rowY = li_y item + hl_contentOffset s;
               messageY = li_messageY item + hl_contentOffset s
           in if rowY \<le> y \<and> y < rowY + li_height item \<and> messageY \<le> y \<and> y < messageY + li_messageHeight item
              then int lo else -1)"

text \<open>The loop of \<open>saveScrollAnchor\<close>: the first row that ends below a height.\<close>

function first_past :: "(nat \<Rightarrow> bool) \<Rightarrow> nat \<Rightarrow> nat \<Rightarrow> nat" where
  "first_past before lo hi =
     (if lo < hi
      then let mid = lo + (hi - lo) div 2
           in if before mid then first_past before (mid + 1) hi else first_past before lo mid
      else lo)"
  by pat_completeness auto

termination first_past
  by (relation "measure (\<lambda>(before, lo, hi). hi - lo)") (auto simp: Let_def)

declare first_past.simps [simp del]

text \<open>Both searches need only that the tested property holds of a first part of the rows.\<close>

lemma last_below_spec:
  assumes "lo \<le> hi" and "hi \<le> n" and down: "\<And>i j. i \<le> j \<Longrightarrow> j \<le> n \<Longrightarrow> below j \<Longrightarrow> below i"
  shows "lo \<le> last_below below lo hi \<and> last_below below lo hi \<le> hi
       \<and> (below lo \<longrightarrow> below (last_below below lo hi))
       \<and> (\<forall>i. last_below below lo hi < i \<and> i \<le> hi \<longrightarrow> \<not> below i)"
  using assms(1,2)
proof (induction "hi - lo" arbitrary: lo hi rule: less_induct)
  case less
  define mid where "mid = lo + (hi - lo + 1) div 2"
  show ?case
  proof (cases "lo < hi")
    case True
    then have mid: "lo < mid" "mid \<le> hi" by (auto simp: mid_def)
    show ?thesis
    proof (cases "below mid")
      case below: True
      then have "last_below below lo hi = last_below below mid hi"
        using True by (subst last_below.simps) (simp add: Let_def mid_def)
      then show ?thesis using less.hyps [of hi mid] mid below less.prems by force
    next
      case False
      then have eq: "last_below below lo hi = last_below below lo (mid - 1)"
        using True by (subst last_below.simps) (simp add: Let_def mid_def)
      have above: "\<not> below i" if "\<not> i \<le> mid - 1" "i \<le> n" for i
        using False down [of mid i] that by force
      define r where "r = last_below below lo (mid - 1)"
      have ih: "lo \<le> r \<and> r \<le> mid - 1 \<and> (below lo \<longrightarrow> below r) \<and> (\<forall>i. r < i \<and> i \<le> mid - 1 \<longrightarrow> \<not> below i)"
        unfolding r_def by (rule less.hyps) (use mid less.prems in linarith)+
      have "\<not> below i" if "r < i" "i \<le> hi" for i
        using ih above [of i] that less.prems by (cases "i \<le> mid - 1") auto
      moreover have "r \<le> hi" using ih mid by linarith
      ultimately show ?thesis unfolding eq r_def [symmetric] using ih by blast
    qed
  next
    case False
    then have "last_below below lo hi = lo" by (subst last_below.simps) simp
    then show ?thesis using less.prems False by auto
  qed
qed

lemma first_past_spec:
  assumes "lo \<le> hi" and "hi \<le> n" and down: "\<And>i j. i \<le> j \<Longrightarrow> j < n \<Longrightarrow> before j \<Longrightarrow> before i"
  shows "lo \<le> first_past before lo hi \<and> first_past before lo hi \<le> hi
       \<and> (\<forall>i. lo \<le> i \<and> i < first_past before lo hi \<longrightarrow> before i)
       \<and> (first_past before lo hi < hi \<longrightarrow> \<not> before (first_past before lo hi))"
  using assms(1,2)
proof (induction "hi - lo" arbitrary: lo hi rule: less_induct)
  case less
  define mid where "mid = lo + (hi - lo) div 2"
  show ?case
  proof (cases "lo < hi")
    case True
    then have mid: "lo \<le> mid" "mid < hi" by (auto simp: mid_def)
    show ?thesis
    proof (cases "before mid")
      case before: True
      then have eq: "first_past before lo hi = first_past before (mid + 1) hi"
        using True by (subst first_past.simps) (simp add: Let_def mid_def)
      have upto: "before i" if "i \<le> mid" for i using before down [of i mid] that mid less.prems by force
      define r where "r = first_past before (mid + 1) hi"
      have ih: "mid + 1 \<le> r \<and> r \<le> hi \<and> (\<forall>i. mid + 1 \<le> i \<and> i < r \<longrightarrow> before i) \<and> (r < hi \<longrightarrow> \<not> before r)"
        unfolding r_def by (rule less.hyps) (use mid less.prems in linarith)+
      have "before i" if "i < r" for i using ih upto that by (cases "i \<le> mid") auto
      moreover have "lo \<le> r" using ih mid by linarith
      ultimately show ?thesis unfolding eq r_def [symmetric] using ih by blast
    next
      case False
      then have eq: "first_past before lo hi = first_past before lo mid"
        using True by (subst first_past.simps) (simp add: Let_def mid_def)
      define r where "r = first_past before lo mid"
      have ih: "lo \<le> r \<and> r \<le> mid \<and> (\<forall>i. lo \<le> i \<and> i < r \<longrightarrow> before i) \<and> (r < mid \<longrightarrow> \<not> before r)"
        unfolding r_def by (rule less.hyps) (use mid less.prems in linarith)+
      then have "\<not> before r" using False by (cases "r < mid") auto
      moreover have "r \<le> hi" using ih mid by linarith
      ultimately show ?thesis unfolding eq r_def [symmetric] using ih by blast
    qed
  next
    case False
    then have "first_past before lo hi = lo" by (subst first_past.simps) simp
    then show ?thesis using less.prems False by auto
  qed
qed

lemma last_below_unique:
  assumes "r \<le> hi" and "below r" and "\<And>i j. i \<le> j \<Longrightarrow> j \<le> hi \<Longrightarrow> below j \<Longrightarrow> below i"
    and "\<And>i. r < i \<Longrightarrow> i \<le> hi \<Longrightarrow> \<not> below i"
  shows "last_below below 0 hi = r"
proof -
  define l where "l = last_below below 0 hi"
  have "below 0" by (rule assms(3) [of 0 r]) (use assms(1,2) in simp_all)
  then have l: "l \<le> hi" "below l" "\<forall>i. l < i \<and> i \<le> hi \<longrightarrow> \<not> below i"
    using last_below_spec [of 0 hi hi below] assms(3) by (auto simp: l_def)
  have "\<not> l < r" using l(3) assms(1,2) by blast
  moreover have "\<not> r < l" using assms(4) l(1,2) by blast
  ultimately show ?thesis by (simp add: l_def)
qed

lemma heights_mono:
  assumes "sizes_ok env" and "i \<le> j"
  shows "heights (take i (spec_rows env fu pd ps y ms)) \<le> heights (take j (spec_rows env fu pd ps y ms))"
proof -
  let ?rows = "spec_rows env fu pd ps y ms"
  have "take j ?rows = take i ?rows @ drop i (take j ?rows)"
    using assms(2) by (metis append_take_drop_id min.absorb1 take_take)
  then have "heights (take j ?rows) = heights (take i ?rows) + heights (drop i (take j ?rows))"
    by (metis heights_simps(3))
  moreover have "0 \<le> heights (drop i (take j ?rows))"
    unfolding heights_def by (intro sum_list_nonneg)
      (auto dest!: in_set_dropD in_set_takeD intro: spec_rows_nonneg [OF assms(1)])
  ultimately show ?thesis by simp
qed

text \<open>The rows of a laid-out list lie one below the other.\<close>

lemma laid_out_rows:
  assumes "layout_ok env s" and "i < length (hl_messages s)"
  shows "li_y (hl_layout s ! i) = top_indicator s + heights (take i (rows_of env s))"
    and "li_y (hl_layout s ! i) + li_height (hl_layout s ! i) = top_indicator s + heights (take (Suc i) (rows_of env s))"
    and "li_height (hl_layout s ! i) = li_messageY (hl_layout s ! i) - li_y (hl_layout s ! i) + li_messageHeight (hl_layout s ! i)"
    and "sizes_ok env \<Longrightarrow> li_y (hl_layout s ! i) \<le> li_messageY (hl_layout s ! i) \<and> 0 \<le> li_messageHeight (hl_layout s ! i)"
proof -
  note ok = layout_okD [OF assms(1)]
  have geo: "geo (hl_layout s ! i) = rows_of env s ! i"
    using arg_cong [OF ok(1), of "\<lambda>xs. xs ! i"] assms(2) ok(2) by simp
  have row: "\<exists>pd ps m nx. rows_of env s ! i = spec_row env (hl_firstUnreadEventId s) pd ps (li_y (hl_layout s ! i)) m nx"
  proof -
    have "\<exists>pd' ps' m nx. spec_rows env fu pd ps y ms ! i = spec_row env fu pd' ps' (li_y (spec_rows env fu pd ps y ms ! i)) m nx"
      if "i < length ms" for i fu pd ps y ms
      using that
    proof (induction ms arbitrary: pd ps y i)
      case (Cons m ms)
      then show ?case by (cases i) (auto simp: Let_def)
    qed simp
    from this [OF assms(2), of "hl_firstUnreadEventId s" None "[]" "top_indicator s"] show ?thesis
      unfolding rows_of_def [symmetric] geo [symmetric] by simp
  qed
  show y: "li_y (hl_layout s ! i) = top_indicator s + heights (take i (rows_of env s))"
    using arg_cong [OF geo, of li_y] spec_rows_nth_y [OF assms(2)] by (simp add: rows_of_def)
  show "li_y (hl_layout s ! i) + li_height (hl_layout s ! i) = top_indicator s + heights (take (Suc i) (rows_of env s))"
    using arg_cong [OF geo, of li_height] arg_cong [OF geo, of li_y]
      spec_rows_end [of "Suc i" "hl_messages s"] assms(2) by (simp add: rows_of_def)
  from row obtain pd ps m nx where r: "geo (hl_layout s ! i) = spec_row env (hl_firstUnreadEventId s) pd ps (li_y (hl_layout s ! i)) m nx"
    using geo by auto
  have fields: "li_height (hl_layout s ! i) = li_height (geo (hl_layout s ! i))"
    "li_messageY (hl_layout s ! i) = li_messageY (geo (hl_layout s ! i))"
    "li_messageHeight (hl_layout s ! i) = li_messageHeight (geo (hl_layout s ! i))" by simp_all
  show "li_height (hl_layout s ! i) = li_messageY (hl_layout s ! i) - li_y (hl_layout s ! i) + li_messageHeight (hl_layout s ! i)"
    unfolding fields r by (simp add: spec_row_def lay_row_def)
  show "sizes_ok env \<Longrightarrow> li_y (hl_layout s ! i) \<le> li_messageY (hl_layout s ! i) \<and> 0 \<le> li_messageHeight (hl_layout s ! i)"
    unfolding fields(2,3) r using spec_row_nonneg(1,2) by blast
qed

lemma rows_below_down:
  assumes "layout_ok env s" and "sizes_ok env" and "i \<le> j" and "j < length (hl_messages s)"
  shows "li_y (hl_layout s ! i) \<le> li_y (hl_layout s ! j)"
    and "i < j \<Longrightarrow> li_y (hl_layout s ! i) + li_height (hl_layout s ! i) \<le> li_y (hl_layout s ! j)"
    and "li_y (hl_layout s ! i) + li_height (hl_layout s ! i) \<le> li_y (hl_layout s ! j) + li_height (hl_layout s ! j)"
proof -
  define h where "h n = top_indicator s + heights (take n (rows_of env s))" for n
  have mono: "h a \<le> h b" if "a \<le> b" for a b
    using heights_mono [OF assms(2) that] by (simp add: h_def rows_of_def)
  have i: "i < length (hl_messages s)" using assms(3,4) by simp
  note at = laid_out_rows(1,2) [OF assms(1), folded h_def]
  show "li_y (hl_layout s ! i) \<le> li_y (hl_layout s ! j)"
    unfolding at(1) [OF i] at(1) [OF assms(4)] by (rule mono [OF assms(3)])
  show "i < j \<Longrightarrow> li_y (hl_layout s ! i) + li_height (hl_layout s ! i) \<le> li_y (hl_layout s ! j)"
    unfolding at(2) [OF i] at(1) [OF assms(4)] by (rule mono) simp
  show "li_y (hl_layout s ! i) + li_height (hl_layout s ! i) \<le> li_y (hl_layout s ! j) + li_height (hl_layout s ! j)"
    unfolding at(2) [OF i] at(2) [OF assms(4)] using assms(3) by (intro mono) simp
qed

definition in_message :: "history_layout \<Rightarrow> nat \<Rightarrow> int \<Rightarrow> bool" where
  "in_message s i y \<longleftrightarrow>
     i < length (hl_messages s)
   \<and> li_messageY (hl_layout s ! i) + hl_contentOffset s \<le> y
   \<and> y < li_messageY (hl_layout s ! i) + hl_contentOffset s + li_messageHeight (hl_layout s ! i)"

lemma hit_test:
  assumes "layout_ok env s" and "sizes_ok env"
  shows "in_message s i y \<Longrightarrow> messageIndexAt s y = int i"
    and "messageIndexAt s y = -1 \<or> (\<exists>i. messageIndexAt s y = int i \<and> in_message s i y)"
proof -
  note ok = layout_okD [OF assms(1)]
  define off where "off = hl_contentOffset s"
  define hi where "hi = length (hl_layout s) - 1"
  define below where "below = (\<lambda>mid. li_y (hl_layout s ! mid) + off \<le> y)"
  have at: "messageIndexAt s y = (let r = last_below below 0 hi; item = hl_layout s ! r in
      if li_y item + off \<le> y \<and> y < li_y item + off + li_height item
         \<and> li_messageY item + off \<le> y \<and> y < li_messageY item + off + li_messageHeight item
      then int r else -1)" if "hl_layout s \<noteq> []"
    unfolding messageIndexAt_def below_def off_def hi_def Let_def using that by simp
  {
    assume i: "in_message s i y"
    then have len: "i < length (hl_messages s)" and ne: "hl_layout s \<noteq> []"
      using ok(2) by (auto simp: in_message_def)
    have area: "li_y (hl_layout s ! i) \<le> li_messageY (hl_layout s ! i)"
      "li_y (hl_layout s ! i) + li_height (hl_layout s ! i) = li_messageY (hl_layout s ! i) + li_messageHeight (hl_layout s ! i)"
      using laid_out_rows(3,4) [OF assms(1) len] assms(2) by auto
    have found: "last_below below 0 hi = i"
    proof (rule last_below_unique)
      show "i \<le> hi" using len ok(2) by (simp add: hi_def)
      show "below i" using i area(1) by (simp add: below_def in_message_def off_def)
      show "below k" if "k \<le> j" "j \<le> hi" "below j" for k j
        using rows_below_down(1) [OF assms that(1)] that len ok(2) by (force simp: below_def hi_def)
      show "\<not> below k" if "i < k" "k \<le> hi" for k
        using rows_below_down(2) [OF assms, of i k] that i area(2) ok(2) len
        by (force simp: below_def hi_def in_message_def off_def)
    qed
    then show "messageIndexAt s y = int i"
      unfolding at [OF ne] using i area by (simp add: in_message_def off_def)
  }
  show "messageIndexAt s y = -1 \<or> (\<exists>i. messageIndexAt s y = int i \<and> in_message s i y)"
  proof (cases "hl_layout s = []")
    case False
    have down: "below k" if "k \<le> j" "j \<le> hi" "below j" for k j
    proof -
      have "j < length (hl_messages s)" using that(2) False ok(2) by (cases "hl_layout s") (auto simp: hi_def)
      from rows_below_down(1) [OF assms that(1) this] that(3) show ?thesis by (simp add: below_def)
    qed
    have "last_below below 0 hi \<le> hi"
      using last_below_spec [of 0 hi hi below, OF le0 le_refl] down by blast
    moreover have "hi < length (hl_messages s)" using False ok(2) by (cases "hl_messages s") (auto simp: hi_def)
    ultimately have "last_below below 0 hi < length (hl_messages s)" by simp
    then show ?thesis
      unfolding at [OF False] by (simp add: Let_def in_message_def off_def)
  qed (simp add: messageIndexAt_def)
qed

text \<open>Hit testing is exact: the message found at a height is the one whose area holds it, and -1
  exactly when no message's area does (on a separator, above the first or below the last row).\<close>

theorem hit_test_exact:
  assumes "layout_ok env s" and "sizes_ok env"
  shows "(messageIndexAt s y = int i \<longleftrightarrow> in_message s i y)
       \<and> (messageIndexAt s y = -1 \<longleftrightarrow> (\<forall>i. \<not> in_message s i y))"
proof -
  from hit_test(2) [OF assms, of y] show ?thesis
  proof (elim disjE exE conjE)
    assume none: "messageIndexAt s y = -1"
    then have "\<not> in_message s j y" for j using hit_test(1) [OF assms, of j y] by auto
    then show ?thesis using none by simp
  next
    fix j
    assume j: "messageIndexAt s y = int j" "in_message s j y"
    then have "in_message s k y \<longleftrightarrow> k = j" for k using hit_test(1) [OF assms, of k y] by auto
    then show ?thesis using j(1) by auto
  qed
qed

theorem hit_test_exact_witness:
  "(messageIndexAt demo_history 300 = int 1 \<longleftrightarrow> in_message demo_history 1 300)
 \<and> (messageIndexAt demo_history 300 = -1 \<longleftrightarrow> (\<forall>i. \<not> in_message demo_history i 300))"
  by (rule hit_test_exact [OF demo_history_ok demo_sizes])

end
