(* ===== verification/History_List.thy ===== *)
theory History_List imports Message_Layout Message_Index begin

section \<open>The message list\<close>

text \<open>
  \<open>HistoryList\<close> (\<^verbatim>\<open>src/src/history/history_list.cpp\<close>): the messages on screen, with the layout of
  \<open>Message_Layout\<close>, the index of \<open>Message_Index\<close>, and what is kept until the server echoes it
  (reactions, poll votes).  Slices of the timeline are merged in place, at the edges, or replace the
  list.  The scroll area is outside: \<open>hs_scrollTop\<close> is \<open>qMax(0, -y())\<close>, and the operations return
  the positions they emit with \<open>scrollToRequested\<close>.  Painting, hover and animation state, media
  playback and probing are left out.
\<close>

record history_list =
  hs_view :: history_layout
  hs_index :: message_index
  hs_sendingCount :: int
  hs_pendingReactionEventIds :: "qstring set"
  hs_pendingPollSelections :: "(qstring, qstring list) qhash"
  hs_cachedAudioDurations :: "(qstring, quint64) qhash"
  hs_deletingEventIds :: "qstring set"
  hs_previewGlowEventIds :: "qstring set"
  hs_canPaginateForward :: bool
  hs_isLive :: bool
  hs_focusEventId :: qstring
  hs_readDetectionHold :: bool
  hs_unreadBarCount :: int
  hs_visibleTop :: int
  hs_scrolling :: bool
  hs_deferredReplaceSlice :: "timeline_slice option"
  hs_height :: int
  hs_scrollTop :: int
  hs_scrollAnchorEventId :: qstring
  hs_scrollAnchorPixelOffset :: int

abbreviation hs_messages :: "history_list \<Rightarrow> timeline_item list" where
  "hs_messages s \<equiv> hl_messages (hs_view s)"

definition kBottomSnapTolerance :: int where "kBottomSnapTolerance = 8"

subsection \<open>Reactions and polls of one message\<close>

fun applyReactionChange :: "reaction_info list \<Rightarrow> qstring \<Rightarrow> bool \<Rightarrow> reaction_info list \<times> bool" where
  "applyReactionChange [] key active =
     (if key = [] then ([], False)
      else if \<not> active then ([], False)
      else ([\<lparr> rea_key = key, rea_count = 1, rea_isSelf = True \<rparr>], True))"
| "applyReactionChange (r # rs) key active =
     (if key = [] then (r # rs, False)
      else if rea_key r \<noteq> key
      then case applyReactionChange rs key active of (rs1, changed) \<Rightarrow> (r # rs1, changed)
      else if active
      then if rea_isSelf r then (r # rs, False)
           else (r\<lparr>rea_isSelf := True, rea_count := max 1 (rea_count r + 1)\<rparr> # rs, True)
      else if \<not> rea_isSelf r then (r # rs, False)
      else if 1 < rea_count r then (r\<lparr>rea_isSelf := False, rea_count := rea_count r - 1\<rparr> # rs, True)
      else (rs, True))"

definition selectedPollOptionIds :: "timeline_item \<Rightarrow> qstring list" where
  "selectedPollOptionIds item =
     (case pollContent item of None \<Rightarrow> []
      | Some poll \<Rightarrow> map po_id (filter po_isChosen (poll_options poll)))"

definition currentPollSelection :: "history_list \<Rightarrow> timeline_item \<Rightarrow> qstring list" where
  "currentPollSelection s item =
     (if ti_eventId item \<noteq> [] \<and> hash_contains (ti_eventId item) (hs_pendingPollSelections s)
      then hash_value [] (ti_eventId item) (hs_pendingPollSelections s)
      else selectedPollOptionIds item)"

text \<open>The loop that collects the wanted options in the poll's order, at most \<open>maxSelections\<close>.\<close>

fun take_wanted :: "qstring set \<Rightarrow> int \<Rightarrow> qstring list \<Rightarrow> poll_option_info list \<Rightarrow> qstring list" where
  "take_wanted wanted maxSelections chosen [] = chosen"
| "take_wanted wanted maxSelections chosen (opt # opts) =
     (if po_id opt \<notin> wanted then take_wanted wanted maxSelections chosen opts
      else if maxSelections \<le> int (length (chosen @ [po_id opt])) then chosen @ [po_id opt]
      else take_wanted wanted maxSelections (chosen @ [po_id opt]) opts)"

definition normalizePollSelection :: "timeline_item \<Rightarrow> qstring list \<Rightarrow> qstring list" where
  "normalizePollSelection item optionIds =
     (case pollContent item of None \<Rightarrow> []
      | Some poll \<Rightarrow> take_wanted (set optionIds) (max 1 (poll_maxSelections poll)) [] (poll_options poll))"

definition choose_options :: "qstring list \<Rightarrow> timeline_poll_content \<Rightarrow> timeline_poll_content" where
  "choose_options chosen poll =
     poll\<lparr>poll_options := map (\<lambda>opt. opt\<lparr>po_isChosen := po_id opt \<in> set chosen\<rparr>) (poll_options poll)\<rparr>"

definition applyPendingPollSelection ::
  "(qstring, qstring list) qhash \<Rightarrow> timeline_item \<Rightarrow> timeline_item \<times> (qstring, qstring list) qhash" where
  "applyPendingPollSelection pending item =
     (case pollContent item of None \<Rightarrow> (item, pending)
      | Some poll \<Rightarrow>
          if ti_eventId item = [] then (item, pending)
          else if poll_isClosed poll then (item, hash_remove (ti_eventId item) pending)
          else case map_of pending (ti_eventId item) of None \<Rightarrow> (item, pending)
            | Some wanted \<Rightarrow>
                let normalized = normalizePollSelection item wanted
                in if normalized = selectedPollOptionIds item
                   then (item, hash_remove (ti_eventId item) pending)
                   else (mutablePollContent (choose_options normalized) item, pending))"

definition setPollSelectionLocally :: "int \<Rightarrow> qstring list \<Rightarrow> history_list \<Rightarrow> history_list \<times> bool" where
  "setPollSelectionLocally messageIndex optionIds s =
     (if messageIndex < 0 \<or> int (length (hs_messages s)) \<le> messageIndex then (s, False)
      else let item = hs_messages s ! nat messageIndex
           in case pollContent item of None \<Rightarrow> (s, False)
              | Some poll \<Rightarrow>
                  let normalized = normalizePollSelection item optionIds
                  in if normalized = currentPollSelection s item then (s, False)
                     else let pending = (if ti_eventId item \<noteq> []
                                then hash_insert (ti_eventId item) normalized (hs_pendingPollSelections s)
                                else hs_pendingPollSelections s);
                              voted = (\<lambda>p. let p1 = choose_options normalized p
                                            in if normalized \<noteq> [] then p1\<lparr>poll_hasVoted := True\<rparr> else p1)
                          in (s\<lparr>hs_pendingPollSelections := pending,
                                hs_view := (hs_view s)\<lparr>hl_messages :=
                                  (hs_messages s)[nat messageIndex := mutablePollContent voted item]\<rparr>\<rparr>, True))"

subsection \<open>Changes of the list\<close>

definition isSending :: "timeline_item \<Rightarrow> bool" where
  "isSending item \<longleftrightarrow> del_sendState (ti_delivery item) = Sending"

definition count_sending :: "timeline_item list \<Rightarrow> int" where
  "count_sending items = int (length (filter isSending items))"

text \<open>The end of every relayout: the widget is as high as the list, at least as the viewport.\<close>

definition with_view :: "layout_env \<Rightarrow> history_layout \<Rightarrow> history_list \<Rightarrow> history_list" where
  "with_view env view s = s\<lparr>hs_view := view, hs_height := max (hl_totalHeight view) (le_visibleHeight env)\<rparr>"

definition rebuildMessageIndex :: "history_list \<Rightarrow> history_list" where
  "rebuildMessageIndex s = s\<lparr>hs_index := mi_rebuild (hs_index s) (map ti_eventId (hs_messages s))\<rparr>"

text \<open>\<open>setMessages\<close>: the durations probed so far are remembered by event, and each new message gets
  what the server does not give (duration, pending vote).\<close>

definition remember_durations :: "timeline_item list \<Rightarrow> (qstring, quint64) qhash \<Rightarrow> (qstring, quint64) qhash" where
  "remember_durations msgs cache =
     foldl (\<lambda>h msg. if 0 < mediaDurationMs msg \<and> ti_eventId msg \<noteq> []
                    then hash_insert (ti_eventId msg) (mediaDurationMs msg) h else h) cache msgs"

definition restore_duration :: "(qstring, quint64) qhash \<Rightarrow> timeline_item \<Rightarrow> timeline_item" where
  "restore_duration cache msg =
     (if mediaDurationMs msg = 0 \<and> ti_eventId msg \<noteq> []
      then case map_of cache (ti_eventId msg) of None \<Rightarrow> msg
           | Some duration \<Rightarrow> setMediaDurationMs duration msg
      else msg)"

fun prepare_messages ::
  "bool \<Rightarrow> (qstring, quint64) qhash \<Rightarrow> (qstring, qstring list) qhash \<Rightarrow> timeline_item list
     \<Rightarrow> timeline_item list \<times> (qstring, qstring list) qhash" where
  "prepare_messages pinnedMode cache pending [] = ([], pending)"
| "prepare_messages pinnedMode cache pending (msg # msgs) =
     (let (msg1, pending1) = applyPendingPollSelection pending (restore_duration cache msg);
          msg2 = (if pinnedMode then msg1\<lparr>ti_isPinned := False, ti_reactions := []\<rparr> else msg1);
          (rest, pending2) = prepare_messages pinnedMode cache pending1 msgs
      in (msg2 # rest, pending2))"

definition setMessages :: "layout_env \<Rightarrow> timeline_item list \<Rightarrow> history_list \<Rightarrow> history_list" where
  "setMessages env messages s =
     (let cache = remember_durations (hs_messages s) (hs_cachedAudioDurations s);
          (prepared, pending) = prepare_messages (le_pinnedMode env) cache (hs_pendingPollSelections s) messages;
          s1 = s\<lparr>hs_deferredReplaceSlice := None,
                 hs_readDetectionHold := hs_readDetectionHold s \<or> (hs_messages s \<noteq> [] \<and> messages \<noteq> []),
                 hs_pendingReactionEventIds := {},
                 hs_cachedAudioDurations := cache,
                 hs_pendingPollSelections := pending,
                 hs_sendingCount := count_sending prepared,
                 hs_visibleTop := 0,
                 hs_deletingEventIds := (if messages = [] then {} else hs_deletingEventIds s),
                 hs_previewGlowEventIds := (if messages = [] then {} else hs_previewGlowEventIds s),
                 hs_view := (hs_view s)\<lparr>hl_messages := prepared, hl_layout := []\<rparr>\<rparr>;
          s2 = rebuildMessageIndex s1
      in with_view env (recalculateLayout env (hs_view s2)) s2)"

text \<open>The loop of \<open>appendMessages\<close>, which is also all of \<open>appendMessage\<close>.\<close>

definition append_one :: "history_list \<Rightarrow> timeline_item \<Rightarrow> history_list" where
  "append_one s message =
     (let (msg, pending) = applyPendingPollSelection (hs_pendingPollSelections s) message;
          view = (hs_view s)\<lparr>hl_messages := hs_messages s @ [msg]\<rparr>
      in s\<lparr>hs_pendingPollSelections := pending, hs_view := view,
           hs_sendingCount := hs_sendingCount s + (if isSending msg then 1 else 0),
           hs_index := (if ti_eventId msg \<noteq> []
                        then mi_setAt (hs_index s) (ti_eventId msg) (int (length (hl_messages view)) - 1)
                        else hs_index s)\<rparr>)"

definition appendMessages :: "layout_env \<Rightarrow> timeline_item list \<Rightarrow> history_list \<Rightarrow> history_list" where
  "appendMessages env messages s =
     (if messages = [] then s
      else let firstNewIndex = int (length (hs_messages s));
               s1 = foldl append_one (s\<lparr>hs_deferredReplaceSlice := None\<rparr>) messages
           in with_view env (recalculateLayoutAppend env firstNewIndex (hs_view s1)) s1)"

definition appendMessage :: "layout_env \<Rightarrow> timeline_item \<Rightarrow> history_list \<Rightarrow> history_list" where
  "appendMessage env message s =
     (let firstNewIndex = int (length (hs_messages s));
          s1 = append_one (s\<lparr>hs_deferredReplaceSlice := None\<rparr>) message
      in with_view env (recalculateLayoutAppend env firstNewIndex (hs_view s1)) s1)"

text \<open>\<open>prependMessages\<close> moves the scroll position by the height that was added, once before and once
  after the resize.\<close>

definition prependMessages :: "layout_env \<Rightarrow> timeline_item list \<Rightarrow> history_list \<Rightarrow> history_list \<times> int list" where
  "prependMessages env items s =
     (if items = [] then (s\<lparr>hs_deferredReplaceSlice := None\<rparr>, [])
      else let view = (hs_view s)\<lparr>hl_messages := items @ hs_messages s\<rparr>;
               view1 = recalculateLayoutPrepend env (int (length items)) view;
               heightAdded = (hl_totalHeight view1 - hl_contentOffset view1)
                             - (hl_totalHeight (hs_view s) - hl_contentOffset (hs_view s));
               targetScroll = max 0 (hs_scrollTop s + heightAdded);
               s1 = s\<lparr>hs_deferredReplaceSlice := None,
                      hs_index := mi_prependFront (hs_index s) (map ti_eventId items)\<rparr>
           in (with_view env view1 s1, if 0 < heightAdded then [targetScroll, targetScroll] else []))"

definition removeMessage :: "layout_env \<Rightarrow> qstring \<Rightarrow> history_list \<Rightarrow> history_list \<times> bool" where
  "removeMessage env event s =
     (if event = [] then (s, False)
      else let idx = mi_physicalIndexOf (hs_index s) event
           in if idx < 0 \<or> int (length (hs_messages s)) \<le> idx then (s, False)
              else let i = nat idx;
                       s1 = s\<lparr>hs_sendingCount := hs_sendingCount s - (if isSending (hs_messages s ! i) then 1 else 0),
                              hs_view := (hs_view s)\<lparr>hl_messages := take i (hs_messages s) @ drop (i + 1) (hs_messages s),
                                                     hl_layout := []\<rparr>\<rparr>;
                       s2 = rebuildMessageIndex s1
                   in (with_view env (recalculateLayout env (hs_view s2)) s2, True))"

definition relayout :: "layout_env \<Rightarrow> history_list \<Rightarrow> history_list" where
  "relayout env s = with_view env (recalculateLayout env (hs_view s)) s"

text \<open>\<open>setMessagePinState\<close>.  A bubble's height is remembered under its width and grouping only, so
  the \<open>relayout\<close> finds the height of before.\<close>

definition setMessagePinState :: "layout_env \<Rightarrow> qstring \<Rightarrow> bool \<Rightarrow> history_list \<Rightarrow> history_list" where
  "setMessagePinState env event pinned s =
     (if event = [] then s
      else let idx = mi_physicalIndexOf (hs_index s) event
           in if idx < 0 \<or> int (length (hs_messages s)) \<le> idx
                 \<or> ti_isPinned (hs_messages s ! nat idx) = pinned then s
              else relayout env (s\<lparr>hs_view := (hs_view s)\<lparr>hl_messages :=
                     (hs_messages s)[nat idx := (hs_messages s ! nat idx)\<lparr>ti_isPinned := pinned\<rparr>]\<rparr>\<rparr>))"

definition list_updateMessageSendState ::
  "qstring \<Rightarrow> send_state \<Rightarrow> qstring \<Rightarrow> history_list \<Rightarrow> history_list \<times> bool" where
  "list_updateMessageSendState event state newEventId s =
     (if event = [] then (s, False)
      else let idx = mi_physicalIndexOf (hs_index s) event
           in if idx < 0 \<or> int (length (hs_messages s)) \<le> idx then (s, False)
              else let old = hs_messages s ! nat idx;
                       msg1 = old\<lparr>ti_delivery := (ti_delivery old)\<lparr>del_sendState := state\<rparr>\<rparr>;
                       msg = (if newEventId \<noteq> [] then msg1\<lparr>ti_eventId := newEventId\<rparr> else msg1);
                       index = mi_remove (hs_index s) event
                   in (s\<lparr>hs_sendingCount :=
                           (if isSending old \<and> state \<noteq> Sending then hs_sendingCount s - 1
                            else if \<not> isSending old \<and> state = Sending then hs_sendingCount s + 1
                            else hs_sendingCount s),
                         hs_view := (hs_view s)\<lparr>hl_messages := (hs_messages s)[nat idx := msg]\<rparr>,
                         hs_index := (if ti_eventId msg \<noteq> [] then mi_setAt index (ti_eventId msg) idx else index)\<rparr>,
                       True))"

definition updateMessageUploadProgress :: "qstring \<Rightarrow> real \<Rightarrow> history_list \<Rightarrow> history_list \<times> bool" where
  "updateMessageUploadProgress event progress s =
     (if event = [] then (s, False)
      else let idx = mi_physicalIndexOf (hs_index s) event
           in if idx < 0 \<or> int (length (hs_messages s)) \<le> idx then (s, False)
              else let old = hs_messages s ! nat idx
                   in (s\<lparr>hs_view := (hs_view s)\<lparr>hl_messages := (hs_messages s)[nat idx :=
                           old\<lparr>ti_delivery := (ti_delivery old)\<lparr>del_uploadProgress := progress\<rparr>\<rparr>]\<rparr>\<rparr>, True))"

definition setUnreadBar :: "layout_env \<Rightarrow> qstring \<Rightarrow> int \<Rightarrow> history_list \<Rightarrow> history_list" where
  "setUnreadBar env firstUnread unreadCount s =
     (if hl_firstUnreadEventId (hs_view s) = firstUnread \<and> hs_unreadBarCount s = unreadCount then s
      else relayout env (s\<lparr>hs_unreadBarCount := unreadCount,
                           hs_view := (hs_view s)\<lparr>hl_firstUnreadEventId := firstUnread\<rparr>\<rparr>))"

definition clearUnreadBar :: "layout_env \<Rightarrow> history_list \<Rightarrow> history_list" where
  "clearUnreadBar env s =
     (if hl_firstUnreadEventId (hs_view s) = [] then s
      else relayout env (s\<lparr>hs_unreadBarCount := 0,
                           hs_view := (hs_view s)\<lparr>hl_firstUnreadEventId := []\<rparr>\<rparr>))"

subsection \<open>The scroll anchor\<close>

definition stable_row :: "nat list \<Rightarrow> nat \<Rightarrow> nat \<Rightarrow> nat" where
  "stable_row avoidRows lo limit =
     (let stable = lo + length (takeWhile (\<lambda>i. i \<in> set avoidRows) [lo..<limit])
      in if stable < limit then stable else lo)"

definition saveScrollAnchor :: "nat list \<Rightarrow> history_list \<Rightarrow> history_list" where
  "saveScrollAnchor avoidRows s =
     (let rows = hl_layout (hs_view s); off = hl_contentOffset (hs_view s);
          visibleTop = hs_scrollTop s;
          lo = first_past (\<lambda>mid. li_y (rows ! mid) + off + li_height (rows ! mid) \<le> visibleTop) 0 (length rows);
          lo1 = (if avoidRows \<noteq> [] then stable_row avoidRows lo (min (length rows) (length (hs_messages s))) else lo)
      in if lo1 < length rows \<and> lo1 < length (hs_messages s)
         then s\<lparr>hs_scrollAnchorEventId := ti_eventId (hs_messages s ! lo1),
                hs_scrollAnchorPixelOffset := li_messageY (rows ! lo1) + off - visibleTop\<rparr>
         else s\<lparr>hs_scrollAnchorEventId := [], hs_scrollAnchorPixelOffset := 0\<rparr>)"

definition restoreScrollAnchor :: "history_list \<Rightarrow> history_list \<times> int list" where
  "restoreScrollAnchor s =
     (if hs_scrollAnchorEventId s = [] then (s, [])
      else let i = mi_physicalIndexOf (hs_index s) (hs_scrollAnchorEventId s)
           in (s\<lparr>hs_scrollAnchorEventId := []\<rparr>,
               if 0 \<le> i \<and> i < int (length (hl_layout (hs_view s)))
               then [max 0 (li_messageY (hl_layout (hs_view s) ! nat i) + hl_contentOffset (hs_view s)
                            - hs_scrollAnchorPixelOffset s)]
               else []))"

definition wasAtBottom :: "layout_env \<Rightarrow> history_list \<Rightarrow> bool" where
  "wasAtBottom env s \<longleftrightarrow>
     max 0 (hs_height s - le_visibleHeight env) - kBottomSnapTolerance \<le> hs_scrollTop s"

definition keep_viewport :: "layout_env \<Rightarrow> bool \<Rightarrow> history_list \<Rightarrow> history_list \<times> int list" where
  "keep_viewport env atBottom s =
     (if atBottom then (s, [max 0 (hs_height s - le_visibleHeight env)]) else restoreScrollAnchor s)"

definition replaceSliceKeepingViewport ::
  "layout_env \<Rightarrow> timeline_item list \<Rightarrow> history_list \<Rightarrow> history_list \<times> int list" where
  "replaceSliceKeepingViewport env items s =
     keep_viewport env (wasAtBottom env s) (setMessages env items (saveScrollAnchor [] s))"

definition deferReplaceWhileScrolling :: "timeline_slice \<Rightarrow> history_list \<Rightarrow> history_list \<times> bool" where
  "deferReplaceWhileScrolling sl s =
     (if \<not> hs_scrolling s \<or> \<not> ts_isLive sl then (s, False)
      else (s\<lparr>hs_deferredReplaceSlice := Some sl\<rparr>, True))"

subsection \<open>Slices\<close>

definition timelineItemVisualChanged :: "timeline_item \<Rightarrow> timeline_item \<Rightarrow> bool" where
  "timelineItemVisualChanged a b \<longleftrightarrow>
     ti_transactionId a \<noteq> ti_transactionId b \<or> ti_sender a \<noteq> ti_sender b
   \<or> ti_content a \<noteq> ti_content b \<or> ti_reply a \<noteq> ti_reply b
   \<or> ti_forwardedFrom a \<noteq> ti_forwardedFrom b \<or> ti_isEdited a \<noteq> ti_isEdited b
   \<or> ti_isPinned a \<noteq> ti_isPinned b \<or> ti_reactions a \<noteq> ti_reactions b
   \<or> ti_delivery a \<noteq> ti_delivery b \<or> ti_timestamp a \<noteq> ti_timestamp b
   \<or> ti_urlPreview a \<noteq> ti_urlPreview b \<or> ti_encryption a \<noteq> ti_encryption b"

definition timelineItemHeightAffectingChanged :: "timeline_item \<Rightarrow> timeline_item \<Rightarrow> bool" where
  "timelineItemHeightAffectingChanged a b \<longleftrightarrow>
     contentType a \<noteq> contentType b \<or> snd_id (ti_sender a) \<noteq> snd_id (ti_sender b)
   \<or> ti_timestamp a \<noteq> ti_timestamp b \<or> ti_content a \<noteq> ti_content b
   \<or> ti_reply a \<noteq> ti_reply b \<or> ti_forwardedFrom a \<noteq> ti_forwardedFrom b
   \<or> ti_reactions a \<noteq> ti_reactions b
   \<or> del_deleted (ti_delivery a) \<noteq> del_deleted (ti_delivery b)
   \<or> ti_urlPreview a \<noteq> ti_urlPreview b"

definition reaction_total :: "timeline_item \<Rightarrow> int" where
  "reaction_total item = sum_list (map rea_count (ti_reactions item))"

text \<open>One row of \<open>applyOverlapUpdates\<close> whose ids agree: the new message, with the reactions just
  given here kept until the server's count agrees.\<close>

definition merge_item :: "qstring set \<Rightarrow> timeline_item \<Rightarrow> timeline_item \<Rightarrow> timeline_item \<times> qstring set" where
  "merge_item pendingReactions oldItem newItem =
     (if \<not> timelineItemVisualChanged oldItem newItem then (oldItem, pendingReactions)
      else if ti_eventId newItem \<notin> pendingReactions then (newItem, pendingReactions)
      else if reaction_total oldItem \<noteq> reaction_total newItem
      then (newItem\<lparr>ti_reactions := ti_reactions oldItem\<rparr>, pendingReactions)
      else (newItem, pendingReactions - {ti_eventId newItem}))"

definition sending_delta :: "timeline_item \<Rightarrow> timeline_item \<Rightarrow> int" where
  "sending_delta oldItem newItem =
     (if timelineItemVisualChanged oldItem newItem
      then if isSending oldItem \<and> \<not> isSending newItem then -1
           else if \<not> isSending oldItem \<and> isSending newItem then 1 else 0
      else 0)"

definition stale_row :: "timeline_item \<Rightarrow> timeline_item \<Rightarrow> bool" where
  "stale_row oldItem newItem \<longleftrightarrow>
     timelineItemVisualChanged oldItem newItem \<and> timelineItemHeightAffectingChanged oldItem newItem"

record overlap_state =
  ov_messages :: "timeline_item list"
  ov_layout :: "layout_item list"
  ov_sendingCount :: int
  ov_pendingReactions :: "qstring set"
  ov_resizedRows :: "nat list"

text \<open>The loop over the rows; it stops, with what it has changed so far, at the first row whose ids
  differ.\<close>

fun overlap_loop :: "nat \<Rightarrow> timeline_item list \<Rightarrow> overlap_state \<Rightarrow> overlap_state \<times> bool" where
  "overlap_loop i [] ov = (ov, True)"
| "overlap_loop i (newItem # items) ov =
     (if length (ov_messages ov) \<le> i then (ov, True)
      else let oldItem = ov_messages ov ! i
           in if ti_eventId oldItem \<noteq> ti_eventId newItem then (ov, False)
              else let (msg, pending) = merge_item (ov_pendingReactions ov) oldItem newItem;
                       resized = stale_row oldItem newItem \<and> i < length (ov_layout ov)
                   in overlap_loop (i + 1) items
                        (ov\<lparr>ov_messages := (ov_messages ov)[i := msg],
                            ov_layout := (if resized
                                          then (ov_layout ov)[i := (ov_layout ov ! i)\<lparr>li_cachedBubbleHeight := -1\<rparr>]
                                          else ov_layout ov),
                            ov_sendingCount := ov_sendingCount ov + sending_delta oldItem newItem,
                            ov_pendingReactions := pending,
                            ov_resizedRows := ov_resizedRows ov @ (if resized then [i] else [])\<rparr>))"

definition applyOverlapUpdates ::
  "layout_env \<Rightarrow> timeline_item list \<Rightarrow> history_list \<Rightarrow> (history_list \<times> int list) \<times> bool" where
  "applyOverlapUpdates env items s =
     (let msgs = hs_messages s
      in if items = [] \<or> msgs = [] \<or> length items \<noteq> length msgs
            \<or> ti_eventId (hd items) \<noteq> ti_eventId (hd msgs)
            \<or> ti_eventId (last items) \<noteq> ti_eventId (last msgs)
         then ((s, []), False)
         else let (ov, fin) = overlap_loop 0 items
                    \<lparr> ov_messages = msgs, ov_layout = hl_layout (hs_view s), ov_sendingCount = hs_sendingCount s,
                      ov_pendingReactions = hs_pendingReactionEventIds s, ov_resizedRows = [] \<rparr>;
                  s1 = s\<lparr>hs_view := (hs_view s)\<lparr>hl_messages := ov_messages ov, hl_layout := ov_layout ov\<rparr>,
                         hs_sendingCount := ov_sendingCount ov,
                         hs_pendingReactionEventIds := ov_pendingReactions ov\<rparr>
              in if \<not> fin then ((s1, []), False)
                 else if ov_resizedRows ov = [] then ((s1, []), True)
                 else (keep_viewport env (wasAtBottom env s1)
                         (relayout env (saveScrollAnchor (ov_resizedRows ov) s1)), True))"

text \<open>\<open>setSliceImpl\<close>.  \<open>match_from\<close> is the loop that looks for the first and last message of the
  list in the slice.\<close>

fun match_from :: "qstring \<Rightarrow> qstring \<Rightarrow> int \<Rightarrow> int \<Rightarrow> int \<Rightarrow> timeline_item list \<Rightarrow> int \<times> int" where
  "match_from oldFirstId oldLastId i firstMatch lastMatch [] = (firstMatch, lastMatch)"
| "match_from oldFirstId oldLastId i firstMatch lastMatch (item # items) =
     (let f = (if ti_eventId item = oldFirstId then i else firstMatch);
          l = (if ti_eventId item = oldLastId then i else lastMatch)
      in if 0 \<le> f \<and> 0 \<le> l then (f, l)
         else match_from oldFirstId oldLastId (i + 1) f l items)"

definition overlap_or_replace ::
  "layout_env \<Rightarrow> timeline_slice \<Rightarrow> history_list \<Rightarrow> history_list \<times> int list" where
  "overlap_or_replace env sl s =
     (case applyOverlapUpdates env (ts_items sl) s of
        (c, True) \<Rightarrow> c
      | ((s1, out), False) \<Rightarrow>
          (case deferReplaceWhileScrolling sl s1 of
             (s2, True) \<Rightarrow> (s2, out)
           | (s2, False) \<Rightarrow> replaceSliceKeepingViewport env (ts_items sl) s2))"

text \<open>The slice covers the list: what it has before and after goes to the edges.\<close>

definition add_edges ::
  "layout_env \<Rightarrow> timeline_item list \<Rightarrow> int \<Rightarrow> int \<Rightarrow> history_list \<Rightarrow> history_list \<times> int list" where
  "add_edges env items firstMatch lastMatch s =
     (let older = take (nat firstMatch) items;
          newer = drop (nat lastMatch + 1) items;
          (s1, out) = (if older \<noteq> [] then prependMessages env older s else (s, []))
      in (if newer \<noteq> [] then appendMessages env newer s1 else s1, out))"

definition setSlice :: "layout_env \<Rightarrow> timeline_slice \<Rightarrow> history_list \<Rightarrow> history_list \<times> int list" where
  "setSlice env sl s =
     (let modeChanged = (ts_isLive sl \<noteq> hs_isLive s \<or> ts_focusEventId sl \<noteq> hs_focusEventId s);
          s1 = s\<lparr>hs_view := (hs_view s)\<lparr>hl_canPaginateBack := ts_canPaginateBack sl,
                                         hl_hitTimelineStart := ts_hitTimelineStart sl\<rparr>,
                 hs_canPaginateForward := ts_canPaginateForward sl,
                 hs_isLive := ts_isLive sl, hs_focusEventId := ts_focusEventId sl\<rparr>;
          msgs = hs_messages s1
      in if \<not> modeChanged \<and> msgs \<noteq> [] \<and> ts_updateKind sl = UpdateAppend
         then (if ts_updateIndex sl \<noteq> int (length msgs) then s1
               else appendMessages env (ts_items sl) s1, [])
         else if \<not> modeChanged \<and> msgs \<noteq> [] \<and> ts_updateKind sl = UpdatePrepend
         then (if ts_updateIndex sl \<noteq> 0 then (s1, []) else prependMessages env (ts_items sl) s1)
         else if \<not> modeChanged \<and> msgs \<noteq> [] \<and> ts_updateKind sl = UpdateMetadataOnly
         then (s1, [])
         else if modeChanged \<or> msgs = [] then (setMessages env (ts_items sl) s1, [])
         else if ts_items sl = [] then overlap_or_replace env sl s1
         else let (firstMatch, lastMatch) =
                    match_from (ti_eventId (hd msgs)) (ti_eventId (last msgs)) 0 (-1) (-1) (ts_items sl)
              in if 0 \<le> firstMatch \<and> firstMatch \<le> lastMatch
                    \<and> lastMatch - firstMatch + 1 = int (length msgs)
                 then let (s2, out) = add_edges env (ts_items sl) firstMatch lastMatch s1;
                          (s3, out3) = overlap_or_replace env sl s2
                      in (s3, out @ out3)
                 else overlap_or_replace env sl s1)"

text \<open>Scrolling, and the timer that fires once it has stopped: the slice put aside is applied then.  The
  scroll area has moved the widget when it calls \<open>updateVisibleTop\<close>.\<close>

definition updateVisibleTop :: "int \<Rightarrow> history_list \<Rightarrow> history_list" where
  "updateVisibleTop visibleTop s =
     s\<lparr>hs_visibleTop := max 0 visibleTop, hs_scrollTop := max 0 visibleTop,
       hs_scrolling := hs_scrolling s \<or> max 0 visibleTop \<noteq> hs_visibleTop s\<rparr>"

definition scrollSettled :: "layout_env \<Rightarrow> history_list \<Rightarrow> history_list \<times> int list" where
  "scrollSettled env s =
     (case hs_deferredReplaceSlice s of
        None \<Rightarrow> (s\<lparr>hs_scrolling := False\<rparr>, [])
      | Some sl \<Rightarrow> setSlice env sl (s\<lparr>hs_scrolling := False, hs_deferredReplaceSlice := None\<rparr>))"

section \<open>Consistency of the list\<close>

definition ids :: "timeline_item list \<Rightarrow> qstring list" where
  "ids msgs = map ti_eventId msgs"

definition ids_ok :: "qstring list \<Rightarrow> bool" where
  "ids_ok es \<longleftrightarrow> distinct es \<and> [] \<notin> set es"

lemma ids_simps [simp]:
  "ids [] = []" "ids (x # xs) = ti_eventId x # ids xs" "ids (xs @ ys) = ids xs @ ids ys"
  "length (ids xs) = length xs" "ids xs = [] \<longleftrightarrow> xs = []"
  by (simp_all add: ids_def)

lemma ids_okD [simp]: "ids_ok es \<Longrightarrow> ids_distinct es"
  by (simp add: ids_ok_def ids_distinct_def)

text \<open>What always holds: the rows are laid out, the index finds every message, the messages being
  sent are counted, the widget is high enough, and nothing is put aside.\<close>

definition list_inv :: "layout_env \<Rightarrow> history_list \<Rightarrow> bool" where
  "list_inv env s \<longleftrightarrow>
     layout_ok env (hs_view s) \<and> ids_ok (ids (hs_messages s)) \<and> mirrors (ids (hs_messages s)) (hs_index s)
   \<and> hs_sendingCount s = count_sending (hs_messages s)
   \<and> hs_height s = max (hl_totalHeight (hs_view s)) (le_visibleHeight env)
   \<and> hs_deferredReplaceSlice s = None"

text \<open>\<open>timelineItemHeightAffectingChanged\<close> is right: messages it does not tell apart are equally
  high.\<close>

definition heights_reported :: "layout_env \<Rightarrow> bool" where
  "heights_reported env \<longleftrightarrow>
     (\<forall>a b w above. \<not> timelineItemHeightAffectingChanged a b \<longrightarrow>
        le_bubbleHeight env a w above = le_bubbleHeight env b w above)"

subsection \<open>Preparing messages\<close>

lemma poll_write_fields [simp]:
  "ti_eventId (mutablePollContent f item) = ti_eventId item"
  "isSending (mutablePollContent f item) = isSending item"
  by (simp_all add: mutablePollContent_def isSending_def split: timeline_content.split)

lemma media_write_fields [simp]:
  "ti_eventId (setMediaDurationMs d item) = ti_eventId item"
  "isSending (setMediaDurationMs d item) = isSending item"
  by (simp_all add: setMediaDurationMs_def mutableTypedMediaContent_def mutableImageContent_def
      mutableFileContent_def mutableVideoContent_def mutableAudioContent_def isSending_def
      split: timeline_content.split)

lemma pending_fields [simp]:
  "ti_eventId (fst (applyPendingPollSelection pending item)) = ti_eventId item"
  "isSending (fst (applyPendingPollSelection pending item)) = isSending item"
  by (simp_all add: applyPendingPollSelection_def Let_def split: option.split)

lemma restore_fields [simp]:
  "ti_eventId (restore_duration cache msg) = ti_eventId msg"
  "isSending (restore_duration cache msg) = isSending msg"
  by (simp_all add: restore_duration_def split: option.split)

lemma prepared_ids [simp]: "ids (fst (prepare_messages pinned cache pending msgs)) = ids msgs"
  by (induction msgs arbitrary: pending) (simp_all add: Let_def case_prod_beta)

subsection \<open>Setting, appending and prepending\<close>

lemma layout_height: "hs_height (with_view env v s) = max (hl_totalHeight v) (le_visibleHeight env)"
  and with_view_fields [simp]: "hs_view (with_view env v s) = v" "hs_index (with_view env v s) = hs_index s"
    "hs_sendingCount (with_view env v s) = hs_sendingCount s"
    "hs_deferredReplaceSlice (with_view env v s) = hs_deferredReplaceSlice s"
    "hs_scrolling (with_view env v s) = hs_scrolling s"
    "hs_scrollTop (with_view env v s) = hs_scrollTop s"
    "hs_scrollAnchorEventId (with_view env v s) = hs_scrollAnchorEventId s"
    "hs_scrollAnchorPixelOffset (with_view env v s) = hs_scrollAnchorPixelOffset s"
    "hs_pendingPollSelections (with_view env v s) = hs_pendingPollSelections s"
    "hs_pendingReactionEventIds (with_view env v s) = hs_pendingReactionEventIds s"
    "hs_cachedAudioDurations (with_view env v s) = hs_cachedAudioDurations s"
    "hs_isLive (with_view env v s) = hs_isLive s" "hs_focusEventId (with_view env v s) = hs_focusEventId s"
  by (simp_all add: with_view_def)

lemma finish_fields [simp]:
  "hl_messages (finish_layout env s items y) = hl_messages s"
  "hl_firstUnreadEventId (finish_layout env s items y) = hl_firstUnreadEventId s"
  "hl_canPaginateBack (finish_layout env s items y) = hl_canPaginateBack s"
  "hl_hitTimelineStart (finish_layout env s items y) = hl_hitTimelineStart s"
  by (simp_all add: finish_layout_def Let_def)

lemma pass_fields [simp]:
  "hl_messages (recalculateLayout env t) = hl_messages t"
  "hl_messages (recalculateLayoutAppend env k t) = hl_messages t"
  "hl_messages (recalculateLayoutPrepend env k t) = hl_messages t"
  "hl_canPaginateBack (recalculateLayoutAppend env k t) = hl_canPaginateBack t"
  "hl_hitTimelineStart (recalculateLayoutAppend env k t) = hl_hitTimelineStart t"
  "hl_canPaginateBack (recalculateLayoutPrepend env k t) = hl_canPaginateBack t"
  "hl_hitTimelineStart (recalculateLayoutPrepend env k t) = hl_hitTimelineStart t"
  by (metis finish_fields passes_finish)+

lemma list_invI:
  assumes "layout_ok env v" and "ids_ok (ids (hl_messages v))" and "mirrors (ids (hl_messages v)) (hs_index s)"
    and "hs_sendingCount s = count_sending (hl_messages v)" and "hs_deferredReplaceSlice s = None"
  shows "list_inv env (with_view env v s)"
  using assms by (simp add: list_inv_def layout_height)

lemma setMessages_inv:
  assumes "ids_ok (ids messages)"
  shows "list_inv env (setMessages env messages s)"
  unfolding setMessages_def Let_def case_prod_beta
  using assms rebuild_mirrors [of "ids messages"]
  by (intro list_invI recalculateLayout_ok) (simp_all add: rebuildMessageIndex_def ids_def [symmetric])

lemma append_fold:
  assumes "mirrors (ids (hs_messages s)) (hs_index s)" and "ids_ok (ids (hs_messages s @ messages))"
    and "hs_sendingCount s = count_sending (hs_messages s)"
  shows "\<exists>new. hs_view (foldl append_one s messages) = (hs_view s)\<lparr>hl_messages := hs_messages s @ new\<rparr>
     \<and> ids new = ids messages
     \<and> mirrors (ids (hs_messages s @ new)) (hs_index (foldl append_one s messages))
     \<and> hs_sendingCount (foldl append_one s messages) = count_sending (hs_messages s @ new)
     \<and> hs_deferredReplaceSlice (foldl append_one s messages) = hs_deferredReplaceSlice s"
  using assms
proof (induction messages arbitrary: s)
  case Nil
  then show ?case by (intro exI [of _ "[]"]) simp
next
  case (Cons m messages)
  define s1 where "s1 = append_one s m"
  obtain m' pending where p: "applyPendingPollSelection (hs_pendingPollSelections s) m = (m', pending)" by fastforce
  have m': "ti_eventId m' = ti_eventId m" "isSending m' = isSending m"
    using pending_fields [of "hs_pendingPollSelections s" m] by (simp_all add: p)
  have view: "hs_view s1 = (hs_view s)\<lparr>hl_messages := hs_messages s @ [m']\<rparr>"
    and idx: "hs_index s1 = (if ti_eventId m \<noteq> [] then mi_setAt (hs_index s) (ti_eventId m) (int (length (hs_messages s))) else hs_index s)"
    and sending: "hs_sendingCount s1 = count_sending (hs_messages s @ [m'])"
    and deferred: "hs_deferredReplaceSlice s1 = hs_deferredReplaceSlice s"
    using Cons.prems(3) by (simp_all add: s1_def append_one_def p m' count_sending_def Let_def)
  have fresh: "ti_eventId m \<notin> set (ids (hs_messages s)) \<or> ti_eventId m = []"
    using Cons.prems(2) by (auto simp: ids_ok_def)
  have "mirrors (ids (hs_messages s1)) (hs_index s1)"
    using append_mirrors [OF Cons.prems(1) fresh] by (cases "ti_eventId m = []") (simp_all add: view idx m')
  moreover have "ids_ok (ids (hs_messages s1 @ messages))" using Cons.prems(2) by (simp add: view m')
  moreover have "hs_sendingCount s1 = count_sending (hs_messages s1)" by (simp add: sending view)
  ultimately obtain new where new: "hs_view (foldl append_one s1 messages) = (hs_view s1)\<lparr>hl_messages := hs_messages s1 @ new\<rparr>"
    "ids new = ids messages" "mirrors (ids (hs_messages s1 @ new)) (hs_index (foldl append_one s1 messages))"
    "hs_sendingCount (foldl append_one s1 messages) = count_sending (hs_messages s1 @ new)"
    "hs_deferredReplaceSlice (foldl append_one s1 messages) = hs_deferredReplaceSlice s1"
    using Cons.IH [of s1] by blast
  show ?case
    using new by (intro exI [of _ "m' # new"]) (simp add: s1_def [symmetric] view m' deferred)
qed

lemma appended_inv:
  assumes "list_inv env s" and "sizes_ok env" and "ids_ok (ids (hs_messages s @ messages))"
    and "s1 = foldl append_one (s\<lparr>hs_deferredReplaceSlice := None\<rparr>) messages"
  shows "list_inv env (with_view env (recalculateLayoutAppend env (int (length (hs_messages s))) (hs_view s1)) s1)"
proof -
  obtain new where new: "hs_view s1 = (hs_view s)\<lparr>hl_messages := hs_messages s @ new\<rparr>"
    "ids new = ids messages" "mirrors (ids (hs_messages s @ new)) (hs_index s1)"
    "hs_sendingCount s1 = count_sending (hs_messages s @ new)" "hs_deferredReplaceSlice s1 = None"
    using append_fold [of "s\<lparr>hs_deferredReplaceSlice := None\<rparr>" messages] assms(1,3,4) by (auto simp: list_inv_def)
  show ?thesis
  proof (rule list_invI)
    show "layout_ok env (recalculateLayoutAppend env (int (length (hs_messages s))) (hs_view s1))"
      using recalculateLayoutAppend_ok [OF _ assms(2), of "hs_view s" new] assms(1) by (simp add: new(1) list_inv_def)
    show "ids_ok (ids (hl_messages (recalculateLayoutAppend env (int (length (hs_messages s))) (hs_view s1))))"
      using assms(3) new(2) by (simp add: new(1))
  qed (use new in simp_all)
qed

lemma appendMessages_inv:
  assumes "list_inv env s" and "sizes_ok env" and "ids_ok (ids (hs_messages s @ messages))"
  shows "list_inv env (appendMessages env messages s)"
  using appended_inv [OF assms refl] assms(1) by (simp add: appendMessages_def Let_def)

lemma prependMessages_inv:
  assumes "list_inv env s" and "ids_ok (ids (items @ hs_messages s))" and "count_sending items = 0"
  shows "list_inv env (fst (prependMessages env items s))"
proof (cases "items = []")
  case False
  have layout: "layout_ok env (recalculateLayoutPrepend env (int (length items)) ((hs_view s)\<lparr>hl_messages := items @ hs_messages s\<rparr>))"
    using recalculateLayoutPrepend_ok assms(1) by (simp add: list_inv_def)
  have index: "mirrors (ids (items @ hs_messages s)) (mi_prependFront (hs_index s) (ids items))"
    using prepend_mirrors [of "ids (hs_messages s)" "hs_index s" "ids items"] assms(1,2) by (simp add: list_inv_def)
  show ?thesis
    unfolding prependMessages_def Let_def using False layout index assms
    by (simp add: list_invI ids_def [symmetric] list_inv_def [of env s] count_sending_def)
qed (use assms in \<open>simp add: prependMessages_def list_inv_def\<close>)

subsection \<open>Updating in place\<close>

text \<open>Messages that agree in all the layout looks at give the same rows.\<close>

definition same_rows :: "qstring \<Rightarrow> timeline_item \<Rightarrow> timeline_item \<Rightarrow> bool" where
  "same_rows fu a b \<longleftrightarrow> atUnreadBar fu a = atUnreadBar fu b \<and> \<not> timelineItemHeightAffectingChanged a b"

lemma same_rows_flags:
  assumes "same_rows fu a b"
  shows "isService a = isService b" "msgDate env a = msgDate env b" "groupSender a = groupSender b"
    "atUnreadBar fu a = atUnreadBar fu b" "snd_id (ti_sender a) = snd_id (ti_sender b)"
  using assms by (simp_all add: same_rows_def timelineItemHeightAffectingChanged_def isService_def
      msgDate_def groupSender_def atUnreadBar_def)

lemma same_rows_height:
  "heights_reported env \<Longrightarrow> same_rows fu a b \<Longrightarrow> le_bubbleHeight env a w joined = le_bubbleHeight env b w joined"
  by (simp add: heights_reported_def same_rows_def)

lemma same_row:
  assumes "heights_reported env" and "same_rows fu a b" and "rel_option (same_rows fu) n n'"
  shows "spec_row env fu pd ps y a n = spec_row env fu pd ps y b n'"
proof -
  have next_same: "(case n of None \<Rightarrow> False | Some m \<Rightarrow> sameSenderNext env fu a m)
      = (case n' of None \<Rightarrow> False | Some m \<Rightarrow> sameSenderNext env fu b m)"
    using assms(3) same_rows_flags [OF assms(2)]
    by (cases n; cases n') (simp_all add: sameSenderNext_def same_rows_flags)
  show ?thesis
    unfolding spec_row_def lay_row_def
    by (rule geo_eqI) (simp_all add: preMessageHeight_def rowHeight_def same_rows_flags [OF assms(2)]
        same_rows_height [OF assms(1,2)] next_same)
qed

lemma same_spec_rows:
  assumes "heights_reported env" and "list_all2 (same_rows fu) ms ms'"
  shows "spec_rows env fu pd ps y ms = spec_rows env fu pd ps y ms'"
  using assms(2)
proof (induction arbitrary: pd ps y rule: list_all2_induct)
  case (Cons a as b bs)
  have "rel_option (same_rows fu) (next_of as) (next_of bs)"
    using Cons.hyps(2) by (cases as; cases bs) simp_all
  then show ?case
    using same_row [OF assms(1) Cons.hyps(1)] same_rows_flags [OF Cons.hyps(1)] Cons.IH
    by (simp add: Let_def)
qed simp

lemma merge_item_rows:
  assumes "ti_eventId old = ti_eventId new" and "\<not> stale_row old new"
  shows "same_rows fu old (fst (merge_item pending old new))"
  using assms by (auto simp: merge_item_def stale_row_def same_rows_def timelineItemHeightAffectingChanged_def
      contentType_def atUnreadBar_def)

lemma merge_item_fields:
  assumes "ti_eventId old = ti_eventId new"
  shows "ti_eventId (fst (merge_item pending old new)) = ti_eventId old"
    and "of_bool (isSending (fst (merge_item pending old new))) = (of_bool (isSending old) :: int) + sending_delta old new"
  using assms by (auto simp: merge_item_def sending_delta_def isSending_def)

text \<open>What the loop keeps: ids, caches and the count; and if it goes through without a resized row,
  no row looks different to the layout.\<close>

definition overlap_ok :: "layout_env \<Rightarrow> qstring \<Rightarrow> timeline_item list \<Rightarrow> layout_item list \<Rightarrow> overlap_state \<Rightarrow> bool" where
  "overlap_ok env fu msgs rows ov \<longleftrightarrow>
     ids (ov_messages ov) = ids msgs \<and> list_all2 (cache_ok env) (ov_messages ov) (ov_layout ov)
   \<and> ov_sendingCount ov = count_sending (ov_messages ov)
   \<and> (ov_resizedRows ov = [] \<longrightarrow> ov_layout ov = rows \<and> list_all2 (same_rows fu) msgs (ov_messages ov))"

lemma count_sending_update:
  "i < length msgs \<Longrightarrow>
   count_sending (msgs[i := m]) = count_sending msgs - of_bool (isSending (msgs ! i)) + of_bool (isSending m)"
proof (induction msgs arbitrary: i)
  case (Cons a msgs)
  then show ?case by (cases i) (auto simp: count_sending_def)
qed simp

lemma same_rows_trans: "same_rows fu a b \<Longrightarrow> same_rows fu b c \<Longrightarrow> same_rows fu a c"
  by (simp add: same_rows_def timelineItemHeightAffectingChanged_def)

lemma same_rows_refl [simp]: "same_rows fu a a"
  by (simp add: same_rows_def timelineItemHeightAffectingChanged_def)

lemma overlap_step:
  assumes "heights_reported env" and "overlap_ok env fu msgs rows ov" and "i < length (ov_messages ov)"
    and "ti_eventId (ov_messages ov ! i) = ti_eventId new"
    and "resized \<longleftrightarrow> stale_row (ov_messages ov ! i) new \<and> i < length (ov_layout ov)"
  shows "overlap_ok env fu msgs rows
     (ov\<lparr>ov_messages := (ov_messages ov)[i := fst (merge_item (ov_pendingReactions ov) (ov_messages ov ! i) new)],
         ov_layout := (if resized then (ov_layout ov)[i := (ov_layout ov ! i)\<lparr>li_cachedBubbleHeight := -1\<rparr>]
                       else ov_layout ov),
         ov_sendingCount := ov_sendingCount ov + sending_delta (ov_messages ov ! i) new,
         ov_pendingReactions := pending,
         ov_resizedRows := ov_resizedRows ov @ (if resized then [i] else [])\<rparr>)"
proof -
  define old where "old = ov_messages ov ! i"
  define m where "m = fst (merge_item (ov_pendingReactions ov) old new)"
  note ok = assms(2) [unfolded overlap_ok_def]
  have len: "length (ov_layout ov) = length (ov_messages ov)" using ok by (auto dest: list_all2_lengthD)
  then have i: "i < length (ov_layout ov)" using assms(3) by simp
  have eq: "ti_eventId old = ti_eventId new" using assms(4) by (simp add: old_def)
  have m_id: "ti_eventId m = ti_eventId old" unfolding m_def by (rule merge_item_fields(1) [OF eq])
  have ids: "ids ((ov_messages ov)[i := m]) = ids msgs"
    using ok assms(3) m_id by (simp add: ids_def map_update old_def) (metis list_update_id nth_map)
  have sending: "ov_sendingCount ov + sending_delta old new = count_sending ((ov_messages ov)[i := m])"
    using merge_item_fields(2) [OF eq, of "ov_pendingReactions ov", folded m_def] ok assms(3)
    by (simp add: count_sending_update old_def)
  have cache_old: "cache_ok env old (ov_layout ov ! i)"
    using ok assms(3) by (auto simp: old_def list_all2_conv_all_nth)
  show ?thesis
  proof (cases resized)
    case True
    have "cache_ok env m ((ov_layout ov ! i)\<lparr>li_cachedBubbleHeight := -1\<rparr>)" by (simp add: cache_ok_def)
    then show ?thesis
      using True ids sending ok
      by (simp add: overlap_ok_def old_def [symmetric] m_def [symmetric] list_all2_update_cong)
  next
    case False
    then have same: "same_rows fu old m" unfolding m_def
      using merge_item_rows [OF eq] assms(5) i by (simp add: old_def)
    have "cache_ok env m (ov_layout ov ! i)"
      using cache_old same_rows_height [OF assms(1) same] by (simp add: cache_ok_def)
    then have caches: "list_all2 (cache_ok env) ((ov_messages ov)[i := m]) (ov_layout ov)"
      using list_all2_update_cong [of "cache_ok env" "ov_messages ov" "ov_layout ov" m "ov_layout ov ! i" i] ok by simp
    have "list_all2 (same_rows fu) msgs ((ov_messages ov)[i := m])" if "list_all2 (same_rows fu) msgs (ov_messages ov)"
    proof -
      have "same_rows fu (msgs ! i) old" using that assms(3) by (auto simp: old_def list_all2_conv_all_nth)
      then have "list_all2 (same_rows fu) (msgs[i := msgs ! i]) ((ov_messages ov)[i := m])"
        using that same_rows_trans [OF _ same] by (intro list_all2_update_cong) auto
      then show ?thesis by simp
    qed
    then show ?thesis
      using False ids sending caches ok by (simp add: overlap_ok_def old_def [symmetric] m_def [symmetric])
  qed
qed

lemma overlap_loop_ok:
  assumes "heights_reported env" and "overlap_ok env fu msgs rows ov"
  shows "overlap_ok env fu msgs rows (fst (overlap_loop i items ov))"
  using assms(2)
proof (induction items arbitrary: i ov)
  case (Cons new items)
  show ?case
  proof (cases "length (ov_messages ov) \<le> i \<or> ti_eventId (ov_messages ov ! i) \<noteq> ti_eventId new")
    case True
    then show ?thesis using Cons.prems by (auto simp: Let_def)
  next
    case False
    then have i: "i < length (ov_messages ov)" "ti_eventId (ov_messages ov ! i) = ti_eventId new" by auto
    show ?thesis
      using Cons.IH [OF overlap_step [OF assms(1) Cons.prems i refl, where
            pending = "snd (merge_item (ov_pendingReactions ov) (ov_messages ov ! i) new)"], of "i + 1"] i
      by (simp add: Let_def case_prod_beta)
  qed
qed simp

lemma anchor_fields [simp]:
  "hs_view (saveScrollAnchor avoid s) = hs_view s" "hs_index (saveScrollAnchor avoid s) = hs_index s"
  "hs_sendingCount (saveScrollAnchor avoid s) = hs_sendingCount s"
  "hs_height (saveScrollAnchor avoid s) = hs_height s"
  "hs_scrollTop (saveScrollAnchor avoid s) = hs_scrollTop s"
  "hs_deferredReplaceSlice (saveScrollAnchor avoid s) = hs_deferredReplaceSlice s"
  "hs_scrolling (saveScrollAnchor avoid s) = hs_scrolling s"
  "hs_pendingPollSelections (saveScrollAnchor avoid s) = hs_pendingPollSelections s"
  "hs_pendingReactionEventIds (saveScrollAnchor avoid s) = hs_pendingReactionEventIds s"
  "hs_cachedAudioDurations (saveScrollAnchor avoid s) = hs_cachedAudioDurations s"
  by (simp_all add: saveScrollAnchor_def Let_def)

lemma restore_anchor_fields [simp]:
  "hs_view (fst (restoreScrollAnchor s)) = hs_view s" "hs_index (fst (restoreScrollAnchor s)) = hs_index s"
  "hs_sendingCount (fst (restoreScrollAnchor s)) = hs_sendingCount s"
  "hs_height (fst (restoreScrollAnchor s)) = hs_height s"
  "hs_deferredReplaceSlice (fst (restoreScrollAnchor s)) = hs_deferredReplaceSlice s"
  by (simp_all add: restoreScrollAnchor_def Let_def)

lemma keep_viewport_inv [simp]: "list_inv env (fst (keep_viewport env' b s)) = list_inv env s"
  by (simp add: keep_viewport_def list_inv_def)

lemma keep_viewport_view [simp]: "hs_view (fst (keep_viewport env b s)) = hs_view s"
  by (simp add: keep_viewport_def)

lemma replace_inv:
  "ids_ok (ids items) \<Longrightarrow> list_inv env (fst (replaceSliceKeepingViewport env items s))"
  by (simp add: replaceSliceKeepingViewport_def setMessages_inv)

lemma same_rows_layout:
  assumes "layout_ok env v" and "heights_reported env" and "list_all2 (same_rows (hl_firstUnreadEventId v)) (hl_messages v) msgs"
    and "list_all2 (cache_ok env) msgs (hl_layout v)"
  shows "layout_ok env (v\<lparr>hl_messages := msgs\<rparr>)"
proof -
  define v' where "v' = v\<lparr>hl_messages := msgs\<rparr>"
  have empty: "(hl_messages v = []) = (msgs = [])" using assms(3) by (auto dest: list_all2_lengthD)
  have top: "top_indicator v' = top_indicator v" by (simp add: v'_def top_indicator_def empty)
  have rows: "rows_of env v' = rows_of env v"
    using same_spec_rows [OF assms(2,3)] by (simp add: rows_of_def top) (simp add: v'_def)
  have "reference_layout env v' = (reference_layout env v)\<lparr>hl_messages := msgs\<rparr>"
    unfolding reference_layout_def rows top by (simp add: v'_def finish_layout_def Let_def empty)
  moreover have "drop_caches v' = (drop_caches v)\<lparr>hl_messages := msgs\<rparr>"
    by (simp add: v'_def drop_caches_def)
  ultimately have "drop_caches v' = reference_layout env v'" using assms(1) by (simp add: layout_ok_def)
  then show ?thesis using assms(4) by (simp add: layout_ok_def v'_def)
qed

lemma relayout_inv:
  assumes "list_all2 (cache_ok env) (hs_messages s) (hl_layout (hs_view s))"
    and "ids_ok (ids (hs_messages s))" and "mirrors (ids (hs_messages s)) (hs_index s)"
    and "hs_sendingCount s = count_sending (hs_messages s)" and "hs_deferredReplaceSlice s = None"
  shows "list_inv env (relayout env s)"
  unfolding relayout_def using assms by (intro list_invI recalculateLayout_ok) simp_all

lemma overlap_inv:
  assumes "list_inv env s" and "heights_reported env" and "snd (applyOverlapUpdates env items s)"
  shows "list_inv env (fst (fst (applyOverlapUpdates env items s)))"
proof -
  define ov0 where "ov0 = \<lparr> ov_messages = hs_messages s, ov_layout = hl_layout (hs_view s), ov_sendingCount = hs_sendingCount s,
      ov_pendingReactions = hs_pendingReactionEventIds s, ov_resizedRows = [] \<rparr>"
  obtain ov fin where ov: "overlap_loop 0 items ov0 = (ov, fin)" by fastforce
  note inv = assms(1) [unfolded list_inv_def]
  define s1 where "s1 = s\<lparr>hs_view := (hs_view s)\<lparr>hl_messages := ov_messages ov, hl_layout := ov_layout ov\<rparr>,
      hs_sendingCount := ov_sendingCount ov, hs_pendingReactionEventIds := ov_pendingReactions ov\<rparr>"
  define fu where "fu = hl_firstUnreadEventId (hs_view s)"
  have "overlap_ok env fu (hs_messages s) (hl_layout (hs_view s)) ov0"
    using inv layout_okD(4) [of env "hs_view s"] by (simp add: overlap_ok_def ov0_def list_all2_refl)
  from overlap_loop_ok [OF assms(2) this, of 0 items]
  have ok: "overlap_ok env fu (hs_messages s) (hl_layout (hs_view s)) ov" by (simp add: ov)
  have result: "fst (fst (applyOverlapUpdates env items s)) =
      (if ov_resizedRows ov = [] then s1
       else fst (keep_viewport env (wasAtBottom env s1) (relayout env (saveScrollAnchor (ov_resizedRows ov) s1))))"
    using assms(3) ov
    by (auto simp: applyOverlapUpdates_def Let_def ov0_def [symmetric] s1_def [symmetric] split: if_splits)
  show ?thesis
  proof (cases "ov_resizedRows ov = []")
    case True
    then have "layout_ok env ((hs_view s)\<lparr>hl_messages := ov_messages ov\<rparr>)"
      using ok inv by (intro same_rows_layout [OF _ assms(2)]) (auto simp: overlap_ok_def fu_def)
    moreover have "hs_view s1 = (hs_view s)\<lparr>hl_messages := ov_messages ov\<rparr>"
      using True ok by (simp add: s1_def overlap_ok_def)
    ultimately show ?thesis
      unfolding result using True inv ok by (simp add: list_inv_def s1_def overlap_ok_def)
  next
    case False
    have "list_inv env (relayout env (saveScrollAnchor (ov_resizedRows ov) s1))"
      using ok inv by (intro relayout_inv) (simp_all add: s1_def overlap_ok_def)
    then show ?thesis unfolding result using False by simp
  qed
qed

lemma overlap_scrolling: "hs_scrolling (fst (fst (applyOverlapUpdates env items s))) = hs_scrolling s"
  by (auto simp: applyOverlapUpdates_def Let_def keep_viewport_def relayout_def restoreScrollAnchor_def case_prod_beta)

lemma overlap_or_replace_inv:
  assumes "list_inv env s" and "heights_reported env" and "ids_ok (ids (ts_items sl))"
    and "\<not> (hs_scrolling s \<and> ts_isLive sl)"
  shows "list_inv env (fst (overlap_or_replace env sl s))"
proof -
  obtain s1 out fin where a: "applyOverlapUpdates env (ts_items sl) s = ((s1, out), fin)" by (metis prod.exhaust)
  show ?thesis
  proof (cases fin)
    case True
    then show ?thesis using overlap_inv [OF assms(1,2), of "ts_items sl"] a by (simp add: overlap_or_replace_def)
  next
    case False
    have "deferReplaceWhileScrolling sl s1 = (s1, False)"
      using overlap_scrolling [of env "ts_items sl" s] a assms(4) by (auto simp: deferReplaceWhileScrolling_def)
    then show ?thesis using False a replace_inv [OF assms(3)] by (simp add: overlap_or_replace_def)
  qed
qed

subsection \<open>Slices\<close>

lemma match_from_spec:
  assumes "match_from a b i f0 l0 items = (f, l)"
  shows "(f = f0 \<or> (i \<le> f \<and> nat (f - i) < length items \<and> ti_eventId (items ! nat (f - i)) = a))
       \<and> (l = l0 \<or> (i \<le> l \<and> nat (l - i) < length items \<and> ti_eventId (items ! nat (l - i)) = b))"
  using assms
proof (induction items arbitrary: i f0 l0)
  case (Cons x items)
  define f1 where "f1 = (if ti_eventId x = a then i else f0)"
  define l1 where "l1 = (if ti_eventId x = b then i else l0)"
  show ?case
  proof (cases "0 \<le> f1 \<and> 0 \<le> l1")
    case True
    then have "f = f1" "l = l1" using Cons.prems by (simp_all add: Let_def f1_def l1_def)
    then show ?thesis by (simp add: f1_def l1_def)
  next
    case False
    from Cons.prems have "match_from a b (i + 1) f1 l1 items = (f, l)"
      unfolding match_from.simps Let_def f1_def [symmetric] l1_def [symmetric] if_not_P [OF False] .
    from Cons.IH [OF this]
    have ih: "f = f1 \<or> (i + 1 \<le> f \<and> nat (f - (i + 1)) < length items \<and> ti_eventId (items ! nat (f - (i + 1))) = a)"
      "l = l1 \<or> (i + 1 \<le> l \<and> nat (l - (i + 1)) < length items \<and> ti_eventId (items ! nat (l - (i + 1))) = b)"
      by simp_all
    have step: "nat (k - i) < length (x # items) \<and> (x # items) ! nat (k - i) = items ! nat (k - (i + 1))"
      if "i + 1 \<le> k" "nat (k - (i + 1)) < length items" for k
    proof -
      have "nat (k - i) = Suc (nat (k - (i + 1)))" using that(1) by simp
      then show ?thesis using that(2) by simp
    qed
    show ?thesis using ih step [of f] step [of l] by (auto simp: f1_def l1_def split: if_splits)
  qed
qed simp

text \<open>Where the slice overlaps the list, what it adds at the edges is new to the list, and history that
  is paged in is not being sent.\<close>

definition edges_ok :: "timeline_item list \<Rightarrow> timeline_item list \<Rightarrow> bool" where
  "edges_ok msgs items \<longleftrightarrow>
     (let older = takeWhile (\<lambda>item. ti_eventId item \<noteq> ti_eventId (hd msgs)) items;
          newer = drop (length older + length msgs) items
      in set (ids older @ ids newer) \<inter> set (ids msgs) = {} \<and> count_sending older = 0)"

definition modeChanged :: "history_list \<Rightarrow> timeline_slice \<Rightarrow> bool" where
  "modeChanged s sl \<longleftrightarrow> ts_isLive sl \<noteq> hs_isLive s \<or> ts_focusEventId sl \<noteq> hs_focusEventId s"

definition indicator_same :: "history_list \<Rightarrow> timeline_slice \<Rightarrow> bool" where
  "indicator_same s sl \<longleftrightarrow>
     (ts_canPaginateBack sl \<or> ts_hitTimelineStart sl)
       = (hl_canPaginateBack (hs_view s) \<or> hl_hitTimelineStart (hs_view s))"

definition slice_ok :: "history_list \<Rightarrow> timeline_slice \<Rightarrow> bool" where
  "slice_ok s sl \<longleftrightarrow>
     ids_ok (ids (ts_items sl)) \<and> \<not> (hs_scrolling s \<and> ts_isLive sl)
   \<and> (modeChanged s sl \<or> hs_messages s = []
      \<or> indicator_same s sl
        \<and> (case ts_updateKind sl of
             UpdateAppend \<Rightarrow> ids_ok (ids (hs_messages s @ ts_items sl))
           | UpdatePrepend \<Rightarrow> ids_ok (ids (ts_items sl @ hs_messages s)) \<and> count_sending (ts_items sl) = 0
           | UpdateMetadataOnly \<Rightarrow> True
           | UpdateFull \<Rightarrow> edges_ok (hs_messages s) (ts_items sl)
           | UpdateReplace \<Rightarrow> edges_ok (hs_messages s) (ts_items sl)))"

definition slice_applied :: "timeline_slice \<Rightarrow> history_list \<Rightarrow> history_list" where
  "slice_applied sl s = s\<lparr>hs_view := (hs_view s)\<lparr>hl_canPaginateBack := ts_canPaginateBack sl,
                                         hl_hitTimelineStart := ts_hitTimelineStart sl\<rparr>,
                 hs_canPaginateForward := ts_canPaginateForward sl,
                 hs_isLive := ts_isLive sl, hs_focusEventId := ts_focusEventId sl\<rparr>"

lemma slice_applied_inv:
  assumes "list_inv env s" and "indicator_same s sl"
  shows "list_inv env (slice_applied sl s)"
proof -
  define v v' where "v = hs_view s" and "v' = hs_view (slice_applied sl s)"
  have v': "v' = v\<lparr>hl_canPaginateBack := ts_canPaginateBack sl, hl_hitTimelineStart := ts_hitTimelineStart sl\<rparr>"
    by (simp add: v'_def v_def slice_applied_def)
  have top: "top_indicator v' = top_indicator v"
    using assms(2) by (simp add: v' v_def top_indicator_def topTimelineIndicatorHeight_def indicator_same_def)
  have rows: "rows_of env v' = rows_of env v" by (simp add: rows_of_def top) (simp add: v')
  have "layout_ok env v" using assms(1) by (simp add: list_inv_def v_def)
  then have "drop_caches v = reference_layout env v" "list_all2 (cache_ok env) (hl_messages v) (hl_layout v)"
    by (simp_all add: layout_ok_def)
  moreover have "reference_layout env v' = (reference_layout env v)\<lparr>hl_canPaginateBack := ts_canPaginateBack sl,
      hl_hitTimelineStart := ts_hitTimelineStart sl\<rparr>"
    unfolding reference_layout_def rows top by (simp add: v' finish_layout_def Let_def)
  moreover have "drop_caches v' = (drop_caches v)\<lparr>hl_canPaginateBack := ts_canPaginateBack sl,
      hl_hitTimelineStart := ts_hitTimelineStart sl\<rparr>"
    by (simp add: v' drop_caches_def)
  ultimately have "layout_ok env v'" by (simp add: layout_ok_def) (simp add: v')
  then show ?thesis using assms(1) by (simp add: list_inv_def v'_def) (simp add: slice_applied_def)
qed

lemma prepend_fields:
  "hs_messages (fst (prependMessages env items s)) = items @ hs_messages s"
  "hs_scrolling (fst (prependMessages env items s)) = hs_scrolling s"
  by (simp_all add: prependMessages_def Let_def)

lemma append_scrolling: "hs_scrolling (appendMessages env items s) = hs_scrolling s"
proof -
  have "hs_scrolling (foldl append_one t items) = hs_scrolling t" for t
    by (induction items arbitrary: t) (simp_all add: append_one_def Let_def case_prod_beta)
  then show ?thesis by (simp add: appendMessages_def Let_def)
qed

text \<open>The edges found by \<open>setSliceImpl\<close>.\<close>

lemma edges_found:
  assumes "ids_ok (ids items)" and "msgs \<noteq> []" and "edges_ok msgs items"
    and "match_from (ti_eventId (hd msgs)) (ti_eventId (last msgs)) 0 (-1) (-1) items = (f, l)"
    and "0 \<le> f" and "f \<le> l" and "l - f + 1 = int (length msgs)" and "ids_ok (ids msgs)"
    and "older = take (nat f) items" and "newer = drop (nat l + 1) items"
  shows "ids_ok (ids (older @ msgs @ newer))" and "count_sending older = 0"
    and "length (older @ msgs @ newer) = length items"
proof -
  note m = match_from_spec [OF assms(4)]
  have f: "nat f < length items" "ti_eventId (items ! nat f) = ti_eventId (hd msgs)"
    and l: "nat l < length items" using m assms(5,6) by auto
  have before: "ti_eventId item \<noteq> ti_eventId (hd msgs)" if "item \<in> set (take (nat f) items)" for item
  proof -
    from that obtain k where "k < length (take (nat f) items)" "take (nat f) items ! k = item"
      by (meson in_set_conv_nth)
    then have k: "k < nat f" "item = items ! k" by simp_all
    have "ids items ! k \<noteq> ids items ! nat f"
      using assms(1) k(1) f(1) by (simp add: ids_ok_def nth_eq_iff_index_eq)
    then show ?thesis using k f by (simp add: ids_def)
  qed
  have "takeWhile (\<lambda>item. ti_eventId item \<noteq> ti_eventId (hd msgs))
      (take (nat f) items @ items ! nat f # drop (Suc (nat f)) items) = take (nat f) items"
    using before f(2) by (subst takeWhile_append2) auto
  then have "takeWhile (\<lambda>item. ti_eventId item \<noteq> ti_eventId (hd msgs)) items = older"
    unfolding id_take_nth_drop [OF f(1), symmetric] assms(9) .
  moreover have len: "length older = nat f" using f(1) by (simp add: assms(9))
  moreover have nl: "nat f + length msgs = nat l + 1" using assms(5,6,7) by linarith
  ultimately have e: "set (ids older @ ids newer) \<inter> set (ids msgs) = {}" "count_sending older = 0"
    using assms(3) by (simp_all add: edges_ok_def Let_def assms(10))
  show "count_sending older = 0" by (rule e(2))
  have "ids items = ids older @ ids (take (length msgs) (drop (nat f) items)) @ ids newer"
  proof -
    have "items = take (nat f) items @ take (length msgs) (drop (nat f) items) @ drop (length msgs) (drop (nat f) items)"
      by (simp only: append_take_drop_id)
    also have "drop (length msgs) (drop (nat f) items) = drop (nat l + 1) items"
      using nl by (simp add: add.commute)
    finally have "ids items = ids (older @ take (length msgs) (drop (nat f) items) @ newer)"
      unfolding assms(9,10) by (rule arg_cong)
    then show ?thesis by simp
  qed
  then have "distinct (ids older @ ids newer)" "[] \<notin> set (ids older @ ids newer)"
    using assms(1) by (auto simp: ids_ok_def)
  then show "ids_ok (ids (older @ msgs @ newer))" using e(1) assms(8) by (auto simp: ids_ok_def)
  show "length (older @ msgs @ newer) = length items" using l f(1) nl by (simp add: assms(9,10))
qed

lemma add_edges_inv:
  assumes "list_inv env s" and "sizes_ok env" and "ids_ok (ids items)" and "hs_messages s \<noteq> []"
    and "edges_ok (hs_messages s) items"
    and "match_from (ti_eventId (hd (hs_messages s))) (ti_eventId (last (hs_messages s))) 0 (-1) (-1) items = (f, l)"
    and "0 \<le> f" and "f \<le> l" and "l - f + 1 = int (length (hs_messages s))"
  shows "list_inv env (fst (add_edges env items f l s))"
    and "hs_scrolling (fst (add_edges env items f l s)) = hs_scrolling s"
proof -
  define older newer where "older = take (nat f) items" and "newer = drop (nat l + 1) items"
  have "ids_ok (ids (hs_messages s))" using assms(1) by (simp add: list_inv_def)
  note e = edges_found [OF assms(3-9) this older_def newer_def]
  define s1 where "s1 = fst (if older \<noteq> [] then prependMessages env older s else (s, []))"
  have s1: "list_inv env s1" "hs_messages s1 = older @ hs_messages s" "hs_scrolling s1 = hs_scrolling s"
    using assms(1) prependMessages_inv [OF assms(1), of older] e by (auto simp: s1_def prepend_fields ids_ok_def)
  have step: "fst (add_edges env items f l s) = (if newer \<noteq> [] then appendMessages env newer s1 else s1)"
    by (simp add: add_edges_def Let_def case_prod_beta s1_def older_def newer_def)
  show "list_inv env (fst (add_edges env items f l s))"
    unfolding step using s1 appendMessages_inv [OF s1(1) assms(2), of newer] e(1) by auto
  show "hs_scrolling (fst (add_edges env items f l s)) = hs_scrolling s"
    unfolding step using s1 by (simp add: append_scrolling)
qed

text \<open>The branches of \<open>setSliceImpl\<close> for a list that stays in its mode.\<close>

definition slice_merge :: "layout_env \<Rightarrow> timeline_slice \<Rightarrow> history_list \<Rightarrow> history_list \<times> int list" where
  "slice_merge env sl s =
     (let m = match_from (ti_eventId (hd (hs_messages s))) (ti_eventId (last (hs_messages s))) 0 (-1) (-1) (ts_items sl)
      in if ts_items sl \<noteq> [] \<and> 0 \<le> fst m \<and> fst m \<le> snd m \<and> snd m - fst m + 1 = int (length (hs_messages s))
         then let e = add_edges env (ts_items sl) (fst m) (snd m) s;
                  u = overlap_or_replace env sl (fst e)
              in (fst u, snd e @ snd u)
         else overlap_or_replace env sl s)"

lemma setSlice_branches:
  assumes "\<not> (modeChanged s sl \<or> hs_messages s = [])"
  shows "setSlice env sl s =
     (case ts_updateKind sl of
        UpdateAppend \<Rightarrow> (if ts_updateIndex sl \<noteq> int (length (hs_messages s)) then slice_applied sl s
                         else appendMessages env (ts_items sl) (slice_applied sl s), [])
      | UpdatePrepend \<Rightarrow> (if ts_updateIndex sl \<noteq> 0 then (slice_applied sl s, [])
                          else prependMessages env (ts_items sl) (slice_applied sl s))
      | UpdateMetadataOnly \<Rightarrow> (slice_applied sl s, [])
      | UpdateFull \<Rightarrow> slice_merge env sl (slice_applied sl s)
      | UpdateReplace \<Rightarrow> slice_merge env sl (slice_applied sl s))"
proof -
  define s1 where "s1 = slice_applied sl s"
  have "hs_messages s1 = hs_messages s" by (simp add: s1_def slice_applied_def)
  moreover have "slice_merge env sl s1 =
     (if ts_items sl = [] then overlap_or_replace env sl s1
      else let (f, l) = match_from (ti_eventId (hd (hs_messages s1))) (ti_eventId (last (hs_messages s1))) 0 (-1) (-1) (ts_items sl)
           in if 0 \<le> f \<and> f \<le> l \<and> l - f + 1 = int (length (hs_messages s1))
              then let (s2, out) = add_edges env (ts_items sl) f l s1; (s3, out3) = overlap_or_replace env sl s2
                   in (s3, out @ out3)
              else overlap_or_replace env sl s1)"
    by (simp add: slice_merge_def Let_def case_prod_beta)
  ultimately show ?thesis
    using assms unfolding setSlice_def Let_def slice_applied_def [symmetric] s1_def [symmetric] modeChanged_def [symmetric]
    by (simp split: timeline_update_kind.split)
qed

lemma slice_merge_inv:
  assumes inv: "list_inv env s" and "sizes_ok env" and "heights_reported env" and "ids_ok (ids (ts_items sl))"
    and "hs_messages s \<noteq> []" and "edges_ok (hs_messages s) (ts_items sl)" and "\<not> (hs_scrolling s \<and> ts_isLive sl)"
  shows "list_inv env (fst (slice_merge env sl s))"
proof -
  obtain f l where m: "match_from (ti_eventId (hd (hs_messages s))) (ti_eventId (last (hs_messages s))) 0 (-1) (-1)
      (ts_items sl) = (f, l)"
    by (meson surj_pair)
  show ?thesis
  proof (cases "ts_items sl \<noteq> [] \<and> 0 \<le> f \<and> f \<le> l \<and> l - f + 1 = int (length (hs_messages s))")
    case True
    then have grow: "0 \<le> f" "f \<le> l" "l - f + 1 = int (length (hs_messages s))" by blast+
    note e = add_edges_inv [OF inv assms(2,4,5,6) m grow]
    have "fst (slice_merge env sl s) = fst (overlap_or_replace env sl (fst (add_edges env (ts_items sl) f l s)))"
      unfolding slice_merge_def m Let_def fst_conv snd_conv if_P [OF True] ..
    then show ?thesis using overlap_or_replace_inv [OF e(1) assms(3,4)] e(2) assms(7) by simp
  next
    case False
    have "slice_merge env sl s = overlap_or_replace env sl s"
      unfolding slice_merge_def m Let_def fst_conv snd_conv if_not_P [OF False] ..
    then show ?thesis using overlap_or_replace_inv [OF inv assms(3,4,7)] by simp
  qed
qed

lemma setSlice_inv:
  assumes inv: "list_inv env s" and sizes: "sizes_ok env" "heights_reported env" and ok: "slice_ok s sl"
  shows "list_inv env (fst (setSlice env sl s))"
proof (cases "modeChanged s sl \<or> hs_messages s = []")
  case True
  have "fst (setSlice env sl s) = setMessages env (ts_items sl) (slice_applied sl s)"
    using True by (auto simp: setSlice_def Let_def modeChanged_def slice_applied_def)
  then show ?thesis using setMessages_inv ok by (simp add: slice_ok_def)
next
  case False
  define s1 where "s1 = slice_applied sl s"
  have same: "hs_messages s1 = hs_messages s" "hs_scrolling s1 = hs_scrolling s"
    by (simp_all add: s1_def slice_applied_def)
  have "indicator_same s sl" using ok False by (simp add: slice_ok_def)
  then have inv1: "list_inv env s1" unfolding s1_def by (rule slice_applied_inv [OF inv])
  note merged = slice_merge_inv [OF inv1 sizes, of sl]
  note steps = appendMessages_inv [OF inv1 sizes(1), of "ts_items sl"] prependMessages_inv [OF inv1, of "ts_items sl"]
  show ?thesis
    unfolding setSlice_branches [OF False] s1_def [symmetric]
    using ok False inv1 merged steps
    by (cases "ts_updateKind sl") (simp_all add: slice_ok_def same)
qed

end
