(* ===== verification/List_Properties.thy ===== *)
theory List_Properties imports History_List begin

section \<open>Properties of the message list\<close>

text \<open>
  What \<open>History_List\<close> guarantees over any sequence of its operations, what a slice leaves on
  screen, and what happens to the reader's place; then the cases in which it does not keep what its
  comments promise.
\<close>

subsection \<open>Every operation keeps the list consistent\<close>

lemma index_found:
  assumes "mirrors (ids msgs) mi" and "\<not> mi_physicalIndexOf mi event < 0"
  obtains i where "mi_physicalIndexOf mi event = int i" "i < length msgs" "ti_eventId (msgs ! i) = event"
    "event \<noteq> []"
proof -
  have idx: "mi_physicalIndexOf mi event = position_of (ids msgs) event"
    using assms(1) by (simp add: mirrors_def)
  then obtain p where p: "position_from 0 (ids msgs) event = Some p" "mi_physicalIndexOf mi event = p"
    using assms(2) by (auto simp: position_of_def split: option.splits)
  from position_from_nth [OF p(1)]
  have "0 \<le> p \<and> nat p < length msgs \<and> ids msgs ! nat p = event \<and> event \<noteq> []" by simp
  then show thesis using that [of "nat p"] p(2) by (auto simp: ids_def)
qed

lemma updated_rows:
  "i < length msgs \<Longrightarrow> same_rows fu (msgs ! i) m \<Longrightarrow> list_all2 (same_rows fu) msgs (msgs[i := m])"
  using list_all2_update_cong [of "same_rows fu" msgs msgs "msgs ! i" m i] by (simp add: list_all2_refl)

lemma updated_caches:
  assumes "heights_reported env" and "list_all2 (cache_ok env) msgs rows" and "i < length msgs"
    and "\<not> timelineItemHeightAffectingChanged (msgs ! i) m"
  shows "list_all2 (cache_ok env) (msgs[i := m]) rows"
proof -
  have "cache_ok env m (rows ! i)"
    using assms by (auto simp: cache_ok_def heights_reported_def list_all2_conv_all_nth)
  then show ?thesis using list_all2_update_cong [OF assms(2), of m "rows ! i" i] by simp
qed

lemma updated_layout:
  assumes "layout_ok env v" and "heights_reported env" and "i < length (hl_messages v)"
    and "same_rows (hl_firstUnreadEventId v) (hl_messages v ! i) m"
  shows "layout_ok env (v\<lparr>hl_messages := (hl_messages v)[i := m]\<rparr>)"
  using assms(4) layout_okD(4) [OF assms(1)]
  by (intro same_rows_layout [OF assms(1,2)] updated_rows updated_caches [OF assms(2)])
     (simp_all add: assms(3) same_rows_def)

lemma send_state_inv:
  assumes inv: "list_inv env s" and "heights_reported env"
    and new_id: "new_id = [] \<or> new_id = event \<or> new_id \<notin> set (ids (hs_messages s))"
    and bar: "hl_firstUnreadEventId (hs_view s) = [] \<or> hl_firstUnreadEventId (hs_view s) \<notin> {event, new_id}"
  shows "list_inv env (fst (list_updateMessageSendState event state new_id s))"
proof (cases "event = [] \<or> mi_physicalIndexOf (hs_index s) event < 0
    \<or> int (length (hs_messages s)) \<le> mi_physicalIndexOf (hs_index s) event")
  case True
  then show ?thesis using inv by (auto simp: list_updateMessageSendState_def Let_def)
next
  case False
  note ok = inv [unfolded list_inv_def]
  obtain i where i: "mi_physicalIndexOf (hs_index s) event = int i" "i < length (hs_messages s)"
    "ti_eventId (hs_messages s ! i) = event" "event \<noteq> []"
    using index_found [of "hs_messages s" "hs_index s" event] ok False by auto
  define old where "old = hs_messages s ! i"
  define msg where "msg = (if new_id \<noteq> [] then old\<lparr>ti_delivery := (ti_delivery old)\<lparr>del_sendState := state\<rparr>, ti_eventId := new_id\<rparr>
    else old\<lparr>ti_delivery := (ti_delivery old)\<lparr>del_sendState := state\<rparr>\<rparr>)"
  define row where "row = (if new_id = [] then event else new_id)"
  define msgs where "msgs = (hs_messages s)[i := msg]"
  have msg_id: "ti_eventId msg = row" and sent: "isSending msg = (state = Sending)"
    using i(3) by (simp_all add: msg_def row_def old_def isSending_def)
  have row: "row \<noteq> []" "row = ids (hs_messages s) ! i \<or> row \<notin> set (ids (hs_messages s))"
    using new_id i by (auto simp: row_def ids_def)
  have result: "fst (list_updateMessageSendState event state new_id s) =
     s\<lparr>hs_sendingCount := (if isSending old \<and> state \<noteq> Sending then hs_sendingCount s - 1
         else if \<not> isSending old \<and> state = Sending then hs_sendingCount s + 1 else hs_sendingCount s),
       hs_view := (hs_view s)\<lparr>hl_messages := msgs\<rparr>,
       hs_index := mi_setAt (mi_remove (hs_index s) event) row (int i)\<rparr>"
    using i row msg_id False unfolding list_updateMessageSendState_def msgs_def
    by (simp add: Let_def i(1) old_def [symmetric] msg_def)
  have ids_new: "ids msgs = (ids (hs_messages s))[i := row]" by (simp add: msgs_def ids_def map_update msg_id)
  have "mirrors (ids msgs) (mi_setAt (mi_remove (hs_index s) event) row (int i))"
    using rename_mirrors [of "ids (hs_messages s)" "hs_index s" i row] ok i row unfolding ids_new
    by (simp add: ids_def)
  moreover have "layout_ok env ((hs_view s)\<lparr>hl_messages := msgs\<rparr>)"
    unfolding msgs_def using ok i bar
    by (intro updated_layout [OF _ assms(2)])
       (auto simp: same_rows_def timelineItemHeightAffectingChanged_def msg_def old_def atUnreadBar_def contentType_def)
  moreover have "ids_ok (ids msgs)"
    using ok i row distinct_list_update [of "ids (hs_messages s)" row i] set_update_subset_insert [of "ids (hs_messages s)" i row]
    by (auto simp: ids_ok_def ids_new)
  moreover have "count_sending msgs = hs_sendingCount s - of_bool (isSending old) + of_bool (state = Sending)"
    using ok i(2) by (simp add: msgs_def count_sending_update old_def sent)
  ultimately show ?thesis using ok by (simp add: list_inv_def result)
qed

lemma progress_inv:
  assumes inv: "list_inv env s" and "heights_reported env"
  shows "list_inv env (fst (updateMessageUploadProgress event progress s))"
proof (cases "event = [] \<or> mi_physicalIndexOf (hs_index s) event < 0
    \<or> int (length (hs_messages s)) \<le> mi_physicalIndexOf (hs_index s) event")
  case True
  then show ?thesis using inv by (auto simp: updateMessageUploadProgress_def Let_def)
next
  case False
  note ok = inv [unfolded list_inv_def]
  obtain i where i: "mi_physicalIndexOf (hs_index s) event = int i" "i < length (hs_messages s)"
    using index_found [of "hs_messages s" "hs_index s" event] ok False by auto
  define old where "old = hs_messages s ! i"
  define m where "m = old\<lparr>ti_delivery := (ti_delivery old)\<lparr>del_uploadProgress := progress\<rparr>\<rparr>"
  have m: "ti_eventId m = ti_eventId old" "isSending m = isSending old" by (simp_all add: m_def isSending_def)
  have "layout_ok env ((hs_view s)\<lparr>hl_messages := (hs_messages s)[i := m]\<rparr>)"
    using ok i by (intro updated_layout [OF _ assms(2)])
      (auto simp: same_rows_def timelineItemHeightAffectingChanged_def m_def old_def atUnreadBar_def contentType_def)
  moreover have "ids ((hs_messages s)[i := m]) = ids (hs_messages s)"
    using i(2) m(1) by (simp add: ids_def map_update old_def) (metis list_update_id nth_map)
  moreover have "count_sending ((hs_messages s)[i := m]) = count_sending (hs_messages s)"
    using i(2) m(2) by (simp add: count_sending_update old_def)
  ultimately show ?thesis
    using ok i False by (simp add: updateMessageUploadProgress_def Let_def list_inv_def old_def m_def)
qed


lemma bar_inv:
  "list_inv env s \<Longrightarrow>
   list_inv env (relayout env (s\<lparr>hs_unreadBarCount := n, hs_view := (hs_view s)\<lparr>hl_firstUnreadEventId := e\<rparr>\<rparr>))"
  using layout_okD(4) [of env "hs_view s"] by (intro relayout_inv) (simp_all add: list_inv_def)

lemma pin_inv:
  assumes inv: "list_inv env s" and "heights_reported env"
  shows "list_inv env (setMessagePinState env event pinned s)"
proof (cases "event = [] \<or> mi_physicalIndexOf (hs_index s) event < 0
    \<or> int (length (hs_messages s)) \<le> mi_physicalIndexOf (hs_index s) event
    \<or> ti_isPinned (hs_messages s ! nat (mi_physicalIndexOf (hs_index s) event)) = pinned")
  case True
  then show ?thesis using inv by (auto simp: setMessagePinState_def Let_def)
next
  case False
  note ok = inv [unfolded list_inv_def]
  obtain i where i: "mi_physicalIndexOf (hs_index s) event = int i" "i < length (hs_messages s)"
    using index_found [of "hs_messages s" "hs_index s" event] ok False by auto
  define m where "m = (hs_messages s ! i)\<lparr>ti_isPinned := pinned\<rparr>"
  have "ids ((hs_messages s)[i := m]) = ids (hs_messages s)"
    using i(2) by (simp add: ids_def map_update m_def) (metis list_update_id nth_map)
  moreover have "count_sending ((hs_messages s)[i := m]) = count_sending (hs_messages s)"
    using i(2) by (simp add: count_sending_update m_def isSending_def)
  moreover have "list_all2 (cache_ok env) ((hs_messages s)[i := m]) (hl_layout (hs_view s))"
    using ok i(2) layout_okD(4) [of env "hs_view s"]
    by (intro updated_caches [OF assms(2)]) (auto simp: m_def timelineItemHeightAffectingChanged_def contentType_def)
  ultimately have "list_inv env (relayout env (s\<lparr>hs_view := (hs_view s)\<lparr>hl_messages := (hs_messages s)[i := m]\<rparr>\<rparr>))"
    using ok by (intro relayout_inv) simp_all
  then show ?thesis using False i by (simp add: setMessagePinState_def Let_def m_def)
qed

lemma remove_inv:
  assumes inv: "list_inv env s"
  shows "list_inv env (fst (removeMessage env event s))"
proof (cases "event = [] \<or> mi_physicalIndexOf (hs_index s) event < 0
    \<or> int (length (hs_messages s)) \<le> mi_physicalIndexOf (hs_index s) event")
  case True
  then show ?thesis using inv by (auto simp: removeMessage_def Let_def)
next
  case False
  note ok = inv [unfolded list_inv_def]
  obtain i where i: "mi_physicalIndexOf (hs_index s) event = int i" "i < length (hs_messages s)"
    using index_found [of "hs_messages s" "hs_index s" event] ok False by auto
  define msgs where "msgs = take i (hs_messages s) @ drop (i + 1) (hs_messages s)"
  have split: "hs_messages s = take i (hs_messages s) @ hs_messages s ! i # drop (i + 1) (hs_messages s)"
    using id_take_nth_drop [OF i(2)] by simp
  have "count_sending (hs_messages s) = count_sending msgs + (if isSending (hs_messages s ! i) then 1 else 0)"
    by (subst split) (simp add: count_sending_def msgs_def)
  then have sending: "hs_sendingCount s - (if isSending (hs_messages s ! i) then 1 else 0) = count_sending msgs"
    using ok by simp
  have "ids_ok (ids (take i (hs_messages s) @ hs_messages s ! i # drop (i + 1) (hs_messages s)))"
    unfolding split [symmetric] using ok by blast
  then have ids: "ids_ok (ids msgs)" by (auto simp: ids_ok_def msgs_def)
  define s1 where "s1 = s\<lparr>hs_sendingCount := count_sending msgs, hs_view := (hs_view s)\<lparr>hl_messages := msgs, hl_layout := []\<rparr>\<rparr>"
  have "list_inv env (with_view env (recalculateLayout env (hs_view (rebuildMessageIndex s1))) (rebuildMessageIndex s1))"
    using ids ok rebuild_mirrors [of "ids msgs" "hs_index s"]
    by (intro list_invI recalculateLayout_ok) (simp_all add: rebuildMessageIndex_def s1_def ids_def [symmetric])
  moreover have "fst (removeMessage env event s) =
      with_view env (recalculateLayout env (hs_view (rebuildMessageIndex s1))) (rebuildMessageIndex s1)"
    using False i(2) unfolding removeMessage_def Let_def i(1) nat_int sending msgs_def [symmetric] s1_def by simp
  ultimately show ?thesis by simp
qed

text \<open>The operations as events.  A slice keeps event ids unique and does not land in the middle of a
  scroll (then it is put aside); the id the server gives to a message is new.\<close>

datatype list_op =
  LoSlice timeline_slice | LoAppend timeline_item | LoRemove qstring | LoSendState qstring send_state qstring
| LoProgress qstring real | LoPin qstring bool | LoUnreadBar qstring int | LoClearUnreadBar | LoScroll int | LoSettle

fun list_step :: "layout_env \<Rightarrow> history_list \<Rightarrow> list_op \<Rightarrow> history_list" where
  "list_step env s (LoSlice sl) = fst (setSlice env sl s)"
| "list_step env s (LoAppend item) = appendMessage env item s"
| "list_step env s (LoRemove event) = fst (removeMessage env event s)"
| "list_step env s (LoSendState event state new_id) = fst (list_updateMessageSendState event state new_id s)"
| "list_step env s (LoProgress event progress) = fst (updateMessageUploadProgress event progress s)"
| "list_step env s (LoPin event pinned) = setMessagePinState env event pinned s"
| "list_step env s (LoUnreadBar event n) = setUnreadBar env event n s"
| "list_step env s LoClearUnreadBar = clearUnreadBar env s"
| "list_step env s (LoScroll visibleTop) = updateVisibleTop visibleTop s"
| "list_step env s LoSettle = fst (scrollSettled env s)"

fun list_op_ok :: "history_list \<Rightarrow> list_op \<Rightarrow> bool" where
  "list_op_ok s (LoSlice sl) \<longleftrightarrow> slice_ok s sl"
| "list_op_ok s (LoAppend item) \<longleftrightarrow> ids_ok (ids (hs_messages s @ [item]))"
| "list_op_ok s (LoSendState event state new_id) \<longleftrightarrow>
     (new_id = [] \<or> new_id = event \<or> new_id \<notin> set (ids (hs_messages s)))
   \<and> (hl_firstUnreadEventId (hs_view s) = [] \<or> hl_firstUnreadEventId (hs_view s) \<notin> {event, new_id})"
| "list_op_ok s op \<longleftrightarrow> True"

lemma append_message_same: "appendMessage env item s = appendMessages env [item] s"
  by (simp add: appendMessage_def appendMessages_def)

lemma list_step_inv:
  assumes "list_inv env s" and "sizes_ok env" and "heights_reported env" and "list_op_ok s op"
  shows "list_inv env (list_step env s op)"
proof (cases op)
  case (LoAppend item)
  then show ?thesis using appendMessages_inv [OF assms(1,2), of "[item]"] assms(4) by (simp add: append_message_same)
next
  case (LoScroll visibleTop)
  then show ?thesis using assms(1) by (simp add: updateVisibleTop_def list_inv_def)
next
  case LoSettle
  then show ?thesis using assms(1) by (simp add: scrollSettled_def list_inv_def)
qed (use assms in \<open>simp_all add: setSlice_inv remove_inv send_state_inv progress_inv pin_inv bar_inv
    setUnreadBar_def clearUnreadBar_def\<close>)


text \<open>A list that has just been made.\<close>

definition initial_list :: "layout_env \<Rightarrow> history_list" where
  "initial_list env = \<lparr> hs_view = \<lparr> hl_messages = [], hl_layout = [], hl_totalHeight = 0, hl_contentOffset = 0,
       hl_dateIndices = [], hl_canPaginateBack = False, hl_hitTimelineStart = False, hl_firstUnreadEventId = [] \<rparr>,
     hs_index = initial_message_index, hs_sendingCount = 0, hs_pendingReactionEventIds = {},
     hs_pendingPollSelections = [], hs_cachedAudioDurations = [], hs_deletingEventIds = {},
     hs_previewGlowEventIds = {}, hs_canPaginateForward = False, hs_isLive = True, hs_focusEventId = [],
     hs_readDetectionHold = False, hs_unreadBarCount = 0, hs_visibleTop = 0, hs_scrolling = False, hs_deferredReplaceSlice = None,
     hs_height = 0, hs_scrollTop = 0, hs_scrollAnchorEventId = [], hs_scrollAnchorPixelOffset = 0 \<rparr>"

lemma initial_list_inv: "list_inv env (setMessages env [] (initial_list env))"
  by (rule setMessages_inv) (simp add: ids_ok_def)



subsection \<open>The list shows the slice\<close>

text \<open>Durations probed here are kept over a replacement, so messages are compared without them.\<close>

abbreviation shown :: "timeline_item list \<Rightarrow> timeline_item list" where
  "shown \<equiv> map (setMediaDurationMs 0)"

definition nothing_pending :: "history_list \<Rightarrow> bool" where
  "nothing_pending s \<longleftrightarrow> hs_pendingReactionEventIds s = {} \<and> hs_pendingPollSelections s = []"

lemma duration_twice [simp]: "setMediaDurationMs d (setMediaDurationMs d' item) = setMediaDurationMs d item"
  by (cases "ti_content item") (simp_all add: setMediaDurationMs_def content_readers content_writers)

lemma no_pending_poll [simp]: "applyPendingPollSelection [] item = (item, [])"
  by (simp add: applyPendingPollSelection_def hash_remove_def split: option.split)

lemma prepared_shown:
  "shown (fst (prepare_messages False cache [] msgs)) = shown msgs \<and> snd (prepare_messages False cache [] msgs) = []"
  by (induction msgs) (simp_all add: Let_def case_prod_beta restore_duration_def split: option.split)

lemma visually_same: "ti_eventId a = ti_eventId b \<Longrightarrow> \<not> timelineItemVisualChanged a b \<Longrightarrow> a = b"
  unfolding timelineItemVisualChanged_def by (rule timeline_item.equality) simp_all

lemma merge_item_plain: "ti_eventId old = ti_eventId new \<Longrightarrow> merge_item {} old new = (new, {})"
  using visually_same [of old new] by (simp add: merge_item_def)

lemma overlap_loop_shows:
  assumes "overlap_loop i items ov = (ov', True)" and "ov_pendingReactions ov = {}"
    and "length (ov_messages ov) = i + length items"
  shows "ov_messages ov' = take i (ov_messages ov) @ items"
  using assms
proof (induction items arbitrary: i ov)
  case (Cons new items)
  define old where "old = ov_messages ov ! i"
  have i: "i < length (ov_messages ov)" using Cons.prems(3) by simp
  then have eq: "ti_eventId old = ti_eventId new"
    using Cons.prems(1) by (auto simp: Let_def old_def split: if_splits)
  note merged = merge_item_plain [OF eq]
  from Cons.prems(1) i eq obtain ov1 where step: "overlap_loop (i + 1) items ov1 = (ov', True)"
    "ov_messages ov1 = (ov_messages ov)[i := new]" "ov_pendingReactions ov1 = {}"
    by (simp add: Let_def old_def [symmetric] Cons.prems(2) merged)
  from Cons.IH [OF step(1,3)] have "ov_messages ov' = take (i + 1) ((ov_messages ov)[i := new]) @ items"
    using Cons.prems(3) by (simp add: step(2))
  then show ?case using i by (simp add: take_Suc_conv_app_nth)
qed simp

lemma overlap_loop_pending:
  "ov_pendingReactions ov = {} \<Longrightarrow> ov_pendingReactions (fst (overlap_loop i items ov)) = {}"
proof (induction items arbitrary: i ov)
  case (Cons new items)
  have "snd (merge_item {} (ov_messages ov ! i) new) = {}" by (simp add: merge_item_def)
  then show ?case using Cons by (simp add: Let_def case_prod_beta)
qed simp

lemma viewport_fields [simp]:
  "hs_pendingReactionEventIds (fst (keep_viewport env b s)) = hs_pendingReactionEventIds s"
  "hs_pendingPollSelections (fst (keep_viewport env b s)) = hs_pendingPollSelections s"
  "hs_scrolling (fst (keep_viewport env b s)) = hs_scrolling s"
  "hs_deferredReplaceSlice (fst (keep_viewport env b s)) = hs_deferredReplaceSlice s"
  "hs_isLive (fst (keep_viewport env b s)) = hs_isLive s"
  "hs_focusEventId (fst (keep_viewport env b s)) = hs_focusEventId s"
  by (simp_all add: keep_viewport_def restoreScrollAnchor_def Let_def)

lemma anchor_mode [simp]:
  "hs_isLive (saveScrollAnchor avoid s) = hs_isLive s" "hs_focusEventId (saveScrollAnchor avoid s) = hs_focusEventId s"
  by (simp_all add: saveScrollAnchor_def Let_def)

lemma relayout_fields [simp]:
  "hs_messages (relayout env s) = hs_messages s"
  "hs_pendingReactionEventIds (relayout env s) = hs_pendingReactionEventIds s"
  "hs_pendingPollSelections (relayout env s) = hs_pendingPollSelections s"
  "hs_scrolling (relayout env s) = hs_scrolling s"
  "hs_deferredReplaceSlice (relayout env s) = hs_deferredReplaceSlice s"
  "hs_isLive (relayout env s) = hs_isLive s" "hs_focusEventId (relayout env s) = hs_focusEventId s"
  by (simp_all add: relayout_def)

lemma overlap_shows:
  assumes "applyOverlapUpdates env items s = ((s1, out), fin)" and "nothing_pending s"
  shows "nothing_pending s1" and "fin \<Longrightarrow> hs_messages s1 = items" and "hs_scrolling s1 = hs_scrolling s"
    and "hs_deferredReplaceSlice s1 = hs_deferredReplaceSlice s"
    and "hs_isLive s1 = hs_isLive s" and "hs_focusEventId s1 = hs_focusEventId s"
proof -
  define ov0 where "ov0 = \<lparr> ov_messages = hs_messages s, ov_layout = hl_layout (hs_view s), ov_sendingCount = hs_sendingCount s,
      ov_pendingReactions = hs_pendingReactionEventIds s, ov_resizedRows = [] \<rparr>"
  obtain ov done' where ov: "overlap_loop 0 items ov0 = (ov, done')" by fastforce
  have none: "ov_pendingReactions ov0 = {}" using assms(2) by (simp add: ov0_def nothing_pending_def)
  then have pending: "ov_pendingReactions ov = {}" using overlap_loop_pending [of ov0 0 items] by (simp add: ov)
  define res where "res = applyOverlapUpdates env items s"
  have s1: "s1 = fst (fst res)" "fin = snd res" using assms(1) by (simp_all add: res_def)
  define t where "t = s\<lparr>hs_view := (hs_view s)\<lparr>hl_messages := ov_messages ov, hl_layout := ov_layout ov\<rparr>,
      hs_sendingCount := ov_sendingCount ov, hs_pendingReactionEventIds := ov_pendingReactions ov\<rparr>"
  define t' where "t' = keep_viewport env (wasAtBottom env t) (relayout env (saveScrollAnchor (ov_resizedRows ov) t))"
  have res: "res = (if items = [] \<or> hs_messages s = [] \<or> length items \<noteq> length (hs_messages s)
      \<or> ti_eventId (hd items) \<noteq> ti_eventId (hd (hs_messages s))
      \<or> ti_eventId (last items) \<noteq> ti_eventId (last (hs_messages s)) then ((s, []), False)
      else if \<not> done' then ((t, []), False) else if ov_resizedRows ov = [] then ((t, []), True) else (t', True))"
    unfolding res_def applyOverlapUpdates_def Let_def ov0_def [symmetric] ov prod.case t'_def t_def ..
  have t: "nothing_pending t" "hs_scrolling t = hs_scrolling s" "hs_deferredReplaceSlice t = hs_deferredReplaceSlice s"
    "hs_isLive t = hs_isLive s" "hs_focusEventId t = hs_focusEventId s" "hs_messages t = ov_messages ov"
    using assms(2) pending by (simp_all add: t_def nothing_pending_def)
  then have t': "nothing_pending (fst t')" "hs_scrolling (fst t') = hs_scrolling s"
    "hs_deferredReplaceSlice (fst t') = hs_deferredReplaceSlice s"
    "hs_isLive (fst t') = hs_isLive s" "hs_focusEventId (fst t') = hs_focusEventId s" "hs_messages (fst t') = ov_messages ov"
    by (simp_all add: t'_def nothing_pending_def)
  show "nothing_pending s1" using assms(2) t t' by (simp add: s1 res)
  show "hs_scrolling s1 = hs_scrolling s" "hs_deferredReplaceSlice s1 = hs_deferredReplaceSlice s"
    "hs_isLive s1 = hs_isLive s" "hs_focusEventId s1 = hs_focusEventId s"
    using t t' by (simp_all add: s1 res)
  assume fin
  then have "snd res" by (simp add: s1)
  then have d: "done'" "length items = length (hs_messages s)" "hs_messages s1 = ov_messages ov"
    using t t' by (simp_all add: s1 res split: if_splits)
  then have "overlap_loop 0 items ov0 = (ov, True)" using ov by simp
  from overlap_loop_shows [OF this none] d(2) show "hs_messages s1 = items"
    unfolding d(3) by (simp add: ov0_def)
qed

lemma setMessages_shows:
  assumes "nothing_pending s" and "\<not> le_pinnedMode env"
  shows "shown (hs_messages (setMessages env items s)) = shown items" and "nothing_pending (setMessages env items s)"
    and "hs_deferredReplaceSlice (setMessages env items s) = None"
  using prepared_shown assms by (simp_all add: setMessages_def Let_def case_prod_beta rebuildMessageIndex_def nothing_pending_def)


lemma replace_shows:
  assumes "nothing_pending s" and "\<not> le_pinnedMode env"
  shows "shown (hs_messages (fst (replaceSliceKeepingViewport env items s))) = shown items"
    and "hs_deferredReplaceSlice (fst (replaceSliceKeepingViewport env items s)) = None"
  using setMessages_shows [OF _ assms(2), of "saveScrollAnchor [] s" items] assms(1)
  by (simp_all add: replaceSliceKeepingViewport_def nothing_pending_def)

text \<open>After \<open>overlap_or_replace\<close> the slice is on screen or put aside.\<close>

definition settled_on :: "timeline_slice \<Rightarrow> history_list \<Rightarrow> bool" where
  "settled_on sl s \<longleftrightarrow>
     shown (hs_messages s) = shown (ts_items sl) \<and> hs_deferredReplaceSlice s = None
   \<or> hs_deferredReplaceSlice s = Some sl \<and> nothing_pending s
     \<and> hs_isLive s = ts_isLive sl \<and> hs_focusEventId s = ts_focusEventId sl"

lemma overlap_or_replace_shows:
  assumes "nothing_pending s" and "\<not> le_pinnedMode env" and "hs_deferredReplaceSlice s = None"
    and "hs_isLive s = ts_isLive sl" and "hs_focusEventId s = ts_focusEventId sl"
  shows "settled_on sl (fst (overlap_or_replace env sl s))"
    and "\<not> hs_scrolling s \<Longrightarrow> shown (hs_messages (fst (overlap_or_replace env sl s))) = shown (ts_items sl)"
proof -
  obtain s1 out fin where a: "applyOverlapUpdates env (ts_items sl) s = ((s1, out), fin)" by (metis prod.exhaust)
  note o = overlap_shows [OF a assms(1)]
  have "settled_on sl (fst (overlap_or_replace env sl s))
      \<and> (\<not> hs_scrolling s \<longrightarrow> shown (hs_messages (fst (overlap_or_replace env sl s))) = shown (ts_items sl))"
  proof (cases fin)
    case True
    then show ?thesis using o(2,4) assms(3) by (simp add: overlap_or_replace_def a settled_on_def)
  next
    case False
    then have "overlap_or_replace env sl s =
        (if \<not> hs_scrolling s \<or> \<not> ts_isLive sl then replaceSliceKeepingViewport env (ts_items sl) s1
         else (s1\<lparr>hs_deferredReplaceSlice := Some sl\<rparr>, out))"
      using o(3) by (simp add: overlap_or_replace_def a deferReplaceWhileScrolling_def)
    then show ?thesis
      using replace_shows [OF o(1) assms(2), of "ts_items sl"] o assms
      by (simp add: settled_on_def nothing_pending_def)
  qed
  then show "settled_on sl (fst (overlap_or_replace env sl s))"
    and "\<not> hs_scrolling s \<Longrightarrow> shown (hs_messages (fst (overlap_or_replace env sl s))) = shown (ts_items sl)"
    by blast+
qed

lemma append_plain:
  assumes "nothing_pending s"
  shows "nothing_pending (appendMessages env items s)"
    and "hs_deferredReplaceSlice s = None \<Longrightarrow> hs_deferredReplaceSlice (appendMessages env items s) = None"
    and "hs_isLive (appendMessages env items s) = hs_isLive s"
    and "hs_focusEventId (appendMessages env items s) = hs_focusEventId s"
proof -
  define ok where "ok t \<longleftrightarrow> nothing_pending t \<and> hs_deferredReplaceSlice t = None
      \<and> hs_isLive t = hs_isLive s \<and> hs_focusEventId t = hs_focusEventId s" for t
  have "ok (foldl append_one (s\<lparr>hs_deferredReplaceSlice := None\<rparr>) items)"
    by (rule foldl_keeps [of ok])
       (use assms in \<open>simp_all add: ok_def append_one_def Let_def case_prod_beta nothing_pending_def\<close>)
  then show "nothing_pending (appendMessages env items s)"
    and "hs_deferredReplaceSlice s = None \<Longrightarrow> hs_deferredReplaceSlice (appendMessages env items s) = None"
    and "hs_isLive (appendMessages env items s) = hs_isLive s"
    and "hs_focusEventId (appendMessages env items s) = hs_focusEventId s"
    using assms by (simp_all add: appendMessages_def Let_def ok_def nothing_pending_def)
qed

lemma prepend_plain:
  "nothing_pending (fst (prependMessages env items s)) = nothing_pending s"
  "hs_deferredReplaceSlice (fst (prependMessages env items s)) = None"
  "hs_isLive (fst (prependMessages env items s)) = hs_isLive s"
  "hs_focusEventId (fst (prependMessages env items s)) = hs_focusEventId s"
  by (simp_all add: prependMessages_def Let_def nothing_pending_def)

lemma add_edges_plain:
  assumes "nothing_pending s" and "hs_deferredReplaceSlice s = None"
  shows "nothing_pending (fst (add_edges env items f l s))"
    and "hs_deferredReplaceSlice (fst (add_edges env items f l s)) = None"
    and "hs_isLive (fst (add_edges env items f l s)) = hs_isLive s"
    and "hs_focusEventId (fst (add_edges env items f l s)) = hs_focusEventId s"
    and "hs_scrolling (fst (add_edges env items f l s)) = hs_scrolling s"
  using assms append_plain [of s] append_plain [of "fst (prependMessages env (take (nat f) items) s)"]
  by (simp_all add: add_edges_def Let_def case_prod_beta prepend_plain append_scrolling prepend_fields)

lemma slice_merge_shows:
  assumes "nothing_pending s" and "\<not> le_pinnedMode env" and "hs_deferredReplaceSlice s = None"
    and "hs_isLive s = ts_isLive sl" and "hs_focusEventId s = ts_focusEventId sl"
  shows "settled_on sl (fst (slice_merge env sl s))"
    and "\<not> hs_scrolling s \<Longrightarrow> shown (hs_messages (fst (slice_merge env sl s))) = shown (ts_items sl)"
proof -
  note e = add_edges_plain [OF assms(1,3), of env "ts_items sl"]
  have "settled_on sl (fst (overlap_or_replace env sl (fst (add_edges env (ts_items sl) f l s))))"
    "\<not> hs_scrolling s \<Longrightarrow>
       shown (hs_messages (fst (overlap_or_replace env sl (fst (add_edges env (ts_items sl) f l s))))) = shown (ts_items sl)" for f l
    using overlap_or_replace_shows [OF e(1) assms(2) e(2), of f l sl] e(3-5) assms by auto
  then show "settled_on sl (fst (slice_merge env sl s))"
    and "\<not> hs_scrolling s \<Longrightarrow> shown (hs_messages (fst (slice_merge env sl s))) = shown (ts_items sl)"
    using overlap_or_replace_shows [OF assms] by (simp_all add: slice_merge_def Let_def)
qed

lemma slice_applied_plain:
  "nothing_pending (slice_applied sl s) = nothing_pending s"
  "hs_deferredReplaceSlice (slice_applied sl s) = hs_deferredReplaceSlice s"
  "hs_isLive (slice_applied sl s) = ts_isLive sl" "hs_focusEventId (slice_applied sl s) = ts_focusEventId sl"
  "hs_scrolling (slice_applied sl s) = hs_scrolling s"
  by (simp_all add: slice_applied_def nothing_pending_def)

lemma setSlice_shows:
  assumes "nothing_pending s" and "\<not> le_pinnedMode env" and "hs_deferredReplaceSlice s = None"
    and "ts_updateKind sl = UpdateFull"
  shows "settled_on sl (fst (setSlice env sl s))"
    and "\<not> hs_scrolling s \<Longrightarrow> shown (hs_messages (fst (setSlice env sl s))) = shown (ts_items sl)"
proof -
  have "settled_on sl (fst (setSlice env sl s))
      \<and> (\<not> hs_scrolling s \<longrightarrow> shown (hs_messages (fst (setSlice env sl s))) = shown (ts_items sl))"
  proof (cases "modeChanged s sl \<or> hs_messages s = []")
    case True
    have "fst (setSlice env sl s) = setMessages env (ts_items sl) (slice_applied sl s)"
      using True by (auto simp: setSlice_def Let_def modeChanged_def slice_applied_def)
    then show ?thesis
      using setMessages_shows [of "slice_applied sl s" env "ts_items sl"] assms by (simp add: settled_on_def slice_applied_plain)
  next
    case False
    show ?thesis
      using slice_merge_shows [of "slice_applied sl s" env sl] assms
      unfolding setSlice_branches [OF False] by (simp add: slice_applied_plain)
  qed
  then show "settled_on sl (fst (setSlice env sl s))"
    and "\<not> hs_scrolling s \<Longrightarrow> shown (hs_messages (fst (setSlice env sl s))) = shown (ts_items sl)" by blast+
qed



subsection \<open>The reader keeps the place\<close>

text \<open>Where the bubble of row \<open>i\<close> begins, in the coordinates of the widget, and the first row that
  reaches below the upper edge of the viewport.\<close>

definition message_top :: "history_list \<Rightarrow> nat \<Rightarrow> int" where
  "message_top s i = li_messageY (hl_layout (hs_view s) ! i) + hl_contentOffset (hs_view s)"

definition row_bottom :: "history_list \<Rightarrow> nat \<Rightarrow> int" where
  "row_bottom s i = li_y (hl_layout (hs_view s) ! i) + hl_contentOffset (hs_view s) + li_height (hl_layout (hs_view s) ! i)"

definition first_visible :: "history_list \<Rightarrow> nat \<Rightarrow> bool" where
  "first_visible s i \<longleftrightarrow> i < length (hs_messages s) \<and> hs_scrollTop s < row_bottom s i
     \<and> (0 < i \<longrightarrow> row_bottom s (i - 1) \<le> hs_scrollTop s)"

lemma first_past_unique:
  assumes "i < n" and "\<not> before i" and "0 < i \<Longrightarrow> before (i - 1)"
    and down: "\<And>j k. j \<le> k \<Longrightarrow> k < n \<Longrightarrow> before k \<Longrightarrow> before j"
  shows "first_past before 0 n = i"
proof -
  define r where "r = first_past before 0 n"
  have r: "r \<le> n" "\<forall>j < r. before j" "r < n \<longrightarrow> \<not> before r"
    using first_past_spec [of 0 n n before] down by (auto simp: r_def)
  have "\<not> i < r" using r(2) assms(2) by blast
  moreover have "\<not> r < i"
  proof
    assume "r < i"
    then have "before r" using down [of r "i - 1"] assms(1,3) by simp
    then show False using r(3) \<open>r < i\<close> assms(1) by simp
  qed
  ultimately show ?thesis by (simp add: r_def)
qed

lemma anchor_saved:
  assumes "list_inv env s" and "sizes_ok env" and "first_visible s i"
  shows "hs_scrollAnchorEventId (saveScrollAnchor [] s) = ti_eventId (hs_messages s ! i)"
    and "hs_scrollAnchorPixelOffset (saveScrollAnchor [] s) = message_top s i - hs_scrollTop s"
proof -
  define rows where "rows = hl_layout (hs_view s)"
  have ok: "layout_ok env (hs_view s)" using assms(1) by (simp add: list_inv_def)
  have len: "length rows = length (hs_messages s)" using layout_okD(2) [OF ok] by (simp add: rows_def)
  define before where "before = (\<lambda>mid. li_y (rows ! mid) + hl_contentOffset (hs_view s) + li_height (rows ! mid) \<le> hs_scrollTop s)"
  have "first_past before 0 (length rows) = i"
  proof (rule first_past_unique)
    show "before j" if "j \<le> k" "k < length rows" "before k" for j k
      using rows_below_down(3) [OF ok assms(2) that(1)] that len by (simp add: before_def rows_def)
  qed (use assms(3) len in \<open>auto simp: before_def first_visible_def row_bottom_def rows_def\<close>)
  moreover have "i < length (hs_messages s)" using assms(3) by (simp add: first_visible_def)
  ultimately show "hs_scrollAnchorEventId (saveScrollAnchor [] s) = ti_eventId (hs_messages s ! i)"
    and "hs_scrollAnchorPixelOffset (saveScrollAnchor [] s) = message_top s i - hs_scrollTop s"
    using len unfolding before_def rows_def
    by (simp_all add: saveScrollAnchor_def Let_def message_top_def)
qed

lemma index_of_nth:
  assumes "mirrors (ids msgs) mi" and "ids_ok (ids msgs)" and "j < length msgs"
  shows "mi_physicalIndexOf mi (ti_eventId (msgs ! j)) = int j"
proof -
  have "ti_eventId (msgs ! j) \<in> set (ids msgs)" using assms(3) by (simp add: ids_def)
  then have "position_from 0 (ids msgs) (ti_eventId (msgs ! j)) \<noteq> None"
    using assms(2) by (auto simp: position_from_None ids_ok_def)
  then have "\<not> mi_physicalIndexOf mi (ti_eventId (msgs ! j)) < 0"
    using assms(1) position_from_nth [of 0 "ids msgs" "ti_eventId (msgs ! j)"]
    by (auto simp: mirrors_def position_of_def)
  from index_found [OF assms(1) this] obtain i where i: "mi_physicalIndexOf mi (ti_eventId (msgs ! j)) = int i"
    "i < length msgs" "ti_eventId (msgs ! i) = ti_eventId (msgs ! j)" by metis
  have "ids msgs ! i = ids msgs ! j" using i assms(3) by (simp add: ids_def)
  then have "i = j" using assms(2,3) i(2) by (simp add: ids_ok_def nth_eq_iff_index_eq)
  then show ?thesis using i(1) by simp
qed

lemma setMessages_ids: "ids (hs_messages (setMessages env items s)) = ids items"
  by (simp add: setMessages_def Let_def case_prod_beta rebuildMessageIndex_def)

lemma setMessages_anchor:
  "hs_scrollAnchorEventId (setMessages env items s) = hs_scrollAnchorEventId s"
  "hs_scrollAnchorPixelOffset (setMessages env items s) = hs_scrollAnchorPixelOffset s"
  by (simp_all add: setMessages_def Let_def case_prod_beta rebuildMessageIndex_def)


subsection \<open>An example\<close>

definition demo_slice :: "timeline_item list \<Rightarrow> timeline_slice" where
  "demo_slice items = default_timeline_slice\<lparr>ts_items := items, ts_updateKind := UpdateFull, ts_isLive := True\<rparr>"

definition demo_list :: "timeline_item list \<Rightarrow> history_list" where
  "demo_list items = fst (setSlice demo_env (demo_slice items) (initial_list demo_env))"

definition demo_echo :: timeline_item where
  "demo_echo = (demo_message ''~t'' ''@me'' 30)\<lparr>ti_delivery :=
     \<lparr> del_sendState = Sending, del_uploadProgress = -1, del_outgoing = True, del_deleted = False \<rparr>\<rparr>"

lemma demo_heights: "heights_reported demo_env"
  by (simp add: heights_reported_def demo_env_def)




definition demo_window :: "timeline_item list" where
  "demo_window = map (\<lambda>k. demo_message [CHR ''$'', char_of (65 + k)] ''@x'' (int k)) [0..<30]"

lemma demo_list_inv: "ids_ok (ids items) \<Longrightarrow> list_inv demo_env (demo_list items)"
  using setMessages_inv [of items demo_env]
  by (simp add: demo_list_def demo_slice_def setSlice_def Let_def initial_list_def)



section \<open>Where it does not hold\<close>

text \<open>A vote given here and not yet confirmed.  A slice that replaces the list shows the vote again;
  a slice merged in place takes it off the screen, with the vote still waiting.\<close>

definition demo_poll :: timeline_item where
  "demo_poll = (demo_message ''$p'' ''@x'' 10)\<lparr>ti_content := PollContent
     \<lparr> poll_question = ''?'', poll_subtitle = [],
       poll_options = map (\<lambda>k. \<lparr> po_id = k, po_text = k, po_voteCount = 0, po_votePercent = 0,
                                  po_filling = 0, po_isChosen = False, po_isCorrect = False \<rparr>) [''1'', ''2''],
       poll_totalVoters = 0, poll_maxSelections = 1, poll_isClosed = False, poll_isMultiChoice = False,
       poll_isQuiz = False, poll_hasVoted = False,
       poll_kindOf = PollDisclosed \<rparr>\<rparr>"

theorem pending_vote_taken_off_screen:
  "let voted = fst (setPollSelectionLocally 0 [''2''] (demo_list [demo_poll]));
       merged = fst (setSlice demo_env (demo_slice [demo_poll]) voted);
       replaced = setMessages demo_env [demo_poll] voted
   in selectedPollOptionIds (hd (hs_messages voted)) = [''2'']
    \<and> selectedPollOptionIds (hd (hs_messages merged)) = []
    \<and> hash_value [] ''$p'' (hs_pendingPollSelections merged) = [''2'']
    \<and> selectedPollOptionIds (hd (hs_messages replaced)) = [''2'']"
  by code_simp

text \<open>A slice put aside while scrolling is dropped by the next append, not only by a replacement: the
  message that slice brought is then missing.  Here the window moves from \<open>a, b\<close> to \<open>b, c\<close> during a
  scroll, then \<open>d\<close> is appended.\<close>

theorem append_drops_deferred_slice:
  "let msg = (\<lambda>e. demo_message e ''@x'' 10);
       scrolling = (demo_list [msg ''$a'', msg ''$b''])\<lparr>hs_scrolling := True\<rparr>;
       moved = fst (setSlice demo_env (demo_slice [msg ''$b'', msg ''$c'']) scrolling);
       appended = fst (setSlice demo_env ((demo_slice [msg ''$d''])\<lparr>ts_updateKind := UpdateAppend, ts_updateIndex := 2\<rparr>) moved)
   in hs_deferredReplaceSlice moved = Some (demo_slice [msg ''$b'', msg ''$c''])
    \<and> map ti_eventId (hs_messages (fst (scrollSettled demo_env appended))) = [''$a'', ''$b'', ''$d'']"
  by code_simp

text \<open>A slice put aside is not dropped by a later slice that could be merged in place, so the settled
  list shows the older of the two.\<close>

theorem settled_on_older_slice:
  "let msg = (\<lambda>e t. demo_message e ''@x'' t);
       scrolling = (demo_list [msg ''$a'' 10, msg ''$b'' 10])\<lparr>hs_scrolling := True\<rparr>;
       older = demo_slice [msg ''$b'' 10, msg ''$c'' 10];
       newer = demo_slice [msg ''$a'' 10, msg ''$b'' 20];
       settled = fst (scrollSettled demo_env (fst (setSlice demo_env newer (fst (setSlice demo_env older scrolling)))))
   in hs_messages settled = ts_items older"
  by code_simp

text \<open>\<open>setMessagePinState\<close> relays the list out because a bubble's footer is wider once it is pinned,
  but the height remembered for the bubble stands.\<close>

definition pin_env :: layout_env where
  "pin_env = demo_env\<lparr>le_bubbleHeight := \<lambda>msg w above. if ti_isPinned msg then 40 else 20\<rparr>"

theorem pinned_bubble_keeps_old_height:
  "let s = setMessages pin_env [demo_message ''$a'' ''@x'' 10] (initial_list pin_env);
       pinned = setMessagePinState pin_env ''$a'' True s
   in li_messageHeight (hd (hl_layout (hs_view pinned))) = 28
    \<and> li_messageHeight (hd (hl_layout (recalculateLayout pin_env ((hs_view pinned)\<lparr>hl_layout := []\<rparr>)))) = 48"
  by code_simp

text \<open>A page of history is prepended without the votes and the counts an append gets: a message being
  sent that comes with it is not counted.\<close>

theorem prepend_skips_sending_count:
  "let s = fst (prependMessages demo_env [demo_echo] (demo_list [demo_message ''$a'' ''@x'' 40]))
   in hs_sendingCount s = 0 \<and> count_sending (hs_messages s) = 1"
  by code_simp

end
