(* ===== verification/List_Reactions.thy ===== *)
theory List_Reactions imports List_Properties begin

section \<open>Reactions given here\<close>

text \<open>
  \<open>HistoryList::applyReactionLocally\<close> and \<open>applyReactionUpdates\<close>
  (\<^verbatim>\<open>src/src/history/history_list.cpp\<close>): a reaction is shown before the server has it, and the
  one row is measured again, the rows below it moved.
\<close>

record reaction_result =
  rr_changed :: bool
  rr_heightDelta :: int
  rr_messageY :: int

definition no_reaction :: reaction_result where
  "no_reaction = \<lparr> rr_changed = False, rr_heightDelta = 0, rr_messageY = 0 \<rparr>"

text \<open>The row is measured at the width of the widget, which is the width of its context outside the
  list of pinned messages (where nothing can be reacted to).\<close>

definition measured_height :: "layout_env \<Rightarrow> timeline_item \<Rightarrow> layout_item \<Rightarrow> int" where
  "measured_height env msg row =
     le_bubbleHeight env msg (le_width env) (li_sameSenderAbove row)
   + (if li_sameSenderAbove row then kMarginTopAttached (le_metrics env) else kMarginTop (le_metrics env))
   + kMarginBottom (le_metrics env)"

definition measure_row :: "layout_env \<Rightarrow> timeline_item \<Rightarrow> layout_item \<Rightarrow> layout_item" where
  "measure_row env msg row =
     row\<lparr>li_cachedBubbleHeight := le_bubbleHeight env msg (le_width env) (li_sameSenderAbove row),
         li_cachedWidth := le_width env,
         li_cachedSameSenderAbove := li_sameSenderAbove row,
         li_messageHeight := measured_height env msg row,
         li_height := li_height row + (measured_height env msg row - li_messageHeight row)\<rparr>"

text \<open>The row and what follows it; the rows are returned as they are before the group bounds are set.\<close>

definition remeasure :: "layout_env \<Rightarrow> timeline_item \<Rightarrow> nat \<Rightarrow> layout_item list \<Rightarrow> layout_item list" where
  "remeasure env msg i rows =
     take i rows @ measure_row env msg (rows ! i)
       # map (shift_row (measured_height env msg (rows ! i) - li_messageHeight (rows ! i))) (drop (Suc i) rows)"

definition applyReactionLocally ::
  "layout_env \<Rightarrow> qstring \<Rightarrow> qstring \<Rightarrow> bool \<Rightarrow> history_list \<Rightarrow> history_list \<times> reaction_result" where
  "applyReactionLocally env event key active s =
     (if event = [] \<or> key = [] then (s, no_reaction)
      else let idx = mi_physicalIndexOf (hs_index s) event
           in if idx < 0 \<or> int (length (hs_messages s)) \<le> idx then (s, no_reaction)
              else let i = nat idx; view = hs_view s; old = hl_layout view;
                       (reactions, changed) = applyReactionChange (ti_reactions (hs_messages s ! i)) key active
                   in if \<not> changed then (s, no_reaction)
                      else let msg = (hs_messages s ! i)\<lparr>ti_reactions := reactions\<rparr>;
                               known = i < length old;
                               oldY = (if known then li_messageY (old ! i) + hl_contentOffset view else 0);
                               oldHeight = (if known then li_messageHeight (old ! i) else 0);
                               rows = (if known then updateSenderGroupBounds 0 (remeasure env msg i old) else old);
                               height = (if known then hl_totalHeight view + (measured_height env msg (old ! i) - oldHeight)
                                         else hl_totalHeight view);
                               newHeight = (if known then li_height (rows ! i) else 0)
                           in (with_view env (view\<lparr>hl_messages := (hs_messages s)[i := msg], hl_layout := rows,
                                                   hl_totalHeight := height,
                                                   hl_contentOffset := max 0 (le_visibleHeight env - height)\<rparr>)
                                 (s\<lparr>hs_pendingReactionEventIds := insert event (hs_pendingReactionEventIds s)\<rparr>),
                               \<lparr> rr_changed = True, rr_heightDelta = newHeight - oldHeight, rr_messageY = oldY \<rparr>))"

text \<open>\<open>applyReactionUpdates\<close>: the loop over the rows, with the scroll correction so far and whether any
  message, and any height, has changed.\<close>

fun reaction_updates ::
  "layout_env \<Rightarrow> int \<Rightarrow> nat \<Rightarrow> timeline_item list \<Rightarrow> history_layout \<times> int \<times> bool \<times> bool
     \<Rightarrow> history_layout \<times> int \<times> bool \<times> bool" where
  "reaction_updates env scrollTop i [] acc = acc"
| "reaction_updates env scrollTop i (incoming # items) (view, scrollDelta, anyChanged, boundsChanged) =
     (if length (hl_messages view) \<le> i then (view, scrollDelta, anyChanged, boundsChanged)
      else if ti_reactions (hl_messages view ! i) = ti_reactions incoming
      then reaction_updates env scrollTop (i + 1) items (view, scrollDelta, anyChanged, boundsChanged)
      else let msg = (hl_messages view ! i)\<lparr>ti_reactions := ti_reactions incoming\<rparr>;
               view1 = view\<lparr>hl_messages := (hl_messages view)[i := msg]\<rparr>;
               rows = hl_layout view
           in if length rows \<le> i then reaction_updates env scrollTop (i + 1) items (view1, scrollDelta, True, boundsChanged)
              else let delta = measured_height env msg (rows ! i) - li_messageHeight (rows ! i)
                   in reaction_updates env scrollTop (i + 1) items
                        (view1\<lparr>hl_layout := remeasure env msg i rows,
                               hl_totalHeight := hl_totalHeight view + delta\<rparr>,
                         (if delta \<noteq> 0 \<and> li_messageY (rows ! i) + hl_contentOffset view < scrollTop
                          then scrollDelta + delta else scrollDelta), True, boundsChanged \<or> delta \<noteq> 0))"

definition applyReactionUpdates ::
  "layout_env \<Rightarrow> timeline_item list \<Rightarrow> int \<Rightarrow> history_list \<Rightarrow> history_list \<times> int" where
  "applyReactionUpdates env incoming scrollTop s =
     (let (view, scrollDelta, anyChanged, boundsChanged) =
            reaction_updates env scrollTop 0 incoming (hs_view s, 0, False, False)
      in if \<not> anyChanged then (s, 0)
         else (with_view env (if boundsChanged then view\<lparr>hl_layout := updateSenderGroupBounds 0 (hl_layout view)\<rparr>
                              else view) s, scrollDelta))"

subsection \<open>Measuring one row is enough\<close>

definition same_but_height :: "layout_env \<Rightarrow> qstring \<Rightarrow> timeline_item \<Rightarrow> timeline_item \<Rightarrow> bool" where
  "same_but_height env fu a b \<longleftrightarrow>
     isService a = isService b \<and> msgDate env a = msgDate env b \<and> atUnreadBar fu a = atUnreadBar fu b
   \<and> snd_id (ti_sender a) = snd_id (ti_sender b)"

definition taller :: "int \<Rightarrow> layout_item \<Rightarrow> layout_item" where
  "taller d row = row\<lparr>li_messageHeight := li_messageHeight row + d, li_height := li_height row + d\<rparr>"

lemma same_but_height_next:
  assumes "same_but_height env fu a b"
  shows "sameSenderNext env fu m a = sameSenderNext env fu m b" "sameSenderNext env fu a m = sameSenderNext env fu b m"
    "groupSender a = groupSender b"
  using assms by (auto simp: same_but_height_def sameSenderNext_def groupSender_def)

lemma spec_row_taller:
  assumes "same_but_height env fu a b"
  shows "spec_row env fu pd ps y b n =
     taller (le_bubbleHeight env b (messageContextWidth env) (li_sameSenderAbove (spec_row env fu pd ps y a n))
             - le_bubbleHeight env a (messageContextWidth env) (li_sameSenderAbove (spec_row env fu pd ps y a n)))
       (spec_row env fu pd ps y a n)"
proof -
  have geo_taller: "geo (taller d x) = taller d (geo x)" for d x by (simp add: taller_def geo_def nocache_def)
  have n: "(case n of None \<Rightarrow> False | Some m' \<Rightarrow> sameSenderNext env fu b m')
      = (case n of None \<Rightarrow> False | Some m' \<Rightarrow> sameSenderNext env fu a m')"
    using same_but_height_next(2) [OF assms] by (cases n) simp_all
  show ?thesis
    unfolding spec_row_def geo_taller [symmetric] lay_row_def using assms
    by (intro geo_eqI) (simp_all add: taller_def preMessageHeight_def rowHeight_def same_but_height_def n)
qed

lemma spec_rows_taller:
  assumes "same_but_height env fu (ms ! i) b" and "i < length ms"
    and "row = spec_rows env fu pd ps y ms ! i"
    and "d = le_bubbleHeight env b (messageContextWidth env) (li_sameSenderAbove row)
           - le_bubbleHeight env (ms ! i) (messageContextWidth env) (li_sameSenderAbove row)"
  shows "spec_rows env fu pd ps y (ms[i := b]) =
     take i (spec_rows env fu pd ps y ms) @ taller d row # map (shift_row d) (drop (Suc i) (spec_rows env fu pd ps y ms))"
  using assms
proof (induction ms arbitrary: i pd ps y row d)
  case (Cons m ms)
  show ?case
  proof (cases i)
    case 0
    have same: "same_but_height env fu m b" using Cons.prems(1) 0 by simp
    then have next_row: "msgDate env b = msgDate env m" "groupSender b = groupSender m"
      using same_but_height_next(3) [OF same] by (simp_all add: same_but_height_def)
    have h: "y + li_height (taller d row) = y + li_height row + d" by (simp add: taller_def)
    have row: "row = spec_row env fu pd ps y m (next_of ms)" using Cons.prems(3) 0 by (simp add: Let_def)
    have "spec_row env fu pd ps y b (next_of ms) = taller d row"
      unfolding Cons.prems(4) row using spec_row_taller [OF same] 0 by simp
    then show ?thesis
      by (simp add: 0 Let_def next_row h spec_rows_shift row [symmetric] del: spec_rows_shift)
         (simp add: spec_rows_shift h)
  next
    case (Suc j)
    have same: "same_but_height env fu (ms ! j) b" and j: "j < length ms" using Cons.prems(1,2) Suc by simp_all
    define head where "head = spec_row env fu pd ps y m (next_of ms)"
    have "next_of (ms[j := b]) = (if j = 0 then Some b else next_of ms)" "next_of ms = Some (hd ms)"
      using j by (cases ms; cases j; simp)+
    moreover have "j = 0 \<Longrightarrow> sameSenderNext env fu m b = sameSenderNext env fu m (hd ms)"
      using same_but_height_next(1) [OF same, of m] j by (cases ms) simp_all
    ultimately have head': "spec_row env fu pd ps y m (next_of (ms[j := b])) = head"
      unfolding head_def by (subst (1 2) spec_row_below) (simp split: if_splits)
    have "row = spec_rows env fu (Some (msgDate env m)) (groupSender m) (y + li_height head) ms ! j"
      using Cons.prems(3) Suc by (simp add: Let_def head_def)
    from Cons.IH [OF same j this] Cons.prems(4)
    show ?thesis by (simp add: Suc Let_def head' head_def [symmetric])
  qed
qed simp


lemma row_height_of:
  assumes "layout_ok env v" and "i < length (hl_messages v)"
  shows "li_messageHeight (rows_of env v ! i) = rowHeight env (hl_messages v ! i) (rows_of env v ! i)"
proof -
  have "li_messageHeight (spec_rows env fu pd ps y ms ! i) = rowHeight env (ms ! i) (spec_rows env fu pd ps y ms ! i)"
    if "i < length ms" for fu pd ps y ms i
    using that
  proof (induction ms arbitrary: pd ps y i)
    case (Cons m ms)
    have "li_messageHeight (spec_row env fu pd ps y m n) = rowHeight env m (spec_row env fu pd ps y m n)" for n
      by (simp add: spec_row_def lay_row_def rowHeight_def)
    then show ?case using Cons by (cases i) (simp_all add: Let_def)
  qed simp
  then show ?thesis using assms(2) by (simp add: rows_of_def)
qed

lemma geo_measured:
  "geo (measure_row env m row) = taller (measured_height env m row - li_messageHeight row) (geo row)"
  by (simp add: geo_def nocache_def taller_def measure_row_def)

text \<open>The measured rows are those of a layout from scratch, for a list that is laid out.\<close>

lemma remeasure_rows:
  assumes "layout_ok env v" and "i < length (hl_messages v)" and "\<not> le_pinnedMode env"
    and "same_but_height env (hl_firstUnreadEventId v) (hl_messages v ! i) m"
  shows "map geo (remeasure env m i (hl_layout v)) = rows_of env (v\<lparr>hl_messages := (hl_messages v)[i := m]\<rparr>)"
proof -
  define fu where "fu = hl_firstUnreadEventId v"
  define rows where "rows = rows_of env v"
  define row where "row = rows ! i"
  note ok = layout_okD [OF assms(1)]
  have geo: "map geo (hl_layout v) = rows" by (simp add: ok(1) rows_def)
  have i: "i < length (hl_layout v)" using assms(2) ok(2) by simp
  have row: "geo (hl_layout v ! i) = row" using arg_cong [OF geo, of "\<lambda>xs. xs ! i"] i by (simp add: row_def)
  have width: "messageContextWidth env = le_width env" using assms(3) by (simp add: messageContextWidth_def)
  have top: "top_indicator (v\<lparr>hl_messages := (hl_messages v)[i := m]\<rparr>) = top_indicator v"
    using assms(2) by (auto simp: top_indicator_def)
  have height: "li_messageHeight row = rowHeight env (hl_messages v ! i) row"
    using row_height_of [OF assms(1,2)] row_def rows_def by simp
  define d where "d = le_bubbleHeight env m (le_width env) (li_sameSenderAbove row)
      - le_bubbleHeight env (hl_messages v ! i) (le_width env) (li_sameSenderAbove row)"
  have d: "measured_height env m (hl_layout v ! i) - li_messageHeight (hl_layout v ! i) = d"
    using arg_cong [OF row, of li_sameSenderAbove] arg_cong [OF row, of li_messageHeight] height
    by (simp add: measured_height_def d_def rowHeight_def width)
  have "rows_of env (v\<lparr>hl_messages := (hl_messages v)[i := m]\<rparr>)
      = take i rows @ taller d row # map (shift_row d) (drop (Suc i) rows)"
    unfolding rows_of_def top using spec_rows_taller [OF assms(4,2), of row None "[]" "top_indicator v" d]
    by (simp add: rows_of_def rows_def row_def d_def width)
  also have "\<dots> = map geo (remeasure env m i (hl_layout v))"
  proof -
    have "map geo (map (shift_row d) xs) = map (shift_row d) (map geo xs)" for xs by (simp add: geo_shift)
    then show ?thesis
      unfolding remeasure_def d map_append list.map(2) geo_measured row
      by (simp add: geo [symmetric] take_map drop_map del: map_map)
  qed
  finally show ?thesis ..
qed


lemma remeasure_caches:
  assumes "list_all2 (cache_ok env) msgs rows" and "\<not> le_pinnedMode env" and "i < length msgs"
  shows "list_all2 (cache_ok env) (msgs[i := m]) (remeasure env m i rows)"
proof -
  have width: "messageContextWidth env = le_width env" using assms(2) by (simp add: messageContextWidth_def)
  have "cache_ok env m (measure_row env m (rows ! i))" by (simp add: cache_ok_def measure_row_def width)
  moreover have "list_all2 (cache_ok env) (drop (Suc i) msgs) (map (shift_row d) (drop (Suc i) rows))" for d
    using list_all2_dropI [OF assms(1), of "Suc i"] by (simp add: list_all2_map2)
  moreover have "list_all2 (cache_ok env) (take i msgs) (take i rows)" using assms(1) by (rule list_all2_takeI)
  ultimately have "list_all2 (cache_ok env) (take i msgs @ m # drop (Suc i) msgs) (remeasure env m i rows)"
    unfolding remeasure_def by (intro list_all2_appendI list.rel_intros(2))
  then show ?thesis unfolding upd_conv_take_nth_drop [OF assms(3)] .
qed

lemma heights_append_update:
  "i < length rows \<Longrightarrow> heights (take i rows @ taller d (rows ! i) # map (shift_row d') (drop (Suc i) rows)) = heights rows + d"
  using arg_cong [OF id_take_nth_drop [of i rows], of heights] by (simp add: taller_def)

lemma remeasure_height:
  assumes "i < length rows"
  shows "heights (remeasure env m i rows) = heights rows + (measured_height env m (rows ! i) - li_messageHeight (rows ! i))"
  using arg_cong [OF id_take_nth_drop [OF assms], of heights] by (simp add: remeasure_def measure_row_def)

lemma remeasured_layout:
  assumes "layout_ok env v" and "i < length (hl_messages v)" and "\<not> le_pinnedMode env"
    and "same_but_height env (hl_firstUnreadEventId v) (hl_messages v ! i) m"
    and "h = hl_totalHeight v + (measured_height env m (hl_layout v ! i) - li_messageHeight (hl_layout v ! i))"
  shows "layout_ok env (v\<lparr>hl_messages := (hl_messages v)[i := m],
           hl_layout := updateSenderGroupBounds 0 (remeasure env m i (hl_layout v)),
           hl_totalHeight := h, hl_contentOffset := max 0 (le_visibleHeight env - h)\<rparr>)"
proof -
  define w where "w = v\<lparr>hl_messages := (hl_messages v)[i := m]\<rparr>"
  define items where "items = remeasure env m i (hl_layout v)"
  note ok = layout_okD [OF assms(1)]
  have i: "i < length (hl_layout v)" using assms(2) ok(2) by simp
  have geo: "map geo items = rows_of env w"
    unfolding items_def w_def by (rule remeasure_rows [OF assms(1-4)])
  have "heights (hl_layout v) = heights (rows_of env v)" using heights_simps(4) [of "hl_layout v"] by (simp add: ok(1))
  moreover have "heights items = heights (rows_of env w)" using heights_simps(4) [of items] by (simp add: geo)
  moreover have "hl_totalHeight v = top_indicator v + heights (rows_of env v) + kBottomPadding"
    using assms(2) by (intro ok(3)) auto
  moreover have "top_indicator w = top_indicator v" using assms(2) by (auto simp: w_def top_indicator_def)
  ultimately have h: "h = top_indicator w + heights (rows_of env w) + kBottomPadding"
    using remeasure_height [OF i, of env m] by (simp add: assms(5) items_def)
  have dates: "hl_dateIndices v = date_indices 0 items"
  proof -
    have "hl_dateIndices v = date_indices 0 (rows_of env v)"
    proof -
      have "drop_caches v = reference_layout env v" using assms(1) by (simp add: layout_ok_def)
      from arg_cong [OF this, of hl_dateIndices] show ?thesis
        by (simp add: drop_caches_def reference_layout_def finish_layout_def Let_def)
    qed
    moreover have "date_indices 0 (map geo (hl_layout v)) = date_indices 0 (map geo items)"
    proof -
      have shown: "date_indices k (map (shift_row d) xs) = date_indices k xs" for k d xs
        by (induction xs arbitrary: k) (simp_all add: shift_row_def)
      have split: "date_indices k (xs @ ys) = date_indices k xs @ date_indices (k + int (length xs)) ys" for k xs ys
        by (induction xs arbitrary: k) (simp_all add: add.assoc [symmetric] add.commute)
      have "date_indices 0 (take i (hl_layout v) @ hl_layout v ! i # drop (Suc i) (hl_layout v)) = date_indices 0 items"
        by (simp add: items_def remeasure_def split shown measure_row_def)
      then show ?thesis using id_take_nth_drop [OF i] by simp
    qed
    ultimately show ?thesis by (simp add: ok(1))
  qed
  have "layout_ok env (finish_layout env w items (top_indicator w + heights (rows_of env w)))"
    using geo remeasure_caches [OF ok(4) assms(3,2)] by (intro finish_layout_ok) (simp_all add: w_def items_def)
  moreover have "hl_messages w \<noteq> []" using assms(2) by (auto simp: w_def)
  then have "finish_layout env w items (top_indicator w + heights (rows_of env w))
      = v\<lparr>hl_messages := (hl_messages v)[i := m], hl_layout := updateSenderGroupBounds 0 items,
          hl_totalHeight := h, hl_contentOffset := max 0 (le_visibleHeight env - h)\<rparr>"
    unfolding finish_layout_def Let_def h by (simp add: w_def dates)
  ultimately show ?thesis by (simp add: items_def)
qed


text \<open>The result of a reaction to the message in row \<open>i\<close>.\<close>

lemma reaction_step:
  assumes inv: "list_inv env s" and i: "mi_physicalIndexOf (hs_index s) event = int i"
    and change: "applyReactionChange (ti_reactions (hs_messages s ! i)) key active = (reactions, True)"
    and key: "event \<noteq> []" "key \<noteq> []" and len: "i < length (hs_messages s)"
    and m: "m = (hs_messages s ! i)\<lparr>ti_reactions := reactions\<rparr>"
    and h: "h = hl_totalHeight (hs_view s) + (measured_height env m (hl_layout (hs_view s) ! i)
                - li_messageHeight (hl_layout (hs_view s) ! i))"
  shows "fst (applyReactionLocally env event key active s) =
      with_view env ((hs_view s)\<lparr>hl_messages := (hs_messages s)[i := m],
          hl_layout := updateSenderGroupBounds 0 (remeasure env m i (hl_layout (hs_view s))),
          hl_totalHeight := h, hl_contentOffset := max 0 (le_visibleHeight env - h)\<rparr>)
        (s\<lparr>hs_pendingReactionEventIds := insert event (hs_pendingReactionEventIds s)\<rparr>)"
    and "snd (applyReactionLocally env event key active s) =
      \<lparr> rr_changed = True,
        rr_heightDelta = li_height (updateSenderGroupBounds 0 (remeasure env m i (hl_layout (hs_view s))) ! i)
          - li_messageHeight (hl_layout (hs_view s) ! i),
        rr_messageY = li_messageY (hl_layout (hs_view s) ! i) + hl_contentOffset (hs_view s) \<rparr>"
proof -
  have "i < length (hl_layout (hs_view s))" using inv len layout_okD(2) [of env "hs_view s"] by (simp add: list_inv_def)
  then show "fst (applyReactionLocally env event key active s) =
      with_view env ((hs_view s)\<lparr>hl_messages := (hs_messages s)[i := m],
          hl_layout := updateSenderGroupBounds 0 (remeasure env m i (hl_layout (hs_view s))),
          hl_totalHeight := h, hl_contentOffset := max 0 (le_visibleHeight env - h)\<rparr>)
        (s\<lparr>hs_pendingReactionEventIds := insert event (hs_pendingReactionEventIds s)\<rparr>)"
    and "snd (applyReactionLocally env event key active s) =
      \<lparr> rr_changed = True,
        rr_heightDelta = li_height (updateSenderGroupBounds 0 (remeasure env m i (hl_layout (hs_view s))) ! i)
          - li_messageHeight (hl_layout (hs_view s) ! i),
        rr_messageY = li_messageY (hl_layout (hs_view s) ! i) + hl_contentOffset (hs_view s) \<rparr>"
    using len key unfolding applyReactionLocally_def Let_def i nat_int change
    by (simp_all add: h m)
qed

lemma length_group_bounds: "length (updateSenderGroupBounds i xs) = length xs"
  by (rule map_eq_imp_length_eq [OF geo_group_bounds])

lemma reaction_row:
  assumes "list_inv env s" and "rr_changed (snd (applyReactionLocally env event key active s))"
  obtains i reactions where "mi_physicalIndexOf (hs_index s) event = int i" "i < length (hs_messages s)"
    "event \<noteq> []" "key \<noteq> []" "ti_eventId (hs_messages s ! i) = event"
    "applyReactionChange (ti_reactions (hs_messages s ! i)) key active = (reactions, True)"
proof -
  let ?idx = "mi_physicalIndexOf (hs_index s) event"
  have guards: "event \<noteq> []" "key \<noteq> []" "\<not> (?idx < 0 \<or> int (length (hs_messages s)) \<le> ?idx)"
    "snd (applyReactionChange (ti_reactions (hs_messages s ! nat ?idx)) key active)"
    using assms(2) by (auto simp: applyReactionLocally_def no_reaction_def Let_def case_prod_beta split: if_splits)
  have "mirrors (ids (hs_messages s)) (hs_index s)" using assms(1) by (simp add: list_inv_def)
  from index_found [OF this] obtain i where i: "?idx = int i" "i < length (hs_messages s)"
    "ti_eventId (hs_messages s ! i) = event" using guards(3) by auto
  show thesis
    using guards i by (intro that [of i "fst (applyReactionChange (ti_reactions (hs_messages s ! i)) key active)"])
      (simp_all add: prod_eq_iff)
qed

lemma unchanged_reaction:
  "\<not> rr_changed (snd (applyReactionLocally env event key active s)) \<Longrightarrow>
   fst (applyReactionLocally env event key active s) = s"
proof -
  have "fst (applyReactionLocally env event key active s) = s \<or> rr_changed (snd (applyReactionLocally env event key active s))"
    unfolding applyReactionLocally_def Let_def case_prod_beta by (simp split: if_split)
  then show "\<not> rr_changed (snd (applyReactionLocally env event key active s)) \<Longrightarrow>
    fst (applyReactionLocally env event key active s) = s" by blast
qed

text \<open>A reaction given here measures one row and moves the rest, and that is enough: the list is
  laid out as a pass from scratch would, and stays consistent.\<close>

theorem reaction_keeps_list_consistent:
  assumes "list_inv env s" and "\<not> le_pinnedMode env"
  shows "list_inv env (fst (applyReactionLocally env event key active s))"
proof (cases "rr_changed (snd (applyReactionLocally env event key active s))")
  case True
  obtain i reactions where i: "mi_physicalIndexOf (hs_index s) event = int i" "i < length (hs_messages s)"
    "event \<noteq> []" "key \<noteq> []" "ti_eventId (hs_messages s ! i) = event"
    "applyReactionChange (ti_reactions (hs_messages s ! i)) key active = (reactions, True)"
    by (rule reaction_row [OF assms(1) True])
  note ok = assms(1) [unfolded list_inv_def]
  define m where "m = (hs_messages s ! i)\<lparr>ti_reactions := reactions\<rparr>"
  have same: "same_but_height env (hl_firstUnreadEventId (hs_view s)) (hs_messages s ! i) m"
    by (simp add: same_but_height_def m_def isService_def msgDate_def atUnreadBar_def contentType_def)
  have "ids ((hs_messages s)[i := m]) = ids (hs_messages s)"
    using i(2) by (simp add: ids_def map_update m_def) (metis list_update_id nth_map)
  moreover have "count_sending ((hs_messages s)[i := m]) = count_sending (hs_messages s)"
    using i(2) by (simp add: count_sending_update m_def isSending_def)
  ultimately show ?thesis
    unfolding reaction_step(1) [OF assms(1) i(1,6,3,4,2) m_def refl]
    using ok remeasured_layout [OF _ i(2) assms(2) same refl]
    by (intro list_invI) simp_all
next
  case False
  then show ?thesis using assms(1) by (simp add: unchanged_reaction)
qed

text \<open>The change of height that a reaction reports, by which the scroll position is corrected when
  the message is above the viewport, is too large by the separators above the message: the date
  badge and the unread bar.\<close>

theorem reported_delta_counts_separators:
  assumes "list_inv env s" and "rr_changed (snd (applyReactionLocally env event key active s))"
    and "mi_physicalIndexOf (hs_index s) event = int i"
  shows "rr_heightDelta (snd (applyReactionLocally env event key active s)) =
     (hl_totalHeight (hs_view (fst (applyReactionLocally env event key active s))) - hl_totalHeight (hs_view s))
     + (li_messageY (hl_layout (hs_view s) ! i) - li_y (hl_layout (hs_view s) ! i))"
proof -
  obtain j reactions where j: "mi_physicalIndexOf (hs_index s) event = int j" "j < length (hs_messages s)"
    "event \<noteq> []" "key \<noteq> []" "ti_eventId (hs_messages s ! j) = event"
    "applyReactionChange (ti_reactions (hs_messages s ! j)) key active = (reactions, True)"
    by (rule reaction_row [OF assms(1,2)])
  then have i: "j = i" using assms(3) by simp
  define m where "m = (hs_messages s ! i)\<lparr>ti_reactions := reactions\<rparr>"
  define old where "old = hl_layout (hs_view s)"
  have layout: "layout_ok env (hs_view s)" using assms(1) by (simp add: list_inv_def)
  have len: "i < length old" using j(2) layout_okD(2) [OF layout] by (simp add: i old_def)
  have lens: "i < length (updateSenderGroupBounds 0 (remeasure env m i old))" "i < length (remeasure env m i old)"
    using len by (simp_all add: length_group_bounds remeasure_def)
  have "geo (updateSenderGroupBounds 0 (remeasure env m i old) ! i) = geo (remeasure env m i old ! i)"
    unfolding nth_map [OF lens(1), symmetric] nth_map [OF lens(2), symmetric] geo_group_bounds ..
  from arg_cong [OF this, of li_height]
  have "li_height (updateSenderGroupBounds 0 (remeasure env m i old) ! i) = li_height (measure_row env m (old ! i))"
    using len by (simp add: remeasure_def nth_append)
  then show ?thesis
    using laid_out_rows(3) [OF layout j(2) [unfolded i]]
    unfolding reaction_step [OF assms(1) j(1,6,3,4,2) m_def [folded i] refl, unfolded i]
    by (simp add: measure_row_def old_def)
qed

text \<open>Taking a reaction back undoes giving it, when each emoji has one entry and no entry counts
  nobody.\<close>

theorem reaction_taken_back:
  assumes "distinct (map rea_key rs)" and "list_all (\<lambda>r. 0 < rea_count r) rs"
    and "applyReactionChange rs key True = (rs1, True)"
  shows "applyReactionChange rs1 key False = (rs, True)"
  using assms
proof (induction rs arbitrary: rs1)
  case (Cons r rs)
  show ?case
  proof (cases "rea_key r = key")
    case True
    then show ?thesis using Cons.prems by (auto split: if_splits)
  next
    case False
    then obtain rs2 where "applyReactionChange rs key True = (rs2, True)" "rs1 = r # rs2" "key \<noteq> []"
      using Cons.prems(3) by (auto split: if_splits prod.splits)
    with False Cons.IH [of rs2] Cons.prems(1,2) show ?thesis by simp
  qed
qed (auto split: if_splits)


text \<open>Where a first reaction makes a bubble 32 pixels higher.\<close>

definition react_env :: layout_env where
  "react_env = demo_env\<lparr>le_bubbleHeight := \<lambda>msg w above. if ti_reactions msg = [] then 20 else 52\<rparr>"

definition react_list :: history_list where
  "react_list = setMessages react_env [demo_message ''$a'' ''@x'' 10, demo_message ''$b'' ''@x'' 20] (initial_list react_env)"

lemma react_list_inv: "list_inv react_env react_list"
  unfolding react_list_def by (rule setMessages_inv) code_simp

theorem reaction_keeps_list_consistent_witness:
  "list_inv react_env (fst (applyReactionLocally react_env ''$a'' ''+'' True react_list))"
  by (rule reaction_keeps_list_consistent [OF react_list_inv]) code_simp

theorem reported_delta_counts_separators_witness:
  "rr_heightDelta (snd (applyReactionLocally react_env ''$a'' ''+'' True react_list)) = 67
 \<and> hl_totalHeight (hs_view (fst (applyReactionLocally react_env ''$a'' ''+'' True react_list)))
     - hl_totalHeight (hs_view react_list) = 32"
proof -
  have "rr_changed (snd (applyReactionLocally react_env ''$a'' ''+'' True react_list))"
    "mi_physicalIndexOf (hs_index react_list) ''$a'' = int 0" by code_simp+
  note reported = reported_delta_counts_separators [OF react_list_inv this]
  have "hl_totalHeight (hs_view (fst (applyReactionLocally react_env ''$a'' ''+'' True react_list)))
      - hl_totalHeight (hs_view react_list) = 32"
    "li_messageY (hl_layout (hs_view react_list) ! 0) - li_y (hl_layout (hs_view react_list) ! 0) = 35" by code_simp+
  with reported show ?thesis by linarith
qed

theorem reaction_taken_back_witness:
  "applyReactionChange [\<lparr> rea_key = ''+'', rea_count = 3, rea_isSelf = True \<rparr>] ''+'' False
     = ([\<lparr> rea_key = ''+'', rea_count = 2, rea_isSelf = False \<rparr>], True)"
  by (rule reaction_taken_back) code_simp+

end
