(* ===== verification/Sticky_Date.thy ===== *)
theory Sticky_Date imports Message_Layout begin

section \<open>The date that sticks to the top\<close>

text \<open>
  \<open>HistoryList::stickyDateIndexAtVisibleTop\<close> (\<^verbatim>\<open>src/src/history/history_list.cpp\<close>): a binary search
  of the rows that carry a date for the last one above the upper edge of the viewport.
\<close>

text \<open>The loop; \<open>over\<close> is the comparison with the edge, \<open>result\<close> what has been found so far.\<close>

function sticky_loop :: "(int \<Rightarrow> bool) \<Rightarrow> int list \<Rightarrow> int \<Rightarrow> int \<Rightarrow> int \<Rightarrow> int" where
  "sticky_loop over dates lo hi result =
     (if lo \<le> hi
      then let mid = lo + (hi - lo) div 2; idx = dates ! nat mid
           in if over idx then sticky_loop over dates (mid + 1) hi idx
              else sticky_loop over dates lo (mid - 1) result
      else result)"
  by pat_completeness auto

termination sticky_loop
  by (relation "measure (\<lambda>(over, dates, lo, hi, result). nat (hi - lo + 1))") (auto simp: Let_def)

declare sticky_loop.simps [simp del]

definition stickyDateIndexAtVisibleTop :: "history_layout \<Rightarrow> int \<Rightarrow> int" where
  "stickyDateIndexAtVisibleTop s visibleTop =
     (if hl_dateIndices s = [] then -1
      else sticky_loop (\<lambda>idx. li_y (hl_layout s ! nat idx) + hl_contentOffset s \<le> visibleTop)
             (hl_dateIndices s) 0 (int (length (hl_dateIndices s)) - 1) (-1))"

subsection \<open>The search is exact\<close>

text \<open>\<open>k\<close> is where the entries above the edge end.\<close>

lemma sticky_loop_spec:
  assumes "0 \<le> lo" and "lo \<le> k" and "k \<le> hi + 1"
    and "\<And>j. 0 \<le> j \<Longrightarrow> j \<le> hi \<Longrightarrow> over (dates ! nat j) \<longleftrightarrow> j < k"
  shows "sticky_loop over dates lo hi result = (if k = lo then result else dates ! nat (k - 1))"
  using assms
proof (induction "nat (hi - lo + 1)" arbitrary: lo hi result rule: less_induct)
  case less
  show ?case
  proof (cases "lo \<le> hi")
    case True
    define mid where "mid = lo + (hi - lo) div 2"
    have mid: "lo \<le> mid" "mid \<le> hi" "0 \<le> mid" using True less.prems(1) by (auto simp: mid_def)
    show ?thesis
    proof (cases "mid < k")
      case found: True
      then have "sticky_loop over dates lo hi result = sticky_loop over dates (mid + 1) hi (dates ! nat mid)"
        using True less.prems(4) [of mid] mid by (subst sticky_loop.simps) (simp add: Let_def mid_def)
      also have "\<dots> = (if k = mid + 1 then dates ! nat mid else dates ! nat (k - 1))"
        using mid found less.prems by (intro less.hyps) auto
      also have "\<dots> = (if k = lo then result else dates ! nat (k - 1))" using found mid by auto
      finally show ?thesis .
    next
      case below: False
      then have "sticky_loop over dates lo hi result = sticky_loop over dates lo (mid - 1) result"
        using True less.prems(4) [of mid] mid by (subst sticky_loop.simps) (simp add: Let_def mid_def)
      also have "\<dots> = (if k = lo then result else dates ! nat (k - 1))"
        using mid below less.prems by (intro less.hyps) auto
      finally show ?thesis .
    qed
  next
    case False
    then show ?thesis using less.prems(2,3) by (subst sticky_loop.simps) simp
  qed
qed

lemma date_indices_filter:
  "date_indices (int k) rows = map int (filter (\<lambda>i. li_showDate (rows ! (i - k))) [k..<k + length rows])"
proof (induction rows arbitrary: k)
  case (Cons x rows)
  have tail: "filter (\<lambda>i. li_showDate ((x # rows) ! (i - k))) [Suc k..<k + length (x # rows)]
      = filter (\<lambda>i. li_showDate (rows ! (i - Suc k))) [Suc k..<Suc k + length rows]"
  proof (rule filter_cong)
    fix i assume "i \<in> set [Suc k..<Suc k + length rows]"
    then have "Suc k \<le> i" by (simp only: set_upt atLeastLessThan_iff)
    then have "i - k = Suc (i - Suc k)" by simp
    then show "li_showDate ((x # rows) ! (i - k)) = li_showDate (rows ! (i - Suc k))" by simp
  qed simp
  have "[k..<k + length (x # rows)] = k # [Suc k..<k + length (x # rows)]" by (simp add: upt_conv_Cons del: upt_Suc)
  then have "filter (\<lambda>i. li_showDate ((x # rows) ! (i - k))) [k..<k + length (x # rows)]
      = (if li_showDate x then [k] else []) @ filter (\<lambda>i. li_showDate (rows ! (i - Suc k))) [Suc k..<Suc k + length rows]"
    unfolding tail [symmetric] by (simp del: upt_Suc)
  then show ?case using Cons.IH [of "Suc k"] by (simp add: add.commute del: upt_Suc)
qed simp

lemma sorted_prefix:
  fixes P :: "nat \<Rightarrow> bool"
  assumes "\<And>i j. i \<le> j \<Longrightarrow> j \<in> set xs \<Longrightarrow> P j \<Longrightarrow> P i" and "sorted xs"
  shows "filter P xs = takeWhile P xs"
  using assms
proof (induction xs)
  case (Cons x xs)
  show ?case
  proof (cases "P x")
    case False
    then have "filter P xs = []" using Cons.prems by (auto simp: filter_empty_conv)
    then show ?thesis using False by simp
  qed (use Cons in auto)
qed simp

text \<open>The rows with a date whose top is at or above the edge.\<close>

definition dates_above :: "history_layout \<Rightarrow> int \<Rightarrow> nat list" where
  "dates_above s visibleTop =
     filter (\<lambda>i. li_showDate (hl_layout s ! i) \<and> li_y (hl_layout s ! i) + hl_contentOffset s \<le> visibleTop)
       [0..<length (hl_layout s)]"

text \<open>The sticky date is the one a scan of all rows would find: the last row with a date that is
  not below the upper edge, and none (-1) when there is no such row; and the search ends.\<close>

theorem sticky_date_exact:
  assumes "layout_ok env s" and "sizes_ok env"
  shows "stickyDateIndexAtVisibleTop s visibleTop =
     (if dates_above s visibleTop = [] then -1 else int (last (dates_above s visibleTop)))"
proof -
  define over where "over i \<longleftrightarrow> li_y (hl_layout s ! i) + hl_contentOffset s \<le> visibleTop" for i
  define ds where "ds = filter (\<lambda>i. li_showDate (hl_layout s ! i)) [0..<length (hl_layout s)]"
  note ok = layout_okD [OF assms(1)]
  have dates: "hl_dateIndices s = map int ds"
  proof -
    have "drop_caches s = reference_layout env s" using assms(1) by (simp add: layout_ok_def)
    from arg_cong [OF this, of hl_dateIndices] have "hl_dateIndices s = date_indices 0 (hl_layout s)"
      by (simp add: drop_caches_def reference_layout_def finish_layout_def Let_def ok(1) [symmetric])
    then show ?thesis using date_indices_filter [of 0 "hl_layout s"] by (simp add: ds_def)
  qed
  have down: "over i" if "i \<le> j" "j \<in> set ds" "over j" for i j
  proof -
    have "j < length (hl_messages s)" using that(2) ok(2) by (simp add: ds_def)
    from rows_below_down(1) [OF assms that(1) this] that(3) show ?thesis by (simp add: over_def)
  qed
  have "sorted ds" by (simp add: ds_def sorted_wrt_filter)
  then have prefix: "filter over ds = takeWhile over ds" using down by (intro sorted_prefix)
  define k where "k = length (takeWhile over ds)"
  have k: "k \<le> length ds" by (simp add: k_def length_takeWhile_le)
  have at: "over (ds ! j) \<longleftrightarrow> j < k" if "j < length ds" for j
  proof
    assume "j < k"
    then show "over (ds ! j)" unfolding k_def by (metis nth_mem set_takeWhileD takeWhile_nth)
  next
    assume a: "over (ds ! j)"
    show "j < k"
    proof (rule ccontr)
      assume "\<not> j < k"
      then have "k < length ds" "k \<le> j" using that by simp_all
      moreover have "ds ! k \<le> ds ! j" using \<open>sorted ds\<close> \<open>k \<le> j\<close> that by (simp add: sorted_nth_mono)
      ultimately have "over (ds ! k)" using down [of "ds ! k" "ds ! j"] a that by simp
      then show False using nth_length_takeWhile [of over ds] \<open>k < length ds\<close> by (simp add: k_def)
    qed
  qed
  have "dates_above s visibleTop = filter over ds"
    unfolding dates_above_def ds_def filter_filter by (rule filter_cong) (simp_all add: over_def)
  then have result: "dates_above s visibleTop = takeWhile over ds" by (simp only: prefix)
  show ?thesis
  proof (cases "ds = []")
    case True
    then show ?thesis using result by (simp add: stickyDateIndexAtVisibleTop_def dates)
  next
    case False
    have "sticky_loop (\<lambda>idx. over (nat idx)) (map int ds) 0 (int (length ds) - 1) (-1)
        = (if int k = 0 then -1 else map int ds ! nat (int k - 1))"
      using k at by (intro sticky_loop_spec) (auto simp: nth_map nat_less_iff)
    also have "\<dots> = (if takeWhile over ds = [] then -1 else int (last (takeWhile over ds)))"
    proof (cases "k = 0")
      case nonempty: False
      then have ne: "takeWhile over ds \<noteq> []" by (simp add: k_def)
      have "nat (int k - 1) = k - 1" by simp
      then have "map int ds ! nat (int k - 1) = int (ds ! (k - 1))" using k nonempty by simp
      also have "ds ! (k - 1) = last (takeWhile over ds)"
        unfolding last_conv_nth [OF ne] using nonempty by (simp add: k_def takeWhile_nth)
      finally show ?thesis using ne nonempty by simp
    qed (simp add: k_def)
    finally show ?thesis using False by (simp add: stickyDateIndexAtVisibleTop_def dates result over_def)
  qed
qed

theorem sticky_date_exact_witness:
  "stickyDateIndexAtVisibleTop demo_history 500 = 2 \<and> dates_above demo_history 500 = [0, 2]"
proof -
  have d: "dates_above demo_history 500 = [0, 2]" by code_simp
  with sticky_date_exact [OF demo_history_ok demo_sizes, of 500] show ?thesis by simp
qed

end
