(* ===== verification/Stable_Sort.thy ===== *)
theory Stable_Sort imports TM_Prelude "HOL-Library.Multiset" begin

section \<open>Sorting by a comparator\<close>

text \<open>
  \<open>std::stable_sort\<close> and \<open>std::sort\<close> with a comparator \<open>lt\<close>.  Both are the insertion sort below,
  which keeps elements in order that the comparator does not tell apart; where the code calls
  \<open>std::sort\<close> the order of such elements is open.  What the standard asks of a comparator, a
  strict weak order, is the locale; it is interpreted for each comparator of the code.
\<close>

fun insert_by :: "('a \<Rightarrow> 'a \<Rightarrow> bool) \<Rightarrow> 'a \<Rightarrow> 'a list \<Rightarrow> 'a list" where
  "insert_by lt x [] = [x]"
| "insert_by lt x (y # ys) = (if lt y x then y # insert_by lt x ys else x # y # ys)"

definition stable_sort :: "('a \<Rightarrow> 'a \<Rightarrow> bool) \<Rightarrow> 'a list \<Rightarrow> 'a list" where
  "stable_sort lt xs = foldr (insert_by lt) xs []"

lemma stable_sort_simps [simp]:
  "stable_sort lt [] = []" "stable_sort lt (x # xs) = insert_by lt x (stable_sort lt xs)"
  by (simp_all add: stable_sort_def)

lemma mset_insert_by [simp]: "mset (insert_by lt x xs) = add_mset x (mset xs)"
  by (induction xs) auto

lemma mset_stable_sort [simp]: "mset (stable_sort lt xs) = mset xs"
  by (induction xs) simp_all

lemma set_stable_sort [simp]: "set (stable_sort lt xs) = set xs"
  by (metis mset_stable_sort set_mset_mset)

lemma length_stable_sort [simp]: "length (stable_sort lt xs) = length xs"
  by (metis mset_stable_sort size_mset)

lemma distinct_stable_sort: "distinct (map f (stable_sort lt xs)) \<longleftrightarrow> distinct (map f xs)"
  by (rule mset_eq_imp_distinct_iff) simp

lemma insert_by_map:
  "(\<And>y. y \<in> set ys \<Longrightarrow> lt' (f y) (f x) = lt y x) \<Longrightarrow>
   insert_by lt' (f x) (map f ys) = map f (insert_by lt x ys)"
  by (induction ys) simp_all

lemma stable_sort_map:
  "(\<And>x y. x \<in> set xs \<Longrightarrow> y \<in> set xs \<Longrightarrow> lt' (f x) (f y) = lt x y) \<Longrightarrow>
   stable_sort lt' (map f xs) = map f (stable_sort lt xs)"
proof (induction xs)
  case (Cons x xs)
  then have "stable_sort lt' (map f xs) = map f (stable_sort lt xs)" by simp
  moreover have "insert_by lt' (f x) (map f (stable_sort lt xs)) = map f (insert_by lt x (stable_sort lt xs))"
    using Cons.prems by (intro insert_by_map) simp
  ultimately show ?case by simp
qed simp

locale weak_order =
  fixes lt :: "'a \<Rightarrow> 'a \<Rightarrow> bool"
  assumes asym: "lt a b \<Longrightarrow> \<not> lt b a"
    and negative: "\<not> lt a b \<Longrightarrow> \<not> lt b c \<Longrightarrow> \<not> lt a c"
begin

definition ordered :: "'a list \<Rightarrow> bool" where
  "ordered xs \<longleftrightarrow> sorted_wrt (\<lambda>a b. \<not> lt b a) xs"

lemma insert_ordered: "ordered xs \<Longrightarrow> ordered (insert_by lt x xs)"
proof (induction xs)
  case (Cons y xs)
  show ?case
  proof (cases "lt y x")
    case True
    have "z \<in> set (insert_by lt x xs) \<longleftrightarrow> z = x \<or> z \<in> set xs" for z
      by (metis mset_insert_by set_mset_mset set_mset_add_mset_insert insert_iff)
    with True Cons asym show ?thesis by (auto simp: ordered_def)
  next
    case False
    then show ?thesis using Cons.prems negative by (auto simp: ordered_def)
  qed
qed (simp add: ordered_def)

lemma sorted: "ordered (stable_sort lt xs)"
  by (induction xs) (simp_all add: insert_ordered, simp add: ordered_def)

lemma insert_first: "ordered (x # xs) \<Longrightarrow> insert_by lt x xs = x # xs"
  by (cases xs) (auto simp: ordered_def)

lemma sorted_same: "ordered xs \<Longrightarrow> stable_sort lt xs = xs"
proof (induction xs)
  case (Cons x xs)
  then have "stable_sort lt xs = xs" by (simp add: ordered_def)
  with Cons.prems show ?case by (simp add: insert_first)
qed simp

text \<open>Elements the comparator does not tell apart keep their order.\<close>

lemma insert_tied:
  "filter (\<lambda>y. \<not> lt a y \<and> \<not> lt y a) (insert_by lt x xs)
     = (if \<not> lt a x \<and> \<not> lt x a then [x] else []) @ filter (\<lambda>y. \<not> lt a y \<and> \<not> lt y a) xs"
proof (induction xs)
  case (Cons y xs)
  have "\<not> (\<not> lt a x \<and> \<not> lt x a \<and> \<not> lt a y \<and> \<not> lt y a)" if "lt y x"
    using that negative [of y a x] by blast
  then show ?case using Cons by auto
qed simp

lemma stable: "filter (\<lambda>y. \<not> lt a y \<and> \<not> lt y a) (stable_sort lt xs) = filter (\<lambda>y. \<not> lt a y \<and> \<not> lt y a) xs"
  by (induction xs) (auto simp: insert_tied)

end

end
