(* ===== verification/Dialogs_Row.thy ===== *)
theory Dialogs_Row imports Stable_Sort Protocol_Types Drafts begin

section \<open>A row of the chat list\<close>

text \<open>
  \<open>DialogsRow\<close> (\<^verbatim>\<open>src/src/dialogs/dialogs_row.h\<close> and \<^verbatim>\<open>.cpp\<close>): what the chat list keeps of a room,
  and how well the row matches a search.  What Qt does with text (\<open>isSpace\<close>, \<open>toLower\<close>, the
  translations) is a parameter; text layouts, the formatted date and the badge animation are
  painting.
\<close>

record text_env =
  te_isSpace :: "char \<Rightarrow> bool"
  te_toLower :: "qstring \<Rightarrow> qstring"
  te_translate :: "qstring \<Rightarrow> qstring"

record dialogs_row =
  dl_roomId :: qstring
  dl_displayName :: qstring
  dl_lastMessage :: qstring
  dl_lastSender :: qstring
  dl_timestamp :: int
  dl_unreadCount :: int
  dl_highlightCount :: int
  dl_isMarkedUnread :: bool
  dl_isMuted :: bool
  dl_notificationMode :: room_notification_mode
  dl_isPinned :: bool
  dl_pinnedIndex :: int
  dl_pinnedOrder :: real
  dl_isDirect :: bool
  dl_avatarUrl :: qstring
  dl_avatarEntityId :: qstring
  dl_filterIds :: "int list"
  dl_spaceIds :: "qstring list"
  dl_isLastMessageOutgoing :: bool
  dl_lastMessageSendState :: send_state
  dl_draftText :: qstring
  dl_hasDraft :: bool
  dl_peerPresence :: int
  dl_membership :: membership_state
  dl_inviterDisplayName :: qstring
  dl_roomTopic :: qstring

definition new_row :: dialogs_row where
  "new_row = \<lparr> dl_roomId = [], dl_displayName = [], dl_lastMessage = [], dl_lastSender = [],
     dl_timestamp = 0, dl_unreadCount = 0, dl_highlightCount = 0, dl_isMarkedUnread = False,
     dl_isMuted = False, dl_notificationMode = AllMessages, dl_isPinned = False, dl_pinnedIndex = 0,
     dl_pinnedOrder = -1, dl_isDirect = False, dl_avatarUrl = [], dl_avatarEntityId = [],
     dl_filterIds = [], dl_spaceIds = [], dl_isLastMessageOutgoing = False,
     dl_lastMessageSendState = Read, dl_draftText = [], dl_hasDraft = False, dl_peerPresence = 0,
     dl_membership = MemberJoin, dl_inviterDisplayName = [], dl_roomTopic = [] \<rparr>"

definition hasMentionBadge :: "dialogs_row \<Rightarrow> bool" where
  "hasMentionBadge row \<longleftrightarrow> 0 < dl_highlightCount row"

definition hasUnreadIndicator :: "dialogs_row \<Rightarrow> bool" where
  "hasUnreadIndicator row \<longleftrightarrow> 0 < dl_unreadCount row \<or> dl_isMarkedUnread row \<or> hasMentionBadge row"

definition setNotificationMode :: "room_notification_mode \<Rightarrow> dialogs_row \<Rightarrow> dialogs_row" where
  "setNotificationMode mode row = row\<lparr>dl_notificationMode := mode, dl_isMuted := (mode = Mute)\<rparr>"

definition isPeerOnline :: "dialogs_row \<Rightarrow> bool" where
  "isPeerOnline row \<longleftrightarrow> dl_isDirect row \<and> 1 \<le> dl_peerPresence row"

definition translateLastMessage :: "text_env \<Rightarrow> qstring \<Rightarrow> qstring" where
  "translateLastMessage env msg =
     (if msg \<in> {''Photo'', ''Video'', ''File'', ''Voice message'', ''Audio'', ''Sticker'', ''GIF'',
                ''Poll'', ''Image''}
      then te_translate env msg else msg)"

definition updateFrom :: "text_env \<Rightarrow> room_summary \<Rightarrow> dialogs_row \<Rightarrow> dialogs_row" where
  "updateFrom env room row = row\<lparr>
     dl_roomId := rs_roomId room, dl_displayName := rs_displayName room,
     dl_lastMessage := simplified (te_isSpace env) (translateLastMessage env (rs_lastMessage room)),
     dl_lastSender := rs_lastSender room, dl_timestamp := rs_timestamp room,
     dl_unreadCount := rs_unreadCount room, dl_highlightCount := rs_highlightCount room,
     dl_isMarkedUnread := rs_isMarkedUnread room, dl_isMuted := rs_isMuted room,
     dl_notificationMode := rs_notificationMode room, dl_isPinned := rs_isPinned room,
     dl_pinnedOrder := rs_pinnedOrder room, dl_isDirect := rs_isDirect room,
     dl_avatarUrl := rs_avatarUrl room,
     dl_avatarEntityId := (if rs_avatarEntityId room = [] then rs_roomId room else rs_avatarEntityId room),
     dl_filterIds := rs_filterIds room, dl_spaceIds := rs_spaceIds room,
     dl_isLastMessageOutgoing := rs_isLastMessageOutgoing room,
     dl_lastMessageSendState := rs_lastMessageSendState room,
     dl_peerPresence := rs_peerPresence room, dl_membership := rs_membership room,
     dl_inviterDisplayName := rs_inviterDisplayName room, dl_roomTopic := rs_roomTopic room\<rparr>"

definition row_setDraft :: "text_env \<Rightarrow> qstring \<Rightarrow> dialogs_row \<Rightarrow> dialogs_row" where
  "row_setDraft env str row =
     (let draft = simplified (te_isSpace env) str
      in row\<lparr>dl_hasDraft := draft \<noteq> [], dl_draftText := draft\<rparr>)"

subsection \<open>Search\<close>

definition begins_with :: "qstring \<Rightarrow> qstring \<Rightarrow> bool" where
  "begins_with str query \<longleftrightarrow> take (length query) str = query"

fun contains_text :: "qstring \<Rightarrow> qstring \<Rightarrow> bool" where
  "contains_text [] query \<longleftrightarrow> query = []"
| "contains_text (c # cs) query \<longleftrightarrow> begins_with (c # cs) query \<or> contains_text cs query"

text \<open>\<open>split(' ', Qt::SkipEmptyParts)\<close>\<close>

definition words_of :: "qstring \<Rightarrow> qstring list" where
  "words_of str = filter (\<lambda>w. w \<noteq> []) (split_spaces (\<lambda>c. c = CHR '' '') str)"

definition searchableText :: "text_env \<Rightarrow> dialogs_row \<Rightarrow> qstring" where
  "searchableText env row =
     te_toLower env (dl_displayName row)
     @ (if dl_roomId row \<noteq> [] then '' '' @ te_toLower env (dl_roomId row) else [])"

definition searchScore :: "text_env \<Rightarrow> dialogs_row \<Rightarrow> qstring \<Rightarrow> int" where
  "searchScore env row normalizedQuery =
     (let name = te_toLower env (dl_displayName row)
      in if begins_with name normalizedQuery then 0
         else if list_ex (\<lambda>word. begins_with word normalizedQuery) (words_of name) then 1
         else if contains_text name normalizedQuery then 2
         else if contains_text (searchableText env row) normalizedQuery then 3
         else -1)"

lemma begins_with_iff: "begins_with str query \<longleftrightarrow> (\<exists>rest. str = query @ rest)"
  unfolding begins_with_def by (metis append_eq_conv_conj append_take_drop_id)

lemma contains_text_iff: "contains_text str query \<longleftrightarrow> (\<exists>pre post. str = pre @ query @ post)"
proof (induction str)
  case (Cons c cs)
  show ?case
  proof
    assume "contains_text (c # cs) query"
    then consider rest where "c # cs = query @ rest" | pre post where "cs = pre @ query @ post"
      using Cons.IH by (auto simp: begins_with_iff)
    then show "\<exists>pre post. c # cs = pre @ query @ post"
    proof cases
      case (1 rest)
      then have "c # cs = [] @ query @ rest" by simp
      then show ?thesis by blast
    next
      case (2 pre post)
      then have "c # cs = (c # pre) @ query @ post" by simp
      then show ?thesis by blast
    qed
  next
    assume "\<exists>pre post. c # cs = pre @ query @ post"
    then obtain pre post where p: "c # cs = pre @ query @ post" by blast
    show "contains_text (c # cs) query"
    proof (cases pre)
      case Nil
      then have "begins_with (c # cs) query" using p by (simp add: begins_with_iff)
      then show ?thesis by simp
    next
      case (Cons d ds)
      then show ?thesis using p Cons.IH by auto
    qed
  qed
qed auto

text \<open>A word is part of the text.\<close>

lemma split_spaces_part:
  "w \<in> set (split_spaces p str) \<Longrightarrow> \<exists>pre post. str = pre @ w @ post"
proof (induction str arbitrary: w)
  case (Cons c cs)
  have ih: "\<exists>pre post. c # cs = pre @ v @ post" if "v \<in> set (split_spaces p cs)" for v
    using Cons.IH [OF that] by (metis append_Cons)
  show ?case
  proof (cases "p c")
    case True
    then have "w = [] \<or> w \<in> set (split_spaces p cs)" using Cons.prems by simp
    then show ?thesis using ih by (elim disjE) (simp_all add: exI [of _ "[]"])
  next
    case False
    have "split_spaces p cs \<noteq> []" by (cases cs) (auto split: list.split)
    then obtain v vs where v: "split_spaces p cs = v # vs" by (cases "split_spaces p cs") auto
    have "\<exists>post. cs = v @ post"
      using v
    proof (induction cs arbitrary: v vs)
      case (Cons d ds)
      then show ?case by (auto split: if_splits list.splits)
    qed auto
    moreover have "w = c # v \<or> w \<in> set (split_spaces p cs)" using Cons.prems False v by auto
    ultimately show ?thesis using ih by (elim disjE exE) (auto intro: exI [of _ "[]"])
  qed
qed auto

lemma score_bounds: "searchScore env row query \<in> {-1, 0, 1, 2, 3}"
  by (simp add: searchScore_def Let_def)

lemma word_matches:
  assumes "list_ex (\<lambda>word. begins_with word query) (words_of name)"
  shows "contains_text name query"
proof -
  obtain w where w: "w \<in> set (split_spaces (\<lambda>c. c = CHR '' '') name)" "begins_with w query"
    using assms by (auto simp: words_of_def list_ex_iff)
  from split_spaces_part [OF w(1)] obtain pre post where "name = pre @ w @ post" by blast
  then show ?thesis using w(2) unfolding begins_with_iff contains_text_iff by (metis append.assoc)
qed


end
