(* ===== verification/Dialogs_List.thy ===== *)
theory Dialogs_List imports Dialogs_Row Message_Index begin

section \<open>The chat list\<close>

text \<open>
  \<open>DialogsInner\<close> (\<^verbatim>\<open>src/src/dialogs/dialogs_inner.cpp\<close>): all rooms in order (\<open>_allRows\<close>), the rows
  on screen (\<open>_rows\<close>: one folder, one space or the result of a search) with the selected, hovered
  and dragged row as positions among them, local drafts, and the hits of the message search.
  \<open>repaint\<close> calls, cursors, popup menus and the badge animation are not modelled.

  Shown: whatever is called, the rows on screen are what a fresh pass over all rooms gives, and
  every position points at the room it was taken for (\<open>list_current\<close>).
\<close>

record dialogs_inner =
  di_allRows :: "dialogs_row list"
  di_allRowsByRoomId :: "(qstring, int) qhash"
  di_rows :: "dialogs_row list"
  di_drafts :: "(qstring, qstring) qhash"
  di_activeFilterId :: int
  di_activeSpaceId :: qstring
  di_savedMessagesRoomId :: qstring
  di_searchQuery :: qstring
  di_hoveredIndex :: int
  di_selectedIndex :: int
  di_menuRowIndex :: int
  di_selectedRoomId :: qstring
  di_searchResults :: "search_hit list"
  di_searchHoveredIndex :: int
  di_searchSelectedIndex :: int
  di_searchTotalApprox :: int
  di_searchDone :: bool
  di_messageSearchMode :: bool
  di_messageSearchTopInset :: int
  di_initialLoading :: bool
  di_searchLoading :: bool
  di_searchResolved :: bool
  di_searchE2eeDisabled :: bool
  di_searchIndexing :: bool
  di_messageSearchQuery :: qstring
  di_messageSearchGlobalScope :: bool
  di_viewportHeight :: int
  di_draggedIndex :: int
  di_dragStartY :: int
  di_dragCurrentY :: int
  di_dropTargetIndex :: int
  di_dragStarted :: bool
  di_draggedRoomId :: qstring

definition initial_dialogs :: dialogs_inner where
  "initial_dialogs = \<lparr> di_allRows = [], di_allRowsByRoomId = [], di_rows = [], di_drafts = [],
     di_activeFilterId = 0, di_activeSpaceId = [], di_savedMessagesRoomId = [], di_searchQuery = [],
     di_hoveredIndex = -1, di_selectedIndex = -1, di_menuRowIndex = -1, di_selectedRoomId = [],
     di_searchResults = [], di_searchHoveredIndex = -1, di_searchSelectedIndex = -1,
     di_searchTotalApprox = 0, di_searchDone = True, di_messageSearchMode = False,
     di_messageSearchTopInset = 0, di_initialLoading = False, di_searchLoading = False,
     di_searchResolved = False, di_searchE2eeDisabled = False, di_searchIndexing = False,
     di_messageSearchQuery = [], di_messageSearchGlobalScope = False, di_viewportHeight = 0,
     di_draggedIndex = -1, di_dragStartY = 0, di_dragCurrentY = 0, di_dropTargetIndex = -1,
     di_dragStarted = False, di_draggedRoomId = [] \<rparr>"

subsection \<open>Loops over rows\<close>

text \<open>Position of the first row that satisfies a condition, \<open>-1\<close> without one; update of that row
  (\<open>for ... break\<close>).\<close>

fun row_position :: "('a \<Rightarrow> bool) \<Rightarrow> int \<Rightarrow> 'a list \<Rightarrow> int" where
  "row_position P i [] = -1"
| "row_position P i (x # xs) = (if P x then i else row_position P (i + 1) xs)"

fun update_first :: "('a \<Rightarrow> bool) \<Rightarrow> ('a \<Rightarrow> 'a) \<Rightarrow> 'a list \<Rightarrow> 'a list" where
  "update_first P f [] = []"
| "update_first P f (x # xs) = (if P x then f x # xs else x # update_first P f xs)"

definition room_position :: "qstring \<Rightarrow> dialogs_row list \<Rightarrow> int" where
  "room_position roomId rows = row_position (\<lambda>row. dl_roomId row = roomId) 0 rows"

definition update_room :: "qstring \<Rightarrow> (dialogs_row \<Rightarrow> dialogs_row) \<Rightarrow> dialogs_row list \<Rightarrow> dialogs_row list" where
  "update_room roomId f rows = update_first (\<lambda>row. dl_roomId row = roomId) f rows"

subsection \<open>Order of the rows\<close>

text \<open>The comparator of \<open>setRooms\<close>, \<open>setRoomPinned\<close>, \<open>applyPinnedOrder\<close> and of a drop: pinned rooms
  in their order, then invites, then the rest by time.\<close>

definition row_less :: "dialogs_row \<Rightarrow> dialogs_row \<Rightarrow> bool" where
  "row_less a b =
     (if dl_isPinned a \<noteq> dl_isPinned b then dl_isPinned a
      else if dl_isPinned a \<and> dl_isPinned b then dl_pinnedIndex a < dl_pinnedIndex b
      else let aInvite = (dl_membership a = MemberInvite); bInvite = (dl_membership b = MemberInvite)
           in if aInvite \<noteq> bInvite then aInvite else dl_timestamp b < dl_timestamp a)"

text \<open>The comparator of the search: best match, pinned, latest.\<close>

definition score_less :: "dialogs_row \<times> int \<Rightarrow> dialogs_row \<times> int \<Rightarrow> bool" where
  "score_less a b =
     (if snd a \<noteq> snd b then snd a < snd b
      else if dl_isPinned (fst a) \<noteq> dl_isPinned (fst b) then dl_isPinned (fst a)
      else dl_timestamp (fst b) < dl_timestamp (fst a))"

lemma row_less_asym: "row_less a b \<Longrightarrow> \<not> row_less b a"
  unfolding row_less_def Let_def
  by (cases "dl_isPinned a"; cases "dl_isPinned b"; cases "dl_membership a = MemberInvite";
      cases "dl_membership b = MemberInvite"; simp)

lemma row_less_negative: "\<not> row_less a b \<Longrightarrow> \<not> row_less b c \<Longrightarrow> \<not> row_less a c"
  unfolding row_less_def Let_def
  by (cases "dl_isPinned a"; cases "dl_isPinned b"; cases "dl_isPinned c";
      cases "dl_membership a = MemberInvite"; cases "dl_membership b = MemberInvite";
      cases "dl_membership c = MemberInvite"; simp)

lemma score_less_asym: "score_less a b \<Longrightarrow> \<not> score_less b a"
  unfolding score_less_def by (cases "snd a = snd b"; cases "dl_isPinned (fst a)"; cases "dl_isPinned (fst b)"; simp)

lemma score_less_negative: "\<not> score_less a b \<Longrightarrow> \<not> score_less b c \<Longrightarrow> \<not> score_less a c"
  unfolding score_less_def
  by (cases "dl_isPinned (fst a)"; cases "dl_isPinned (fst b)"; cases "dl_isPinned (fst c)";
      cases "snd a" "snd b" rule: linorder_cases; cases "snd b" "snd c" rule: linorder_cases; simp)

interpretation row_order: weak_order row_less
  by unfold_locales (rule row_less_asym row_less_negative; assumption)+

interpretation score_order: weak_order score_less
  by unfold_locales (rule score_less_asym score_less_negative; assumption)+

definition all_rows_index :: "dialogs_row list \<Rightarrow> (qstring, int) qhash" where
  "all_rows_index rows = insert_ids 0 0 (map dl_roomId rows) []"

definition rebuildAllRowsIndex :: "dialogs_inner \<Rightarrow> dialogs_inner" where
  "rebuildAllRowsIndex s = s\<lparr>di_allRowsByRoomId := all_rows_index (di_allRows s)\<rparr>"

subsection \<open>Filters and search\<close>

definition in_view :: "dialogs_inner \<Rightarrow> dialogs_row \<Rightarrow> bool" where
  "in_view s row \<longleftrightarrow>
     (if di_activeSpaceId s \<noteq> [] then di_activeSpaceId s \<in> set (dl_spaceIds row)
      else if di_activeFilterId s = 1 then dl_isDirect row \<or> dl_roomId row = di_savedMessagesRoomId s
      else if di_activeFilterId s = 2 then hasUnreadIndicator row
      else if 2 < di_activeFilterId s then di_activeFilterId s \<in> set (dl_filterIds row)
      else True)"

definition normalizedQuery :: "text_env \<Rightarrow> dialogs_inner \<Rightarrow> qstring" where
  "normalizedQuery env s = te_toLower env (di_searchQuery s)"

definition scored_rows :: "text_env \<Rightarrow> qstring \<Rightarrow> dialogs_row list \<Rightarrow> (dialogs_row \<times> int) list" where
  "scored_rows env query rows =
     filter (\<lambda>sr. 0 \<le> snd sr) (map (\<lambda>row. (row, searchScore env row query)) rows)"

definition filtered_rows :: "text_env \<Rightarrow> dialogs_inner \<Rightarrow> dialogs_row list" where
  "filtered_rows env s =
     (if normalizedQuery env s \<noteq> []
      then map fst (stable_sort score_less (scored_rows env (normalizedQuery env s) (di_allRows s)))
      else filter (in_view s) (di_allRows s))"

definition resolve_selected :: "dialogs_inner \<Rightarrow> dialogs_inner" where
  "resolve_selected s =
     (if di_selectedRoomId s \<noteq> []
      then s\<lparr>di_selectedIndex := room_position (di_selectedRoomId s) (di_rows s)\<rparr> else s)"

definition drop_stale_positions :: "dialogs_inner \<Rightarrow> dialogs_inner" where
  "drop_stale_positions s =
     (let n = int (length (di_rows s));
          s1 = (if n \<le> di_menuRowIndex s then s\<lparr>di_menuRowIndex := -1\<rparr> else s)
      in if n \<le> di_hoveredIndex s1 then s1\<lparr>di_hoveredIndex := -1\<rparr> else s1)"

definition resolve_dragged :: "dialogs_inner \<Rightarrow> dialogs_inner" where
  "resolve_dragged s =
     (if 0 \<le> di_draggedIndex s
      then let reresolved = (if di_draggedRoomId s \<noteq> [] then room_position (di_draggedRoomId s) (di_rows s) else -1);
               s1 = (if reresolved < 0 then s\<lparr>di_draggedRoomId := [], di_dragStarted := False\<rparr> else s)
           in s1\<lparr>di_draggedIndex := reresolved, di_dropTargetIndex := -1\<rparr>
      else s)"

definition applyFilters :: "text_env \<Rightarrow> dialogs_inner \<Rightarrow> dialogs_inner" where
  "applyFilters env s =
     (let s1 = rebuildAllRowsIndex s;
          s2 = s1\<lparr>di_rows := filtered_rows env s1\<rparr>
      in resolve_dragged (drop_stale_positions (resolve_selected s2)))"

definition reapplyUnreadFilterIfNeeded :: "text_env \<Rightarrow> dialogs_inner \<Rightarrow> dialogs_inner \<times> bool" where
  "reapplyUnreadFilterIfNeeded env s =
     (if di_activeFilterId s \<noteq> 2 \<or> trimmed (te_isSpace env) (di_searchQuery s) \<noteq> [] then (s, False)
      else (applyFilters env s, True))"

subsection \<open>What the widget tells the list\<close>

definition setRooms :: "text_env \<Rightarrow> room_summary list \<Rightarrow> dialogs_inner \<Rightarrow> dialogs_inner" where
  "setRooms env rooms s =
     (let fresh = map (\<lambda>room. row_setDraft env (hash_value [] (rs_roomId room) (di_drafts s))
                                (updateFrom env room new_row)) rooms;
          s1 = s\<lparr>di_allRows := stable_sort row_less fresh\<rparr>
      in applyFilters env (rebuildAllRowsIndex s1))"

definition setDraft :: "text_env \<Rightarrow> qstring \<Rightarrow> qstring \<Rightarrow> dialogs_inner \<Rightarrow> dialogs_inner" where
  "setDraft env roomId str s =
     (if roomId = [] then s
      else let draft = simplified (te_isSpace env) str;
               drafts = (if draft = [] then hash_remove roomId (di_drafts s)
                         else hash_insert roomId draft (di_drafts s))
           in s\<lparr>di_allRows := update_room roomId (row_setDraft env draft) (di_allRows s),
                di_rows := update_room roomId (row_setDraft env draft) (di_rows s),
                di_drafts := drafts\<rparr>)"

text \<open>\<open>setRoomUnreadCount\<close>, \<open>setRoomHighlightCount\<close> and \<open>setRoomMarkedUnread\<close> differ in the field
  they write.\<close>

definition set_unread_field :: "text_env \<Rightarrow> qstring \<Rightarrow> (dialogs_row \<Rightarrow> dialogs_row) \<Rightarrow> dialogs_inner \<Rightarrow> dialogs_inner" where
  "set_unread_field env roomId f s =
     (if roomId = [] then s
      else let s1 = s\<lparr>di_allRows := update_room roomId f (di_allRows s)\<rparr>;
               (s2, reapplied) = reapplyUnreadFilterIfNeeded env s1
           in if reapplied then s2 else s2\<lparr>di_rows := update_room roomId f (di_rows s2)\<rparr>)"

definition setRoomUnreadCount :: "text_env \<Rightarrow> qstring \<Rightarrow> int \<Rightarrow> dialogs_inner \<Rightarrow> dialogs_inner" where
  "setRoomUnreadCount env roomId n s = set_unread_field env roomId (\<lambda>row. row\<lparr>dl_unreadCount := n\<rparr>) s"

definition setRoomHighlightCount :: "text_env \<Rightarrow> qstring \<Rightarrow> int \<Rightarrow> dialogs_inner \<Rightarrow> dialogs_inner" where
  "setRoomHighlightCount env roomId n s = set_unread_field env roomId (\<lambda>row. row\<lparr>dl_highlightCount := n\<rparr>) s"

definition setRoomMarkedUnread :: "text_env \<Rightarrow> qstring \<Rightarrow> bool \<Rightarrow> dialogs_inner \<Rightarrow> dialogs_inner" where
  "setRoomMarkedUnread env roomId marked s = set_unread_field env roomId (\<lambda>row. row\<lparr>dl_isMarkedUnread := marked\<rparr>) s"

definition setActiveFilter :: "text_env \<Rightarrow> int \<Rightarrow> dialogs_inner \<Rightarrow> dialogs_inner" where
  "setActiveFilter env filterId s =
     (if di_activeFilterId s = filterId \<and> di_activeSpaceId s = [] then s
      else applyFilters env (s\<lparr>di_activeFilterId := filterId, di_activeSpaceId := []\<rparr>))"

definition setActiveSpace :: "text_env \<Rightarrow> qstring \<Rightarrow> dialogs_inner \<Rightarrow> dialogs_inner" where
  "setActiveSpace env spaceId s =
     (if di_activeSpaceId s = spaceId then s
      else applyFilters env (s\<lparr>di_activeSpaceId := spaceId, di_activeFilterId := 0\<rparr>))"

definition setSearchFilter :: "text_env \<Rightarrow> qstring \<Rightarrow> dialogs_inner \<Rightarrow> dialogs_inner" where
  "setSearchFilter env query s =
     (let normalized = trimmed (te_isSpace env) query
      in if di_searchQuery s = normalized then s
         else applyFilters env (s\<lparr>di_searchQuery := normalized\<rparr>))"

definition setSavedMessagesRoomId :: "qstring \<Rightarrow> dialogs_inner \<Rightarrow> dialogs_inner" where
  "setSavedMessagesRoomId roomId s = s\<lparr>di_savedMessagesRoomId := roomId\<rparr>"

definition toggled_ids :: "int \<Rightarrow> int list \<Rightarrow> int list" where
  "toggled_ids folderId ids =
     sort (if folderId \<notin> set ids then ids @ [folderId] else remove1 folderId ids)"

definition toggleRoomFolder :: "text_env \<Rightarrow> qstring \<Rightarrow> int \<Rightarrow> dialogs_inner \<Rightarrow> dialogs_inner" where
  "toggleRoomFolder env roomId folderId s =
     (if roomId = [] \<or> folderId \<le> 0 then s
      else let toggle = (\<lambda>row. if dl_roomId row \<noteq> roomId then row
                               else row\<lparr>dl_filterIds := toggled_ids folderId (dl_filterIds row)\<rparr>)
           in applyFilters env (s\<lparr>di_allRows := map toggle (di_allRows s), di_rows := map toggle (di_rows s)\<rparr>))"

definition with_membership :: "int \<Rightarrow> bool \<Rightarrow> int list \<Rightarrow> int list" where
  "with_membership folderId member ids =
     (if member \<and> folderId \<notin> set ids then sort (ids @ [folderId])
      else if \<not> member \<and> folderId \<in> set ids then remove1 folderId ids
      else ids)"

definition setRoomInFolder :: "text_env \<Rightarrow> qstring \<Rightarrow> int \<Rightarrow> bool \<Rightarrow> dialogs_inner \<Rightarrow> dialogs_inner" where
  "setRoomInFolder env roomId folderId member s =
     (if roomId = [] \<or> folderId \<le> 0 then s
      else let change = (\<lambda>row. if dl_roomId row \<noteq> roomId then row
                               else row\<lparr>dl_filterIds := with_membership folderId member (dl_filterIds row)\<rparr>)
           in applyFilters env (s\<lparr>di_allRows := map change (di_allRows s), di_rows := map change (di_rows s)\<rparr>))"

definition roomInFolder :: "dialogs_inner \<Rightarrow> qstring \<Rightarrow> int \<Rightarrow> bool" where
  "roomInFolder s roomId folderId =
     (case find (\<lambda>row. dl_roomId row = roomId) (di_allRows s) of
        None \<Rightarrow> False | Some row \<Rightarrow> folderId \<in> set (dl_filterIds row))"

definition applySavedFolderAssignments :: "(qstring, int list) qhash \<Rightarrow> dialogs_inner \<Rightarrow> dialogs_inner" where
  "applySavedFolderAssignments assignments s =
     s\<lparr>di_allRows := map (\<lambda>row.
         case map_of assignments (dl_roomId row) of
           None \<Rightarrow> row
         | Some fids \<Rightarrow>
             row\<lparr>dl_filterIds := sort (foldl (\<lambda>ids fid. if 2 < fid \<and> fid \<notin> set ids then ids @ [fid] else ids)
                                        (dl_filterIds row) fids)\<rparr>) (di_allRows s)\<rparr>"

definition dialogs_setRoomNotificationMode :: "qstring \<Rightarrow> room_notification_mode \<Rightarrow> dialogs_inner \<Rightarrow> dialogs_inner" where
  "dialogs_setRoomNotificationMode roomId mode s =
     s\<lparr>di_allRows := update_room roomId (setNotificationMode mode) (di_allRows s),
       di_rows := update_room roomId (setNotificationMode mode) (di_rows s)\<rparr>"

text \<open>\<open>updateOnlineStatus\<close>: every chat with the user among all rooms, but of the rows on screen the
  first only; the animation of the badge that follows ends the loop.\<close>

definition updateOnlineStatus :: "qstring \<Rightarrow> int \<Rightarrow> dialogs_inner \<Rightarrow> dialogs_inner" where
  "updateOnlineStatus userId state s =
     (let here = (\<lambda>row. dl_isDirect row \<and> dl_avatarEntityId row = userId)
      in s\<lparr>di_allRows := map (\<lambda>row. if here row then row\<lparr>dl_peerPresence := state\<rparr> else row) (di_allRows s),
           di_rows := update_first here (\<lambda>row. row\<lparr>dl_peerPresence := state\<rparr>) (di_rows s)\<rparr>)"

subsection \<open>What holds between calls\<close>

definition room_ids_ok :: "dialogs_row list \<Rightarrow> bool" where
  "room_ids_ok rows \<longleftrightarrow> distinct (map dl_roomId rows) \<and> [] \<notin> set (map dl_roomId rows)"

text \<open>The positions before \<open>applyFilters\<close> looks the rooms up again.\<close>

definition positions_pending :: "dialogs_inner \<Rightarrow> bool" where
  "positions_pending s \<longleftrightarrow>
     (di_selectedRoomId s = [] \<longrightarrow> di_selectedIndex s = -1) \<and> -1 \<le> di_hoveredIndex s \<and> -1 \<le> di_menuRowIndex s
   \<and> (if di_draggedRoomId s = [] then di_draggedIndex s = -1 \<and> di_dropTargetIndex s = -1 \<and> \<not> di_dragStarted s
      else 0 \<le> di_draggedIndex s)"

definition positions_ok :: "dialogs_inner \<Rightarrow> bool" where
  "positions_ok s \<longleftrightarrow>
     (let n = int (length (di_rows s))
      in di_selectedIndex s = (if di_selectedRoomId s = [] then -1 else room_position (di_selectedRoomId s) (di_rows s))
       \<and> -1 \<le> di_hoveredIndex s \<and> di_hoveredIndex s < n \<and> -1 \<le> di_menuRowIndex s \<and> di_menuRowIndex s < n
       \<and> -1 \<le> di_dropTargetIndex s \<and> di_dropTargetIndex s < n
       \<and> (if di_draggedRoomId s = [] then di_draggedIndex s = -1 \<and> di_dropTargetIndex s = -1 \<and> \<not> di_dragStarted s
          else 0 \<le> di_draggedIndex s \<and> di_draggedIndex s = room_position (di_draggedRoomId s) (di_rows s)))"

definition list_current :: "text_env \<Rightarrow> dialogs_inner \<Rightarrow> bool" where
  "list_current env s \<longleftrightarrow>
     room_ids_ok (di_allRows s) \<and> row_order.ordered (di_allRows s)
   \<and> di_allRowsByRoomId s = all_rows_index (di_allRows s)
   \<and> di_rows s = filtered_rows env s \<and> positions_ok s"

lemma row_position_cong:
  "(\<And>x. x \<in> set xs \<Longrightarrow> Q (f x) = P x) \<Longrightarrow> row_position Q i (map f xs) = row_position P i xs"
  by (induction xs arbitrary: i) auto

lemma row_position_cases:
  "0 \<le> i \<Longrightarrow> (row_position P i xs = -1 \<and> (\<forall>x \<in> set xs. \<not> P x))
   \<or> (\<exists>k < length xs. row_position P i xs = i + int k \<and> P (xs ! k) \<and> (\<forall>j < k. \<not> P (xs ! j)))"
proof (induction xs arbitrary: i)
  case (Cons x xs)
  show ?case
  proof (cases "P x")
    case True
    then have "row_position P i (x # xs) = i + int 0 \<and> P ((x # xs) ! 0)" by simp
    then show ?thesis by blast
  next
    case False
    consider "row_position P (i + 1) xs = -1" "\<forall>y \<in> set xs. \<not> P y"
      | k where "k < length xs" "row_position P (i + 1) xs = i + 1 + int k" "P (xs ! k)" "\<forall>j < k. \<not> P (xs ! j)"
      using Cons.IH [of "i + 1"] Cons.prems by auto
    then show ?thesis
    proof cases
      case 1
      then show ?thesis using False by simp
    next
      case (2 k)
      have "\<not> P ((x # xs) ! j)" if "j < Suc k" for j
        using that False 2(4) by (cases j) auto
      then have "Suc k < length (x # xs) \<and> row_position P i (x # xs) = i + int (Suc k)
          \<and> P ((x # xs) ! Suc k) \<and> (\<forall>j < Suc k. \<not> P ((x # xs) ! j))"
        using 2 False by simp
      then show ?thesis by blast
    qed
  qed
qed simp

lemma room_position_cases:
  obtains (absent) "room_position r rows = -1" "r \<notin> set (map dl_roomId rows)"
    | (found) k where "k < length rows" "room_position r rows = int k" "dl_roomId (rows ! k) = r"
  using row_position_cases [of 0 "\<lambda>row. dl_roomId row = r" rows] unfolding room_position_def
  by (auto simp del: row_position.simps)

lemma room_position_bounds: "-1 \<le> room_position r rows \<and> room_position r rows < int (length rows)"
  by (rule room_position_cases [of r rows]) auto

lemma room_position_nth:
  assumes "distinct (map dl_roomId rows)" "k < length rows"
  shows "room_position (dl_roomId (rows ! k)) rows = int k"
proof (rule room_position_cases [of "dl_roomId (rows ! k)" rows])
  assume "dl_roomId (rows ! k) \<notin> set (map dl_roomId rows)"
  then show ?thesis using assms(2) by simp
next
  fix j assume j: "j < length rows" "room_position (dl_roomId (rows ! k)) rows = int j"
    "dl_roomId (rows ! j) = dl_roomId (rows ! k)"
  then have "j = k" using assms by (metis length_map nth_eq_iff_index_eq nth_map)
  then show ?thesis using j(2) by simp
qed

lemma update_room_map:
  "distinct (map dl_roomId rows) \<Longrightarrow>
   update_room r f rows = map (\<lambda>row. if dl_roomId row = r then f row else row) rows"
  unfolding update_room_def
proof (induction rows)
  case (Cons row rows)
  show ?case
  proof (cases "dl_roomId row = r")
    case True
    then have "map (\<lambda>row. if dl_roomId row = r then f row else row) rows = rows"
      using Cons.prems by (intro map_idI) (auto simp: image_iff)
    then show ?thesis using True by simp
  qed (use Cons in simp)
qed simp

subsection \<open>The rows on screen\<close>

lemma set_filtered_rows: "set (filtered_rows env s) \<subseteq> set (di_allRows s)"
  by (auto simp: filtered_rows_def scored_rows_def)

lemma filtered_rows_distinct:
  assumes "distinct (map dl_roomId (di_allRows s))"
  shows "distinct (map dl_roomId (filtered_rows env s))"
proof (cases "normalizedQuery env s = []")
  case True
  then show ?thesis using assms by (simp add: filtered_rows_def distinct_map_filter)
next
  case False
  define hits where "hits = scored_rows env (normalizedQuery env s) (di_allRows s)"
  have "map (dl_roomId \<circ> fst) (map (\<lambda>row. (row, searchScore env row q)) rows) = map dl_roomId rows" for q rows
    by simp
  then have "distinct (map (dl_roomId \<circ> fst) hits)"
    using assms unfolding hits_def scored_rows_def by (intro distinct_map_filter) (simp add: comp_def)
  then have "distinct (map (dl_roomId \<circ> fst) (stable_sort score_less hits))"
    by (simp only: distinct_stable_sort)
  then show ?thesis using False by (simp add: filtered_rows_def hits_def)
qed

text \<open>A change that moves no row between views or within the order.\<close>

definition keeps_place :: "text_env \<Rightarrow> dialogs_inner \<Rightarrow> (dialogs_row \<Rightarrow> dialogs_row) \<Rightarrow> bool" where
  "keeps_place env s f \<longleftrightarrow>
     (\<forall>row \<in> set (di_allRows s).
        dl_roomId (f row) = dl_roomId row \<and> dl_displayName (f row) = dl_displayName row
      \<and> dl_isPinned (f row) = dl_isPinned row \<and> dl_pinnedIndex (f row) = dl_pinnedIndex row
      \<and> dl_membership (f row) = dl_membership row \<and> dl_timestamp (f row) = dl_timestamp row
      \<and> (normalizedQuery env s = [] \<longrightarrow> in_view s (f row) = in_view s row))"

lemma searchScore_cong:
  "dl_roomId a = dl_roomId b \<Longrightarrow> dl_displayName a = dl_displayName b \<Longrightarrow> searchScore env a q = searchScore env b q"
  by (simp add: searchScore_def searchableText_def)

lemma row_less_cong:
  "keeps_place env s f \<Longrightarrow> a \<in> set (di_allRows s) \<Longrightarrow> b \<in> set (di_allRows s) \<Longrightarrow> row_less (f a) (f b) = row_less a b"
  by (simp add: keeps_place_def row_less_def)

lemma filtered_rows_map:
  assumes keep: "keeps_place env s f"
  shows "filtered_rows env (s\<lparr>di_allRows := map f (di_allRows s), di_rows := rs\<rparr>) = map f (filtered_rows env s)"
proof -
  define t where "t = s\<lparr>di_allRows := map f (di_allRows s), di_rows := rs\<rparr>"
  have query: "normalizedQuery env t = normalizedQuery env s" and all: "di_allRows t = map f (di_allRows s)"
    by (simp_all add: t_def normalizedQuery_def)
  have view: "in_view t = in_view s" by (simp add: t_def in_view_def fun_eq_iff)
  show ?thesis
  proof (cases "normalizedQuery env s = []")
    case True
    have "filter (in_view s) (map f (di_allRows s)) = map f (filter (in_view s) (di_allRows s))"
      using keep True unfolding filter_map by (intro arg_cong [of _ _ "map f"] filter_cong) (simp_all add: keeps_place_def)
    then show ?thesis using True unfolding t_def [symmetric] by (simp add: filtered_rows_def query all view)
  next
    case False
    let ?q = "normalizedQuery env s" and ?g = "\<lambda>sr. (f (fst sr), snd sr)"
    have hits: "scored_rows env ?q (map f (di_allRows s)) = map ?g (scored_rows env ?q (di_allRows s))"
    proof -
      have "searchScore env (f row) ?q = searchScore env row ?q" if "row \<in> set (di_allRows s)" for row
        using keep that by (intro searchScore_cong) (simp_all add: keeps_place_def)
      then have pairs: "map (\<lambda>row. (row, searchScore env row ?q)) (map f (di_allRows s))
          = map ?g (map (\<lambda>row. (row, searchScore env row ?q)) (di_allRows s))"
        by simp
      show ?thesis unfolding scored_rows_def pairs filter_map by (simp add: comp_def)
    qed
    have same: "dl_isPinned (f (fst a)) = dl_isPinned (fst a)" "dl_timestamp (f (fst a)) = dl_timestamp (fst a)"
      if "a \<in> set (scored_rows env ?q (di_allRows s))" for a
    proof -
      have "fst a \<in> set (di_allRows s)" using that by (auto simp: scored_rows_def)
      then show "dl_isPinned (f (fst a)) = dl_isPinned (fst a)" "dl_timestamp (f (fst a)) = dl_timestamp (fst a)"
        using keep by (simp_all add: keeps_place_def)
    qed
    have "score_less (?g a) (?g b) = score_less a b"
      if "a \<in> set (scored_rows env ?q (di_allRows s))" "b \<in> set (scored_rows env ?q (di_allRows s))" for a b
      by (simp add: score_less_def same [OF that(1)] same [OF that(2)])
    then have "stable_sort score_less (map ?g (scored_rows env ?q (di_allRows s)))
        = map ?g (stable_sort score_less (scored_rows env ?q (di_allRows s)))"
      by (rule stable_sort_map)
    then show ?thesis using False unfolding t_def [symmetric] by (simp add: filtered_rows_def query all hits)
  qed
qed

lemma ordered_map:
  assumes "row_order.ordered xs" "\<And>a b. a \<in> set xs \<Longrightarrow> b \<in> set xs \<Longrightarrow> row_less (f a) (f b) = row_less a b"
  shows "row_order.ordered (map f xs)"
  unfolding row_order.ordered_def sorted_wrt_map
  by (rule sorted_wrt_mono_rel [OF _ assms(1) [unfolded row_order.ordered_def]]) (simp add: assms(2))

lemma filtered_rows_cong:
  assumes "di_allRows t = di_allRows s" "di_activeFilterId t = di_activeFilterId s"
    "di_activeSpaceId t = di_activeSpaceId s" "di_savedMessagesRoomId t = di_savedMessagesRoomId s"
    "di_searchQuery t = di_searchQuery s"
  shows "filtered_rows env t = filtered_rows env s"
proof -
  have "in_view t = in_view s" using assms by (simp add: in_view_def fun_eq_iff)
  then show ?thesis using assms by (simp add: filtered_rows_def normalizedQuery_def)
qed

subsection \<open>Every call leaves the list current\<close>

lemma applyFilters_fields [simp]:
  "di_allRows (applyFilters env s) = di_allRows s"
  "di_activeFilterId (applyFilters env s) = di_activeFilterId s"
  "di_activeSpaceId (applyFilters env s) = di_activeSpaceId s"
  "di_savedMessagesRoomId (applyFilters env s) = di_savedMessagesRoomId s"
  "di_searchQuery (applyFilters env s) = di_searchQuery s"
  "di_selectedRoomId (applyFilters env s) = di_selectedRoomId s"
  "di_drafts (applyFilters env s) = di_drafts s"
  "di_searchResults (applyFilters env s) = di_searchResults s"
  "di_searchHoveredIndex (applyFilters env s) = di_searchHoveredIndex s"
  "di_searchSelectedIndex (applyFilters env s) = di_searchSelectedIndex s"
  "di_allRowsByRoomId (applyFilters env s) = all_rows_index (di_allRows s)"
  by (simp_all add: applyFilters_def rebuildAllRowsIndex_def resolve_selected_def drop_stale_positions_def
      resolve_dragged_def Let_def)

lemma applyFilters_rows [simp]: "di_rows (applyFilters env s) = filtered_rows env s"
proof -
  have "di_rows (applyFilters env s) = filtered_rows env (rebuildAllRowsIndex s)"
    by (simp add: applyFilters_def resolve_selected_def drop_stale_positions_def resolve_dragged_def Let_def)
  also have "\<dots> = filtered_rows env s" by (rule filtered_rows_cong) (simp_all add: rebuildAllRowsIndex_def)
  finally show ?thesis .
qed

lemma applyFilters_selected:
  "di_selectedIndex (applyFilters env s) =
     (if di_selectedRoomId s \<noteq> [] then room_position (di_selectedRoomId s) (filtered_rows env s) else di_selectedIndex s)"
proof -
  have "filtered_rows env (rebuildAllRowsIndex s) = filtered_rows env s"
    by (rule filtered_rows_cong) (simp_all add: rebuildAllRowsIndex_def)
  then show ?thesis
    by (simp add: applyFilters_def drop_stale_positions_def resolve_dragged_def Let_def)
       (simp add: resolve_selected_def rebuildAllRowsIndex_def)
qed

lemma applyFilters_hover_menu:
  "di_hoveredIndex (applyFilters env s) =
     (if int (length (filtered_rows env s)) \<le> di_hoveredIndex s then -1 else di_hoveredIndex s)"
  "di_menuRowIndex (applyFilters env s) =
     (if int (length (filtered_rows env s)) \<le> di_menuRowIndex s then -1 else di_menuRowIndex s)"
proof -
  have "filtered_rows env (rebuildAllRowsIndex s) = filtered_rows env s"
    by (rule filtered_rows_cong) (simp_all add: rebuildAllRowsIndex_def)
  then show
    "di_hoveredIndex (applyFilters env s) =
       (if int (length (filtered_rows env s)) \<le> di_hoveredIndex s then -1 else di_hoveredIndex s)"
    "di_menuRowIndex (applyFilters env s) =
       (if int (length (filtered_rows env s)) \<le> di_menuRowIndex s then -1 else di_menuRowIndex s)"
    by (simp_all add: applyFilters_def resolve_selected_def resolve_dragged_def Let_def)
       (simp_all add: drop_stale_positions_def rebuildAllRowsIndex_def Let_def)
qed

definition reresolved :: "text_env \<Rightarrow> dialogs_inner \<Rightarrow> int" where
  "reresolved env s =
     (if di_draggedRoomId s \<noteq> [] then room_position (di_draggedRoomId s) (filtered_rows env s) else -1)"

lemma applyFilters_drag:
  "di_draggedIndex (applyFilters env s) = (if 0 \<le> di_draggedIndex s then reresolved env s else di_draggedIndex s)"
  "di_draggedRoomId (applyFilters env s) =
     (if 0 \<le> di_draggedIndex s \<and> reresolved env s < 0 then [] else di_draggedRoomId s)"
  "di_dragStarted (applyFilters env s) \<longleftrightarrow>
     di_dragStarted s \<and> \<not> (0 \<le> di_draggedIndex s \<and> reresolved env s < 0)"
  "di_dropTargetIndex (applyFilters env s) = (if 0 \<le> di_draggedIndex s then -1 else di_dropTargetIndex s)"
proof -
  define t where "t = drop_stale_positions (resolve_selected
    ((rebuildAllRowsIndex s)\<lparr>di_rows := filtered_rows env (rebuildAllRowsIndex s)\<rparr>))"
  have run: "applyFilters env s = resolve_dragged t" by (simp add: applyFilters_def t_def Let_def)
  have "filtered_rows env (rebuildAllRowsIndex s) = filtered_rows env s"
    by (rule filtered_rows_cong) (simp_all add: rebuildAllRowsIndex_def)
  then have t: "di_rows t = filtered_rows env s" "di_draggedRoomId t = di_draggedRoomId s"
    "di_draggedIndex t = di_draggedIndex s" "di_dropTargetIndex t = di_dropTargetIndex s"
    "di_dragStarted t = di_dragStarted s"
    by (simp_all add: t_def resolve_selected_def drop_stale_positions_def rebuildAllRowsIndex_def Let_def)
  show "di_draggedIndex (applyFilters env s) = (if 0 \<le> di_draggedIndex s then reresolved env s else di_draggedIndex s)"
    unfolding run by (simp add: resolve_dragged_def reresolved_def t Let_def)
  show "di_draggedRoomId (applyFilters env s) =
      (if 0 \<le> di_draggedIndex s \<and> reresolved env s < 0 then [] else di_draggedRoomId s)"
    unfolding run by (simp add: resolve_dragged_def reresolved_def t Let_def)
  show "di_dragStarted (applyFilters env s) \<longleftrightarrow>
      di_dragStarted s \<and> \<not> (0 \<le> di_draggedIndex s \<and> reresolved env s < 0)"
    unfolding run by (auto simp: resolve_dragged_def reresolved_def t Let_def)
  show "di_dropTargetIndex (applyFilters env s) = (if 0 \<le> di_draggedIndex s then -1 else di_dropTargetIndex s)"
    unfolding run by (simp add: resolve_dragged_def reresolved_def t Let_def)
qed

lemma applyFilters_positions:
  assumes "positions_pending s"
  shows "positions_ok (applyFilters env s)"
  using assms room_position_bounds [of "di_draggedRoomId s" "filtered_rows env s"]
  unfolding positions_pending_def positions_ok_def applyFilters_rows applyFilters_fields
    applyFilters_selected applyFilters_hover_menu applyFilters_drag reresolved_def Let_def
  by (simp split: if_splits)

lemma positions_ok_pending: "positions_ok s \<Longrightarrow> positions_pending s"
  by (auto simp: positions_ok_def positions_pending_def Let_def split: if_splits)

lemma applyFilters_current:
  assumes "room_ids_ok (di_allRows s)" "row_order.ordered (di_allRows s)" "positions_pending s"
  shows "list_current env (applyFilters env s)"
proof -
  have "filtered_rows env (applyFilters env s) = filtered_rows env s" by (rule filtered_rows_cong) simp_all
  then show ?thesis using assms applyFilters_positions [OF assms(3)] by (simp add: list_current_def)
qed

lemma keeps_current:
  assumes cur: "list_current env s" and keep: "keeps_place env s f"
  shows "list_current env (s\<lparr>di_allRows := map f (di_allRows s), di_rows := map f (di_rows s)\<rparr>)"
proof -
  have ids: "map dl_roomId (map f (di_allRows s)) = map dl_roomId (di_allRows s)"
    using keep by (simp add: keeps_place_def)
  have sub: "set (di_rows s) \<subseteq> set (di_allRows s)"
    using cur set_filtered_rows by (simp add: list_current_def)
  then have place: "room_position r (map f (di_rows s)) = room_position r (di_rows s)" for r
    using keep unfolding room_position_def by (intro row_position_cong) (auto simp: keeps_place_def)
  have "row_order.ordered (map f (di_allRows s))"
    using cur row_less_cong [OF keep] by (intro ordered_map) (simp_all add: list_current_def)
  moreover have "room_ids_ok (map f (di_allRows s))" "all_rows_index (map f (di_allRows s)) = all_rows_index (di_allRows s)"
    using cur unfolding room_ids_ok_def all_rows_index_def ids by (simp_all add: list_current_def room_ids_ok_def)
  moreover have "positions_ok (s\<lparr>di_allRows := map f (di_allRows s), di_rows := map f (di_rows s)\<rparr>)"
    using cur [unfolded list_current_def, THEN conjunct2, THEN conjunct2, THEN conjunct2, THEN conjunct2]
    by (auto simp: positions_ok_def place Let_def split: if_splits)
  ultimately show ?thesis
    using cur filtered_rows_map [OF keep, of "map f (di_rows s)"] by (simp add: list_current_def)
qed

text \<open>Fields the list on screen does not depend on.\<close>

lemma list_current_cong:
  assumes "di_allRows t = di_allRows s" "di_activeFilterId t = di_activeFilterId s"
    "di_activeSpaceId t = di_activeSpaceId s" "di_savedMessagesRoomId t = di_savedMessagesRoomId s"
    "di_searchQuery t = di_searchQuery s" "di_allRowsByRoomId t = di_allRowsByRoomId s"
    "di_rows t = di_rows s" "di_selectedRoomId t = di_selectedRoomId s"
    "di_selectedIndex t = di_selectedIndex s" "di_hoveredIndex t = di_hoveredIndex s"
    "di_menuRowIndex t = di_menuRowIndex s" "di_draggedRoomId t = di_draggedRoomId s"
    "di_draggedIndex t = di_draggedIndex s" "di_dropTargetIndex t = di_dropTargetIndex s"
    "di_dragStarted t = di_dragStarted s"
  shows "list_current env t = list_current env s"
  using filtered_rows_cong [OF assms(1-5)] by (simp add: list_current_def positions_ok_def assms)

lemma list_current_frame [simp]:
  "list_current env (s\<lparr>di_drafts := d\<rparr>) = list_current env s"
  "list_current env (s\<lparr>di_searchResults := a\<rparr>) = list_current env s"
  "list_current env (s\<lparr>di_searchHoveredIndex := i\<rparr>) = list_current env s"
  "list_current env (s\<lparr>di_searchSelectedIndex := i\<rparr>) = list_current env s"
  "list_current env (s\<lparr>di_searchTotalApprox := i\<rparr>) = list_current env s"
  "list_current env (s\<lparr>di_searchDone := b\<rparr>) = list_current env s"
  "list_current env (s\<lparr>di_messageSearchMode := b\<rparr>) = list_current env s"
  "list_current env (s\<lparr>di_messageSearchTopInset := i\<rparr>) = list_current env s"
  "list_current env (s\<lparr>di_initialLoading := b\<rparr>) = list_current env s"
  "list_current env (s\<lparr>di_searchLoading := b\<rparr>) = list_current env s"
  "list_current env (s\<lparr>di_searchResolved := b\<rparr>) = list_current env s"
  "list_current env (s\<lparr>di_searchE2eeDisabled := b\<rparr>) = list_current env s"
  "list_current env (s\<lparr>di_searchIndexing := b\<rparr>) = list_current env s"
  "list_current env (s\<lparr>di_messageSearchQuery := q\<rparr>) = list_current env s"
  "list_current env (s\<lparr>di_messageSearchGlobalScope := b\<rparr>) = list_current env s"
  "list_current env (s\<lparr>di_viewportHeight := i\<rparr>) = list_current env s"
  "list_current env (s\<lparr>di_dragStartY := i\<rparr>) = list_current env s"
  "list_current env (s\<lparr>di_dragCurrentY := i\<rparr>) = list_current env s"
  by (rule list_current_cong; simp)+

lemma current_rooms: "list_current env s \<Longrightarrow> room_ids_ok (di_allRows s)"
  and current_ordered: "list_current env s \<Longrightarrow> row_order.ordered (di_allRows s)"
  and current_rows: "list_current env s \<Longrightarrow> di_rows s = filtered_rows env s"
  and current_positions: "list_current env s \<Longrightarrow> positions_ok s"
  by (simp_all add: list_current_def)

lemma current_pending: "list_current env s \<Longrightarrow> positions_pending s"
  by (intro positions_ok_pending current_positions)

lemmas current_facts = current_rooms current_ordered current_pending

lemma current_distinct: "list_current env s \<Longrightarrow> distinct (map dl_roomId (di_rows s))"
  using filtered_rows_distinct [of s env] by (simp add: list_current_def room_ids_ok_def)

lemma initial_current: "list_current env initial_dialogs"
  by (simp add: list_current_def initial_dialogs_def room_ids_ok_def row_order.ordered_def all_rows_index_def
      filtered_rows_def scored_rows_def positions_ok_def)

lemma setRooms_current:
  assumes "list_current env s" "distinct (map rs_roomId rooms)" "[] \<notin> set (map rs_roomId rooms)"
  shows "list_current env (setRooms env rooms s)"
proof -
  define fresh where "fresh = map (\<lambda>room. row_setDraft env (hash_value [] (rs_roomId room) (di_drafts s))
                                (updateFrom env room new_row)) rooms"
  have ids: "map dl_roomId fresh = map rs_roomId rooms"
    by (simp add: fresh_def row_setDraft_def updateFrom_def Let_def)
  have "distinct (map dl_roomId (stable_sort row_less fresh))" unfolding distinct_stable_sort ids by (rule assms(2))
  moreover have "set (map dl_roomId (stable_sort row_less fresh)) = set (map rs_roomId rooms)"
    by (metis ids set_map set_stable_sort)
  ultimately have ok: "room_ids_ok (stable_sort row_less fresh)" using assms(3) by (simp add: room_ids_ok_def)
  show ?thesis
    using current_pending [OF assms(1)] ok row_order.sorted [of fresh]
    unfolding setRooms_def Let_def fresh_def [symmetric]
    by (intro applyFilters_current) (simp_all add: rebuildAllRowsIndex_def positions_pending_def)
qed

lemma current_update_room:
  assumes cur: "list_current env s"
    and keep: "keeps_place env s (\<lambda>row. if dl_roomId row = r then f row else row)"
  shows "list_current env (s\<lparr>di_allRows := update_room r f (di_allRows s), di_rows := update_room r f (di_rows s)\<rparr>)"
  using keeps_current [OF cur keep] current_rooms [OF cur] current_distinct [OF cur]
  by (simp add: room_ids_ok_def update_room_map)

lemma setDraft_current:
  assumes "list_current env s"
  shows "list_current env (setDraft env r str s)"
proof (cases "r = []")
  case False
  have "keeps_place env s (\<lambda>row. if dl_roomId row = r then row_setDraft env draft row else row)" for draft
    by (simp add: keeps_place_def row_setDraft_def Let_def in_view_def hasUnreadIndicator_def hasMentionBadge_def)
  from current_update_room [OF assms this] show ?thesis using False by (simp add: setDraft_def Let_def)
qed (simp add: assms setDraft_def)

lemma dialogs_setRoomNotificationMode_current:
  assumes "list_current env s"
  shows "list_current env (dialogs_setRoomNotificationMode r mode s)"
proof -
  have "keeps_place env s (\<lambda>row. if dl_roomId row = r then setNotificationMode mode row else row)"
    by (simp add: keeps_place_def setNotificationMode_def in_view_def hasUnreadIndicator_def hasMentionBadge_def)
  from current_update_room [OF assms this] show ?thesis by (simp add: dialogs_setRoomNotificationMode_def)
qed

text \<open>A change of rows that \<open>applyFilters\<close> follows needs to keep ids and order only.\<close>

lemma current_refilter:
  assumes cur: "list_current env s"
    and keep: "\<And>row. dl_roomId (f row) = dl_roomId row \<and> dl_isPinned (f row) = dl_isPinned row
       \<and> dl_pinnedIndex (f row) = dl_pinnedIndex row \<and> dl_membership (f row) = dl_membership row
       \<and> dl_timestamp (f row) = dl_timestamp row"
    and "di_allRows t = map f (di_allRows s)" "positions_pending t"
  shows "list_current env (applyFilters env t)"
proof (rule applyFilters_current)
  have "map dl_roomId (di_allRows t) = map dl_roomId (di_allRows s)" using keep by (simp add: assms(3))
  then show "room_ids_ok (di_allRows t)" using current_rooms [OF cur] unfolding room_ids_ok_def by metis
  have "row_less (f a) (f b) = row_less a b" for a b using keep by (simp add: row_less_def)
  then show "row_order.ordered (di_allRows t)"
    unfolding assms(3) using current_ordered [OF cur] by (intro ordered_map)
qed (rule assms(4))

lemma set_unread_current:
  assumes cur: "list_current env s"
    and keep: "\<And>row. dl_roomId (f row) = dl_roomId row \<and> dl_displayName (f row) = dl_displayName row
       \<and> dl_isPinned (f row) = dl_isPinned row \<and> dl_pinnedIndex (f row) = dl_pinnedIndex row
       \<and> dl_membership (f row) = dl_membership row \<and> dl_timestamp (f row) = dl_timestamp row
       \<and> dl_spaceIds (f row) = dl_spaceIds row \<and> dl_isDirect (f row) = dl_isDirect row
       \<and> dl_filterIds (f row) = dl_filterIds row"
    and query: "trimmed (te_isSpace env) (di_searchQuery s) \<noteq> [] \<Longrightarrow> normalizedQuery env s \<noteq> []"
  shows "list_current env (set_unread_field env r f s)"
proof (cases "r = []")
  case False
  define g where "g = (\<lambda>row. if dl_roomId row = r then f row else row)"
  have rows: "update_room r f (di_allRows s) = map g (di_allRows s)" "update_room r f (di_rows s) = map g (di_rows s)"
    using current_rooms [OF cur] current_distinct [OF cur] by (simp_all add: g_def room_ids_ok_def update_room_map)
  show ?thesis
  proof (cases "di_activeFilterId s \<noteq> 2 \<or> trimmed (te_isSpace env) (di_searchQuery s) \<noteq> []")
    case True
    then have "keeps_place env s g"
      using keep query by (auto simp: keeps_place_def g_def in_view_def)
    from keeps_current [OF cur this] show ?thesis
      using True False by (simp add: set_unread_field_def reapplyUnreadFilterIfNeeded_def Let_def rows)
  next
    case stale: False
    have "list_current env (applyFilters env (s\<lparr>di_allRows := map g (di_allRows s)\<rparr>))"
      using cur by (rule current_refilter [where f = g])
        (use keep current_pending [OF cur] in \<open>simp_all add: g_def positions_pending_def\<close>)
    then show ?thesis
      using stale False by (simp add: set_unread_field_def reapplyUnreadFilterIfNeeded_def Let_def rows)
  qed
qed (simp add: cur set_unread_field_def)

text \<open>What the code relies on of \<open>toLower\<close>: a text stays non-empty.\<close>

definition lower_ok :: "text_env \<Rightarrow> bool" where
  "lower_ok env \<longleftrightarrow> (\<forall>str. str \<noteq> [] \<longrightarrow> te_toLower env str \<noteq> [])"

lemma query_kept:
  "lower_ok env \<Longrightarrow> trimmed (te_isSpace env) (di_searchQuery s) \<noteq> [] \<Longrightarrow> normalizedQuery env s \<noteq> []"
  by (cases "di_searchQuery s") (auto simp: lower_ok_def normalizedQuery_def trimmed_def)

lemma unread_setters_current:
  assumes "list_current env s" "lower_ok env"
  shows "list_current env (setRoomUnreadCount env r n s)"
    "list_current env (setRoomHighlightCount env r n s)"
    "list_current env (setRoomMarkedUnread env r b s)"
  unfolding setRoomUnreadCount_def setRoomHighlightCount_def setRoomMarkedUnread_def
  by (rule set_unread_current; simp add: assms query_kept)+

lemma setActiveFilter_current: "list_current env s \<Longrightarrow> list_current env (setActiveFilter env i s)"
  using current_facts [of env s] applyFilters_current [of "s\<lparr>di_activeFilterId := i, di_activeSpaceId := []\<rparr>" env]
  by (simp add: setActiveFilter_def positions_pending_def)

lemma setActiveSpace_current: "list_current env s \<Longrightarrow> list_current env (setActiveSpace env i s)"
  using current_facts [of env s] applyFilters_current [of "s\<lparr>di_activeSpaceId := i, di_activeFilterId := 0\<rparr>" env]
  by (simp add: setActiveSpace_def positions_pending_def)

lemma setSearchFilter_current: "list_current env s \<Longrightarrow> list_current env (setSearchFilter env q s)"
  using current_facts [of env s]
    applyFilters_current [of "s\<lparr>di_searchQuery := trimmed (te_isSpace env) q\<rparr>" env]
  by (simp add: setSearchFilter_def Let_def positions_pending_def)

lemma toggleRoomFolder_current:
  assumes "list_current env s"
  shows "list_current env (toggleRoomFolder env r i s)"
proof -
  define f where "f row = (if dl_roomId row \<noteq> r then row
      else row\<lparr>dl_filterIds := toggled_ids i (dl_filterIds row)\<rparr>)" for row :: dialogs_row
  have "list_current env (applyFilters env (s\<lparr>di_allRows := map f (di_allRows s), di_rows := map f (di_rows s)\<rparr>))"
    by (rule current_refilter [OF assms, where f = f])
       (use current_pending [OF assms] in \<open>simp_all add: f_def positions_pending_def\<close>)
  then show ?thesis using assms by (simp add: toggleRoomFolder_def f_def [abs_def] Let_def)
qed

lemma setRoomInFolder_current:
  assumes "list_current env s"
  shows "list_current env (setRoomInFolder env r i b s)"
proof -
  define f where "f row = (if dl_roomId row \<noteq> r then row
      else row\<lparr>dl_filterIds := with_membership i b (dl_filterIds row)\<rparr>)" for row :: dialogs_row
  have "list_current env (applyFilters env (s\<lparr>di_allRows := map f (di_allRows s), di_rows := map f (di_rows s)\<rparr>))"
    by (rule current_refilter [OF assms, where f = f])
       (use current_pending [OF assms] in \<open>simp_all add: f_def positions_pending_def\<close>)
  then show ?thesis using assms by (simp add: setRoomInFolder_def f_def [abs_def] Let_def)
qed

text \<open>The calls below keep the list current under a condition.  Naming the room of Saved Messages
  does unless the rows of Personal are shown, presence does when at most one chat on screen is
  with the user.\<close>

lemma setSavedMessagesRoomId_current:
  assumes cur: "list_current env s"
    and shown: "normalizedQuery env s = [] \<Longrightarrow> di_activeSpaceId s = [] \<Longrightarrow> di_activeFilterId s = 1 \<Longrightarrow> r = di_savedMessagesRoomId s"
  shows "list_current env (setSavedMessagesRoomId r s)"
proof -
  have "filtered_rows env (setSavedMessagesRoomId r s) = filtered_rows env s"
  proof (cases "normalizedQuery env s = []")
    case True
    then have "in_view (setSavedMessagesRoomId r s) = in_view s"
      using shown by (auto simp: in_view_def fun_eq_iff setSavedMessagesRoomId_def)
    then show ?thesis by (simp add: filtered_rows_def normalizedQuery_def setSavedMessagesRoomId_def)
  qed (simp add: filtered_rows_def normalizedQuery_def setSavedMessagesRoomId_def)
  moreover have "positions_ok (setSavedMessagesRoomId r s) = positions_ok s"
    by (simp add: positions_ok_def setSavedMessagesRoomId_def)
  ultimately show ?thesis
    using cur unfolding list_current_def setSavedMessagesRoomId_def by simp
qed

lemma update_first_only:
  assumes "\<And>i j. i < length xs \<Longrightarrow> j < length xs \<Longrightarrow> P (xs ! i) \<Longrightarrow> P (xs ! j) \<Longrightarrow> i = j"
  shows "update_first P f xs = map (\<lambda>x. if P x then f x else x) xs"
  using assms
proof (induction xs)
  case (Cons x xs)
  show ?case
  proof (cases "P x")
    case True
    have "\<not> P y" if y: "y \<in> set xs" for y
    proof
      assume "P y"
      obtain j where "j < length xs" "xs ! j = y" using y by (auto simp: in_set_conv_nth)
      then show False using Cons.prems [of 0 "Suc j"] True \<open>P y\<close> by simp
    qed
    then have "map (\<lambda>x. if P x then f x else x) xs = xs" by (intro map_idI) auto
    then show ?thesis using True by simp
  next
    case False
    have "update_first P f xs = map (\<lambda>x. if P x then f x else x) xs"
      using Cons.prems [of "Suc _" "Suc _"] by (intro Cons.IH) auto
    then show ?thesis using False by simp
  qed
qed simp

definition chats_with :: "qstring \<Rightarrow> dialogs_row list \<Rightarrow> dialogs_row list" where
  "chats_with userId rows = filter (\<lambda>row. dl_isDirect row \<and> dl_avatarEntityId row = userId) rows"

lemma updateOnlineStatus_current:
  assumes cur: "list_current env s" and one: "length (chats_with u (di_rows s)) \<le> 1"
  shows "list_current env (updateOnlineStatus u p s)"
proof -
  define f where "f row = (if dl_isDirect row \<and> dl_avatarEntityId row = u then row\<lparr>dl_peerPresence := p\<rparr> else row)" for row :: dialogs_row
  have "i = j" if "i < length xs" "j < length xs" "P (xs ! i)" "P (xs ! j)" "length (filter P xs) \<le> 1"
    for i j P and xs :: "dialogs_row list"
    using that card_le_Suc0_iff_eq [of "{i. i < length xs \<and> P (xs ! i)}"]
    by (simp add: length_filter_conv_card)
  note only = this
  have rows: "update_first (\<lambda>row. dl_isDirect row \<and> dl_avatarEntityId row = u) (\<lambda>row. row\<lparr>dl_peerPresence := p\<rparr>) (di_rows s)
      = map f (di_rows s)"
    unfolding f_def by (rule update_first_only, rule only [OF _ _ _ _ one [unfolded chats_with_def]])
  have "keeps_place env s f"
    by (simp add: keeps_place_def f_def in_view_def hasUnreadIndicator_def hasMentionBadge_def)
  from keeps_current [OF cur this] show ?thesis
    by (simp add: updateOnlineStatus_def rows Let_def f_def [abs_def])
qed

end
