(* ===== verification/Dialogs_Pins.thy ===== *)
theory Dialogs_Pins imports Dialogs_List begin

section \<open>Pinned chats\<close>

text \<open>
  Pinning, the order of the pinned rooms and dragging them, of \<open>DialogsInner\<close>
  (\<^verbatim>\<open>src/src/dialogs/dialogs_inner.cpp\<close>): \<open>setRoomPinned\<close>, \<open>applyPinnedOrder\<close> and the drop in
  \<open>mouseReleaseEvent\<close>.  \<open>std::sort\<close> is the stable sort, which matters for equal orders only.

  Shown: a drop moves the dragged row to the row it was dropped on and leaves the others in their
  order (\<open>drop_dragged_spec\<close>), in a folder as well, where the rows between are not on screen.
\<close>

datatype dialogs_signal =
  RoomSelected qstring
| PinnedOrderChanged "qstring list"
| SearchResultClicked qstring qstring
| LoadMoreSearchResults

subsection \<open>Pinning\<close>

definition max_pinned_index :: "dialogs_row list \<Rightarrow> int" where
  "max_pinned_index rows =
     foldl (\<lambda>m row. if dl_isPinned row \<and> m < dl_pinnedIndex row then dl_pinnedIndex row else m) 0 rows"

definition resort :: "text_env \<Rightarrow> dialogs_row list \<Rightarrow> dialogs_inner \<Rightarrow> dialogs_inner" where
  "resort env rows s = applyFilters env (rebuildAllRowsIndex (s\<lparr>di_allRows := stable_sort row_less rows\<rparr>))"

definition setRoomPinned :: "text_env \<Rightarrow> qstring \<Rightarrow> bool \<Rightarrow> dialogs_inner \<Rightarrow> dialogs_inner \<times> bool" where
  "setRoomPinned env roomId pinned s =
     (if roomId = [] then (s, False)
      else case find (\<lambda>row. dl_roomId row = roomId) (di_allRows s) of
        None \<Rightarrow> (s, False)
      | Some row \<Rightarrow>
          if dl_isPinned row = pinned then (s, False)
          else let rows1 = update_room roomId (\<lambda>row. row\<lparr>dl_isPinned := pinned\<rparr>) (di_allRows s);
                   i = (if pinned then max_pinned_index rows1 + 1 else 0);
                   rows2 = update_room roomId (\<lambda>row. row\<lparr>dl_pinnedIndex := i\<rparr>) rows1
               in (resort env rows2 s, True))"

definition index_less :: "int \<times> qstring \<Rightarrow> int \<times> qstring \<Rightarrow> bool" where
  "index_less a b \<longleftrightarrow> fst a < fst b"

interpretation index_order: weak_order index_less
  by unfold_locales (simp_all add: index_less_def)

definition pinnedRoomIds :: "dialogs_inner \<Rightarrow> qstring list" where
  "pinnedRoomIds s =
     map snd (stable_sort index_less
       (map (\<lambda>row. (dl_pinnedIndex row, dl_roomId row)) (filter dl_isPinned (di_allRows s))))"

definition hasPinnedRoomsWithoutOrder :: "dialogs_inner \<Rightarrow> bool" where
  "hasPinnedRoomsWithoutOrder s = list_ex (\<lambda>row. dl_isPinned row \<and> dl_pinnedOrder row < 0) (di_allRows s)"

definition pinned_rank :: "qstring list \<Rightarrow> dialogs_row \<Rightarrow> int" where
  "pinned_rank savedIds row =
     (if 0 \<le> dl_pinnedOrder row then 0 else if dl_roomId row \<in> set savedIds then 1 else 2)"

definition pinned_less :: "qstring list \<Rightarrow> dialogs_row \<Rightarrow> dialogs_row \<Rightarrow> bool" where
  "pinned_less savedIds a b =
     (let aRank = pinned_rank savedIds a; bRank = pinned_rank savedIds b
      in if aRank \<noteq> bRank then aRank < bRank
         else if aRank = 0 then dl_pinnedOrder a < dl_pinnedOrder b
         else if aRank = 1 then row_position (\<lambda>r. r = dl_roomId a) 0 savedIds < row_position (\<lambda>r. r = dl_roomId b) 0 savedIds
         else dl_timestamp b < dl_timestamp a)"

lemma pinned_less_asym: "pinned_less ids a b \<Longrightarrow> \<not> pinned_less ids b a"
  unfolding pinned_less_def Let_def by (simp split: if_splits)

lemma pinned_less_negative: "\<not> pinned_less ids a b \<Longrightarrow> \<not> pinned_less ids b c \<Longrightarrow> \<not> pinned_less ids a c"
  unfolding pinned_less_def Let_def by (simp split: if_splits)

interpretation pinned_order: weak_order "pinned_less ids" for ids
  by unfold_locales (rule pinned_less_asym pinned_less_negative; assumption)+

fun insert_indexes :: "int \<Rightarrow> dialogs_row list \<Rightarrow> (qstring, int) qhash \<Rightarrow> (qstring, int) qhash" where
  "insert_indexes i [] h = h"
| "insert_indexes i (row # rows) h = insert_indexes (i + 1) rows (hash_insert (dl_roomId row) (i + 1) h)"

definition applyPinnedOrder :: "text_env \<Rightarrow> qstring list \<Rightarrow> dialogs_inner \<Rightarrow> dialogs_inner" where
  "applyPinnedOrder env savedIds s =
     (let pinned = stable_sort (pinned_less savedIds) (filter dl_isPinned (di_allRows s));
          indexByRoom = insert_indexes 0 pinned [];
          rows = map (\<lambda>row. row\<lparr>dl_pinnedIndex :=
                   (if dl_isPinned row then hash_value 0 (dl_roomId row) indexByRoom else 0)\<rparr>) (di_allRows s)
      in resort env rows s)"

subsection \<open>A drop\<close>

definition pinnedAllIndices :: "dialogs_inner \<Rightarrow> nat list" where
  "pinnedAllIndices s = filter (\<lambda>i. dl_isPinned (di_allRows s ! i)) [0..<length (di_allRows s)]"

definition filteredToPinned :: "dialogs_inner \<Rightarrow> nat list" where
  "filteredToPinned s =
     concat (map (\<lambda>row.
       case find (\<lambda>j. dl_roomId (di_allRows s ! (pinnedAllIndices s ! j)) = dl_roomId row)
                 [0..<length (pinnedAllIndices s)] of
         None \<Rightarrow> [] | Some j \<Rightarrow> [j]) (filter dl_isPinned (di_rows s)))"

definition moved_row :: "nat \<Rightarrow> nat \<Rightarrow> 'a list \<Rightarrow> 'a list" where
  "moved_row src dst rows =
     (let rest = take src rows @ drop (Suc src) rows
      in take dst rest @ [rows ! src] @ drop dst rest)"

fun number_rows :: "int \<Rightarrow> dialogs_row list \<Rightarrow> dialogs_row list" where
  "number_rows i [] = []"
| "number_rows i (row # rows) = row\<lparr>dl_pinnedIndex := i + 1\<rparr> # number_rows (i + 1) rows"

definition write_back :: "nat list \<Rightarrow> dialogs_row list \<Rightarrow> dialogs_row list \<Rightarrow> dialogs_row list" where
  "write_back indices rows allRows = foldl (\<lambda>xs (i, row). xs[i := row]) allRows (zip indices rows)"

definition drop_dragged :: "text_env \<Rightarrow> dialogs_inner \<Rightarrow> dialogs_inner \<times> dialogs_signal list" where
  "drop_dragged env s =
     (let f2p = filteredToPinned s
      in if di_draggedIndex s < int (length f2p) \<and> di_dropTargetIndex s < int (length f2p)
         then let pinnedRows = map (\<lambda>i. di_allRows s ! i) (pinnedAllIndices s);
                  src = f2p ! nat (di_draggedIndex s);
                  dst = f2p ! nat (di_dropTargetIndex s);
                  renumbered = number_rows 0 (moved_row src dst pinnedRows);
                  s1 = resort env (write_back (pinnedAllIndices s) renumbered (di_allRows s)) s
              in (s1, [PinnedOrderChanged (pinnedRoomIds s1)])
         else (s, []))"

definition setSelectedRow :: "int \<Rightarrow> dialogs_inner \<Rightarrow> dialogs_inner \<times> dialogs_signal list" where
  "setSelectedRow i s =
     (let s1 = (if di_selectedIndex s \<noteq> i
                then s\<lparr>di_selectedIndex := i,
                       di_selectedRoomId := (if 0 \<le> i \<and> i < int (length (di_rows s))
                                             then dl_roomId (di_rows s ! nat i) else [])\<rparr>
                else s)
      in (s1, if di_selectedRoomId s1 \<noteq> [] then [RoomSelected (di_selectedRoomId s1)] else []))"

definition end_drag :: "dialogs_inner \<Rightarrow> dialogs_inner" where
  "end_drag s = s\<lparr>di_draggedIndex := -1, di_dropTargetIndex := -1, di_dragStarted := False, di_draggedRoomId := []\<rparr>"

definition mouseReleaseEvent :: "text_env \<Rightarrow> bool \<Rightarrow> dialogs_inner \<Rightarrow> dialogs_inner \<times> dialogs_signal list" where
  "mouseReleaseEvent env leftButton s =
     (if di_initialLoading s \<or> di_messageSearchMode s then (s, [])
      else if leftButton \<and> 0 \<le> di_draggedIndex s
      then let (s1, sigs) =
             (if di_dragStarted s \<and> 0 \<le> di_dropTargetIndex s \<and> di_dropTargetIndex s \<noteq> di_draggedIndex s
              then drop_dragged env s
              else if \<not> di_dragStarted s then setSelectedRow (di_draggedIndex s) s
              else (s, []))
           in (end_drag s1, sigs)
      else (s, []))"

subsection \<open>Sorted again\<close>

lemma resort_current:
  assumes "positions_pending s" "room_ids_ok rows"
  shows "list_current env (resort env rows s)"
proof -
  have "distinct (map dl_roomId (stable_sort row_less rows))" "[] \<notin> set (map dl_roomId (stable_sort row_less rows))"
    using assms(2) unfolding room_ids_ok_def distinct_stable_sort by simp_all
  then show ?thesis
    using assms(1) row_order.sorted [of rows] unfolding resort_def room_ids_ok_def
    by (intro applyFilters_current) (simp_all add: room_ids_ok_def rebuildAllRowsIndex_def positions_pending_def)
qed

lemma room_ids_ok_map: "(\<And>row. dl_roomId (f row) = dl_roomId row) \<Longrightarrow> room_ids_ok (map f rows) = room_ids_ok rows"
  by (simp add: room_ids_ok_def comp_def image_image)

lemma room_ids_ok_mset: "mset (map dl_roomId xs) = mset (map dl_roomId ys) \<Longrightarrow> room_ids_ok xs = room_ids_ok ys"
  unfolding room_ids_ok_def by (metis mset_eq_imp_distinct_iff mset_eq_setD)

lemma room_ids_ok_update:
  "room_ids_ok rows \<Longrightarrow> (\<And>row. dl_roomId (f row) = dl_roomId row) \<Longrightarrow> room_ids_ok (update_room r f rows)"
  by (simp add: update_room_map room_ids_ok_def [of rows] if_distrib cong: if_cong)
     (simp add: room_ids_ok_map [unfolded room_ids_ok_def] room_ids_ok_def if_distrib comp_def cong: if_cong)

lemma setRoomPinned_current:
  assumes cur: "list_current env s"
  shows "list_current env (fst (setRoomPinned env r b s))"
proof -
  have "room_ids_ok (update_room r f (update_room r g (di_allRows s)))"
    if "\<And>row. dl_roomId (f row) = dl_roomId row" "\<And>row. dl_roomId (g row) = dl_roomId row" for f g
    using current_rooms [OF cur] that by (intro room_ids_ok_update)
  then have "list_current env (resort env (update_room r (\<lambda>row. row\<lparr>dl_pinnedIndex := i\<rparr>)
      (update_room r (\<lambda>row. row\<lparr>dl_isPinned := b\<rparr>) (di_allRows s))) s)" for i
    using current_pending [OF cur] by (intro resort_current) simp_all
  then show ?thesis using cur by (simp add: setRoomPinned_def Let_def split: option.split)
qed

lemma applyPinnedOrder_current:
  "list_current env s \<Longrightarrow> list_current env (applyPinnedOrder env ids s)"
  unfolding applyPinnedOrder_def Let_def
  by (intro resort_current current_pending) (simp_all add: room_ids_ok_map current_rooms)

text \<open>Pinned rows come first.\<close>

lemma ordered_split:
  "row_order.ordered rows \<Longrightarrow> rows = filter dl_isPinned rows @ filter (\<lambda>row. \<not> dl_isPinned row) rows"
proof (induction rows)
  case (Cons row rows)
  have "filter dl_isPinned rows = []" if row: "\<not> dl_isPinned row"
  proof -
    have "\<not> dl_isPinned y" if "y \<in> set rows" for y
    proof -
      have "\<not> row_less y row" using Cons.prems that by (simp add: row_order.ordered_def)
      then show ?thesis using row by (auto simp: row_less_def)
    qed
    then show ?thesis by (simp add: filter_empty_conv)
  qed
  moreover have "row_order.ordered rows" using Cons.prems by (simp add: row_order.ordered_def)
  ultimately show ?case using Cons.IH by (cases "dl_isPinned row") auto
qed simp

lemma ordered_append:
  assumes "row_order.ordered ps" "row_order.ordered us"
    "\<forall>p \<in> set ps. dl_isPinned p" "\<forall>u \<in> set us. \<not> dl_isPinned u"
  shows "row_order.ordered (ps @ us)"
  using assms by (simp add: row_order.ordered_def sorted_wrt_append row_less_def)

subsection \<open>Moving a row\<close>

lemma moved_down: "moved_row (length a) (length a + Suc (length b)) (a @ x # b @ y # c) = a @ b @ y # x # c"
  by (simp add: moved_row_def)

lemma moved_up: "moved_row (length a + Suc (length b)) (length a) (a @ y # b @ x # c) = a @ x # y # b @ c"
  by (simp add: moved_row_def nth_append)

lemma filter_nth_split:
  "k < length (filter K xs) \<Longrightarrow> \<exists>a b. xs = a @ filter K xs ! k # b \<and> length (filter K a) = k"
proof (induction xs arbitrary: k)
  case (Cons x xs)
  show ?case
  proof (cases "K x \<and> k = 0")
    case True
    then have "x # xs = [] @ filter K (x # xs) ! k # xs \<and> length (filter K []) = k" by simp
    then show ?thesis by blast
  next
    case False
    define k' where "k' = (if K x then k - 1 else k)"
    have k': "k' < length (filter K xs)" "filter K (x # xs) ! k = filter K xs ! k'"
      using Cons.prems False by (auto simp: k'_def nth_Cons')
    from Cons.IH [OF k'(1)] obtain a b where ab: "xs = a @ filter K xs ! k' # b" "length (filter K a) = k'"
      by blast
    have "x # xs = (x # a) @ filter K (x # xs) ! k # b" using ab(1) k'(2) by simp
    moreover have "length (filter K (x # a)) = k" using ab(2) False by (auto simp: k'_def)
    ultimately show ?thesis by blast
  qed
qed simp

text \<open>Moving among all rows, seen through a filter, is moving among the rows it shows.\<close>

lemma filter_moved:
  assumes "i < length (filter K xs)" "j < length (filter K xs)" "i \<noteq> j"
    and "si < length xs" "xs ! si = filter K xs ! i" "length (filter K (take si xs)) = i"
    and "sj < length xs" "xs ! sj = filter K xs ! j" "length (filter K (take sj xs)) = j"
  shows "filter K (moved_row si sj xs) = moved_row i j (filter K xs)"
proof -
  define x y where "x = xs ! si" and "y = xs ! sj"
  have K: "K x" "K y"
    using assms(1,2,5,8) by (metis nth_mem mem_Collect_eq set_filter x_def y_def)+
  consider "si < sj" | "sj < si" using assms(3,6,9) by (metis linorder_neqE_nat)
  then show ?thesis
  proof cases
    case 1
    define a b c where "a = take si xs" and "b = drop (Suc si) (take sj xs)" and "c = drop (Suc sj) xs"
    have "take sj xs = a @ x # b"
      using 1 assms(4,7) id_take_nth_drop [of si "take sj xs"] by (simp add: a_def b_def x_def min_absorb1)
    then have xs: "xs = a @ x # b @ y # c"
      using id_take_nth_drop [OF assms(7)] by (simp add: c_def y_def)
    have len: "length a = si" "length a + Suc (length b) = sj"
      using 1 assms(4,7) by (simp_all add: a_def b_def)
    have i: "length (filter K a) = i" using assms(6) by (simp add: a_def)
    have j: "length (filter K a) + Suc (length (filter K b)) = j"
      using assms(9) K \<open>take sj xs = a @ x # b\<close> by simp
    have "filter K xs = filter K a @ x # filter K b @ y # filter K c" using xs K by simp
    then have "moved_row i j (filter K xs) = filter K a @ filter K b @ y # x # filter K c"
      using moved_down [of "filter K a" "filter K b" x y "filter K c"] i j by simp
    moreover have "moved_row si sj xs = a @ b @ y # x # c"
      using moved_down [of a b x y c] xs len by simp
    ultimately show ?thesis using K by simp
  next
    case 2
    define a b c where "a = take sj xs" and "b = drop (Suc sj) (take si xs)" and "c = drop (Suc si) xs"
    have "take si xs = a @ y # b"
      using 2 assms(4,7) id_take_nth_drop [of sj "take si xs"] by (simp add: a_def b_def y_def min_absorb1)
    then have xs: "xs = a @ y # b @ x # c"
      using id_take_nth_drop [OF assms(4)] by (simp add: c_def x_def)
    have len: "length a = sj" "length a + Suc (length b) = si"
      using 2 assms(4,7) by (simp_all add: a_def b_def)
    have j: "length (filter K a) = j" using assms(9) by (simp add: a_def)
    have i: "length (filter K a) + Suc (length (filter K b)) = i"
      using assms(6) K \<open>take si xs = a @ y # b\<close> by simp
    have "filter K xs = filter K a @ y # filter K b @ x # filter K c" using xs K by simp
    then have "moved_row i j (filter K xs) = filter K a @ x # y # filter K b @ filter K c"
      using moved_up [of "filter K a" "filter K b" y x "filter K c"] i j by simp
    moreover have "moved_row si sj xs = a @ x # y # b @ c"
      using moved_up [of a b y x c] xs len by simp
    ultimately show ?thesis using K by simp
  qed
qed

lemma moved_row_map: "i < length xs \<Longrightarrow> moved_row i j (map f xs) = map f (moved_row i j xs)"
  by (simp add: moved_row_def Let_def take_map drop_map)

lemma moved_row_append:
  "i < length xs \<Longrightarrow> j < length xs \<Longrightarrow> moved_row i j (xs @ ys) = moved_row i j xs @ ys"
  by (simp add: moved_row_def Let_def nth_append)

lemma moved_row_length [simp]: "i < length xs \<Longrightarrow> length (moved_row i j xs) = length xs"
  by (simp add: moved_row_def Let_def)

lemma moved_row_mset: "i < length xs \<Longrightarrow> mset (moved_row i j xs) = mset xs"
proof -
  assume i: "i < length xs"
  define rest where "rest = take i xs @ drop (Suc i) xs"
  have "mset (moved_row i j xs) = add_mset (xs ! i) (mset (take j rest @ drop j rest))"
    unfolding moved_row_def Let_def rest_def by simp
  also have "\<dots> = mset xs"
    using arg_cong [OF id_take_nth_drop [OF i], of mset] by (simp only: append_take_drop_id) (simp add: rest_def)
  finally show ?thesis .
qed

subsection \<open>The drop on the screen\<close>

lemma end_drag_current: "list_current env s \<Longrightarrow> list_current env (end_drag s)"
proof -
  assume cur: "list_current env s"
  have "filtered_rows env (end_drag s) = filtered_rows env s"
    by (rule filtered_rows_cong) (simp_all add: end_drag_def)
  moreover have "positions_ok (end_drag s)"
    using current_positions [OF cur] by (simp add: positions_ok_def end_drag_def Let_def)
  ultimately show ?thesis using cur unfolding list_current_def by (simp add: end_drag_def)
qed

lemma number_rows_ids [simp]:
  "map dl_roomId (number_rows i rows) = map dl_roomId rows" "length (number_rows i rows) = length rows"
  by (induction rows arbitrary: i) simp_all

lemma number_rows_pinned: "\<forall>row \<in> set rows. dl_isPinned row \<Longrightarrow> \<forall>row \<in> set (number_rows i rows). dl_isPinned row"
  by (induction rows arbitrary: i) simp_all

lemma number_rows_above: "row \<in> set (number_rows i rows) \<Longrightarrow> i < dl_pinnedIndex row"
proof (induction rows arbitrary: i)
  case (Cons x rows)
  then consider "row = x\<lparr>dl_pinnedIndex := i + 1\<rparr>" | "i + 1 < dl_pinnedIndex row" by auto
  then show ?case by cases simp_all
qed simp

lemma number_rows_ordered:
  "\<forall>row \<in> set rows. dl_isPinned row \<Longrightarrow>
   sorted_wrt (\<lambda>a b. dl_pinnedIndex a < dl_pinnedIndex b) (number_rows i rows) \<and> row_order.ordered (number_rows i rows)"
proof (induction rows arbitrary: i)
  case (Cons x rows)
  have "dl_isPinned y \<and> i + 1 < dl_pinnedIndex y" if "y \<in> set (number_rows (i + 1) rows)" for y
    using number_rows_above [OF that] number_rows_pinned [of rows "i + 1"] Cons.prems that by simp
  moreover have "\<not> row_less y (x\<lparr>dl_pinnedIndex := i + 1\<rparr>)" if "y \<in> set (number_rows (i + 1) rows)" for y
    using calculation [OF that] Cons.prems by (simp add: row_less_def)
  ultimately show ?case using Cons by (simp add: row_order.ordered_def)
qed (simp add: row_order.ordered_def)

lemma number_rows_filter:
  "(\<And>row n. K (row\<lparr>dl_pinnedIndex := n\<rparr>) = K row) \<Longrightarrow>
   map dl_roomId (filter K (number_rows i rows)) = map dl_roomId (filter K rows)"
  by (induction rows arbitrary: i) simp_all

lemma write_back_prefix:
  "length ps = length qs \<Longrightarrow>
   write_back [length a..<length a + length ps] ps (a @ qs @ us) = a @ ps @ us"
proof (induction ps arbitrary: a qs)
  case (Cons p ps)
  obtain q qs' where qs: "qs = q # qs'" "length ps = length qs'" using Cons.prems by (cases qs) auto
  have upt: "[length a..<length a + length (p # ps)] = length a # [length (a @ [p])..<length (a @ [p]) + length ps]"
    by (simp add: upt_rec)
  have "write_back [length a..<length a + length (p # ps)] (p # ps) (a @ qs @ us)
      = write_back [length (a @ [p])..<length (a @ [p]) + length ps] ps ((a @ [p]) @ qs' @ us)"
    unfolding upt write_back_def by (simp add: qs(1))
  also have "\<dots> = (a @ [p]) @ ps @ us" by (rule Cons.IH [OF qs(2)])
  finally show ?case by simp
qed (simp add: write_back_def)

lemma pinned_indices:
  assumes "di_allRows s = ps @ us" "\<forall>p \<in> set ps. dl_isPinned p" "\<forall>u \<in> set us. \<not> dl_isPinned u"
  shows "pinnedAllIndices s = [0..<length ps]"
proof -
  have "filter (\<lambda>i. dl_isPinned ((ps @ us) ! i)) [0..<length ps] = [0..<length ps]"
    using assms(2) by (intro filter_True) (auto simp: nth_append)
  moreover have "filter (\<lambda>i. dl_isPinned ((ps @ us) ! i)) [length ps..<length ps + length us] = []"
    using assms(3) by (auto simp: nth_append filter_empty_conv)
  ultimately show ?thesis
    unfolding pinnedAllIndices_def assms(1) length_append upt_add_eq_append [OF le0] filter_append by simp
qed

lemma filtered_to_pinned:
  assumes all: "di_allRows s = ps @ us" "\<forall>p \<in> set ps. dl_isPinned p" "\<forall>u \<in> set us. \<not> dl_isPinned u"
    and ids: "distinct (map dl_roomId ps)" and rows: "set (filter dl_isPinned (di_rows s)) \<subseteq> set ps"
  shows "filteredToPinned s = map (\<lambda>row. nat (room_position (dl_roomId row) ps)) (filter dl_isPinned (di_rows s))"
proof -
  have one: "(case find (\<lambda>j. dl_roomId (di_allRows s ! (pinnedAllIndices s ! j)) = dl_roomId row)
      [0..<length (pinnedAllIndices s)] of None \<Rightarrow> [] | Some j \<Rightarrow> [j]) = [nat (room_position (dl_roomId row) ps)]"
    if row: "row \<in> set ps" for row
  proof -
    obtain k where k: "k < length ps" "ps ! k = row" using row by (auto simp: in_set_conv_nth)
    have "dl_roomId (ps ! j) \<noteq> dl_roomId row" if "j < k" for j
      using that k nth_eq_iff_index_eq [OF ids, of j k] by simp
    then have "find (\<lambda>j. dl_roomId (di_allRows s ! (pinnedAllIndices s ! j)) = dl_roomId row)
        [0..<length (pinnedAllIndices s)] = Some k"
      using k by (auto simp: find_Some_iff pinned_indices [OF all] all(1) nth_append intro!: exI [of _ k])
    then show ?thesis using room_position_nth [OF ids k(1)] k(2) by simp
  qed
  have "concat (map (\<lambda>row. case find (\<lambda>j. dl_roomId (di_allRows s ! (pinnedAllIndices s ! j)) = dl_roomId row)
      [0..<length (pinnedAllIndices s)] of None \<Rightarrow> [] | Some j \<Rightarrow> [j]) xs)
      = map (\<lambda>row. nat (room_position (dl_roomId row) ps)) xs" if "set xs \<subseteq> set ps" for xs
    using that by (induction xs) (simp_all add: one)
  then show ?thesis unfolding filteredToPinned_def using rows by blast
qed

text \<open>Sorting what a drop wrote back changes nothing, and the pinned ids are in its order.\<close>

lemma resort_numbered:
  assumes "row_order.ordered us" "\<forall>p \<in> set ps. dl_isPinned p" "\<forall>u \<in> set us. \<not> dl_isPinned u"
  shows "di_allRows (resort env (number_rows 0 ps @ us) s) = number_rows 0 ps @ us"
    and "pinnedRoomIds (resort env (number_rows 0 ps @ us) s) = map dl_roomId ps"
proof -
  have "row_order.ordered (number_rows 0 ps @ us)"
    using assms number_rows_ordered [OF assms(2), of 0] number_rows_pinned [OF assms(2), of 0]
    by (intro ordered_append) simp_all
  then show all: "di_allRows (resort env (number_rows 0 ps @ us) s) = number_rows 0 ps @ us"
    by (simp add: resort_def rebuildAllRowsIndex_def row_order.sorted_same)
  define pairs where "pairs = map (\<lambda>row. (dl_pinnedIndex row, dl_roomId row)) (number_rows 0 ps)"
  have "filter dl_isPinned (number_rows 0 ps @ us) = number_rows 0 ps"
    using number_rows_pinned [OF assms(2), of 0] assms(3) by (simp add: filter_empty_conv filter_id_conv)
  then have ids: "pinnedRoomIds (resort env (number_rows 0 ps @ us) s) = map snd (stable_sort index_less pairs)"
    unfolding pinnedRoomIds_def all pairs_def by simp
  have "sorted_wrt (\<lambda>a b. dl_pinnedIndex a < dl_pinnedIndex b) (number_rows 0 ps)"
    using number_rows_ordered [OF assms(2)] by blast
  then have "index_order.ordered pairs"
    unfolding index_order.ordered_def pairs_def sorted_wrt_map
    by (rule sorted_wrt_mono_rel [rotated]) (simp add: index_less_def)
  then show "pinnedRoomIds (resort env (number_rows 0 ps @ us) s) = map dl_roomId ps"
    unfolding ids index_order.sorted_same [OF \<open>index_order.ordered pairs\<close>]
    using number_rows_ids(1) [of 0 ps] by (simp add: pairs_def comp_def)
qed

lemma drop_dragged_current:
  assumes cur: "list_current env s" and drag: "0 \<le> di_draggedIndex s"
  shows "list_current env (fst (drop_dragged env s))"
proof (cases "di_draggedIndex s < int (length (filteredToPinned s)) \<and> di_dropTargetIndex s < int (length (filteredToPinned s))")
  case True
  define ps us where "ps = filter dl_isPinned (di_allRows s)" and "us = filter (\<lambda>row. \<not> dl_isPinned row) (di_allRows s)"
  have all: "di_allRows s = ps @ us"
    unfolding ps_def us_def by (rule ordered_split) (rule current_ordered [OF cur])
  have pinned: "\<forall>p \<in> set ps. dl_isPinned p" "\<forall>u \<in> set us. \<not> dl_isPinned u" by (simp_all add: ps_def us_def)
  have ids: "distinct (map dl_roomId ps)" using current_rooms [OF cur] by (simp add: room_ids_ok_def all)
  have shown: "set (filter dl_isPinned (di_rows s)) \<subseteq> set ps"
    using set_filtered_rows [of env s] current_rows [OF cur] by (auto simp: ps_def)
  note f2p = filtered_to_pinned [OF all pinned ids shown]
  define src where "src = filteredToPinned s ! nat (di_draggedIndex s)"
  have inside: "nat (di_draggedIndex s) < length (filter dl_isPinned (di_rows s))"
    using True drag unfolding f2p length_map by linarith
  define row where "row = filter dl_isPinned (di_rows s) ! nat (di_draggedIndex s)"
  have row: "row \<in> set ps" "src = nat (room_position (dl_roomId row) ps)"
    using shown nth_mem [OF inside] by (auto simp: src_def f2p row_def inside)
  then have src: "src < length ps"
    using room_position_bounds [of "dl_roomId row" ps] by (cases ps) auto
  define qs where "qs = moved_row src (filteredToPinned s ! nat (di_dropTargetIndex s)) ps"
  have indices: "pinnedAllIndices s = [0..<length ps]" by (rule pinned_indices [OF all pinned])
  have "map (\<lambda>k. di_allRows s ! k) (pinnedAllIndices s) = ps"
    by (rule nth_equalityI) (simp_all add: indices all nth_append)
  moreover have "write_back (pinnedAllIndices s) (number_rows 0 qs) (di_allRows s) = number_rows 0 qs @ us"
    using write_back_prefix [of "number_rows 0 qs" ps "[]" us] src by (simp add: indices all qs_def)
  ultimately have run: "fst (drop_dragged env s) = resort env (number_rows 0 qs @ us) s"
    using True unfolding drop_dragged_def Let_def by (simp add: qs_def src_def)
  have "mset (map dl_roomId (number_rows 0 qs @ us)) = mset (map dl_roomId (di_allRows s))"
    using moved_row_mset [OF src] by (simp add: qs_def all)
  then have "room_ids_ok (number_rows 0 qs @ us)"
    using current_rooms [OF cur] room_ids_ok_mset by blast
  then show ?thesis unfolding run by (rule resort_current [OF current_pending [OF cur]])
next
  case False
  then have "drop_dragged env s = (s, [])" unfolding drop_dragged_def Let_def by (rule if_not_P)
  then show ?thesis using cur by simp
qed

lemma drop_dragged_spec:
  assumes cur: "list_current env s" and query: "normalizedQuery env s = []"
    and range: "0 \<le> di_draggedIndex s" "di_draggedIndex s < int (length (filter dl_isPinned (di_rows s)))"
      "0 \<le> di_dropTargetIndex s" "di_dropTargetIndex s < int (length (filter dl_isPinned (di_rows s)))"
      "di_draggedIndex s \<noteq> di_dropTargetIndex s"
  shows "map dl_roomId (di_rows (fst (drop_dragged env s)))
           = moved_row (nat (di_draggedIndex s)) (nat (di_dropTargetIndex s)) (map dl_roomId (di_rows s))
    \<and> snd (drop_dragged env s)
        = [PinnedOrderChanged (map dl_roomId (filter dl_isPinned (di_allRows (fst (drop_dragged env s)))))]
    \<and> list_current env (fst (drop_dragged env s))"
proof -
  define ps us where "ps = filter dl_isPinned (di_allRows s)" and "us = filter (\<lambda>row. \<not> dl_isPinned row) (di_allRows s)"
  define i j where "i = nat (di_draggedIndex s)" and "j = nat (di_dropTargetIndex s)"
  have all: "di_allRows s = ps @ us"
    unfolding ps_def us_def by (rule ordered_split) (rule current_ordered [OF cur])
  have pinned: "\<forall>p \<in> set ps. dl_isPinned p" "\<forall>u \<in> set us. \<not> dl_isPinned u" by (simp_all add: ps_def us_def)
  have rows: "di_rows s = filter (in_view s) ps @ filter (in_view s) us"
    using query current_rooms [OF cur] current_rows [OF cur] by (simp add: filtered_rows_def all)
  have shown: "filter dl_isPinned (di_rows s) = filter (in_view s) ps"
    using pinned filter_cong [of ps ps "\<lambda>row. in_view s row \<and> dl_isPinned row" "in_view s"]
    by (simp add: rows filter_empty_conv)
  have ids: "distinct (map dl_roomId ps)" using current_rooms [OF cur] by (simp add: room_ids_ok_def all)
  have f2p: "filteredToPinned s = map (\<lambda>row. nat (room_position (dl_roomId row) ps)) (filter (in_view s) ps)"
    unfolding filtered_to_pinned [OF all pinned ids, unfolded shown, OF filter_is_subset] ..
  have ij: "i < length (filter (in_view s) ps)" "j < length (filter (in_view s) ps)" "i \<noteq> j"
    using range unfolding shown by (simp_all add: i_def j_def)
  have place: "filteredToPinned s ! k < length ps \<and> ps ! (filteredToPinned s ! k) = filter (in_view s) ps ! k
      \<and> length (filter (in_view s) (take (filteredToPinned s ! k) ps)) = k"
    if k: "k < length (filter (in_view s) ps)" for k
  proof -
    obtain a b where ab: "ps = a @ filter (in_view s) ps ! k # b" "length (filter (in_view s) a) = k"
      using filter_nth_split [OF k] by blast
    then have "length a < length ps" "ps ! length a = filter (in_view s) ps ! k" "take (length a) ps = a"
      by (metis add_less_cancel_left length_append length_Cons less_add_same_cancel1 zero_less_Suc,
          metis nth_append_length, metis append_eq_conv_conj)
    moreover have "filteredToPinned s ! k = length a"
      using room_position_nth [OF ids calculation(1)] k by (simp add: f2p calculation(2))
    ultimately show ?thesis using ab(2) by simp
  qed
  define src dst where "src = filteredToPinned s ! i" and "dst = filteredToPinned s ! j"
  note src = place [OF ij(1), folded src_def] and dst = place [OF ij(2), folded dst_def]
  define qs where "qs = moved_row src dst ps"
  have len: "length qs = length ps" using src by (simp add: qs_def)
  have qset: "set qs = set ps" using moved_row_mset [of src ps dst] src by (metis qs_def set_mset_mset)
  have indices: "pinnedAllIndices s = [0..<length ps]" by (rule pinned_indices [OF all pinned])
  have "map (\<lambda>k. di_allRows s ! k) (pinnedAllIndices s) = ps"
    by (rule nth_equalityI) (simp_all add: indices all nth_append)
  moreover have "write_back (pinnedAllIndices s) (number_rows 0 qs) (di_allRows s) = number_rows 0 qs @ us"
    using write_back_prefix [of "number_rows 0 qs" ps "[]" us] len by (simp add: indices all)
  ultimately have run: "drop_dragged env s = (let s1 = resort env (number_rows 0 qs @ us) s
      in (s1, [PinnedOrderChanged (pinnedRoomIds s1)]))"
    using range shown unfolding drop_dragged_def Let_def
    by (simp add: f2p i_def [symmetric] j_def [symmetric] qs_def src_def dst_def)
  have us: "row_order.ordered us"
    using current_ordered [OF cur] by (simp add: all row_order.ordered_def sorted_wrt_append)
  have qpinned: "\<forall>p \<in> set qs. dl_isPinned p" using pinned(1) qset by simp
  note sorted = resort_numbered [OF us qpinned pinned(2), of env s]
  have view: "in_view (resort env (number_rows 0 qs @ us) s) = in_view s"
    by (simp add: in_view_def fun_eq_iff resort_def rebuildAllRowsIndex_def)
  have "filtered_rows env (resort env (number_rows 0 qs @ us) s) = filter (in_view s) (number_rows 0 qs @ us)"
    using query unfolding filtered_rows_def sorted(1) view
    by (simp add: normalizedQuery_def resort_def rebuildAllRowsIndex_def)
  moreover have curr: "list_current env (resort env (number_rows 0 qs @ us) s)"
  proof (rule resort_current [OF current_pending [OF cur]])
    have "mset (map dl_roomId (number_rows 0 qs @ us)) = mset (map dl_roomId (ps @ us))"
      using moved_row_mset [of src ps dst] src by (simp add: qs_def)
    then show "room_ids_ok (number_rows 0 qs @ us)"
      using current_rooms [OF cur] room_ids_ok_mset unfolding all by blast
  qed
  ultimately have "map dl_roomId (di_rows (resort env (number_rows 0 qs @ us) s))
      = map dl_roomId (filter (in_view s) qs) @ map dl_roomId (filter (in_view s) us)"
    using number_rows_filter [of "in_view s" 0 qs]
    by (simp add: current_rows in_view_def hasUnreadIndicator_def hasMentionBadge_def)
  also have "\<dots> = moved_row i j (map dl_roomId (filter (in_view s) ps)) @ map dl_roomId (filter (in_view s) us)"
    using filter_moved [of i "in_view s" ps j src dst] ij src dst by (simp add: qs_def moved_row_map)
  also have "\<dots> = moved_row i j (map dl_roomId (di_rows s))" using ij by (simp add: rows moved_row_append)
  finally show ?thesis
    using curr sorted number_rows_pinned [OF qpinned, of 0] pinned(2)
    by (simp add: run Let_def i_def j_def filter_id_conv filter_empty_conv)
qed

end
