(* ===== verification/Dialogs_Events.thy ===== *)
theory Dialogs_Events imports Dialogs_Pins begin

section \<open>The chat list and its user\<close>

text \<open>
  Selection, the mouse and the hits of the message search, of \<open>DialogsInner\<close>
  (\<^verbatim>\<open>src/src/dialogs/dialogs_inner.cpp\<close>), and all of its public methods and handlers as events of
  one machine.  Heights come from the style sheet (\<open>list_style\<close>); cursors and repaints are left
  out.  \<open>std::clamp\<close> is what libstdc++ does when its bounds are out of order.

  Shown: whatever the events, the rows on screen are those a fresh pass over all rooms gives and
  each position points at its room (\<open>chat_list_always_current\<close>); stepping through the hits stays
  within them; where the selection and the drag do not do what the code says.
\<close>

record list_style =
  ls_rowHeight :: int
  ls_searchedBarHeight :: int

subsection \<open>Where a row is\<close>

definition searchResultsHeaderHeight :: "list_style \<Rightarrow> bool \<Rightarrow> int" where
  "searchResultsHeaderHeight st hasResults = (if hasResults then ls_searchedBarHeight st else 0)"

definition isDefaultSearchVisible :: "dialogs_inner \<Rightarrow> bool" where
  "isDefaultSearchVisible s \<longleftrightarrow> \<not> di_messageSearchMode s \<and> di_searchQuery s \<noteq> []"

definition filteredRowsHeight :: "list_style \<Rightarrow> dialogs_inner \<Rightarrow> int" where
  "filteredRowsHeight st s = int (length (di_rows s)) * ls_rowHeight st"

definition defaultSearchResultsTop :: "list_style \<Rightarrow> dialogs_inner \<Rightarrow> int" where
  "defaultSearchResultsTop st s = filteredRowsHeight st s + searchResultsHeaderHeight st True"

definition rowAtY :: "list_style \<Rightarrow> dialogs_inner \<Rightarrow> int \<Rightarrow> int" where
  "rowAtY st s y =
     (if y < 0 \<or> di_rows s = [] then -1
      else if filteredRowsHeight st s \<le> y then -1
      else let i = y div ls_rowHeight st in if i < int (length (di_rows s)) then i else -1)"

definition searchResultRowAtY :: "list_style \<Rightarrow> dialogs_inner \<Rightarrow> int \<Rightarrow> int" where
  "searchResultRowAtY st s y =
     (if di_searchLoading s \<or> di_searchResults s = [] then -1
      else let y0 = (if di_messageSearchMode s then di_messageSearchTopInset s + searchResultsHeaderHeight st True
                     else if isDefaultSearchVisible s then defaultSearchResultsTop st s
                     else searchResultsHeaderHeight st True)
           in if y < y0 then -1
              else let i = (y - y0) div ls_rowHeight st
                   in if i < int (length (di_searchResults s)) then i else -1)"

text \<open>The height \<open>updateContentSize\<close> gives the widget; \<open>height0\<close> is what it has.\<close>

definition contentHeight :: "list_style \<Rightarrow> int \<Rightarrow> dialogs_inner \<Rightarrow> int" where
  "contentHeight st height0 s =
     (let hits = int (length (di_searchResults s)) * ls_rowHeight st
      in if di_initialLoading s then max 220 (if 0 < di_viewportHeight s then di_viewportHeight s else height0)
         else if di_messageSearchMode s
         then di_messageSearchTopInset s
              + (if di_searchLoading s then ls_searchedBarHeight st + 2 * ls_rowHeight st
                 else if di_searchResults s = [] then 220
                 else searchResultsHeaderHeight st True + hits)
         else if isDefaultSearchVisible s
         then filteredRowsHeight st s
              + (if di_searchLoading s then ls_searchedBarHeight st + 2 * ls_rowHeight st
                 else if di_searchResults s \<noteq> [] then ls_searchedBarHeight st + hits
                 else if di_searchResolved s \<and> di_rows s = [] then 220
                 else 0)
         else if di_searchResults s = [] then int (length (di_rows s)) * ls_rowHeight st
         else searchResultsHeaderHeight st True + hits)"

subsection \<open>Selection\<close>

definition selectRoomById :: "text_env \<Rightarrow> qstring \<Rightarrow> dialogs_inner \<Rightarrow> dialogs_inner" where
  "selectRoomById env roomId s =
     (let i = room_position roomId (di_rows s)
      in if 0 \<le> i then s\<lparr>di_selectedIndex := i, di_selectedRoomId := roomId\<rparr>
         else if di_activeFilterId s \<noteq> 0
         then let s1 = setActiveFilter env 0 s;
                  j = room_position roomId (di_rows s1)
              in if 0 \<le> j then s1\<lparr>di_selectedIndex := j, di_selectedRoomId := roomId\<rparr> else s1
         else s\<lparr>di_selectedIndex := -1, di_selectedRoomId := roomId\<rparr>)"

definition clearSelection :: "dialogs_inner \<Rightarrow> dialogs_inner" where
  "clearSelection s =
     (if di_selectedIndex s < 0 then s else s\<lparr>di_selectedIndex := -1, di_selectedRoomId := []\<rparr>)"

subsection \<open>The mouse\<close>

definition clickSearchResult :: "int \<Rightarrow> dialogs_inner \<Rightarrow> dialogs_inner \<times> dialogs_signal list" where
  "clickSearchResult i s =
     (let hit = di_searchResults s ! nat i
      in (s\<lparr>di_searchSelectedIndex := i\<rparr>, [SearchResultClicked (sh_roomId hit) (sh_eventId hit)]))"

definition mousePressEvent ::
  "list_style \<Rightarrow> bool \<Rightarrow> int \<Rightarrow> dialogs_inner \<Rightarrow> dialogs_inner \<times> dialogs_signal list" where
  "mousePressEvent st leftButton y s =
     (if di_initialLoading s \<or> \<not> leftButton then (s, [])
      else let hit = searchResultRowAtY st s y;
               onHit = 0 \<le> hit \<and> hit < int (length (di_searchResults s))
           in if di_messageSearchMode s then (if onHit then clickSearchResult hit s else (s, []))
              else if isDefaultSearchVisible s \<and> onHit then clickSearchResult hit s
              else let i = rowAtY st s y
                   in if 0 \<le> i \<and> i < int (length (di_rows s))
                      then let row = di_rows s ! nat i
                           in if dl_isPinned row
                              then (s\<lparr>di_draggedIndex := i, di_draggedRoomId := dl_roomId row,
                                      di_dragStartY := y, di_dragCurrentY := y, di_dragStarted := False\<rparr>, [])
                              else setSelectedRow i s
                      else (s, []))"

definition kDragThreshold :: int where
  "kDragThreshold = 5"

definition std_clamp :: "int \<Rightarrow> int \<Rightarrow> int \<Rightarrow> int" where
  "std_clamp v lo hi = (if v < lo then lo else if hi < v then hi else v)"

definition pinnedCount :: "dialogs_inner \<Rightarrow> int" where
  "pinnedCount s = int (length (filter dl_isPinned (di_rows s)))"

definition drag_to :: "list_style \<Rightarrow> dialogs_inner \<Rightarrow> dialogs_inner" where
  "drag_to st s =
     (let targetRow = std_clamp (rowAtY st s (di_dragCurrentY s)) 0 (pinnedCount s - 1)
      in if targetRow < 0 then s else s\<lparr>di_dropTargetIndex := targetRow\<rparr>)"

definition mouseMoveEvent :: "list_style \<Rightarrow> bool \<Rightarrow> int \<Rightarrow> dialogs_inner \<Rightarrow> dialogs_inner" where
  "mouseMoveEvent st leftDown y s =
     (if di_initialLoading s then s
      else let searching = di_messageSearchMode s \<or> isDefaultSearchVisible s;
               hit = searchResultRowAtY st s y;
               s1 = (if searching then s\<lparr>di_searchHoveredIndex := hit\<rparr> else s)
           in if searching \<and> (0 \<le> hit \<and> hit < int (length (di_searchResults s)) \<or> di_messageSearchMode s)
              then (if 0 \<le> di_hoveredIndex s1 then s1\<lparr>di_hoveredIndex := -1\<rparr> else s1)
              else if 0 \<le> di_draggedIndex s1 \<and> leftDown
              then let s2 = s1\<lparr>di_dragCurrentY := y\<rparr>
                   in if \<not> di_dragStarted s2
                      then if kDragThreshold \<le> \<bar>di_dragCurrentY s2 - di_dragStartY s2\<bar>
                           then drag_to st (s2\<lparr>di_dragStarted := True\<rparr>)
                           else s2
                      else drag_to st s2
              else s1\<lparr>di_hoveredIndex := rowAtY st s1 y\<rparr>)"

definition leaveEvent :: "dialogs_inner \<Rightarrow> dialogs_inner" where
  "leaveEvent s =
     (let s1 = s\<lparr>di_searchHoveredIndex := -1\<rparr>
      in if di_initialLoading s1 \<or> di_messageSearchMode s1 then s1 else s1\<lparr>di_hoveredIndex := -1\<rparr>)"

text \<open>The right button opens the menu on the hovered row; hiding the menu forgets its row.\<close>

definition contextMenuEvent :: "dialogs_inner \<Rightarrow> dialogs_inner" where
  "contextMenuEvent s =
     (if di_initialLoading s \<or> di_messageSearchMode s then s
      else if di_hoveredIndex s < 0 \<or> int (length (di_rows s)) \<le> di_hoveredIndex s then s
      else s\<lparr>di_menuRowIndex := di_hoveredIndex s\<rparr>)"

definition menuHidden :: "dialogs_inner \<Rightarrow> dialogs_inner" where
  "menuHidden s = s\<lparr>di_menuRowIndex := -1\<rparr>"

subsection \<open>Modes\<close>

definition setMessageSearchMode :: "bool \<Rightarrow> int \<Rightarrow> dialogs_inner \<Rightarrow> dialogs_inner" where
  "setMessageSearchMode active topInset0 s =
     (let topInset = max 0 topInset0
      in if di_messageSearchMode s = active \<and> di_messageSearchTopInset s = (if active then topInset else 0) then s
         else let s1 = s\<lparr>di_messageSearchMode := active, di_messageSearchTopInset := (if active then topInset else 0)\<rparr>
              in if active then s1
                 else s1\<lparr>di_searchLoading := False, di_searchResolved := False,
                         di_searchHoveredIndex := -1, di_searchSelectedIndex := -1\<rparr>)"

definition setInitialLoading :: "bool \<Rightarrow> dialogs_inner \<Rightarrow> dialogs_inner" where
  "setInitialLoading loading s =
     (if di_initialLoading s = loading then s
      else let s1 = s\<lparr>di_initialLoading := loading\<rparr>
           in if loading then s1\<lparr>di_hoveredIndex := -1, di_searchHoveredIndex := -1, di_menuRowIndex := -1\<rparr> else s1)"

definition setSearchLoading :: "bool \<Rightarrow> dialogs_inner \<Rightarrow> dialogs_inner" where
  "setSearchLoading loading s =
     (if di_searchLoading s = loading then s
      else let s1 = s\<lparr>di_searchLoading := loading\<rparr> in if loading then s1\<lparr>di_searchResolved := False\<rparr> else s1)"

definition setMessageSearchQuery :: "text_env \<Rightarrow> qstring \<Rightarrow> dialogs_inner \<Rightarrow> dialogs_inner" where
  "setMessageSearchQuery env query s = s\<lparr>di_messageSearchQuery := trimmed (te_isSpace env) query\<rparr>"

definition setMessageSearchGlobalScope :: "bool \<Rightarrow> dialogs_inner \<Rightarrow> dialogs_inner" where
  "setMessageSearchGlobalScope globalScope s = s\<lparr>di_messageSearchGlobalScope := globalScope\<rparr>"

definition setViewportHeight :: "int \<Rightarrow> dialogs_inner \<Rightarrow> dialogs_inner" where
  "setViewportHeight h s = s\<lparr>di_viewportHeight := max 0 h\<rparr>"

subsection \<open>The hits of the message search\<close>

definition setSearchResults :: "search_page \<Rightarrow> dialogs_inner \<Rightarrow> dialogs_inner" where
  "setSearchResults pg s =
     s\<lparr>di_searchResults := sp_hits pg, di_searchHoveredIndex := -1, di_searchSelectedIndex := -1,
       di_searchTotalApprox := sp_totalApprox pg, di_searchDone := sp_done pg \<or> sp_nextToken pg = [],
       di_searchResolved := True, di_searchE2eeDisabled := sp_e2eeDisabled pg, di_searchIndexing := sp_indexing pg\<rparr>"

definition appendSearchResults :: "search_page \<Rightarrow> dialogs_inner \<Rightarrow> dialogs_inner" where
  "appendSearchResults pg s =
     s\<lparr>di_searchResults := di_searchResults s @ sp_hits pg,
       di_searchTotalApprox := sp_totalApprox pg, di_searchDone := sp_done pg \<or> sp_nextToken pg = [],
       di_searchResolved := True, di_searchE2eeDisabled := sp_e2eeDisabled pg, di_searchIndexing := sp_indexing pg\<rparr>"

definition clearSearchResults :: "dialogs_inner \<Rightarrow> dialogs_inner" where
  "clearSearchResults s =
     s\<lparr>di_searchResults := [], di_searchHoveredIndex := -1, di_searchSelectedIndex := -1,
       di_searchTotalApprox := 0, di_searchDone := True, di_searchResolved := False,
       di_searchE2eeDisabled := False, di_searchIndexing := False\<rparr>"

definition click_selected :: "dialogs_inner \<Rightarrow> dialogs_signal list" where
  "click_selected s =
     (if 0 \<le> di_searchSelectedIndex s \<and> di_searchSelectedIndex s < int (length (di_searchResults s))
      then let hit = di_searchResults s ! nat (di_searchSelectedIndex s)
           in [SearchResultClicked (sh_roomId hit) (sh_eventId hit)]
      else [])"

definition selectNextSearchResult :: "dialogs_inner \<Rightarrow> dialogs_inner \<times> dialogs_signal list \<times> int" where
  "selectNextSearchResult s =
     (if di_searchResults s = [] then (s, [], -1)
      else if di_searchSelectedIndex s < 0
      then let s1 = s\<lparr>di_searchSelectedIndex := 0\<rparr> in (s1, click_selected s1, di_searchSelectedIndex s1)
      else if di_searchSelectedIndex s < int (length (di_searchResults s)) - 1
      then let s1 = s\<lparr>di_searchSelectedIndex := di_searchSelectedIndex s + 1\<rparr>
           in (s1, click_selected s1, di_searchSelectedIndex s1)
      else if \<not> di_searchDone s then (s, [LoadMoreSearchResults], di_searchSelectedIndex s)
      else (s, click_selected s, di_searchSelectedIndex s))"

definition selectPreviousSearchResult :: "dialogs_inner \<Rightarrow> dialogs_inner \<times> dialogs_signal list \<times> int" where
  "selectPreviousSearchResult s =
     (if di_searchResults s = [] then (s, [], -1)
      else let s1 = s\<lparr>di_searchSelectedIndex :=
                 (if 0 < di_searchSelectedIndex s then di_searchSelectedIndex s - 1 else 0)\<rparr>
           in (s1, click_selected s1, di_searchSelectedIndex s1))"

subsection \<open>All calls\<close>

datatype chat_event =
  SetRooms "room_summary list"
| SetDraft qstring qstring
| SetRoomUnreadCount qstring int
| SetRoomHighlightCount qstring int
| SetRoomMarkedUnread qstring bool
| SetActiveFilter int
| SetActiveSpace qstring
| SetSearchFilter qstring
| SetSavedMessagesRoomId qstring
| ToggleRoomFolder qstring int
| SetRoomInFolder qstring int bool
| SetRoomPinned qstring bool
| SetRoomNotificationMode qstring room_notification_mode
| ApplyPinnedOrder "qstring list"
| UpdateOnlineStatus qstring int
| SelectRoomById qstring
| ClearSelection
| MousePress bool int
| MouseMove bool int
| MouseRelease bool
| Leave
| ContextMenu
| MenuHidden
| SetMessageSearchMode bool int
| SetInitialLoading bool
| SetSearchLoading bool
| SetMessageSearchQuery qstring
| SetMessageSearchGlobalScope bool
| SetViewportHeight int
| SetSearchResults search_page
| AppendSearchResults search_page
| ClearSearchResults
| SelectNextSearchResult
| SelectPreviousSearchResult

fun chat_call :: "text_env \<Rightarrow> list_style \<Rightarrow> dialogs_inner \<Rightarrow> chat_event \<Rightarrow> dialogs_inner \<times> dialogs_signal list" where
  "chat_call env st s (SetRooms rooms) = (setRooms env rooms s, [])"
| "chat_call env st s (SetDraft r str) = (setDraft env r str s, [])"
| "chat_call env st s (SetRoomUnreadCount r n) = (setRoomUnreadCount env r n s, [])"
| "chat_call env st s (SetRoomHighlightCount r n) = (setRoomHighlightCount env r n s, [])"
| "chat_call env st s (SetRoomMarkedUnread r b) = (setRoomMarkedUnread env r b s, [])"
| "chat_call env st s (SetActiveFilter i) = (setActiveFilter env i s, [])"
| "chat_call env st s (SetActiveSpace r) = (setActiveSpace env r s, [])"
| "chat_call env st s (SetSearchFilter q) = (setSearchFilter env q s, [])"
| "chat_call env st s (SetSavedMessagesRoomId r) = (setSavedMessagesRoomId r s, [])"
| "chat_call env st s (ToggleRoomFolder r i) = (toggleRoomFolder env r i s, [])"
| "chat_call env st s (SetRoomInFolder r i b) = (setRoomInFolder env r i b s, [])"
| "chat_call env st s (SetRoomPinned r b) = (fst (setRoomPinned env r b s), [])"
| "chat_call env st s (SetRoomNotificationMode r mode) = (dialogs_setRoomNotificationMode r mode s, [])"
| "chat_call env st s (ApplyPinnedOrder ids) = (applyPinnedOrder env ids s, [])"
| "chat_call env st s (UpdateOnlineStatus u p) = (updateOnlineStatus u p s, [])"
| "chat_call env st s (SelectRoomById r) = (selectRoomById env r s, [])"
| "chat_call env st s ClearSelection = (clearSelection s, [])"
| "chat_call env st s (MousePress b y) = mousePressEvent st b y s"
| "chat_call env st s (MouseMove b y) = (mouseMoveEvent st b y s, [])"
| "chat_call env st s (MouseRelease b) = mouseReleaseEvent env b s"
| "chat_call env st s Leave = (leaveEvent s, [])"
| "chat_call env st s ContextMenu = (contextMenuEvent s, [])"
| "chat_call env st s MenuHidden = (menuHidden s, [])"
| "chat_call env st s (SetMessageSearchMode b i) = (setMessageSearchMode b i s, [])"
| "chat_call env st s (SetInitialLoading b) = (setInitialLoading b s, [])"
| "chat_call env st s (SetSearchLoading b) = (setSearchLoading b s, [])"
| "chat_call env st s (SetMessageSearchQuery q) = (setMessageSearchQuery env q s, [])"
| "chat_call env st s (SetMessageSearchGlobalScope b) = (setMessageSearchGlobalScope b s, [])"
| "chat_call env st s (SetViewportHeight h) = (setViewportHeight h s, [])"
| "chat_call env st s (SetSearchResults pg) = (setSearchResults pg s, [])"
| "chat_call env st s (AppendSearchResults pg) = (appendSearchResults pg s, [])"
| "chat_call env st s ClearSearchResults = (clearSearchResults s, [])"
| "chat_call env st s SelectNextSearchResult =
     (let (s1, sigs, i) = selectNextSearchResult s in (s1, sigs))"
| "chat_call env st s SelectPreviousSearchResult =
     (let (s1, sigs, i) = selectPreviousSearchResult s in (s1, sigs))"

definition chat_step :: "text_env \<Rightarrow> list_style \<Rightarrow> dialogs_inner \<Rightarrow> chat_event \<Rightarrow> dialogs_inner" where
  "chat_step env st s e = fst (chat_call env st s e)"

text \<open>The room list has one entry per room, each with an id; the two calls with a condition are
  those of \<open>setSavedMessagesRoomId_current\<close> and \<open>updateOnlineStatus_current\<close>.\<close>

fun chat_ok :: "text_env \<Rightarrow> dialogs_inner \<Rightarrow> chat_event \<Rightarrow> bool" where
  "chat_ok env s (SetRooms rooms) \<longleftrightarrow> distinct (map rs_roomId rooms) \<and> [] \<notin> set (map rs_roomId rooms)"
| "chat_ok env s (SetSavedMessagesRoomId r) \<longleftrightarrow>
     normalizedQuery env s \<noteq> [] \<or> di_activeSpaceId s \<noteq> [] \<or> di_activeFilterId s \<noteq> 1 \<or> r = di_savedMessagesRoomId s"
| "chat_ok env s (UpdateOnlineStatus u p) \<longleftrightarrow> length (chats_with u (di_rows s)) \<le> 1"
| "chat_ok env s e \<longleftrightarrow> True"

definition hits_ok :: "dialogs_inner \<Rightarrow> bool" where
  "hits_ok s \<longleftrightarrow> -1 \<le> di_searchSelectedIndex s \<and> di_searchSelectedIndex s < int (length (di_searchResults s))"

definition chat_inv :: "text_env \<Rightarrow> dialogs_inner \<Rightarrow> bool" where
  "chat_inv env s \<longleftrightarrow> list_current env s \<and> hits_ok s"

lemma initial_chat_inv: "chat_inv env initial_dialogs"
  unfolding chat_inv_def using initial_current by (simp add: hits_ok_def) (simp add: initial_dialogs_def)

lemma current_by_positions:
  assumes "list_current env s" "positions_ok t"
    and "di_allRows t = di_allRows s" "di_activeFilterId t = di_activeFilterId s"
    "di_activeSpaceId t = di_activeSpaceId s" "di_savedMessagesRoomId t = di_savedMessagesRoomId s"
    "di_searchQuery t = di_searchQuery s" "di_allRowsByRoomId t = di_allRowsByRoomId s" "di_rows t = di_rows s"
  shows "list_current env t"
  using assms(1,2) filtered_rows_cong [OF assms(3-7)] unfolding list_current_def by (simp add: assms(3,8,9))

lemma current_nth:
  assumes "list_current env s" "0 \<le> i" "i < int (length (di_rows s))"
  shows "dl_roomId (di_rows s ! nat i) \<noteq> []" "room_position (dl_roomId (di_rows s ! nat i)) (di_rows s) = i"
proof -
  have "di_rows s ! nat i \<in> set (di_allRows s)"
    using assms set_filtered_rows [of env s] nth_mem [of "nat i" "di_rows s"] current_rows [OF assms(1)] by auto
  then show "dl_roomId (di_rows s ! nat i) \<noteq> []"
    using current_rooms [OF assms(1)] by (metis image_eqI room_ids_ok_def set_map)
  show "room_position (dl_roomId (di_rows s ! nat i)) (di_rows s) = i"
    using room_position_nth [OF current_distinct [OF assms(1)], of "nat i"] assms(2,3) by simp
qed

lemma setSelectedRow_current:
  assumes "list_current env s" "0 \<le> i" "i < int (length (di_rows s))"
  shows "list_current env (fst (setSelectedRow i s))"
proof (cases "di_selectedIndex s = i")
  case False
  note here = current_nth [OF assms]
  have "positions_ok (fst (setSelectedRow i s))"
    using current_positions [OF assms(1)] here assms(2,3) False by (auto simp: positions_ok_def setSelectedRow_def Let_def split: if_splits)
  then show ?thesis
    by (rule current_by_positions [OF assms(1)]) (simp_all add: setSelectedRow_def Let_def)
qed (simp add: setSelectedRow_def assms(1))

lemma selectRoomById_current:
  assumes "list_current env s"
  shows "list_current env (selectRoomById env r s)"
proof -
  have here: "list_current env (t\<lparr>di_selectedIndex := room_position r (di_rows t), di_selectedRoomId := r\<rparr>)"
    if "list_current env t" "0 \<le> room_position r (di_rows t) \<or> r \<noteq> []" for t
  proof (rule current_by_positions [OF that(1)])
    have "r \<noteq> []"
    proof (rule room_position_cases [of r "di_rows t"])
      fix k
      assume k: "k < length (di_rows t)" "dl_roomId (di_rows t ! k) = r"
      then show "r \<noteq> []" using current_nth(1) [OF that(1), of "int k"] by simp
    qed (use that(2) in simp)
    then show "positions_ok (t\<lparr>di_selectedIndex := room_position r (di_rows t), di_selectedRoomId := r\<rparr>)"
      using current_positions [OF that(1)] by (auto simp: positions_ok_def Let_def split: if_splits)
  qed simp_all
  show ?thesis
  proof (cases "0 \<le> room_position r (di_rows s)")
    case True
    then show ?thesis using here [OF assms] by (simp add: selectRoomById_def Let_def)
  next
    case False
    then have gone: "room_position r (di_rows s) = -1" using room_position_bounds [of r "di_rows s"] by linarith
    show ?thesis
    proof (cases "di_activeFilterId s = 0")
      case True
      have "list_current env (s\<lparr>di_selectedIndex := -1, di_selectedRoomId := []\<rparr>)"
        using current_positions [OF assms]
        by (intro current_by_positions [OF assms]) (auto simp: positions_ok_def Let_def split: if_splits)
      then show ?thesis
        using here [OF assms] True gone by (cases "r = []") (simp_all add: selectRoomById_def)
    next
      case filtered: False
      have "list_current env (setActiveFilter env 0 s)" using assms by (rule setActiveFilter_current)
      then show ?thesis
        using here [of "setActiveFilter env 0 s"] gone filtered by (simp add: selectRoomById_def Let_def)
    qed
  qed
qed

lemma clearSelection_current:
  assumes "list_current env s"
  shows "list_current env (clearSelection s)"
proof (cases "di_selectedIndex s < 0")
  case False
  have "positions_ok (clearSelection s)"
    using current_positions [OF assms] by (auto simp: positions_ok_def clearSelection_def Let_def split: if_splits)
  then show ?thesis by (rule current_by_positions [OF assms]) (simp_all add: clearSelection_def)
qed (simp add: clearSelection_def assms)

lemma mousePressEvent_current:
  assumes "list_current env s"
  shows "list_current env (fst (mousePressEvent st b y s))"
proof -
  define i where "i = rowAtY st s y"
  have drag: "list_current env (s\<lparr>di_draggedIndex := i, di_draggedRoomId := dl_roomId (di_rows s ! nat i),
      di_dragStartY := y, di_dragCurrentY := y, di_dragStarted := False\<rparr>)"
    if "0 \<le> i" "i < int (length (di_rows s))"
    using current_positions [OF assms] current_nth [OF assms that] that
    by (intro current_by_positions [OF assms]) (auto simp: positions_ok_def Let_def split: if_splits)
  have click: "list_current env (fst (clickSearchResult j s))" for j
    using assms by (simp add: clickSearchResult_def Let_def)
  show ?thesis
    using assms drag click setSelectedRow_current [OF assms, of i]
    unfolding mousePressEvent_def Let_def i_def [symmetric] by simp
qed

lemma rowAtY_bounds: "-1 \<le> rowAtY st s y \<and> rowAtY st s y < int (length (di_rows s))" if "0 < ls_rowHeight st"
  using that pos_imp_zdiv_nonneg_iff [of "ls_rowHeight st" y] by (cases "0 \<le> y") (simp_all add: rowAtY_def Let_def)

lemma drag_to_current:
  assumes cur: "list_current env s" and drag: "0 \<le> di_draggedIndex s" and st: "0 < ls_rowHeight st"
  shows "list_current env (drag_to st s)"
proof (rule current_by_positions [OF cur])
  have "pinnedCount s \<le> int (length (di_rows s))" by (simp add: pinnedCount_def length_filter_le)
  moreover have "di_draggedRoomId s \<noteq> []" "0 < length (di_rows s)"
    using current_positions [OF cur] drag room_position_bounds [of "di_draggedRoomId s" "di_rows s"]
    by (auto simp: positions_ok_def Let_def split: if_splits)
  ultimately show "positions_ok (drag_to st s)"
    using current_positions [OF cur] rowAtY_bounds [OF st, of s "di_dragCurrentY s"]
    by (auto simp: positions_ok_def drag_to_def std_clamp_def Let_def split: if_splits)
qed (simp_all add: drag_to_def Let_def)

lemma hover_current:
  assumes "list_current env s" "-1 \<le> i" "i < int (length (di_rows s))"
  shows "list_current env (s\<lparr>di_hoveredIndex := i\<rparr>)" "list_current env (s\<lparr>di_menuRowIndex := i\<rparr>)"
  using current_positions [OF assms(1)] assms(2,3)
  by (intro current_by_positions [OF assms(1)]; auto simp: positions_ok_def Let_def split: if_splits)+

lemma mouseMoveEvent_current:
  assumes cur: "list_current env s" and st: "0 < ls_rowHeight st"
  shows "list_current env (mouseMoveEvent st b y s)"
proof -
  define s1 where "s1 = (if di_messageSearchMode s \<or> isDefaultSearchVisible s
    then s\<lparr>di_searchHoveredIndex := searchResultRowAtY st s y\<rparr> else s)"
  have cur1: "list_current env s1" using cur by (simp add: s1_def)
  have drag: "list_current env (drag_to st (s1\<lparr>di_dragCurrentY := y\<rparr>))" if "0 \<le> di_draggedIndex s1"
    using that cur1 st by (intro drag_to_current) simp_all
  have start: "list_current env (drag_to st (s1\<lparr>di_dragCurrentY := y, di_dragStarted := True\<rparr>))" if "0 \<le> di_draggedIndex s1"
  proof (rule drag_to_current [OF _ _ st])
    have "positions_ok (s1\<lparr>di_dragCurrentY := y, di_dragStarted := True\<rparr>)"
      using current_positions [OF cur1] that by (auto simp: positions_ok_def Let_def split: if_splits)
    then show "list_current env (s1\<lparr>di_dragCurrentY := y, di_dragStarted := True\<rparr>)"
      by (rule current_by_positions [OF cur1]) simp_all
  qed (use that in simp)
  have hover: "list_current env (s1\<lparr>di_hoveredIndex := rowAtY st s1 y\<rparr>)" "list_current env (s1\<lparr>di_hoveredIndex := -1\<rparr>)"
    using rowAtY_bounds [OF st, of s1 y] by (intro hover_current cur1; simp)+
  show ?thesis
    using cur cur1 drag start hover unfolding mouseMoveEvent_def Let_def s1_def [symmetric] by simp
qed

lemma mouseReleaseEvent_current:
  assumes cur: "list_current env s"
  shows "list_current env (fst (mouseReleaseEvent env b s))"
proof (cases "0 \<le> di_draggedIndex s")
  case True
  have "di_draggedIndex s < int (length (di_rows s))"
    using current_positions [OF cur] True room_position_bounds [of "di_draggedRoomId s" "di_rows s"]
    by (auto simp: positions_ok_def Let_def split: if_splits)
  then show ?thesis
    using cur end_drag_current drop_dragged_current [OF cur True] setSelectedRow_current [OF cur True]
    unfolding mouseReleaseEvent_def by (simp add: case_prod_beta Let_def)
qed (simp add: mouseReleaseEvent_def cur)

lemma leaveEvent_current: "list_current env s \<Longrightarrow> list_current env (leaveEvent s)"
  using hover_current(1) [of env "s\<lparr>di_searchHoveredIndex := -1\<rparr>" "-1"] by (simp add: leaveEvent_def Let_def)

lemma menu_current:
  assumes "list_current env s"
  shows "list_current env (contextMenuEvent s)" "list_current env (menuHidden s)"
  using assms hover_current(2) [OF assms] by (simp_all add: contextMenuEvent_def menuHidden_def)

lemma modes_current:
  assumes "list_current env s"
  shows "list_current env (setMessageSearchMode b i s)" "list_current env (setInitialLoading b s)"
    "list_current env (setSearchLoading b s)"
proof -
  have "list_current env (s\<lparr>di_initialLoading := c, di_hoveredIndex := -1, di_searchHoveredIndex := -1, di_menuRowIndex := -1\<rparr>)" for c
    using assms by (simp add: hover_current)
  then show "list_current env (setInitialLoading b s)" using assms by (simp add: setInitialLoading_def Let_def)
qed (use assms in \<open>simp_all add: setMessageSearchMode_def setSearchLoading_def Let_def\<close>)

lemma results_current:
  assumes "list_current env s"
  shows "list_current env (setSearchResults pg s)" "list_current env (appendSearchResults pg s)"
    "list_current env (clearSearchResults s)" "list_current env (fst (selectNextSearchResult s))"
    "list_current env (fst (selectPreviousSearchResult s))"
  using assms by (simp_all add: setSearchResults_def appendSearchResults_def clearSearchResults_def
      selectNextSearchResult_def selectPreviousSearchResult_def Let_def)

lemma plain_setters_current:
  assumes "list_current env s"
  shows "list_current env (setMessageSearchQuery env q s)" "list_current env (setMessageSearchGlobalScope b s)"
    "list_current env (setViewportHeight h s)"
  using assms by (simp_all add: setMessageSearchQuery_def setMessageSearchGlobalScope_def setViewportHeight_def)

lemma chat_step_current:
  assumes "list_current env s" "chat_ok env s e" "lower_ok env" "0 < ls_rowHeight st"
  shows "list_current env (chat_step env st s e)"
  using assms
  by (cases e)
    (simp_all add: chat_step_def case_prod_beta setRooms_current setDraft_current unread_setters_current
      setActiveFilter_current setActiveSpace_current setSearchFilter_current toggleRoomFolder_current
      setRoomInFolder_current setRoomPinned_current dialogs_setRoomNotificationMode_current applyPinnedOrder_current
      updateOnlineStatus_current selectRoomById_current clearSelection_current mousePressEvent_current
      mouseMoveEvent_current mouseReleaseEvent_current leaveEvent_current menu_current modes_current
      results_current plain_setters_current setSavedMessagesRoomId_current)

text \<open>The selected hit stays one of the hits.  Only these calls touch it or them.\<close>

lemma untouched_hits:
  "di_searchResults (chat_step env st s e) = di_searchResults s
   \<and> di_searchSelectedIndex (chat_step env st s e) = di_searchSelectedIndex s"
  if "\<And>b i. e \<noteq> SetMessageSearchMode b i" "\<And>pg. e \<noteq> SetSearchResults pg" "\<And>pg. e \<noteq> AppendSearchResults pg"
    "e \<noteq> ClearSearchResults" "e \<noteq> SelectNextSearchResult" "e \<noteq> SelectPreviousSearchResult"
    "\<And>b y. e \<noteq> MousePress b y"
proof (cases e)
  case (MouseRelease b)
  have "di_searchResults (fst (drop_dragged env s)) = di_searchResults s
      \<and> di_searchSelectedIndex (fst (drop_dragged env s)) = di_searchSelectedIndex s"
    by (simp add: drop_dragged_def resort_def rebuildAllRowsIndex_def Let_def)
  then show ?thesis
    by (simp add: MouseRelease chat_step_def mouseReleaseEvent_def case_prod_beta end_drag_def setSelectedRow_def Let_def)
next
  case (MouseMove b y)
  have "di_searchResults (drag_to st t) = di_searchResults t \<and> di_searchSelectedIndex (drag_to st t) = di_searchSelectedIndex t" for t
    by (simp add: drag_to_def Let_def)
  then show ?thesis by (simp add: MouseMove chat_step_def mouseMoveEvent_def Let_def)
next
  case (SetRoomPinned r b)
  then show ?thesis
    by (simp add: chat_step_def setRoomPinned_def resort_def rebuildAllRowsIndex_def Let_def split: option.split)
next
  case (SelectRoomById r)
  then show ?thesis by (simp add: chat_step_def selectRoomById_def setActiveFilter_def Let_def)
qed (use that in \<open>simp_all add: chat_step_def setRooms_def rebuildAllRowsIndex_def setDraft_def
    setRoomUnreadCount_def setRoomHighlightCount_def setRoomMarkedUnread_def set_unread_field_def
    reapplyUnreadFilterIfNeeded_def setActiveFilter_def setActiveSpace_def setSearchFilter_def
    setSavedMessagesRoomId_def toggleRoomFolder_def setRoomInFolder_def dialogs_setRoomNotificationMode_def
    applyPinnedOrder_def resort_def updateOnlineStatus_def clearSelection_def leaveEvent_def
    contextMenuEvent_def menuHidden_def setInitialLoading_def setSearchLoading_def
    setMessageSearchQuery_def setMessageSearchGlobalScope_def setViewportHeight_def Let_def\<close>)

lemma press_hits:
  assumes "hits_ok s" "0 < ls_rowHeight st"
  shows "hits_ok (fst (mousePressEvent st b y s))"
proof -
  have "hits_ok (fst (clickSearchResult i s))" if "0 \<le> i" "i < int (length (di_searchResults s))" for i
    using that by (simp add: clickSearchResult_def hits_ok_def Let_def)
  moreover have "hits_ok (fst (setSelectedRow i s))" for i
    using assms(1) by (simp add: setSelectedRow_def hits_ok_def Let_def)
  ultimately show ?thesis using assms(1) by (simp add: mousePressEvent_def hits_ok_def Let_def)
qed

lemma select_hits:
  assumes "hits_ok s"
  shows "hits_ok (fst (selectNextSearchResult s))" "hits_ok (fst (selectPreviousSearchResult s))"
  using assms
  by (cases "di_searchResults s";
      simp add: hits_ok_def selectNextSearchResult_def selectPreviousSearchResult_def Let_def)+

lemma chat_step_hits:
  assumes "hits_ok s" "0 < ls_rowHeight st"
  shows "hits_ok (chat_step env st s e)"
proof (cases "\<exists>b i. e = SetMessageSearchMode b i \<or> (\<exists>pg. e = SetSearchResults pg \<or> e = AppendSearchResults pg)
    \<or> e = ClearSearchResults \<or> e = SelectNextSearchResult \<or> e = SelectPreviousSearchResult \<or> e = MousePress b i")
  case True
  then show ?thesis
    using assms press_hits [OF assms] select_hits [OF assms(1)]
    by (auto simp: chat_step_def hits_ok_def setMessageSearchMode_def setSearchResults_def appendSearchResults_def
        clearSearchResults_def case_prod_beta Let_def)
next
  case False
  then show ?thesis using untouched_hits [of e env st s] assms(1) unfolding hits_ok_def by metis
qed

lemma chat_guarded:
  assumes "lower_ok env" "0 < ls_rowHeight st"
  shows "guarded_machine (chat_step env st) (chat_inv env) (chat_ok env)"
  using assms by unfold_locales (simp add: chat_inv_def chat_step_current chat_step_hits)

subsection \<open>The list after any calls\<close>

lemma position_from_rows:
  assumes "[] \<notin> set (map dl_roomId rows)" "0 \<le> i"
  shows "(case position_from i (map dl_roomId rows) r of None \<Rightarrow> -1 | Some k \<Rightarrow> k)
    = row_position (\<lambda>row. dl_roomId row = r) i rows"
  using assms by (induction rows arbitrary: i) auto

lemma index_finds_rows:
  assumes "room_ids_ok rows"
  shows "hash_value (-1) r (all_rows_index rows) = room_position r rows"
proof -
  have "ids_distinct (map dl_roomId rows)" using assms by (simp add: room_ids_ok_def ids_distinct_def distinct_filter)
  then show ?thesis
    using position_from_rows [of rows 0 r] assms
    by (simp add: all_rows_index_def hash_value_def insert_ids_lookup room_position_def room_ids_ok_def split: option.splits)
qed


definition demo_text :: text_env where
  "demo_text = \<lparr> te_isSpace = (\<lambda>c. c = CHR '' ''), te_toLower = (\<lambda>str. str), te_translate = (\<lambda>str. str) \<rparr>"

definition demo_style :: list_style where
  "demo_style = \<lparr> ls_rowHeight = 62, ls_searchedBarHeight = 32 \<rparr>"

definition demo_chat :: "qstring \<Rightarrow> bool \<Rightarrow> int \<Rightarrow> room_summary" where
  "demo_chat r pinned ts = default_room_summary\<lparr>rs_roomId := r, rs_displayName := r, rs_isPinned := pinned,
     rs_timestamp := ts\<rparr>"

definition demo_events :: "chat_event list" where
  "demo_events =
     [SetRooms [demo_chat ''!a'' True 3, demo_chat ''!b'' True 2, demo_chat ''!c'' False 9],
      ApplyPinnedOrder [''!a'', ''!b''], SetRoomPinned ''!c'' True, MousePress True 10, MouseMove True 130,
      MouseRelease True, SetRoomUnreadCount ''!b'' 4, SetActiveFilter 2, SelectRoomById ''!b'',
      SetSearchFilter ''!c'', MousePress True 5, MouseRelease True]"

lemma demo_lower_ok: "lower_ok demo_text"
  by (simp add: lower_ok_def demo_text_def)


subsection \<open>A drop\<close>


definition demo_drag :: "chat_event list" where
  "demo_drag =
     [SetRooms [(demo_chat ''!a'' True 3)\<lparr>rs_filterIds := [7]\<rparr>, demo_chat ''!b'' True 2,
        (demo_chat ''!c'' True 9)\<lparr>rs_filterIds := [7]\<rparr>, (demo_chat ''!d'' False 9)\<lparr>rs_filterIds := [7]\<rparr>],
      ApplyPinnedOrder [''!a'', ''!b'', ''!c''], SetActiveFilter 7, MousePress True 10, MouseMove True 130]"


subsection \<open>Where selection and dragging go wrong\<close>

text \<open>A room that is not among the rows while a folder is shown: the folder is left, the old
  selection stays.  Without a folder the room is remembered, and lights up once it is listed.\<close>

lemma selection_lost_in_folder:
  assumes cur: "list_current env s" and absent: "r \<notin> set (map dl_roomId (di_allRows s))"
  shows "di_activeFilterId s \<noteq> 0 \<Longrightarrow>
           di_activeFilterId (selectRoomById env r s) = 0 \<and> di_selectedRoomId (selectRoomById env r s) = di_selectedRoomId s"
    and "di_activeFilterId s = 0 \<Longrightarrow> di_selectedRoomId (selectRoomById env r s) = r"
proof -
  have gone: "room_position r (di_rows t) = -1" if "list_current env t" "di_allRows t = di_allRows s" for t
    using room_position_cases [of r "di_rows t"] set_filtered_rows [of env t] absent current_rows [OF that(1)] that(2)
    by (metis (no_types, lifting) image_eqI nth_mem set_map subsetD)
  note rows = gone [OF cur refl]
    gone [OF setActiveFilter_current [OF cur, of 0], unfolded setActiveFilter_def, simplified]
  show "di_activeFilterId s \<noteq> 0 \<Longrightarrow>
      di_activeFilterId (selectRoomById env r s) = 0 \<and> di_selectedRoomId (selectRoomById env r s) = di_selectedRoomId s"
    using rows by (simp add: selectRoomById_def setActiveFilter_def Let_def)
  show "di_activeFilterId s = 0 \<Longrightarrow> di_selectedRoomId (selectRoomById env r s) = r"
    using rows(1) by (simp add: selectRoomById_def)
qed

text \<open>Clearing does not clear a selection that waits for its room.\<close>

lemma cleared_selection_waits:
  "di_selectedIndex s = -1 \<Longrightarrow> clearSelection s = s"
  by (simp add: clearSelection_def)

lemma cleared_selection_lights_up:
  "let s = foldl (chat_step demo_text demo_style) initial_dialogs
             [SelectRoomById ''!new'', ClearSelection, SetRooms [demo_chat ''!new'' False 1]]
   in di_selectedIndex s = 0 \<and> di_selectedRoomId s = ''!new''"
  by code_simp

text \<open>Naming the room of Saved Messages does not bring it into Personal.\<close>

lemma saved_messages_missing_in_personal:
  "let s = foldl (chat_step demo_text demo_style) initial_dialogs
             [SetRooms [demo_chat ''!me'' False 1], SetActiveFilter 1, SetSavedMessagesRoomId ''!me'']
   in di_rows s = [] \<and> map dl_roomId (filtered_rows demo_text s) = [''!me'']"
  by code_simp

text \<open>Two chats with one user: presence reaches one row on screen.\<close>

lemma second_chat_stays_offline:
  "let dm = (\<lambda>r. (demo_chat r False 1)\<lparr>rs_isDirect := True, rs_avatarEntityId := ''@u''\<rparr>);
       s = foldl (chat_step demo_text demo_style) initial_dialogs
             [SetRooms [dm ''!a'', dm ''!b''], UpdateOnlineStatus ''@u'' 1]
   in map isPeerOnline (di_rows s) = [True, False] \<and> map isPeerOnline (di_allRows s) = [True, True]"
  by code_simp

text \<open>Below the last row a dragged chat is dropped at the top.\<close>

lemma drag_below_rows_goes_up:
  assumes "filteredRowsHeight st s \<le> di_dragCurrentY s" "0 < pinnedCount s"
  shows "di_dropTargetIndex (drag_to st s) = 0"
  using assms by (simp add: drag_to_def rowAtY_def std_clamp_def Let_def)

text \<open>Dragging in the result of a search: the row dragged is counted among all rows, the pinned rows
  among themselves.  Here the best match is not pinned, the user drags \<open>xba\<close> up, and \<open>xbc\<close> moves.\<close>

lemma search_drag_moves_another_chat:
  "let s2 = foldl (chat_step demo_text demo_style) initial_dialogs
             [SetRooms [demo_chat ''xba'' True 3, demo_chat ''xbc'' True 2, demo_chat ''b'' False 9],
              ApplyPinnedOrder [''xba'', ''xbc''], SetSearchFilter ''b'',
              MousePress True 70, MouseMove True 10]
   in map dl_roomId (di_rows s2) = [''b'', ''xba'', ''xbc''] \<and> di_draggedRoomId s2 = ''xba''
    \<and> snd (mouseReleaseEvent demo_text True s2) = [PinnedOrderChanged [''xbc'', ''xba'']]"
  by code_simp

end
