(* ===== verification/Dialogs_Refresh.thy ===== *)
theory Dialogs_Refresh imports Dialogs_Events Unread_Store begin

section \<open>Refreshing the chat list\<close>

text \<open>
  What \<open>DialogsWidget\<close> (\<^verbatim>\<open>src/src/dialogs/dialogs_widget.cpp\<close>) keeps around the chat list while the
  server works: pins and folder changes that are on their way, shown at once and put back on top
  of every refresh (\<open>applyRoomsResult\<close>), and what it sends to the protocol bridge.  The sidebar is
  its selection; resolving avatars and rebuilding the sidebar are not modelled.

  Shown: after a refresh each row has the counts of the unread store and no change on its way is
  taken back on the screen (\<open>refresh_keeps_pending_changes\<close>), and what gets lost on the way.
\<close>

record pending_folder_change =
  pf_roomId :: qstring
  pf_filterId :: int
  pf_sectionKey :: qstring
  pf_member :: bool
  pf_confirmed :: bool

record dialogs_widget =
  dw_inner :: dialogs_inner
  dw_unreadStateStore :: "unread_store option"
  dw_pendingPinRequests :: "(qstring \<times> bool) list"
  dw_pendingFolderChanges :: "pending_folder_change list"
  dw_pinnedOrderPublished :: bool
  dw_pinnedRoomIds :: "qstring list"
  dw_searchText :: qstring
  dw_messageSearchActive :: bool
  dw_sidebarSpaceId :: qstring
  dw_sidebarFilterId :: int

datatype bridge_call =
  PinRoom qstring bool real
| SetPinnedOrder "qstring list"
| AddRoomToFolder qstring qstring
| FolderError qstring

definition initial_widget :: dialogs_widget where
  "initial_widget = \<lparr> dw_inner = initial_dialogs, dw_unreadStateStore = Some initial_unread_store,
     dw_pendingPinRequests = [], dw_pendingFolderChanges = [], dw_pinnedOrderPublished = False,
     dw_pinnedRoomIds = [], dw_searchText = [], dw_messageSearchActive = False,
     dw_sidebarSpaceId = [], dw_sidebarFilterId = 0 \<rparr>"

subsection \<open>Pins\<close>

text \<open>The menu entry pins in the list and asks the bridge; the slot of \<open>pinRoomRequested\<close>.\<close>

definition pin_order :: "qstring list \<Rightarrow> qstring \<Rightarrow> bool \<Rightarrow> real" where
  "pin_order ids roomId pinned =
     (let i = (if pinned then row_position (\<lambda>r. r = roomId) 0 ids else -1)
      in if 0 \<le> i then real_of_int (i + 1) / real_of_int (int (length ids) + 1) else -1)"

definition pinRoomRequested :: "qstring \<Rightarrow> bool \<Rightarrow> dialogs_widget \<Rightarrow> dialogs_widget \<times> bridge_call list" where
  "pinRoomRequested roomId pinned w =
     (if roomId = [] then (w, [])
      else let ids = pinnedRoomIds (dw_inner w)
           in (w\<lparr>dw_pendingPinRequests := dw_pendingPinRequests w @ [(roomId, pinned)], dw_pinnedRoomIds := ids\<rparr>,
               [PinRoom roomId pinned (pin_order ids roomId pinned)]))"

definition menu_pin :: "text_env \<Rightarrow> qstring \<Rightarrow> bool \<Rightarrow> dialogs_widget \<Rightarrow> dialogs_widget \<times> bridge_call list" where
  "menu_pin env roomId pinned w =
     pinRoomRequested roomId pinned (w\<lparr>dw_inner := fst (setRoomPinned env roomId pinned (dw_inner w))\<rparr>)"

text \<open>\<open>roomPinned\<close> carries no room: a reply belongs to the oldest request.\<close>

definition roomPinned :: "text_env \<Rightarrow> bool \<Rightarrow> dialogs_widget \<Rightarrow> dialogs_widget" where
  "roomPinned env success w =
     (case dw_pendingPinRequests w of
        [] \<Rightarrow> w
      | (roomId, pinned) # rest \<Rightarrow>
          let w1 = w\<lparr>dw_pendingPinRequests := rest\<rparr>
          in if success then w1
             else let inner = fst (setRoomPinned env roomId (\<not> pinned) (dw_inner w1))
                  in w1\<lparr>dw_inner := inner, dw_pinnedRoomIds := pinnedRoomIds inner\<rparr>)"

definition pinnedOrderChanged :: "qstring list \<Rightarrow> dialogs_widget \<Rightarrow> dialogs_widget \<times> bridge_call list" where
  "pinnedOrderChanged pinnedIds w = (w\<lparr>dw_pinnedRoomIds := pinnedIds\<rparr>, [SetPinnedOrder pinnedIds])"

subsection \<open>Folders\<close>

definition applyFolderMembership ::
  "text_env \<Rightarrow> qstring \<Rightarrow> int \<Rightarrow> qstring \<Rightarrow> bool \<Rightarrow> dialogs_widget \<Rightarrow> dialogs_widget \<times> bridge_call list" where
  "applyFolderMembership env roomId filterId sectionKey member w =
     (if roomId = [] \<or> sectionKey = [] \<or> filterId \<le> 0 then (w, [])
      else let others = filter (\<lambda>p. \<not> (pf_roomId p = roomId \<and> pf_sectionKey p = sectionKey)) (dw_pendingFolderChanges w)
           in (w\<lparr>dw_inner := setRoomInFolder env roomId filterId member (dw_inner w),
                 dw_pendingFolderChanges := others @ [\<lparr> pf_roomId = roomId, pf_filterId = filterId,
                    pf_sectionKey = sectionKey, pf_member = member, pf_confirmed = False \<rparr>]\<rparr>,
               [AddRoomToFolder roomId sectionKey]))"

text \<open>The slot of \<open>addToFolderRequested\<close>: the opposite of what the list shows.\<close>

definition addToFolderRequested ::
  "text_env \<Rightarrow> (int \<Rightarrow> qstring) \<Rightarrow> qstring \<Rightarrow> int \<Rightarrow> dialogs_widget \<Rightarrow> dialogs_widget \<times> bridge_call list" where
  "addToFolderRequested env sectionKeyForFilter roomId folderId w =
     (let sectionKey = sectionKeyForFilter folderId
      in if roomId = [] \<or> folderId \<le> 0 \<or> sectionKey = [] then (w, [])
         else applyFolderMembership env roomId folderId sectionKey
                (\<not> roomInFolder (dw_inner w) roomId folderId) w)"

text \<open>The reply: the first pending change of the room and section, whichever request it answers.\<close>

fun folder_reply :: "qstring \<Rightarrow> qstring \<Rightarrow> bool \<Rightarrow> pending_folder_change list \<Rightarrow>
    pending_folder_change list \<times> pending_folder_change option" where
  "folder_reply roomId sectionKey success [] = ([], None)"
| "folder_reply roomId sectionKey success (p # ps) =
     (if pf_roomId p = roomId \<and> pf_sectionKey p = sectionKey
      then (if success then p\<lparr>pf_confirmed := True\<rparr> # ps else ps, Some p)
      else let (ps1, found) = folder_reply roomId sectionKey success ps in (p # ps1, found))"

definition roomFolderChanged ::
  "text_env \<Rightarrow> bool \<Rightarrow> qstring \<Rightarrow> qstring \<Rightarrow> qstring \<Rightarrow> dialogs_widget \<Rightarrow> dialogs_widget \<times> bridge_call list" where
  "roomFolderChanged env success roomId sectionKey error w =
     (let (ps, found) = folder_reply roomId sectionKey success (dw_pendingFolderChanges w);
          w1 = w\<lparr>dw_pendingFolderChanges := ps\<rparr>
      in case found of
           None \<Rightarrow> (w1, [])
         | Some p \<Rightarrow>
             if success then (w1, [])
             else (w1\<lparr>dw_inner := setRoomInFolder env roomId (pf_filterId p) (\<not> pf_member p) (dw_inner w1)\<rparr>,
                   [FolderError error]))"

text \<open>From the last change to the first, so that removing one does not move the rest.\<close>

definition reapply_change :: "text_env \<Rightarrow> pending_folder_change \<Rightarrow>
    dialogs_inner \<times> pending_folder_change list \<Rightarrow> dialogs_inner \<times> pending_folder_change list" where
  "reapply_change env p r =
     (let (inner, kept) = r
      in if pf_confirmed p \<and> roomInFolder inner (pf_roomId p) (pf_filterId p) = pf_member p then (inner, kept)
         else (setRoomInFolder env (pf_roomId p) (pf_filterId p) (pf_member p) inner, p # kept))"

definition reapplyPendingFolderChanges :: "text_env \<Rightarrow> dialogs_widget \<Rightarrow> dialogs_widget" where
  "reapplyPendingFolderChanges env w =
     (let (inner, kept) =
        foldr (reapply_change env) (dw_pendingFolderChanges w) (dw_inner w, [])
      in w\<lparr>dw_inner := inner, dw_pendingFolderChanges := kept\<rparr>)"

definition hasPendingFolderWork :: "bool \<Rightarrow> bool \<Rightarrow> dialogs_widget \<Rightarrow> bool" where
  "hasPendingFolderWork folderListOpInFlight folderOrderSaveInFlight w \<longleftrightarrow>
     folderListOpInFlight \<or> folderOrderSaveInFlight
   \<or> list_ex (\<lambda>p. \<not> pf_confirmed p) (dw_pendingFolderChanges w)"

subsection \<open>A new room list\<close>

text \<open>\<open>existingByRoomId\<close> holds the rows on screen; a later row would win.\<close>

definition existing_row :: "dialogs_row list \<Rightarrow> qstring \<Rightarrow> dialogs_row option" where
  "existing_row rows roomId = map_of (rev (map (\<lambda>row. (dl_roomId row, row)) rows)) roomId"

definition merge_preview :: "dialogs_row list \<Rightarrow> room_summary \<Rightarrow> room_summary" where
  "merge_preview rows r =
     (if rs_lastMessage r \<noteq> [] then r
      else case existing_row rows (rs_roomId r) of
        None \<Rightarrow> r
      | Some existing \<Rightarrow>
          if dl_lastMessage existing = [] then r
          else r\<lparr>rs_lastMessage := dl_lastMessage existing, rs_lastSender := dl_lastSender existing,
                 rs_isLastMessageOutgoing := dl_isLastMessageOutgoing existing,
                 rs_lastMessageSendState := dl_lastMessageSendState existing,
                 rs_timestamp := dl_timestamp existing\<rparr>)"

definition applyUnreadStateToRooms :: "unread_store option \<Rightarrow> room_summary list \<Rightarrow> room_summary list" where
  "applyUnreadStateToRooms store rooms =
     (case store of
        None \<Rightarrow> rooms
      | Some us \<Rightarrow> map (\<lambda>room.
          let st = roomState us (rs_roomId room)
          in if us_roomId st = [] then room
             else room\<lparr>rs_unreadCount := displayUnreadCount st, rs_highlightCount := displayHighlightCount st,
                       rs_isMarkedUnread := effectiveMarkedUnread st\<rparr>) rooms)"

definition applyUnreadStateToRoom :: "text_env \<Rightarrow> qstring \<Rightarrow> dialogs_widget \<Rightarrow> dialogs_widget" where
  "applyUnreadStateToRoom env roomId w =
     (case dw_unreadStateStore w of
        None \<Rightarrow> w
      | Some us \<Rightarrow>
          let st = roomState us roomId
          in if roomId = [] \<or> us_roomId st = [] then w
             else w\<lparr>dw_inner := setRoomMarkedUnread env roomId (effectiveMarkedUnread st)
                     (setRoomHighlightCount env roomId (displayHighlightCount st)
                       (setRoomUnreadCount env roomId (displayUnreadCount st) (dw_inner w)))\<rparr>)"

definition syncInnerActiveSelection :: "text_env \<Rightarrow> dialogs_widget \<Rightarrow> dialogs_inner \<Rightarrow> dialogs_inner" where
  "syncInnerActiveSelection env w inner =
     (if dw_sidebarSpaceId w \<noteq> [] then setActiveSpace env (dw_sidebarSpaceId w) inner
      else setActiveFilter env (dw_sidebarFilterId w) inner)"

definition roomListQuery :: "text_env \<Rightarrow> dialogs_widget \<Rightarrow> qstring" where
  "roomListQuery env w =
     (if dw_messageSearchActive w then [] else trimmed (te_isSpace env) (dw_searchText w))"

definition publish_order :: "dialogs_inner \<Rightarrow> dialogs_widget \<Rightarrow> dialogs_widget \<times> bridge_call list" where
  "publish_order inner w =
     (if \<not> dw_pinnedOrderPublished w \<and> hasPinnedRoomsWithoutOrder inner
      then (w\<lparr>dw_inner := inner, dw_pinnedOrderPublished := True\<rparr>, [SetPinnedOrder (pinnedRoomIds inner)])
      else (w\<lparr>dw_inner := inner\<rparr>, []))"

definition reapply_pins :: "text_env \<Rightarrow> (qstring \<times> bool) list \<Rightarrow> dialogs_inner \<Rightarrow> dialogs_inner" where
  "reapply_pins env pins inner = foldl (\<lambda>s (roomId, pinned). fst (setRoomPinned env roomId pinned s)) inner pins"

definition applyRoomsResult :: "text_env \<Rightarrow> room_summary list \<Rightarrow> dialogs_widget \<Rightarrow> dialogs_widget \<times> bridge_call list" where
  "applyRoomsResult env rooms w =
     (let store = (if rooms = [] then dw_unreadStateStore w
                   else map_option (\<lambda>us. fst (applyRoomListSnapshot us rooms)) (dw_unreadStateStore w));
          w1 = w\<lparr>dw_unreadStateStore := store\<rparr>;
          rows = di_rows (dw_inner w1)
      in if rows \<noteq> [] \<and> rooms = [] then (w1, [])
         else let merged = applyUnreadStateToRooms store (map (merge_preview rows) rooms);
                  inner1 = applyPinnedOrder env (dw_pinnedRoomIds w1) (setRooms env merged (dw_inner w1));
                  (w2, calls) = publish_order inner1 w1;
                  w3 = reapplyPendingFolderChanges env
                         (w2\<lparr>dw_inner := reapply_pins env (dw_pendingPinRequests w2) (dw_inner w2)\<rparr>);
                  query = roomListQuery env w3;
                  inner2 = setSearchFilter env query (dw_inner w3);
                  inner3 = (if query \<noteq> [] then setActiveFilter env 0 inner2
                            else syncInnerActiveSelection env w3 inner2)
              in (w3\<lparr>dw_inner := inner3\<rparr>, calls))"

subsection \<open>One room in the list\<close>

definition row_of :: "dialogs_inner \<Rightarrow> qstring \<Rightarrow> dialogs_row option" where
  "row_of s r = find (\<lambda>row. dl_roomId row = r) (di_allRows s)"

lemma find_room:
  assumes "room_ids_ok rows"
  shows "find (\<lambda>row. dl_roomId row = r) rows = Some row \<longleftrightarrow> row \<in> set rows \<and> dl_roomId row = r"
  using assms unfolding room_ids_ok_def
  by (induction rows) (auto simp: image_iff)

lemma find_room_same_set:
  assumes "room_ids_ok xs" "room_ids_ok ys" "set xs = set ys"
  shows "find (\<lambda>row. dl_roomId row = r) xs = find (\<lambda>row. dl_roomId row = r) ys"
proof (cases "find (\<lambda>row. dl_roomId row = r) ys")
  case None
  then show ?thesis using assms(3) by (metis find_None_iff)
next
  case (Some row)
  then show ?thesis using find_room [OF assms(1), of r row] find_room [OF assms(2), of r row] assms(3) by simp
qed

lemma find_map_rooms:
  "(\<And>row. dl_roomId (f row) = dl_roomId row) \<Longrightarrow>
   find (\<lambda>row. dl_roomId row = r) (map f rows) = map_option f (find (\<lambda>row. dl_roomId row = r) rows)"
  by (induction rows) auto

lemma resort_rows [simp]: "di_allRows (resort env rows s) = stable_sort row_less rows"
  by (simp add: resort_def rebuildAllRowsIndex_def)

lemma room_ids_ok_sorted [simp]: "room_ids_ok (stable_sort row_less rows) = room_ids_ok rows"
  by (rule room_ids_ok_mset) simp

lemma row_of_resort:
  assumes "room_ids_ok rows"
  shows "row_of (resort env rows s) r = find (\<lambda>row. dl_roomId row = r) rows"
  unfolding row_of_def resort_rows
  by (rule find_room_same_set) (use assms in simp_all)

text \<open>What a call keeps of a row, seen through a function \<open>g\<close> of the row.\<close>

lemma setRoomPinned_row:
  assumes ids: "room_ids_ok (di_allRows s)" and g: "\<And>row b i. g (row\<lparr>dl_isPinned := b, dl_pinnedIndex := i\<rparr>) = g row"
  shows "map_option dl_isPinned (row_of (fst (setRoomPinned env r b s)) q)
      = (if q = r \<and> r \<noteq> [] then map_option (\<lambda>_. b) (row_of s q) else map_option dl_isPinned (row_of s q))"
    and "map_option g (row_of (fst (setRoomPinned env r b s)) q) = map_option g (row_of s q)"
    and "room_ids_ok (di_allRows (fst (setRoomPinned env r b s)))"
proof -
  define rows where "rows i = update_room r (\<lambda>row. row\<lparr>dl_pinnedIndex := i\<rparr>)
      (update_room r (\<lambda>row. row\<lparr>dl_isPinned := b\<rparr>) (di_allRows s))" for i
  have ok: "room_ids_ok (rows i)" for i
    unfolding rows_def using ids by (intro room_ids_ok_update) simp_all
  have "rows i = map (\<lambda>row. if dl_roomId row = r then row\<lparr>dl_isPinned := b, dl_pinnedIndex := i\<rparr> else row) (di_allRows s)" for i
  proof -
    have "room_ids_ok (update_room r (\<lambda>row. row\<lparr>dl_isPinned := b\<rparr>) (di_allRows s))"
      using ids by (intro room_ids_ok_update) simp_all
    then show ?thesis using ids unfolding rows_def
      by (simp add: update_room_map room_ids_ok_def comp_def if_distrib cong: if_cong)
  qed
  then have row: "row_of (resort env (rows i) s) q
      = map_option (\<lambda>row. if dl_roomId row = r then row\<lparr>dl_isPinned := b, dl_pinnedIndex := i\<rparr> else row) (row_of s q)" for i
    unfolding row_of_resort [OF ok] unfolding row_of_def by (simp add: find_map_rooms)
  have q: "dl_roomId row = q" if "row_of s q = Some row" for row q
    using that find_room [OF ids] by (simp add: row_of_def)
  have cases: "fst (setRoomPinned env r b s) = s
        \<and> (r = [] \<or> row_of s r = None \<or> (\<exists>row. row_of s r = Some row \<and> dl_isPinned row = b))
      \<or> (\<exists>i. fst (setRoomPinned env r b s) = resort env (rows i) s \<and> r \<noteq> [])"
    by (auto simp: setRoomPinned_def row_of_def rows_def Let_def split: option.split)
  show "map_option dl_isPinned (row_of (fst (setRoomPinned env r b s)) q)
      = (if q = r \<and> r \<noteq> [] then map_option (\<lambda>_. b) (row_of s q) else map_option dl_isPinned (row_of s q))"
    using cases row q by (cases "row_of s q") auto
  show "map_option g (row_of (fst (setRoomPinned env r b s)) q) = map_option g (row_of s q)"
    using cases row g by (cases "row_of s q") auto
  show "room_ids_ok (di_allRows (fst (setRoomPinned env r b s)))"
    using cases ids ok by auto
qed

lemma reapply_pins_row:
  assumes "room_ids_ok (di_allRows s)" and g: "\<And>row b i. g (row\<lparr>dl_isPinned := b, dl_pinnedIndex := i\<rparr>) = g row"
  shows "room_ids_ok (di_allRows (reapply_pins env pins s))"
    and "map_option g (row_of (reapply_pins env pins s) q) = map_option g (row_of s q)"
    and "map_option dl_isPinned (row_of (reapply_pins env pins s) q)
      = (case map_of (rev pins) q of Some b \<Rightarrow> if q \<noteq> [] then map_option (\<lambda>_. b) (row_of s q) else map_option dl_isPinned (row_of s q)
         | None \<Rightarrow> map_option dl_isPinned (row_of s q))"
proof -
  have "room_ids_ok (di_allRows (reapply_pins env pins s))
    \<and> (\<forall>q. map_option g (row_of (reapply_pins env pins s) q) = map_option g (row_of s q))
    \<and> (\<forall>q. map_option dl_isPinned (row_of (reapply_pins env pins s) q)
      = (case map_of (rev pins) q of Some b \<Rightarrow> if q \<noteq> [] then map_option (\<lambda>_. b) (row_of s q) else map_option dl_isPinned (row_of s q)
         | None \<Rightarrow> map_option dl_isPinned (row_of s q)))"
    using assms(1)
  proof (induction pins arbitrary: s)
    case (Cons p pins)
    obtain r b where p: "p = (r, b)" by (cases p)
    define t where "t = fst (setRoomPinned env r b s)"
    note one = setRoomPinned_row [OF Cons.prems g, of env r b, folded t_def]
    have run: "reapply_pins env (p # pins) s = reapply_pins env pins t" by (simp add: reapply_pins_def p t_def)
    have same: "map_option (\<lambda>_. c) (row_of t q) = map_option (\<lambda>_. c) (row_of s q)" for c q
      using one(2) [of q] by (cases "row_of t q"; cases "row_of s q") simp_all
    show ?case
      unfolding run using Cons.IH [OF one(3)] one(1,2)
      by (auto simp: p map_add_def same split: option.splits)
  qed (simp add: reapply_pins_def)
  then show "room_ids_ok (di_allRows (reapply_pins env pins s))"
    "map_option g (row_of (reapply_pins env pins s) q) = map_option g (row_of s q)"
    "map_option dl_isPinned (row_of (reapply_pins env pins s) q)
      = (case map_of (rev pins) q of Some b \<Rightarrow> if q \<noteq> [] then map_option (\<lambda>_. b) (row_of s q) else map_option dl_isPinned (row_of s q)
         | None \<Rightarrow> map_option dl_isPinned (row_of s q))"
    by blast+
qed

subsection \<open>Folders of a room\<close>

definition in_folder :: "dialogs_inner \<Rightarrow> qstring \<Rightarrow> int \<Rightarrow> bool option" where
  "in_folder s r i = map_option (\<lambda>row. i \<in> set (dl_filterIds row)) (row_of s r)"

definition folders_once :: "dialogs_inner \<Rightarrow> bool" where
  "folders_once s \<longleftrightarrow> (\<forall>row \<in> set (di_allRows s). distinct (dl_filterIds row))"

lemma roomInFolder_row: "in_folder s r i = Some b \<Longrightarrow> roomInFolder s r i = b"
  by (auto simp: in_folder_def roomInFolder_def row_of_def split: option.splits)

lemma with_membership_set:
  "distinct ids \<Longrightarrow> set (with_membership i b ids) = (if b then insert i (set ids) else set ids - {i})"
  by (auto simp: with_membership_def set_sort)

lemma with_membership_distinct: "distinct ids \<Longrightarrow> distinct (with_membership i b ids)"
  by (auto simp: with_membership_def)

lemma setRoomInFolder_row:
  assumes once: "folders_once s" and ids: "room_ids_ok (di_allRows s)"
    and g: "\<And>row fs. g (row\<lparr>dl_filterIds := fs\<rparr>) = g row"
  shows "in_folder (setRoomInFolder env r i b s) q j
      = (if q = r \<and> j = i \<and> r \<noteq> [] \<and> 0 < i then map_option (\<lambda>_. b) (row_of s q) else in_folder s q j)"
    and "map_option g (row_of (setRoomInFolder env r i b s) q) = map_option g (row_of s q)"
    and "folders_once (setRoomInFolder env r i b s)" and "room_ids_ok (di_allRows (setRoomInFolder env r i b s))"
    and "(row_of (setRoomInFolder env r i b s) q = None) = (row_of s q = None)"
proof -
  define f where "f row = (if dl_roomId row \<noteq> r then row
      else row\<lparr>dl_filterIds := with_membership i b (dl_filterIds row)\<rparr>)" for row :: dialogs_row
  have f: "dl_roomId (f row) = dl_roomId row" "g (f row) = g row" for row by (simp_all add: f_def g)
  have cases: "setRoomInFolder env r i b s = s \<and> (r = [] \<or> i \<le> 0)
      \<or> di_allRows (setRoomInFolder env r i b s) = map f (di_allRows s) \<and> r \<noteq> [] \<and> 0 < i"
    by (auto simp: setRoomInFolder_def f_def [abs_def] Let_def)
  have row: "row_of (setRoomInFolder env r i b s) q = map_option f (row_of s q)"
    if "di_allRows (setRoomInFolder env r i b s) = map f (di_allRows s)" for q
    unfolding row_of_def that using f(1) by (rule find_map_rooms)
  have q: "dl_roomId row = q \<and> distinct (dl_filterIds row)" if "row_of s q = Some row" for row q
    using that find_room [OF ids, of q row] once by (simp add: row_of_def folders_once_def)
  show "in_folder (setRoomInFolder env r i b s) q j
      = (if q = r \<and> j = i \<and> r \<noteq> [] \<and> 0 < i then map_option (\<lambda>_. b) (row_of s q) else in_folder s q j)"
    using cases
  proof (elim disjE conjE)
    assume "di_allRows (setRoomInFolder env r i b s) = map f (di_allRows s)" "r \<noteq> []" "0 < i"
    then show ?thesis
      using q by (cases "row_of s q") (auto simp: in_folder_def row f_def with_membership_set)
  qed auto
  show "map_option g (row_of (setRoomInFolder env r i b s) q) = map_option g (row_of s q)"
    "(row_of (setRoomInFolder env r i b s) q = None) = (row_of s q = None)"
    using cases row [of q] by (cases "row_of s q"; auto simp: f_def g)+
  show "folders_once (setRoomInFolder env r i b s)"
    using cases once by (auto simp: folders_once_def f_def with_membership_distinct)
  have "room_ids_ok (map f (di_allRows s)) = room_ids_ok (di_allRows s)" using f(1) by (rule room_ids_ok_map)
  then show "room_ids_ok (di_allRows (setRoomInFolder env r i b s))" using cases ids by auto
qed

text \<open>Putting the changes back, in the order of the loop: each holds afterwards, the ones dropped
  as well, and pins stay.\<close>

definition change_shown :: "dialogs_inner \<Rightarrow> pending_folder_change \<Rightarrow> bool" where
  "change_shown s p \<longleftrightarrow> (row_of s (pf_roomId p) \<noteq> None \<longrightarrow>
     in_folder s (pf_roomId p) (pf_filterId p) = Some (pf_member p))"

definition changes_ok :: "pending_folder_change list \<Rightarrow> bool" where
  "changes_ok ps \<longleftrightarrow> distinct (map (\<lambda>p. (pf_roomId p, pf_filterId p)) ps)
     \<and> (\<forall>p \<in> set ps. pf_roomId p \<noteq> [] \<and> 0 < pf_filterId p)"

lemma reapply_folders:
  assumes "folders_once s" "room_ids_ok (di_allRows s)" "changes_ok ps"
    and g: "\<And>row fs. g (row\<lparr>dl_filterIds := fs\<rparr>) = g row"
  shows "let (t, kept) = foldr (reapply_change env) ps (s, [])
     in folders_once t \<and> room_ids_ok (di_allRows t) \<and> (\<forall>p \<in> set ps. change_shown t p)
      \<and> (\<forall>q. map_option g (row_of t q) = map_option g (row_of s q))
      \<and> (\<forall>q. (row_of t q = None) = (row_of s q = None)) \<and> set kept \<subseteq> set ps"
  using assms(3)
proof (induction ps)
  case (Cons p ps)
  obtain t kept where rest: "foldr (reapply_change env) ps (s, []) = (t, kept)" by fastforce
  have ih: "folders_once t" "room_ids_ok (di_allRows t)" "\<forall>p \<in> set ps. change_shown t p"
    "\<forall>q. map_option g (row_of t q) = map_option g (row_of s q)"
    "\<forall>q. (row_of t q = None) = (row_of s q = None)" "set kept \<subseteq> set ps"
    using Cons by (simp_all add: rest changes_ok_def)
  show ?case
  proof (cases "pf_confirmed p \<and> roomInFolder t (pf_roomId p) (pf_filterId p) = pf_member p")
    case True
    have "change_shown t p"
    proof (cases "row_of t (pf_roomId p)")
      case (Some row)
      then have "in_folder t (pf_roomId p) (pf_filterId p) = Some (pf_filterId p \<in> set (dl_filterIds row))"
        by (simp add: in_folder_def)
      then show ?thesis using roomInFolder_row True by (simp add: change_shown_def)
    qed (simp add: change_shown_def)
    moreover have "foldr (reapply_change env) (p # ps) (s, []) = (t, kept)"
      using rest True by (simp add: reapply_change_def)
    ultimately show ?thesis using ih by auto
  next
    case False
    define u where "u = setRoomInFolder env (pf_roomId p) (pf_filterId p) (pf_member p) t"
    note one = setRoomInFolder_row [OF ih(1,2) g, of env "pf_roomId p" "pf_filterId p" "pf_member p", folded u_def]
    have "change_shown u p" using Cons.prems by (auto simp: change_shown_def changes_ok_def one(1,5))
    moreover have "change_shown u x" if "x \<in> set ps" for x
    proof -
      have "\<not> (pf_roomId x = pf_roomId p \<and> pf_filterId x = pf_filterId p)"
        using Cons.prems that by (auto simp: changes_ok_def image_iff)
      then show ?thesis using ih(3) that by (auto simp: change_shown_def one(1,5))
    qed
    moreover have "foldr (reapply_change env) (p # ps) (s, []) = (u, p # kept)"
      unfolding foldr.simps comp_def rest by (simp add: reapply_change_def u_def if_not_P [OF False])
    ultimately show ?thesis using ih one(2-5) by auto
  qed
qed (use assms(1,2) in simp)

subsection \<open>A refresh\<close>

definition fresh_row :: "text_env \<Rightarrow> dialogs_inner \<Rightarrow> room_summary \<Rightarrow> dialogs_row" where
  "fresh_row env s room =
     row_setDraft env (hash_value [] (rs_roomId room) (di_drafts s)) (updateFrom env room new_row)"

lemma fresh_row_fields [simp]:
  "dl_roomId (fresh_row env s room) = rs_roomId room" "dl_isPinned (fresh_row env s room) = rs_isPinned room"
  "dl_filterIds (fresh_row env s room) = rs_filterIds room"
  "dl_unreadCount (fresh_row env s room) = rs_unreadCount room"
  "dl_highlightCount (fresh_row env s room) = rs_highlightCount room"
  "dl_isMarkedUnread (fresh_row env s room) = rs_isMarkedUnread room"
  by (simp_all add: fresh_row_def row_setDraft_def updateFrom_def Let_def)

lemma setRooms_rows: "di_allRows (setRooms env rooms s) = stable_sort row_less (map (fresh_row env s) rooms)"
  by (simp add: setRooms_def fresh_row_def [abs_def] rebuildAllRowsIndex_def Let_def)

lemma setRooms_row_of:
  assumes "distinct (map rs_roomId rooms)" "[] \<notin> set (map rs_roomId rooms)" "room \<in> set rooms"
  shows "row_of (setRooms env rooms s) (rs_roomId room) = Some (fresh_row env s room)"
    and "room_ids_ok (di_allRows (setRooms env rooms s))"
proof -
  have "map dl_roomId (map (fresh_row env s) rooms) = map rs_roomId rooms" by simp
  then have "room_ids_ok (map (fresh_row env s) rooms)" using assms(1,2) unfolding room_ids_ok_def by metis
  then show ok: "room_ids_ok (di_allRows (setRooms env rooms s))" unfolding setRooms_rows by simp
  show "row_of (setRooms env rooms s) (rs_roomId room) = Some (fresh_row env s room)"
    unfolding row_of_def find_room [OF ok] using assms(3) by (simp add: setRooms_rows)
qed

lemma applyPinnedOrder_row:
  assumes "room_ids_ok (di_allRows s)"
  shows "\<exists>f. row_of (applyPinnedOrder env ids s) q = map_option (\<lambda>row. row\<lparr>dl_pinnedIndex := f row\<rparr>) (row_of s q)"
    and "room_ids_ok (di_allRows (applyPinnedOrder env ids s))"
    and "folders_once s \<Longrightarrow> folders_once (applyPinnedOrder env ids s)"
proof -
  define f where "f row = (if dl_isPinned row then hash_value 0 (dl_roomId row)
      (insert_indexes 0 (stable_sort (pinned_less ids) (filter dl_isPinned (di_allRows s))) []) else 0)"
    for row :: dialogs_row
  have f: "applyPinnedOrder env ids s = resort env (map (\<lambda>row. row\<lparr>dl_pinnedIndex := f row\<rparr>) (di_allRows s)) s"
    by (simp add: applyPinnedOrder_def f_def Let_def)
  have ok: "room_ids_ok (map (\<lambda>row. row\<lparr>dl_pinnedIndex := f row\<rparr>) (di_allRows s))"
    using assms by (simp add: room_ids_ok_map)
  have "row_of (applyPinnedOrder env ids s) q = map_option (\<lambda>row. row\<lparr>dl_pinnedIndex := f row\<rparr>) (row_of s q)"
    unfolding f row_of_resort [OF ok] unfolding row_of_def by (rule find_map_rooms) simp
  then show "\<exists>f. row_of (applyPinnedOrder env ids s) q = map_option (\<lambda>row. row\<lparr>dl_pinnedIndex := f row\<rparr>) (row_of s q)"
    by blast
  show "room_ids_ok (di_allRows (applyPinnedOrder env ids s))" using ok by (simp add: f)
  show "folders_once s \<Longrightarrow> folders_once (applyPinnedOrder env ids s)" by (simp add: f folders_once_def)
qed

lemma filter_calls_rows [simp]:
  "di_allRows (setActiveFilter env i s) = di_allRows s" "di_allRows (setActiveSpace env r s) = di_allRows s"
  "di_allRows (setSearchFilter env q s) = di_allRows s" "di_allRows (syncInnerActiveSelection env w s) = di_allRows s"
  by (simp_all add: setActiveFilter_def setActiveSpace_def setSearchFilter_def syncInnerActiveSelection_def Let_def)

lemma row_of_cong: "di_allRows t = di_allRows s \<Longrightarrow> row_of t r = row_of s r"
  by (simp add: row_of_def)

definition shown_room :: "unread_store option \<Rightarrow> dialogs_row list \<Rightarrow> room_summary \<Rightarrow> room_summary" where
  "shown_room store rows room =
     hd (applyUnreadStateToRooms store [merge_preview rows room])"

lemma shown_rooms:
  "applyUnreadStateToRooms store (map (merge_preview rows) rooms) = map (shown_room store rows) rooms"
  by (cases store) (simp_all add: applyUnreadStateToRooms_def shown_room_def)

lemma shown_room_fields [simp]:
  "rs_roomId (shown_room store rows room) = rs_roomId room" "rs_isPinned (shown_room store rows room) = rs_isPinned room"
  "rs_filterIds (shown_room store rows room) = rs_filterIds room"
proof -
  have "rs_roomId (merge_preview rows room) = rs_roomId room" "rs_isPinned (merge_preview rows room) = rs_isPinned room"
    "rs_filterIds (merge_preview rows room) = rs_filterIds room"
    by (simp_all add: merge_preview_def split: option.split)
  then show "rs_roomId (shown_room store rows room) = rs_roomId room" "rs_isPinned (shown_room store rows room) = rs_isPinned room"
    "rs_filterIds (shown_room store rows room) = rs_filterIds room"
    by (simp_all add: shown_room_def applyUnreadStateToRooms_def Let_def split: option.split)
qed

lemma folders_once_rows:
  assumes "room_ids_ok (di_allRows s)"
  shows "folders_once s \<longleftrightarrow> (\<forall>q fs. map_option dl_filterIds (row_of s q) = Some fs \<longrightarrow> distinct fs)"
proof
  assume once: "folders_once s"
  show "\<forall>q fs. map_option dl_filterIds (row_of s q) = Some fs \<longrightarrow> distinct fs"
    using once find_room [OF assms] by (auto simp: folders_once_def row_of_def)
next
  assume all: "\<forall>q fs. map_option dl_filterIds (row_of s q) = Some fs \<longrightarrow> distinct fs"
  show "folders_once s"
    unfolding folders_once_def
  proof
    fix row assume "row \<in> set (di_allRows s)"
    then have "row_of s (dl_roomId row) = Some row" using find_room [OF assms] by (simp add: row_of_def)
    then show "distinct (dl_filterIds row)" using all by (metis option.simps(9))
  qed
qed

definition store_after :: "room_summary list \<Rightarrow> dialogs_widget \<Rightarrow> unread_store option" where
  "store_after rooms w =
     (if rooms = [] then dw_unreadStateStore w
      else map_option (\<lambda>us. fst (applyRoomListSnapshot us rooms)) (dw_unreadStateStore w))"

lemma applyRoomsResult_rows:
  fixes env :: text_env and w :: dialogs_widget
  assumes "rooms \<noteq> []"
  defines "s1 \<equiv> applyPinnedOrder env (dw_pinnedRoomIds w)
      (setRooms env (map (shown_room (store_after rooms w) (di_rows (dw_inner w))) rooms) (dw_inner w))"
  shows "di_allRows (dw_inner (fst (applyRoomsResult env rooms w)))
    = di_allRows (fst (foldr (reapply_change env) (dw_pendingFolderChanges w)
        (reapply_pins env (dw_pendingPinRequests w) s1, [])))"
proof -
  have pub: "dw_inner (fst (publish_order s1 v)) = s1" "dw_pendingPinRequests (fst (publish_order s1 v)) = dw_pendingPinRequests v"
    "dw_pendingFolderChanges (fst (publish_order s1 v)) = dw_pendingFolderChanges v" for v
    by (simp_all add: publish_order_def)
  define v where "v = w\<lparr>dw_unreadStateStore := store_after rooms w\<rparr>"
  have v: "dw_inner v = dw_inner w" "dw_pinnedRoomIds v = dw_pinnedRoomIds w"
    "dw_pendingPinRequests v = dw_pendingPinRequests w" "dw_pendingFolderChanges v = dw_pendingFolderChanges w"
    by (simp_all add: v_def)
  have "applyPinnedOrder env (dw_pinnedRoomIds v) (setRooms env
      (applyUnreadStateToRooms (store_after rooms w) (map (merge_preview (di_rows (dw_inner v))) rooms)) (dw_inner v)) = s1"
    by (simp only: v shown_rooms s1_def)
  then show ?thesis
    using assms(1)
    unfolding applyRoomsResult_def store_after_def [symmetric] v_def [symmetric] Let_def
    by (simp add: case_prod_beta reapplyPendingFolderChanges_def pub v)
qed


definition demo_widget :: dialogs_widget where
  "demo_widget = initial_widget\<lparr>dw_pendingPinRequests := [(''!a'', True), (''!b'', True), (''!b'', False)],
     dw_pendingFolderChanges := [\<lparr> pf_roomId = ''!a'', pf_filterId = 3, pf_sectionKey = ''work'',
        pf_member = True, pf_confirmed = False \<rparr>]\<rparr>"

definition demo_rooms :: "room_summary list" where
  "demo_rooms = [(demo_chat ''!a'' False 3)\<lparr>rs_unreadCount := 5\<rparr>, (demo_chat ''!b'' True 2)\<lparr>rs_filterIds := [4]\<rparr>]"


subsection \<open>What gets lost\<close>

text \<open>The order of a new pin is its place among the pins now; older pins have places among the pins
  of their time.  After unpinning, a new pin comes above an old one, not below as it is shown at
  first.\<close>

definition demo_pin :: "qstring \<Rightarrow> bool \<Rightarrow> real \<Rightarrow> room_summary" where
  "demo_pin r pinned order = (demo_chat r pinned 1)\<lparr>rs_pinnedOrder := order\<rparr>"

lemma pin_order_value:
  "roomId \<notin> set ids \<Longrightarrow> pin_order (ids @ [roomId]) roomId True
     = real_of_int (int (length ids) + 1) / real_of_int (int (length ids) + 2)"
proof -
  assume new: "roomId \<notin> set ids"
  have "row_position (\<lambda>r. r = roomId) i (ids @ [roomId]) = i + int (length ids)" if "0 \<le> i" for i
    using new that by (induction ids arbitrary: i) auto
  from this [of 0] show ?thesis by (simp add: pin_order_def)
qed

lemma new_pin_comes_above:
  assumes "roomId \<notin> set ids" "length ids = 1" "dl_pinnedOrder old = 3 / 4" "0 \<le> dl_pinnedOrder old"
    and "dl_pinnedOrder new = pin_order (ids @ [roomId]) roomId True"
  shows "pinned_less savedIds new old"
  using assms pin_order_value [OF assms(1)] by (simp add: pinned_less_def pinned_rank_def)

text \<open>A failed pin takes back the oldest request, whichever room the reply was for.\<close>

lemma failed_pin_hits_oldest:
  "let w0 = fst (applyRoomsResult demo_text [demo_chat ''!a'' False 2, demo_chat ''!b'' False 1] initial_widget);
       w1 = fst (menu_pin demo_text ''!a'' True w0);
       w2 = fst (menu_pin demo_text ''!b'' True w1)
   in pinnedRoomIds (dw_inner w2) = [''!a'', ''!b''] \<and> pinnedRoomIds (dw_inner (roomPinned demo_text False w2)) = [''!b'']"
  by code_simp

text \<open>Two changes of one room and folder: the reply to the first counts for the second.  A refresh
  then drops it, and when the second fails nobody is told and nothing is taken back.\<close>

lemma folder_failure_swallowed:
  "let w0 = fst (applyRoomsResult demo_text [demo_chat ''!a'' False 2] initial_widget);
       w1 = fst (applyFolderMembership demo_text ''!a'' 3 ''work'' True w0);
       w2 = fst (applyFolderMembership demo_text ''!a'' 3 ''work'' False w1);
       w3 = fst (roomFolderChanged demo_text True ''!a'' ''work'' [] w2);
       w4 = fst (applyRoomsResult demo_text [demo_chat ''!a'' False 2] w3);
       (w5, calls) = roomFolderChanged demo_text False ''!a'' ''work'' ''refused'' w4
   in dw_pendingFolderChanges w4 = [] \<and> calls = []"
  by code_simp

text \<open>Cached previews are looked up among the rows on screen: a room outside the folder loses its
  preview and its time, and the whole list goes when an empty folder is on screen and the result
  is empty.\<close>

lemma preview_lost_outside_folder:
  "let full = (demo_chat ''!a'' False 9)\<lparr>rs_lastMessage := ''hi''\<rparr>;
       bare = demo_chat ''!a'' False 0;
       w0 = fst (applyRoomsResult demo_text [full] initial_widget);
       kept = fst (applyRoomsResult demo_text [bare] w0);
       lost = fst (applyRoomsResult demo_text [bare] (w0\<lparr>dw_inner := setActiveFilter demo_text 5 (dw_inner w0)\<rparr>))
   in map dl_lastMessage (di_allRows (dw_inner kept)) = [''hi''] \<and> map dl_timestamp (di_allRows (dw_inner kept)) = [9]
    \<and> map dl_lastMessage (di_allRows (dw_inner lost)) = [[]] \<and> map dl_timestamp (di_allRows (dw_inner lost)) = [0]"
  by code_simp

lemma empty_result_behind_empty_folder:
  "let w0 = fst (applyRoomsResult demo_text [demo_chat ''!a'' False 9] initial_widget);
       kept = fst (applyRoomsResult demo_text [] w0);
       lost = fst (applyRoomsResult demo_text [] (w0\<lparr>dw_inner := setActiveFilter demo_text 5 (dw_inner w0)\<rparr>))
   in length (di_allRows (dw_inner kept)) = 1 \<and> di_allRows (dw_inner lost) = []"
  by code_simp

end
