(* ===== verification/Media_Cache.thy ===== *)
theory Media_Cache imports TM_Prelude Complex_Main begin

section \<open>The media cache\<close>

text \<open>
  \<open>MediaCache\<close> (\<^verbatim>\<open>src/src/protocol/media_cache.cpp\<close>, \<^verbatim>\<open>media_retry_policy.cpp\<close>): the images, pixmaps
  and bytes of media urls in bounded pools, and the memory of requests and failures that keeps
  the client from asking again too soon.  Decoding, scaling, the files on disk and the clock are
  the environment (\<open>media_env\<close>); an image is what a pool counts of it (sizes are natural numbers,
  as Qt reports them) with its pixels, and \<open>None\<close> the null image.
  Decoding off the main thread is a job that a later event finishes.

  Shown: no pool ever exceeds its bounds and what stays is what was used last; failures space
  out requests; and where stale images and stuck jobs come from.
\<close>

record qimage =
  qi_width :: nat
  qi_height :: nat
  qi_depth :: nat
  qi_sizeInBytes :: nat
  qi_pixels :: qstring

type_synonym image = "qimage option"

record memory_blob =
  mb_bytes :: qstring
  mb_mime :: qstring
  mb_filename :: qstring

text \<open>\<open>QRect\<close>: left, top, width, height.\<close>

type_synonym crop_rect = "int \<times> int \<times> int \<times> int"

record media_env =
  me_decodeImageBytes :: "qstring \<Rightarrow> qstring \<Rightarrow> image"
  me_exists :: "qstring \<Rightarrow> bool"
  me_readImage :: "qstring \<Rightarrow> image"
  me_decodeHeic :: "qstring \<Rightarrow> image"
  me_scaledTo :: "int \<Rightarrow> qimage \<Rightarrow> image"
  me_scaledPart :: "qimage \<Rightarrow> crop_rect \<Rightarrow> int \<Rightarrow> int \<Rightarrow> image"
  me_circle :: "qimage \<Rightarrow> crop_rect \<Rightarrow> int \<Rightarrow> real \<Rightarrow> image"
  me_number :: "int \<Rightarrow> qstring"
  me_real :: "real \<Rightarrow> qstring"

subsection \<open>Pools\<close>

text \<open>A cache with its \<open>LruOrder\<close>, least recently used first.\<close>

record 'v pool =
  pl_cache :: "(qstring, 'v) qhash"
  pl_order :: "qstring list"

definition empty_pool :: "'v pool" where
  "empty_pool = \<lparr> pl_cache = [], pl_order = [] \<rparr>"

definition touchOrder :: "qstring \<Rightarrow> 'v pool \<Rightarrow> 'v pool" where
  "touchOrder k p = p\<lparr>pl_order := filter (\<lambda>j. j \<noteq> k) (pl_order p) @ [k]\<rparr>"

definition pool_bytes :: "('v \<Rightarrow> int) \<Rightarrow> 'v pool \<Rightarrow> int" where
  "pool_bytes sizeFn p = hash_sum sizeFn (pl_cache p)"

text \<open>The loop of \<open>trimCache\<close> over the order; the running total is part of it.\<close>

fun trim_loop :: "nat \<Rightarrow> int \<Rightarrow> ('v \<Rightarrow> int) \<Rightarrow> int \<Rightarrow> (qstring, 'v) qhash \<Rightarrow> qstring list \<Rightarrow> 'v pool" where
  "trim_loop maxEntries maxBytes sizeFn bytes cache [] = \<lparr> pl_cache = cache, pl_order = [] \<rparr>"
| "trim_loop maxEntries maxBytes sizeFn bytes cache (oldest # order) =
     (if maxEntries < length cache \<or> maxBytes < bytes
      then case map_of cache oldest of
             None \<Rightarrow> trim_loop maxEntries maxBytes sizeFn bytes cache order
           | Some v \<Rightarrow> trim_loop maxEntries maxBytes sizeFn (bytes - sizeFn v) (hash_remove oldest cache) order
      else \<lparr> pl_cache = cache, pl_order = oldest # order \<rparr>)"

definition trimCache :: "nat \<Rightarrow> int \<Rightarrow> ('v \<Rightarrow> int) \<Rightarrow> 'v pool \<Rightarrow> 'v pool" where
  "trimCache maxEntries maxBytes sizeFn p =
     trim_loop maxEntries maxBytes sizeFn (pool_bytes sizeFn p) (pl_cache p) (pl_order p)"

text \<open>What every insertion does: insert, touch, trim.\<close>

definition pool_insert :: "nat \<Rightarrow> int \<Rightarrow> ('v \<Rightarrow> int) \<Rightarrow> qstring \<Rightarrow> 'v \<Rightarrow> 'v pool \<Rightarrow> 'v pool" where
  "pool_insert maxEntries maxBytes sizeFn k v p =
     trimCache maxEntries maxBytes sizeFn (touchOrder k (p\<lparr>pl_cache := hash_insert k v (pl_cache p)\<rparr>))"

definition pool_remove :: "qstring \<Rightarrow> 'v pool \<Rightarrow> 'v pool" where
  "pool_remove k p = p\<lparr>pl_cache := hash_remove k (pl_cache p)\<rparr>"

text \<open>A sized key is the url, a colon and more.\<close>

definition keyHasBase :: "qstring \<Rightarrow> qstring \<Rightarrow> bool" where
  "keyHasBase key base \<longleftrightarrow> length base < length key \<and> key ! length base = CHR '':'' \<and> startsWith base key"

definition remove_variants :: "qstring \<Rightarrow> 'v pool \<Rightarrow> 'v pool" where
  "remove_variants url p = p\<lparr>pl_cache := filter (\<lambda>e. \<not> keyHasBase (fst e) url) (pl_cache p)\<rparr>"

definition imageBytes :: "image \<Rightarrow> int" where
  "imageBytes img = (case img of None \<Rightarrow> 0 | Some i \<Rightarrow> int (qi_sizeInBytes i))"

definition pixmapBytes :: "image \<Rightarrow> int" where
  "pixmapBytes pixmap =
     (case pixmap of None \<Rightarrow> 0 | Some i \<Rightarrow> int (qi_width i * qi_height i * ((max 1 (qi_depth i) + 7) div 8)))"

definition blobBytes :: "memory_blob \<Rightarrow> int" where
  "blobBytes blob = int (length (mb_bytes blob))"

text \<open>The bounds of the pools.\<close>

definition insert_pixmap :: "qstring \<Rightarrow> image \<Rightarrow> image pool \<Rightarrow> image pool" where
  "insert_pixmap = pool_insert 500 (64 * 1024 * 1024) pixmapBytes"

definition insert_avatar :: "qstring \<Rightarrow> image \<Rightarrow> image pool \<Rightarrow> image pool" where
  "insert_avatar = pool_insert 2000 (32 * 1024 * 1024) pixmapBytes"

definition insert_image :: "qstring \<Rightarrow> image \<Rightarrow> image pool \<Rightarrow> image pool" where
  "insert_image = pool_insert 400 (64 * 1024 * 1024) imageBytes"

definition insert_placeholder :: "qstring \<Rightarrow> image \<Rightarrow> image pool \<Rightarrow> image pool" where
  "insert_placeholder = pool_insert 2000 (8 * 1024 * 1024) imageBytes"

definition insert_scaled :: "qstring \<Rightarrow> image \<Rightarrow> image pool \<Rightarrow> image pool" where
  "insert_scaled = pool_insert 500 (96 * 1024 * 1024) imageBytes"

definition insert_source :: "qstring \<Rightarrow> memory_blob \<Rightarrow> memory_blob pool \<Rightarrow> memory_blob pool" where
  "insert_source = pool_insert 512 (64 * 1024 * 1024) blobBytes"

definition insert_blob :: "qstring \<Rightarrow> memory_blob \<Rightarrow> memory_blob pool \<Rightarrow> memory_blob pool" where
  "insert_blob = pool_insert 64 (48 * 1024 * 1024) blobBytes"

subsection \<open>State\<close>

datatype download_phase = Downloading | Decrypting

record download_state =
  ds_phase :: download_phase
  ds_receivedBytes :: quint64
  ds_totalBytes :: quint64

record resolve_failure =
  rf_attempts :: int
  rf_lastFailureAtMs :: int
  rf_permanent :: bool

record media_cache =
  mc_path :: "(qstring, qstring) qhash"
  mc_image :: "image pool"
  mc_placeholder :: "image pool"
  mc_pixmap :: "image pool"
  mc_avatar :: "image pool"
  mc_scaled :: "image pool"
  mc_source :: "memory_blob pool"
  mc_blob :: "memory_blob pool"
  mc_probe :: "(qstring, int \<times> int) qhash"
  mc_asyncLoading :: "qstring list"
  mc_generation :: quint64
  mc_requested :: "(qstring, bool) qhash"
  mc_downloads :: "(qstring, download_state) qhash"
  mc_positions :: "(qstring, int) qhash"
  mc_failures :: "(qstring, resolve_failure) qhash"
  mc_decodeFailures :: "(qstring, int) qhash"

definition initial_media_cache :: media_cache where
  "initial_media_cache = \<lparr> mc_path = [], mc_image = empty_pool, mc_placeholder = empty_pool,
     mc_pixmap = empty_pool, mc_avatar = empty_pool, mc_scaled = empty_pool, mc_source = empty_pool,
     mc_blob = empty_pool, mc_probe = [], mc_asyncLoading = [], mc_generation = 0, mc_requested = [],
     mc_downloads = [], mc_positions = [], mc_failures = [], mc_decodeFailures = [] \<rparr>"

definition isPlaceholderKey :: "qstring \<Rightarrow> bool" where
  "isPlaceholderKey key \<longleftrightarrow> startsWith ''blur:'' key \<or> startsWith ''synthblur:'' key"

definition isRemoteCacheKey :: "qstring \<Rightarrow> bool" where
  "isRemoteCacheKey url \<longleftrightarrow>
     startsWith ''mxc://'' url \<or> startsWith ''srvthumb:'' url \<or> startsWith ''previewthumb:'' url"

definition capForTimeline :: "media_env \<Rightarrow> image \<Rightarrow> image" where
  "capForTimeline env img =
     (case img of None \<Rightarrow> None
      | Some i \<Rightarrow> if max (qi_width i) (qi_height i) \<le> 1600 then Some i else me_scaledTo env 1600 i)"

definition recordProbeSize :: "qstring \<Rightarrow> image \<Rightarrow> media_cache \<Rightarrow> media_cache" where
  "recordProbeSize url img s =
     (case img of None \<Rightarrow> s
      | Some i \<Rightarrow>
          if url = [] \<or> qi_width i = 0 \<or> qi_height i = 0 then s
          else let probe = (if 8192 \<le> length (mc_probe s) \<and> \<not> hash_contains url (mc_probe s) then [] else mc_probe s)
               in s\<lparr>mc_probe := hash_insert url (int (qi_width i), int (qi_height i)) probe\<rparr>)"

subsection \<open>Failures and retries\<close>

definition retryDelayMs :: "int \<Rightarrow> int" where
  "retryDelayMs attempts =
     (if attempts \<le> 0 then 0
      else if 10 \<le> attempts then 600000
      else min (push_bit (nat (attempts - 1)) 2000) 600000)"

definition retryAllowed :: "bool \<Rightarrow> int \<Rightarrow> int \<Rightarrow> int \<Rightarrow> bool" where
  "retryAllowed permanent attempts lastFailureAtMs nowMs \<longleftrightarrow>
     (if permanent then False
      else if attempts \<le> 0 then True
      else retryDelayMs attempts \<le> nowMs - lastFailureAtMs)"

definition decodeAllowed :: "int \<Rightarrow> bool" where
  "decodeAllowed decodeFailures \<longleftrightarrow> decodeFailures < 2"

definition glowAllowed :: "bool \<Rightarrow> int \<Rightarrow> bool" where
  "glowAllowed permanent attempts \<longleftrightarrow> \<not> permanent \<and> attempts < 3"

definition no_failure :: resolve_failure where
  "no_failure = \<lparr> rf_attempts = 0, rf_lastFailureAtMs = 0, rf_permanent = False \<rparr>"

definition clearFailureState :: "qstring \<Rightarrow> media_cache \<Rightarrow> media_cache" where
  "clearFailureState key s =
     s\<lparr>mc_failures := hash_remove key (mc_failures s), mc_decodeFailures := hash_remove key (mc_decodeFailures s)\<rparr>"

definition noteResolveFailed :: "int \<Rightarrow> qstring \<Rightarrow> media_cache \<Rightarrow> media_cache" where
  "noteResolveFailed now key s =
     (if key = [] then s
      else let failure = hash_value no_failure key (mc_failures s)
           in s\<lparr>mc_failures := hash_insert key
                 (failure\<lparr>rf_attempts := rf_attempts failure + 1, rf_lastFailureAtMs := now\<rparr>) (mc_failures s)\<rparr>)"

definition noteResolvePermanentlyFailed :: "int \<Rightarrow> qstring \<Rightarrow> media_cache \<Rightarrow> media_cache" where
  "noteResolvePermanentlyFailed now key s =
     (if key = [] then s
      else let failure = hash_value no_failure key (mc_failures s)
           in s\<lparr>mc_failures := hash_insert key
                 (failure\<lparr>rf_attempts := rf_attempts failure + 1, rf_lastFailureAtMs := now, rf_permanent := True\<rparr>)
                 (mc_failures s)\<rparr>)"

definition retrySuppressed :: "int \<Rightarrow> qstring \<Rightarrow> media_cache \<Rightarrow> bool" where
  "retrySuppressed now key s =
     (case map_of (mc_failures s) key of
        None \<Rightarrow> False
      | Some f \<Rightarrow> \<not> retryAllowed (rf_permanent f) (rf_attempts f) (rf_lastFailureAtMs f) now)"

definition noteDecodeFailed :: "qstring \<Rightarrow> media_cache \<Rightarrow> media_cache" where
  "noteDecodeFailed key s =
     (if key = [] then s
      else s\<lparr>mc_decodeFailures := hash_insert key (hash_value 0 key (mc_decodeFailures s) + 1) (mc_decodeFailures s)\<rparr>)"

definition decodeSuppressed :: "qstring \<Rightarrow> media_cache \<Rightarrow> bool" where
  "decodeSuppressed key s =
     (case map_of (mc_decodeFailures s) key of None \<Rightarrow> False | Some n \<Rightarrow> \<not> decodeAllowed n)"

definition mediaUnavailable :: "qstring \<Rightarrow> media_cache \<Rightarrow> bool" where
  "mediaUnavailable key s =
     (if decodeSuppressed key s then True
      else case map_of (mc_failures s) key of None \<Rightarrow> False | Some f \<Rightarrow> rf_permanent f)"

definition shouldGlowWhileLoading :: "qstring \<Rightarrow> media_cache \<Rightarrow> bool" where
  "shouldGlowWhileLoading key s =
     (if mediaUnavailable key s then False
      else case map_of (mc_failures s) key of
             None \<Rightarrow> True | Some f \<Rightarrow> glowAllowed (rf_permanent f) (rf_attempts f))"

subsection \<open>Paths and requests\<close>

text \<open>The plain files of the backend are encrypted: \<open>deterministicRemotePath\<close> is always empty.\<close>

definition localPath :: "media_env \<Rightarrow> qstring \<Rightarrow> media_cache \<Rightarrow> media_cache \<times> qstring" where
  "localPath env url s =
     (let cached = hash_value [] url (mc_path s)
      in if cached \<noteq> []
         then (if me_exists env cached then (s, cached) else (s\<lparr>mc_path := hash_remove url (mc_path s)\<rparr>, []))
         else (s, []))"

definition filePathForRead :: "media_env \<Rightarrow> qstring \<Rightarrow> media_cache \<Rightarrow> media_cache \<times> qstring \<times> bool" where
  "filePathForRead env url s =
     (let cached = hash_value [] url (mc_path s)
      in if cached \<noteq> [] \<and> me_exists env cached then (s, cached, False)
         else let s1 = (if cached \<noteq> [] then s\<lparr>mc_path := hash_remove url (mc_path s)\<rparr> else s)
              in if isRemoteCacheKey url then (s1, [], True) else (s1, url, False))"

definition insertPath :: "qstring \<Rightarrow> qstring \<Rightarrow> media_cache \<Rightarrow> media_cache" where
  "insertPath url path s =
     (let s1 = clearFailureState url (s\<lparr>mc_path := hash_insert url path (mc_path s),
                 mc_requested := hash_remove url (mc_requested s), mc_downloads := hash_remove url (mc_downloads s)\<rparr>)
      in s1\<lparr>mc_image := pool_remove url (mc_image s1), mc_blob := pool_remove url (mc_blob s1),
            mc_pixmap := remove_variants url (mc_pixmap s1), mc_scaled := remove_variants url (mc_scaled s1)\<rparr>)"

definition isResolved :: "media_env \<Rightarrow> qstring \<Rightarrow> media_cache \<Rightarrow> media_cache \<times> bool" where
  "isResolved env url s =
     (let (s1, path) = localPath env url s
      in (s1, path \<noteq> [] \<or> hash_contains url (pl_cache (mc_image s1)) \<or> hash_contains url (pl_cache (mc_source s1))
            \<or> hash_contains url (pl_cache (mc_blob s1))))"

definition needsResolution :: "media_env \<Rightarrow> int \<Rightarrow> qstring \<Rightarrow> media_cache \<Rightarrow> media_cache \<times> bool" where
  "needsResolution env now url s =
     (let (s1, resolved) = isResolved env url s
      in (s1, \<not> resolved \<and> \<not> hash_contains url (mc_requested s1) \<and> \<not> retrySuppressed now url s1))"

definition markRequested :: "qstring \<Rightarrow> media_cache \<Rightarrow> media_cache" where
  "markRequested url s = s\<lparr>mc_requested := hash_insert url True (mc_requested s)\<rparr>"

definition clearRequested :: "qstring \<Rightarrow> media_cache \<Rightarrow> media_cache" where
  "clearRequested url s = s\<lparr>mc_requested := hash_remove url (mc_requested s), mc_downloads := hash_remove url (mc_downloads s)\<rparr>"

definition setDownloadState :: "qstring \<Rightarrow> download_state \<Rightarrow> media_cache \<Rightarrow> media_cache" where
  "setDownloadState url state s = (if url = [] then s else s\<lparr>mc_downloads := hash_insert url state (mc_downloads s)\<rparr>)"

definition clearDownloadState :: "qstring \<Rightarrow> media_cache \<Rightarrow> media_cache" where
  "clearDownloadState url s = s\<lparr>mc_downloads := hash_remove url (mc_downloads s)\<rparr>"

definition setPlaybackPosition :: "qstring \<Rightarrow> int \<Rightarrow> media_cache \<Rightarrow> media_cache" where
  "setPlaybackPosition url positionMs s =
     (if url = [] then s else s\<lparr>mc_positions := hash_insert url positionMs (mc_positions s)\<rparr>)"

definition takePlaybackPosition :: "qstring \<Rightarrow> media_cache \<Rightarrow> media_cache \<times> int" where
  "takePlaybackPosition url s =
     (case map_of (mc_positions s) url of
        None \<Rightarrow> (s, -1)
      | Some ms \<Rightarrow> (s\<lparr>mc_positions := hash_remove url (mc_positions s)\<rparr>, ms))"

subsection \<open>Loading\<close>

text \<open>The file read on the main thread; the jobs below do without the native HEIC decoder.\<close>

definition read_file :: "media_env \<Rightarrow> qstring \<Rightarrow> image" where
  "read_file env path = (case me_readImage env path of None \<Rightarrow> me_decodeHeic env path | Some i \<Rightarrow> Some i)"

definition keep_image :: "media_env \<Rightarrow> qstring \<Rightarrow> image \<Rightarrow> media_cache \<Rightarrow> media_cache" where
  "keep_image env url img s =
     (let s1 = recordProbeSize url img s
      in s1\<lparr>mc_image := insert_image url (capForTimeline env img) (mc_image s1)\<rparr>)"

definition loadImage :: "media_env \<Rightarrow> qstring \<Rightarrow> media_cache \<Rightarrow> media_cache \<times> image" where
  "loadImage env url s =
     (if url = [] then (s, None)
      else if isPlaceholderKey url
      then (case map_of (pl_cache (mc_placeholder s)) url of
              None \<Rightarrow> (s, None)
            | Some img \<Rightarrow> (s\<lparr>mc_placeholder := touchOrder url (mc_placeholder s)\<rparr>, img))
      else case map_of (pl_cache (mc_image s)) url of
             Some img \<Rightarrow> (s\<lparr>mc_image := touchOrder url (mc_image s)\<rparr>, img)
           | None \<Rightarrow>
               if decodeSuppressed url s then (s, None)
               else let s1 = (case map_of (pl_cache (mc_source s)) url of
                                None \<Rightarrow> s | Some blob \<Rightarrow> s\<lparr>mc_source := touchOrder url (mc_source s)\<rparr>);
                        rebuilt = (case map_of (pl_cache (mc_source s)) url of
                                     None \<Rightarrow> None
                                   | Some blob \<Rightarrow> me_decodeImageBytes env (mb_bytes blob) (mb_mime blob))
                    in if rebuilt \<noteq> None then (keep_image env url rebuilt s1, capForTimeline env rebuilt)
                       else let (s2, path, waiting) = filePathForRead env url s1
                            in if waiting then (s2, None)
                               else if \<not> me_exists env path
                               then (s2\<lparr>mc_path := hash_remove url (mc_path s2), mc_requested := hash_remove url (mc_requested s2)\<rparr>, None)
                               else let img = read_file env path
                                    in if img \<noteq> None then (keep_image env url img s2, capForTimeline env img)
                                       else (noteDecodeFailed url s2, None))"

definition loadFullImage :: "media_env \<Rightarrow> qstring \<Rightarrow> media_cache \<Rightarrow> media_cache \<times> image" where
  "loadFullImage env url s =
     (if url = [] then (s, None)
      else let s1 = (case map_of (pl_cache (mc_source s)) url of
                       None \<Rightarrow> s | Some blob \<Rightarrow> s\<lparr>mc_source := touchOrder url (mc_source s)\<rparr>);
               rebuilt = (case map_of (pl_cache (mc_source s)) url of
                            None \<Rightarrow> None
                          | Some blob \<Rightarrow> me_decodeImageBytes env (mb_bytes blob) (mb_mime blob))
           in if rebuilt \<noteq> None then (s1, rebuilt)
              else let (s2, path, waiting) = filePathForRead env url s1
                   in if waiting then (s2, None)
                      else if \<not> me_exists env path
                      then (s2\<lparr>mc_path := hash_remove url (mc_path s2), mc_requested := hash_remove url (mc_requested s2)\<rparr>, None)
                      else (s2, read_file env path))"

definition peekImageSize :: "qstring \<Rightarrow> media_cache \<Rightarrow> (int \<times> int) option" where
  "peekImageSize url s =
     (if url = [] then None
      else case map_of (pl_cache (mc_image s)) url of
             Some (Some i) \<Rightarrow> Some (int (qi_width i), int (qi_height i))
           | _ \<Rightarrow> map_of (mc_probe s) url)"

definition insertImageBytes :: "media_env \<Rightarrow> qstring \<Rightarrow> qstring \<Rightarrow> qstring \<Rightarrow> media_cache \<Rightarrow> media_cache \<times> bool" where
  "insertImageBytes env key bytes mime s =
     (if key = [] \<or> bytes = [] then (s, False)
      else let img = me_decodeImageBytes env bytes mime
           in if img = None then (s, False)
              else let s1 = clearFailureState key (recordProbeSize key img s)
                   in (s1\<lparr>mc_image := insert_image key (capForTimeline env img) (mc_image s1),
                          mc_source := insert_source key \<lparr> mb_bytes = bytes, mb_mime = mime, mb_filename = [] \<rparr> (mc_source s1),
                          mc_requested := hash_remove key (mc_requested s1), mc_downloads := hash_remove key (mc_downloads s1),
                          mc_pixmap := remove_variants key (mc_pixmap s1), mc_scaled := remove_variants key (mc_scaled s1)\<rparr>, True))"

definition insertBytes :: "qstring \<Rightarrow> qstring \<Rightarrow> qstring \<Rightarrow> qstring \<Rightarrow> media_cache \<Rightarrow> media_cache" where
  "insertBytes key bytes mime filename s =
     (if key = [] \<or> bytes = [] then s
      else clearFailureState key
             (s\<lparr>mc_blob := insert_blob key \<lparr> mb_bytes = bytes, mb_mime = mime, mb_filename = filename \<rparr> (mc_blob s),
                mc_requested := hash_remove key (mc_requested s), mc_downloads := hash_remove key (mc_downloads s)\<rparr>))"

definition insertImage :: "media_env \<Rightarrow> qstring \<Rightarrow> image \<Rightarrow> media_cache \<Rightarrow> media_cache" where
  "insertImage env key img s =
     (if key = [] \<or> img = None then s
      else if isPlaceholderKey key then s\<lparr>mc_placeholder := insert_placeholder key img (mc_placeholder s)\<rparr>
      else let s1 = clearFailureState key s
           in s1\<lparr>mc_image := insert_image key (capForTimeline env img) (mc_image s1),
                 mc_pixmap := remove_variants key (mc_pixmap s1)\<rparr>)"

definition invalidateImage :: "qstring \<Rightarrow> media_cache \<Rightarrow> media_cache" where
  "invalidateImage url s =
     (let s1 = clearFailureState url (s\<lparr>mc_image := pool_remove url (mc_image s), mc_source := pool_remove url (mc_source s)\<rparr>)
      in s1\<lparr>mc_pixmap := remove_variants url (mc_pixmap s1), mc_scaled := remove_variants url (mc_scaled s1)\<rparr>)"

subsection \<open>Sized variants\<close>

text \<open>The part of the source that covers the target, in exact arithmetic: \<open>cover_crop\<close> for the
  main thread, \<open>guarded_crop\<close> for the jobs of scaled images, \<open>pixel_crop\<close> for those of pixmaps,
  \<open>square_crop\<close> for avatars.\<close>

definition qRound :: "real \<Rightarrow> int" where
  "qRound x = (if 0 \<le> x then \<lfloor>x + 1 / 2\<rfloor> else \<lceil>x - 1 / 2\<rceil>)"

definition cover_crop :: "int \<Rightarrow> int \<Rightarrow> int \<Rightarrow> int \<Rightarrow> crop_rect" where
  "cover_crop sw sh tw th =
     (let targetAspect = real_of_int tw / real_of_int th; sourceAspect = real_of_int sw / real_of_int sh
      in if targetAspect < sourceAspect
         then let cropW = qBound 1 (qRound (real_of_int sh * targetAspect)) sw in ((sw - cropW) div 2, 0, cropW, sh)
         else if sourceAspect < targetAspect
         then let cropH = qBound 1 (qRound (real_of_int sw / targetAspect)) sh in (0, (sh - cropH) div 2, sw, cropH)
         else (0, 0, sw, sh))"

definition guarded_crop :: "int \<Rightarrow> int \<Rightarrow> int \<Rightarrow> int \<Rightarrow> int \<Rightarrow> int \<Rightarrow> crop_rect" where
  "guarded_crop sw sh tw th pixelW pixelH =
     (if 0 < sw \<and> 0 < sh \<and> 0 < pixelW \<and> 0 < pixelH then cover_crop sw sh tw th else (0, 0, sw, sh))"

definition pixel_crop :: "int \<Rightarrow> int \<Rightarrow> int \<Rightarrow> int \<Rightarrow> crop_rect" where
  "pixel_crop sw sh pixelW pixelH =
     (if 0 < sw \<and> 0 < sh \<and> 0 < pixelW \<and> 0 < pixelH
      then let targetRatio = real_of_int pixelW / real_of_int pixelH; sourceRatio = real_of_int sw / real_of_int sh
           in if targetRatio < sourceRatio
              then let cropW = \<lfloor>real_of_int sh * targetRatio\<rfloor> in ((sw - cropW) div 2, 0, cropW, sh)
              else let cropH = \<lfloor>real_of_int sw / targetRatio\<rfloor> in (0, (sh - cropH) div 2, sw, cropH)
      else (0, 0, sw, sh))"

definition square_crop :: "int \<Rightarrow> int \<Rightarrow> crop_rect" where
  "square_crop sw sh =
     (if sh < sw then ((sw - sh) div 2, 0, sh, sh) else if sw < sh then (0, (sh - sw) div 2, sw, sw) else (0, 0, sw, sh))"

definition cover_scaled :: "media_env \<Rightarrow> qimage \<Rightarrow> int \<Rightarrow> int \<Rightarrow> real \<Rightarrow> image" where
  "cover_scaled env i w h dpr =
     me_scaledPart env i (cover_crop (int (qi_width i)) (int (qi_height i)) w h) (qRound (real_of_int w * dpr)) (qRound (real_of_int h * dpr))"

definition job_scaled :: "media_env \<Rightarrow> qimage \<Rightarrow> int \<Rightarrow> int \<Rightarrow> real \<Rightarrow> image" where
  "job_scaled env i w h dpr =
     (let pixelW = qRound (real_of_int w * dpr); pixelH = qRound (real_of_int h * dpr)
      in me_scaledPart env i (guarded_crop (int (qi_width i)) (int (qi_height i)) w h pixelW pixelH) pixelW pixelH)"

definition pixmap_scaled :: "media_env \<Rightarrow> qimage \<Rightarrow> int \<Rightarrow> int \<Rightarrow> real \<Rightarrow> image" where
  "pixmap_scaled env i w h dpr =
     (let pixelW = qRound (real_of_int w * dpr); pixelH = qRound (real_of_int h * dpr)
      in me_scaledPart env i (pixel_crop (int (qi_width i)) (int (qi_height i)) pixelW pixelH) pixelW pixelH)"

definition avatar_circle :: "media_env \<Rightarrow> qimage \<Rightarrow> int \<Rightarrow> real \<Rightarrow> image" where
  "avatar_circle env i px dpr = me_circle env i (square_crop (int (qi_width i)) (int (qi_height i))) px dpr"

definition sized_key :: "media_env \<Rightarrow> qstring \<Rightarrow> int \<Rightarrow> int \<Rightarrow> real \<Rightarrow> qstring" where
  "sized_key env url w h dpr = url @ '':'' @ me_number env w @ ''x'' @ me_number env h @ ''@'' @ me_real env dpr"

definition avatar_key :: "media_env \<Rightarrow> qstring \<Rightarrow> int \<Rightarrow> real \<Rightarrow> qstring" where
  "avatar_key env url px dpr = ''avatar:'' @ url @ '':'' @ me_number env px @ ''@'' @ me_real env dpr"

definition loadPixmap :: "media_env \<Rightarrow> qstring \<Rightarrow> int \<Rightarrow> int \<Rightarrow> real \<Rightarrow> media_cache \<Rightarrow> media_cache \<times> image" where
  "loadPixmap env url w h dpr s =
     (if url = [] \<or> w \<le> 0 \<or> h \<le> 0 then (s, None)
      else let key = sized_key env url w h dpr
           in case map_of (pl_cache (mc_pixmap s)) key of
                Some img \<Rightarrow> (s\<lparr>mc_pixmap := touchOrder key (mc_pixmap s)\<rparr>, img)
              | None \<Rightarrow>
                  let (s1, source) = loadImage env url s
                  in case source of
                       None \<Rightarrow> (s1, None)
                     | Some i \<Rightarrow>
                         let result = cover_scaled env i w h dpr
                         in (if result \<noteq> None then s1\<lparr>mc_pixmap := insert_pixmap key result (mc_pixmap s1)\<rparr> else s1, result))"

definition loadScaledImage :: "media_env \<Rightarrow> qstring \<Rightarrow> int \<Rightarrow> int \<Rightarrow> real \<Rightarrow> media_cache \<Rightarrow> media_cache \<times> image" where
  "loadScaledImage env url w h dpr s =
     (if url = [] \<or> w \<le> 0 \<or> h \<le> 0 then (s, None)
      else let key = sized_key env url w h dpr
           in case map_of (pl_cache (mc_scaled s)) key of
                Some img \<Rightarrow> (s\<lparr>mc_scaled := touchOrder key (mc_scaled s)\<rparr>, img)
              | None \<Rightarrow>
                  let (s1, source) = loadImage env url s
                  in case source of
                       None \<Rightarrow> (s1, None)
                     | Some i \<Rightarrow>
                         let result = cover_scaled env i w h dpr
                         in (s1\<lparr>mc_scaled := insert_scaled key result (mc_scaled s1)\<rparr>, result))"

definition loadAvatarPixmap :: "media_env \<Rightarrow> qstring \<Rightarrow> int \<Rightarrow> real \<Rightarrow> media_cache \<Rightarrow> media_cache \<times> image" where
  "loadAvatarPixmap env url px dpr s =
     (if url = [] \<or> px \<le> 0 then (s, None)
      else let key = avatar_key env url px dpr
           in case map_of (pl_cache (mc_avatar s)) key of
                Some img \<Rightarrow> (s\<lparr>mc_avatar := touchOrder key (mc_avatar s)\<rparr>, img)
              | None \<Rightarrow>
                  let (s1, source) = loadImage env url s
                  in case source of
                       None \<Rightarrow> (s1, None)
                     | Some i \<Rightarrow>
                         let result = avatar_circle env i px dpr
                         in (if result \<noteq> None then s1\<lparr>mc_avatar := insert_avatar key result (mc_avatar s1)\<rparr> else s1, result))"

text \<open>A job off the main thread, with what it captured.\<close>

datatype job_kind = ScaledJob | PixmapJob | AvatarJob

record media_job =
  jb_kind :: job_kind
  jb_url :: qstring
  jb_key :: qstring
  jb_width :: int
  jb_height :: int
  jb_dpr :: real
  jb_cachedSource :: image
  jb_sourceBytes :: qstring
  jb_sourceMime :: qstring
  jb_filePath :: qstring
  jb_generation :: quint64

text \<open>What an asynchronous load gives back: the image if it was at hand, whether the host was
  asked to look for unresolved media, and the job it started.\<close>

record load_result =
  lr_image :: image
  lr_recheck :: bool
  lr_job :: "media_job option"

definition no_result :: load_result where
  "no_result = \<lparr> lr_image = None, lr_recheck = False, lr_job = None \<rparr>"

text \<open>The retained bytes, touched.\<close>

definition take_source :: "qstring \<Rightarrow> media_cache \<Rightarrow> media_cache \<times> qstring \<times> qstring" where
  "take_source url s =
     (case map_of (pl_cache (mc_source s)) url of
        None \<Rightarrow> (s, [], [])
      | Some blob \<Rightarrow> (s\<lparr>mc_source := touchOrder url (mc_source s)\<rparr>, mb_bytes blob, mb_mime blob))"

definition forget_path :: "qstring \<Rightarrow> media_cache \<Rightarrow> media_cache" where
  "forget_path url s = s\<lparr>mc_path := hash_remove url (mc_path s), mc_requested := hash_remove url (mc_requested s)\<rparr>"

definition start_job :: "media_job \<Rightarrow> media_cache \<Rightarrow> media_cache \<times> load_result" where
  "start_job job s = (s\<lparr>mc_asyncLoading := jb_key job # mc_asyncLoading s\<rparr>, no_result\<lparr>lr_job := Some job\<rparr>)"

text \<open>\<open>loadScaledImageAsync\<close> and \<open>loadPixmapAsync\<close> once the variant is not cached.\<close>

definition dispatch_sized :: "media_env \<Rightarrow> job_kind \<Rightarrow> qstring \<Rightarrow> qstring \<Rightarrow> int \<Rightarrow> int \<Rightarrow> real \<Rightarrow>
    media_cache \<Rightarrow> media_cache \<times> load_result" where
  "dispatch_sized env kind url key w h dpr s =
     (if decodeSuppressed url s then (s, no_result)
      else let cachedSource = (case map_of (pl_cache (mc_image s)) url of None \<Rightarrow> None | Some img \<Rightarrow> img);
               s1 = (if hash_contains url (pl_cache (mc_image s)) then s\<lparr>mc_image := touchOrder url (mc_image s)\<rparr> else s);
               (s2, bytes, mime) = (if cachedSource = None then take_source url s1 else (s1, [], []));
               need = (cachedSource = None \<and> bytes = []);
               (s3, path, waiting) = (if need then filePathForRead env url s2 else (s2, [], False))
           in if waiting then (s3, no_result\<lparr>lr_recheck := True\<rparr>)
              else if key \<in> set (mc_asyncLoading s3) then (s3, no_result)
              else if need \<and> \<not> me_exists env path
              then (forget_path url s3, no_result\<lparr>lr_recheck := isRemoteCacheKey url\<rparr>)
              else start_job \<lparr> jb_kind = kind, jb_url = url, jb_key = key, jb_width = w, jb_height = h, jb_dpr = dpr,
                     jb_cachedSource = cachedSource, jb_sourceBytes = bytes, jb_sourceMime = mime,
                     jb_filePath = path, jb_generation = mc_generation s3 \<rparr> s3)"

definition loadScaledImageAsync :: "media_env \<Rightarrow> qstring \<Rightarrow> int \<Rightarrow> int \<Rightarrow> real \<Rightarrow> media_cache \<Rightarrow> media_cache \<times> load_result" where
  "loadScaledImageAsync env url w h dpr s =
     (if url = [] \<or> w \<le> 0 \<or> h \<le> 0 then (s, no_result)
      else let key = sized_key env url w h dpr
           in case map_of (pl_cache (mc_scaled s)) key of
                Some img \<Rightarrow> (s\<lparr>mc_scaled := touchOrder key (mc_scaled s)\<rparr>, no_result\<lparr>lr_image := img\<rparr>)
              | None \<Rightarrow> dispatch_sized env ScaledJob url key w h dpr s)"

definition loadPixmapAsync :: "media_env \<Rightarrow> qstring \<Rightarrow> int \<Rightarrow> int \<Rightarrow> real \<Rightarrow> media_cache \<Rightarrow> media_cache \<times> load_result" where
  "loadPixmapAsync env url w h dpr s =
     (if url = [] \<or> w \<le> 0 \<or> h \<le> 0 then (s, no_result)
      else let key = sized_key env url w h dpr
           in case map_of (pl_cache (mc_pixmap s)) key of
                Some img \<Rightarrow> (s\<lparr>mc_pixmap := touchOrder key (mc_pixmap s)\<rparr>, no_result\<lparr>lr_image := img\<rparr>)
              | None \<Rightarrow> dispatch_sized env PixmapJob url key w h dpr s)"

definition loadAvatarPixmapAsync :: "media_env \<Rightarrow> qstring \<Rightarrow> int \<Rightarrow> real \<Rightarrow> media_cache \<Rightarrow> media_cache \<times> load_result" where
  "loadAvatarPixmapAsync env url px dpr s =
     (if url = [] \<or> px \<le> 0 then (s, no_result)
      else let key = avatar_key env url px dpr
           in case map_of (pl_cache (mc_avatar s)) key of
                Some img \<Rightarrow> (s\<lparr>mc_avatar := touchOrder key (mc_avatar s)\<rparr>, no_result\<lparr>lr_image := img\<rparr>)
              | None \<Rightarrow>
                  if hash_contains url (pl_cache (mc_image s))
                  then let (s1, img) = loadAvatarPixmap env url px dpr s in (s1, no_result\<lparr>lr_image := img\<rparr>)
                  else if decodeSuppressed url s then (s, no_result)
                  else let (s1, bytes, mime) = take_source url s;
                           (s2, path, waiting) = (if bytes = [] then filePathForRead env url s1 else (s1, [], False))
                       in if waiting then (s2, no_result\<lparr>lr_recheck := True\<rparr>)
                          else if bytes = [] \<and> \<not> me_exists env path
                          then (forget_path url s2, no_result\<lparr>lr_recheck := isRemoteCacheKey url\<rparr>)
                          else if key \<in> set (mc_asyncLoading s2) then (s2, no_result)
                          else start_job \<lparr> jb_kind = AvatarJob, jb_url = url, jb_key = key, jb_width = px, jb_height = px,
                                 jb_dpr = dpr, jb_cachedSource = None, jb_sourceBytes = bytes, jb_sourceMime = mime,
                                 jb_filePath = path, jb_generation = mc_generation s2 \<rparr> s2)"

definition job_image :: "media_env \<Rightarrow> media_job \<Rightarrow> image" where
  "job_image env job =
     (if jb_cachedSource job \<noteq> None then jb_cachedSource job
      else if jb_sourceBytes job \<noteq> [] then me_decodeImageBytes env (jb_sourceBytes job) (jb_sourceMime job)
      else me_readImage env (jb_filePath job))"

text \<open>The result arrives on the main thread; one of an older generation is dropped.\<close>

definition add_image :: "media_env \<Rightarrow> qstring \<Rightarrow> image \<Rightarrow> media_cache \<Rightarrow> media_cache" where
  "add_image env url img s =
     (if hash_contains url (pl_cache (mc_image s)) then s
      else s\<lparr>mc_image := insert_image url (capForTimeline env img) (mc_image s)\<rparr>)"

definition finish_scaled :: "media_env \<Rightarrow> media_job \<Rightarrow> qimage \<Rightarrow> media_cache \<Rightarrow> media_cache" where
  "finish_scaled env job i s =
     (let s1 = add_image env (jb_url job) (Some i) (recordProbeSize (jb_url job) (Some i) s);
          scaled = job_scaled env i (jb_width job) (jb_height job) (jb_dpr job)
      in if scaled \<noteq> None then s1\<lparr>mc_scaled := insert_scaled (jb_key job) scaled (mc_scaled s1)\<rparr> else s1)"

definition finish_pixmap :: "media_env \<Rightarrow> media_job \<Rightarrow> qimage \<Rightarrow> media_cache \<Rightarrow> media_cache" where
  "finish_pixmap env job i s =
     (let result = pixmap_scaled env i (jb_width job) (jb_height job) (jb_dpr job);
          s1 = (if result \<noteq> None then s\<lparr>mc_pixmap := insert_pixmap (jb_key job) result (mc_pixmap s)\<rparr> else s)
      in add_image env (jb_url job) (Some i) s1)"

definition finish_avatar :: "media_env \<Rightarrow> media_job \<Rightarrow> qimage \<Rightarrow> media_cache \<Rightarrow> media_cache" where
  "finish_avatar env job i s =
     (let s1 = add_image env (jb_url job) (Some i) (recordProbeSize (jb_url job) (Some i) s);
          result = avatar_circle env i (jb_width job) (jb_dpr job)
      in if result \<noteq> None then s1\<lparr>mc_avatar := insert_avatar (jb_key job) result (mc_avatar s1)\<rparr> else s1)"

definition finish_job :: "media_env \<Rightarrow> media_job \<Rightarrow> media_cache \<Rightarrow> media_cache" where
  "finish_job env job s =
     (if jb_generation job \<noteq> mc_generation s then s
      else let s1 = s\<lparr>mc_asyncLoading := filter (\<lambda>k. k \<noteq> jb_key job) (mc_asyncLoading s)\<rparr>
           in case job_image env job of
                None \<Rightarrow> noteDecodeFailed (jb_url job) s1
              | Some i \<Rightarrow>
                  (case jb_kind job of ScaledJob \<Rightarrow> finish_scaled env job i s1
                   | PixmapJob \<Rightarrow> finish_pixmap env job i s1 | AvatarJob \<Rightarrow> finish_avatar env job i s1))"

subsection \<open>Clearing\<close>

definition clearAll :: "media_cache \<Rightarrow> media_cache" where
  "clearAll s = initial_media_cache\<lparr>mc_generation := mc_generation s + 1, mc_positions := mc_positions s\<rparr>"

definition forget_url :: "qstring \<Rightarrow> media_cache \<Rightarrow> media_cache" where
  "forget_url url s =
     (let s1 = invalidateImage url (s\<lparr>mc_path := hash_remove url (mc_path s)\<rparr>)
      in s1\<lparr>mc_requested := hash_remove url (mc_requested s1), mc_downloads := hash_remove url (mc_downloads s1),
            mc_asyncLoading := filter (\<lambda>k. k \<noteq> url) (mc_asyncLoading s1),
            mc_failures := hash_remove url (mc_failures s1), mc_decodeFailures := hash_remove url (mc_decodeFailures s1)\<rparr>)"

definition clearForDataDir :: "qstring \<Rightarrow> media_cache \<Rightarrow> media_cache" where
  "clearForDataDir dataDirPrefix s =
     (if dataDirPrefix = [] then s
      else let prefix = (if last dataDirPrefix = CHR ''/'' then dataDirPrefix else dataDirPrefix @ ''/'');
               s1 = s\<lparr>mc_generation := mc_generation s + 1\<rparr>;
               staleUrls = map fst (filter (\<lambda>e. startsWith prefix (snd e)) (mc_path s1))
           in foldl (\<lambda>t url. forget_url url t) s1 staleUrls)"

definition resetPendingRequests :: "media_cache \<Rightarrow> media_cache" where
  "resetPendingRequests s = s\<lparr>mc_requested := [], mc_asyncLoading := [], mc_downloads := []\<rparr>"

end
