(* ===== verification/Media_Properties.thy ===== *)
theory Media_Properties imports Media_Cache begin

section \<open>Properties of the media cache\<close>

text \<open>
  Every pool is an instance of one interface, \<open>bounded_pool\<close>: bounds and a size for entries.
  Shown from it for the whole cache: whatever is loaded, inserted and cleared in whatever order,
  no pool exceeds its number of entries or bytes, and each entry is known to the use order, so
  trimming can always end.  Then the back-off of requests, the cropping, and what goes stale.
\<close>

definition pool_ok :: "'v pool \<Rightarrow> bool" where
  "pool_ok p \<longleftrightarrow> hash_ok (pl_cache p) \<and> fst ` set (pl_cache p) \<subseteq> set (pl_order p) \<and> distinct (pl_order p)"

definition in_bounds :: "nat \<Rightarrow> int \<Rightarrow> ('v \<Rightarrow> int) \<Rightarrow> 'v pool \<Rightarrow> bool" where
  "in_bounds maxEntries maxBytes sizeFn p \<longleftrightarrow> length (pl_cache p) \<le> maxEntries \<and> pool_bytes sizeFn p \<le> maxBytes"

lemma hash_remove_sum:
  "hash_ok h \<Longrightarrow> map_of h k = Some v \<Longrightarrow> hash_sum f (hash_remove k h) = hash_sum f h - f v"
proof (induction h)
  case (Cons e h)
  have gone: "hash_remove k h = h" if "k \<notin> fst ` set h"
    using that by (induction h) (auto simp: hash_remove_def)
  show ?case using Cons gone by (auto simp: hash_ok_def hash_remove_def split: if_splits)
qed simp

lemma hash_remove_keys: "fst ` set (hash_remove k h) = fst ` set h - {k}"
  by (auto simp: set_hash_remove)

lemma hash_sum_filter: "(\<And>v. 0 \<le> f v) \<Longrightarrow> hash_sum f (filter P h) \<le> hash_sum f h"
  by (induction h) (auto intro: add_increasing)

lemma hash_remove_filter: "hash_remove k h = filter (\<lambda>e. fst e \<noteq> k) h"
  by (auto simp: hash_remove_def AList.delete_eq intro!: filter_cong)

lemma map_of_filter_fst: "map_of (filter (\<lambda>e. fst e \<in> A) h) k = (if k \<in> A then map_of h k else None)"
  by (induction h) auto

lemma filter_one_key:
  "hash_ok h \<Longrightarrow> map_of h k = Some v \<Longrightarrow> filter (\<lambda>e. fst e = k) h = [(k, v)]"
proof (induction h)
  case (Cons e h)
  have "filter (\<lambda>e. fst e = k) h = []" if "fst e = k"
    unfolding filter_empty_conv
  proof
    fix x assume "x \<in> set h"
    then have "fst x \<in> set (map fst h)" by simp
    then show "fst x \<noteq> k" using that Cons.prems(1) unfolding hash_ok_def list.map distinct.simps by metis
  qed
  with Cons show ?case by (cases e) (auto simp: hash_ok_def)
qed simp

lemma hash_sum_member: "(\<And>v. 0 \<le> f v) \<Longrightarrow> (k, v) \<in> set h \<Longrightarrow> f v \<le> hash_sum f h"
proof (induction h)
  case (Cons e h)
  have "0 \<le> hash_sum f h" by (rule hash_sum_nonneg) (rule Cons.prems(1))
  then show ?case using Cons by (auto intro: add_increasing)
qed simp

text \<open>The pool without the \<open>n\<close> entries used longest ago.  Trimming is the smallest such removal that
  is within the bounds: nothing is evicted without need, and always the oldest first.\<close>

definition drop_oldest :: "nat \<Rightarrow> 'v pool \<Rightarrow> 'v pool" where
  "drop_oldest n p = \<lparr> pl_cache = filter (\<lambda>e. fst e \<in> set (drop n (pl_order p))) (pl_cache p), pl_order = drop n (pl_order p) \<rparr>"

lemma cut_0: "pool_ok p \<Longrightarrow> drop_oldest 0 p = p"
  by (cases p) (auto simp: drop_oldest_def pool_ok_def intro!: filter_True)

lemma cut_ok: "pool_ok p \<Longrightarrow> pool_ok (drop_oldest n p)"
  by (auto simp: drop_oldest_def pool_ok_def)

lemma cut_Suc:
  assumes "oldest \<notin> set order"
  shows "drop_oldest (Suc n) \<lparr> pl_cache = cache, pl_order = oldest # order \<rparr> = drop_oldest n \<lparr> pl_cache = hash_remove oldest cache, pl_order = order \<rparr>"
  using assms set_drop_subset [of n order]
  by (auto simp: drop_oldest_def hash_remove_filter intro!: filter_cong)

lemma trim_loop_step:
  assumes "hash_ok cache" and "maxEntries < length cache \<or> maxBytes < hash_sum sizeFn cache"
  shows "trim_loop maxEntries maxBytes sizeFn (hash_sum sizeFn cache) cache (oldest # order)
    = trim_loop maxEntries maxBytes sizeFn (hash_sum sizeFn (hash_remove oldest cache)) (hash_remove oldest cache) order"
proof (cases "map_of cache oldest")
  case None
  then have "hash_remove oldest cache = cache"
    unfolding hash_remove_filter by (intro filter_True) (auto simp: map_of_eq_None_iff)
  then show ?thesis using None assms(2) by simp
next
  case (Some v)
  then show ?thesis using assms(2) by (simp add: hash_remove_sum [OF assms(1) Some])
qed

lemma trim_loop_cut:
  assumes "hash_ok cache" "fst ` set cache \<subseteq> set order" "distinct order" "0 \<le> maxBytes"
  shows "\<exists>n. trim_loop maxEntries maxBytes sizeFn (hash_sum sizeFn cache) cache order = drop_oldest n \<lparr> pl_cache = cache, pl_order = order \<rparr>
     \<and> in_bounds maxEntries maxBytes sizeFn (drop_oldest n \<lparr> pl_cache = cache, pl_order = order \<rparr>)
     \<and> (\<forall>m<n. \<not> in_bounds maxEntries maxBytes sizeFn (drop_oldest m \<lparr> pl_cache = cache, pl_order = order \<rparr>))"
  using assms(1-3)
proof (induction order arbitrary: cache)
  case Nil
  then show ?case using assms(4) by (intro exI [of _ 0]) (simp add: drop_oldest_def in_bounds_def pool_bytes_def)
next
  case (Cons oldest order)
  have whole: "drop_oldest 0 \<lparr> pl_cache = cache, pl_order = oldest # order \<rparr> = \<lparr> pl_cache = cache, pl_order = oldest # order \<rparr>"
    using Cons.prems by (intro cut_0) (simp add: pool_ok_def)
  show ?case
  proof (cases "maxEntries < length cache \<or> maxBytes < hash_sum sizeFn cache")
    case False
    then show ?thesis using whole by (intro exI [of _ 0]) (auto simp: in_bounds_def pool_bytes_def)
  next
    case full: True
    have "fst ` set (hash_remove oldest cache) \<subseteq> set order"
      using Cons.prems(2) by (auto simp: hash_remove_keys)
    with Cons.IH [OF hash_ok_remove] Cons.prems obtain n
      where n: "trim_loop maxEntries maxBytes sizeFn (hash_sum sizeFn (hash_remove oldest cache)) (hash_remove oldest cache) order
            = drop_oldest (Suc n) \<lparr> pl_cache = cache, pl_order = oldest # order \<rparr>"
        "in_bounds maxEntries maxBytes sizeFn (drop_oldest (Suc n) \<lparr> pl_cache = cache, pl_order = oldest # order \<rparr>)"
        "\<forall>m<n. \<not> in_bounds maxEntries maxBytes sizeFn (drop_oldest (Suc m) \<lparr> pl_cache = cache, pl_order = oldest # order \<rparr>)"
      using cut_Suc [of oldest order _ cache] by (metis distinct.simps(2))
    have "\<not> in_bounds maxEntries maxBytes sizeFn (drop_oldest 0 \<lparr> pl_cache = cache, pl_order = oldest # order \<rparr>)"
      using full by (auto simp: whole in_bounds_def pool_bytes_def)
    then show ?thesis
      using n trim_loop_step [OF Cons.prems(1) full] by (intro exI [of _ "Suc n"]) (auto simp: less_Suc_eq_0_disj)
  qed
qed

lemma trimCache_cut:
  assumes "pool_ok p" "0 \<le> maxBytes"
  obtains n where "trimCache maxEntries maxBytes sizeFn p = drop_oldest n p"
    "in_bounds maxEntries maxBytes sizeFn (drop_oldest n p)" "\<And>m. m < n \<Longrightarrow> \<not> in_bounds maxEntries maxBytes sizeFn (drop_oldest m p)"
proof -
  have p: "\<lparr> pl_cache = pl_cache p, pl_order = pl_order p \<rparr> = p" by simp
  show thesis
    using trim_loop_cut [of "pl_cache p" "pl_order p" maxBytes maxEntries sizeFn] assms that
    unfolding p trimCache_def pool_ok_def pool_bytes_def by blast
qed

subsection \<open>The interface of a pool\<close>

locale bounded_pool =
  fixes maxEntries :: nat and maxBytes :: int and sizeFn :: "'v \<Rightarrow> int"
  assumes bytes_bound: "0 \<le> maxBytes" and size_nonneg: "0 \<le> sizeFn v"
begin

definition good :: "'v pool \<Rightarrow> bool" where
  "good p \<longleftrightarrow> pool_ok p \<and> in_bounds maxEntries maxBytes sizeFn p"

lemma empty_good: "good empty_pool"
  using bytes_bound by (simp add: good_def pool_ok_def in_bounds_def empty_pool_def pool_bytes_def)

lemma touched_ok:
  "pool_ok p \<Longrightarrow> pool_ok (touchOrder k (p\<lparr>pl_cache := hash_insert k v (pl_cache p)\<rparr>))"
  by (auto simp: pool_ok_def touchOrder_def set_hash_insert)

lemma insert_cut:
  assumes "pool_ok p"
  shows "\<exists>n. pool_insert maxEntries maxBytes sizeFn k v p
        = drop_oldest n (touchOrder k (p\<lparr>pl_cache := hash_insert k v (pl_cache p)\<rparr>))
      \<and> good (pool_insert maxEntries maxBytes sizeFn k v p)
      \<and> (\<forall>m<n. \<not> in_bounds maxEntries maxBytes sizeFn (drop_oldest m (touchOrder k (p\<lparr>pl_cache := hash_insert k v (pl_cache p)\<rparr>))))"
proof -
  define q where "q = touchOrder k (p\<lparr>pl_cache := hash_insert k v (pl_cache p)\<rparr>)"
  have touched: "pool_ok q" unfolding q_def by (rule touched_ok [OF assms])
  obtain n where n: "trimCache maxEntries maxBytes sizeFn q = drop_oldest n q"
    "in_bounds maxEntries maxBytes sizeFn (drop_oldest n q)" "\<And>m. m < n \<Longrightarrow> \<not> in_bounds maxEntries maxBytes sizeFn (drop_oldest m q)"
    by (rule trimCache_cut [OF touched bytes_bound, of maxEntries sizeFn]) blast
  show ?thesis
    unfolding pool_insert_def good_def q_def [symmetric] n(1) using n(2,3) cut_ok [OF touched] by blast
qed

lemma insert_good: "good p \<Longrightarrow> good (pool_insert maxEntries maxBytes sizeFn k v p)"
  using insert_cut [of p k v] by (auto simp: good_def)

lemma insert_least:
  assumes "pool_ok p"
  shows "pool_insert maxEntries maxBytes sizeFn k v p
    = (let q = touchOrder k (p\<lparr>pl_cache := hash_insert k v (pl_cache p)\<rparr>)
       in drop_oldest (LEAST n. in_bounds maxEntries maxBytes sizeFn (drop_oldest n q)) q)"
proof -
  obtain n where n: "pool_insert maxEntries maxBytes sizeFn k v p
        = drop_oldest n (touchOrder k (p\<lparr>pl_cache := hash_insert k v (pl_cache p)\<rparr>))"
    "good (pool_insert maxEntries maxBytes sizeFn k v p)"
    "\<forall>m<n. \<not> in_bounds maxEntries maxBytes sizeFn (drop_oldest m (touchOrder k (p\<lparr>pl_cache := hash_insert k v (pl_cache p)\<rparr>)))"
    using insert_cut [OF assms] by blast
  have "(LEAST n. in_bounds maxEntries maxBytes sizeFn (drop_oldest n (touchOrder k (p\<lparr>pl_cache := hash_insert k v (pl_cache p)\<rparr>)))) = n"
    using n by (intro Least_equality) (auto simp: good_def not_less [symmetric])
  then show ?thesis using n(1) by (simp add: Let_def)
qed

text \<open>The entry just inserted is kept exactly if it fits on its own.\<close>

lemma insert_kept:
  assumes ok: "pool_ok p" and entries: "0 < maxEntries"
  shows "map_of (pl_cache (pool_insert maxEntries maxBytes sizeFn k v p)) k = (if sizeFn v \<le> maxBytes then Some v else None)"
proof -
  define q where "q = touchOrder k (p\<lparr>pl_cache := hash_insert k v (pl_cache p)\<rparr>)"
  have q_ok: "pool_ok q" unfolding q_def by (rule touched_ok [OF ok])
  have q: "pl_order q = filter (\<lambda>j. j \<noteq> k) (pl_order p) @ [k]" "map_of (pl_cache q) k = Some v"
    by (simp_all add: q_def touchOrder_def)
  obtain n where n: "pool_insert maxEntries maxBytes sizeFn k v p = drop_oldest n q"
    and bound: "good (pool_insert maxEntries maxBytes sizeFn k v p)"
    and least: "\<And>m. m < n \<Longrightarrow> \<not> in_bounds maxEntries maxBytes sizeFn (drop_oldest m q)"
    using insert_cut [OF ok, of k v] unfolding q_def by blast
  have entry: "map_of (pl_cache (drop_oldest n q)) k = (if k \<in> set (drop n (pl_order q)) then Some v else None)"
    using q(2) by (simp add: drop_oldest_def map_of_filter_fst)
  show ?thesis
  proof (cases "sizeFn v \<le> maxBytes")
    case True
    let ?l = "length (pl_order q) - 1"
    have tail: "drop ?l (pl_order q) = [k]" by (simp add: q(1))
    have "pl_cache (drop_oldest ?l q) = [(k, v)]"
      using q(2) q_ok unfolding drop_oldest_def tail by (simp add: pool_ok_def filter_one_key)
    then have "in_bounds maxEntries maxBytes sizeFn (drop_oldest ?l q)"
      using True entries by (simp add: in_bounds_def pool_bytes_def)
    then have "n \<le> ?l" using least not_le_imp_less by blast
    then have "k \<in> set (drop n (pl_order q))" by (simp add: q(1))
    then show ?thesis using True n entry by simp
  next
    case False
    have "map_of (pl_cache (drop_oldest n q)) k = None"
    proof (rule ccontr)
      assume "map_of (pl_cache (drop_oldest n q)) k \<noteq> None"
      then have "(k, v) \<in> set (pl_cache (drop_oldest n q))" using entry by (auto split: if_splits dest: map_of_SomeD)
      then have "sizeFn v \<le> pool_bytes sizeFn (drop_oldest n q)"
        unfolding pool_bytes_def by (rule hash_sum_member [OF size_nonneg])
      then show False using False bound n by (simp add: good_def in_bounds_def)
    qed
    then show ?thesis using False n by simp
  qed
qed

lemma touch_good: "good p \<Longrightarrow> good (touchOrder k p)"
  by (auto simp: good_def pool_ok_def in_bounds_def touchOrder_def pool_bytes_def)

lemma filter_good: "good p \<Longrightarrow> good (p\<lparr>pl_cache := filter P (pl_cache p)\<rparr>)"
  using hash_sum_filter [of sizeFn P "pl_cache p", OF size_nonneg] le_trans [OF length_filter_le [of P "pl_cache p"]]
  by (auto simp: good_def pool_ok_def in_bounds_def pool_bytes_def)

lemma remove_good: "good p \<Longrightarrow> good (pool_remove k p)" "good p \<Longrightarrow> good (remove_variants u p)"
  unfolding pool_remove_def remove_variants_def hash_remove_filter by (rule filter_good, assumption)+

end

interpretation pixmaps: bounded_pool 500 67108864 pixmapBytes
  by unfold_locales (simp_all add: pixmapBytes_def split: option.split)

interpretation avatars: bounded_pool 2000 33554432 pixmapBytes
  by unfold_locales (simp_all add: pixmapBytes_def split: option.split)

interpretation images: bounded_pool 400 67108864 imageBytes
  by unfold_locales (simp_all add: imageBytes_def split: option.split)

interpretation placeholders: bounded_pool 2000 8388608 imageBytes
  by unfold_locales (simp_all add: imageBytes_def split: option.split)

interpretation scaled: bounded_pool 500 100663296 imageBytes
  by unfold_locales (simp_all add: imageBytes_def split: option.split)

interpretation sources: bounded_pool 512 67108864 blobBytes
  by unfold_locales (simp_all add: blobBytes_def)

interpretation blobs: bounded_pool 64 50331648 blobBytes
  by unfold_locales (simp_all add: blobBytes_def)

definition pools_good :: "media_cache \<Rightarrow> bool" where
  "pools_good s \<longleftrightarrow> pixmaps.good (mc_pixmap s) \<and> avatars.good (mc_avatar s) \<and> images.good (mc_image s)
     \<and> placeholders.good (mc_placeholder s) \<and> scaled.good (mc_scaled s) \<and> sources.good (mc_source s) \<and> blobs.good (mc_blob s)"

named_theorems pool_laws

lemma bounded_inserts [pool_laws]:
  "pixmaps.good p \<Longrightarrow> pixmaps.good (insert_pixmap k img p)" "avatars.good p \<Longrightarrow> avatars.good (insert_avatar k img p)"
  "images.good p \<Longrightarrow> images.good (insert_image k img p)" "placeholders.good p \<Longrightarrow> placeholders.good (insert_placeholder k img p)"
  "scaled.good p \<Longrightarrow> scaled.good (insert_scaled k img p)" "sources.good q \<Longrightarrow> sources.good (insert_source k blob q)"
  "blobs.good q \<Longrightarrow> blobs.good (insert_blob k blob q)"
  by (simp_all add: insert_pixmap_def insert_avatar_def insert_image_def insert_placeholder_def insert_scaled_def
      insert_source_def insert_blob_def pixmaps.insert_good avatars.insert_good images.insert_good
      placeholders.insert_good scaled.insert_good sources.insert_good blobs.insert_good)

lemmas [pool_laws] =
  pixmaps.touch_good avatars.touch_good images.touch_good placeholders.touch_good scaled.touch_good
  sources.touch_good blobs.touch_good
  pixmaps.remove_good avatars.remove_good images.remove_good placeholders.remove_good scaled.remove_good
  sources.remove_good blobs.remove_good
  pixmaps.empty_good avatars.empty_good images.empty_good placeholders.empty_good scaled.empty_good
  sources.empty_good blobs.empty_good

lemma initial_good: "pools_good initial_media_cache"
  by (simp add: pools_good_def initial_media_cache_def pool_laws)

lemma small_ops_good:
  assumes "pools_good s"
  shows "pools_good (recordProbeSize url img s)" "pools_good (clearFailureState key s)" "pools_good (noteDecodeFailed key s)"
    "pools_good (noteResolveFailed now key s)" "pools_good (noteResolvePermanentlyFailed now key s)"
    "pools_good (fst (localPath env url s))" "pools_good (fst (filePathForRead env url s))" "pools_good (forget_path url s)"
    "pools_good (fst (take_source url s))" "pools_good (markRequested url s)" "pools_good (clearRequested url s)"
    "pools_good (fst (start_job job s))"
  using assms
  by (auto simp: pools_good_def recordProbeSize_def clearFailureState_def noteDecodeFailed_def noteResolveFailed_def
      noteResolvePermanentlyFailed_def localPath_def filePathForRead_def forget_path_def take_source_def markRequested_def
      clearRequested_def start_job_def Let_def pool_laws split: option.split)

lemma insertions_good:
  assumes "pools_good s"
  shows "pools_good (insertPath url path s)" "pools_good (fst (insertImageBytes env key bytes mime s))"
    "pools_good (insertBytes key bytes mime filename s)" "pools_good (insertImage env key img s)"
    "pools_good (invalidateImage url s)" "pools_good (keep_image env url img s)" "pools_good (add_image env url img s)"
  using assms small_ops_good(1) [OF assms]
  by (auto simp: pools_good_def insertPath_def insertImageBytes_def insertBytes_def insertImage_def invalidateImage_def
      keep_image_def add_image_def clearFailureState_def Let_def pool_laws)

lemma keep_reads_good:
  assumes "pools_good s"
  shows "pools_good (fst (loadImage env url s))" "pools_good (fst (loadFullImage env url s))"
proof -
  have touched: "pools_good (case map_of (pl_cache (mc_source s)) url of None \<Rightarrow> s
      | Some blob \<Rightarrow> s\<lparr>mc_source := touchOrder url (mc_source s)\<rparr>)"
    using small_ops_good(9) [OF assms, of url] by (simp add: take_source_def split: option.splits)
  have seen: "pools_good (s\<lparr>mc_placeholder := touchOrder url (mc_placeholder s)\<rparr>)" "pools_good (s\<lparr>mc_image := touchOrder url (mc_image s)\<rparr>)"
    using assms by (simp_all add: pools_good_def pool_laws)
  note reads = small_ops_good(7) [OF touched, of env url] small_ops_good(8) [OF small_ops_good(7) [OF touched], of url env url]
  show "pools_good (fst (loadImage env url s))"
    using reads assms seen insertions_good(6) [OF touched] insertions_good(6) [OF reads(1)] small_ops_good(3) [OF reads(1), of url]
    by (auto simp: loadImage_def Let_def forget_path_def split: prod.splits option.splits)
  show "pools_good (fst (loadFullImage env url s))"
    using reads assms touched by (auto simp: loadFullImage_def Let_def forget_path_def split: prod.splits)
qed

lemma variants_good:
  assumes "pools_good s"
  shows "pools_good (s\<lparr>mc_pixmap := touchOrder k (mc_pixmap s)\<rparr>)" "pools_good (s\<lparr>mc_avatar := touchOrder k (mc_avatar s)\<rparr>)"
    "pools_good (s\<lparr>mc_scaled := touchOrder k (mc_scaled s)\<rparr>)" "pools_good (s\<lparr>mc_image := touchOrder k (mc_image s)\<rparr>)"
    "pools_good (s\<lparr>mc_pixmap := insert_pixmap k img (mc_pixmap s)\<rparr>)" "pools_good (s\<lparr>mc_avatar := insert_avatar k img (mc_avatar s)\<rparr>)"
    "pools_good (s\<lparr>mc_scaled := insert_scaled k img (mc_scaled s)\<rparr>)" "pools_good (s\<lparr>mc_asyncLoading := keys\<rparr>)"
    "pools_good (s\<lparr>mc_path := paths\<rparr>)" "pools_good (s\<lparr>mc_requested := wanted\<rparr>)" "pools_good (s\<lparr>mc_downloads := downloads\<rparr>)"
    "pools_good (s\<lparr>mc_failures := failures\<rparr>)" "pools_good (s\<lparr>mc_decodeFailures := decodes\<rparr>)"
    "pools_good (s\<lparr>mc_generation := g\<rparr>)" "pools_good (s\<lparr>mc_positions := positions\<rparr>)"
  using assms by (simp_all add: pools_good_def pool_laws)

lemma pool_updates:
  "pools_good s \<Longrightarrow> pixmaps.good p \<Longrightarrow> pools_good (s\<lparr>mc_pixmap := p\<rparr>)"
  "pools_good s \<Longrightarrow> avatars.good p \<Longrightarrow> pools_good (s\<lparr>mc_avatar := p\<rparr>)"
  "pools_good s \<Longrightarrow> scaled.good p \<Longrightarrow> pools_good (s\<lparr>mc_scaled := p\<rparr>)"
  "pools_good s \<Longrightarrow> pixmaps.good (mc_pixmap s)" "pools_good s \<Longrightarrow> avatars.good (mc_avatar s)"
  "pools_good s \<Longrightarrow> scaled.good (mc_scaled s)"
  by (simp_all add: pools_good_def)

lemma sync_loads_good:
  assumes "pools_good s"
  shows "pools_good (fst (loadPixmap env url w h dpr s))" "pools_good (fst (loadScaledImage env url w h dpr s))"
    "pools_good (fst (loadAvatarPixmap env url px dpr s))"
  using assms keep_reads_good(1) [OF assms, of env url]
  by (auto simp: loadPixmap_def loadScaledImage_def loadAvatarPixmap_def Let_def variants_good
      split: prod.splits option.splits)

lemma read_if_needed_good:
  assumes "pools_good s" and "(if need then filePathForRead env url s else (s, [], False)) = (t, path, waiting)"
  shows "pools_good t"
  using assms small_ops_good(7) [OF assms(1), of env url] by (auto split: if_splits)

lemma dispatch_good:
  assumes "pools_good s"
  shows "pools_good (fst (dispatch_sized env kind url key w h dpr s))"
proof -
  define source where "source = (case map_of (pl_cache (mc_image s)) url of None \<Rightarrow> None | Some img \<Rightarrow> img)"
  define s1 where "s1 = (if hash_contains url (pl_cache (mc_image s)) then s\<lparr>mc_image := touchOrder url (mc_image s)\<rparr> else s)"
  have s1: "pools_good s1" using assms by (simp add: s1_def variants_good)
  obtain s2 b m where s2: "(if source = None then take_source url s1 else (s1, [], [])) = (s2, b, m)" by (metis prod_cases3)
  have s2_good: "pools_good s2" using s1 s2 small_ops_good(9) [OF s1, of url] by (auto split: if_splits)
  obtain s3 path waiting where s3: "(if source = None \<and> b = [] then filePathForRead env url s2 else (s2, [], False)) = (s3, path, waiting)"
    by (metis prod_cases3)
  have "pools_good s3" by (rule read_if_needed_good [OF s2_good s3])
  then show ?thesis
    unfolding dispatch_sized_def source_def [symmetric] s1_def [symmetric] Let_def s2 split_conv s3
    using assms by (simp add: small_ops_good)
qed

lemma async_loads_good:
  assumes "pools_good s"
  shows "pools_good (fst (loadScaledImageAsync env url w h dpr s))" "pools_good (fst (loadPixmapAsync env url w h dpr s))"
    "pools_good (fst (loadAvatarPixmapAsync env url px dpr s))"
proof -
  show "pools_good (fst (loadScaledImageAsync env url w h dpr s))" "pools_good (fst (loadPixmapAsync env url w h dpr s))"
    using assms by (auto simp: loadScaledImageAsync_def loadPixmapAsync_def Let_def variants_good dispatch_good split: option.splits)
  obtain s1 b m where s1: "take_source url s = (s1, b, m)" by (metis prod_cases3)
  have s1_good: "pools_good s1" using small_ops_good(9) [OF assms, of url] s1 by simp
  obtain s2 path waiting where s2: "(if b = [] then filePathForRead env url s1 else (s1, [], False)) = (s2, path, waiting)"
    by (metis prod_cases3)
  have "pools_good s2" by (rule read_if_needed_good [OF s1_good s2])
  then show "pools_good (fst (loadAvatarPixmapAsync env url px dpr s))"
    unfolding loadAvatarPixmapAsync_def Let_def s1 split_conv s2
    using assms sync_loads_good(3) [OF assms, of env url px dpr]
    by (auto simp: small_ops_good variants_good split: prod.splits option.splits)
qed

lemma finish_good:
  assumes "pools_good s"
  shows "pools_good (finish_job env job s)"
  using assms
  by (auto simp: finish_job_def finish_scaled_def finish_pixmap_def finish_avatar_def Let_def variants_good pool_updates small_ops_good insertions_good pool_laws
      split: option.splits job_kind.splits)

lemma clears_good:
  assumes "pools_good s"
  shows "pools_good (clearAll s)" "pools_good (forget_url url s)" "pools_good (clearForDataDir dir s)" "pools_good (resetPendingRequests s)"
proof -
  show "pools_good (clearAll s)" by (simp add: clearAll_def initial_good variants_good)
  have one: "pools_good (forget_url u t)" if good: "pools_good t" for u t
    using good by (simp add: forget_url_def Let_def variants_good insertions_good)
  then show "pools_good (forget_url url s)" using assms .
  show "pools_good (clearForDataDir dir s)"
    using assms unfolding clearForDataDir_def Let_def
    by (auto intro: foldl_keeps [of pools_good] one variants_good)
  show "pools_good (resetPendingRequests s)" using assms by (simp add: resetPendingRequests_def variants_good)
qed

subsection \<open>The cache over time\<close>

text \<open>Every operation of the cache that changes it, with what it is called with; a job may finish
  at any time, also after the cache it was started for has been cleared.\<close>

datatype media_event =
  LoadImage qstring | LoadFullImage qstring | LoadPixmap qstring int int real | LoadScaled qstring int int real
  | LoadAvatar qstring int real | LoadPixmapAsync qstring int int real | LoadScaledAsync qstring int int real
  | LoadAvatarAsync qstring int real | FinishJob media_job
  | InsertPath qstring qstring | InsertImageBytes qstring qstring qstring | InsertBytes qstring qstring qstring qstring
  | InsertImage qstring image | InvalidateImage qstring
  | NeedsResolution int qstring | MarkRequested qstring | ClearRequested qstring
  | SetDownloadState qstring download_state | ClearDownloadState qstring
  | NoteResolveFailed int qstring | NoteResolvePermanentlyFailed int qstring | NoteDecodeFailed qstring
  | SetPlaybackPosition qstring int | TakePlaybackPosition qstring
  | ClearAll | ClearForDataDir qstring | ResetPendingRequests

fun media_step :: "media_env \<Rightarrow> media_cache \<Rightarrow> media_event \<Rightarrow> media_cache" where
  "media_step env s (LoadImage url) = fst (loadImage env url s)"
| "media_step env s (LoadFullImage url) = fst (loadFullImage env url s)"
| "media_step env s (LoadPixmap url w h dpr) = fst (loadPixmap env url w h dpr s)"
| "media_step env s (LoadScaled url w h dpr) = fst (loadScaledImage env url w h dpr s)"
| "media_step env s (LoadAvatar url px dpr) = fst (loadAvatarPixmap env url px dpr s)"
| "media_step env s (LoadPixmapAsync url w h dpr) = fst (loadPixmapAsync env url w h dpr s)"
| "media_step env s (LoadScaledAsync url w h dpr) = fst (loadScaledImageAsync env url w h dpr s)"
| "media_step env s (LoadAvatarAsync url px dpr) = fst (loadAvatarPixmapAsync env url px dpr s)"
| "media_step env s (FinishJob job) = finish_job env job s"
| "media_step env s (InsertPath url path) = insertPath url path s"
| "media_step env s (InsertImageBytes key bytes mime) = fst (insertImageBytes env key bytes mime s)"
| "media_step env s (InsertBytes key bytes mime filename) = insertBytes key bytes mime filename s"
| "media_step env s (InsertImage key img) = insertImage env key img s"
| "media_step env s (InvalidateImage url) = invalidateImage url s"
| "media_step env s (NeedsResolution now url) = fst (needsResolution env now url s)"
| "media_step env s (MarkRequested url) = markRequested url s"
| "media_step env s (ClearRequested url) = clearRequested url s"
| "media_step env s (SetDownloadState url state) = setDownloadState url state s"
| "media_step env s (ClearDownloadState url) = clearDownloadState url s"
| "media_step env s (NoteResolveFailed now key) = noteResolveFailed now key s"
| "media_step env s (NoteResolvePermanentlyFailed now key) = noteResolvePermanentlyFailed now key s"
| "media_step env s (NoteDecodeFailed key) = noteDecodeFailed key s"
| "media_step env s (SetPlaybackPosition url ms) = setPlaybackPosition url ms s"
| "media_step env s (TakePlaybackPosition url) = fst (takePlaybackPosition url s)"
| "media_step env s ClearAll = clearAll s"
| "media_step env s (ClearForDataDir dir) = clearForDataDir dir s"
| "media_step env s ResetPendingRequests = resetPendingRequests s"

definition media_run :: "media_env \<Rightarrow> media_event list \<Rightarrow> media_cache" where
  "media_run env events = foldl (media_step env) initial_media_cache events"

lemma media_step_good: "pools_good s \<Longrightarrow> pools_good (media_step env s e)"
  by (cases e)
    (auto simp: keep_reads_good sync_loads_good async_loads_good finish_good insertions_good small_ops_good clears_good
      variants_good needsResolution_def isResolved_def setDownloadState_def clearDownloadState_def setPlaybackPosition_def
      takePlaybackPosition_def localPath_def Let_def split: prod.splits option.splits)

interpretation media: event_machine "media_step env" pools_good for env
  by unfold_locales (rule media_step_good)

lemma media_run_good: "pools_good (media_run env events)"
  unfolding media_run_def by (rule media.run_inv [OF initial_good])

text \<open>C22: Bounds of the media cache: after any sequence of loads, insertions, finished jobs and
  clears, every pool holds at most its number of entries and its bytes: 500 pixmaps of 64 MiB,
  2000 avatars of 32, 400 images of 64, 2000 placeholders of 8, 500 scaled images of 96, the
  encoded bytes of 512 images in 64 and 64 media files in 48.\<close>

theorem media_cache_bounded:
  "let s = media_run env events; mib = 1024 * 1024 in
     in_bounds 500 (64 * mib) pixmapBytes (mc_pixmap s) \<and> in_bounds 2000 (32 * mib) pixmapBytes (mc_avatar s)
   \<and> in_bounds 400 (64 * mib) imageBytes (mc_image s) \<and> in_bounds 2000 (8 * mib) imageBytes (mc_placeholder s)
   \<and> in_bounds 500 (96 * mib) imageBytes (mc_scaled s) \<and> in_bounds 512 (64 * mib) blobBytes (mc_source s)
   \<and> in_bounds 64 (48 * mib) blobBytes (mc_blob s)"
  using media_run_good [of env events]
  by (simp add: pools_good_def pixmaps.good_def avatars.good_def images.good_def placeholders.good_def
      scaled.good_def sources.good_def blobs.good_def)

text \<open>Insertion evicts as little as possible, the images used longest ago first: what an
  insertion leaves is the cache with the new image, less the shortest run of least recently used
  entries that brings it within 400 images and 64 MiB.\<close>

theorem eviction_is_least_recently_used:
  "let p = mc_image (media_run env events);
       q = touchOrder key (p\<lparr>pl_cache := hash_insert key img (pl_cache p)\<rparr>)
   in insert_image key img p = drop_oldest (LEAST n. in_bounds 400 (64 * 1024 * 1024) imageBytes (drop_oldest n q)) q"
  using media_run_good [of env events] images.insert_least [of "mc_image (media_run env events)" key img]
  by (simp add: pools_good_def images.good_def insert_image_def)

text \<open>Bytes put into the cache can be read back exactly if they fit into the pool on their own:
  a file of more than 48 MiB evicts all others and itself.\<close>

theorem inserted_bytes_kept:
  assumes "key \<noteq> []" and "bytes \<noteq> []"
  shows "map_of (pl_cache (mc_blob (insertBytes key bytes mime filename (media_run env events)))) key
    = (if int (length bytes) \<le> 48 * 1024 * 1024
       then Some \<lparr> mb_bytes = bytes, mb_mime = mime, mb_filename = filename \<rparr> else None)"
  using media_run_good [of env events] assms
  by (simp add: insertBytes_def clearFailureState_def insert_blob_def blobs.insert_kept blobBytes_def pools_good_def blobs.good_def)

subsection \<open>Requests and failures\<close>

lemma retry_delay_law: "0 < n \<Longrightarrow> retryDelayMs n = min (2000 * 2 ^ nat (n - 1)) 600000"
proof (cases "n < 10")
  case False
  then have "(2::int) ^ 9 \<le> 2 ^ nat (n - 1)" by (intro power_increasing) simp_all
  then show "0 < n \<Longrightarrow> ?thesis" using False by (simp add: retryDelayMs_def)
qed (simp add: retryDelayMs_def push_bit_eq_mult mult.commute)

text \<open>Back-off of failed requests: the shifted, capped delay of the code is the exponential
  one, two seconds doubled per failure and never more than ten minutes, without overflow for any
  number of failures.\<close>

theorem retry_delay_exponential:
  "retryDelayMs attempts = (if attempts \<le> 0 then 0 else min (2000 * 2 ^ nat (attempts - 1)) 600000)"
  by (simp add: retry_delay_law) (simp add: retryDelayMs_def)

lemma failures_accumulate:
  assumes "key \<noteq> []"
  shows "map_of (mc_failures (foldl (\<lambda>t ms. noteResolveFailed ms key t) s failedAt)) key
    = (case failedAt of [] \<Rightarrow> map_of (mc_failures s) key
       | _ \<Rightarrow> let f = hash_value no_failure key (mc_failures s)
              in Some (f\<lparr>rf_attempts := rf_attempts f + int (length failedAt), rf_lastFailureAtMs := last failedAt\<rparr>))"
proof (induction failedAt rule: rev_induct)
  case (snoc ms failedAt)
  then show ?case using assms
    by (cases failedAt) (auto simp: noteResolveFailed_def Let_def hash_value_def)
qed simp

text \<open>A media url that failed to resolve is asked for again only after its back-off: with no
  failure on record, after failures at the given times, requests are suppressed exactly until
  the exponential delay for that many failures has passed since the last one.\<close>

theorem retries_back_off:
  assumes "key \<noteq> []" and "map_of (mc_failures s) key = None" and "failedAt \<noteq> []"
  shows "retrySuppressed now key (foldl (\<lambda>t ms. noteResolveFailed ms key t) s failedAt)
    \<longleftrightarrow> now < last failedAt + min (2000 * 2 ^ (length failedAt - 1)) 600000"
proof -
  have "nat (int (length failedAt) - 1) = length failedAt - 1" by simp
  moreover have "map_of (mc_failures (foldl (\<lambda>t ms. noteResolveFailed ms key t) s failedAt)) key
      = Some \<lparr> rf_attempts = int (length failedAt), rf_lastFailureAtMs = last failedAt, rf_permanent = False \<rparr>"
    using assms failures_accumulate [OF assms(1), of s failedAt]
    by (simp add: no_failure_def hash_value_def neq_Nil_conv Let_def split: list.splits)
  ultimately show ?thesis
    using assms(3) by (auto simp: retrySuppressed_def retryAllowed_def retry_delay_law)
qed

theorem inserted_bytes_kept_witness:
  "map_of (pl_cache (mc_blob (insertBytes ''k'' ''ab'' [] [] (media_run env [ClearAll])))) ''k''
    = Some \<lparr> mb_bytes = ''ab'', mb_mime = [], mb_filename = [] \<rparr>"
  using inserted_bytes_kept [of "''k''" "''ab''" "[]" "[]" env "[ClearAll]"] by simp

theorem retries_back_off_witness:
  "retrySuppressed 13999 ''k'' (foldl (\<lambda>t ms. noteResolveFailed ms ''k'' t) initial_media_cache [0, 2000, 6000])
   \<and> \<not> retrySuppressed 14000 ''k'' (foldl (\<lambda>t ms. noteResolveFailed ms ''k'' t) initial_media_cache [0, 2000, 6000])"
  using retries_back_off [of "''k''" initial_media_cache "[0, 2000, 6000]" 13999]
    retries_back_off [of "''k''" initial_media_cache "[0, 2000, 6000]" 14000]
  by (simp add: initial_media_cache_def)

subsection \<open>What is cropped\<close>

definition crop_inside :: "int \<Rightarrow> int \<Rightarrow> crop_rect \<Rightarrow> bool" where
  "crop_inside sw sh r \<longleftrightarrow> (case r of (x, y, w, h) \<Rightarrow> 0 \<le> x \<and> 0 \<le> y \<and> 1 \<le> w \<and> 1 \<le> h \<and> x + w \<le> sw \<and> y + h \<le> sh)"

lemma centred_inside: "1 \<le> c \<Longrightarrow> c \<le> (n::int) \<Longrightarrow> 0 \<le> (n - c) div 2 \<and> (n - c) div 2 + c \<le> n"
  by presburger

text \<open>What the main thread, the scaled-image jobs and the avatars cut out of an image to cover
  their target is a nonempty rectangle inside the image, whatever the aspect ratios.\<close>

theorem crops_stay_inside:
  assumes "1 \<le> sw" and "1 \<le> sh"
  shows "crop_inside sw sh (cover_crop sw sh w h) \<and> crop_inside sw sh (guarded_crop sw sh w h pw ph)
    \<and> crop_inside sw sh (square_crop sw sh)"
proof (intro conjI)
  note qw = qBound_range [OF assms(1)] and qh = qBound_range [OF assms(2)]
  show cover: "crop_inside sw sh (cover_crop sw sh w h)"
    using assms qw qh centred_inside [OF conjunct1 [OF qw] conjunct2 [OF qw]] centred_inside [OF conjunct1 [OF qh] conjunct2 [OF qh]]
    by (simp add: cover_crop_def crop_inside_def Let_def)
  then show "crop_inside sw sh (guarded_crop sw sh w h pw ph)"
    using assms by (simp add: guarded_crop_def) (simp add: crop_inside_def)
  show "crop_inside sw sh (square_crop sw sh)"
    using assms centred_inside [of sh sw] centred_inside [of sw sh] by (simp add: square_crop_def crop_inside_def)
qed

theorem crops_stay_inside_witness:
  "crop_inside 2000 1 (cover_crop 2000 1 90 100) \<and> crop_inside 2000 1 (guarded_crop 2000 1 90 100 90 100)
    \<and> crop_inside 2000 1 (square_crop 2000 1)"
  using crops_stay_inside [of 2000 1 90 100 90 100] by simp

text \<open>The pixmap jobs round down and do not keep at least a pixel: of a thin image nothing is left.\<close>

lemma pixel_crop_may_be_empty: "pixel_crop 2000 1 90 100 = (1000, 0, 0, 1)"
  by (simp add: pixel_crop_def Let_def)

subsection \<open>What is dropped with an image\<close>

text \<open>Invalidating an image forgets everything made from it: the image and its bytes, every
  pixmap and every scaled variant of the url, whatever sizes were loaded before.\<close>

theorem invalidated_image_is_gone:
  "let s = invalidateImage url (media_run env events) in
     \<not> hash_contains url (pl_cache (mc_image s)) \<and> \<not> hash_contains url (pl_cache (mc_source s))
   \<and> \<not> (\<exists>(key, img) \<in> set (pl_cache (mc_pixmap s)). keyHasBase key url)
   \<and> \<not> (\<exists>(key, img) \<in> set (pl_cache (mc_scaled s)). keyHasBase key url)"
  by (auto simp: invalidateImage_def clearFailureState_def remove_variants_def pool_remove_def hash_contains_def Let_def)

subsection \<open>What goes stale and what gets stuck\<close>

text \<open>Where the code leaves stale data or never finishes.\<close>

text \<open>A new file for a url: its encoded bytes stay, and the next load decodes them again instead of
  the file.\<close>

lemma new_path_shows_old_bytes:
  assumes "url \<noteq> []" "\<not> isPlaceholderKey url" "map_of (pl_cache (mc_source s)) url = Some blob"
    and "me_decodeImageBytes env (mb_bytes blob) (mb_mime blob) = Some i"
  shows "snd (loadImage env url (insertPath url path s)) = capForTimeline env (Some i)"
proof -
  have gone: "map_of (pl_cache (pool_remove url p)) url = None" for p :: "image pool" by (simp add: pool_remove_def)
  show ?thesis
    using assms gone [of "mc_image s"]
    by (simp add: loadImage_def insertPath_def clearFailureState_def decodeSuppressed_def Let_def)
qed

text \<open>A new decoded image drops the pixmaps of the old one but not its scaled variants.\<close>

lemma new_image_keeps_scaled: "mc_scaled (insertImage env key img s) = mc_scaled s"
  by (simp add: insertImage_def clearFailureState_def Let_def)

text \<open>Clearing the files of one account counts up the generation for all: a job of another account
  is dropped when it finishes, its key stays among the running ones, and no new job starts.\<close>

lemma forgotten_keeps_loading:
  "key \<notin> set urls \<Longrightarrow> key \<in> set (mc_asyncLoading (foldl (\<lambda>t url. forget_url url t) s urls)) \<longleftrightarrow> key \<in> set (mc_asyncLoading s)"
  by (induction urls arbitrary: s) (simp_all add: forget_url_def invalidateImage_def clearFailureState_def Let_def)

lemma forgotten_generation: "mc_generation (foldl (\<lambda>t url. forget_url url t) s urls) = mc_generation s"
  by (induction urls arbitrary: s) (simp_all add: forget_url_def invalidateImage_def clearFailureState_def Let_def)

lemma cleared_account_strands_jobs:
  assumes running: "jb_key job \<in> set (mc_asyncLoading s)" "jb_generation job = mc_generation s"
    and variant: "jb_key job \<notin> fst ` set (mc_path s)" and dir: "dir \<noteq> []"
  shows "jb_key job \<in> set (mc_asyncLoading (finish_job env job (clearForDataDir dir s)))"
proof -
  have stale: "jb_key job \<notin> fst ` Set.filter P (set (mc_path s))" for P
    using variant by auto
  have "jb_key job \<in> set (mc_asyncLoading (clearForDataDir dir s))"
    unfolding clearForDataDir_def Let_def if_not_P [OF dir]
    by (rule forgotten_keeps_loading [THEN iffD2]) (use stale running(1) in simp_all)
  moreover have "mc_generation (clearForDataDir dir s) = mc_generation s + 1"
    using dir by (simp add: clearForDataDir_def Let_def forgotten_generation)
  ultimately show ?thesis using running(2) by (simp add: finish_job_def)
qed

lemma running_key_starts_no_job:
  assumes "sized_key env url w h dpr \<in> set (mc_asyncLoading s)"
  shows "lr_job (snd (loadPixmapAsync env url w h dpr s)) = None"
proof -
  have read: "mc_asyncLoading (fst (filePathForRead env url t)) = mc_asyncLoading t" for t
    by (simp add: filePathForRead_def Let_def)
  have src: "mc_asyncLoading (fst (take_source url t)) = mc_asyncLoading t" for t
    by (simp add: take_source_def split: option.split)
  have "lr_job (snd (dispatch_sized env PixmapJob url (sized_key env url w h dpr) w h dpr s)) = None"
  proof -
    define source where "source = (case map_of (pl_cache (mc_image s)) url of None \<Rightarrow> None | Some img \<Rightarrow> img)"
    define s1 where "s1 = (if hash_contains url (pl_cache (mc_image s)) then s\<lparr>mc_image := touchOrder url (mc_image s)\<rparr> else s)"
    obtain s2 b m where s2: "(if source = None then take_source url s1 else (s1, [], [])) = (s2, b, m)" by (metis prod_cases3)
    obtain s3 path waiting where s3: "(if source = None \<and> b = [] then filePathForRead env url s2 else (s2, [], False)) = (s3, path, waiting)"
      by (metis prod_cases3)
    have "mc_asyncLoading s2 = mc_asyncLoading s" using s2 src [of s1] by (auto simp: s1_def split: if_splits)
    then have "mc_asyncLoading s3 = mc_asyncLoading s" using s3 read [of s2] by (auto split: if_splits)
    then show ?thesis
      using assms unfolding dispatch_sized_def source_def [symmetric] s1_def [symmetric] Let_def s2 split_conv s3
      by (simp add: no_result_def)
  qed
  then show ?thesis by (simp add: loadPixmapAsync_def Let_def no_result_def split: option.splits)
qed

text \<open>A pixmap job of which nothing is left caches nothing, counts no failure and frees its key: the
  repaint it asks for starts the same job again.\<close>

lemma thin_pixmap_job_changes_nothing:
  assumes "jb_kind job = PixmapJob" "job_image env job = Some i" "jb_generation job = mc_generation s"
    and "hash_contains (jb_url job) (pl_cache (mc_image s))"
    and "pixmap_scaled env i (jb_width job) (jb_height job) (jb_dpr job) = None"
  shows "finish_job env job s = s\<lparr>mc_asyncLoading := filter (\<lambda>k. k \<noteq> jb_key job) (mc_asyncLoading s)\<rparr>"
  using assms by (simp add: finish_job_def finish_pixmap_def add_image_def Let_def)

end
