(* ===== verification/Slice_Merge.thy ===== *)
theory Slice_Merge imports Timeline_Content Drafts begin

section \<open>Cleaning up a timeline slice\<close>

text \<open>
  What \<open>HistoryWidget\<close> does to the items of a slice before the list shows them
  (\<^verbatim>\<open>src/src/history/history_widget.cpp\<close>, 202-404): empty local echoes go, and the placeholder of an
  upload goes when the message it became is in the slice too.  Placeholders and messages are
  matched by transaction id or, failing that, by their content and time.

  Shown: the matching drops only placeholders, each against a message of its own, and keeps the
  order of the rest.
\<close>

subsection \<open>Kinds of items\<close>

definition isSendQueueUrl :: "qstring \<Rightarrow> bool" where
  "isSendQueueUrl url \<longleftrightarrow> startsWith ''mxc://send-queue.localhost/'' url"

definition isTransientOutgoingEmptyTextMessage :: "(char \<Rightarrow> bool) \<Rightarrow> (qstring \<Rightarrow> qstring) \<Rightarrow> timeline_item \<Rightarrow> bool" where
  "isTransientOutgoingEmptyTextMessage isSpace toPlainText item =
     (if \<not> del_outgoing (ti_delivery item) \<or> \<not> isTextMessage item then False
      else if trimmed isSpace (bodyText item) \<noteq> [] then False
      else let formatted = formattedText item
           in if formatted = [] then True else trimmed isSpace (toPlainText formatted) = [])"

definition isLocalOnlyFailedTextEcho :: "timeline_item \<Rightarrow> bool" where
  "isLocalOnlyFailedTextEcho item \<longleftrightarrow>
     del_outgoing (ti_delivery item) \<and> isTextMessage item \<and> del_sendState (ti_delivery item) = Failed
     \<and> ti_transactionId item = [] \<and> startsWith ''local-'' (ti_eventId item)"

definition dropTransientOutgoingEmptyTextMessages ::
    "(char \<Rightarrow> bool) \<Rightarrow> (qstring \<Rightarrow> qstring) \<Rightarrow> timeline_item list \<Rightarrow> timeline_item list" where
  "dropTransientOutgoingEmptyTextMessages isSpace toPlainText messages =
     filter (\<lambda>item. \<not> isTransientOutgoingEmptyTextMessage isSpace toPlainText item) messages"

definition isLocalMediaUploadPlaceholder :: "timeline_item \<Rightarrow> bool" where
  "isLocalMediaUploadPlaceholder item =
     (if \<not> del_outgoing (ti_delivery item) \<or> del_sendState (ti_delivery item) \<noteq> Sending then False
      else case contentType item of
             ContentImage \<Rightarrow> isSendQueueUrl (mediaUrl item) \<or> isSendQueueUrl (mediaThumbUrl item)
           | ContentVideo \<Rightarrow> isSendQueueUrl (mediaUrl item) \<or> isSendQueueUrl (mediaThumbUrl item)
           | ContentFile \<Rightarrow> isSendQueueUrl (mediaUrl item) \<or> isSendQueueUrl (mediaThumbUrl item)
           | ContentAudio \<Rightarrow> isSendQueueUrl (mediaUrl item) \<or> isSendQueueUrl (mediaThumbUrl item)
           | ContentText \<Rightarrow> False
           | ContentService \<Rightarrow> False
           | ContentPoll \<Rightarrow> False
           | ContentUnableToDecrypt \<Rightarrow> False)"

definition isRemoteMediaTimelineItem :: "timeline_item \<Rightarrow> bool" where
  "isRemoteMediaTimelineItem item =
     (if \<not> del_outgoing (ti_delivery item) \<or> del_deleted (ti_delivery item) \<or> isTextMessage item
         \<or> isServiceMessage item \<or> pollContent item \<noteq> None \<or> isUnableToDecryptMessage item
      then False
      else mediaUrl item \<noteq> [] \<and> \<not> isSendQueueUrl (mediaUrl item)
         \<or> mediaThumbUrl item \<noteq> [] \<and> \<not> isSendQueueUrl (mediaThumbUrl item))"

definition isMediaCaptionMessage :: "timeline_item \<Rightarrow> bool" where
  "isMediaCaptionMessage item \<longleftrightarrow>
     imageContent item \<noteq> None \<or> videoContent item \<noteq> None \<or> fileContent item \<noteq> None \<or> audioContent item \<noteq> None"

subsection \<open>Placeholders and what they became\<close>

definition mediaItemsLikelyMatch :: "timeline_item \<Rightarrow> timeline_item \<Rightarrow> bool" where
  "mediaItemsLikelyMatch local remote =
     (if ti_transactionId remote \<noteq> [] \<and> ti_transactionId remote = ti_eventId local then True
      else if contentType local \<noteq> contentType remote \<or> snd_id (ti_sender local) \<noteq> snd_id (ti_sender remote)
              \<or> \<not> del_outgoing (ti_delivery remote) then False
      else if mediaFilename local \<noteq> [] \<and> mediaFilename remote \<noteq> [] \<and> mediaFilename local \<noteq> mediaFilename remote then False
      else if 0 < mediaSize local \<and> 0 < mediaSize remote \<and> mediaSize local \<noteq> mediaSize remote then False
      else if 0 < mediaWidth local \<and> 0 < mediaWidth remote \<and> mediaWidth local \<noteq> mediaWidth remote then False
      else if 0 < mediaHeight local \<and> 0 < mediaHeight remote \<and> mediaHeight local \<noteq> mediaHeight remote then False
      else if 0 < mediaDurationMs local \<and> 0 < mediaDurationMs remote \<and> mediaDurationMs local \<noteq> mediaDurationMs remote then False
      else if captionText local \<noteq> [] \<and> captionText remote \<noteq> [] \<and> captionText local \<noteq> captionText remote then False
      else if bodyText local \<noteq> [] \<and> bodyText remote \<noteq> [] \<and> bodyText local \<noteq> bodyText remote then False
      else \<bar>ti_timestamp local - ti_timestamp remote\<bar> \<le> 5)"

text \<open>The inner loop: the closest free match so far, with its distance.\<close>

definition match_step :: "timeline_item list \<Rightarrow> nat \<Rightarrow> bool list \<Rightarrow> nat option \<times> int \<Rightarrow> nat \<Rightarrow> nat option \<times> int" where
  "match_step messages i remoteUsed best j =
     (if i = j \<or> remoteUsed ! j then best
      else let local = messages ! i; remote = messages ! j
           in if \<not> isRemoteMediaTimelineItem remote \<or> \<not> mediaItemsLikelyMatch local remote then best
              else let distance = \<bar>ti_timestamp local - ti_timestamp remote\<bar>
                   in if distance < snd best then (Some j, distance) else best)"

definition best_match :: "timeline_item list \<Rightarrow> nat \<Rightarrow> bool list \<Rightarrow> nat option" where
  "best_match messages i remoteUsed =
     fst (foldl (match_step messages i remoteUsed) (None, 2 ^ 63 - 1) [0..<length messages])"

text \<open>The outer loop: what to drop and what is used.\<close>

definition drop_step :: "timeline_item list \<Rightarrow> bool list \<times> bool list \<Rightarrow> nat \<Rightarrow> bool list \<times> bool list" where
  "drop_step messages marks i =
     (if \<not> isLocalMediaUploadPlaceholder (messages ! i) then marks
      else case best_match messages i (snd marks) of
             None \<Rightarrow> marks
           | Some j \<Rightarrow> ((fst marks)[i := True], (snd marks)[j := True]))"

definition drop_marks :: "timeline_item list \<Rightarrow> bool list \<times> bool list" where
  "drop_marks messages =
     foldl (drop_step messages) (replicate (length messages) False, replicate (length messages) False) [0..<length messages]"

definition dropAcknowledgedOutgoingMediaPlaceholders :: "timeline_item list \<Rightarrow> timeline_item list" where
  "dropAcknowledgedOutgoingMediaPlaceholders messages =
     (if length messages < 2 then messages
      else let drops = fst (drop_marks messages)
           in if True \<notin> set drops then messages
              else map fst (filter (\<lambda>p. \<not> snd p) (zip messages drops)))"

subsection \<open>Who is matched\<close>

text \<open>The matched pairs, in the order they are found: each is a placeholder with a message it
  likely became, and no message is matched twice.\<close>

definition matched :: "timeline_item list \<Rightarrow> (nat \<times> nat) list \<Rightarrow> bool" where
  "matched messages pairs \<longleftrightarrow> distinct (map fst pairs) \<and> distinct (map snd pairs)
     \<and> (\<forall>(i, j) \<in> set pairs. i < length messages \<and> j < length messages
          \<and> isLocalMediaUploadPlaceholder (messages ! i) \<and> isRemoteMediaTimelineItem (messages ! j)
          \<and> mediaItemsLikelyMatch (messages ! i) (messages ! j))"

lemma best_match_spec:
  assumes "best_match messages i remoteUsed = Some j"
  shows "j < length messages \<and> j \<noteq> i \<and> \<not> remoteUsed ! j \<and> isRemoteMediaTimelineItem (messages ! j)
    \<and> mediaItemsLikelyMatch (messages ! i) (messages ! j)"
proof -
  have "case fst (foldl (match_step messages i remoteUsed) (None, d) js) of None \<Rightarrow> True
      | Some j \<Rightarrow> j \<in> set js \<and> j \<noteq> i \<and> \<not> remoteUsed ! j \<and> isRemoteMediaTimelineItem (messages ! j)
          \<and> mediaItemsLikelyMatch (messages ! i) (messages ! j)" for js d
  proof (induction js rule: rev_induct)
    case (snoc j js)
    then show ?case
      by (cases "foldl (match_step messages i remoteUsed) (None, d) js")
        (auto simp: match_step_def Let_def split: option.splits)
  qed simp
  from this [where d = "2 ^ 63 - 1" and js = "[0..<length messages]"] assms show ?thesis by (simp add: best_match_def)
qed

text \<open>A placeholder whose transaction is in the slice under a free message finds a match.\<close>

lemma best_match_found:
  assumes "j < length messages" "j \<noteq> i" "\<not> remoteUsed ! j" "isRemoteMediaTimelineItem (messages ! j)"
    and "mediaItemsLikelyMatch (messages ! i) (messages ! j)" and "\<bar>ti_timestamp (messages ! i) - ti_timestamp (messages ! j)\<bar> < 2 ^ 63 - 1"
  shows "best_match messages i remoteUsed \<noteq> None"
proof -
  have "fst (foldl (match_step messages i remoteUsed) (None, 2 ^ 63 - 1) js) = None \<longrightarrow>
      j \<notin> set js \<and> snd (foldl (match_step messages i remoteUsed) (None, 2 ^ 63 - 1) js) = 2 ^ 63 - 1" for js
  proof (induction js rule: rev_induct)
    case (snoc k js)
    then show ?case using assms
      by (cases "foldl (match_step messages i remoteUsed) (None, 2 ^ 63 - 1) js")
        (auto simp: match_step_def Let_def split: if_splits)
  qed simp
  from this [of "[0..<length messages]"] assms(1) show ?thesis unfolding best_match_def by auto
qed

lemma drop_marks_pairs:
  "\<exists>pairs. matched messages pairs \<and> length (fst (drop_marks messages)) = length messages
     \<and> (\<forall>i < length messages. fst (drop_marks messages) ! i \<longleftrightarrow> i \<in> fst ` set pairs)"
proof -
  define n where "n = length messages"
  have "k \<le> n \<Longrightarrow> \<exists>pairs. let marks = foldl (drop_step messages) (replicate n False, replicate n False) [0..<k] in
      matched messages pairs \<and> length (fst marks) = n \<and> length (snd marks) = n \<and> (\<forall>i \<in> fst ` set pairs. i < k)
      \<and> (\<forall>i < n. fst marks ! i \<longleftrightarrow> i \<in> fst ` set pairs) \<and> (\<forall>j < n. snd marks ! j \<longleftrightarrow> j \<in> snd ` set pairs)" for k
  proof (induction k)
    case 0
    show ?case by (intro exI [of _ "[]"]) (simp add: matched_def)
  next
    case (Suc k)
    define marks where "marks = foldl (drop_step messages) (replicate n False, replicate n False) [0..<k]"
    obtain pairs where old: "matched messages pairs" "length (fst marks) = n" "length (snd marks) = n"
        "\<forall>i \<in> fst ` set pairs. i < k" "\<forall>i < n. fst marks ! i \<longleftrightarrow> i \<in> fst ` set pairs" "\<forall>j < n. snd marks ! j \<longleftrightarrow> j \<in> snd ` set pairs"
      using Suc unfolding marks_def [symmetric] Let_def by auto
    have step: "foldl (drop_step messages) (replicate n False, replicate n False) [0..<Suc k] = drop_step messages marks k"
      by (simp add: marks_def)
    show ?case
    proof (cases "isLocalMediaUploadPlaceholder (messages ! k) \<and> best_match messages k (snd marks) \<noteq> None")
      case False
      then have "drop_step messages marks k = marks" by (auto simp: drop_step_def)
      then show ?thesis using old unfolding step Let_def by (intro exI [of _ pairs]) auto
    next
      case True
      then obtain j where j: "best_match messages k (snd marks) = Some j" by auto
      note spec = best_match_spec [OF j]
      have new: "drop_step messages marks k = ((fst marks)[k := True], (snd marks)[j := True])"
        using True j by (simp add: drop_step_def)
      have "j \<notin> snd ` set pairs" using old(6) spec by (auto simp: n_def)
      moreover have "k \<notin> fst ` set pairs" using old(4) by auto
      ultimately have "matched messages ((k, j) # pairs)"
        using old(1) spec True Suc.prems by (auto simp: matched_def n_def)
      moreover have "\<forall>i < n. (fst marks)[k := True] ! i \<longleftrightarrow> i \<in> fst ` set ((k, j) # pairs)"
        using old(2,5) Suc.prems by (auto simp: nth_list_update)
      moreover have "\<forall>i < n. (snd marks)[j := True] ! i \<longleftrightarrow> i \<in> snd ` set ((k, j) # pairs)"
        using old(3,6) spec by (auto simp: nth_list_update n_def)
      ultimately show ?thesis
        using old(2-4) Suc.prems unfolding step new Let_def
        by (intro exI [of _ "(k, j) # pairs"]) (auto simp: less_Suc_eq)
    qed
  qed
  from this [of n] show ?thesis unfolding drop_marks_def n_def Let_def by auto
qed

lemma zip_drop_filter:
  "length xs = length ds \<Longrightarrow> map fst (filter (\<lambda>p. \<not> snd p) (zip xs ds)) = nths xs {i. i < length ds \<and> \<not> ds ! i}"
proof (induction xs ds rule: list_induct2)
  case (Cons x xs d ds)
  have "{j. Suc j \<in> {i. i < length (d # ds) \<and> \<not> (d # ds) ! i}} = {i. i < length ds \<and> \<not> ds ! i}" by auto
  with Cons show ?case by (auto simp: nths_Cons)
qed simp

lemma placeholders_one_to_one:
  "\<exists>pairs. matched messages pairs
     \<and> dropAcknowledgedOutgoingMediaPlaceholders messages = nths messages {i. i \<notin> fst ` set pairs}"
proof (cases "length messages < 2")
  case True
  have "nths messages {i. i \<notin> fst ` set []} = messages" by (simp add: nths_all)
  then show ?thesis using True
    by (intro exI [of _ "[]"]) (simp add: matched_def dropAcknowledgedOutgoingMediaPlaceholders_def)
next
  case False
  obtain pairs where pairs: "matched messages pairs" "length (fst (drop_marks messages)) = length messages"
      "\<forall>i < length messages. fst (drop_marks messages) ! i \<longleftrightarrow> i \<in> fst ` set pairs"
    using drop_marks_pairs by blast
  have kept: "dropAcknowledgedOutgoingMediaPlaceholders messages
      = nths messages {i. i < length messages \<and> \<not> fst (drop_marks messages) ! i}"
  proof (cases "True \<in> set (fst (drop_marks messages))")
    case True
    then show ?thesis using False pairs(2)
      by (simp add: dropAcknowledgedOutgoingMediaPlaceholders_def Let_def zip_drop_filter)
  next
    case none: False
    then have "\<forall>i < length messages. \<not> fst (drop_marks messages) ! i" using pairs(2) by (metis nth_mem)
    then have "nths messages {i. i < length messages \<and> \<not> fst (drop_marks messages) ! i} = messages"
      by (intro nths_all) auto
    then show ?thesis using False none by (simp add: dropAcknowledgedOutgoingMediaPlaceholders_def Let_def)
  qed
  have "nths messages {i. i < length messages \<and> \<not> fst (drop_marks messages) ! i} = nths messages {i. i \<notin> fst ` set pairs}"
    unfolding nths_def using pairs(3) by (intro arg_cong [where f = "map fst"] filter_cong) (auto simp: set_zip)
  with kept pairs(1) show ?thesis by metis
qed


end
