(* ===== verification/Outgoing_Media.thy ===== *)
theory Outgoing_Media imports Slice_Merge Media_Cache begin

section \<open>Uploads and the messages being sent\<close>

text \<open>
  The part of \<open>HistoryWidget\<close> (\<^verbatim>\<open>src/src/history/history_widget.cpp\<close>) that shows messages before the
  server has them: the uploads on their way (\<^verbatim>\<open>history_pending_local_media.cpp\<close>) with their
  optimistic echoes, what is done to every slice before the list shows it, the requests for
  slices, cancelling, resending and results.  The messages of the list are an argument
  (\<open>shown\<close>); what the list, the bridge and the file system are asked to do comes out as calls.
  The media cache is the model of \<^verbatim>\<open>media_cache.cpp\<close>.

  Shown: the bubble of an upload stays in every slice until its message arrives, a cancelled one
  never comes back, and what is acknowledged is never sent again.
\<close>

subsection \<open>State\<close>

record pending_upload =
  pu_type :: content_type
  pu_mediaPath :: qstring
  pu_uploadPath :: qstring
  pu_thumbPath :: qstring
  pu_roomId :: qstring
  pu_mime :: qstring
  pu_filename :: qstring
  pu_caption :: qstring
  pu_size :: quint64
  pu_width :: int
  pu_height :: int
  pu_durationMs :: quint64

definition default_upload :: pending_upload where
  "default_upload = \<lparr> pu_type = ContentFile, pu_mediaPath = [], pu_uploadPath = [], pu_thumbPath = [], pu_roomId = [],
     pu_mime = [], pu_filename = [], pu_caption = [], pu_size = 0, pu_width = 0, pu_height = 0, pu_durationMs = 0 \<rparr>"

record outgoing =
  og_room :: qstring
  og_uploads :: "(qstring, pending_upload) qhash"
  og_echoes :: "(qstring, timeline_item) qhash"
  og_cancelled :: "qstring list"
  og_redispatched :: "qstring list"
  og_formatted :: "(qstring, qstring) qhash"
  og_avatars :: "(qstring, qstring) qhash"
  og_echoIds :: "(quint64, qstring) qhash"
  og_nextSend :: quint64
  og_requests :: quint64
  og_latest :: quint64
  og_baseline :: bool
  og_savedRoom :: qstring
  og_hideSystem :: bool
  og_public :: bool
  og_preview :: bool
  og_media :: media_cache

text \<open>The file the user picked, as the dialog prepared it.\<close>

datatype prepared_kind = PreparedImage | PreparedVideo | PreparedOther

record prepared_file =
  pf_path :: qstring
  pf_mime :: qstring
  pf_filename :: qstring
  pf_size :: quint64
  pf_width :: int
  pf_height :: int
  pf_durationMs :: int
  pf_preview :: image
  pf_kind :: prepared_kind

record send_media =
  sm_roomId :: qstring
  sm_type :: content_type
  sm_url :: qstring
  sm_mime :: qstring
  sm_filename :: qstring
  sm_caption :: qstring
  sm_thumbUrl :: qstring
  sm_size :: quint64
  sm_width :: int
  sm_height :: int
  sm_durationMs :: quint64
  sm_transactionId :: qstring

text \<open>The calls to the bridge, the list and the file system.\<close>

datatype outgoing_call =
  SendMedia send_media
| SendText qstring qstring qstring qstring "quint64 option"
| CancelUpload qstring qstring
| DeleteMessage qstring qstring
| GetSlice qstring quint64
| GetUpdate qstring quint64
| EnsureUserTrust qstring
| ResolveAvatar qstring
| ListAppend timeline_item
| ListRemove qstring
| ListSendState qstring send_state
| ListProgress qstring real
| ListMarkDeleting qstring
| RemoveFile qstring
| ShowToast

text \<open>The user, the file system and Qt's text functions.\<close>

record outgoing_env =
  oe_media :: media_env
  oe_isSpace :: "char \<Rightarrow> bool"
  oe_toPlainText :: "qstring \<Rightarrow> qstring"
  oe_number :: "quint64 \<Rightarrow> qstring"
  oe_isVideoThumbPath :: "qstring \<Rightarrow> bool"
  oe_isCompressedPath :: "qstring \<Rightarrow> bool"
  oe_fileSize :: "qstring \<Rightarrow> quint64"
  oe_imageInfo :: "qstring \<Rightarrow> qstring \<times> quint64 \<times> int \<times> int"
  oe_userId :: qstring
  oe_displayName :: qstring
  oe_avatarUrl :: qstring

definition hasPendingForRoom :: "qstring \<Rightarrow> outgoing \<Rightarrow> bool" where
  "hasPendingForRoom roomId s \<longleftrightarrow> (\<exists>e \<in> set (og_uploads s). pu_roomId (snd e) = roomId)"

definition setUploadPath :: "qstring \<Rightarrow> qstring \<Rightarrow> outgoing \<Rightarrow> outgoing" where
  "setUploadPath eventId path s =
     (case map_of (og_uploads s) eventId of
        None \<Rightarrow> s
      | Some up \<Rightarrow> s\<lparr>og_uploads := hash_insert eventId (up\<lparr>pu_uploadPath := path\<rparr>) (og_uploads s)\<rparr>)"

text \<open>The temporary files of an upload go with it.\<close>

definition removeUploadVideoThumb :: "outgoing_env \<Rightarrow> qstring \<Rightarrow> outgoing_call list" where
  "removeUploadVideoThumb env path = (if oe_isVideoThumbPath env path then [RemoveFile path] else [])"

definition removeUploadCompressedImage :: "outgoing_env \<Rightarrow> qstring \<Rightarrow> outgoing_call list" where
  "removeUploadCompressedImage env path = (if oe_isCompressedPath env path then [RemoveFile path] else [])"

definition removePendingLocalMediaUpload :: "outgoing_env \<Rightarrow> qstring \<Rightarrow> outgoing \<Rightarrow> outgoing \<times> outgoing_call list" where
  "removePendingLocalMediaUpload env eventId s =
     (s\<lparr>og_echoes := hash_remove eventId (og_echoes s), og_uploads := hash_remove eventId (og_uploads s)\<rparr>,
      case map_of (og_uploads s) eventId of
        None \<Rightarrow> []
      | Some up \<Rightarrow> removeUploadVideoThumb env (pu_thumbPath up) @ removeUploadCompressedImage env (pu_mediaPath up))"

definition clearPendingLocalMediaUploads :: "outgoing_env \<Rightarrow> outgoing \<Rightarrow> outgoing \<times> outgoing_call list" where
  "clearPendingLocalMediaUploads env s =
     (s\<lparr>og_uploads := [], og_cancelled := [], og_redispatched := [], og_echoes := []\<rparr>,
      concat (map (\<lambda>e. removeUploadVideoThumb env (pu_thumbPath (snd e)) @ removeUploadCompressedImage env (pu_mediaPath (snd e)))
                  (og_uploads s)))"

subsection \<open>What is done to a slice\<close>

definition isSavedMessagesRoom :: "outgoing \<Rightarrow> bool" where
  "isSavedMessagesRoom s \<longleftrightarrow> og_room s \<noteq> [] \<and> og_room s = og_savedRoom s"

definition shouldHideSystemMessages :: "outgoing \<Rightarrow> bool" where
  "shouldHideSystemMessages s =
     (if og_preview s \<or> og_room s = [] then False
      else if og_room s = og_savedRoom s then True
      else og_hideSystem s \<and> og_public s)"

text \<open>A forward in Saved Messages shows its author.\<close>

definition present_forward :: "timeline_item \<Rightarrow> timeline_item" where
  "present_forward item =
     (case ti_forwardedFrom item of
        None \<Rightarrow> item
      | Some fwd \<Rightarrow>
          if fwd_senderId fwd = [] then item
          else item\<lparr>ti_sender := \<lparr> snd_id = fwd_senderId fwd, snd_name = fwd_senderName fwd, snd_avatarUrl = fwd_avatarUrl fwd \<rparr>,
                    ti_forwardedFrom := None, ti_delivery := (ti_delivery item)\<lparr>del_outgoing := False\<rparr>\<rparr>)"

definition request_avatar :: "outgoing_env \<Rightarrow> int \<Rightarrow> timeline_item \<Rightarrow> media_cache \<Rightarrow> media_cache \<times> outgoing_call list" where
  "request_avatar env now item mc =
     (case ti_forwardedFrom item of
        None \<Rightarrow> (mc, [])
      | Some fwd \<Rightarrow>
          if fwd_senderId fwd = [] \<or> \<not> startsWith ''mxc://'' (fwd_avatarUrl fwd) then (mc, [])
          else let (mc1, needed) = needsResolution (oe_media env) now (fwd_avatarUrl fwd) mc
               in if needed then (markRequested (fwd_avatarUrl fwd) mc1, [ResolveAvatar (fwd_avatarUrl fwd)]) else (mc1, []))"

definition request_avatars :: "outgoing_env \<Rightarrow> int \<Rightarrow> timeline_item list \<Rightarrow> media_cache \<Rightarrow> media_cache \<times> outgoing_call list" where
  "request_avatars env now items mc =
     foldl (\<lambda>(m, calls) item. let (m', more) = request_avatar env now item m in (m', calls @ more)) (mc, []) items"

definition hide_system :: "outgoing_env \<Rightarrow> int \<Rightarrow> outgoing \<times> timeline_item list \<Rightarrow> (outgoing \<times> timeline_item list) \<times> outgoing_call list" where
  "hide_system env now x =
     (let (s, items) = x
      in if \<not> shouldHideSystemMessages s then ((s, items), [])
         else let saved = isSavedMessagesRoom s;
                  kept = filter (\<lambda>m. \<not> (isServiceMessage m \<or> saved \<and> del_deleted (ti_delivery m))) items
              in if saved
                 then let (mc, calls) = request_avatars env now kept (og_media s)
                      in ((s\<lparr>og_media := mc\<rparr>, map present_forward kept), calls)
                 else ((s, kept), []))"

definition applySenderAvatarFallback :: "(qstring, qstring) qhash \<Rightarrow> qstring \<Rightarrow> timeline_item \<Rightarrow> timeline_item" where
  "applySenderAvatarFallback avatars selfAvatar item =
     (if snd_avatarUrl (ti_sender item) \<noteq> [] then item
      else case map_of avatars (snd_id (ti_sender item)) of
             Some url \<Rightarrow> item\<lparr>ti_sender := (ti_sender item)\<lparr>snd_avatarUrl := url\<rparr>\<rparr>
           | None \<Rightarrow> if del_outgoing (ti_delivery item) \<and> selfAvatar \<noteq> []
                     then item\<lparr>ti_sender := (ti_sender item)\<lparr>snd_avatarUrl := selfAvatar\<rparr>\<rparr> else item)"

fun enrich_senders :: "outgoing_env \<Rightarrow> outgoing \<Rightarrow> timeline_item list \<Rightarrow> outgoing \<times> timeline_item list \<times> outgoing_call list" where
  "enrich_senders env s [] = (s, [], [])"
| "enrich_senders env s (m # ms) =
     (let m1 = applySenderAvatarFallback (og_avatars s) (oe_avatarUrl env) m;
          sender = ti_sender m1;
          s1 = (if snd_id sender \<noteq> [] \<and> snd_avatarUrl sender \<noteq> []
                then s\<lparr>og_avatars := hash_insert (snd_id sender) (snd_avatarUrl sender) (og_avatars s)\<rparr> else s);
          (s2, items, calls) = enrich_senders env s1 ms
      in (s2, m1 # items, (if snd_id sender \<noteq> [] then [EnsureUserTrust (snd_id sender)] else []) @ calls))"

definition reapply_formatted :: "(qstring, qstring) qhash \<Rightarrow> timeline_item \<Rightarrow> timeline_item" where
  "reapply_formatted bodies m =
     (if del_outgoing (ti_delivery m) \<and> formattedText m = []
      then case map_of bodies (ti_eventId m) of None \<Rightarrow> m | Some body \<Rightarrow> setFormattedText body m
      else m)"

text \<open>The echoes of the uploads of this room, kept until the slice has their message.\<close>

definition names_upload :: "qstring \<Rightarrow> timeline_item \<Rightarrow> bool" where
  "names_upload txid m \<longleftrightarrow> ti_eventId m = txid \<or> ti_transactionId m = txid"

definition reinject_one :: "outgoing \<Rightarrow> timeline_item list \<Rightarrow> qstring \<times> timeline_item \<Rightarrow> timeline_item list \<times> bool" where
  "reinject_one s items e =
     (case map_of (og_uploads s) (fst e) of
        None \<Rightarrow> (items, False)
      | Some up \<Rightarrow>
          if pu_roomId up \<noteq> og_room s then (items, True)
          else if (\<exists>m \<in> set items. names_upload (fst e) m) \<or> fst e \<in> set (og_cancelled s) then (items, False)
          else (items @ [snd e], True))"

fun reinject :: "outgoing \<Rightarrow> timeline_item list \<Rightarrow> (qstring, timeline_item) qhash \<Rightarrow> timeline_item list \<times> (qstring, timeline_item) qhash" where
  "reinject s items [] = (items, [])"
| "reinject s items (e # es) =
     (let (items1, keep) = reinject_one s items e; (items2, kept) = reinject s items1 es
      in (items2, if keep then e # kept else kept))"

definition reinject_echoes :: "bool \<Rightarrow> outgoing \<times> timeline_item list \<Rightarrow> outgoing \<times> timeline_item list" where
  "reinject_echoes isLive x =
     (let (s, items) = x
      in if og_echoes s \<noteq> [] \<and> isLive
         then let (items1, kept) = reinject s items (og_echoes s) in (s\<lparr>og_echoes := kept\<rparr>, items1)
         else (s, items))"

definition cancelled_id :: "qstring list \<Rightarrow> timeline_item \<Rightarrow> qstring" where
  "cancelled_id cancelled m =
     (if ti_eventId m \<in> set cancelled then ti_eventId m
      else if ti_transactionId m \<noteq> [] \<and> ti_transactionId m \<in> set cancelled then ti_transactionId m
      else [])"

fun drop_cancelled :: "outgoing \<Rightarrow> timeline_item list \<Rightarrow> outgoing \<times> timeline_item list \<times> outgoing_call list" where
  "drop_cancelled s [] = (s, [], [])"
| "drop_cancelled s (m # ms) =
     (let txid = cancelled_id (og_cancelled s) m
      in if txid = [] then (let (s1, items, calls) = drop_cancelled s ms in (s1, m # items, calls))
         else if txid \<in> set (og_redispatched s) then drop_cancelled s ms
         else let (s1, items, calls) = drop_cancelled (s\<lparr>og_redispatched := txid # og_redispatched s\<rparr>) ms
              in (s1, items, CancelUpload (og_room s) txid # calls))"

text \<open>Our own image, acknowledged: its url resolves to the very file that was sent.\<close>

definition adoptUploadedMediaAsResolved :: "outgoing_env \<Rightarrow> timeline_item \<Rightarrow> outgoing \<Rightarrow> outgoing" where
  "adoptUploadedMediaAsResolved env item s =
     (if \<not> isImageMessage item then s
      else case map_of (og_uploads s) (ti_transactionId item) of
             None \<Rightarrow> s
           | Some up \<Rightarrow>
               let url = mediaUrl item
               in if pu_uploadPath up = [] \<or> url = [] \<or> isSendQueueUrl url then s
                  else let (mc, resolved) = isResolved (oe_media env) url (og_media s)
                       in if resolved \<or> \<not> me_exists (oe_media env) (pu_uploadPath up) then s\<lparr>og_media := mc\<rparr>
                          else s\<lparr>og_media := insertPath url (pu_uploadPath up) mc\<rparr>)"

definition acknowledged_in :: "timeline_item list \<Rightarrow> qstring list" where
  "acknowledged_in items =
     map ti_transactionId (filter (\<lambda>m. ti_transactionId m \<noteq> [] \<and> isRemoteMediaTimelineItem m) items)"

definition retireAcknowledgedPendingLocalMedia :: "outgoing_env \<Rightarrow> timeline_item list \<Rightarrow> outgoing \<Rightarrow> outgoing \<times> outgoing_call list" where
  "retireAcknowledgedPendingLocalMedia env items s =
     (if og_uploads s = [] then (s, [])
      else let s1 = foldl (\<lambda>t m. adoptUploadedMediaAsResolved env m t) s
                      (filter (\<lambda>m. ti_transactionId m \<noteq> [] \<and> isRemoteMediaTimelineItem m) items)
           in foldl (\<lambda>(t, calls) txid. let (t', more) = removePendingLocalMediaUpload env txid t in (t', calls @ more))
                (s1, []) (remdups (acknowledged_in items)))"

definition resolve_local :: "outgoing_env \<Rightarrow> qstring \<Rightarrow> qstring \<Rightarrow> media_cache \<Rightarrow> media_cache" where
  "resolve_local env url path mc =
     (if \<not> isSendQueueUrl url then mc
      else let (mc1, local) = localPath (oe_media env) url mc
           in if local = [] \<and> path \<noteq> [] then insertPath url path mc1 else mc1)"

text \<open>The first frame of an upload becomes the preview of its video.\<close>

definition hydrate_thumb :: "outgoing_env \<Rightarrow> pending_upload \<Rightarrow> timeline_item \<Rightarrow> media_cache \<Rightarrow> media_cache" where
  "hydrate_thumb env up item mc =
     (if pu_thumbPath up = [] \<or> ti_eventId item = [] then mc
      else let key = ''vidthumb:'' @ ti_eventId item;
               (mc1, preview) = loadImage (oe_media env) key mc;
               mc2 = (if preview = None
                      then let (mc', img) = loadImage (oe_media env) (pu_thumbPath up) mc1
                           in if img \<noteq> None then insertImage (oe_media env) key img mc' else mc'
                      else mc1)
           in resolve_local env (mediaThumbUrl item) (pu_thumbPath up) mc2)"

definition hydrate_one :: "outgoing_env \<Rightarrow> outgoing \<Rightarrow> timeline_item \<Rightarrow> outgoing" where
  "hydrate_one env s item =
     (if \<not> del_outgoing (ti_delivery item) \<or> del_sendState (ti_delivery item) \<noteq> Sending then s
      else case map_of (og_uploads s) (ti_eventId item) of
             None \<Rightarrow> s
           | Some up \<Rightarrow>
               if pu_type up \<noteq> contentType item then s
               else if pu_type up = ContentImage \<or> pu_type up = ContentAudio \<or> pu_type up = ContentFile
               then s\<lparr>og_media := resolve_local env (mediaUrl item) (pu_mediaPath up) (og_media s)\<rparr>
               else if pu_type up = ContentVideo
               then s\<lparr>og_media := resolve_local env (mediaUrl item) (pu_mediaPath up) (hydrate_thumb env up item (og_media s))\<rparr>
               else s)"

definition hydratePendingLocalMedia :: "outgoing_env \<Rightarrow> timeline_item list \<Rightarrow> outgoing \<Rightarrow> outgoing" where
  "hydratePendingLocalMedia env items s = (if og_uploads s = [] then s else foldl (hydrate_one env) s items)"

definition normalizeDormantLocalMediaPlaceholders :: "outgoing \<Rightarrow> timeline_item list \<Rightarrow> timeline_item list" where
  "normalizeDormantLocalMediaPlaceholders s items =
     map (\<lambda>item. if isLocalMediaUploadPlaceholder item \<and> \<not> hash_contains (ti_eventId item) (og_uploads s)
                 then item\<lparr>ti_delivery := (ti_delivery item)\<lparr>del_sendState := Failed, del_uploadProgress := -1\<rparr>\<rparr>
                 else item) items"

text \<open>All of it, in the order of \<open>applyTimelineSlice\<close>: first what gathers the items, then what
  settles the uploads.\<close>

definition gather_slice :: "outgoing_env \<Rightarrow> int \<Rightarrow> timeline_slice \<Rightarrow> outgoing \<Rightarrow> outgoing \<times> timeline_item list \<times> outgoing_call list" where
  "gather_slice env now sl s =
     (let ((s1, items1), calls1) = hide_system env now (s, ts_items sl);
          (s2, items2, calls2) = enrich_senders env s1 items1;
          items3 = (if og_formatted s2 = [] then items2 else map (reapply_formatted (og_formatted s2)) items2);
          (s3, items4) = reinject_echoes (ts_isLive sl) (s2, items3);
          (s4, items5, calls3) = (if og_cancelled s3 = [] then (s3, items4, []) else drop_cancelled s3 items4)
      in (s4, dropTransientOutgoingEmptyTextMessages (oe_isSpace env) (oe_toPlainText env) items5, calls1 @ calls2 @ calls3))"

definition prepare_slice :: "outgoing_env \<Rightarrow> int \<Rightarrow> timeline_slice \<Rightarrow> outgoing \<Rightarrow> outgoing \<times> timeline_slice \<times> outgoing_call list" where
  "prepare_slice env now sl s =
     (let (s1, gathered, calls1) = gather_slice env now sl s;
          items = dropAcknowledgedOutgoingMediaPlaceholders gathered;
          (s2, calls2) = retireAcknowledgedPendingLocalMedia env items s1;
          s3 = hydratePendingLocalMedia env items s2
      in (s3, sl\<lparr>ts_items := normalizeDormantLocalMediaPlaceholders s3 items\<rparr>, calls1 @ calls2))"

end
