(* ===== verification/Outgoing_Events.thy ===== *)
theory Outgoing_Events imports Outgoing_Media begin

section \<open>Sending, cancelling and resending\<close>

text \<open>
  The events of \<open>HistoryWidget\<close> that send messages and files or learn how they fared
  (\<^verbatim>\<open>src/src/history/history_widget.cpp\<close>), and the requests for slices with the guards of
  \<open>applyTimelineSlice\<close>.  Ids of transactions are fresh arguments; compressing an image is a job
  whose end is an event of its own.
\<close>

subsection \<open>Slices\<close>

definition fetch_slice :: "qstring \<Rightarrow> outgoing \<Rightarrow> outgoing \<times> outgoing_call list" where
  "fetch_slice roomId s =
     (s\<lparr>og_latest := og_requests s, og_requests := og_requests s + 1\<rparr>, [GetSlice roomId (og_requests s)])"

definition onTimelineChanged :: "timeline_item list \<Rightarrow> qstring \<Rightarrow> outgoing \<Rightarrow> outgoing \<times> outgoing_call list" where
  "onTimelineChanged shown roomId s =
     (if og_room s = [] \<or> roomId \<noteq> og_room s then (s, [])
      else if \<not> og_baseline s \<or> shown = [] \<or> hasPendingForRoom roomId s \<or> shouldHideSystemMessages s
      then fetch_slice roomId s
      else (s\<lparr>og_latest := og_requests s, og_requests := og_requests s + 1\<rparr>, [GetUpdate roomId (og_requests s)]))"

text \<open>The guards of \<open>applyTimelineSlice\<close>: \<open>None\<close> when the slice is not shown.  \<open>initialScroll\<close> says
  that the entry scroll of this room is still to come.\<close>

definition applyTimelineSlice :: "outgoing_env \<Rightarrow> int \<Rightarrow> timeline_item list \<Rightarrow> bool \<Rightarrow> qstring \<Rightarrow> timeline_slice \<Rightarrow> outgoing \<Rightarrow>
    outgoing \<times> timeline_slice option \<times> outgoing_call list" where
  "applyTimelineSlice env now shown initialScroll roomId sl s =
     (let refetch = (let (s1, calls) = fetch_slice roomId s in (s1, None, calls))
      in if og_room s = [] \<or> roomId \<noteq> og_room s then (s, None, [])
         else if ts_updateKind sl \<noteq> UpdateFull \<and> (\<not> og_baseline s \<or> shown = []) then refetch
         else if ts_updateKind sl = UpdateAppend \<and> ts_updateIndex sl \<noteq> int (length shown) then refetch
         else if ts_updateKind sl = UpdatePrepend \<and> ts_updateIndex sl \<noteq> 0 then refetch
         else if ts_updateKind sl \<noteq> UpdateFull \<and> (og_echoIds s \<noteq> [] \<or> hasPendingForRoom roomId s) then refetch
         else let (s1, sl1, calls) = prepare_slice env now sl s;
                  s2 = (if ts_updateKind sl = UpdateFull \<and> (\<not> initialScroll \<or> ts_items sl1 \<noteq> [])
                        then s1\<lparr>og_baseline := True\<rparr> else s1)
              in (s2, Some sl1, calls))"

definition timelineSliceReady :: "outgoing_env \<Rightarrow> int \<Rightarrow> timeline_item list \<Rightarrow> bool \<Rightarrow> qstring \<Rightarrow> quint64 \<Rightarrow> bool \<Rightarrow> timeline_slice \<Rightarrow>
    outgoing \<Rightarrow> outgoing \<times> timeline_slice option \<times> outgoing_call list" where
  "timelineSliceReady env now shown initialScroll roomId requestId success sl s =
     (if requestId \<noteq> og_latest s \<or> \<not> success \<or> roomId \<noteq> og_room s then (s, None, [])
      else applyTimelineSlice env now shown initialScroll roomId sl s)"

text \<open>What opening a room changes here.\<close>

definition switchRoom :: "qstring \<Rightarrow> bool \<Rightarrow> outgoing \<Rightarrow> outgoing \<times> outgoing_call list" where
  "switchRoom roomId isPublic s =
     fetch_slice roomId (s\<lparr>og_room := roomId, og_baseline := False, og_avatars := [], og_public := isPublic, og_preview := False\<rparr>)"

definition roomMembersReady :: "qstring \<Rightarrow> (qstring \<times> qstring) list \<Rightarrow> outgoing \<Rightarrow> outgoing" where
  "roomMembersReady roomId members s =
     (if roomId \<noteq> og_room s then s
      else s\<lparr>og_avatars := foldl (\<lambda>h (user, url). if user \<noteq> [] \<and> url \<noteq> [] then hash_insert user url h else h) [] members\<rparr>)"

subsection \<open>Text\<close>

definition text_echo :: "outgoing_env \<Rightarrow> int \<Rightarrow> qstring \<Rightarrow> qstring \<Rightarrow> qstring \<Rightarrow> qstring \<Rightarrow> timeline_item" where
  "text_echo env now eventId body formatted replyTo =
     default_timeline_item\<lparr>ti_eventId := eventId,
       ti_sender := \<lparr> snd_id = (if oe_userId env \<noteq> [] then oe_userId env else ''@me:local''),
                     snd_name = (if oe_displayName env \<noteq> [] then oe_displayName env else ''Me''), snd_avatarUrl = oe_avatarUrl env \<rparr>,
       ti_content := TextContent \<lparr> txt_body = body, txt_formattedBody = formatted \<rparr>,
       ti_reply := (if replyTo = [] then None
                    else Some \<lparr> rep_eventId = replyTo, rep_senderName = [], rep_text = [], rep_thumbUrl = [], rep_hasThumb = False,
                                rep_isTextColorized = False, rep_isDeleted = False, rep_isUnavailable = False \<rparr>),
       ti_timestamp := now,
       ti_delivery := \<lparr> del_sendState = Sending, del_uploadProgress = -1, del_outgoing = True, del_deleted = False \<rparr>\<rparr>"

definition onSendMessage :: "outgoing_env \<Rightarrow> int \<Rightarrow> qstring \<Rightarrow> qstring \<Rightarrow> qstring \<Rightarrow> outgoing \<Rightarrow> outgoing \<times> outgoing_call list" where
  "onSendMessage env now body formatted replyTo s =
     (if og_room s = [] \<or> body = [] then (s, [])
      else let requestId = og_nextSend s; eventId = ''local-'' @ oe_number env requestId
           in (s\<lparr>og_nextSend := requestId + 1,
                 og_formatted := (if formatted \<noteq> [] then hash_insert eventId formatted (og_formatted s) else og_formatted s),
                 og_echoIds := hash_insert requestId eventId (og_echoIds s)\<rparr>,
               [ListAppend (text_echo env now eventId body formatted replyTo),
                SendText (og_room s) body formatted replyTo (Some requestId)]))"

definition messageSent :: "quint64 \<Rightarrow> bool \<Rightarrow> qstring \<Rightarrow> outgoing \<Rightarrow> outgoing \<times> outgoing_call list" where
  "messageSent requestId success eventId s =
     (let localId = hash_value [] requestId (og_echoIds s);
          s1 = s\<lparr>og_echoIds := hash_remove requestId (og_echoIds s)\<rparr>
      in if localId = [] then (s1, [])
         else if success
         then (if eventId = [] then (s1, [])
               else case map_of (og_formatted s1) localId of
                      None \<Rightarrow> (s1, [])
                    | Some body \<Rightarrow> (s1\<lparr>og_formatted := hash_remove localId (hash_insert eventId body (og_formatted s1))\<rparr>, []))
         else (s1, [ListSendState localId Failed, ShowToast]))"

subsection \<open>Files\<close>

definition local_mxc :: "qstring \<Rightarrow> qstring" where
  "local_mxc txid = ''mxc://send-queue.localhost/optimistic-'' @ txid"

text \<open>The thumbnail file of a video, given as its path and whether it could be saved.\<close>

definition echo_thumb :: "outgoing_env \<Rightarrow> prepared_file \<Rightarrow> qstring \<times> bool \<Rightarrow> qstring \<times> outgoing_call list" where
  "echo_thumb env file thumb =
     (if pf_kind file \<noteq> PreparedVideo \<or> pf_preview file = None then ([], [])
      else if fst thumb = [] \<or> \<not> snd thumb then ([], removeUploadVideoThumb env (fst thumb))
      else (fst thumb, []))"

definition echo_media :: "prepared_file \<Rightarrow> qstring \<Rightarrow> qstring \<Rightarrow> qstring \<Rightarrow> timeline_media_content" where
  "echo_media file caption txid thumbPath =
     \<lparr> med_body = [], med_url = local_mxc txid,
       med_mime = (if pf_kind file = PreparedOther \<and> pf_mime file = [] then ''application/octet-stream'' else pf_mime file),
       med_filename = pf_filename file, med_caption = caption,
       med_thumbUrl = (if thumbPath \<noteq> [] then local_mxc txid @ ''-thumb'' else []), med_blurhash = [],
       med_size = pf_size file, med_width = max 0 (pf_width file), med_height = max 0 (pf_height file),
       med_durationMs = (if pf_kind file = PreparedVideo then of_int (max 0 (pf_durationMs file)) else 0) \<rparr>"

definition echo_type :: "prepared_kind \<Rightarrow> content_type" where
  "echo_type k = (case k of PreparedImage \<Rightarrow> ContentImage | PreparedVideo \<Rightarrow> ContentVideo | PreparedOther \<Rightarrow> ContentFile)"

definition media_echo :: "outgoing_env \<Rightarrow> int \<Rightarrow> prepared_file \<Rightarrow> qstring \<Rightarrow> timeline_media_content \<Rightarrow> timeline_item" where
  "media_echo env now file txid md =
     default_timeline_item\<lparr>ti_eventId := txid, ti_transactionId := txid,
       ti_sender := \<lparr> snd_id = oe_userId env,
                     snd_name = (if oe_displayName env = [] then ''Me'' else oe_displayName env), snd_avatarUrl = oe_avatarUrl env \<rparr>,
       ti_timestamp := now,
       ti_delivery := \<lparr> del_sendState = Sending, del_uploadProgress = -1, del_outgoing = True, del_deleted = False \<rparr>,
       ti_content := (case pf_kind file of PreparedImage \<Rightarrow> ImageContent md | PreparedVideo \<Rightarrow> VideoContent md
                        | PreparedOther \<Rightarrow> FileContent md)\<rparr>"

definition appendOptimisticMediaEcho :: "outgoing_env \<Rightarrow> int \<Rightarrow> prepared_file \<Rightarrow> qstring \<Rightarrow> qstring \<Rightarrow> qstring \<times> bool \<Rightarrow>
    outgoing \<Rightarrow> outgoing \<times> outgoing_call list" where
  "appendOptimisticMediaEcho env now file caption txid thumb s =
     (if og_room s = [] then (s, [])
      else let (thumbPath, calls) = echo_thumb env file thumb;
               md = echo_media file caption txid thumbPath;
               media = (if pf_kind file = PreparedImage then insertImage (oe_media env) (local_mxc txid) (pf_preview file) (og_media s)
                        else if thumbPath \<noteq> [] then insertImage (oe_media env) (med_thumbUrl md) (pf_preview file) (og_media s)
                        else og_media s);
               echo = media_echo env now file txid md;
               up = \<lparr> pu_type = echo_type (pf_kind file), pu_mediaPath = pf_path file, pu_uploadPath = pf_path file,
                      pu_thumbPath = thumbPath, pu_roomId = og_room s, pu_mime = med_mime md, pu_filename = pf_filename file,
                      pu_caption = caption, pu_size = med_size md, pu_width = med_width md, pu_height = med_height md,
                      pu_durationMs = med_durationMs md \<rparr>
           in (s\<lparr>og_media := media, og_echoes := hash_insert txid echo (og_echoes s), og_uploads := hash_insert txid up (og_uploads s)\<rparr>,
               calls @ [ListAppend echo]))"

definition sendPreparedMedia :: "outgoing_env \<Rightarrow> prepared_file \<Rightarrow> qstring \<Rightarrow> qstring \<Rightarrow> qstring \<Rightarrow> outgoing \<Rightarrow> outgoing \<times> outgoing_call list" where
  "sendPreparedMedia env file sendPath caption txid s =
     (if og_room s = [] \<or> sendPath = [] then (s, [])
      else case pf_kind file of
             PreparedImage \<Rightarrow>
               let (mime, fileSize, w, h) = oe_imageInfo env sendPath
               in (setUploadPath txid sendPath s,
                   [SendMedia \<lparr> sm_roomId = og_room s, sm_type = ContentImage, sm_url = sendPath, sm_mime = mime,
                      sm_filename = pf_filename file, sm_caption = caption, sm_thumbUrl = [], sm_size = fileSize,
                      sm_width = w, sm_height = h, sm_durationMs = 0, sm_transactionId = txid \<rparr>])
           | PreparedVideo \<Rightarrow>
               (s, [SendMedia \<lparr> sm_roomId = og_room s, sm_type = ContentVideo, sm_url = pf_path file, sm_mime = pf_mime file,
                      sm_filename = pf_filename file, sm_caption = caption,
                      sm_thumbUrl = (case map_of (og_uploads s) txid of None \<Rightarrow> [] | Some up \<Rightarrow> pu_thumbPath up),
                      sm_size = oe_fileSize env sendPath, sm_width = max 0 (pf_width file), sm_height = max 0 (pf_height file),
                      sm_durationMs = of_int (max 0 (pf_durationMs file)), sm_transactionId = txid \<rparr>])
           | PreparedOther \<Rightarrow>
               (s, [SendMedia \<lparr> sm_roomId = og_room s, sm_type = ContentFile, sm_url = sendPath,
                      sm_mime = (if pf_mime file = [] then ''application/octet-stream'' else pf_mime file),
                      sm_filename = pf_filename file, sm_caption = caption, sm_thumbUrl = [],
                      sm_size = oe_fileSize env sendPath, sm_width = 0, sm_height = 0, sm_durationMs = 0, sm_transactionId = txid \<rparr>]))"

text \<open>With \<open>compress\<close> an image waits for its recompression; the others are sent at once.\<close>

definition sendPreparedFile :: "outgoing_env \<Rightarrow> int \<Rightarrow> prepared_file \<Rightarrow> qstring \<Rightarrow> bool \<Rightarrow> qstring \<Rightarrow> qstring \<times> bool \<Rightarrow>
    outgoing \<Rightarrow> outgoing \<times> outgoing_call list" where
  "sendPreparedFile env now file caption compress txid thumb s =
     (let (s1, calls) = appendOptimisticMediaEcho env now file caption txid thumb s
      in if compress \<and> pf_kind file = PreparedImage then (s1, calls)
         else let (s2, more) = sendPreparedMedia env file (pf_path file) caption txid s1 in (s2, calls @ more))"

definition compressionDone :: "outgoing_env \<Rightarrow> qstring \<Rightarrow> prepared_file \<Rightarrow> qstring \<Rightarrow> qstring \<Rightarrow> qstring \<Rightarrow> outgoing \<Rightarrow> outgoing \<times> outgoing_call list" where
  "compressionDone env roomId file sendPath caption txid s =
     (if og_room s \<noteq> roomId then (s, removeUploadCompressedImage env sendPath)
      else sendPreparedMedia env file sendPath caption txid s)"

text \<open>The files of the dialog that the server takes, with the transaction ids and thumbnails made
  for them.\<close>

definition sendDialogFiles :: "outgoing_env \<Rightarrow> int \<Rightarrow> quint64 \<Rightarrow> (prepared_file \<times> qstring \<times> qstring \<times> bool) list \<Rightarrow> qstring \<Rightarrow> bool \<Rightarrow>
    outgoing \<Rightarrow> outgoing \<times> outgoing_call list" where
  "sendDialogFiles env now maxUpload files caption compress s =
     (let sendable = filter (\<lambda>(file, _). \<not> (0 < maxUpload \<and> maxUpload < pf_size file)) files;
          toasts = map (\<lambda>_. ShowToast) (filter (\<lambda>(file, _). 0 < maxUpload \<and> maxUpload < pf_size file) files);
          multiWithCaption = (1 < length sendable \<and> caption \<noteq> [])
      in if sendable = [] then (s, toasts)
         else foldl (\<lambda>(t, calls) (file, txid, thumb).
                let (t', more) = sendPreparedFile env now file (if multiWithCaption then [] else caption) compress txid thumb t
                in (t', calls @ more))
              (s, toasts @ (if multiWithCaption then [SendText (og_room s) caption [] [] None] else [])) sendable)"

definition voiceRecorded :: "outgoing_env \<Rightarrow> qstring \<Rightarrow> quint64 \<Rightarrow> qstring \<Rightarrow> outgoing \<Rightarrow> outgoing \<times> outgoing_call list" where
  "voiceRecorded env path durationMs txid s =
     (if og_room s = [] \<or> path = [] then (s, [RemoveFile path])
      else (s\<lparr>og_uploads := hash_insert txid
                (default_upload\<lparr>pu_type := ContentAudio, pu_mediaPath := path, pu_uploadPath := path\<rparr>) (og_uploads s)\<rparr>,
            [SendMedia \<lparr> sm_roomId = og_room s, sm_type = ContentAudio, sm_url = path, sm_mime = ''audio/wav'',
               sm_filename = ''voice-message.wav'', sm_caption = [], sm_thumbUrl = [], sm_size = oe_fileSize env path,
               sm_width = 0, sm_height = 0, sm_durationMs = durationMs, sm_transactionId = txid \<rparr>]))"

subsection \<open>Results, resending, cancelling\<close>

definition set_echo :: "qstring \<Rightarrow> send_state \<Rightarrow> real \<Rightarrow> outgoing \<Rightarrow> outgoing" where
  "set_echo txid state progress s =
     (case map_of (og_echoes s) txid of
        None \<Rightarrow> s
      | Some echo \<Rightarrow> s\<lparr>og_echoes := hash_insert txid
            (echo\<lparr>ti_delivery := (ti_delivery echo)\<lparr>del_sendState := state, del_uploadProgress := progress\<rparr>\<rparr>) (og_echoes s)\<rparr>)"

definition mediaSent :: "bool \<Rightarrow> qstring \<Rightarrow> outgoing \<Rightarrow> outgoing \<times> outgoing_call list" where
  "mediaSent success eventId s =
     (if success then (s, []) else (set_echo eventId Failed (-1) s, [ListSendState eventId Failed, ShowToast]))"

definition uploadProgress :: "qstring \<Rightarrow> quint64 \<Rightarrow> quint64 \<Rightarrow> outgoing \<Rightarrow> outgoing \<times> outgoing_call list" where
  "uploadProgress txid current whole s =
     (let progress = (if 0 < whole then real (unat current) / real (unat whole) else 0)
      in (case map_of (og_echoes s) txid of
            None \<Rightarrow> s
          | Some echo \<Rightarrow> set_echo txid (del_sendState (ti_delivery echo)) progress s,
          [ListProgress txid progress]))"

definition resend_call :: "qstring \<Rightarrow> qstring \<Rightarrow> pending_upload \<Rightarrow> outgoing_call" where
  "resend_call roomId txid up =
     SendMedia \<lparr> sm_roomId = roomId, sm_type = pu_type up, sm_url = pu_mediaPath up, sm_mime = pu_mime up,
       sm_filename = pu_filename up, sm_caption = pu_caption up, sm_thumbUrl = pu_thumbPath up, sm_size = pu_size up,
       sm_width = pu_width up, sm_height = pu_height up, sm_durationMs = pu_durationMs up, sm_transactionId = txid \<rparr>"

definition resend_one :: "outgoing \<times> outgoing_call list \<Rightarrow> qstring \<Rightarrow> outgoing \<times> outgoing_call list" where
  "resend_one x txid =
     (let (s, calls) = x
      in case map_of (og_echoes s) txid of
           None \<Rightarrow> (s, calls)
         | Some echo \<Rightarrow>
             if del_sendState (ti_delivery echo) \<noteq> Failed then (s, calls)
             else case map_of (og_uploads s) txid of
                    None \<Rightarrow> (s, calls)
                  | Some up \<Rightarrow>
                      (setUploadPath txid (pu_mediaPath up) (set_echo txid Sending (-1) s),
                       calls @ [ListSendState txid Sending, ListProgress txid (-1), resend_call (pu_roomId up) txid up]))"

definition resendFailedUploads :: "outgoing \<Rightarrow> outgoing \<times> outgoing_call list" where
  "resendFailedUploads s = (if og_echoes s = [] then (s, []) else foldl resend_one (s, []) (map fst (og_echoes s)))"

definition onNetworkOnlineChanged :: "bool \<Rightarrow> outgoing \<Rightarrow> outgoing \<times> outgoing_call list" where
  "onNetworkOnlineChanged online s = (if online then resendFailedUploads s else (s, []))"

definition shown_failed :: "timeline_item list \<Rightarrow> qstring \<Rightarrow> timeline_item option" where
  "shown_failed shown eventId = find (\<lambda>m. ti_eventId m = eventId \<and> del_sendState (ti_delivery m) = Failed) shown"

definition resendRequested :: "outgoing_env \<Rightarrow> int \<Rightarrow> timeline_item list \<Rightarrow> qstring \<Rightarrow> outgoing \<Rightarrow> outgoing \<times> outgoing_call list" where
  "resendRequested env now shown eventId s =
     (if og_room s = [] \<or> eventId = [] then (s, [])
      else case shown_failed shown eventId of
             None \<Rightarrow> (s, [])
           | Some msg \<Rightarrow>
               if \<not> isTextMessage msg
               then (case map_of (og_uploads s) eventId of
                       None \<Rightarrow> (s, [ShowToast])
                     | Some up \<Rightarrow>
                         (setUploadPath eventId (pu_mediaPath up) (set_echo eventId Sending (-1) s),
                          [ListSendState eventId Sending, ListProgress eventId (-1), resend_call (og_room s) eventId up]))
               else if isLocalOnlyFailedTextEcho msg
               then let (s1, calls) = onSendMessage env now (bodyText msg) (formattedText msg) (replyEventId msg)
                          (s\<lparr>og_formatted := hash_remove eventId (og_formatted s)\<rparr>)
                    in (s1, ListRemove eventId # calls)
               else (s, [DeleteMessage (og_room s) eventId,
                         SendText (og_room s) (bodyText msg) (formattedText msg) (replyEventId msg) None]))"

definition isUploadInFlight :: "timeline_item list \<Rightarrow> qstring \<Rightarrow> outgoing \<Rightarrow> bool" where
  "isUploadInFlight shown eventId s =
     (if eventId = [] \<or> \<not> hash_contains eventId (og_uploads s) then False
      else case find (\<lambda>m. ti_eventId m = eventId) shown of
             None \<Rightarrow> False
           | Some m \<Rightarrow> del_outgoing (ti_delivery m) \<and> del_sendState (ti_delivery m) = Sending)"

definition cancelUploadForEvent :: "outgoing_env \<Rightarrow> qstring \<Rightarrow> outgoing \<Rightarrow> outgoing \<times> outgoing_call list" where
  "cancelUploadForEvent env eventId s =
     (if og_room s = [] \<or> eventId = [] then (s, [])
      else let (s1, calls) = removePendingLocalMediaUpload env eventId
                 (s\<lparr>og_cancelled := eventId # og_cancelled s, og_echoes := hash_remove eventId (og_echoes s)\<rparr>)
           in (s1, [ListRemove eventId, CancelUpload (og_room s) eventId] @ calls))"

text \<open>\<open>confirmed\<close> is the answer of the dialog.\<close>

definition deleteMessageRequested :: "outgoing_env \<Rightarrow> timeline_item list \<Rightarrow> qstring \<Rightarrow> bool \<Rightarrow> outgoing \<Rightarrow> outgoing \<times> outgoing_call list" where
  "deleteMessageRequested env shown eventId confirmed s =
     (if og_room s = [] \<or> eventId = [] then (s, [])
      else case shown_failed shown eventId of
             Some msg \<Rightarrow>
               if isLocalOnlyFailedTextEcho msg \<or> hash_contains eventId (og_uploads s)
               then let (s1, calls) = removePendingLocalMediaUpload env eventId
                          (s\<lparr>og_formatted := hash_remove eventId (og_formatted s)\<rparr>)
                    in (s1, ListRemove eventId # calls)
               else (s, [ListMarkDeleting eventId, DeleteMessage (og_room s) eventId])
           | None \<Rightarrow>
               let uploading = isUploadInFlight shown eventId s
               in if \<not> confirmed then (s, [])
                  else if uploading then cancelUploadForEvent env eventId s
                  else (s, [ListMarkDeleting eventId, DeleteMessage (og_room s) eventId]))"

subsection \<open>All events\<close>

datatype outgoing_event =
  SliceReady int "timeline_item list" bool qstring quint64 bool timeline_slice
| TimelineChanged "timeline_item list" qstring
| SwitchRoom qstring bool
| RoomMembersReady qstring "(qstring \<times> qstring) list"
| SendMessage int qstring qstring qstring
| MessageSent quint64 bool qstring
| SendFiles int quint64 "(prepared_file \<times> qstring \<times> qstring \<times> bool) list" qstring bool
| CompressionDone qstring prepared_file qstring qstring qstring
| VoiceRecorded qstring quint64 qstring
| MediaSent bool qstring
| UploadProgress qstring quint64 quint64
| NetworkOnline bool
| ResendRequested int "timeline_item list" qstring
| DeleteRequested "timeline_item list" qstring bool

text \<open>The new state, the slice the list is given, and the calls.\<close>

fun outgoing_call_of :: "outgoing_env \<Rightarrow> outgoing \<Rightarrow> outgoing_event \<Rightarrow> outgoing \<times> timeline_slice option \<times> outgoing_call list" where
  "outgoing_call_of env s (SliceReady now shown initial roomId requestId success sl) =
     timelineSliceReady env now shown initial roomId requestId success sl s"
| "outgoing_call_of env s (TimelineChanged shown roomId) = (let (t, calls) = onTimelineChanged shown roomId s in (t, None, calls))"
| "outgoing_call_of env s (SwitchRoom roomId isPublic) = (let (t, calls) = switchRoom roomId isPublic s in (t, None, calls))"
| "outgoing_call_of env s (RoomMembersReady roomId members) = (roomMembersReady roomId members s, None, [])"
| "outgoing_call_of env s (SendMessage now body formatted replyTo) = (let (t, calls) = onSendMessage env now body formatted replyTo s in (t, None, calls))"
| "outgoing_call_of env s (MessageSent requestId success eventId) = (let (t, calls) = messageSent requestId success eventId s in (t, None, calls))"
| "outgoing_call_of env s (SendFiles now maxUpload files caption compress) =
     (let (t, calls) = sendDialogFiles env now maxUpload files caption compress s in (t, None, calls))"
| "outgoing_call_of env s (CompressionDone roomId file sendPath caption txid) =
     (let (t, calls) = compressionDone env roomId file sendPath caption txid s in (t, None, calls))"
| "outgoing_call_of env s (VoiceRecorded path durationMs txid) = (let (t, calls) = voiceRecorded env path durationMs txid s in (t, None, calls))"
| "outgoing_call_of env s (MediaSent success eventId) = (let (t, calls) = mediaSent success eventId s in (t, None, calls))"
| "outgoing_call_of env s (UploadProgress txid current whole) = (let (t, calls) = uploadProgress txid current whole s in (t, None, calls))"
| "outgoing_call_of env s (NetworkOnline online) = (let (t, calls) = onNetworkOnlineChanged online s in (t, None, calls))"
| "outgoing_call_of env s (ResendRequested now shown eventId) = (let (t, calls) = resendRequested env now shown eventId s in (t, None, calls))"
| "outgoing_call_of env s (DeleteRequested shown eventId confirmed) =
     (let (t, calls) = deleteMessageRequested env shown eventId confirmed s in (t, None, calls))"

definition outgoing_step :: "outgoing_env \<Rightarrow> outgoing \<Rightarrow> outgoing_event \<Rightarrow> outgoing" where
  "outgoing_step env s e = fst (outgoing_call_of env s e)"

definition outgoing_start :: "qstring \<Rightarrow> bool \<Rightarrow> outgoing" where
  "outgoing_start saved hideSystem =
     \<lparr> og_room = [], og_uploads = [], og_echoes = [], og_cancelled = [], og_redispatched = [], og_formatted = [], og_avatars = [],
       og_echoIds = [], og_nextSend = 1, og_requests = 1, og_latest = 0, og_baseline = False, og_savedRoom = saved,
       og_hideSystem = hideSystem, og_public = False, og_preview = False, og_media = initial_media_cache \<rparr>"

definition outgoing_run :: "outgoing_env \<Rightarrow> outgoing \<Rightarrow> outgoing_event list \<Rightarrow> outgoing" where
  "outgoing_run env s events = foldl (outgoing_step env) s events"

end
