(* ===== verification/Outgoing_Properties.thy ===== *)
theory Outgoing_Properties imports Outgoing_Events begin

section \<open>Properties of uploads\<close>

text \<open>
  An invariant of the uploads and their echoes over all events, and what follows from it: the
  bubble of an upload stays until its message arrives, a cancelled upload never comes back, what
  is acknowledged is not sent again, and going online sends every failed upload again.  The last
  section holds the cases in which the code loses or hides an upload.
\<close>

subsection \<open>The invariant\<close>

text \<open>An echo is the outgoing media message of its transaction, and its upload can be looked up.\<close>

definition echo_ok :: "qstring \<Rightarrow> timeline_item \<Rightarrow> bool" where
  "echo_ok txid echo \<longleftrightarrow> ti_eventId echo = txid \<and> ti_transactionId echo = txid \<and> del_outgoing (ti_delivery echo)
     \<and> \<not> isTextMessage echo"

definition outgoing_ok :: "outgoing \<Rightarrow> bool" where
  "outgoing_ok s \<longleftrightarrow> hash_ok (og_echoes s) \<and> hash_ok (og_uploads s)
     \<and> (\<forall>(txid, echo) \<in> set (og_echoes s). echo_ok txid echo \<and> hash_contains txid (og_uploads s))
     \<and> [] \<notin> set (og_cancelled s)"

text \<open>What the steps leave alone.\<close>

definition same_uploads :: "outgoing \<Rightarrow> outgoing \<Rightarrow> bool" where
  "same_uploads s t \<longleftrightarrow> og_room t = og_room s \<and> og_uploads t = og_uploads s \<and> og_cancelled t = og_cancelled s"

lemma same_uploads_refl [simp]: "same_uploads s s"
  by (simp add: same_uploads_def)

lemma same_uploads_trans: "same_uploads s t \<Longrightarrow> same_uploads t u \<Longrightarrow> same_uploads s u"
  by (simp add: same_uploads_def)

lemma hide_system_same:
  "same_uploads s (fst (fst (hide_system env now (s, items)))) \<and> og_echoes (fst (fst (hide_system env now (s, items)))) = og_echoes s"
  by (simp add: hide_system_def same_uploads_def Let_def split: prod.split)

lemma enrich_same:
  "same_uploads s (fst (enrich_senders env s items)) \<and> og_echoes (fst (enrich_senders env s items)) = og_echoes s"
proof (induction items arbitrary: s)
  case (Cons m ms)
  define m1 where "m1 = applySenderAvatarFallback (og_avatars s) (oe_avatarUrl env) m"
  define s1 where "s1 = (if snd_id (ti_sender m1) \<noteq> [] \<and> snd_avatarUrl (ti_sender m1) \<noteq> []
      then s\<lparr>og_avatars := hash_insert (snd_id (ti_sender m1)) (snd_avatarUrl (ti_sender m1)) (og_avatars s)\<rparr> else s)"
  have "same_uploads s s1 \<and> og_echoes s1 = og_echoes s" by (simp add: s1_def same_uploads_def)
  moreover have "fst (enrich_senders env s (m # ms)) = fst (enrich_senders env s1 ms)"
    by (simp add: Let_def m1_def s1_def split: prod.split)
  ultimately show ?case using Cons.IH [of s1] same_uploads_trans by auto
qed simp

lemma reinject_spec:
  "set (snd (reinject s items es)) \<subseteq> set es \<and> (hash_ok es \<longrightarrow> hash_ok (snd (reinject s items es)))
   \<and> set items \<subseteq> set (fst (reinject s items es))
   \<and> set (fst (reinject s items es)) \<subseteq> set items \<union> snd ` set es"
proof (induction es arbitrary: items)
  case (Cons e es)
  define items1 where "items1 = fst (reinject_one s items e)"
  have one: "set items \<subseteq> set items1 \<and> set items1 \<subseteq> set items \<union> {snd e}"
    by (auto simp: items1_def reinject_one_def split: option.splits)
  have keys: "fst ` set (snd (reinject s items1 es)) \<subseteq> fst ` set es" using Cons.IH [of items1] by blast
  show ?case
    using Cons.IH [of items1] one keys
    by (auto simp: items1_def hash_ok_def split: prod.splits dest: subsetD)
qed simp

lemma reinject_ok:
  assumes "outgoing_ok s"
  shows "outgoing_ok (fst (reinject_echoes isLive (s, items))) \<and> same_uploads s (fst (reinject_echoes isLive (s, items)))"
  using assms reinject_spec [of s items "og_echoes s"]
  by (auto simp: reinject_echoes_def outgoing_ok_def same_uploads_def split: prod.split)

lemma drop_cancelled_same:
  "same_uploads s (fst (drop_cancelled s items)) \<and> og_echoes (fst (drop_cancelled s items)) = og_echoes s"
proof (induction s items rule: drop_cancelled.induct)
  case (2 s m ms)
  then show ?case by (auto simp: Let_def same_uploads_def split: prod.splits)
qed simp

lemma outgoing_ok_cong:
  "same_uploads s t \<Longrightarrow> og_echoes t = og_echoes s \<Longrightarrow> outgoing_ok s \<Longrightarrow> outgoing_ok t"
  by (simp add: outgoing_ok_def same_uploads_def)

lemma gather_ok:
  assumes "outgoing_ok s"
  shows "outgoing_ok (fst (gather_slice env now sl s)) \<and> same_uploads s (fst (gather_slice env now sl s))"
proof -
  obtain s1 items1 calls1 where 1: "hide_system env now (s, ts_items sl) = ((s1, items1), calls1)" by (metis prod.exhaust)
  obtain s2 items2 calls2 where 2: "enrich_senders env s1 items1 = (s2, items2, calls2)" by (metis prod.exhaust)
  define items3 where "items3 = (if og_formatted s2 = [] then items2 else map (reapply_formatted (og_formatted s2)) items2)"
  obtain s3 items4 where 3: "reinject_echoes (ts_isLive sl) (s2, items3) = (s3, items4)" by fastforce
  obtain s4 items5 calls3 where 4: "(if og_cancelled s3 = [] then (s3, items4, []) else drop_cancelled s3 items4) = (s4, items5, calls3)"
    by (metis prod.exhaust)
  have s1: "outgoing_ok s1 \<and> same_uploads s s1"
    using hide_system_same [of s env now "ts_items sl"] 1 assms by (auto intro: outgoing_ok_cong)
  have s2: "outgoing_ok s2 \<and> same_uploads s s2"
    using enrich_same [of s1 env items1] 2 s1 by (auto intro: outgoing_ok_cong same_uploads_trans)
  have s3: "outgoing_ok s3 \<and> same_uploads s s3"
    using reinject_ok [of s2 "ts_isLive sl" items3] 3 s2 by (auto intro: same_uploads_trans)
  have "outgoing_ok s4 \<and> same_uploads s s4"
    using drop_cancelled_same [of s3 items4] 4 s3 by (auto intro: outgoing_ok_cong same_uploads_trans split: if_splits)
  then show ?thesis by (simp add: gather_slice_def Let_def 1 2 items3_def [symmetric] 3 4)
qed

text \<open>Retiring an upload removes it with its echo; the media cache aside nothing else changes.\<close>

lemma remove_upload_ok:
  "outgoing_ok s \<Longrightarrow> outgoing_ok (fst (removePendingLocalMediaUpload env txid s))"
  by (auto simp: outgoing_ok_def removePendingLocalMediaUpload_def set_hash_remove hash_contains_def hash_simps)

lemma remove_upload_simps [simp]:
  "og_uploads (fst (removePendingLocalMediaUpload env txid s)) = hash_remove txid (og_uploads s)"
  "og_echoes (fst (removePendingLocalMediaUpload env txid s)) = hash_remove txid (og_echoes s)"
  "og_room (fst (removePendingLocalMediaUpload env txid s)) = og_room s"
  "og_cancelled (fst (removePendingLocalMediaUpload env txid s)) = og_cancelled s"
  by (simp_all add: removePendingLocalMediaUpload_def)

lemma adopt_simps [simp]:
  "og_uploads (adoptUploadedMediaAsResolved env item s) = og_uploads s"
  "og_echoes (adoptUploadedMediaAsResolved env item s) = og_echoes s"
  "og_room (adoptUploadedMediaAsResolved env item s) = og_room s"
  "og_cancelled (adoptUploadedMediaAsResolved env item s) = og_cancelled s"
  by (simp_all add: adoptUploadedMediaAsResolved_def Let_def split: option.split prod.split)

lemma adopt_all_simps:
  "og_uploads (foldl (\<lambda>t m. adoptUploadedMediaAsResolved env m t) s ms) = og_uploads s
   \<and> og_echoes (foldl (\<lambda>t m. adoptUploadedMediaAsResolved env m t) s ms) = og_echoes s
   \<and> og_room (foldl (\<lambda>t m. adoptUploadedMediaAsResolved env m t) s ms) = og_room s
   \<and> og_cancelled (foldl (\<lambda>t m. adoptUploadedMediaAsResolved env m t) s ms) = og_cancelled s"
  by (induction ms arbitrary: s) simp_all

definition retire_all :: "outgoing_env \<Rightarrow> outgoing \<Rightarrow> qstring list \<Rightarrow> outgoing" where
  "retire_all env s txids =
     fst (foldl (\<lambda>(t, calls) txid. let (t', more) = removePendingLocalMediaUpload env txid t in (t', calls @ more)) (s, []) txids)"

lemma retire_all_spec:
  "map_of (og_uploads (retire_all env s txids)) k = (if k \<in> set txids then None else map_of (og_uploads s) k)
   \<and> map_of (og_echoes (retire_all env s txids)) k = (if k \<in> set txids then None else map_of (og_echoes s) k)
   \<and> og_room (retire_all env s txids) = og_room s \<and> og_cancelled (retire_all env s txids) = og_cancelled s
   \<and> (outgoing_ok s \<longrightarrow> outgoing_ok (retire_all env s txids))"
proof (induction txids rule: rev_induct)
  case (snoc txid txids)
  have "retire_all env s (txids @ [txid]) = fst (removePendingLocalMediaUpload env txid (retire_all env s txids))"
    by (simp add: retire_all_def Let_def split_beta)
  then show ?case using snoc by (auto simp: remove_upload_ok hash_simps)
qed (simp add: retire_all_def)

lemma retire_spec:
  assumes "t = fst (retireAcknowledgedPendingLocalMedia env items s)"
  shows "map_of (og_uploads t) k = (if k \<in> set (acknowledged_in items) then None else map_of (og_uploads s) k)
    \<and> (og_uploads s \<noteq> [] \<longrightarrow> map_of (og_echoes t) k = (if k \<in> set (acknowledged_in items) then None else map_of (og_echoes s) k))
    \<and> (og_uploads s = [] \<longrightarrow> t = s)
    \<and> og_room t = og_room s \<and> og_cancelled t = og_cancelled s \<and> (outgoing_ok s \<longrightarrow> outgoing_ok t)"
proof (cases "og_uploads s = []")
  case True
  then show ?thesis by (simp add: assms retireAcknowledgedPendingLocalMedia_def)
next
  case False
  define s1 where "s1 = foldl (\<lambda>t m. adoptUploadedMediaAsResolved env m t) s
      (filter (\<lambda>m. ti_transactionId m \<noteq> [] \<and> isRemoteMediaTimelineItem m) items)"
  have s1: "og_uploads s1 = og_uploads s" "og_echoes s1 = og_echoes s" "og_room s1 = og_room s" "og_cancelled s1 = og_cancelled s"
    using adopt_all_simps [of env s] unfolding s1_def by blast+
  have t: "t = retire_all env s1 (remdups (acknowledged_in items))"
    using False unfolding assms retireAcknowledgedPendingLocalMedia_def Let_def s1_def [symmetric] retire_all_def by simp
  show ?thesis
    using retire_all_spec [of env s1 "remdups (acknowledged_in items)" k] s1 False
    by (auto simp: t outgoing_ok_def)
qed

lemma hydrate_one_same: "same_uploads s (hydrate_one env s m) \<and> og_echoes (hydrate_one env s m) = og_echoes s"
  by (simp add: hydrate_one_def same_uploads_def split: option.split)

lemma hydrate_same: "same_uploads s (hydratePendingLocalMedia env items s) \<and> og_echoes (hydratePendingLocalMedia env items s) = og_echoes s"
proof -
  have "same_uploads s (foldl (hydrate_one env) s items) \<and> og_echoes (foldl (hydrate_one env) s items) = og_echoes s"
    using foldl_keeps [of "\<lambda>t. same_uploads s t \<and> og_echoes t = og_echoes s" s "hydrate_one env" items] hydrate_one_same
    by (metis same_uploads_refl same_uploads_trans)
  then show ?thesis by (simp add: hydratePendingLocalMedia_def)
qed

lemma prepare_ok:
  assumes "outgoing_ok s"
  shows "outgoing_ok (fst (prepare_slice env now sl s)) \<and> og_room (fst (prepare_slice env now sl s)) = og_room s
    \<and> og_cancelled (fst (prepare_slice env now sl s)) = og_cancelled s"
proof -
  obtain s1 gathered calls where 1: "gather_slice env now sl s = (s1, gathered, calls)" by (metis prod.exhaust)
  define items where "items = dropAcknowledgedOutgoingMediaPlaceholders gathered"
  obtain s2 calls2 where 2: "retireAcknowledgedPendingLocalMedia env items s1 = (s2, calls2)" by fastforce
  have s1: "outgoing_ok s1 \<and> same_uploads s s1" using gather_ok [OF assms, of env now sl] 1 by simp
  have s2: "outgoing_ok s2 \<and> og_room s2 = og_room s \<and> og_cancelled s2 = og_cancelled s"
    using retire_spec [of s2 env items s1] 2 s1 by (auto simp: same_uploads_def)
  have "outgoing_ok (hydratePendingLocalMedia env items s2)"
    using hydrate_same [of s2 env items] s2 outgoing_ok_cong by blast
  then show ?thesis
    using hydrate_same [of s2 env items] s2
    by (simp add: prepare_slice_def Let_def 1 items_def [symmetric] 2 same_uploads_def)
qed

subsection \<open>Every event keeps it\<close>

lemma set_upload_path_ok: "outgoing_ok s \<Longrightarrow> outgoing_ok (setUploadPath txid path s)"
  by (auto simp: outgoing_ok_def setUploadPath_def hash_contains_def hash_simps split: option.split)

lemma set_echo_ok: "outgoing_ok s \<Longrightarrow> outgoing_ok (set_echo txid state progress s)"
proof -
  assume ok: "outgoing_ok s"
  show ?thesis
  proof (cases "map_of (og_echoes s) txid")
    case (Some echo)
    then have "(txid, echo) \<in> set (og_echoes s)" by (rule map_of_SomeD)
    then have "echo_ok txid echo" "hash_contains txid (og_uploads s)" using ok by (auto simp: outgoing_ok_def)
    then show ?thesis using ok Some
      by (auto simp: outgoing_ok_def set_echo_def set_hash_insert echo_ok_def isTextMessage_def contentType_def)
  qed (simp add: set_echo_def ok)
qed

lemma append_echo_ok:
  assumes "outgoing_ok s"
  shows "outgoing_ok (fst (appendOptimisticMediaEcho env now doc caption txid thumb s))"
proof -
  have "echo_ok txid (media_echo env now doc txid md)" for md
    by (simp add: echo_ok_def media_echo_def isTextMessage_def contentType_def split: prepared_kind.split)
  then show ?thesis using assms
    by (auto simp: outgoing_ok_def appendOptimisticMediaEcho_def Let_def set_hash_insert hash_contains_def hash_simps
        split: prod.split)
qed

lemma send_prepared_ok: "outgoing_ok s \<Longrightarrow> outgoing_ok (fst (sendPreparedMedia env doc path caption txid s))"
  by (auto simp: sendPreparedMedia_def Let_def set_upload_path_ok split: prepared_kind.split prod.split)

lemma send_file_ok: "outgoing_ok s \<Longrightarrow> outgoing_ok (fst (sendPreparedFile env now doc caption compress txid thumb s))"
  by (simp add: sendPreparedFile_def Let_def split_beta append_echo_ok send_prepared_ok)

lemma send_files_ok: "outgoing_ok s \<Longrightarrow> outgoing_ok (fst (sendDialogFiles env now limit files caption compress s))"
proof -
  assume ok: "outgoing_ok s"
  have "outgoing_ok (fst (foldl (\<lambda>(t, calls) (doc, txid, thumb).
      let (t', more) = sendPreparedFile env now doc c compress txid thumb t in (t', calls @ more)) (s, cs) fs))" for c cs fs
    by (rule foldl_keeps [of "\<lambda>x. outgoing_ok (fst x)"])
      (auto simp: ok Let_def split_beta send_file_ok)
  then show ?thesis using ok by (simp add: sendDialogFiles_def Let_def)
qed

lemma resend_one_ok: "outgoing_ok (fst x) \<Longrightarrow> outgoing_ok (fst (resend_one x txid))"
  by (auto simp: resend_one_def set_upload_path_ok set_echo_ok split: prod.split option.split)

lemma cancel_ok: "outgoing_ok s \<Longrightarrow> outgoing_ok (fst (cancelUploadForEvent env eventId s))"
proof -
  assume ok: "outgoing_ok s"
  have "outgoing_ok (s\<lparr>og_cancelled := eventId # og_cancelled s, og_echoes := hash_remove eventId (og_echoes s)\<rparr>)" if "eventId \<noteq> []"
    using ok that by (auto simp: outgoing_ok_def set_hash_remove)
  from remove_upload_ok [OF this] show ?thesis using ok by (simp add: cancelUploadForEvent_def Let_def split_beta)
qed

lemma outgoing_ok_frame:
  assumes "outgoing_ok s"
  shows "outgoing_ok (s\<lparr>og_formatted := f\<rparr>)" "outgoing_ok (s\<lparr>og_echoIds := ids\<rparr>)" "outgoing_ok (s\<lparr>og_latest := l, og_requests := r\<rparr>)"
    "outgoing_ok (s\<lparr>og_avatars := a\<rparr>)" "outgoing_ok (s\<lparr>og_baseline := b\<rparr>)"
    "outgoing_ok (s\<lparr>og_nextSend := n, og_formatted := f, og_echoIds := ids\<rparr>)"
    "outgoing_ok (s\<lparr>og_room := room, og_baseline := b, og_avatars := a, og_public := p, og_preview := q\<rparr>)"
  using assms by (simp_all add: outgoing_ok_def)

lemma fetch_ok: "outgoing_ok s \<Longrightarrow> outgoing_ok (fst (fetch_slice roomId s))"
  by (simp add: fetch_slice_def outgoing_ok_frame)

lemma text_ok:
  assumes "outgoing_ok s"
  shows "outgoing_ok (fst (onSendMessage env now body formatted replyTo s))" "outgoing_ok (fst (messageSent requestId success eventId s))"
  using assms
  by (auto simp: onSendMessage_def messageSent_def Let_def outgoing_ok_def split: option.splits)

lemma slice_ready_ok:
  assumes "outgoing_ok s"
  shows "outgoing_ok (fst (timelineSliceReady env now shown initial roomId requestId success sl s))"
proof -
  obtain t sl1 calls where "prepare_slice env now sl s = (t, sl1, calls)" by (metis prod.exhaust)
  with prepare_ok [OF assms, of env now sl] show ?thesis
    using assms fetch_ok [OF assms]
    by (simp add: timelineSliceReady_def applyTimelineSlice_def Let_def split_beta outgoing_ok_frame)
qed

lemma outgoing_step_ok: "outgoing_ok s \<Longrightarrow> outgoing_ok (outgoing_step env s e)"
proof (cases e)
  case (SliceReady now shown initial roomId requestId success sl)
  then show "outgoing_ok s \<Longrightarrow> ?thesis" by (simp add: outgoing_step_def slice_ready_ok)
next
  case (TimelineChanged shown roomId)
  then show "outgoing_ok s \<Longrightarrow> ?thesis"
    by (simp add: outgoing_step_def onTimelineChanged_def split_beta fetch_ok outgoing_ok_frame)
next
  case (SwitchRoom roomId isPublic)
  then show "outgoing_ok s \<Longrightarrow> ?thesis" by (simp add: outgoing_step_def switchRoom_def split_beta fetch_ok outgoing_ok_frame)
next
  case (RoomMembersReady roomId members)
  then show "outgoing_ok s \<Longrightarrow> ?thesis" by (simp add: outgoing_step_def roomMembersReady_def outgoing_ok_frame)
next
  case (SendMessage now body formatted replyTo)
  then show "outgoing_ok s \<Longrightarrow> ?thesis" by (simp add: outgoing_step_def split_beta text_ok)
next
  case (MessageSent requestId success eventId)
  then show "outgoing_ok s \<Longrightarrow> ?thesis" by (simp add: outgoing_step_def split_beta text_ok)
next
  case (SendFiles now limit files caption compress)
  then show "outgoing_ok s \<Longrightarrow> ?thesis" by (simp add: outgoing_step_def split_beta send_files_ok)
next
  case (CompressionDone roomId doc path caption txid)
  then show "outgoing_ok s \<Longrightarrow> ?thesis" by (simp add: outgoing_step_def compressionDone_def split_beta send_prepared_ok)
next
  case (VoiceRecorded path ms txid)
  then show "outgoing_ok s \<Longrightarrow> ?thesis"
    by (auto simp: outgoing_step_def voiceRecorded_def outgoing_ok_def hash_contains_def hash_simps)
next
  case (MediaSent success eventId)
  then show "outgoing_ok s \<Longrightarrow> ?thesis" by (simp add: outgoing_step_def mediaSent_def split_beta set_echo_ok)
next
  case (UploadProgress txid current whole)
  then show "outgoing_ok s \<Longrightarrow> ?thesis"
    by (simp add: outgoing_step_def uploadProgress_def Let_def set_echo_ok split: option.split)
next
  case (NetworkOnline online)
  then show "outgoing_ok s \<Longrightarrow> ?thesis"
    using foldl_keeps [of "\<lambda>x. outgoing_ok (fst x)" "(s, [])" resend_one "map fst (og_echoes s)"] resend_one_ok
    by (auto simp: outgoing_step_def onNetworkOnlineChanged_def resendFailedUploads_def split_beta)
next
  case (ResendRequested now shown eventId)
  then show "outgoing_ok s \<Longrightarrow> ?thesis"
    by (simp add: outgoing_step_def resendRequested_def Let_def split_beta text_ok outgoing_ok_frame set_upload_path_ok set_echo_ok
        split: option.split)
next
  case (DeleteRequested shown eventId confirmed)
  then show "outgoing_ok s \<Longrightarrow> ?thesis"
    by (simp add: outgoing_step_def deleteMessageRequested_def Let_def split_beta remove_upload_ok outgoing_ok_frame cancel_ok
        split: option.split)
qed

interpretation uploads: event_machine "outgoing_step env" outgoing_ok for env
  by unfold_locales (rule outgoing_step_ok)

lemma start_ok: "outgoing_ok (outgoing_start saved hide)"
  by (simp add: outgoing_ok_def outgoing_start_def)

lemma run_ok: "outgoing_ok s \<Longrightarrow> outgoing_ok (outgoing_run env s events)"
  unfolding outgoing_run_def by (rule uploads.run_inv)

subsection \<open>Bubbles stay until their message is there\<close>

text \<open>Names and kinds survive the steps that enrich a slice.\<close>

lemma hide_system_names:
  "m \<in> set (snd (fst (hide_system env now (s, items)))) \<Longrightarrow> names_upload txid m \<Longrightarrow> \<exists>n \<in> set items. names_upload txid n"
  by (auto simp: hide_system_def names_upload_def present_forward_def Let_def split: prod.splits option.splits if_splits)

lemma enrich_names:
  "m \<in> set (fst (snd (enrich_senders env s items))) \<Longrightarrow> names_upload txid m \<Longrightarrow> \<exists>n \<in> set items. names_upload txid n"
proof (induction items arbitrary: s)
  case (Cons a ms)
  have "names_upload txid (applySenderAvatarFallback h u a) = names_upload txid a" for h u
    by (simp add: applySenderAvatarFallback_def names_upload_def split: option.split)
  then have first: "names_upload txid m \<Longrightarrow> m = applySenderAvatarFallback h u a \<Longrightarrow> names_upload txid a" for h u by simp
  obtain s1 where "set (fst (snd (enrich_senders env s (a # ms))))
      = insert (applySenderAvatarFallback (og_avatars s) (oe_avatarUrl env) a) (set (fst (snd (enrich_senders env s1 ms))))"
    by (simp add: Let_def split_beta)
  with Cons.prems Cons.IH [of s1] first show ?case by auto
qed simp

lemma formatted_names: "names_upload txid (reapply_formatted bodies m) = names_upload txid m"
  by (simp add: reapply_formatted_def names_upload_def setFormattedText_def mutableTextContent_def
      split: option.split timeline_content.split)

lemma reinject_adds:
  assumes "(txid, echo) \<in> set es" "hash_ok es" "map_of (og_uploads s) txid = Some up" "pu_roomId up = og_room s"
    and "txid \<notin> set (og_cancelled s)" "\<forall>(k, e) \<in> set es. echo_ok k e" "\<not> (\<exists>m \<in> set items. names_upload txid m)"
  shows "echo \<in> set (fst (reinject s items es)) \<and> (txid, echo) \<in> set (snd (reinject s items es))"
  using assms
proof (induction es arbitrary: items)
  case (Cons e es)
  define items1 where "items1 = fst (reinject_one s items e)"
  show ?case
  proof (cases "e = (txid, echo)")
    case True
    then have "reinject_one s items e = (items @ [echo], True)"
      using Cons.prems by (simp add: reinject_one_def)
    then show ?thesis
      using True reinject_spec [of s "items @ [echo]" es] by (auto split: prod.splits)
  next
    case False
    then have rest: "(txid, echo) \<in> set es" using Cons.prems(1) by simp
    have "fst e \<notin> fst ` set es" using Cons.prems(2) by (simp add: hash_ok_def)
    then have "fst e \<noteq> txid" using rest by (metis fst_conv imageI)
    then have "\<not> (\<exists>m \<in> set items1. names_upload txid m)"
      using Cons.prems(6,7) by (auto simp: items1_def reinject_one_def names_upload_def echo_ok_def split: option.splits)
    from Cons.IH [OF rest _ Cons.prems(3-5) _ this] Cons.prems(2,6) show ?thesis
      by (auto simp: items1_def hash_ok_def split: prod.splits)
  qed
qed simp

lemma drop_cancelled_keeps:
  "m \<in> set items \<Longrightarrow> cancelled_id (og_cancelled s) m = [] \<Longrightarrow> m \<in> set (fst (snd (drop_cancelled s items)))"
proof (induction s items rule: drop_cancelled.induct)
  case (2 s a ms)
  then show ?case by (auto simp: Let_def split: prod.splits)
qed simp

lemma gather_keeps_echo:
  assumes ok: "outgoing_ok s" and echo: "map_of (og_echoes s) txid = Some echo" and live: "ts_isLive sl"
    and up: "map_of (og_uploads s) txid = Some up" "pu_roomId up = og_room s" and going: "txid \<notin> set (og_cancelled s)"
    and new: "\<not> (\<exists>m \<in> set (ts_items sl). names_upload txid m)"
  shows "echo \<in> set (fst (snd (gather_slice env now sl s))) \<and> map_of (og_echoes (fst (gather_slice env now sl s))) txid = Some echo"
proof -
  obtain s1 items1 calls1 where 1: "hide_system env now (s, ts_items sl) = ((s1, items1), calls1)" by (metis prod.exhaust)
  obtain s2 items2 calls2 where 2: "enrich_senders env s1 items1 = (s2, items2, calls2)" by (metis prod.exhaust)
  define items3 where "items3 = (if og_formatted s2 = [] then items2 else map (reapply_formatted (og_formatted s2)) items2)"
  obtain s3 items4 where 3: "reinject_echoes (ts_isLive sl) (s2, items3) = (s3, items4)" by fastforce
  obtain s4 items5 calls3 where 4: "(if og_cancelled s3 = [] then (s3, items4, []) else drop_cancelled s3 items4) = (s4, items5, calls3)"
    by (metis prod.exhaust)
  have s2: "same_uploads s s2" "og_echoes s2 = og_echoes s"
    using hide_system_same [of s env now "ts_items sl"] enrich_same [of s1 env items1] 1 2 by (auto intro: same_uploads_trans)
  have "\<not> (\<exists>m \<in> set items1. names_upload txid m)" using hide_system_names [of _ env now s "ts_items sl" txid] 1 new by fastforce
  then have "\<not> (\<exists>m \<in> set items2. names_upload txid m)" using enrich_names [of _ env s1 items1 txid] 2 by fastforce
  then have none: "\<not> (\<exists>m \<in> set items3. names_upload txid m)" by (auto simp: items3_def formatted_names)
  have member: "(txid, echo) \<in> set (og_echoes s2)" using echo by (simp add: s2(2) map_of_SomeD)
  have good: "hash_ok (og_echoes s2)" "\<forall>(k, e) \<in> set (og_echoes s2). echo_ok k e"
    using ok by (auto simp: outgoing_ok_def s2(2))
  have "echo \<in> set (fst (reinject s2 items3 (og_echoes s2))) \<and> (txid, echo) \<in> set (snd (reinject s2 items3 (og_echoes s2)))"
    by (rule reinject_adds [OF member good(1) _ _ _ good(2) none]) (use up going s2(1) in \<open>simp_all add: same_uploads_def\<close>)
  moreover have "hash_ok (snd (reinject s2 items3 (og_echoes s2)))" using reinject_spec good(1) by blast
  moreover have "og_echoes s2 \<noteq> []" using member by auto
  ultimately have s3: "echo \<in> set items4" "map_of (og_echoes s3) txid = Some echo" "og_cancelled s3 = og_cancelled s"
    using 3 live s2(1) by (auto simp: reinject_echoes_def hash_ok_map_of same_uploads_def split: prod.splits)
  have echo_ok: "echo_ok txid echo" using member good(2) by auto
  then have "cancelled_id (og_cancelled s3) echo = []"
    using going by (simp add: cancelled_id_def echo_ok_def s3(3))
  then have s4: "echo \<in> set items5" "map_of (og_echoes s4) txid = Some echo"
    using drop_cancelled_keeps [OF s3(1), of s3] drop_cancelled_same [of s3 items4] s3(1,2) 4 by (auto split: if_splits)
  have "\<not> isTransientOutgoingEmptyTextMessage (oe_isSpace env) (oe_toPlainText env) echo"
    using echo_ok by (simp add: isTransientOutgoingEmptyTextMessage_def echo_ok_def)
  then show ?thesis
    using s4 by (simp add: gather_slice_def Let_def 1 2 items3_def [symmetric] 3 4 dropTransientOutgoingEmptyTextMessages_def)
qed

lemma placeholder_kept:
  assumes "m \<in> set items" "\<not> (\<exists>r \<in> set items. isRemoteMediaTimelineItem r \<and> mediaItemsLikelyMatch m r)"
  shows "m \<in> set (dropAcknowledgedOutgoingMediaPlaceholders items)"
proof -
  obtain pairs where pairs: "matched items pairs"
      "dropAcknowledgedOutgoingMediaPlaceholders items = nths items {i. i \<notin> fst ` set pairs}"
    using placeholders_one_to_one by blast
  obtain i where i: "i < length items" "items ! i = m" using assms(1) by (auto simp: in_set_conv_nth)
  have "i \<notin> fst ` set pairs"
  proof
    assume "i \<in> fst ` set pairs"
    then obtain j where "(i, j) \<in> set pairs" by auto
    then have "j < length items \<and> isRemoteMediaTimelineItem (items ! j) \<and> mediaItemsLikelyMatch m (items ! j)"
      using pairs(1) i by (auto simp: matched_def)
    then show False using assms(2) nth_mem by blast
  qed
  then show ?thesis using i unfolding pairs(2) set_nths by auto
qed


subsection \<open>Cancelled uploads\<close>

lemma drop_cancelled_gone:
  "m \<in> set (fst (snd (drop_cancelled s items))) \<Longrightarrow> cancelled_id (og_cancelled s) m = []"
proof (induction s items rule: drop_cancelled.induct)
  case (2 s a ms)
  then show ?case by (auto simp: Let_def split: prod.splits if_splits)
qed simp

lemma shown_not_cancelled:
  assumes ok: "outgoing_ok s" and m: "m \<in> set (ts_items (fst (snd (prepare_slice env now sl s))))"
  shows "cancelled_id (og_cancelled s) m = []"
proof -
  obtain s1 items1 calls1 where 1: "hide_system env now (s, ts_items sl) = ((s1, items1), calls1)" by (metis prod.exhaust)
  obtain s2 items2 calls2 where 2: "enrich_senders env s1 items1 = (s2, items2, calls2)" by (metis prod.exhaust)
  define items3 where "items3 = (if og_formatted s2 = [] then items2 else map (reapply_formatted (og_formatted s2)) items2)"
  obtain s3 items4 where 3: "reinject_echoes (ts_isLive sl) (s2, items3) = (s3, items4)" by fastforce
  obtain s4 items5 calls3 where 4: "(if og_cancelled s3 = [] then (s3, items4, []) else drop_cancelled s3 items4) = (s4, items5, calls3)"
    by (metis prod.exhaust)
  define gathered where "gathered = dropTransientOutgoingEmptyTextMessages (oe_isSpace env) (oe_toPlainText env) items5"
  have gather: "gather_slice env now sl s = (s4, gathered, calls1 @ calls2 @ calls3)"
    by (simp add: gather_slice_def Let_def 1 2 items3_def [symmetric] 3 4 gathered_def)
  have same: "same_uploads s s1 \<and> og_echoes s1 = og_echoes s" "same_uploads s1 s2 \<and> og_echoes s2 = og_echoes s1"
    using hide_system_same [of s env now "ts_items sl"] enrich_same [of s1 env items1] 1 2 by auto
  then have "outgoing_ok s2" using ok outgoing_ok_cong by blast
  from reinject_ok [OF this, of "ts_isLive sl" items3] have s3: "og_cancelled s3 = og_cancelled s"
    using 3 same by (simp add: same_uploads_def)
  define items where "items = dropAcknowledgedOutgoingMediaPlaceholders gathered"
  have "set items \<subseteq> set items5"
    using placeholders_one_to_one [of gathered] set_nths_subset [of gathered]
    unfolding items_def gathered_def dropTransientOutgoingEmptyTextMessages_def by (metis filter_is_subset subset_trans)
  moreover have "cancelled_id (og_cancelled s) a = []" if "a \<in> set items5" for a
    using that 4 s3 drop_cancelled_gone [of a s3 items4] by (auto simp: cancelled_id_def split: if_splits)
  moreover have "\<exists>a \<in> set items. ti_eventId m = ti_eventId a \<and> ti_transactionId m = ti_transactionId a"
    using m by (auto simp: prepare_slice_def gather Let_def items_def [symmetric] normalizeDormantLocalMediaPlaceholders_def
        split: prod.splits if_splits)
  ultimately obtain a where a: "cancelled_id (og_cancelled s) a = []" "ti_eventId m = ti_eventId a" "ti_transactionId m = ti_transactionId a"
    by blast
  have "cancelled_id (og_cancelled s) m = cancelled_id (og_cancelled s) a" unfolding cancelled_id_def a(2,3) ..
  then show ?thesis using a(1) by simp
qed

lemma cancelled_id_none:
  "cancelled_id cancelled m = [] \<Longrightarrow> [] \<notin> set cancelled \<Longrightarrow> txid \<in> set cancelled \<Longrightarrow> \<not> names_upload txid m"
  by (auto simp: cancelled_id_def names_upload_def split: if_splits)

text \<open>Once cancelled, always cancelled.\<close>

lemma set_echo_simps [simp]:
  "og_cancelled (set_echo txid st pr s) = og_cancelled s" "og_uploads (set_echo txid st pr s) = og_uploads s"
  by (simp_all add: set_echo_def split: option.split)

lemma set_upload_path_simps [simp]:
  "og_cancelled (setUploadPath txid path s) = og_cancelled s" "og_echoes (setUploadPath txid path s) = og_echoes s"
  by (simp_all add: setUploadPath_def split: option.split)

lemma send_file_cancelled [simp]:
  "og_cancelled (fst (sendPreparedMedia env doc path caption txid s)) = og_cancelled s"
  "og_cancelled (fst (sendPreparedFile env now doc caption compress txid thumb s)) = og_cancelled s"
proof -
  have media: "og_cancelled (fst (sendPreparedMedia env doc path caption txid s)) = og_cancelled s" for doc path caption txid s
    by (simp add: sendPreparedMedia_def Let_def split: prepared_kind.split prod.split)
  then show "og_cancelled (fst (sendPreparedMedia env doc path caption txid s)) = og_cancelled s" .
  show "og_cancelled (fst (sendPreparedFile env now doc caption compress txid thumb s)) = og_cancelled s"
    by (simp add: sendPreparedFile_def appendOptimisticMediaEcho_def Let_def split_beta media)
qed

lemma resend_cancelled: "og_cancelled (fst (foldl resend_one x txids)) = og_cancelled (fst x)"
proof -
  have "og_cancelled (fst (resend_one y txid)) = og_cancelled (fst y)" for y txid
    by (simp add: resend_one_def split: prod.split option.split)
  then show ?thesis
    using foldl_keeps [of "\<lambda>y. og_cancelled (fst y) = og_cancelled (fst x)" x resend_one txids] by simp
qed

lemma slice_ready_cancelled:
  assumes "outgoing_ok s"
  shows "og_cancelled (fst (timelineSliceReady env now shown initial roomId requestId success sl s)) = og_cancelled s"
  using prepare_ok [OF assms, of env now sl]
  by (simp add: timelineSliceReady_def applyTimelineSlice_def fetch_slice_def Let_def split_beta)

lemma step_cancelled: "outgoing_ok s \<Longrightarrow> set (og_cancelled s) \<subseteq> set (og_cancelled (outgoing_step env s e))"
proof (cases e)
  case (SendFiles now limit files caption compress)
  have "og_cancelled (fst (foldl (\<lambda>(t, calls) (doc, txid, thumb).
      let (t', more) = sendPreparedFile env now doc c compress txid thumb t in (t', calls @ more)) (s, cs) fs)) = og_cancelled s" for c cs fs
    by (rule foldl_keeps [of "\<lambda>y. og_cancelled (fst y) = og_cancelled s"]) (simp_all add: Let_def split_beta)
  then show ?thesis using SendFiles by (simp add: outgoing_step_def sendDialogFiles_def Let_def split_beta)
next
  case (NetworkOnline online)
  then show ?thesis
    using resend_cancelled [of "(s, [])" "map fst (og_echoes s)"]
    by (simp add: outgoing_step_def onNetworkOnlineChanged_def resendFailedUploads_def split_beta)
qed (auto simp: outgoing_step_def slice_ready_cancelled onTimelineChanged_def fetch_slice_def switchRoom_def roomMembersReady_def
    onSendMessage_def messageSent_def compressionDone_def voiceRecorded_def mediaSent_def uploadProgress_def resendRequested_def
    deleteMessageRequested_def cancelUploadForEvent_def Let_def split_beta split: option.splits)

lemma run_cancelled: "outgoing_ok s \<Longrightarrow> set (og_cancelled s) \<subseteq> set (og_cancelled (outgoing_run env s events))"
proof (induction events arbitrary: s)
  case (Cons e es)
  then show ?case using step_cancelled [OF Cons.prems, of env e] Cons.IH [OF outgoing_step_ok [OF Cons.prems, of env e]]
    by (auto simp: outgoing_run_def)
qed (simp add: outgoing_run_def)

lemma given_slice:
  assumes "outgoing_call_of env s e = (t, Some sl, calls)"
  obtains now sl0 where "sl = fst (snd (prepare_slice env now sl0 s))"
  using assms
  by (cases e) (auto simp: timelineSliceReady_def applyTimelineSlice_def Let_def split_beta split: if_splits)


subsection \<open>What is sent, and again\<close>

text \<open>The transactions a list of calls uploads, and those an event starts.\<close>

definition sent_in :: "outgoing_call list \<Rightarrow> qstring set" where
  "sent_in calls = {sm_transactionId p | p. SendMedia p \<in> set calls}"

fun starts_upload :: "outgoing_event \<Rightarrow> qstring set" where
  "starts_upload (SendFiles now limit files caption compress) = (\<lambda>(doc, txid, thumb). txid) ` set files"
| "starts_upload (CompressionDone roomId doc sendPath caption txid) = {txid}"
| "starts_upload (VoiceRecorded path ms txid) = {txid}"
| "starts_upload e = {}"

fun outgoing_calls :: "outgoing_env \<Rightarrow> outgoing \<Rightarrow> outgoing_event list \<Rightarrow> outgoing_call list" where
  "outgoing_calls env s [] = []"
| "outgoing_calls env s (e # es) = snd (snd (outgoing_call_of env s e)) @ outgoing_calls env (outgoing_step env s e) es"

lemma sent_in_append [simp]: "sent_in (xs @ ys) = sent_in xs \<union> sent_in ys"
  by (auto simp: sent_in_def)

lemma sent_in_Nil [simp]: "sent_in [] = {}"
  by (simp add: sent_in_def)

lemma sent_in_Cons: "sent_in (c # cs) = (case c of SendMedia p \<Rightarrow> {sm_transactionId p} | _ \<Rightarrow> {}) \<union> sent_in cs"
  by (auto simp: sent_in_def split: outgoing_call.split)

lemma hide_sends_none: "sent_in (snd (hide_system env now (s, items))) = {}"
proof -
  have "sent_in (snd (foldl (\<lambda>(m, calls) item. let (m', more) = request_avatar env now item m in (m', calls @ more)) (mc, []) kept)) = {}" for mc kept
    by (rule foldl_keeps [of "\<lambda>x. sent_in (snd x) = {}"])
      (auto simp: request_avatar_def sent_in_Cons Let_def split_beta split: option.split)
  then show ?thesis by (simp add: hide_system_def request_avatars_def Let_def split_beta)
qed

lemma enrich_sends_none: "sent_in (snd (snd (enrich_senders env s items))) = {}"
  by (induction items arbitrary: s) (simp_all add: Let_def split_beta sent_in_Cons)

lemma drop_sends_none: "sent_in (snd (snd (drop_cancelled s items))) = {}"
proof (induction s items rule: drop_cancelled.induct)
  case (2 s a ms)
  then show ?case by (auto simp: Let_def sent_in_Cons split: prod.splits)
qed simp

lemma remove_sends_none: "sent_in (snd (removePendingLocalMediaUpload env txid s)) = {}"
  by (simp add: removePendingLocalMediaUpload_def removeUploadVideoThumb_def removeUploadCompressedImage_def sent_in_Cons
      split: option.split)

lemma retire_sends_none: "sent_in (snd (retireAcknowledgedPendingLocalMedia env items s)) = {}"
proof -
  have "sent_in (snd (foldl (\<lambda>(t, calls) txid. let (t', more) = removePendingLocalMediaUpload env txid t in (t', calls @ more)) (r, []) txids)) = {}" for r txids
    by (rule foldl_keeps [of "\<lambda>x. sent_in (snd x) = {}"]) (simp_all add: Let_def split_beta remove_sends_none)
  then show ?thesis by (simp add: retireAcknowledgedPendingLocalMedia_def Let_def)
qed

lemma prepare_sends_none: "sent_in (snd (snd (prepare_slice env now sl s))) = {}"
  by (simp add: prepare_slice_def gather_slice_def Let_def split_beta hide_sends_none enrich_sends_none drop_sends_none retire_sends_none)

text \<open>Only an upload that is still pending is sent, unless the event starts it.\<close>

lemma send_prepared_sends: "sent_in (snd (sendPreparedMedia env doc path caption txid s)) \<subseteq> {txid}"
  by (auto simp: sendPreparedMedia_def Let_def sent_in_Cons split: prepared_kind.split prod.split)

lemma send_file_sends: "sent_in (snd (sendPreparedFile env now doc caption compress txid thumb s)) \<subseteq> {txid}"
  using send_prepared_sends [of env doc "pf_path doc" caption txid]
  by (auto simp: sendPreparedFile_def appendOptimisticMediaEcho_def echo_thumb_def removeUploadVideoThumb_def sent_in_Cons Let_def
      split_beta)

lemma send_files_sends:
  "sent_in (snd (sendDialogFiles env now limit files caption compress s)) \<subseteq> (\<lambda>(doc, txid, thumb). txid) ` set files"
proof -
  have "sent_in (snd (foldl (\<lambda>(t, calls) (doc, txid, thumb).
      let (t', more) = sendPreparedFile env now doc c compress txid thumb t in (t', calls @ more)) (r, cs) fs))
      \<subseteq> sent_in cs \<union> (\<lambda>(doc, txid, thumb). txid) ` set fs" for c r cs fs
  proof (induction fs rule: rev_induct)
    case (snoc x fs)
    obtain doc txid thumb where "x = (doc, txid, thumb)" by (metis prod.exhaust)
    with snoc send_file_sends [of env now doc c compress txid thumb] show ?case by (auto simp: Let_def split_beta)
  qed simp
  note sent = this
  have toasts: "sent_in (map (\<lambda>_. ShowToast) xs) = {}" for xs :: "(prepared_file \<times> qstring \<times> qstring \<times> bool) list"
    by (induction xs) (simp_all add: sent_in_Cons)
  define sendable where "sendable = filter (\<lambda>(doc, _). \<not> (0 < limit \<and> limit < pf_size doc)) files"
  have sub: "(\<lambda>(doc, txid, thumb). txid) ` set sendable \<subseteq> (\<lambda>(doc, txid, thumb). txid) ` set files"
    unfolding sendable_def by (rule image_mono) (rule filter_is_subset)
  have all: "sent_in (snd (foldl (\<lambda>(t, calls) (doc, txid, thumb).
      let (t', more) = sendPreparedFile env now doc c compress txid thumb t in (t', calls @ more)) (s, cs) sendable))
      \<subseteq> (\<lambda>(doc, txid, thumb). txid) ` set files" if none: "sent_in cs = {}" for c cs
    using sent [of c s cs sendable] sub none by auto
  show ?thesis
  proof (cases "sendable = []")
    case True
    then show ?thesis unfolding sendDialogFiles_def Let_def sendable_def [symmetric] by (simp add: toasts)
  next
    case False
    show ?thesis
      unfolding sendDialogFiles_def Let_def sendable_def [symmetric] if_not_P [OF False]
      by (rule all [unfolded Let_def]) (simp add: toasts sent_in_Cons)
  qed
qed

lemma uploads_set_path: "dom (map_of (og_uploads (setUploadPath txid path s))) = dom (map_of (og_uploads s))"
  by (auto simp: setUploadPath_def hash_simps split: option.split)

lemma resend_sends:
  "sent_in (snd (foldl resend_one (s, []) txids)) \<subseteq> dom (map_of (og_uploads s))
   \<and> dom (map_of (og_uploads (fst (foldl resend_one (s, []) txids)))) = dom (map_of (og_uploads s))"
proof (induction txids rule: rev_induct)
  case (snoc txid txids)
  obtain t calls where x: "foldl resend_one (s, []) txids = (t, calls)" by fastforce
  have "sent_in (snd (resend_one (t, calls) txid)) \<subseteq> sent_in calls \<union> dom (map_of (og_uploads t))
      \<and> dom (map_of (og_uploads (fst (resend_one (t, calls) txid)))) = dom (map_of (og_uploads t))"
    by (auto simp: resend_one_def resend_call_def sent_in_Cons uploads_set_path split: option.split)
  then show ?case using snoc x by auto
qed simp

lemma step_sends:
  "sent_in (snd (snd (outgoing_call_of env s e))) \<subseteq> starts_upload e \<union> dom (map_of (og_uploads s))"
proof (cases e)
  case (SliceReady now shown initial roomId requestId success sl)
  then show ?thesis
    using prepare_sends_none [of env now sl s]
    by (simp add: timelineSliceReady_def applyTimelineSlice_def fetch_slice_def Let_def split_beta sent_in_Cons)
next
  case (SendFiles now limit files caption compress)
  then show ?thesis using send_files_sends [of env now limit files caption compress s] by (auto simp: split_beta)
next
  case (CompressionDone roomId doc path caption txid)
  then show ?thesis using send_prepared_sends [of env doc path caption txid s]
    by (auto simp: split_beta compressionDone_def removeUploadCompressedImage_def sent_in_Cons)
next
  case (NetworkOnline online)
  then show ?thesis using resend_sends [of s "map fst (og_echoes s)"]
    by (simp add: onNetworkOnlineChanged_def resendFailedUploads_def split_beta)
next
  case (DeleteRequested shown eventId confirmed)
  have "sent_in (snd (cancelUploadForEvent env eventId s)) = {}"
    by (simp add: cancelUploadForEvent_def Let_def split_beta sent_in_Cons remove_sends_none)
  then show ?thesis using DeleteRequested
    by (simp add: split_beta deleteMessageRequested_def Let_def sent_in_Cons remove_sends_none split: option.split)
qed (auto simp: onTimelineChanged_def fetch_slice_def switchRoom_def onSendMessage_def messageSent_def voiceRecorded_def mediaSent_def
    uploadProgress_def resendRequested_def resend_call_def Let_def split_beta sent_in_Cons split: option.splits)

lemma prepare_uploads:
  assumes "outgoing_ok s"
  shows "dom (map_of (og_uploads (fst (prepare_slice env now sl s)))) \<subseteq> dom (map_of (og_uploads s))"
    and "m \<in> set (ts_items (fst (snd (prepare_slice env now sl s)))) \<Longrightarrow> ti_transactionId m \<noteq> [] \<Longrightarrow> isRemoteMediaTimelineItem m
      \<Longrightarrow> map_of (og_uploads (fst (prepare_slice env now sl s))) (ti_transactionId m) = None"
proof -
  obtain s1 gathered calls where 1: "gather_slice env now sl s = (s1, gathered, calls)" by (metis prod.exhaust)
  define items where "items = dropAcknowledgedOutgoingMediaPlaceholders gathered"
  obtain s2 calls2 where 2: "retireAcknowledgedPendingLocalMedia env items s1 = (s2, calls2)" by fastforce
  have s1: "og_uploads s1 = og_uploads s" using gather_ok [OF assms, of env now sl] 1 by (simp add: same_uploads_def)
  have s2: "map_of (og_uploads s2) k = (if k \<in> set (acknowledged_in items) then None else map_of (og_uploads s) k)" for k
    using retire_spec [of s2 env items s1 k] 2 s1 by simp
  have uploads: "og_uploads (fst (prepare_slice env now sl s)) = og_uploads s2"
    using hydrate_same [of s2 env items] by (simp add: prepare_slice_def Let_def 1 items_def [symmetric] 2 same_uploads_def)
  show "dom (map_of (og_uploads (fst (prepare_slice env now sl s)))) \<subseteq> dom (map_of (og_uploads s))"
    unfolding uploads using s2 by (auto split: if_splits)
  assume m: "m \<in> set (ts_items (fst (snd (prepare_slice env now sl s))))" "ti_transactionId m \<noteq> []" "isRemoteMediaTimelineItem m"
  have remote: "isRemoteMediaTimelineItem (a\<lparr>ti_delivery := (ti_delivery a)\<lparr>del_sendState := st, del_uploadProgress := pr\<rparr>\<rparr>)
      = isRemoteMediaTimelineItem a" for a st pr
    by (cases "ti_content a") (simp_all add: isRemoteMediaTimelineItem_def isTextMessage_def isServiceMessage_def
        isUnableToDecryptMessage_def pollContent_def contentType_def mediaUrl_def mediaThumbUrl_def mediaContent_def
        typedMediaContent_def imageContent_def videoContent_def fileContent_def audioContent_def)
  from m(1) have "m \<in> set (normalizeDormantLocalMediaPlaceholders (hydratePendingLocalMedia env items s2) items)"
    by (simp add: prepare_slice_def Let_def 1 items_def [symmetric] 2)
  then have "\<exists>a \<in> set items. ti_transactionId a = ti_transactionId m \<and> isRemoteMediaTimelineItem a"
    using m(3) remote by (auto simp: normalizeDormantLocalMediaPlaceholders_def split: if_splits)
  then have "ti_transactionId m \<in> set (acknowledged_in items)" using m(2) unfolding acknowledged_in_def set_map set_filter by (metis (mono_tags, lifting) imageI mem_Collect_eq)
  then show "map_of (og_uploads (fst (prepare_slice env now sl s))) (ti_transactionId m) = None" by (simp add: uploads s2)
qed

lemma send_files_uploads:
  "dom (map_of (og_uploads (fst (sendDialogFiles env now limit files caption compress s))))
   \<subseteq> dom (map_of (og_uploads s)) \<union> (\<lambda>(doc, txid, thumb). txid) ` set files"
proof -
  have media: "dom (map_of (og_uploads (fst (sendPreparedMedia env doc path c txid r)))) = dom (map_of (og_uploads r))" for doc path c txid r
    by (simp add: sendPreparedMedia_def Let_def uploads_set_path split: prepared_kind.split prod.split)
  have one: "dom (map_of (og_uploads (fst (sendPreparedFile env now doc c compress txid thumb r))))
      \<subseteq> insert txid (dom (map_of (og_uploads r)))" for doc c txid thumb r
    by (auto simp: sendPreparedFile_def appendOptimisticMediaEcho_def Let_def split_beta media hash_simps)
  have "dom (map_of (og_uploads (fst (foldl (\<lambda>(t, calls) (doc, txid, thumb).
      let (t', more) = sendPreparedFile env now doc c compress txid thumb t in (t', calls @ more)) (s, cs) fs))))
      \<subseteq> dom (map_of (og_uploads s)) \<union> (\<lambda>(doc, txid, thumb). txid) ` set fs" for c cs fs
  proof (induction fs rule: rev_induct)
    case (snoc x fs)
    obtain doc txid thumb where "x = (doc, txid, thumb)" by (metis prod.exhaust)
    with snoc one [of doc c txid thumb] show ?case by (auto simp: Let_def split_beta dest!: subsetD)
  qed simp
  note all = this
  define sendable where "sendable = filter (\<lambda>(doc, _). \<not> (0 < limit \<and> limit < pf_size doc)) files"
  have sub: "(\<lambda>(doc, txid, thumb). txid) ` set sendable \<subseteq> (\<lambda>(doc, txid, thumb). txid) ` set files"
    unfolding sendable_def by (rule image_mono) (rule filter_is_subset)
  show ?thesis
  proof (cases "sendable = []")
    case True
    then show ?thesis unfolding sendDialogFiles_def Let_def sendable_def [symmetric] by simp
  next
    case False
    show ?thesis
      unfolding sendDialogFiles_def Let_def sendable_def [symmetric] if_not_P [OF False]
      by (rule order_trans [OF all [unfolded Let_def]]) (use sub in blast)
  qed
qed

lemma step_uploads:
  assumes "outgoing_ok s"
  shows "dom (map_of (og_uploads (outgoing_step env s e))) \<subseteq> dom (map_of (og_uploads s)) \<union> starts_upload e"
proof (cases e)
  case (SliceReady now shown initial roomId requestId success sl)
  then show ?thesis using prepare_uploads(1) [OF assms, of env now sl]
    by (simp add: outgoing_step_def timelineSliceReady_def applyTimelineSlice_def fetch_slice_def Let_def split_beta)
next
  case (SendFiles now limit files caption compress)
  then show ?thesis using send_files_uploads [of env now limit files caption compress s] by (simp add: outgoing_step_def split_beta)
next
  case (CompressionDone roomId doc path caption txid)
  then show ?thesis
    by (auto simp: outgoing_step_def compressionDone_def sendPreparedMedia_def Let_def split_beta uploads_set_path split: prepared_kind.splits)
next
  case (NetworkOnline online)
  then show ?thesis using resend_sends [of s "map fst (og_echoes s)"]
    by (simp add: outgoing_step_def onNetworkOnlineChanged_def resendFailedUploads_def split_beta)
qed (auto simp: outgoing_step_def onTimelineChanged_def fetch_slice_def switchRoom_def roomMembersReady_def onSendMessage_def
    messageSent_def voiceRecorded_def mediaSent_def uploadProgress_def resendRequested_def deleteMessageRequested_def
    cancelUploadForEvent_def removePendingLocalMediaUpload_def Let_def split_beta uploads_set_path hash_simps
    split: option.splits if_splits)

text \<open>C12: An upload whose message has been shown is never sent again: not by resending, not when the
  network comes back, whatever follows (transaction ids being used once).\<close>

theorem acknowledged_upload_never_sent_again:
  assumes "outgoing_call_of env (outgoing_run env (outgoing_start saved hide) earlier) e = (s, Some sl, calls)"
    and "m \<in> set (ts_items sl)" "isRemoteMediaTimelineItem m" "ti_transactionId m = txid" "txid \<noteq> []"
    and "txid \<notin> \<Union> (starts_upload ` set later)"
  shows "txid \<notin> sent_in (outgoing_calls env s later)"
proof -
  define s0 where "s0 = outgoing_run env (outgoing_start saved hide) earlier"
  have ok0: "outgoing_ok s0" unfolding s0_def by (rule run_ok [OF start_ok])
  have ok: "outgoing_ok s" using outgoing_step_ok [OF ok0, of env e] assms(1) by (simp add: outgoing_step_def s0_def)
  have "map_of (og_uploads s) txid = None"
    using assms(1-5) prepare_uploads(2) [OF ok0]
    by (cases e) (auto simp: s0_def [symmetric] timelineSliceReady_def applyTimelineSlice_def Let_def split_beta split: if_splits)
  then show ?thesis using ok assms(6)
  proof (induction later arbitrary: s)
    case (Cons e later)
    have "map_of (og_uploads (outgoing_step env s e)) txid = None"
      using step_uploads [OF Cons.prems(2), of env e] Cons.prems(1,3) by auto
    then have "txid \<notin> sent_in (outgoing_calls env (outgoing_step env s e) later)"
      using Cons.IH [OF _ outgoing_step_ok [OF Cons.prems(2)]] Cons.prems(3) by auto
    moreover have "txid \<notin> sent_in (snd (snd (outgoing_call_of env s e)))"
      using step_sends [of env s e] Cons.prems(1,3) by auto
    ultimately show ?case by simp
  qed simp
qed

subsection \<open>Back online\<close>

definition failed_echo :: "outgoing \<Rightarrow> qstring \<Rightarrow> bool" where
  "failed_echo s txid \<longleftrightarrow> (\<exists>echo. map_of (og_echoes s) txid = Some echo \<and> del_sendState (ti_delivery echo) = Failed)"

lemma resend_one_spec:
  assumes "dom (map_of (og_echoes s)) \<subseteq> dom (map_of (og_uploads s))"
  shows "let (t, calls') = resend_one (s, calls) txid in
     dom (map_of (og_echoes t)) = dom (map_of (og_echoes s)) \<and> dom (map_of (og_uploads t)) = dom (map_of (og_uploads s))
     \<and> (\<forall>k. failed_echo t k \<longleftrightarrow> k \<noteq> txid \<and> failed_echo s k)
     \<and> sent_in calls' = sent_in calls \<union> (if failed_echo s txid then {txid} else {})"
proof (cases "failed_echo s txid")
  case False
  then have "resend_one (s, calls) txid = (s, calls)"
    by (auto simp: resend_one_def failed_echo_def split: option.split)
  then show ?thesis using False by auto
next
  case True
  then obtain echo where echo: "map_of (og_echoes s) txid = Some echo" "del_sendState (ti_delivery echo) = Failed"
    by (auto simp: failed_echo_def)
  then obtain up where up: "map_of (og_uploads s) txid = Some up" using assms by auto
  have "dom (map_of (og_uploads (setUploadPath txid path (set_echo txid st pr s)))) = dom (map_of (og_uploads s))" for path st pr
    using uploads_set_path [of txid path "set_echo txid st pr s"] by simp
  then show ?thesis
    using True echo up
    by (auto simp: resend_one_def set_echo_def failed_echo_def resend_call_def sent_in_Cons hash_simps split: if_splits)
qed

lemma resend_all_spec:
  assumes "dom (map_of (og_echoes s)) \<subseteq> dom (map_of (og_uploads s))"
  shows "let (t, calls) = foldl resend_one (s, []) txids in
     dom (map_of (og_echoes t)) = dom (map_of (og_echoes s)) \<and> dom (map_of (og_uploads t)) = dom (map_of (og_uploads s))
     \<and> (\<forall>k. failed_echo t k \<longleftrightarrow> k \<notin> set txids \<and> failed_echo s k)
     \<and> sent_in calls = {k \<in> set txids. failed_echo s k}"
proof (induction txids rule: rev_induct)
  case (snoc txid txids)
  obtain t calls where x: "foldl resend_one (s, []) txids = (t, calls)" by fastforce
  from snoc x have old: "dom (map_of (og_echoes t)) = dom (map_of (og_echoes s))" "dom (map_of (og_uploads t)) = dom (map_of (og_uploads s))"
      "\<forall>k. failed_echo t k \<longleftrightarrow> k \<notin> set txids \<and> failed_echo s k" "sent_in calls = {k \<in> set txids. failed_echo s k}"
    by simp_all
  obtain t' calls' where y: "resend_one (t, calls) txid = (t', calls')" by fastforce
  have "dom (map_of (og_echoes t)) \<subseteq> dom (map_of (og_uploads t))" using assms old by simp
  from resend_one_spec [OF this, of calls txid] y old show ?case by (auto simp: x)
qed simp


subsection \<open>Concrete runs\<close>

definition demo_media_env :: media_env where
  "demo_media_env = \<lparr> me_decodeImageBytes = (\<lambda>_ _. None), me_exists = (\<lambda>_. True), me_readImage = (\<lambda>_. None),
     me_decodeHeic = (\<lambda>_. None), me_scaledTo = (\<lambda>_ i. Some i), me_scaledPart = (\<lambda>i _ _ _. Some i),
     me_circle = (\<lambda>i _ _ _. Some i), me_number = (\<lambda>_. ''1''), me_real = (\<lambda>_. ''1'') \<rparr>"

definition demo_outgoing_env :: outgoing_env where
  "demo_outgoing_env = \<lparr> oe_media = demo_media_env, oe_isSpace = (\<lambda>c. c = CHR '' ''), oe_toPlainText = (\<lambda>html. html),
     oe_number = (\<lambda>_. ''1''), oe_isVideoThumbPath = (\<lambda>_. False), oe_isCompressedPath = (\<lambda>_. False),
     oe_fileSize = (\<lambda>_. 7), oe_imageInfo = (\<lambda>_. (''image/jpeg'', 7, 2, 2)), oe_userId = ''@me:x'', oe_displayName = ''Me'',
     oe_avatarUrl = [] \<rparr>"

definition demo_file :: prepared_file where
  "demo_file = \<lparr> pf_path = ''/a.pdf'', pf_mime = ''application/pdf'', pf_filename = ''a.pdf'', pf_size = 7, pf_width = 0,
     pf_height = 0, pf_durationMs = 0, pf_preview = None, pf_kind = PreparedOther \<rparr>"

definition demo_upload_events :: "outgoing_event list" where
  "demo_upload_events = [SwitchRoom ''!r'' False, SendFiles 100 0 [(demo_file, ''t1'', [], False)] [] False]"

definition demo_upload_echo :: timeline_item where
  "demo_upload_echo = media_echo demo_outgoing_env 100 demo_file ''t1'' (echo_media demo_file [] ''t1'' [])"

text \<open>The message a file becomes.\<close>

definition demo_remote :: "qstring \<Rightarrow> qstring \<Rightarrow> timeline_item" where
  "demo_remote eventId txid = demo_upload_echo\<lparr>ti_eventId := eventId, ti_transactionId := txid,
     ti_content := FileContent ((echo_media demo_file [] ''t1'' [])\<lparr>med_url := ''mxc://x/1''\<rparr>),
     ti_delivery := \<lparr> del_sendState = Sent, del_uploadProgress = -1, del_outgoing = True, del_deleted = False \<rparr>\<rparr>"

definition demo_slice :: "timeline_item list \<Rightarrow> timeline_slice" where
  "demo_slice items = default_timeline_slice\<lparr>ts_items := items, ts_isLive := True\<rparr>"

lemmas demo_outgoing = demo_upload_events_def demo_upload_echo_def demo_slice_def demo_remote_def

lemma demo_upload_state:
  "map_of (og_echoes (outgoing_run demo_outgoing_env (outgoing_start [] False) demo_upload_events)) ''t1'' = Some demo_upload_echo"
  by code_simp



theorem acknowledged_upload_never_sent_again_witness:
  "''t1'' \<notin> sent_in (outgoing_calls demo_outgoing_env
     (outgoing_run demo_outgoing_env (outgoing_start [] False)
       (demo_upload_events @ [SliceReady 200 [] False ''!r'' 1 True (demo_slice [demo_remote ''$1'' ''t1''])]))
     [MediaSent False ''t1'', NetworkOnline True])"
proof -
  let ?before = "outgoing_run demo_outgoing_env (outgoing_start [] False) demo_upload_events"
  let ?e = "SliceReady 200 [] False ''!r'' 1 True (demo_slice [demo_remote ''$1'' ''t1''])"
  let ?sl = "the (fst (snd (outgoing_call_of demo_outgoing_env ?before ?e)))"
  have "fst (snd (outgoing_call_of demo_outgoing_env ?before ?e)) \<noteq> None" by code_simp
  then have call: "outgoing_call_of demo_outgoing_env ?before ?e
      = (fst (outgoing_call_of demo_outgoing_env ?before ?e), Some ?sl, snd (snd (outgoing_call_of demo_outgoing_env ?before ?e)))"
    by (metis option.collapse prod.collapse)
  have m: "demo_remote ''$1'' ''t1'' \<in> set (ts_items ?sl)" "isRemoteMediaTimelineItem (demo_remote ''$1'' ''t1'')"
    "ti_transactionId (demo_remote ''$1'' ''t1'') = ''t1''"
    by code_simp+
  have "outgoing_run demo_outgoing_env (outgoing_start [] False) (demo_upload_events @ [?e]) = fst (outgoing_call_of demo_outgoing_env ?before ?e)"
    by (simp add: outgoing_run_def outgoing_step_def)
  with acknowledged_upload_never_sent_again [OF call m, of "[MediaSent False ''t1'', NetworkOnline True]"] show ?thesis by simp
qed

subsection \<open>Where uploads get lost\<close>

text \<open>Where the code loses or hides an upload.\<close>

definition uploads_in :: "outgoing_call list \<Rightarrow> qstring list" where
  "uploads_in calls = concat (map (\<lambda>c. case c of SendMedia p \<Rightarrow> [sm_transactionId p] | _ \<Rightarrow> []) calls)"

text \<open>An image still being compressed when the user looks into another room is never sent: its bubble
  keeps saying that it is sending, so nothing sends it again either.\<close>

lemma compressed_image_never_sent:
  "let image = demo_file\<lparr>pf_kind := PreparedImage, pf_path := ''/a.jpg''\<rparr>;
       events = [SwitchRoom ''!r'' False, SendFiles 100 0 [(image, ''t1'', [], False)] [] True, SwitchRoom ''!q'' False,
                 CompressionDone ''!r'' image ''/tmp/c.jpg'' [] ''t1'', SwitchRoom ''!r'' False, NetworkOnline False, NetworkOnline True];
       s = outgoing_run demo_outgoing_env (outgoing_start [] False) events
   in uploads_in (outgoing_calls demo_outgoing_env (outgoing_start [] False) events) = []
    \<and> map (\<lambda>m. del_sendState (ti_delivery m)) (ts_items (fst (snd (prepare_slice demo_outgoing_env 200 (demo_slice []) s)))) = [Sending]"
  by code_simp

text \<open>A voice message is kept without its room and has no bubble: when it fails nothing is left to
  resend, and the room does not count as having uploads.\<close>

lemma failed_voice_message_lost:
  "let events = [SwitchRoom ''!r'' False, VoiceRecorded ''/v.wav'' 900 ''t1'', MediaSent False ''t1'', NetworkOnline True];
       s = outgoing_run demo_outgoing_env (outgoing_start [] False) events
   in uploads_in (outgoing_calls demo_outgoing_env (outgoing_start [] False) events) = [''t1'']
    \<and> og_echoes s = [] \<and> \<not> hasPendingForRoom ''!r'' s \<and> map fst (og_uploads s) = [''t1'']"
  by code_simp

text \<open>The same file sent twice within five seconds: the message of the second takes the place of the
  first, whose bubble is gone while it is still being sent.\<close>

lemma twin_upload_hides_bubble:
  "let events = demo_upload_events @ [SendFiles 103 0 [(demo_file, ''t2'', [], False)] [] False];
       s = outgoing_run demo_outgoing_env (outgoing_start [] False) events;
       (t, shown, calls) = prepare_slice demo_outgoing_env 104 (demo_slice [demo_remote ''$2'' ''t2'']) s
   in map ti_eventId (ts_items shown) = [''$2''] \<and> map fst (og_uploads t) = [''t1''] \<and> map fst (og_echoes t) = [''t1'']"
  by code_simp

text \<open>The echo of a text message is not kept over slices: after any slice its failure has no bubble
  to show.\<close>

lemma text_echo_not_kept:
  "let s = outgoing_run demo_outgoing_env (outgoing_start [] False) [SwitchRoom ''!r'' False, SendMessage 100 ''hi'' [] []];
       (t, shown, calls) = prepare_slice demo_outgoing_env 101 (demo_slice []) s
   in ts_items shown = [] \<and> snd (messageSent 1 False [] t) = [ListSendState ''local-1'' Failed, ShowToast]"
  by code_simp

end
