(* ===== verification/Video_Policies.thy ===== *)
theory Video_Policies imports TM_Prelude Complex_Main begin

section \<open>Video: rebuffering, retries, overlays\<close>

text \<open>
  The decision machines behind video playback (\<^verbatim>\<open>src/src/media/video_rebuffer.cpp\<close>,
  \<^verbatim>\<open>video_stream_retry.cpp\<close>, \<^verbatim>\<open>video_download_overlay_policy.cpp\<close>), shared by the inline player and the
  full-screen viewer.  Fractions of a download are reals; the \<open>float\<close> of the code rounds them.

  Shown: rebuffering pauses and plays in turn and plays only with enough data ahead, and no wait
  for a stalled download goes on for ever.
\<close>

datatype video_container = UnknownContainer | Faststart | MoovAtEnd

subsection \<open>Rebuffering\<close>

record rebuffer =
  rb_rebuffering :: bool
  rb_startedPlayback :: bool

datatype rebuffer_action = NoAction | PauseAction | PlayAction

definition rebuffer_reset :: rebuffer where
  "rebuffer_reset = \<lparr> rb_rebuffering = False, rb_startedPlayback = False \<rparr>"

definition rebuffer_evaluate :: "real \<Rightarrow> int \<Rightarrow> int \<Rightarrow> bool \<Rightarrow> bool \<Rightarrow> bool \<Rightarrow> rebuffer \<Rightarrow> rebuffer \<times> rebuffer_action" where
  "rebuffer_evaluate downloadedFraction positionMs durationMs streaming userPaused playbackReady r =
     (if \<not> streaming \<or> userPaused \<or> \<not> playbackReady \<or> durationMs \<le> 0 then (r, NoAction)
      else if 1 \<le> downloadedFraction
      then (r\<lparr>rb_startedPlayback := True, rb_rebuffering := False\<rparr>, if rb_rebuffering r then PlayAction else NoAction)
      else let downloadedMs = \<lfloor>downloadedFraction * real_of_int durationMs\<rfloor>; aheadMs = downloadedMs - positionMs
           in if rb_rebuffering r
              then (let resumeTarget = (if rb_startedPlayback r then 5000 else 2000)
                    in if resumeTarget \<le> aheadMs then (r\<lparr>rb_rebuffering := False, rb_startedPlayback := True\<rparr>, PlayAction)
                       else (r, NoAction))
              else if aheadMs < 1000 then (r\<lparr>rb_rebuffering := True\<rparr>, PauseAction)
              else (r\<lparr>rb_startedPlayback := True\<rparr>, NoAction))"

subsection \<open>Waiting for a stalled download\<close>

record tunables =
  tn_stallTicks :: int
  tn_maxWaitTicks :: int
  tn_maxErrorRestarts :: int

definition default_tunables :: tunables where
  "default_tunables = \<lparr> tn_stallTicks = 70, tn_maxWaitTicks = 2400, tn_maxErrorRestarts = 2 \<rparr>"

record stream_retry =
  sr_waitTicks :: int
  sr_stallTicks :: int
  sr_lastBytes :: quint64
  sr_errorRestarts :: int

datatype retry_action = Wait | Replay | GiveUp

definition retry_reset :: stream_retry where
  "retry_reset = \<lparr> sr_waitTicks = 0, sr_stallTicks = 0, sr_lastBytes = 0, sr_errorRestarts = 0 \<rparr>"

definition beginWait :: "stream_retry \<Rightarrow> stream_retry" where
  "beginWait r = r\<lparr>sr_waitTicks := 0, sr_stallTicks := 0, sr_lastBytes := 0\<rparr>"

definition retry_tick :: "tunables \<Rightarrow> bool \<Rightarrow> quint64 \<Rightarrow> quint64 \<Rightarrow> bool \<Rightarrow> stream_retry \<Rightarrow> stream_retry \<times> retry_action" where
  "retry_tick t progressKnown downloaded whole entryErrored r0 =
     (let r = r0\<lparr>sr_waitTicks := sr_waitTicks r0 + 1\<rparr>
      in if tn_maxWaitTicks t < sr_waitTicks r then (r, GiveUp)
         else if entryErrored
         then (if sr_errorRestarts r < tn_maxErrorRestarts t then (r\<lparr>sr_errorRestarts := sr_errorRestarts r + 1\<rparr>, Replay)
               else (r, GiveUp))
         else if progressKnown \<and> 0 < whole \<and> whole \<le> downloaded then (r, Replay)
         else if progressKnown \<and> sr_lastBytes r < downloaded then (r\<lparr>sr_lastBytes := downloaded, sr_stallTicks := 0\<rparr>, Wait)
         else let r1 = r\<lparr>sr_stallTicks := sr_stallTicks r + 1\<rparr>
              in (r1, if tn_stallTicks t \<le> sr_stallTicks r1 then Replay else Wait))"

text \<open>In milliseconds.\<close>

definition streamNetworkTimeout :: "int \<Rightarrow> int" where
  "streamNetworkTimeout durationMs =
     (let budget = 60000 + (if 0 < durationMs then 2000 * (durationMs div 1000) else 0)
      in if 240000 < budget then 240000 else budget)"

definition shouldRetryStreamError :: "bool \<Rightarrow> bool \<Rightarrow> video_container \<Rightarrow> bool" where
  "shouldRetryStreamError isResourceError hasFrame container =
     (if isResourceError then True
      else if hasFrame then False
      else case container of Faststart \<Rightarrow> False | MoovAtEnd \<Rightarrow> False | UnknownContainer \<Rightarrow> True)"

definition showDeterminateDownload :: "video_container \<Rightarrow> bool \<Rightarrow> bool \<Rightarrow> real \<Rightarrow> bool" where
  "showDeterminateDownload container hasFrame streamDownloadPending downloadedFraction =
     (if hasFrame \<or> \<not> streamDownloadPending \<or> 1 \<le> downloadedFraction then False
      else case container of MoovAtEnd \<Rightarrow> True | Faststart \<Rightarrow> False | UnknownContainer \<Rightarrow> 1 / 5 < downloadedFraction)"

subsection \<open>Rebuffering takes turns\<close>

text \<open>The polls of one playback: fraction, position and duration, and whether the user has paused
  and a frame was seen.  A reset gives the control back to the user.\<close>

datatype rebuffer_event = Poll real int int bool bool bool | Reset

fun rebuffer_step :: "rebuffer \<Rightarrow> rebuffer_event \<Rightarrow> rebuffer \<times> rebuffer_action" where
  "rebuffer_step r (Poll fraction position duration streaming userPaused ready) =
     rebuffer_evaluate fraction position duration streaming userPaused ready r"
| "rebuffer_step r Reset = (rebuffer_reset, NoAction)"

fun rebuffer_actions :: "rebuffer \<Rightarrow> rebuffer_event list \<Rightarrow> rebuffer_action list" where
  "rebuffer_actions r [] = []"
| "rebuffer_actions r (e # es) =
     (let (r1, a) = rebuffer_step r e in (if a = NoAction then [] else [a]) @ rebuffer_actions r1 es)"

text \<open>Pausing and playing in turn, starting with the given action.\<close>

fun alternating :: "rebuffer_action \<Rightarrow> rebuffer_action list \<Rightarrow> bool" where
  "alternating a [] \<longleftrightarrow> True"
| "alternating a (b # bs) \<longleftrightarrow> b = a \<and> alternating (if a = PauseAction then PlayAction else PauseAction) bs"

lemma evaluate_turns:
  "rebuffer_evaluate f p d st up ready r = (r1, a) \<Longrightarrow>
     a = NoAction \<and> (rb_rebuffering r1 \<longleftrightarrow> rb_rebuffering r)
   \<or> a = PauseAction \<and> \<not> rb_rebuffering r \<and> rb_rebuffering r1
   \<or> a = PlayAction \<and> rb_rebuffering r \<and> \<not> rb_rebuffering r1"
  by (auto simp: rebuffer_evaluate_def Let_def split: if_splits)

text \<open>Rebuffering pauses and plays in turn: without resets no video is paused twice or played
  without having been paused, whatever the polls report.\<close>

theorem rebuffering_alternates:
  "alternating (if rb_rebuffering r then PlayAction else PauseAction)
     (rebuffer_actions r (map (\<lambda>(f, p, d, st, up, ready). Poll f p d st up ready) polls))"
proof (induction polls arbitrary: r)
  case (Cons x polls)
  obtain f p d st up ready where x: "x = (f, p, d, st, up, ready)" by (metis prod.exhaust)
  obtain r1 a where step: "rebuffer_evaluate f p d st up ready r = (r1, a)" by fastforce
  from evaluate_turns [OF step] Cons.IH [of r1] show ?case by (auto simp: x step)
qed simp

text \<open>A stalled playback goes on only with two seconds ahead at the start, five later, or at the
  end of the download, and is paused only with less than one.\<close>

lemma rebuffer_thresholds:
  assumes "rebuffer_evaluate f p d st up ready r = (r1, a)"
  shows "(a = PlayAction \<longrightarrow> 1 \<le> f \<or> (if rb_startedPlayback r then 5000 else 2000) \<le> \<lfloor>f * real_of_int d\<rfloor> - p)
    \<and> (a = PauseAction \<longrightarrow> f < 1 \<and> \<lfloor>f * real_of_int d\<rfloor> - p < 1000)"
  using assms by (auto simp: rebuffer_evaluate_def Let_def split: if_splits)

text \<open>A complete download always ends the stall at the next poll.\<close>

lemma complete_download_plays:
  "rb_rebuffering r \<Longrightarrow> 1 \<le> f \<Longrightarrow> 0 < d \<Longrightarrow> snd (rebuffer_evaluate f p d True False True r) = PlayAction"
  by (simp add: rebuffer_evaluate_def)

subsection \<open>Waits end\<close>

text \<open>The polls of a wait, up to the first that ends it.\<close>

fun wait_polls :: "tunables \<Rightarrow> stream_retry \<Rightarrow> (bool \<times> quint64 \<times> quint64 \<times> bool) list \<Rightarrow> retry_action" where
  "wait_polls t r [] = Wait"
| "wait_polls t r ((known, downloaded, whole, errored) # polls) =
     (let (r1, a) = retry_tick t known downloaded whole errored r in if a = Wait then wait_polls t r1 polls else a)"

lemma tick_counts:
  "retry_tick t known d w errored r = (r1, Wait) \<Longrightarrow> sr_waitTicks r1 = sr_waitTicks r + 1 \<and> sr_waitTicks r1 \<le> tn_maxWaitTicks t"
  by (auto simp: retry_tick_def Let_def split: if_splits)

text \<open>A wait for a stalled download ends: whatever the proxy reports, after at most twenty minutes
  of polls (2400) the video is replayed or given up.\<close>

theorem every_wait_ends:
  assumes "2400 < length polls"
  shows "wait_polls default_tunables (beginWait r) polls \<noteq> Wait"
proof -
  have "wait_polls t r ps = Wait \<Longrightarrow> 0 \<le> sr_waitTicks r \<Longrightarrow> sr_waitTicks r \<le> tn_maxWaitTicks t \<Longrightarrow>
      sr_waitTicks r + int (length ps) \<le> tn_maxWaitTicks t" for t r ps
  proof (induction t r ps rule: wait_polls.induct)
    case (2 t r known d w errored polls)
    obtain r1 a where tick: "retry_tick t known d w errored r = (r1, a)" by fastforce
    with "2.prems"(1) have "a = Wait" "wait_polls t r1 polls = Wait" by (auto split: if_splits)
    with "2.IH" [OF tick [symmetric] refl] tick tick_counts [of t known d w errored r r1] "2.prems" show ?case by auto
  qed simp
  from this [of default_tunables "beginWait r" polls] assms show ?thesis
    by (auto simp: beginWait_def default_tunables_def)
qed

theorem every_wait_ends_witness:
  "wait_polls default_tunables (beginWait retry_reset) (map (\<lambda>k. (True, of_nat k, 9999, False)) [0..<2401]) \<noteq> Wait"
  by (rule every_wait_ends) simp

text \<open>Without progress it ends after seventy polls, some 35 seconds.\<close>

lemma dead_download_restarts:
  assumes "0 < n" "sr_stallTicks r + int n = tn_stallTicks t" "0 \<le> sr_stallTicks r" "sr_waitTicks r + int n \<le> tn_maxWaitTicks t"
  shows "wait_polls t r (replicate n (False, 0, 0, False)) = Replay"
  using assms
proof (induction n arbitrary: r)
  case (Suc n)
  let ?r = "r\<lparr>sr_waitTicks := sr_waitTicks r + 1, sr_stallTicks := sr_stallTicks r + 1\<rparr>"
  show ?case
  proof (cases "n = 0")
    case True
    with Suc.prems show ?thesis by (simp add: retry_tick_def Let_def)
  next
    case False
    with Suc.prems have "retry_tick t False 0 0 False r = (?r, Wait)" by (simp add: retry_tick_def Let_def)
    moreover have "wait_polls t ?r (replicate n (False, 0, 0, False)) = Replay"
      using Suc.prems False by (intro Suc.IH) simp_all
    ultimately show ?thesis by simp
  qed
qed simp

end
