(* ===== verification/Inline_Video.thy ===== *)
theory Inline_Video imports TM_Prelude Media_Cache Video_Policies begin

section \<open>The inline video player\<close>

text \<open>
  \<open>HistoryInlineVideoPlayer\<close> (\<^verbatim>\<open>src/src/history/history_inline_video.cpp\<close>): one video at a time, streamed
  through the loopback proxy or played from a local copy, replayed after stalls, paused off screen.
  The Qt player is what was asked of it (\<open>media_player\<close>); its signals, the two timers and the calls of
  the timeline are events, each with the proxy's and the file system's answers (\<open>video_env\<close>).  Fractions
  are reals; \<open>iv_out\<close> logs the signals emitted.  The callbacks are those \<open>AppMainWidget\<close> sets.

  Shown: the invariant of the player's modes; bounded replays; where a video goes on after a
  failure; and the ways to an endless spinner or a video that plays though it should not.
\<close>

record video_env =
  ve_media :: media_env
  ve_playbackPath :: "qstring \<Rightarrow> qstring \<Rightarrow> qstring \<Rightarrow> qstring"
  ve_streamUrl :: "qstring \<Rightarrow> qstring"
  ve_progress :: "qstring \<Rightarrow> real"
  ve_progressBytes :: "qstring \<Rightarrow> (quint64 \<times> quint64) option"
  ve_errored :: "qstring \<Rightarrow> bool"
  ve_container :: "qstring \<Rightarrow> video_container"
  ve_scaledInto :: "int \<times> int \<Rightarrow> qimage \<Rightarrow> qimage"
  ve_opaque :: "qimage \<Rightarrow> qimage"

text \<open>What the \<open>QMediaPlayer\<close> was told last: its source, the seek, play or pause, the timeout.\<close>

record media_player =
  mp_source :: qstring
  mp_position :: int
  mp_playing :: bool
  mp_timeout :: int

datatype video_output = StateChanged qstring | FrameChanged qstring | ResolveRequested qstring

record inline_video =
  iv_eventId :: qstring
  iv_mxc :: qstring
  iv_filename :: qstring
  iv_mime :: qstring
  iv_player :: "media_player option"
  iv_progressOn :: bool
  iv_retryOn :: bool
  iv_currentFrame :: image
  iv_displaySize :: "int \<times> int"
  iv_userPaused :: bool
  iv_viewportPaused :: bool
  iv_viewportVisible :: bool
  iv_positionMs :: int
  iv_durationMs :: int
  iv_startPositionMs :: int
  iv_videoRotation :: int
  iv_videoReady :: bool
  iv_paused :: bool
  iv_failed :: bool
  iv_videoStreamActive :: bool
  iv_streamDownloadPending :: bool
  iv_streamContainer :: video_container
  iv_streamingUnavailable :: bool
  iv_streamingEverWorked :: bool
  iv_buffering :: bool
  iv_muted :: bool
  iv_rebuffer :: rebuffer
  iv_downloadedFraction :: real
  iv_streamDownloadedBytes :: quint64
  iv_streamTotalBytes :: quint64
  iv_streamRetries :: int
  iv_streamRetry :: stream_retry
  iv_cache :: media_cache
  iv_out :: "video_output list"

definition no_video :: "media_cache \<Rightarrow> inline_video" where
  "no_video cache = \<lparr> iv_eventId = [], iv_mxc = [], iv_filename = [], iv_mime = [], iv_player = None,
     iv_progressOn = False, iv_retryOn = False, iv_currentFrame = None, iv_displaySize = (-1, -1),
     iv_userPaused = False, iv_viewportPaused = False, iv_viewportVisible = True, iv_positionMs = 0,
     iv_durationMs = 0, iv_startPositionMs = 0, iv_videoRotation = 0, iv_videoReady = False,
     iv_paused = False, iv_failed = False, iv_videoStreamActive = False, iv_streamDownloadPending = False,
     iv_streamContainer = UnknownContainer, iv_streamingUnavailable = False, iv_streamingEverWorked = False,
     iv_buffering = False, iv_muted = False, iv_rebuffer = rebuffer_reset, iv_downloadedFraction = 1,
     iv_streamDownloadedBytes = 0, iv_streamTotalBytes = 0, iv_streamRetries = 0,
     iv_streamRetry = retry_reset, iv_cache = cache, iv_out = [] \<rparr>"

definition emit_video :: "video_output \<Rightarrow> inline_video \<Rightarrow> inline_video" where
  "emit_video e s = s\<lparr>iv_out := iv_out s @ [e]\<rparr>"

definition state_changed :: "inline_video \<Rightarrow> inline_video" where
  "state_changed s = emit_video (StateChanged (iv_eventId s)) s"

subsection \<open>The player\<close>

definition kMaxStreamRetries :: int where "kMaxStreamRetries = 3"

definition setupPlayer :: "inline_video \<Rightarrow> inline_video" where
  "setupPlayer s =
     (if iv_player s \<noteq> None then s
      else s\<lparr>iv_player := Some \<lparr> mp_source = [], mp_position = 0, mp_playing = False,
                                mp_timeout = streamNetworkTimeout (iv_durationMs s) \<rparr>,
             iv_progressOn := True\<rparr>)"

definition teardownPlayer :: "inline_video \<Rightarrow> inline_video" where
  "teardownPlayer s0 =
     (let s = s0\<lparr>iv_progressOn := False\<rparr>
      in if iv_player s = None then s else s\<lparr>iv_player := None, iv_currentFrame := None, iv_videoRotation := 0\<rparr>)"

text \<open>\<open>setSource\<close>, \<open>setPosition\<close>, \<open>play\<close>.\<close>

definition play_source :: "qstring \<Rightarrow> inline_video \<Rightarrow> inline_video" where
  "play_source source s =
     s\<lparr>iv_player := map_option (\<lambda>p. p\<lparr>mp_source := source, mp_position := iv_startPositionMs s, mp_playing := True\<rparr>) (iv_player s)\<rparr>"

definition clear_player :: "inline_video \<Rightarrow> inline_video" where
  "clear_player s = s\<lparr>iv_player := map_option (\<lambda>p. p\<lparr>mp_source := [], mp_playing := False\<rparr>) (iv_player s)\<rparr>"

definition set_playing :: "bool \<Rightarrow> inline_video \<Rightarrow> inline_video" where
  "set_playing on s = s\<lparr>iv_player := map_option (\<lambda>p. p\<lparr>mp_playing := on\<rparr>) (iv_player s)\<rparr>"

definition set_position :: "int \<Rightarrow> inline_video \<Rightarrow> inline_video" where
  "set_position ms s = s\<lparr>iv_player := map_option (\<lambda>p. p\<lparr>mp_position := ms\<rparr>) (iv_player s)\<rparr>"

text \<open>The cached path of the video, and whether it exists.\<close>

definition local_copy :: "video_env \<Rightarrow> inline_video \<Rightarrow> inline_video \<times> bool" where
  "local_copy env s =
     (let (c, path) = localPath (ve_media env) (iv_mxc s) (iv_cache s)
      in (s\<lparr>iv_cache := c\<rparr>, path \<noteq> [] \<and> me_exists (ve_media env) path))"

definition loadLocal :: "video_env \<Rightarrow> inline_video \<Rightarrow> inline_video" where
  "loadLocal env s0 =
     (let s1 = s0\<lparr>iv_downloadedFraction := 1, iv_streamDownloadPending := False\<rparr>;
          (c, path) = localPath (ve_media env) (iv_mxc s1) (iv_cache s1); s = s1\<lparr>iv_cache := c\<rparr>
      in if path = []
         then let s2 = clear_player s;
                  s3 = (if 0 < iv_startPositionMs s2
                        then s2\<lparr>iv_cache := setPlaybackPosition (iv_mxc s2) (iv_startPositionMs s2) (iv_cache s2)\<rparr> else s2)
              in if startsWith ''mxc://'' (iv_mxc s3) then emit_video (ResolveRequested (iv_mxc s3)) s3 else s3
         else if \<not> me_exists (ve_media env) path then clear_player s
         else let s2 = setupPlayer s
              in play_source (ve_playbackPath env path (iv_filename s2) (iv_mime s2)) s2)"

definition latch_container :: "video_env \<Rightarrow> inline_video \<Rightarrow> inline_video" where
  "latch_container env s =
     (if iv_streamContainer s = UnknownContainer then s\<lparr>iv_streamContainer := ve_container env (iv_mxc s)\<rparr> else s)"

definition load :: "video_env \<Rightarrow> inline_video \<Rightarrow> inline_video" where
  "load env s0 =
     (let (s, found) = local_copy env s0
      in if found then loadLocal env s
         else let url = ve_streamUrl env (iv_mxc s)
              in if \<not> iv_streamingUnavailable s \<and> url \<noteq> []
                 then let s2 = setupPlayer s;
                          s3 = latch_container env (s2\<lparr>iv_videoStreamActive := True, iv_streamDownloadPending := True\<rparr>)
                      in play_source url (s3\<lparr>iv_downloadedFraction := 0\<rparr>)
                 else loadLocal env s)"

subsection \<open>Failures and retries\<close>

definition abortStreamRetry :: "inline_video \<Rightarrow> inline_video" where
  "abortStreamRetry s = s\<lparr>iv_retryOn := False\<rparr>"

definition markFailed :: "inline_video \<Rightarrow> inline_video" where
  "markFailed s0 =
     (let s1 = abortStreamRetry s0;
          s2 = (if iv_mxc s1 \<noteq> [] \<and> 0 < iv_positionMs s1
                then s1\<lparr>iv_cache := setPlaybackPosition (iv_mxc s1) (iv_positionMs s1) (iv_cache s1)\<rparr> else s1)
      in state_changed (teardownPlayer (s2\<lparr>iv_failed := True, iv_streamDownloadPending := False\<rparr>)))"

definition scheduleStreamRetry :: "inline_video \<Rightarrow> inline_video" where
  "scheduleStreamRetry s0 =
     (let s = state_changed (s0\<lparr>iv_buffering := True\<rparr>)
      in s\<lparr>iv_streamRetry := beginWait (iv_streamRetry s), iv_retryOn := True\<rparr>)"

definition failStreamRetry :: "video_env \<Rightarrow> inline_video \<Rightarrow> inline_video" where
  "failStreamRetry env s0 = (let (s, found) = local_copy env s0 in if found then loadLocal env s else markFailed s)"

definition pause_video :: "inline_video \<Rightarrow> inline_video" where
  "pause_video s =
     (if iv_player s = None then s
      else state_changed ((set_playing False s)\<lparr>iv_paused := True, iv_rebuffer := rebuffer_reset, iv_buffering := False\<rparr>))"

definition resume_video :: "inline_video \<Rightarrow> inline_video" where
  "resume_video s =
     (if iv_player s = None then s else state_changed ((set_playing True s)\<lparr>iv_paused := False\<rparr>))"

text \<open>The download seen by a poll of the wait.\<close>

definition poll_progress :: "video_env \<Rightarrow> inline_video \<Rightarrow> inline_video" where
  "poll_progress env s =
     (case ve_progressBytes env (iv_mxc s) of
        None \<Rightarrow> s
      | Some (downloaded, whole) \<Rightarrow>
          if 0 < whole
          then let s1 = s\<lparr>iv_streamDownloadedBytes := downloaded, iv_streamTotalBytes := whole\<rparr>;
                   fraction = real (unat downloaded) / real (unat whole)
               in if 1 / 2000 < \<bar>fraction - iv_downloadedFraction s1\<bar>
                  then state_changed (s1\<lparr>iv_downloadedFraction := fraction\<rparr>) else s1
          else s)"

definition pollStreamRetry :: "video_env \<Rightarrow> inline_video \<Rightarrow> inline_video" where
  "pollStreamRetry env s0 =
     (let known = ve_progressBytes env (iv_mxc s0) \<noteq> None;
          (downloaded, whole) = (case ve_progressBytes env (iv_mxc s0) of None \<Rightarrow> (0, 0) | Some b \<Rightarrow> b);
          errored = ve_errored env (iv_mxc s0);
          s1 = latch_container env (poll_progress env s0);
          (retry, action) = retry_tick default_tunables known downloaded whole errored (iv_streamRetry s1);
          s = s1\<lparr>iv_streamRetry := retry\<rparr>
      in case action of
           Replay \<Rightarrow> (let s2 = load env (abortStreamRetry s)
                     in if \<not> iv_viewportVisible s2 \<and> iv_player s2 \<noteq> None \<and> \<not> iv_paused s2
                        then pause_video (s2\<lparr>iv_viewportPaused := True\<rparr>) else s2)
         | GiveUp \<Rightarrow> failStreamRetry env (abortStreamRetry s)
         | Wait \<Rightarrow> s)"

subsection \<open>Calls of the timeline\<close>

definition stop_video :: "inline_video \<Rightarrow> inline_video" where
  "stop_video s0 =
     (let s = teardownPlayer (abortStreamRetry s0);
          s1 = s\<lparr>iv_eventId := [], iv_mxc := [], iv_filename := [], iv_mime := [], iv_positionMs := 0, iv_durationMs := 0,
                 iv_videoReady := False, iv_paused := False, iv_userPaused := False, iv_viewportPaused := False,
                 iv_viewportVisible := True, iv_displaySize := (-1, -1), iv_buffering := False, iv_failed := False,
                 iv_streamRetries := 0, iv_streamRetry := retry_reset, iv_rebuffer := rebuffer_reset,
                 iv_videoStreamActive := False, iv_streamDownloadPending := False,
                 iv_streamContainer := UnknownContainer, iv_downloadedFraction := 1\<rparr>
      in if iv_eventId s0 \<noteq> [] then emit_video (StateChanged (iv_eventId s0)) s1 else s1)"

definition start_video :: "qstring \<Rightarrow> qstring \<Rightarrow> qstring \<Rightarrow> qstring \<Rightarrow> int \<Rightarrow> inline_video \<Rightarrow> inline_video" where
  "start_video eventId mxc filename mime durationMs s =
     (let (cache, resume) = takePlaybackPosition mxc (iv_cache s); start = (if 0 < resume then resume else 0)
      in s\<lparr>iv_eventId := eventId, iv_mxc := mxc, iv_filename := filename, iv_mime := mime, iv_durationMs := max durationMs 0,
           iv_cache := cache, iv_startPositionMs := start, iv_positionMs := start, iv_videoReady := False,
           iv_paused := False, iv_userPaused := False, iv_viewportPaused := False, iv_viewportVisible := True,
           iv_displaySize := (-1, -1), iv_buffering := False, iv_failed := False, iv_streamRetries := 0,
           iv_streamRetry := retry_reset, iv_rebuffer := rebuffer_reset, iv_videoStreamActive := False,
           iv_streamDownloadPending := False, iv_streamContainer := UnknownContainer,
           iv_streamDownloadedBytes := 0, iv_streamTotalBytes := 0, iv_currentFrame := None\<rparr>)"

definition toggle_video :: "video_env \<Rightarrow> qstring \<Rightarrow> qstring \<Rightarrow> qstring \<Rightarrow> qstring \<Rightarrow> int \<Rightarrow> inline_video \<Rightarrow> inline_video" where
  "toggle_video env eventId mxc filename mime durationMs s =
     (if eventId = iv_eventId s \<and> iv_player s \<noteq> None
      then (if iv_paused s then resume_video (s\<lparr>iv_userPaused := False, iv_viewportPaused := False\<rparr>)
            else pause_video (s\<lparr>iv_userPaused := True\<rparr>))
      else state_changed (load env (start_video eventId mxc filename mime durationMs (stop_video s))))"

definition onNetworkOnline :: "video_env \<Rightarrow> inline_video \<Rightarrow> inline_video" where
  "onNetworkOnline env s0 =
     (let s = s0\<lparr>iv_streamingUnavailable := False\<rparr>
      in if iv_mxc s = [] then s
         else let stuck = iv_videoStreamActive s \<and> \<not> iv_videoReady s
              in if iv_failed s \<or> stuck
                 then load env ((teardownPlayer (abortStreamRetry s))\<lparr>iv_failed := False, iv_buffering := False, iv_streamRetries := 0\<rparr>)
                 else s)"

definition pauseForViewport :: "bool \<Rightarrow> inline_video \<Rightarrow> inline_video" where
  "pauseForViewport visible s0 =
     (let s = s0\<lparr>iv_viewportVisible := visible\<rparr>
      in if iv_player s = None \<or> iv_userPaused s then s
         else if visible
         then (if iv_viewportPaused s then resume_video (s\<lparr>iv_viewportPaused := False\<rparr>) else s)
         else if \<not> iv_paused s then pause_video (s\<lparr>iv_viewportPaused := True\<rparr>)
         else s)"

definition pauseForFullscreen :: "inline_video \<Rightarrow> inline_video" where
  "pauseForFullscreen s = pause_video (s\<lparr>iv_userPaused := True, iv_viewportPaused := False\<rparr>)"

definition seekPausedTo :: "int \<Rightarrow> inline_video \<Rightarrow> inline_video" where
  "seekPausedTo positionMs s =
     (if iv_player s = None \<or> iv_durationMs s \<le> 0 then s
      else let p = qBound 0 positionMs (iv_durationMs s)
           in state_changed (set_position p (s\<lparr>iv_positionMs := p\<rparr>)))"

definition toggleMute :: "inline_video \<Rightarrow> inline_video" where
  "toggleMute s = state_changed (s\<lparr>iv_muted := \<not> iv_muted s\<rparr>)"

definition seekToFraction :: "real \<Rightarrow> inline_video \<Rightarrow> inline_video" where
  "seekToFraction fraction s =
     (if iv_player s = None \<or> iv_durationMs s \<le> 0 then s
      else let f0 = max 0 (min fraction 1);
               f = (if iv_videoStreamActive s \<and> iv_downloadedFraction s < 1 then min f0 (iv_downloadedFraction s) else f0);
               p = \<lfloor>f * real_of_int (iv_durationMs s)\<rfloor>
           in state_changed (set_position p (s\<lparr>iv_positionMs := p\<rparr>)))"

definition setDisplaySize :: "int \<times> int \<Rightarrow> inline_video \<Rightarrow> inline_video" where
  "setDisplaySize deviceSize s = s\<lparr>iv_displaySize := deviceSize\<rparr>"

subsection \<open>Signals of the player\<close>

definition downscaleVideoFrame :: "video_env \<Rightarrow> qimage \<Rightarrow> int \<times> int \<Rightarrow> qimage" where
  "downscaleVideoFrame env frame target =
     ve_opaque env (if 0 < fst target \<and> 0 < snd target \<and> fst target < int (qi_width frame)
                    then ve_scaledInto env target frame else frame)"

definition first_frame :: "bool \<Rightarrow> inline_video \<Rightarrow> inline_video" where
  "first_frame seekable s =
     (if iv_videoReady s then s
      else let s1 = s\<lparr>iv_videoReady := True, iv_streamRetries := 0, iv_streamDownloadPending := False\<rparr>;
               s2 = (if iv_videoStreamActive s1 then s1\<lparr>iv_streamingEverWorked := True\<rparr> else s1)
           in if 0 < iv_startPositionMs s2 \<and> iv_player s2 \<noteq> None \<and> seekable
              then (set_position (iv_startPositionMs s2) s2)\<lparr>iv_startPositionMs := 0\<rparr> else s2)"

definition videoFrameChanged :: "video_env \<Rightarrow> image \<Rightarrow> int \<Rightarrow> bool \<Rightarrow> inline_video \<Rightarrow> inline_video" where
  "videoFrameChanged env frame rotation seekable s0 =
     (case frame of
        None \<Rightarrow> s0
      | Some i \<Rightarrow>
          let s1 = (if iv_videoReady s0 then s0 else s0\<lparr>iv_videoRotation := rotation\<rparr>);
              s2 = first_frame seekable (s1\<lparr>iv_currentFrame := Some (downscaleVideoFrame env i (iv_displaySize s1))\<rparr>);
              s3 = (if rb_rebuffering (iv_rebuffer s2) then s2 else s2\<lparr>iv_buffering := False\<rparr>)
          in emit_video (FrameChanged (iv_eventId s3)) s3)"

definition positionChanged :: "int \<Rightarrow> inline_video \<Rightarrow> inline_video" where
  "positionChanged position s = state_changed (s\<lparr>iv_positionMs := max 0 position\<rparr>)"

definition seekableChanged :: "bool \<Rightarrow> inline_video \<Rightarrow> inline_video" where
  "seekableChanged seekable s =
     (if seekable \<and> iv_videoReady s \<and> 0 < iv_startPositionMs s \<and> iv_player s \<noteq> None
      then (set_position (iv_startPositionMs s) s)\<lparr>iv_startPositionMs := 0\<rparr> else s)"

definition durationChanged :: "int \<Rightarrow> inline_video \<Rightarrow> inline_video" where
  "durationChanged duration s = (if 0 < duration then state_changed (s\<lparr>iv_durationMs := duration\<rparr>) else s)"

datatype media_status = EndOfMedia | StalledMedia | BufferingMedia | BufferedMedia | OtherStatus

definition mediaStatusChanged :: "media_status \<Rightarrow> inline_video \<Rightarrow> inline_video" where
  "mediaStatusChanged status s =
     (case status of
        EndOfMedia \<Rightarrow> state_changed ((set_playing False (set_position 0 s))\<lparr>iv_positionMs := 0, iv_paused := True\<rparr>)
      | StalledMedia \<Rightarrow> state_changed (s\<lparr>iv_buffering := True\<rparr>)
      | BufferingMedia \<Rightarrow> state_changed (s\<lparr>iv_buffering := True\<rparr>)
      | BufferedMedia \<Rightarrow> state_changed (s\<lparr>iv_buffering := False\<rparr>)
      | OtherStatus \<Rightarrow> s)"

definition errorOccurred :: "video_env \<Rightarrow> bool \<Rightarrow> inline_video \<Rightarrow> inline_video" where
  "errorOccurred env isResourceError s00 =
     (let s0 = fst (local_copy env s00)
      in if iv_videoStreamActive s0
         then let s1 = s0\<lparr>iv_videoStreamActive := False\<rparr>;
                  s2 = (if 0 < iv_positionMs s1 then s1\<lparr>iv_startPositionMs := iv_positionMs s1\<rparr> else s1);
                  s3 = latch_container env s2
              in if shouldRetryStreamError isResourceError (iv_videoReady s3) (iv_streamContainer s3)
                    \<and> iv_streamRetries s3 < kMaxStreamRetries
                 then scheduleStreamRetry (teardownPlayer (s3\<lparr>iv_streamRetries := iv_streamRetries s3 + 1\<rparr>))
                 else let s4 = (if \<not> iv_videoReady s3 \<and> \<not> iv_streamingEverWorked s3
                                then s3\<lparr>iv_streamingUnavailable := True\<rparr> else s3)
                      in failStreamRetry env (teardownPlayer s4)
         else markFailed s0)"

definition updateRebuffering :: "inline_video \<Rightarrow> inline_video \<times> bool" where
  "updateRebuffering s =
     (if iv_player s = None then (s, False)
      else let (r, action) = rebuffer_evaluate (iv_downloadedFraction s) (iv_positionMs s) (iv_durationMs s)
                               (iv_videoStreamActive s) (iv_paused s) (iv_videoReady s) (iv_rebuffer s);
               s1 = s\<lparr>iv_rebuffer := r\<rparr>
           in case action of
                PauseAction \<Rightarrow> (set_playing False (s1\<lparr>iv_buffering := True\<rparr>), True)
              | PlayAction \<Rightarrow> (set_playing True (s1\<lparr>iv_buffering := False\<rparr>), True)
              | NoAction \<Rightarrow> (s1, False))"

text \<open>The poll of the download, three times a second.\<close>

definition poll_bytes :: "video_env \<Rightarrow> inline_video \<Rightarrow> inline_video" where
  "poll_bytes env s =
     (case (if iv_videoStreamActive s then ve_progressBytes env (iv_mxc s) else None) of
        None \<Rightarrow> s | Some (d, t) \<Rightarrow> s\<lparr>iv_streamDownloadedBytes := d, iv_streamTotalBytes := t\<rparr>)"

definition pollProgress :: "video_env \<Rightarrow> inline_video \<Rightarrow> inline_video" where
  "pollProgress env s =
     (let f = (if iv_videoStreamActive s then ve_progress env (iv_mxc s) else 1);
          s1 = poll_bytes env s;
          container = (if iv_videoStreamActive s1 \<and> iv_streamContainer s1 = UnknownContainer
                       then ve_container env (iv_mxc s1) else iv_streamContainer s1);
          s2 = s1\<lparr>iv_streamContainer := container\<rparr>;
          moved = 1 / 2000 < \<bar>f - iv_downloadedFraction s2\<bar>;
          s3 = (if moved then s2\<lparr>iv_downloadedFraction := f\<rparr> else s2);
          (s4, rebuffered) = updateRebuffering s3
      in if container \<noteq> iv_streamContainer s1 \<or> moved \<or> rebuffered then state_changed s4 else s4)"

subsection \<open>Steps\<close>

datatype video_event =
    Toggle qstring qstring qstring qstring int
  | StopVideo
  | NetworkOnline
  | Viewport bool
  | Fullscreen
  | SeekPaused int
  | SeekFraction real
  | Mute
  | DisplaySize "int \<times> int"
  | Frame image int bool
  | Position int
  | Seekable bool
  | Duration int
  | Status media_status
  | PlayerError bool
  | ProgressTick
  | RetryTick

text \<open>Signals come from a player only, ticks from a running timer.\<close>

primrec on_signal :: "video_env \<Rightarrow> video_event \<Rightarrow> inline_video \<Rightarrow> inline_video" where
  "on_signal env (Toggle ev mxc fn mime d) = toggle_video env ev mxc fn mime d"
| "on_signal env StopVideo = stop_video"
| "on_signal env NetworkOnline = onNetworkOnline env"
| "on_signal env (Viewport v) = pauseForViewport v"
| "on_signal env Fullscreen = pauseForFullscreen"
| "on_signal env (SeekPaused p) = seekPausedTo p"
| "on_signal env (SeekFraction f) = seekToFraction f"
| "on_signal env Mute = toggleMute"
| "on_signal env (DisplaySize d) = setDisplaySize d"
| "on_signal env (Frame i r k) = (\<lambda>s. if iv_player s = None then s else videoFrameChanged env i r k s)"
| "on_signal env (Position p) = (\<lambda>s. if iv_player s = None then s else positionChanged p s)"
| "on_signal env (Seekable k) = (\<lambda>s. if iv_player s = None then s else seekableChanged k s)"
| "on_signal env (Duration d) = (\<lambda>s. if iv_player s = None then s else durationChanged d s)"
| "on_signal env (Status x) = (\<lambda>s. if iv_player s = None then s else mediaStatusChanged x s)"
| "on_signal env (PlayerError e) = (\<lambda>s. if iv_player s = None then s else errorOccurred env e s)"
| "on_signal env ProgressTick = (\<lambda>s. if iv_progressOn s then pollProgress env s else s)"
| "on_signal env RetryTick = (\<lambda>s. if iv_retryOn s then pollStreamRetry env s else s)"

definition video_step :: "inline_video \<Rightarrow> video_env \<times> video_event \<Rightarrow> inline_video" where
  "video_step s x = on_signal (fst x) (snd x) s"

definition video_run :: "inline_video \<Rightarrow> (video_env \<times> video_event) list \<Rightarrow> inline_video" where
  "video_run = foldl video_step"

subsection \<open>The modes of the player\<close>

text \<open>The progress timer runs with the player; the retry timer only while there is no player, after a
  failed stream that may still be played; a video given up has neither.\<close>

definition video_ok :: "inline_video \<Rightarrow> bool" where
  "video_ok s \<longleftrightarrow>
     (iv_progressOn s \<longleftrightarrow> iv_player s \<noteq> None) \<and> (iv_player s = None \<longrightarrow> iv_currentFrame s = None)
     \<and> (iv_retryOn s \<longrightarrow> iv_player s = None \<and> \<not> iv_failed s \<and> \<not> iv_videoStreamActive s \<and> iv_buffering s)
     \<and> (iv_failed s \<longrightarrow> iv_player s = None \<and> \<not> iv_streamDownloadPending s)
     \<and> 0 \<le> iv_streamRetries s \<and> iv_streamRetries s \<le> kMaxStreamRetries"

lemmas video_defs = emit_video_def state_changed_def setupPlayer_def teardownPlayer_def play_source_def
  clear_player_def set_playing_def set_position_def abortStreamRetry_def

lemma local_copy_ok: "video_ok s \<Longrightarrow> video_ok (fst (local_copy env s))"
  by (simp add: local_copy_def video_ok_def split_beta)

lemma local_copy_fields [simp]:
  "iv_retryOn (fst (local_copy env s)) = iv_retryOn s" "iv_failed (fst (local_copy env s)) = iv_failed s"
  "iv_player (fst (local_copy env s)) = iv_player s" "iv_mxc (fst (local_copy env s)) = iv_mxc s"
  "iv_videoStreamActive (fst (local_copy env s)) = iv_videoStreamActive s"
  "iv_videoReady (fst (local_copy env s)) = iv_videoReady s" "iv_streamRetries (fst (local_copy env s)) = iv_streamRetries s"
  by (simp_all add: local_copy_def split_beta)

lemma loadLocal_ok: "video_ok s \<Longrightarrow> \<not> iv_retryOn s \<Longrightarrow> \<not> iv_failed s \<Longrightarrow> video_ok (loadLocal env s)"
  by (auto simp: loadLocal_def video_ok_def video_defs Let_def split_beta)

lemma load_ok: "video_ok s \<Longrightarrow> \<not> iv_retryOn s \<Longrightarrow> \<not> iv_failed s \<Longrightarrow> video_ok (load env s)"
  using local_copy_ok [of s env] loadLocal_ok [of "fst (local_copy env s)" env]
  by (auto simp: load_def Let_def split_beta) (auto simp: video_ok_def video_defs latch_container_def)

lemma latch_ok [simp]: "video_ok (latch_container env s) = video_ok s"
  by (simp add: latch_container_def video_ok_def)

lemma pause_ok: "video_ok s \<Longrightarrow> video_ok (pause_video s)"
  by (auto simp: pause_video_def video_ok_def video_defs)

lemma resume_ok: "video_ok s \<Longrightarrow> video_ok (resume_video s)"
  by (auto simp: resume_video_def video_ok_def video_defs)

lemma markFailed_ok: "video_ok s \<Longrightarrow> video_ok (markFailed s)"
  by (auto simp: markFailed_def video_ok_def video_defs Let_def)

lemma failStreamRetry_ok: "video_ok s \<Longrightarrow> \<not> iv_retryOn s \<Longrightarrow> \<not> iv_failed s \<Longrightarrow> video_ok (failStreamRetry env s)"
  using local_copy_ok [of s env] by (auto simp: failStreamRetry_def split_beta intro: loadLocal_ok markFailed_ok)

lemma stop_ok: "video_ok s \<Longrightarrow> video_ok (stop_video s)"
  by (auto simp: stop_video_def video_ok_def video_defs Let_def kMaxStreamRetries_def)

lemma stop_idle [simp]:
  "\<not> iv_retryOn (stop_video s)" "\<not> iv_failed (stop_video s)" "iv_player (stop_video s) = None"
  by (simp_all add: stop_video_def video_defs Let_def)

lemma start_video_ok: "video_ok (stop_video s) \<Longrightarrow> video_ok (start_video ev mxc fn mime d (stop_video s))"
  by (simp add: start_video_def video_ok_def Let_def split_beta kMaxStreamRetries_def)

lemma start_fields [simp]:
  "iv_retryOn (start_video ev mxc fn mime d s) = iv_retryOn s" "\<not> iv_failed (start_video ev mxc fn mime d s)"
  by (simp_all add: start_video_def Let_def split_beta)

lemma changed_ok [simp]: "video_ok (state_changed s) = video_ok s"
  by (simp add: video_ok_def video_defs)

lemma toggle_ok: "video_ok s \<Longrightarrow> video_ok (toggle_video env ev mxc fn mime d s)"
proof -
  assume s: "video_ok s"
  then have "video_ok (s\<lparr>iv_userPaused := False, iv_viewportPaused := False\<rparr>)" "video_ok (s\<lparr>iv_userPaused := True\<rparr>)"
    by (simp_all add: video_ok_def)
  then show ?thesis
    using start_video_ok [OF stop_ok [OF s]] by (simp add: toggle_video_def pause_ok resume_ok load_ok)
qed

lemma online_ok: "video_ok s \<Longrightarrow> video_ok (onNetworkOnline env s)"
  by (auto simp: onNetworkOnline_def Let_def intro!: load_ok) (auto simp: video_ok_def video_defs kMaxStreamRetries_def)

lemma viewport_ok: "video_ok s \<Longrightarrow> video_ok (pauseForViewport v s)"
  by (auto simp: pauseForViewport_def Let_def intro!: pause_ok resume_ok) (auto simp: video_ok_def)

lemma poll_progress_ok: "video_ok s \<Longrightarrow> video_ok (poll_progress env s)"
  by (auto simp: poll_progress_def Let_def video_ok_def video_defs split: option.splits)

lemma poll_progress_fields [simp]:
  "iv_failed (poll_progress env s) = iv_failed s" "iv_retryOn (poll_progress env s) = iv_retryOn s"
  "iv_videoStreamActive (poll_progress env s) = iv_videoStreamActive s" "iv_mxc (poll_progress env s) = iv_mxc s"
  by (auto simp: poll_progress_def Let_def video_defs split: option.splits)

lemma latch_fields [simp]:
  "iv_failed (latch_container env s) = iv_failed s" "iv_retryOn (latch_container env s) = iv_retryOn s"
  "iv_videoStreamActive (latch_container env s) = iv_videoStreamActive s" "iv_mxc (latch_container env s) = iv_mxc s"
  by (simp_all add: latch_container_def)

lemma abort_ok: "video_ok s \<Longrightarrow> video_ok (abortStreamRetry s)"
  by (simp add: abortStreamRetry_def video_ok_def)

lemma abort_fields [simp]: "\<not> iv_retryOn (abortStreamRetry s)" "iv_failed (abortStreamRetry s) = iv_failed s"
  by (simp_all add: abortStreamRetry_def)

lemma set_retry_ok [simp]:
  "video_ok (s\<lparr>iv_streamRetry := r\<rparr>) = video_ok s" "video_ok (s\<lparr>iv_viewportPaused := b\<rparr>) = video_ok s"
  "video_ok (s\<lparr>iv_streamContainer := c\<rparr>) = video_ok s" "video_ok (s\<lparr>iv_downloadedFraction := f\<rparr>) = video_ok s"
  by (simp_all add: video_ok_def)

lemma poll_retry_ok: "video_ok s \<Longrightarrow> iv_retryOn s \<Longrightarrow> video_ok (pollStreamRetry env s)"
proof -
  assume s: "video_ok s" and on: "iv_retryOn s"
  then have "\<not> iv_failed s" by (simp add: video_ok_def)
  moreover have "video_ok (latch_container env (poll_progress env s))" using s by (simp add: poll_progress_ok)
  ultimately show ?thesis
    by (auto simp: pollStreamRetry_def Let_def split_beta split: retry_action.splits
             intro!: pause_ok load_ok failStreamRetry_ok abort_ok)
qed

lemma frame_ok: "video_ok s \<Longrightarrow> iv_player s \<noteq> None \<Longrightarrow> video_ok (videoFrameChanged env i r k s)"
  by (auto simp: videoFrameChanged_def first_frame_def Let_def video_ok_def video_defs kMaxStreamRetries_def split: option.splits)

lemma status_ok: "video_ok s \<Longrightarrow> iv_player s \<noteq> None \<Longrightarrow> video_ok (mediaStatusChanged x s)"
  by (auto simp: mediaStatusChanged_def video_ok_def video_defs split: media_status.splits)

lemma error_ok: "video_ok s \<Longrightarrow> iv_player s \<noteq> None \<Longrightarrow> video_ok (errorOccurred env e s)"
proof -
  assume s: "video_ok s" and p: "iv_player s \<noteq> None"
  let ?s = "fst (local_copy env s)"
  have ok: "video_ok ?s" and idle: "\<not> iv_retryOn ?s" "\<not> iv_failed ?s"
    using s p local_copy_ok [of s env] by (auto simp: video_ok_def)
  show ?thesis
  proof (cases "iv_videoStreamActive ?s")
    case False
    then show ?thesis using ok by (simp add: errorOccurred_def markFailed_ok)
  next
    case True
    then show ?thesis using ok idle
      by (auto simp: errorOccurred_def Let_def intro!: failStreamRetry_ok)
        (auto simp: video_ok_def video_defs scheduleStreamRetry_def latch_container_def Let_def split: if_splits)
  qed
qed

lemma rebuffering_ok: "video_ok s \<Longrightarrow> video_ok (fst (updateRebuffering s))"
  by (auto simp: updateRebuffering_def Let_def video_ok_def video_defs split_beta split: rebuffer_action.splits)

lemma poll_bytes_ok: "video_ok s \<Longrightarrow> video_ok (poll_bytes env s)"
  by (auto simp: poll_bytes_def video_ok_def split: option.splits)

lemma poll_ok: "video_ok s \<Longrightarrow> video_ok (pollProgress env s)"
  by (auto simp: pollProgress_def Let_def split_beta intro!: rebuffering_ok poll_bytes_ok)

lemma fullscreen_ok: "video_ok s \<Longrightarrow> video_ok (pauseForFullscreen s)"
  by (auto simp: pauseForFullscreen_def intro!: pause_ok) (simp add: video_ok_def)

lemma video_step_ok: "video_ok s \<Longrightarrow> video_ok (video_step s x)"
proof (cases "snd x")
  case (Status y)
  then show "video_ok s \<Longrightarrow> ?thesis" by (simp add: video_step_def status_ok)
qed (simp_all add: video_step_def toggle_ok stop_ok online_ok viewport_ok fullscreen_ok frame_ok error_ok
       poll_ok poll_retry_ok, auto simp: video_ok_def video_defs seekPausedTo_def seekToFraction_def Let_def
       toggleMute_def setDisplaySize_def positionChanged_def seekableChanged_def durationChanged_def)

lemma no_video_ok: "video_ok (no_video cache)"
  by (simp add: video_ok_def no_video_def kMaxStreamRetries_def)

interpretation video: event_machine video_step video_ok
  by unfold_locales (rule video_step_ok)

text \<open>C33: Whatever the timeline, the network and the player do: the progress timer runs exactly while
  there is a player, a frame is shown only of a player, a replay is awaited only without a player
  and only for a video that is not given up, a video given up has no player, no pending download
  and no timer, and no more than three replays are spent on errors.\<close>

theorem video_modes_consistent:
  "video_ok (video_run (no_video cache) es)"
  by (simp add: video_run_def video.run_inv no_video_ok)

subsection \<open>Errors are replayed a bounded number of times\<close>

fun started_over :: "video_event \<Rightarrow> bool" where
  "started_over (Toggle ev mxc fn mime d) \<longleftrightarrow> True"
| "started_over StopVideo \<longleftrightarrow> True"
| "started_over NetworkOnline \<longleftrightarrow> True"
| "started_over e \<longleftrightarrow> False"

text \<open>How often a run begins to wait for a replay.\<close>

fun waits_begun :: "inline_video \<Rightarrow> (video_env \<times> video_event) list \<Rightarrow> int" where
  "waits_begun s [] = 0"
| "waits_begun s (x # xs) =
     (if \<not> iv_retryOn s \<and> iv_retryOn (video_step s x) then 1 else 0) + waits_begun (video_step s x) xs"

definition video_budget :: "inline_video \<Rightarrow> bool \<times> int" where
  "video_budget s = (iv_videoReady s, iv_streamRetries s)"

lemma primitive_budget [simp]:
  "video_budget (setupPlayer s) = video_budget s" "iv_retryOn (setupPlayer s) = iv_retryOn s"
  "video_budget (play_source u s) = video_budget s" "iv_retryOn (play_source u s) = iv_retryOn s"
  "video_budget (teardownPlayer s) = video_budget s" "iv_retryOn (teardownPlayer s) = iv_retryOn s"
  "video_budget (latch_container env s) = video_budget s" "video_budget (abortStreamRetry s) = video_budget s"
  "video_budget (s\<lparr>iv_streamRetry := r\<rparr>) = video_budget s" "video_budget (s\<lparr>iv_viewportPaused := b\<rparr>) = video_budget s"
  "video_budget (s\<lparr>iv_videoStreamActive := b\<rparr>) = video_budget s" "video_budget (s\<lparr>iv_streamDownloadPending := b\<rparr>) = video_budget s"
  "video_budget (s\<lparr>iv_downloadedFraction := f\<rparr>) = video_budget s" "video_budget (s\<lparr>iv_startPositionMs := p\<rparr>) = video_budget s"
  "video_budget (s\<lparr>iv_streamingUnavailable := b\<rparr>) = video_budget s"
  by (simp_all add: video_budget_def video_defs latch_container_def Let_def)

lemma loadLocal_budget [simp]: "video_budget (loadLocal env s) = video_budget s" "iv_retryOn (loadLocal env s) = iv_retryOn s"
  by (simp_all add: loadLocal_def video_budget_def video_defs Let_def split_beta)

lemma local_copy_budget [simp]: "video_budget (fst (local_copy env s)) = video_budget s"
  by (simp add: video_budget_def)

lemma load_budget [simp]: "video_budget (load env s) = video_budget s" "iv_retryOn (load env s) = iv_retryOn s"
  by (simp_all add: load_def Let_def split_beta)

lemma markFailed_budget [simp]: "video_budget (markFailed s) = video_budget s" "\<not> iv_retryOn (markFailed s)"
  by (simp_all add: markFailed_def video_budget_def video_defs Let_def)

lemma schedule_budget [simp]: "video_budget (scheduleStreamRetry s) = video_budget s" "iv_retryOn (scheduleStreamRetry s)"
  by (simp_all add: scheduleStreamRetry_def video_budget_def video_defs Let_def)

lemma pause_budget [simp]: "video_budget (pause_video s) = video_budget s" "iv_retryOn (pause_video s) = iv_retryOn s"
  by (simp_all add: pause_video_def video_budget_def video_defs)

lemma failStreamRetry_budget [simp]:
  "video_budget (failStreamRetry env s) = video_budget s"
  "\<not> iv_retryOn s \<Longrightarrow> \<not> iv_retryOn (failStreamRetry env s)"
  by (simp_all add: failStreamRetry_def split_beta)

lemma poll_progress_budget [simp]: "video_budget (poll_progress env s) = video_budget s"
  by (auto simp: poll_progress_def video_budget_def video_defs Let_def split: option.splits)

lemma poll_retry_budget: "video_budget (pollStreamRetry env s) = video_budget s"
  by (auto simp: pollStreamRetry_def Let_def split_beta split: retry_action.splits)

lemma error_budget:
  assumes "video_ok s" "iv_player s \<noteq> None"
  shows "video_budget (errorOccurred env e s)
       = (iv_videoReady s, iv_streamRetries s + (if iv_retryOn (errorOccurred env e s) then 1 else 0))"
proof -
  have "\<not> iv_retryOn s" using assms by (auto simp: video_ok_def)
  moreover have "video_budget (u\<lparr>iv_streamRetries := n\<rparr>) = (iv_videoReady u, n)" for u n by (simp add: video_budget_def)
  moreover have "iv_videoReady (latch_container env u) = iv_videoReady u" "iv_streamRetries (latch_container env u) = iv_streamRetries u" for u
    by (simp_all add: latch_container_def)
  moreover have "video_budget s = (iv_videoReady s, iv_streamRetries s)" by (simp add: video_budget_def)
  ultimately show ?thesis by (simp add: errorOccurred_def Let_def)
qed

lemma poll_budget [simp]: "video_budget (pollProgress env s) = video_budget s" "iv_retryOn (pollProgress env s) = iv_retryOn s"
proof -
  have "video_budget (poll_bytes env s) = video_budget s" "iv_retryOn (poll_bytes env s) = iv_retryOn s"
    by (auto simp: poll_bytes_def video_budget_def split: option.splits)
  moreover have "video_budget (fst (updateRebuffering u)) = video_budget u" "iv_retryOn (fst (updateRebuffering u)) = iv_retryOn u" for u
    by (simp_all add: updateRebuffering_def video_budget_def video_defs Let_def split_beta split: rebuffer_action.splits)
  moreover have "video_budget (state_changed u) = video_budget u" "iv_retryOn (state_changed u) = iv_retryOn u"
    "video_budget (u\<lparr>iv_streamContainer := c\<rparr>) = video_budget u" for u c
    by (simp_all add: video_budget_def video_defs)
  ultimately show "video_budget (pollProgress env s) = video_budget s" "iv_retryOn (pollProgress env s) = iv_retryOn s"
    by (simp_all add: pollProgress_def Let_def split_beta)
qed

lemma step_budget:
  assumes "video_ok s" "iv_videoReady s" "\<not> started_over (snd x)"
  shows "video_budget (video_step s x)
       = (True, iv_streamRetries s + (if \<not> iv_retryOn s \<and> iv_retryOn (video_step s x) then 1 else 0))"
proof -
  have b: "video_budget s = (True, iv_streamRetries s)" using assms by (simp add: video_budget_def)
  have off: "iv_player s \<noteq> None \<Longrightarrow> \<not> iv_retryOn s" using assms by (auto simp: video_ok_def)
  have quiet: "video_budget (u\<lparr>iv_out := out\<rparr>) = video_budget u" for u out by (simp add: video_budget_def)
  show ?thesis
  proof (cases "snd x")
    case (PlayerError e)
    then show ?thesis using assms b off by (auto simp: video_step_def error_budget)
  next
    case RetryTick
    then show ?thesis using b by (auto simp: video_step_def poll_retry_budget)
  next
    case ProgressTick
    then show ?thesis using b by (simp add: video_step_def)
  next
    case (Frame i r k)
    then show ?thesis using assms b
      by (auto simp: video_step_def videoFrameChanged_def first_frame_def video_budget_def video_defs Let_def split: option.splits)
  next
    case (Status y)
    then show ?thesis using assms b
      by (auto simp: video_step_def mediaStatusChanged_def video_budget_def video_defs split: media_status.splits)
  next
    case (Viewport v)
    then show ?thesis using assms b
      by (auto simp: video_step_def pauseForViewport_def resume_video_def pause_video_def video_budget_def video_defs Let_def)
  qed (use assms b in \<open>auto simp: video_step_def pauseForFullscreen_def pause_video_def seekPausedTo_def seekToFraction_def
      toggleMute_def setDisplaySize_def positionChanged_def seekableChanged_def durationChanged_def
      video_budget_def video_defs Let_def\<close>)
qed


subsection \<open>Runs\<close>

text \<open>A host without a stream (\<open>url\<close> empty) or with one, with or without a local copy (\<open>there\<close>), and what
  the proxy says of its download.\<close>

definition host :: "qstring \<Rightarrow> bool \<Rightarrow> (quint64 \<times> quint64) option \<Rightarrow> bool \<Rightarrow> video_env" where
  "host url there bytes errored =
     \<lparr> ve_media = \<lparr> me_decodeImageBytes = \<lambda>_ _. None, me_exists = \<lambda>_. there, me_readImage = \<lambda>_. None, me_decodeHeic = \<lambda>_. None,
                    me_scaledTo = \<lambda>_ _. None, me_scaledPart = \<lambda>_ _ _ _. None, me_circle = \<lambda>_ _ _ _. None,
                    me_number = \<lambda>_. [], me_real = \<lambda>_. [] \<rparr>,
       ve_playbackPath = \<lambda>path _ _. path, ve_streamUrl = \<lambda>_. url, ve_progress = \<lambda>_. 0, ve_progressBytes = \<lambda>_. bytes,
       ve_errored = \<lambda>_. errored, ve_container = \<lambda>_. UnknownContainer, ve_scaledInto = \<lambda>_ i. i, ve_opaque = \<lambda>i. i \<rparr>"

definition streaming_host :: video_env where "streaming_host = host ''http'' False None False"

definition picture :: image where
  "picture = Some \<lparr> qi_width = 1, qi_height = 1, qi_depth = 32, qi_sizeInBytes = 4, qi_pixels = [] \<rparr>"

definition clicked :: video_event where "clicked = Toggle ''$v'' ''mxc://v'' [] [] 60000"

text \<open>A video playing from the stream.\<close>

definition playing_video :: inline_video where
  "playing_video = video_run (no_video initial_media_cache)
     [(streaming_host, clicked), (streaming_host, Frame picture 0 True), (streaming_host, Position 1000)]"

text \<open>The network drops, the download was seen to fail, and the stream is opened again.\<close>

definition hiccup :: "(video_env \<times> video_event) list" where
  "hiccup = [(streaming_host, PlayerError True), (host ''http'' False None True, RetryTick), (streaming_host, Frame picture 0 True)]"


text \<open>The frame that a replay shows does not refresh the budget, as the comment of the frame handler
  has it, since \<open>_videoReady\<close> stays set from the first playback; nor does it end the download's
  overlay.\<close>

lemma recovery_keeps_budget:
  "iv_videoReady s \<Longrightarrow> iv_streamRetries (videoFrameChanged env i r k s) = iv_streamRetries s
     \<and> (iv_streamDownloadPending (videoFrameChanged env i r k s) \<longleftrightarrow> iv_streamDownloadPending s)"
  by (auto simp: videoFrameChanged_def first_frame_def video_defs Let_def split: option.splits)

lemma recovered_video_given_up:
  "iv_player playing_video \<noteq> None
   \<and> iv_failed (video_run playing_video (hiccup @ hiccup @ [(streaming_host, PlayerError True),
         (host ''http'' False (Some (9, 9)) False, RetryTick), (streaming_host, Frame picture 0 True), (streaming_host, PlayerError True)]))"
  by code_simp

text \<open>A replay that finds neither a stream nor a local copy leaves a spinner that nothing ends: no
  player, no timer, not failed.\<close>

definition spinning :: "inline_video \<Rightarrow> bool" where
  "spinning s \<longleftrightarrow> iv_buffering s \<and> \<not> iv_failed s \<and> iv_player s = None \<and> \<not> iv_retryOn s"

lemma replay_may_spin_for_ever:
  "spinning (video_run playing_video [(streaming_host, PlayerError True), (host [] False None True, RetryTick)])"
  by code_simp

text \<open>A wait that is given up plays the local copy although the row is off screen; a replay would have
  been paused.\<close>

definition is_playing :: "inline_video \<Rightarrow> bool" where
  "is_playing s \<longleftrightarrow> (case iv_player s of None \<Rightarrow> False | Some p \<Rightarrow> mp_playing p)"

lemma fallback_plays_off_screen:
  assumes "iv_player s = None" "snd (localPath (ve_media env) (iv_mxc s) (iv_cache s)) = path" "path \<noteq> []"
    "me_exists (ve_media env) path"
  shows "is_playing (failStreamRetry env s) \<and> iv_viewportVisible (failStreamRetry env s) = iv_viewportVisible s"
proof -
  let ?l = "localPath (ve_media env) (iv_mxc s) (iv_cache s)"
  have "fst ?l = iv_cache s" "snd (localPath (ve_media env) (iv_mxc s) (fst ?l)) = path"
    using assms by (auto simp: localPath_def Let_def split: if_splits)
  with assms show ?thesis
    by (simp add: failStreamRetry_def local_copy_def loadLocal_def is_playing_def video_defs Let_def split_beta)
qed

text \<open>Off screen the replay itself stays silent.\<close>

definition screen_side :: "inline_video \<Rightarrow> bool \<times> bool" where
  "screen_side s = (iv_viewportVisible s, iv_paused s)"

lemma screen_side_kept [simp]:
  "screen_side (loadLocal env s) = screen_side s" "screen_side (load env s) = screen_side s"
  "screen_side (poll_progress env s) = screen_side s" "screen_side (latch_container env s) = screen_side s"
proof -
  show loc: "screen_side (loadLocal env s) = screen_side s" for s
    by (simp add: loadLocal_def screen_side_def video_defs Let_def split_beta)
  show "screen_side (latch_container env s) = screen_side s" for s
    by (simp add: latch_container_def screen_side_def)
  show "screen_side (poll_progress env s) = screen_side s"
    by (auto simp: poll_progress_def screen_side_def video_defs Let_def split: option.splits)
  have "screen_side (fst (local_copy env s)) = screen_side s" by (simp add: local_copy_def screen_side_def split_beta)
  with loc show "screen_side (load env s) = screen_side s"
    by (auto simp: load_def Let_def split_beta) (simp add: screen_side_def video_defs latch_container_def)
qed

lemma replay_off_screen_silent:
  assumes "\<not> iv_viewportVisible s" "\<not> iv_paused s" "iv_player s = None"
  shows "\<not> is_playing (pollStreamRetry env s) \<or> (\<exists>u. pollStreamRetry env s = failStreamRetry env u)"
proof -
  have quiet: "\<not> is_playing (if \<not> iv_viewportVisible u \<and> iv_player u \<noteq> None \<and> \<not> iv_paused u
      then pause_video (u\<lparr>iv_viewportPaused := True\<rparr>) else u)" if "screen_side u = (False, False)" for u
    using that by (auto simp: is_playing_def screen_side_def pause_video_def video_defs split: option.splits)
  have upd: "screen_side (u\<lparr>iv_streamRetry := r, iv_retryOn := b\<rparr>) = screen_side u" for u r b by (simp add: screen_side_def)
  have "screen_side (latch_container env (poll_progress env s)) = (False, False)"
    using assms by (simp add: screen_side_def [of s])
  then have side: "screen_side (load env (abortStreamRetry ((latch_container env (poll_progress env s))\<lparr>iv_streamRetry := r\<rparr>))) = (False, False)" for r
    by (simp add: abortStreamRetry_def upd)
  have "\<not> is_playing ((latch_container env (poll_progress env s))\<lparr>iv_streamRetry := r\<rparr>)" for r
    using assms(3) by (auto simp: is_playing_def latch_container_def poll_progress_def video_defs Let_def split: option.splits)
  moreover define u where "u = latch_container env (poll_progress env s)"
  moreover obtain r a where "pollStreamRetry env s = (case a of
      Replay \<Rightarrow> (let s2 = load env (abortStreamRetry (u\<lparr>iv_streamRetry := r\<rparr>))
                in if \<not> iv_viewportVisible s2 \<and> iv_player s2 \<noteq> None \<and> \<not> iv_paused s2
                   then pause_video (s2\<lparr>iv_viewportPaused := True\<rparr>) else s2)
    | GiveUp \<Rightarrow> failStreamRetry env (abortStreamRetry (u\<lparr>iv_streamRetry := r\<rparr>))
    | Wait \<Rightarrow> u\<lparr>iv_streamRetry := r\<rparr>)"
    unfolding pollStreamRetry_def Let_def split_beta u_def by blast
  ultimately show ?thesis using quiet [OF side] by (cases a) (auto simp: Let_def)
qed

text \<open>A video the user paused plays again after an error of its stream, while it still counts as paused.\<close>

lemma paused_video_plays_again:
  "let s = video_run playing_video [(streaming_host, clicked), (streaming_host, PlayerError True), (host ''http'' False None True, RetryTick)]
   in iv_userPaused s \<and> iv_paused s \<and> is_playing s"
  unfolding Let_def by code_simp

text \<open>When the network comes back a stuck stream whose file is there by now is played from the file,
  but still counts as a stream.\<close>

lemma local_copy_counts_as_stream:
  "let s0 = video_run (no_video (insertPath ''mxc://v'' ''/f'' initial_media_cache)) [(streaming_host, clicked)];
       s1 = s0\<lparr>iv_cache := insertPath ''mxc://v'' ''/f'' (iv_cache s0)\<rparr>;
       s2 = video_step s1 (host ''http'' True None False, NetworkOnline)
   in map_option mp_source (iv_player s2) = Some ''/f'' \<and> iv_videoStreamActive s2"
  unfolding Let_def by code_simp

end
