(* ===== verification/Verification_Pages.thy ===== *)
theory Verification_Pages imports TM_Prelude begin

section \<open>Verification: rules and pages\<close>

text \<open>
  The rules that route the events of a verification
  (\<^verbatim>\<open>src/src/protocol/verification_page_rules.cpp\<close>), what the bridge keeps of a start call
  (\<^verbatim>\<open>protocol_bridge.cpp\<close>), and the pages of the session verification: emoji, QR code
  (\<^verbatim>\<open>src/src/intro/intro_verify_emoji.cpp\<close>, \<^verbatim>\<open>intro_verify_qr.cpp\<close>), choice, recovery key and set-up.
  A page is what its fields and the enabled buttons make it; texts, painting and layout are left
  out, an error message is its kind.  A flow id or a code is a string; the null id is the empty one.
  Request ids are natural numbers: the counter of the code, an unsigned 64-bit word, does not wrap
  in any run.
\<close>

subsection \<open>Rules\<close>

definition kRequesting :: int where "kRequesting = 0"
definition kWaitingForReady :: int where "kWaitingForReady = 1"
definition kReady :: int where "kReady = 2"
definition kQrCodeReady :: int where "kQrCodeReady = 6"
definition kQrCodeScanned :: int where "kQrCodeScanned = 7"
definition kDone :: int where "kDone = 8"
definition kCancelled :: int where "kCancelled = 9"

lemmas state_numbers = kRequesting_def kWaitingForReady_def kReady_def kQrCodeReady_def kQrCodeScanned_def
  kDone_def kCancelled_def

definition isSecurityCancelCode :: "qstring \<Rightarrow> bool" where
  "isSecurityCancelCode code \<longleftrightarrow>
     code = ''m.key_mismatch'' \<or> code = ''m.user_error'' \<or> code = ''m.mismatched_sas''"

definition flowMatches :: "qstring \<Rightarrow> qstring \<Rightarrow> bool" where
  "flowMatches eventFlow pageFlow \<longleftrightarrow> eventFlow = [] \<or> pageFlow = [] \<or> eventFlow = pageFlow"

definition acceptDone :: "qstring \<Rightarrow> qstring \<Rightarrow> bool" where
  "acceptDone eventFlow pageFlow = (if pageFlow = [] then False else eventFlow = [] \<or> eventFlow = pageFlow)"

definition showCancelledOnEmojiPage :: "qstring \<Rightarrow> qstring \<Rightarrow> qstring \<Rightarrow> bool" where
  "showCancelledOnEmojiPage eventFlow pageFlow ignoredFlow =
     (if eventFlow \<noteq> [] \<and> eventFlow = ignoredFlow then False
      else if eventFlow \<noteq> [] \<and> pageFlow \<noteq> [] \<and> eventFlow \<noteq> pageFlow then False
      else True)"

definition showCancelledOnQrPage :: "qstring \<Rightarrow> qstring \<Rightarrow> bool" where
  "showCancelledOnQrPage eventFlow pageFlow = (if pageFlow = [] then False else eventFlow = [] \<or> eventFlow = pageFlow)"

definition emojisReviveIgnoredFlow :: "qstring \<Rightarrow> qstring \<Rightarrow> bool" where
  "emojisReviveIgnoredFlow eventFlow ignoredFlow \<longleftrightarrow> eventFlow \<noteq> [] \<and> eventFlow = ignoredFlow"

definition emojisBelongToPage :: "qstring \<Rightarrow> qstring \<Rightarrow> qstring \<Rightarrow> bool" where
  "emojisBelongToPage eventFlow pageFlow ignoredFlow =
     (if eventFlow = [] then True else eventFlow = pageFlow \<or> eventFlow = ignoredFlow)"

definition adoptCancelCodeStrict :: "qstring \<Rightarrow> qstring \<Rightarrow> bool" where
  "adoptCancelCodeStrict eventFlow pageFlow \<longleftrightarrow> eventFlow \<noteq> [] \<and> pageFlow \<noteq> [] \<and> eventFlow = pageFlow"

definition qrLatchesFromState :: "int \<Rightarrow> qstring \<Rightarrow> qstring \<Rightarrow> bool" where
  "qrLatchesFromState state eventFlow pageFlow =
     (if pageFlow \<noteq> [] \<or> eventFlow = [] then False
      else state = kReady \<or> state = kQrCodeReady \<or> state = kQrCodeScanned)"

definition dialogAcceptsDone :: "qstring \<Rightarrow> qstring \<Rightarrow> bool \<Rightarrow> bool" where
  "dialogAcceptsDone eventFlow dialogFlow emojisShown = (if \<not> emojisShown then False else flowMatches eventFlow dialogFlow)"

subsection \<open>The bridge\<close>

datatype verification_call =
    StartSas nat qstring
  | StartUser nat qstring
  | StartQr nat
  | ConfirmSas
  | MismatchSas
  | ConfirmQr
  | CancelFlow qstring
  | RecoveryKey qstring
  | SetupRecovery
  | ResetRecovery
  | GetCapabilities

text \<open>The next request id, the start calls whose reply is to be cancelled, and the calls made.\<close>

record verification_bridge =
  vb_next :: nat
  vb_cancelOn :: "nat list"
  vb_calls :: "verification_call list"

definition call_bridge :: "verification_call \<Rightarrow> verification_bridge \<Rightarrow> verification_bridge" where
  "call_bridge c b = b\<lparr>vb_calls := vb_calls b @ [c]\<rparr>"

definition start_call :: "(nat \<Rightarrow> verification_call) \<Rightarrow> verification_bridge \<Rightarrow> verification_bridge \<times> nat" where
  "start_call mk b = (call_bridge (mk (vb_next b)) (b\<lparr>vb_next := vb_next b + 1\<rparr>), vb_next b)"

definition cancelVerification :: "qstring \<Rightarrow> verification_bridge \<Rightarrow> verification_bridge" where
  "cancelVerification flow = call_bridge (CancelFlow flow)"

definition cancelVerificationOnStartReply :: "nat \<Rightarrow> verification_bridge \<Rightarrow> verification_bridge" where
  "cancelVerificationOnStartReply i b = (if i = 0 then b else b\<lparr>vb_cancelOn := vb_cancelOn b @ [i]\<rparr>)"

text \<open>The connections of the above; each fires once.\<close>

definition cancel_on_reply :: "nat \<Rightarrow> bool \<Rightarrow> qstring \<Rightarrow> verification_bridge \<Rightarrow> verification_bridge" where
  "cancel_on_reply i success flow b =
     (let hits = filter (\<lambda>j. j = i) (vb_cancelOn b)
      in b\<lparr>vb_cancelOn := filter (\<lambda>j. j \<noteq> i) (vb_cancelOn b),
           vb_calls := vb_calls b @ (if success \<and> flow \<noteq> [] then map (\<lambda>_. CancelFlow flow) hits else [])\<rparr>)"

subsection \<open>The emoji page\<close>

datatype verify_failure = StartFailed | ConfirmFailed | KeysMismatched | DeniedOrTimedOut

definition cancel_failure :: "qstring \<Rightarrow> verify_failure" where
  "cancel_failure code = (if isSecurityCancelCode code then KeysMismatched else DeniedOrTimedOut)"

record emoji_page =
  ep_emojis :: "qstring list"
  ep_labels :: "qstring list"
  ep_waiting :: bool
  ep_ignoredFlowId :: qstring
  ep_requestFlowId :: qstring
  ep_startRequestId :: nat
  ep_flowId :: qstring
  ep_lastCancelCode :: qstring
  ep_presentPending :: bool
  ep_pendingEmojis :: "qstring list"
  ep_pendingLabels :: "qstring list"
  ep_matchEnabled :: bool
  ep_mismatchEnabled :: bool
  ep_methodsEnabled :: bool
  ep_methodsShown :: bool
  ep_retryShown :: bool
  ep_error :: "verify_failure option"

definition new_emoji_page :: emoji_page where
  "new_emoji_page = \<lparr> ep_emojis = [], ep_labels = [], ep_waiting = False, ep_ignoredFlowId = [], ep_requestFlowId = [],
     ep_startRequestId = 0, ep_flowId = [], ep_lastCancelCode = [], ep_presentPending = False,
     ep_pendingEmojis = [], ep_pendingLabels = [], ep_matchEnabled = False, ep_mismatchEnabled = True,
     ep_methodsEnabled = True, ep_methodsShown = True, ep_retryShown = False, ep_error = None \<rparr>"

definition em_currentFlowId :: "emoji_page \<Rightarrow> qstring" where
  "em_currentFlowId p = (if ep_flowId p = [] then ep_requestFlowId p else ep_flowId p)"

definition ignoreFlow :: "qstring \<Rightarrow> emoji_page \<Rightarrow> emoji_page" where
  "ignoreFlow flow p = p\<lparr>ep_ignoredFlowId := flow\<rparr>"

definition setRequestFlowId :: "qstring \<Rightarrow> emoji_page \<Rightarrow> emoji_page" where
  "setRequestFlowId flow p = p\<lparr>ep_requestFlowId := flow\<rparr>"

definition setShowsAlternativeMethods :: "bool \<Rightarrow> emoji_page \<Rightarrow> emoji_page" where
  "setShowsAlternativeMethods shown p = p\<lparr>ep_methodsShown := shown\<rparr>"

definition presentAdoptedSas :: "qstring \<Rightarrow> qstring list \<Rightarrow> qstring list \<Rightarrow> emoji_page \<Rightarrow> emoji_page" where
  "presentAdoptedSas flow emojis labels p =
     p\<lparr>ep_flowId := flow, ep_presentPending := True, ep_pendingEmojis := emojis, ep_pendingLabels := labels\<rparr>"

definition resetForAttempt :: "emoji_page \<Rightarrow> emoji_page" where
  "resetForAttempt p =
     p\<lparr>ep_emojis := [], ep_labels := [], ep_flowId := [], ep_startRequestId := 0, ep_lastCancelCode := [],
       ep_waiting := False, ep_error := None, ep_retryShown := False, ep_matchEnabled := False,
       ep_mismatchEnabled := False, ep_methodsEnabled := True\<rparr>"

definition presentEmojis :: "qstring list \<Rightarrow> qstring list \<Rightarrow> emoji_page \<Rightarrow> emoji_page" where
  "presentEmojis emojis labels p =
     p\<lparr>ep_emojis := emojis, ep_labels := labels, ep_error := None, ep_matchEnabled := True,
       ep_mismatchEnabled := True, ep_methodsEnabled := False\<rparr>"

definition em_startVerification :: "emoji_page \<times> verification_bridge \<Rightarrow> emoji_page \<times> verification_bridge" where
  "em_startVerification x =
     (let p = resetForAttempt (fst x); (b, i) = start_call (\<lambda>i. StartSas i (ep_requestFlowId p)) (snd x)
      in (p\<lparr>ep_startRequestId := i\<rparr>, b))"

definition em_activate :: "emoji_page \<times> verification_bridge \<Rightarrow> emoji_page \<times> verification_bridge" where
  "em_activate x =
     (let (p0, b) = x
      in if ep_presentPending p0
         then let p1 = p0\<lparr>ep_presentPending := False\<rparr>; adopted = ep_flowId p1; p2 = (resetForAttempt p1)\<lparr>ep_flowId := adopted\<rparr>
              in (presentEmojis (ep_pendingEmojis p2) (ep_pendingLabels p2) p2, b)
         else em_startVerification x)"

definition em_setWaitingState :: "bool \<Rightarrow> emoji_page \<Rightarrow> emoji_page" where
  "em_setWaitingState waiting p =
     (if waiting then p\<lparr>ep_waiting := True, ep_matchEnabled := False, ep_mismatchEnabled := False,
                        ep_retryShown := False, ep_methodsEnabled := False\<rparr>
      else p\<lparr>ep_waiting := False, ep_matchEnabled := (ep_emojis p \<noteq> []), ep_mismatchEnabled := (ep_emojis p \<noteq> []),
             ep_methodsEnabled := True\<rparr>)"

definition em_showFailure :: "verify_failure \<Rightarrow> emoji_page \<Rightarrow> emoji_page" where
  "em_showFailure f p =
     p\<lparr>ep_emojis := [], ep_labels := [], ep_waiting := False, ep_matchEnabled := False, ep_mismatchEnabled := False,
       ep_methodsEnabled := True, ep_error := Some f, ep_retryShown := True\<rparr>"

definition em_submit :: "emoji_page \<times> verification_bridge \<Rightarrow> emoji_page \<times> verification_bridge" where
  "em_submit x =
     (let (p, b) = x in if ep_waiting p then x else (em_setWaitingState True p, call_bridge ConfirmSas b))"

definition em_onStarted :: "bool \<Rightarrow> nat \<Rightarrow> bool \<Rightarrow> qstring \<Rightarrow> emoji_page \<Rightarrow> emoji_page" where
  "em_onStarted visible i success flow p0 =
     (if i \<noteq> ep_startRequestId p0 \<or> ep_startRequestId p0 = 0 then p0
      else let p = p0\<lparr>ep_startRequestId := 0\<rparr>
           in if success then p\<lparr>ep_flowId := flow\<rparr>
              else if \<not> visible then p
              else em_showFailure StartFailed (if ep_requestFlowId p \<noteq> [] then p\<lparr>ep_requestFlowId := []\<rparr> else p))"

definition em_onEmojis :: "bool \<Rightarrow> qstring \<Rightarrow> qstring list \<Rightarrow> qstring list \<Rightarrow> emoji_page \<Rightarrow> emoji_page" where
  "em_onEmojis visible flow emojis labels p =
     (if \<not> visible then p
      else if \<not> emojisBelongToPage flow (ep_flowId p) (ep_ignoredFlowId p) then p
      else let p1 = (if emojisReviveIgnoredFlow flow (ep_ignoredFlowId p) then p\<lparr>ep_ignoredFlowId := []\<rparr> else p);
               p2 = (if flow \<noteq> [] then p1\<lparr>ep_flowId := flow\<rparr> else p1)
           in presentEmojis emojis labels p2)"

definition em_onSasConfirmed :: "bool \<Rightarrow> emoji_page \<Rightarrow> emoji_page" where
  "em_onSasConfirmed success p = (if success then p else em_showFailure ConfirmFailed (em_setWaitingState False p))"

definition em_onCancelInfo :: "bool \<Rightarrow> qstring \<Rightarrow> qstring \<Rightarrow> emoji_page \<Rightarrow> emoji_page" where
  "em_onCancelInfo visible flow code p =
     (if \<not> visible then p else if adoptCancelCodeStrict flow (ep_flowId p) then p\<lparr>ep_lastCancelCode := code\<rparr> else p)"

text \<open>The page, and whether it emits \<open>verified\<close>.\<close>

definition em_onState :: "bool \<Rightarrow> int \<Rightarrow> qstring \<Rightarrow> emoji_page \<Rightarrow> emoji_page \<times> bool" where
  "em_onState visible state flow p =
     (if \<not> visible then (p, False)
      else if state = kDone then (p, acceptDone flow (ep_flowId p))
      else if state \<noteq> kCancelled then (p, False)
      else if \<not> showCancelledOnEmojiPage flow (ep_flowId p) (ep_ignoredFlowId p) then (p, False)
      else (em_showFailure (cancel_failure (ep_lastCancelCode p)) (em_setWaitingState False p), False))"

subsection \<open>The QR page\<close>

record qr_page =
  qp_modules :: qstring
  qp_qrSize :: int
  qp_scanned :: bool
  qp_waiting :: bool
  qp_startRequestId :: nat
  qp_flowId :: qstring
  qp_lastCancelCode :: qstring
  qp_continueEnabled :: bool
  qp_methodsEnabled :: bool
  qp_retryShown :: bool
  qp_error :: "verify_failure option"

definition new_qr_page :: qr_page where
  "new_qr_page = \<lparr> qp_modules = [], qp_qrSize = 0, qp_scanned = False, qp_waiting = False, qp_startRequestId = 0,
     qp_flowId = [], qp_lastCancelCode = [], qp_continueEnabled = True, qp_methodsEnabled = True,
     qp_retryShown = False, qp_error = None \<rparr>"

definition qr_startVerification :: "qr_page \<times> verification_bridge \<Rightarrow> qr_page \<times> verification_bridge" where
  "qr_startVerification x =
     (let (b, i) = start_call StartQr (snd x)
      in ((fst x)\<lparr>qp_modules := [], qp_qrSize := 0, qp_scanned := False, qp_waiting := False, qp_flowId := [],
                  qp_lastCancelCode := [], qp_error := None, qp_retryShown := False, qp_continueEnabled := False,
                  qp_methodsEnabled := True, qp_startRequestId := i\<rparr>, b))"

definition qr_setWaitingState :: "bool \<Rightarrow> qr_page \<Rightarrow> qr_page" where
  "qr_setWaitingState waiting p =
     (if waiting then p\<lparr>qp_waiting := True, qp_continueEnabled := False, qp_methodsEnabled := False\<rparr>
      else p\<lparr>qp_waiting := False, qp_continueEnabled := qp_scanned p, qp_methodsEnabled := True\<rparr>)"

definition qr_showFailure :: "verify_failure \<Rightarrow> qr_page \<Rightarrow> qr_page" where
  "qr_showFailure f p =
     p\<lparr>qp_modules := [], qp_qrSize := 0, qp_scanned := False, qp_waiting := False, qp_continueEnabled := False,
       qp_methodsEnabled := True, qp_error := Some f, qp_retryShown := True\<rparr>"

definition qr_submit :: "qr_page \<times> verification_bridge \<Rightarrow> qr_page \<times> verification_bridge" where
  "qr_submit x =
     (let (p, b) = x
      in if qp_waiting p \<or> \<not> qp_scanned p then x else (qr_setWaitingState True p, call_bridge ConfirmQr b))"

definition onQrCodeReady :: "bool \<Rightarrow> nat \<Rightarrow> bool \<Rightarrow> qstring \<Rightarrow> qr_page \<Rightarrow> qr_page" where
  "onQrCodeReady visible i success flow p0 =
     (if i \<noteq> qp_startRequestId p0 \<or> qp_startRequestId p0 = 0 then p0
      else let p = p0\<lparr>qp_startRequestId := 0\<rparr>
           in if success then p\<lparr>qp_flowId := flow\<rparr>
              else if \<not> visible then p
              else qr_showFailure StartFailed (p\<lparr>qp_modules := [], qp_qrSize := 0\<rparr>))"

definition onQrCodeData :: "bool \<Rightarrow> qstring \<Rightarrow> qstring \<Rightarrow> int \<Rightarrow> qr_page \<Rightarrow> qr_page" where
  "onQrCodeData visible flow modules sz p =
     (if \<not> visible \<or> modules = [] \<or> sz \<le> 0 then p
      else if \<not> flowMatches flow (qp_flowId p) then p
      else (if flow \<noteq> [] then p\<lparr>qp_flowId := flow\<rparr> else p)\<lparr>qp_modules := modules, qp_qrSize := sz, qp_error := None\<rparr>)"

definition onQrScanConfirmed :: "bool \<Rightarrow> qr_page \<Rightarrow> qr_page" where
  "onQrScanConfirmed success p = (if success then p else qr_showFailure ConfirmFailed (qr_setWaitingState False p))"

definition setScannedState :: "qr_page \<Rightarrow> qr_page" where
  "setScannedState p = p\<lparr>qp_scanned := True, qp_waiting := False, qp_continueEnabled := True, qp_methodsEnabled := False\<rparr>"

definition qr_onCancelInfo :: "bool \<Rightarrow> qstring \<Rightarrow> qstring \<Rightarrow> qr_page \<Rightarrow> qr_page" where
  "qr_onCancelInfo visible flow code p =
     (if \<not> visible then p else if adoptCancelCodeStrict flow (qp_flowId p) then p\<lparr>qp_lastCancelCode := code\<rparr> else p)"

definition qr_onState :: "bool \<Rightarrow> int \<Rightarrow> qstring \<Rightarrow> qr_page \<Rightarrow> qr_page \<times> bool" where
  "qr_onState visible state flow p0 =
     (if \<not> visible then (p0, False)
      else let p = (if qrLatchesFromState state flow (qp_flowId p0) then p0\<lparr>qp_flowId := flow\<rparr> else p0)
           in if state = kDone then (p, acceptDone flow (qp_flowId p))
              else if state = kQrCodeScanned then (setScannedState p, False)
              else if state = kCancelled
              then (if \<not> showCancelledOnQrPage flow (qp_flowId p) then (p, False)
                    else (qr_showFailure (cancel_failure (qp_lastCancelCode p)) (qr_setWaitingState False p), False))
              else (p, False))"

end
