(* ===== verification/Recovery_Key.thy ===== *)
theory Recovery_Key imports TM_Prelude begin

section \<open>The recovery key as it is typed\<close>

text \<open>
  \<^verbatim>\<open>src/src/ui/recovery_key_format.cpp\<close>: a recovery key is shown in groups of four while the user
  types, and the cursor stays behind the same character.  \<open>QChar::isSpace\<close> is that of Latin-1.
\<close>

definition is_space :: "char \<Rightarrow> bool" where
  "is_space c \<longleftrightarrow> (let n = of_char c :: nat in n = 32 \<or> 9 \<le> n \<and> n \<le> 13 \<or> n = 133 \<or> n = 160)"

definition trimmed_key :: "qstring \<Rightarrow> qstring" where
  "trimmed_key str = rev (dropWhile is_space (rev (dropWhile is_space str)))"

definition kGroupSize :: nat where "kGroupSize = 4"

definition SeparatorsBefore :: "nat \<Rightarrow> nat" where
  "SeparatorsBefore keyChars = (if 0 < keyChars then (keyChars - 1) div kGroupSize else 0)"

text \<open>The first loop: the key, and its characters before the cursor.\<close>

fun collect_key :: "nat \<Rightarrow> int \<Rightarrow> qstring \<Rightarrow> qstring \<times> nat" where
  "collect_key i cursor [] = ([], 0)"
| "collect_key i cursor (ch # input) =
     (let (key, n) = collect_key (Suc i) cursor input
      in if is_space ch then (key, n) else (ch # key, if int i < cursor then Suc n else n))"

text \<open>The second loop.\<close>

fun group_key :: "nat \<Rightarrow> qstring \<Rightarrow> qstring" where
  "group_key i [] = []"
| "group_key i (ch # key) = (if 0 < i \<and> i mod kGroupSize = 0 then '' '' else []) @ ch # group_key (Suc i) key"

definition FormatRecoveryKey :: "qstring \<Rightarrow> int \<Rightarrow> qstring \<times> nat" where
  "FormatRecoveryKey input cursor =
     (let (key, n) = collect_key 0 cursor input in (group_key 0 key, n + SeparatorsBefore n))"

subsection \<open>Nothing but spaces changes\<close>

abbreviation key_of :: "qstring \<Rightarrow> qstring" where
  "key_of \<equiv> filter (\<lambda>c. \<not> is_space c)"

lemma space_is_space [simp]: "is_space CHR '' ''"
  by (simp add: is_space_def Let_def)

lemma collect_key_eq: "collect_key i cursor input = (key_of input, length (key_of (take (nat (cursor - int i)) input)))"
proof (induction input arbitrary: i)
  case (Cons ch input)
  have "nat (cursor - int i) = (if int i < cursor then Suc (nat (cursor - int (Suc i))) else 0)" by auto
  then show ?case by (auto simp: Cons.IH)
qed simp

lemma group_key_of [simp]: "key_of (group_key i key) = key_of key"
  by (induction i key rule: group_key.induct) auto

text \<open>Formatting a recovery key changes nothing but its spaces, formatting it again changes nothing
  at all, wherever the cursor is, and the text has no other spaces than those between the groups.\<close>

theorem recovery_key_kept:
  "key_of (fst (FormatRecoveryKey input cursor)) = key_of input
   \<and> fst (FormatRecoveryKey (fst (FormatRecoveryKey input cursor)) cursor2) = fst (FormatRecoveryKey input cursor)"
  by (simp add: FormatRecoveryKey_def collect_key_eq)

lemma separators_Suc: "SeparatorsBefore (Suc n) = n div kGroupSize"
  by (simp add: SeparatorsBefore_def)

lemma length_group_key:
  "key_of key = key \<Longrightarrow> length (group_key 0 key) = length key + SeparatorsBefore (length key)"
proof (induction key rule: rev_induct)
  case (snoc c key)
  have split: "group_key i (xs @ [c]) = group_key i xs @ (if 0 < i + length xs \<and> (i + length xs) mod kGroupSize = 0 then '' '' else []) @ [c]" for i xs
    by (induction i xs rule: group_key.induct) simp_all
  have "length (group_key 0 key) = length key + SeparatorsBefore (length key)"
    using snoc.IH snoc.prems by (simp add: filter_id_conv del: filter_append)
  moreover have "SeparatorsBefore (Suc n) = (if 0 < n \<and> n mod kGroupSize = 0 then 1 else 0) + SeparatorsBefore n" for n
    by (cases n) (auto simp: SeparatorsBefore_def kGroupSize_def, presburger+)
  ultimately show ?case by (simp only: split add_0_left length_append) simp
qed (simp add: SeparatorsBefore_def)

lemma take_group_key:
  "n \<le> length key \<Longrightarrow> take (length (group_key i (take n key))) (group_key i key) = group_key i (take n key)"
proof (induction i key arbitrary: n rule: group_key.induct)
  case (2 i ch key)
  then show ?case by (cases n) auto
qed simp

text \<open>The cursor stays behind the character it was behind.\<close>

theorem recovery_cursor_kept:
  fixes input cursor
  defines "r \<equiv> FormatRecoveryKey input cursor"
  shows "snd r \<le> length (fst r) \<and> key_of (take (snd r) (fst r)) = key_of (take (nat cursor) input)"
proof -
  define n where "n = length (key_of (take (nat cursor) input))"
  have key: "key_of input = key_of (take (nat cursor) input) @ key_of (drop (nat cursor) input)"
    by (metis append_take_drop_id filter_append)
  then have "take n (key_of input) = key_of (take (nat cursor) input)" "n \<le> length (key_of input)"
    by (simp_all add: n_def)
  moreover have "length (group_key 0 (take n (key_of input))) = n + SeparatorsBefore n"
    using length_group_key [of "key_of (take (nat cursor) input)"] calculation by (simp add: n_def)
  moreover have r: "r = (group_key 0 (key_of input), n + SeparatorsBefore n)"
    by (simp add: r_def FormatRecoveryKey_def collect_key_eq n_def)
  moreover have prefix: "take (n + SeparatorsBefore n) (group_key 0 (key_of input)) = group_key 0 (take n (key_of input))"
    using take_group_key [of n "key_of input" 0] calculation by simp
  moreover have "n + SeparatorsBefore n \<le> length (group_key 0 (key_of input))"
    by (metis calculation(3) length_take min.cobounded1 prefix)
  ultimately show ?thesis by simp
qed

end
