(* ===== verification/Verification_Flow.thy ===== *)
theory Verification_Flow imports Verification_Pages Recovery_Key begin

section \<open>Verification: the session's flow and the user dialog\<close>

text \<open>
  \<open>VerificationFlow\<close> (\<^verbatim>\<open>src/src/intro/verification_flow.cpp\<close>) with the pages it hosts, and
  \<open>VerifyUserDialog\<close> (\<^verbatim>\<open>src/src/settings/dialogs/verify_user_dialog.cpp\<close>); both can be open at once and
  both hear every signal of the bridge.  The host is the pop-up of a running session, where the skip
  links are hidden, so skipping is left out.  A page is visible when it is the current one.

  A slot that is connected earlier runs earlier: the pages before the flow, the surfaces before the
  connections of \<open>cancelVerificationOnStartReply\<close>.
\<close>

subsection \<open>Choosing a method\<close>

record choice_page =
  ch_checking :: bool
  ch_cardsShown :: bool
  ch_recoveryEnabled :: bool
  ch_recoveryCardEnabled :: bool
  ch_labelShown :: bool
  ch_labelTimerOn :: bool
  ch_timeoutOn :: bool

definition new_choice_page :: choice_page where
  "new_choice_page = \<lparr> ch_checking = False, ch_cardsShown = True, ch_recoveryEnabled = True,
     ch_recoveryCardEnabled = True, ch_labelShown = False, ch_labelTimerOn = False, ch_timeoutOn = False \<rparr>"

definition ch_activate :: "choice_page \<times> verification_bridge \<Rightarrow> choice_page \<times> verification_bridge" where
  "ch_activate x =
     ((fst x)\<lparr>ch_checking := True, ch_cardsShown := False, ch_labelShown := False, ch_labelTimerOn := True, ch_timeoutOn := True\<rparr>,
      call_bridge GetCapabilities (snd x))"

definition revealChoices :: "choice_page \<Rightarrow> choice_page" where
  "revealChoices p = p\<lparr>ch_checking := False, ch_labelTimerOn := False, ch_timeoutOn := False, ch_labelShown := False,
     ch_recoveryCardEnabled := ch_recoveryEnabled p, ch_cardsShown := True\<rparr>"

text \<open>The page, and whether it emits \<open>setupEncryptionNeeded\<close>.\<close>

definition onCapabilitiesReady :: "bool \<Rightarrow> bool \<Rightarrow> bool \<Rightarrow> choice_page \<Rightarrow> choice_page \<times> bool" where
  "onCapabilitiesReady success canDevice canRecovery p =
     (if \<not> ch_checking p then (p, False)
      else if \<not> success then (revealChoices p, False)
      else if \<not> canDevice \<and> \<not> canRecovery
      then (p\<lparr>ch_checking := False, ch_labelTimerOn := False, ch_timeoutOn := False\<rparr>, True)
      else (revealChoices (p\<lparr>ch_recoveryEnabled := canRecovery\<rparr>), False))"

definition ch_onLabelTimer :: "choice_page \<Rightarrow> choice_page" where
  "ch_onLabelTimer p = (if ch_labelTimerOn p
     then (if ch_checking p then p\<lparr>ch_labelTimerOn := False, ch_labelShown := True\<rparr> else p\<lparr>ch_labelTimerOn := False\<rparr>) else p)"

definition ch_onTimeout :: "choice_page \<Rightarrow> choice_page" where
  "ch_onTimeout p = (if ch_timeoutOn p
     then (if ch_checking p then revealChoices (p\<lparr>ch_timeoutOn := False\<rparr>) else p\<lparr>ch_timeoutOn := False\<rparr>) else p)"

subsection \<open>The recovery key\<close>

datatype key_error = NoKey | InvalidKey

record recovery_page =
  rk_active :: bool
  rk_submitting :: bool
  rk_text :: qstring
  rk_inputEnabled :: bool
  rk_verifyEnabled :: bool
  rk_linksEnabled :: bool
  rk_error :: "key_error option"

definition new_recovery_page :: recovery_page where
  "new_recovery_page = \<lparr> rk_active = False, rk_submitting = False, rk_text = [], rk_inputEnabled = True,
     rk_verifyEnabled = False, rk_linksEnabled = True, rk_error = None \<rparr>"

definition updateSubmitState :: "recovery_page \<Rightarrow> recovery_page" where
  "updateSubmitState p =
     (let hasText = trimmed_key (rk_text p) \<noteq> []
      in p\<lparr>rk_verifyEnabled := hasText \<and> \<not> rk_submitting p, rk_linksEnabled := \<not> rk_submitting p,
           rk_error := (if hasText then None else rk_error p)\<rparr>)"

definition rk_edit :: "qstring \<Rightarrow> int \<Rightarrow> recovery_page \<Rightarrow> recovery_page" where
  "rk_edit str cursor p = updateSubmitState (p\<lparr>rk_text := fst (FormatRecoveryKey str cursor)\<rparr>)"

definition rk_submit :: "recovery_page \<times> verification_bridge \<Rightarrow> recovery_page \<times> verification_bridge" where
  "rk_submit x =
     (let (p, b) = x; str = trimmed_key (rk_text p)
      in if rk_submitting p then x
         else if str = [] then (p\<lparr>rk_error := Some NoKey\<rparr>, b)
         else (p\<lparr>rk_error := None, rk_submitting := True, rk_inputEnabled := False, rk_verifyEnabled := False,
                 rk_linksEnabled := False\<rparr>, call_bridge (RecoveryKey str) b))"

definition rk_onVerifyResult :: "bool \<Rightarrow> recovery_page \<Rightarrow> recovery_page \<times> bool" where
  "rk_onVerifyResult success p0 =
     (let p = updateSubmitState (p0\<lparr>rk_submitting := False, rk_inputEnabled := True, rk_linksEnabled := True\<rparr>)
      in if \<not> rk_active p then (p, False)
         else if success then (p\<lparr>rk_error := None\<rparr>, True)
         else (p\<lparr>rk_error := Some InvalidKey\<rparr>, False))"

definition rk_deactivate :: "recovery_page \<Rightarrow> recovery_page" where
  "rk_deactivate p = p\<lparr>rk_active := False\<rparr>"

definition rk_activate :: "recovery_page \<Rightarrow> recovery_page" where
  "rk_activate p0 =
     (let p = p0\<lparr>rk_active := True, rk_error := None\<rparr>;
          p1 = (if rk_submitting p then p\<lparr>rk_submitting := False, rk_inputEnabled := True\<rparr> else p)
      in updateSubmitState (p1\<lparr>rk_linksEnabled := \<not> rk_submitting p1\<rparr>))"

subsection \<open>Setting encryption up\<close>

datatype setup_state = Working | KeyReady | BackupExists | SetupFailed

record setup_page =
  su_active :: bool
  su_requested :: bool
  su_key :: qstring
  su_saved :: bool
  su_state :: setup_state

definition new_setup_page :: setup_page where
  "new_setup_page = \<lparr> su_active = False, su_requested = False, su_key = [], su_saved = False, su_state = Working \<rparr>"

definition startSetup :: "setup_page \<times> verification_bridge \<Rightarrow> setup_page \<times> verification_bridge" where
  "startSetup x =
     ((fst x)\<lparr>su_requested := True, su_key := [], su_saved := False, su_state := Working\<rparr>, call_bridge SetupRecovery (snd x))"

definition su_activate :: "setup_page \<times> verification_bridge \<Rightarrow> setup_page \<times> verification_bridge" where
  "su_activate x =
     (let p = (fst x)\<lparr>su_active := True\<rparr> in if su_requested p then (p, snd x) else startSetup (p, snd x))"

definition su_deactivate :: "setup_page \<Rightarrow> setup_page" where
  "su_deactivate p = p\<lparr>su_active := False, su_requested := False\<rparr>"

definition onSetupResult :: "bool \<Rightarrow> qstring \<Rightarrow> int \<Rightarrow> setup_page \<Rightarrow> setup_page" where
  "onSetupResult success key errorCode p =
     (if \<not> su_active p then p
      else if success then p\<lparr>su_key := key, su_state := KeyReady\<rparr>
      else if errorCode = 1 then p\<lparr>su_state := BackupExists\<rparr>
      else p\<lparr>su_state := SetupFailed\<rparr>)"

text \<open>The button is hidden while working and disabled until the key is said to be saved.  The page,
  the bridge, and whether it emits \<open>done\<close>.\<close>

definition su_submit :: "setup_page \<times> verification_bridge \<Rightarrow> (setup_page \<times> verification_bridge) \<times> bool" where
  "su_submit x =
     (let (p, b) = x
      in if \<not> su_active p then (x, False)
         else case su_state p of
                Working \<Rightarrow> (x, False)
              | KeyReady \<Rightarrow> (x, su_saved p)
              | BackupExists \<Rightarrow> ((p\<lparr>su_state := Working\<rparr>, call_bridge ResetRecovery b), False)
              | SetupFailed \<Rightarrow> (startSetup x, False))"

subsection \<open>The flow\<close>

datatype flow_step = ChoiceStep | EmojiStep | QrStep | RecoveryKeyStep | SuccessStep | SetupStep

datatype flow_output = Verified | FlowDone

record verification_flow =
  vf_step :: flow_step
  vf_choice :: choice_page
  vf_emoji :: emoji_page
  vf_qr :: qr_page
  vf_recovery :: recovery_page
  vf_setup :: setup_page
  vf_verified :: bool
  vf_finished :: bool
  vf_out :: "flow_output list"

definition new_flow :: verification_flow where
  "new_flow = \<lparr> vf_step = ChoiceStep, vf_choice = new_choice_page, vf_emoji = new_emoji_page, vf_qr = new_qr_page,
     vf_recovery = new_recovery_page, vf_setup = new_setup_page, vf_verified = False, vf_finished = False, vf_out = [] \<rparr>"

type_synonym flow_state = "verification_flow \<times> verification_bridge"

definition on_emoji :: "(emoji_page \<times> verification_bridge \<Rightarrow> emoji_page \<times> verification_bridge) \<Rightarrow> flow_state \<Rightarrow> flow_state" where
  "on_emoji g x = (let (p, b) = g (vf_emoji (fst x), snd x) in ((fst x)\<lparr>vf_emoji := p\<rparr>, b))"

definition on_qr :: "(qr_page \<times> verification_bridge \<Rightarrow> qr_page \<times> verification_bridge) \<Rightarrow> flow_state \<Rightarrow> flow_state" where
  "on_qr g x = (let (p, b) = g (vf_qr (fst x), snd x) in ((fst x)\<lparr>vf_qr := p\<rparr>, b))"

definition activeFlowId :: "verification_flow \<Rightarrow> qstring" where
  "activeFlowId f = (case vf_step f of EmojiStep \<Rightarrow> em_currentFlowId (vf_emoji f) | QrStep \<Rightarrow> qp_flowId (vf_qr f) | _ \<Rightarrow> [])"

definition pendingStartRequestId :: "verification_flow \<Rightarrow> nat" where
  "pendingStartRequestId f =
     (case vf_step f of EmojiStep \<Rightarrow> ep_startRequestId (vf_emoji f) | QrStep \<Rightarrow> qp_startRequestId (vf_qr f) | _ \<Rightarrow> 0)"

definition showStep :: "flow_step \<Rightarrow> flow_state \<Rightarrow> flow_state" where
  "showStep step x =
     (let f = (fst x)\<lparr>vf_step := step\<rparr>; b = snd x
      in case step of
           ChoiceStep \<Rightarrow> (let (p, b1) = ch_activate (vf_choice f, b) in (f\<lparr>vf_choice := p\<rparr>, b1))
         | EmojiStep \<Rightarrow> on_emoji em_activate (f, b)
         | QrStep \<Rightarrow> on_qr qr_startVerification (f, b)
         | RecoveryKeyStep \<Rightarrow> (f\<lparr>vf_recovery := rk_activate (vf_recovery f)\<rparr>, b)
         | SuccessStep \<Rightarrow> (f, b)
         | SetupStep \<Rightarrow> (let (p, b1) = su_activate (vf_setup f, b) in (f\<lparr>vf_setup := p\<rparr>, b1)))"

definition start_flow :: "qstring option \<Rightarrow> flow_state \<Rightarrow> flow_state" where
  "start_flow incoming x =
     (case incoming of
        None \<Rightarrow> showStep ChoiceStep x
      | Some flow \<Rightarrow>
          showStep EmojiStep ((fst x)\<lparr>vf_emoji := setShowsAlternativeMethods False (setRequestFlowId flow (vf_emoji (fst x)))\<rparr>, snd x))"

definition onVerified :: "flow_state \<Rightarrow> flow_state" where
  "onVerified x =
     showStep SuccessStep ((fst x)\<lparr>vf_verified := True, vf_finished := True, vf_out := vf_out (fst x) @ [Verified]\<rparr>, snd x)"

definition cancel_flow :: "flow_state \<Rightarrow> flow_state" where
  "cancel_flow x =
     (let (f0, b) = x
      in if vf_finished f0 then x
         else let f = f0\<lparr>vf_finished := True, vf_recovery := rk_deactivate (vf_recovery f0), vf_setup := su_deactivate (vf_setup f0)\<rparr>;
                  flow = activeFlowId f; pending = pendingStartRequestId f
              in (f, if flow = [] \<and> pending \<noteq> 0 then cancelVerificationOnStartReply pending b else cancelVerification flow b))"

text \<open>Leaving a method page: its flow is cancelled first.\<close>

definition leave_for :: "flow_step \<Rightarrow> flow_state \<Rightarrow> flow_state" where
  "leave_for step x = showStep step (fst x, cancelVerification (activeFlowId (fst x)) (snd x))"

subsection \<open>Its events\<close>

datatype flow_click =
    QrCard | EmojiCard | RecoveryCard | LabelTimer | ChoiceTimeout
  | TheyMatch | TheyDontMatch | EmojiRetry | EmojiUseRecovery | EmojiUseQr
  | ScanContinue | QrRetry | QrUseEmoji | QrUseRecovery
  | EditKey qstring int | VerifyKey | RecoveryUseEmoji | RecoveryUseQr
  | SetupContinue | SavedKey bool | SuccessContinue

text \<open>A click reaches a button that is shown and enabled.\<close>

definition emoji_click :: "flow_click \<Rightarrow> flow_state \<Rightarrow> flow_state" where
  "emoji_click c x =
     (let p = vf_emoji (fst x)
      in case c of
           TheyMatch \<Rightarrow> if ep_matchEnabled p then on_emoji em_submit x else x
         | TheyDontMatch \<Rightarrow> if ep_mismatchEnabled p then showStep ChoiceStep (fst x, call_bridge MismatchSas (snd x)) else x
         | EmojiRetry \<Rightarrow> if ep_retryShown p then on_emoji em_startVerification x else x
         | EmojiUseRecovery \<Rightarrow> if ep_methodsShown p \<and> ep_methodsEnabled p then leave_for RecoveryKeyStep x else x
         | EmojiUseQr \<Rightarrow> if ep_methodsShown p \<and> ep_methodsEnabled p then leave_for QrStep x else x
         | _ \<Rightarrow> x)"

definition qr_click :: "flow_click \<Rightarrow> flow_state \<Rightarrow> flow_state" where
  "qr_click c x =
     (let p = vf_qr (fst x)
      in case c of
           ScanContinue \<Rightarrow> if qp_continueEnabled p then on_qr qr_submit x else x
         | QrRetry \<Rightarrow> if qp_retryShown p then on_qr qr_startVerification x else x
         | QrUseEmoji \<Rightarrow>
             if qp_methodsEnabled p
             then leave_for EmojiStep ((fst x)\<lparr>vf_emoji := ignoreFlow (qp_flowId p) (vf_emoji (fst x))\<rparr>, snd x) else x
         | QrUseRecovery \<Rightarrow> if qp_methodsEnabled p then leave_for RecoveryKeyStep x else x
         | _ \<Rightarrow> x)"

definition recovery_click :: "flow_click \<Rightarrow> flow_state \<Rightarrow> flow_state" where
  "recovery_click c x =
     (let f = fst x; p = vf_recovery f; left = f\<lparr>vf_recovery := rk_deactivate p\<rparr>
      in case c of
           EditKey str cursor \<Rightarrow> if rk_inputEnabled p then (f\<lparr>vf_recovery := rk_edit str cursor p\<rparr>, snd x) else x
         | VerifyKey \<Rightarrow> (let (p1, b) = rk_submit (p, snd x) in (f\<lparr>vf_recovery := p1\<rparr>, b))
         | RecoveryUseEmoji \<Rightarrow> if rk_linksEnabled p then showStep EmojiStep (left, snd x) else x
         | RecoveryUseQr \<Rightarrow> if rk_linksEnabled p then showStep QrStep (left, snd x) else x
         | _ \<Rightarrow> x)"

definition choice_click :: "flow_click \<Rightarrow> flow_state \<Rightarrow> flow_state" where
  "choice_click c x =
     (let f = fst x; p = vf_choice f
      in if \<not> ch_cardsShown p then x
         else case c of
           QrCard \<Rightarrow> showStep QrStep x
         | EmojiCard \<Rightarrow> showStep EmojiStep (f\<lparr>vf_emoji := setRequestFlowId [] (vf_emoji f)\<rparr>, snd x)
         | RecoveryCard \<Rightarrow> if ch_recoveryCardEnabled p then showStep RecoveryKeyStep x else x
         | _ \<Rightarrow> x)"

definition setup_click :: "flow_click \<Rightarrow> flow_state \<Rightarrow> flow_state" where
  "setup_click c x =
     (let f = fst x; p = vf_setup f
      in case c of
           SavedKey on \<Rightarrow> if su_state p = KeyReady then (f\<lparr>vf_setup := p\<lparr>su_saved := on\<rparr>\<rparr>, snd x) else x
         | SetupContinue \<Rightarrow>
             (let ((p1, b), finished) = su_submit (p, snd x)
              in if finished
                 then (f\<lparr>vf_setup := su_deactivate p1, vf_verified := True, vf_finished := True,
                        vf_out := vf_out f @ [Verified, FlowDone]\<rparr>, b)
                 else (f\<lparr>vf_setup := p1\<rparr>, b))
         | _ \<Rightarrow> x)"

definition flow_clicked :: "flow_click \<Rightarrow> flow_state \<Rightarrow> flow_state" where
  "flow_clicked c x =
     (let f = fst x
      in if c = LabelTimer then (f\<lparr>vf_choice := ch_onLabelTimer (vf_choice f)\<rparr>, snd x)
         else if c = ChoiceTimeout then (f\<lparr>vf_choice := ch_onTimeout (vf_choice f)\<rparr>, snd x)
         else case vf_step f of
                ChoiceStep \<Rightarrow> choice_click c x
              | EmojiStep \<Rightarrow> emoji_click c x
              | QrStep \<Rightarrow> qr_click c x
              | RecoveryKeyStep \<Rightarrow> recovery_click c x
              | SuccessStep \<Rightarrow> if c = SuccessContinue then (f\<lparr>vf_out := vf_out f @ [FlowDone]\<rparr>, snd x) else x
              | SetupStep \<Rightarrow> setup_click c x)"

datatype bridge_signal =
    SasStarted nat bool qstring
  | EmojisAvailable qstring "qstring list" "qstring list"
  | SasConfirmed bool
  | CancelInfo qstring qstring
  | StateIs int qstring
  | QrReady nat bool qstring
  | QrData qstring qstring int
  | QrConfirmed bool
  | KeyVerified bool
  | SetupResult bool qstring int
  | Capabilities bool bool bool

definition flow_state_changed :: "int \<Rightarrow> qstring \<Rightarrow> flow_state \<Rightarrow> flow_state" where
  "flow_state_changed state flow x0 =
     (let f = fst x0; (p, v) = em_onState (vf_step f = EmojiStep) state flow (vf_emoji f);
          x = (if v then onVerified (f\<lparr>vf_emoji := p\<rparr>, snd x0) else (f\<lparr>vf_emoji := p\<rparr>, snd x0));
          (q, w) = qr_onState (vf_step (fst x) = QrStep) state flow (vf_qr (fst x));
          y = ((fst x)\<lparr>vf_qr := q\<rparr>, snd x)
      in if w then onVerified y else y)"

definition flow_emojis :: "qstring \<Rightarrow> qstring list \<Rightarrow> qstring list \<Rightarrow> flow_state \<Rightarrow> flow_state" where
  "flow_emojis flow emojis labels x =
     (let f = (fst x)\<lparr>vf_emoji := em_onEmojis (vf_step (fst x) = EmojiStep) flow emojis labels (vf_emoji (fst x))\<rparr>
      in if vf_step f \<noteq> QrStep then (f, snd x)
         else showStep EmojiStep (f\<lparr>vf_emoji := presentAdoptedSas flow emojis labels (vf_emoji f)\<rparr>, snd x))"

definition flow_signal :: "bridge_signal \<Rightarrow> flow_state \<Rightarrow> flow_state" where
  "flow_signal g x =
     (let f = fst x; b = snd x; onEmojiPage = (vf_step f = EmojiStep); onQrPage = (vf_step f = QrStep)
      in case g of
           SasStarted i ok flow \<Rightarrow> (f\<lparr>vf_emoji := em_onStarted onEmojiPage i ok flow (vf_emoji f)\<rparr>, b)
         | EmojisAvailable flow es ls \<Rightarrow> flow_emojis flow es ls x
         | SasConfirmed ok \<Rightarrow> (f\<lparr>vf_emoji := em_onSasConfirmed ok (vf_emoji f)\<rparr>, b)
         | CancelInfo flow code \<Rightarrow> (f\<lparr>vf_emoji := em_onCancelInfo onEmojiPage flow code (vf_emoji f),
                                       vf_qr := qr_onCancelInfo onQrPage flow code (vf_qr f)\<rparr>, b)
         | StateIs state flow \<Rightarrow> flow_state_changed state flow x
         | QrReady i ok flow \<Rightarrow> (f\<lparr>vf_qr := onQrCodeReady onQrPage i ok flow (vf_qr f)\<rparr>, b)
         | QrData flow modules sz \<Rightarrow> (f\<lparr>vf_qr := onQrCodeData onQrPage flow modules sz (vf_qr f)\<rparr>, b)
         | QrConfirmed ok \<Rightarrow> (f\<lparr>vf_qr := onQrScanConfirmed ok (vf_qr f)\<rparr>, b)
         | KeyVerified ok \<Rightarrow> (let (p, v) = rk_onVerifyResult ok (vf_recovery f); y = (f\<lparr>vf_recovery := p\<rparr>, b)
                              in if v then onVerified y else y)
         | SetupResult ok key code \<Rightarrow> (f\<lparr>vf_setup := onSetupResult ok key code (vf_setup f)\<rparr>, b)
         | Capabilities ok dev rec \<Rightarrow> (let (p, needed) = onCapabilitiesReady ok dev rec (vf_choice f); y = (f\<lparr>vf_choice := p\<rparr>, b)
                                     in if needed then showStep SetupStep y else y))"

end
