(* ===== verification/Verify_User.thy ===== *)
theory Verify_User imports Verification_Flow begin

section \<open>Verification: another user\<close>

text \<open>
  \<open>VerifyUserDialog\<close> (\<^verbatim>\<open>src/src/settings/dialogs/verify_user_dialog.cpp\<close>) and, around it, the windows
  that verify at the same time: the pop-up with the session's flow and the dialogs, of which a new one
  rejects the one open before but not yet gone (its event loop runs below the new one's).
\<close>

record user_dialog =
  vd_transactionId :: qstring
  vd_lastCancelCode :: qstring
  vd_startRequestId :: nat
  vd_emojisShown :: bool
  vd_targetUserId :: qstring
  vd_startPending :: bool
  vd_success :: bool
  vd_grid :: "(qstring list \<times> qstring list) option"
  vd_failure :: "verify_failure option"
  vd_titleFailed :: bool
  vd_matchEnabled :: bool
  vd_matchCloses :: bool
  vd_noMatchShown :: bool
  vd_result :: "bool option"

definition new_dialog :: "qstring \<Rightarrow> qstring \<Rightarrow> user_dialog" where
  "new_dialog target flow = \<lparr> vd_transactionId = flow, vd_lastCancelCode = [], vd_startRequestId = 0, vd_emojisShown = False,
     vd_targetUserId = target, vd_startPending = True, vd_success = False, vd_grid = None, vd_failure = None,
     vd_titleFailed = False, vd_matchEnabled = False, vd_matchCloses = False, vd_noMatchShown = True, vd_result = None \<rparr>"

type_synonym dialog_state = "user_dialog \<times> verification_bridge"

text \<open>The single shot of the constructor.\<close>

definition dialog_start :: "dialog_state \<Rightarrow> dialog_state" where
  "dialog_start x =
     (let d = (fst x)\<lparr>vd_startPending := False\<rparr>;
          (b, i) = start_call (\<lambda>i. if vd_targetUserId d \<noteq> [] then StartUser i (vd_targetUserId d)
                                 else StartSas i (vd_transactionId d)) (snd x)
      in if vd_startPending (fst x) then (d\<lparr>vd_startRequestId := i\<rparr>, b) else x)"

definition showEmojiFailure :: "verify_failure \<Rightarrow> user_dialog \<Rightarrow> user_dialog" where
  "showEmojiFailure why d = d\<lparr>vd_noMatchShown := False, vd_grid := None, vd_failure := Some why, vd_titleFailed := True,
     vd_matchEnabled := True, vd_matchCloses := True\<rparr>"

definition showEmojis :: "qstring list \<Rightarrow> qstring list \<Rightarrow> user_dialog \<Rightarrow> user_dialog" where
  "showEmojis emojis labels d = d\<lparr>vd_grid := Some (emojis, labels), vd_failure := None, vd_matchEnabled := True\<rparr>"

definition dialog_reject :: "dialog_state \<Rightarrow> dialog_state" where
  "dialog_reject x =
     (let (d, b) = x
      in (d\<lparr>vd_result := Some False\<rparr>,
          if vd_transactionId d = [] \<and> vd_startRequestId d \<noteq> 0 then cancelVerificationOnStartReply (vd_startRequestId d) b
          else cancelVerification (vd_transactionId d) b))"

definition dialog_accept :: "dialog_state \<Rightarrow> dialog_state" where
  "dialog_accept x = ((fst x)\<lparr>vd_result := Some True\<rparr>, snd x)"

definition vd_onStarted :: "nat \<Rightarrow> bool \<Rightarrow> qstring \<Rightarrow> user_dialog \<Rightarrow> user_dialog" where
  "vd_onStarted i success flow d0 =
     (if i \<noteq> vd_startRequestId d0 \<or> vd_startRequestId d0 = 0 then d0
      else let d = d0\<lparr>vd_startRequestId := 0\<rparr>
           in if success then (if vd_transactionId d = [] then d\<lparr>vd_transactionId := flow\<rparr> else d)
              else showEmojiFailure StartFailed d)"

definition vd_onEmojis :: "qstring \<Rightarrow> qstring list \<Rightarrow> qstring list \<Rightarrow> user_dialog \<Rightarrow> user_dialog" where
  "vd_onEmojis flow emojis labels d =
     (if vd_transactionId d = [] \<or> flow \<noteq> [] \<and> flow \<noteq> vd_transactionId d then d
      else showEmojis emojis labels (d\<lparr>vd_emojisShown := True\<rparr>))"

definition vd_onSasConfirmed :: "bool \<Rightarrow> user_dialog \<Rightarrow> user_dialog" where
  "vd_onSasConfirmed success d = (if success then d else showEmojiFailure ConfirmFailed d)"

definition vd_onCancelInfo :: "qstring \<Rightarrow> qstring \<Rightarrow> user_dialog \<Rightarrow> user_dialog" where
  "vd_onCancelInfo flow code d =
     (if adoptCancelCodeStrict flow (vd_transactionId d) then d\<lparr>vd_lastCancelCode := code\<rparr> else d)"

definition vd_onState :: "int \<Rightarrow> qstring \<Rightarrow> user_dialog \<Rightarrow> user_dialog" where
  "vd_onState state flow d =
     (if vd_success d then d
      else if \<not> flowMatches flow (vd_transactionId d) then d
      else if state = kDone
      then (if \<not> dialogAcceptsDone flow (vd_transactionId d) (vd_emojisShown d) then d
            else d\<lparr>vd_success := True, vd_titleFailed := False\<rparr>)
      else if state = kCancelled then showEmojiFailure (cancel_failure (vd_lastCancelCode d)) d
      else d)"

definition dialog_signal :: "bridge_signal \<Rightarrow> user_dialog \<Rightarrow> user_dialog" where
  "dialog_signal g d =
     (case g of
        SasStarted i ok flow \<Rightarrow> vd_onStarted i ok flow d
      | EmojisAvailable flow es ls \<Rightarrow> vd_onEmojis flow es ls d
      | SasConfirmed ok \<Rightarrow> vd_onSasConfirmed ok d
      | CancelInfo flow code \<Rightarrow> vd_onCancelInfo flow code d
      | StateIs state flow \<Rightarrow> vd_onState state flow d
      | _ \<Rightarrow> d)"

datatype dialog_click = ClickMatch | ClickNoMatch | ClickClose | ClickDone

definition dialog_clicked :: "dialog_click \<Rightarrow> dialog_state \<Rightarrow> dialog_state" where
  "dialog_clicked c x =
     (let (d, b) = x
      in case c of
           ClickMatch \<Rightarrow>
             if vd_success d \<or> \<not> vd_matchEnabled d then x
             else if vd_matchCloses d then dialog_reject x
             else (d\<lparr>vd_matchEnabled := False, vd_noMatchShown := False\<rparr>, call_bridge ConfirmSas b)
         | ClickNoMatch \<Rightarrow> if \<not> vd_success d \<and> vd_noMatchShown d then dialog_reject (d, call_bridge MismatchSas b) else x
         | ClickClose \<Rightarrow> dialog_reject x
         | ClickDone \<Rightarrow> if vd_success d then dialog_accept x else x)"

subsection \<open>All windows\<close>

text \<open>Dialogs are known by the number of their opening.\<close>

record verification_windows =
  vw_bridge :: verification_bridge
  vw_flow :: "verification_flow option"
  vw_dialogs :: "(nat \<times> user_dialog) list"
  vw_active :: "nat option"
  vw_opened :: nat

definition no_windows :: verification_windows where
  "no_windows = \<lparr> vw_bridge = \<lparr> vb_next = 1, vb_cancelOn = [], vb_calls = [] \<rparr>, vw_flow = None, vw_dialogs = [],
     vw_active = None, vw_opened = 0 \<rparr>"

definition with_dialog :: "nat \<Rightarrow> (dialog_state \<Rightarrow> dialog_state) \<Rightarrow> verification_windows \<Rightarrow> verification_windows" where
  "with_dialog k g w =
     (case map_of (vw_dialogs w) k of
        None \<Rightarrow> w
      | Some d \<Rightarrow> (let (d1, b) = g (d, vw_bridge w)
                   in w\<lparr>vw_dialogs := map (\<lambda>(j, e). (j, if j = k then d1 else e)) (vw_dialogs w), vw_bridge := b\<rparr>))"

definition open_dialog :: "qstring \<Rightarrow> qstring \<Rightarrow> verification_windows \<Rightarrow> verification_windows" where
  "open_dialog target flow w0 =
     (let w = (case vw_active w0 of None \<Rightarrow> w0 | Some k \<Rightarrow> with_dialog k dialog_reject w0)
      in w\<lparr>vw_dialogs := vw_dialogs w @ [(vw_opened w, new_dialog target flow)], vw_active := Some (vw_opened w),
           vw_opened := vw_opened w + 1\<rparr>)"

definition dialog_gone :: "nat \<Rightarrow> verification_windows \<Rightarrow> verification_windows" where
  "dialog_gone k w =
     w\<lparr>vw_dialogs := filter (\<lambda>(j, _). j \<noteq> k) (vw_dialogs w), vw_active := (if vw_active w = Some k then None else vw_active w)\<rparr>"

definition with_flow :: "(flow_state \<Rightarrow> flow_state) \<Rightarrow> verification_windows \<Rightarrow> verification_windows" where
  "with_flow g w =
     (case vw_flow w of
        None \<Rightarrow> w | Some f \<Rightarrow> (let (f1, b) = g (f, vw_bridge w) in w\<lparr>vw_flow := Some f1, vw_bridge := b\<rparr>))"

text \<open>\<open>ShowVerifySessionPopup\<close>: the box that is open already is raised; closing it cancels unless verified.\<close>

definition open_flow :: "qstring \<Rightarrow> verification_windows \<Rightarrow> verification_windows" where
  "open_flow incoming w =
     (if vw_flow w \<noteq> None then w
      else with_flow (start_flow (if incoming = [] then None else Some incoming)) (w\<lparr>vw_flow := Some new_flow\<rparr>))"

definition close_flow :: "verification_windows \<Rightarrow> verification_windows" where
  "close_flow w =
     (let w1 = with_flow (\<lambda>x. if vf_verified (fst x) then x else cancel_flow x) w in w1\<lparr>vw_flow := None\<rparr>)"

text \<open>A reply runs the connections of \<open>cancelVerificationOnStartReply\<close> too.\<close>

definition reply_connections :: "bridge_signal \<Rightarrow> verification_bridge \<Rightarrow> verification_bridge" where
  "reply_connections g b =
     (case g of SasStarted i ok flow \<Rightarrow> cancel_on_reply i ok flow b | QrReady i ok flow \<Rightarrow> cancel_on_reply i ok flow b | _ \<Rightarrow> b)"

definition bridge_emits :: "bridge_signal \<Rightarrow> verification_windows \<Rightarrow> verification_windows" where
  "bridge_emits g w0 =
     (let w = with_flow (flow_signal g) w0
      in w\<lparr>vw_dialogs := map (\<lambda>(j, d). (j, dialog_signal g d)) (vw_dialogs w), vw_bridge := reply_connections g (vw_bridge w)\<rparr>)"

datatype window_event =
    OpenFlow qstring
  | CloseFlow
  | FlowClick flow_click
  | OpenDialog qstring qstring
  | StartDialog nat
  | DialogClick nat dialog_click
  | DialogGone nat
  | Bridge bridge_signal

definition window_step :: "verification_windows \<Rightarrow> window_event \<Rightarrow> verification_windows" where
  "window_step w e =
     (case e of
        OpenFlow incoming \<Rightarrow> open_flow incoming w
      | CloseFlow \<Rightarrow> close_flow w
      | FlowClick c \<Rightarrow> with_flow (flow_clicked c) w
      | OpenDialog target flow \<Rightarrow> open_dialog target flow w
      | StartDialog k \<Rightarrow> with_dialog k dialog_start w
      | DialogClick k c \<Rightarrow> with_dialog k (dialog_clicked c) w
      | DialogGone k \<Rightarrow> dialog_gone k w
      | Bridge g \<Rightarrow> bridge_emits g w)"

definition window_run :: "verification_windows \<Rightarrow> window_event list \<Rightarrow> verification_windows" where
  "window_run = foldl window_step"

end
