(* ===== verification/Verification_Properties.thy ===== *)
theory Verification_Properties imports Verify_User begin

section \<open>Verification: what a user may believe\<close>

text \<open>
  A user is called verified only after the emojis of the dialog's own flow; what "They match"
  confirms is a delivery the page accepted; a start call has one owner; a start that is abandoned
  is cancelled when its reply names the flow.  The last section holds the runs in which a page takes
  another flow for its own, or leaves or ends the wrong one.
\<close>

subsection \<open>One dialog\<close>

datatype dialog_event = DialogStarts verification_bridge | Heard bridge_signal | Clicked dialog_click verification_bridge

definition dialog_step :: "user_dialog \<Rightarrow> dialog_event \<Rightarrow> user_dialog" where
  "dialog_step d e =
     (case e of
        DialogStarts b \<Rightarrow> fst (dialog_start (d, b))
      | Heard g \<Rightarrow> dialog_signal g d
      | Clicked c b \<Rightarrow> fst (dialog_clicked c (d, b)))"

definition dialog_run :: "qstring \<Rightarrow> qstring \<Rightarrow> dialog_event list \<Rightarrow> user_dialog" where
  "dialog_run target flow = foldl dialog_step (new_dialog target flow)"

lemma dialog_run_snoc [simp]: "dialog_run target flow (es @ [e]) = dialog_step (dialog_run target flow es) e"
  by (simp add: dialog_run_def)

text \<open>The reply that named the flow came to a start of this dialog.\<close>

definition named_by_own_start :: "dialog_event list \<Rightarrow> qstring \<Rightarrow> bool" where
  "named_by_own_start es flow \<longleftrightarrow>
     (\<exists>i b. DialogStarts b \<in> set es \<and> vb_next b = i \<and> Heard (SasStarted i True flow) \<in> set es)"

lemma named_later: "named_by_own_start es flow \<Longrightarrow> named_by_own_start (es @ [e]) flow"
  by (auto simp: named_by_own_start_def)

definition dialog_traced :: "qstring \<Rightarrow> dialog_event list \<Rightarrow> user_dialog \<Rightarrow> bool" where
  "dialog_traced flow es d \<longleftrightarrow>
     (vd_startRequestId d \<noteq> 0 \<longrightarrow> (\<exists>b. DialogStarts b \<in> set es \<and> vb_next b = vd_startRequestId d))
     \<and> (vd_transactionId d \<noteq> [] \<longrightarrow> vd_transactionId d = flow \<or> named_by_own_start es (vd_transactionId d))
     \<and> (vd_emojisShown d \<longrightarrow> vd_transactionId d \<noteq> []
          \<and> (\<exists>g em la. Heard (EmojisAvailable g em la) \<in> set es \<and> (g = [] \<or> g = vd_transactionId d)))"

lemmas dialog_defs = dialog_signal_def vd_onStarted_def vd_onEmojis_def vd_onSasConfirmed_def vd_onCancelInfo_def vd_onState_def
  showEmojiFailure_def showEmojis_def Let_def

lemma dialog_clicked_keeps [simp]:
  "vd_startRequestId (fst (dialog_clicked c x)) = vd_startRequestId (fst x)"
  "vd_transactionId (fst (dialog_clicked c x)) = vd_transactionId (fst x)"
  "vd_emojisShown (fst (dialog_clicked c x)) = vd_emojisShown (fst x)"
  "vd_success (fst (dialog_clicked c x)) = vd_success (fst x)"
  by (cases x; cases c; simp add: dialog_clicked_def dialog_reject_def dialog_accept_def Let_def)+

lemma dialog_traced_step:
  assumes "dialog_traced flow es d"
  shows "dialog_traced flow (es @ [e]) (dialog_step d e)"
proof (cases e)
  case (DialogStarts b)
  then show ?thesis using assms named_later [of es _ e]
    by (auto simp: dialog_traced_def dialog_step_def dialog_start_def start_call_def Let_def)
next
  case (Clicked c b)
  then show ?thesis using assms named_later [of es _ e] by (auto simp: dialog_traced_def dialog_step_def)
next
  case (Heard g)
  show ?thesis
  proof (cases g)
    case (SasStarted i ok f)
    show ?thesis
    proof (cases "i = vd_startRequestId d \<and> i \<noteq> 0 \<and> ok \<and> vd_transactionId d = []")
      case True
      with assms Heard SasStarted have "named_by_own_start (es @ [e]) f"
        by (auto simp: dialog_traced_def named_by_own_start_def)
      with True assms Heard SasStarted show ?thesis by (auto simp: dialog_traced_def dialog_step_def dialog_defs)
    next
      case False
      with assms Heard SasStarted named_later [of es _ e] show ?thesis
        by (auto simp: dialog_traced_def dialog_step_def dialog_defs)
    qed
  qed (use assms Heard named_later [of es _ e] in \<open>auto simp: dialog_traced_def dialog_step_def dialog_defs dialogAcceptsDone_def\<close>)
qed

lemma dialog_run_traced: "dialog_traced flow es (dialog_run target flow es)"
proof (induction es rule: rev_induct)
  case Nil
  then show ?case by (simp add: dialog_traced_def dialog_run_def new_dialog_def)
qed (simp add: dialog_traced_step)

text \<open>C5: A dialog calls a user verified only when, in this order, it was given its flow (with the request it
  answers, or by the reply to its own start call), emojis of this flow (or untagged ones) were
  shown, and the flow was reported done; whatever else the bridge reports of other flows.\<close>

theorem verified_after_own_emojis:
  assumes "vd_success (dialog_run target flow es)"
  obtains before g after where "es = before @ Heard (StateIs kDone g) # after"
    "let own = vd_transactionId (dialog_run target flow before)
     in own \<noteq> [] \<and> (own = flow \<or> named_by_own_start before own) \<and> (g = [] \<or> g = own)
        \<and> (\<exists>h em la. Heard (EmojisAvailable h em la) \<in> set before \<and> (h = [] \<or> h = own))"
  using assms
proof (induction es arbitrary: thesis rule: rev_induct)
  case Nil
  then show ?case by (simp add: dialog_run_def new_dialog_def)
next
  case (snoc e es)
  let ?d = "dialog_run target flow es"
  show ?case
  proof (cases "vd_success ?d")
    case True
    from snoc.IH [OF _ True] obtain before g after where "es = before @ Heard (StateIs kDone g) # after"
      "let own = vd_transactionId (dialog_run target flow before)
       in own \<noteq> [] \<and> (own = flow \<or> named_by_own_start before own) \<and> (g = [] \<or> g = own)
          \<and> (\<exists>h em la. Heard (EmojisAvailable h em la) \<in> set before \<and> (h = [] \<or> h = own))" by blast
    then show ?thesis using snoc.prems(1) [of before g "after @ [e]"] by simp
  next
    case False
    with snoc.prems(2) obtain g where e: "e = Heard (StateIs kDone g)" and g: "flowMatches g (vd_transactionId ?d)"
      and shown: "vd_emojisShown ?d"
      by (auto simp: dialog_step_def dialog_start_def start_call_def dialog_defs dialogAcceptsDone_def state_numbers
          split: dialog_event.splits bridge_signal.splits if_splits)
    from dialog_run_traced [of flow es target] shown g
    have "let own = vd_transactionId ?d
       in own \<noteq> [] \<and> (own = flow \<or> named_by_own_start es own) \<and> (g = [] \<or> g = own)
          \<and> (\<exists>h em la. Heard (EmojisAvailable h em la) \<in> set es \<and> (h = [] \<or> h = own))"
      by (auto simp: dialog_traced_def flowMatches_def Let_def)
    with snoc.prems(1) [of es g "[]"] e show ?thesis by simp
  qed
qed


text \<open>A dialog that starts, hears its flow, shows the emojis and hears that it is done.\<close>

definition verified_run :: "dialog_event list" where
  "verified_run = [DialogStarts \<lparr> vb_next = 7, vb_cancelOn = [], vb_calls = [] \<rparr>, Heard (SasStarted 7 True ''$f''),
     Heard (EmojisAvailable ''$f'' [''dog''] [''Dog'']), Clicked ClickMatch \<lparr> vb_next = 8, vb_cancelOn = [], vb_calls = [] \<rparr>,
     Heard (StateIs kDone ''$f'')]"

theorem verified_after_own_emojis_witness:
  "\<exists>before g after. verified_run = before @ Heard (StateIs kDone g) # after
     \<and> vd_transactionId (dialog_run ''@u:s'' [] before) \<noteq> []"
proof -
  have "vd_success (dialog_run ''@u:s'' [] verified_run)" by code_simp
  then show ?thesis
    by (rule verified_after_own_emojis) (auto simp: Let_def)
qed

subsection \<open>The emojis the user compares\<close>

text \<open>The flow among the other windows, which use the bridge too.\<close>

datatype flow_event = Click flow_click | Signal bridge_signal | Elsewhere verification_bridge

definition flow_does :: "flow_state \<Rightarrow> flow_event \<Rightarrow> flow_state" where
  "flow_does x e =
     (case e of Click c \<Rightarrow> flow_clicked c x | Signal g \<Rightarrow> flow_signal g x | Elsewhere b \<Rightarrow> (fst x, b))"

definition flow_run :: "qstring option \<Rightarrow> verification_bridge \<Rightarrow> flow_event list \<Rightarrow> flow_state" where
  "flow_run incoming b = foldl flow_does (start_flow incoming (new_flow, b))"

lemma flow_run_snoc [simp]: "flow_run incoming b (es @ [e]) = flow_does (flow_run incoming b es) e"
  by (simp add: flow_run_def)

definition comparing :: "emoji_page \<Rightarrow> bool" where
  "comparing p \<longleftrightarrow> ep_emojis p \<noteq> [] \<or> ep_matchEnabled p"

text \<open>What the page shows stays as it was, or is gone.\<close>

definition page_calm :: "emoji_page \<Rightarrow> emoji_page \<Rightarrow> bool" where
  "page_calm p q \<longleftrightarrow> \<not> ep_presentPending q
     \<and> (comparing q \<longrightarrow> comparing p \<and> ep_emojis q = ep_emojis p \<and> ep_labels q = ep_labels p)"

lemma page_calm_refl: "\<not> ep_presentPending p \<Longrightarrow> page_calm p p"
  by (simp add: page_calm_def)

lemma showStep_emoji [simp]:
  "vf_emoji (fst (showStep step x))
     = (if step = EmojiStep then fst (em_activate (vf_emoji (fst x), snd x)) else vf_emoji (fst x))"
  by (cases step) (simp_all add: showStep_def on_emoji_def on_qr_def split_beta Let_def)

lemma showStep_step [simp]: "vf_step (fst (showStep step x)) = step"
  by (cases step) (simp_all add: showStep_def on_emoji_def on_qr_def split_beta Let_def)

lemma onVerified_emoji [simp]: "vf_emoji (fst (onVerified x)) = vf_emoji (fst x)"
  by (simp add: onVerified_def)

lemma leave_emoji [simp]:
  "vf_emoji (fst (leave_for step x))
     = (if step = EmojiStep
        then fst (em_activate (vf_emoji (fst x), cancelVerification (activeFlowId (fst x)) (snd x))) else vf_emoji (fst x))"
  by (simp add: leave_for_def)

lemma activate_calm [simp]:
  "\<not> ep_presentPending p \<Longrightarrow> ep_presentPending p1 = ep_presentPending p \<Longrightarrow> page_calm p (fst (em_activate (p1, b)))"
  by (simp add: em_activate_def em_startVerification_def resetForAttempt_def start_call_def page_calm_def comparing_def Let_def)

lemma clicked_calm: "\<not> ep_presentPending (vf_emoji (fst x)) \<Longrightarrow> page_calm (vf_emoji (fst x)) (vf_emoji (fst (flow_clicked c x)))"
  by (cases c; cases "vf_step (fst x)";
      simp add: flow_clicked_def choice_click_def emoji_click_def qr_click_def recovery_click_def setup_click_def
        on_emoji_def on_qr_def em_submit_def em_startVerification_def resetForAttempt_def start_call_def em_setWaitingState_def
        ignoreFlow_def setRequestFlowId_def page_calm_refl split_beta Let_def)
    (auto simp: page_calm_def comparing_def)

definition delivered :: "flow_state \<Rightarrow> bridge_signal \<Rightarrow> qstring list \<Rightarrow> qstring list \<Rightarrow> bool" where
  "delivered x g em la \<longleftrightarrow>
     (\<exists>flow. g = EmojisAvailable flow em la
        \<and> (vf_step (fst x) = QrStep
           \<or> vf_step (fst x) = EmojiStep
             \<and> emojisBelongToPage flow (ep_flowId (vf_emoji (fst x))) (ep_ignoredFlowId (vf_emoji (fst x)))))"

lemma emojis_calm:
  assumes "\<not> ep_presentPending (vf_emoji (fst x))"
  shows "page_calm (vf_emoji (fst x)) (vf_emoji (fst (flow_emojis flow em la x)))
    \<or> delivered x (EmojisAvailable flow em la) em la \<and> \<not> ep_presentPending (vf_emoji (fst (flow_emojis flow em la x)))
      \<and> ep_emojis (vf_emoji (fst (flow_emojis flow em la x))) = em \<and> ep_labels (vf_emoji (fst (flow_emojis flow em la x))) = la"
  using assms
  by (auto simp: flow_emojis_def em_onEmojis_def presentAdoptedSas_def em_activate_def presentEmojis_def resetForAttempt_def
      delivered_def page_calm_refl Let_def)

lemma signal_calm:
  assumes "\<not> ep_presentPending (vf_emoji (fst x))"
  shows "page_calm (vf_emoji (fst x)) (vf_emoji (fst (flow_signal g x)))
    \<or> (\<exists>em la. delivered x g em la \<and> \<not> ep_presentPending (vf_emoji (fst (flow_signal g x)))
      \<and> ep_emojis (vf_emoji (fst (flow_signal g x))) = em \<and> ep_labels (vf_emoji (fst (flow_signal g x))) = la)"
proof (cases g)
  case (EmojisAvailable flow em la)
  with emojis_calm [OF assms, of flow em la] show ?thesis by (auto simp: flow_signal_def Let_def)
next
  case (StateIs state flow)
  have "page_calm (vf_emoji (fst x)) (fst (em_onState v state flow (vf_emoji (fst x))))" for v
    using assms by (auto simp: em_onState_def em_showFailure_def em_setWaitingState_def page_calm_def comparing_def)
  moreover have "vf_emoji (fst (flow_state_changed state flow x))
      = fst (em_onState (vf_step (fst x) = EmojiStep) state flow (vf_emoji (fst x)))"
    by (simp add: flow_state_changed_def split_beta Let_def)
  ultimately show ?thesis using StateIs by (simp add: flow_signal_def Let_def)
qed (use assms in \<open>auto simp: flow_signal_def em_onStarted_def em_onSasConfirmed_def em_showFailure_def em_setWaitingState_def
      em_onCancelInfo_def page_calm_def comparing_def split_beta Let_def\<close>)

text \<open>C6: Whenever the session's emoji page shows emojis or "They match" can be clicked there, the emojis and
  their labels are exactly those of one delivery, which arrived while the page was up and was
  untagged, for its flow or for the flow it had left (\<open>emojisBelongToPage\<close>), or which arrived while
  the QR page was up.\<close>

theorem they_match_confirms_a_delivery:
  assumes "comparing (vf_emoji (fst (flow_run incoming b es)))"
  shows "\<exists>before g after. es = before @ Signal g # after
    \<and> delivered (flow_run incoming b before) g (ep_emojis (vf_emoji (fst (flow_run incoming b es))))
        (ep_labels (vf_emoji (fst (flow_run incoming b es))))"
proof -
  let ?shown = "\<lambda>es. comparing (vf_emoji (fst (flow_run incoming b es))) \<longrightarrow> (\<exists>before g after. es = before @ Signal g # after
    \<and> delivered (flow_run incoming b before) g (ep_emojis (vf_emoji (fst (flow_run incoming b es))))
        (ep_labels (vf_emoji (fst (flow_run incoming b es)))))"
  have "\<not> ep_presentPending (vf_emoji (fst (flow_run incoming b es))) \<and> ?shown es"
  proof (induction es rule: rev_induct)
    case Nil
    show ?case
      by (cases incoming) (simp_all add: flow_run_def start_flow_def new_flow_def new_emoji_page_def em_activate_def
        em_startVerification_def resetForAttempt_def setRequestFlowId_def setShowsAlternativeMethods_def start_call_def comparing_def Let_def)
  next
    case (snoc e es)
    let ?p = "vf_emoji (fst (flow_run incoming b es))" and ?q = "vf_emoji (fst (flow_run incoming b (es @ [e])))"
    consider (calm) "page_calm ?p ?q"
      | (new) g where "e = Signal g" "delivered (flow_run incoming b es) g (ep_emojis ?q) (ep_labels ?q)" "\<not> ep_presentPending ?q"
    proof (cases e)
      case (Click c)
      then show ?thesis using snoc.IH clicked_calm [of "flow_run incoming b es" c] calm by (simp add: flow_does_def)
    next
      case (Signal g)
      then show ?thesis using snoc.IH signal_calm [of "flow_run incoming b es" g] calm new by (auto simp: flow_does_def)
    next
      case (Elsewhere c)
      then show ?thesis using snoc.IH calm by (simp add: flow_does_def page_calm_refl)
    qed
    then show ?case
    proof cases
      case calm
      then show ?thesis using snoc.IH unfolding page_calm_def by (metis append_Cons append_assoc)
    next
      case new
      then show ?thesis by blast
    qed
  qed
  with assms show ?thesis by blast
qed

subsection \<open>Starts that are abandoned\<close>

definition grows :: "verification_bridge \<Rightarrow> verification_bridge \<Rightarrow> bool" where
  "grows b c \<longleftrightarrow> set (vb_cancelOn b) \<subseteq> set (vb_cancelOn c) \<and> set (vb_calls b) \<subseteq> set (vb_calls c) \<and> vb_next b \<le> vb_next c"

lemma grows_refl [simp]: "grows b b"
  by (simp add: grows_def)

lemma grows_trans: "grows a b \<Longrightarrow> grows b c \<Longrightarrow> grows a c"
  by (auto simp: grows_def)

lemma grows_mem: "grows b c \<Longrightarrow> i \<in> set (vb_cancelOn b) \<Longrightarrow> i \<in> set (vb_cancelOn c)"
  by (auto simp: grows_def)

lemma grows_call [simp]: "grows b (call_bridge c b)" "grows b (cancelVerification f b)"
  "grows b (cancelVerificationOnStartReply i b)" "grows b (fst (start_call mk b))"
  by (auto simp: grows_def call_bridge_def cancelVerification_def cancelVerificationOnStartReply_def start_call_def)

lemma showStep_grows [simp]: "grows (snd x) (snd (showStep step x))"
  by (cases step) (simp_all add: showStep_def on_emoji_def on_qr_def em_activate_def em_startVerification_def
      qr_startVerification_def ch_activate_def su_activate_def startSetup_def split_beta Let_def)

lemma showStep_grows_from: "grows b (snd x) \<Longrightarrow> grows b (snd (showStep step x))"
  by (rule grows_trans [OF _ showStep_grows])

lemma onVerified_bridge [simp]: "snd (onVerified x) = snd x"
  by (simp add: onVerified_def showStep_def Let_def)

lemma flow_clicked_grows [simp]: "grows (snd x) (snd (flow_clicked c x))"
  by (cases c; cases "vf_step (fst x)";
      simp add: flow_clicked_def choice_click_def emoji_click_def qr_click_def recovery_click_def setup_click_def
        leave_for_def on_emoji_def on_qr_def em_submit_def em_startVerification_def qr_submit_def qr_startVerification_def
        rk_submit_def su_submit_def startSetup_def showStep_grows_from split_beta Let_def split: setup_state.splits)

lemma flow_signal_grows [simp]: "grows (snd x) (snd (flow_signal g x))"
  by (cases g) (auto simp: flow_signal_def flow_emojis_def flow_state_changed_def split_beta Let_def intro!: showStep_grows_from)

lemma flow_open_close_grows [simp]: "grows (snd x) (snd (start_flow incoming x))" "grows (snd x) (snd (cancel_flow x))"
  by (cases incoming; simp add: start_flow_def showStep_grows_from) (simp add: cancel_flow_def split_beta Let_def)

lemma dialog_grows [simp]: "grows (snd x) (snd (dialog_start x))" "grows (snd x) (snd (dialog_reject x))"
  "grows (snd x) (snd (dialog_clicked c x))"
proof -
  show reject: "grows (snd x) (snd (dialog_reject x))" for x by (simp add: dialog_reject_def split_beta)
  show "grows (snd x) (snd (dialog_start x))" by (simp add: dialog_start_def split_beta Let_def)
  show "grows (snd x) (snd (dialog_clicked c x))"
    using reject [of x] reject [of "(fst x, call_bridge MismatchSas (snd x))"]
    by (cases c) (auto simp: dialog_clicked_def dialog_accept_def split_beta intro: grows_trans [OF grows_call(1)])
qed

lemma with_flow_grows: "(\<And>x. grows (snd x) (snd (g x))) \<Longrightarrow> grows (vw_bridge w) (vw_bridge (with_flow g w))"
  by (simp add: with_flow_def split_beta Let_def split: option.splits) (metis snd_conv)

lemma with_dialog_grows: "(\<And>x. grows (snd x) (snd (g x))) \<Longrightarrow> grows (vw_bridge w) (vw_bridge (with_dialog k g w))"
  by (simp add: with_dialog_def split_beta Let_def split: option.splits) (metis snd_conv)

definition replies_to :: "nat \<Rightarrow> window_event \<Rightarrow> bool" where
  "replies_to i e = (case e of Bridge g \<Rightarrow> (case g of SasStarted j _ _ \<Rightarrow> j = i | QrReady j _ _ \<Rightarrow> j = i | _ \<Rightarrow> False) | _ \<Rightarrow> False)"

lemma connections_keep:
  "\<not> replies_to i (Bridge g) \<Longrightarrow> i \<in> set (vb_cancelOn b) \<Longrightarrow> i \<in> set (vb_cancelOn (reply_connections g b))"
  by (cases g) (auto simp: reply_connections_def cancel_on_reply_def replies_to_def Let_def)

lemma window_step_keeps:
  assumes "i \<in> set (vb_cancelOn (vw_bridge w))" "\<not> replies_to i e"
  shows "i \<in> set (vb_cancelOn (vw_bridge (window_step w e)))"
proof (cases e)
  case (Bridge g)
  have "i \<in> set (vb_cancelOn (vw_bridge (with_flow (flow_signal g) w)))"
    using grows_mem [OF with_flow_grows [OF flow_signal_grows]] assms by simp
  with Bridge assms connections_keep show ?thesis by (simp add: window_step_def bridge_emits_def Let_def)
next
  case (OpenDialog target flow)
  have "grows (vw_bridge w) (vw_bridge (case vw_active w of None \<Rightarrow> w | Some k \<Rightarrow> with_dialog k dialog_reject w))"
    using with_dialog_grows [OF dialog_grows(2)] by (simp split: option.splits)
  then show ?thesis using assms OpenDialog by (auto simp: window_step_def open_dialog_def grows_def Let_def)
next
  case CloseFlow
  have "grows (vw_bridge w) (vw_bridge (with_flow (\<lambda>x. if vf_verified (fst x) then x else cancel_flow x) w))"
    by (rule with_flow_grows) simp
  then show ?thesis using assms CloseFlow by (auto simp: window_step_def close_flow_def grows_def Let_def)
next
  case (OpenFlow incoming)
  have "grows (vw_bridge w) (vw_bridge (with_flow (start_flow q) (w\<lparr>vw_flow := Some new_flow\<rparr>)))" for q
    using with_flow_grows [OF flow_open_close_grows(1), of "w\<lparr>vw_flow := Some new_flow\<rparr>"] by simp
  then show ?thesis using assms OpenFlow by (auto simp: window_step_def open_flow_def grows_def)
next
  case (FlowClick c)
  then show ?thesis using assms grows_mem [OF with_flow_grows [OF flow_clicked_grows]] by (simp add: window_step_def)
next
  case (StartDialog k)
  then show ?thesis using assms grows_mem [OF with_dialog_grows [OF dialog_grows(1)]] by (simp add: window_step_def)
next
  case (DialogClick k c)
  then show ?thesis using assms grows_mem [OF with_dialog_grows [OF dialog_grows(3)]] by (simp add: window_step_def)
next
  case (DialogGone k)
  then show ?thesis using assms by (simp add: window_step_def dialog_gone_def)
qed

lemma window_run_keeps:
  "i \<in> set (vb_cancelOn (vw_bridge w)) \<Longrightarrow> \<not> (\<exists>e\<in>set es. replies_to i e)
     \<Longrightarrow> i \<in> set (vb_cancelOn (vw_bridge (window_run w es)))"
  by (induction es arbitrary: w) (auto simp: window_run_def window_step_keeps)

lemma reply_cancels:
  assumes "i \<in> set (vb_cancelOn b)" "g = SasStarted i True flow \<or> g = QrReady i True flow" "flow \<noteq> []"
  shows "CancelFlow flow \<in> set (vb_calls (reply_connections g b))"
proof -
  have "\<exists>j\<in>set (filter (\<lambda>j. j = i) (vb_cancelOn b)). True" using assms(1) by simp
  then show ?thesis using assms(2,3) by (auto simp: reply_connections_def cancel_on_reply_def Let_def)
qed


subsection \<open>Runs\<close>

definition user_dialog_waiting :: user_dialog where
  "user_dialog_waiting = (new_dialog ''@u:s'' [])\<lparr>vd_startPending := False, vd_startRequestId := 1\<rparr>"

definition dialog_window :: verification_windows where
  "dialog_window = window_run no_windows [OpenDialog ''@u:s'' [], StartDialog 0]"


definition a_bridge :: verification_bridge where
  "a_bridge = \<lparr> vb_next = 1, vb_cancelOn = [], vb_calls = [] \<rparr>"

definition answered_request :: "flow_event list" where
  "answered_request = [Signal (SasStarted 1 True ''$f''), Signal (EmojisAvailable ''$f'' [''dog''] [''Dog''])]"

theorem they_match_confirms_a_delivery_witness:
  "\<exists>before g after. answered_request = before @ Signal g # after
    \<and> delivered (flow_run (Some ''$f'') a_bridge before) g
        (ep_emojis (vf_emoji (fst (flow_run (Some ''$f'') a_bridge answered_request))))
        (ep_labels (vf_emoji (fst (flow_run (Some ''$f'') a_bridge answered_request))))"
proof (rule they_match_confirms_a_delivery)
  show "comparing (vf_emoji (fst (flow_run (Some ''$f'') a_bridge answered_request)))" by code_simp
qed

text \<open>The session's QR code is up for \<open>$s\<close> when a dialog compares emojis with another user in \<open>$u\<close>: the
  flow shows the dialog's emojis with "They match" enabled, and when the user's flow is done it says
  that the session was verified.\<close>

definition qr_up :: "window_event list" where
  "qr_up = [OpenFlow [], Bridge (Capabilities True True True), FlowClick QrCard, Bridge (QrReady 1 True ''$s'')]"

definition user_dialog_up :: "window_event list" where
  "user_dialog_up = [OpenDialog ''@u:s'' [], StartDialog 0, Bridge (SasStarted 2 True ''$u'')]"

definition flow_of :: "window_event list \<Rightarrow> verification_flow" where
  "flow_of es = the (vw_flow (window_run no_windows es))"

lemma foreign_emojis_adopted_by_qr_page:
  "let es = qr_up @ user_dialog_up @ [Bridge (EmojisAvailable ''$u'' [''dog''] [''Dog''])]
   in qp_flowId (vf_qr (flow_of (qr_up @ user_dialog_up))) = ''$s'' \<and> ep_matchEnabled (vf_emoji (flow_of es))
      \<and> vf_step (flow_of es) = EmojiStep \<and> vf_verified (flow_of (es @ [Bridge (StateIs kDone ''$u'')]))"
  unfolding Let_def by code_simp

text \<open>Before the reply to its start the QR page takes the first flow that gets ready for its own.\<close>

lemma qr_page_claims_foreign_flow:
  "let es = [OpenFlow [], Bridge (Capabilities True True True), FlowClick QrCard, OpenDialog ''@u:s'' [], StartDialog 0,
             Bridge (SasStarted 2 True ''$u''), Bridge (StateIs kReady ''$u'')]
   in qp_flowId (vf_qr (flow_of es)) = ''$u'' \<and> vf_verified (flow_of (es @ [Bridge (StateIs kDone ''$u'')]))"
  unfolding Let_def by code_simp

text \<open>That another flow's code was scanned enables "Continue", which confirms a scan.\<close>

lemma foreign_scan_confirmed:
  "let es = qr_up @ [Bridge (StateIs kQrCodeScanned ''$other'')]
   in qp_continueEnabled (vf_qr (flow_of es))
      \<and> ConfirmQr \<in> set (vb_calls (vw_bridge (window_run no_windows (es @ [FlowClick ScanContinue]))))"
  unfolding Let_def by code_simp

text \<open>"Compare emoji instead" loses the race with the peer, who had started: the emojis of the flow left
  behind show up, and the reply to the page's own start takes the page from them.  The completion
  of the flow on the screen is ignored then, and so is its failure.\<close>

definition revived :: "window_event list" where
  "revived = qr_up @ [FlowClick QrUseEmoji, Bridge (EmojisAvailable ''$s'' [''dog''] [''Dog'']), Bridge (SasStarted 2 True ''$n'')]"

lemma revived_flow_lost_to_start_reply:
  "ep_matchEnabled (vf_emoji (flow_of revived)) \<and> ep_flowId (vf_emoji (flow_of revived)) = ''$n''
   \<and> \<not> vf_verified (flow_of (revived @ [Bridge (StateIs kDone ''$s'')]))
   \<and> ep_error (vf_emoji (flow_of (revived @ [Bridge (StateIs kCancelled ''$s'')]))) = None"
  by code_simp

text \<open>A confirmation that could not be sent fails every window, whoever sent it: the emoji page, and a
  dialog even on its success page.\<close>

lemma failed_confirmation_hits_all:
  "ep_error (vf_emoji (fst (flow_signal (SasConfirmed False) x))) = Some ConfirmFailed
   \<and> vd_titleFailed (dialog_signal (SasConfirmed False) d) \<and> vd_success (dialog_signal (SasConfirmed False) d) = vd_success d"
  by (simp add: flow_signal_def em_onSasConfirmed_def em_showFailure_def dialog_defs)

text \<open>Closing a dialog whose start failed, or was not yet made, cancels whatever flow the backend has.\<close>

lemma failed_start_cancels_any_flow:
  "vd_transactionId d = [] \<Longrightarrow> vd_startRequestId d = i \<Longrightarrow> i \<noteq> 0 \<Longrightarrow>
   vb_calls (snd (dialog_clicked ClickClose (dialog_signal (SasStarted i False flow) d, b))) = vb_calls b @ [CancelFlow []]"
  by (simp add: dialog_defs dialog_clicked_def dialog_reject_def cancelVerification_def call_bridge_def)

text \<open>Switching methods before the reply to the start cancels without a name and leaves the started flow
  alone when its reply comes.\<close>

lemma switching_orphans_start:
  "let w = window_run no_windows [OpenFlow [], Bridge (Capabilities True True True), FlowClick EmojiCard, FlowClick EmojiUseQr,
             Bridge (SasStarted 1 True ''$f'')]
   in vb_calls (vw_bridge w) = [GetCapabilities, StartSas 1 [], CancelFlow [], StartQr 2] \<and> vb_cancelOn (vw_bridge w) = []"
  unfolding Let_def by code_simp

subsection \<open>What verifies the session\<close>

definition verifying_event :: "flow_event \<Rightarrow> bool" where
  "verifying_event e =
     (case e of
        Signal g \<Rightarrow> (case g of StateIs state _ \<Rightarrow> state = kDone | KeyVerified ok \<Rightarrow> ok | _ \<Rightarrow> False)
      | Click c \<Rightarrow> c = SetupContinue
      | Elsewhere _ \<Rightarrow> False)"

lemma showStep_verified [simp]: "vf_verified (fst (showStep step x)) = vf_verified (fst x)"
  by (cases step) (simp_all add: showStep_def on_emoji_def on_qr_def split_beta Let_def)

lemma flow_step_verified:
  "\<not> verifying_event e \<Longrightarrow> vf_verified (fst (flow_does x e)) = vf_verified (fst x)"
proof (cases e)
  case (Click c)
  then show "\<not> verifying_event e \<Longrightarrow> ?thesis"
    by (cases c; cases "vf_step (fst x)";
        simp add: verifying_event_def flow_does_def flow_clicked_def choice_click_def emoji_click_def qr_click_def recovery_click_def
          setup_click_def leave_for_def on_emoji_def on_qr_def split_beta Let_def)
next
  case (Signal g)
  then show "\<not> verifying_event e \<Longrightarrow> ?thesis"
    by (cases g) (auto simp: verifying_event_def flow_does_def flow_signal_def flow_emojis_def flow_state_changed_def em_onState_def
        qr_onState_def rk_onVerifyResult_def split_beta Let_def split: if_splits)
qed (simp add: flow_does_def)

text \<open>The session counts as verified only after a flow was reported done, a recovery key accepted, or a
  new key said to be saved.\<close>

lemma session_verified_only_by:
  "vf_verified (fst (flow_run incoming b es)) \<Longrightarrow> \<exists>e\<in>set es. verifying_event e"
proof (induction es rule: rev_induct)
  case Nil
  then show ?case by (cases incoming) (simp_all add: flow_run_def start_flow_def new_flow_def)
qed (use flow_step_verified in fastforce)

end
