(* ===== verification/Verification_Owners.thy ===== *)
theory Verification_Owners imports Verification_Properties begin

section \<open>Verification: a reply has one owner\<close>

text \<open>
  Every window hears every reply to a start call and takes the one with the id it waits for.  The
  windows that can be reached are an inductive relation; in none of them two pages or dialogs wait
  for the same id, so no reply is taken twice.
\<close>

definition flow_ids :: "verification_flow \<Rightarrow> nat list" where
  "flow_ids f = [ep_startRequestId (vf_emoji f), qp_startRequestId (vf_qr f)]"

definition dialog_ids :: "(nat \<times> user_dialog) list \<Rightarrow> nat list" where
  "dialog_ids ds = map (\<lambda>(k, d). vd_startRequestId d) ds"

definition start_ids :: "verification_windows \<Rightarrow> nat list" where
  "start_ids w = (case vw_flow w of None \<Rightarrow> [] | Some f \<Rightarrow> flow_ids f) @ dialog_ids (vw_dialogs w)"

text \<open>From ids below \<open>n\<close> to ids below \<open>m\<close>, with the fresh one at most once.\<close>

definition evolves :: "nat list \<Rightarrow> nat \<Rightarrow> nat list \<Rightarrow> nat \<Rightarrow> bool" where
  "evolves ids n ids2 m \<longleftrightarrow> (m = n \<or> m = Suc n)
     \<and> (\<forall>i. i \<noteq> 0 \<longrightarrow> count_list ids2 i \<le> count_list ids i + (if i = n \<and> m = Suc n then 1 else 0))"

lemma evolves_refl [simp]: "evolves ids n ids n"
  by (simp add: evolves_def)

lemma call_next [simp]: "vb_next (call_bridge c b) = vb_next b" "vb_next (cancelVerification f b) = vb_next b"
  "vb_next (cancelVerificationOnStartReply i b) = vb_next b" "vb_next (reply_connections g b) = vb_next b"
  by (simp_all add: call_bridge_def cancelVerification_def cancelVerificationOnStartReply_def reply_connections_def
      cancel_on_reply_def Let_def split: bridge_signal.splits)

lemma start_call_next [simp]: "vb_next (fst (start_call mk b)) = Suc (vb_next b)" "snd (start_call mk b) = vb_next b"
  by (simp_all add: start_call_def)

lemma activate_id [simp]: "ep_startRequestId (fst (em_activate (p, b))) = (if ep_presentPending p then 0 else vb_next b)"
  "vb_next (snd (em_activate (p, b))) = (if ep_presentPending p then vb_next b else Suc (vb_next b))"
  by (simp_all add: em_activate_def em_startVerification_def resetForAttempt_def presentEmojis_def split_beta Let_def)

lemma showStep_ids:
  "flow_ids (fst (showStep step x)) =
     [if step = EmojiStep then (if ep_presentPending (vf_emoji (fst x)) then 0 else vb_next (snd x)) else ep_startRequestId (vf_emoji (fst x)),
      if step = QrStep then vb_next (snd x) else qp_startRequestId (vf_qr (fst x))]"
  "vb_next (snd (showStep step x)) =
     (if step = QrStep \<or> step = EmojiStep \<and> \<not> ep_presentPending (vf_emoji (fst x)) then Suc (vb_next (snd x)) else vb_next (snd x))"
  by (cases step; simp add: showStep_def flow_ids_def on_emoji_def on_qr_def qr_startVerification_def ch_activate_def
      su_activate_def startSetup_def split_beta Let_def)+

lemma showStep_page_ids [simp]:
  "ep_startRequestId (vf_emoji (fst (showStep step x))) =
     (if step = EmojiStep then (if ep_presentPending (vf_emoji (fst x)) then 0 else vb_next (snd x)) else ep_startRequestId (vf_emoji (fst x)))"
  "qp_startRequestId (vf_qr (fst (showStep step x))) = (if step = QrStep then vb_next (snd x) else qp_startRequestId (vf_qr (fst x)))"
  using showStep_ids(1) [of step x] by (simp_all add: flow_ids_def del: showStep_emoji)

lemma evolves_pair:
  "m = n \<and> (a2 = a \<or> a2 = 0) \<and> (b2 = b \<or> b2 = 0)
   \<or> m = Suc n \<and> ((a2 = n \<and> (b2 = b \<or> b2 = 0)) \<or> ((a2 = a \<or> a2 = 0) \<and> b2 = n)) \<Longrightarrow> evolves [a, b] n [a2, b2] m"
  by (auto simp: evolves_def)

lemmas evolve_defs = flow_ids_def showStep_ids(2) split_beta Let_def

lemma flow_clicked_evolves:
  "evolves (flow_ids (fst x)) (vb_next (snd x)) (flow_ids (fst (flow_clicked c x))) (vb_next (snd (flow_clicked c x)))"
proof -
  note defs = flow_clicked_def choice_click_def emoji_click_def qr_click_def recovery_click_def setup_click_def
    on_emoji_def on_qr_def em_submit_def em_setWaitingState_def em_startVerification_def resetForAttempt_def
    qr_submit_def qr_setWaitingState_def qr_startVerification_def rk_submit_def su_submit_def startSetup_def
  show ?thesis
    by (cases "vf_step (fst x)"; cases c)
      (auto simp: defs leave_for_def ignoreFlow_def setRequestFlowId_def evolve_defs split: setup_state.splits intro!: evolves_pair
         simp del: showStep_emoji)
qed

lemma page_signals_ids:
  "ep_startRequestId (em_onStarted v i ok f p) = (if i = ep_startRequestId p then 0 else ep_startRequestId p)"
  "ep_startRequestId (em_onSasConfirmed ok p) = ep_startRequestId p"
  "ep_startRequestId (em_onCancelInfo v f code p) = ep_startRequestId p"
  "ep_startRequestId (fst (em_onState v st f p)) = ep_startRequestId p"
  "ep_startRequestId (em_onEmojis v f em la p) = ep_startRequestId p"
  "qp_startRequestId (onQrCodeReady v i ok f q) = (if i = qp_startRequestId q then 0 else qp_startRequestId q)"
  "qp_startRequestId (onQrScanConfirmed ok q) = qp_startRequestId q"
  "qp_startRequestId (qr_onCancelInfo v f code q) = qp_startRequestId q"
  "qp_startRequestId (onQrCodeData v f md sz q) = qp_startRequestId q"
  "qp_startRequestId (fst (qr_onState v st f q)) = qp_startRequestId q"
  by (auto simp: em_onStarted_def em_onSasConfirmed_def em_onCancelInfo_def em_onState_def em_onEmojis_def em_showFailure_def
      em_setWaitingState_def presentEmojis_def onQrCodeReady_def onQrScanConfirmed_def qr_onCancelInfo_def onQrCodeData_def
      qr_onState_def qr_showFailure_def qr_setWaitingState_def setScannedState_def Let_def)

lemma onVerified_ids [simp]: "flow_ids (fst (onVerified x)) = flow_ids (fst x)"
  "vf_qr (fst (onVerified x)) = vf_qr (fst x)"
  by (simp_all add: onVerified_def showStep_def flow_ids_def Let_def)

lemma flow_signal_evolves:
  "evolves (flow_ids (fst x)) (vb_next (snd x)) (flow_ids (fst (flow_signal g x))) (vb_next (snd (flow_signal g x)))"
proof (cases g)
  case (StateIs st f)
  have "flow_ids (fst (flow_state_changed st f x)) = flow_ids (fst x)"
    by (simp add: flow_state_changed_def split_beta Let_def) (simp add: flow_ids_def page_signals_ids)
  moreover have "vb_next (snd (flow_state_changed st f x)) = vb_next (snd x)"
    by (simp add: flow_state_changed_def split_beta Let_def)
  ultimately show ?thesis using StateIs by (simp add: flow_signal_def Let_def)
next
  case (KeyVerified ok)
  then show ?thesis by (auto simp: flow_signal_def split_beta Let_def) (simp_all add: flow_ids_def)
qed (auto simp: flow_signal_def flow_emojis_def presentAdoptedSas_def page_signals_ids evolve_defs intro!: evolves_pair
       simp del: showStep_emoji)

lemma flow_open_close_evolves:
  "evolves (flow_ids (fst x)) (vb_next (snd x)) (flow_ids (fst (start_flow incoming x))) (vb_next (snd (start_flow incoming x)))"
  "vb_next (snd (cancel_flow x)) = vb_next (snd x)"
proof -
  show "evolves (flow_ids (fst x)) (vb_next (snd x)) (flow_ids (fst (start_flow incoming x))) (vb_next (snd (start_flow incoming x)))"
    by (cases incoming) (auto simp: start_flow_def setShowsAlternativeMethods_def setRequestFlowId_def evolve_defs intro!: evolves_pair
        simp del: showStep_emoji)
  show "vb_next (snd (cancel_flow x)) = vb_next (snd x)" by (simp add: cancel_flow_def split_beta Let_def)
qed

subsection \<open>Dialogs\<close>

lemma dialog_start_id:
  "vd_startRequestId (fst (dialog_start x)) = (if vd_startPending (fst x) then vb_next (snd x) else vd_startRequestId (fst x))"
  "vb_next (snd (dialog_start x)) = (if vd_startPending (fst x) then Suc (vb_next (snd x)) else vb_next (snd x))"
  by (simp_all add: dialog_start_def split_beta Let_def)

lemma dialog_clicked_next [simp]: "vb_next (snd (dialog_reject x)) = vb_next (snd x)" "vb_next (snd (dialog_clicked c x)) = vb_next (snd x)"
proof -
  show r: "vb_next (snd (dialog_reject x)) = vb_next (snd x)" for x by (simp add: dialog_reject_def split_beta)
  show "vb_next (snd (dialog_clicked c x)) = vb_next (snd x)"
    by (cases c) (simp_all add: dialog_clicked_def dialog_accept_def r split_beta)
qed

lemma dialog_reject_id [simp]: "vd_startRequestId (fst (dialog_reject x)) = vd_startRequestId (fst x)"
  by (simp add: dialog_reject_def split_beta)

lemma dialog_signal_id: "vd_startRequestId (dialog_signal g d) = vd_startRequestId d \<or> vd_startRequestId (dialog_signal g d) = 0"
  by (cases g) (auto simp: dialog_defs)

text \<open>One dialog changes, known by its number.\<close>

lemma dialog_ids_update:
  "distinct (map fst ds) \<Longrightarrow> map_of ds k = Some d \<Longrightarrow>
     count_list (dialog_ids (map (\<lambda>(j, e). (j, if j = k then d2 else e)) ds)) i + (if vd_startRequestId d = i then 1 else 0)
   = count_list (dialog_ids ds) i + (if vd_startRequestId d2 = i then 1 else 0)"
proof (induction ds)
  case (Cons p ds)
  obtain j e where p: "p = (j, e)" by fastforce
  show ?case
  proof (cases "j = k")
    case True
    then have "k \<notin> fst ` set ds" using Cons.prems(1) p by simp
    then have "map (\<lambda>(j, e). (j, if j = k then d2 else e)) ds = ds" by (force intro: map_idI)
    then show ?thesis using True p Cons.prems by (simp add: dialog_ids_def)
  next
    case False
    then show ?thesis using Cons p by (auto simp: dialog_ids_def)
  qed
qed simp

lemma dialog_ids_signal: "i \<noteq> 0 \<Longrightarrow> count_list (dialog_ids (map (\<lambda>(j, d). (j, dialog_signal g d)) ds)) i \<le> count_list (dialog_ids ds) i"
proof (induction ds)
  case (Cons p ds)
  then show ?case using dialog_signal_id [of g "snd p"] by (cases p) (auto simp: dialog_ids_def)
qed simp

lemma dialog_ids_filter: "count_list (dialog_ids (filter P ds)) i \<le> count_list (dialog_ids ds) i"
  by (induction ds) (auto simp: dialog_ids_def)

subsection \<open>All windows\<close>

definition owned :: "verification_windows \<Rightarrow> bool" where
  "owned w \<longleftrightarrow> 1 \<le> vb_next (vw_bridge w) \<and> distinct (map fst (vw_dialogs w))
     \<and> (\<forall>k\<in>set (map fst (vw_dialogs w)). k < vw_opened w)
     \<and> (\<forall>i. i \<noteq> 0 \<longrightarrow> count_list (start_ids w) i \<le> (if i < vb_next (vw_bridge w) then 1 else 0))"

text \<open>Dialogs stay who they are, and the ids evolve.\<close>

definition onward :: "verification_windows \<Rightarrow> verification_windows \<Rightarrow> bool" where
  "onward w v \<longleftrightarrow> evolves (start_ids w) (vb_next (vw_bridge w)) (start_ids v) (vb_next (vw_bridge v))
     \<and> map fst (vw_dialogs v) = map fst (vw_dialogs w) \<and> vw_opened v = vw_opened w"

definition budget :: "nat \<Rightarrow> nat \<Rightarrow> nat" where
  "budget n i = (if i < n then 1 else 0)"

lemma budget_fresh: "m = n \<or> m = Suc n \<Longrightarrow> budget n i + (if i = n \<and> m = Suc n then 1 else 0) = budget m i"
  by (auto simp: budget_def)

lemma owned_budget: "owned w \<Longrightarrow> i \<noteq> 0 \<Longrightarrow> count_list (start_ids w) i \<le> budget (vb_next (vw_bridge w)) i"
  by (simp add: owned_def budget_def)

lemma owned_fewer:
  assumes "owned w" "vb_next (vw_bridge v) = vb_next (vw_bridge w)" "vw_opened v = vw_opened w"
    "distinct (map fst (vw_dialogs v))" "set (map fst (vw_dialogs v)) \<subseteq> set (map fst (vw_dialogs w))"
    "\<And>i. i \<noteq> 0 \<Longrightarrow> count_list (start_ids v) i \<le> count_list (start_ids w) i"
  shows "owned v"
proof -
  have "count_list (start_ids v) i \<le> budget (vb_next (vw_bridge v)) i" if "i \<noteq> 0" for i
    using assms(6) [OF that] owned_budget [OF assms(1) that] assms(2) by simp
  moreover have "1 \<le> vb_next (vw_bridge v)" using assms(1, 2) by (simp add: owned_def)
  moreover have "\<forall>k\<in>set (map fst (vw_dialogs v)). k < vw_opened v"
    using assms(1, 5) unfolding owned_def assms(3) by blast
  ultimately show ?thesis using assms(4) unfolding owned_def budget_def by blast
qed

lemma onward_owned: "owned w \<Longrightarrow> onward w v \<Longrightarrow> owned v"
proof -
  assume w: "owned w" and v: "onward w v"
  have next_id: "vb_next (vw_bridge v) = vb_next (vw_bridge w) \<or> vb_next (vw_bridge v) = Suc (vb_next (vw_bridge w))"
    using v by (simp add: onward_def evolves_def)
  have "count_list (start_ids v) i \<le> budget (vb_next (vw_bridge v)) i" if "i \<noteq> 0" for i
  proof -
    have "count_list (start_ids v) i \<le> count_list (start_ids w) i
        + (if i = vb_next (vw_bridge w) \<and> vb_next (vw_bridge v) = Suc (vb_next (vw_bridge w)) then 1 else 0)"
      using v that unfolding onward_def evolves_def by blast
    also have "\<dots> \<le> budget (vb_next (vw_bridge w)) i
        + (if i = vb_next (vw_bridge w) \<and> vb_next (vw_bridge v) = Suc (vb_next (vw_bridge w)) then 1 else 0)"
      using owned_budget [OF w that] by (rule add_right_mono)
    finally show ?thesis unfolding budget_fresh [OF next_id] .
  qed
  moreover have "1 \<le> vb_next (vw_bridge v)" using next_id w by (auto simp: owned_def)
  moreover have "distinct (map fst (vw_dialogs v))" "\<forall>k\<in>set (map fst (vw_dialogs v)). k < vw_opened v"
  proof -
    from v have same: "map fst (vw_dialogs v) = map fst (vw_dialogs w)" "vw_opened v = vw_opened w" by (simp_all only: onward_def)
    from w show "distinct (map fst (vw_dialogs v))" "\<forall>k\<in>set (map fst (vw_dialogs v)). k < vw_opened v"
      unfolding same owned_def by blast+
  qed
  ultimately show ?thesis unfolding owned_def budget_def by blast
qed

lemma with_flow_onward:
  assumes "\<And>x. evolves (flow_ids (fst x)) (vb_next (snd x)) (flow_ids (fst (g x))) (vb_next (snd (g x)))"
  shows "onward w (with_flow g w)"
proof (cases "vw_flow w")
  case None
  then show ?thesis by (simp add: with_flow_def onward_def)
next
  case (Some f)
  with assms [of "(f, vw_bridge w)"] show ?thesis
    by (auto simp: with_flow_def onward_def start_ids_def evolves_def split_beta Let_def)
qed

lemma with_dialog_onward:
  assumes "owned w" "\<And>x. evolves [vd_startRequestId (fst x)] (vb_next (snd x)) [vd_startRequestId (fst (g x))] (vb_next (snd (g x)))"
  shows "onward w (with_dialog k g w)"
proof (cases "map_of (vw_dialogs w) k")
  case None
  then show ?thesis by (simp add: with_dialog_def onward_def)
next
  case (Some d)
  have keys: "map fst (map (\<lambda>(j, e). (j, if j = k then d2 else e)) ds) = map fst ds" for d2 ds by (induction ds) auto
  have "distinct (map fst (vw_dialogs w))" using assms(1) by (simp add: owned_def)
  note count = dialog_ids_update [OF this Some, of "fst (g (d, vw_bridge w))"]
  have "count_list (dialog_ids (map (\<lambda>(j, e). (j, if j = k then fst (g (d, vw_bridge w)) else e)) (vw_dialogs w))) i
      \<le> count_list (dialog_ids (vw_dialogs w)) i
        + (if i = vb_next (vw_bridge w) \<and> vb_next (snd (g (d, vw_bridge w))) = Suc (vb_next (vw_bridge w)) then 1 else 0)" if "i \<noteq> 0" for i
    using count [of i] assms(2) [of "(d, vw_bridge w)"] that by (auto simp: evolves_def split: if_splits)
  moreover have "vb_next (snd (g (d, vw_bridge w))) = vb_next (vw_bridge w) \<or> vb_next (snd (g (d, vw_bridge w))) = Suc (vb_next (vw_bridge w))"
    using assms(2) [of "(d, vw_bridge w)"] by (simp add: evolves_def)
  ultimately show ?thesis using Some
    by (simp add: with_dialog_def onward_def start_ids_def evolves_def keys split_beta Let_def del: map_map)
qed

lemma reject_onward: "owned w \<Longrightarrow> onward w (with_dialog k dialog_reject w)"
  by (rule with_dialog_onward) simp_all

lemma open_dialog_owned: "owned w \<Longrightarrow> owned (open_dialog target flow w)"
proof -
  assume w: "owned w"
  define v where "v = (case vw_active w of None \<Rightarrow> w | Some k \<Rightarrow> with_dialog k dialog_reject w)"
  have "owned v" using w onward_owned [OF w reject_onward [OF w]] by (simp add: v_def split: option.splits)
  moreover have "open_dialog target flow w = v\<lparr>vw_dialogs := vw_dialogs v @ [(vw_opened v, new_dialog target flow)],
      vw_active := Some (vw_opened v), vw_opened := vw_opened v + 1\<rparr>"
    by (simp add: open_dialog_def v_def Let_def)
  ultimately show ?thesis
    by (auto simp: owned_def start_ids_def dialog_ids_def new_dialog_def less_Suc_eq)
qed

lemma dialog_gone_owned: "owned w \<Longrightarrow> owned (dialog_gone k w)"
proof -
  assume w: "owned w"
  have "distinct (map fst (filter P ds))" if "distinct (map fst ds)" for P and ds :: "(nat \<times> user_dialog) list"
    using that by (simp add: distinct_map_filter)
  then show ?thesis using w dialog_ids_filter [of "\<lambda>(j, _). j \<noteq> k" "vw_dialogs w"]
    by (intro owned_fewer [OF w]) (auto simp: owned_def dialog_gone_def start_ids_def)
qed

lemma close_flow_owned: "owned w \<Longrightarrow> owned (close_flow w)"
  by (rule owned_fewer, assumption)
    (auto simp: owned_def close_flow_def with_flow_def start_ids_def flow_open_close_evolves split_beta Let_def split: option.splits)

lemma open_flow_owned: "owned w \<Longrightarrow> owned (open_flow incoming w)"
proof -
  assume w: "owned w"
  have v: "owned (w\<lparr>vw_flow := Some new_flow\<rparr>)" if "vw_flow w = None"
    using that by (intro owned_fewer [OF w])
      (use w in \<open>auto simp: owned_def start_ids_def flow_ids_def new_flow_def new_emoji_page_def new_qr_page_def\<close>)
  have onward: "onward u (with_flow (start_flow flow) u)" for u flow
    by (rule with_flow_onward) (rule flow_open_close_evolves)
  show ?thesis
  proof (cases "vw_flow w")
    case None
    from onward_owned [OF v [OF None] onward] None show ?thesis by (simp add: open_flow_def)
  next
    case (Some f)
    from w Some show ?thesis by (simp add: open_flow_def)
  qed
qed

lemma bridge_emits_owned: "owned w \<Longrightarrow> owned (bridge_emits g w)"
proof -
  assume w: "owned w"
  define v where "v = with_flow (flow_signal g) w"
  have v: "owned v" unfolding v_def using w by (rule onward_owned) (rule with_flow_onward, rule flow_signal_evolves)
  have keys: "map fst (map (\<lambda>(j, d). (j, dialog_signal g d)) ds) = map fst ds" for ds by (induction ds) auto
  have "count_list (dialog_ids (map (\<lambda>(j, d). (j, dialog_signal g d)) (vw_dialogs v))) i \<le> count_list (dialog_ids (vw_dialogs v)) i"
    if "i \<noteq> 0" for i using that by (rule dialog_ids_signal)
  moreover have "bridge_emits g w = v\<lparr>vw_bridge := vw_bridge (bridge_emits g w), vw_dialogs := map (\<lambda>(j, d). (j, dialog_signal g d)) (vw_dialogs v)\<rparr>"
    "vb_next (vw_bridge (bridge_emits g w)) = vb_next (vw_bridge v)"
    by (simp_all add: bridge_emits_def v_def Let_def)
  moreover have "owned (v\<lparr>vw_bridge := b, vw_dialogs := map (\<lambda>(j, d). (j, dialog_signal g d)) (vw_dialogs v)\<rparr>)"
    if "vb_next b = vb_next (vw_bridge v)"
      "\<And>i. i \<noteq> 0 \<Longrightarrow> count_list (dialog_ids (map (\<lambda>(j, d). (j, dialog_signal g d)) (vw_dialogs v))) i \<le> count_list (dialog_ids (vw_dialogs v)) i" for b
  proof (rule owned_fewer [OF v])
    let ?u = "v\<lparr>vw_bridge := b, vw_dialogs := map (\<lambda>(j, d). (j, dialog_signal g d)) (vw_dialogs v)\<rparr>"
    have same: "map fst (vw_dialogs ?u) = map fst (vw_dialogs v)" using keys [of "vw_dialogs v"] by simp
    show "distinct (map fst (vw_dialogs ?u))" using v unfolding same owned_def by blast
    show "set (map fst (vw_dialogs ?u)) \<subseteq> set (map fst (vw_dialogs v))" unfolding same by simp
    show "count_list (start_ids ?u) i \<le> count_list (start_ids v) i" if "i \<noteq> 0" for i
      using \<open>\<And>i. i \<noteq> 0 \<Longrightarrow> count_list (dialog_ids _) i \<le> count_list (dialog_ids (vw_dialogs v)) i\<close> [OF that] by (simp add: start_ids_def)
  qed (simp_all add: that(1))
  ultimately show ?thesis by metis
qed

lemma window_step_owned: "owned w \<Longrightarrow> owned (window_step w e)"
proof (cases e)
  case (StartDialog k)
  assume w: "owned w"
  have "onward w (with_dialog k dialog_start w)"
    using w by (rule with_dialog_onward) (auto simp: evolves_def dialog_start_id)
  with w StartDialog show ?thesis by (simp add: window_step_def onward_owned)
next
  case (DialogClick k c)
  assume w: "owned w"
  have "onward w (with_dialog k (dialog_clicked c) w)" using w by (rule with_dialog_onward) simp
  with w DialogClick show ?thesis by (simp add: window_step_def onward_owned)
qed (simp_all add: window_step_def open_flow_owned close_flow_owned open_dialog_owned dialog_gone_owned bridge_emits_owned
      onward_owned [OF _ with_flow_onward [OF flow_clicked_evolves]])

inductive reachable :: "verification_windows \<Rightarrow> bool" where
  nothing_open: "reachable no_windows"
| stepped: "reachable w \<Longrightarrow> reachable (window_step w e)"

lemma reachable_run: "reachable (window_run no_windows es)"
  by (induction es rule: rev_induct) (auto simp: window_run_def intro: reachable.intros)

lemma reachable_owned: "reachable w \<Longrightarrow> owned w"
  by (induction rule: reachable.induct) (simp add: owned_def no_windows_def start_ids_def dialog_ids_def, rule window_step_owned)

text \<open>C36: Whatever windows are opened, closed and used, no two pages or dialogs ever wait for the same start
  call, so a reply is taken by one of them at most.\<close>

theorem reply_has_one_owner:
  "count_list (start_ids (window_run no_windows es)) (Suc i) \<le> 1"
  using owned_budget [OF reachable_owned [OF reachable_run], of "Suc i" es] by (simp add: budget_def split: if_splits)

end
