(* ===== verification/Toast_Registry.thy ===== *)
theory Toast_Registry imports TM_Prelude begin

section \<open>The registry of toasts on Linux\<close>

text \<open>
  \<^verbatim>\<open>src/src/window/notifications_linux_registry.h\<close>/\<^verbatim>\<open>.cpp\<close>: the ids the notification daemon gave to the
  toasts of each room, in two directions.  It is shown to be one finite map from ids to a room and
  an event; \<open>takeRoom\<close> hands out exactly the ids of the room.
\<close>

type_synonym toast_id = "32 word"

record toast_registry =
  tr_byRoom :: "(qstring, toast_id list) qhash"
  tr_roomById :: "(toast_id, qstring) qhash"
  tr_eventById :: "(toast_id, qstring) qhash"

definition empty_registry :: toast_registry where
  "empty_registry = \<lparr> tr_byRoom = [], tr_roomById = [], tr_eventById = [] \<rparr>"

definition roomForId :: "toast_id \<Rightarrow> toast_registry \<Rightarrow> qstring" where
  "roomForId i r = hash_value [] i (tr_roomById r)"

definition eventForId :: "toast_id \<Rightarrow> toast_registry \<Rightarrow> qstring" where
  "eventForId i r = hash_value [] i (tr_eventById r)"

definition forget :: "toast_id \<Rightarrow> toast_registry \<Rightarrow> toast_registry" where
  "forget i r =
     (case map_of (tr_roomById r) i of
        None \<Rightarrow> r
      | Some room \<Rightarrow>
          let r1 = r\<lparr>tr_roomById := hash_remove i (tr_roomById r), tr_eventById := hash_remove i (tr_eventById r)\<rparr>
          in (case map_of (tr_byRoom r1) room of
                None \<Rightarrow> r1
              | Some ids \<Rightarrow>
                  (let rest = removeAll i ids
                   in r1\<lparr>tr_byRoom := (if rest = [] then hash_remove room (tr_byRoom r1)
                                      else hash_insert room rest (tr_byRoom r1))\<rparr>)))"

definition add_toast :: "qstring \<Rightarrow> qstring \<Rightarrow> toast_id \<Rightarrow> toast_registry \<Rightarrow> toast_registry" where
  "add_toast room event i r =
     (if room = [] \<or> i = 0 then r
      else let r1 = forget i r
           in r1\<lparr>tr_byRoom := hash_insert room (hash_value [] room (tr_byRoom r1) @ [i]) (tr_byRoom r1),
                tr_roomById := hash_insert i room (tr_roomById r1),
                tr_eventById := (if event \<noteq> [] then hash_insert i event (tr_eventById r1) else tr_eventById r1)\<rparr>)"

definition takeRoom :: "qstring \<Rightarrow> toast_registry \<Rightarrow> toast_registry \<times> toast_id list" where
  "takeRoom room r =
     (let ids = hash_value [] room (tr_byRoom r)
      in (r\<lparr>tr_byRoom := hash_remove room (tr_byRoom r), tr_roomById := fold hash_remove ids (tr_roomById r),
            tr_eventById := fold hash_remove ids (tr_eventById r)\<rparr>, ids))"

definition takeAll :: "toast_registry \<Rightarrow> toast_registry \<times> toast_id list" where
  "takeAll r = (empty_registry, map fst (tr_roomById r))"

subsection \<open>The invariant\<close>

lemma map_of_fold_remove [simp]: "map_of (fold hash_remove ks h) k = (if k \<in> set ks then None else map_of h k)"
  by (induction ks arbitrary: h) auto

lemma hash_ok_fold_remove [simp]: "hash_ok h \<Longrightarrow> hash_ok (fold hash_remove ks h)"
  by (induction ks arbitrary: h) auto

lemma hash_value_fold_remove [simp]: "hash_value d k (fold hash_remove ks h) = (if k \<in> set ks then d else hash_value d k h)"
  by (simp add: hash_value_def)

text \<open>An id is listed below a room exactly if the room is recorded for it, once; only ids with a
  room have an event; neither the empty room nor the id 0 is tracked.\<close>

definition registry_ok :: "toast_registry \<Rightarrow> bool" where
  "registry_ok r \<longleftrightarrow> hash_ok (tr_roomById r)
     \<and> (\<forall>room i. i \<in> set (hash_value [] room (tr_byRoom r)) \<longleftrightarrow> map_of (tr_roomById r) i = Some room)
     \<and> (\<forall>room. distinct (hash_value [] room (tr_byRoom r)) \<and> map_of (tr_byRoom r) room \<noteq> Some [])
     \<and> (\<forall>i. map_of (tr_roomById r) i = None \<longrightarrow> map_of (tr_eventById r) i = None)
     \<and> (\<forall>i room. map_of (tr_roomById r) i = Some room \<longrightarrow> room \<noteq> [] \<and> i \<noteq> 0)"

lemma empty_registry_ok [simp]: "registry_ok empty_registry"
  by (simp add: registry_ok_def empty_registry_def)

lemma listed_iff: "registry_ok r \<Longrightarrow> i \<in> set (hash_value [] room (tr_byRoom r)) \<longleftrightarrow> map_of (tr_roomById r) i = Some room"
  by (simp add: registry_ok_def)

lemma listed_room: "registry_ok r \<Longrightarrow> map_of (tr_roomById r) i = Some room \<Longrightarrow> \<exists>ids. map_of (tr_byRoom r) room = Some ids \<and> i \<in> set ids"
  using listed_iff [of r i room] by (cases "map_of (tr_byRoom r) room") (simp_all add: hash_value_def)

text \<open>What the operations do to the three hashes, on a registry that is right.\<close>

lemma forget_hashes:
  assumes "registry_ok r"
  shows "map_of (tr_roomById (forget i r)) = (map_of (tr_roomById r))(i := None)"
    "map_of (tr_eventById (forget i r)) = (map_of (tr_eventById r))(i := None)"
    "hash_value [] room (tr_byRoom (forget i r)) = removeAll i (hash_value [] room (tr_byRoom r))"
    "hash_ok (tr_roomById (forget i r))"
    "map_of (tr_byRoom (forget i r)) room \<noteq> Some []"
proof -
  have ok: "hash_ok (tr_roomById r)" "\<And>q. map_of (tr_byRoom r) q \<noteq> Some []" using assms by (simp_all add: registry_ok_def)
  have event: "map_of (tr_roomById r) i = None \<Longrightarrow> map_of (tr_eventById r) i = None" using assms by (simp add: registry_ok_def)
  have "map_of (tr_roomById (forget i r)) = (map_of (tr_roomById r))(i := None)
    \<and> map_of (tr_eventById (forget i r)) = (map_of (tr_eventById r))(i := None)
    \<and> hash_value [] room (tr_byRoom (forget i r)) = removeAll i (hash_value [] room (tr_byRoom r))
    \<and> hash_ok (tr_roomById (forget i r)) \<and> map_of (tr_byRoom (forget i r)) room \<noteq> Some []"
  proof (cases "map_of (tr_roomById r) i")
    case None
    then have "i \<notin> set (hash_value [] room (tr_byRoom r))" using assms by (simp add: listed_iff)
    with None event ok show ?thesis by (simp add: forget_def fun_upd_idem)
  next
    case (Some q)
    then obtain ids where ids: "map_of (tr_byRoom r) q = Some ids" using listed_room [OF assms] by blast
    have "i \<notin> set (hash_value [] room (tr_byRoom r))" if "room \<noteq> q" using that Some assms by (simp add: listed_iff)
    with Some ids ok show ?thesis by (auto simp: forget_def Let_def hash_value_def)
  qed
  then show "map_of (tr_roomById (forget i r)) = (map_of (tr_roomById r))(i := None)"
    "map_of (tr_eventById (forget i r)) = (map_of (tr_eventById r))(i := None)"
    "hash_value [] room (tr_byRoom (forget i r)) = removeAll i (hash_value [] room (tr_byRoom r))"
    "hash_ok (tr_roomById (forget i r))" "map_of (tr_byRoom (forget i r)) room \<noteq> Some []" by blast+
qed

lemma forget_ok: assumes "registry_ok r" shows "registry_ok (forget i r)"
  unfolding registry_ok_def forget_hashes [OF assms]
  using assms forget_hashes(4, 5) [OF assms] by (auto simp: registry_ok_def distinct_removeAll)

lemma add_toast_ok: assumes "registry_ok r" shows "registry_ok (add_toast room event i r)"
proof (cases "room = [] \<or> i = 0")
  case True
  with assms show ?thesis by (simp add: add_toast_def)
next
  case False
  let ?f = "forget i r"
  have f: "registry_ok ?f" using assms by (rule forget_ok)
  have new: "map_of (tr_roomById ?f) i = None" using forget_hashes(1) [OF assms] by simp
  then have fresh: "i \<notin> set (hash_value [] q (tr_byRoom ?f))" for q using listed_iff [OF f] by simp
  from False have "add_toast room event i r = ?f\<lparr>tr_byRoom := hash_insert room (hash_value [] room (tr_byRoom ?f) @ [i]) (tr_byRoom ?f),
      tr_roomById := hash_insert i room (tr_roomById ?f),
      tr_eventById := (if event \<noteq> [] then hash_insert i event (tr_eventById ?f) else tr_eventById ?f)\<rparr>"
    by (simp add: add_toast_def Let_def)
  with f fresh False show ?thesis by (simp add: registry_ok_def)
qed

lemma takeRoom_ok: assumes "registry_ok r" shows "registry_ok (fst (takeRoom room r))"
proof -
  have "hash_value [] q (hash_remove room (tr_byRoom r)) = (if q = room then [] else hash_value [] q (tr_byRoom r))" for q by simp
  with assms show ?thesis by (auto simp: takeRoom_def Let_def registry_ok_def split: if_splits)
qed

subsection \<open>One map from ids\<close>

definition toasts :: "toast_registry \<Rightarrow> toast_id \<Rightarrow> (qstring \<times> qstring) option" where
  "toasts r i = map_option (\<lambda>room. (room, eventForId i r)) (map_of (tr_roomById r) i)"

datatype registry_op = AddToast qstring qstring toast_id | ForgetToast toast_id | TakeRoom qstring | TakeAll

primrec registry_step :: "toast_registry \<Rightarrow> registry_op \<Rightarrow> toast_registry" where
  "registry_step r (AddToast room event i) = add_toast room event i r"
| "registry_step r (ForgetToast i) = forget i r"
| "registry_step r (TakeRoom room) = fst (takeRoom room r)"
| "registry_step r TakeAll = fst (takeAll r)"

text \<open>The specification.\<close>

primrec spec_step :: "(toast_id \<Rightarrow> (qstring \<times> qstring) option) \<Rightarrow> registry_op \<Rightarrow> (toast_id \<Rightarrow> (qstring \<times> qstring) option)" where
  "spec_step m (AddToast room event i) = (if room = [] \<or> i = 0 then m else m(i \<mapsto> (room, event)))"
| "spec_step m (ForgetToast i) = m(i := None)"
| "spec_step m (TakeRoom room) = (\<lambda>i. case m i of None \<Rightarrow> None | Some p \<Rightarrow> if fst p = room then None else Some p)"
| "spec_step m TakeAll = Map.empty"

definition implements :: "(toast_id \<Rightarrow> (qstring \<times> qstring) option) \<Rightarrow> toast_registry \<Rightarrow> bool" where
  "implements m r \<longleftrightarrow> registry_ok r \<and> toasts r = m"

lemma registry_step_ok: "registry_ok r \<Longrightarrow> registry_ok (registry_step r e)"
  by (cases e) (simp_all add: add_toast_ok forget_ok takeRoom_ok takeAll_def)

lemma toasts_forget: "registry_ok r \<Longrightarrow> toasts (forget i r) = (toasts r)(i := None)"
  by (rule ext) (simp add: toasts_def eventForId_def hash_value_def forget_hashes)

lemma toasts_add: "registry_ok r \<Longrightarrow> toasts (add_toast room event i r) = spec_step (toasts r) (AddToast room event i)"
  by (rule ext) (simp add: add_toast_def Let_def toasts_def eventForId_def hash_value_def forget_hashes)

lemma toasts_take: "registry_ok r \<Longrightarrow> toasts (fst (takeRoom room r)) = spec_step (toasts r) (TakeRoom room)"
  by (rule ext) (auto simp: takeRoom_def Let_def toasts_def eventForId_def listed_iff split: option.splits)

interpretation registry: simulation spec_step registry_step implements "\<lambda>_ _. True"
proof
  fix m r e
  assume "implements m r"
  then show "implements (spec_step m e) (registry_step r e)"
    by (cases e) (auto simp: implements_def add_toast_ok forget_ok takeRoom_ok toasts_add toasts_forget toasts_take
        simp del: spec_step.simps(1, 3), simp_all add: takeAll_def toasts_def fun_eq_iff, simp add: empty_registry_def)
qed

lemma run_ok_True [simp]: "run_ok f (\<lambda>_ _. True) a es"
  by (induction es arbitrary: a) simp_all

lemma registry_run: "implements (foldl spec_step Map.empty es) (foldl registry_step empty_registry es)"
proof (rule registry.run_sim)
  show "implements Map.empty empty_registry" by (simp add: implements_def) (simp add: toasts_def fun_eq_iff empty_registry_def)
qed simp

text \<open>C18: After any operations the registry is the map they specify: what is tracked for an id is its last room
  and event, \<open>takeRoom\<close> hands out exactly the ids of the room, each once, and \<open>takeAll\<close> all ids.\<close>

theorem registry_refines_map:
  "let r = foldl registry_step empty_registry es; m = foldl spec_step Map.empty es
   in roomForId i r = (case m i of None \<Rightarrow> [] | Some (room, event) \<Rightarrow> room)
    \<and> eventForId i r = (case m i of None \<Rightarrow> [] | Some (room, event) \<Rightarrow> event)
    \<and> distinct (snd (takeRoom room r)) \<and> (i \<in> set (snd (takeRoom room r)) \<longleftrightarrow> map_option fst (m i) = Some room)
    \<and> distinct (snd (takeAll r)) \<and> (i \<in> set (snd (takeAll r)) \<longleftrightarrow> m i \<noteq> None)"
proof -
  define r where "r = foldl registry_step empty_registry es"
  define m where "m = foldl spec_step Map.empty es"
  from registry_run [of es] have ok: "registry_ok r" and m: "m = toasts r"
    by (simp_all add: implements_def r_def m_def)
  have "roomForId i r = (case m i of None \<Rightarrow> [] | Some (room, event) \<Rightarrow> room)"
    by (simp add: m toasts_def roomForId_def hash_value_def split: option.split)
  moreover have "eventForId i r = (case m i of None \<Rightarrow> [] | Some (room, event) \<Rightarrow> event)"
    using ok by (auto simp: m toasts_def eventForId_def hash_value_def registry_ok_def split: option.split)
  moreover have "distinct (snd (takeRoom room r)) \<and> (i \<in> set (snd (takeRoom room r)) \<longleftrightarrow> map_option fst (m i) = Some room)"
    using ok by (auto simp: m takeRoom_def Let_def listed_iff toasts_def registry_ok_def)
  moreover have "distinct (snd (takeAll r)) \<and> (i \<in> set (snd (takeAll r)) \<longleftrightarrow> m i \<noteq> None)"
    using ok by (simp add: takeAll_def m toasts_def registry_ok_def hash_ok_def map_of_eq_None_iff)
  ultimately show ?thesis unfolding r_def m_def Let_def by blast
qed

end
