(* ===== verification/Linux_Toasts.thy ===== *)
theory Linux_Toasts imports Toast_Registry begin

section \<open>Toasts on Linux\<close>

text \<open>
  \<^verbatim>\<open>src/src/window/notifications_manager_linux.cpp\<close>: \<open>LinuxManager\<close>, which shows toasts through the
  notification daemon or, in a sandbox, through the portal.  A call on the bus is an entry of
  \<open>lm_sent\<close>; the daemon answers a \<open>Notify\<close> later with the id of the toast, and the watcher of the
  call keeps the room and the event until then (\<open>lm_watchers\<close>, by the number of the call).  The two
  \<open>QDBusInterface\<close> pointers are never null where they are used: the constructor makes one of them.
\<close>

datatype bus_call =
    Notify nat qstring qstring "qstring list" nat "qstring option" bool  \<comment> \<open>summary, body, actions, urgency, image-path, reply placeholder\<close>
  | CloseNotification toast_id
  | AddNotification qstring qstring qstring qstring  \<comment> \<open>id, title, body, priority\<close>
  | RemoveNotification qstring

datatype manager_signal =
    NotificationActivated qstring qstring
  | NotificationReplied qstring qstring
  | NotificationMarkRead qstring

record linux_manager =
  lm_usePortal :: bool
  lm_capabilities :: "qstring list"
  lm_registry :: toast_registry
  lm_portalRoomIds :: "(qstring, qstring list) qhash"
  lm_portalIdRoom :: "(qstring, qstring) qhash"
  lm_portalIdEvent :: "(qstring, qstring) qhash"
  lm_watchers :: "(nat, qstring \<times> qstring) qhash"
  lm_calls :: nat
  lm_sent :: "bus_call list"

definition new_linux_manager :: "bool \<Rightarrow> linux_manager" where
  "new_linux_manager sandboxed = \<lparr> lm_usePortal = sandboxed, lm_capabilities = [], lm_registry = empty_registry,
     lm_portalRoomIds = [], lm_portalIdRoom = [], lm_portalIdEvent = [], lm_watchers = [], lm_calls = 0, lm_sent = [] \<rparr>"

definition portalId :: "qstring \<Rightarrow> qstring \<Rightarrow> qstring" where
  "portalId room event = (if event = [] then room else event)"

fun escapeBodyMarkup :: "qstring \<Rightarrow> qstring" where
  "escapeBodyMarkup [] = []"
| "escapeBodyMarkup (ch # str) =
     (if ch = CHR ''&'' then ''&amp;'' else if ch = CHR ''<'' then ''&lt;'' else if ch = CHR ''>'' then ''&gt;'' else [ch])
     @ escapeBodyMarkup str"

record toast =
  to_room :: qstring
  to_event :: qstring
  to_sender :: qstring
  to_chat :: qstring
  to_message :: qstring
  to_isDirect :: bool
  to_isMention :: bool
  to_avatar :: qstring
  to_isInvite :: bool

text \<open>Summary and body: a chat between two shows the sender, a room its name and the sender in the body.\<close>

definition toast_group :: "toast \<Rightarrow> bool" where
  "toast_group t \<longleftrightarrow> \<not> to_isDirect t \<and> to_chat t \<noteq> []"

definition toast_summary :: "toast \<Rightarrow> qstring" where
  "toast_summary t = (let summary = (if toast_group t then to_chat t else to_sender t) in if summary = [] then ''TeleMatrix'' else summary)"

definition toast_body :: "toast \<Rightarrow> qstring" where
  "toast_body t = (if toast_group t \<and> to_sender t \<noteq> [] then to_sender t @ '': '' @ to_message t else to_message t)"

definition toast_actions :: "qstring list \<Rightarrow> toast \<Rightarrow> qstring list" where
  "toast_actions capabilities t =
     [''default'', ''Open'']
     @ (if \<not> to_isInvite t \<and> ''actions'' \<in> set capabilities then [''mark-read'', ''Mark as read''] else [])
     @ (if \<not> to_isInvite t \<and> ''inline-reply'' \<in> set capabilities then [''inline-reply'', ''Reply''] else [])"

definition lm_showNotification :: "toast \<Rightarrow> linux_manager \<Rightarrow> linux_manager" where
  "lm_showNotification t m =
     (if lm_usePortal m then
        let i = portalId (to_room t) (to_event t)
        in m\<lparr>lm_sent := lm_sent m @ [AddNotification i (toast_summary t) (toast_body t) (if to_isMention t then ''urgent'' else ''normal'')],
             lm_portalRoomIds := hash_insert (to_room t) (hash_value [] (to_room t) (lm_portalRoomIds m) @ [i]) (lm_portalRoomIds m),
             lm_portalIdRoom := hash_insert i (to_room t) (lm_portalIdRoom m),
             lm_portalIdEvent := (if to_event t \<noteq> [] then hash_insert i (to_event t) (lm_portalIdEvent m) else lm_portalIdEvent m)\<rparr>
      else
        let body = (if ''body-markup'' \<in> set (lm_capabilities m) then escapeBodyMarkup (toast_body t) else toast_body t)
        in m\<lparr>lm_sent := lm_sent m @ [Notify (lm_calls m) (toast_summary t) body (toast_actions (lm_capabilities m) t)
               (if to_isMention t then 2 else 1) (if to_avatar t = [] then None else Some (to_avatar t))
               (\<not> to_isInvite t \<and> ''inline-reply'' \<in> set (lm_capabilities m))],
             lm_watchers := hash_insert (lm_calls m) (to_room t, to_event t) (lm_watchers m),
             lm_calls := lm_calls m + 1\<rparr>)"

definition closeNotification :: "toast_id \<Rightarrow> linux_manager \<Rightarrow> linux_manager" where
  "closeNotification i m = (if i \<noteq> 0 then m\<lparr>lm_sent := lm_sent m @ [CloseNotification i]\<rparr> else m)"

definition removeNotification :: "qstring \<Rightarrow> linux_manager \<Rightarrow> linux_manager" where
  "removeNotification i m = m\<lparr>lm_sent := lm_sent m @ [RemoveNotification i]\<rparr>"

definition lm_clearFromRoom :: "qstring \<Rightarrow> linux_manager \<Rightarrow> linux_manager" where
  "lm_clearFromRoom room m =
     (if lm_usePortal m then
        let ids = hash_value [] room (lm_portalRoomIds m)
        in fold (\<lambda>i m. removeNotification i (m\<lparr>lm_portalIdRoom := hash_remove i (lm_portalIdRoom m),
                   lm_portalIdEvent := hash_remove i (lm_portalIdEvent m)\<rparr>)) ids
             (m\<lparr>lm_portalRoomIds := hash_remove room (lm_portalRoomIds m)\<rparr>)
      else
        let (registry, ids) = takeRoom room (lm_registry m)
        in fold closeNotification ids (m\<lparr>lm_registry := registry\<rparr>))"

definition lm_clearAll :: "linux_manager \<Rightarrow> linux_manager" where
  "lm_clearAll m =
     (if lm_usePortal m then
        fold removeNotification (map fst (lm_portalIdRoom m))
          (m\<lparr>lm_portalIdRoom := [], lm_portalIdEvent := [], lm_portalRoomIds := []\<rparr>)
      else
        let (registry, ids) = takeAll (lm_registry m)
        in fold closeNotification ids (m\<lparr>lm_registry := registry\<rparr>))"

text \<open>What comes back on the bus.  A reply that is an error only drops the watcher.\<close>

definition notifyFinished :: "nat \<Rightarrow> toast_id option \<Rightarrow> linux_manager \<Rightarrow> linux_manager" where
  "notifyFinished call answer m =
     (case map_of (lm_watchers m) call of
        None \<Rightarrow> m
      | Some (room, event) \<Rightarrow>
          let m1 = m\<lparr>lm_watchers := hash_remove call (lm_watchers m)\<rparr>
          in (case answer of None \<Rightarrow> m1 | Some i \<Rightarrow> m1\<lparr>lm_registry := add_toast room event i (lm_registry m1)\<rparr>))"

definition capabilitiesFinished :: "qstring list option \<Rightarrow> linux_manager \<Rightarrow> linux_manager" where
  "capabilitiesFinished answer m = (case answer of None \<Rightarrow> m | Some caps \<Rightarrow> m\<lparr>lm_capabilities := caps\<rparr>)"

definition handleActionInvoked :: "toast_id \<Rightarrow> qstring \<Rightarrow> linux_manager \<Rightarrow> manager_signal list" where
  "handleActionInvoked i actionKey m =
     (let room = roomForId i (lm_registry m)
      in if room = [] then []
         else if actionKey = ''default'' then [NotificationActivated room (eventForId i (lm_registry m))]
         else if actionKey = ''mark-read'' then [NotificationMarkRead room]
         else [])"

definition handleNotificationClosed :: "toast_id \<Rightarrow> linux_manager \<Rightarrow> linux_manager" where
  "handleNotificationClosed i m = m\<lparr>lm_registry := forget i (lm_registry m)\<rparr>"

definition handleNotificationReplied :: "toast_id \<Rightarrow> qstring \<Rightarrow> linux_manager \<Rightarrow> manager_signal list" where
  "handleNotificationReplied i txt m =
     (let room = roomForId i (lm_registry m) in if room \<noteq> [] then [NotificationReplied room txt] else [])"

definition handlePortalActionInvoked :: "qstring \<Rightarrow> qstring \<Rightarrow> linux_manager \<Rightarrow> manager_signal list" where
  "handlePortalActionInvoked i action m =
     (if action \<noteq> ''default'' then []
      else let room = hash_value [] i (lm_portalIdRoom m)
           in if room \<noteq> [] then [NotificationActivated room (hash_value [] i (lm_portalIdEvent m))] else [])"

datatype linux_event =
    Show toast
  | ClearFromRoom qstring
  | ClearAll
  | NotifyReply nat "toast_id option"
  | CapabilitiesReply "qstring list option"
  | ToastClosed toast_id
  | ActionInvoked toast_id qstring
  | InlineReply toast_id qstring
  | PortalAction qstring qstring

definition linux_step :: "linux_manager \<Rightarrow> linux_event \<Rightarrow> linux_manager \<times> manager_signal list" where
  "linux_step m e =
     (case e of
        Show t \<Rightarrow> (lm_showNotification t m, [])
      | ClearFromRoom room \<Rightarrow> (lm_clearFromRoom room m, [])
      | ClearAll \<Rightarrow> (lm_clearAll m, [])
      | NotifyReply call answer \<Rightarrow> (notifyFinished call answer m, [])
      | CapabilitiesReply answer \<Rightarrow> (capabilitiesFinished answer m, [])
      | ToastClosed i \<Rightarrow> (handleNotificationClosed i m, [])
      | ActionInvoked i k \<Rightarrow> (m, handleActionInvoked i k m)
      | InlineReply i txt \<Rightarrow> (m, handleNotificationReplied i txt m)
      | PortalAction i k \<Rightarrow> (m, handlePortalActionInvoked i k m))"

definition linux_run :: "linux_manager \<Rightarrow> linux_event list \<Rightarrow> linux_manager" where
  "linux_run = foldl (\<lambda>m e. fst (linux_step m e))"

end
