(* ===== verification/Notification_System.thy ===== *)
theory Notification_System imports Accounts Device_Settings Drafts Linux_Toasts begin

section \<open>The notification system\<close>

text \<open>
  \<^verbatim>\<open>src/src/window/notifications_manager.cpp\<close>: \<open>System\<close>, which decides what of the messages, invites,
  logins and sign-outs of all accounts is shown, plays the sound, and keeps the badge; and the slots
  of \<^verbatim>\<open>app_controller.cpp\<close> that act on a toast that is clicked or answered.  What the handlers read
  from the rest of the program at the time of a call is a \<open>notify_env\<close>: the settings and the list of
  accounts (which may be null), the window and the room on screen, the clock, the media cache.  The
  platform's manager is the one of \<open>Linux_Toasts\<close>; calls to it and other effects are listed in order.
\<close>

definition kMinimalAlertDelay :: int where "kMinimalAlertDelay = 50"
definition kMaxShownEventIdsPerRoom :: nat where "kMaxShownEventIdsPerRoom = 256"

record notify_env =
  ne_settings :: "settings option"
  ne_domain :: "account_domain option"
  ne_store :: "unread_store option"
  ne_cachedRooms :: "room_summary list"
  ne_window :: "bool option"            \<comment> \<open>whether the window is active\<close>
  ne_mainWidget :: "qstring option"     \<comment> \<open>the room on screen\<close>
  ne_suppressAlerts :: bool
  ne_now :: int
  ne_soundReady :: bool
  ne_localPath :: "qstring \<Rightarrow> qstring"
  ne_needsResolution :: "qstring \<Rightarrow> bool"

datatype notify_effect =
    ShowToast toast
  | ClearToasts qstring
  | SetBadge int
  | BounceDockIcon
  | PlaySound
  | ResolveAvatar nat qstring
  | ActivateRoom qstring qstring qstring
  | ReplyToRoom qstring qstring qstring
  | MarkReadRoom qstring qstring

record notification_system =
  ns_bridge :: "nat option"
  ns_manager :: bool
  ns_accountBridges :: "(qstring, nat) qhash"
  ns_notificationAccount :: "(qstring, qstring) qhash"
  ns_shownEventIds :: "(qstring, qstring list) qhash"
  ns_lastSoundTime :: int
  ns_badgeRefreshQueued :: bool
  ns_lastBadgeTotal :: int

text \<open>The constructor also posts a call of \<open>refreshBadge\<close>.\<close>

definition new_system :: "nat option \<Rightarrow> notification_system" where
  "new_system bridge = \<lparr> ns_bridge = bridge, ns_manager = False, ns_accountBridges = [], ns_notificationAccount = [],
     ns_shownEventIds = [], ns_lastSoundTime = 0, ns_badgeRefreshQueued = False, ns_lastBadgeTotal = -1 \<rparr>"

definition setting :: "(settings \<Rightarrow> bool) \<Rightarrow> notify_env \<Rightarrow> bool" where
  "setting f env \<longleftrightarrow> (case ne_settings env of None \<Rightarrow> True | Some s \<Rightarrow> f s)"

subsection \<open>Badge\<close>

definition currentBadgeTotalUnread :: "notify_env \<Rightarrow> int" where
  "currentBadgeTotalUnread env =
     (let includeMuted = setting st_includeMutedInBadge env
      in case ne_domain env of
           Some d \<Rightarrow>
             if 0 < dom_count d then totalUnreadBadge d includeMuted
             else (case ne_store env of
                     Some store \<Rightarrow> totalUnreadCount store includeMuted
                   | None \<Rightarrow> sum_list (map (\<lambda>r. max 0 (rs_unreadCount r))
                       (filter (\<lambda>r. \<not> roomCountsAsMuted (rs_notificationMode r) (rs_isMuted r) \<or> includeMuted) (ne_cachedRooms env))))
         | None \<Rightarrow>
             (case ne_store env of
                Some store \<Rightarrow> totalUnreadCount store includeMuted
              | None \<Rightarrow> sum_list (map (\<lambda>r. max 0 (rs_unreadCount r))
                  (filter (\<lambda>r. \<not> roomCountsAsMuted (rs_notificationMode r) (rs_isMuted r) \<or> includeMuted) (ne_cachedRooms env)))))"

definition updateDockBadge :: "int \<Rightarrow> notification_system \<Rightarrow> notify_effect list" where
  "updateDockBadge totalUnread s = (if ns_manager s then [SetBadge totalUnread] else [])"

definition refreshBadge :: "notification_system \<Rightarrow> notification_system" where
  "refreshBadge s = s\<lparr>ns_badgeRefreshQueued := True\<rparr>"

definition badgeTimer :: "notify_env \<Rightarrow> notification_system \<Rightarrow> notification_system \<times> notify_effect list" where
  "badgeTimer env s =
     (if \<not> ns_badgeRefreshQueued s then (s, [])
      else let s1 = s\<lparr>ns_badgeRefreshQueued := False\<rparr>; newTotal = currentBadgeTotalUnread env
           in if newTotal = ns_lastBadgeTotal s1 then (s1, [])
              else (s1\<lparr>ns_lastBadgeTotal := newTotal\<rparr>, updateDockBadge newTotal s1))"

definition setManager :: "bool \<Rightarrow> notification_system \<Rightarrow> notification_system" where
  "setManager manager s = (let s1 = s\<lparr>ns_manager := manager\<rparr> in if manager then refreshBadge s1 else s1)"

subsection \<open>Accounts\<close>

definition shown_key :: "qstring \<Rightarrow> qstring \<Rightarrow> qstring" where
  "shown_key dirName room = dirName @ ''|'' @ room"

definition endsWith :: "qstring \<Rightarrow> qstring \<Rightarrow> bool" where
  "endsWith suffix str \<longleftrightarrow> drop (length str - length suffix) str = suffix"

definition clearFromRoom :: "qstring \<Rightarrow> notification_system \<Rightarrow> notification_system \<times> notify_effect list" where
  "clearFromRoom room s =
     (s\<lparr>ns_shownEventIds := filter (\<lambda>(k, _). \<not> endsWith (''|'' @ room) k) (ns_shownEventIds s)\<rparr>,
      if ns_manager s then [ClearToasts room] else [])"

definition attachAccount :: "qstring \<Rightarrow> nat option \<Rightarrow> notification_system \<Rightarrow> notification_system" where
  "attachAccount dirName bridge s =
     (case bridge of
        None \<Rightarrow> s
      | Some b \<Rightarrow>
          if dirName = [] \<or> hash_contains dirName (ns_accountBridges s) then s
          else s\<lparr>ns_accountBridges := hash_insert dirName b (ns_accountBridges s)\<rparr>)"

definition detachAccount :: "qstring \<Rightarrow> notification_system \<Rightarrow> notification_system" where
  "detachAccount dirName s =
     s\<lparr>ns_accountBridges := hash_remove dirName (ns_accountBridges s),
       ns_notificationAccount := filter (\<lambda>(_, dir). dir \<noteq> dirName) (ns_notificationAccount s),
       ns_shownEventIds := filter (\<lambda>(k, _). \<not> startsWith (dirName @ ''|'') k) (ns_shownEventIds s)\<rparr>"

subsection \<open>Alerts\<close>

definition maybePlaySound :: "notify_env \<Rightarrow> notification_system \<Rightarrow> notification_system \<times> notify_effect list" where
  "maybePlaySound env s =
     (if \<not> setting st_soundNotify env then (s, [])
      else if ne_now env - ns_lastSoundTime s < kMinimalAlertDelay then (s, [])
      else (s\<lparr>ns_lastSoundTime := ne_now env\<rparr>, if ne_soundReady env then [PlaySound] else []))"

text \<open>The end of every alert; \<open>_manager && _settings && bounceDockIcon()\<close>.\<close>

definition sound_and_bounce :: "notify_env \<Rightarrow> notification_system \<Rightarrow> notification_system \<times> notify_effect list" where
  "sound_and_bounce env s =
     (if ne_suppressAlerts env then (s, [])
      else let (s1, out) = maybePlaySound env s
           in (s1, out @ (case ne_settings env of
                            None \<Rightarrow> []
                          | Some st \<Rightarrow> if ns_manager s \<and> st_bounceDockIcon st then [BounceDockIcon] else [])))"

definition alert_toast :: "qstring \<Rightarrow> qstring \<Rightarrow> toast" where
  "alert_toast heading detail = \<lparr> to_room = [], to_event = [], to_sender = heading, to_chat = [], to_message = detail,
     to_isDirect = False, to_isMention = False, to_avatar = [], to_isInvite = True \<rparr>"

definition showAccountSignedOut :: "notify_env \<Rightarrow> qstring \<Rightarrow> notification_system \<Rightarrow> notification_system \<times> notify_effect list" where
  "showAccountSignedOut env accountLabel s =
     (if \<not> ns_manager s then (s, [])
      else let (s1, out) = sound_and_bounce env s
           in (s1, ShowToast (alert_toast ''Signed out'' (accountLabel @ '' was signed out by its homeserver.'')) # out))"

text \<open>\<open>trimmed\<close> with the spaces of \<open>isSpace\<close>.\<close>

definition onNewLogin ::
  "(char \<Rightarrow> bool) \<Rightarrow> notify_env \<Rightarrow> qstring \<Rightarrow> qstring \<Rightarrow> qstring \<Rightarrow> notification_system \<Rightarrow> notification_system \<times> notify_effect list" where
  "onNewLogin isSpace env deviceId displayName lastSeenIp s =
     (let detail = (if trimmed isSpace displayName = [] then deviceId else trimmed isSpace displayName)
            @ (if trimmed isSpace lastSeenIp \<noteq> [] then [CHR '' '', CHR 0xB7, CHR '' ''] @ trimmed isSpace lastSeenIp else []);
          shown = (if ns_manager s \<and> setting st_desktopNotify env
                   then [ShowToast (alert_toast ''New login. Was this you?'' detail)] else []);
          (s1, out) = sound_and_bounce env s
      in (s1, shown @ out))"

definition activeDirName :: "notify_env \<Rightarrow> qstring" where
  "activeDirName env =
     (case ne_domain env of None \<Rightarrow> [] | Some d \<Rightarrow> (case active_account d of None \<Rightarrow> [] | Some a \<Rightarrow> ac_dirName a))"

definition room_on_screen :: "notify_env \<Rightarrow> qstring \<Rightarrow> qstring \<Rightarrow> bool" where
  "room_on_screen env accountDirName room \<longleftrightarrow>
     accountDirName = activeDirName env \<and> ne_window env = Some True \<and> ne_mainWidget env = Some room"

text \<open>The avatar of a toast: the cached file, or a request for the next time (\<open>markRequested\<close> and
  \<open>resolveAvatar\<close> are one effect).\<close>

definition toast_avatar ::
  "notify_env \<Rightarrow> bool \<Rightarrow> qstring \<Rightarrow> qstring \<Rightarrow> notification_system \<Rightarrow> qstring \<times> notify_effect list" where
  "toast_avatar env showSender accountDirName url s =
     (if showSender \<and> url \<noteq> [] then
        let path = ne_localPath env url;
            owner = (case map_of (ns_accountBridges s) accountDirName of Some b \<Rightarrow> Some b | None \<Rightarrow> ns_bridge s)
        in (path, case owner of
                    None \<Rightarrow> []
                  | Some b \<Rightarrow> if path = [] \<and> ne_needsResolution env url then [ResolveAvatar b url] else [])
      else ([], []))"

record incoming_message =
  im_room :: qstring
  im_event :: qstring
  im_sender :: qstring
  im_senderAvatarUrl :: qstring
  im_roomDisplayName :: qstring
  im_body :: qstring
  im_isDirect :: bool
  im_isMention :: bool

text \<open>Whether the event was shown before, and the shown events after it.\<close>

definition remember_shown :: "qstring \<Rightarrow> incoming_message \<Rightarrow> notification_system \<Rightarrow> notification_system option" where
  "remember_shown accountDirName msg s =
     (if im_event msg = [] then Some s
      else let key = shown_key accountDirName (im_room msg); shown = hash_value [] key (ns_shownEventIds s)
           in if im_event msg \<in> set shown then None
              else let kept = (if kMaxShownEventIdsPerRoom \<le> length shown then [] else shown)
                   in Some (s\<lparr>ns_shownEventIds := hash_insert key (im_event msg # kept) (ns_shownEventIds s)\<rparr>))"

definition onIncomingNotification ::
  "notify_env \<Rightarrow> qstring \<Rightarrow> incoming_message \<Rightarrow> notification_system \<Rightarrow> notification_system \<times> notify_effect list" where
  "onIncomingNotification env accountDirName msg s0 =
     (case remember_shown accountDirName msg s0 of
        None \<Rightarrow> (s0, [])
      | Some s1 \<Rightarrow>
          if room_on_screen env accountDirName (im_room msg) then (s1, [])
          else
            let s2 = s1\<lparr>ns_notificationAccount := hash_insert (im_room msg) accountDirName (ns_notificationAccount s1)\<rparr>;
                showSender = setting st_showSenderName env;
                (path, requests) = toast_avatar env showSender accountDirName (im_senderAvatarUrl msg) s2;
                shown = (if ns_manager s2 \<and> setting st_desktopNotify env
                         then requests @ [ShowToast \<lparr> to_room = im_room msg, to_event = im_event msg,
                                to_sender = (if showSender then im_sender msg else []),
                                to_chat = (if im_isDirect msg then [] else im_roomDisplayName msg),
                                to_message = (if setting st_showMessagePreview env then im_body msg else ''You have a new message''),
                                to_isDirect = im_isDirect msg, to_isMention = im_isMention msg, to_avatar = path,
                                to_isInvite = False \<rparr>]
                         else []);
                (s3, out) = sound_and_bounce env s2
            in (s3, shown @ out))"

record incoming_invite =
  ii_room :: qstring
  ii_inviterName :: qstring
  ii_inviterAvatarUrl :: qstring
  ii_roomDisplayName :: qstring
  ii_isDirect :: bool

definition onIncomingInvite ::
  "notify_env \<Rightarrow> qstring \<Rightarrow> incoming_invite \<Rightarrow> notification_system \<Rightarrow> notification_system \<times> notify_effect list" where
  "onIncomingInvite env accountDirName invite s0 =
     (if room_on_screen env accountDirName (ii_room invite) then (s0, [])
      else
        let s2 = s0\<lparr>ns_notificationAccount := hash_insert (ii_room invite) accountDirName (ns_notificationAccount s0)\<rparr>;
            showSender = setting st_showSenderName env;
            (path, requests) = toast_avatar env showSender accountDirName (ii_inviterAvatarUrl invite) s2;
            shown = (if ns_manager s2 \<and> setting st_desktopNotify env
                     then requests @ [ShowToast \<lparr> to_room = ii_room invite, to_event = [],
                            to_sender = (if showSender then ii_inviterName invite else []),
                            to_chat = (if ii_isDirect invite then [] else ii_roomDisplayName invite),
                            to_message = (if ii_isDirect invite then ''invited you to chat'' else ''invited you to join''),
                            to_isDirect = ii_isDirect invite, to_isMention = False, to_avatar = path, to_isInvite = True \<rparr>]
                     else []);
            (s3, out) = sound_and_bounce env s2
        in (s3, shown @ out))"

subsection \<open>What a toast is answered with\<close>

text \<open>The slots of \<open>setManager\<close>: the account is looked up by the room.\<close>

definition onManagerSignal :: "manager_signal \<Rightarrow> notification_system \<Rightarrow> notify_effect list" where
  "onManagerSignal g s =
     (case g of
        NotificationActivated room event \<Rightarrow> [ActivateRoom (hash_value [] room (ns_notificationAccount s)) room event]
      | NotificationReplied room txt \<Rightarrow> [ReplyToRoom (hash_value [] room (ns_notificationAccount s)) room txt]
      | NotificationMarkRead room \<Rightarrow> [MarkReadRoom (hash_value [] room (ns_notificationAccount s)) room])"

text \<open>\<open>AppController\<close>: which account a room belongs to (\<open>rooms\<close> are the cached rooms of a bridge), and the
  bridge a reply goes out on.\<close>

definition accountIndexForRoom :: "(nat \<Rightarrow> qstring list) \<Rightarrow> account_domain \<Rightarrow> qstring \<Rightarrow> int" where
  "accountIndexForRoom rooms d room =
     (if room = [] then -1
      else index_where (\<lambda>a. case ac_bridge a of None \<Rightarrow> False | Some b \<Rightarrow> room \<in> set (rooms b)) 0 (ad_accounts d))"

definition notification_index :: "(nat \<Rightarrow> qstring list) \<Rightarrow> account_domain \<Rightarrow> qstring \<Rightarrow> qstring \<Rightarrow> int" where
  "notification_index rooms d dirName room =
     (let index = indexOfDirName d dirName in if index < 0 then accountIndexForRoom rooms d room else index)"

definition bridgeForNotification :: "(nat \<Rightarrow> qstring list) \<Rightarrow> account_domain \<Rightarrow> qstring \<Rightarrow> qstring \<Rightarrow> nat option" where
  "bridgeForNotification rooms d dirName room =
     (case account_at d (notification_index rooms d dirName room) of
        Some a \<Rightarrow> ac_bridge a
      | None \<Rightarrow> (case active_account d of None \<Rightarrow> None | Some a \<Rightarrow> ac_bridge a))"

datatype bridge_request = SendMessage nat qstring qstring | MarkRoomRead nat qstring

definition controller_reply ::
  "(char \<Rightarrow> bool) \<Rightarrow> (nat \<Rightarrow> qstring list) \<Rightarrow> account_domain \<Rightarrow> notify_effect \<Rightarrow> bridge_request list" where
  "controller_reply isSpace rooms d e =
     (case e of
        ReplyToRoom dirName room txt \<Rightarrow>
          (case bridgeForNotification rooms d dirName room of
             None \<Rightarrow> []
           | Some b \<Rightarrow> if room \<noteq> [] \<and> trimmed isSpace txt \<noteq> [] then [SendMessage b room txt] else [])
      | MarkReadRoom dirName room \<Rightarrow>
          (case bridgeForNotification rooms d dirName room of
             None \<Rightarrow> []
           | Some b \<Rightarrow> if room \<noteq> [] then [MarkRoomRead b room] else [])
      | _ \<Rightarrow> [])"

subsection \<open>Runs\<close>

datatype notify_event =
    Message qstring incoming_message
  | Invite qstring incoming_invite
  | NewLogin "char \<Rightarrow> bool" qstring qstring qstring
  | SignedOut qstring
  | RoomRead qstring
  | Attach qstring "nat option"
  | Detach qstring
  | RefreshBadge
  | BadgeTimer
  | FromManager manager_signal

definition notify_step ::
  "notification_system \<Rightarrow> notify_env \<times> notify_event \<Rightarrow> notification_system \<times> notify_effect list" where
  "notify_step s x =
     (case snd x of
        Message dir msg \<Rightarrow> onIncomingNotification (fst x) dir msg s
      | Invite dir invite \<Rightarrow> onIncomingInvite (fst x) dir invite s
      | NewLogin isSpace device name ip \<Rightarrow> onNewLogin isSpace (fst x) device name ip s
      | SignedOut label \<Rightarrow> showAccountSignedOut (fst x) label s
      | RoomRead room \<Rightarrow> clearFromRoom room s
      | Attach dir b \<Rightarrow> (attachAccount dir b s, [])
      | Detach dir \<Rightarrow> (detachAccount dir s, [])
      | RefreshBadge \<Rightarrow> (refreshBadge s, [])
      | BadgeTimer \<Rightarrow> badgeTimer (fst x) s
      | FromManager g \<Rightarrow> (s, onManagerSignal g s))"

definition notify_run :: "notification_system \<Rightarrow> (notify_env \<times> notify_event) list \<Rightarrow> notification_system \<times> notify_effect list" where
  "notify_run = run_signals notify_step"

text \<open>The system above the manager of Linux: its toasts go out on the bus, and what the daemon says about
  them comes back to its slots.\<close>

datatype desktop_event = App notify_env notify_event | Bus linux_event

definition to_manager :: "notify_effect \<Rightarrow> linux_manager \<Rightarrow> linux_manager" where
  "to_manager e m =
     (case e of
        ShowToast t \<Rightarrow> lm_showNotification t m
      | ClearToasts room \<Rightarrow> lm_clearFromRoom room m
      | _ \<Rightarrow> m)"

definition desktop_step ::
  "notification_system \<times> linux_manager \<Rightarrow> desktop_event \<Rightarrow> (notification_system \<times> linux_manager) \<times> notify_effect list" where
  "desktop_step x e =
     (case e of
        App env a \<Rightarrow> (let (s, out) = notify_step (fst x) (env, a) in ((s, fold to_manager out (snd x)), out))
      | Bus b \<Rightarrow> (let (m, sigs) = linux_step (snd x) b in ((fst x, m), concat (map (\<lambda>g. onManagerSignal g (fst x)) sigs))))"

definition desktop_run ::
  "notification_system \<times> linux_manager \<Rightarrow> desktop_event list \<Rightarrow> (notification_system \<times> linux_manager) \<times> notify_effect list" where
  "desktop_run = run_signals desktop_step"

end
