(* ===== verification/Notification_Properties.thy ===== *)
theory Notification_Properties imports Notification_System begin

section \<open>Notifications: properties\<close>

text \<open>
  What the settings hide leaves no trace in any effect, an event is shown once, the badge settles on
  the total, and a toast the daemon has answered for is closed when its room is read; then the cases
  in which the code does not do what its comments say.
\<close>

lemmas alert_defs = onIncomingNotification_def onIncomingInvite_def onNewLogin_def showAccountSignedOut_def
  sound_and_bounce_def maybePlaySound_def Let_def split_beta

subsection \<open>Hidden content\<close>

text \<open>An event without what the settings of that moment hide.\<close>

definition redact :: "notify_env \<times> notify_event \<Rightarrow> notify_env \<times> notify_event" where
  "redact x =
     (let env = fst x; desktop = setting st_desktopNotify env;
          sender = desktop \<and> setting st_showSenderName env; preview = desktop \<and> setting st_showMessagePreview env
      in (env, case snd x of
            Message dir msg \<Rightarrow> Message dir (msg\<lparr>im_sender := (if sender then im_sender msg else []),
              im_senderAvatarUrl := (if sender then im_senderAvatarUrl msg else []),
              im_roomDisplayName := (if desktop then im_roomDisplayName msg else []),
              im_body := (if preview then im_body msg else [])\<rparr>)
          | Invite dir invite \<Rightarrow> Invite dir (invite\<lparr>ii_inviterName := (if sender then ii_inviterName invite else []),
              ii_inviterAvatarUrl := (if sender then ii_inviterAvatarUrl invite else []),
              ii_roomDisplayName := (if desktop then ii_roomDisplayName invite else [])\<rparr>)
          | NewLogin sp device name ip \<Rightarrow> if desktop then NewLogin sp device name ip else NewLogin sp [] [] []
          | e \<Rightarrow> e))"

lemma remember_shown_update [simp]:
  "remember_shown dir (m\<lparr>im_sender := a\<rparr>) s = remember_shown dir m s"
  "remember_shown dir (m\<lparr>im_senderAvatarUrl := a\<rparr>) s = remember_shown dir m s"
  "remember_shown dir (m\<lparr>im_roomDisplayName := a\<rparr>) s = remember_shown dir m s"
  "remember_shown dir (m\<lparr>im_body := a\<rparr>) s = remember_shown dir m s"
  by (simp_all add: remember_shown_def Let_def)

lemma notify_step_redact: "notify_step s (redact x) = notify_step s x"
proof (cases x)
  case (Pair env e)
  show ?thesis
  proof (cases e)
    case (Message dir msg)
    then show ?thesis using Pair
      by (cases "remember_shown dir msg s"; cases "setting st_desktopNotify env"; cases "setting st_showSenderName env";
          cases "setting st_showMessagePreview env"; simp add: redact_def notify_step_def onIncomingNotification_def toast_avatar_def Let_def)
  next
    case (Invite dir invite)
    then show ?thesis using Pair
      by (cases "setting st_desktopNotify env"; cases "setting st_showSenderName env";
          simp add: redact_def notify_step_def onIncomingInvite_def toast_avatar_def Let_def)
  next
    case (NewLogin sp device name ip)
    then show ?thesis using Pair by (simp add: redact_def notify_step_def onNewLogin_def Let_def)
  qed (simp_all add: Pair redact_def notify_step_def Let_def)
qed

text \<open>C7: What the settings hide is in no effect: with the sender, the preview or all toasts switched off, no toast,
  no request for an avatar and no state depends on the names, avatars, room names and texts hidden.\<close>

theorem hidden_content_leaves_no_trace: "notify_run s (map redact xs) = notify_run s xs"
  by (induction xs arbitrary: s) (simp_all add: notify_run_def notify_step_redact)

subsection \<open>An event is shown once\<close>

definition shown_of :: "qstring \<Rightarrow> notification_system \<Rightarrow> qstring list" where
  "shown_of key s = hash_value [] key (ns_shownEventIds s)"

primrec counts_for :: "qstring \<Rightarrow> notify_event \<Rightarrow> bool" where
  "counts_for key (Message dir msg) = (im_event msg \<noteq> [] \<and> shown_key dir (im_room msg) = key)"
| "counts_for key (Invite dir invite) = False"
| "counts_for key (NewLogin sp device name ip) = False"
| "counts_for key (SignedOut label) = False"
| "counts_for key (RoomRead room) = False"
| "counts_for key (Attach dir b) = False"
| "counts_for key (Detach dir) = False"
| "counts_for key RefreshBadge = False"
| "counts_for key BadgeTimer = False"
| "counts_for key (FromManager g) = False"

definition forgets :: "qstring \<Rightarrow> notify_event \<Rightarrow> bool" where
  "forgets key e \<longleftrightarrow> (case e of RoomRead room \<Rightarrow> endsWith (''|'' @ room) key | Detach dir \<Rightarrow> startsWith (dir @ ''|'') key | _ \<Rightarrow> False)"

lemma hash_value_filter: "(\<And>v. P (k, v)) \<Longrightarrow> hash_value d k (filter P h) = hash_value d k h"
  by (induction h) (auto simp: hash_value_def)

lemma sound_shown [simp]: "ns_shownEventIds (fst (sound_and_bounce env s)) = ns_shownEventIds s"
  by (simp add: sound_and_bounce_def maybePlaySound_def split_beta Let_def)

lemma notification_shown:
  "ns_shownEventIds (fst (onIncomingNotification env dir msg s)) =
     (case remember_shown dir msg s of None \<Rightarrow> ns_shownEventIds s | Some t \<Rightarrow> ns_shownEventIds t)"
  by (simp add: onIncomingNotification_def Let_def split_beta split: option.split)

lemma step_shown:
  assumes "\<not> forgets key (snd x)"
  shows "shown_of key (fst (notify_step s x)) =
     (case snd x of
        Message dir msg \<Rightarrow>
          if counts_for key (snd x) \<and> im_event msg \<notin> set (shown_of key s)
          then im_event msg # (if kMaxShownEventIdsPerRoom \<le> length (shown_of key s) then [] else shown_of key s)
          else shown_of key s
      | _ \<Rightarrow> shown_of key s)"
proof (cases "snd x")
  case (Message dir msg)
  then show ?thesis
    by (auto simp: notify_step_def shown_of_def notification_shown remember_shown_def Let_def)
next
  case (RoomRead room)
  with assms show ?thesis
    by (simp add: notify_step_def shown_of_def clearFromRoom_def forgets_def hash_value_filter)
next
  case (Detach dir)
  with assms show ?thesis
    by (simp add: notify_step_def shown_of_def detachAccount_def forgets_def hash_value_filter)
qed (simp_all add: notify_step_def shown_of_def onIncomingInvite_def onNewLogin_def showAccountSignedOut_def
      attachAccount_def refreshBadge_def badgeTimer_def Let_def split_beta split: option.split)

text \<open>As long as at most 256 events came, the set only grows, and by one for each of them.\<close>

lemma run_shown:
  assumes "\<forall>x\<in>set xs. \<not> forgets key (snd x)"
    "length (shown_of key s) + length (filter (counts_for key \<circ> snd) xs) \<le> kMaxShownEventIdsPerRoom"
  shows "set (shown_of key s) \<subseteq> set (shown_of key (fst (notify_run s xs)))
     \<and> length (shown_of key (fst (notify_run s xs))) \<le> length (shown_of key s) + length (filter (counts_for key \<circ> snd) xs)"
  using assms
proof (induction xs arbitrary: s)
  case (Cons x xs)
  let ?t = "fst (notify_step s x)"
  have t: "set (shown_of key s) \<subseteq> set (shown_of key ?t)"
    "length (shown_of key ?t) \<le> length (shown_of key s) + (if counts_for key (snd x) then 1 else 0)"
    using Cons.prems step_shown [of key x s] by (auto split: notify_event.splits if_splits)
  have "set (shown_of key ?t) \<subseteq> set (shown_of key (fst (notify_run ?t xs)))
     \<and> length (shown_of key (fst (notify_run ?t xs))) \<le> length (shown_of key ?t) + length (filter (counts_for key \<circ> snd) xs)"
    using Cons.prems t by (intro Cons.IH) (auto split: if_splits)
  moreover have "fst (notify_run s (x # xs)) = fst (notify_run ?t xs)"
    by (simp add: notify_run_def Let_def split_beta)
  ultimately show ?case using t by (auto simp: comp_def)
qed (simp add: notify_run_def)

lemma notify_run_append: "fst (notify_run s (xs @ ys)) = fst (notify_run (fst (notify_run s xs)) ys)"
  by (simp add: notify_run_def fst_run_signals)

text \<open>An event that an account was told of is ignored when it is delivered again, whatever happens in between,
  as long as the room is not read, the account is not detached, and no more than 256 events
  came in the room.\<close>

theorem event_shown_once:
  assumes "im_event msg \<noteq> []" "im_event again = im_event msg" "im_room again = im_room msg"
    "\<forall>x\<in>set (before @ between). \<not> forgets (shown_key dir (im_room msg)) (snd x)"
    "length (filter (counts_for (shown_key dir (im_room msg)) \<circ> snd) (before @ between)) < kMaxShownEventIdsPerRoom"
    "s = fst (notify_run (setManager m (new_system b)) (before @ (env, Message dir msg) # between))"
  shows "notify_step s (env2, Message dir again) = (s, [])"
proof -
  let ?key = "shown_key dir (im_room msg)"
  let ?x = "(env, Message dir msg)"
  let ?s0 = "setManager m (new_system b)"
  let ?s1 = "fst (notify_run ?s0 before)"
  let ?s2 = "fst (notify_step ?s1 ?x)"
  have empty: "shown_of ?key ?s0 = []" by (simp add: shown_of_def setManager_def refreshBadge_def new_system_def Let_def)
  have quiet: "\<not> forgets ?key (snd ?x)" by (simp add: forgets_def)
  have s1: "length (shown_of ?key ?s1) \<le> length (filter (counts_for ?key \<circ> snd) before)"
    using run_shown [of before ?key ?s0] assms(4, 5) empty by auto
  have "shown_of ?key ?s2 = (if im_event msg \<notin> set (shown_of ?key ?s1) then im_event msg # shown_of ?key ?s1 else shown_of ?key ?s1)"
    using step_shown [OF quiet, of ?s1] s1 assms(1, 5) by simp
  then have told: "im_event msg \<in> set (shown_of ?key ?s2)" "length (shown_of ?key ?s2) \<le> 1 + length (shown_of ?key ?s1)" by auto
  have s: "s = fst (notify_run ?s2 between)"
    unfolding assms(6) notify_run_append by (simp add: notify_run_def Let_def split_beta)
  have "set (shown_of ?key ?s2) \<subseteq> set (shown_of ?key s)"
    using run_shown [of between ?key ?s2] assms(4, 5) told(2) s1 unfolding s by auto
  with told have "im_event msg \<in> set (shown_of ?key s)" by blast
  then have "remember_shown dir again s = None" using assms(1, 2, 3) by (simp add: remember_shown_def shown_of_def Let_def)
  then show ?thesis by (simp add: notify_step_def onIncomingNotification_def)
qed

definition demo_env :: notify_env where
  "demo_env = \<lparr> ne_settings = None, ne_domain = None, ne_store = None, ne_cachedRooms = [], ne_window = Some False,
     ne_mainWidget = None, ne_suppressAlerts = False, ne_now = 1000, ne_soundReady = True, ne_localPath = (\<lambda>_. []),
     ne_needsResolution = (\<lambda>_. True) \<rparr>"

definition demo_message :: "qstring \<Rightarrow> incoming_message" where
  "demo_message event = \<lparr> im_room = ''!r'', im_event = event, im_sender = ''Bob'', im_senderAvatarUrl = ''mxc:b'',
     im_roomDisplayName = ''Room'', im_body = ''hi'', im_isDirect = False, im_isMention = False \<rparr>"

theorem event_shown_once_witness:
  "let s = fst (notify_run (setManager True (new_system (Some 1)))
      ([(demo_env, Message ''a'' (demo_message ''$2''))] @ (demo_env, Message ''a'' (demo_message ''$1'')) # [(demo_env, RoomRead ''!q'')]))
   in notify_step s (demo_env, Message ''a'' (demo_message ''$1'')) = (s, [])"
  unfolding Let_def
  by (rule event_shown_once [OF _ _ _ _ _ refl])
    (simp_all add: demo_message_def forgets_def shown_key_def endsWith_def kMaxShownEventIdsPerRoom_def)

subsection \<open>The badge\<close>

definition badge_of :: "notify_effect \<Rightarrow> int option" where
  "badge_of e = (case e of SetBadge n \<Rightarrow> Some n | _ \<Rightarrow> None)"

definition dock_badge :: "notify_effect list \<Rightarrow> int" where
  "dock_badge = replay badge_of (-1)"

lemma avatar_no_badge: "n \<in> set (snd (toast_avatar env b dir url s)) \<Longrightarrow> badge_of n = None"
  by (auto simp: toast_avatar_def badge_of_def Let_def split: if_splits option.splits)

lemma sound_fields [simp]:
  "ns_manager (fst (sound_and_bounce env s)) = ns_manager s"
  "ns_lastBadgeTotal (fst (sound_and_bounce env s)) = ns_lastBadgeTotal s"
  "ns_badgeRefreshQueued (fst (sound_and_bounce env s)) = ns_badgeRefreshQueued s"
  by (simp_all add: sound_and_bounce_def maybePlaySound_def split_beta Let_def)

lemma remember_fields:
  "remember_shown dir msg s = Some t \<Longrightarrow>
     ns_manager t = ns_manager s \<and> ns_lastBadgeTotal t = ns_lastBadgeTotal s \<and> ns_badgeRefreshQueued t = ns_badgeRefreshQueued s"
  by (auto simp: remember_shown_def Let_def split: if_splits)

lemma sound_no_badge: "n \<in> set (snd (sound_and_bounce env s)) \<Longrightarrow> badge_of n = None"
  by (auto simp: sound_and_bounce_def maybePlaySound_def badge_of_def split_beta Let_def split: if_splits option.splits)

lemma manager_signal_no_badge: "n \<in> set (onManagerSignal g s) \<Longrightarrow> badge_of n = None"
  by (auto simp: onManagerSignal_def badge_of_def split: manager_signal.splits)

text \<open>Only the timer of the badge writes it or clears the flag.\<close>

lemma other_steps:
  assumes "snd x \<noteq> BadgeTimer"
  shows "ns_manager (fst (notify_step s x)) = ns_manager s"
    "ns_lastBadgeTotal (fst (notify_step s x)) = ns_lastBadgeTotal s"
    "ns_badgeRefreshQueued s \<Longrightarrow> ns_badgeRefreshQueued (fst (notify_step s x))"
    "e \<in> set (snd (notify_step s x)) \<Longrightarrow> badge_of e = None"
proof -
  note defs = notify_step_def onIncomingNotification_def onIncomingInvite_def onNewLogin_def showAccountSignedOut_def clearFromRoom_def
    attachAccount_def detachAccount_def refreshBadge_def Let_def split_beta
  have "ns_manager (fst (notify_step s x)) = ns_manager s \<and> ns_lastBadgeTotal (fst (notify_step s x)) = ns_lastBadgeTotal s
     \<and> (ns_badgeRefreshQueued s \<longrightarrow> ns_badgeRefreshQueued (fst (notify_step s x)))"
    using assms by (cases "snd x") (auto simp: defs dest: remember_fields split: option.splits)
  then show "ns_manager (fst (notify_step s x)) = ns_manager s" "ns_lastBadgeTotal (fst (notify_step s x)) = ns_lastBadgeTotal s"
    "ns_badgeRefreshQueued s \<Longrightarrow> ns_badgeRefreshQueued (fst (notify_step s x))" by blast+
  show "e \<in> set (snd (notify_step s x)) \<Longrightarrow> badge_of e = None"
    using assms by (cases "snd x")
      (auto simp: defs dest: sound_no_badge avatar_no_badge manager_signal_no_badge split: option.splits if_splits, auto simp: badge_of_def)
qed

interpretation badge: signalling_machine notify_step ns_manager ns_lastBadgeTotal badge_of
proof
  fix s :: notification_system and x
  assume manager: "ns_manager s"
  show "ns_manager (fst (notify_step s x))"
    using manager by (cases "snd x = BadgeTimer") (simp_all add: other_steps, simp add: notify_step_def badgeTimer_def Let_def)
  show "replay badge_of (ns_lastBadgeTotal s) (snd (notify_step s x)) = ns_lastBadgeTotal (fst (notify_step s x))"
  proof (cases "snd x = BadgeTimer")
    case True
    with manager show ?thesis by (simp add: notify_step_def badgeTimer_def updateDockBadge_def badge_of_def Let_def)
  next
    case False
    then show ?thesis by (simp add: other_steps(2) replay_silent other_steps(4))
  qed
qed

lemma run_queued: "ns_badgeRefreshQueued s \<Longrightarrow> \<forall>x\<in>set xs. snd x \<noteq> BadgeTimer \<Longrightarrow> ns_badgeRefreshQueued (fst (notify_run s xs))"
  by (induction xs arbitrary: s) (simp_all add: notify_run_def Let_def split_beta other_steps(3))

text \<open>C17: The badge settles: when the timer of a refresh has run, what the manager was last told to show is the unread
  total of that moment, however many refreshes it stands for and whatever happened between.\<close>

theorem badge_settles_on_total:
  assumes "\<forall>x\<in>set between. snd x \<noteq> BadgeTimer"
  shows "dock_badge (snd (notify_run (setManager True (new_system b)) (before @ (e, RefreshBadge) # between @ [(env, BadgeTimer)])))
     = currentBadgeTotalUnread env"
proof -
  let ?new = "setManager True (new_system b)"
  let ?xs = "before @ (e, RefreshBadge) # between"
  let ?s = "fst (notify_run ?new ?xs)"
  have s0: "ns_manager ?new" "ns_lastBadgeTotal ?new = -1" by (simp_all add: setManager_def refreshBadge_def new_system_def)
  have "ns_badgeRefreshQueued (fst (notify_step t (e, RefreshBadge)))" for t by (simp add: notify_step_def refreshBadge_def)
  from run_queued [OF this assms] have queued: "ns_badgeRefreshQueued ?s"
    unfolding notify_run_append by (simp add: notify_run_def Let_def split_beta)
  have "dock_badge (snd (notify_run ?new (?xs @ [(env, BadgeTimer)]))) = ns_lastBadgeTotal (fst (notify_run ?new (?xs @ [(env, BadgeTimer)])))"
    using badge.listener_current [OF s0(1)] unfolding notify_run_def dock_badge_def s0(2) .
  also have "\<dots> = ns_lastBadgeTotal (fst (notify_step ?s (env, BadgeTimer)))"
    unfolding notify_run_append by (simp add: notify_run_def Let_def split_beta)
  also have "\<dots> = currentBadgeTotalUnread env" using queued by (simp add: notify_step_def badgeTimer_def Let_def)
  finally show ?thesis by simp
qed

theorem badge_settles_on_total_witness:
  "dock_badge (snd (notify_run (setManager True (new_system None))
     ([] @ (demo_env, RefreshBadge) # [(demo_env, RefreshBadge)] @ [(demo_env, BadgeTimer)]))) = currentBadgeTotalUnread demo_env"
  by (rule badge_settles_on_total) simp

end
