(* ===== verification/Linux_Properties.thy ===== *)
theory Linux_Properties imports Notification_Properties begin

section \<open>Notifications on Linux: properties\<close>

text \<open>
  A toast the daemon has answered for is closed when its room is read.  Then what the comments of
  the code promise and it does not do: a toast answered too late stays, a reply can leave from the
  wrong account, the alerts without a room share an id and cannot be clicked, a clock set back
  silences the sound.
\<close>

subsection \<open>Toasts without the portal\<close>

lemma fold_close:
  "lm_registry (fold closeNotification ids m) = lm_registry m"
  "lm_usePortal (fold closeNotification ids m) = lm_usePortal m"
  "lm_watchers (fold closeNotification ids m) = lm_watchers m"
  "lm_calls (fold closeNotification ids m) = lm_calls m"
  "lm_sent (fold closeNotification ids m) = lm_sent m @ map CloseNotification (filter (\<lambda>i. i \<noteq> 0) ids)"
  by (induction ids arbitrary: m) (simp_all add: closeNotification_def)

lemmas linux_defs = linux_step_def lm_showNotification_def lm_clearFromRoom_def lm_clearAll_def notifyFinished_def
  capabilitiesFinished_def handleNotificationClosed_def Let_def split_beta

definition direct :: "linux_manager \<Rightarrow> bool" where
  "direct m \<longleftrightarrow> \<not> lm_usePortal m \<and> registry_ok (lm_registry m) \<and> (\<forall>k. lm_calls m \<le> k \<longrightarrow> map_of (lm_watchers m) k = None)"

lemma linux_step_direct: "direct m \<Longrightarrow> direct (fst (linux_step m e))"
  by (cases e) (auto simp: direct_def linux_defs fold_close takeRoom_ok takeAll_def forget_ok add_toast_ok split: option.splits)

lemma linux_run_direct: "direct m \<Longrightarrow> direct (linux_run m es)"
  unfolding linux_run_def by (rule foldl_keeps) (simp_all add: linux_step_direct)

lemma linux_run_simps [simp]:
  "linux_run m [] = m" "linux_run m (e # es) = linux_run (fst (linux_step m e)) es"
  "linux_run m (es @ fs) = linux_run (linux_run m es) fs"
  by (simp_all add: linux_run_def)

lemma watcher_kept:
  "direct m \<Longrightarrow> map_of (lm_watchers m) k = Some p \<Longrightarrow> \<forall>e\<in>set es. \<forall>a. e \<noteq> NotifyReply k a \<Longrightarrow>
     map_of (lm_watchers (linux_run m es)) k = Some p"
proof (induction es arbitrary: m)
  case (Cons e es)
  have "k < lm_calls m" using Cons.prems(1, 2) by (metis direct_def not_le option.distinct(1))
  then have "map_of (lm_watchers (fst (linux_step m e))) k = Some p"
    using Cons.prems by (cases e) (auto simp: direct_def linux_defs fold_close split: option.splits)
  with Cons linux_step_direct show ?case by simp
qed simp

text \<open>The toast \<open>i\<close> is known under its room, or the daemon was told to close it.\<close>

definition held :: "toast_id \<Rightarrow> qstring \<Rightarrow> linux_manager \<Rightarrow> bool" where
  "held i room m \<longleftrightarrow> map_of (tr_roomById (lm_registry m)) i = Some room \<or> CloseNotification i \<in> set (lm_sent m)"

lemma room_after_add: "registry_ok r \<Longrightarrow> j \<noteq> i \<Longrightarrow> map_of (tr_roomById (add_toast room event j r)) i = map_of (tr_roomById r) i"
  by (simp add: add_toast_def Let_def forget_hashes)

lemma tracked_key: "map_of h i = Some q \<Longrightarrow> i \<in> fst ` set h"
  by (metis map_of_eq_None_iff option.distinct(1))

lemma held_step:
  assumes "direct m" "held i room m" "i \<noteq> 0" "e \<noteq> ToastClosed i" "\<forall>k. e \<noteq> NotifyReply k (Some i)"
  shows "held i room (fst (linux_step m e))"
proof -
  have ok: "registry_ok (lm_registry m)" using assms(1) by (simp add: direct_def)
  show ?thesis
  proof (cases e)
    case (NotifyReply k answer)
    with assms ok show ?thesis
      by (auto simp: held_def linux_defs room_after_add split: option.splits)
  next
    case (ClearFromRoom q)
    with assms ok show ?thesis
      by (auto simp: direct_def held_def linux_defs fold_close takeRoom_def listed_iff)
  next
    case ClearAll
    with assms ok show ?thesis
      by (auto simp: direct_def held_def linux_defs fold_close takeAll_def dest!: tracked_key)
  next
    case (ToastClosed j)
    with assms ok show ?thesis by (auto simp: held_def linux_defs forget_hashes)
  qed (use assms in \<open>auto simp: direct_def held_def linux_defs split: option.splits\<close>)
qed

lemma held_run:
  "direct m \<Longrightarrow> held i room m \<Longrightarrow> i \<noteq> 0 \<Longrightarrow> \<forall>e\<in>set es. e \<noteq> ToastClosed i \<and> (\<forall>k. e \<noteq> NotifyReply k (Some i)) \<Longrightarrow>
     held i room (linux_run m es)"
  by (induction es arbitrary: m) (simp_all add: held_step linux_step_direct)

text \<open>C16: Without the portal, a toast the daemon has given an id is closed when its room is read: \<open>CloseNotification\<close>
  goes out for it by then, whatever else is shown, answered, clicked and closed before and between.\<close>

theorem answered_toast_closed_when_read:
  assumes "to_room t \<noteq> []" "i \<noteq> 0"
    "call = lm_calls (linux_run (new_linux_manager False) before)"
    "\<forall>e\<in>set between. \<forall>a. e \<noteq> NotifyReply call a"
    "\<forall>e\<in>set later. e \<noteq> ToastClosed i \<and> (\<forall>k. e \<noteq> NotifyReply k (Some i))"
  shows "CloseNotification i \<in> set (lm_sent (linux_run (new_linux_manager False)
           (before @ [Show t] @ between @ [NotifyReply call (Some i)] @ later @ [ClearFromRoom (to_room t)])))"
proof -
  let ?m1 = "linux_run (new_linux_manager False) before"
  let ?m2 = "linux_run (fst (linux_step ?m1 (Show t))) between"
  let ?m3 = "fst (linux_step ?m2 (NotifyReply call (Some i)))"
  let ?m4 = "linux_run ?m3 later"
  have "direct (new_linux_manager False)" by (simp add: direct_def new_linux_manager_def)
  then have d1: "direct ?m1" by (rule linux_run_direct)
  then have d: "direct (fst (linux_step ?m1 (Show t)))" by (rule linux_step_direct)
  have d2: "direct ?m2" using d by (rule linux_run_direct)
  have "map_of (lm_watchers (fst (linux_step ?m1 (Show t)))) call = Some (to_room t, to_event t)"
    using d1 assms(3) by (simp add: direct_def linux_step_def lm_showNotification_def Let_def)
  from watcher_kept [OF d this assms(4)] have "map_of (lm_watchers ?m2) call = Some (to_room t, to_event t)" .
  then have "held i (to_room t) ?m3"
    using assms(1, 2) by (simp add: held_def linux_step_def notifyFinished_def add_toast_def Let_def)
  from held_run [OF linux_step_direct [OF d2] this assms(2, 5)] have h: "held i (to_room t) ?m4" .
  have d4: "direct ?m4" using linux_step_direct [OF d2] by (rule linux_run_direct)
  have "CloseNotification i \<in> set (lm_sent (fst (linux_step ?m4 (ClearFromRoom (to_room t)))))"
  proof (cases "CloseNotification i \<in> set (lm_sent ?m4)")
    case True
    then show ?thesis using d4 by (simp add: direct_def linux_step_def lm_clearFromRoom_def fold_close split_beta Let_def)
  next
    case False
    with h have "map_of (tr_roomById (lm_registry ?m4)) i = Some (to_room t)" by (simp add: held_def)
    with d4 have "i \<in> set (hash_value [] (to_room t) (tr_byRoom (lm_registry ?m4)))" by (simp add: direct_def listed_iff)
    then show ?thesis using d4 assms(2)
      by (simp add: direct_def linux_step_def lm_clearFromRoom_def fold_close takeRoom_def split_beta Let_def)
  qed
  then show ?thesis by simp
qed

definition demo_toast :: toast where
  "demo_toast = \<lparr> to_room = ''!r'', to_event = ''$1'', to_sender = ''Bob'', to_chat = ''Room'', to_message = ''hi'',
     to_isDirect = False, to_isMention = False, to_avatar = [], to_isInvite = False \<rparr>"

theorem answered_toast_closed_when_read_witness:
  "CloseNotification 7 \<in> set (lm_sent (linux_run (new_linux_manager False)
     ([CapabilitiesReply (Some [''actions''])] @ [Show demo_toast] @ [Show demo_toast] @ [NotifyReply 0 (Some 7)]
      @ [NotifyReply 1 (Some 8), ToastClosed 8] @ [ClearFromRoom (to_room demo_toast)])))"
  by (rule answered_toast_closed_when_read)
    (simp_all add: demo_toast_def new_linux_manager_def linux_defs)

subsection \<open>Replies\<close>

definition raises_for :: "qstring \<Rightarrow> qstring \<Rightarrow> notify_event \<Rightarrow> bool" where
  "raises_for room dir e \<longleftrightarrow>
     (case e of
        Message d msg \<Rightarrow> im_room msg = room \<and> d \<noteq> dir
      | Invite d invite \<Rightarrow> ii_room invite = room \<and> d \<noteq> dir
      | Detach d \<Rightarrow> d = dir
      | _ \<Rightarrow> False)"

lemma sound_account [simp]: "ns_notificationAccount (fst (sound_and_bounce env s)) = ns_notificationAccount s"
  by (simp add: sound_and_bounce_def maybePlaySound_def split_beta Let_def)

lemma remember_account: "remember_shown dir msg s = Some t \<Longrightarrow> ns_notificationAccount t = ns_notificationAccount s"
  by (auto simp: remember_shown_def Let_def split: if_splits)

lemma account_kept:
  assumes "map_of (ns_notificationAccount s) room = Some dir" "\<not> raises_for room dir (snd x)"
  shows "map_of (ns_notificationAccount (fst (notify_step s x))) room = Some dir"
proof (cases "snd x")
  case (Message d msg)
  with assms show ?thesis
    by (auto simp: notify_step_def onIncomingNotification_def raises_for_def split_beta Let_def dest: remember_account split: option.split)
next
  case (Detach d)
  moreover have "map_of (filter (\<lambda>(_, a). a \<noteq> d) h) room = Some dir" if "map_of h room = Some dir" "d \<noteq> dir" for h
    using that by (induction h) (auto split: if_splits)
  ultimately show ?thesis using assms by (simp add: notify_step_def detachAccount_def raises_for_def)
qed (use assms in \<open>auto simp: notify_step_def onIncomingInvite_def onNewLogin_def showAccountSignedOut_def clearFromRoom_def
      attachAccount_def refreshBadge_def badgeTimer_def raises_for_def split_beta Let_def split: option.split\<close>)

lemma account_kept_run:
  "map_of (ns_notificationAccount s) room = Some dir \<Longrightarrow> \<forall>x\<in>set xs. \<not> raises_for room dir (snd x) \<Longrightarrow>
     map_of (ns_notificationAccount (fst (notify_run s xs))) room = Some dir"
  by (induction xs arbitrary: s) (simp_all add: notify_run_def split_beta Let_def account_kept)

text \<open>A reply to a toast goes to the account the toast came from, as long as no other account hears of the room
  and the account is not detached.\<close>

theorem reply_goes_to_the_account:
  assumes "\<forall>x\<in>set later. \<not> raises_for (im_room msg) dir (snd x)"
    "remember_shown dir msg s \<noteq> None" "\<not> room_on_screen env dir (im_room msg)"
  shows "notify_step (fst (notify_run s ((env, Message dir msg) # later))) (env2, FromManager (NotificationReplied (im_room msg) txt))
     = (fst (notify_run s ((env, Message dir msg) # later)), [ReplyToRoom dir (im_room msg) txt])"
proof -
  have "map_of (ns_notificationAccount (fst (notify_step s (env, Message dir msg)))) (im_room msg) = Some dir"
    using assms(2, 3) by (auto simp: notify_step_def onIncomingNotification_def split_beta Let_def)
  from account_kept_run [OF this assms(1)] show ?thesis
    by (simp add: notify_run_def split_beta Let_def) (simp add: notify_step_def onManagerSignal_def hash_value_def)
qed

theorem reply_goes_to_the_account_witness:
  "notify_step (fst (notify_run (new_system None) ((demo_env, Message ''a'' (demo_message ''$1'')) # [(demo_env, Message ''a'' (demo_message ''$2''))])))
       (demo_env, FromManager (NotificationReplied (im_room (demo_message ''$1'')) ''yes''))
     = (fst (notify_run (new_system None) ((demo_env, Message ''a'' (demo_message ''$1'')) # [(demo_env, Message ''a'' (demo_message ''$2''))])),
        [ReplyToRoom ''a'' (im_room (demo_message ''$1'')) ''yes''])"
  by (rule reply_goes_to_the_account)
    (simp_all add: raises_for_def remember_shown_def room_on_screen_def demo_env_def new_system_def demo_message_def Let_def)

subsection \<open>What goes wrong\<close>

text \<open>A toast whose \<open>Notify\<close> call is answered after the room was read: it is tracked again, and nothing closes it.\<close>

lemma toast_answered_late_stays:
  "let m = linux_run (new_linux_manager False) [Show demo_toast, ClearFromRoom ''!r'', NotifyReply 0 (Some 7)]
   in roomForId 7 (lm_registry m) = ''!r'' \<and> CloseNotification 7 \<notin> set (lm_sent m)"
  by code_simp

text \<open>Two accounts in one room: the reply to the toast of the first one leaves from the second.\<close>

lemma reply_from_the_wrong_account:
  "ReplyToRoom ''b'' ''!r'' ''yes'' \<in> set (snd (desktop_run (setManager True (new_system None), new_linux_manager False)
     [App demo_env (Message ''a'' (demo_message ''$1'')), Bus (NotifyReply 0 (Some 7)),
      App demo_env (Message ''b'' (demo_message ''$1'')), Bus (NotifyReply 1 (Some 8)),
      Bus (InlineReply 7 ''yes'')]))"
  by code_simp

text \<open>The alerts without a room: in a sandbox they share the empty id, so the next one replaces the one before,
  and a click on one is dropped, with or without the portal.\<close>

lemma alerts_share_an_id:
  "lm_sent (linux_run (new_linux_manager True)
     [Show (alert_toast ''Signed out'' ''@a was signed out''), Show (alert_toast ''New login. Was this you?'' ''DEV'')])
   = [AddNotification [] ''Signed out'' ''@a was signed out'' ''normal'',
      AddNotification [] ''New login. Was this you?'' ''DEV'' ''normal'']"
  by code_simp

lemma alert_click_lost:
  "lm_usePortal m \<Longrightarrow> handlePortalActionInvoked (portalId [] []) k (lm_showNotification (alert_toast heading detail) m) = []"
  "handleActionInvoked 7 k (linux_run (new_linux_manager False) [Show (alert_toast heading detail), NotifyReply 0 (Some 7)]) = []"
  by (simp_all add: handlePortalActionInvoked_def lm_showNotification_def portalId_def alert_toast_def Let_def
      handleActionInvoked_def linux_step_def notifyFinished_def new_linux_manager_def add_toast_def empty_registry_def roomForId_def)

text \<open>The sound is measured on a clock that can be set back: until it has caught up there is none.\<close>

lemma clock_set_back_silences:
  "ne_now env < ns_lastSoundTime s + 50 \<Longrightarrow> PlaySound \<notin> set (snd (maybePlaySound env s)) \<and> fst (maybePlaySound env s) = s"
  by (simp add: maybePlaySound_def kMinimalAlertDelay_def)

end
