(* ===== verification/Win_Toasts.thy ===== *)
theory Win_Toasts imports Linux_Toasts begin

section \<open>Toasts on Windows\<close>

text \<open>
  \<^verbatim>\<open>src/src/window/notifications_win_keys.cpp\<close>, the keys of fixed length a toast is filed under, and of
  \<^verbatim>\<open>notifications_manager_win.cpp\<close> the document of a toast and what a click on it is taken for.  The
  document is read by Windows; the library relies on what XML says of the text in an attribute: the
  five entities stand for their characters and every other character for itself (\<open>xml_reader\<close>).
\<close>

unbundle bit_operations_syntax

subsection \<open>Keys\<close>

text \<open>FNV-1a over the bytes of the id in UTF-8, as sixteen hex digits.\<close>

definition fnv_basis :: quint64 where "fnv_basis = 0xcbf29ce484222325"
definition fnv_prime :: quint64 where "fnv_prime = 0x100000001b3"

definition fnv_byte :: "quint64 \<Rightarrow> 8 word \<Rightarrow> quint64" where
  "fnv_byte h c = (h XOR ucast c) * fnv_prime"

definition hex_digit :: "nat \<Rightarrow> char" where
  "hex_digit n = ''0123456789abcdef'' ! n"

definition hex16 :: "quint64 \<Rightarrow> qstring" where
  "hex16 h = map (\<lambda>i. hex_digit (unat (drop_bit (4 * i) h AND 15))) (rev [0..<16])"

definition fnv1a64Hex :: "8 word list \<Rightarrow> qstring" where
  "fnv1a64Hex bytes = hex16 (foldl fnv_byte fnv_basis bytes)"

definition toastGroupKey :: "(qstring \<Rightarrow> 8 word list) \<Rightarrow> qstring \<Rightarrow> qstring" where
  "toastGroupKey utf8 room = fnv1a64Hex (utf8 room)"

definition toastTagKey :: "(qstring \<Rightarrow> 8 word list) \<Rightarrow> qstring \<Rightarrow> qstring" where
  "toastTagKey utf8 event = fnv1a64Hex (utf8 event)"

text \<open>One byte more is a permutation of the states, and different bytes give different states.\<close>

definition fnv_inverse :: quint64 where "fnv_inverse = 0xce965057aff6957b"

lemma fnv_inverse: "fnv_prime * fnv_inverse = 1"
  by (simp add: fnv_prime_def fnv_inverse_def)

lemma times_prime_inj: "x * fnv_prime = y * fnv_prime \<longleftrightarrow> x = y"
proof
  assume "x * fnv_prime = y * fnv_prime"
  then have "x * fnv_prime * fnv_inverse = y * fnv_prime * fnv_inverse" by (rule arg_cong)
  then show "x = y" by (simp only: mult.assoc fnv_inverse mult.right_neutral)
qed simp

lemma xor_left_inj: "x XOR z = y XOR z \<longleftrightarrow> x = y" for x y z :: "'a::len word"
  by (metis xor.assoc xor.right_neutral xor_self_eq)

lemma fnv_byte_state: "fnv_byte h c = fnv_byte k c \<longleftrightarrow> h = k"
  by (simp add: fnv_byte_def times_prime_inj xor_left_inj)

lemma ucast_byte_inj: "(ucast a :: quint64) = ucast b \<longleftrightarrow> a = b" for a b :: "8 word"
proof
  assume "(ucast a :: quint64) = ucast b"
  then have "(ucast (ucast a :: quint64) :: 8 word) = ucast (ucast b :: quint64)" by simp
  then show "a = b" by (auto simp: bit_eq_iff bit_simps dest: bit_imp_le_length)
qed simp

lemma fnv_byte_inj: "fnv_byte h a = fnv_byte h b \<longleftrightarrow> a = b"
  by (simp add: fnv_byte_def times_prime_inj xor.commute [of h] xor_left_inj ucast_byte_inj)

lemma fnv_rest: "foldl fnv_byte h cs = foldl fnv_byte k cs \<longleftrightarrow> h = k"
  by (induction cs arbitrary: h k) (simp_all add: fnv_byte_state)

lemma nibble_mask: "(15::quint64) = mask 4"
  by (simp add: mask_eq_exp_minus_1)

lemma nibbles_inj:
  fixes h k :: quint64
  assumes "\<And>i. i < 16 \<Longrightarrow> drop_bit (4 * i) h AND 15 = drop_bit (4 * i) k AND 15"
  shows "h = k"
proof (rule bit_word_eqI)
  fix n assume n: "n < LENGTH(64)"
  have small: "n mod 4 < 64" by (rule less_trans [OF mod_less_divisor]) simp_all
  have nibble: "bit x n \<longleftrightarrow> bit (drop_bit (4 * (n div 4)) x AND 15) (n mod 4)" for x :: quint64
    unfolding nibble_mask using n small by (simp add: bit_simps)
  have "n div 4 < 16" using n by (simp add: div_less_iff_less_mult)
  from assms [OF this] show "bit h n \<longleftrightarrow> bit k n" unfolding nibble [of h] nibble [of k] by simp
qed

lemma hex_digit_inj: "m < 16 \<Longrightarrow> n < 16 \<Longrightarrow> hex_digit m = hex_digit n \<longleftrightarrow> m = n"
proof -
  have "distinct ''0123456789abcdef''" by simp
  moreover assume "m < 16" "n < 16"
  ultimately show ?thesis unfolding hex_digit_def by (subst nth_eq_iff_index_eq) simp_all
qed

lemma nibble_bound: "unat (x AND 15) < 16" for x :: quint64
proof -
  have "x AND 15 \<le> 15" by (rule word_and_le1)
  then show ?thesis by (simp add: word_le_nat_alt)
qed

lemma hex16_inj: "hex16 h = hex16 k \<longleftrightarrow> h = k"
proof
  assume eq: "hex16 h = hex16 k"
  have "drop_bit (4 * i) h AND 15 = drop_bit (4 * i) k AND 15" if "i < 16" for i
  proof -
    have "hex_digit (unat (drop_bit (4 * i) h AND 15)) = hex_digit (unat (drop_bit (4 * i) k AND 15))"
      using eq that unfolding hex16_def map_eq_conv by auto
    then show ?thesis by (simp add: hex_digit_inj nibble_bound unsigned_word_eqI)
  qed
  then show "h = k" by (rule nibbles_inj)
qed simp

text \<open>A key has sixteen lower-case hex digits, which Windows accepts, and ids that differ in one byte only, wherever it
  is, never share one.\<close>

theorem toast_keys:
  "length (fnv1a64Hex bytes) = 16 \<and> set (fnv1a64Hex bytes) \<subseteq> set ''0123456789abcdef''
    \<and> (fnv1a64Hex (front @ a # rest) = fnv1a64Hex (front @ b # rest) \<longleftrightarrow> a = b)"
proof (intro conjI)
  show "length (fnv1a64Hex bytes) = 16" by (simp add: fnv1a64Hex_def hex16_def)
  have "hex_digit n \<in> set ''0123456789abcdef''" if "n < 16" for n
    using that unfolding hex_digit_def by (intro nth_mem) simp
  then show "set (fnv1a64Hex bytes) \<subseteq> set ''0123456789abcdef''"
    unfolding fnv1a64Hex_def hex16_def using nibble_bound by auto
  show "fnv1a64Hex (front @ a # rest) = fnv1a64Hex (front @ b # rest) \<longleftrightarrow> a = b"
    by (simp add: fnv1a64Hex_def hex16_inj fnv_rest fnv_byte_inj)
qed

lemma key_of_room: "fnv1a64Hex [0x21, 0x72] = ''07c25407b48c0fda''" \<comment> \<open>the bytes of \<open>!r\<close>\<close>
  by code_simp

subsection \<open>The document\<close>

fun xmlEscape :: "qstring \<Rightarrow> qstring" where
  "xmlEscape [] = []"
| "xmlEscape (ch # str) =
     (if ch = CHR ''&'' then ''&amp;'' else if ch = CHR ''<'' then ''&lt;'' else if ch = CHR ''>'' then ''&gt;''
      else if ch = CHR 0x22 then ''&quot;'' else if ch = CHR 0x27 then ''&apos;'' else [ch]) @ xmlEscape str"

definition quoted :: "qstring \<Rightarrow> qstring" where
  "quoted str = [CHR 0x22] @ str @ [CHR 0x22]"

text \<open>The value of the attribute \<open>launch\<close>, and of \<open>arguments\<close> of the two buttons.\<close>

definition launch_arguments :: "qstring \<Rightarrow> qstring \<Rightarrow> qstring" where
  "launch_arguments room event = ''room='' @ xmlEscape room @ (if event \<noteq> [] then ''&amp;event='' @ xmlEscape event else [])"

definition button_arguments :: "qstring \<Rightarrow> qstring \<Rightarrow> qstring" where
  "button_arguments action room = ''action='' @ action @ ''&amp;room='' @ xmlEscape room"

definition toast_xml :: "toast \<Rightarrow> qstring" where
  "toast_xml t =
     ''<toast launch='' @ quoted (launch_arguments (to_room t) (to_event t))
     @ '' scenario='' @ quoted (if to_isMention t then ''urgent'' else ''default'')
     @ ''><visual><binding template='' @ quoted ''ToastGeneric'' @ ''>''
     @ (if to_avatar t \<noteq> []
        then ''<image placement='' @ quoted ''appLogoOverride'' @ '' hint-crop='' @ quoted ''circle'' @ '' src=''
          @ quoted (''file:///'' @ xmlEscape (map (\<lambda>c. if c = CHR 0x5C then CHR ''/'' else c) (to_avatar t))) @ ''/>''
        else [])
     @ ''<text hint-maxLines='' @ quoted ''1'' @ ''>'' @ xmlEscape (to_sender t) @ ''</text>''
     @ (if \<not> to_isDirect t \<and> to_chat t \<noteq> [] then ''<text>'' @ xmlEscape (to_chat t) @ ''</text>'' else [])
     @ ''<text>'' @ xmlEscape (take 200 (to_message t)) @ ''</text></binding></visual>''
     @ (if \<not> to_isInvite t
        then ''<actions><input id='' @ quoted ''reply'' @ '' type='' @ quoted ''text'' @ '' placeHolderContent='' @ quoted ''Reply'' @ ''/>''
          @ ''<action content='' @ quoted ''Send'' @ '' arguments='' @ quoted (button_arguments ''reply'' (to_room t))
          @ '' activationType='' @ quoted ''foreground'' @ '' hint-inputId='' @ quoted ''reply'' @ ''/>''
          @ ''<action content='' @ quoted ''Mark as read'' @ '' arguments='' @ quoted (button_arguments ''markread'' (to_room t))
          @ '' activationType='' @ quoted ''foreground'' @ ''/></actions>''
        else [])
     @ ''<audio silent='' @ quoted ''true'' @ ''/></toast>''"

subsection \<open>The click\<close>

text \<open>\<open>split\<close> at a character with \<open>SkipEmptyParts\<close>, then the parts \<open>key=value\<close> in order.\<close>

fun split_parts :: "char \<Rightarrow> qstring \<Rightarrow> qstring list" where
  "split_parts sep [] = [[]]"
| "split_parts sep (c # cs) =
     (if c = sep then [] # split_parts sep cs
      else case split_parts sep cs of [] \<Rightarrow> [[c]] | w # ws \<Rightarrow> (c # w) # ws)"

definition key_value :: "qstring \<Rightarrow> (qstring \<times> qstring) option" where
  "key_value pair =
     (if CHR ''='' \<in> set pair
      then Some (takeWhile (\<lambda>c. c \<noteq> CHR ''='') pair, tl (dropWhile (\<lambda>c. c \<noteq> CHR ''='') pair)) else None)"

definition argument :: "qstring \<times> qstring \<times> qstring \<Rightarrow> qstring \<Rightarrow> qstring \<times> qstring \<times> qstring" where
  "argument x pair =
     (let (action, room, event) = x
      in case key_value pair of
           None \<Rightarrow> x
         | Some (key, v) \<Rightarrow>
             if key = ''action'' then (v, room, event)
             else if key = ''room'' then (action, v, event)
             else if key = ''event'' then (action, room, v) else x)"

text \<open>\<open>ToastNotification.Activated\<close>; \<open>input\<close> is what was typed in the field.\<close>

definition toast_activated :: "qstring \<Rightarrow> qstring \<Rightarrow> manager_signal list" where
  "toast_activated argString input =
     (let (action, room, event) = foldl argument ([], [], []) (filter (\<lambda>p. p \<noteq> []) (split_parts (CHR ''&'') argString))
      in if room = [] then []
         else if action = ''reply'' then [NotificationReplied room input]
         else if action = ''markread'' then [NotificationMarkRead room]
         else [NotificationActivated room event])"

subsection \<open>Reading back\<close>

text \<open>What XML says of the text of an attribute.\<close>

locale xml_reader =
  fixes read_text :: "qstring \<Rightarrow> qstring"
  assumes read_Nil: "read_text [] = []"
    and read_plain: "c \<noteq> CHR ''&'' \<Longrightarrow> read_text (c # cs) = c # read_text cs"
    and read_amp: "read_text (''&amp;'' @ cs) = CHR ''&'' # read_text cs"
    and read_lt: "read_text (''&lt;'' @ cs) = CHR ''<'' # read_text cs"
    and read_gt: "read_text (''&gt;'' @ cs) = CHR ''>'' # read_text cs"
    and read_quot: "read_text (''&quot;'' @ cs) = CHR 0x22 # read_text cs"
    and read_apos: "read_text (''&apos;'' @ cs) = CHR 0x27 # read_text cs"
begin

lemma read_escaped: "read_text (xmlEscape str @ rest) = str @ read_text rest"
proof (induction str)
  case (Cons c str)
  then show ?case
    using read_amp [of "xmlEscape str @ rest"] read_lt [of "xmlEscape str @ rest"] read_gt [of "xmlEscape str @ rest"]
      read_quot [of "xmlEscape str @ rest"] read_apos [of "xmlEscape str @ rest"] by (auto simp: read_plain)
qed simp

lemma read_literal: "CHR ''&'' \<notin> set lit \<Longrightarrow> read_text (lit @ rest) = lit @ read_text rest"
  by (induction lit) (auto simp: read_plain)

lemma read_back: "read_text (xmlEscape str) = str"
  using read_escaped [of str "[]"] by (simp add: read_Nil)

lemma read_launch: "read_text (launch_arguments room event) = ''room='' @ room @ (if event \<noteq> [] then ''&event='' @ event else [])"
proof -
  have "read_text (''&amp;event='' @ xmlEscape event) = CHR ''&'' # read_text (''event='' @ xmlEscape event)"
    using read_amp [of "''event='' @ xmlEscape event"] by simp
  also have "\<dots> = ''&event='' @ event" using read_literal [of "''event=''" "xmlEscape event"] by (simp add: read_back)
  finally have "read_text (''&amp;event='' @ xmlEscape event) = ''&event='' @ event" .
  moreover have "read_text (''room='' @ x) = ''room='' @ read_text x" for x by (rule read_literal) simp
  ultimately show ?thesis unfolding launch_arguments_def by (simp add: read_escaped read_back read_Nil)
qed

lemma read_button:
  "CHR ''&'' \<notin> set action \<Longrightarrow> read_text (button_arguments action room) = ''action='' @ action @ ''&room='' @ room"
proof -
  assume "CHR ''&'' \<notin> set action"
  then have "read_text (button_arguments action room) = (''action='' @ action) @ read_text (''&amp;room='' @ xmlEscape room)"
    unfolding button_arguments_def using read_literal [of "''action='' @ action"] by simp
  also have "read_text (''&amp;room='' @ xmlEscape room) = CHR ''&'' # read_text (''room='' @ xmlEscape room)"
    using read_amp [of "''room='' @ xmlEscape room"] by simp
  also have "read_text (''room='' @ xmlEscape room) = ''room='' @ room"
    using read_literal [of "''room=''" "xmlEscape room"] by (simp add: read_back)
  finally show ?thesis by simp
qed

end

text \<open>A reader: at an ampersand it looks for the entities, and skips the one it found.\<close>

definition entities :: "(qstring \<times> char) list" where
  "entities = [(''&amp;'', CHR ''&''), (''&lt;'', CHR ''<''), (''&gt;'', CHR ''>''), (''&quot;'', CHR 0x22), (''&apos;'', CHR 0x27)]"

fun read_skipping :: "nat \<Rightarrow> qstring \<Rightarrow> qstring" where
  "read_skipping k [] = []"
| "read_skipping (Suc k) (c # cs) = read_skipping k cs"
| "read_skipping 0 (c # cs) =
     (case find (\<lambda>p. startsWith (fst p) (c # cs)) entities of
        Some p \<Rightarrow> snd p # read_skipping (length (fst p) - 1) cs
      | None \<Rightarrow> c # read_skipping 0 cs)"

definition read_xml :: "qstring \<Rightarrow> qstring" where
  "read_xml = read_skipping 0"

lemma read_skipping_drop: "read_skipping k str = read_skipping 0 (drop k str)"
  by (induction k str rule: read_skipping.induct) simp_all

interpretation xml: xml_reader read_xml
proof
  fix c cs
  show "c \<noteq> CHR ''&'' \<Longrightarrow> read_xml (c # cs) = c # read_xml cs"
    by (simp add: read_xml_def entities_def startsWith_def)
qed (simp_all add: read_xml_def entities_def startsWith_def numeral_eq_Suc)

lemma split_parts_plain: "sep \<notin> set w \<Longrightarrow> split_parts sep w = [w]"
  by (induction w) auto

lemma split_parts_sep: "sep \<notin> set w \<Longrightarrow> split_parts sep (w @ sep # rest) = w # split_parts sep rest"
  by (induction w) auto

lemma key_value_pair: "CHR ''='' \<notin> set key \<Longrightarrow> key_value (key @ CHR ''='' # v) = Some (key, v)"
proof -
  assume "CHR ''='' \<notin> set key"
  then have "takeWhile (\<lambda>c. c \<noteq> CHR ''='') (key @ CHR ''='' # v) = key"
    "dropWhile (\<lambda>c. c \<noteq> CHR ''='') (key @ CHR ''='' # v) = CHR ''='' # v"
    by (induction key) auto
  then show ?thesis by (simp add: key_value_def)
qed

lemmas key_values = key_value_pair [of "''room''", simplified] key_value_pair [of "''event''", simplified]
  key_value_pair [of "''action''", simplified]

lemma arguments_room: "CHR ''&'' \<notin> set room \<Longrightarrow> split_parts (CHR ''&'') (''room='' @ room) = [''room='' @ room]"
  by (rule split_parts_plain) simp

lemma arguments_room_event:
  "CHR ''&'' \<notin> set room \<Longrightarrow> CHR ''&'' \<notin> set event \<Longrightarrow>
     split_parts (CHR ''&'') (''room='' @ room @ ''&event='' @ event) = [''room='' @ room, ''event='' @ event]"
  using split_parts_sep [of "CHR ''&''" "''room='' @ room" "''event='' @ event"] split_parts_plain [of "CHR ''&''" "''event='' @ event"]
  by simp

lemma arguments_button:
  "CHR ''&'' \<notin> set room \<Longrightarrow> CHR ''&'' \<notin> set action \<Longrightarrow>
     split_parts (CHR ''&'') (''action='' @ action @ ''&room='' @ room) = [''action='' @ action, ''room='' @ room]"
  using split_parts_sep [of "CHR ''&''" "''action='' @ action" "''room='' @ room"] split_parts_plain [of "CHR ''&''" "''room='' @ room"]
  by simp

text \<open>A click on a toast, on \<open>Send\<close> and on \<open>Mark as read\<close> is taken for what it is, for the room and the event of the
  toast, for every reader of XML, if the ids have no ampersand.\<close>

theorem toast_click_round_trip:
  assumes "xml_reader read_text" "room \<noteq> []" "CHR ''&'' \<notin> set room" "CHR ''&'' \<notin> set event"
  shows "toast_activated (read_text (launch_arguments room event)) input = [NotificationActivated room event]
    \<and> toast_activated (read_text (button_arguments ''reply'' room)) input = [NotificationReplied room input]
    \<and> toast_activated (read_text (button_arguments ''markread'' room)) input = [NotificationMarkRead room]"
  using assms(2-4)
  by (simp_all add: xml_reader.read_launch [OF assms(1)] xml_reader.read_button [OF assms(1)] toast_activated_def argument_def
      arguments_room [simplified] arguments_room_event [simplified] arguments_button [of room "''reply''", simplified]
      arguments_button [of room "''markread''", simplified] key_values)

theorem toast_click_round_trip_witness:
  "toast_activated (read_xml (launch_arguments ''!r'' ''$1'')) ''yes'' = [NotificationActivated ''!r'' ''$1'']
    \<and> toast_activated (read_xml (button_arguments ''reply'' ''!r'')) ''yes'' = [NotificationReplied ''!r'' ''yes'']
    \<and> toast_activated (read_xml (button_arguments ''markread'' ''!r'')) ''yes'' = [NotificationMarkRead ''!r'']"
  by (rule toast_click_round_trip [OF xml.xml_reader_axioms]) simp_all

text \<open>The ids are not encoded below XML: an event whose id has an ampersand is taken for a button.\<close>

lemma crafted_event_marks_read:
  "toast_activated (read_xml (launch_arguments ''!r'' ''$x&action=markread'')) [] = [NotificationMarkRead ''!r'']"
  by code_simp

end
