(* ===== verification/Compose_Html.thy ===== *)
theory Compose_Html imports TM_Prelude begin

section \<open>The text of a message as HTML\<close>

text \<open>
  \<^verbatim>\<open>src/src/history/compose_html.cpp\<close>: the document of the input field as the HTML that is sent, and the
  two commands of \<^verbatim>\<open>history_input.cpp\<close> that make lines a quote or code.  A document is the list of its
  blocks, a block the list of the runs Qt reports for it with the properties the code asks for; text
  is UTF-16 (\<open>utf16\<close>), because line separators and the placeholders of emoji matter.  Which emoji an
  image name stands for is a parameter.

  The serializer walks over the blocks with four flags.  It is shown to write one element for each
  maximal run of blocks of one kind (\<open>group_html\<close>), as long as no block is a quote and code at once.
\<close>

type_synonym utf16 = "16 word list"

definition lit :: "string \<Rightarrow> utf16" where
  "lit = map of_char"

definition LineSeparator :: "16 word" where "LineSeparator = 0x2028"
definition ObjectReplacementCharacter :: "16 word" where "ObjectReplacementCharacter = 0xFFFC"

record text_run =
  tr_valid :: bool
  tr_text :: utf16
  tr_imageName :: "utf16 option"
  tr_mentionUserId :: utf16
  tr_isAnchor :: bool
  tr_anchorHref :: utf16
  tr_fixedPitch :: bool
  tr_strikeOut :: bool
  tr_underline :: bool
  tr_italic :: bool
  tr_bold :: bool

record text_block =
  bl_nonBreakableLines :: bool
  bl_quoteLevel :: int
  bl_runs :: "text_run list"

text \<open>\<open>block.length()\<close> counts the separator at the end.\<close>

definition block_length :: "text_block \<Rightarrow> nat" where
  "block_length b = sum_list (map (length \<circ> tr_text) (bl_runs b)) + 1"

definition is_quote :: "text_block \<Rightarrow> bool" where
  "is_quote b \<longleftrightarrow> 0 < bl_quoteLevel b"

definition is_pre :: "text_block \<Rightarrow> bool" where
  "is_pre b \<longleftrightarrow> bl_nonBreakableLines b
     \<or> \<not> is_quote b \<and> 1 < block_length b \<and> (\<forall>r\<in>set (bl_runs b). \<not> (tr_valid r \<and> \<not> tr_fixedPitch r))"

definition toHtmlEscaped :: "utf16 \<Rightarrow> utf16" where
  "toHtmlEscaped str = concat (map (\<lambda>c.
     if c = of_char (CHR ''<'') then lit ''&lt;'' else if c = of_char (CHR ''>'') then lit ''&gt;''
     else if c = of_char (CHR ''&'') then lit ''&amp;'' else if c = of_char (CHR 0x22) then lit ''&quot;'' else [c]) str)"

definition replace_char :: "16 word \<Rightarrow> utf16 \<Rightarrow> utf16 \<Rightarrow> utf16" where
  "replace_char c new str = concat (map (\<lambda>d. if d = c then new else [d]) str)"

definition source_text :: "(utf16 \<Rightarrow> utf16 option) \<Rightarrow> text_run \<Rightarrow> utf16" where
  "source_text emoji r =
     (case tr_imageName r of
        None \<Rightarrow> tr_text r
      | Some name \<Rightarrow> (case emoji name of None \<Rightarrow> tr_text r | Some e \<Rightarrow> replace_char ObjectReplacementCharacter e (tr_text r)))"

definition wrap :: "bool \<Rightarrow> string \<Rightarrow> utf16 \<Rightarrow> utf16" where
  "wrap c tag inner = (if c then lit (''<'' @ tag @ ''>'') @ inner @ lit (''</'' @ tag @ ''>'') else inner)"

definition link :: "utf16 \<Rightarrow> utf16 \<Rightarrow> utf16" where
  "link href inner = lit (''<a href='' @ [CHR 0x22]) @ href @ lit ([CHR 0x22] @ ''>'') @ inner @ lit ''</a>''"

definition run_html :: "(utf16 \<Rightarrow> utf16 option) \<Rightarrow> bool \<Rightarrow> text_run \<Rightarrow> utf16" where
  "run_html emoji isPre r =
     (if \<not> tr_valid r then []
      else
        let body = replace_char LineSeparator (lit (if isPre then [CHR 0x0A] else ''<br>'')) (toHtmlEscaped (source_text emoji r));
            linked = (if tr_mentionUserId r \<noteq> [] then link (lit ''https://matrix.to/#/'' @ toHtmlEscaped (tr_mentionUserId r)) body
                      else if tr_isAnchor r \<and> tr_anchorHref r \<noteq> [] then link (toHtmlEscaped (tr_anchorHref r)) body
                      else body)
        in wrap (tr_bold r) ''b'' (wrap (tr_italic r) ''i'' (wrap (tr_underline r \<and> \<not> tr_isAnchor r) ''u''
             (wrap (tr_strikeOut r) ''del'' (wrap (tr_fixedPitch r \<and> \<not> isPre) ''code'' linked)))))"

definition block_text :: "(utf16 \<Rightarrow> utf16 option) \<Rightarrow> text_block \<Rightarrow> utf16" where
  "block_text emoji b = concat (map (run_html emoji (is_pre b)) (bl_runs b))"

record html_state =
  hs_html :: utf16
  hs_inPre :: bool
  hs_inQuote :: bool
  hs_prevWasInline :: bool
  hs_firstBlock :: bool

definition html_start :: html_state where
  "html_start = \<lparr> hs_html = [], hs_inPre = False, hs_inQuote = False, hs_prevWasInline = False, hs_firstBlock = True \<rparr>"

definition close_left :: "bool \<Rightarrow> bool \<Rightarrow> html_state \<Rightarrow> html_state" where
  "close_left isPre isQuote s =
     (let s1 = (if hs_inPre s \<and> \<not> isPre then s\<lparr>hs_html := hs_html s @ lit ''</code></pre>'', hs_inPre := False\<rparr> else s)
      in if hs_inQuote s1 \<and> \<not> isQuote then s1\<lparr>hs_html := hs_html s1 @ lit ''</blockquote>'', hs_inQuote := False\<rparr> else s1)"

definition open_block :: "bool \<Rightarrow> bool \<Rightarrow> html_state \<Rightarrow> html_state" where
  "open_block isPre isQuote s =
     (if isPre then
        if hs_inPre s then s\<lparr>hs_html := hs_html s @ lit [CHR 0x0A]\<rparr>
        else s\<lparr>hs_html := hs_html s @ lit ''<pre><code>'', hs_inPre := True\<rparr>
      else if isQuote then
        if hs_inQuote s then s\<lparr>hs_html := hs_html s @ lit ''<br>''\<rparr>
        else s\<lparr>hs_html := hs_html s @ lit ''<blockquote>'', hs_inQuote := True\<rparr>
      else if \<not> hs_firstBlock s \<and> hs_prevWasInline s then s\<lparr>hs_html := hs_html s @ lit ''<br>''\<rparr> else s)"

definition html_block :: "(utf16 \<Rightarrow> utf16 option) \<Rightarrow> html_state \<Rightarrow> text_block \<Rightarrow> html_state" where
  "html_block emoji s b =
     (let isPre = is_pre b; isQuote = is_quote b;
          s1 = open_block isPre isQuote (close_left isPre isQuote s)
      in s1\<lparr>hs_firstBlock := False, hs_html := hs_html s1 @ block_text emoji b, hs_prevWasInline := \<not> isPre \<and> \<not> isQuote\<rparr>)"

definition html_end :: "html_state \<Rightarrow> utf16" where
  "html_end s = hs_html s @ (if hs_inPre s then lit ''</code></pre>'' else []) @ (if hs_inQuote s then lit ''</blockquote>'' else [])"

definition buildCleanHtml :: "(utf16 \<Rightarrow> utf16 option) \<Rightarrow> text_block list \<Rightarrow> utf16" where
  "buildCleanHtml emoji blocks = html_end (foldl (html_block emoji) html_start blocks)"

subsection \<open>Quote and code\<close>

text \<open>\<open>toggleMonospace\<close> and \<open>toggleQuote\<close> with a selection, once \<open>ensureBlockBoundaries\<close> has cut the blocks at
  its ends: the selected blocks are those from the \<open>i\<close>-th, \<open>n\<close> of them.\<close>

definition on_selected :: "nat \<Rightarrow> nat \<Rightarrow> (text_block \<Rightarrow> text_block) \<Rightarrow> text_block list \<Rightarrow> text_block list" where
  "on_selected i n f bs = take i bs @ map f (take n (drop i bs)) @ drop n (drop i bs)"

definition toggleMonospace :: "nat \<Rightarrow> nat \<Rightarrow> text_block list \<Rightarrow> text_block list" where
  "toggleMonospace i n bs =
     (let newPre = (\<not> (\<forall>b\<in>set (take n (drop i bs)). bl_nonBreakableLines b))
      in on_selected i n (\<lambda>b. b\<lparr>bl_nonBreakableLines := newPre,
             bl_runs := map (\<lambda>r. r\<lparr>tr_fixedPitch := newPre\<rparr>) (bl_runs b)\<rparr>) bs)"

definition toggleQuote :: "nat \<Rightarrow> nat \<Rightarrow> text_block list \<Rightarrow> text_block list" where
  "toggleQuote i n bs =
     (let newLevel = (if \<forall>b\<in>set (take n (drop i bs)). 0 < bl_quoteLevel b then 0 else 1)
      in on_selected i n (\<lambda>b. b\<lparr>bl_quoteLevel := newLevel\<rparr>) bs)"

subsection \<open>One element for each run of blocks\<close>

datatype block_kind = Code | Quote | Paragraph

definition kind_of :: "text_block \<Rightarrow> block_kind" where
  "kind_of b = (if is_pre b then Code else if is_quote b then Quote else Paragraph)"

primrec open_tag :: "block_kind \<Rightarrow> utf16" where
  "open_tag Code = lit ''<pre><code>''" | "open_tag Quote = lit ''<blockquote>''" | "open_tag Paragraph = []"

primrec close_tag :: "block_kind \<Rightarrow> utf16" where
  "close_tag Code = lit ''</code></pre>''" | "close_tag Quote = lit ''</blockquote>''" | "close_tag Paragraph = []"

primrec separator :: "block_kind \<Rightarrow> utf16" where
  "separator Code = lit [CHR 0x0A]" | "separator Quote = lit ''<br>''" | "separator Paragraph = lit ''<br>''"

fun joined :: "utf16 \<Rightarrow> utf16 list \<Rightarrow> utf16" where
  "joined sep [] = []"
| "joined sep [x] = x"
| "joined sep (x # y # xs) = x @ sep @ joined sep (y # xs)"

fun groups :: "text_block list \<Rightarrow> (block_kind \<times> text_block list) list" where
  "groups [] = []"
| "groups (b # bs) =
     (case groups bs of
        [] \<Rightarrow> [(kind_of b, [b])]
      | (k, g) # gs \<Rightarrow> if k = kind_of b then (k, b # g) # gs else (kind_of b, [b]) # (k, g) # gs)"

definition group_html :: "(utf16 \<Rightarrow> utf16 option) \<Rightarrow> block_kind \<times> text_block list \<Rightarrow> utf16" where
  "group_html emoji p = open_tag (fst p) @ joined (separator (fst p)) (map (block_text emoji) (snd p)) @ close_tag (fst p)"

text \<open>What is still written after a block of kind \<open>k\<close>.\<close>

primrec rest_html :: "(utf16 \<Rightarrow> utf16 option) \<Rightarrow> block_kind \<Rightarrow> text_block list \<Rightarrow> utf16" where
  "rest_html emoji k [] = close_tag k"
| "rest_html emoji k (b # bs) =
     (if kind_of b = k then separator k else close_tag k @ open_tag (kind_of b)) @ block_text emoji b @ rest_html emoji (kind_of b) bs"

lemma groups_nonempty: "(k, g) \<in> set (groups bs) \<Longrightarrow> g \<noteq> []"
  by (induction bs) (auto split: list.splits if_splits)

lemma groups_Cons: "\<exists>g gs. groups (b # bs) = (kind_of b, b # g) # gs"
  by (auto split: list.split)

lemma joined_Cons: "xs \<noteq> [] \<Longrightarrow> joined sep (x # xs) = x @ sep @ joined sep xs"
  by (cases xs) simp_all

lemma rest_groups:
  "open_tag (kind_of b) @ block_text emoji b @ rest_html emoji (kind_of b) bs = concat (map (group_html emoji) (groups (b # bs)))"
proof (induction bs arbitrary: b)
  case Nil
  then show ?case by (simp add: group_html_def)
next
  case (Cons c bs)
  from groups_Cons [of c bs] obtain g gs where g: "groups (c # bs) = (kind_of c, c # g) # gs" by blast
  then have two: "groups (b # c # bs) =
      (if kind_of c = kind_of b then (kind_of b, b # c # g) # gs else (kind_of b, [b]) # (kind_of c, c # g) # gs)"
    by (subst groups.simps(2)) (simp only: g list.case prod.case, simp)
  from Cons.IH [of c] g two show ?case
    by (cases "kind_of c = kind_of b") (simp_all add: group_html_def joined_Cons)
qed

text \<open>The flags say which element is open.\<close>

definition at_kind :: "block_kind \<Rightarrow> html_state \<Rightarrow> bool" where
  "at_kind k s \<longleftrightarrow> hs_inPre s = (k = Code) \<and> hs_inQuote s = (k = Quote) \<and> hs_prevWasInline s = (k = Paragraph) \<and> \<not> hs_firstBlock s"

lemma html_block_step:
  assumes "at_kind k s" "\<not> (is_pre b \<and> is_quote b)"
  shows "at_kind (kind_of b) (html_block emoji s b)"
    "hs_html (html_block emoji s b) =
       hs_html s @ (if kind_of b = k then separator k else close_tag k @ open_tag (kind_of b)) @ block_text emoji b"
  using assms
  by (cases k; cases "is_pre b"; cases "is_quote b";
      simp add: at_kind_def html_block_def open_block_def close_left_def kind_of_def Let_def)+

lemma rest_run:
  "at_kind k s \<Longrightarrow> \<forall>b\<in>set bs. \<not> (is_pre b \<and> is_quote b) \<Longrightarrow>
     html_end (foldl (html_block emoji) s bs) = hs_html s @ rest_html emoji k bs"
proof (induction bs arbitrary: k s)
  case Nil
  then show ?case by (cases k) (simp_all add: at_kind_def html_end_def)
next
  case (Cons b bs)
  then show ?case using html_block_step [OF Cons.prems(1), of b emoji] by simp
qed


definition demo_run :: "string \<Rightarrow> text_run" where
  "demo_run str = \<lparr> tr_valid = True, tr_text = lit str, tr_imageName = None, tr_mentionUserId = [], tr_isAnchor = False,
     tr_anchorHref = [], tr_fixedPitch = False, tr_strikeOut = False, tr_underline = False, tr_italic = False, tr_bold = False \<rparr>"

definition demo_line :: "string \<Rightarrow> text_block" where
  "demo_line str = \<lparr> bl_nonBreakableLines = False, bl_quoteLevel = 0, bl_runs = (if str = [] then [] else [demo_run str]) \<rparr>"


text \<open>No text, link or user id of a run can open or close an element.\<close>

lemma escaped_has_no_tags: "of_char (CHR ''<'') \<notin> set (toHtmlEscaped str) \<and> of_char (CHR ''>'') \<notin> set (toHtmlEscaped str)
    \<and> of_char (CHR 0x22) \<notin> set (toHtmlEscaped str)"
  by (induction str) (auto simp: toHtmlEscaped_def lit_def)

text \<open>A line that is a quote and code at once (code made of the second of two quoted lines and the line below)
  closes the quote inside the code.\<close>

lemma quoted_code_misnested:
  "buildCleanHtml (\<lambda>_. None) (toggleMonospace 1 2 (toggleQuote 0 2 (map demo_line [''a'', ''b'', ''c''])))
   = lit (''<blockquote>a<pre><code>b</blockquote>'' @ [CHR 0x0A] @ ''c</code></pre>'')"
  by code_simp

text \<open>And one at the start of a quote loses the quote.\<close>

lemma quoted_code_not_quoted:
  "buildCleanHtml (\<lambda>_. None) (toggleMonospace 0 1 (toggleQuote 0 1 (map demo_line [''a'']))) = lit ''<pre><code>a</code></pre>''"
  by code_simp

text \<open>An empty line is not fixed-pitch text: between two such lines it ends the block and is lost.\<close>

lemma empty_code_line_lost:
  "buildCleanHtml (\<lambda>_. None) [demo_line [] \<lparr>bl_runs := [demo_run ''a'' \<lparr>tr_fixedPitch := True\<rparr>]\<rparr>, demo_line [],
      demo_line [] \<lparr>bl_runs := [demo_run ''b'' \<lparr>tr_fixedPitch := True\<rparr>]\<rparr>]
   = lit ''<pre><code>a</code></pre><pre><code>b</code></pre>''"
  by code_simp

end
