(* ===== verification/Chat_Rules.thy ===== *)
theory Chat_Rules imports Compose_Html Protocol_Types begin

section \<open>Small rules of the chat view\<close>

text \<open>
  \<^verbatim>\<open>src/src/history/mention_trigger.cpp\<close> (when typing opens the list of members),
  \<^verbatim>\<open>src/src/ui/widgets/block_format_presence.cpp\<close>, \<^verbatim>\<open>src/src/protocol/room_list_membership.h\<close> (whether a room is
  opened as a preview), \<^verbatim>\<open>src/src/dialogs/saved_messages.cpp\<close> and \<^verbatim>\<open>room_directory_filter.cpp\<close>.  The classes of
  Unicode characters and the search that ignores case are parameters.
\<close>

subsection \<open>Mentions\<close>

record char_classes =
  cc_isLetter :: "16 word \<Rightarrow> bool"
  cc_isLetterOrNumber :: "16 word \<Rightarrow> bool"
  cc_isSpace :: "16 word \<Rightarrow> bool"

definition mention_ok :: "char_classes \<Rightarrow> utf16 \<Rightarrow> nat \<Rightarrow> nat \<Rightarrow> bool" where
  "mention_ok cc blockText posInBlock i \<longleftrightarrow>
     (i = 0 \<or> \<not> (cc_isLetterOrNumber cc (blockText ! (i - 1)) \<or> blockText ! (i - 1) = of_char (CHR ''_'')))
     \<and> (posInBlock - i - 1 < 1 \<or> cc_isLetter cc (blockText ! (i + 1)))"

text \<open>The loop: \<open>scan_below\<close> \<open>n\<close> looks at the characters below \<open>n\<close>, from the last.\<close>

primrec scan_below :: "char_classes \<Rightarrow> utf16 \<Rightarrow> nat \<Rightarrow> nat \<Rightarrow> nat option" where
  "scan_below cc blockText posInBlock 0 = None"
| "scan_below cc blockText posInBlock (Suc i) =
     (let ch = blockText ! i
      in if ch = of_char (CHR ''@'') then (if mention_ok cc blockText posInBlock i then Some i else None)
         else if cc_isSpace cc ch \<or> ch = ObjectReplacementCharacter then None
         else scan_below cc blockText posInBlock i)"

definition Scan :: "char_classes \<Rightarrow> utf16 \<Rightarrow> nat \<Rightarrow> (nat \<times> utf16) option" where
  "Scan cc blockText posInBlock =
     (case scan_below cc blockText posInBlock posInBlock of
        None \<Rightarrow> None
      | Some atPos \<Rightarrow> Some (atPos, take (posInBlock - atPos - 1) (drop (atPos + 1) blockText)))"

definition in_query :: "char_classes \<Rightarrow> 16 word \<Rightarrow> bool" where
  "in_query cc ch \<longleftrightarrow> ch \<noteq> of_char (CHR ''@'') \<and> \<not> cc_isSpace cc ch \<and> ch \<noteq> ObjectReplacementCharacter"

lemma scan_below_Some:
  "scan_below cc t posInBlock n = Some p \<longleftrightarrow>
     p < n \<and> t ! p = of_char (CHR ''@'') \<and> mention_ok cc t posInBlock p \<and> (\<forall>j. p < j \<and> j < n \<longrightarrow> in_query cc (t ! j))"
  by (induction n) (auto simp: Let_def in_query_def less_Suc_eq)

text \<open>The list opens exactly for an at sign before the caret that is not inside a word and is followed by a letter or
  the caret, with neither a space, an emoji nor another at sign between; the query is the text in between.\<close>

theorem mention_scan_exact:
  "Scan cc t posInBlock = Some (p, query) \<longleftrightarrow>
     p < posInBlock \<and> t ! p = of_char (CHR ''@'') \<and> mention_ok cc t posInBlock p
     \<and> (\<forall>j. p < j \<and> j < posInBlock \<longrightarrow> in_query cc (t ! j)) \<and> query = take (posInBlock - p - 1) (drop (p + 1) t)"
proof -
  have "Scan cc t posInBlock = Some (p, query) \<longleftrightarrow>
      scan_below cc t posInBlock posInBlock = Some p \<and> query = take (posInBlock - p - 1) (drop (p + 1) t)"
    by (auto simp: Scan_def split: option.split)
  then show ?thesis by (simp add: scan_below_Some conj_assoc)
qed

subsection \<open>Decorations\<close>

record block_formats =
  bf_quotes :: bool
  bf_pre :: bool

fun scan_formats :: "block_formats \<Rightarrow> text_block list \<Rightarrow> block_formats" where
  "scan_formats r [] = r"
| "scan_formats r (b # bs) =
     (let r1 = (if 0 < bl_quoteLevel b then r\<lparr>bf_quotes := True\<rparr> else r);
          r2 = (if bl_nonBreakableLines b then r1\<lparr>bf_pre := True\<rparr> else r1)
      in if bf_quotes r2 \<and> bf_pre r2 then r2 else scan_formats r2 bs)"

definition ScanBlockFormats :: "text_block list \<Rightarrow> block_formats" where
  "ScanBlockFormats bs = scan_formats \<lparr> bf_quotes = False, bf_pre = False \<rparr> bs"

text \<open>Leaving early changes nothing.\<close>

lemma scan_formats_exact:
  "scan_formats r bs = \<lparr> bf_quotes = (bf_quotes r \<or> (\<exists>b\<in>set bs. 0 < bl_quoteLevel b)),
     bf_pre = (bf_pre r \<or> (\<exists>b\<in>set bs. bl_nonBreakableLines b)) \<rparr>"
proof (induction bs arbitrary: r)
  case (Cons b bs)
  show ?case by (cases "0 < bl_quoteLevel b"; cases "bl_nonBreakableLines b") (simp_all add: Cons.IH Let_def)
qed simp

lemma scan_block_formats_exact:
  "ScanBlockFormats bs = \<lparr> bf_quotes = (\<exists>b\<in>set bs. 0 < bl_quoteLevel b), bf_pre = (\<exists>b\<in>set bs. bl_nonBreakableLines b) \<rparr>"
  by (simp add: ScanBlockFormats_def scan_formats_exact)

subsection \<open>Rooms\<close>

datatype membership_answer = UnknownRoom | JoinedRoom | NotJoinedRoom

definition classifyRoom :: "room_summary list \<Rightarrow> qstring \<Rightarrow> membership_answer" where
  "classifyRoom rooms roomId =
     (if roomId = [] \<or> rooms = [] then UnknownRoom
      else (case find (\<lambda>r. rs_roomId r = roomId) rooms of
              None \<Rightarrow> NotJoinedRoom
            | Some r \<Rightarrow> if rs_membership r = MemberJoin then JoinedRoom else NotJoinedRoom))"

definition shouldOpenAsPreview :: "room_summary list \<Rightarrow> qstring \<Rightarrow> bool" where
  "shouldOpenAsPreview rooms roomId \<longleftrightarrow> classifyRoom rooms roomId = NotJoinedRoom"

lemma joined_never_previewed:
  "distinct (map rs_roomId rooms) \<Longrightarrow> r \<in> set rooms \<Longrightarrow> rs_membership r = MemberJoin \<Longrightarrow> \<not> shouldOpenAsPreview rooms (rs_roomId r)"
proof -
  assume d: "distinct (map rs_roomId rooms)" and r: "r \<in> set rooms" and j: "rs_membership r = MemberJoin"
  have "find (\<lambda>q. rs_roomId q = rs_roomId r) rooms = Some r"
    using d r by (induction rooms) (auto simp: rev_image_eqI)
  with j show ?thesis by (simp add: shouldOpenAsPreview_def classifyRoom_def)
qed

definition kPendingRoomId :: qstring where "kPendingRoomId = ''::saved-messages-pending::''"

definition arrangeForwardTargets ::
  "room_summary list \<Rightarrow> qstring \<Rightarrow> qstring \<Rightarrow> room_summary list" where
  "arrangeForwardTargets rooms savedRoomId currentRoomId =
     (let saved = default_room_summary\<lparr>rs_roomId := (if savedRoomId = [] then kPendingRoomId else savedRoomId), rs_displayName := ''Saved Messages''\<rparr>
      in (if savedRoomId \<noteq> [] \<and> savedRoomId = currentRoomId then [] else [saved])
         @ filter (\<lambda>r. rs_roomId r \<noteq> currentRoomId \<and> rs_roomId r \<noteq> savedRoomId) rooms)"

text \<open>Never the room one forwards from, and no room twice.\<close>

lemma forward_targets:
  assumes "distinct (map rs_roomId rooms)" "currentRoomId \<noteq> kPendingRoomId" "kPendingRoomId \<notin> rs_roomId ` set rooms"
  shows "distinct (map rs_roomId (arrangeForwardTargets rooms savedRoomId currentRoomId))
    \<and> currentRoomId \<notin> rs_roomId ` set (arrangeForwardTargets rooms savedRoomId currentRoomId)"
  using assms by (auto simp: arrangeForwardTargets_def distinct_map_filter Let_def)

record directory_entry =
  de_name :: qstring
  de_topic :: qstring

definition filterRoomEntries ::
  "(char \<Rightarrow> bool) \<Rightarrow> (qstring \<Rightarrow> qstring \<Rightarrow> bool) \<Rightarrow> directory_entry list \<Rightarrow> qstring \<Rightarrow> directory_entry list" where
  "filterRoomEntries isSpace containsCI entries needle =
     (let str = rev (dropWhile isSpace (rev (dropWhile isSpace needle)))
      in if str = [] then entries else filter (\<lambda>e. containsCI str (de_name e) \<or> containsCI str (de_topic e)) entries)"

end
