(* ===== verification/Register_Page.thy ===== *)
theory Register_Page imports Recovery_Key begin

section \<open>Creating an account\<close>

text \<open>
  \<^verbatim>\<open>src/src/intro/intro_register.cpp\<close> with \<open>showError\<close> and \<open>friendlyError\<close> of \<^verbatim>\<open>intro_step.cpp\<close>: the page
  first has the homeserver classified, then asks for a name and a password, and takes the user
  through the stages the server demands (terms, a token, dummy).  Widgets are the flags and texts
  the code sets and reads; a user can only edit what is shown, enabled and not read-only, and click
  what is shown and enabled.  A challenge is the JSON object of the backend, already parsed.  What
  the slots of the page call and emit is listed in order.
\<close>

datatype register_phase = HomeserverPhase | CredentialsPhase | DelegatedPhase

datatype secret_setup = SecretReady | NeedsMasterPassword | KeychainError

text \<open>The \<open>auth\<close> object of a stage: its type and, for a token, the token.\<close>

type_synonym uia_auth = "qstring \<times> qstring option"

datatype register_output =
    ClassifyRegistration qstring nat
  | CheckUsernameAvailable qstring qstring
  | RegisterAccount qstring qstring qstring "(qstring \<times> uia_auth) option"
  | RegisterSuccess qstring
  | GoSignIn
  | NeedMasterPassword
  | OpenUrl qstring

record register_page =
  rg_homeserver :: qstring
  rg_username :: qstring
  rg_password :: qstring
  rg_confirm :: qstring
  rg_token :: qstring
  rg_homeserverShown :: bool
  rg_credentialsShown :: bool
  rg_changeShown :: bool
  rg_nextShown :: bool
  rg_uiaShown :: bool
  rg_tokenShown :: bool
  rg_uiaSubmitShown :: bool
  rg_homeserverEnabled :: bool
  rg_readOnly :: bool
  rg_nextEnabled :: bool
  rg_signInEnabled :: bool
  rg_uiaEnabled :: bool
  rg_error :: "qstring option"
  rg_usernameTimer :: bool
  rg_uiaStage :: qstring
  rg_uiaSession :: qstring
  rg_currentHomeserver :: qstring
  rg_submitting :: bool
  rg_phase :: register_phase
  rg_checking :: bool
  rg_pendingClassifyRequestId :: nat
  rg_nextClassifyRequestId :: nat
  rg_discoveredUrl :: qstring
  rg_delegatedAuthUrl :: qstring
  rg_active :: bool
  rg_cachedUsername :: qstring
  rg_cachedPassword :: qstring
  rg_lastCheckedUsername :: qstring
  rg_usernameAvailabilityErrorVisible :: bool

definition blank_page :: register_page where
  "blank_page = \<lparr> rg_homeserver = [], rg_username = [], rg_password = [], rg_confirm = [], rg_token = [],
     rg_homeserverShown = True, rg_credentialsShown = True, rg_changeShown = False, rg_nextShown = True,
     rg_uiaShown = False, rg_tokenShown = False, rg_uiaSubmitShown = True, rg_homeserverEnabled = True, rg_readOnly = False,
     rg_nextEnabled = True, rg_signInEnabled = True, rg_uiaEnabled = True, rg_error = None, rg_usernameTimer = False,
     rg_uiaStage = [], rg_uiaSession = [], rg_currentHomeserver = [], rg_submitting = False, rg_phase = HomeserverPhase,
     rg_checking = False, rg_pendingClassifyRequestId = 0, rg_nextClassifyRequestId = 1, rg_discoveredUrl = [],
     rg_delegatedAuthUrl = [], rg_active = False, rg_cachedUsername = [], rg_cachedPassword = [],
     rg_lastCheckedUsername = [], rg_usernameAvailabilityErrorVisible = False \<rparr>"

definition reg_showError :: "qstring \<Rightarrow> register_page \<Rightarrow> register_page" where
  "reg_showError msg p = p\<lparr>rg_error := Some msg\<rparr>"

definition reg_hideError :: "register_page \<Rightarrow> register_page" where
  "reg_hideError p = p\<lparr>rg_error := None\<rparr>"

definition updateSubmitEnabled :: "register_page \<Rightarrow> register_page" where
  "updateSubmitEnabled p =
     (if rg_submitting p \<or> rg_checking p then p
      else let hasHomeserver = trimmed_key (rg_homeserver p) \<noteq> []
           in case rg_phase p of
                HomeserverPhase \<Rightarrow> p\<lparr>rg_nextEnabled := hasHomeserver\<rparr>
              | DelegatedPhase \<Rightarrow> p
              | CredentialsPhase \<Rightarrow> p\<lparr>rg_nextEnabled := (hasHomeserver \<and> trimmed_key (rg_username p) \<noteq> []
                    \<and> rg_password p \<noteq> [] \<and> rg_confirm p \<noteq> [])\<rparr>)"

definition setPhase :: "register_phase \<Rightarrow> register_page \<Rightarrow> register_page" where
  "setPhase phase p =
     updateSubmitEnabled (p\<lparr>rg_phase := phase, rg_homeserverEnabled := (phase = HomeserverPhase),
        rg_changeShown := (phase \<noteq> HomeserverPhase), rg_credentialsShown := (phase = CredentialsPhase),
        rg_nextShown := (phase \<noteq> DelegatedPhase)\<rparr>)"

definition new_register_page :: register_page where
  "new_register_page = updateSubmitEnabled (setPhase HomeserverPhase blank_page)"

definition setFieldsEnabled :: "bool \<Rightarrow> register_page \<Rightarrow> register_page" where
  "setFieldsEnabled enabled p =
     (let p1 = p\<lparr>rg_readOnly := \<not> enabled, rg_signInEnabled := enabled\<rparr>
      in if enabled then updateSubmitEnabled p1 else p1\<lparr>rg_nextEnabled := False\<rparr>)"

definition setUiaControlsEnabled :: "bool \<Rightarrow> register_page \<Rightarrow> register_page" where
  "setUiaControlsEnabled enabled p = p\<lparr>rg_uiaEnabled := enabled, rg_signInEnabled := enabled\<rparr>"

definition hideUiaWidgets :: "register_page \<Rightarrow> register_page" where
  "hideUiaWidgets p =
     (setUiaControlsEnabled True p)\<lparr>rg_uiaShown := False, rg_homeserverShown := True, rg_credentialsShown := True, rg_nextShown := True\<rparr>"

subsection \<open>Homeserver\<close>

definition homeserverChanged :: "qstring \<Rightarrow> register_page \<Rightarrow> register_page" where
  "homeserverChanged str p =
     (let p1 = p\<lparr>rg_homeserver := str, rg_discoveredUrl := [], rg_delegatedAuthUrl := [], rg_pendingClassifyRequestId := 0\<rparr>
      in if rg_phase p1 \<noteq> HomeserverPhase then setPhase HomeserverPhase (reg_hideError p1) else updateSubmitEnabled p1)"

definition changeHomeserver :: "register_page \<Rightarrow> register_page" where
  "changeHomeserver p = (setPhase HomeserverPhase (reg_hideError p))\<lparr>rg_homeserverEnabled := True\<rparr>"

definition classifyServer :: "register_page \<Rightarrow> register_page \<times> register_output list" where
  "classifyServer p =
     (let input = trimmed_key (rg_homeserver p)
      in if input = [] then (p, [])
         else (reg_hideError (p\<lparr>rg_checking := True\<rparr>)\<lparr>rg_homeserverEnabled := False, rg_nextEnabled := False,
                 rg_nextClassifyRequestId := rg_nextClassifyRequestId p + 1,
                 rg_pendingClassifyRequestId := rg_nextClassifyRequestId p\<rparr>,
               [ClassifyRegistration input (rg_nextClassifyRequestId p)]))"

definition onRegistrationClassified :: "nat \<Rightarrow> int \<Rightarrow> qstring \<Rightarrow> register_page \<Rightarrow> register_page" where
  "onRegistrationClassified requestId status url p =
     (if requestId = 0 \<or> requestId \<noteq> rg_pendingClassifyRequestId p then p
      else let p1 = p\<lparr>rg_pendingClassifyRequestId := 0, rg_checking := False\<rparr>
           in if status = 1 then setPhase CredentialsPhase (reg_hideError (p1\<lparr>rg_discoveredUrl := url, rg_delegatedAuthUrl := []\<rparr>))
              else if status = 2 then setPhase DelegatedPhase (p1\<lparr>rg_discoveredUrl := [], rg_delegatedAuthUrl := url\<rparr>)
              else reg_showError ''This doesn't look like a Matrix server. Check the address and try again''
                     (setPhase HomeserverPhase (p1\<lparr>rg_discoveredUrl := [], rg_delegatedAuthUrl := []\<rparr>)))"

subsection \<open>Name\<close>

definition base_url :: "register_page \<Rightarrow> qstring" where
  "base_url p =
     (let homeserver = trimmed_key (rg_homeserver p)
      in if rg_discoveredUrl p \<noteq> [] then rg_discoveredUrl p
         else if \<not> startsWith ''http'' homeserver then ''https://'' @ homeserver else homeserver)"

definition usernameChanged :: "qstring \<Rightarrow> register_page \<Rightarrow> register_page" where
  "usernameChanged str p =
     (let p1 = p\<lparr>rg_username := str, rg_lastCheckedUsername := []\<rparr>;
          p2 = (if rg_usernameAvailabilityErrorVisible p1 then reg_hideError (p1\<lparr>rg_usernameAvailabilityErrorVisible := False\<rparr>) else p1)
      in (updateSubmitEnabled p2)\<lparr>rg_usernameTimer := True\<rparr>)"

definition startUsernameCheck :: "register_page \<Rightarrow> register_page \<times> register_output list" where
  "startUsernameCheck p =
     (let user = trimmed_key (rg_username p)
      in if user = [] then (p\<lparr>rg_lastCheckedUsername := []\<rparr>, [])
         else (p\<lparr>rg_lastCheckedUsername := user\<rparr>, [CheckUsernameAvailable (base_url p) user]))"

definition usernameTimeout :: "register_page \<Rightarrow> register_page \<times> register_output list" where
  "usernameTimeout p = (if rg_usernameTimer p then startUsernameCheck (p\<lparr>rg_usernameTimer := False\<rparr>) else (p, []))"

definition onUsernameAvailability :: "int \<Rightarrow> register_page \<Rightarrow> register_page" where
  "onUsernameAvailability status p =
     (if rg_submitting p then p
      else if trimmed_key (rg_username p) \<noteq> rg_lastCheckedUsername p then p
      else if status = 1 then reg_showError ''Username already taken'' (p\<lparr>rg_usernameAvailabilityErrorVisible := True\<rparr>)
      else if status = 2 then reg_showError ''Invalid username format'' (p\<lparr>rg_usernameAvailabilityErrorVisible := True\<rparr>)
      else if rg_usernameAvailabilityErrorVisible p then reg_hideError (p\<lparr>rg_usernameAvailabilityErrorVisible := False\<rparr>)
      else p)"

definition reg_passwordChanged :: "qstring \<Rightarrow> register_page \<Rightarrow> register_page" where
  "reg_passwordChanged str p = updateSubmitEnabled (p\<lparr>rg_password := str\<rparr>)"

definition confirmChanged :: "qstring \<Rightarrow> register_page \<Rightarrow> register_page" where
  "confirmChanged str p = updateSubmitEnabled (p\<lparr>rg_confirm := str\<rparr>)"

subsection \<open>Submit\<close>

definition reg_submit :: "secret_setup \<Rightarrow> register_page \<Rightarrow> register_page \<times> register_output list" where
  "reg_submit secrets p =
     (if rg_submitting p \<or> rg_checking p then (p, [])
      else case rg_phase p of
        HomeserverPhase \<Rightarrow>
          if trimmed_key (rg_homeserver p) = [] then (reg_showError ''Please enter a homeserver'' p, []) else classifyServer p
      | DelegatedPhase \<Rightarrow> (p, if rg_delegatedAuthUrl p \<noteq> [] then [OpenUrl (rg_delegatedAuthUrl p)] else [])
      | CredentialsPhase \<Rightarrow>
          let user = trimmed_key (rg_username p)
          in if trimmed_key (rg_homeserver p) = [] then (reg_showError ''Please enter a homeserver'' p, [])
             else if user = [] then (reg_showError ''Please enter a username'' p, [])
             else if rg_password p = [] then (reg_showError ''Please enter a password'' p, [])
             else if rg_password p \<noteq> rg_confirm p then (reg_showError ''Passwords do not match'' p, [])
             else case secrets of
               NeedsMasterPassword \<Rightarrow> (p, [NeedMasterPassword])
             | KeychainError \<Rightarrow> (reg_showError ''Couldn't access your keychain. Please try again'' p, [])
             | SecretReady \<Rightarrow>
                 ((setFieldsEnabled False (reg_hideError p\<lparr>rg_submitting := True\<rparr>))
                    \<lparr>rg_currentHomeserver := base_url p, rg_cachedUsername := user, rg_cachedPassword := rg_password p\<rparr>,
                  [RegisterAccount (base_url p) user (rg_password p) None]))"

definition onRegistrationSuccess :: "qstring \<Rightarrow> register_page \<Rightarrow> register_page \<times> register_output list" where
  "onRegistrationSuccess userId p =
     (let p1 = hideUiaWidgets (reg_hideError (setFieldsEnabled True (p\<lparr>rg_submitting := False\<rparr>)));
          p2 = confirmChanged [] (reg_passwordChanged [] p1);
          p3 = p2\<lparr>rg_cachedUsername := [], rg_cachedPassword := []\<rparr>
      in (p3, if rg_active p3 then [RegisterSuccess userId] else []))"

subsection \<open>Stages\<close>

record uia_challenge =
  ch_errcode :: qstring
  ch_error :: qstring
  ch_session :: qstring
  ch_flows :: "qstring list list"
  ch_completed :: "qstring list"

definition kSupportedStages :: "qstring list" where
  "kSupportedStages = [''m.login.terms'', ''m.login.registration_token'', ''org.matrix.msc3231.login.registration_token'', ''m.login.dummy'']"

definition remaining_stages :: "qstring list \<Rightarrow> qstring list \<Rightarrow> qstring list" where
  "remaining_stages completed stages = filter (\<lambda>s. s \<notin> set completed) stages"

definition flow_score :: "qstring list \<Rightarrow> qstring list \<Rightarrow> int" where
  "flow_score completed stages =
     (let rest = remaining_stages completed stages
      in int (length (filter (\<lambda>s. s \<notin> set kSupportedStages) rest)) * 1000 + int (length rest))"

text \<open>The loop over the flows, with the best score so far (\<open>INT_MAX\<close> at first).\<close>

definition pick_flow :: "qstring list \<Rightarrow> int \<times> qstring list \<Rightarrow> qstring list \<Rightarrow> int \<times> qstring list" where
  "pick_flow completed b stages = (if flow_score completed stages < fst b then (flow_score completed stages, stages) else b)"

definition bestFlow :: "qstring list \<Rightarrow> qstring list list \<Rightarrow> qstring list" where
  "bestFlow completed flows = snd (foldl (pick_flow completed) (2147483647, []) flows)"

definition nextStage :: "uia_challenge \<Rightarrow> qstring" where
  "nextStage ch = (case remaining_stages (ch_completed ch) (bestFlow (ch_completed ch) (ch_flows ch)) of [] \<Rightarrow> [] | s # _ \<Rightarrow> s)"

definition submitUiaStage :: "uia_auth \<Rightarrow> register_page \<Rightarrow> register_page \<times> register_output list" where
  "submitUiaStage auth p =
     (setUiaControlsEnabled False (p\<lparr>rg_submitting := True\<rparr>),
      [RegisterAccount (rg_currentHomeserver p) (rg_cachedUsername p) (rg_cachedPassword p) (Some (rg_uiaSession p, auth))])"

definition is_token_stage :: "qstring \<Rightarrow> bool" where
  "is_token_stage stage \<longleftrightarrow> stage = ''m.login.registration_token'' \<or> stage = ''org.matrix.msc3231.login.registration_token''"

definition showUiaStage :: "qstring \<Rightarrow> register_page \<Rightarrow> register_page \<times> register_output list" where
  "showUiaStage stageType p =
     (if stageType = ''m.login.dummy'' then
        submitUiaStage (''m.login.dummy'', None) (setFieldsEnabled False (p\<lparr>rg_uiaShown := False\<rparr>))
      else
        let p1 = (hideUiaWidgets p)\<lparr>rg_homeserverShown := False, rg_credentialsShown := False, rg_nextShown := False, rg_uiaShown := True\<rparr>;
            p2 = (if stageType = ''m.login.terms'' then p1\<lparr>rg_tokenShown := False, rg_uiaSubmitShown := True, rg_uiaStage := stageType\<rparr>
                  else if is_token_stage stageType
                  then p1\<lparr>rg_token := [], rg_tokenShown := True, rg_uiaSubmitShown := True, rg_uiaStage := stageType\<rparr>
                  else reg_showError ''Registration cannot be completed - unsupported UIA stage'' (p1\<lparr>rg_tokenShown := False, rg_uiaSubmitShown := False\<rparr>))
        in (setUiaControlsEnabled True p2, []))"

text \<open>The text of the terms stage, from the names and links of the policies; the label is rich text that opens its
  links itself (\<open>setOpenExternalLinks\<close>).\<close>

fun comma_joined :: "qstring list \<Rightarrow> qstring" where
  "comma_joined [] = []"
| "comma_joined [w] = w"
| "comma_joined (w # v # ws) = w @ '', '' @ comma_joined (v # ws)"

definition termsLabel :: "(qstring \<times> qstring) list \<Rightarrow> qstring" where
  "termsLabel policies =
     (let policyLinks = map (\<lambda>(name, url). ''<a href='' @ [CHR 0x22] @ url @ [CHR 0x22] @ ''>'' @ name @ ''</a>'')
            (filter (\<lambda>(name, url). name \<noteq> [] \<and> url \<noteq> []) policies)
      in if policyLinks = [] then ''Please accept the terms of service to continue''
         else ''By continuing, you agree to: '' @ comma_joined policyLinks)"

text \<open>The button of the stage; which slot it has is \<open>rg_uiaStage\<close>.\<close>

definition uiaSubmitClicked :: "register_page \<Rightarrow> register_page \<times> register_output list" where
  "uiaSubmitClicked p =
     (if rg_uiaStage p = ''m.login.terms'' then submitUiaStage (''m.login.terms'', None) p
      else if is_token_stage (rg_uiaStage p) then
        let token = trimmed_key (rg_token p)
        in if token = [] then (reg_showError ''Please enter a registration token'' p, [])
           else submitUiaStage (rg_uiaStage p, Some token) p
      else (p, []))"

definition onRegistrationChallenge :: "uia_challenge \<Rightarrow> register_page \<Rightarrow> register_page \<times> register_output list" where
  "onRegistrationChallenge ch p =
     (let p1 = setFieldsEnabled True (p\<lparr>rg_submitting := False\<rparr>);
          p2 = (if rg_uiaShown p1 then setUiaControlsEnabled True p1 else p1)
      in if \<not> rg_active p2 then (p2, [])
         else let p3 = (if ch_errcode ch \<noteq> [] \<or> ch_error ch \<noteq> []
                        then reg_showError (if ch_error ch = [] then ch_errcode ch else ch_error ch) p2 else p2);
                  p4 = p3\<lparr>rg_uiaSession := ch_session ch\<rparr>
              in if ch_session ch = [] then (reg_showError ''Server returned invalid authentication challenge'' p4, [])
                 else if nextStage ch = []
                 then (reg_showError ''No more stages to complete, but registration did not succeed'' p4, [])
                 else showUiaStage (nextStage ch) p4)"

subsection \<open>Failure\<close>

fun has_part :: "qstring \<Rightarrow> qstring \<Rightarrow> bool" where
  "has_part part [] \<longleftrightarrow> part = []"
| "has_part part (c # cs) \<longleftrightarrow> startsWith part (c # cs) \<or> has_part part cs"

text \<open>\<open>section(": ", 1)\<close>: what follows the first separator.\<close>

fun after_colon :: "qstring \<Rightarrow> qstring" where
  "after_colon [] = []"
| "after_colon (c # cs) = (if startsWith '': '' (c # cs) then tl cs else after_colon cs)"

definition friendlyError :: "qstring \<Rightarrow> qstring \<Rightarrow> qstring" where
  "friendlyError raw homeserver =
     (if raw = [] then []
      else if has_part ''Network error'' raw \<or> has_part ''error sending request'' raw \<or> has_part ''dns error'' raw
        \<or> has_part ''Connection refused'' raw
      then (if homeserver = [] then ''Couldn't reach the server. Check your internet connection.''
            else ''Couldn't reach '' @ homeserver @ ''. Check the address and your internet connection.'')
      else if has_part ''timed out'' raw \<or> has_part ''timeout'' raw
      then (if homeserver = [] then ''The server took too long to respond. Please try again.''
            else homeserver @ '' took too long to respond. Please try again.'')
      else if startsWith ''M_'' raw \<and> after_colon raw \<noteq> [] then after_colon raw
      else if has_part ''://'' raw \<or> has_part ''Error('' raw then ''Something went wrong. Please try again.''
      else raw)"

definition onRegistrationFailed :: "qstring \<Rightarrow> register_page \<Rightarrow> register_page" where
  "onRegistrationFailed err p =
     (let p1 = setFieldsEnabled True (p\<lparr>rg_submitting := False\<rparr>);
          p2 = (if rg_uiaShown p1 then setUiaControlsEnabled True p1 else p1);
          msg = (if has_part ''M_USER_IN_USE'' err then ''That username is already taken''
                 else if has_part ''M_INVALID_USERNAME'' err then ''Invalid username format''
                 else if has_part ''M_FORBIDDEN'' err
                 then ''Registration is disabled on this homeserver. It may require creating the account on its website''
                 else if has_part ''M_THREEPID_IN_USE'' err then ''That email or phone number is already in use''
                 else friendlyError err (trimmed_key (rg_homeserver p2)))
      in reg_showError (if msg = [] then ''Couldn't create your account.'' else msg) p2)"

subsection \<open>Events\<close>

definition reg_activate :: "register_page \<Rightarrow> register_page" where
  "reg_activate p = updateSubmitEnabled (p\<lparr>rg_nextEnabled := True, rg_active := True\<rparr>)"

definition reg_deactivate :: "register_page \<Rightarrow> register_page" where
  "reg_deactivate p = p\<lparr>rg_active := False\<rparr>"

text \<open>Enter in a field: it submits unless something is missing, else only moves the focus.\<close>

definition onReturn :: "secret_setup \<Rightarrow> register_page \<Rightarrow> register_page \<times> register_output list" where
  "onReturn secrets p =
     (if rg_phase p \<noteq> CredentialsPhase then reg_submit secrets p
      else if trimmed_key (rg_homeserver p) \<noteq> [] \<and> trimmed_key (rg_username p) \<noteq> [] \<and> rg_password p \<noteq> [] \<and> rg_confirm p \<noteq> []
      then reg_submit secrets p else (p, []))"

datatype register_event =
    EditHomeserver qstring
  | EditUsername qstring
  | EditPassword qstring
  | EditConfirm qstring
  | EditToken qstring
  | PressReturn secret_setup
  | ClickChange
  | ClickNext secret_setup
  | ClickSignIn
  | ClickUia
  | UsernameTimer
  | Activate
  | Deactivate
  | Classified nat int qstring
  | Availability int
  | Succeeded qstring
  | Challenged uia_challenge
  | Failed qstring

definition register_step :: "register_page \<Rightarrow> register_event \<Rightarrow> register_page \<times> register_output list" where
  "register_step p e =
     (let editable = (\<not> rg_readOnly p) in
      case e of
        EditHomeserver str \<Rightarrow> if rg_homeserverShown p \<and> rg_homeserverEnabled p \<and> editable then (homeserverChanged str p, []) else (p, [])
      | EditUsername str \<Rightarrow> if rg_credentialsShown p \<and> editable then (usernameChanged str p, []) else (p, [])
      | EditPassword str \<Rightarrow> if rg_credentialsShown p \<and> editable then (reg_passwordChanged str p, []) else (p, [])
      | EditConfirm str \<Rightarrow> if rg_credentialsShown p \<and> editable then (confirmChanged str p, []) else (p, [])
      | EditToken str \<Rightarrow> if rg_uiaShown p \<and> rg_tokenShown p \<and> rg_uiaEnabled p then (p\<lparr>rg_token := str\<rparr>, []) else (p, [])
      | PressReturn secrets \<Rightarrow>
          if rg_credentialsShown p \<or> rg_homeserverShown p \<and> rg_homeserverEnabled p then onReturn secrets p else (p, [])
      | ClickChange \<Rightarrow> if rg_changeShown p then (changeHomeserver p, []) else (p, [])
      | ClickNext secrets \<Rightarrow> if rg_nextShown p \<and> rg_nextEnabled p then reg_submit secrets p else (p, [])
      | ClickSignIn \<Rightarrow> if rg_signInEnabled p then (reg_deactivate p, [GoSignIn]) else (p, [])
      | ClickUia \<Rightarrow> if rg_uiaShown p \<and> rg_uiaSubmitShown p \<and> rg_uiaEnabled p then uiaSubmitClicked p else (p, [])
      | UsernameTimer \<Rightarrow> usernameTimeout p
      | Activate \<Rightarrow> (reg_activate p, [])
      | Deactivate \<Rightarrow> (reg_deactivate p, [])
      | Classified i status url \<Rightarrow> (onRegistrationClassified i status url p, [])
      | Availability status \<Rightarrow> (onUsernameAvailability status p, [])
      | Succeeded userId \<Rightarrow> onRegistrationSuccess userId p
      | Challenged ch \<Rightarrow> onRegistrationChallenge ch p
      | Failed err \<Rightarrow> (onRegistrationFailed err p, []))"

text \<open>A run with what it has done: the page, what it called and emitted, and the events.\<close>

definition history_step ::
  "register_page \<times> register_output list \<times> register_event list \<Rightarrow> register_event \<Rightarrow> register_page \<times> register_output list \<times> register_event list" where
  "history_step h e =
     (let (p, outs, es) = h; (p2, out) = register_step p e in (p2, outs @ out, es @ [e]))"

definition register_run :: "register_event list \<Rightarrow> register_page \<times> register_output list \<times> register_event list" where
  "register_run = foldl history_step (new_register_page, [], [])"

end
