(* ===== verification/Register_Properties.thy ===== *)
theory Register_Properties imports Register_Page begin

section \<open>Creating an account: properties\<close>

text \<open>
  A password leaves the page only for a server that was classified from the address in the field,
  and a stage the page knows is taken whenever the server offers a way through such stages.  Then
  the runs in which the page ends up blank, sends two registrations at once, or believes a reply
  about another server.
\<close>

subsection \<open>Where the password goes\<close>

text \<open>The fields of the page the address and the password depend on.\<close>

definition core :: "register_page \<Rightarrow> qstring \<times> nat \<times> register_phase \<times> qstring \<times> qstring \<times> qstring" where
  "core p = (trimmed_key (rg_homeserver p), rg_pendingClassifyRequestId p, rg_phase p, rg_discoveredUrl p,
     rg_currentHomeserver p, rg_cachedPassword p)"

lemma core_simps [simp]:
  "core (reg_showError m p) = core p" "core (reg_hideError p) = core p" "core (updateSubmitEnabled p) = core p"
  "core (setFieldsEnabled b p) = core p" "core (setUiaControlsEnabled b p) = core p" "core (hideUiaWidgets p) = core p"
  "core (usernameChanged str p) = core p" "core (reg_passwordChanged str p) = core p" "core (confirmChanged str p) = core p"
  "core (onUsernameAvailability status p) = core p" "core (onRegistrationFailed err p) = core p"
  "core (reg_activate p) = core p" "core (reg_deactivate p) = core p"
proof -
  show u: "core (updateSubmitEnabled q) = core q" for q
    by (simp add: updateSubmitEnabled_def core_def Let_def split: register_phase.split)
  show f: "core (setFieldsEnabled c q) = core q" for c q by (simp add: setFieldsEnabled_def u Let_def) (simp add: core_def)
  show "core (hideUiaWidgets p) = core p" "core (setUiaControlsEnabled b p) = core p"
    by (simp_all add: hideUiaWidgets_def setUiaControlsEnabled_def core_def)
  show "core (usernameChanged str p) = core p"
    using u by (simp add: usernameChanged_def Let_def core_def reg_hideError_def)
  show "core (reg_passwordChanged str p) = core p" "core (confirmChanged str p) = core p"
    by (simp_all add: reg_passwordChanged_def confirmChanged_def u) (simp_all add: core_def)
  show "core (onUsernameAvailability status p) = core p"
    by (simp add: onUsernameAvailability_def reg_showError_def reg_hideError_def core_def)
  show "core (onRegistrationFailed err p) = core p"
    using f by (simp add: onRegistrationFailed_def Let_def reg_showError_def core_def setUiaControlsEnabled_def)
  show "core (reg_activate p) = core p" "core (reg_deactivate p) = core p"
    by (simp_all add: reg_activate_def reg_deactivate_def u) (simp_all add: core_def)
qed (simp_all add: reg_showError_def reg_hideError_def core_def)

definition asked :: "register_output list \<Rightarrow> register_event list \<Rightarrow> qstring \<Rightarrow> qstring \<Rightarrow> bool" where
  "asked outs es input url \<longleftrightarrow> (\<exists>i. ClassifyRegistration input i \<in> set outs \<and> Classified i 1 url \<in> set es)"

definition target_url :: "qstring \<Rightarrow> qstring \<Rightarrow> qstring" where
  "target_url input url = (if url \<noteq> [] then url else if startsWith ''http'' input then input else ''https://'' @ input)"

definition vetted :: "register_output list \<Rightarrow> register_event list \<Rightarrow> qstring \<Rightarrow> bool" where
  "vetted outs es server \<longleftrightarrow> (\<exists>input url. asked outs es input url \<and> server = target_url input url)"

lemma asked_more: "asked outs es input url \<Longrightarrow> asked (outs @ outs2) (es @ es2) input url"
  by (auto simp: asked_def)

lemma vetted_more: "vetted outs es server \<Longrightarrow> vetted (outs @ outs2) (es @ es2) server"
  by (auto simp: vetted_def dest: asked_more)

lemma base_url_target: "base_url p = target_url (trimmed_key (rg_homeserver p)) (rg_discoveredUrl p)"
  by (simp add: base_url_def target_url_def Let_def)

fun safe_core ::
  "qstring \<times> nat \<times> register_phase \<times> qstring \<times> qstring \<times> qstring \<Rightarrow> register_output list \<Rightarrow> register_event list \<Rightarrow> bool" where
  "safe_core (input, pending, phase, url, server, password) outs es \<longleftrightarrow>
     (pending \<noteq> 0 \<longrightarrow> ClassifyRegistration input pending \<in> set outs)
     \<and> (phase = CredentialsPhase \<longrightarrow> asked outs es input url)
     \<and> (password \<noteq> [] \<longrightarrow> vetted outs es server)
     \<and> (\<forall>s u pw a. RegisterAccount s u pw a \<in> set outs \<and> pw \<noteq> [] \<longrightarrow> vetted outs es s)"

definition safe_history :: "register_page \<times> register_output list \<times> register_event list \<Rightarrow> bool" where
  "safe_history h \<longleftrightarrow> safe_core (core (fst h)) (fst (snd h)) (snd (snd h))"

text \<open>A step that keeps the core and registers nothing new, or only what the core holds.\<close>

lemma safe_coreI:
  assumes "safe_core c outs es"
    "pending \<noteq> 0 \<Longrightarrow> ClassifyRegistration input pending \<in> set (outs @ out)"
    "phase = CredentialsPhase \<Longrightarrow> asked (outs @ out) (es @ [e]) input url"
    "password \<noteq> [] \<Longrightarrow> vetted (outs @ out) (es @ [e]) server"
    "\<And>s u pw a. RegisterAccount s u pw a \<in> set out \<Longrightarrow> pw \<noteq> [] \<Longrightarrow> vetted (outs @ out) (es @ [e]) s"
  shows "safe_core (input, pending, phase, url, server, password) (outs @ out) (es @ [e])"
proof -
  have "vetted outs es s" if "RegisterAccount s u pw a \<in> set outs" "pw \<noteq> []" for s u pw a
    using assms(1) that by (cases c) auto
  then have "vetted (outs @ out) (es @ [e]) s" if "RegisterAccount s u pw a \<in> set (outs @ out)" "pw \<noteq> []" for s u pw a
    using that assms(5) vetted_more [of outs es s out "[e]"] by auto
  with assms(2-4) show ?thesis by simp blast
qed

lemma safe_coreD:
  assumes "safe_core (input, pending, phase, url, server, password) outs es"
  shows "pending \<noteq> 0 \<Longrightarrow> ClassifyRegistration input pending \<in> set (outs @ out)"
    "phase = CredentialsPhase \<Longrightarrow> asked (outs @ out) (es @ [e]) input url"
    "password \<noteq> [] \<Longrightarrow> vetted (outs @ out) (es @ [e]) server"
  using assms asked_more [of outs es input url out "[e]"] vetted_more [of outs es server out "[e]"] by auto

lemma safe_same:
  assumes "safe_core c outs es" "\<And>s u pw a. RegisterAccount s u pw a \<in> set out \<Longrightarrow> \<exists>i n f r. c = (i, n, f, r, s, pw)"
  shows "safe_core c (outs @ out) (es @ [e])"
proof -
  obtain input pending phase url server password where c: "c = (input, pending, phase, url, server, password)"
    by (metis prod_cases6)
  show ?thesis unfolding c
  proof (rule safe_coreI [OF assms(1)])
    fix s u pw a
    assume "RegisterAccount s u pw a \<in> set out" "pw \<noteq> []"
    with assms(2) have "s = server" "pw = password" unfolding c by blast+
    with \<open>pw \<noteq> []\<close> safe_coreD(3) [OF assms(1) [unfolded c]] show "vetted (outs @ out) (es @ [e]) s" by simp
  qed (use safe_coreD [OF assms(1) [unfolded c]] in blast)+
qed

lemma safe_silent: "safe_core c outs es \<Longrightarrow> safe_core c outs (es @ [e])"
  using safe_same [of c outs es "[]" e] by simp

lemma core_eq_fields:
  "core p2 = core p \<Longrightarrow> trimmed_key (rg_homeserver p2) = trimmed_key (rg_homeserver p) \<and> rg_pendingClassifyRequestId p2 = rg_pendingClassifyRequestId p
     \<and> rg_phase p2 = rg_phase p \<and> rg_discoveredUrl p2 = rg_discoveredUrl p
     \<and> rg_currentHomeserver p2 = rg_currentHomeserver p \<and> rg_cachedPassword p2 = rg_cachedPassword p"
  by (simp add: core_def)

text \<open>The operations that do change the core.\<close>

lemma core_setPhase: "core (setPhase phase p) =
    (trimmed_key (rg_homeserver p), rg_pendingClassifyRequestId p, phase, rg_discoveredUrl p, rg_currentHomeserver p, rg_cachedPassword p)"
  unfolding setPhase_def core_simps by (simp add: core_def)

lemma core_homeserver: "core (homeserverChanged str p) = (trimmed_key str, 0, HomeserverPhase, [], rg_currentHomeserver p, rg_cachedPassword p)"
  by (simp add: homeserverChanged_def Let_def core_setPhase reg_hideError_def) (simp add: core_def)

lemma core_change: "core (changeHomeserver p) =
    (trimmed_key (rg_homeserver p), rg_pendingClassifyRequestId p, HomeserverPhase, rg_discoveredUrl p, rg_currentHomeserver p, rg_cachedPassword p)"
  using core_setPhase [of HomeserverPhase "reg_hideError p"] by (simp add: changeHomeserver_def core_def reg_hideError_def)

lemma core_classified: "core (onRegistrationClassified i status url p) =
    (if i = 0 \<or> i \<noteq> rg_pendingClassifyRequestId p then core p
     else if status = 1 then (trimmed_key (rg_homeserver p), 0, CredentialsPhase, url, rg_currentHomeserver p, rg_cachedPassword p)
     else (trimmed_key (rg_homeserver p), 0, if status = 2 then DelegatedPhase else HomeserverPhase, [], rg_currentHomeserver p, rg_cachedPassword p))"
  by (simp add: onRegistrationClassified_def Let_def core_setPhase reg_hideError_def)

lemma uia_stage_core:
  "core (fst (submitUiaStage auth p)) = core p"
  "RegisterAccount s u pw a \<in> set (snd (submitUiaStage auth p)) \<Longrightarrow> s = rg_currentHomeserver p \<and> pw = rg_cachedPassword p"
  by (simp_all add: submitUiaStage_def) (simp add: core_def)

lemma uia_click_core:
  "core (fst (uiaSubmitClicked p)) = core p"
  "RegisterAccount s u pw a \<in> set (snd (uiaSubmitClicked p)) \<Longrightarrow> s = rg_currentHomeserver p \<and> pw = rg_cachedPassword p"
  by (auto simp: uiaSubmitClicked_def uia_stage_core Let_def dest: uia_stage_core(2) split: if_splits)

lemma show_stage_core:
  "core (fst (showUiaStage stage p)) = core p"
  "RegisterAccount s u pw a \<in> set (snd (showUiaStage stage p)) \<Longrightarrow> s = rg_currentHomeserver p \<and> pw = rg_cachedPassword p"
proof -
  have hidden: "core (p\<lparr>rg_uiaShown := False\<rparr>) = core p" by (simp add: core_def)
  have shown: "core ((hideUiaWidgets p)\<lparr>rg_homeserverShown := False, rg_credentialsShown := False, rg_nextShown := False, rg_uiaShown := True\<rparr>) = core p"
    using core_simps(6) [of p] by (simp add: core_def)
  show "core (fst (showUiaStage stage p)) = core p"
    using hidden shown by (simp add: showUiaStage_def uia_stage_core Let_def) (simp add: core_def setUiaControlsEnabled_def reg_showError_def)
  show "RegisterAccount s u pw a \<in> set (snd (showUiaStage stage p)) \<Longrightarrow> s = rg_currentHomeserver p \<and> pw = rg_cachedPassword p"
    using core_eq_fields [of "setFieldsEnabled False (p\<lparr>rg_uiaShown := False\<rparr>)" p] hidden
    by (auto simp: showUiaStage_def Let_def dest!: uia_stage_core(2) split: if_splits)
qed

lemma challenge_core:
  "core (fst (onRegistrationChallenge ch p)) = core p"
  "RegisterAccount s u pw a \<in> set (snd (onRegistrationChallenge ch p)) \<Longrightarrow> s = rg_currentHomeserver p \<and> pw = rg_cachedPassword p"
proof -
  define q where "q = setFieldsEnabled True (p\<lparr>rg_submitting := False\<rparr>)"
  define r where "r = (if rg_uiaShown q then setUiaControlsEnabled True q else q)"
  define t where "t = (if ch_errcode ch \<noteq> [] \<or> ch_error ch \<noteq> [] then reg_showError (if ch_error ch = [] then ch_errcode ch else ch_error ch) r else r)
      \<lparr>rg_uiaSession := ch_session ch\<rparr>"
  have "core q = core p" using core_simps(4) [of True "p\<lparr>rg_submitting := False\<rparr>"] by (simp add: q_def core_def)
  then have r: "core r = core p" by (simp add: r_def)
  then have t: "core t = core p" by (simp add: t_def core_def reg_showError_def)
  have e: "onRegistrationChallenge ch p =
     (if \<not> rg_active r then (r, [])
      else if ch_session ch = [] then (reg_showError ''Server returned invalid authentication challenge'' t, [])
      else if nextStage ch = [] then (reg_showError ''No more stages to complete, but registration did not succeed'' t, [])
      else showUiaStage (nextStage ch) t)"
    by (simp add: onRegistrationChallenge_def Let_def q_def r_def t_def)
  show "core (fst (onRegistrationChallenge ch p)) = core p" using r t by (simp add: e show_stage_core)
  show "RegisterAccount s u pw a \<in> set (snd (onRegistrationChallenge ch p)) \<Longrightarrow> s = rg_currentHomeserver p \<and> pw = rg_cachedPassword p"
    using core_eq_fields [OF t] by (auto simp: e dest!: show_stage_core(2) split: if_splits)
qed

lemma submit_safe:
  assumes "safe_core (core p) outs es"
  shows "safe_core (core (fst (reg_submit secrets p))) (outs @ snd (reg_submit secrets p)) (es @ [e])"
proof -
  note quiet = safe_silent [OF assms, of e]
  show ?thesis
  proof (cases "rg_submitting p \<or> rg_checking p")
    case True
    then show ?thesis using quiet by (auto simp: reg_submit_def)
  next
    case busy: False
    show ?thesis
    proof (cases "rg_phase p")
      case HomeserverPhase
      have "core (fst (classifyServer p)) =
          (if trimmed_key (rg_homeserver p) = [] then core p
           else (trimmed_key (rg_homeserver p), rg_nextClassifyRequestId p, rg_phase p, rg_discoveredUrl p, rg_currentHomeserver p, rg_cachedPassword p))"
        by (simp add: classifyServer_def Let_def) (simp add: core_def reg_hideError_def)
      moreover have "snd (classifyServer p) = (if trimmed_key (rg_homeserver p) = [] then []
          else [ClassifyRegistration (trimmed_key (rg_homeserver p)) (rg_nextClassifyRequestId p)])"
        by (simp add: classifyServer_def Let_def)
      moreover have "safe_core (trimmed_key (rg_homeserver p), rg_nextClassifyRequestId p, rg_phase p, rg_discoveredUrl p, rg_currentHomeserver p, rg_cachedPassword p)
          (outs @ [ClassifyRegistration (trimmed_key (rg_homeserver p)) (rg_nextClassifyRequestId p)]) (es @ [e])"
        using safe_coreD [OF assms [unfolded core_def]] by (intro safe_coreI [OF assms]) simp_all
      ultimately show ?thesis using quiet busy HomeserverPhase by (simp add: reg_submit_def)
    next
      case DelegatedPhase
      with busy have "fst (reg_submit secrets p) = p" "\<And>s u pw a. RegisterAccount s u pw a \<notin> set (snd (reg_submit secrets p))"
        by (auto simp: reg_submit_def)
      then show ?thesis using safe_same [OF assms, of "snd (reg_submit secrets p)" e] by metis
    next
      case CredentialsPhase
      let ?sent = "(setFieldsEnabled False (reg_hideError p\<lparr>rg_submitting := True\<rparr>))
          \<lparr>rg_currentHomeserver := base_url p, rg_cachedUsername := trimmed_key (rg_username p), rg_cachedPassword := rg_password p\<rparr>"
      have sent: "core ?sent = (trimmed_key (rg_homeserver p), rg_pendingClassifyRequestId p, rg_phase p, rg_discoveredUrl p, base_url p, rg_password p)"
        by (simp add: core_def setFieldsEnabled_def reg_hideError_def Let_def)
      have "asked outs es (trimmed_key (rg_homeserver p)) (rg_discoveredUrl p)"
        using assms CredentialsPhase by (simp add: core_def)
      then have "vetted outs es (base_url p)" unfolding vetted_def base_url_target by blast
      then have "safe_core (core ?sent) (outs @ [RegisterAccount (base_url p) (trimmed_key (rg_username p)) (rg_password p) None]) (es @ [e])"
        using safe_coreD [OF assms [unfolded core_def]] vetted_more unfolding sent by (intro safe_coreI [OF assms]) auto
      moreover have "reg_submit secrets p = (?sent, [RegisterAccount (base_url p) (trimmed_key (rg_username p)) (rg_password p) None])
          \<or> core (fst (reg_submit secrets p)) = core p \<and> (\<forall>s u pw a. RegisterAccount s u pw a \<notin> set (snd (reg_submit secrets p)))"
        using busy CredentialsPhase by (cases secrets) (auto simp: reg_submit_def Let_def)
      ultimately show ?thesis using safe_same [OF assms, of "snd (reg_submit secrets p)" e] by (elim disjE) (simp, metis)
    qed
  qed
qed

lemma success_safe:
  assumes "safe_core (core p) outs es"
  shows "safe_core (core (fst (onRegistrationSuccess userId p))) (outs @ snd (onRegistrationSuccess userId p)) (es @ [e])"
proof -
  define q where "q = confirmChanged [] (reg_passwordChanged [] (hideUiaWidgets (reg_hideError (setFieldsEnabled True (p\<lparr>rg_submitting := False\<rparr>)))))"
  have "core q = core (p\<lparr>rg_submitting := False\<rparr>)" by (simp add: q_def)
  then have q: "core q = core p" by (simp add: core_def)
  have "core (fst (onRegistrationSuccess userId p)) = core (q\<lparr>rg_cachedUsername := [], rg_cachedPassword := []\<rparr>)"
    by (simp add: onRegistrationSuccess_def Let_def q_def)
  also have "\<dots> = (trimmed_key (rg_homeserver p), rg_pendingClassifyRequestId p, rg_phase p, rg_discoveredUrl p, rg_currentHomeserver p, [])"
    using core_eq_fields [OF q] by (simp add: core_def)
  finally have c: "core (fst (onRegistrationSuccess userId p)) = \<dots>" .
  have "\<And>s u pw a. RegisterAccount s u pw a \<notin> set (snd (onRegistrationSuccess userId p))"
    by (simp add: onRegistrationSuccess_def Let_def)
  then show ?thesis using safe_coreD [OF assms [unfolded core_def]] unfolding c by (intro safe_coreI [OF assms]) auto
qed

lemma username_core: "core (fst (usernameTimeout p)) = core p" "RegisterAccount s u pw a \<notin> set (snd (usernameTimeout p))"
  by (simp_all add: usernameTimeout_def startUsernameCheck_def Let_def) (simp add: core_def)

lemma classified_safe:
  assumes "safe_core (core p) outs es"
  shows "safe_core (core (onRegistrationClassified i status url p)) outs (es @ [Classified i status url])"
proof (cases "i = 0 \<or> i \<noteq> rg_pendingClassifyRequestId p")
  case True
  then show ?thesis using safe_silent [OF assms] by (simp add: core_classified)
next
  case False
  with assms have "ClassifyRegistration (trimmed_key (rg_homeserver p)) i \<in> set outs" by (simp add: core_def)
  then have "status = 1 \<Longrightarrow> asked outs (es @ [Classified i status url]) (trimmed_key (rg_homeserver p)) url" by (auto simp: asked_def)
  moreover have "rg_cachedPassword p \<noteq> [] \<Longrightarrow> vetted outs (es @ [Classified i status url]) (rg_currentHomeserver p)"
    using safe_coreD(3) [OF assms [unfolded core_def], of "[]"] by simp
  ultimately have "safe_core (core (onRegistrationClassified i status url p)) (outs @ []) (es @ [Classified i status url])"
    using False unfolding core_classified if_not_P [OF False]
    by (cases "status = 1"; simp only: simp_thms if_True if_False; intro safe_coreI [OF assms]) (auto split: if_splits)
  then show ?thesis by simp
qed

lemma history_safe: "safe_history h \<Longrightarrow> safe_history (history_step h e)"
proof -
  obtain p outs es where h: "h = (p, outs, es)" by (cases h)
  assume "safe_history h"
  then have safe: "safe_core (core p) outs es" by (simp add: safe_history_def h)
  note quiet = safe_silent [OF safe, of e]
  have keep: "safe_core (core q) (outs @ out) (es @ [e])"
    if "core q = core p" "\<And>s u pw a. RegisterAccount s u pw a \<in> set out \<Longrightarrow> s = rg_currentHomeserver p \<and> pw = rg_cachedPassword p" for q out
    using safe_same [OF safe, of out e] that by (fastforce simp: core_def)
  have "safe_core (core (fst (register_step p e))) (outs @ snd (register_step p e)) (es @ [e])"
  proof (cases e)
    case (EditHomeserver str)
    have "safe_core (core (homeserverChanged str p)) (outs @ []) (es @ [e])"
      unfolding core_homeserver using safe_coreD [OF safe [unfolded core_def], of "[]"] by (intro safe_coreI [OF safe]) auto
    with EditHomeserver quiet show ?thesis by (simp add: register_step_def)
  next
    case ClickChange
    have "safe_core (core (changeHomeserver p)) (outs @ []) (es @ [e])"
      unfolding core_change using safe_coreD [OF safe [unfolded core_def], of "[]"] by (intro safe_coreI [OF safe]) auto
    with ClickChange quiet show ?thesis by (simp add: register_step_def)
  next
    case (EditToken str)
    have "core (p\<lparr>rg_token := str\<rparr>) = core p" by (simp add: core_def)
    with EditToken quiet show ?thesis by (simp add: register_step_def)
  next
    case (PressReturn secrets)
    then show ?thesis using quiet submit_safe [OF safe, of secrets e] by (simp add: register_step_def onReturn_def)
  next
    case (ClickNext secrets)
    then show ?thesis using quiet submit_safe [OF safe, of secrets e] by (simp add: register_step_def)
  next
    case ClickSignIn
    then show ?thesis using quiet keep [of "reg_deactivate p" "[GoSignIn]"] by (simp add: register_step_def)
  next
    case ClickUia
    then show ?thesis using quiet keep [OF uia_click_core(1)] uia_click_core(2) [of _ _ _ _ p] by (simp add: register_step_def)
  next
    case UsernameTimer
    have "safe_core (core (fst (usernameTimeout p))) (outs @ snd (usernameTimeout p)) (es @ [e])"
      by (rule keep [OF username_core(1)]) (simp add: username_core(2))
    with UsernameTimer show ?thesis by (simp add: register_step_def)
  next
    case (Classified i status url)
    then show ?thesis using classified_safe [OF safe] by (simp add: register_step_def)
  next
    case (Succeeded userId)
    then show ?thesis using success_safe [OF safe] by (simp add: register_step_def)
  next
    case (Challenged ch)
    then show ?thesis using keep [OF challenge_core(1)] challenge_core(2) [of _ _ _ _ ch p] by (simp add: register_step_def)
  qed (use quiet in \<open>simp_all add: register_step_def\<close>)
  then show ?thesis by (simp add: safe_history_def history_step_def h split_beta Let_def)
qed

interpretation registration: event_machine history_step safe_history
  by unfold_locales (rule history_safe)

text \<open>C8: A password is only ever sent to a server that was classified for password registration, from an address that
  was in the field: to the url the classification gave, or without one to the address itself.\<close>

theorem password_goes_to_classified_server:
  assumes "RegisterAccount server user password auth \<in> set (fst (snd (register_run es)))" "password \<noteq> []"
  shows "\<exists>input url i. ClassifyRegistration input i \<in> set (fst (snd (register_run es))) \<and> Classified i 1 url \<in> set es
    \<and> server = target_url input url"
proof -
  have "core new_register_page = ([], 0, HomeserverPhase, [], [], [])"
    unfolding new_register_page_def core_simps core_setPhase by (simp add: blank_page_def trimmed_key_def)
  then have "safe_history (new_register_page, [], [])" by (simp add: safe_history_def)
  from registration.run_inv [OF this, of es] have "safe_history (register_run es)" by (simp add: register_run_def)
  moreover have "snd (snd (foldl history_step h es)) = snd (snd h) @ es" for h es
    by (induction es arbitrary: h) (simp_all add: history_step_def split_beta Let_def)
  then have "snd (snd (register_run es)) = es" by (simp add: register_run_def)
  ultimately have "vetted (fst (snd (register_run es))) es server"
    using assms by (cases "core (fst (register_run es))") (fastforce simp: safe_history_def)
  then show ?thesis by (auto simp: vetted_def asked_def)
qed

definition filled_form :: "register_event list" where
  "filled_form = [Activate, EditHomeserver ''s.org'', ClickNext SecretReady, Classified 1 1 ''https://m.s.org'', EditUsername ''u'',
     EditPassword ''pw'', EditConfirm ''pw'', ClickNext SecretReady]"

theorem password_goes_to_classified_server_witness:
  "\<exists>input url i. ClassifyRegistration input i \<in> set (fst (snd (register_run filled_form))) \<and> Classified i 1 url \<in> set filled_form
    \<and> ''https://m.s.org'' = target_url input url"
proof (rule password_goes_to_classified_server)
  show "RegisterAccount ''https://m.s.org'' ''u'' ''pw'' None \<in> set (fst (snd (register_run filled_form)))" by code_simp
qed simp

subsection \<open>Which stage comes next\<close>

lemma score_zero: "0 \<le> flow_score done_stages stages"
  by (simp add: flow_score_def Let_def)

lemma pick_best:
  "fst (foldl (pick_flow ds) b flows) \<le> fst b
   \<and> (\<forall>f\<in>set flows. fst (foldl (pick_flow ds) b flows) \<le> flow_score ds f)
   \<and> (foldl (pick_flow ds) b flows = b \<or> (\<exists>f\<in>set flows. foldl (pick_flow ds) b flows = (flow_score ds f, f)))"
proof (induction flows arbitrary: b)
  case (Cons f flows)
  have "fst (pick_flow ds b f) \<le> fst b \<and> fst (pick_flow ds b f) \<le> flow_score ds f \<and> (pick_flow ds b f = b \<or> pick_flow ds b f = (flow_score ds f, f))"
    by (simp add: pick_flow_def)
  with Cons.IH [of "pick_flow ds b f"] show ?case by (auto intro: order_trans)
qed simp

text \<open>C19: If the server offers a way whose stages left are all ones the page knows, fewer than a thousand of them, the
  stage shown next is one the page knows: the user is not led into a dead end.\<close>

theorem supported_way_taken:
  assumes "way \<in> set (ch_flows ch)" "set (remaining_stages (ch_completed ch) way) \<subseteq> set kSupportedStages"
    "length (remaining_stages (ch_completed ch) way) < 1000" "nextStage ch \<noteq> []"
  shows "nextStage ch \<in> set kSupportedStages"
proof -
  let ?score = "flow_score (ch_completed ch)"
  let ?best = "bestFlow (ch_completed ch) (ch_flows ch)"
  have way: "?score way < 1000"
    using assms(2, 3) by (simp add: flow_score_def Let_def filter_False subset_iff)
  obtain f where f: "foldl (pick_flow (ch_completed ch)) (2147483647, []) (ch_flows ch) = (?score f, f)" "?score f \<le> ?score way"
    using pick_best [of "ch_completed ch" "(2147483647, [])" "ch_flows ch"] assms(1) way by fastforce
  then have best: "?best = f" by (simp add: bestFlow_def)
  have "filter (\<lambda>s. s \<notin> set kSupportedStages) (remaining_stages (ch_completed ch) f) = []"
  proof (rule ccontr)
    assume "filter (\<lambda>s. s \<notin> set kSupportedStages) (remaining_stages (ch_completed ch) f) \<noteq> []"
    then have "1 \<le> length (filter (\<lambda>s. s \<notin> set kSupportedStages) (remaining_stages (ch_completed ch) f))"
      by (simp add: Suc_leI del: length_filter_le)
    then have "1000 \<le> ?score f" by (simp add: flow_score_def Let_def)
    with f(2) way show False by simp
  qed
  then have "set (remaining_stages (ch_completed ch) f) \<subseteq> set kSupportedStages" by (simp add: filter_empty_conv subset_iff)
  then show ?thesis using assms(4) by (auto simp: nextStage_def best split: list.splits)
qed

definition demo_challenge :: "qstring list \<Rightarrow> uia_challenge" where
  "demo_challenge completed = \<lparr> ch_errcode = [], ch_error = [], ch_session = ''x'',
     ch_flows = [[''m.login.recaptcha'', ''m.login.dummy''], [''m.login.terms'', ''m.login.dummy'']], ch_completed = completed \<rparr>"

theorem supported_way_taken_witness: "nextStage (demo_challenge []) \<in> set kSupportedStages"
proof (rule supported_way_taken)
  show "[''m.login.terms'', ''m.login.dummy''] \<in> set (ch_flows (demo_challenge []))" by (simp add: demo_challenge_def)
  show "set (remaining_stages (ch_completed (demo_challenge [])) [''m.login.terms'', ''m.login.dummy'']) \<subseteq> set kSupportedStages"
    "length (remaining_stages (ch_completed (demo_challenge [])) [''m.login.terms'', ''m.login.dummy'']) < 1000"
    by (simp_all add: demo_challenge_def remaining_stages_def kSupportedStages_def)
  show "nextStage (demo_challenge []) \<noteq> []" by code_simp
qed

subsection \<open>What goes wrong\<close>

text \<open>Terms, then dummy, then a failure: the form stays hidden, with no stage to show either.\<close>

lemma form_lost_after_dummy:
  "let p = fst (register_run (filled_form @ [Challenged (demo_challenge []), ClickUia,
       Challenged (demo_challenge [''m.login.terms'']), Failed ''M_LIMIT_EXCEEDED: slow down'']))
   in \<not> rg_homeserverShown p \<and> \<not> rg_credentialsShown p \<and> \<not> rg_nextShown p \<and> \<not> rg_uiaShown p \<and> \<not> rg_submitting p"
  by code_simp

text \<open>\<open>Change\<close> stays on the page below a stage: the form comes back beside it, and both can be sent.\<close>

definition sent_registrations :: "register_output list \<Rightarrow> nat" where
  "sent_registrations outs = length (filter (\<lambda>x. case x of RegisterAccount s u pw a \<Rightarrow> True | _ \<Rightarrow> False) outs)"

lemma two_registrations_at_once:
  "sent_registrations (fst (snd (register_run (filled_form @ [Challenged (demo_challenge []), ClickChange, ClickNext SecretReady,
     Classified 2 1 ''https://m.s.org'', ClickNext SecretReady, ClickUia])))) = 3"
  by code_simp

text \<open>The check of a name is bound to the name, not to the server: the answer of the old server counts for the new one.\<close>

lemma answer_of_another_server:
  "let (p, outs, es) = register_run [Activate, EditHomeserver ''a.org'', ClickNext SecretReady, Classified 1 1 ''https://a.org'',
       EditUsername ''u'', UsernameTimer, ClickChange, EditHomeserver ''b.org'', ClickNext SecretReady, Classified 2 1 ''https://b.org'',
       Availability 1]
   in rg_discoveredUrl p = ''https://b.org'' \<and> rg_error p = Some ''Username already taken''
     \<and> CheckUsernameAvailable ''https://b.org'' ''u'' \<notin> set outs"
  by code_simp

text \<open>The terms of a server are put into rich text as they are: a name can hold a link of its own.\<close>

lemma terms_can_inject_links:
  "termsLabel [(''Terms</a><a href=file:///x>here'', ''https://s.org'')]
   = ''By continuing, you agree to: <a href='' @ [CHR 0x22] @ ''https://s.org'' @ [CHR 0x22] @ ''>Terms</a><a href=file:///x>here</a>''"
  by code_simp

end
