(* ===== verification/Sign_In_Pages.thy ===== *)
theory Sign_In_Pages imports Register_Page begin

section \<open>Signing in and asking for a new password\<close>

text \<open>
  \<^verbatim>\<open>src/src/intro/intro_login.cpp\<close> and \<^verbatim>\<open>src/src/intro/intro_forgot_password.cpp\<close>: the page that signs in, which
  looks up the server behind the typed address while the user types, and the page that has a reset
  mail sent and then sets a new password with the token the server issued.  As in \<open>Register_Page\<close> a
  widget is the flags and texts the code sets and reads, and a user edits and clicks only what is
  shown and enabled.  Geometry, focus and the toggles that show a password are left out.
\<close>

subsection \<open>Sign in\<close>

datatype login_output =
    DiscoverHomeserver qstring nat
  | SendLogin qstring qstring qstring
  | GoNext
  | GoRegister
  | GoForgotPassword
  | HoldForMasterPassword

record login_page =
  lg_homeserver :: qstring
  lg_username :: qstring
  lg_password :: qstring
  lg_fieldsEnabled :: bool
  lg_linksEnabled :: bool
  lg_nextEnabled :: bool
  lg_error :: "qstring option"
  lg_discoveryTimer :: bool
  lg_initialTimer :: bool
  lg_submitting :: bool
  lg_discovering :: bool
  lg_discoveredUrl :: qstring
  lg_pendingDiscoveryRequestId :: nat
  lg_nextDiscoveryRequestId :: nat

definition allFieldsFilled :: "login_page \<Rightarrow> bool" where
  "allFieldsFilled p \<longleftrightarrow> trimmed_key (lg_homeserver p) \<noteq> [] \<and> trimmed_key (lg_username p) \<noteq> [] \<and> lg_password p \<noteq> []"

definition lg_updateSubmitEnabled :: "login_page \<Rightarrow> login_page" where
  "lg_updateSubmitEnabled p = p\<lparr>lg_nextEnabled := (\<not> lg_submitting p \<and> allFieldsFilled p)\<rparr>"

definition new_login_page :: login_page where
  "new_login_page = lg_updateSubmitEnabled \<lparr> lg_homeserver = [], lg_username = [], lg_password = [], lg_fieldsEnabled = True,
     lg_linksEnabled = True, lg_nextEnabled = True, lg_error = None, lg_discoveryTimer = False, lg_initialTimer = True,
     lg_submitting = False, lg_discovering = False, lg_discoveredUrl = [], lg_pendingDiscoveryRequestId = 0,
     lg_nextDiscoveryRequestId = 1 \<rparr>"

text \<open>Both slots of \<open>textChanged\<close>, in the order they are connected.\<close>

definition lg_homeserverChanged :: "qstring \<Rightarrow> login_page \<Rightarrow> login_page" where
  "lg_homeserverChanged str p =
     lg_updateSubmitEnabled (p\<lparr>lg_homeserver := str, lg_discoveredUrl := [], lg_pendingDiscoveryRequestId := 0, lg_discoveryTimer := True\<rparr>)"

definition lg_usernameChanged :: "qstring \<Rightarrow> login_page \<Rightarrow> login_page" where
  "lg_usernameChanged str p = lg_updateSubmitEnabled (p\<lparr>lg_username := str\<rparr>)"

definition lg_passwordChanged :: "qstring \<Rightarrow> login_page \<Rightarrow> login_page" where
  "lg_passwordChanged str p = lg_updateSubmitEnabled (p\<lparr>lg_password := str\<rparr>)"

definition lg_activate :: "login_page \<Rightarrow> login_page" where
  "lg_activate p = lg_updateSubmitEnabled (p\<lparr>lg_nextEnabled := True\<rparr>)"

text \<open>The domain that is looked up: without scheme and without trailing slashes.\<close>

definition without_scheme :: "qstring \<Rightarrow> qstring" where
  "without_scheme domain =
     (if startsWith ''https://'' domain then drop 8 domain else if startsWith ''http://'' domain then drop 7 domain else domain)"

definition chop_slashes :: "qstring \<Rightarrow> qstring" where
  "chop_slashes domain = rev (dropWhile (\<lambda>c. c = CHR ''/'') (rev domain))"

definition startDiscovery :: "login_page \<Rightarrow> login_page \<times> login_output list" where
  "startDiscovery p =
     (let domain = trimmed_key (lg_homeserver p)
      in if domain = [] then (p, [])
         else (p\<lparr>lg_discovering := True, lg_nextDiscoveryRequestId := lg_nextDiscoveryRequestId p + 1,
                 lg_pendingDiscoveryRequestId := lg_nextDiscoveryRequestId p\<rparr>,
               [DiscoverHomeserver (chop_slashes (without_scheme domain)) (lg_nextDiscoveryRequestId p)]))"

definition onHomeserverDiscovered :: "nat \<Rightarrow> bool \<Rightarrow> qstring \<Rightarrow> login_page \<Rightarrow> login_page" where
  "onHomeserverDiscovered requestId success url p =
     (if requestId = 0 \<or> requestId \<noteq> lg_pendingDiscoveryRequestId p then p
      else p\<lparr>lg_pendingDiscoveryRequestId := 0, lg_discovering := False,
             lg_discoveredUrl := (if success \<and> url \<noteq> [] then url else [])\<rparr>)"

definition lg_setFieldsEnabled :: "bool \<Rightarrow> login_page \<Rightarrow> login_page" where
  "lg_setFieldsEnabled enabled p =
     p\<lparr>lg_fieldsEnabled := enabled, lg_nextEnabled := (enabled \<and> allFieldsFilled p), lg_linksEnabled := enabled\<rparr>"

definition with_scheme :: "qstring \<Rightarrow> qstring" where
  "with_scheme homeserver = (if \<not> startsWith ''http'' homeserver then ''https://'' @ homeserver else homeserver)"

definition login_url :: "login_page \<Rightarrow> qstring" where
  "login_url p = (if lg_discoveredUrl p \<noteq> [] then lg_discoveredUrl p else with_scheme (trimmed_key (lg_homeserver p)))"

definition lg_submit :: "secret_setup \<Rightarrow> login_page \<Rightarrow> login_page \<times> login_output list" where
  "lg_submit secrets p =
     (if lg_submitting p then (p, [])
      else if trimmed_key (lg_homeserver p) = [] then (p\<lparr>lg_error := Some ''Please enter a homeserver''\<rparr>, [])
      else if trimmed_key (lg_username p) = [] then (p\<lparr>lg_error := Some ''Please enter your username''\<rparr>, [])
      else if lg_password p = [] then (p\<lparr>lg_error := Some ''Please enter your password''\<rparr>, [])
      else case secrets of
        NeedsMasterPassword \<Rightarrow> (p, [HoldForMasterPassword])
      | KeychainError \<Rightarrow> (p\<lparr>lg_error := Some ''Couldn't access your keychain. Please try again''\<rparr>, [])
      | SecretReady \<Rightarrow> (lg_setFieldsEnabled False (p\<lparr>lg_error := None, lg_submitting := True\<rparr>),
           [SendLogin (login_url p) (trimmed_key (lg_username p)) (lg_password p)]))"

definition onLoginResult :: "bool \<Rightarrow> login_page \<Rightarrow> login_page \<times> login_output list" where
  "onLoginResult success p =
     (let p1 = lg_setFieldsEnabled True (p\<lparr>lg_submitting := False\<rparr>)
      in if success then (p1\<lparr>lg_error := None\<rparr>, [GoNext])
         else (p1\<lparr>lg_error := Some ''Sign in failed. Please check your credentials and homeserver''\<rparr>, []))"

definition lg_onReturn :: "secret_setup \<Rightarrow> login_page \<Rightarrow> login_page \<times> login_output list" where
  "lg_onReturn secrets p = (if allFieldsFilled p then lg_submit secrets p else (p, []))"

datatype login_event =
    TypeHomeserver qstring
  | TypeUsername qstring
  | TypePassword qstring
  | ReturnInField secret_setup
  | ClickSignInButton secret_setup
  | ClickCreateAccount
  | ClickForgotPassword
  | DiscoveryTimeout
  | InitialTimeout
  | ShowLogin
  | Discovered nat bool qstring
  | LoginAnswered bool

definition login_step :: "login_page \<Rightarrow> login_event \<Rightarrow> login_page \<times> login_output list" where
  "login_step p e = (case e of
      TypeHomeserver str \<Rightarrow> (if lg_fieldsEnabled p \<and> str \<noteq> lg_homeserver p then lg_homeserverChanged str p else p, [])
    | TypeUsername str \<Rightarrow> (if lg_fieldsEnabled p then lg_usernameChanged str p else p, [])
    | TypePassword str \<Rightarrow> (if lg_fieldsEnabled p then lg_passwordChanged str p else p, [])
    | ReturnInField secrets \<Rightarrow> if lg_fieldsEnabled p then lg_onReturn secrets p else (p, [])
    | ClickSignInButton secrets \<Rightarrow> if lg_nextEnabled p then lg_submit secrets p else (p, [])
    | ClickCreateAccount \<Rightarrow> (p, if lg_linksEnabled p then [GoRegister] else [])
    | ClickForgotPassword \<Rightarrow> (p, if lg_linksEnabled p then [GoForgotPassword] else [])
    | DiscoveryTimeout \<Rightarrow> if lg_discoveryTimer p then startDiscovery (p\<lparr>lg_discoveryTimer := False\<rparr>) else (p, [])
    | InitialTimeout \<Rightarrow> if lg_initialTimer p then startDiscovery (p\<lparr>lg_initialTimer := False\<rparr>) else (p, [])
    | ShowLogin \<Rightarrow> (lg_activate p, [])
    | Discovered i success url \<Rightarrow> (onHomeserverDiscovered i success url p, [])
    | LoginAnswered success \<Rightarrow> onLoginResult success p)"

text \<open>A run with all it called and emitted, and its events.\<close>

definition login_history ::
  "login_page \<times> login_output list \<times> login_event list \<Rightarrow> login_event \<Rightarrow> login_page \<times> login_output list \<times> login_event list" where
  "login_history h e = (let (p, outs, es) = h; (p2, out) = login_step p e in (p2, outs @ out, es @ [e]))"

definition login_run :: "login_event list \<Rightarrow> login_page \<times> login_output list \<times> login_event list" where
  "login_run = foldl login_history (new_login_page, [], [])"

subsection \<open>A new password\<close>

datatype forgot_state = EnterEmail | WaitingForEmail | EnterNewPassword

datatype forgot_output =
    RequestPasswordReset qstring qstring
  | ResetPassword qstring qstring qstring qstring
  | ProbeResetPage qstring nat
  | PasswordResetSuccess
  | BackToSignIn

record forgot_page =
  fp_homeserver :: qstring
  fp_email :: qstring
  fp_newPassword :: qstring
  fp_confirm :: qstring
  fp_addressShown :: bool
  fp_passwordsShown :: bool
  fp_stripShown :: bool
  fp_sentAddress :: qstring
  fp_confirmedShown :: bool
  fp_nextShown :: bool
  fp_nextText :: qstring
  fp_title :: qstring
  fp_description :: qstring
  fp_enabled :: bool
  fp_nextEnabled :: bool
  fp_error :: "qstring option"
  fp_state :: forgot_state
  fp_server :: qstring
  fp_resetPageRequestId :: nat
  fp_sid :: qstring
  fp_clientSecret :: qstring
  fp_submitting :: bool
  fp_onScreen :: bool

definition fp_updateSubmitEnabled :: "forgot_page \<Rightarrow> forgot_page" where
  "fp_updateSubmitEnabled p =
     (if fp_submitting p then p
      else case fp_state p of
        EnterEmail \<Rightarrow> p\<lparr>fp_nextEnabled := (trimmed_key (fp_homeserver p) \<noteq> [] \<and> trimmed_key (fp_email p) \<noteq> [])\<rparr>
      | EnterNewPassword \<Rightarrow> p\<lparr>fp_nextEnabled := (fp_newPassword p \<noteq> [] \<and> fp_confirm p \<noteq> [])\<rparr>
      | WaitingForEmail \<Rightarrow> p\<lparr>fp_nextEnabled := True\<rparr>)"

definition fp_nextButtonText :: "forgot_page \<Rightarrow> qstring" where
  "fp_nextButtonText p = (if fp_state p = EnterNewPassword then ''Reset password'' else ''Send reset link'')"

definition new_forgot_page :: forgot_page where
  "new_forgot_page = fp_updateSubmitEnabled \<lparr> fp_homeserver = [], fp_email = [], fp_newPassword = [], fp_confirm = [],
     fp_addressShown = True, fp_passwordsShown = False, fp_stripShown = False, fp_sentAddress = [], fp_confirmedShown = False,
     fp_nextShown = True, fp_nextText = [], fp_title = ''Reset password'', fp_description = [], fp_enabled = True,
     fp_nextEnabled = True, fp_error = None, fp_state = EnterEmail, fp_server = [], fp_resetPageRequestId = 0, fp_sid = [],
     fp_clientSecret = [], fp_submitting = False, fp_onScreen = False \<rparr>"

definition fp_setFieldsEnabled :: "bool \<Rightarrow> forgot_page \<Rightarrow> forgot_page" where
  "fp_setFieldsEnabled enabled p =
     (if enabled then fp_updateSubmitEnabled (p\<lparr>fp_enabled := True\<rparr>) else p\<lparr>fp_enabled := False, fp_nextEnabled := False\<rparr>)"

text \<open>Setting a field to another text emits \<open>textChanged\<close>.\<close>

definition fp_setNewPassword :: "qstring \<Rightarrow> forgot_page \<Rightarrow> forgot_page" where
  "fp_setNewPassword str p = (if str = fp_newPassword p then p else fp_updateSubmitEnabled (p\<lparr>fp_newPassword := str\<rparr>))"

definition fp_setConfirm :: "qstring \<Rightarrow> forgot_page \<Rightarrow> forgot_page" where
  "fp_setConfirm str p = (if str = fp_confirm p then p else fp_updateSubmitEnabled (p\<lparr>fp_confirm := str\<rparr>))"

definition setState :: "forgot_state \<Rightarrow> forgot_page \<Rightarrow> forgot_page" where
  "setState st p =
     (let p1 = p\<lparr>fp_state := st\<rparr>;
          p2 = (case st of
            EnterEmail \<Rightarrow> p1\<lparr>fp_stripShown := False, fp_title := ''Reset password'', fp_description := [], fp_addressShown := True,
              fp_passwordsShown := False, fp_confirmedShown := False, fp_nextShown := True, fp_nextText := fp_nextButtonText p1\<rparr>
          | WaitingForEmail \<Rightarrow> p1\<lparr>fp_title := ''Reset password'', fp_description := [], fp_addressShown := True,
              fp_passwordsShown := False, fp_sentAddress := trimmed_key (fp_email p1), fp_stripShown := True,
              fp_confirmedShown := True, fp_nextShown := False\<rparr>
          | EnterNewPassword \<Rightarrow> (fp_setConfirm [] (fp_setNewPassword [] (p1\<lparr>fp_stripShown := False, fp_title := ''Set new password'',
              fp_description := ''Choose a new password for your account'', fp_addressShown := False, fp_passwordsShown := True\<rparr>)))
              \<lparr>fp_confirmedShown := False, fp_nextShown := True, fp_nextText := ''Reset Password''\<rparr>)
      in fp_updateSubmitEnabled (p2\<lparr>fp_error := None\<rparr>))"

definition fp_activate :: "forgot_page \<Rightarrow> forgot_page" where
  "fp_activate p = fp_updateSubmitEnabled (p\<lparr>fp_onScreen := True, fp_nextText := fp_nextButtonText p, fp_nextEnabled := True\<rparr>)"

definition fp_submit :: "forgot_page \<Rightarrow> forgot_page \<times> forgot_output list" where
  "fp_submit p =
     (if fp_submitting p then (p, [])
      else case fp_state p of
        EnterEmail \<Rightarrow>
          let homeserver = trimmed_key (fp_homeserver p); email = trimmed_key (fp_email p)
          in if homeserver = [] then (p\<lparr>fp_error := Some ''Please enter a homeserver''\<rparr>, [])
             else if email = [] then (p\<lparr>fp_error := Some ''Please enter your email address''\<rparr>, [])
             else ((fp_setFieldsEnabled False (p\<lparr>fp_error := None, fp_submitting := True\<rparr>))
                     \<lparr>fp_nextText := ''Sending...'', fp_server := with_scheme homeserver\<rparr>,
                   [RequestPasswordReset (with_scheme homeserver) email])
      | EnterNewPassword \<Rightarrow>
          if fp_newPassword p = [] then (p\<lparr>fp_error := Some ''Please enter a new password''\<rparr>, [])
          else if fp_newPassword p \<noteq> fp_confirm p then (p\<lparr>fp_error := Some ''Passwords do not match''\<rparr>, [])
          else ((fp_setFieldsEnabled False (p\<lparr>fp_error := None, fp_submitting := True\<rparr>))\<lparr>fp_nextText := ''Resetting...''\<rparr>,
                [ResetPassword (fp_server p) (fp_newPassword p) (fp_sid p) (fp_clientSecret p)])
      | WaitingForEmail \<Rightarrow> (p, []))"

definition delegated_notice :: qstring where
  "delegated_notice = ''This homeserver doesn't support password reset from the app. Reset your password on its website''"

definition showDelegatedResetNotice :: "forgot_page \<Rightarrow> forgot_page \<times> forgot_output list" where
  "showDelegatedResetNotice p =
     (let p1 = p\<lparr>fp_error := Some delegated_notice\<rparr>
      in if fp_server p1 = [] then (p1, [])
         else (p1\<lparr>fp_resetPageRequestId := fp_resetPageRequestId p1 + 1\<rparr>, [ProbeResetPage (fp_server p1) (fp_resetPageRequestId p1 + 1)]))"

definition onPasswordResetTokenSent :: "bool \<Rightarrow> qstring \<Rightarrow> qstring \<Rightarrow> qstring \<Rightarrow> forgot_page \<Rightarrow> forgot_page \<times> forgot_output list" where
  "onPasswordResetTokenSent success sid clientSecret err p =
     (let p0 = fp_setFieldsEnabled True (p\<lparr>fp_submitting := False\<rparr>);
          p1 = p0\<lparr>fp_nextText := fp_nextButtonText p0\<rparr>
      in if success then (setState WaitingForEmail (p1\<lparr>fp_sid := sid, fp_clientSecret := clientSecret\<rparr>), [])
         else if has_part ''M_THREEPID_NOT_FOUND'' err then (p1\<lparr>fp_error := Some ''No account is linked to that email address''\<rparr>, [])
         else if has_part ''M_SERVER_NOT_TRUSTED'' err
         then (p1\<lparr>fp_error := Some ''The identity server is not trusted by the homeserver''\<rparr>, [])
         else if has_part ''M_UNRECOGNIZED'' err \<or> has_part ''M_FORBIDDEN'' err then showDelegatedResetNotice p1
         else let msg = friendlyError err (trimmed_key (fp_homeserver p1))
              in (p1\<lparr>fp_error := Some (if msg = [] then ''Couldn't send the reset email.'' else msg)\<rparr>, []))"

text \<open>\<open>QString::toHtmlEscaped\<close>, and the notice with the page of the server as a link in the colour of the theme.\<close>

fun html_escaped :: "qstring \<Rightarrow> qstring" where
  "html_escaped [] = []"
| "html_escaped (c # cs) =
     (if c = CHR ''<'' then ''&lt;'' else if c = CHR ''>'' then ''&gt;'' else if c = CHR ''&'' then ''&amp;''
      else if c = CHR 0x22 then ''&quot;'' else [c]) @ html_escaped cs"

definition delegated_link :: "qstring \<Rightarrow> qstring \<Rightarrow> qstring" where
  "delegated_link url colour = ''This homeserver doesn't support password reset from the app.<br><a href='' @ [CHR 0x22] @ html_escaped url
     @ [CHR 0x22] @ '' style='' @ [CHR 0x22] @ ''color:'' @ colour @ '';text-decoration:none;'' @ [CHR 0x22]
     @ ''>Reset your password on its website</a>''"

definition onPasswordResetPageProbed :: "qstring \<Rightarrow> nat \<Rightarrow> bool \<Rightarrow> qstring \<Rightarrow> forgot_page \<Rightarrow> forgot_page" where
  "onPasswordResetPageProbed colour requestId available url p =
     (if requestId \<noteq> fp_resetPageRequestId p \<or> \<not> available \<or> url = [] then p
      else if fp_error p = None \<or> \<not> fp_onScreen p then p
      else p\<lparr>fp_error := Some (delegated_link url colour)\<rparr>)"

definition onPasswordResetComplete :: "bool \<Rightarrow> qstring \<Rightarrow> forgot_page \<Rightarrow> forgot_page \<times> forgot_output list" where
  "onPasswordResetComplete success err p =
     (let p1 = fp_setFieldsEnabled True (p\<lparr>fp_submitting := False\<rparr>)
      in if success
         then ((fp_setConfirm [] (fp_setNewPassword [] (p1\<lparr>fp_error := None\<rparr>)))\<lparr>fp_sid := [], fp_clientSecret := [], fp_onScreen := False\<rparr>,
               [PasswordResetSuccess])
         else let p2 = p1\<lparr>fp_nextText := ''Reset Password''\<rparr>
              in if has_part ''M_UNAUTHORIZED'' err
                 then (p2\<lparr>fp_error := Some ''Email verification not completed. Please check your email and try again''\<rparr>, [])
                 else if has_part ''M_UNRECOGNIZED'' err \<or> has_part ''M_FORBIDDEN'' err then showDelegatedResetNotice p2
                 else let msg = friendlyError err (fp_server p2)
                      in (p2\<lparr>fp_error := Some (if msg = [] then ''Couldn't reset your password.'' else msg)\<rparr>, []))"

text \<open>What the bridge passes on of the answer to \<open>resetPassword\<close>.\<close>

definition bridge_reset_error :: "bool \<Rightarrow> qstring" where
  "bridge_reset_error success = (if success then [] else ''Password reset failed'')"

text \<open>\<open>fp_onScreen\<close> is whether \<open>IntroWidget\<close> shows this page; it shows the sign-in page at \<open>goSignIn\<close> and
  \<open>passwordResetSuccess\<close>.\<close>

datatype forgot_event =
    TypeServer qstring
  | TypeEmail qstring
  | TypeNewPassword qstring
  | TypeConfirm qstring
  | ReturnInEmail
  | ReturnInConfirm
  | ClickNextButton
  | ClickResend
  | ClickEmailConfirmed
  | ClickBackToSignIn
  | ShowForgot
  | TokenSent bool qstring qstring qstring
  | PageProbed qstring nat bool qstring
  | ResetAnswered bool

definition forgot_step :: "forgot_page \<Rightarrow> forgot_event \<Rightarrow> forgot_page \<times> forgot_output list" where
  "forgot_step p e =
     (let here = fp_onScreen p; address = here \<and> fp_addressShown p \<and> fp_enabled p; passwords = here \<and> fp_passwordsShown p \<and> fp_enabled p in
      case e of
        TypeServer str \<Rightarrow> (if address then fp_updateSubmitEnabled (p\<lparr>fp_homeserver := str\<rparr>) else p, [])
      | TypeEmail str \<Rightarrow> (if address then fp_updateSubmitEnabled (p\<lparr>fp_email := str\<rparr>) else p, [])
      | TypeNewPassword str \<Rightarrow> (if passwords then fp_setNewPassword str p else p, [])
      | TypeConfirm str \<Rightarrow> (if passwords then fp_setConfirm str p else p, [])
      | ReturnInEmail \<Rightarrow> if address then fp_submit p else (p, [])
      | ReturnInConfirm \<Rightarrow> if passwords then fp_submit p else (p, [])
      | ClickNextButton \<Rightarrow> if here \<and> fp_nextShown p \<and> fp_nextEnabled p then fp_submit p else (p, [])
      | ClickResend \<Rightarrow> if here \<and> fp_stripShown p then fp_submit p else (p, [])
      | ClickEmailConfirmed \<Rightarrow> (if here \<and> fp_confirmedShown p \<and> fp_enabled p then setState EnterNewPassword p else p, [])
      | ClickBackToSignIn \<Rightarrow> if here \<and> fp_enabled p then (p\<lparr>fp_onScreen := False\<rparr>, [BackToSignIn]) else (p, [])
      | ShowForgot \<Rightarrow> (fp_activate p, [])
      | TokenSent success sid clientSecret err \<Rightarrow> onPasswordResetTokenSent success sid clientSecret err p
      | PageProbed colour i available url \<Rightarrow> (onPasswordResetPageProbed colour i available url p, [])
      | ResetAnswered success \<Rightarrow> onPasswordResetComplete success (bridge_reset_error success) p)"

definition forgot_history ::
  "forgot_page \<times> forgot_output list \<times> forgot_event list \<Rightarrow> forgot_event \<Rightarrow> forgot_page \<times> forgot_output list \<times> forgot_event list" where
  "forgot_history h e = (let (p, outs, es) = h; (p2, out) = forgot_step p e in (p2, outs @ out, es @ [e]))"

definition forgot_run :: "forgot_event list \<Rightarrow> forgot_page \<times> forgot_output list \<times> forgot_event list" where
  "forgot_run = foldl forgot_history (new_forgot_page, [], [])"

end
