(* ===== verification/Sign_In_Properties.thy ===== *)
theory Sign_In_Properties imports Sign_In_Pages begin

section \<open>Signing in and asking for a new password: properties\<close>

text \<open>
  A password typed for signing in goes to the server found for the address in the field, or to
  that address itself; one request is under way at a time; a new password is set with a token the
  server issued.  Then what the reset page cannot do: send a second mail, start over, or say that
  the address is not confirmed yet.
\<close>

subsection \<open>Where the password goes\<close>

text \<open>The domain that is looked up for an address, and that a server is the answer for it.\<close>

definition lookup_domain :: "qstring \<Rightarrow> qstring" where
  "lookup_domain address = chop_slashes (without_scheme (trimmed_key address))"

definition found_for :: "login_output list \<Rightarrow> login_event list \<Rightarrow> qstring \<Rightarrow> qstring \<Rightarrow> bool" where
  "found_for outs es address url \<longleftrightarrow>
     (\<exists>i. DiscoverHomeserver (lookup_domain address) i \<in> set outs \<and> Discovered i True url \<in> set es)"

text \<open>No id is used for two domains.\<close>

definition one_domain :: "login_output list \<Rightarrow> bool" where
  "one_domain outs \<longleftrightarrow> (\<forall>d d2 i. DiscoverHomeserver d i \<in> set outs \<and> DiscoverHomeserver d2 i \<in> set outs \<longrightarrow> d = d2)"

lemma one_domain_append:
  "one_domain outs \<Longrightarrow> (\<And>d i. DiscoverHomeserver d i \<notin> set out) \<Longrightarrow> one_domain (outs @ out)"
  "one_domain outs \<Longrightarrow> (\<And>d. DiscoverHomeserver d i \<notin> set outs) \<Longrightarrow> one_domain (outs @ [DiscoverHomeserver address i])"
  unfolding one_domain_def set_append by (blast, auto)

lemma one_domainD:
  "one_domain outs \<Longrightarrow> DiscoverHomeserver d i \<in> set outs \<Longrightarrow> DiscoverHomeserver d2 i \<in> set outs \<longleftrightarrow> d2 = d"
  unfolding one_domain_def by blast

text \<open>What the page remembers of its lookups.\<close>

definition lookup_state :: "login_page \<Rightarrow> qstring \<times> nat \<times> nat \<times> qstring" where
  "lookup_state p = (lg_homeserver p, lg_pendingDiscoveryRequestId p, lg_nextDiscoveryRequestId p, lg_discoveredUrl p)"

fun good_lookups :: "qstring \<times> nat \<times> nat \<times> qstring \<Rightarrow> login_output list \<Rightarrow> login_event list \<Rightarrow> bool" where
  "good_lookups (address, pending, nextId, url) outs es \<longleftrightarrow>
     0 < nextId
     \<and> (pending \<noteq> 0 \<longrightarrow> DiscoverHomeserver (lookup_domain address) pending \<in> set outs)
     \<and> (url \<noteq> [] \<longrightarrow> found_for outs es address url)
     \<and> (\<forall>d i. DiscoverHomeserver d i \<in> set outs \<longrightarrow> 0 < i \<and> i < nextId)
     \<and> one_domain outs"

definition good_login :: "login_page \<times> login_output list \<times> login_event list \<Rightarrow> bool" where
  "good_login h \<longleftrightarrow> good_lookups (lookup_state (fst h)) (fst (snd h)) (snd (snd h))"

lemma found_more: "found_for outs es address url \<Longrightarrow> found_for (outs @ outs2) (es @ es2) address url"
  by (auto simp: found_for_def)

lemma lookups_quiet:
  assumes "good_lookups s outs es" "\<And>d i. DiscoverHomeserver d i \<notin> set out"
  shows "good_lookups s (outs @ out) (es @ [e])"
proof -
  obtain address pending nextId url where s: "s = (address, pending, nextId, url)" by (cases s)
  show ?thesis using assms unfolding s by (auto intro: found_more one_domain_append)
qed

lemma lookup_state_simps [simp]:
  "lookup_state (lg_updateSubmitEnabled p) = lookup_state p"
  "lookup_state (lg_usernameChanged str p) = lookup_state p"
  "lookup_state (lg_passwordChanged str p) = lookup_state p"
  "lookup_state (lg_activate p) = lookup_state p"
  "lookup_state (fst (lg_submit secrets p)) = lookup_state p"
  "lookup_state (fst (lg_onReturn secrets p)) = lookup_state p"
  "lookup_state (fst (onLoginResult success p)) = lookup_state p"
  "lookup_state (lg_homeserverChanged str p) = (str, 0, lg_nextDiscoveryRequestId p, [])"
  by (cases secrets; simp add: lookup_state_def lg_updateSubmitEnabled_def lg_usernameChanged_def lg_passwordChanged_def lg_activate_def
    lg_submit_def lg_onReturn_def onLoginResult_def lg_setFieldsEnabled_def lg_homeserverChanged_def Let_def)+

lemma no_lookup_simps [simp]:
  "DiscoverHomeserver d i \<notin> set (snd (lg_submit secrets p))"
  "DiscoverHomeserver d i \<notin> set (snd (lg_onReturn secrets p))"
  "DiscoverHomeserver d i \<notin> set (snd (onLoginResult success p))"
  by (cases secrets; simp add: lg_submit_def lg_onReturn_def onLoginResult_def Let_def)+

lemma discovery_good:
  assumes "good_lookups (lookup_state p) outs es"
  shows "good_lookups (lookup_state (fst (startDiscovery p))) (outs @ snd (startDiscovery p)) (es @ [e])"
proof (cases "trimmed_key (lg_homeserver p) = []")
  case True
  then show ?thesis using lookups_quiet [OF assms, of "[]" e] by (simp add: startDiscovery_def)
next
  case False
  let ?i = "lg_nextDiscoveryRequestId p"
  have e: "lookup_state (fst (startDiscovery p)) = (lg_homeserver p, ?i, ?i + 1, lg_discoveredUrl p)"
    "snd (startDiscovery p) = [DiscoverHomeserver (lookup_domain (lg_homeserver p)) ?i]"
    using False by (simp_all add: startDiscovery_def Let_def lookup_state_def lookup_domain_def)
  have "DiscoverHomeserver d ?i \<notin> set outs" for d using assms by (auto simp: lookup_state_def)
  then show ?thesis using assms unfolding e by (auto simp: lookup_state_def less_Suc_eq intro: found_more one_domain_append)
qed

lemma discovered_good:
  assumes "good_lookups (lookup_state p) outs es"
  shows "good_lookups (lookup_state (onHomeserverDiscovered i success url p)) outs (es @ [Discovered i success url])"
proof (cases "i = 0 \<or> i \<noteq> lg_pendingDiscoveryRequestId p")
  case True
  then show ?thesis using lookups_quiet [OF assms, of "[]"] by (simp add: onHomeserverDiscovered_def)
next
  case False
  then have "lookup_state (onHomeserverDiscovered i success url p) =
      (lg_homeserver p, 0, lg_nextDiscoveryRequestId p, if success \<and> url \<noteq> [] then url else [])"
    by (auto simp: onHomeserverDiscovered_def lookup_state_def)
  then show ?thesis using assms False by (auto simp: lookup_state_def found_for_def)
qed

lemma login_history_good: "good_login h \<Longrightarrow> good_login (login_history h e)"
proof -
  obtain p outs es where h: "h = (p, outs, es)" by (cases h)
  assume "good_login h"
  then have good: "good_lookups (lookup_state p) outs es" by (simp add: good_login_def h)
  have keep: "good_lookups (lookup_state q) (outs @ out) (es @ [e])"
    if "lookup_state q = lookup_state p" "\<And>d i. DiscoverHomeserver d i \<notin> set out" for q out
    using lookups_quiet [OF good that(2)] that(1) by simp
  have same: "lookup_state (p\<lparr>lg_discoveryTimer := b\<rparr>) = lookup_state p" "lookup_state (p\<lparr>lg_initialTimer := b\<rparr>) = lookup_state p" for b
    by (simp_all add: lookup_state_def)
  have "good_lookups (lookup_state (fst (login_step p e))) (outs @ snd (login_step p e)) (es @ [e])"
  proof (cases e)
    case (TypeHomeserver str)
    have "good_lookups (str, 0, lg_nextDiscoveryRequestId p, []) outs (es @ [e])"
      using good by (auto simp: lookup_state_def)
    then show ?thesis using TypeHomeserver keep [of p "[]"] by (simp add: login_step_def)
  next
    case DiscoveryTimeout
    then show ?thesis using discovery_good [of "p\<lparr>lg_discoveryTimer := False\<rparr>" outs es e] keep [of p "[]"] good same
      by (simp add: login_step_def)
  next
    case InitialTimeout
    then show ?thesis using discovery_good [of "p\<lparr>lg_initialTimer := False\<rparr>" outs es e] keep [of p "[]"] good same
      by (simp add: login_step_def)
  next
    case (Discovered i success url)
    then show ?thesis using discovered_good [OF good] by (simp add: login_step_def)
  qed (intro keep; simp add: login_step_def)+
  then show ?thesis by (simp add: good_login_def login_history_def h split_beta Let_def)
qed

interpretation login: event_machine login_history good_login
  by unfold_locales (rule login_history_good)

lemma login_run_good: "good_login (login_run es)"
proof -
  have "good_login (new_login_page, [], [])"
    by (simp add: good_login_def new_login_page_def) (simp add: lookup_state_def one_domain_def)
  then show ?thesis unfolding login_run_def by (rule login.run_inv)
qed

lemma login_run_events: "snd (snd (login_run es)) = es"
proof -
  have "snd (snd (foldl login_history h es)) = snd (snd h) @ es" for h
    by (induction es arbitrary: h) (simp_all add: login_history_def split_beta Let_def)
  then show ?thesis by (simp add: login_run_def)
qed

lemma submit_login:
  "SendLogin server user password \<in> set (snd (login_step p e)) \<Longrightarrow>
   \<not> lg_submitting p \<and> lg_submitting (fst (login_step p e)) \<and> server = login_url p \<and> user = trimmed_key (lg_username p)
   \<and> password = lg_password p \<and> password \<noteq> [] \<and> (\<exists>secrets. e = ReturnInField secrets \<or> e = ClickSignInButton secrets)"
  by (cases e) (auto simp: login_step_def lg_submit_def lg_onReturn_def lg_setFieldsEnabled_def startDiscovery_def onLoginResult_def Let_def
    split: if_splits secret_setup.splits)

text \<open>The password in the field goes to the server that was the answer to the lookup of the address now in
  the field - no answer to another address is taken - or, without one, to that address.\<close>

theorem login_goes_to_typed_server:
  assumes "SendLogin server user password \<in> set (snd (login_step (fst (login_run es)) e))"
  shows "server = with_scheme (trimmed_key (lg_homeserver (fst (login_run es))))
    \<or> (\<exists>i. Discovered i True server \<in> set es
         \<and> (\<forall>d. DiscoverHomeserver d i \<in> set (fst (snd (login_run es))) \<longleftrightarrow> d = lookup_domain (lg_homeserver (fst (login_run es)))))"
proof -
  obtain p outs where r: "login_run es = (p, outs, es)" using login_run_events [of es] by (cases "login_run es") simp
  have good: "good_lookups (lookup_state p) outs es" using login_run_good [of es] by (simp add: good_login_def r)
  have "server = login_url p" using submit_login [OF assms] by (simp add: r)
  moreover have "\<exists>i. Discovered i True (lg_discoveredUrl p) \<in> set es \<and> (\<forall>d. DiscoverHomeserver d i \<in> set outs \<longleftrightarrow> d = lookup_domain (lg_homeserver p))"
    if url: "lg_discoveredUrl p \<noteq> []"
  proof -
    obtain i where i: "DiscoverHomeserver (lookup_domain (lg_homeserver p)) i \<in> set outs" "Discovered i True (lg_discoveredUrl p) \<in> set es"
      using good url by (auto simp: lookup_state_def found_for_def)
    moreover have "one_domain outs" using good by (simp add: lookup_state_def)
    ultimately show ?thesis using one_domainD [OF _ i(1)] by blast
  qed
  ultimately show ?thesis by (simp add: login_url_def r)
qed

text \<open>One login at a time: until the answer nothing is typed, clicked or sent.\<close>

definition login_locked :: "login_page \<Rightarrow> bool" where
  "login_locked p \<longleftrightarrow> (lg_submitting p \<longrightarrow> \<not> lg_fieldsEnabled p \<and> \<not> lg_linksEnabled p \<and> \<not> lg_nextEnabled p)"

lemma login_locked_step: "login_locked p \<Longrightarrow> login_locked (fst (login_step p e))"
  by (cases e) (auto simp: login_locked_def login_step_def lg_submit_def lg_onReturn_def lg_setFieldsEnabled_def startDiscovery_def onLoginResult_def
    lg_homeserverChanged_def lg_usernameChanged_def lg_passwordChanged_def lg_updateSubmitEnabled_def lg_activate_def
    onHomeserverDiscovered_def Let_def split: secret_setup.splits)

interpretation login_lock: event_machine "\<lambda>p e. fst (login_step p e)" login_locked
  by unfold_locales (rule login_locked_step)

lemma login_waits_for_answer:
  assumes "login_locked p" "lg_submitting p" "\<forall>success. e \<noteq> LoginAnswered success"
  shows "lg_submitting (fst (login_step p e)) \<and> lg_password (fst (login_step p e)) = lg_password p
    \<and> set (snd (login_step p e)) \<subseteq> {DiscoverHomeserver d i |d i. True}"
  using assms by (cases e) (auto simp: login_locked_def login_step_def startDiscovery_def lg_activate_def lg_updateSubmitEnabled_def
    onHomeserverDiscovered_def Let_def split: if_splits)

subsection \<open>The token of the server\<close>

definition fp_core :: "forgot_page \<Rightarrow> forgot_state \<times> qstring \<times> qstring \<times> qstring" where
  "fp_core p = (fp_state p, fp_server p, fp_sid p, fp_clientSecret p)"

lemma fp_core_simps [simp]:
  "fp_core (fp_updateSubmitEnabled p) = fp_core p"
  "fp_core (fp_setFieldsEnabled b p) = fp_core p"
  "fp_core (fp_setNewPassword str p) = fp_core p"
  "fp_core (fp_setConfirm str p) = fp_core p"
  "fp_core (fp_activate p) = fp_core p"
  "fp_core (onPasswordResetPageProbed colour i available url p) = fp_core p"
  "fp_core (fst (showDelegatedResetNotice p)) = fp_core p"
proof -
  show u: "fp_core (fp_updateSubmitEnabled q) = fp_core q" for q
    by (simp add: fp_updateSubmitEnabled_def fp_core_def split: forgot_state.split)
  show "fp_core (fp_setFieldsEnabled b p) = fp_core p" "fp_core (fp_setNewPassword str p) = fp_core p"
    "fp_core (fp_setConfirm str p) = fp_core p" "fp_core (fp_activate p) = fp_core p"
    by (simp_all add: fp_setFieldsEnabled_def fp_setNewPassword_def fp_setConfirm_def fp_activate_def u) (simp_all add: fp_core_def)
qed (simp_all add: onPasswordResetPageProbed_def showDelegatedResetNotice_def Let_def fp_core_def)

lemma fp_core_shown [simp]:
  "fp_core (p\<lparr>fp_error := m\<rparr>) = fp_core p" "fp_core (p\<lparr>fp_nextText := str\<rparr>) = fp_core p"
  "fp_core (p\<lparr>fp_submitting := b\<rparr>) = fp_core p" "fp_core (p\<lparr>fp_enabled := b\<rparr>) = fp_core p"
  "fp_core (p\<lparr>fp_homeserver := str\<rparr>) = fp_core p" "fp_core (p\<lparr>fp_email := str\<rparr>) = fp_core p"
  "fp_core (p\<lparr>fp_onScreen := b\<rparr>) = fp_core p"
  by (simp_all add: fp_core_def)

lemma fp_coreD: "fp_core q = fp_core p \<Longrightarrow> fp_state q = fp_state p \<and> fp_server q = fp_server p \<and> fp_sid q = fp_sid p \<and> fp_clientSecret q = fp_clientSecret p"
  by (simp add: fp_core_def)

lemmas fp_fields [simp] = fp_core_simps [THEN fp_coreD]

lemma fp_core_setState [simp]: "fp_core (setState st p) = (st, fp_server p, fp_sid p, fp_clientSecret p)"
  by (cases st) (simp_all add: setState_def Let_def, simp_all add: fp_core_def)

text \<open>What each operation leaves of it.\<close>

lemma submit_core: "fp_core (fst (fp_submit p)) =
    (fp_state p, if \<not> fp_submitting p \<and> fp_state p = EnterEmail \<and> trimmed_key (fp_homeserver p) \<noteq> [] \<and> trimmed_key (fp_email p) \<noteq> []
       then with_scheme (trimmed_key (fp_homeserver p)) else fp_server p, fp_sid p, fp_clientSecret p)"
proof -
  have "fp_core (fp_setFieldsEnabled False q\<lparr>fp_nextText := str, fp_server := server\<rparr>) = (fp_state q, server, fp_sid q, fp_clientSecret q)" for q str server
    by (simp add: fp_core_def fp_setFieldsEnabled_def)
  then show ?thesis by (cases "fp_state p") (auto simp: fp_submit_def Let_def, auto simp: fp_core_def)
qed

lemma token_core: "fp_core (fst (onPasswordResetTokenSent success sid cs err p)) =
    (if success then (WaitingForEmail, fp_server p, sid, cs) else fp_core p)"
  by (simp add: onPasswordResetTokenSent_def Let_def)

lemma complete_core: "fp_core (fst (onPasswordResetComplete success err p)) =
    (if success then (fp_state p, fp_server p, [], []) else fp_core p)"
  by (simp add: onPasswordResetComplete_def Let_def) (simp add: fp_core_def)

lemma submit_out:
  "RequestPasswordReset server mail \<in> set (snd (fp_submit p)) \<longleftrightarrow>
     \<not> fp_submitting p \<and> fp_state p = EnterEmail \<and> trimmed_key (fp_homeserver p) \<noteq> [] \<and> mail = trimmed_key (fp_email p) \<and> mail \<noteq> []
     \<and> server = with_scheme (trimmed_key (fp_homeserver p))"
  "ResetPassword server pw sid cs \<in> set (snd (fp_submit p)) \<longleftrightarrow>
     \<not> fp_submitting p \<and> fp_state p = EnterNewPassword \<and> pw = fp_newPassword p \<and> pw = fp_confirm p \<and> pw \<noteq> []
     \<and> server = fp_server p \<and> sid = fp_sid p \<and> cs = fp_clientSecret p"
  by (cases "fp_state p"; auto simp: fp_submit_def Let_def)+

text \<open>Only \<open>submit\<close> asks for a mail or sets a password.\<close>

lemma other_out:
  "RequestPasswordReset server mail \<notin> set (snd (onPasswordResetTokenSent success sid cs err p))"
  "RequestPasswordReset server mail \<notin> set (snd (onPasswordResetComplete success err p))"
  "ResetPassword server pw sid2 cs2 \<notin> set (snd (onPasswordResetTokenSent success sid cs err p))"
  "ResetPassword server pw sid2 cs2 \<notin> set (snd (onPasswordResetComplete success err p))"
  by (simp_all add: onPasswordResetTokenSent_def onPasswordResetComplete_def showDelegatedResetNotice_def Let_def)

lemma request_step:
  assumes "RequestPasswordReset server mail \<in> set (snd (forgot_step p e)) \<or> ResetPassword server pw sid cs \<in> set (snd (forgot_step p e))"
  shows "forgot_step p e = fp_submit p"
  using assms by (cases e) (auto simp: forgot_step_def Let_def other_out split: if_splits)

text \<open>The token at hand was issued, and the server at hand was asked for it.\<close>

definition good_forgot :: "forgot_page \<times> forgot_output list \<times> forgot_event list \<Rightarrow> bool" where
  "good_forgot h \<longleftrightarrow> (let (st, server, sid, cs) = fp_core (fst h) in
     (sid \<noteq> [] \<longrightarrow> (\<exists>err. TokenSent True sid cs err \<in> set (snd (snd h))))
     \<and> (server \<noteq> [] \<longrightarrow> (\<exists>mail. RequestPasswordReset server mail \<in> set (fst (snd h)))))"

lemma forgot_core_step:
  "fp_core (fst (forgot_step p e)) = fp_core p
   \<or> forgot_step p e = fp_submit p
   \<or> (\<exists>st. fp_core (fst (forgot_step p e)) = (st, fp_server p, fp_sid p, fp_clientSecret p) \<and> st \<noteq> EnterEmail)
   \<or> (\<exists>sid cs err. e = TokenSent True sid cs err \<and> fp_core (fst (forgot_step p e)) = (WaitingForEmail, fp_server p, sid, cs))
   \<or> fp_core (fst (forgot_step p e)) = (fp_state p, fp_server p, [], [])"
  by (cases e) (auto simp: forgot_step_def Let_def token_core complete_core)

lemma forgot_history_good: "good_forgot h \<Longrightarrow> good_forgot (forgot_history h e)"
proof -
  obtain p outs es where h: "h = (p, outs, es)" by (cases h)
  assume "good_forgot h"
  then have sid: "fp_sid p \<noteq> [] \<Longrightarrow> \<exists>err. TokenSent True (fp_sid p) (fp_clientSecret p) err \<in> set es"
    and server: "fp_server p \<noteq> [] \<Longrightarrow> \<exists>mail. RequestPasswordReset (fp_server p) mail \<in> set outs"
    by (simp_all add: good_forgot_def h fp_core_def)
  have e: "forgot_history h e = (fst (forgot_step p e), outs @ snd (forgot_step p e), es @ [e])"
    by (simp add: forgot_history_def h split_beta Let_def)
  show ?thesis
  proof (cases "forgot_step p e = fp_submit p")
    case True
    show ?thesis unfolding e True good_forgot_def using sid server submit_out(1) by (auto simp: submit_core)
  next
    case False
    with forgot_core_step [of p e] have "(\<exists>st. fp_core (fst (forgot_step p e)) = (st, fp_server p, fp_sid p, fp_clientSecret p))
      \<or> (\<exists>sid cs err. e = TokenSent True sid cs err \<and> fp_core (fst (forgot_step p e)) = (WaitingForEmail, fp_server p, sid, cs))
      \<or> fp_core (fst (forgot_step p e)) = (fp_state p, fp_server p, [], [])"
      by (auto simp: fp_core_def)
    then show ?thesis unfolding e good_forgot_def using sid server by (elim disjE exE conjE) auto
  qed
qed

interpretation forgot: event_machine forgot_history good_forgot
  by unfold_locales (rule forgot_history_good)

lemma forgot_run_events: "snd (snd (forgot_run es)) = es"
proof -
  have "snd (snd (foldl forgot_history h es)) = snd (snd h) @ es" for h
    by (induction es arbitrary: h) (simp_all add: forgot_history_def split_beta Let_def)
  then show ?thesis by (simp add: forgot_run_def)
qed

text \<open>C27: A new password is what both fields hold, sent to the server that was asked for the mail, with the
  token and the secret of one answer of it - unless the token is empty.\<close>

theorem reset_uses_issued_token:
  assumes "ResetPassword server pw sid cs \<in> set (snd (forgot_step (fst (forgot_run es)) e))"
  shows "pw \<noteq> [] \<and> pw = fp_newPassword (fst (forgot_run es)) \<and> pw = fp_confirm (fst (forgot_run es))
    \<and> (sid \<noteq> [] \<longrightarrow> (\<exists>err. TokenSent True sid cs err \<in> set es))
    \<and> (server \<noteq> [] \<longrightarrow> (\<exists>mail. RequestPasswordReset server mail \<in> set (fst (snd (forgot_run es)))))"
proof -
  have "good_forgot (new_forgot_page, [], [])"
    by (simp add: good_forgot_def new_forgot_page_def) (simp add: fp_core_def)
  then have "good_forgot (forgot_run es)" unfolding forgot_run_def by (rule forgot.run_inv)
  moreover have "forgot_step (fst (forgot_run es)) e = fp_submit (fst (forgot_run es))" using request_step assms by blast
  with assms have "ResetPassword server pw sid cs \<in> set (snd (fp_submit (fst (forgot_run es))))" by simp
  ultimately show ?thesis by (auto simp: submit_out(2) good_forgot_def fp_core_def forgot_run_events)
qed

definition mail_sent :: "forgot_event list" where
  "mail_sent = [ShowForgot, TypeServer ''s.org'', TypeEmail ''m@s.org'', ClickNextButton, TokenSent True ''sid'' ''cs'' []]"

definition password_typed :: "forgot_event list" where
  "password_typed = mail_sent @ [ClickEmailConfirmed, TypeNewPassword ''new'', TypeConfirm ''new'']"

theorem reset_uses_issued_token_witness:
  "fp_newPassword (fst (forgot_run password_typed)) = ''new'' \<and> fp_confirm (fst (forgot_run password_typed)) = ''new''
    \<and> (\<exists>err. TokenSent True ''sid'' ''cs'' err \<in> set password_typed)
    \<and> (\<exists>mail. RequestPasswordReset ''https://s.org'' mail \<in> set (fst (snd (forgot_run password_typed))))"
proof -
  have "ResetPassword ''https://s.org'' ''new'' ''sid'' ''cs'' \<in> set (snd (forgot_step (fst (forgot_run password_typed)) ClickNextButton))"
    by code_simp
  from reset_uses_issued_token [OF this] show ?thesis by auto
qed

subsection \<open>What the reset page cannot do\<close>

text \<open>Once a mail is sent the page never comes back to its first state and never sends another mail, whatever
  the user clicks (\<open>Resend\<close> included) and however often the page is left and shown again.\<close>

lemma never_back_step:
  "fp_state p \<noteq> EnterEmail \<Longrightarrow> fp_state (fst (forgot_step p e)) \<noteq> EnterEmail \<and> RequestPasswordReset server mail \<notin> set (snd (forgot_step p e))"
proof -
  assume st: "fp_state p \<noteq> EnterEmail"
  have "fp_state (fst (forgot_step p e)) \<noteq> EnterEmail"
    using forgot_core_step [of p e] st submit_core [of p] by (auto simp: fp_core_def)
  moreover have "RequestPasswordReset server mail \<notin> set (snd (forgot_step p e))"
    using st request_step [of server mail p e] submit_out(1) [of server mail p] by auto
  ultimately show ?thesis by blast
qed

lemma one_mail_only:
  assumes "fp_state (fst h) \<noteq> EnterEmail"
  shows "fp_state (fst (foldl forgot_history h es)) \<noteq> EnterEmail
    \<and> (RequestPasswordReset server mail \<in> set (fst (snd (foldl forgot_history h es))) \<longleftrightarrow> RequestPasswordReset server mail \<in> set (fst (snd h)))"
  using assms
proof (induction es arbitrary: h)
  case (Cons e es)
  have "fp_state (fst (forgot_history h e)) \<noteq> EnterEmail
      \<and> (RequestPasswordReset server mail \<in> set (fst (snd (forgot_history h e))) \<longleftrightarrow> RequestPasswordReset server mail \<in> set (fst (snd h)))"
    using never_back_step [OF Cons.prems, of e server mail] by (auto simp: forgot_history_def split_beta Let_def)
  then show ?case using Cons.IH [of "forgot_history h e"] by simp
qed simp

lemma resend_does_nothing: "forgot_run (mail_sent @ [ClickResend]) =
    (fst (forgot_run mail_sent), [RequestPasswordReset ''https://s.org'' ''m@s.org''], mail_sent @ [ClickResend])"
  by code_simp

text \<open>After a password was set, the next visit asks for a new password again and sends it with an empty token.\<close>

lemma spent_token_sent:
  "\<exists>outs. fst (snd (forgot_run (mail_sent @ [ClickEmailConfirmed, TypeNewPassword ''a'', TypeConfirm ''a'', ClickNextButton,
       ResetAnswered True, ShowForgot, TypeNewPassword ''b'', TypeConfirm ''b'', ClickNextButton])))
     = outs @ [PasswordResetSuccess, ResetPassword ''https://s.org'' ''b'' [] []]"
  by (rule exI [of _ "[RequestPasswordReset ''https://s.org'' ''m@s.org'', ResetPassword ''https://s.org'' ''a'' ''sid'' ''cs'']"]) code_simp

text \<open>Why a password was refused is not passed on: the bridge replaces every reason by one text, and the texts for an
  address that is not confirmed or a server that has no reset never show.\<close>

lemma refusal_not_explained:
  "fp_error (fst (forgot_step p (ResetAnswered False))) = Some ''Password reset failed'' \<and> snd (forgot_step p (ResetAnswered False)) = []"
proof -
  have "\<not> has_part ''M_UNAUTHORIZED'' ''Password reset failed'' \<and> \<not> has_part ''M_UNRECOGNIZED'' ''Password reset failed''
      \<and> \<not> has_part ''M_FORBIDDEN'' ''Password reset failed''" by code_simp
  moreover have "friendlyError ''Password reset failed'' [] = ''Password reset failed''" by code_simp
  moreover have "friendlyError ''Password reset failed'' (c # cs) = ''Password reset failed''" for c cs
    unfolding friendlyError_def by code_simp
  then have "friendlyError ''Password reset failed'' server = ''Password reset failed''" for server
    using \<open>friendlyError ''Password reset failed'' [] = ''Password reset failed''\<close> by (cases server) auto
  ultimately show ?thesis
    by (simp add: forgot_step_def onPasswordResetComplete_def bridge_reset_error_def Let_def)
qed

text \<open>The late answer about the website of one server replaces the error of a later attempt at another one.\<close>

lemma newer_error_replaced:
  "fp_error (fst (forgot_run [ShowForgot, TypeServer ''a.org'', TypeEmail ''m@a.org'', ClickNextButton, TokenSent False [] [] ''M_UNRECOGNIZED: x'',
     TypeServer ''b.org'', ClickNextButton, TokenSent False [] [] ''M_THREEPID_NOT_FOUND: x'', PageProbed ''#24702f'' 1 True ''https://a.org/reset'']))
   = Some (delegated_link ''https://a.org/reset'' ''#24702f'')"
  by code_simp

text \<open>An address that merely starts like a scheme gets none: no request can be made of it.\<close>

lemma http_host_without_scheme:
  "fst (snd (forgot_run [ShowForgot, TypeServer ''httpd.org'', TypeEmail ''m@httpd.org'', ClickNextButton])) = [RequestPasswordReset ''httpd.org'' ''m@httpd.org'']"
  by code_simp

end
