(* ===== verification/Spec2Isabelle.thy ===== *)
theory Spec2Isabelle imports
  Unread_Properties Timeline_Content Pinned_State Message_Index Unread_Bar History_States Drafts
  Core_Settings Device_Settings App_Controller Update_Service List_Reactions Sticky_Date Dialogs_Refresh
  Media_Properties Outgoing_Properties Inline_Video Verification_Owners
  Linux_Properties Win_Toasts Chat_Rules Register_Properties Sign_In_Properties
begin

text \<open>
  A verification library of TeleMatrix, a desktop client for Matrix written in C++ and Qt.

  \<^bold>\<open>The program.\<close>  A Rust crate (\<^verbatim>\<open>src/rust\<close>) speaks to the homeserver; \<^verbatim>\<open>protocol_bridge.cpp\<close> wraps
  its C interface as calls and signals of the main thread.  Everything modelled here runs on that
  thread, one event at a time: \<open>AppController\<close> owns the accounts, each account has a
  main window with the chat list (\<^verbatim>\<open>src/src/dialogs\<close>) and the chat view (\<^verbatim>\<open>src/src/history\<close>), and the
  pages that verify sessions and users (\<^verbatim>\<open>src/src/intro\<close>, \<^verbatim>\<open>src/src/settings/dialogs\<close>).  The chat list and
  the chat view share the unread store and the media cache; the chat view prepares every slice of
  the timeline before its message list shows it.

  \<^bold>\<open>How it is modelled.\<close>  A class is a record of its members, a method a function from the old
  state to the new one, with the signals it emits and the calls it makes as a list where
  somebody reads them; a slot that is a lambda is a function named after its signal.  A component
  that lives through events has a datatype of them, a step function and runs as folds.  What the
  program asks of Qt, the file system, the clock, the font engine and the backend is a parameter: a
  field of an environment record or a value the event carries.  A \<open>QString\<close> is a list of characters, a
  \<open>QHash\<close> an association list with one entry per key (\<open>hash_ok\<close>), \<open>int\<close> and \<open>qint64\<close> are integers where
  the code stays far from their bounds and words (\<open>quint64\<close>, UTF-16 units, request revisions) where
  it counts, wraps or compares bytes; \<open>float\<close> fractions are reals.

  \<^bold>\<open>Foundations.\<close>
  \<^item> \<open>TM_Prelude\<close>: hashes, \<open>qBound\<close>, runs, and the interfaces: \<open>event_machine\<close> and \<open>guarded_machine\<close> (an
    invariant every event keeps), \<open>signalling_machine\<close> (a listener that replays the signals is never
    stale), \<open>simulation\<close> (a machine that follows its specification), \<open>one_shot\<close> (requests served once),
    \<open>bounded_stack\<close>.
  \<^item> \<open>Stable_Sort\<close>: \<open>std::stable_sort\<close> with a comparator, over the interface \<open>weak_order\<close>.
  \<^item> \<open>Protocol_Types\<close>, \<open>Timeline_Content\<close>: timeline items and their accessors (interface \<open>optional_part\<close>).
  \<^item> \<open>Json_Values\<close>: the JSON the settings are stored in.

  \<^bold>\<open>Unread state.\<close>  \<open>Unread_Store\<close> is \<^verbatim>\<open>app/unread_state_store.cpp\<close>: what each badge shows, from the
  server's counts and what the user has read in the meantime.  \<open>Unread_Correct\<close> gives the stages of
  \<open>recomputeEffectiveState\<close> a closed form and the store its invariant; \<open>Unread_Properties\<close> shows that
  reads stay read until something new arrives and that the listeners of the badge and of the open
  chat are never stale.  \<open>Unread_Bar\<close> is the delimiter, the detection of reads and the routing of
  jumps (\<^verbatim>\<open>unread_bar_placement.cpp\<close>, \<^verbatim>\<open>unread_read_progress.h\<close>, \<^verbatim>\<open>jump_*.cpp\<close>): the delimiter never slides.

  \<^bold>\<open>The message list.\<close>  \<open>Message_Index\<close> (\<^verbatim>\<open>message_index.cpp\<close>) refines a linear search.
  \<open>Message_Layout\<close> shows that the incremental layouts of \<^verbatim>\<open>history_list.cpp\<close> give the rows a full one
  gives, and that hit tests find the row of a pixel; \<open>Sticky_Date\<close> is its other binary search.
  \<open>History_List\<close> has the operations of \<open>HistoryList\<close> on messages, rows and scroll position,
  \<open>List_Reactions\<close> those on reactions; \<open>List_Properties\<close> shows that messages, rows and index always
  agree, where the reader's place goes, and the cases in which the comments promise more.
  \<open>History_States\<close> holds the small classes (return stack, selection, scroll states, media
  requests, typing, receipts, playback), \<open>Pinned_State\<close> the pinned bar, \<open>Drafts\<close> unsent messages.

  \<^bold>\<open>Sending.\<close>  \<open>Slice_Merge\<close>, \<open>Outgoing_Media\<close> and \<open>Outgoing_Events\<close> are the part of
  \<^verbatim>\<open>history_widget.cpp\<close> that shows messages before the server has them: echoes, uploads, what is done to
  a slice before the list gets it, cancelling and sending again.  \<open>Outgoing_Properties\<close> shows that
  bubbles stay until their message arrives, that cancelled uploads never return, that nothing
  acknowledged is sent twice and everything failed is sent again when the network returns.

  \<^bold>\<open>The chat list.\<close>  \<open>Dialogs_Row\<close> (rows and search scores), \<open>Dialogs_List\<close>, \<open>Dialogs_Pins\<close> and
  \<open>Dialogs_Events\<close> are \<^verbatim>\<open>dialogs_row.cpp\<close> and \<^verbatim>\<open>dialogs_inner.cpp\<close>: after any events the list shows exactly the
  rooms of the filter or search, in order, and a drop moves the row that was dragged.
  \<open>Dialogs_Refresh\<close> is what \<^verbatim>\<open>dialogs_widget.cpp\<close> keeps while the server answers: pins, reads and rooms
  just joined survive a refresh that does not know of them yet.

  \<^bold>\<open>Media.\<close>  \<open>Media_Cache\<close> and \<open>Media_Properties\<close> are \<^verbatim>\<open>media_cache.cpp\<close> with \<^verbatim>\<open>media_retry_policy.cpp\<close>: seven
  pools (interpretations of \<open>bounded_pool\<close>) within their bounds, evicted by age, and requests spaced
  out after failures.  \<open>Video_Policies\<close> are the decision machines of \<^verbatim>\<open>src/src/media\<close>, \<open>Inline_Video\<close> the player
  of \<^verbatim>\<open>history_inline_video.cpp\<close> with its timers and retries.

  \<^bold>\<open>Notifications.\<close>  \<open>Notification_System\<close> is \<^verbatim>\<open>notifications_manager.cpp\<close> over all accounts with the slots of
  \<^verbatim>\<open>app_controller.cpp\<close>, \<open>Toast_Registry\<close> and \<open>Linux_Toasts\<close> the manager of Linux, \<open>Win_Toasts\<close> keys, documents and
  clicks of the one of Windows.  \<open>Notification_Properties\<close>: what the settings hide leaves no trace, an
  event is shown once, the badge settles on the total; \<open>Linux_Properties\<close>: toasts are closed when
  their room is read, and replies leave from the account they are for.

  \<^bold>\<open>Writing.\<close>  \<open>Compose_Html\<close> is the serializer of the input field: one element for each run of lines of
  one kind.  \<open>Chat_Rules\<close> has mentions, previews, forward targets and the room directory.

  \<^bold>\<open>Verification.\<close>  \<open>Verification_Pages\<close> has the rules of \<^verbatim>\<open>verification_page_rules.cpp\<close>, the start calls of
  the bridge and the emoji and QR pages, \<open>Verification_Flow\<close> the other pages and the flow of the
  session, \<open>Verify_User\<close> the dialog for another user and all windows on one bridge, \<open>Recovery_Key\<close> the
  format of keys.  \<open>Verification_Properties\<close> shows what must have happened before a user is called
  verified or "They match" can be clicked, and that abandoned starts are cancelled; \<open>Verification_Owners\<close>
  that no two windows ever wait for the reply of the same start call.

  \<^bold>\<open>First-run pages.\<close>  \<open>Register_Page\<close> is \<^verbatim>\<open>intro_register.cpp\<close>; \<open>Register_Properties\<close> shows that a password goes
  only to a server classified from the address in the field, and that the page takes a way through
  the server's stages that it can finish when there is one.  \<open>Sign_In_Pages\<close> is \<^verbatim>\<open>intro_login.cpp\<close> and
  \<^verbatim>\<open>intro_forgot_password.cpp\<close>; \<open>Sign_In_Properties\<close> shows where the password typed for signing in goes, that
  a new password is sent with a token the server issued, and that the reset page sends one mail
  only, can not start over and does not say why a password was refused.

  \<^bold>\<open>Accounts, settings, updates.\<close>  \<open>Account_List\<close>, \<open>Accounts\<close> and \<open>App_Controller\<close> are \<^verbatim>\<open>account_index.cpp\<close>,
  \<^verbatim>\<open>account.cpp\<close>, \<^verbatim>\<open>account_domain.cpp\<close> and the account policies of \<^verbatim>\<open>app_controller.cpp\<close>: the settings file reads
  back what was written, the active account exists, and only accounts whose secrets are known to
  be gone are swept.  \<open>Core_Settings\<close>, \<open>Device_Settings\<close> and \<open>Recents\<close> are \<^verbatim>\<open>core_settings.cpp\<close>,
  \<open>Update_Service\<close> is \<^verbatim>\<open>update_service.cpp\<close>: nothing is installed without consent.

  \<^bold>\<open>Bounds and termination.\<close>  No definition needs fuel: loops are structural recursions or functions
  with a measure (the binary searches, the search for a free directory name, the loop over sender
  groups).  Bounds in statements are the program's own constants, e.g. 2400 polls of a wait, three
  replays of a stream, the sizes of the pools.

  \<^bold>\<open>Where the code falls short.\<close>  Lemmas near the end of the theories show runs in which the code does not
  keep what its comments promise: echoes lost by a slice, a page of the verification that adopts
  the flow of another window, a video that spins for ever,
  a reply that leaves from the wrong account, a form that
  never comes back.

  \<^bold>\<open>Not modelled.\<close>  Painting and text measurement (\<^verbatim>\<open>history_message.cpp\<close>, most of \<^verbatim>\<open>media_view_overlay.cpp\<close>,
  the layout of rows in pixels beyond their heights), editing in the widgets (\<^verbatim>\<open>history_input.cpp\<close>), dialogs
  and settings pages that only wire widgets to bridge calls, the marshalling of
  \<^verbatim>\<open>protocol_bridge.cpp\<close>, themes, the frame of the first-run pages, and calls of the operating system: they compute
  nothing that could be stated without their libraries, or state nothing the models above do not.
  The Rust crate and everything below \<^verbatim>\<open>lib/\<close> are outside; threads appear as the event that delivers
  their result.
\<close>

end
